(* ===== verification/Aurora_Prelude.thy ===== *)
theory Aurora_Prelude
  imports Complex_Main "HOL-Library.AList" "HOL-Library.Multiset" "HOL-Library.Word"
begin

text \<open>
  What every theory of the development shares: the names of the basic types, Python
  dictionaries as association lists in insertion order, Python's \<open>min\<close> with a key, and
  the lemma collections that the component proofs use.
\<close>

section \<open>Basic types\<close>

text \<open>
  Clock readings (\<open>time.monotonic\<close>) and durations are exact rationals: floating-point
  rounding is not modelled. Python's unbounded integers are \<open>int\<close>, byte strings are lists of
  8-bit words, character strings are \<open>string\<close>.
\<close>

type_synonym seconds = rat
type_synonym bytes = "8 word list"

named_theorems dict_simps \<open>association-list dictionaries\<close>
named_theorems frame_simps \<open>parts of a state that an operation leaves alone\<close>

section \<open>Dictionaries\<close>

text \<open>
  A Python \<open>dict\<close> iterates in insertion order, and the code depends on that order where it
  breaks ties, so a dictionary is an association list with distinct keys. Assignment to an
  existing key keeps its place and assignment to a new key appends (\<open>AList.update\<close>); \<open>del\<close>
  and \<open>pop\<close> remove the key (\<open>AList.delete\<close>); \<open>get\<close> is \<open>map_of\<close>.
\<close>

type_synonym ('k, 'v) dict = "('k \<times> 'v) list"

abbreviation dict_get :: "('k, 'v) dict \<Rightarrow> 'k \<Rightarrow> 'v option" where
  "dict_get \<equiv> map_of"

abbreviation dict_set :: "'k \<Rightarrow> 'v \<Rightarrow> ('k, 'v) dict \<Rightarrow> ('k, 'v) dict" where
  "dict_set \<equiv> AList.update"

abbreviation dict_del :: "'k \<Rightarrow> ('k, 'v) dict \<Rightarrow> ('k, 'v) dict" where
  "dict_del \<equiv> AList.delete"

abbreviation dict_keys :: "('k, 'v) dict \<Rightarrow> 'k list" where
  "dict_keys d \<equiv> map fst d"

definition dict_wf :: "('k, 'v) dict \<Rightarrow> bool" where
  "dict_wf d \<longleftrightarrow> distinct (dict_keys d)"

lemma dict_wf_Nil [simp]: "dict_wf []"
  by (simp add: dict_wf_def)

lemma dict_wf_set [simp, intro]: "dict_wf d \<Longrightarrow> dict_wf (dict_set k v d)"
  by (simp add: dict_wf_def distinct_update)

lemma dict_wf_del [simp, intro]: "dict_wf d \<Longrightarrow> dict_wf (dict_del k d)"
  by (simp add: dict_wf_def distinct_delete)

lemma dict_wf_filter [simp, intro]: "dict_wf d \<Longrightarrow> dict_wf (filter P d)"
  by (simp add: dict_wf_def distinct_map_filter)

lemma dict_keys_filter [dict_simps]:
  "dict_keys (filter (\<lambda>p. P (fst p)) d) = filter P (dict_keys d)"
  by (induction d) auto

lemma dict_get_in: "dict_get d k = Some v \<Longrightarrow> (k, v) \<in> set d"
  by (rule map_of_SomeD)

lemma dict_in_get: "dict_wf d \<Longrightarrow> (k, v) \<in> set d \<Longrightarrow> dict_get d k = Some v"
  by (simp add: dict_wf_def)

lemma dict_get_iff: "dict_wf d \<Longrightarrow> dict_get d k = Some v \<longleftrightarrow> (k, v) \<in> set d"
  by (auto intro: dict_get_in dict_in_get)

lemma dict_get_del [dict_simps]:
  "dict_get (dict_del k d) j = (if j = k then None else dict_get d j)"
  by (simp add: delete_conv')

lemma dict_get_set [dict_simps]:
  "dict_get (dict_set k v d) j = (if j = k then Some v else dict_get d j)"
  by (simp add: update_conv')

lemma dict_get_map_values [dict_simps]:
  "dict_get (map (\<lambda>p. (fst p, f (snd p))) d) k = map_option f (dict_get d k)"
  by (induction d) auto

lemma dict_get_append:
  "dict_get (d @ e) k = (case dict_get d k of None \<Rightarrow> dict_get e k | Some v \<Rightarrow> Some v)"
  by (simp add: map_add_def split: option.splits)

lemma dict_get_filter:
  "dict_wf d \<Longrightarrow> dict_get (filter P d) k =
     (case dict_get d k of None \<Rightarrow> None | Some v \<Rightarrow> if P (k, v) then Some v else None)"
proof (induction d)
  case Nil
  then show ?case by simp
next
  case (Cons p d)
  obtain j v where p: "p = (j, v)" by (cases p)
  from Cons.prems have wf: "dict_wf d" and fresh: "j \<notin> fst ` set d"
    by (auto simp: dict_wf_def p)
  have none: "dict_get d j = None" using fresh by (simp add: map_of_eq_None_iff)
  show ?case
    using Cons.IH [OF wf] none by (auto simp: p split: option.splits)
qed

lemma dict_wf_eq: "dict_wf d \<Longrightarrow> p \<in> set d \<Longrightarrow> q \<in> set d \<Longrightarrow> fst p = fst q \<Longrightarrow> p = q"
  by (metis dict_in_get option.inject prod.collapse)

lemma dict_key_filter_iff:
  assumes "dict_wf d" and "p \<in> set d"
  shows "fst p \<in> set (map fst (filter P d)) \<longleftrightarrow> P p"
proof
  assume "fst p \<in> set (map fst (filter P d))"
  then obtain q where "q \<in> set d" and "P q" and "fst q = fst p" by auto
  with assms show "P p" using dict_wf_eq by metis
qed (use assms in auto)

lemma length_dict_del_in:
  "dict_wf d \<Longrightarrow> k \<in> set (dict_keys d) \<Longrightarrow> length (dict_del k d) = length d - 1"
proof (induction d)
  case Nil
  then show ?case by simp
next
  case (Cons p d)
  have wf: "dict_wf d" and fresh: "fst p \<notin> set (dict_keys d)"
    using Cons.prems(1) by (auto simp: dict_wf_def)
  show ?case
  proof (cases "fst p = k")
    case True
    with fresh have "dict_del k d = d" by simp
    with True show ?thesis by simp
  next
    case False
    with Cons.prems(2) have mem: "k \<in> set (dict_keys d)" by auto
    then have "d \<noteq> []" by auto
    then have "0 < length d" by simp
    with Cons.IH [OF wf mem] False show ?thesis by simp
  qed
qed

lemma dict_set_new: "k \<notin> set (dict_keys d) \<Longrightarrow> dict_set k v d = d @ [(k, v)]"
  by (induction d) auto

lemma length_dict_set_old: "k \<in> set (dict_keys d) \<Longrightarrow> length (dict_set k v d) = length d"
  by (induction d) auto

lemma dict_get_NoneD: "dict_get d k = None \<Longrightarrow> k \<notin> set (dict_keys d)"
  by (simp add: map_of_eq_None_iff)

lemma dict_get_SomeD: "dict_get d k = Some v \<Longrightarrow> k \<in> set (dict_keys d)"
  by (metis dict_get_in fst_conv image_eqI set_map)

lemma fold_dict_del:
  "fold dict_del ks d = filter (\<lambda>p. fst p \<notin> set ks) d"
proof (induction ks arbitrary: d)
  case Nil
  then show ?case by simp
next
  case (Cons k ks)
  have "dict_del k d = filter (\<lambda>p. fst p \<noteq> k) d"
    by (induction d) auto
  then show ?case by (simp add: Cons.IH conj_commute)
qed

lemma fold_dict_del_filter:
  assumes "dict_wf d"
  shows "fold dict_del (map fst (filter P d)) d = filter (\<lambda>p. \<not> P p) d"
  unfolding fold_dict_del by (rule filter_cong) (use dict_key_filter_iff [OF assms] in auto)

lemma dict_set_set [dict_simps]: "dict_set k v (dict_set k u d) = dict_set k v d"
  by (induction d) auto

lemma in_dict_set: "p \<in> set (dict_set k v d) \<Longrightarrow> p = (k, v) \<or> p \<in> set d"
  by (induction d) (auto split: if_splits)

lemma length_dict_del_less: "p \<in> set d \<Longrightarrow> length (dict_del (fst p) d) < length d"
  by (induction d) (auto simp: less_Suc_eq_le length_delete_le)

section \<open>The first minimal element\<close>

text \<open>Python's \<open>min(xs, key=f)\<close>: the first of the elements with the least key.\<close>

fun min_by :: "('a \<Rightarrow> 'b::linorder) \<Rightarrow> 'a list \<Rightarrow> 'a option" where
  "min_by f [] = None"
| "min_by f (x # xs) =
     (case min_by f xs of None \<Rightarrow> Some x | Some y \<Rightarrow> if f x \<le> f y then Some x else Some y)"

lemma min_by_None [simp]: "min_by f xs = None \<longleftrightarrow> xs = []"
  by (cases xs) (auto split: option.splits)

lemma min_by_in: "min_by f xs = Some x \<Longrightarrow> x \<in> set xs"
  by (induction xs arbitrary: x) (auto split: option.splits if_splits)

lemma min_by_least: "min_by f xs = Some x \<Longrightarrow> \<forall>y \<in> set xs. f x \<le> f y"
proof (induction xs arbitrary: x)
  case Nil
  then show ?case by simp
next
  case (Cons z zs)
  show ?case
  proof (cases "min_by f zs")
    case None
    with Cons.prems show ?thesis by simp
  next
    case (Some m)
    from Cons.IH [OF Some] Cons.prems Some show ?thesis by (fastforce split: if_splits)
  qed
qed

lemma min_by_le: "min_by f xs = Some x \<Longrightarrow> y \<in> set xs \<Longrightarrow> f x \<le> f y"
  by (blast dest: min_by_least)

lemma min_by_cases:
  assumes "xs \<noteq> []"
  obtains x where "min_by f xs = Some x" and "x \<in> set xs" and "\<And>y. y \<in> set xs \<Longrightarrow> f x \<le> f y"
proof -
  from assms obtain x where "min_by f xs = Some x" by (cases "min_by f xs") auto
  with that show thesis by (blast intro: min_by_in min_by_le)
qed

section \<open>Characters\<close>

text \<open>Python's \<open>ord\<close>; \<open>in_range lo hi c\<close> is a range of a character class.\<close>

definition ord_of :: "char \<Rightarrow> nat" where
  "ord_of c = of_char c"

definition in_range :: "char \<Rightarrow> char \<Rightarrow> char \<Rightarrow> bool" where
  "in_range lo hi c \<longleftrightarrow> ord_of lo \<le> ord_of c \<and> ord_of c \<le> ord_of hi"

section \<open>Filtered lists\<close>

lemma length_filter_mono:
  assumes "\<And>x. x \<in> set xs \<Longrightarrow> P x \<Longrightarrow> Q x"
  shows "length (filter P xs) \<le> length (filter Q xs)"
  using assms by (induction xs) (auto simp: le_SucI)

text \<open>Python's \<open>str.startswith\<close>.\<close>

definition starts_with :: "string \<Rightarrow> string \<Rightarrow> bool" where
  "starts_with p s \<longleftrightarrow> take (length p) s = p"

end
