(* ===== verification/Control_Types.thy ===== *)
theory Control_Types
  imports Aurora_Prelude
begin

text \<open>
  The identifiers the control plane is built from (\<open>config/models.py\<close>, lines 60 to 81, and
  \<open>control_plane/audit.py\<close>): the device operations, the security events and reason codes,
  and the audit log. A \<open>SecurityAudit\<close> holds only its sink, so its two \<open>emit\<close> methods are
  functions on the list of the records the sink has received. Constructors of \<open>AuditReason\<close>
  carry the prefix \<open>AR_\<close>, because other enumerations of the code use the same names.
\<close>

section \<open>Operations\<close>

datatype WLEDOperation = POWER_ON | POWER_OFF | BRIGHTNESS_SET

primrec wled_operation_value :: "WLEDOperation \<Rightarrow> string" where
  "wled_operation_value POWER_ON = ''wled.power_on''"
| "wled_operation_value POWER_OFF = ''wled.power_off''"
| "wled_operation_value BRIGHTNESS_SET = ''wled.brightness_set''"

datatype HyperHDROperation =
  VIDEO_GRABBER_ENABLE | VIDEO_GRABBER_DISABLE | LED_OUTPUT_ENABLE | LED_OUTPUT_DISABLE

primrec hyperhdr_operation_value :: "HyperHDROperation \<Rightarrow> string" where
  "hyperhdr_operation_value VIDEO_GRABBER_ENABLE = ''hyperhdr.video_grabber_enable''"
| "hyperhdr_operation_value VIDEO_GRABBER_DISABLE = ''hyperhdr.video_grabber_disable''"
| "hyperhdr_operation_value LED_OUTPUT_ENABLE = ''hyperhdr.led_output_enable''"
| "hyperhdr_operation_value LED_OUTPUT_DISABLE = ''hyperhdr.led_output_disable''"

datatype AuroraOperation = AMBIENT_ON | AMBIENT_OFF

primrec aurora_operation_value :: "AuroraOperation \<Rightarrow> string" where
  "aurora_operation_value AMBIENT_ON = ''aurora.ambient_on''"
| "aurora_operation_value AMBIENT_OFF = ''aurora.ambient_off''"

text \<open>The union type that \<open>emit_operation\<close> accepts.\<close>

datatype control_operation =
    Op_WLED WLEDOperation
  | Op_HyperHDR HyperHDROperation
  | Op_Aurora AuroraOperation

primrec operation_value :: "control_operation \<Rightarrow> string" where
  "operation_value (Op_WLED x) = wled_operation_value x"
| "operation_value (Op_HyperHDR x) = hyperhdr_operation_value x"
| "operation_value (Op_Aurora x) = aurora_operation_value x"

section \<open>Audit events and reasons\<close>

datatype (plugins only: code size) AuditEvent =
    LOGIN_SUCCEEDED
  | LOGIN_FAILED
  | LOGIN_RATE_LIMITED
  | LOGOUT_SUCCEEDED
  | PROTECTED_PAGE_DENIED
  | PROTECTED_API_DENIED
  | CSRF_REJECTED
  | AUTHENTICATION_REQUEST_REJECTED
  | SESSION_REJECTED
  | WLED_OPERATION_SUCCEEDED
  | WLED_OPERATION_FAILED
  | WLED_OPERATION_DENIED
  | WLED_OPERATION_RATE_LIMITED
  | WLED_OPERATION_BUSY
  | WLED_CONFIRMATION_REJECTED
  | WLED_STATE_VERIFICATION_FAILED
  | HYPERHDR_OPERATION_SUCCEEDED
  | HYPERHDR_OPERATION_FAILED
  | HYPERHDR_OPERATION_DENIED
  | HYPERHDR_OPERATION_RATE_LIMITED
  | HYPERHDR_OPERATION_BUSY
  | HYPERHDR_CONFIRMATION_REJECTED
  | HYPERHDR_STATE_VERIFICATION_FAILED
  | AURORA_OPERATION_SUCCEEDED
  | AURORA_OPERATION_PARTIALLY_COMPLETED
  | AURORA_OPERATION_DENIED
  | AURORA_OPERATION_RATE_LIMITED
  | AURORA_OPERATION_BUSY
  | AURORA_OPERATION_FAILED
  | AURORA_OPERATION_UNVERIFIED

primrec audit_event_value :: "AuditEvent \<Rightarrow> string" where
  "audit_event_value LOGIN_SUCCEEDED = ''login_succeeded''"
| "audit_event_value LOGIN_FAILED = ''login_failed''"
| "audit_event_value LOGIN_RATE_LIMITED = ''login_rate_limited''"
| "audit_event_value LOGOUT_SUCCEEDED = ''logout_succeeded''"
| "audit_event_value PROTECTED_PAGE_DENIED = ''protected_page_denied''"
| "audit_event_value PROTECTED_API_DENIED = ''protected_api_denied''"
| "audit_event_value CSRF_REJECTED = ''csrf_rejected''"
| "audit_event_value AUTHENTICATION_REQUEST_REJECTED = ''authentication_request_rejected''"
| "audit_event_value SESSION_REJECTED = ''session_rejected''"
| "audit_event_value WLED_OPERATION_SUCCEEDED = ''wled_operation_succeeded''"
| "audit_event_value WLED_OPERATION_FAILED = ''wled_operation_failed''"
| "audit_event_value WLED_OPERATION_DENIED = ''wled_operation_denied''"
| "audit_event_value WLED_OPERATION_RATE_LIMITED = ''wled_operation_rate_limited''"
| "audit_event_value WLED_OPERATION_BUSY = ''wled_operation_busy''"
| "audit_event_value WLED_CONFIRMATION_REJECTED = ''wled_confirmation_rejected''"
| "audit_event_value WLED_STATE_VERIFICATION_FAILED = ''wled_state_verification_failed''"
| "audit_event_value HYPERHDR_OPERATION_SUCCEEDED = ''hyperhdr_operation_succeeded''"
| "audit_event_value HYPERHDR_OPERATION_FAILED = ''hyperhdr_operation_failed''"
| "audit_event_value HYPERHDR_OPERATION_DENIED = ''hyperhdr_operation_denied''"
| "audit_event_value HYPERHDR_OPERATION_RATE_LIMITED = ''hyperhdr_operation_rate_limited''"
| "audit_event_value HYPERHDR_OPERATION_BUSY = ''hyperhdr_operation_busy''"
| "audit_event_value HYPERHDR_CONFIRMATION_REJECTED = ''hyperhdr_confirmation_rejected''"
| "audit_event_value HYPERHDR_STATE_VERIFICATION_FAILED = ''hyperhdr_state_verification_failed''"
| "audit_event_value AURORA_OPERATION_SUCCEEDED = ''aurora_operation_succeeded''"
| "audit_event_value AURORA_OPERATION_PARTIALLY_COMPLETED = ''aurora_operation_partially_completed''"
| "audit_event_value AURORA_OPERATION_DENIED = ''aurora_operation_denied''"
| "audit_event_value AURORA_OPERATION_RATE_LIMITED = ''aurora_operation_rate_limited''"
| "audit_event_value AURORA_OPERATION_BUSY = ''aurora_operation_busy''"
| "audit_event_value AURORA_OPERATION_FAILED = ''aurora_operation_failed''"
| "audit_event_value AURORA_OPERATION_UNVERIFIED = ''aurora_operation_unverified''"

datatype (plugins only: code size) AuditReason =
    AR_AUTHENTICATED
  | AR_INVALID_CREDENTIALS
  | AR_ATTEMPT_LIMIT
  | AR_LOGGED_OUT
  | AR_AUTHENTICATION_REQUIRED
  | AR_AUTHENTICATION_DISABLED
  | AR_INVALID_SESSION
  | AR_EXPIRED_SESSION
  | AR_MALFORMED_COOKIE
  | AR_MISSING_CSRF
  | AR_INVALID_CSRF
  | AR_CONTENT_TYPE
  | AR_CONTENT_LENGTH
  | AR_BODY_TOO_LARGE
  | AR_TRANSFER_ENCODING
  | AR_MALFORMED_FORM
  | AR_CONTROLS_DISABLED
  | AR_OPERATION_NOT_ALLOWLISTED
  | AR_INVALID_BRIGHTNESS
  | AR_MISSING_CONFIRMATION
  | AR_INVALID_CONFIRMATION
  | AR_OPERATION_LIMIT
  | AR_OPERATION_IN_PROGRESS
  | AR_CONNECTION_FAILURE
  | AR_TIMEOUT
  | AR_HTTP_REJECTION
  | AR_REDIRECT_REJECTION
  | AR_OVERSIZED_RESPONSE
  | AR_MALFORMED_JSON
  | AR_MISSING_EXPECTED_STATE
  | AR_STATE_VERIFICATION_MISMATCH
  | AR_UNAUTHORIZED_RESPONSE
  | AR_MISSING_SUCCESS
  | AR_INVALID_SUCCESS
  | AR_COMMAND_MISMATCH
  | AR_MISSING_COMPONENT_STATE
  | AR_AMBIGUOUS_COMPONENT_STATE
  | AR_VERIFIED
  | AR_PARTIAL_COMPLETION

primrec audit_reason_value :: "AuditReason \<Rightarrow> string" where
  "audit_reason_value AR_AUTHENTICATED = ''authenticated''"
| "audit_reason_value AR_INVALID_CREDENTIALS = ''invalid_credentials''"
| "audit_reason_value AR_ATTEMPT_LIMIT = ''attempt_limit''"
| "audit_reason_value AR_LOGGED_OUT = ''logged_out''"
| "audit_reason_value AR_AUTHENTICATION_REQUIRED = ''authentication_required''"
| "audit_reason_value AR_AUTHENTICATION_DISABLED = ''authentication_disabled''"
| "audit_reason_value AR_INVALID_SESSION = ''invalid_session''"
| "audit_reason_value AR_EXPIRED_SESSION = ''expired_session''"
| "audit_reason_value AR_MALFORMED_COOKIE = ''malformed_cookie''"
| "audit_reason_value AR_MISSING_CSRF = ''missing_csrf''"
| "audit_reason_value AR_INVALID_CSRF = ''invalid_csrf''"
| "audit_reason_value AR_CONTENT_TYPE = ''unsupported_content_type''"
| "audit_reason_value AR_CONTENT_LENGTH = ''invalid_content_length''"
| "audit_reason_value AR_BODY_TOO_LARGE = ''body_too_large''"
| "audit_reason_value AR_TRANSFER_ENCODING = ''unsupported_transfer_encoding''"
| "audit_reason_value AR_MALFORMED_FORM = ''malformed_form''"
| "audit_reason_value AR_CONTROLS_DISABLED = ''controls_disabled''"
| "audit_reason_value AR_OPERATION_NOT_ALLOWLISTED = ''operation_not_allowlisted''"
| "audit_reason_value AR_INVALID_BRIGHTNESS = ''invalid_brightness''"
| "audit_reason_value AR_MISSING_CONFIRMATION = ''missing_confirmation''"
| "audit_reason_value AR_INVALID_CONFIRMATION = ''invalid_confirmation''"
| "audit_reason_value AR_OPERATION_LIMIT = ''operation_limit''"
| "audit_reason_value AR_OPERATION_IN_PROGRESS = ''operation_in_progress''"
| "audit_reason_value AR_CONNECTION_FAILURE = ''connection_failure''"
| "audit_reason_value AR_TIMEOUT = ''timeout''"
| "audit_reason_value AR_HTTP_REJECTION = ''http_rejection''"
| "audit_reason_value AR_REDIRECT_REJECTION = ''redirect_rejection''"
| "audit_reason_value AR_OVERSIZED_RESPONSE = ''oversized_response''"
| "audit_reason_value AR_MALFORMED_JSON = ''malformed_json''"
| "audit_reason_value AR_MISSING_EXPECTED_STATE = ''missing_expected_state''"
| "audit_reason_value AR_STATE_VERIFICATION_MISMATCH = ''state_verification_mismatch''"
| "audit_reason_value AR_UNAUTHORIZED_RESPONSE = ''unauthorized_response''"
| "audit_reason_value AR_MISSING_SUCCESS = ''missing_success''"
| "audit_reason_value AR_INVALID_SUCCESS = ''invalid_success''"
| "audit_reason_value AR_COMMAND_MISMATCH = ''command_mismatch''"
| "audit_reason_value AR_MISSING_COMPONENT_STATE = ''missing_component_state''"
| "audit_reason_value AR_AMBIGUOUS_COMPONENT_STATE = ''ambiguous_component_state''"
| "audit_reason_value AR_VERIFIED = ''verified''"
| "audit_reason_value AR_PARTIAL_COMPLETION = ''partial_completion''"

section \<open>The audit log\<close>

text \<open>
  A sink receives a record name and a mapping of fields. The mapping is the dictionary that
  the code builds, in its key order; a field is an integer or a string.
\<close>

datatype audit_value = AV_Int int | AV_Str string

type_synonym audit_record = "string \<times> (string, audit_value) dict"
type_synonym audit_log = "audit_record list"

definition audit_entry :: "AuditEvent \<Rightarrow> AuditReason \<Rightarrow> audit_record" where
  "audit_entry event reason =
     (''security_audit'',
      [(''schema_version'', AV_Int 1),
       (''security_event'', AV_Str (audit_event_value event)),
       (''reason_code'', AV_Str (audit_reason_value reason))])"

definition audit_operation_entry ::
  "AuditEvent \<Rightarrow> AuditReason \<Rightarrow> control_operation \<Rightarrow> audit_record" where
  "audit_operation_entry event reason operation =
     (''security_audit'',
      [(''schema_version'', AV_Int 1),
       (''security_event'', AV_Str (audit_event_value event)),
       (''reason_code'', AV_Str (audit_reason_value reason)),
       (''operation_id'', AV_Str (operation_value operation))])"

definition emit :: "AuditEvent \<Rightarrow> AuditReason \<Rightarrow> audit_log \<Rightarrow> audit_log" where
  "emit event reason lg = lg @ [audit_entry event reason]"

definition emit_operation ::
  "AuditEvent \<Rightarrow> AuditReason \<Rightarrow> control_operation \<Rightarrow> audit_log \<Rightarrow> audit_log" where
  "emit_operation event reason operation lg = lg @ [audit_operation_entry event reason operation]"

text \<open>The three operation namespaces do not overlap, so an operation is known by its value.\<close>

lemma operation_value_inj: "operation_value x = operation_value y \<longleftrightarrow> x = y"
  by (cases x; cases y; rename_tac a b; case_tac a; case_tac b) simp_all

end
