(* ===== verification/Json_Value.thy ===== *)
theory Json_Value
  imports Aurora_Prelude
begin

text \<open>
  The values that \<open>json.loads\<close> returns and that \<open>json.dumps\<close> prints: a tree of the Python
  values \<open>None\<close>, \<open>bool\<close>, \<open>int\<close>, \<open>float\<close>, \<open>str\<close>, \<open>list\<close> and \<open>dict\<close>. \<open>bool\<close> and \<open>int\<close> are
  kept apart, because the code compares types exactly. A float is its exact rational value, or
  \<open>None\<close> for an infinity or a NaN; \<open>loads\<close> itself is a parameter of the functions that use it.

  \<open>dumps\<close> is the compact printer (\<open>separators=(",", ":")\<close>) for what Aurora prints: nulls,
  booleans, integers, strings that need no escape, and lists and objects of these. It is \<open>None\<close>
  for the rest.
\<close>

datatype json =
    JNull
  | JBool bool
  | JInt int
  | JFloat "rat option"
  | JString string
  | JList "json list"
  | JObject "(string \<times> json) list"

text \<open>
  The outcome of \<open>json.loads\<close>: a value, a \<open>JSONDecodeError\<close> or \<open>UnicodeDecodeError\<close>, another
  \<open>ValueError\<close> with its message (a number with too many digits), or an exception of another
  kind (the \<open>RecursionError\<close> of deep nesting).
\<close>

datatype loads_outcome = Loaded json | Undecodable | Loads_Value_Error string | Loads_Raised

type_synonym json_loads = "bytes \<Rightarrow> loads_outcome"

definition digit :: "nat \<Rightarrow> char" where
  "digit n = char_of (48 + n)"

fun decimal :: "nat \<Rightarrow> string" where
  "decimal n = (if n < 10 then [digit n] else decimal (n div 10) @ [digit (n mod 10)])"

declare decimal.simps [simp del]

definition decimal_int :: "int \<Rightarrow> string" where
  "decimal_int i = (if i < 0 then CHR ''-'' # decimal (nat (- i)) else decimal (nat i))"

definition quoted :: "string \<Rightarrow> string" where
  "quoted s = CHR 0x22 # s @ [CHR 0x22]"

text \<open>Strings that are printed without an escape.\<close>

definition plain_char :: "char \<Rightarrow> bool" where
  "plain_char c \<longleftrightarrow> in_range CHR '' '' CHR ''~'' c \<and> c \<noteq> CHR 0x22 \<and> c \<noteq> CHR 0x5C"

definition dumps_string :: "string \<Rightarrow> string option" where
  "dumps_string s = (if list_all plain_char s then Some (quoted s) else None)"

fun dumps_value :: "json \<Rightarrow> string option"
  and dumps_items :: "json list \<Rightarrow> string option"
  and dumps_members :: "(string \<times> json) list \<Rightarrow> string option" where
  "dumps_value JNull = Some ''null''"
| "dumps_value (JBool b) = Some (if b then ''true'' else ''false'')"
| "dumps_value (JInt i) = Some (decimal_int i)"
| "dumps_value (JFloat _) = None"
| "dumps_value (JString s) = dumps_string s"
| "dumps_value (JList vs) = map_option (\<lambda>t. ''['' @ t @ '']'') (dumps_items vs)"
| "dumps_value (JObject ms) = map_option (\<lambda>t. ''{'' @ t @ ''}'') (dumps_members ms)"
| "dumps_items [] = Some []"
| "dumps_items (v # rest) =
     (case (dumps_value v, dumps_items rest) of
        (Some t, Some ts) \<Rightarrow> Some (t @ (if rest = [] then [] else '','' @ ts))
      | _ \<Rightarrow> None)"
| "dumps_members [] = Some []"
| "dumps_members ((k, v) # rest) =
     (case (dumps_string k, dumps_value v, dumps_members rest) of
        (Some q, Some t, Some ts) \<Rightarrow>
          Some (q @ '':'' @ t @ (if rest = [] then [] else '','' @ ts))
      | _ \<Rightarrow> None)"

definition dumps :: "(string \<times> json) list \<Rightarrow> string option" where
  "dumps ms = dumps_value (JObject ms)"

definition ascii_bytes :: "string \<Rightarrow> bytes" where
  "ascii_bytes s = map of_char s"

lemmas dumps_simps = dumps_def dumps_string_def plain_char_def in_range_def ord_of_def

section \<open>Printing decimal numbers is injective\<close>

definition digit_value :: "char \<Rightarrow> nat" where
  "digit_value c = of_char c - 48"

definition decimal_value :: "string \<Rightarrow> nat" where
  "decimal_value s = foldl (\<lambda>n c. 10 * n + digit_value c) 0 s"

lemma digit_value_digit: "n < 10 \<Longrightarrow> digit_value (digit n) = n"
  by (simp add: digit_value_def digit_def)

lemma decimal_value_decimal: "decimal_value (decimal n) = n"
proof (induction n rule: decimal.induct)
  case (1 n)
  show ?case
  proof (cases "n < 10")
    case True
    then show ?thesis by (simp add: decimal.simps [of n] decimal_value_def digit_value_digit)
  next
    case False
    then have "decimal_value (decimal n) = 10 * (n div 10) + n mod 10"
      using 1 by (simp add: decimal.simps [of n] decimal_value_def digit_value_digit)
    then show ?thesis by simp
  qed
qed

lemma decimal_inj [simp]: "decimal m = decimal n \<longleftrightarrow> m = n"
  by (metis decimal_value_decimal)

lemma digit_not_minus: "n < 10 \<Longrightarrow> digit n \<noteq> CHR ''-''"
proof
  assume n: "n < 10" and "digit n = CHR ''-''"
  then have "(of_char (digit n) :: nat) = of_char (CHR ''-'')" by simp
  then show False using n by (simp add: digit_def)
qed

lemma minus_notin_decimal: "CHR ''-'' \<notin> set (decimal n)"
proof (induction n rule: decimal.induct)
  case (1 n)
  then show ?case using digit_not_minus [of "n mod 10"] digit_not_minus [of n]
    by (auto simp: decimal.simps [of n])
qed

lemma decimal_not_minus [simp]: "CHR ''-'' # s \<noteq> decimal n" "decimal n \<noteq> CHR ''-'' # s"
  using minus_notin_decimal [of n] by (metis list.set_intros(1))+

lemma decimal_int_inj [simp]: "decimal_int i = decimal_int j \<longleftrightarrow> i = j"
  by (auto simp: decimal_int_def)

lemma byte_of_char_inj: "(of_char c :: 8 word) = of_char d \<longleftrightarrow> c = d"
proof
  assume eq: "(of_char c :: 8 word) = of_char d"
  have byte: "unat (of_char x :: 8 word) = of_char x" for x
    unfolding of_nat_of_char [of x, symmetric, where ?'a = "8 word"]
    by (simp add: unat_of_nat nat_of_char_less_256)
  from eq have "unat (of_char c :: 8 word) = unat (of_char d :: 8 word)" by simp
  then show "c = d" by (simp add: byte)
qed simp

lemma ascii_bytes_inj: "ascii_bytes s = ascii_bytes t \<longleftrightarrow> s = t"
  unfolding ascii_bytes_def by (rule inj_map_eq_map) (simp add: inj_def byte_of_char_inj)

end
