(* ===== verification/Contracts.thy ===== *)
theory Contracts
  imports Control_Types Json_Value
begin

text \<open>
  \<open>control_plane/contracts.py\<close>: the typed inputs, the operation contracts with the checks of
  their \<open>__post_init__\<close> methods, the three code-owned registries, and the capabilities document.
  A raised \<open>ValueError\<close> is a value of \<open>contract_error\<close>, one constructor for each message.
\<close>

section \<open>Fixed identifiers\<close>

definition WLED_ADAPTER_ID :: string where
  "WLED_ADAPTER_ID = ''wled.fixed_state_adapter''"

definition POWER_OFF_CONFIRMATION_ID :: string where
  "POWER_OFF_CONFIRMATION_ID = ''wled.confirm_power_off''"

definition POWER_OFF_CONFIRMATION_VALUE :: string where
  "POWER_OFF_CONFIRMATION_VALUE = ''confirm_power_off''"

definition HYPERHDR_ADAPTER_ID :: string where
  "HYPERHDR_ADAPTER_ID = ''hyperhdr.fixed_component_state_adapter''"

definition VIDEO_GRABBER_DISABLE_CONFIRMATION_ID :: string where
  "VIDEO_GRABBER_DISABLE_CONFIRMATION_ID = ''hyperhdr.confirm_video_grabber_disable''"

definition VIDEO_GRABBER_DISABLE_CONFIRMATION_VALUE :: string where
  "VIDEO_GRABBER_DISABLE_CONFIRMATION_VALUE = ''confirm_video_grabber_disable''"

definition LED_OUTPUT_DISABLE_CONFIRMATION_ID :: string where
  "LED_OUTPUT_DISABLE_CONFIRMATION_ID = ''hyperhdr.confirm_led_output_disable''"

definition LED_OUTPUT_DISABLE_CONFIRMATION_VALUE :: string where
  "LED_OUTPUT_DISABLE_CONFIRMATION_VALUE = ''confirm_led_output_disable''"

definition AURORA_AMBIENT_OFF_CONFIRMATION_ID :: string where
  "AURORA_AMBIENT_OFF_CONFIRMATION_ID = ''aurora.confirm_ambient_off''"

definition AURORA_AMBIENT_OFF_CONFIRMATION_VALUE :: string where
  "AURORA_AMBIENT_OFF_CONFIRMATION_VALUE = ''confirm_ambient_off''"

section \<open>Inputs\<close>

text \<open>
  A Python value annotated \<open>int\<close> is an \<open>int\<close> or a \<open>bool\<close>; \<open>BrightnessInput\<close> accepts only the
  first. \<open>NoOperationInput\<close> and \<open>BrightnessInput\<close> are the two classes of \<open>OperationInput\<close>.
\<close>

datatype py_int = Py_Int int | Py_Bool bool

datatype operation_input = NoOperationInput | BrightnessInput int

definition brightness_input :: "py_int \<Rightarrow> operation_input option" where
  "brightness_input brightness =
     (case brightness of
        Py_Bool _ \<Rightarrow> None
      | Py_Int n \<Rightarrow> if \<not> (1 \<le> n \<and> n \<le> 255) then None else Some (BrightnessInput n))"

datatype input_model = Model_NoOperationInput | Model_BrightnessInput | Model_Other string

section \<open>Capabilities\<close>

record ControlCapabilities =
  cap_schema_version :: int
  cap_authenticated :: bool
  cap_mutations_enabled :: bool
  cap_available_operations :: "string list"

text \<open>The constructor call of the services, with the defaults of the class.\<close>

definition control_capabilities :: "bool \<Rightarrow> string list \<Rightarrow> ControlCapabilities" where
  "control_capabilities mutations_enabled available_operations =
     \<lparr>cap_schema_version = 1, cap_authenticated = True,
      cap_mutations_enabled = mutations_enabled,
      cap_available_operations = available_operations\<rparr>"

definition capabilities_to_dict :: "ControlCapabilities \<Rightarrow> (string, json) dict" where
  "capabilities_to_dict c =
     [(''schema_version'', JInt (cap_schema_version c)),
      (''authenticated'', JBool (cap_authenticated c)),
      (''mutations_enabled'', JBool (cap_mutations_enabled c)),
      (''available_operations'', JList (map JString (cap_available_operations c)))]"

section \<open>Contracts\<close>

datatype contract_error =
    Unsupported_Input_Model
  | Wrong_Adapter
  | Timeout_Out_Of_Range
  | Security_Requirement_Disabled
  | Confirmation_Required
  | Confirmation_Forbidden

text \<open>
  The four requirements every contract carries; they default to \<open>True\<close>.
\<close>

record requirements =
  authentication_required :: bool
  csrf_required :: bool
  audit_required :: bool
  sanitized_errors_required :: bool

definition default_requirements :: requirements where
  "default_requirements =
     \<lparr>authentication_required = True, csrf_required = True, audit_required = True,
      sanitized_errors_required = True\<rparr>"

definition all_required :: "requirements \<Rightarrow> bool" where
  "all_required r \<longleftrightarrow>
     authentication_required r \<and> csrf_required r \<and> audit_required r \<and> sanitized_errors_required r"

record OperationContract =
  oc_operation_id :: WLEDOperation
  oc_input_model :: input_model
  oc_timeout_seconds :: seconds
  oc_destination_adapter_id :: string
  oc_disruptive :: bool
  oc_confirmation_metadata_id :: "string option"
  oc_requirements :: requirements

definition check_operation_contract ::
  "OperationContract \<Rightarrow> contract_error + OperationContract" where
  "check_operation_contract c =
     (if oc_input_model c \<noteq> Model_NoOperationInput \<and> oc_input_model c \<noteq> Model_BrightnessInput
      then Inl Unsupported_Input_Model
      else if oc_destination_adapter_id c \<noteq> WLED_ADAPTER_ID then Inl Wrong_Adapter
      else if \<not> (1 / 10 \<le> oc_timeout_seconds c \<and> oc_timeout_seconds c \<le> 5)
      then Inl Timeout_Out_Of_Range
      else if \<not> all_required (oc_requirements c) then Inl Security_Requirement_Disabled
      else if oc_disruptive c \<and> oc_confirmation_metadata_id c \<noteq> Some POWER_OFF_CONFIRMATION_ID
      then Inl Confirmation_Required
      else if \<not> oc_disruptive c \<and> oc_confirmation_metadata_id c \<noteq> None
      then Inl Confirmation_Forbidden
      else Inr c)"

record HyperHDROperationContract =
  hc_operation_id :: HyperHDROperation
  hc_input_model :: input_model
  hc_timeout_seconds :: seconds
  hc_destination_adapter_id :: string
  hc_disruptive :: bool
  hc_confirmation_metadata_id :: "string option"
  hc_requirements :: requirements

fun hyperhdr_expected_confirmation_id :: "HyperHDROperation \<Rightarrow> string option" where
  "hyperhdr_expected_confirmation_id VIDEO_GRABBER_DISABLE =
     Some VIDEO_GRABBER_DISABLE_CONFIRMATION_ID"
| "hyperhdr_expected_confirmation_id LED_OUTPUT_DISABLE =
     Some LED_OUTPUT_DISABLE_CONFIRMATION_ID"
| "hyperhdr_expected_confirmation_id _ = None"

definition check_hyperhdr_contract ::
  "HyperHDROperationContract \<Rightarrow> contract_error + HyperHDROperationContract" where
  "check_hyperhdr_contract c =
     (if hc_input_model c \<noteq> Model_NoOperationInput then Inl Unsupported_Input_Model
      else if hc_destination_adapter_id c \<noteq> HYPERHDR_ADAPTER_ID then Inl Wrong_Adapter
      else if \<not> (1 / 10 \<le> hc_timeout_seconds c \<and> hc_timeout_seconds c \<le> 5)
      then Inl Timeout_Out_Of_Range
      else if \<not> all_required (hc_requirements c) then Inl Security_Requirement_Disabled
      else if hc_disruptive c \<and>
        hc_confirmation_metadata_id c \<noteq> hyperhdr_expected_confirmation_id (hc_operation_id c)
      then Inl Confirmation_Required
      else if \<not> hc_disruptive c \<and> hc_confirmation_metadata_id c \<noteq> None
      then Inl Confirmation_Forbidden
      else Inr c)"

record AmbientOperationContract =
  ac_operation_id :: AuroraOperation
  ac_disruptive :: bool
  ac_confirmation_metadata_id :: "string option"
  ac_requirements :: requirements

definition check_ambient_contract ::
  "AmbientOperationContract \<Rightarrow> contract_error + AmbientOperationContract" where
  "check_ambient_contract c =
     (if \<not> all_required (ac_requirements c) then Inl Security_Requirement_Disabled
      else if ac_operation_id c = AMBIENT_OFF then
        (if \<not> ac_disruptive c \<or>
            ac_confirmation_metadata_id c \<noteq> Some AURORA_AMBIENT_OFF_CONFIRMATION_ID
         then Inl Confirmation_Required else Inr c)
      else if ac_disruptive c \<or> ac_confirmation_metadata_id c \<noteq> None
      then Inl Confirmation_Forbidden
      else Inr c)"

section \<open>Registries\<close>

text \<open>The constructor calls with their defaults: no confirmation, every requirement on.\<close>

definition operation_contract ::
  "WLEDOperation \<Rightarrow> input_model \<Rightarrow> seconds \<Rightarrow> string \<Rightarrow> bool \<Rightarrow> string option \<Rightarrow>
     contract_error + OperationContract" where
  "operation_contract operation model timeout adapter disruptive confirmation =
     check_operation_contract
       \<lparr>oc_operation_id = operation, oc_input_model = model, oc_timeout_seconds = timeout,
        oc_destination_adapter_id = adapter, oc_disruptive = disruptive,
        oc_confirmation_metadata_id = confirmation, oc_requirements = default_requirements\<rparr>"

definition hyperhdr_contract ::
  "HyperHDROperation \<Rightarrow> input_model \<Rightarrow> seconds \<Rightarrow> string \<Rightarrow> bool \<Rightarrow> string option \<Rightarrow>
     contract_error + HyperHDROperationContract" where
  "hyperhdr_contract operation model timeout adapter disruptive confirmation =
     check_hyperhdr_contract
       \<lparr>hc_operation_id = operation, hc_input_model = model, hc_timeout_seconds = timeout,
        hc_destination_adapter_id = adapter, hc_disruptive = disruptive,
        hc_confirmation_metadata_id = confirmation, hc_requirements = default_requirements\<rparr>"

definition ambient_contract ::
  "AuroraOperation \<Rightarrow> bool \<Rightarrow> string option \<Rightarrow> contract_error + AmbientOperationContract" where
  "ambient_contract operation disruptive confirmation =
     check_ambient_contract
       \<lparr>ac_operation_id = operation, ac_disruptive = disruptive,
        ac_confirmation_metadata_id = confirmation, ac_requirements = default_requirements\<rparr>"

text \<open>A tuple of constructor calls: the first error is raised.\<close>

fun tuple_of :: "('e + 'a) list \<Rightarrow> 'e + 'a list" where
  "tuple_of [] = Inr []"
| "tuple_of (Inl e # rest) = Inl e"
| "tuple_of (Inr x # rest) =
     (case tuple_of rest of Inl e \<Rightarrow> Inl e | Inr xs \<Rightarrow> Inr (x # xs))"

definition operation_registry :: "seconds \<Rightarrow> contract_error + OperationContract list" where
  "operation_registry timeout = tuple_of
     [operation_contract POWER_ON Model_NoOperationInput timeout WLED_ADAPTER_ID False None,
      operation_contract POWER_OFF Model_NoOperationInput timeout WLED_ADAPTER_ID True
        (Some POWER_OFF_CONFIRMATION_ID),
      operation_contract BRIGHTNESS_SET Model_BrightnessInput timeout WLED_ADAPTER_ID False None]"

definition hyperhdr_operation_registry ::
  "seconds \<Rightarrow> contract_error + HyperHDROperationContract list" where
  "hyperhdr_operation_registry timeout = tuple_of
     [hyperhdr_contract VIDEO_GRABBER_ENABLE Model_NoOperationInput timeout HYPERHDR_ADAPTER_ID
        False None,
      hyperhdr_contract VIDEO_GRABBER_DISABLE Model_NoOperationInput timeout HYPERHDR_ADAPTER_ID
        True (Some VIDEO_GRABBER_DISABLE_CONFIRMATION_ID),
      hyperhdr_contract LED_OUTPUT_ENABLE Model_NoOperationInput timeout HYPERHDR_ADAPTER_ID
        False None,
      hyperhdr_contract LED_OUTPUT_DISABLE Model_NoOperationInput timeout HYPERHDR_ADAPTER_ID
        True (Some LED_OUTPUT_DISABLE_CONFIRMATION_ID)]"

definition ambient_operation_registry :: "contract_error + AmbientOperationContract list" where
  "ambient_operation_registry = tuple_of
     [ambient_contract AMBIENT_ON False None,
      ambient_contract AMBIENT_OFF True (Some AURORA_AMBIENT_OFF_CONFIRMATION_ID)]"

section \<open>Lemmas\<close>

lemmas confirmation_ids =
  POWER_OFF_CONFIRMATION_ID_def VIDEO_GRABBER_DISABLE_CONFIRMATION_ID_def
  LED_OUTPUT_DISABLE_CONFIRMATION_ID_def AURORA_AMBIENT_OFF_CONFIRMATION_ID_def

lemmas contract_simps =
  operation_contract_def hyperhdr_contract_def ambient_contract_def check_operation_contract_def
  check_hyperhdr_contract_def check_ambient_contract_def default_requirements_def all_required_def

lemma brightness_input_Some:
  "brightness_input b = Some x \<longleftrightarrow> (\<exists>n. b = Py_Int n \<and> 1 \<le> n \<and> n \<le> 255 \<and> x = BrightnessInput n)"
  by (cases b) (auto simp: brightness_input_def)

lemma check_operation_contract_InrD:
  "check_operation_contract c = Inr d \<Longrightarrow>
    d = c \<and> all_required (oc_requirements c) \<and> oc_destination_adapter_id c = WLED_ADAPTER_ID \<and>
    1 / 10 \<le> oc_timeout_seconds c \<and> oc_timeout_seconds c \<le> 5 \<and>
    oc_confirmation_metadata_id c =
      (if oc_disruptive c then Some POWER_OFF_CONFIRMATION_ID else None)"
  by (auto simp: check_operation_contract_def split: if_splits)

lemma operation_registry_cases:
  "operation_registry t =
     (if 1 / 10 \<le> t \<and> t \<le> 5 then
        Inr [\<lparr>oc_operation_id = POWER_ON, oc_input_model = Model_NoOperationInput,
              oc_timeout_seconds = t, oc_destination_adapter_id = WLED_ADAPTER_ID,
              oc_disruptive = False, oc_confirmation_metadata_id = None,
              oc_requirements = default_requirements\<rparr>,
             \<lparr>oc_operation_id = POWER_OFF, oc_input_model = Model_NoOperationInput,
              oc_timeout_seconds = t, oc_destination_adapter_id = WLED_ADAPTER_ID,
              oc_disruptive = True, oc_confirmation_metadata_id = Some POWER_OFF_CONFIRMATION_ID,
              oc_requirements = default_requirements\<rparr>,
             \<lparr>oc_operation_id = BRIGHTNESS_SET, oc_input_model = Model_BrightnessInput,
              oc_timeout_seconds = t, oc_destination_adapter_id = WLED_ADAPTER_ID,
              oc_disruptive = False, oc_confirmation_metadata_id = None,
              oc_requirements = default_requirements\<rparr>]
      else Inl Timeout_Out_Of_Range)"
  by (simp add: operation_registry_def contract_simps)

lemma hyperhdr_operation_registry_cases:
  "(1 / 10 \<le> t \<and> t \<le> 5 \<and>
     map_sum id (map hc_operation_id) (hyperhdr_operation_registry t) =
       Inr [VIDEO_GRABBER_ENABLE, VIDEO_GRABBER_DISABLE, LED_OUTPUT_ENABLE, LED_OUTPUT_DISABLE]) \<or>
   (\<not> (1 / 10 \<le> t \<and> t \<le> 5) \<and> hyperhdr_operation_registry t = Inl Timeout_Out_Of_Range)"
  by (simp add: hyperhdr_operation_registry_def contract_simps)

lemma hyperhdr_registry_ids:
  "hyperhdr_operation_registry t = Inr cs \<Longrightarrow> map hc_operation_id cs =
     [VIDEO_GRABBER_ENABLE, VIDEO_GRABBER_DISABLE, LED_OUTPUT_ENABLE, LED_OUTPUT_DISABLE]"
  using hyperhdr_operation_registry_cases [of t] by auto

lemma operation_registry_ids:
  "operation_registry t = Inr cs \<Longrightarrow> map oc_operation_id cs = [POWER_ON, POWER_OFF, BRIGHTNESS_SET]"
  by (auto simp: operation_registry_cases split: if_splits)

lemma ambient_registry_ids:
  "\<exists>cs. ambient_operation_registry = Inr cs \<and> map ac_operation_id cs = [AMBIENT_ON, AMBIENT_OFF]"
  by (simp add: ambient_operation_registry_def contract_simps)

section \<open>Properties\<close>

text \<open>
  The registries are complete and fail closed. Each exists exactly for a timeout in the
  documented range; it then lists every operation of its enumeration once, in the fixed order,
  every contract keeps all security requirements and the fixed adapter and timeout, and the
  disruptive operations are exactly those with a confirmation of their own.
\<close>

theorem registries_fail_closed:
  "(case (operation_registry t, hyperhdr_operation_registry t) of
      (Inr ws, Inr hs) \<Rightarrow>
        1 / 10 \<le> t \<and> t \<le> 5 \<and>
        (\<forall>x. count_list (map oc_operation_id ws) x = 1) \<and>
        (\<forall>x. count_list (map hc_operation_id hs) x = 1) \<and>
        list_all (\<lambda>c. all_required (oc_requirements c) \<and> oc_timeout_seconds c = t \<and>
          oc_destination_adapter_id c = WLED_ADAPTER_ID \<and>
          (oc_disruptive c \<longleftrightarrow> oc_operation_id c = POWER_OFF) \<and>
          (oc_disruptive c \<longleftrightarrow> oc_confirmation_metadata_id c \<noteq> None)) ws \<and>
        list_all (\<lambda>c. all_required (hc_requirements c) \<and> hc_timeout_seconds c = t \<and>
          hc_destination_adapter_id c = HYPERHDR_ADAPTER_ID \<and>
          hc_confirmation_metadata_id c = hyperhdr_expected_confirmation_id (hc_operation_id c) \<and>
          (hc_disruptive c \<longleftrightarrow> hc_confirmation_metadata_id c \<noteq> None)) hs \<and>
        distinct (List.map_filter hc_confirmation_metadata_id hs)
    | (Inl e, Inl e') \<Rightarrow> (t < 1 / 10 \<or> 5 < t) \<and> e = Timeout_Out_Of_Range \<and> e' = Timeout_Out_Of_Range
    | _ \<Rightarrow> False)"
proof -
  have "count_list [POWER_ON, POWER_OFF, BRIGHTNESS_SET] x = 1" for x by (cases x) simp_all
  moreover have "count_list [VIDEO_GRABBER_ENABLE, VIDEO_GRABBER_DISABLE, LED_OUTPUT_ENABLE,
      LED_OUTPUT_DISABLE] x = 1" for x by (cases x) simp_all
  ultimately show ?thesis
    by (auto simp: operation_registry_def hyperhdr_operation_registry_def contract_simps
        map_filter_def confirmation_ids)
qed

end
