(* ===== verification/Mutation_Gate.thy ===== *)
theory Mutation_Gate
  imports Aurora_Prelude
begin

text \<open>
  \<open>control_plane/mutation_gate.py\<close>: one reentrant, nonblocking lock (\<open>threading.RLock\<close>) that all
  device mutations share. Threads are numbered. The gate holds its owner and how many times
  the owner acquired it; it is free when it has no owner.

  The second half is the protocol that the WLED and HyperHDR services and the ambient service
  follow around an adapter call, as a step relation between any number of request threads:
  acquire the gate or give up, try the operation lock of the device, call the adapter, release
  both. Its invariant gives mutual exclusion of adapter calls across devices and threads.
\<close>

section \<open>The reentrant lock\<close>

record gate =
  owner :: "nat option"
  depth :: nat

definition new_gate :: gate where
  "new_gate = \<lparr>owner = None, depth = 0\<rparr>"

definition gate_acquire :: "nat \<Rightarrow> gate \<Rightarrow> bool \<times> gate" where
  "gate_acquire thread g =
     (case owner g of
        None \<Rightarrow> (True, \<lparr>owner = Some thread, depth = 1\<rparr>)
      | Some holder \<Rightarrow>
          if holder = thread then (True, g\<lparr>depth := Suc (depth g)\<rparr>) else (False, g))"

text \<open>\<open>None\<close> is the \<open>RuntimeError\<close> of a release by a thread that does not own the lock.\<close>

definition gate_release :: "nat \<Rightarrow> gate \<Rightarrow> gate option" where
  "gate_release thread g =
     (if owner g \<noteq> Some thread then None
      else if depth g \<le> 1 then Some \<lparr>owner = None, depth = 0\<rparr>
      else Some (g\<lparr>depth := depth g - 1\<rparr>))"

definition gate_wf :: "gate \<Rightarrow> bool" where
  "gate_wf g \<longleftrightarrow> (owner g = None \<longleftrightarrow> depth g = 0)"

lemma gate_wf_new [simp]: "gate_wf new_gate"
  by (simp add: gate_wf_def new_gate_def)

lemma gate_acquire_wf: "gate_wf g \<Longrightarrow> gate_wf (snd (gate_acquire thread g))"
  by (auto simp: gate_wf_def gate_acquire_def split: option.splits)

lemma gate_release_wf: "gate_wf g \<Longrightarrow> gate_release thread g = Some g' \<Longrightarrow> gate_wf g'"
  by (auto simp: gate_wf_def gate_release_def split: if_splits)

text \<open>The lock is nonblocking: an acquisition fails only while another thread holds it.\<close>

lemma gate_acquire_iff:
  "fst (gate_acquire thread g) \<longleftrightarrow> owner g = None \<or> owner g = Some thread"
  by (auto simp: gate_acquire_def split: option.splits)

lemma gate_acquire_failed: "\<not> fst (gate_acquire thread g) \<Longrightarrow> snd (gate_acquire thread g) = g"
  by (auto simp: gate_acquire_def split: option.splits)

lemma gate_acquire_owner: "fst (gate_acquire thread g) \<Longrightarrow> owner (snd (gate_acquire thread g)) = Some thread"
  by (auto simp: gate_acquire_def split: option.splits if_splits)

text \<open>A release undoes the acquisition before it, so nested use is balanced.\<close>

lemma gate_release_acquire:
  assumes "gate_wf g" and "fst (gate_acquire thread g)"
  shows "gate_release thread (snd (gate_acquire thread g)) = Some g"
proof (cases "owner g")
  case None
  with assms(1) have "g = \<lparr>owner = None, depth = 0\<rparr>" by (cases g) (simp add: gate_wf_def)
  then show ?thesis by (simp add: gate_acquire_def gate_release_def)
next
  case (Some holder)
  with assms show ?thesis
    by (cases g) (auto simp: gate_acquire_def gate_release_def gate_wf_def split: if_splits)
qed

lemma gate_bracket:
  assumes "gate_wf g" and "gate_acquire thread g = (True, g')"
  shows "gate_release thread g' = Some g" "gate_wf g'" "owner g' = Some thread"
  using gate_release_acquire [OF assms(1), of thread] gate_acquire_wf [OF assms(1), of thread]
    gate_acquire_owner [of thread g] assms(2)
  by simp_all

section \<open>The mutation protocol\<close>

text \<open>
  A request thread's position. The last argument of a position inside a device call is
  \<open>None\<close> for a standalone operation and \<open>Some ds\<close> for a child of a composite operation that
  still has the devices \<open>ds\<close> to go. \<open>Outer\<close> is the composite between its children.
\<close>

datatype device = Dev_WLED | Dev_HyperHDR

type_synonym continuation = "device list option"

datatype position =
    Idle
  | At_Outer "device list"
  | Outer "device list"
  | At_Gate device continuation
  | At_Lock device continuation
  | In_Adapter device continuation
  | Releasing continuation

record protocol =
  shared_gate :: gate
  operation_lock :: "device \<Rightarrow> nat option"
  positions :: "nat \<Rightarrow> position"

definition init_protocol :: protocol where
  "init_protocol =
     \<lparr>shared_gate = new_gate, operation_lock = (\<lambda>_. None), positions = (\<lambda>_. Idle)\<rparr>"

fun return_to :: "continuation \<Rightarrow> position" where
  "return_to None = Idle"
| "return_to (Some ds) = Outer ds"

definition goto :: "nat \<Rightarrow> position \<Rightarrow> protocol \<Rightarrow> protocol" where
  "goto t q p = p\<lparr>positions := (positions p)(t := q)\<rparr>"

inductive protocol_step :: "protocol \<Rightarrow> protocol \<Rightarrow> bool" where
  request: "positions p t = Idle \<Longrightarrow> protocol_step p (goto t (At_Gate d None) p)"
| composite: "positions p t = Idle \<Longrightarrow> protocol_step p (goto t (At_Outer ds) p)"
| outer_enter: "positions p t = At_Outer ds \<Longrightarrow> gate_acquire t (shared_gate p) = (True, g) \<Longrightarrow>
    protocol_step p (goto t (Outer ds) (p\<lparr>shared_gate := g\<rparr>))"
| outer_busy: "positions p t = At_Outer ds \<Longrightarrow> \<not> fst (gate_acquire t (shared_gate p)) \<Longrightarrow>
    protocol_step p (goto t Idle p)"
| child: "positions p t = Outer (d # ds) \<Longrightarrow> protocol_step p (goto t (At_Gate d (Some ds)) p)"
| fail_fast: "positions p t = Outer (d # ds) \<Longrightarrow> protocol_step p (goto t (Outer []) p)"
| outer_exit: "positions p t = Outer [] \<Longrightarrow> gate_release t (shared_gate p) = Some g \<Longrightarrow>
    protocol_step p (goto t Idle (p\<lparr>shared_gate := g\<rparr>))"
| gate_enter: "positions p t = At_Gate d k \<Longrightarrow> gate_acquire t (shared_gate p) = (True, g) \<Longrightarrow>
    protocol_step p (goto t (At_Lock d k) (p\<lparr>shared_gate := g\<rparr>))"
| gate_busy: "positions p t = At_Gate d k \<Longrightarrow> \<not> fst (gate_acquire t (shared_gate p)) \<Longrightarrow>
    protocol_step p (goto t (return_to k) p)"
| lock_enter: "positions p t = At_Lock d k \<Longrightarrow> operation_lock p d = None \<Longrightarrow>
    protocol_step p (goto t (In_Adapter d k)
      (p\<lparr>operation_lock := (operation_lock p)(d := Some t)\<rparr>))"
| lock_busy: "positions p t = At_Lock d k \<Longrightarrow> operation_lock p d \<noteq> None \<Longrightarrow>
    gate_release t (shared_gate p) = Some g \<Longrightarrow>
    protocol_step p (goto t (return_to k) (p\<lparr>shared_gate := g\<rparr>))"
| adapter_return: "positions p t = In_Adapter d k \<Longrightarrow>
    protocol_step p (goto t (Releasing k)
      (p\<lparr>operation_lock := (operation_lock p)(d := None)\<rparr>))"
| gate_exit: "positions p t = Releasing k \<Longrightarrow> gate_release t (shared_gate p) = Some g \<Longrightarrow>
    protocol_step p (goto t (return_to k) (p\<lparr>shared_gate := g\<rparr>))"

inductive_cases protocol_stepE: "protocol_step p q"

inductive reachable_protocol :: "protocol \<Rightarrow> bool" where
  init: "reachable_protocol init_protocol"
| step: "reachable_protocol p \<Longrightarrow> protocol_step p q \<Longrightarrow> reachable_protocol q"

subsection \<open>Its invariant\<close>

text \<open>How many acquisitions of the gate a position stands for.\<close>

fun held :: "position \<Rightarrow> nat" where
  "held Idle = 0"
| "held (At_Outer ds) = 0"
| "held (Outer ds) = 1"
| "held (At_Gate d None) = 0"
| "held (At_Gate d (Some ds)) = 1"
| "held (At_Lock d None) = 1"
| "held (At_Lock d (Some ds)) = 2"
| "held (In_Adapter d None) = 1"
| "held (In_Adapter d (Some ds)) = 2"
| "held (Releasing None) = 1"
| "held (Releasing (Some ds)) = 2"

definition calling :: "device \<Rightarrow> position \<Rightarrow> bool" where
  "calling d q \<longleftrightarrow> (case q of In_Adapter d' k \<Rightarrow> d' = d | _ \<Rightarrow> False)"

definition protocol_inv :: "protocol \<Rightarrow> bool" where
  "protocol_inv p \<longleftrightarrow>
     gate_wf (shared_gate p) \<and>
     (\<forall>t. held (positions p t) =
        (if owner (shared_gate p) = Some t then depth (shared_gate p) else 0)) \<and>
     (\<forall>d t. operation_lock p d = Some t \<longleftrightarrow> calling d (positions p t))"

lemma protocol_invD:
  assumes "protocol_inv p"
  shows "gate_wf (shared_gate p)"
    and "held (positions p t) = (if owner (shared_gate p) = Some t then depth (shared_gate p) else 0)"
    and "operation_lock p d = Some t \<longleftrightarrow> calling d (positions p t)"
  using assms by (auto simp: protocol_inv_def)

lemma protocol_invI:
  assumes "gate_wf (shared_gate p)"
    and "\<And>t. held (positions p t) = (if owner (shared_gate p) = Some t then depth (shared_gate p) else 0)"
    and "\<And>d t. operation_lock p d = Some t \<longleftrightarrow> calling d (positions p t)"
  shows "protocol_inv p"
  using assms by (simp add: protocol_inv_def)

lemma goto_simps [simp]:
  "shared_gate (goto t q p) = shared_gate p"
  "operation_lock (goto t q p) = operation_lock p"
  "positions (goto t q p) u = (if u = t then q else positions p u)"
  by (simp_all add: goto_def)

lemma held_return_to: "held (return_to k) = (case k of None \<Rightarrow> 0 | Some _ \<Rightarrow> 1)"
  by (cases k) simp_all

lemma held_call:
  "held (At_Gate d k) = held (return_to k)"
  "held (At_Lock d k) = Suc (held (return_to k))"
  "held (In_Adapter d k) = Suc (held (return_to k))"
  "held (Releasing k) = Suc (held (return_to k))"
  by (cases k; simp)+

lemma not_calling [simp]:
  "\<not> calling d Idle" "\<not> calling d (At_Outer ds)" "\<not> calling d (Outer ds)"
  "\<not> calling d (At_Gate e k)" "\<not> calling d (At_Lock e k)" "\<not> calling d (Releasing k)"
  "\<not> calling d (return_to k)" "calling d (In_Adapter e k) \<longleftrightarrow> e = d"
  by (cases k; auto simp: calling_def)+

text \<open>Moving one thread without touching the locks, and moving it with the gate.\<close>

lemma protocol_inv_goto:
  assumes "protocol_inv p" and "held q = held (positions p t)"
    and "\<And>d. calling d q \<longleftrightarrow> calling d (positions p t)"
  shows "protocol_inv (goto t q p)"
  using assms by (auto simp: protocol_inv_def goto_def)

lemma protocol_inv_acquire:
  assumes inv: "protocol_inv p" and acq: "gate_acquire t (shared_gate p) = (True, g)"
    and held: "held q = Suc (held (positions p t))"
    and call: "\<And>d. calling d q \<longleftrightarrow> calling d (positions p t)"
  shows "protocol_inv (goto t q (p\<lparr>shared_gate := g\<rparr>))"
proof (rule protocol_invI)
  note bracket = gate_bracket [OF protocol_invD(1) [OF inv] acq]
  have own: "owner (shared_gate p) = None \<or> owner (shared_gate p) = Some t"
    using gate_acquire_iff [of t "shared_gate p"] acq by simp
  have depth: "depth g = Suc (depth (shared_gate p))"
    using acq protocol_invD(1) [OF inv] own by (auto simp: gate_acquire_def gate_wf_def)
  show "gate_wf (shared_gate (goto t q (p\<lparr>shared_gate := g\<rparr>)))" using bracket(2) by simp
  fix u
  have free: "depth (shared_gate p) = 0" if "owner (shared_gate p) \<noteq> Some t"
    using own that protocol_invD(1) [OF inv] by (auto simp: gate_wf_def)
  show "held (positions (goto t q (p\<lparr>shared_gate := g\<rparr>)) u) =
      (if owner (shared_gate (goto t q (p\<lparr>shared_gate := g\<rparr>))) = Some u
       then depth (shared_gate (goto t q (p\<lparr>shared_gate := g\<rparr>))) else 0)"
    using bracket(3) depth held free own protocol_invD(2) [OF inv, of u]
      protocol_invD(2) [OF inv, of t] by (auto split: if_splits)
  show "operation_lock (goto t q (p\<lparr>shared_gate := g\<rparr>)) d = Some u \<longleftrightarrow>
      calling d (positions (goto t q (p\<lparr>shared_gate := g\<rparr>)) u)" for d
    using protocol_invD(3) [OF inv] call by simp
qed

lemma protocol_inv_release:
  assumes inv: "protocol_inv p" and rel: "gate_release t (shared_gate p) = Some g"
    and held: "held (positions p t) = Suc (held q)"
    and call: "\<And>d. calling d q \<longleftrightarrow> calling d (positions p t)"
  shows "protocol_inv (goto t q (p\<lparr>shared_gate := g\<rparr>))"
proof (rule protocol_invI)
  have own: "owner (shared_gate p) = Some t"
    using rel by (auto simp: gate_release_def split: if_splits)
  then have "depth (shared_gate p) = Suc (held q)"
    using protocol_invD(2) [OF inv, of t] held by simp
  then have g: "owner g = (if held q = 0 then None else Some t)" "depth g = held q"
    using rel own by (auto simp: gate_release_def split: if_splits)
  show "gate_wf (shared_gate (goto t q (p\<lparr>shared_gate := g\<rparr>)))"
    using gate_release_wf [OF protocol_invD(1) [OF inv] rel] by simp
  show "held (positions (goto t q (p\<lparr>shared_gate := g\<rparr>)) u) =
      (if owner (shared_gate (goto t q (p\<lparr>shared_gate := g\<rparr>))) = Some u
       then depth (shared_gate (goto t q (p\<lparr>shared_gate := g\<rparr>))) else 0)" for u
    using g own protocol_invD(2) [OF inv, of u] by auto
  show "operation_lock (goto t q (p\<lparr>shared_gate := g\<rparr>)) d = Some u \<longleftrightarrow>
      calling d (positions (goto t q (p\<lparr>shared_gate := g\<rparr>)) u)" for d u
    using protocol_invD(3) [OF inv] call by simp
qed

text \<open>Entering and leaving the adapter touches one operation lock and not the gate.\<close>

lemma protocol_inv_lock:
  assumes inv: "protocol_inv p" and held: "held q = held (positions p t)"
    and lock: "\<And>e. operation_lock p' e = (if e = d then x else operation_lock p e)"
    and rest: "shared_gate p' = shared_gate p" "positions p' = positions p"
    and here: "\<And>e. e \<noteq> d \<Longrightarrow> calling e q \<longleftrightarrow> calling e (positions p t)"
    and others: "\<And>u. u \<noteq> t \<Longrightarrow> \<not> calling d (positions p u)"
    and x: "x = (if calling d q then Some t else None)"
  shows "protocol_inv (goto t q p')"
proof (rule protocol_invI)
  show "operation_lock (goto t q p') e = Some u \<longleftrightarrow> calling e (positions (goto t q p') u)" for e u
    using protocol_invD(3) [OF inv, of e u] here others x by (auto simp: lock rest)
qed (use protocol_invD(1,2) [OF inv] held rest in auto)

lemma calling_unique:
  "protocol_inv p \<Longrightarrow> calling d (positions p t) \<Longrightarrow> calling d (positions p u) \<Longrightarrow> u = t"
  using protocol_invD(3) [of p d t] protocol_invD(3) [of p d u] by simp

lemma protocol_step_inv:
  assumes "protocol_step p q" and inv: "protocol_inv p"
  shows "protocol_inv q"
  using assms
proof (induction rule: protocol_step.induct)
  case (lock_enter p t d k)
  have "\<not> calling d (positions p u)" for u
    using protocol_invD(3) [OF lock_enter(3), of d u] lock_enter(2) by simp
  then show ?case using lock_enter
    by (intro protocol_inv_lock [where d = d and x = "Some t"]) (auto simp: held_call)
next
  case (adapter_return p t d k)
  have "\<not> calling d (positions p u)" if "u \<noteq> t" for u
    using calling_unique [OF adapter_return(2), of d t u] adapter_return(1) that by auto
  then show ?case using adapter_return
    by (intro protocol_inv_lock [where d = d and x = None]) (auto simp: held_call)
next
  case (outer_enter p t ds g)
  then show ?case by (intro protocol_inv_acquire) simp_all
next
  case (gate_enter p t d k g)
  then show ?case by (intro protocol_inv_acquire) (simp_all add: held_call)
next
  case (outer_exit p t g)
  then show ?case by (intro protocol_inv_release) simp_all
next
  case (lock_busy p t d k g)
  then show ?case by (intro protocol_inv_release) (simp_all add: held_call)
next
  case (gate_exit p t k g)
  then show ?case by (intro protocol_inv_release) (simp_all add: held_call)
qed (intro protocol_inv_goto; simp add: held_call)+

lemma reachable_protocol_inv: "reachable_protocol p \<Longrightarrow> protocol_inv p"
proof (induction rule: reachable_protocol.induct)
  case init
  show ?case by (simp add: protocol_inv_def init_protocol_def new_gate_def gate_wf_def)
next
  case (step p q)
  then show ?case by (blast intro: protocol_step_inv)
qed

subsection \<open>What the protocol guarantees\<close>

lemma held_position_owner:
  assumes "protocol_inv p" and "0 < held (positions p t)"
  shows "owner (shared_gate p) = Some t" "depth (shared_gate p) = held (positions p t)"
  using protocol_invD(2) [OF assms(1), of t] assms(2) by (simp_all split: if_splits)

lemma held_release:
  "protocol_inv p \<Longrightarrow> 0 < held (positions p t) \<Longrightarrow> \<exists>g. gate_release t (shared_gate p) = Some g"
  using held_position_owner(1) by (simp add: gate_release_def)

lemma held_acquire:
  "protocol_inv p \<Longrightarrow> 0 < held (positions p t) \<Longrightarrow> fst (gate_acquire t (shared_gate p))"
  using held_position_owner(1) by (simp add: gate_acquire_iff)

lemma operation_lock_free:
  assumes inv: "protocol_inv p" and at: "positions p t = At_Lock d k"
  shows "operation_lock p e = None"
proof (rule ccontr)
  assume "operation_lock p e \<noteq> None"
  then obtain u where "operation_lock p e = Some u" by blast
  then have call: "calling e (positions p u)" using protocol_invD(3) [OF inv] by simp
  then obtain l where u: "positions p u = In_Adapter e l"
    by (cases "positions p u") (auto simp: calling_def)
  then have "owner (shared_gate p) = Some u"
    using held_position_owner(1) [OF inv, of u] by (simp add: held_call)
  moreover have "owner (shared_gate p) = Some t"
    using held_position_owner(1) [OF inv, of t] at by (simp add: held_call)
  ultimately show False using u at by simp
qed

text \<open>The state of two requests of which one is inside the WLED adapter.\<close>

definition sample_protocol :: protocol where
  "sample_protocol =
     \<lparr>shared_gate = \<lparr>owner = Some 0, depth = 2\<rparr>,
      operation_lock = (\<lambda>_. None)(Dev_WLED := Some 0),
      positions = ((\<lambda>_. Idle)(0 := In_Adapter Dev_WLED (Some [Dev_HyperHDR])))
        (1 := At_Gate Dev_HyperHDR None)\<rparr>"

lemma reachable_sample_protocol: "reachable_protocol sample_protocol"
proof -
  let ?g1 = "\<lparr>owner = Some 0, depth = 1\<rparr>" and ?g2 = "\<lparr>owner = Some 0, depth = 2\<rparr>"
  let ?p1 = "goto 0 (At_Outer [Dev_WLED, Dev_HyperHDR]) init_protocol"
  let ?p2 = "goto 0 (Outer [Dev_WLED, Dev_HyperHDR]) (?p1\<lparr>shared_gate := ?g1\<rparr>)"
  let ?p3 = "goto 0 (At_Gate Dev_WLED (Some [Dev_HyperHDR])) ?p2"
  let ?p4 = "goto 0 (At_Lock Dev_WLED (Some [Dev_HyperHDR])) (?p3\<lparr>shared_gate := ?g2\<rparr>)"
  let ?p5 = "goto 0 (In_Adapter Dev_WLED (Some [Dev_HyperHDR]))
    (?p4\<lparr>operation_lock := (operation_lock ?p4)(Dev_WLED := Some 0)\<rparr>)"
  have 1: "reachable_protocol ?p1"
    by (rule reachable_protocol.step [OF reachable_protocol.init])
      (rule protocol_step.composite, simp add: init_protocol_def)
  have 2: "reachable_protocol ?p2"
    by (rule reachable_protocol.step [OF 1], rule protocol_step.outer_enter)
      (simp_all add: init_protocol_def gate_acquire_def new_gate_def)
  have 3: "reachable_protocol ?p3"
    by (rule reachable_protocol.step [OF 2], rule protocol_step.child)
      (simp add: init_protocol_def)
  have 4: "reachable_protocol ?p4"
    by (rule reachable_protocol.step [OF 3], rule protocol_step.gate_enter)
      (simp_all add: init_protocol_def gate_acquire_def)
  have 5: "reachable_protocol ?p5"
    by (rule reachable_protocol.step [OF 4], rule protocol_step.lock_enter)
      (simp_all add: init_protocol_def)
  have "reachable_protocol (goto 1 (At_Gate Dev_HyperHDR None) ?p5)"
    by (rule reachable_protocol.step [OF 5], rule protocol_step.request)
      (simp add: init_protocol_def)
  also have "goto 1 (At_Gate Dev_HyperHDR None) ?p5 = sample_protocol"
    by (simp add: goto_def sample_protocol_def init_protocol_def fun_upd_twist)
  finally show ?thesis .
qed

section \<open>Properties\<close>

text \<open>
  C30. At every moment at most one thread is inside a device adapter, across both devices and
  whatever mix of standalone and composite requests is running; that thread owns the shared
  gate and the operation lock of the device it calls.
\<close>

theorem adapter_calls_exclusive:
  assumes "reachable_protocol p" and "positions p t = In_Adapter d k"
    and "positions p u = In_Adapter e l"
  shows "t = u \<and> d = e \<and> owner (shared_gate p) = Some t \<and> operation_lock p d = Some t"
proof -
  note inv = reachable_protocol_inv [OF assms(1)]
  have "owner (shared_gate p) = Some t" "owner (shared_gate p) = Some u"
    using held_position_owner(1) [OF inv, of t] held_position_owner(1) [OF inv, of u] assms(2,3)
    by (simp_all add: held_call)
  then show ?thesis using assms(2,3) protocol_invD(3) [OF inv, of d t] by simp
qed

lemma adapter_calls_exclusive_witness:
  "owner (shared_gate sample_protocol) = Some 0 \<and> operation_lock sample_protocol Dev_WLED = Some 0"
  using adapter_calls_exclusive [OF reachable_sample_protocol, of 0 Dev_WLED "Some [Dev_HyperHDR]"
      0 Dev_WLED "Some [Dev_HyperHDR]"]
  by (simp add: sample_protocol_def)

text \<open>
  C36. No request is ever stuck: a thread that is not idle can take its next step without
  waiting for another thread. In particular the release of the gate never raises its
  \<open>RuntimeError\<close>.
\<close>

theorem request_never_blocks:
  assumes "reachable_protocol p" and "positions p t \<noteq> Idle"
  shows "\<exists>q. protocol_step p q \<and> positions q t \<noteq> positions p t"
proof -
  note inv = reachable_protocol_inv [OF assms(1)]
  note rel = held_release [OF inv, of t]
  obtain b g where acq: "gate_acquire t (shared_gate p) = (b, g)" by fastforce
  have cont: "return_to k \<noteq> At_Gate d k'" "return_to k \<noteq> At_Lock d k'" "return_to k \<noteq> Releasing k'"
    for k k' d by (cases k; simp)+
  show ?thesis
  proof (cases "positions p t")
    case Idle
    then show ?thesis using assms(2) by simp
  next
    case (At_Outer ds)
    then show ?thesis using acq protocol_step.outer_enter [of p t ds g] protocol_step.outer_busy [of p t ds]
      by (cases b) fastforce+
  next
    case (Outer ds)
    then show ?thesis using rel protocol_step.outer_exit [of p t] protocol_step.child [of p t]
      by (cases ds) fastforce+
  next
    case (At_Gate d k)
    then show ?thesis using acq cont protocol_step.gate_enter [of p t d k g] protocol_step.gate_busy [of p t d k]
      by (cases b) fastforce+
  next
    case (At_Lock d k)
    have "operation_lock p d = None" by (rule operation_lock_free [OF inv At_Lock])
    from protocol_step.lock_enter [OF At_Lock this] show ?thesis using At_Lock by fastforce
  next
    case (In_Adapter d k)
    from protocol_step.adapter_return [OF this] show ?thesis using In_Adapter by fastforce
  next
    case (Releasing k)
    then show ?thesis using rel cont protocol_step.gate_exit [of p t k] by (fastforce simp: held_call)
  qed
qed

lemma request_never_blocks_witness:
  "\<exists>q. protocol_step sample_protocol q \<and> positions q 1 \<noteq> positions sample_protocol 1"
  by (rule request_never_blocks [OF reachable_sample_protocol]) (simp add: sample_protocol_def)

text \<open>
  A child of a composite operation never finds the gate busy, and no operation that got
  past the gate finds its operation lock busy: a reported BUSY always means that another
  request holds the gate.
\<close>

theorem composite_child_never_busy:
  assumes "reachable_protocol p"
  shows "(positions p t = At_Gate d (Some ds) \<longrightarrow> fst (gate_acquire t (shared_gate p))) \<and>
    (positions p t = At_Lock d k \<longrightarrow> operation_lock p d = None)"
  using held_acquire [OF reachable_protocol_inv [OF assms], of t]
    operation_lock_free [OF reachable_protocol_inv [OF assms], of t d k d] by simp

definition sample_child :: protocol where
  "sample_child =
     goto 0 (At_Gate Dev_WLED (Some []))
       (goto 0 (Outer [Dev_WLED])
         ((goto 0 (At_Outer [Dev_WLED]) init_protocol)\<lparr>shared_gate := \<lparr>owner = Some 0, depth = 1\<rparr>\<rparr>))"

lemma reachable_sample_child: "reachable_protocol sample_child"
  unfolding sample_child_def
  by (rule reachable_protocol.step [OF reachable_protocol.step [OF reachable_protocol.step
        [OF reachable_protocol.init protocol_step.composite] protocol_step.outer_enter]
        protocol_step.child])
    (simp_all add: init_protocol_def gate_acquire_def new_gate_def)

lemma composite_child_never_busy_witness:
  "fst (gate_acquire 0 (shared_gate sample_child))"
  using composite_child_never_busy [OF reachable_sample_child, of 0 Dev_WLED "[]"]
  by (simp add: sample_child_def)

end
