(* ===== verification/Window_Counter.thy ===== *)
theory Window_Counter
  imports Aurora_Prelude
begin

text \<open>
  The contract of a sliding-window counter and what follows from it. A component that meets
  the contract keeps a list of time stamps, drops the ones that left the window, and counts
  an event only while fewer than \<open>cap\<close> stamps are in the window. The contract's consequence is
  the bound its clients rely on: no interval of the window's length holds more than \<open>cap\<close>
  counted events.
\<close>

section \<open>Stamps in the window\<close>

definition recent :: "seconds \<Rightarrow> seconds list \<Rightarrow> seconds list" where
  "recent cutoff stamps = [stamp \<leftarrow> stamps. cutoff < stamp]"

lemma recent_append [simp]: "recent c (xs @ ys) = recent c xs @ recent c ys"
  by (simp add: recent_def)

lemma recent_Nil [simp]: "recent c [] = []"
  by (simp add: recent_def)

lemma recent_recent: "recent c (recent d xs) = recent (max c d) xs"
  by (auto simp: recent_def intro: filter_cong)

lemma recent_idem [simp]: "recent c (recent c xs) = recent c xs"
  by (simp add: recent_recent)

lemma length_recent: "length (recent c xs) \<le> length xs"
  by (simp add: recent_def)

lemma recent_singleton [simp]: "0 < w \<Longrightarrow> recent (t - w) [t] = [t]"
  by (simp add: recent_def)

text \<open>The stamps in the half-open interval that starts after \<open>a\<close> and has length \<open>w\<close>.\<close>

definition in_window :: "seconds \<Rightarrow> seconds \<Rightarrow> seconds list \<Rightarrow> seconds list" where
  "in_window a w stamps = [stamp \<leftarrow> stamps. a < stamp \<and> stamp \<le> a + w]"

lemma in_window_simps [simp]:
  "in_window a w [] = []"
  "in_window a w (xs @ ys) = in_window a w xs @ in_window a w ys"
  by (simp_all add: in_window_def)

lemma in_window_recent: "t - w \<le> a \<Longrightarrow> in_window a w (recent (t - w) xs) = in_window a w xs"
  by (auto simp: in_window_def recent_def intro: filter_cong)

lemma length_in_window_recent: "t - w \<le> a \<Longrightarrow> length (in_window a w xs) \<le> length (recent (t - w) xs)"
  using in_window_recent [of t w a xs] by (metis length_filter_le in_window_def)

section \<open>Runs\<close>

text \<open>
  A run is a list of timed events. \<open>counted step es s\<close> lists the events that the component
  counted, in order, and \<open>after step es s\<close> is the state it ends in.
\<close>

primrec counted ::
  "(seconds \<Rightarrow> 'e \<Rightarrow> 's \<Rightarrow> bool \<times> 's) \<Rightarrow> (seconds \<times> 'e) list \<Rightarrow> 's \<Rightarrow> (seconds \<times> 'e) list" where
  "counted step [] s = []"
| "counted step (x # es) s =
     (if fst (step (fst x) (snd x) s) then [x] else [])
       @ counted step es (snd (step (fst x) (snd x) s))"

primrec after ::
  "(seconds \<Rightarrow> 'e \<Rightarrow> 's \<Rightarrow> bool \<times> 's) \<Rightarrow> (seconds \<times> 'e) list \<Rightarrow> 's \<Rightarrow> 's" where
  "after step [] s = s"
| "after step (x # es) s = after step es (snd (step (fst x) (snd x) s))"

lemma counted_subset: "set (counted step es s) \<subseteq> set es"
  by (induction es arbitrary: s) auto

text \<open>A step that counts less, on the same states, counts less in every window.\<close>

lemma counted_mono:
  assumes "I s"
    and "\<And>s t e. I s \<Longrightarrow> I (snd (step t e s))"
    and "\<And>s t e. I s \<Longrightarrow> snd (step' t e s) = snd (step t e s)"
    and "\<And>s t e. I s \<Longrightarrow> fst (step' t e s) \<Longrightarrow> fst (step t e s)"
  shows "length (in_window a w (map fst (counted step' es s)))
    \<le> length (in_window a w (map fst (counted step es s)))"
  using assms(1)
proof (induction es arbitrary: s)
  case (Cons x es)
  let ?s = "snd (step (fst x) (snd x) s)"
  have "length (in_window a w (map fst (counted step' es ?s)))
      \<le> length (in_window a w (map fst (counted step es ?s)))"
    by (rule Cons.IH) (rule assms(2) [OF Cons.prems])
  then show ?case
    using assms(3,4) [OF Cons.prems, of "fst x" "snd x"] by (auto simp: in_window_def)
qed simp

section \<open>The contract\<close>

locale window_counter =
  fixes step :: "seconds \<Rightarrow> 'e \<Rightarrow> 's \<Rightarrow> bool \<times> 's"
    and ok :: "'e \<Rightarrow> bool"
    and inv :: "'s \<Rightarrow> bool"
    and live :: "'s \<Rightarrow> seconds list"
    and window :: "'s \<Rightarrow> seconds"
    and cap :: "'s \<Rightarrow> int"
  assumes bounds_pos: "inv s \<Longrightarrow> 0 < window s \<and> 0 \<le> cap s"
    and step_inv: "inv s \<Longrightarrow> ok e \<Longrightarrow> inv (snd (step t e s))"
    and step_bounds: "inv s \<Longrightarrow> ok e \<Longrightarrow>
      window (snd (step t e s)) = window s \<and> cap (snd (step t e s)) = cap s"
    and step_live: "inv s \<Longrightarrow> ok e \<Longrightarrow>
      recent (t - window s) (live (snd (step t e s)))
        = recent (t - window s) (live s) @ (if fst (step t e s) then [t] else [])"
    and step_cap: "inv s \<Longrightarrow> ok e \<Longrightarrow> fst (step t e s) \<Longrightarrow>
      int (length (recent (t - window s) (live s))) < cap s"
begin

lemma run_inv:
  "inv s \<Longrightarrow> list_all (\<lambda>x. ok (snd x)) es \<Longrightarrow>
     inv (after step es s) \<and> window (after step es s) = window s \<and> cap (after step es s) = cap s"
  by (induction es arbitrary: s) (auto simp: step_inv step_bounds)

text \<open>The stamps held at the start count too, so that the induction goes through.\<close>

lemma window_bound_from:
  assumes "inv s" and "list_all (\<lambda>x. ok (snd x)) es" and "sorted (map fst es)"
    and "w = window s" and "int (length (in_window a w (live s))) \<le> cap s"
  shows "int (length (in_window a w (live s))
              + length (in_window a w (map fst (counted step es s)))) \<le> cap s"
  using assms
proof (induction es arbitrary: s)
  case Nil
  then show ?case by simp
next
  case (Cons x es)
  obtain t e where x: "x = (t, e)" by (cases x)
  let ?s = "snd (step t e s)" and ?c = "fst (step t e s)"
  let ?now = "if ?c then [t] else []"
  have ok: "ok e" and sorted: "sorted (map fst es)" and later: "\<forall>u \<in> set es. t \<le> fst u"
    using Cons.prems by (auto simp: x)
  note pos = bounds_pos [OF Cons.prems(1)] and kept = step_bounds [OF Cons.prems(1) ok, of t]
  show ?case
  proof (cases "a < t - w")
    case True
    then have out: "in_window a w (map fst ys) = []" if "set ys \<subseteq> set (x # es)" for ys
      using that later by (fastforce simp: in_window_def filter_empty_conv x)
    have "in_window a w (map fst (counted step (x # es) s)) = []"
      using counted_subset by (rule out)
    then show ?thesis using Cons.prems(5) by simp
  next
    case False
    then have a: "t - w \<le> a" by simp
    have live: "in_window a w (live ?s) = in_window a w (live s) @ in_window a w ?now"
      using step_live [OF Cons.prems(1) ok, of t] pos
      by (metis Cons.prems(4) in_window_recent [OF a] in_window_recent [OF a, of ?now]
          in_window_simps(2) recent_Nil recent_singleton)
    have le: "int (length (in_window a w (live ?s))) \<le> cap s"
    proof (cases ?c)
      case True
      then have "int (length (recent (t - w) (live s))) < cap s"
        using step_cap [OF Cons.prems(1) ok] Cons.prems(4) by simp
      moreover have "length (in_window a w ?now) \<le> 1" by (simp add: in_window_def)
      ultimately show ?thesis using live length_in_window_recent [OF a, of "live s"] by simp
    next
      case False
      then show ?thesis using live Cons.prems(5) by simp
    qed
    have "int (length (in_window a w (live ?s))
        + length (in_window a w (map fst (counted step es ?s)))) \<le> cap ?s"
      by (rule Cons.IH) (use Cons.prems step_inv ok sorted le kept in auto)
    then show ?thesis
      using live kept in_window_simps(2) [of a w "[t]" "map fst (counted step es ?s)"]
      by (cases ?c) (simp_all add: x)
  qed
qed

theorem window_bound:
  assumes "inv s" and "list_all (\<lambda>x. ok (snd x)) es" and "sorted (map fst es)" and "live s = []"
  shows "int (length (in_window a (window s) (map fst (counted step es s)))) \<le> cap s"
  using window_bound_from [OF assms(1-3) refl, of a] assms(4) bounds_pos [OF assms(1)] by simp

end

end
