(* ===== verification/Attempt_Limiter.thy ===== *)
theory Attempt_Limiter
  imports Window_Counter
begin

text \<open>
  \<open>control_plane/limiter.py\<close>: the bounded attempt limiter. Its clients are known only by a
  keyed digest; the digest function (\<open>hashlib.blake2b\<close> on the encoded identifier) is the
  argument \<open>blake\<close>. Each method runs under the object's lock, so a method is one function on
  the state; the reading of the clock inside the lock is the argument \<open>now\<close>.

  The limiter meets the contract of a sliding-window counter (\<open>Window_Counter\<close>) twice: for all
  attempts together, and for the attempts of one client.
\<close>

section \<open>State\<close>

definition MAX_TRACKED_CLIENTS :: int where
  "MAX_TRACKED_CLIENTS = 256"

definition GLOBAL_ATTEMPT_MULTIPLIER :: int where
  "GLOBAL_ATTEMPT_MULTIPLIER = 16"

record attempt_record =
  attempts :: "seconds list"
  last_seen :: seconds

record limiter =
  attempt_limit :: int
  window_seconds :: seconds
  digest_key :: bytes
  maximum_clients :: int
  records :: "(bytes, attempt_record) dict"
  global_attempts :: "seconds list"
  global_attempt_limit :: int

text \<open>The constructor; \<open>None\<close> is its \<open>ValueError\<close>.\<close>

definition new_limiter :: "int \<Rightarrow> seconds \<Rightarrow> bytes \<Rightarrow> int \<Rightarrow> limiter option" where
  "new_limiter limit window key clients =
     (if limit \<le> 0 \<or> window \<le> 0 \<or> clients \<le> 0 then None
      else if key = [] then None
      else Some \<lparr>attempt_limit = limit, window_seconds = window, digest_key = key,
                 maximum_clients = clients, records = [], global_attempts = [],
                 global_attempt_limit = limit * GLOBAL_ATTEMPT_MULTIPLIER\<rparr>)"

section \<open>Operations\<close>

text \<open>
  \<open>_cleanup\<close>: the loop over the records rewrites every attempt list in place and collects the
  digests left without attempts, which a second loop deletes.
\<close>

definition trim_record :: "seconds \<Rightarrow> attempt_record \<Rightarrow> attempt_record" where
  "trim_record cutoff r = r\<lparr>attempts := recent cutoff (attempts r)\<rparr>"

definition cleanup :: "seconds \<Rightarrow> limiter \<Rightarrow> limiter" where
  "cleanup now l =
     (let cutoff = now - window_seconds l;
          trimmed = map (\<lambda>(d, r). (d, trim_record cutoff r)) (records l);
          expired = map fst (filter (\<lambda>(d, r). attempts r = []) trimmed)
      in l\<lparr>global_attempts := recent cutoff (global_attempts l),
           records := fold dict_del expired trimmed\<rparr>)"

text \<open>The eviction inside \<open>begin_attempt\<close>: the first digest with the least \<open>last_seen\<close>.\<close>

definition evict_oldest :: "limiter \<Rightarrow> limiter" where
  "evict_oldest l =
     (case min_by (\<lambda>p. last_seen (snd p)) (records l) of
        None \<Rightarrow> l
      | Some p \<Rightarrow> l\<lparr>records := dict_del (fst p) (records l)\<rparr>)"

text \<open>Its lookup: find the client's record, or make room and add an empty one.\<close>

definition ensure_record :: "seconds \<Rightarrow> bytes \<Rightarrow> limiter \<Rightarrow> attempt_record \<times> limiter" where
  "ensure_record now digest l =
     (case dict_get (records l) digest of
        Some r \<Rightarrow> (r, l)
      | None \<Rightarrow>
          (let l' = (if maximum_clients l \<le> int (length (records l)) then evict_oldest l else l);
               r = \<lparr>attempts = [], last_seen = now\<rparr>
           in (r, l'\<lparr>records := dict_set digest r (records l')\<rparr>)))"

definition begin_attempt ::
  "(bytes \<Rightarrow> string \<Rightarrow> bytes) \<Rightarrow> seconds \<Rightarrow> string \<Rightarrow> limiter \<Rightarrow> bool \<times> limiter" where
  "begin_attempt blake now client_identifier l0 =
     (let digest = blake (digest_key l0) client_identifier;
          l1 = cleanup now l0
      in if global_attempt_limit l1 \<le> int (length (global_attempts l1)) then (False, l1)
         else
           (let (r, l2) = ensure_record now digest l1;
                cutoff = now - window_seconds l2;
                r1 = (trim_record cutoff r)\<lparr>last_seen := now\<rparr>
            in if attempt_limit l2 \<le> int (length (attempts r1))
               then (False, l2\<lparr>records := dict_set digest r1 (records l2)\<rparr>)
               else
                 (let r2 = r1\<lparr>attempts := attempts r1 @ [now]\<rparr>
                  in (True, l2\<lparr>records := dict_set digest r2 (records l2),
                               global_attempts := global_attempts l2 @ [now]\<rparr>))))"

definition clear :: "(bytes \<Rightarrow> string \<Rightarrow> bytes) \<Rightarrow> string \<Rightarrow> limiter \<Rightarrow> limiter" where
  "clear blake client_identifier l =
     l\<lparr>records := dict_del (blake (digest_key l) client_identifier) (records l)\<rparr>"

definition tracked_client_count :: "seconds \<Rightarrow> limiter \<Rightarrow> int \<times> limiter" where
  "tracked_client_count now l =
     (let l1 = cleanup now l in (int (length (records l1)), l1))"

definition attempt_count ::
  "(bytes \<Rightarrow> string \<Rightarrow> bytes) \<Rightarrow> seconds \<Rightarrow> string \<Rightarrow> limiter \<Rightarrow> int \<times> limiter" where
  "attempt_count blake now client_identifier l =
     (let digest = blake (digest_key l) client_identifier;
          l1 = cleanup now l
      in (case dict_get (records l1) digest of
            None \<Rightarrow> 0
          | Some r \<Rightarrow> int (length (attempts r)), l1))"

section \<open>What the dictionary loops compute\<close>

lemma trim_record_simps [simp]:
  "attempts (trim_record c r) = recent c (attempts r)"
  "last_seen (trim_record c r) = last_seen r"
  by (simp_all add: trim_record_def)

lemma records_cleanup:
  assumes "dict_wf (records l)"
  shows "records (cleanup now l) =
    filter (\<lambda>p. attempts (snd p) \<noteq> [])
      (map (\<lambda>p. (fst p, trim_record (now - window_seconds l) (snd p))) (records l))"
proof -
  let ?t = "map (\<lambda>p. (fst p, trim_record (now - window_seconds l) (snd p))) (records l)"
  have wf: "dict_wf ?t" using assms by (simp add: dict_wf_def comp_def)
  show ?thesis
    unfolding cleanup_def Let_def case_prod_beta'
    using fold_dict_del_filter [OF wf, of "\<lambda>p. attempts (snd p) = []"] by simp
qed

text \<open>The stamps that the table holds for one digest, and all the stamps it holds.\<close>

definition stamps_of :: "limiter \<Rightarrow> bytes \<Rightarrow> seconds list" where
  "stamps_of l d = (case dict_get (records l) d of None \<Rightarrow> [] | Some r \<Rightarrow> attempts r)"

definition all_stamps :: "(bytes, attempt_record) dict \<Rightarrow> seconds multiset" where
  "all_stamps rs = (\<Sum>p \<leftarrow> rs. mset (attempts (snd p)))"

lemma all_stamps_simps [simp]:
  "all_stamps [] = {#}"
  "all_stamps (p # rs) = mset (attempts (snd p)) + all_stamps rs"
  by (simp_all add: all_stamps_def)

lemma all_stamps_set:
  "all_stamps (dict_set d r rs)
     + mset (case dict_get rs d of None \<Rightarrow> [] | Some r' \<Rightarrow> attempts r')
   = all_stamps rs + mset (attempts r)"
  by (induction rs) (auto simp: ac_simps)

lemma all_stamps_filter: "all_stamps (filter P rs) \<subseteq># all_stamps rs"
  by (induction rs) (auto intro: subset_mset.add_mono subset_mset.add_increasing)

lemma all_stamps_del: "all_stamps (dict_del d rs) \<subseteq># all_stamps rs"
  by (simp add: AList.delete_eq all_stamps_filter)

lemma all_stamps_trim:
  "all_stamps (map (\<lambda>p. (fst p, trim_record c (snd p))) rs) = filter_mset ((<) c) (all_stamps rs)"
  by (induction rs) (auto simp: recent_def mset_filter)

lemma all_stamps_nonempty:
  "all_stamps (filter (\<lambda>p. attempts (snd p) \<noteq> []) rs) = all_stamps rs"
  by (induction rs) auto

lemma length_le_all_stamps:
  "(\<And>p. p \<in> set rs \<Longrightarrow> attempts (snd p) \<noteq> []) \<Longrightarrow> length rs \<le> size (all_stamps rs)"
proof (induction rs)
  case Nil
  then show ?case by simp
next
  case (Cons p rs)
  have "1 \<le> length (attempts (snd p))" using Cons.prems [of p] by (cases "attempts (snd p)") auto
  moreover have "length rs \<le> size (all_stamps rs)" using Cons by simp
  ultimately show ?case by simp
qed

section \<open>The invariant\<close>

definition limiter_inv :: "limiter \<Rightarrow> bool" where
  "limiter_inv l \<longleftrightarrow>
     0 < attempt_limit l \<and> 0 < window_seconds l \<and> 0 < maximum_clients l \<and>
     global_attempt_limit l = attempt_limit l * GLOBAL_ATTEMPT_MULTIPLIER \<and>
     dict_wf (records l) \<and>
     (\<forall>p \<in> set (records l). attempts (snd p) \<noteq> [] \<and>
        int (length (attempts (snd p))) \<le> attempt_limit l) \<and>
     int (length (records l)) \<le> maximum_clients l \<and>
     int (length (global_attempts l)) \<le> global_attempt_limit l \<and>
     all_stamps (records l) \<subseteq># mset (global_attempts l)"

lemma limiter_invI:
  assumes "0 < attempt_limit l" "0 < window_seconds l" "0 < maximum_clients l"
    "global_attempt_limit l = attempt_limit l * GLOBAL_ATTEMPT_MULTIPLIER"
    "dict_wf (records l)"
    "\<And>p. p \<in> set (records l) \<Longrightarrow> attempts (snd p) \<noteq> []"
    "\<And>p. p \<in> set (records l) \<Longrightarrow> int (length (attempts (snd p))) \<le> attempt_limit l"
    "int (length (records l)) \<le> maximum_clients l"
    "int (length (global_attempts l)) \<le> global_attempt_limit l"
    "all_stamps (records l) \<subseteq># mset (global_attempts l)"
  shows "limiter_inv l"
  using assms by (auto simp: limiter_inv_def)

lemma limiter_invD:
  assumes "limiter_inv l"
  shows "0 < attempt_limit l" "0 < window_seconds l" "0 < maximum_clients l"
    "global_attempt_limit l = attempt_limit l * GLOBAL_ATTEMPT_MULTIPLIER"
    "dict_wf (records l)"
    "p \<in> set (records l) \<Longrightarrow> attempts (snd p) \<noteq> []"
    "p \<in> set (records l) \<Longrightarrow> int (length (attempts (snd p))) \<le> attempt_limit l"
    "int (length (records l)) \<le> maximum_clients l"
    "int (length (global_attempts l)) \<le> global_attempt_limit l"
    "all_stamps (records l) \<subseteq># mset (global_attempts l)"
  using assms by (auto simp: limiter_inv_def)

lemma limiter_inv_new: "new_limiter n w k c = Some l \<Longrightarrow> limiter_inv l"
  by (auto simp: new_limiter_def GLOBAL_ATTEMPT_MULTIPLIER_def intro!: limiter_invI split: if_splits)

text \<open>The configuration of a limiter never changes.\<close>

definition same_bounds :: "limiter \<Rightarrow> limiter \<Rightarrow> bool" where
  "same_bounds l l' \<longleftrightarrow>
     attempt_limit l' = attempt_limit l \<and> window_seconds l' = window_seconds l \<and>
     digest_key l' = digest_key l \<and> maximum_clients l' = maximum_clients l \<and>
     global_attempt_limit l' = global_attempt_limit l"

lemma same_bounds_refl [simp]: "same_bounds l l"
  by (simp add: same_bounds_def)

lemma same_bounds_cleanup [simp]: "same_bounds l (cleanup now l)"
  by (simp add: same_bounds_def cleanup_def Let_def)

lemma cleanup_bounds [frame_simps, simp]:
  "attempt_limit (cleanup now l) = attempt_limit l"
  "window_seconds (cleanup now l) = window_seconds l"
  "digest_key (cleanup now l) = digest_key l"
  "maximum_clients (cleanup now l) = maximum_clients l"
  "global_attempt_limit (cleanup now l) = global_attempt_limit l"
  by (simp_all add: cleanup_def Let_def)

lemma evict_bounds [frame_simps, simp]:
  "attempt_limit (evict_oldest l) = attempt_limit l"
  "window_seconds (evict_oldest l) = window_seconds l"
  "digest_key (evict_oldest l) = digest_key l"
  "maximum_clients (evict_oldest l) = maximum_clients l"
  "global_attempt_limit (evict_oldest l) = global_attempt_limit l"
  "global_attempts (evict_oldest l) = global_attempts l"
  by (simp_all add: evict_oldest_def split: option.splits)

lemma global_attempts_cleanup [simp]:
  "global_attempts (cleanup now l) = recent (now - window_seconds l) (global_attempts l)"
  by (simp add: cleanup_def Let_def)

lemma limiter_inv_cleanup:
  assumes inv: "limiter_inv l"
  shows "limiter_inv (cleanup now l)"
proof (rule limiter_invI)
  let ?c = "now - window_seconds l"
  let ?t = "map (\<lambda>p. (fst p, trim_record ?c (snd p))) (records l)"
  note D = limiter_invD [OF inv]
  have recs: "records (cleanup now l) = filter (\<lambda>p. attempts (snd p) \<noteq> []) ?t"
    using D(5) by (rule records_cleanup)
  have wf: "dict_wf ?t" using D(5) by (simp add: dict_wf_def comp_def)
  show "dict_wf (records (cleanup now l))" using wf by (simp add: recs)
  show "attempts (snd p) \<noteq> []" if "p \<in> set (records (cleanup now l))" for p
    using that by (simp add: recs)
  show "int (length (attempts (snd p))) \<le> attempt_limit (cleanup now l)"
    if mem: "p \<in> set (records (cleanup now l))" for p
  proof -
    from mem obtain q where "q \<in> set (records l)" and "attempts (snd p) = recent ?c (attempts (snd q))"
      by (auto simp: recs)
    then show ?thesis using D(7) [of q] length_recent [of ?c "attempts (snd q)"] by simp
  qed
  show "int (length (records (cleanup now l))) \<le> maximum_clients (cleanup now l)"
  proof -
    have "length (records (cleanup now l)) \<le> length (records l)"
      using length_filter_le [of _ ?t] by (simp add: recs)
    then show ?thesis using D(8) by simp
  qed
  show "int (length (global_attempts (cleanup now l))) \<le> global_attempt_limit (cleanup now l)"
    using D(9) length_recent [of ?c "global_attempts l"] by simp
  have "all_stamps (records (cleanup now l)) = filter_mset ((<) ?c) (all_stamps (records l))"
    by (simp only: recs all_stamps_nonempty all_stamps_trim)
  also have "\<dots> \<subseteq># filter_mset ((<) ?c) (mset (global_attempts l))"
    using D(10) by (rule multiset_filter_mono)
  finally show "all_stamps (records (cleanup now l)) \<subseteq># mset (global_attempts (cleanup now l))"
    by (simp add: recent_def mset_filter)
qed (use limiter_invD [OF inv] in simp_all)

lemma stamps_of_cleanup:
  assumes "dict_wf (records l)"
  shows "stamps_of (cleanup now l) d = recent (now - window_seconds l) (stamps_of l d)"
proof -
  let ?c = "now - window_seconds l"
  let ?t = "map (\<lambda>p. (fst p, trim_record ?c (snd p))) (records l)"
  have wf: "dict_wf ?t" using assms by (simp add: dict_wf_def comp_def)
  have "dict_get ?t d = map_option (trim_record ?c) (dict_get (records l) d)"
    by (rule dict_get_map_values)
  then show ?thesis
    by (simp add: stamps_of_def records_cleanup [OF assms] dict_get_filter [OF wf]
        split: option.splits)
qed

section \<open>One attempt, in closed form\<close>

text \<open>The table after lines 63 to 68: an eviction happens only for a new client of a full table.\<close>

definition make_room :: "bytes \<Rightarrow> limiter \<Rightarrow> limiter" where
  "make_room d l =
     (if dict_get (records l) d = None \<and> maximum_clients l \<le> int (length (records l))
      then evict_oldest l else l)"

lemma make_room_bounds [frame_simps, simp]:
  "attempt_limit (make_room d l) = attempt_limit l"
  "window_seconds (make_room d l) = window_seconds l"
  "digest_key (make_room d l) = digest_key l"
  "maximum_clients (make_room d l) = maximum_clients l"
  "global_attempt_limit (make_room d l) = global_attempt_limit l"
  "global_attempts (make_room d l) = global_attempts l"
  by (simp_all add: make_room_def)

definition entry :: "seconds list \<Rightarrow> seconds \<Rightarrow> attempt_record" where
  "entry stamps now = \<lparr>attempts = stamps, last_seen = now\<rparr>"

lemma entry_simps [simp]: "attempts (entry s t) = s" "last_seen (entry s t) = t"
  by (simp_all add: entry_def)

lemma ensure_record_eq:
  obtains r where "ensure_record now d l =
      (r, (make_room d l)\<lparr>records := dict_set d r (records (make_room d l))\<rparr>)"
    and "attempts r = stamps_of l d"
proof (cases "dict_get (records l) d")
  case None
  then show ?thesis
    by (intro that [of "\<lparr>attempts = [], last_seen = now\<rparr>"])
      (auto simp: ensure_record_def make_room_def stamps_of_def Let_def)
next
  case (Some r)
  then have "dict_set d r (records l) = records l" by (rule update_triv)
  with Some show ?thesis
    by (intro that [of r]) (auto simp: ensure_record_def make_room_def stamps_of_def)
qed

lemma begin_attempt_eq:
  fixes blake :: "bytes \<Rightarrow> string \<Rightarrow> bytes" and now :: seconds and client :: string
  assumes inv: "limiter_inv l0"
  defines "l1 \<equiv> cleanup now l0" and "d \<equiv> blake (digest_key l0) client"
  shows "begin_attempt blake now client l0 =
    (if global_attempt_limit l1 \<le> int (length (global_attempts l1)) then (False, l1)
     else if attempt_limit l1 \<le> int (length (stamps_of l1 d))
     then (False, (make_room d l1)\<lparr>records :=
             dict_set d (entry (stamps_of l1 d) now) (records (make_room d l1))\<rparr>)
     else (True, (make_room d l1)\<lparr>records :=
             dict_set d (entry (stamps_of l1 d @ [now]) now) (records (make_room d l1)),
             global_attempts := global_attempts l1 @ [now]\<rparr>))"
proof -
  obtain r where ens: "ensure_record now d l1 =
      (r, (make_room d l1)\<lparr>records := dict_set d r (records (make_room d l1))\<rparr>)"
    and att: "attempts r = stamps_of l1 d"
    by (rule ensure_record_eq)
  have w: "window_seconds l1 = window_seconds l0" by (simp add: l1_def)
  have idem: "recent (now - window_seconds l0) (stamps_of l1 d) = stamps_of l1 d"
    using stamps_of_cleanup [OF limiter_invD(5) [OF inv]] by (simp add: l1_def)
  have trimmed: "recent (now - window_seconds l0) (attempts r) = stamps_of l1 d"
    using idem by (simp add: att)
  have r1: "(trim_record (now - window_seconds l0) r)\<lparr>last_seen := now\<rparr> = entry (stamps_of l1 d) now"
    by (simp add: trim_record_def entry_def att idem)
  show ?thesis
    unfolding begin_attempt_def
    by (simp add: Let_def ens [unfolded l1_def d_def] r1 [unfolded l1_def d_def]
        trimmed [unfolded l1_def d_def] l1_def d_def dict_simps entry_def)
qed

lemma make_room_records:
  assumes inv: "limiter_inv l"
  shows "set (records (make_room d l)) \<subseteq> set (records l)"
    and "dict_wf (records (make_room d l))"
    and "all_stamps (records (make_room d l)) \<subseteq># all_stamps (records l)"
    and "dict_get (records (make_room d l)) d = dict_get (records l) d"
    and "int (length (records (make_room d l)))
           + (if dict_get (records l) d = None then 1 else 0) \<le> maximum_clients l"
proof -
  note D = limiter_invD [OF inv]
  show "set (records (make_room d l)) \<subseteq> set (records l)"
    by (auto simp: make_room_def evict_oldest_def AList.delete_eq split: option.splits)
  show "dict_wf (records (make_room d l))"
    using D(5) by (auto simp: make_room_def evict_oldest_def split: option.splits)
  show "all_stamps (records (make_room d l)) \<subseteq># all_stamps (records l)"
    by (auto simp: make_room_def evict_oldest_def all_stamps_del split: option.splits)
  show "dict_get (records (make_room d l)) d = dict_get (records l) d"
    by (auto simp: make_room_def evict_oldest_def dict_simps split: option.splits)
  show "int (length (records (make_room d l)))
      + (if dict_get (records l) d = None then 1 else 0) \<le> maximum_clients l"
  proof (cases "dict_get (records l) d = None \<and> maximum_clients l \<le> int (length (records l))")
    case True
    then have ne: "records l \<noteq> []" using D(3) by auto
    then obtain p where p: "min_by (\<lambda>p. last_seen (snd p)) (records l) = Some p"
      by (cases "min_by (\<lambda>p. last_seen (snd p)) (records l)") auto
    have "fst p \<in> set (dict_keys (records l))" using min_by_in [OF p] by simp
    then have "length (dict_del (fst p) (records l)) = length (records l) - 1"
      using D(5) by (rule length_dict_del_in [rotated])
    then have "length (dict_del (fst p) (records l)) + 1 = length (records l)"
      using ne by (cases "records l") simp_all
    then have "int (length (dict_del (fst p) (records l))) + 1 = int (length (records l))"
      by linarith
    then show ?thesis using True D(8) p by (simp add: make_room_def evict_oldest_def)
  next
    case False
    then show ?thesis using D(8) by (auto simp: make_room_def)
  qed
qed

text \<open>
  Writing the client's entry back keeps the invariant, when the entry holds the client's
  stamps and \<open>new\<close> ones that the global list receives too.
\<close>

lemma limiter_inv_put:
  assumes inv: "limiter_inv l" and ne: "attempts e \<noteq> []"
    and cap: "int (length (attempts e)) \<le> attempt_limit l"
    and stamps: "mset (attempts e) = mset (stamps_of l d) + mset new"
    and gcap: "int (length (global_attempts l @ new)) \<le> global_attempt_limit l"
  shows "limiter_inv ((make_room d l)\<lparr>records := dict_set d e (records (make_room d l)),
           global_attempts := global_attempts l @ new\<rparr>)"
    (is "limiter_inv ?l")
proof -
  define lr where "lr = make_room d l"
  note D = limiter_invD [OF inv] and R = make_room_records [OF inv, of d, folded lr_def]
  have st: "stamps_of l d = (case dict_get (records lr) d of None \<Rightarrow> [] | Some r \<Rightarrow> attempts r)"
    by (simp add: stamps_of_def R(4))
  have len: "int (length (dict_set d e (records lr))) \<le> maximum_clients l"
  proof (cases "dict_get (records lr) d")
    case None
    then show ?thesis using R(5) by (simp add: dict_set_new [OF dict_get_NoneD] R(4) [symmetric])
  next
    case (Some r)
    then show ?thesis
      using R(5) by (simp add: length_dict_set_old [OF dict_get_SomeD] R(4) [symmetric])
  qed
  have "all_stamps (dict_set d e (records lr)) + mset (stamps_of l d)
      = all_stamps (records lr) + mset new + mset (stamps_of l d)"
    using all_stamps_set [of d e "records lr"] by (simp add: st [symmetric] stamps ac_simps)
  then have "all_stamps (dict_set d e (records lr)) = all_stamps (records lr) + mset new" by simp
  moreover have "all_stamps (records lr) \<subseteq># mset (global_attempts l)"
    using R(3) D(10) by (rule subset_mset.order_trans)
  ultimately have sum: "all_stamps (dict_set d e (records lr)) \<subseteq># mset (global_attempts l @ new)"
    by (simp add: subset_mset.add_right_mono)
  have mem: "p \<in> set (dict_set d e (records lr)) \<Longrightarrow> p = (d, e) \<or> p \<in> set (records l)" for p
    using R(1) by (auto dest: in_dict_set)
  show ?thesis
  proof (rule limiter_invI)
    show "attempts (snd p) \<noteq> []" if "p \<in> set (records ?l)" for p
      using mem [of p] that D(6) [of p] ne by (auto simp: lr_def)
    show "int (length (attempts (snd p))) \<le> attempt_limit ?l" if "p \<in> set (records ?l)" for p
      using mem [of p] that D(7) [of p] cap by (auto simp: lr_def)
  qed (use D(1-4) R(2) len sum gcap in \<open>simp_all add: lr_def\<close>)
qed

lemma limiter_inv_begin_attempt:
  assumes inv0: "limiter_inv l0"
  shows "limiter_inv (snd (begin_attempt blake now client l0))"
proof -
  define l1 where "l1 = cleanup now l0"
  define d where "d = blake (digest_key l0) client"
  have inv: "limiter_inv l1" using inv0 by (simp add: l1_def limiter_inv_cleanup)
  note D = limiter_invD [OF inv]
  have cap: "int (length (stamps_of l1 d)) \<le> attempt_limit l1"
    using D(1,7) by (auto simp: stamps_of_def dest!: dict_get_in split: option.splits)
  note eq = begin_attempt_eq [OF inv0, where now = now and blake = blake and client = client,
      folded l1_def d_def]
  consider (full) "global_attempt_limit l1 \<le> int (length (global_attempts l1))"
    | (limited) "\<not> global_attempt_limit l1 \<le> int (length (global_attempts l1))"
        "attempt_limit l1 \<le> int (length (stamps_of l1 d))"
    | (accepted) "\<not> global_attempt_limit l1 \<le> int (length (global_attempts l1))"
        "\<not> attempt_limit l1 \<le> int (length (stamps_of l1 d))"
    by blast
  then show ?thesis
  proof cases
    case full
    then show ?thesis using eq inv by simp
  next
    case limited
    then have "stamps_of l1 d \<noteq> []" using D(1) by auto
    then show ?thesis
      using limiter_inv_put [OF inv, of "entry (stamps_of l1 d) now" d "[]"] cap D(9) limited eq
      by (simp add: limiter_inv_def)
  next
    case accepted
    have "limiter_inv ((make_room d l1)\<lparr>records :=
        dict_set d (entry (stamps_of l1 d @ [now]) now) (records (make_room d l1)),
        global_attempts := global_attempts l1 @ [now]\<rparr>)"
      by (rule limiter_inv_put [OF inv]) (use accepted in simp_all)
    with accepted show ?thesis by (simp add: eq)
  qed
qed

lemma limiter_inv_remove:
  assumes inv: "limiter_inv l"
  shows "limiter_inv (l\<lparr>records := dict_del d (records l)\<rparr>)"
proof -
  note D = limiter_invD [OF inv]
  have sub: "set (dict_del d (records l)) \<subseteq> set (records l)" by (auto simp: AList.delete_eq)
  have "all_stamps (dict_del d (records l)) \<subseteq># mset (global_attempts l)"
    using all_stamps_del D(10) by (rule subset_mset.order_trans)
  moreover have "int (length (dict_del d (records l))) \<le> maximum_clients l"
    using length_delete_le [of d "records l"] D(8) by linarith
  ultimately show ?thesis
    using D(1-5,9) D(6,7) sub by (intro limiter_invI) auto
qed

lemma limiter_inv_clear: "limiter_inv l \<Longrightarrow> limiter_inv (clear blake client l)"
  by (simp add: clear_def limiter_inv_remove)

section \<open>The limiter as a machine\<close>

text \<open>The calls a limiter serves, each with the clock reading it makes.\<close>

datatype limiter_event = Begin string | Clear string | Count | Inspect string

fun limiter_step ::
  "(bytes \<Rightarrow> string \<Rightarrow> bytes) \<Rightarrow> seconds \<Rightarrow> limiter_event \<Rightarrow> limiter \<Rightarrow> bool \<times> limiter" where
  "limiter_step blake now (Begin c) l = begin_attempt blake now c l"
| "limiter_step blake now (Clear c) l = (False, clear blake c l)"
| "limiter_step blake now Count l = (False, snd (tracked_client_count now l))"
| "limiter_step blake now (Inspect c) l = (False, snd (attempt_count blake now c l))"

lemma limiter_inv_step: "limiter_inv l \<Longrightarrow> limiter_inv (snd (limiter_step blake now e l))"
  by (cases e)
    (simp_all add: limiter_inv_begin_attempt limiter_inv_clear limiter_inv_cleanup
      tracked_client_count_def attempt_count_def Let_def)

lemma begin_attempt_same_bounds: "limiter_inv l \<Longrightarrow> same_bounds l (snd (begin_attempt blake now c l))"
  by (simp add: begin_attempt_eq same_bounds_def)

lemma limiter_step_same_bounds: "limiter_inv l \<Longrightarrow> same_bounds l (snd (limiter_step blake now e l))"
  by (cases e)
    (simp_all add: begin_attempt_same_bounds clear_def tracked_client_count_def attempt_count_def
      Let_def same_bounds_def [of _ "_\<lparr>records := _\<rparr>"])

subsection \<open>All attempts together\<close>

lemma global_live_step:
  assumes "limiter_inv l"
  shows "recent (t - window_seconds l) (global_attempts (snd (limiter_step blake t e l)))
     = recent (t - window_seconds l) (global_attempts l)
         @ (if fst (limiter_step blake t e l) then [t] else [])"
  using assms
  by (cases e)
    (auto simp: begin_attempt_eq clear_def tracked_client_count_def attempt_count_def Let_def
      limiter_invD(2))

lemma global_cap_step:
  assumes "limiter_inv l" and "fst (limiter_step blake t e l)"
  shows "int (length (recent (t - window_seconds l) (global_attempts l))) < global_attempt_limit l"
  using assms by (cases e) (auto simp: begin_attempt_eq split: if_splits)

lemma limiter_inv_global_pos: "limiter_inv l \<Longrightarrow> 0 \<le> global_attempt_limit l"
  using limiter_invD(1,4) [of l] by (simp add: GLOBAL_ATTEMPT_MULTIPLIER_def)

interpretation all_attempts: window_counter "limiter_step blake" "\<lambda>_. True" limiter_inv
    global_attempts window_seconds global_attempt_limit for blake
  using limiter_step_same_bounds
  by unfold_locales
    (simp_all add: limiter_inv_step global_live_step global_cap_step limiter_inv_global_pos
      limiter_invD(2) same_bounds_def)

subsection \<open>One client\<close>

text \<open>
  A table as large as the global limit never evicts: every tracked client still has a stamp
  in the window, and all the stamps are among the global ones.
\<close>

lemma no_eviction:
  assumes inv: "limiter_inv l" and size: "global_attempt_limit l \<le> maximum_clients l"
    and free: "\<not> global_attempt_limit l \<le> int (length (global_attempts l))"
  shows "make_room d l = l"
proof -
  note D = limiter_invD [OF inv]
  have "length (records l) \<le> size (all_stamps (records l))"
    using D(6) by (rule length_le_all_stamps)
  also have "\<dots> \<le> length (global_attempts l)"
    using size_mset_mono [OF D(10)] by simp
  finally show ?thesis using size free by (auto simp: make_room_def)
qed

definition event_client :: "limiter_event \<Rightarrow> string option" where
  "event_client e = (case e of Begin c \<Rightarrow> Some c | _ \<Rightarrow> None)"

definition client_step ::
  "(bytes \<Rightarrow> string \<Rightarrow> bytes) \<Rightarrow> bytes \<Rightarrow> seconds \<Rightarrow> limiter_event \<Rightarrow> limiter \<Rightarrow> bool \<times> limiter" where
  "client_step blake d now e l =
     (fst (limiter_step blake now e l)
        \<and> map_option (blake (digest_key l)) (event_client e) = Some d,
      snd (limiter_step blake now e l))"

definition client_view :: "bytes \<Rightarrow> limiter \<Rightarrow> bool" where
  "client_view key l \<longleftrightarrow>
     limiter_inv l \<and> digest_key l = key \<and> global_attempt_limit l \<le> maximum_clients l"

definition keeps_client :: "(bytes \<Rightarrow> string \<Rightarrow> bytes) \<Rightarrow> bytes \<Rightarrow> bytes \<Rightarrow> limiter_event \<Rightarrow> bool" where
  "keeps_client blake key d e \<longleftrightarrow> (case e of Clear c \<Rightarrow> blake key c \<noteq> d | _ \<Rightarrow> True)"

lemma stamps_of_put:
  "stamps_of (l\<lparr>records := dict_set d' e (records l)\<rparr>) d
     = (if d = d' then attempts e else stamps_of l d)"
  "stamps_of (l\<lparr>records := dict_set d' e (records l), global_attempts := g\<rparr>) d
     = (if d = d' then attempts e else stamps_of l d)"
  by (simp_all add: stamps_of_def dict_simps)

lemma begin_attempt_roomy:
  fixes blake :: "bytes \<Rightarrow> string \<Rightarrow> bytes" and now :: seconds and client :: string
  assumes view: "client_view key l"
  defines "acc \<equiv> fst (begin_attempt blake now client l)"
  shows "stamps_of (snd (begin_attempt blake now client l)) d =
      recent (now - window_seconds l) (stamps_of l d)
        @ (if acc \<and> blake key client = d then [now] else [])"
    and "acc \<Longrightarrow> blake key client = d \<Longrightarrow>
      int (length (recent (now - window_seconds l) (stamps_of l d))) < attempt_limit l"
proof -
  have inv: "limiter_inv l" and key: "digest_key l = key"
    and size: "global_attempt_limit l \<le> maximum_clients l"
    using view by (simp_all add: client_view_def)
  let ?l = "cleanup now l"
  have st: "stamps_of ?l d' = recent (now - window_seconds l) (stamps_of l d')" for d'
    using limiter_invD(5) [OF inv] by (rule stamps_of_cleanup)
  note eq = begin_attempt_eq [OF inv, where now = now and blake = blake and client = client]
  have room: "\<not> global_attempt_limit ?l \<le> int (length (global_attempts ?l)) \<Longrightarrow>
      make_room d' ?l = ?l" for d'
    by (rule no_eviction [OF limiter_inv_cleanup [OF inv]]) (use size in simp_all)
  show "stamps_of (snd (begin_attempt blake now client l)) d =
      recent (now - window_seconds l) (stamps_of l d)
        @ (if acc \<and> blake key client = d then [now] else [])"
    using room by (auto simp: acc_def eq st stamps_of_put key)
  show "int (length (recent (now - window_seconds l) (stamps_of l d))) < attempt_limit l"
    if "acc" and "blake key client = d"
    using that by (auto simp: acc_def eq st key split: if_splits)
qed

lemma client_live_step:
  assumes "client_view key l" and "keeps_client blake key d e"
  shows "recent (t - window_seconds l) (stamps_of (snd (client_step blake d t e l)) d)
     = recent (t - window_seconds l) (stamps_of l d)
         @ (if fst (client_step blake d t e l) then [t] else [])"
proof (cases e)
  case (Begin c)
  then show ?thesis
    using begin_attempt_roomy(1) [OF assms(1), of blake t c d] assms(1)
    by (auto simp: client_step_def event_client_def client_view_def limiter_invD(2))
next
  case (Clear c)
  then show ?thesis using assms
    by (simp add: client_step_def event_client_def clear_def stamps_of_def dict_simps
        keeps_client_def client_view_def)
qed (use assms in \<open>simp_all add: client_step_def event_client_def tracked_client_count_def
      attempt_count_def Let_def stamps_of_cleanup client_view_def limiter_invD(5)\<close>)

lemma client_cap_step:
  assumes "client_view key l" and "fst (client_step blake d t e l)"
  shows "int (length (recent (t - window_seconds l) (stamps_of l d))) < attempt_limit l"
proof -
  obtain c where "e = Begin c" and "fst (begin_attempt blake t c l)" and "blake (digest_key l) c = d"
    using assms(2) by (cases e) (auto simp: client_step_def event_client_def)
  then show ?thesis
    using begin_attempt_roomy(2) [OF assms(1)] assms(1) by (auto simp: client_view_def)
qed

lemma client_view_pos: "client_view key l \<Longrightarrow> 0 < window_seconds l \<and> 0 \<le> attempt_limit l"
  using limiter_invD(1,2) [of l] by (simp add: client_view_def)

lemma client_view_step: "client_view key l \<Longrightarrow> client_view key (snd (client_step blake d t e l))"
  using limiter_step_same_bounds [of l blake t e]
  by (simp add: client_view_def client_step_def limiter_inv_step same_bounds_def)

lemma client_step_bounds:
  "client_view key l \<Longrightarrow>
     window_seconds (snd (client_step blake d t e l)) = window_seconds l \<and>
     attempt_limit (snd (client_step blake d t e l)) = attempt_limit l"
  using limiter_step_same_bounds [of l blake t e]
  by (simp add: client_view_def client_step_def same_bounds_def)

interpretation one_client: window_counter "client_step blake d" "keeps_client blake key d"
    "client_view key" "\<lambda>l. stamps_of l d" window_seconds attempt_limit for blake key d
  by unfold_locales
    (erule client_view_pos, erule client_view_step, erule client_step_bounds,
      erule (1) client_live_step, erule (1) client_cap_step)

lemma counted_client_step:
  "limiter_inv l \<Longrightarrow> digest_key l = key \<Longrightarrow>
   counted (client_step blake d) es l =
     filter (\<lambda>x. map_option (blake key) (event_client (snd x)) = Some d)
       (counted (limiter_step blake) es l)"
proof (induction es arbitrary: l)
  case Nil
  then show ?case by simp
next
  case (Cons x es)
  then show ?case
    using limiter_step_same_bounds [of l blake "fst x" "snd x"]
    by (simp add: client_step_def limiter_inv_step same_bounds_def)
qed

section \<open>Properties\<close>

lemma new_limiter_fields:
  assumes "new_limiter n w key m = Some l"
  shows "attempt_limit l = n" "window_seconds l = w" "digest_key l = key"
    "maximum_clients l = m" "records l = []" "global_attempts l = []"
    "global_attempt_limit l = n * 16"
  using assms by (auto simp: new_limiter_def GLOBAL_ATTEMPT_MULTIPLIER_def split: if_splits)

text \<open>
  C34. Whatever calls a fresh limiter serves, in an order in which the clock does not go back,
  no interval of the window's length holds more accepted attempts than the global limit of
  sixteen times the attempt limit.
\<close>

theorem global_attempts_bounded:
  assumes "new_limiter n w key m = Some l" and "sorted (map fst es)"
  shows "int (length (in_window a w (map fst (counted (limiter_step blake) es l)))) \<le> n * 16"
  using all_attempts.window_bound [OF limiter_inv_new [OF assms(1)] _ assms(2), where blake = blake and a = a]
  by (simp add: new_limiter_fields [OF assms(1)] list_all_iff)

theorem global_attempts_bounded_witness:
  "int (length (in_window 0 10 (map fst (counted (limiter_step (\<lambda>_ _. [7]))
     [(1, Begin ''a''), (2, Begin ''a''), (12, Begin ''a'')]
     \<lparr>attempt_limit = 1, window_seconds = 10, digest_key = [1], maximum_clients = 2,
        records = [], global_attempts = [], global_attempt_limit = 16\<rparr>)))) \<le> 1 * 16"
  by (rule global_attempts_bounded [where key = "[1]" and m = 2])
    (simp_all add: new_limiter_def GLOBAL_ATTEMPT_MULTIPLIER_def)

text \<open>
  C33. When the table can hold as many clients as the global limit, a client that is not
  cleared has at most \<open>n\<close> accepted attempts in any interval of the window's length, whatever
  the other clients do: they can neither use up its record nor push it out of the table.
\<close>

theorem client_attempts_bounded:
  assumes "new_limiter n w key m = Some l" and "n * 16 \<le> m" and "sorted (map fst es)"
    and "\<And>t c'. (t, Clear c') \<in> set es \<Longrightarrow> blake key c' \<noteq> blake key c"
  shows "int (length (in_window a w
           (map fst (filter (\<lambda>x. snd x = Begin c) (counted (limiter_step blake) es l))))) \<le> n"
proof -
  let ?d = "blake key c" and ?run = "counted (limiter_step blake) es l"
  note new = new_limiter_fields [OF assms(1)] and inv = limiter_inv_new [OF assms(1)]
  have keeps: "list_all (\<lambda>x. keeps_client blake key ?d (snd x)) es"
    using assms(4) by (force simp: list_all_iff keeps_client_def split: limiter_event.split)
  have "int (length (in_window a w (map fst (counted (client_step blake ?d) es l)))) \<le> n"
    using one_client.window_bound [OF _ keeps assms(3), of l a] assms(2) inv
    by (simp add: new client_view_def stamps_of_def)
  moreover have "length (in_window a w (map fst (filter (\<lambda>x. snd x = Begin c) ?run)))
      \<le> length (in_window a w (map fst (counted (client_step blake ?d) es l)))"
    unfolding counted_client_step [OF inv new(3)] in_window_def filter_map filter_filter length_map
    by (rule length_filter_mono) (auto simp: event_client_def)
  ultimately show ?thesis by linarith
qed

theorem client_attempts_bounded_witness:
  "int (length (in_window 0 10 (map fst (filter (\<lambda>x. snd x = Begin ''a'')
     (counted (limiter_step (\<lambda>_ c. map (of_nat \<circ> ord_of) c))
       [(1, Begin ''a''), (2, Begin ''a''), (3, Begin ''b'')]
       \<lparr>attempt_limit = 1, window_seconds = 10, digest_key = [1], maximum_clients = 16,
          records = [], global_attempts = [], global_attempt_limit = 16\<rparr>))))) \<le> 1"
  by (rule client_attempts_bounded [where key = "[1]" and m = 16])
    (simp_all add: new_limiter_def GLOBAL_ATTEMPT_MULTIPLIER_def)

end
