(* ===== verification/Session_Interface.thy ===== *)
theory Session_Interface
  imports Aurora_Prelude
begin

text \<open>
  What sessions promise, as a locale. The state is seen through \<open>view s t token\<close>: the user whose
  session the token opens at time \<open>t\<close>, if any. A call may open sessions of a user (\<open>opens\<close>) or
  close the session of a token (\<open>closes\<close>). From how each call changes the view follows
  provenance: a token opens a session only within the lifetime of a call that could open one
  for that user, and never after a call that closed it.
\<close>

locale session_backend =
  fixes exec :: "seconds \<Rightarrow> 'c \<Rightarrow> 's \<Rightarrow> 's"
    and inv :: "'s \<Rightarrow> bool"
    and view :: "'s \<Rightarrow> seconds \<Rightarrow> string \<Rightarrow> string option"
    and lifetime :: "'s \<Rightarrow> seconds"
    and opens :: "'c \<Rightarrow> string \<Rightarrow> bool"
    and closes :: "'c \<Rightarrow> string \<Rightarrow> bool"
  assumes exec_inv: "inv s \<Longrightarrow> inv (exec now c s)"
    and exec_lifetime: "inv s \<Longrightarrow> lifetime (exec now c s) = lifetime s"
    and exec_view: "inv s \<Longrightarrow> now \<le> t \<Longrightarrow> view (exec now c s) t token = Some user \<Longrightarrow>
      (view s t token = Some user \<and> \<not> closes c token) \<or>
      (opens c user \<and> t < now + lifetime s)"
begin

lemma run_inv: "inv s \<Longrightarrow> inv (fold (\<lambda>(now, c). exec now c) es s)"
  by (induction es arbitrary: s) (auto simp: exec_inv)

lemma run_lifetime: "inv s \<Longrightarrow> lifetime (fold (\<lambda>(now, c). exec now c) es s) = lifetime s"
  by (induction es arbitrary: s) (auto simp: exec_inv exec_lifetime)

text \<open>
  The session of a token is the latest opening call that can explain it: the calls after it
  (\<open>post\<close>) do not close the token.
\<close>

theorem provenance:
  assumes "inv s" and "\<forall>e \<in> set es. fst e \<le> t"
    and "view (fold (\<lambda>(now, c). exec now c) es s) t token = Some user"
  shows "(view s t token = Some user \<and> (\<forall>e \<in> set es. \<not> closes (snd e) token)) \<or>
    (\<exists>pre now c post. es = pre @ (now, c) # post \<and> opens c user \<and> now \<le> t \<and>
       t < now + lifetime s \<and> (\<forall>e \<in> set post. \<not> closes (snd e) token))"
  using assms(2,3)
proof (induction es rule: rev_induct)
  case Nil
  then show ?case by simp
next
  case (snoc x es)
  obtain now c where x: "x = (now, c)" by (cases x)
  let ?s = "fold (\<lambda>(now, c). exec now c) es s"
  have now: "now \<le> t" using snoc.prems(1) by (simp add: x)
  have "view (exec now c ?s) t token = Some user" using snoc.prems(2) by (simp add: x)
  then consider (old) "view ?s t token = Some user" "\<not> closes c token"
    | (new) "opens c user" "t < now + lifetime s"
    using exec_view [OF run_inv [OF assms(1)] now] run_lifetime [OF assms(1)] by metis
  then show ?case
  proof cases
    case old
    then have "\<forall>e \<in> set es. fst e \<le> t" using snoc.prems(1) by simp
    from snoc.IH [OF this old(1)] show ?thesis
    proof (elim disjE exE conjE)
      fix pre u d post
      assume *: "es = pre @ (u, d) # post" "opens d user" "u \<le> t" "t < u + lifetime s"
        "\<forall>e \<in> set post. \<not> closes (snd e) token"
      show ?thesis
        by (intro disjI2 exI [of _ pre] exI [of _ u] exI [of _ d] exI [of _ "post @ [x]"])
          (use * old(2) in \<open>auto simp: x\<close>)
    qed (use old(2) in \<open>auto simp: x\<close>)
  next
    case new
    then show ?thesis
      by (intro disjI2 exI [of _ es] exI [of _ now] exI [of _ c] exI [of _ "[]"]) (simp add: x now)
  qed
qed

end

end
