(* ===== verification/Session_Store.thy ===== *)
theory Session_Store
  imports Session_Interface
begin

text \<open>
  \<open>control_plane/sessions.py\<close>: opaque session tokens, of which the store keeps digests only.
  \<open>hashlib.sha256\<close> on the encoded token is the argument \<open>sha\<close>, and the token factory is the
  argument \<open>tokens\<close>: \<open>tokens i n\<close> is what its call number \<open>i\<close> returns for \<open>n\<close> bytes. The store
  counts the calls it made (\<open>draws\<close>). Each method runs under the store's lock, so it is one
  function on the state, with the clock reading it makes as \<open>now\<close>.
\<close>

section \<open>Tokens\<close>

definition SESSION_TOKEN_BYTES :: nat where "SESSION_TOKEN_BYTES = 32"

definition CSRF_TOKEN_BYTES :: nat where "CSRF_TOKEN_BYTES = 32"

text \<open>The class \<open>[A-Za-z0-9_-]\<close> of the token pattern, and its full match.\<close>

definition token_char :: "char \<Rightarrow> bool" where
  "token_char c \<longleftrightarrow>
     in_range CHR ''A'' CHR ''Z'' c \<or> in_range CHR ''a'' CHR ''z'' c \<or>
     in_range CHR ''0'' CHR ''9'' c \<or> c = CHR ''_'' \<or> c = CHR ''-''"

definition opaque_token_is_valid :: "string \<Rightarrow> bool" where
  "opaque_token_is_valid token \<longleftrightarrow>
     32 \<le> length token \<and> length token \<le> 256 \<and> list_all token_char token"

section \<open>State\<close>

datatype SessionLookupStatus = VALID | INVALID | EXPIRED

record SessionContext =
  username :: string
  csrf_token :: string
  expires_in_seconds :: seconds

record SessionLookup =
  lookup_status :: SessionLookupStatus
  lookup_session :: "SessionContext option"

record CreatedSession =
  created_token :: string
  created_session :: SessionContext

record session_record =
  rec_username :: string
  rec_csrf_token :: string
  created_at :: seconds
  expires_at :: seconds
  sequence :: int

record session_store =
  ttl_seconds :: seconds
  maximum_sessions :: int
  sessions :: "(bytes, session_record) dict"
  last_sequence :: int
  draws :: nat

text \<open>The two \<open>RuntimeError\<close>s of token allocation.\<close>

datatype token_error = InvalidToken | NoUniqueToken

definition new_session_store :: "seconds \<Rightarrow> int \<Rightarrow> session_store option" where
  "new_session_store ttl maximum =
     (if ttl \<le> 0 \<or> maximum \<le> 0 then None
      else Some \<lparr>ttl_seconds = ttl, maximum_sessions = maximum, sessions = [],
                 last_sequence = 0, draws = 0\<rparr>)"

section \<open>Operations\<close>

definition session_context :: "session_record \<Rightarrow> seconds \<Rightarrow> SessionContext" where
  "session_context r now =
     \<lparr>username = rec_username r, csrf_token = rec_csrf_token r,
      expires_in_seconds = max 0 (expires_at r - now)\<rparr>"

definition purge_expired :: "seconds \<Rightarrow> session_store \<Rightarrow> session_store" where
  "purge_expired now s =
     (let expired = map fst (filter (\<lambda>(digest, r). expires_at r \<le> now) (sessions s))
      in s\<lparr>sessions := fold dict_del expired (sessions s)\<rparr>)"

definition new_token ::
  "(nat \<Rightarrow> nat \<Rightarrow> string) \<Rightarrow> nat \<Rightarrow> session_store \<Rightarrow> (token_error + string) \<times> session_store" where
  "new_token tokens byte_count s =
     (let token = tokens (draws s) byte_count;
          s' = s\<lparr>draws := Suc (draws s)\<rparr>
      in if \<not> opaque_token_is_valid token then (Inl InvalidToken, s') else (Inr token, s'))"

text \<open>The loop of \<open>_unique_token\<close>, with the number of rounds left.\<close>

fun unique_token ::
  "(string \<Rightarrow> bytes) \<Rightarrow> (nat \<Rightarrow> nat \<Rightarrow> string) \<Rightarrow> nat \<Rightarrow> session_store \<Rightarrow>
     (token_error + string) \<times> session_store" where
  "unique_token sha tokens 0 s = (Inl NoUniqueToken, s)"
| "unique_token sha tokens (Suc rounds) s =
     (case new_token tokens SESSION_TOKEN_BYTES s of
        (Inl e, s') \<Rightarrow> (Inl e, s')
      | (Inr token, s') \<Rightarrow>
          if dict_get (sessions s') (sha token) = None then (Inr token, s')
          else unique_token sha tokens rounds s')"

text \<open>The \<open>while\<close> loop of \<open>create\<close>: drop the lowest sequence number until there is room.\<close>

function make_space :: "session_store \<Rightarrow> session_store" where
  "make_space s =
     (if maximum_sessions s \<le> int (length (sessions s)) then
        (case min_by (\<lambda>p. sequence (snd p)) (sessions s) of
           None \<Rightarrow> s
         | Some p \<Rightarrow> make_space (s\<lparr>sessions := dict_del (fst p) (sessions s)\<rparr>))
      else s)"
  by pat_completeness auto
termination
  by (relation "measure (\<lambda>s. length (sessions s))")
    (auto dest!: min_by_in dest: length_dict_del_less)

declare make_space.simps [simp del]

definition create ::
  "(string \<Rightarrow> bytes) \<Rightarrow> (nat \<Rightarrow> nat \<Rightarrow> string) \<Rightarrow> seconds \<Rightarrow> string \<Rightarrow> session_store \<Rightarrow>
     (token_error + CreatedSession) \<times> session_store" where
  "create sha tokens now user s =
     (case unique_token sha tokens 8 (make_space (purge_expired now s)) of
        (Inl e, s1) \<Rightarrow> (Inl e, s1)
      | (Inr token, s1) \<Rightarrow>
          (case new_token tokens CSRF_TOKEN_BYTES s1 of
             (Inl e, s2) \<Rightarrow> (Inl e, s2)
           | (Inr csrf, s2) \<Rightarrow>
               let n = last_sequence s2 + 1;
                   r = \<lparr>rec_username = user, rec_csrf_token = csrf, created_at = now,
                        expires_at = now + ttl_seconds s2, sequence = n\<rparr>
               in (Inr \<lparr>created_token = token, created_session = session_context r now\<rparr>,
                   s2\<lparr>last_sequence := n, sessions := dict_set (sha token) r (sessions s2)\<rparr>)))"

definition resolve ::
  "(string \<Rightarrow> bytes) \<Rightarrow> seconds \<Rightarrow> string \<Rightarrow> session_store \<Rightarrow> SessionLookup \<times> session_store" where
  "resolve sha now token s =
     (if \<not> opaque_token_is_valid token
      then (\<lparr>lookup_status = INVALID, lookup_session = None\<rparr>, s)
      else
        (case dict_get (sessions s) (sha token) of
           None \<Rightarrow> (\<lparr>lookup_status = INVALID, lookup_session = None\<rparr>, purge_expired now s)
         | Some r \<Rightarrow>
             if expires_at r \<le> now
             then (\<lparr>lookup_status = EXPIRED, lookup_session = None\<rparr>,
                   purge_expired now (s\<lparr>sessions := dict_del (sha token) (sessions s)\<rparr>))
             else (\<lparr>lookup_status = VALID, lookup_session = Some (session_context r now)\<rparr>,
                   purge_expired now s)))"

definition invalidate ::
  "(string \<Rightarrow> bytes) \<Rightarrow> string \<Rightarrow> session_store \<Rightarrow> bool \<times> session_store" where
  "invalidate sha token s =
     (if \<not> opaque_token_is_valid token then (False, s)
      else (dict_get (sessions s) (sha token) \<noteq> None,
            s\<lparr>sessions := dict_del (sha token) (sessions s)\<rparr>))"

definition active_count :: "seconds \<Rightarrow> session_store \<Rightarrow> int \<times> session_store" where
  "active_count now s = (let s' = purge_expired now s in (int (length (sessions s')), s'))"

definition csrf_is_valid :: "SessionContext \<Rightarrow> string \<Rightarrow> bool" where
  "csrf_is_valid session submitted_token \<longleftrightarrow>
     opaque_token_is_valid submitted_token \<and> csrf_token session = submitted_token"

section \<open>Invariant\<close>

definition store_inv :: "session_store \<Rightarrow> bool" where
  "store_inv s \<longleftrightarrow>
     0 < ttl_seconds s \<and> 0 < maximum_sessions s \<and> dict_wf (sessions s) \<and>
     int (length (sessions s)) \<le> maximum_sessions s \<and>
     distinct (map (\<lambda>p. sequence (snd p)) (sessions s)) \<and>
     (\<forall>p \<in> set (sessions s). sequence (snd p) \<le> last_sequence s)"

lemma store_invD:
  assumes "store_inv s"
  shows "0 < ttl_seconds s" "0 < maximum_sessions s" "dict_wf (sessions s)"
    "int (length (sessions s)) \<le> maximum_sessions s"
    "distinct (map (\<lambda>p. sequence (snd p)) (sessions s))"
    "p \<in> set (sessions s) \<Longrightarrow> sequence (snd p) \<le> last_sequence s"
  using assms by (auto simp: store_inv_def)

lemma store_inv_new: "new_session_store ttl m = Some s \<Longrightarrow> store_inv s"
  by (auto simp: new_session_store_def store_inv_def split: if_splits)

lemma store_inv_filter:
  "store_inv s \<Longrightarrow> store_inv (s\<lparr>sessions := filter P (sessions s)\<rparr>)"
  by (auto simp: store_inv_def distinct_map_filter
      intro: order_trans [OF of_nat_mono [OF length_filter_le]])

lemma sessions_purge:
  "dict_wf (sessions s) \<Longrightarrow>
     purge_expired now s = s\<lparr>sessions := filter (\<lambda>p. now < expires_at (snd p)) (sessions s)\<rparr>"
  using fold_dict_del_filter [of "sessions s" "\<lambda>p. expires_at (snd p) \<le> now"]
  by (simp add: purge_expired_def Let_def case_prod_beta' not_le)

lemma store_inv_purge: "store_inv s \<Longrightarrow> store_inv (purge_expired now s)"
  by (simp add: sessions_purge store_invD(3) store_inv_filter)

lemma store_inv_del: "store_inv s \<Longrightarrow> store_inv (s\<lparr>sessions := dict_del k (sessions s)\<rparr>)"
  unfolding AList.delete_eq by (rule store_inv_filter)

lemma store_inv_draws: "store_inv (s\<lparr>draws := n\<rparr>) = store_inv s"
  by (simp add: store_inv_def)

text \<open>
  Making room keeps the sessions with the highest sequence numbers: it changes nothing but
  the session table, leaves fewer than the maximum, and whatever it drops is older than
  whatever it keeps.
\<close>

lemma make_space_spec:
  assumes "store_inv s"
  shows "\<exists>d. make_space s = s\<lparr>sessions := d\<rparr> \<and> store_inv (s\<lparr>sessions := d\<rparr>) \<and>
    set d \<subseteq> set (sessions s) \<and> int (length d) < maximum_sessions s \<and>
    (\<forall>p \<in> set (sessions s) - set d. \<forall>q \<in> set d. sequence (snd p) < sequence (snd q)) \<and>
    (int (length (sessions s)) < maximum_sessions s \<longrightarrow> d = sessions s)"
  using assms
proof (induction s rule: make_space.induct)
  case (1 s)
  show ?case
  proof (cases "maximum_sessions s \<le> int (length (sessions s))")
    case False
    then have "make_space s = s" by (simp add: make_space.simps [of s])
    with False "1.prems" show ?thesis by (intro exI [of _ "sessions s"]) simp
  next
    case True
    then have "sessions s \<noteq> []" using store_invD(2) [OF "1.prems"] by auto
    then obtain p where p: "min_by (\<lambda>p. sequence (snd p)) (sessions s) = Some p"
      and mem: "p \<in> set (sessions s)"
      and least: "\<And>q. q \<in> set (sessions s) \<Longrightarrow> sequence (snd p) \<le> sequence (snd q)"
      by (rule min_by_cases [where f = "\<lambda>p. sequence (snd p)"]) blast
    let ?s = "s\<lparr>sessions := dict_del (fst p) (sessions s)\<rparr>"
    have eq: "make_space s = make_space ?s" using True p by (simp add: make_space.simps [of s])
    obtain d where d: "make_space ?s = ?s\<lparr>sessions := d\<rparr>" "store_inv (?s\<lparr>sessions := d\<rparr>)"
        "set d \<subseteq> set (sessions ?s)" "int (length d) < maximum_sessions ?s"
        "\<forall>u \<in> set (sessions ?s) - set d. \<forall>q \<in> set d. sequence (snd u) < sequence (snd q)"
      using "1.IH" [OF True p] store_inv_del [OF "1.prems"] by blast
    have "q = p" if "q \<in> set (sessions s)" and "fst p = fst q" for q
      using dict_wf_eq [OF store_invD(3) [OF "1.prems"] that(1) mem] that(2) by simp
    then have sub: "set (dict_del (fst p) (sessions s)) = set (sessions s) - {p}"
      by (simp add: AList.delete_eq case_prod_beta') blast
    have strict: "sequence (snd p) < sequence (snd q)" if "q \<in> set (sessions s) - {p}" for q
      using store_invD(5) [OF "1.prems"] least [of q] mem that
      by (auto simp: distinct_map inj_on_def order.order_iff_strict)
    show ?thesis
    proof (intro exI [of _ d] conjI)
      show "\<forall>u \<in> set (sessions s) - set d. \<forall>q \<in> set d. sequence (snd u) < sequence (snd q)"
      proof (intro ballI)
        fix u q assume u: "u \<in> set (sessions s) - set d" and q: "q \<in> set d"
        then have "q \<in> set (sessions s) - {p}" using d(3) sub by auto
        with u q d(5) sub strict show "sequence (snd u) < sequence (snd q)"
          by (cases "u = p") auto
      qed
    qed (use d eq sub True in auto)
  qed
qed

lemma new_token_spec:
  "new_token tokens n s = (r, s') \<Longrightarrow>
     s' = s\<lparr>draws := Suc (draws s)\<rparr> \<and>
     (\<forall>tok. r = Inr tok \<longrightarrow> tok = tokens (draws s) n \<and> opaque_token_is_valid tok)"
  by (auto simp: new_token_def Let_def split: if_splits)

lemma unique_token_spec:
  "unique_token sha tokens k s = (r, s') \<Longrightarrow>
     (\<exists>n. s' = s\<lparr>draws := n\<rparr>) \<and>
     (\<forall>tok. r = Inr tok \<longrightarrow> opaque_token_is_valid tok \<and> dict_get (sessions s) (sha tok) = None)"
proof (induction sha tokens k s rule: unique_token.induct)
  case (1 sha tokens s)
  then show ?case by (auto intro: exI [of _ "draws s"])
next
  case (2 sha tokens k s)
  obtain r1 s1 where t: "new_token tokens SESSION_TOKEN_BYTES s = (r1, s1)" by fastforce
  note spec = new_token_spec [OF t]
  show ?case
  proof (cases r1)
    case (Inl e)
    with 2 t spec show ?thesis by auto
  next
    case (Inr tok)
    with 2 t spec show ?thesis by (fastforce split: if_splits)
  qed
qed

section \<open>The view of the store\<close>

text \<open>The session context that \<open>resolve\<close> finds for a token at a time.\<close>

definition session_view ::
  "(string \<Rightarrow> bytes) \<Rightarrow> session_store \<Rightarrow> seconds \<Rightarrow> string \<Rightarrow> SessionContext option" where
  "session_view sha s t token =
     (if \<not> opaque_token_is_valid token then None
      else (case dict_get (sessions s) (sha token) of
              None \<Rightarrow> None
            | Some r \<Rightarrow> if expires_at r \<le> t then None else Some (session_context r t)))"

lemma session_view_sessions:
  "session_view sha (s\<lparr>draws := n\<rparr>) = session_view sha s"
  by (simp add: session_view_def fun_eq_iff)

lemma view_purge:
  assumes "store_inv s" and "now \<le> t"
  shows "session_view sha (purge_expired now s) t token = session_view sha s t token"
  using assms
  by (auto simp: session_view_def sessions_purge store_invD(3) dict_get_filter not_less
      split: option.splits)

lemma view_del:
  "session_view sha (s\<lparr>sessions := dict_del k (sessions s)\<rparr>) t token =
     (if sha token = k then None else session_view sha s t token)"
  by (simp add: session_view_def dict_simps)

lemma view_subset:
  assumes "store_inv s" and "set d \<subseteq> set (sessions s)" and "dict_wf d"
    and "session_view sha (s\<lparr>sessions := d\<rparr>) t token = Some c"
  shows "session_view sha s t token = Some c"
proof -
  obtain r where "dict_get d (sha token) = Some r" "t < expires_at r" "c = session_context r t"
      "opaque_token_is_valid token"
    using assms(4) by (auto simp: session_view_def not_le split: if_splits option.splits)
  moreover from this assms have "dict_get (sessions s) (sha token) = Some r"
    using dict_in_get [OF store_invD(3) [OF assms(1)]] by (blast dest: dict_get_in)
  ultimately show ?thesis by (simp add: session_view_def)
qed

text \<open>What a successful \<open>create\<close> does to the store.\<close>

lemma create_cases:
  assumes inv: "store_inv s" and ok: "create sha tokens now user s = (Inr c, s')"
  obtains d n csrf where
    "opaque_token_is_valid (created_token c)" and "opaque_token_is_valid csrf"
    and "make_space (purge_expired now s) = (purge_expired now s)\<lparr>sessions := d\<rparr>"
    and "store_inv ((purge_expired now s)\<lparr>sessions := d\<rparr>)"
    and "int (length d) < maximum_sessions s"
    and "set d \<subseteq> set (sessions (purge_expired now s))"
    and "\<forall>p \<in> set (sessions (purge_expired now s)) - set d. \<forall>q \<in> set d.
           sequence (snd p) < sequence (snd q)"
    and "int (length (sessions (purge_expired now s))) < maximum_sessions s \<longrightarrow>
           d = sessions (purge_expired now s)"
    and "dict_get d (sha (created_token c)) = None"
    and "s' = s\<lparr>draws := n, last_sequence := last_sequence s + 1,
           sessions := d @ [(sha (created_token c),
             \<lparr>rec_username = user, rec_csrf_token = csrf, created_at = now,
              expires_at = now + ttl_seconds s, sequence = last_sequence s + 1\<rparr>)]\<rparr>"
    and "created_session c = \<lparr>username = user, csrf_token = csrf,
           expires_in_seconds = ttl_seconds s\<rparr>"
proof -
  let ?p = "purge_expired now s"
  have p: "?p = s\<lparr>sessions := sessions ?p\<rparr>"
    by (simp add: purge_expired_def Let_def)
  obtain d where d: "make_space ?p = ?p\<lparr>sessions := d\<rparr>" "store_inv (?p\<lparr>sessions := d\<rparr>)"
      "set d \<subseteq> set (sessions ?p)" "int (length d) < maximum_sessions ?p"
      "\<forall>p \<in> set (sessions ?p) - set d. \<forall>q \<in> set d. sequence (snd p) < sequence (snd q)"
      "int (length (sessions ?p)) < maximum_sessions ?p \<longrightarrow> d = sessions ?p"
    using make_space_spec [OF store_inv_purge [OF inv, of now]] by blast
  obtain r1 s1 where u: "unique_token sha tokens 8 (?p\<lparr>sessions := d\<rparr>) = (r1, s1)" by fastforce
  from ok u d(1) obtain tok where tok: "r1 = Inr tok"
    by (cases r1) (auto simp: create_def)
  obtain r2 s2 where n: "new_token tokens CSRF_TOKEN_BYTES s1 = (r2, s2)" by fastforce
  from ok u d(1) tok n obtain csrf where csrf: "r2 = Inr csrf"
    by (cases r2) (auto simp: create_def)
  obtain k where s1: "s1 = ?p\<lparr>sessions := d, draws := k\<rparr>" and valid: "opaque_token_is_valid tok"
    and fresh: "dict_get d (sha tok) = None"
    using unique_token_spec [OF u] tok by auto
  have s2: "s2 = s1\<lparr>draws := Suc k\<rparr>" and vcsrf: "opaque_token_is_valid csrf"
    using new_token_spec [OF n] csrf s1 by auto
  have max: "maximum_sessions ?p = maximum_sessions s" and ttl: "ttl_seconds ?p = ttl_seconds s"
    and seq: "last_sequence ?p = last_sequence s"
    by (subst p, simp)+
  have over: "?p\<lparr>draws := i, last_sequence := j, sessions := e\<rparr>
      = s\<lparr>draws := i, last_sequence := j, sessions := e\<rparr>" for i j e
    by (subst p) simp
  note dict_set_new [OF dict_get_NoneD [OF fresh], simp]
  have s': "s' = s\<lparr>draws := Suc k, last_sequence := last_sequence s + 1,
      sessions := d @ [(sha tok, \<lparr>rec_username = user, rec_csrf_token = csrf, created_at = now,
              expires_at = now + ttl_seconds s, sequence = last_sequence s + 1\<rparr>)]\<rparr>"
    and c: "c = \<lparr>created_token = tok, created_session = \<lparr>username = user, csrf_token = csrf,
           expires_in_seconds = ttl_seconds s\<rparr>\<rparr>"
    using ok u d(1) tok n csrf s1 s2 ttl seq store_invD(1) [OF inv]
    by (auto simp: create_def Let_def session_context_def over)
  show thesis
    by (rule that [of csrf d "Suc k"]) (use valid vcsrf d fresh s' c max in simp_all)
qed

lemma create_inv:
  assumes inv: "store_inv s"
  shows "store_inv (snd (create sha tokens now user s))"
proof (cases "create sha tokens now user s")
  case (Pair r s')
  let ?p = "purge_expired now s"
  show ?thesis
  proof (cases r)
    case (Inl e)
    obtain d where d: "make_space ?p = ?p\<lparr>sessions := d\<rparr>" "store_inv (?p\<lparr>sessions := d\<rparr>)"
      using make_space_spec [OF store_inv_purge [OF inv, of now]] by blast
    obtain r1 s1 where u: "unique_token sha tokens 8 (?p\<lparr>sessions := d\<rparr>) = (r1, s1)" by fastforce
    obtain r2 s2 where n: "new_token tokens CSRF_TOKEN_BYTES s1 = (r2, s2)" by fastforce
    have "s' = s1 \<or> s' = s2" using Pair Inl u n d(1)
      by (auto simp: create_def Let_def split: sum.splits prod.splits)
    moreover have "store_inv s1" using unique_token_spec [OF u] d(2) by (auto simp: store_inv_draws)
    moreover from this have "store_inv s2" using new_token_spec [OF n] by (auto simp: store_inv_draws)
    ultimately show ?thesis using Pair by auto
  next
    case (Inr c)
    with Pair have "create sha tokens now user s = (Inr c, s')" by simp
    from create_cases [OF inv this] obtain d n csrf where
        d: "store_inv (?p\<lparr>sessions := d\<rparr>)" "int (length d) < maximum_sessions s"
          "dict_get d (sha (created_token c)) = None"
      and s': "s' = s\<lparr>draws := n, last_sequence := last_sequence s + 1,
           sessions := d @ [(sha (created_token c),
             \<lparr>rec_username = user, rec_csrf_token = csrf, created_at = now,
              expires_at = now + ttl_seconds s, sequence = last_sequence s + 1\<rparr>)]\<rparr>"
      by metis
    have p: "last_sequence ?p = last_sequence s"
      by (simp add: purge_expired_def Let_def)
    have fresh: "sha (created_token c) \<notin> set (dict_keys d)"
      using d(3) by (rule dict_get_NoneD)
    have le: "sequence (snd q) \<le> last_sequence s" if "q \<in> set d" for q
      using store_invD(6) [OF d(1), of q] that p by simp
    then have "last_sequence s + 1 \<notin> (\<lambda>q. sequence (snd q)) ` set d" by force
    then have "store_inv s'"
      using store_invD [OF inv] store_invD(3,5) [OF d(1)] d(2) fresh le
      by (fastforce simp: s' store_inv_def dict_wf_def)
    then show ?thesis using Pair by simp
  qed
qed

lemma resolve_inv: "store_inv s \<Longrightarrow> store_inv (snd (resolve sha now token s))"
  by (simp add: resolve_def store_inv_purge store_inv_del split: option.split)

lemma invalidate_inv: "store_inv s \<Longrightarrow> store_inv (snd (invalidate sha token s))"
  by (simp add: invalidate_def store_inv_del)

lemma active_count_inv: "store_inv s \<Longrightarrow> store_inv (snd (active_count now s))"
  by (simp add: active_count_def Let_def store_inv_purge)

text \<open>How each operation changes the view.\<close>

lemma resolve_view:
  assumes "store_inv s"
  shows "lookup_session (fst (resolve sha now token s)) = session_view sha s now token"
    and "lookup_status (fst (resolve sha now token s)) = VALID \<longleftrightarrow>
           session_view sha s now token \<noteq> None"
  using assms by (auto simp: resolve_def session_view_def split: option.splits)

lemma resolve_keeps_view:
  assumes inv: "store_inv s" and t: "now \<le> t"
  shows "session_view sha (snd (resolve sha now token s)) t other = session_view sha s t other"
proof -
  have "session_view sha s t other = None"
    if "dict_get (sessions s) (sha token) = Some r" "expires_at r \<le> now" "sha other = sha token" for r
    using that t by (simp add: session_view_def)
  then show ?thesis
    using view_purge [OF inv t] view_purge [OF store_inv_del [OF inv] t]
    by (auto simp: resolve_def view_del split: option.splits)
qed

lemma invalidate_view:
  "session_view sha (snd (invalidate sha token s)) t other =
     (if opaque_token_is_valid token \<and> sha other = sha token then None
      else session_view sha s t other)"
  by (simp add: invalidate_def view_del)

lemma create_view_new:
  assumes inv: "store_inv s" and ok: "create sha tokens now user s = (Inr c, s')"
    and t: "now \<le> t" "t < now + ttl_seconds s"
  shows "session_view sha s' t (created_token c) =
    Some \<lparr>username = user, csrf_token = csrf_token (created_session c),
          expires_in_seconds = now + ttl_seconds s - t\<rparr>"
  using t by (rule_tac create_cases [OF inv ok])
    (simp add: session_view_def session_context_def dict_get_append del: map_of_append)

lemma create_view_old:
  assumes inv: "store_inv s" and ok: "create sha tokens now user s = (Inr c, s')"
    and t: "now \<le> t" and other: "sha token \<noteq> sha (created_token c)"
    and view: "session_view sha s' t token = Some x"
  shows "session_view sha s t token = Some x"
proof -
  let ?p = "purge_expired now s"
  from create_cases [OF inv ok] obtain d n r where
      d: "store_inv (?p\<lparr>sessions := d\<rparr>)" "set d \<subseteq> set (sessions ?p)"
    and s': "s' = s\<lparr>draws := n, last_sequence := last_sequence s + 1,
           sessions := d @ [(sha (created_token c), r)]\<rparr>"
    by metis
  have "session_view sha (?p\<lparr>sessions := d\<rparr>) t token = Some x"
    using view other by (auto simp: s' session_view_def split: if_splits option.splits)
  then have "session_view sha ?p t token = Some x"
    using view_subset [OF store_inv_purge [OF inv] d(2)] store_invD(3) [OF d(1)] by simp
  then show ?thesis by (simp add: view_purge [OF inv t])
qed

lemma create_error_view:
  assumes inv: "store_inv s" and err: "create sha tokens now user s = (Inl e, s')"
    and t: "now \<le> t" and view: "session_view sha s' t token = Some x"
  shows "session_view sha s t token = Some x"
proof -
  let ?p = "purge_expired now s"
  obtain d where d: "make_space ?p = ?p\<lparr>sessions := d\<rparr>" "store_inv (?p\<lparr>sessions := d\<rparr>)"
      "set d \<subseteq> set (sessions ?p)"
    using make_space_spec [OF store_inv_purge [OF inv, of now]] by blast
  obtain r1 s1 where u: "unique_token sha tokens 8 (?p\<lparr>sessions := d\<rparr>) = (r1, s1)" by fastforce
  obtain r2 s2 where n: "new_token tokens CSRF_TOKEN_BYTES s1 = (r2, s2)" by fastforce
  have "s' = s1 \<or> s' = s2" using err u n d(1)
    by (auto simp: create_def Let_def split: sum.splits prod.splits)
  then have "\<exists>k. s' = ?p\<lparr>sessions := d, draws := k\<rparr>"
    using unique_token_spec [OF u] new_token_spec [OF n] by auto
  then have "session_view sha (?p\<lparr>sessions := d\<rparr>) t token = Some x"
    using view by (auto simp: session_view_sessions)
  then have "session_view sha ?p t token = Some x"
    using view_subset [OF store_inv_purge [OF inv] d(3)] store_invD(3) [OF d(2)] by simp
  then show ?thesis by (simp add: view_purge [OF inv t])
qed

section \<open>The store meets its contract\<close>

datatype session_call = CreateFor string | Look string | Invalidate string | CountActive

definition session_exec ::
  "(string \<Rightarrow> bytes) \<Rightarrow> (nat \<Rightarrow> nat \<Rightarrow> string) \<Rightarrow> seconds \<Rightarrow> session_call \<Rightarrow>
     session_store \<Rightarrow> session_store" where
  "session_exec sha tokens now c s =
     (case c of
        CreateFor user \<Rightarrow> snd (create sha tokens now user s)
      | Look token \<Rightarrow> snd (resolve sha now token s)
      | Invalidate token \<Rightarrow> snd (invalidate sha token s)
      | CountActive \<Rightarrow> snd (active_count now s))"

definition user_view ::
  "(string \<Rightarrow> bytes) \<Rightarrow> session_store \<Rightarrow> seconds \<Rightarrow> string \<Rightarrow> string option" where
  "user_view sha s t token = map_option username (session_view sha s t token)"

definition same_session :: "(string \<Rightarrow> bytes) \<Rightarrow> string \<Rightarrow> string \<Rightarrow> bool" where
  "same_session sha gone token \<longleftrightarrow> opaque_token_is_valid gone \<and> sha token = sha gone"

lemma ttl_purge [simp]: "ttl_seconds (purge_expired now s) = ttl_seconds s"
  by (simp add: purge_expired_def Let_def)

lemma create_ttl:
  assumes "store_inv s"
  shows "ttl_seconds (snd (create sha tokens now user s)) = ttl_seconds s"
proof -
  let ?p = "purge_expired now s"
  obtain d where d: "make_space ?p = ?p\<lparr>sessions := d\<rparr>"
    using make_space_spec [OF store_inv_purge [OF assms, of now]] by blast
  obtain r1 s1 where u: "unique_token sha tokens 8 (?p\<lparr>sessions := d\<rparr>) = (r1, s1)" by fastforce
  obtain r2 s2 where n: "new_token tokens CSRF_TOKEN_BYTES s1 = (r2, s2)" by fastforce
  have "ttl_seconds s1 = ttl_seconds s" "ttl_seconds s2 = ttl_seconds s"
    using unique_token_spec [OF u] new_token_spec [OF n] by auto
  then show ?thesis using u n d
    by (auto simp: create_def Let_def split: sum.splits prod.splits)
qed

lemma session_exec_view:
  assumes inv: "store_inv s" and t: "now \<le> t"
    and view: "user_view sha (session_exec sha tokens now c s) t token = Some user"
  shows "(user_view sha s t token = Some user
            \<and> (\<forall>gone. c = Invalidate gone \<longrightarrow> \<not> same_session sha gone token)) \<or>
         (c = CreateFor user \<and> t < now + ttl_seconds s)"
proof (cases c)
  case (CreateFor u)
  obtain r s' where cr: "create sha tokens now u s = (r, s')" by fastforce
  obtain x where x: "session_view sha s' t token = Some x" "username x = user"
    using view CreateFor cr by (auto simp: user_view_def session_exec_def)
  show ?thesis
  proof (cases r)
    case (Inl e)
    then show ?thesis using create_error_view [OF inv _ t x(1)] cr x CreateFor
      by (simp add: user_view_def)
  next
    case (Inr k)
    with cr have ok: "create sha tokens now u s = (Inr k, s')" by simp
    show ?thesis
    proof (cases "sha token = sha (created_token k)")
      case False
      then show ?thesis using create_view_old [OF inv ok t _ x(1)] x CreateFor
        by (simp add: user_view_def)
    next
      case True
      have "u = user \<and> t < now + ttl_seconds s"
        using x True by (rule_tac create_cases [OF inv ok])
          (auto simp: session_view_def session_context_def dict_get_append
            simp del: map_of_append split: if_splits)
      then show ?thesis by (simp add: CreateFor)
    qed
  qed
next
  case (Look u)
  then show ?thesis using view
    by (simp add: user_view_def session_exec_def resolve_keeps_view [OF inv t])
next
  case (Invalidate u)
  then show ?thesis using view
    by (auto simp: user_view_def session_exec_def invalidate_view same_session_def split: if_splits)
next
  case CountActive
  then show ?thesis using view
    by (simp add: user_view_def session_exec_def active_count_def Let_def view_purge [OF inv t])
qed

lemma session_exec_inv: "store_inv s \<Longrightarrow> store_inv (session_exec sha tokens now c s)"
  by (simp add: session_exec_def create_inv resolve_inv invalidate_inv active_count_inv
      split: session_call.split)

lemma session_exec_ttl:
  "store_inv s \<Longrightarrow> ttl_seconds (session_exec sha tokens now c s) = ttl_seconds s"
  by (simp add: session_exec_def create_ttl resolve_def invalidate_def active_count_def Let_def
      split: session_call.split option.split)

definition call_opens :: "session_call \<Rightarrow> string \<Rightarrow> bool" where
  "call_opens c user \<longleftrightarrow> c = CreateFor user"

definition call_closes :: "(string \<Rightarrow> bytes) \<Rightarrow> session_call \<Rightarrow> string \<Rightarrow> bool" where
  "call_closes sha c token \<longleftrightarrow>
     (case c of Invalidate gone \<Rightarrow> same_session sha gone token | _ \<Rightarrow> False)"

interpretation session_sessions: session_backend "session_exec sha tokens" store_inv "user_view sha"
    ttl_seconds call_opens "call_closes sha" for sha tokens
proof unfold_locales
  fix s :: session_store and now t :: seconds and c :: session_call and token user :: string
  assume "store_inv s" "now \<le> t" "user_view sha (session_exec sha tokens now c s) t token = Some user"
  from session_exec_view [OF this]
  show "user_view sha s t token = Some user \<and> \<not> call_closes sha c token \<or>
      call_opens c user \<and> t < now + ttl_seconds s"
    by (cases c) (auto simp: call_opens_def call_closes_def)
qed (simp_all add: session_exec_inv session_exec_ttl)

section \<open>Properties\<close>


text \<open>The sessions that have not expired at a time, in table order.\<close>

definition active_sessions :: "seconds \<Rightarrow> session_store \<Rightarrow> (bytes, session_record) dict" where
  "active_sessions now s = filter (\<lambda>p. now < expires_at (snd p)) (sessions s)"

text \<open>A token source for examples: its tokens are runs of the letter \<open>a\<close> of growing length.\<close>

definition sample_token :: string where
  "sample_token = replicate 32 CHR ''a''"

definition sample_sha :: "string \<Rightarrow> bytes" where
  "sample_sha token = map of_char token"

definition sample_tokens :: "nat \<Rightarrow> nat \<Rightarrow> string" where
  "sample_tokens i n = replicate (n + i) CHR ''a''"

lemma sample_tokens_valid:
  "opaque_token_is_valid (sample_tokens 0 32)" "opaque_token_is_valid (sample_tokens (Suc 0) 32)"
  by (simp_all add: sample_tokens_def opaque_token_is_valid_def list_all_iff token_char_def
      in_range_def ord_of_def)


text \<open>
  A created session can be used at once and until its lifetime ends: \<open>resolve\<close> with the
  token it returned is \<open>VALID\<close> and gives the user, the same CSRF token, and the time left.
\<close>

theorem created_session_resolves:
  assumes "store_inv s" and "create sha tokens now user s = (Inr c, s')"
    and "now \<le> t" and "t < now + ttl_seconds s"
  shows "fst (resolve sha t (created_token c) s') =
    \<lparr>lookup_status = VALID,
     lookup_session = Some \<lparr>username = user, csrf_token = csrf_token (created_session c),
       expires_in_seconds = now + ttl_seconds s - t\<rparr>\<rparr>"
proof -
  have "store_inv s'" using create_inv [OF assms(1), of sha tokens now user] assms(2) by simp
  moreover note create_view_new [OF assms]
  ultimately show ?thesis
    using resolve_view [of s' sha t "created_token c"]
    by (cases "fst (resolve sha t (created_token c) s')") simp
qed

theorem created_session_resolves_witness:
  "\<exists>c s'. create sample_sha sample_tokens 0 ''op''
      \<lparr>ttl_seconds = 10, maximum_sessions = 2, sessions = [], last_sequence = 0, draws = 0\<rparr>
      = (Inr c, s')
    \<and> lookup_status (fst (resolve sample_sha 9 (created_token c) s')) = VALID"
proof -
  let ?s = "\<lparr>ttl_seconds = 10, maximum_sessions = 2, sessions = [], last_sequence = 0, draws = 0\<rparr>"
  have "purge_expired 0 ?s = ?s" by (simp add: purge_expired_def)
  moreover have "make_space ?s = ?s" by (simp add: make_space.simps)
  ultimately obtain c s' where ok: "create sample_sha sample_tokens 0 ''op'' ?s = (Inr c, s')"
    using sample_tokens_valid
    by (simp add: create_def new_token_def Let_def SESSION_TOKEN_BYTES_def
        CSRF_TOKEN_BYTES_def numeral_eq_Suc)
  have "store_inv ?s" by (simp add: store_inv_def)
  from created_session_resolves [OF this ok, of 9] ok show ?thesis by auto
qed

text \<open>
  The store is bounded and fair: a \<open>create\<close> leaves at most the maximum number of sessions,
  drops no unexpired session while there is room, and every unexpired session it drops is
  older than every session it keeps.
\<close>

theorem create_evicts_oldest:
  assumes "store_inv s" and "create sha tokens now user s = (Inr c, s')"
  shows "int (length (sessions s')) \<le> maximum_sessions s \<and>
    (int (length (active_sessions now s)) < maximum_sessions s \<longrightarrow>
       set (active_sessions now s) \<subseteq> set (sessions s')) \<and>
    (\<forall>p \<in> set (active_sessions now s) - set (sessions s').
       \<forall>q \<in> set (active_sessions now s) \<inter> set (sessions s'). sequence (snd p) < sequence (snd q))"
proof -
  have p: "sessions (purge_expired now s) = active_sessions now s"
    by (simp add: sessions_purge store_invD(3) [OF assms(1)] active_sessions_def)
  show ?thesis
  proof (rule create_cases [OF assms, unfolded p], goal_cases)
    case (1 d n csrf)
    note len = 1(5) and sub = 1(6) and old = 1(7) and room = 1(8) and s' = 1(10)
    have "sequence (snd q) \<le> last_sequence s" if "q \<in> set (active_sessions now s)" for q
      using store_invD(6) [OF assms(1), of q] that by (simp add: active_sessions_def)
    then have kept: "q \<in> set d" if "q \<in> set (active_sessions now s)" "q \<in> set (sessions s')" for q
      using that by (fastforce simp: s')
    show ?case
    proof (intro conjI ballI impI)
      show "int (length (sessions s')) \<le> maximum_sessions s" using len by (simp add: s')
      show "set (active_sessions now s) \<subseteq> set (sessions s')"
        if "int (length (active_sessions now s)) < maximum_sessions s"
        using that room by (auto simp: s')
      show "sequence (snd p) < sequence (snd q)"
        if "p \<in> set (active_sessions now s) - set (sessions s')"
          "q \<in> set (active_sessions now s) \<inter> set (sessions s')" for p q
        using that old kept by (auto simp: s')
    qed
  qed
qed

theorem create_evicts_oldest_witness:
  "\<exists>c s'. create sample_sha sample_tokens 7 ''op''
      \<lparr>ttl_seconds = 10, maximum_sessions = 1,
       sessions = [([1], \<lparr>rec_username = ''old'', rec_csrf_token = ''x'', created_at = 0,
                        expires_at = 10, sequence = 1\<rparr>)],
       last_sequence = 1, draws = 0\<rparr> = (Inr c, s') \<and> int (length (sessions s')) \<le> 1"
proof -
  let ?r = "\<lparr>rec_username = ''old'', rec_csrf_token = ''x'', created_at = 0,
             expires_at = 10, sequence = 1\<rparr>"
  let ?s = "\<lparr>ttl_seconds = 10, maximum_sessions = 1, sessions = [([1], ?r)],
             last_sequence = 1, draws = 0\<rparr>"
  have inv: "store_inv ?s" by (simp add: store_inv_def dict_wf_def)
  have purge: "purge_expired 7 ?s = ?s" by (simp add: purge_expired_def)
  have space: "make_space ?s = ?s\<lparr>sessions := []\<rparr>"
    by (subst make_space.simps, simp) (subst make_space.simps, simp)
  obtain c s' where ok: "create sample_sha sample_tokens 7 ''op'' ?s = (Inr c, s')"
    using sample_tokens_valid
    by (simp add: create_def purge space new_token_def Let_def SESSION_TOKEN_BYTES_def
        CSRF_TOKEN_BYTES_def numeral_eq_Suc)
  from create_evicts_oldest [OF inv ok] ok show ?thesis by auto
qed

end
