(* ===== verification/Control_World.thy ===== *)
theory Control_World
  imports Contracts Mutation_Gate Attempt_Limiter Session_Store
begin

text \<open>
  What the three control services share while a request is served: the mutation gates (objects,
  so they live in a store under their identity and several services may hold the same one), the
  audit trail, the calls of the dashboard's cache invalidator, the readings of the clock, and
  the calls made to devices. The last list is an observation of the model: it has one entry
  for every \<open>execute\<close> call on an adapter, with whether its result said \<open>verified\<close>.

  The environment supplies what the code receives from outside: the clock, the keyed hash and
  whether the cache invalidator returns or raises.
\<close>

section \<open>Shared state\<close>

datatype device_call =
    WLED_Call WLEDOperation operation_input
  | HyperHDR_Call HyperHDROperation

record control_world =
  gates :: "nat \<Rightarrow> gate"
  audit_trail :: audit_log
  invalidations :: nat
  clock_reads :: nat
  device_calls :: "(device_call \<times> bool) list"

record control_env =
  env_clock :: "nat \<Rightarrow> seconds"
  env_blake :: "bytes \<Rightarrow> string \<Rightarrow> bytes"
  env_invalidator :: "nat \<Rightarrow> bool"

definition read_clock :: "control_env \<Rightarrow> control_world \<Rightarrow> seconds \<times> control_world" where
  "read_clock env w = (env_clock env (clock_reads w), w\<lparr>clock_reads := Suc (clock_reads w)\<rparr>)"

definition audit :: "AuditEvent \<Rightarrow> AuditReason \<Rightarrow> control_world \<Rightarrow> control_world" where
  "audit event reason w = w\<lparr>audit_trail := emit event reason (audit_trail w)\<rparr>"

definition audit_operation ::
  "AuditEvent \<Rightarrow> AuditReason \<Rightarrow> control_operation \<Rightarrow> control_world \<Rightarrow> control_world" where
  "audit_operation event reason operation w =
     w\<lparr>audit_trail := emit_operation event reason operation (audit_trail w)\<rparr>"

text \<open>The call of the cache invalidator: whether it returned.\<close>

definition invalidate_cache :: "control_env \<Rightarrow> control_world \<Rightarrow> bool \<times> control_world" where
  "invalidate_cache env w =
     (env_invalidator env (invalidations w), w\<lparr>invalidations := Suc (invalidations w)\<rparr>)"

definition acquire_gate :: "nat \<Rightarrow> nat \<Rightarrow> control_world \<Rightarrow> bool \<times> control_world" where
  "acquire_gate thread i w =
     (let (acquired, g) = gate_acquire thread (gates w i)
      in (acquired, w\<lparr>gates := (gates w)(i := g)\<rparr>))"

text \<open>\<open>None\<close> is the \<open>RuntimeError\<close> of releasing a lock that the thread does not own.\<close>

definition release_gate :: "nat \<Rightarrow> nat \<Rightarrow> control_world \<Rightarrow> control_world option" where
  "release_gate thread i w =
     map_option (\<lambda>g. w\<lparr>gates := (gates w)(i := g)\<rparr>) (gate_release thread (gates w i))"

definition record_call :: "device_call \<Rightarrow> bool \<Rightarrow> control_world \<Rightarrow> control_world" where
  "record_call call verified w = w\<lparr>device_calls := device_calls w @ [(call, verified)]\<rparr>"

section \<open>Frame facts\<close>

text \<open>
  What each step leaves alone. The collection \<open>frame_simps\<close> is how the service proofs read
  the state after a chain of steps.
\<close>

lemma read_clock_frame [frame_simps]:
  "gates (snd (read_clock env w)) = gates w"
  "audit_trail (snd (read_clock env w)) = audit_trail w"
  "invalidations (snd (read_clock env w)) = invalidations w"
  "device_calls (snd (read_clock env w)) = device_calls w"
  "fst (read_clock env w) = env_clock env (clock_reads w)"
  "clock_reads (snd (read_clock env w)) = Suc (clock_reads w)"
  by (simp_all add: read_clock_def)

lemma audit_frame [frame_simps]:
  "gates (audit e r w) = gates w" "invalidations (audit e r w) = invalidations w"
  "device_calls (audit e r w) = device_calls w" "clock_reads (audit e r w) = clock_reads w"
  "audit_trail (audit e r w) = audit_trail w @ [audit_entry e r]"
  "gates (audit_operation e r x w) = gates w"
  "invalidations (audit_operation e r x w) = invalidations w"
  "device_calls (audit_operation e r x w) = device_calls w"
  "clock_reads (audit_operation e r x w) = clock_reads w"
  "audit_trail (audit_operation e r x w) = audit_trail w @ [audit_operation_entry e r x]"
  by (simp_all add: audit_def audit_operation_def emit_def emit_operation_def)

lemma invalidate_cache_frame [frame_simps]:
  "gates (snd (invalidate_cache env w)) = gates w"
  "audit_trail (snd (invalidate_cache env w)) = audit_trail w"
  "device_calls (snd (invalidate_cache env w)) = device_calls w"
  "clock_reads (snd (invalidate_cache env w)) = clock_reads w"
  "fst (invalidate_cache env w) = env_invalidator env (invalidations w)"
  "invalidations (snd (invalidate_cache env w)) = Suc (invalidations w)"
  by (simp_all add: invalidate_cache_def)

lemma acquire_gate_frame [frame_simps]:
  "fst (acquire_gate thread i w) = fst (gate_acquire thread (gates w i))"
  "gates (snd (acquire_gate thread i w)) =
     (gates w)(i := snd (gate_acquire thread (gates w i)))"
  "audit_trail (snd (acquire_gate thread i w)) = audit_trail w"
  "invalidations (snd (acquire_gate thread i w)) = invalidations w"
  "device_calls (snd (acquire_gate thread i w)) = device_calls w"
  "clock_reads (snd (acquire_gate thread i w)) = clock_reads w"
  by (simp_all add: acquire_gate_def case_prod_beta)

lemma record_call_frame [frame_simps]:
  "gates (record_call c v w) = gates w" "audit_trail (record_call c v w) = audit_trail w"
  "invalidations (record_call c v w) = invalidations w"
  "clock_reads (record_call c v w) = clock_reads w"
  "device_calls (record_call c v w) = device_calls w @ [(c, v)]"
  by (simp_all add: record_call_def)

text \<open>Acquiring and releasing around steps that do not touch the gates restores them.\<close>

lemma acquire_failed_frame:
  "\<not> fst (gate_acquire thread (gates w i)) \<Longrightarrow> gates (snd (acquire_gate thread i w)) = gates w"
  by (simp add: frame_simps gate_acquire_failed)

lemma release_after_acquire:
  assumes "gate_wf (gates w i)" and "fst (gate_acquire thread (gates w i))"
    and "gates w' = (gates w)(i := snd (gate_acquire thread (gates w i)))"
  shows "release_gate thread i w' = Some (w'\<lparr>gates := gates w\<rparr>)"
  using gate_release_acquire [OF assms(1,2)] by (simp add: release_gate_def assms(3))

lemma failed_acquire_world:
  "\<not> fst (gate_acquire thread (gates w i)) \<Longrightarrow> snd (acquire_gate thread i w) = w"
  by (simp add: acquire_gate_def case_prod_beta gate_acquire_failed)

lemma release_restores:
  assumes "gate_wf (gates w i)" and "fst (gate_acquire thread (gates w i))"
    and "gates w' = gates (snd (acquire_gate thread i w))"
  shows "release_gate thread i w' = Some (w'\<lparr>gates := gates w\<rparr>)"
  using release_after_acquire [OF assms(1,2)] assms(3) by (simp add: frame_simps)

lemma record_call_acquired:
  "g = gates w \<Longrightarrow> (record_call c v (snd (acquire_gate thread i w)))\<lparr>gates := g\<rparr> = record_call c v w"
  by (simp add: acquire_gate_def case_prod_beta record_call_def)

lemma audit_operation_acquired:
  "g = gates w \<Longrightarrow>
    (audit_operation e r x (snd (acquire_gate thread i w)))\<lparr>gates := g\<rparr> = audit_operation e r x w"
  by (simp add: acquire_gate_def case_prod_beta audit_operation_def)

section \<open>Shared notions\<close>

text \<open>What every service asks of the session and the submitted token.\<close>

definition csrf_matches :: "SessionContext option \<Rightarrow> string option \<Rightarrow> bool" where
  "csrf_matches session csrf \<longleftrightarrow>
     (\<exists>opened token. session = Some opened \<and> csrf = Some token \<and> csrf_is_valid opened token)"

text \<open>The environment of a request that is served at time \<open>t\<close>: the clock reads \<open>t\<close>.\<close>

definition at_time :: "seconds \<Rightarrow> control_env \<Rightarrow> control_env" where
  "at_time t env = env\<lparr>env_clock := (\<lambda>_. t)\<rparr>"

section \<open>The contract of a device service\<close>

text \<open>
  What a caller may rely on when it hands a request to one of the two device services: the
  operation keeps its invariant and puts the gates back as they were, it reports as verified
  exactly the one adapter call that was verified and whose invalidation of the cache returned, and
  it only adds to the audit trail. The ambient service is a client of this contract twice over.
\<close>

definition one_call :: "device_call \<Rightarrow> bool \<Rightarrow> (device_call \<times> bool) list \<Rightarrow> bool" where
  "one_call call verified new \<longleftrightarrow>
     (if verified then new = [(call, True)] else new = [] \<or> (\<exists>v. new = [(call, v)]))"

text \<open>
  The calls that count: the adapter said verified, and the cache invalidator, which is called right
  after each verified call, returned. \<open>returned i\<close> is the outcome of the invalidator's call number \<open>i\<close>.
\<close>

primrec confirmed :: "(nat \<Rightarrow> bool) \<Rightarrow> nat \<Rightarrow> (device_call \<times> bool) list \<Rightarrow> device_call list" where
  "confirmed returned n [] = []"
| "confirmed returned n (c # cs) =
     (if snd c then (if returned n then [fst c] else []) @ confirmed returned (Suc n) cs
      else confirmed returned n cs)"

lemma confirmed_append:
  "confirmed returned n (xs @ ys) =
     confirmed returned n xs @ confirmed returned (n + length (filter snd xs)) ys"
  by (induction xs arbitrary: n) simp_all

text \<open>Between two states of the world exactly these calls were made and confirmed.\<close>

definition heard ::
  "(nat \<Rightarrow> bool) \<Rightarrow> control_world \<Rightarrow> control_world \<Rightarrow> device_call list \<Rightarrow> bool" where
  "heard returned w w' calls \<longleftrightarrow>
     (\<exists>new. device_calls w' = device_calls w @ new \<and>
        invalidations w' = invalidations w + length (filter snd new) \<and>
        confirmed returned (invalidations w) new = calls)"

lemma heard_nothing:
  "device_calls w' = device_calls w \<Longrightarrow> invalidations w' = invalidations w \<Longrightarrow> heard returned w w' []"
  by (simp add: heard_def)

lemma heard_trans:
  "heard returned w w1 xs \<Longrightarrow> heard returned w1 w2 ys \<Longrightarrow> heard returned w w2 (xs @ ys)"
  by (auto simp: heard_def confirmed_append ac_simps)

lemma heard_clock: "heard returned (snd (read_clock env w)) w' xs \<longleftrightarrow> heard returned w w' xs"
  by (simp add: heard_def frame_simps)

locale device_service =
  fixes run :: "'request \<Rightarrow> 'state \<Rightarrow> 'result option \<times> 'state"
    and world :: "'state \<Rightarrow> control_world"
    and ready :: "'state \<Rightarrow> bool"
    and call_of :: "'request \<Rightarrow> device_call"
    and verified :: "'result \<Rightarrow> bool"
    and returned :: "nat \<Rightarrow> bool"
  assumes run_ready: "ready s \<Longrightarrow> ready (snd (run q s))"
    and run_gates: "ready s \<Longrightarrow> gates (world (snd (run q s))) = gates (world s)"
    and run_calls: "ready s \<Longrightarrow> \<exists>new. device_calls (world (snd (run q s))) = device_calls (world s) @ new \<and>
      one_call (call_of q) (\<exists>r. fst (run q s) = Some r \<and> verified r) new"
    and run_audit: "ready s \<Longrightarrow> \<exists>new. audit_trail (world (snd (run q s))) = audit_trail (world s) @ new \<and>
      (fst (run q s) \<noteq> None \<longrightarrow> new \<noteq> [])"
    and run_heard: "ready s \<Longrightarrow> heard returned (world s) (world (snd (run q s)))
      (if \<exists>r. fst (run q s) = Some r \<and> verified r then [call_of q] else [])"
begin

text \<open>Serving a list of requests one after the other.\<close>

primrec run_list :: "'request list \<Rightarrow> 'state \<Rightarrow> bool list \<times> 'state" where
  "run_list [] s = ([], s)"
| "run_list (q # qs) s =
     (let (r, s1) = run q s; (vs, s2) = run_list qs s1
      in ((case r of None \<Rightarrow> False | Some x \<Rightarrow> verified x) # vs, s2))"

lemma run_list_ready: "ready s \<Longrightarrow> ready (snd (run_list qs s))"
  by (induction qs arbitrary: s) (simp_all add: case_prod_beta Let_def run_ready)

lemma run_list_gates: "ready s \<Longrightarrow> gates (world (snd (run_list qs s))) = gates (world s)"
  by (induction qs arbitrary: s) (simp_all add: case_prod_beta Let_def run_ready run_gates)

text \<open>
  A list of requests makes at most one device call each, in the order of the requests, and the
  verified calls are exactly those of the verified requests when each request is verified.
\<close>

lemma run_list_calls:
  "ready s \<Longrightarrow> \<exists>new. device_calls (world (snd (run_list qs s))) = device_calls (world s) @ new \<and>
    length new \<le> length qs \<and> set (map fst new) \<subseteq> set (map call_of qs) \<and>
    (list_all id (fst (run_list qs s)) \<longrightarrow> new = map (\<lambda>q. (call_of q, True)) qs)"
proof (induction qs arbitrary: s)
  case Nil
  then show ?case by simp
next
  case (Cons q qs)
  let ?s = "snd (run q s)"
  obtain n1 where n1: "device_calls (world ?s) = device_calls (world s) @ n1"
      "one_call (call_of q) (\<exists>r. fst (run q s) = Some r \<and> verified r) n1"
    using run_calls [OF Cons.prems] by blast
  obtain n2 where n2: "device_calls (world (snd (run_list qs ?s))) = device_calls (world ?s) @ n2"
      "length n2 \<le> length qs" "set (map fst n2) \<subseteq> set (map call_of qs)"
      "list_all id (fst (run_list qs ?s)) \<longrightarrow> n2 = map (\<lambda>q. (call_of q, True)) qs"
    using Cons.IH [OF run_ready [OF Cons.prems]] by blast
  have n1': "length n1 \<le> 1" "set (map fst n1) \<subseteq> {call_of q}"
    using n1(2) by (auto simp: one_call_def split: if_splits)
  show ?case
  proof (intro exI [of _ "n1 @ n2"] conjI)
    show "device_calls (world (snd (run_list (q # qs) s))) = device_calls (world s) @ n1 @ n2"
      using n1(1) n2(1) by (simp add: case_prod_beta Let_def)
    show "length (n1 @ n2) \<le> length (q # qs)" using n1'(1) n2(2) by simp
    show "set (map fst (n1 @ n2)) \<subseteq> set (map call_of (q # qs))" using n1'(2) n2(3) by auto
    show "list_all id (fst (run_list (q # qs) s)) \<longrightarrow> n1 @ n2 = map (\<lambda>q. (call_of q, True)) (q # qs)"
      using n1(2) n2(4) by (auto simp: case_prod_beta Let_def one_call_def split: option.splits)
  qed
qed

text \<open>What was confirmed over a list of requests is the calls of the verified ones, in order.\<close>

lemma run_list_heard:
  "ready s \<Longrightarrow> heard returned (world s) (world (snd (run_list qs s)))
    (map (\<lambda>(q, v). call_of q) (filter snd (zip qs (fst (run_list qs s)))))"
proof (induction qs arbitrary: s)
  case Nil
  then show ?case by (simp add: heard_nothing)
next
  case (Cons q qs)
  from heard_trans [OF run_heard [OF Cons.prems, of q] Cons.IH [OF run_ready [OF Cons.prems, of q]]]
  show ?case by (cases "fst (run q s)") (simp_all add: case_prod_beta Let_def split: if_splits)
qed

end

section \<open>Example values\<close>

definition sample_limiter :: limiter where
  "sample_limiter =
     \<lparr>attempt_limit = 1, window_seconds = 60, digest_key = [1], maximum_clients = 256,
      records = [], global_attempts = [], global_attempt_limit = 16\<rparr>"

definition sample_world :: control_world where
  "sample_world =
     \<lparr>gates = (\<lambda>_. new_gate), audit_trail = [], invalidations = 0, clock_reads = 0, device_calls = []\<rparr>"

definition sample_env :: control_env where
  "sample_env =
     \<lparr>env_clock = (\<lambda>n. of_nat n), env_blake = (\<lambda>_ _. [7]), env_invalidator = (\<lambda>_. True)\<rparr>"

definition sample_session :: "SessionContext option" where
  "sample_session =
     Some \<lparr>username = ''op'', csrf_token = sample_token, expires_in_seconds = 60\<rparr>"

lemma sample_limiter_inv: "limiter_inv sample_limiter"
  by (rule limiter_inv_new [of 1 60 "[1]" 256])
    (simp add: new_limiter_def sample_limiter_def GLOBAL_ATTEMPT_MULTIPLIER_def)

lemma sample_attempt: "fst (begin_attempt blake t c sample_limiter)"
  by (simp add: begin_attempt_eq [OF sample_limiter_inv]) (simp add: sample_limiter_def make_room_def stamps_of_def cleanup_def Let_def)

end
