(* ===== verification/Http_Transport.thy ===== *)
theory Http_Transport
  imports Json_Value
begin

text \<open>
  The bounded HTTP exchanges of Aurora's device clients: \<open>hardware/transport.py\<close>,
  \<open>hardware/hyperhdr_transport.py\<close>, \<open>hardware/errors.py\<close>. The network is a parameter: what the
  opener's \<open>open\<close> call and the reading of its response come to for a request and a timeout.
  Everything the code does with that outcome, the chain of \<open>except\<close> clauses in its order and
  the bounded read, is modelled.
\<close>

section \<open>Requests and outcomes\<close>

record http_request =
  req_url :: string
  req_data :: "bytes option"
  req_headers :: "(string, string) dict"
  req_method :: string

text \<open>
  What can be raised inside the \<open>try\<close> block: the redirect handler was called, an \<open>HTTPError\<close>
  with its code, a \<open>TimeoutError\<close>, a \<open>URLError\<close> whose reason is a timeout or is not, another
  \<open>OSError\<close>, or an exception of a class that no clause names.
\<close>

datatype http_error =
    Redirect_Requested
  | HTTP_Error int
  | Timeout_Error
  | URL_Error bool
  | OS_Error
  | Other_Error

text \<open>An opened response has a status code, if it is an integer, and a body to read.\<close>

datatype http_outcome =
    Open_Raised http_error
  | Opened "int option" "http_error + bytes"

type_synonym network = "http_request \<Rightarrow> seconds \<Rightarrow> http_outcome"

definition is_success_status :: "int option \<Rightarrow> bool" where
  "is_success_status status = (case status of None \<Rightarrow> False | Some n \<Rightarrow> 200 \<le> n \<and> n < 300)"

section \<open>Addresses\<close>

definition bracketed :: "string \<Rightarrow> string" where
  "bracketed host = (if CHR '':'' \<in> set host then ''['' @ host @ '']'' else host)"

definition wled_url :: "string \<Rightarrow> int \<Rightarrow> string \<Rightarrow> string" where
  "wled_url host port path = ''http://'' @ bracketed host @ '':'' @ decimal_int port @ path"

definition info_url :: "string \<Rightarrow> int \<Rightarrow> string" where
  "info_url host port = wled_url host port ''/json/info''"

definition state_url :: "string \<Rightarrow> int \<Rightarrow> string" where
  "state_url host port = wled_url host port ''/json/state''"

text \<open>\<open>urllib.parse.urlencode\<close> of one field, for plain ASCII text.\<close>

definition hex_digit :: "nat \<Rightarrow> char" where
  "hex_digit n = (if n < 10 then char_of (48 + n) else char_of (55 + n))"

definition is_unreserved :: "char \<Rightarrow> bool" where
  "is_unreserved c \<longleftrightarrow>
     in_range CHR ''A'' CHR ''Z'' c \<or> in_range CHR ''a'' CHR ''z'' c \<or> in_range CHR ''0'' CHR ''9'' c \<or>
     c \<in> {CHR ''_'', CHR ''.'', CHR ''-'', CHR ''~''}"

definition quote_plus :: "string \<Rightarrow> string" where
  "quote_plus s = concat (map (\<lambda>c.
     if is_unreserved c then [c] else if c = CHR '' '' then ''+''
     else [CHR ''%'', hex_digit (ord_of c div 16), hex_digit (ord_of c mod 16)]) s)"

definition serverinfo_url :: "string \<Rightarrow> int \<Rightarrow> string" where
  "serverinfo_url host port =
     ''http://'' @ bracketed host @ '':'' @ decimal_int port @ ''/json-rpc?request='' @
     quote_plus (the (dumps [(''command'', JString ''serverinfo'')]))"

section \<open>Read-only transports\<close>

definition MAX_INFO_RESPONSE_BYTES :: nat where
  "MAX_INFO_RESPONSE_BYTES = 64 * 1024"

definition MAX_SERVERINFO_RESPONSE_BYTES :: nat where
  "MAX_SERVERINFO_RESPONSE_BYTES = 256 * 1024"

text \<open>The error classes; \<open>None\<close> below is an exception that no clause catches.\<close>

datatype WLEDTransportError =
  WLED_Connection | WLED_Timeout | WLED_Redirect | WLED_HTTP | WLED_Too_Large

primrec wled_reason_code :: "WLEDTransportError \<Rightarrow> string" where
  "wled_reason_code WLED_Connection = ''connection_failed''"
| "wled_reason_code WLED_Timeout = ''timeout''"
| "wled_reason_code WLED_Redirect = ''redirect_rejected''"
| "wled_reason_code WLED_HTTP = ''http_error''"
| "wled_reason_code WLED_Too_Large = ''response_too_large''"

datatype HyperHDRTransportError =
    HDR_Connection | HDR_Timeout | HDR_Redirect | HDR_Authorization | HDR_HTTP | HDR_Too_Large

primrec hyperhdr_reason_code :: "HyperHDRTransportError \<Rightarrow> string" where
  "hyperhdr_reason_code HDR_Connection = ''connection_failed''"
| "hyperhdr_reason_code HDR_Timeout = ''timeout''"
| "hyperhdr_reason_code HDR_Redirect = ''redirect_rejected''"
| "hyperhdr_reason_code HDR_Authorization = ''authorization_required''"
| "hyperhdr_reason_code HDR_HTTP = ''http_error''"
| "hyperhdr_reason_code HDR_Too_Large = ''response_too_large''"

definition read_only_headers :: "(string, string) dict" where
  "read_only_headers = [(''Accept'', ''application/json''), (''User-Agent'', ''Project-Aurora'')]"

text \<open>
  The \<open>try\<close> block all the transports share: open, check the status, read at most one byte
  more than the limit. The outcome is a raised exception, a bad status, or the bytes read.
\<close>

datatype exchange_result = Raised http_error | Bad_Status | Read bytes

definition exchange :: "network \<Rightarrow> http_request \<Rightarrow> seconds \<Rightarrow> nat \<Rightarrow> exchange_result" where
  "exchange net request timeout limit =
     (case net request timeout of
        Open_Raised e \<Rightarrow> Raised e
      | Opened status body \<Rightarrow>
          if \<not> is_success_status status then Bad_Status
          else (case body of Inl e \<Rightarrow> Raised e | Inr stream \<Rightarrow> Read (take (limit + 1) stream)))"

definition fetch_wled_json ::
  "network \<Rightarrow> string \<Rightarrow> seconds \<Rightarrow> WLEDTransportError option + bytes" where
  "fetch_wled_json net url timeout =
     (let request = \<lparr>req_url = url, req_data = None, req_headers = read_only_headers,
                     req_method = ''GET''\<rparr>
      in case exchange net request timeout MAX_INFO_RESPONSE_BYTES of
           Bad_Status \<Rightarrow> Inl (Some WLED_HTTP)
         | Raised Redirect_Requested \<Rightarrow> Inl (Some WLED_Redirect)
         | Raised (HTTP_Error code) \<Rightarrow>
             Inl (Some (if 300 \<le> code \<and> code < 400 then WLED_Redirect else WLED_HTTP))
         | Raised Timeout_Error \<Rightarrow> Inl (Some WLED_Timeout)
         | Raised (URL_Error timed_out) \<Rightarrow>
             Inl (Some (if timed_out then WLED_Timeout else WLED_Connection))
         | Raised OS_Error \<Rightarrow> Inl (Some WLED_Connection)
         | Raised Other_Error \<Rightarrow> Inl None
         | Read body \<Rightarrow>
             if MAX_INFO_RESPONSE_BYTES < length body then Inl (Some WLED_Too_Large)
             else Inr body)"

definition fetch_info ::
  "network \<Rightarrow> string \<Rightarrow> int \<Rightarrow> seconds \<Rightarrow> WLEDTransportError option + bytes" where
  "fetch_info net host port timeout = fetch_wled_json net (info_url host port) timeout"

definition fetch_state ::
  "network \<Rightarrow> string \<Rightarrow> int \<Rightarrow> seconds \<Rightarrow> WLEDTransportError option + bytes" where
  "fetch_state net host port timeout = fetch_wled_json net (state_url host port) timeout"

definition fetch_server_info ::
  "network \<Rightarrow> string \<Rightarrow> int \<Rightarrow> seconds \<Rightarrow> HyperHDRTransportError option + bytes" where
  "fetch_server_info net host port timeout =
     (let request = \<lparr>req_url = serverinfo_url host port, req_data = None,
                     req_headers = read_only_headers, req_method = ''GET''\<rparr>
      in case exchange net request timeout MAX_SERVERINFO_RESPONSE_BYTES of
           Bad_Status \<Rightarrow> Inl (Some HDR_HTTP)
         | Raised Redirect_Requested \<Rightarrow> Inl (Some HDR_Redirect)
         | Raised (HTTP_Error code) \<Rightarrow>
             Inl (Some (if 300 \<le> code \<and> code < 400 then HDR_Redirect
                        else if code \<in> {401, 403} then HDR_Authorization else HDR_HTTP))
         | Raised Timeout_Error \<Rightarrow> Inl (Some HDR_Timeout)
         | Raised (URL_Error timed_out) \<Rightarrow>
             Inl (Some (if timed_out then HDR_Timeout else HDR_Connection))
         | Raised OS_Error \<Rightarrow> Inl (Some HDR_Connection)
         | Raised Other_Error \<Rightarrow> Inl None
         | Read body \<Rightarrow>
             if MAX_SERVERINFO_RESPONSE_BYTES < length body then Inl (Some HDR_Too_Large)
             else Inr body)"

section \<open>Lemmas\<close>

text \<open>What a delivered body says of the network: the whole body of a successful response.\<close>

definition delivered :: "network \<Rightarrow> http_request \<Rightarrow> seconds \<Rightarrow> nat \<Rightarrow> bytes \<Rightarrow> bool" where
  "delivered net request timeout limit body \<longleftrightarrow>
     (\<exists>status. net request timeout = Opened (Some status) (Inr body) \<and>
        200 \<le> status \<and> status < 300 \<and> length body \<le> limit)"

lemma exchange_Read:
  "exchange net request timeout limit = Read body \<longleftrightarrow>
     (\<exists>status stream. net request timeout = Opened (Some status) (Inr stream) \<and>
        200 \<le> status \<and> status < 300 \<and> body = take (limit + 1) stream)"
  by (auto simp: exchange_def is_success_status_def split: http_outcome.splits option.splits
      sum.splits if_splits)

lemma take_within: "length (take (Suc n) xs) \<le> n \<longleftrightarrow> length xs \<le> n"
  by (auto simp: min_def split: if_splits)

lemma exchange_delivered:
  "exchange net request timeout limit = Read body \<and> length body \<le> limit \<longleftrightarrow>
     delivered net request timeout limit body"
  by (auto simp: exchange_Read delivered_def take_within simp del: length_take)

lemma fetch_server_info_Inr:
  "fetch_server_info net host port timeout = Inr body \<longleftrightarrow>
     delivered net \<lparr>req_url = serverinfo_url host port, req_data = None,
       req_headers = read_only_headers, req_method = ''GET''\<rparr> timeout
       MAX_SERVERINFO_RESPONSE_BYTES body"
  unfolding exchange_delivered [symmetric]
  by (auto simp: fetch_server_info_def Let_def split: exchange_result.splits http_error.splits)

lemma fetch_wled_json_Inr:
  "fetch_wled_json net url timeout = Inr body \<longleftrightarrow>
     delivered net \<lparr>req_url = url, req_data = None, req_headers = read_only_headers,
       req_method = ''GET''\<rparr> timeout MAX_INFO_RESPONSE_BYTES body"
  unfolding exchange_delivered [symmetric]
  by (auto simp: fetch_wled_json_def Let_def split: exchange_result.splits http_error.splits)

end
