(* ===== verification/Wled_Adapter.thy ===== *)
theory Wled_Adapter
  imports Contracts Http_Transport
begin

text \<open>
  \<open>control_plane/wled_adapter.py\<close>: one POST with a fixed payload to the WLED state resource and
  the verification of its response. Reasons carry the prefix \<open>WA_\<close>. An exception that escapes
  \<open>execute\<close> is \<open>None\<close>; the service above turns it into a connection failure.
\<close>

definition MAX_MUTATION_RESPONSE_BYTES :: nat where
  "MAX_MUTATION_RESPONSE_BYTES = 16 * 1024"

datatype AdapterReason =
    WA_VERIFIED
  | WA_CONNECTION_FAILURE
  | WA_TIMEOUT
  | WA_HTTP_REJECTION
  | WA_REDIRECT_REJECTION
  | WA_OVERSIZED_RESPONSE
  | WA_MALFORMED_JSON
  | WA_MISSING_EXPECTED_STATE
  | WA_STATE_VERIFICATION_MISMATCH

record AdapterResult =
  ar_verified :: bool
  ar_reason :: AdapterReason

section \<open>The transport\<close>

text \<open>The constructor check of \<open>WLEDMutationTransportFailure\<close>: a transport reason, or an error.\<close>

definition wled_transport_failure :: "AdapterReason \<Rightarrow> AdapterReason option" where
  "wled_transport_failure reason =
     (if reason \<notin> {WA_CONNECTION_FAILURE, WA_TIMEOUT, WA_HTTP_REJECTION, WA_REDIRECT_REJECTION,
                    WA_OVERSIZED_RESPONSE}
      then None else Some reason)"

definition json_post_headers :: "(string, string) dict" where
  "json_post_headers =
     [(''Accept'', ''application/json''), (''Content-Type'', ''application/json''),
      (''User-Agent'', ''Project-Aurora'')]"

definition state_request :: "string \<Rightarrow> int \<Rightarrow> bytes \<Rightarrow> http_request" where
  "state_request host port payload =
     \<lparr>req_url = state_url host port, req_data = Some payload, req_headers = json_post_headers,
      req_method = ''POST''\<rparr>"

text \<open>A failure with a reason, an escaping exception (\<open>Inl None\<close>), or the body.\<close>

definition post_state ::
  "network \<Rightarrow> string \<Rightarrow> int \<Rightarrow> seconds \<Rightarrow> bytes \<Rightarrow> AdapterReason option + bytes" where
  "post_state net host port timeout payload =
     (case exchange net (state_request host port payload) timeout MAX_MUTATION_RESPONSE_BYTES of
        Bad_Status \<Rightarrow> Inl (wled_transport_failure WA_HTTP_REJECTION)
      | Raised Redirect_Requested \<Rightarrow> Inl (wled_transport_failure WA_REDIRECT_REJECTION)
      | Raised (HTTP_Error code) \<Rightarrow>
          if 300 \<le> code \<and> code < 400 then Inl (wled_transport_failure WA_REDIRECT_REJECTION)
          else Inl (wled_transport_failure WA_HTTP_REJECTION)
      | Raised Timeout_Error \<Rightarrow> Inl (wled_transport_failure WA_TIMEOUT)
      | Raised (URL_Error timed_out) \<Rightarrow>
          if timed_out then Inl (wled_transport_failure WA_TIMEOUT)
          else Inl (wled_transport_failure WA_CONNECTION_FAILURE)
      | Raised OS_Error \<Rightarrow> Inl (wled_transport_failure WA_CONNECTION_FAILURE)
      | Raised Other_Error \<Rightarrow> Inl None
      | Read body \<Rightarrow>
          if MAX_MUTATION_RESPONSE_BYTES < length body
          then Inl (wled_transport_failure WA_OVERSIZED_RESPONSE)
          else Inr body)"

section \<open>Payload and verification\<close>

text \<open>\<open>None\<close> is the \<open>ValueError\<close> of an input that does not match the operation.\<close>

fun operation_payload :: "WLEDOperation \<Rightarrow> operation_input \<Rightarrow> (string, json) dict option" where
  "operation_payload POWER_ON NoOperationInput = Some [(''on'', JBool True), (''v'', JBool True)]"
| "operation_payload POWER_OFF NoOperationInput = Some [(''on'', JBool False), (''v'', JBool True)]"
| "operation_payload BRIGHTNESS_SET (BrightnessInput n) =
     Some [(''bri'', JInt n), (''v'', JBool True)]"
| "operation_payload _ _ = None"

text \<open>
  The type test of \<open>_verify_exact\<close> is exact, so the comparison is that of the value trees: a
  boolean never passes for an integer.
\<close>

definition verify_exact :: "(string, json) dict \<Rightarrow> string \<Rightarrow> json \<Rightarrow> AdapterResult" where
  "verify_exact document key expected =
     (case dict_get document key of
        None \<Rightarrow> \<lparr>ar_verified = False, ar_reason = WA_MISSING_EXPECTED_STATE\<rparr>
      | Some actual \<Rightarrow>
          if actual \<noteq> expected
          then \<lparr>ar_verified = False, ar_reason = WA_STATE_VERIFICATION_MISMATCH\<rparr>
          else \<lparr>ar_verified = True, ar_reason = WA_VERIFIED\<rparr>)"

definition verify_response ::
  "json_loads \<Rightarrow> WLEDOperation \<Rightarrow> operation_input \<Rightarrow> bytes \<Rightarrow> AdapterResult option" where
  "verify_response loads operation operation_input body =
     (case loads body of
        Loads_Raised \<Rightarrow> None
      | Loads_Value_Error _ \<Rightarrow> None
      | Undecodable \<Rightarrow> Some \<lparr>ar_verified = False, ar_reason = WA_MALFORMED_JSON\<rparr>
      | Loaded (JObject document) \<Rightarrow>
          (case operation of
             POWER_ON \<Rightarrow> Some (verify_exact document ''on'' (JBool True))
           | POWER_OFF \<Rightarrow> Some (verify_exact document ''on'' (JBool False))
           | BRIGHTNESS_SET \<Rightarrow>
               (case operation_input of
                  NoOperationInput \<Rightarrow> None
                | BrightnessInput n \<Rightarrow> Some (verify_exact document ''bri'' (JInt n))))
      | Loaded _ \<Rightarrow> Some \<lparr>ar_verified = False, ar_reason = WA_MALFORMED_JSON\<rparr>)"

section \<open>The adapter\<close>

record wled_adapter =
  wa_host :: string
  wa_port :: int
  wa_timeout :: seconds

definition new_wled_adapter :: "string \<Rightarrow> int \<Rightarrow> seconds \<Rightarrow> wled_adapter option" where
  "new_wled_adapter host port timeout =
     (if host = [] \<or> \<not> (1 / 10 \<le> timeout \<and> timeout \<le> 5) then None
      else Some \<lparr>wa_host = host, wa_port = port, wa_timeout = timeout\<rparr>)"

definition wled_execute ::
  "network \<Rightarrow> json_loads \<Rightarrow> wled_adapter \<Rightarrow> WLEDOperation \<Rightarrow> operation_input \<Rightarrow>
     AdapterResult option" where
  "wled_execute net loads a operation operation_input =
     (case operation_payload operation operation_input of
        None \<Rightarrow> None
      | Some payload \<Rightarrow>
          (case dumps payload of
             None \<Rightarrow> None
           | Some enc \<Rightarrow>
               (case post_state net (wa_host a) (wa_port a) (wa_timeout a) (ascii_bytes enc) of
                  Inl None \<Rightarrow> None
                | Inl (Some reason) \<Rightarrow> Some \<lparr>ar_verified = False, ar_reason = reason\<rparr>
                | Inr body \<Rightarrow>
                    if MAX_MUTATION_RESPONSE_BYTES < length body
                    then Some \<lparr>ar_verified = False, ar_reason = WA_OVERSIZED_RESPONSE\<rparr>
                    else verify_response loads operation operation_input body)))"

section \<open>Lemmas\<close>

lemma post_state_Inr:
  "post_state net host port timeout payload = Inr body \<longleftrightarrow>
     delivered net (state_request host port payload) timeout MAX_MUTATION_RESPONSE_BYTES body"
  unfolding exchange_delivered [symmetric]
  by (auto simp: post_state_def split: exchange_result.splits http_error.splits if_splits)

lemma post_state_reason:
  "post_state net host port timeout payload = Inl (Some reason) \<Longrightarrow>
    reason \<in> {WA_CONNECTION_FAILURE, WA_TIMEOUT, WA_HTTP_REJECTION, WA_REDIRECT_REJECTION,
              WA_OVERSIZED_RESPONSE}"
  by (auto simp: post_state_def wled_transport_failure_def
      split: exchange_result.splits http_error.splits if_splits)

text \<open>The state an operation asks for: the key and the value the response has to show.\<close>

fun requested_state :: "WLEDOperation \<Rightarrow> operation_input \<Rightarrow> (string \<times> json) option" where
  "requested_state POWER_ON NoOperationInput = Some (''on'', JBool True)"
| "requested_state POWER_OFF NoOperationInput = Some (''on'', JBool False)"
| "requested_state BRIGHTNESS_SET (BrightnessInput n) = Some (''bri'', JInt n)"
| "requested_state _ _ = None"

lemma operation_payload_state:
  "operation_payload operation inp =
     map_option (\<lambda>kv. [kv, (''v'', JBool True)]) (requested_state operation inp)"
  by (cases "(operation, inp)" rule: operation_payload.cases) simp_all

lemma dumps_payload:
  assumes "requested_state operation inp = Some (k, v)"
  shows "\<exists>enc. dumps [(k, v), (''v'', JBool True)] = Some enc"
  using assms by (cases "(operation, inp)" rule: requested_state.cases) (auto simp: dumps_simps)

lemma verify_exact_verified:
  "ar_verified (verify_exact document k v) \<longleftrightarrow> dict_get document k = Some v"
  by (simp add: verify_exact_def split: option.split)

lemma verify_exact_reason:
  "ar_reason (verify_exact document k v) = WA_VERIFIED \<longleftrightarrow> ar_verified (verify_exact document k v)"
  by (simp add: verify_exact_def split: option.split)

lemma verify_response_cases:
  assumes "requested_state operation inp = Some (k, v)"
  shows "verify_response loads operation inp body =
    (case loads body of
        Loads_Raised \<Rightarrow> None
      | Loads_Value_Error _ \<Rightarrow> None
      | Loaded (JObject document) \<Rightarrow> Some (verify_exact document k v)
      | _ \<Rightarrow> Some \<lparr>ar_verified = False, ar_reason = WA_MALFORMED_JSON\<rparr>)"
  using assms by (cases "(operation, inp)" rule: requested_state.cases)
    (auto simp: verify_response_def split: loads_outcome.split json.split)

lemma wled_execute_cases:
  assumes "requested_state operation inp = Some (k, v)"
    and "dumps [(k, v), (''v'', JBool True)] = Some enc"
  shows "wled_execute net loads a operation inp =
    (case post_state net (wa_host a) (wa_port a) (wa_timeout a) (ascii_bytes enc) of
       Inl None \<Rightarrow> None
     | Inl (Some reason) \<Rightarrow> Some \<lparr>ar_verified = False, ar_reason = reason\<rparr>
     | Inr body \<Rightarrow> verify_response loads operation inp body)"
proof -
  have "length body \<le> MAX_MUTATION_RESPONSE_BYTES"
    if "post_state net (wa_host a) (wa_port a) (wa_timeout a) (ascii_bytes enc) = Inr body" for body
    using that by (auto simp: post_state_Inr delivered_def)
  then show ?thesis using assms
    by (force simp: wled_execute_def operation_payload_state not_less split: sum.split option.split)
qed

section \<open>Properties\<close>

text \<open>
  C7. The adapter reports an operation as verified exactly when the device answered the one
  POST of the compact payload, which names the requested state, with a successful status and a
  whole body within the limit that decodes to an object showing exactly that state, its JSON
  type included.
\<close>

theorem wled_verified_iff:
  assumes "requested_state operation inp = Some (k, v)"
    and "dumps [(k, v), (''v'', JBool True)] = Some enc"
  shows "wled_execute net loads a operation inp = Some \<lparr>ar_verified = True, ar_reason = r\<rparr> \<longleftrightarrow>
    r = WA_VERIFIED \<and>
    (\<exists>body document.
       delivered net (state_request (wa_host a) (wa_port a) (ascii_bytes enc)) (wa_timeout a)
         MAX_MUTATION_RESPONSE_BYTES body \<and>
       loads body = Loaded (JObject document) \<and> dict_get document k = Some v)"
    (is "?L = ?R")
proof
  have exact: "verify_exact d k v = \<lparr>ar_verified = True, ar_reason = r\<rparr> \<longleftrightarrow>
      r = WA_VERIFIED \<and> dict_get d k = Some v" for d r
    by (auto simp: verify_exact_def split: option.split)
  note eqs = wled_execute_cases [OF assms] verify_response_cases [OF assms(1)]
  show ?R if ?L
    using that unfolding eqs post_state_Inr [symmetric]
    by (auto simp: exact split: sum.splits option.splits loads_outcome.splits json.splits)
  show ?L if ?R
    using that unfolding eqs post_state_Inr [symmetric] by (auto simp: exact)
qed

definition sample_wled_loads :: json_loads where
  "sample_wled_loads body =
     (if body = [1] then Loaded (JObject [(''bri'', JInt 7), (''on'', JBool True)]) else Undecodable)"

theorem wled_verified_iff_witness:
  "wled_execute (\<lambda>request timeout. Opened (Some 200) (Inr [1])) sample_wled_loads
     \<lparr>wa_host = ''wled'', wa_port = 80, wa_timeout = 2\<rparr> BRIGHTNESS_SET (BrightnessInput 7) =
     Some \<lparr>ar_verified = True, ar_reason = WA_VERIFIED\<rparr>"
  by (subst wled_verified_iff [where k = "''bri''" and v = "JInt 7" and enc = "''{'' @ quoted ''bri'' @
        '':7,'' @ quoted ''v'' @ '':true}''"])
    (simp_all add: dumps_simps decimal_int_def decimal.simps digit_def char_of_def bit_0 delivered_def
      sample_wled_loads_def MAX_MUTATION_RESPONSE_BYTES_def)

text \<open>
  Every outcome of a well-typed operation that is not verified is classified: no response
  or an escaping exception never counts as verified, transport failures carry transport
  reasons, and a delivered body that does not show the state is one of the three verification
  failures.
\<close>

theorem wled_failure_classified:
  assumes "requested_state operation inp = Some (k, v)"
    and "wled_execute net loads a operation inp = Some result"
  shows "(ar_verified result \<longleftrightarrow> ar_reason result = WA_VERIFIED) \<and>
    (ar_reason result \<in> {WA_MALFORMED_JSON, WA_MISSING_EXPECTED_STATE, WA_STATE_VERIFICATION_MISMATCH,
        WA_VERIFIED} \<longleftrightarrow>
      (\<exists>enc body. dumps [(k, v), (''v'', JBool True)] = Some enc \<and>
        delivered net (state_request (wa_host a) (wa_port a) (ascii_bytes enc)) (wa_timeout a)
          MAX_MUTATION_RESPONSE_BYTES body))"
proof -
  obtain enc where enc: "dumps [(k, v), (''v'', JBool True)] = Some enc"
    using dumps_payload [OF assms(1)] by blast
  let ?post = "post_state net (wa_host a) (wa_port a) (wa_timeout a) (ascii_bytes enc)"
  from assms(2) consider (failed) reason where "?post = Inl (Some reason)"
      "result = \<lparr>ar_verified = False, ar_reason = reason\<rparr>"
    | (body) body where "?post = Inr body" "verify_response loads operation inp body = Some result"
    unfolding wled_execute_cases [OF assms(1) enc] by (auto split: sum.splits option.splits)
  then show ?thesis
  proof cases
    case failed
    have "\<nexists>body. ?post = Inr body" using failed(1) by simp
    then show ?thesis using failed(2) post_state_reason [OF failed(1)] enc
      by (auto simp: post_state_Inr)
  next
    case body
    have "ar_reason result \<in> {WA_MALFORMED_JSON, WA_MISSING_EXPECTED_STATE,
        WA_STATE_VERIFICATION_MISMATCH, WA_VERIFIED} \<and>
      (ar_verified result \<longleftrightarrow> ar_reason result = WA_VERIFIED)"
      using body(2) unfolding verify_response_cases [OF assms(1)]
      by (auto simp: verify_exact_def split: loads_outcome.splits json.splits option.splits if_splits)
    moreover have "delivered net (state_request (wa_host a) (wa_port a) (ascii_bytes enc))
        (wa_timeout a) MAX_MUTATION_RESPONSE_BYTES body"
      using body(1) by (simp add: post_state_Inr)
    ultimately show ?thesis using enc by blast
  qed
qed

theorem wled_failure_classified_witness:
  "\<not> (\<exists>enc body. dumps [(''on'', JBool True), (''v'', JBool True)] = Some enc \<and>
     delivered (\<lambda>request timeout. Open_Raised Timeout_Error)
       (state_request ''wled'' 80 (ascii_bytes enc)) 2 MAX_MUTATION_RESPONSE_BYTES body)"
  using wled_failure_classified [of POWER_ON NoOperationInput "''on''" "JBool True"
      "\<lambda>request timeout. Open_Raised Timeout_Error" sample_wled_loads
      "\<lparr>wa_host = ''wled'', wa_port = 80, wa_timeout = 2\<rparr>"
      "\<lparr>ar_verified = False, ar_reason = WA_TIMEOUT\<rparr>"]
  by (simp add: wled_execute_def dumps_simps post_state_def exchange_def wled_transport_failure_def)

text \<open>
  Different operations are sent as different bytes: the payload determines the operation
  and the brightness level.
\<close>

theorem wled_payload_injective:
  assumes "requested_state o1 i1 = Some kv1" and "requested_state o2 i2 = Some kv2"
    and "map_option ascii_bytes (Option.bind (operation_payload o1 i1) dumps) =
         map_option ascii_bytes (Option.bind (operation_payload o2 i2) dumps)"
  shows "o1 = o2 \<and> i1 = i2"
  using assms
  by (cases "(o1, i1)" rule: requested_state.cases; cases "(o2, i2)" rule: requested_state.cases)
    (auto simp: dumps_simps ascii_bytes_inj quoted_def)

theorem wled_payload_injective_witness:
  "map_option ascii_bytes (Option.bind (operation_payload POWER_ON NoOperationInput) dumps) \<noteq>
   map_option ascii_bytes (Option.bind (operation_payload POWER_OFF NoOperationInput) dumps)"
  using wled_payload_injective [of POWER_ON NoOperationInput "(''on'', JBool True)" POWER_OFF
      NoOperationInput "(''on'', JBool False)"] by auto

end
