(* ===== verification/Wled_Service.thy ===== *)
theory Wled_Service
  imports Control_World Wled_Adapter
begin

text \<open>
  \<open>control_plane/wled_service.py\<close> and the WLED settings of \<open>config/models.py\<close>: every check in
  front of a WLED mutation, the critical section around the one adapter call, and the audit of
  the outcome. A method of \<open>WLEDControlService\<close> is a function on the pair of the service and
  the shared world. Statuses carry the prefix \<open>WS_\<close>, availabilities \<open>WV_\<close>. The result \<open>None\<close>
  is an exception that the cache invalidator raised.
\<close>

section \<open>Settings\<close>

record WLEDControlSettings =
  wc_enabled :: bool
  wc_allowed_operations :: "WLEDOperation list"
  wc_timeout_seconds :: seconds
  wc_maximum_brightness :: int
  wc_operation_limit :: int
  wc_operation_window_seconds :: int

record WLEDSettings =
  ws_enabled :: bool
  ws_host :: "string option"
  ws_port :: "int option"
  ws_validation_timeout_seconds :: seconds
  ws_expected_led_count :: "int option"
  ws_expected_active_led_count :: "int option"
  ws_expected_skipped_leds :: "int option"
  ws_controls :: WLEDControlSettings

section \<open>The service\<close>

datatype WLEDControlAvailability =
  WV_AUTHENTICATION_UNAVAILABLE | WV_WLED_UNAVAILABLE | WV_CONTROLS_DISABLED | WV_NO_OPERATIONS
  | WV_AVAILABLE

datatype WLEDControlStatus =
  WS_VERIFIED | WS_DENIED | WS_RATE_LIMITED | WS_BUSY | WS_FAILED | WS_UNVERIFIED

record WLEDControlResult =
  wr_status :: WLEDControlStatus
  wr_reason :: AuditReason

text \<open>
  An adapter is its \<open>execute\<close> method; the first argument is the number of device calls made
  before, because what a device answers depends on when it is asked.
\<close>

type_synonym wled_executor = "nat \<Rightarrow> WLEDOperation \<Rightarrow> operation_input \<Rightarrow> AdapterResult option"

record wled_service =
  sv_settings :: WLEDSettings
  sv_authentication_enabled :: bool
  sv_contracts :: "OperationContract list"
  sv_limiter :: limiter
  sv_lock :: bool
  sv_gate :: nat
  sv_adapter :: "wled_executor option"

text \<open>\<open>_ADAPTER_AUDIT_REASONS\<close> and \<open>_VERIFICATION_FAILURES\<close>.\<close>

fun wled_audit_reason :: "AdapterReason \<Rightarrow> AuditReason option" where
  "wled_audit_reason WA_VERIFIED = None"
| "wled_audit_reason WA_CONNECTION_FAILURE = Some AR_CONNECTION_FAILURE"
| "wled_audit_reason WA_TIMEOUT = Some AR_TIMEOUT"
| "wled_audit_reason WA_HTTP_REJECTION = Some AR_HTTP_REJECTION"
| "wled_audit_reason WA_REDIRECT_REJECTION = Some AR_REDIRECT_REJECTION"
| "wled_audit_reason WA_OVERSIZED_RESPONSE = Some AR_OVERSIZED_RESPONSE"
| "wled_audit_reason WA_MALFORMED_JSON = Some AR_MALFORMED_JSON"
| "wled_audit_reason WA_MISSING_EXPECTED_STATE = Some AR_MISSING_EXPECTED_STATE"
| "wled_audit_reason WA_STATE_VERIFICATION_MISMATCH = Some AR_STATE_VERIFICATION_MISMATCH"

definition wled_verification_failures :: "AdapterReason set" where
  "wled_verification_failures =
     {WA_MALFORMED_JSON, WA_MISSING_EXPECTED_STATE, WA_STATE_VERIFICATION_MISMATCH}"

text \<open>
  The constructor. The gate given to it, or a fresh one, is an identity in the store. \<open>None\<close>
  is any of the \<open>ValueError\<close>s of the registry, the limiter and the adapter.
\<close>

definition new_wled_service ::
  "(nat \<Rightarrow> network) \<Rightarrow> json_loads \<Rightarrow> WLEDSettings \<Rightarrow> bool \<Rightarrow> wled_executor option \<Rightarrow> bytes \<Rightarrow> nat \<Rightarrow>
     wled_service option" where
  "new_wled_service net loads settings auth adapter key gate =
     (case operation_registry (wc_timeout_seconds (ws_controls settings)) of
        Inl _ \<Rightarrow> None
      | Inr contracts \<Rightarrow>
          (case new_limiter (wc_operation_limit (ws_controls settings))
                 (of_int (wc_operation_window_seconds (ws_controls settings))) key
                 MAX_TRACKED_CLIENTS of
             None \<Rightarrow> None
           | Some l \<Rightarrow>
               map_option (\<lambda>a.
                 \<lparr>sv_settings = settings, sv_authentication_enabled = auth,
                  sv_contracts = contracts, sv_limiter = l, sv_lock = False, sv_gate = gate,
                  sv_adapter = a\<rparr>)
               (case adapter of
                  Some a \<Rightarrow> Some (Some a)
                | None \<Rightarrow>
                    (case ws_host settings of
                       None \<Rightarrow> Some None
                     | Some host \<Rightarrow>
                         map_option (\<lambda>a. Some (\<lambda>n. wled_execute (net n) loads a))
                           (new_wled_adapter host
                              (case ws_port settings of None \<Rightarrow> 80
                               | Some p \<Rightarrow> if p = 0 then 80 else p)
                              (wc_timeout_seconds (ws_controls settings)))))))"

definition wled_available_operations :: "wled_service \<Rightarrow> WLEDOperation list" where
  "wled_available_operations s =
     (if \<not> sv_authentication_enabled s \<or> \<not> ws_enabled (sv_settings s) \<or>
         ws_host (sv_settings s) = None \<or> \<not> wc_enabled (ws_controls (sv_settings s))
      then []
      else
        (let configured = set (wc_allowed_operations (ws_controls (sv_settings s)))
         in filter (\<lambda>x. x \<in> configured) (map oc_operation_id (sv_contracts s))))"

definition wled_availability :: "wled_service \<Rightarrow> WLEDControlAvailability" where
  "wled_availability s =
     (if \<not> sv_authentication_enabled s then WV_AUTHENTICATION_UNAVAILABLE
      else if \<not> ws_enabled (sv_settings s) \<or> ws_host (sv_settings s) = None
      then WV_WLED_UNAVAILABLE
      else if \<not> wc_enabled (ws_controls (sv_settings s)) then WV_CONTROLS_DISABLED
      else if wled_available_operations s = [] then WV_NO_OPERATIONS
      else WV_AVAILABLE)"

definition wled_maximum_brightness :: "wled_service \<Rightarrow> int" where
  "wled_maximum_brightness s = wc_maximum_brightness (ws_controls (sv_settings s))"

definition wled_tracked_client_count :: "seconds \<Rightarrow> wled_service \<Rightarrow> int \<times> wled_service" where
  "wled_tracked_client_count now s =
     (let (n, l) = tracked_client_count now (sv_limiter s) in (n, s\<lparr>sv_limiter := l\<rparr>))"

definition wled_capabilities :: "wled_service \<Rightarrow> ControlCapabilities" where
  "wled_capabilities s =
     (let operations = map wled_operation_value (wled_available_operations s)
      in control_capabilities (operations \<noteq> []) operations)"

section \<open>Denials\<close>

definition wled_audit_denied :: "WLEDOperation \<Rightarrow> AuditReason \<Rightarrow> control_world \<Rightarrow> control_world" where
  "wled_audit_denied operation reason w =
     audit_operation WLED_OPERATION_DENIED reason (Op_WLED operation) w"

definition wled_deny ::
  "WLEDOperation \<Rightarrow> AuditReason \<Rightarrow> control_world \<Rightarrow> WLEDControlResult \<times> control_world" where
  "wled_deny operation reason w =
     (\<lparr>wr_status = WS_DENIED, wr_reason = reason\<rparr>, wled_audit_denied operation reason w)"

definition wled_confirmation_denied ::
  "WLEDOperation \<Rightarrow> AuditReason \<Rightarrow> control_world \<Rightarrow> WLEDControlResult \<times> control_world" where
  "wled_confirmation_denied operation reason w =
     (\<lparr>wr_status = WS_DENIED, wr_reason = reason\<rparr>,
      audit_operation WLED_CONFIRMATION_REJECTED reason (Op_WLED operation) w)"

definition wled_authentication_failure ::
  "wled_service \<Rightarrow> WLEDOperation \<Rightarrow> SessionContext option \<Rightarrow> string option \<Rightarrow> control_world \<Rightarrow>
     (WLEDControlResult \<times> control_world) option" where
  "wled_authentication_failure s operation session submitted_csrf w =
     (case (if sv_authentication_enabled s then session else None) of
        None \<Rightarrow> Some (wled_deny operation AR_AUTHENTICATION_REQUIRED w)
      | Some opened \<Rightarrow>
          (case submitted_csrf of
             None \<Rightarrow> Some (wled_deny operation AR_MISSING_CSRF (audit CSRF_REJECTED AR_MISSING_CSRF w))
           | Some csrf \<Rightarrow>
               if \<not> csrf_is_valid opened csrf
               then Some (wled_deny operation AR_INVALID_CSRF (audit CSRF_REJECTED AR_INVALID_CSRF w))
               else None))"

section \<open>Execution\<close>

text \<open>The checks of \<open>_execute\<close> in front of the limiter: the denial, or \<open>None\<close> to go on.\<close>

definition wled_guards ::
  "wled_service \<Rightarrow> WLEDOperation \<Rightarrow> operation_input \<Rightarrow> SessionContext option \<Rightarrow> string option \<Rightarrow>
     string option \<Rightarrow> control_world \<Rightarrow> (WLEDControlResult \<times> control_world) option" where
  "wled_guards s operation inp session submitted_csrf confirmation w =
     (case wled_authentication_failure s operation session submitted_csrf w of
        Some failure \<Rightarrow> Some failure
      | None \<Rightarrow>
          if wled_availability s \<in>
               {WV_AUTHENTICATION_UNAVAILABLE, WV_WLED_UNAVAILABLE, WV_CONTROLS_DISABLED}
          then Some (wled_deny operation AR_CONTROLS_DISABLED w)
          else if operation \<notin> set (wled_available_operations s)
          then Some (wled_deny operation AR_OPERATION_NOT_ALLOWLISTED w)
          else if operation = POWER_OFF \<and> confirmation = None
          then Some (wled_confirmation_denied operation AR_MISSING_CONFIRMATION w)
          else if operation = POWER_OFF \<and> confirmation \<noteq> Some POWER_OFF_CONFIRMATION_VALUE
          then Some (wled_confirmation_denied operation AR_INVALID_CONFIRMATION w)
          else if (case inp of NoOperationInput \<Rightarrow> False
                   | BrightnessInput n \<Rightarrow> wled_maximum_brightness s < n)
          then Some (wled_deny operation AR_INVALID_BRIGHTNESS w)
          else None)"

text \<open>
  The inner \<open>try\<close> blocks, with the gate held: an early result, or what the adapter returned.
  The operation lock is released on both ways out.
\<close>

definition wled_exclusive ::
  "WLEDOperation \<Rightarrow> operation_input \<Rightarrow> wled_service \<times> control_world \<Rightarrow>
     (WLEDControlResult + AdapterResult) \<times> (wled_service \<times> control_world)" where
  "wled_exclusive operation inp = (\<lambda>(s, w).
     if sv_lock s then
       (Inl \<lparr>wr_status = WS_BUSY, wr_reason = AR_OPERATION_IN_PROGRESS\<rparr>,
        (s, audit_operation WLED_OPERATION_BUSY AR_OPERATION_IN_PROGRESS (Op_WLED operation) w))
     else
       (let locked = s\<lparr>sv_lock := True\<rparr>
        in case sv_adapter locked of
             None \<Rightarrow>
               (let (r, w1) = wled_deny operation AR_CONTROLS_DISABLED w
                in (Inl r, (locked\<lparr>sv_lock := False\<rparr>, w1)))
           | Some execute \<Rightarrow>
               (let result =
                  (case execute (length (device_calls w)) operation inp of
                     None \<Rightarrow> \<lparr>ar_verified = False, ar_reason = WA_CONNECTION_FAILURE\<rparr>
                   | Some r \<Rightarrow> r)
                in (Inr result,
                    (locked\<lparr>sv_lock := False\<rparr>,
                     record_call (WLED_Call operation inp) (ar_verified result) w)))))"

text \<open>The end of \<open>_execute\<close>, after the locks are released.\<close>

definition wled_conclude ::
  "control_env \<Rightarrow> WLEDOperation \<Rightarrow> AdapterResult \<Rightarrow> control_world \<Rightarrow>
     WLEDControlResult option \<times> control_world" where
  "wled_conclude env operation result w =
     (if ar_verified result then
        (let w1 = audit_operation WLED_OPERATION_SUCCEEDED AR_VERIFIED (Op_WLED operation) w;
             (returned, w2) = invalidate_cache env w1
         in (if returned then Some \<lparr>wr_status = WS_VERIFIED, wr_reason = AR_VERIFIED\<rparr> else None, w2))
      else
        (let reason =
           (case wled_audit_reason (ar_reason result) of None \<Rightarrow> AR_CONNECTION_FAILURE | Some r \<Rightarrow> r)
         in if ar_reason result \<in> wled_verification_failures
            then (Some \<lparr>wr_status = WS_UNVERIFIED, wr_reason = reason\<rparr>,
                  audit_operation WLED_STATE_VERIFICATION_FAILED reason (Op_WLED operation) w)
            else (Some \<lparr>wr_status = WS_FAILED, wr_reason = reason\<rparr>,
                  audit_operation WLED_OPERATION_FAILED reason (Op_WLED operation) w)))"

definition wled_run ::
  "control_env \<Rightarrow> nat \<Rightarrow> WLEDOperation \<Rightarrow> operation_input \<Rightarrow> SessionContext option \<Rightarrow>
     string option \<Rightarrow> string \<Rightarrow> string option \<Rightarrow> wled_service \<times> control_world \<Rightarrow>
     WLEDControlResult option \<times> (wled_service \<times> control_world)" where
  "wled_run env thread operation inp session submitted_csrf client confirmation = (\<lambda>(s, w).
     case wled_guards s operation inp session submitted_csrf confirmation w of
       Some (denied, w1) \<Rightarrow> (Some denied, (s, w1))
     | None \<Rightarrow>
         let (now, w1) = read_clock env w;
             (accepted, l) = begin_attempt (env_blake env) now client (sv_limiter s);
             s1 = s\<lparr>sv_limiter := l\<rparr>
         in if \<not> accepted then
              (Some \<lparr>wr_status = WS_RATE_LIMITED, wr_reason = AR_OPERATION_LIMIT\<rparr>,
               (s1, audit_operation WLED_OPERATION_RATE_LIMITED AR_OPERATION_LIMIT
                      (Op_WLED operation) w1))
            else
              let (acquired, w2) = acquire_gate thread (sv_gate s1) w1
              in if \<not> acquired then
                   (Some \<lparr>wr_status = WS_BUSY, wr_reason = AR_OPERATION_IN_PROGRESS\<rparr>,
                    (s1, audit_operation WLED_OPERATION_BUSY AR_OPERATION_IN_PROGRESS
                           (Op_WLED operation) w2))
                 else
                   let (outcome, (s2, w3)) = wled_exclusive operation inp (s1, w2)
                   in case release_gate thread (sv_gate s2) w3 of
                        None \<Rightarrow> (None, (s2, w3))
                      | Some w4 \<Rightarrow>
                          (case outcome of
                             Inl early \<Rightarrow> (Some early, (s2, w4))
                           | Inr result \<Rightarrow>
                               let (r, w5) = wled_conclude env operation result w4
                               in (r, (s2, w5))))"

section \<open>Entry points\<close>

definition power_on ::
  "control_env \<Rightarrow> nat \<Rightarrow> SessionContext option \<Rightarrow> string option \<Rightarrow> string \<Rightarrow>
     wled_service \<times> control_world \<Rightarrow> WLEDControlResult option \<times> (wled_service \<times> control_world)" where
  "power_on env thread session submitted_csrf client =
     wled_run env thread POWER_ON NoOperationInput session submitted_csrf client None"

definition power_off ::
  "control_env \<Rightarrow> nat \<Rightarrow> SessionContext option \<Rightarrow> string option \<Rightarrow> string option \<Rightarrow> string \<Rightarrow>
     wled_service \<times> control_world \<Rightarrow> WLEDControlResult option \<times> (wled_service \<times> control_world)" where
  "power_off env thread session submitted_csrf confirmation client =
     wled_run env thread POWER_OFF NoOperationInput session submitted_csrf client confirmation"

definition set_brightness ::
  "control_env \<Rightarrow> nat \<Rightarrow> SessionContext option \<Rightarrow> string option \<Rightarrow> py_int \<Rightarrow> string \<Rightarrow>
     wled_service \<times> control_world \<Rightarrow> WLEDControlResult option \<times> (wled_service \<times> control_world)" where
  "set_brightness env thread session submitted_csrf brightness client = (\<lambda>(s, w).
     case wled_authentication_failure s BRIGHTNESS_SET session submitted_csrf w of
       Some (denied, w1) \<Rightarrow> (Some denied, (s, w1))
     | None \<Rightarrow>
         (case brightness_input brightness of
            None \<Rightarrow>
              let (denied, w1) = wled_deny BRIGHTNESS_SET AR_INVALID_BRIGHTNESS w
              in (Some denied, (s, w1))
          | Some inp \<Rightarrow>
              wled_run env thread BRIGHTNESS_SET inp session submitted_csrf client None (s, w)))"

definition wled_request_security_failure ::
  "wled_service \<Rightarrow> WLEDOperation \<Rightarrow> SessionContext option \<Rightarrow> string option \<Rightarrow> control_world \<Rightarrow>
     (WLEDControlResult \<times> control_world) option" where
  "wled_request_security_failure s operation session submitted_csrf w =
     wled_authentication_failure s operation session submitted_csrf w"

section \<open>The critical section resolved\<close>

definition wled_ready :: "wled_service \<times> control_world \<Rightarrow> bool" where
  "wled_ready st \<longleftrightarrow>
     \<not> sv_lock (fst st) \<and> gate_wf (gates (snd st) (sv_gate (fst st))) \<and> limiter_inv (sv_limiter (fst st))"

definition adapter_outcome ::
  "wled_executor \<Rightarrow> WLEDOperation \<Rightarrow> operation_input \<Rightarrow> control_world \<Rightarrow> AdapterResult" where
  "adapter_outcome execute operation inp w =
     (case execute (length (device_calls w)) operation inp of
        None \<Rightarrow> \<lparr>ar_verified = False, ar_reason = WA_CONNECTION_FAILURE\<rparr> | Some r \<Rightarrow> r)"

text \<open>What happens once the limiter accepted: the gate and the operation lock cancel out.\<close>

definition wled_admitted_run ::
  "control_env \<Rightarrow> nat \<Rightarrow> WLEDOperation \<Rightarrow> operation_input \<Rightarrow> wled_service \<Rightarrow> control_world \<Rightarrow>
     WLEDControlResult option \<times> control_world" where
  "wled_admitted_run env thread operation inp s w =
     (if \<not> fst (gate_acquire thread (gates w (sv_gate s))) then
        (Some \<lparr>wr_status = WS_BUSY, wr_reason = AR_OPERATION_IN_PROGRESS\<rparr>,
         audit_operation WLED_OPERATION_BUSY AR_OPERATION_IN_PROGRESS (Op_WLED operation) w)
      else
        (case sv_adapter s of
           None \<Rightarrow> (Some \<lparr>wr_status = WS_DENIED, wr_reason = AR_CONTROLS_DISABLED\<rparr>,
                    wled_audit_denied operation AR_CONTROLS_DISABLED w)
         | Some execute \<Rightarrow>
             (let result = adapter_outcome execute operation inp w
              in wled_conclude env operation result
                   (record_call (WLED_Call operation inp) (ar_verified result) w))))"

lemma wled_run_eq:
  assumes "wled_ready (s, w)"
  shows "wled_run env thread operation inp session csrf client confirmation (s, w) =
    (case wled_guards s operation inp session csrf confirmation w of
       Some (denied, w1) \<Rightarrow> (Some denied, (s, w1))
     | None \<Rightarrow>
         let w1 = snd (read_clock env w);
             attempt = begin_attempt (env_blake env) (env_clock env (clock_reads w)) client (sv_limiter s);
             s1 = s\<lparr>sv_limiter := snd attempt\<rparr>
         in if \<not> fst attempt then
              (Some \<lparr>wr_status = WS_RATE_LIMITED, wr_reason = AR_OPERATION_LIMIT\<rparr>,
               (s1, audit_operation WLED_OPERATION_RATE_LIMITED AR_OPERATION_LIMIT (Op_WLED operation) w1))
            else (fst (wled_admitted_run env thread operation inp s w1),
                  (s1, snd (wled_admitted_run env thread operation inp s w1))))"
proof (cases "wled_guards s operation inp session csrf confirmation w")
  case (Some d)
  then show ?thesis by (simp add: wled_run_def split: prod.split)
next
  case None
  let ?w1 = "snd (read_clock env w)"
  let ?attempt = "begin_attempt (env_blake env) (env_clock env (clock_reads w)) client (sv_limiter s)"
  have wf: "gate_wf (gates ?w1 (sv_gate s))" and lock: "\<not> sv_lock s"
    using assms by (simp_all add: wled_ready_def frame_simps)
  have run: "wled_run env thread operation inp session csrf client confirmation (s, w) =
      (let s1 = s\<lparr>sv_limiter := snd ?attempt\<rparr> in
       if \<not> fst ?attempt then
         (Some \<lparr>wr_status = WS_RATE_LIMITED, wr_reason = AR_OPERATION_LIMIT\<rparr>,
          (s1, audit_operation WLED_OPERATION_RATE_LIMITED AR_OPERATION_LIMIT (Op_WLED operation) ?w1))
       else if \<not> fst (gate_acquire thread (gates ?w1 (sv_gate s))) then
         (Some \<lparr>wr_status = WS_BUSY, wr_reason = AR_OPERATION_IN_PROGRESS\<rparr>,
          (s1, audit_operation WLED_OPERATION_BUSY AR_OPERATION_IN_PROGRESS (Op_WLED operation)
             (snd (acquire_gate thread (sv_gate s) ?w1))))
       else
         let (outcome, (s2, w3)) = wled_exclusive operation inp (s1, snd (acquire_gate thread (sv_gate s) ?w1))
         in case release_gate thread (sv_gate s2) w3 of
              None \<Rightarrow> (None, (s2, w3))
            | Some w4 \<Rightarrow>
                (case outcome of
                   Inl early \<Rightarrow> (Some early, (s2, w4))
                 | Inr result \<Rightarrow>
                     let (r, w5) = wled_conclude env operation result w4 in (r, (s2, w5))))"
    by (simp add: wled_run_def None case_prod_beta Let_def frame_simps)
  show ?thesis
  proof (cases "fst ?attempt \<and> fst (gate_acquire thread (gates ?w1 (sv_gate s)))")
    case False
    then show ?thesis
      by (auto simp: run None Let_def wled_admitted_run_def failed_acquire_world)
  next
    case True
    note release = release_restores [OF wf conjunct2 [OF True]]
    show ?thesis
    proof (cases "sv_adapter s")
      case None': None
      show ?thesis using True lock
        by (simp add: run None None' Let_def wled_admitted_run_def wled_exclusive_def wled_deny_def
            wled_audit_denied_def release frame_simps audit_operation_acquired)
    next
      case (Some execute)
      show ?thesis using True lock
        by (simp add: run None Some Let_def wled_admitted_run_def wled_exclusive_def release
            frame_simps record_call_acquired adapter_outcome_def case_prod_beta)
    qed
  qed
qed

section \<open>Requests\<close>

text \<open>The three mutations that the server asks for, with what comes from the browser.\<close>

datatype wled_request =
    Request_Power_On "SessionContext option" "string option" string
  | Request_Power_Off "SessionContext option" "string option" "string option" string
  | Request_Brightness "SessionContext option" "string option" py_int string

fun wled_serve ::
  "control_env \<Rightarrow> nat \<Rightarrow> wled_request \<Rightarrow> wled_service \<times> control_world \<Rightarrow>
     WLEDControlResult option \<times> (wled_service \<times> control_world)" where
  "wled_serve env thread (Request_Power_On session csrf client) st =
     power_on env thread session csrf client st"
| "wled_serve env thread (Request_Power_Off session csrf confirmation client) st =
     power_off env thread session csrf confirmation client st"
| "wled_serve env thread (Request_Brightness session csrf brightness client) st =
     set_brightness env thread session csrf brightness client st"

primrec wled_request_session :: "wled_request \<Rightarrow> SessionContext option" where
  "wled_request_session (Request_Power_On session csrf client) = session"
| "wled_request_session (Request_Power_Off session csrf confirmation client) = session"
| "wled_request_session (Request_Brightness session csrf brightness client) = session"

primrec wled_request_csrf :: "wled_request \<Rightarrow> string option" where
  "wled_request_csrf (Request_Power_On session csrf client) = csrf"
| "wled_request_csrf (Request_Power_Off session csrf confirmation client) = csrf"
| "wled_request_csrf (Request_Brightness session csrf brightness client) = csrf"

primrec wled_request_client :: "wled_request \<Rightarrow> string" where
  "wled_request_client (Request_Power_On session csrf client) = client"
| "wled_request_client (Request_Power_Off session csrf confirmation client) = client"
| "wled_request_client (Request_Brightness session csrf brightness client) = client"

primrec wled_request_operation :: "wled_request \<Rightarrow> WLEDOperation" where
  "wled_request_operation (Request_Power_On session csrf client) = POWER_ON"
| "wled_request_operation (Request_Power_Off session csrf confirmation client) = POWER_OFF"
| "wled_request_operation (Request_Brightness session csrf brightness client) = BRIGHTNESS_SET"

primrec wled_request_call :: "wled_request \<Rightarrow> device_call" where
  "wled_request_call (Request_Power_On session csrf client) = WLED_Call POWER_ON NoOperationInput"
| "wled_request_call (Request_Power_Off session csrf confirmation client) =
     WLED_Call POWER_OFF NoOperationInput"
| "wled_request_call (Request_Brightness session csrf brightness client) =
     WLED_Call BRIGHTNESS_SET
       (case brightness of Py_Int n \<Rightarrow> BrightnessInput n | Py_Bool _ \<Rightarrow> NoOperationInput)"

section \<open>The authorisation policy\<close>

text \<open>
  What has to hold of the configuration and of a request before a device may be called,
  stated on its own, without the order in which the code checks it.
\<close>

definition wled_permitted :: "wled_service \<Rightarrow> WLEDOperation \<Rightarrow> bool" where
  "wled_permitted s operation \<longleftrightarrow>
     sv_authentication_enabled s \<and> ws_enabled (sv_settings s) \<and> ws_host (sv_settings s) \<noteq> None \<and>
     wc_enabled (ws_controls (sv_settings s)) \<and>
     operation \<in> set (wc_allowed_operations (ws_controls (sv_settings s))) \<and>
     operation \<in> set (map oc_operation_id (sv_contracts s))"

fun wled_request_input_ok :: "int \<Rightarrow> wled_request \<Rightarrow> bool" where
  "wled_request_input_ok maximum (Request_Power_On session csrf client) = True"
| "wled_request_input_ok maximum (Request_Power_Off session csrf confirmation client) =
     (confirmation = Some POWER_OFF_CONFIRMATION_VALUE)"
| "wled_request_input_ok maximum (Request_Brightness session csrf brightness client) =
     (case brightness of Py_Int n \<Rightarrow> 1 \<le> n \<and> n \<le> 255 \<and> n \<le> maximum | Py_Bool _ \<Rightarrow> False)"

definition wled_authorised :: "wled_service \<Rightarrow> wled_request \<Rightarrow> bool" where
  "wled_authorised s q \<longleftrightarrow>
     wled_permitted s (wled_request_operation q) \<and>
     csrf_matches (wled_request_session q) (wled_request_csrf q) \<and>
     wled_request_input_ok (wled_maximum_brightness s) q"

lemma wled_authentication_failure_None:
  "wled_authentication_failure s operation session csrf w = None \<longleftrightarrow>
     sv_authentication_enabled s \<and> csrf_matches session csrf"
  by (auto simp: wled_authentication_failure_def csrf_matches_def split: option.split if_splits)

lemma wled_available_iff: "operation \<in> set (wled_available_operations s) \<longleftrightarrow> wled_permitted s operation"
  by (auto simp: wled_available_operations_def wled_permitted_def Let_def)

lemma wled_permitted_available: "wled_permitted s operation \<Longrightarrow> wled_availability s = WV_AVAILABLE"
  using wled_available_iff [of operation s]
  by (auto simp: wled_availability_def wled_permitted_def)

lemma wled_guards_None:
  "wled_guards s operation inp session csrf confirmation w = None \<longleftrightarrow>
     wled_permitted s operation \<and> csrf_matches session csrf \<and>
     (operation = POWER_OFF \<longrightarrow> confirmation = Some POWER_OFF_CONFIRMATION_VALUE) \<and>
     (\<forall>n. inp = BrightnessInput n \<longrightarrow> n \<le> wled_maximum_brightness s)"
proof (cases "wled_authentication_failure s operation session csrf w")
  case (Some d)
  then show ?thesis using wled_authentication_failure_None [of s operation session csrf w]
    by (auto simp: wled_guards_def wled_permitted_def)
next
  case None
  then have auth: "csrf_matches session csrf"
    by (simp add: wled_authentication_failure_None)
  show ?thesis
  proof (cases "wled_permitted s operation")
    case True
    then show ?thesis using auth wled_permitted_available [OF True]
      by (cases inp) (auto simp: wled_guards_def None wled_available_iff)
  next
    case False
    then show ?thesis by (simp add: wled_guards_def None wled_available_iff)
  qed
qed

text \<open>
  The audit records that belong to a result: the event of its status and its reason, for the operation,
  after a record of the CSRF rejection if that was the reason. A request without a result had its
  success recorded before the cache invalidator raised.
\<close>

definition wled_result_event :: "WLEDControlResult \<Rightarrow> AuditEvent" where
  "wled_result_event r =
     (case wr_status r of
        WS_VERIFIED \<Rightarrow> WLED_OPERATION_SUCCEEDED
      | WS_DENIED \<Rightarrow>
          if wr_reason r \<in> {AR_MISSING_CONFIRMATION, AR_INVALID_CONFIRMATION}
          then WLED_CONFIRMATION_REJECTED else WLED_OPERATION_DENIED
      | WS_RATE_LIMITED \<Rightarrow> WLED_OPERATION_RATE_LIMITED
      | WS_BUSY \<Rightarrow> WLED_OPERATION_BUSY
      | WS_FAILED \<Rightarrow> WLED_OPERATION_FAILED
      | WS_UNVERIFIED \<Rightarrow> WLED_STATE_VERIFICATION_FAILED)"

definition wled_result_records :: "WLEDOperation \<Rightarrow> WLEDControlResult option \<Rightarrow> audit_record list" where
  "wled_result_records operation result =
     (case result of
        None \<Rightarrow> [audit_operation_entry WLED_OPERATION_SUCCEEDED AR_VERIFIED (Op_WLED operation)]
      | Some r \<Rightarrow>
          (if wr_status r = WS_DENIED \<and> wr_reason r \<in> {AR_MISSING_CSRF, AR_INVALID_CSRF}
           then [audit_entry CSRF_REJECTED (wr_reason r)] else []) @
          [audit_operation_entry (wled_result_event r) (wr_reason r) (Op_WLED operation)])"

lemma wled_records_Some:
  "wled_result_records operation (Some r) =
     (if wr_status r = WS_DENIED \<and> wr_reason r \<in> {AR_MISSING_CSRF, AR_INVALID_CSRF}
      then [audit_entry CSRF_REJECTED (wr_reason r)] else []) @
     [audit_operation_entry (wled_result_event r) (wr_reason r) (Op_WLED operation)]"
  by (simp add: wled_result_records_def)

lemmas wled_record_simps = wled_result_records_def wled_result_event_def

text \<open>A denial leaves everything but the audit trail as it was.\<close>

definition wled_denied_to :: "WLEDOperation \<Rightarrow> control_world \<Rightarrow> WLEDControlResult \<Rightarrow> control_world \<Rightarrow> bool" where
  "wled_denied_to operation w r w' \<longleftrightarrow>
     wr_status r = WS_DENIED \<and> gates w' = gates w \<and> device_calls w' = device_calls w \<and>
     invalidations w' = invalidations w \<and> clock_reads w' = clock_reads w \<and>
     audit_trail w' = audit_trail w @ wled_result_records operation (Some r)"

lemma wled_deny_denied:
  "reason \<notin> {AR_MISSING_CSRF, AR_INVALID_CSRF, AR_MISSING_CONFIRMATION, AR_INVALID_CONFIRMATION} \<Longrightarrow>
     wled_denied_to operation w (fst (wled_deny operation reason w)) (snd (wled_deny operation reason w))"
  "csrf \<in> {AR_MISSING_CSRF, AR_INVALID_CSRF} \<Longrightarrow>
     wled_denied_to operation w (fst (wled_deny operation csrf (audit CSRF_REJECTED csrf w)))
       (snd (wled_deny operation csrf (audit CSRF_REJECTED csrf w)))"
  "confirmation \<in> {AR_MISSING_CONFIRMATION, AR_INVALID_CONFIRMATION} \<Longrightarrow>
     wled_denied_to operation w (fst (wled_confirmation_denied operation confirmation w))
       (snd (wled_confirmation_denied operation confirmation w))"
  by (auto simp: wled_denied_to_def wled_deny_def wled_audit_denied_def wled_confirmation_denied_def
      wled_record_simps frame_simps)

lemma wled_authentication_failure_Some:
  "wled_authentication_failure s operation session csrf w = Some d \<Longrightarrow>
     wled_denied_to operation w (fst d) (snd d)"
  by (auto simp: wled_authentication_failure_def wled_deny_denied split: option.splits if_splits)

lemma wled_guards_Some:
  "wled_guards s operation inp session csrf confirmation w = Some d \<Longrightarrow>
     wled_denied_to operation w (fst d) (snd d)"
  by (auto simp: wled_guards_def wled_deny_denied dest: wled_authentication_failure_Some split: option.splits if_splits)

section \<open>Serving a request\<close>

abbreviation wled_attempt ::
  "control_env \<Rightarrow> wled_request \<Rightarrow> wled_service \<Rightarrow> control_world \<Rightarrow> bool \<times> limiter" where
  "wled_attempt env q s w \<equiv>
     begin_attempt (env_blake env) (env_clock env (clock_reads w)) (wled_request_client q) (sv_limiter s)"

text \<open>The three ways a request is served: denied, rate limited, or admitted to the gate.\<close>

definition wled_served :: "control_env \<Rightarrow> nat \<Rightarrow> wled_request \<Rightarrow> wled_service \<Rightarrow> control_world \<Rightarrow> bool" where
  "wled_served env thread q s w \<longleftrightarrow>
     (if \<not> wled_authorised s q then
        \<exists>d. wled_serve env thread q (s, w) = (Some (fst d), (s, snd d)) \<and>
          wled_denied_to (wled_request_operation q) w (fst d) (snd d)
      else if \<not> fst (wled_attempt env q s w) then
        wled_serve env thread q (s, w) =
          (Some \<lparr>wr_status = WS_RATE_LIMITED, wr_reason = AR_OPERATION_LIMIT\<rparr>,
           (s\<lparr>sv_limiter := snd (wled_attempt env q s w)\<rparr>,
            audit_operation WLED_OPERATION_RATE_LIMITED AR_OPERATION_LIMIT
              (Op_WLED (wled_request_operation q)) (snd (read_clock env w))))
      else
        \<exists>inp. wled_request_call q = WLED_Call (wled_request_operation q) inp \<and>
          wled_serve env thread q (s, w) =
            (let out = wled_admitted_run env thread (wled_request_operation q) inp s (snd (read_clock env w))
             in (fst out, (s\<lparr>sv_limiter := snd (wled_attempt env q s w)\<rparr>, snd out))))"

lemma wled_served_by_run:
  assumes ready: "wled_ready (s, w)"
    and run: "wled_serve env thread q (s, w) =
      wled_run env thread (wled_request_operation q) inp (wled_request_session q) (wled_request_csrf q)
        (wled_request_client q) confirmation (s, w)"
    and call: "wled_request_call q = WLED_Call (wled_request_operation q) inp"
    and auth: "wled_authorised s q \<longleftrightarrow>
      wled_guards s (wled_request_operation q) inp (wled_request_session q) (wled_request_csrf q)
        confirmation w = None"
  shows "wled_served env thread q s w"
proof (cases "wled_guards s (wled_request_operation q) inp (wled_request_session q)
    (wled_request_csrf q) confirmation w")
  case (Some d)
  then have "wled_serve env thread q (s, w) = (Some (fst d), (s, snd d))"
    by (simp add: run wled_run_eq [OF ready] split: prod.split)
  then show ?thesis using auth Some wled_guards_Some [OF Some]
    by (auto simp: wled_served_def)
next
  case None
  then show ?thesis using auth call
    by (auto simp: wled_served_def run wled_run_eq [OF ready] Let_def)
qed

lemma wled_serve_served:
  assumes ready: "wled_ready (s, w)"
  shows "wled_served env thread q s w"
proof (cases q)
  case (Request_Power_On session csrf client)
  show ?thesis
    by (rule wled_served_by_run [OF ready, where inp = NoOperationInput and confirmation = None])
      (auto simp: Request_Power_On power_on_def wled_guards_None wled_authorised_def)
next
  case (Request_Power_Off session csrf confirmation client)
  show ?thesis
    by (rule wled_served_by_run [OF ready, where inp = NoOperationInput and confirmation = confirmation])
      (auto simp: Request_Power_Off power_off_def wled_guards_None wled_authorised_def)
next
  case (Request_Brightness session csrf brightness client)
  show ?thesis
  proof (cases "wled_authentication_failure s BRIGHTNESS_SET session csrf w")
    case (Some d)
    then have "\<not> wled_authorised s q"
      using wled_authentication_failure_None [of s BRIGHTNESS_SET session csrf w]
      by (auto simp: wled_authorised_def wled_permitted_def Request_Brightness)
    moreover have "wled_serve env thread q (s, w) = (Some (fst d), (s, snd d))"
      using Some by (simp add: Request_Brightness set_brightness_def split: prod.split)
    ultimately show ?thesis using wled_authentication_failure_Some [OF Some]
      by (auto simp: wled_served_def Request_Brightness)
  next
    case None
    show ?thesis
    proof (cases "brightness_input brightness")
      case invalid: None
      let ?d = "wled_deny BRIGHTNESS_SET AR_INVALID_BRIGHTNESS w"
      have "\<not> wled_authorised s q" using invalid
        by (cases brightness) (auto simp: wled_authorised_def Request_Brightness brightness_input_def split: if_splits)
      moreover have "wled_serve env thread q (s, w) = (Some (fst ?d), (s, snd ?d))"
        using None invalid by (simp add: Request_Brightness set_brightness_def case_prod_beta)
      ultimately show ?thesis
        using wled_deny_denied(1) [of AR_INVALID_BRIGHTNESS BRIGHTNESS_SET w]
        by (auto simp: wled_served_def Request_Brightness simp del: split_paired_Ex intro!: exI [of _ ?d])
    next
      case (Some inp)
      then obtain n where n: "brightness = Py_Int n" "1 \<le> n" "n \<le> 255" "inp = BrightnessInput n"
        by (auto simp: brightness_input_Some)
      show ?thesis
        by (rule wled_served_by_run [OF ready, where inp = inp and confirmation = None])
          (use None Some n in \<open>auto simp: Request_Brightness set_brightness_def wled_guards_None wled_authorised_def\<close>)
    qed
  qed
qed

section \<open>The outcome of an admitted request\<close>

lemma wled_conclude_frame [frame_simps]:
  "gates (snd (wled_conclude env operation result w)) = gates w"
  "device_calls (snd (wled_conclude env operation result w)) = device_calls w"
  "clock_reads (snd (wled_conclude env operation result w)) = clock_reads w"
  by (simp_all add: wled_conclude_def Let_def case_prod_beta frame_simps)

lemma wled_conclude_verified:
  "(\<exists>r. fst (wled_conclude env operation result w) = Some r \<and> wr_status r = WS_VERIFIED) \<longleftrightarrow>
     ar_verified result \<and> env_invalidator env (invalidations w)"
  by (auto simp: wled_conclude_def Let_def case_prod_beta frame_simps)

lemma wled_conclude_invalidations:
  "invalidations (snd (wled_conclude env operation result w)) =
     (if ar_verified result then Suc (invalidations w) else invalidations w)"
  by (simp add: wled_conclude_def Let_def case_prod_beta frame_simps)

lemma wled_conclude_audit:
  "audit_trail (snd (wled_conclude env operation result w)) =
     audit_trail w @ wled_result_records operation (fst (wled_conclude env operation result w))"
  by (simp add: wled_conclude_def Let_def case_prod_beta wled_record_simps frame_simps)

lemma wled_admitted_frame [frame_simps]:
  "gates (snd (wled_admitted_run env thread operation inp s w)) = gates w"
  "clock_reads (snd (wled_admitted_run env thread operation inp s w)) = clock_reads w"
  by (simp_all add: wled_admitted_run_def wled_audit_denied_def Let_def frame_simps split: option.split)

text \<open>The device is called when the gate is free for the thread and there is an adapter.\<close>

definition may_call :: "nat \<Rightarrow> wled_service \<Rightarrow> control_world \<Rightarrow> bool" where
  "may_call thread s w \<longleftrightarrow>
     (owner (gates w (sv_gate s)) = None \<or> owner (gates w (sv_gate s)) = Some thread) \<and>
     sv_adapter s \<noteq> None"

lemma wled_admitted_calls:
  "device_calls (snd (wled_admitted_run env thread operation inp s w)) =
     device_calls w @
       (if may_call thread s w
        then [(WLED_Call operation inp, ar_verified (adapter_outcome (the (sv_adapter s)) operation inp w))]
        else [])"
  by (auto simp: wled_admitted_run_def may_call_def gate_acquire_iff wled_audit_denied_def Let_def frame_simps
      split: option.split)

lemma wled_admitted_verified:
  "(\<exists>r. fst (wled_admitted_run env thread operation inp s w) = Some r \<and> wr_status r = WS_VERIFIED) \<longleftrightarrow>
     may_call thread s w \<and> ar_verified (adapter_outcome (the (sv_adapter s)) operation inp w) \<and>
     env_invalidator env (invalidations w)"
  by (auto simp: wled_admitted_run_def may_call_def gate_acquire_iff Let_def wled_conclude_verified frame_simps
      split: option.split)

lemma wled_admitted_heard:
  "heard (env_invalidator env) w (snd (wled_admitted_run env thread operation inp s w))
    (if \<exists>r. fst (wled_admitted_run env thread operation inp s w) = Some r \<and> wr_status r = WS_VERIFIED
     then [WLED_Call operation inp] else [])"
proof -
  have "invalidations (snd (wled_admitted_run env thread operation inp s w)) =
      (if may_call thread s w \<and> ar_verified (adapter_outcome (the (sv_adapter s)) operation inp w)
       then Suc (invalidations w) else invalidations w)"
    by (auto simp: wled_admitted_run_def may_call_def gate_acquire_iff wled_audit_denied_def Let_def frame_simps
        wled_conclude_invalidations split: option.split)
  then show ?thesis
    by (simp add: heard_def wled_admitted_calls wled_admitted_verified)
qed

lemma wled_admitted_audit:
  "audit_trail (snd (wled_admitted_run env thread operation inp s w)) =
     audit_trail w @ wled_result_records operation (fst (wled_admitted_run env thread operation inp s w))"
  by (simp add: wled_admitted_run_def wled_audit_denied_def wled_records_Some wled_conclude_audit
      Let_def frame_simps wled_result_event_def split: option.split)

section \<open>The contract holds\<close>

lemma wled_ready_limiter:
  "wled_ready (s, w) \<Longrightarrow> gates w' = gates w \<Longrightarrow>
    wled_ready (s\<lparr>sv_limiter := snd (begin_attempt blake now c (sv_limiter s))\<rparr>, w')"
  by (simp add: wled_ready_def limiter_inv_begin_attempt)

lemma wled_ready_frame: "wled_ready (s, w) \<Longrightarrow> gates w' = gates w \<Longrightarrow> wled_ready (s, w')"
  by (simp add: wled_ready_def)

lemma wled_serve_ready:
  assumes "wled_ready st"
  shows "wled_ready (snd (wled_serve env thread q st)) \<and>
    gates (snd (snd (wled_serve env thread q st))) = gates (snd st)"
proof -
  obtain s w where st: "st = (s, w)" by (cases st)
  then have ready: "wled_ready (s, w)" using assms by simp
  from wled_serve_served [OF this, of env thread q] show ?thesis
    using wled_ready_limiter [OF ready] wled_ready_frame [OF ready] unfolding st wled_served_def
    by (auto simp: Let_def frame_simps wled_denied_to_def split: if_splits)
qed

text \<open>Serving changes nothing in the service but its limiter.\<close>

lemma wled_serve_fields:
  assumes "wled_ready (s, w)"
  shows "\<exists>l. fst (snd (wled_serve env thread q (s, w))) = s\<lparr>sv_limiter := l\<rparr>"
proof -
  have "\<exists>l. s = s\<lparr>sv_limiter := l\<rparr>" by (rule exI [of _ "sv_limiter s"]) simp
  then show ?thesis using wled_serve_served [OF assms, of env thread q]
    by (auto simp: wled_served_def Let_def split: if_splits)
qed

lemma wled_serve_calls:
  assumes "wled_ready (s, w)"
  shows "\<exists>new. device_calls (snd (snd (wled_serve env thread q (s, w)))) = device_calls w @ new \<and>
    (new \<noteq> [] \<longleftrightarrow> wled_authorised s q \<and> fst (wled_attempt env q s w) \<and> may_call thread s w) \<and>
    one_call (wled_request_call q)
      (\<exists>r. fst (wled_serve env thread q (s, w)) = Some r \<and> wr_status r = WS_VERIFIED) new"
proof -
  let ?w1 = "snd (read_clock env w)"
  have may: "may_call thread s ?w1 \<longleftrightarrow> may_call thread s w" by (simp add: may_call_def frame_simps)
  from wled_serve_served [OF assms, of env thread q] consider
      (quiet) "\<not> (wled_authorised s q \<and> fst (wled_attempt env q s w))"
        "device_calls (snd (snd (wled_serve env thread q (s, w)))) = device_calls w"
        "\<nexists>r. fst (wled_serve env thread q (s, w)) = Some r \<and> wr_status r = WS_VERIFIED"
    | (admitted) inp where "wled_authorised s q" "fst (wled_attempt env q s w)"
        "wled_request_call q = WLED_Call (wled_request_operation q) inp"
        "wled_serve env thread q (s, w) =
          (let out = wled_admitted_run env thread (wled_request_operation q) inp s ?w1
           in (fst out, (s\<lparr>sv_limiter := snd (wled_attempt env q s w)\<rparr>, snd out)))"
    unfolding wled_served_def
    by (auto simp: wled_denied_to_def frame_simps split: if_splits)
  then show ?thesis
  proof cases
    case quiet
    then show ?thesis by (auto simp: one_call_def)
  next
    case (admitted inp)
    let ?op = "wled_request_operation q"
    let ?new = "if may_call thread s ?w1
        then [(WLED_Call ?op inp, ar_verified (adapter_outcome (the (sv_adapter s)) ?op inp ?w1))] else []"
    show ?thesis
    proof (intro exI [of _ ?new] conjI)
      show "device_calls (snd (snd (wled_serve env thread q (s, w)))) = device_calls w @ ?new"
        by (simp add: admitted(4) Let_def wled_admitted_calls frame_simps)
      show "?new \<noteq> [] \<longleftrightarrow> wled_authorised s q \<and> fst (wled_attempt env q s w) \<and> may_call thread s w"
        using admitted(1,2) may by simp
      show "one_call (wled_request_call q)
          (\<exists>r. fst (wled_serve env thread q (s, w)) = Some r \<and> wr_status r = WS_VERIFIED) ?new"
        using admitted(3) by (simp add: admitted(4) Let_def wled_admitted_verified one_call_def)
    qed
  qed
qed

lemma wled_serve_heard:
  assumes "wled_ready (s, w)"
  shows "heard (env_invalidator env) w (snd (snd (wled_serve env thread q (s, w))))
    (if \<exists>r. fst (wled_serve env thread q (s, w)) = Some r \<and> wr_status r = WS_VERIFIED
     then [wled_request_call q] else [])"
proof -
  let ?w1 = "snd (read_clock env w)"
  note served = wled_serve_served [OF assms, of env thread q]
  show ?thesis
  proof (cases "wled_authorised s q \<and> fst (wled_attempt env q s w)")
    case True
    then obtain inp where inp: "wled_request_call q = WLED_Call (wled_request_operation q) inp"
        "wled_serve env thread q (s, w) =
          (let out = wled_admitted_run env thread (wled_request_operation q) inp s ?w1
           in (fst out, (s\<lparr>sv_limiter := snd (wled_attempt env q s w)\<rparr>, snd out)))"
      using served by (auto simp: wled_served_def)
    show ?thesis
      using wled_admitted_heard [of env ?w1 thread "wled_request_operation q" inp s]
      by (simp only: inp Let_def fst_conv snd_conv heard_clock)
  next
    case False
    then show ?thesis using served
      by (auto simp: wled_served_def wled_denied_to_def frame_simps intro!: heard_nothing split: if_splits)
  qed
qed

lemma wled_serve_audit:
  assumes "wled_ready (s, w)"
  shows "audit_trail (snd (snd (wled_serve env thread q (s, w)))) =
    audit_trail w @ wled_result_records (wled_request_operation q) (fst (wled_serve env thread q (s, w)))"
  using wled_serve_served [OF assms, of env thread q]
  by (auto simp: wled_served_def wled_denied_to_def wled_admitted_audit wled_records_Some
      wled_result_event_def Let_def frame_simps split: if_splits)

text \<open>
  The device is called by an authorised, accepted request that finds the gate free. The result is
  \<open>VERIFIED\<close>, or there is none, exactly when that call was verified.
\<close>

lemma wled_serve_device:
  assumes "wled_ready (s, w)" "wled_authorised s q" "fst (wled_attempt env q s w)" "may_call thread s w"
  obtains inp where "wled_request_call q = WLED_Call (wled_request_operation q) inp"
    "device_calls (snd (snd (wled_serve env thread q (s, w)))) = device_calls w @ [(wled_request_call q,
       ar_verified (adapter_outcome (the (sv_adapter s)) (wled_request_operation q) inp (snd (read_clock env w))))]"
    "fst (wled_serve env thread q (s, w)) =
       fst (wled_admitted_run env thread (wled_request_operation q) inp s (snd (read_clock env w)))"
  using wled_serve_served [OF assms(1), of env thread q] assms(2-4)
  by (auto simp: wled_served_def wled_admitted_calls may_call_def Let_def frame_simps)

lemma wled_admitted_None:
  "fst (wled_admitted_run env thread operation inp s w) = None \<longleftrightarrow>
     may_call thread s w \<and> ar_verified (adapter_outcome (the (sv_adapter s)) operation inp w) \<and>
     \<not> env_invalidator env (invalidations w)"
  by (auto simp: wled_admitted_run_def wled_conclude_def may_call_def gate_acquire_iff Let_def case_prod_beta
      frame_simps split: option.split)

lemma wled_serve_returns:
  assumes "wled_ready (s, w)"
  shows "((\<exists>x. fst (wled_serve env thread q (s, w)) = Some x \<and> wr_status x = WS_VERIFIED) \<longleftrightarrow>
      device_calls (snd (snd (wled_serve env thread q (s, w)))) = device_calls w @ [(wled_request_call q, True)] \<and>
      env_invalidator env (invalidations w)) \<and>
    (fst (wled_serve env thread q (s, w)) = None \<longleftrightarrow>
      device_calls (snd (snd (wled_serve env thread q (s, w)))) = device_calls w @ [(wled_request_call q, True)] \<and>
      \<not> env_invalidator env (invalidations w))" (is "(?verified \<longleftrightarrow> _) \<and> _")
proof (cases "wled_authorised s q \<and> fst (wled_attempt env q s w) \<and> may_call thread s w")
  case True
  then obtain inp where "device_calls (snd (snd (wled_serve env thread q (s, w)))) = device_calls w @
      [(wled_request_call q, ar_verified (adapter_outcome (the (sv_adapter s)) (wled_request_operation q) inp
        (snd (read_clock env w))))]"
    "fst (wled_serve env thread q (s, w)) =
       fst (wled_admitted_run env thread (wled_request_operation q) inp s (snd (read_clock env w)))"
    using wled_serve_device [OF assms] by blast
  then show ?thesis using True
    by (simp add: wled_admitted_verified wled_admitted_None may_call_def frame_simps)
next
  case False
  then have "device_calls (snd (snd (wled_serve env thread q (s, w)))) = device_calls w" "\<not> ?verified"
    using wled_serve_calls [OF assms, of env thread q] by (auto simp: one_call_def split: if_splits)
  moreover have "fst (wled_serve env thread q (s, w)) \<noteq> None"
  proof
    assume "fst (wled_serve env thread q (s, w)) = None"
    then show False using wled_serve_served [OF assms, of env thread q] False
      by (auto simp: wled_served_def wled_admitted_None may_call_def Let_def frame_simps split: if_splits)
  qed
  ultimately show ?thesis by simp
qed

text \<open>A request is busy only when another thread holds the gate.\<close>

lemma wled_conclude_not_busy:
  "fst (wled_conclude env operation result w) = Some r \<Longrightarrow> wr_status r \<noteq> WS_BUSY"
  by (auto simp: wled_conclude_def Let_def case_prod_beta split: if_splits)

lemma wled_serve_busy:
  assumes "wled_ready (s, w)" and "fst (wled_serve env thread q (s, w)) = Some r"
    and "wr_status r = WS_BUSY"
  shows "owner (gates w (sv_gate s)) \<notin> {None, Some thread}"
proof -
  have "\<not> fst (gate_acquire thread (gates w (sv_gate s)))"
    using wled_serve_served [OF assms(1), of env thread q] assms(2,3) wled_conclude_not_busy
    by (auto simp: wled_served_def wled_denied_to_def wled_admitted_run_def Let_def frame_simps
        split: if_splits option.splits)
  then show ?thesis by (auto simp: gate_acquire_iff)
qed

interpretation wled_requests: device_service "wled_serve env thread" snd wled_ready wled_request_call
    "\<lambda>r. wr_status r = WS_VERIFIED" "env_invalidator env" for env thread
proof unfold_locales
  fix st q
  assume ready: "wled_ready st"
  obtain s w where st: "st = (s, w)" by (cases st)
  note ready' = ready [unfolded st]
  show "wled_ready (snd (wled_serve env thread q st))"
    and "gates (snd (snd (wled_serve env thread q st))) = gates (snd st)"
    using wled_serve_ready [OF ready] by simp_all
  show "\<exists>new. device_calls (snd (snd (wled_serve env thread q st))) = device_calls (snd st) @ new \<and>
      one_call (wled_request_call q)
        (\<exists>r. fst (wled_serve env thread q st) = Some r \<and> wr_status r = WS_VERIFIED) new"
    using wled_serve_calls [OF ready', of env thread q] unfolding st by auto
  show "\<exists>new. audit_trail (snd (snd (wled_serve env thread q st))) = audit_trail (snd st) @ new \<and>
      (fst (wled_serve env thread q st) \<noteq> None \<longrightarrow> new \<noteq> [])"
    using wled_serve_audit [OF ready', of env thread q] unfolding st
    by (auto simp: wled_result_records_def split: option.splits)
  show "heard (env_invalidator env) (snd st) (snd (snd (wled_serve env thread q st)))
      (if \<exists>r. fst (wled_serve env thread q st) = Some r \<and> wr_status r = WS_VERIFIED
       then [wled_request_call q] else [])"
    using wled_serve_heard [OF ready', of env thread q] unfolding st by simp
qed

section \<open>Requests over time\<close>

text \<open>
  A request as a timed event, with the thread that serves it and the environment at that time.
  The first result of \<open>wled_call_step\<close> is whether a
  device call was made, that of \<open>wled_admit_step\<close> whether the limiter was asked and accepted.
\<close>

definition wled_call_step ::
  "seconds \<Rightarrow> control_env \<times> nat \<times> wled_request \<Rightarrow> wled_service \<times> control_world \<Rightarrow>
     bool \<times> (wled_service \<times> control_world)" where
  "wled_call_step t = (\<lambda>(env, thread, q) st.
     let st' = snd (wled_serve (at_time t env) thread q st)
     in (length (device_calls (snd st)) < length (device_calls (snd st')), st'))"

definition wled_admit_step ::
  "seconds \<Rightarrow> control_env \<times> nat \<times> wled_request \<Rightarrow> wled_service \<times> control_world \<Rightarrow>
     bool \<times> (wled_service \<times> control_world)" where
  "wled_admit_step t = (\<lambda>(env, thread, q) st.
     (wled_authorised (fst st) q \<and> fst (wled_attempt (at_time t env) q (fst st) (snd st)),
      snd (wled_serve (at_time t env) thread q st)))"

lemma wled_serve_limiter:
  assumes "wled_ready (s, w)"
  shows "sv_limiter (fst (snd (wled_serve env thread q (s, w)))) =
    (if wled_authorised s q then snd (wled_attempt env q s w) else sv_limiter s)"
  using wled_serve_served [OF assms, of env thread q]
  by (auto simp: wled_served_def Let_def split: if_splits)

interpretation wled_window: window_counter wled_admit_step "\<lambda>_. True" wled_ready
    "\<lambda>st. global_attempts (sv_limiter (fst st))" "\<lambda>st. window_seconds (sv_limiter (fst st))"
    "\<lambda>st. global_attempt_limit (sv_limiter (fst st))"
proof unfold_locales
  fix st :: "wled_service \<times> control_world" and e :: "control_env \<times> nat \<times> wled_request" and t :: seconds
  assume ready: "wled_ready st"
  obtain s w where st: "st = (s, w)" by (cases st)
  obtain env thread q where e: "e = (env, thread, q)" by (cases e)
  have inv: "limiter_inv (sv_limiter s)" using ready by (simp add: wled_ready_def st)
  note limiter = wled_serve_limiter [OF ready [unfolded st], of "at_time t env" thread q]
  let ?l = "sv_limiter s" and ?st = "snd (wled_admit_step t e st)"
  let ?attempt = "limiter_step (env_blake env) t (Begin (wled_request_client q)) ?l"
  have step: "sv_limiter (fst ?st) = (if wled_authorised s q then snd ?attempt else ?l)"
    "fst (wled_admit_step t e st) \<longleftrightarrow> wled_authorised s q \<and> fst ?attempt"
    using limiter by (simp_all add: wled_admit_step_def e st at_time_def)
  note bounds = limiter_step_same_bounds [OF inv, of "env_blake env" t "Begin (wled_request_client q)"]
  show "wled_ready ?st"
    using wled_serve_ready [OF ready] by (simp add: wled_admit_step_def e)
  show "0 < window_seconds (sv_limiter (fst st)) \<and> 0 \<le> global_attempt_limit (sv_limiter (fst st))"
    using limiter_inv_global_pos [OF inv] limiter_invD(2) [OF inv] by (simp add: st)
  show "window_seconds (sv_limiter (fst ?st)) = window_seconds (sv_limiter (fst st)) \<and>
      global_attempt_limit (sv_limiter (fst ?st)) = global_attempt_limit (sv_limiter (fst st))"
    using bounds unfolding step by (simp add: st same_bounds_def)
  show "recent (t - window_seconds (sv_limiter (fst st))) (global_attempts (sv_limiter (fst ?st))) =
      recent (t - window_seconds (sv_limiter (fst st))) (global_attempts (sv_limiter (fst st))) @
      (if fst (wled_admit_step t e st) then [t] else [])"
    using global_live_step [OF inv, of t "env_blake env" "Begin (wled_request_client q)"]
    unfolding step by (simp add: st)
  show "int (length (recent (t - window_seconds (sv_limiter (fst st))) (global_attempts (sv_limiter (fst st)))))
      < global_attempt_limit (sv_limiter (fst st))" if "fst (wled_admit_step t e st)"
    using global_cap_step [OF inv, of "env_blake env" t "Begin (wled_request_client q)"] that
    unfolding step by (simp add: st)
qed

lemma wled_call_step_admitted:
  assumes "wled_ready st"
  shows "snd (wled_call_step t e st) = snd (wled_admit_step t e st)"
    and "fst (wled_call_step t e st) \<Longrightarrow> fst (wled_admit_step t e st)"
proof -
  obtain s w where st: "st = (s, w)" by (cases st)
  obtain env thread q where e: "e = (env, thread, q)" by (cases e)
  show "snd (wled_call_step t e st) = snd (wled_admit_step t e st)"
    by (simp add: wled_call_step_def wled_admit_step_def e Let_def)
  show "fst (wled_admit_step t e st)" if "fst (wled_call_step t e st)"
    using that wled_serve_calls [OF assms [unfolded st], of "at_time t env" thread q]
    by (auto simp: wled_call_step_def wled_admit_step_def e st Let_def)
qed

section \<open>Properties\<close>

lemma new_wled_service_fields:
  assumes "new_wled_service net loads settings auth adapter key i = Some s"
  shows "new_limiter (wc_operation_limit (ws_controls settings))
      (of_int (wc_operation_window_seconds (ws_controls settings))) key MAX_TRACKED_CLIENTS =
      Some (sv_limiter s)" "\<not> sv_lock s" "sv_gate s = i" "sv_settings s = settings"
    "sv_authentication_enabled s = auth"
    "map oc_operation_id (sv_contracts s) = [POWER_ON, POWER_OFF, BRIGHTNESS_SET]"
  using assms operation_registry_ids
  by (fastforce simp: new_wled_service_def split: sum.splits option.splits)+

text \<open>
  C2. A WLED request makes at most one device call, the one it asks for, and it makes it
  exactly when the configuration permits the operation, the session is present and its CSRF
  token matches, the confirmation or the brightness is in order, the limiter accepts the
  client and no other thread holds the shared gate. There is no other way to an adapter call.
\<close>

theorem wled_device_called_iff:
  assumes "wled_ready (s, w)"
  shows "\<exists>new. device_calls (snd (snd (wled_serve env thread q (s, w)))) = device_calls w @ new \<and>
    set (map fst new) \<subseteq> {wled_request_call q} \<and> length new \<le> 1 \<and>
    (new \<noteq> [] \<longleftrightarrow> wled_authorised s q \<and>
      fst (begin_attempt (env_blake env) (env_clock env (clock_reads w)) (wled_request_client q)
        (sv_limiter s)) \<and>
      owner (gates w (sv_gate s)) \<in> {None, Some thread} \<and> sv_adapter s \<noteq> None)"
proof -
  obtain new v where new: "device_calls (snd (snd (wled_serve env thread q (s, w)))) = device_calls w @ new"
      "new \<noteq> [] \<longleftrightarrow> wled_authorised s q \<and> fst (wled_attempt env q s w) \<and> may_call thread s w"
      "one_call (wled_request_call q) v new"
    using wled_serve_calls [OF assms, of env thread q] by blast
  have "set (map fst new) \<subseteq> {wled_request_call q}" "length new \<le> 1"
    using new(3) by (auto simp: one_call_def split: if_splits)
  then show ?thesis using new(1,2) by (auto simp: may_call_def)
qed

definition sample_wled_settings :: WLEDSettings where
  "sample_wled_settings =
     \<lparr>ws_enabled = True, ws_host = Some ''wled'', ws_port = None,
      ws_validation_timeout_seconds = 2, ws_expected_led_count = None,
      ws_expected_active_led_count = None, ws_expected_skipped_leds = None,
      ws_controls = \<lparr>wc_enabled = True, wc_allowed_operations = [POWER_ON, POWER_OFF, BRIGHTNESS_SET],
        wc_timeout_seconds = 2, wc_maximum_brightness = 100, wc_operation_limit = 1,
        wc_operation_window_seconds = 60\<rparr>\<rparr>"

definition sample_wled_executor :: wled_executor where
  "sample_wled_executor n operation inp = Some \<lparr>ar_verified = True, ar_reason = WA_VERIFIED\<rparr>"

definition sample_wled_service :: wled_service where
  "sample_wled_service =
     \<lparr>sv_settings = sample_wled_settings, sv_authentication_enabled = True,
      sv_contracts = projr (operation_registry 2), sv_limiter = sample_limiter, sv_lock = False,
      sv_gate = 0, sv_adapter = Some sample_wled_executor\<rparr>"

lemma sample_wled_ready: "wled_ready (sample_wled_service, sample_world)"
  by (simp add: wled_ready_def sample_wled_service_def sample_world_def sample_limiter_inv)

lemma sample_wled_authorised:
  "wled_authorised sample_wled_service (Request_Brightness sample_session (Some sample_token) (Py_Int 7) c)"
  using sample_tokens_valid [unfolded sample_tokens_def, simplified]
  by (simp add: wled_authorised_def wled_permitted_def csrf_matches_def csrf_is_valid_def sample_session_def
      sample_wled_service_def sample_wled_settings_def operation_registry_cases wled_maximum_brightness_def
      sample_token_def)

theorem wled_device_called_iff_witness:
  "map fst (device_calls (snd (snd (wled_serve sample_env 3
     (Request_Brightness sample_session (Some sample_token) (Py_Int 7) ''client'')
     (sample_wled_service, sample_world))))) = [WLED_Call BRIGHTNESS_SET (BrightnessInput 7)]"
proof -
  let ?q = "Request_Brightness sample_session (Some sample_token) (Py_Int 7) ''client''"
  obtain new where new: "device_calls (snd (snd (wled_serve sample_env 3 ?q (sample_wled_service, sample_world)))) =
      device_calls sample_world @ new" "set (map fst new) \<subseteq> {wled_request_call ?q}" "length new \<le> 1"
      "new \<noteq> []"
    using wled_device_called_iff [OF sample_wled_ready, of sample_env 3 ?q] sample_wled_authorised
      sample_attempt
    by (auto simp: sample_wled_service_def sample_world_def new_gate_def)
  then show ?thesis by (cases new) (auto simp: sample_world_def)
qed

text \<open>
  C32. Every WLED request leaves the gates and the operation lock as it found them, and adds to the
  audit trail exactly the records of its result: one record of the operation, with the event of the
  status and the reason of the result, preceded by one record of the CSRF rejection when that was the
  reason. \<open>VERIFIED\<close> is reported exactly when the one adapter call said so and the invalidation of
  the dashboard's cache after it returned; the request raises exactly when that invalidation did.
\<close>

theorem wled_result_honest:
  assumes "wled_ready (s, w)" and "wled_serve env thread q (s, w) = (r, (s', w'))"
  shows "gates w' = gates w \<and> \<not> sv_lock s' \<and>
    audit_trail w' = audit_trail w @ wled_result_records (wled_request_operation q) r \<and>
    ((\<exists>x. r = Some x \<and> wr_status x = WS_VERIFIED) \<longleftrightarrow>
       device_calls w' = device_calls w @ [(wled_request_call q, True)] \<and>
       env_invalidator env (invalidations w)) \<and>
    (r = None \<longleftrightarrow>
       device_calls w' = device_calls w @ [(wled_request_call q, True)] \<and>
       \<not> env_invalidator env (invalidations w))"
  using wled_serve_ready [OF assms(1), of env thread q] wled_serve_audit [OF assms(1), of env thread q]
    wled_serve_returns [OF assms(1), of env thread q]
  by (simp add: assms(2) wled_ready_def)

theorem wled_result_honest_witness:
  "\<exists>r s' w'. wled_serve sample_env 3 (Request_Brightness sample_session (Some sample_token) (Py_Int 7) ''client'')
      (sample_wled_service, sample_world) = (r, (s', w')) \<and>
    (\<exists>x. r = Some x \<and> wr_status x = WS_VERIFIED) \<and>
    (\<exists>reason. audit_trail w' = [audit_operation_entry WLED_OPERATION_SUCCEEDED reason (Op_WLED BRIGHTNESS_SET)])"
proof -
  let ?q = "Request_Brightness sample_session (Some sample_token) (Py_Int 7) ''client''"
  obtain r s' w' where run: "wled_serve sample_env 3 ?q (sample_wled_service, sample_world) = (r, (s', w'))"
    by (metis prod_cases3)
  have "may_call 3 sample_wled_service sample_world"
    by (simp add: may_call_def sample_wled_service_def sample_world_def new_gate_def)
  then obtain inp where "device_calls w' = device_calls sample_world @ [(wled_request_call ?q,
      ar_verified (adapter_outcome (the (sv_adapter sample_wled_service)) BRIGHTNESS_SET inp
        (snd (read_clock sample_env sample_world))))]"
    using wled_serve_device [OF sample_wled_ready sample_wled_authorised] sample_attempt
    by (metis run sample_wled_service_def snd_conv wled_request_operation.simps(3) wled_service.select_convs(4))
  then have "device_calls w' = device_calls sample_world @ [(wled_request_call ?q, True)]"
    by (simp add: adapter_outcome_def sample_wled_service_def sample_wled_executor_def)
  then show ?thesis using wled_result_honest [OF sample_wled_ready run] run
    by (auto simp: sample_env_def sample_world_def wled_record_simps)
qed

text \<open>
  The rate limit reaches the device: in any interval of the configured window, the service
  makes at most sixteen times the configured limit of WLED calls, whatever requests arrive, on
  whichever threads, as long as the clock does not go back.
\<close>

theorem wled_calls_bounded:
  assumes "new_wled_service net loads settings auth adapter key i = Some s"
    and "gate_wf (gates w i)" and "sorted (map fst es)"
  shows "int (length (in_window a (of_int (wc_operation_window_seconds (ws_controls settings)))
      (map fst (counted wled_call_step es (s, w))))) \<le> wc_operation_limit (ws_controls settings) * 16"
proof -
  note fields = new_wled_service_fields [OF assms(1)]
  have ready: "wled_ready (s, w)"
    using fields(2,3) assms(2) limiter_inv_new [OF fields(1)] by (simp add: wled_ready_def)
  have "int (length (in_window a (window_seconds (sv_limiter s)) (map fst (counted wled_admit_step es (s, w)))))
      \<le> global_attempt_limit (sv_limiter s)"
    using wled_window.window_bound [OF ready _ assms(3), of a] new_limiter_fields(6) [OF fields(1)]
    by (simp add: list_all_iff)
  moreover have "length (in_window a v (map fst (counted wled_call_step es (s, w))))
      \<le> length (in_window a v (map fst (counted wled_admit_step es (s, w))))" for v
    by (rule counted_mono [where I = wled_ready])
      (use ready wled_window.step_inv wled_call_step_admitted in auto)
  ultimately show ?thesis
    using new_limiter_fields(2,7) [OF fields(1)] by (smt (verit) of_nat_mono)
qed

theorem wled_calls_bounded_witness:
  "\<exists>s. new_wled_service (\<lambda>_ _ _. Open_Raised OS_Error) sample_wled_loads sample_wled_settings True
      (Some sample_wled_executor) [1] 0 = Some s \<and>
    int (length (in_window 0 60 (map fst (counted wled_call_step
      [(1, (sample_env, 3, Request_Power_On sample_session (Some sample_token) ''client''))]
      (s, sample_world))))) \<le> 16"
proof -
  let ?new = "new_wled_service (\<lambda>_ _ _. Open_Raised OS_Error) sample_wled_loads sample_wled_settings True
      (Some sample_wled_executor) [1] 0"
  obtain s where s: "?new = Some s"
    by (simp add: new_wled_service_def sample_wled_settings_def operation_registry_cases new_limiter_def
        MAX_TRACKED_CLIENTS_def)
  from wled_calls_bounded [OF s, of sample_world
      "[(1, (sample_env, 3, Request_Power_On sample_session (Some sample_token) ''client''))]" 0]
  show ?thesis using s by (simp add: sample_world_def sample_wled_settings_def)
qed

end
