(* ===== verification/Hyperhdr_Info.thy ===== *)
theory Hyperhdr_Info
  imports Http_Transport
begin

text \<open>
  \<open>parse_hyperhdr_server_info\<close> of \<open>hardware/hyperhdr.py\<close>: reading the server information of
  HyperHDR into a sanitized record. The loop over the components keeps a dictionary of states
  and two sets, as in the code. \<open>str.upper\<close> on the names is a parameter.
\<close>

record HyperHDRServerInfo =
  server_info_received :: bool
  hdr_mode_enabled :: "bool option"
  instance_running :: "bool option"
  grabber_active :: "bool option"
  led_output_active :: "bool option"
  component_state_names :: "string set"
  ambiguous_component_states :: "string set"

record component_scan =
  scan_states :: "(string, bool) dict"
  scan_names :: "string set"
  scan_ambiguous :: "string set"

text \<open>Python's \<open>dict.get\<close>: a missing key and an explicit null both give \<open>None\<close>.\<close>

definition get_or_none :: "(string, json) dict \<Rightarrow> string \<Rightarrow> json" where
  "get_or_none d k = (case dict_get d k of None \<Rightarrow> JNull | Some v \<Rightarrow> v)"

fun json_bool :: "json \<Rightarrow> bool option" where
  "json_bool (JBool b) = Some b"
| "json_bool _ = None"

section \<open>The component loop\<close>

definition scan_entry :: "string \<Rightarrow> json \<Rightarrow> component_scan \<Rightarrow> component_scan" where
  "scan_entry name enabled s =
     (let s1 = s\<lparr>scan_names := insert name (scan_names s)\<rparr>;
          conflict = s1\<lparr>scan_ambiguous := insert name (scan_ambiguous s1),
                        scan_states := dict_del name (scan_states s1)\<rparr>
      in case enabled of
           JBool b \<Rightarrow>
             (let previous = dict_get (scan_states s1) name
              in if previous \<noteq> None \<and> previous \<noteq> Some b then conflict
                 else if name \<notin> scan_ambiguous s1
                 then s1\<lparr>scan_states := dict_set name b (scan_states s1)\<rparr>
                 else s1)
         | _ \<Rightarrow> conflict)"

fun scan_component :: "(string \<Rightarrow> string) \<Rightarrow> json \<Rightarrow> component_scan \<Rightarrow> component_scan" where
  "scan_component upper (JObject component) s =
     (case get_or_none component ''name'' of
        JString name \<Rightarrow> scan_entry (upper name) (get_or_none component ''enabled'') s
      | _ \<Rightarrow> s)"
| "scan_component upper _ s = s"

definition empty_scan :: component_scan where
  "empty_scan = \<lparr>scan_states = [], scan_names = {}, scan_ambiguous = {}\<rparr>"

definition scan_components :: "(string \<Rightarrow> string) \<Rightarrow> json list \<Rightarrow> component_scan" where
  "scan_components upper components = fold (scan_component upper) components empty_scan"

section \<open>The document\<close>

fun hdr_mode :: "json \<Rightarrow> bool option" where
  "hdr_mode (JBool b) = Some b"
| "hdr_mode (JInt n) = (if n \<in> {0, 1} then Some (n \<noteq> 0) else None)"
| "hdr_mode _ = None"

fun running_value :: "json \<Rightarrow> bool option" where
  "running_value (JObject inst) = json_bool (get_or_none inst ''running'')"
| "running_value _ = None"

definition running_instance :: "(string, json) dict \<Rightarrow> bool option" where
  "running_instance info =
     (let instances =
        (case get_or_none info ''instance'' of
           JList xs \<Rightarrow> JList xs
         | _ \<Rightarrow> get_or_none info ''instances'')
      in case instances of
           JList xs \<Rightarrow>
             (let running_values = List.map_filter running_value xs
              in if running_values \<noteq> [] then Some (list_ex id running_values) else None)
         | _ \<Rightarrow> None)"

definition server_info_of :: "(string \<Rightarrow> string) \<Rightarrow> (string, json) dict \<Rightarrow> HyperHDRServerInfo" where
  "server_info_of upper info =
     (let s = (case get_or_none info ''components'' of
                 JList components \<Rightarrow> scan_components upper components
               | _ \<Rightarrow> empty_scan);
          grabber = dict_get (scan_states s) ''VIDEOGRABBER''
      in \<lparr>server_info_received = True,
          hdr_mode_enabled = hdr_mode (get_or_none info ''videomodehdr''),
          instance_running = running_instance info,
          grabber_active =
            (if grabber = None then dict_get (scan_states s) ''GRABBER'' else grabber),
          led_output_active = dict_get (scan_states s) ''LEDDEVICE'',
          component_state_names = scan_names s,
          ambiguous_component_states = scan_ambiguous s\<rparr>)"

text \<open>A \<open>ValueError\<close> with its message (\<open>Inl (Some m)\<close>), another exception (\<open>Inl None\<close>), or
  the information.\<close>

definition parse_hyperhdr_server_info ::
  "(string \<Rightarrow> string) \<Rightarrow> json_loads \<Rightarrow> bytes \<Rightarrow> string option + HyperHDRServerInfo" where
  "parse_hyperhdr_server_info upper loads body =
     (case loads body of
        Loads_Raised \<Rightarrow> Inl None
      | Loads_Value_Error message \<Rightarrow> Inl (Some message)
      | Undecodable \<Rightarrow> Inl (Some ''invalid_json'')
      | Loaded (JObject payload) \<Rightarrow>
          (case get_or_none payload ''success'' of
             JBool False \<Rightarrow> Inl (Some ''server_reported_failure'')
           | JBool True \<Rightarrow>
               (let command = get_or_none payload ''command''
                in if command \<noteq> JNull \<and> command \<noteq> JString ''serverinfo''
                   then Inl (Some ''invalid_response'')
                   else
                     (case get_or_none payload ''info'' of
                        JObject info \<Rightarrow> Inr (server_info_of upper info)
                      | _ \<Rightarrow> Inl (Some ''invalid_response'')))
           | _ \<Rightarrow> Inl (Some ''invalid_response''))
      | Loaded _ \<Rightarrow> Inl (Some ''invalid_response''))"

section \<open>What the loop computes\<close>

text \<open>The entries with a name, as pairs of the normalized name and the boolean state, if any.\<close>

fun named_entry :: "(string \<Rightarrow> string) \<Rightarrow> json \<Rightarrow> (string \<times> bool option) option" where
  "named_entry upper (JObject component) =
     (case get_or_none component ''name'' of
        JString name \<Rightarrow> Some (upper name, json_bool (get_or_none component ''enabled''))
      | _ \<Rightarrow> None)"
| "named_entry upper _ = None"

definition states_named :: "(string \<Rightarrow> string) \<Rightarrow> string \<Rightarrow> json list \<Rightarrow> bool option list" where
  "states_named upper name components =
     map snd (filter (\<lambda>p. fst p = name) (List.map_filter (named_entry upper) components))"

definition conflicting :: "bool option list \<Rightarrow> bool" where
  "conflicting xs \<longleftrightarrow> list_ex (\<lambda>x. x = None \<or> x \<noteq> hd xs) xs"

text \<open>The view of one name that a scan holds.\<close>

definition scan_agrees :: "bool option list \<Rightarrow> string \<Rightarrow> component_scan \<Rightarrow> bool" where
  "scan_agrees xs name s \<longleftrightarrow>
     (name \<in> scan_names s \<longleftrightarrow> xs \<noteq> []) \<and>
     (name \<in> scan_ambiguous s \<longleftrightarrow> conflicting xs) \<and>
     dict_get (scan_states s) name = (if xs = [] \<or> conflicting xs then None else hd xs)"

lemma conflicting_snoc:
  "conflicting (xs @ [x]) \<longleftrightarrow> conflicting xs \<or> x = None \<or> (xs \<noteq> [] \<and> hd xs \<noteq> x)"
  by (cases xs) (auto simp: conflicting_def)

lemma conflicting_small [simp]: "\<not> conflicting []" "conflicting [x] \<longleftrightarrow> x = None"
  by (simp_all add: conflicting_def)

lemma scan_entry_agrees:
  assumes "scan_agrees xs n s"
  shows "scan_agrees (if m = n then xs @ [json_bool enabled] else xs) n (scan_entry m enabled s)"
proof (cases "m = n")
  case False
  then show ?thesis using assms
    by (cases enabled) (auto simp: scan_agrees_def scan_entry_def Let_def dict_simps)
next
  case True
  have "hd xs = x" if "x \<in> set xs" "\<not> conflicting xs" for x
    using that by (auto simp: conflicting_def list_ex_iff)
  moreover have "xs \<noteq> [] \<Longrightarrow> hd xs \<noteq> None" if "\<not> conflicting xs"
    using that by (cases xs) (auto simp: conflicting_def)
  ultimately show ?thesis using assms True
    by (cases enabled; cases "xs = []")
      (auto simp: scan_agrees_def scan_entry_def Let_def conflicting_snoc dict_simps
        split: if_splits option.splits)
qed

lemma scan_component_agrees:
  assumes "scan_agrees xs n s"
  shows "scan_agrees (xs @ states_named upper n [c]) n (scan_component upper c s)"
proof (cases "\<exists>component name. c = JObject component \<and> get_or_none component ''name'' = JString name")
  case True
  then obtain component name
    where c: "c = JObject component" "get_or_none component ''name'' = JString name" by blast
  show ?thesis
    using scan_entry_agrees [OF assms, of "upper name" "get_or_none component ''enabled''"]
    by (cases "upper name = n") (simp_all add: c states_named_def map_filter_def)
next
  case False
  then have "named_entry upper c = None" "scan_component upper c s = s"
    by (cases c; auto split: json.split)+
  then show ?thesis using assms by (simp add: states_named_def map_filter_def)
qed

lemma states_named_Cons:
  "states_named upper n (c # cs) = states_named upper n [c] @ states_named upper n cs"
  by (cases "named_entry upper c") (auto simp: states_named_def map_filter_def)

lemma fold_scan_agrees:
  "scan_agrees xs n s \<Longrightarrow>
    scan_agrees (xs @ states_named upper n cs) n (fold (scan_component upper) cs s)"
proof (induction cs arbitrary: xs s)
  case Nil
  then show ?case by (simp add: states_named_def map_filter_def)
next
  case (Cons c cs)
  have "scan_agrees (xs @ states_named upper n [c]) n (scan_component upper c s)"
    by (rule scan_component_agrees [OF Cons.prems])
  from Cons.IH [OF this] show ?case
    by (simp add: states_named_Cons [of upper n c cs])
qed

lemma scan_components_agrees:
  "scan_agrees (states_named upper n cs) n (scan_components upper cs)"
  using fold_scan_agrees [of "[]" n empty_scan upper cs]
  by (simp add: scan_components_def empty_scan_def scan_agrees_def conflicting_def)

text \<open>The entries of one component of an information object.\<close>

definition component_entries :: "(string \<Rightarrow> string) \<Rightarrow> string \<Rightarrow> (string, json) dict \<Rightarrow> bool option list" where
  "component_entries upper n info =
     (case get_or_none info ''components'' of JList cs \<Rightarrow> states_named upper n cs | _ \<Rightarrow> [])"

lemma server_info_scan:
  "\<exists>s. server_info_of upper info =
     \<lparr>server_info_received = True,
      hdr_mode_enabled = hdr_mode (get_or_none info ''videomodehdr''),
      instance_running = running_instance info,
      grabber_active = (if dict_get (scan_states s) ''VIDEOGRABBER'' = None
        then dict_get (scan_states s) ''GRABBER'' else dict_get (scan_states s) ''VIDEOGRABBER''),
      led_output_active = dict_get (scan_states s) ''LEDDEVICE'',
      component_state_names = scan_names s, ambiguous_component_states = scan_ambiguous s\<rparr>
   \<and> (\<forall>n. scan_agrees (component_entries upper n info) n s)"
proof (cases "get_or_none info ''components''")
  case (JList cs)
  then show ?thesis using scan_components_agrees [of upper _ cs]
    by (intro exI [of _ "scan_components upper cs"])
      (auto simp: server_info_of_def component_entries_def Let_def)
qed (auto intro!: exI [of _ empty_scan]
    simp: server_info_of_def component_entries_def empty_scan_def scan_agrees_def conflicting_def Let_def)

end
