(* ===== verification/Hyperhdr_Adapter.thy ===== *)
theory Hyperhdr_Adapter
  imports Contracts Hyperhdr_Info
begin

text \<open>
  \<open>control_plane/hyperhdr_adapter.py\<close>: one POST of a component-state command and, after its
  acknowledgement, one read of the server information that verifies the state. Reasons carry
  the prefix \<open>HA_\<close>; an exception that escapes \<open>execute\<close> is \<open>None\<close>.
\<close>

definition HYPERHDR_MUTATION_RESPONSE_BYTES :: nat where
  "HYPERHDR_MUTATION_RESPONSE_BYTES = 16 * 1024"

definition COMMAND :: string where
  "COMMAND = ''componentstate''"

datatype (plugins only: code size) HyperHDRAdapterReason =
    HA_VERIFIED
  | HA_CONNECTION_FAILURE
  | HA_TIMEOUT
  | HA_HTTP_REJECTION
  | HA_REDIRECT_REJECTION
  | HA_UNAUTHORIZED_RESPONSE
  | HA_OVERSIZED_RESPONSE
  | HA_MALFORMED_JSON
  | HA_NON_OBJECT_JSON
  | HA_MISSING_SUCCESS
  | HA_SUCCESS_WRONG_TYPE
  | HA_SUCCESS_FALSE
  | HA_MISMATCHED_COMMAND
  | HA_VERIFICATION_CONNECTION_FAILURE
  | HA_VERIFICATION_TIMEOUT
  | HA_VERIFICATION_HTTP_REJECTION
  | HA_VERIFICATION_REDIRECT_REJECTION
  | HA_VERIFICATION_UNAUTHORIZED_RESPONSE
  | HA_VERIFICATION_OVERSIZED_RESPONSE
  | HA_VERIFICATION_MALFORMED_RESPONSE
  | HA_MISSING_COMPONENT_STATE
  | HA_AMBIGUOUS_COMPONENT_STATE
  | HA_STATE_VERIFICATION_MISMATCH

record HyperHDRAdapterResult =
  hr_verified :: bool
  hr_acknowledged :: bool
  hr_reason :: HyperHDRAdapterReason

abbreviation hr_failed :: "bool \<Rightarrow> HyperHDRAdapterReason \<Rightarrow> HyperHDRAdapterResult" where
  "hr_failed acknowledged reason \<equiv>
     \<lparr>hr_verified = False, hr_acknowledged = acknowledged, hr_reason = reason\<rparr>"

section \<open>The mutation transport\<close>

definition json_rpc_url :: "string \<Rightarrow> int \<Rightarrow> string" where
  "json_rpc_url host port = ''http://'' @ bracketed host @ '':'' @ decimal_int port @ ''/json-rpc''"

definition hyperhdr_transport_failure :: "HyperHDRAdapterReason \<Rightarrow> HyperHDRAdapterReason option" where
  "hyperhdr_transport_failure reason =
     (if reason \<notin> {HA_CONNECTION_FAILURE, HA_TIMEOUT, HA_HTTP_REJECTION, HA_REDIRECT_REJECTION,
                    HA_UNAUTHORIZED_RESPONSE, HA_OVERSIZED_RESPONSE}
      then None else Some reason)"

definition component_request :: "string \<Rightarrow> int \<Rightarrow> bytes \<Rightarrow> http_request" where
  "component_request host port payload =
     \<lparr>req_url = json_rpc_url host port, req_data = Some payload,
      req_headers =
        [(''Accept'', ''application/json''), (''Content-Type'', ''application/json''),
         (''User-Agent'', ''Project-Aurora'')],
      req_method = ''POST''\<rparr>"

definition post_component_state ::
  "network \<Rightarrow> string \<Rightarrow> int \<Rightarrow> seconds \<Rightarrow> bytes \<Rightarrow> HyperHDRAdapterReason option + bytes" where
  "post_component_state net host port timeout payload =
     (case exchange net (component_request host port payload) timeout
             HYPERHDR_MUTATION_RESPONSE_BYTES of
        Bad_Status \<Rightarrow> Inl (hyperhdr_transport_failure HA_HTTP_REJECTION)
      | Raised Redirect_Requested \<Rightarrow> Inl (hyperhdr_transport_failure HA_REDIRECT_REJECTION)
      | Raised (HTTP_Error code) \<Rightarrow>
          (let reason =
             (if 300 \<le> code \<and> code < 400 then HA_REDIRECT_REJECTION
              else if code \<in> {401, 403} then HA_UNAUTHORIZED_RESPONSE
              else HA_HTTP_REJECTION)
           in Inl (hyperhdr_transport_failure reason))
      | Raised Timeout_Error \<Rightarrow> Inl (hyperhdr_transport_failure HA_TIMEOUT)
      | Raised (URL_Error timed_out) \<Rightarrow>
          (let reason = (if timed_out then HA_TIMEOUT else HA_CONNECTION_FAILURE)
           in Inl (hyperhdr_transport_failure reason))
      | Raised OS_Error \<Rightarrow> Inl (hyperhdr_transport_failure HA_CONNECTION_FAILURE)
      | Raised Other_Error \<Rightarrow> Inl None
      | Read body \<Rightarrow>
          if HYPERHDR_MUTATION_RESPONSE_BYTES < length body
          then Inl (hyperhdr_transport_failure HA_OVERSIZED_RESPONSE)
          else Inr body)"

section \<open>Acknowledgement\<close>

text \<open>
  \<open>Inl ()\<close> is an exception that escapes the decoding; otherwise the failure, or \<open>None\<close>.
\<close>

definition acknowledgement_failure ::
  "json_loads \<Rightarrow> bytes \<Rightarrow> unit + HyperHDRAdapterReason option" where
  "acknowledgement_failure loads body =
     (case loads body of
        Loads_Raised \<Rightarrow> Inl ()
      | Loads_Value_Error _ \<Rightarrow> Inl ()
      | Undecodable \<Rightarrow> Inr (Some HA_MALFORMED_JSON)
      | Loaded (JObject document) \<Rightarrow> Inr
          (case dict_get document ''success'' of
             None \<Rightarrow> Some HA_MISSING_SUCCESS
           | Some (JBool success) \<Rightarrow>
               if \<not> success then Some HA_SUCCESS_FALSE
               else if dict_get document ''command'' \<noteq> None \<and>
                 dict_get document ''command'' \<noteq> Some (JString COMMAND)
               then Some HA_MISMATCHED_COMMAND
               else None
           | Some _ \<Rightarrow> Some HA_SUCCESS_WRONG_TYPE)
      | Loaded _ \<Rightarrow> Inr (Some HA_NON_OBJECT_JSON))"

section \<open>The adapter\<close>

fun OPERATION_COMPONENT_STATE :: "HyperHDROperation \<Rightarrow> string \<times> bool" where
  "OPERATION_COMPONENT_STATE VIDEO_GRABBER_ENABLE = (''VIDEOGRABBER'', True)"
| "OPERATION_COMPONENT_STATE VIDEO_GRABBER_DISABLE = (''VIDEOGRABBER'', False)"
| "OPERATION_COMPONENT_STATE LED_OUTPUT_ENABLE = (''LEDDEVICE'', True)"
| "OPERATION_COMPONENT_STATE LED_OUTPUT_DISABLE = (''LEDDEVICE'', False)"

record hyperhdr_adapter =
  ha_host :: string
  ha_port :: int
  ha_timeout :: seconds

definition new_hyperhdr_adapter :: "string \<Rightarrow> int \<Rightarrow> seconds \<Rightarrow> hyperhdr_adapter option" where
  "new_hyperhdr_adapter host port timeout =
     (if host = [] \<or> \<not> (1 \<le> port \<and> port \<le> 65535) \<or> \<not> (1 / 10 \<le> timeout \<and> timeout \<le> 5)
      then None
      else Some \<lparr>ha_host = host, ha_port = port, ha_timeout = timeout\<rparr>)"

primrec verification_reason :: "HyperHDRTransportError \<Rightarrow> HyperHDRAdapterReason" where
  "verification_reason HDR_Timeout = HA_VERIFICATION_TIMEOUT"
| "verification_reason HDR_Redirect = HA_VERIFICATION_REDIRECT_REJECTION"
| "verification_reason HDR_Authorization = HA_VERIFICATION_UNAUTHORIZED_RESPONSE"
| "verification_reason HDR_Too_Large = HA_VERIFICATION_OVERSIZED_RESPONSE"
| "verification_reason HDR_HTTP = HA_VERIFICATION_HTTP_REJECTION"
| "verification_reason HDR_Connection = HA_VERIFICATION_CONNECTION_FAILURE"

definition judge_component ::
  "string \<Rightarrow> bool \<Rightarrow> HyperHDRServerInfo \<Rightarrow> HyperHDRAdapterResult" where
  "judge_component component requested info =
     (if component \<in> ambiguous_component_states info
      then hr_failed True HA_AMBIGUOUS_COMPONENT_STATE
      else if component \<notin> component_state_names info
      then hr_failed True HA_MISSING_COMPONENT_STATE
      else
        (case (if component = ''VIDEOGRABBER'' then grabber_active info
               else led_output_active info) of
           None \<Rightarrow> hr_failed True HA_AMBIGUOUS_COMPONENT_STATE
         | Some actual \<Rightarrow>
             if actual \<noteq> requested then hr_failed True HA_STATE_VERIFICATION_MISMATCH
             else \<lparr>hr_verified = True, hr_acknowledged = True, hr_reason = HA_VERIFIED\<rparr>))"

definition verify_component ::
  "network \<Rightarrow> (string \<Rightarrow> string) \<Rightarrow> json_loads \<Rightarrow> hyperhdr_adapter \<Rightarrow> string \<Rightarrow> bool \<Rightarrow>
     HyperHDRAdapterResult option" where
  "verify_component net upper loads a component requested =
     (case fetch_server_info net (ha_host a) (ha_port a) (ha_timeout a) of
        Inl None \<Rightarrow> None
      | Inl (Some e) \<Rightarrow> Some (hr_failed True (verification_reason e))
      | Inr body \<Rightarrow>
          (case parse_hyperhdr_server_info upper loads body of
             Inl None \<Rightarrow> None
           | Inl (Some _) \<Rightarrow> Some (hr_failed True HA_VERIFICATION_MALFORMED_RESPONSE)
           | Inr info \<Rightarrow> Some (judge_component component requested info)))"

definition component_payload :: "HyperHDROperation \<Rightarrow> (string, json) dict" where
  "component_payload operation =
     (let (component, requested) = OPERATION_COMPONENT_STATE operation
      in [(''command'', JString COMMAND),
          (''componentstate'',
             JObject [(''component'', JString component), (''state'', JBool requested)])])"

text \<open>
  The POST and the later GET are two exchanges, so they see two networks: \<open>net_post\<close> and
  \<open>net_get\<close>.
\<close>

definition hyperhdr_execute ::
  "network \<Rightarrow> network \<Rightarrow> (string \<Rightarrow> string) \<Rightarrow> json_loads \<Rightarrow> hyperhdr_adapter \<Rightarrow>
     HyperHDROperation \<Rightarrow> HyperHDRAdapterResult option" where
  "hyperhdr_execute net_post net_get upper loads a operation =
     (let (component, requested) = OPERATION_COMPONENT_STATE operation
      in case dumps (component_payload operation) of
           None \<Rightarrow> None
         | Some enc \<Rightarrow>
             (case post_component_state net_post (ha_host a) (ha_port a) (ha_timeout a)
                     (ascii_bytes enc) of
                Inl None \<Rightarrow> None
              | Inl (Some reason) \<Rightarrow> Some (hr_failed False reason)
              | Inr body \<Rightarrow>
                  if HYPERHDR_MUTATION_RESPONSE_BYTES < length body
                  then Some (hr_failed False HA_OVERSIZED_RESPONSE)
                  else
                    (case acknowledgement_failure loads body of
                       Inl _ \<Rightarrow> None
                     | Inr (Some reason) \<Rightarrow> Some (hr_failed False reason)
                     | Inr None \<Rightarrow> verify_component net_get upper loads a component requested)))"

section \<open>Lemmas\<close>

definition payload_bytes :: "HyperHDROperation \<Rightarrow> bytes" where
  "payload_bytes operation = ascii_bytes (the (dumps (component_payload operation)))"

lemma component_payload_dumps: "\<exists>enc. dumps (component_payload operation) = Some enc"
  by (cases operation) (simp_all add: component_payload_def COMMAND_def dumps_simps)

lemma post_component_state_Inr:
  "post_component_state net host port timeout payload = Inr body \<longleftrightarrow>
     delivered net (component_request host port payload) timeout HYPERHDR_MUTATION_RESPONSE_BYTES body"
  unfolding exchange_delivered [symmetric]
  by (auto simp: post_component_state_def Let_def split: exchange_result.splits http_error.splits if_splits)

lemma post_component_state_Inl:
  "post_component_state net host port timeout payload = Inl (Some reason) \<Longrightarrow> reason \<noteq> HA_VERIFIED"
  by (auto simp: post_component_state_def hyperhdr_transport_failure_def Let_def
      split: exchange_result.splits http_error.splits if_splits)

text \<open>The acknowledged bodies: success, and no other command named.\<close>

definition acknowledges :: "json_loads \<Rightarrow> bytes \<Rightarrow> bool" where
  "acknowledges loads body \<longleftrightarrow>
     (\<exists>document. loads body = Loaded (JObject document) \<and>
        dict_get document ''success'' = Some (JBool True) \<and>
        dict_get document ''command'' \<in> {None, Some (JString COMMAND)})"

lemma acknowledgement_failure_None:
  "acknowledgement_failure loads body = Inr None \<longleftrightarrow> acknowledges loads body"
  by (auto simp: acknowledgement_failure_def acknowledges_def
      split: loads_outcome.split json.split option.split)

lemma acknowledgement_failure_Some:
  "acknowledgement_failure loads body = Inr (Some reason) \<Longrightarrow> reason \<noteq> HA_VERIFIED"
  by (auto simp: acknowledgement_failure_def
      split: loads_outcome.splits json.splits option.splits if_splits)

lemma judge_component_known:
  "component \<notin> ambiguous_component_states info \<Longrightarrow> component \<in> component_state_names info \<Longrightarrow>
   (if component = ''VIDEOGRABBER'' then grabber_active info else led_output_active info) = Some b \<Longrightarrow>
   hr_verified (judge_component component requested info) \<longleftrightarrow> b = requested"
  by (simp add: judge_component_def)

text \<open>Judging a component never falls back on another one.\<close>

lemma judge_component_verified:
  assumes "component = ''VIDEOGRABBER'' \<or> component = ''LEDDEVICE''"
  shows "hr_verified (judge_component component requested (server_info_of upper info)) \<longleftrightarrow>
    component_entries upper component info \<noteq> [] \<and>
    list_all (\<lambda>x. x = Some requested) (component_entries upper component info)"
proof -
  obtain s where s: "server_info_of upper info =
     \<lparr>server_info_received = True,
      hdr_mode_enabled = hdr_mode (get_or_none info ''videomodehdr''),
      instance_running = running_instance info,
      grabber_active = (if dict_get (scan_states s) ''VIDEOGRABBER'' = None
        then dict_get (scan_states s) ''GRABBER'' else dict_get (scan_states s) ''VIDEOGRABBER''),
      led_output_active = dict_get (scan_states s) ''LEDDEVICE'',
      component_state_names = scan_names s, ambiguous_component_states = scan_ambiguous s\<rparr>"
    and agrees: "scan_agrees (component_entries upper component info) component s"
    using server_info_scan [of upper info] by blast
  let ?xs = "component_entries upper component info"
  have all: "?xs \<noteq> [] \<and> list_all (\<lambda>x. x = Some requested) ?xs \<longleftrightarrow>
      \<not> conflicting ?xs \<and> ?xs \<noteq> [] \<and> hd ?xs = Some requested"
    by (cases ?xs) (auto simp: conflicting_def list_all_iff list_ex_iff)
  have hd: "\<exists>b. hd ?xs = Some b" if "\<not> conflicting ?xs" "?xs \<noteq> []"
    using that by (cases ?xs) (auto simp: conflicting_def)
  have names: "component \<in> scan_names s \<longleftrightarrow> ?xs \<noteq> []"
    and amb: "component \<in> scan_ambiguous s \<longleftrightarrow> conflicting ?xs"
    and got: "dict_get (scan_states s) component = (if ?xs = [] \<or> conflicting ?xs then None else hd ?xs)"
    using agrees by (simp_all add: scan_agrees_def)
  show ?thesis
  proof (cases "?xs = [] \<or> conflicting ?xs")
    case True
    then have "\<not> hr_verified (judge_component component requested (server_info_of upper info))"
      by (auto simp: judge_component_def s names amb)
    then show ?thesis using True unfolding all by blast
  next
    case False
    then obtain b where b: "hd ?xs = Some b" using hd by blast
    have "hr_verified (judge_component component requested (server_info_of upper info)) \<longleftrightarrow>
        b = requested"
    proof (rule judge_component_known)
      show "(if component = ''VIDEOGRABBER'' then grabber_active (server_info_of upper info)
          else led_output_active (server_info_of upper info)) = Some b"
        using assms got b False by (auto simp: s)
    qed (use False in \<open>simp_all add: s names amb\<close>)
    then show ?thesis using False b unfolding all by simp
  qed
qed

lemma judge_component_reason:
  "hr_verified (judge_component c r info) \<longleftrightarrow> hr_reason (judge_component c r info) = HA_VERIFIED"
  "hr_acknowledged (judge_component c r info)"
  by (auto simp: judge_component_def split: option.split)

lemma verification_reason_failed: "verification_reason e \<noteq> HA_VERIFIED"
  by (cases e) simp_all

text \<open>The two stages of \<open>execute\<close>.\<close>

lemma hyperhdr_execute_cases:
  "hyperhdr_execute net_post net_get upper loads a operation =
    (case post_component_state net_post (ha_host a) (ha_port a) (ha_timeout a)
        (payload_bytes operation) of
       Inl None \<Rightarrow> None
     | Inl (Some reason) \<Rightarrow> Some (hr_failed False reason)
     | Inr body \<Rightarrow>
         (case acknowledgement_failure loads body of
            Inl _ \<Rightarrow> None
          | Inr (Some reason) \<Rightarrow> Some (hr_failed False reason)
          | Inr None \<Rightarrow> verify_component net_get upper loads a
              (fst (OPERATION_COMPONENT_STATE operation)) (snd (OPERATION_COMPONENT_STATE operation))))"
proof -
  obtain enc where enc: "dumps (component_payload operation) = Some enc"
    using component_payload_dumps by blast
  have "length body \<le> HYPERHDR_MUTATION_RESPONSE_BYTES"
    if "post_component_state net_post (ha_host a) (ha_port a) (ha_timeout a) (ascii_bytes enc) = Inr body"
    for body
    using that by (auto simp: post_component_state_Inr delivered_def)
  then show ?thesis
    by (force simp: hyperhdr_execute_def payload_bytes_def enc not_less split: prod.split sum.split option.split)
qed

lemma hyperhdr_execute_acknowledged:
  assumes "post_component_state net_post (ha_host a) (ha_port a) (ha_timeout a)
      (payload_bytes operation) = Inr body" and "acknowledges loads body"
  shows "hyperhdr_execute net_post net_get upper loads a operation =
    verify_component net_get upper loads a
      (fst (OPERATION_COMPONENT_STATE operation)) (snd (OPERATION_COMPONENT_STATE operation))"
  using assms unfolding hyperhdr_execute_cases acknowledgement_failure_None [symmetric] by simp

lemma hyperhdr_executeE:
  assumes exec: "hyperhdr_execute net_post net_get upper loads a operation = Some result"
  obtains (failed) reason where
      "post_component_state net_post (ha_host a) (ha_port a) (ha_timeout a) (payload_bytes operation) =
        Inl (Some reason)" "result = hr_failed False reason"
    | (rejected) body reason where
      "post_component_state net_post (ha_host a) (ha_port a) (ha_timeout a) (payload_bytes operation) =
        Inr body" "acknowledgement_failure loads body = Inr (Some reason)" "result = hr_failed False reason"
    | (acknowledged) body where
      "post_component_state net_post (ha_host a) (ha_port a) (ha_timeout a) (payload_bytes operation) =
        Inr body" "acknowledges loads body"
      "verify_component net_get upper loads a (fst (OPERATION_COMPONENT_STATE operation))
        (snd (OPERATION_COMPONENT_STATE operation)) = Some result"
proof -
  note exec' = exec [unfolded hyperhdr_execute_cases]
  show ?thesis
  proof (cases "post_component_state net_post (ha_host a) (ha_port a) (ha_timeout a) (payload_bytes operation)")
    case (Inl e)
    show ?thesis
    proof (cases e)
      case None
      then show ?thesis using exec' Inl by simp
    next
      case (Some reason)
      show ?thesis using exec' Inl Some by (intro failed [of reason]) simp_all
    qed
  next
    case (Inr body)
    show ?thesis
    proof (cases "acknowledgement_failure loads body")
      case (Inl u)
      then show ?thesis using exec' Inr by simp
    next
      case ack: (Inr r)
      show ?thesis
      proof (cases r)
        case None
        show ?thesis using exec' Inr ack None
          by (intro acknowledged [of body]) (simp_all flip: acknowledgement_failure_None)
      next
        case (Some reason)
        show ?thesis using exec' Inr ack Some by (intro rejected [of body reason]) simp_all
      qed
    qed
  qed
qed

lemma verify_component_verified:
  "(\<exists>result. verify_component net upper loads a c r = Some result \<and> hr_verified result) \<longleftrightarrow>
   (\<exists>body i. fetch_server_info net (ha_host a) (ha_port a) (ha_timeout a) = Inr body \<and>
     parse_hyperhdr_server_info upper loads body = Inr i \<and> hr_verified (judge_component c r i))"
  by (auto simp: verify_component_def split: sum.splits option.splits)

lemma verify_component_consistent:
  "verify_component net upper loads a c r = Some result \<Longrightarrow>
    hr_acknowledged result \<and> (hr_verified result \<longleftrightarrow> hr_reason result = HA_VERIFIED)"
  by (auto simp: verify_component_def verification_reason_failed judge_component_reason
      split: sum.splits option.splits)

lemma parse_hyperhdr_server_info_Inr:
  "parse_hyperhdr_server_info upper loads body = Inr i \<longleftrightarrow>
    (\<exists>payload info. loads body = Loaded (JObject payload) \<and>
      get_or_none payload ''success'' = JBool True \<and>
      get_or_none payload ''command'' \<in> {JNull, JString ''serverinfo''} \<and>
      get_or_none payload ''info'' = JObject info \<and> i = server_info_of upper info)"
  by (auto simp: parse_hyperhdr_server_info_def Let_def
      split: loads_outcome.splits json.splits if_splits bool.splits)

lemma delivered_unique:
  "delivered net q t n x \<Longrightarrow> delivered net q t n y \<Longrightarrow> x = y"
  by (auto simp: delivered_def)

section \<open>Properties\<close>

text \<open>
  C6. A HyperHDR operation counts as verified only on two pieces of evidence: the one POST of
  its payload was answered by a body that acknowledges it, and the server information read
  afterwards lists the very component, with the requested boolean state in each of its entries.
  A grabber of another kind, an entry without a boolean, or two entries that disagree never
  verify it. The converse holds too.
\<close>

theorem hyperhdr_verified_iff:
  "(\<exists>result. hyperhdr_execute net_post net_get upper loads a operation = Some result \<and>
      hr_verified result) \<longleftrightarrow>
   (\<exists>ack body payload info.
      delivered net_post (component_request (ha_host a) (ha_port a) (payload_bytes operation))
        (ha_timeout a) HYPERHDR_MUTATION_RESPONSE_BYTES ack \<and> acknowledges loads ack \<and>
      fetch_server_info net_get (ha_host a) (ha_port a) (ha_timeout a) = Inr body \<and>
      loads body = Loaded (JObject payload) \<and>
      get_or_none payload ''success'' = JBool True \<and>
      get_or_none payload ''command'' \<in> {JNull, JString ''serverinfo''} \<and>
      get_or_none payload ''info'' = JObject info \<and>
      component_entries upper (fst (OPERATION_COMPONENT_STATE operation)) info \<noteq> [] \<and>
      list_all (\<lambda>x. x = Some (snd (OPERATION_COMPONENT_STATE operation)))
        (component_entries upper (fst (OPERATION_COMPONENT_STATE operation)) info))"
    (is "?L \<longleftrightarrow> ?R")
proof -
  let ?c = "fst (OPERATION_COMPONENT_STATE operation)" and ?r = "snd (OPERATION_COMPONENT_STATE operation)"
  have "?c = ''VIDEOGRABBER'' \<or> ?c = ''LEDDEVICE''" by (cases operation) simp_all
  note judged = judge_component_verified [OF this, of ?r upper]
  show ?thesis
  proof
    assume ?L
    then obtain result where exec: "hyperhdr_execute net_post net_get upper loads a operation = Some result"
      and "hr_verified result" by blast
    then obtain ack where ack: "delivered net_post (component_request (ha_host a) (ha_port a)
          (payload_bytes operation)) (ha_timeout a) HYPERHDR_MUTATION_RESPONSE_BYTES ack"
        "acknowledges loads ack" "verify_component net_get upper loads a ?c ?r = Some result"
      by (elim hyperhdr_executeE) (auto simp: post_component_state_Inr)
    then obtain body i where "fetch_server_info net_get (ha_host a) (ha_port a) (ha_timeout a) = Inr body"
        "parse_hyperhdr_server_info upper loads body = Inr i" "hr_verified (judge_component ?c ?r i)"
      using verify_component_verified [of net_get upper loads a ?c ?r] \<open>hr_verified result\<close> by blast
    with ack(1,2) show ?R unfolding parse_hyperhdr_server_info_Inr using judged by blast
  next
    assume ?R
    then obtain ack body payload info where
      ack: "delivered net_post (component_request (ha_host a) (ha_port a) (payload_bytes operation))
        (ha_timeout a) HYPERHDR_MUTATION_RESPONSE_BYTES ack" "acknowledges loads ack" and
      get: "fetch_server_info net_get (ha_host a) (ha_port a) (ha_timeout a) = Inr body" and
      parse: "parse_hyperhdr_server_info upper loads body = Inr (server_info_of upper info)" and
      entries: "hr_verified (judge_component ?c ?r (server_info_of upper info))"
      unfolding parse_hyperhdr_server_info_Inr judged by blast
    then have "\<exists>result. verify_component net_get upper loads a ?c ?r = Some result \<and> hr_verified result"
      unfolding verify_component_verified by blast
    then show ?L
      using hyperhdr_execute_acknowledged [OF _ ack(2)] ack(1) by (simp add: post_component_state_Inr)
  qed
qed

definition sample_hdr_loads :: json_loads where
  "sample_hdr_loads body =
     (if body = [1] then Loaded (JObject [(''success'', JBool True)])
      else Loaded (JObject
        [(''success'', JBool True),
         (''info'', JObject [(''components'', JList
            [JObject [(''name'', JString ''LEDDEVICE''), (''enabled'', JBool False)],
             JObject [(''name'', JString ''GRABBER''), (''enabled'', JBool True)]])])]))"

text \<open>An enabled grabber of another kind does not verify the video grabber.\<close>

lemma other_grabber_not_verified:
  "hyperhdr_execute (\<lambda>_ _. Opened (Some 200) (Inr [1])) (\<lambda>_ _. Opened (Some 200) (Inr [2])) id
     sample_hdr_loads \<lparr>ha_host = ''hdr'', ha_port = 8090, ha_timeout = 2\<rparr> VIDEO_GRABBER_ENABLE =
     Some (hr_failed True HA_MISSING_COMPONENT_STATE)"
  by (simp add: hyperhdr_execute_cases post_component_state_def exchange_def is_success_status_def
      acknowledgement_failure_def sample_hdr_loads_def verify_component_def fetch_server_info_def
      parse_hyperhdr_server_info_def get_or_none_def server_info_of_def scan_components_def
      scan_entry_def empty_scan_def judge_component_def HYPERHDR_MUTATION_RESPONSE_BYTES_def
      MAX_SERVERINFO_RESPONSE_BYTES_def)

text \<open>
  The flags of every result agree: verified, the reason \<open>VERIFIED\<close> and an acknowledged
  verified state go together, and \<open>acknowledged\<close> holds exactly when the device acknowledged
  the POST, so that an operation that failed before is told apart from one whose effect is
  unknown.
\<close>

theorem hyperhdr_result_consistent:
  assumes "hyperhdr_execute net_post net_get upper loads a operation = Some result"
  shows "(hr_verified result \<longleftrightarrow> hr_reason result = HA_VERIFIED) \<and>
    (hr_acknowledged result \<longleftrightarrow>
      (\<exists>ack. delivered net_post (component_request (ha_host a) (ha_port a) (payload_bytes operation))
        (ha_timeout a) HYPERHDR_MUTATION_RESPONSE_BYTES ack \<and> acknowledges loads ack))"
  using assms
proof (cases rule: hyperhdr_executeE)
  case (failed reason)
  have "\<not> delivered net_post (component_request (ha_host a) (ha_port a) (payload_bytes operation))
      (ha_timeout a) HYPERHDR_MUTATION_RESPONSE_BYTES ack" for ack
    using failed(1) by (simp flip: post_component_state_Inr)
  then show ?thesis using failed post_component_state_Inl by auto
next
  case (rejected body reason)
  have "\<not> acknowledges loads ack" if "delivered net_post (component_request (ha_host a) (ha_port a)
      (payload_bytes operation)) (ha_timeout a) HYPERHDR_MUTATION_RESPONSE_BYTES ack" for ack
    using delivered_unique [OF that] rejected(1,2)
    by (auto simp: post_component_state_Inr simp flip: acknowledgement_failure_None)
  then show ?thesis using rejected(3) acknowledgement_failure_Some [OF rejected(2)] by auto
next
  case (acknowledged body)
  then show ?thesis using verify_component_consistent [OF acknowledged(3)]
    by (auto simp: post_component_state_Inr)
qed

theorem hyperhdr_result_consistent_witness:
  "\<not> (\<exists>ack. delivered (\<lambda>request timeout. Open_Raised Timeout_Error)
      (component_request ''hdr'' 8090 (payload_bytes LED_OUTPUT_DISABLE)) 2
      HYPERHDR_MUTATION_RESPONSE_BYTES ack \<and> acknowledges (\<lambda>_. Undecodable) ack)"
  using hyperhdr_result_consistent [of "\<lambda>request timeout. Open_Raised Timeout_Error"
      "\<lambda>request timeout. Open_Raised Timeout_Error" id "\<lambda>_. Undecodable"
      "\<lparr>ha_host = ''hdr'', ha_port = 8090, ha_timeout = 2\<rparr>" LED_OUTPUT_DISABLE "hr_failed False HA_TIMEOUT"]
  by (simp add: hyperhdr_execute_cases post_component_state_def exchange_def hyperhdr_transport_failure_def)

end
