(* ===== verification/Hyperhdr_Service.thy ===== *)
theory Hyperhdr_Service
  imports Control_World Hyperhdr_Adapter
begin

text \<open>
  \<open>control_plane/hyperhdr_service.py\<close> and the HyperHDR settings of \<open>config/models.py\<close>. The
  service has the shape of the WLED one, with two differences that matter: two of its four
  operations ask for a confirmation of their own, and an adapter result that is acknowledged
  but not verified is reported apart from a failed one. Statuses carry the prefix \<open>HS_\<close>,
  availabilities \<open>HV_\<close>. The result \<open>None\<close> is an exception of the cache invalidator.
\<close>

section \<open>Settings\<close>

record HyperHDRControlSettings =
  hc_enabled :: bool
  hc_allowed_operations :: "HyperHDROperation list"
  hc_control_timeout :: seconds
  hc_operation_limit :: int
  hc_operation_window_seconds :: int

record HyperHDRSettings =
  hs_enabled :: bool
  hs_host :: "string option"
  hs_port :: "int option"
  hs_validation_timeout_seconds :: seconds
  hs_controls :: HyperHDRControlSettings

section \<open>The service\<close>

datatype HyperHDRControlAvailability =
  HV_AUTHENTICATION_UNAVAILABLE | HV_HYPERHDR_UNAVAILABLE | HV_CONTROLS_DISABLED
  | HV_NO_OPERATIONS | HV_AVAILABLE

datatype HyperHDRControlStatus =
  HS_VERIFIED | HS_DENIED | HS_RATE_LIMITED | HS_BUSY | HS_FAILED | HS_UNVERIFIED

record HyperHDRControlResult =
  hs_status :: HyperHDRControlStatus
  hs_reason :: AuditReason

type_synonym hyperhdr_executor = "nat \<Rightarrow> HyperHDROperation \<Rightarrow> HyperHDRAdapterResult option"

record hyperhdr_service =
  hv_settings :: HyperHDRSettings
  hv_authentication_enabled :: bool
  hv_contracts :: "HyperHDROperationContract list"
  hv_limiter :: limiter
  hv_lock :: bool
  hv_gate :: nat
  hv_adapter :: "hyperhdr_executor option"

text \<open>\<open>_ADAPTER_AUDIT_REASONS\<close>; a reason that is not in the table is a connection failure.\<close>

primrec hyperhdr_audit_reason :: "HyperHDRAdapterReason \<Rightarrow> AuditReason" where
  "hyperhdr_audit_reason HA_VERIFIED = AR_CONNECTION_FAILURE"
| "hyperhdr_audit_reason HA_CONNECTION_FAILURE = AR_CONNECTION_FAILURE"
| "hyperhdr_audit_reason HA_TIMEOUT = AR_TIMEOUT"
| "hyperhdr_audit_reason HA_HTTP_REJECTION = AR_HTTP_REJECTION"
| "hyperhdr_audit_reason HA_REDIRECT_REJECTION = AR_REDIRECT_REJECTION"
| "hyperhdr_audit_reason HA_UNAUTHORIZED_RESPONSE = AR_UNAUTHORIZED_RESPONSE"
| "hyperhdr_audit_reason HA_OVERSIZED_RESPONSE = AR_OVERSIZED_RESPONSE"
| "hyperhdr_audit_reason HA_MALFORMED_JSON = AR_MALFORMED_JSON"
| "hyperhdr_audit_reason HA_NON_OBJECT_JSON = AR_MALFORMED_JSON"
| "hyperhdr_audit_reason HA_MISSING_SUCCESS = AR_MISSING_SUCCESS"
| "hyperhdr_audit_reason HA_SUCCESS_WRONG_TYPE = AR_INVALID_SUCCESS"
| "hyperhdr_audit_reason HA_SUCCESS_FALSE = AR_INVALID_SUCCESS"
| "hyperhdr_audit_reason HA_MISMATCHED_COMMAND = AR_COMMAND_MISMATCH"
| "hyperhdr_audit_reason HA_VERIFICATION_CONNECTION_FAILURE = AR_CONNECTION_FAILURE"
| "hyperhdr_audit_reason HA_VERIFICATION_TIMEOUT = AR_TIMEOUT"
| "hyperhdr_audit_reason HA_VERIFICATION_HTTP_REJECTION = AR_HTTP_REJECTION"
| "hyperhdr_audit_reason HA_VERIFICATION_REDIRECT_REJECTION = AR_REDIRECT_REJECTION"
| "hyperhdr_audit_reason HA_VERIFICATION_UNAUTHORIZED_RESPONSE = AR_UNAUTHORIZED_RESPONSE"
| "hyperhdr_audit_reason HA_VERIFICATION_OVERSIZED_RESPONSE = AR_OVERSIZED_RESPONSE"
| "hyperhdr_audit_reason HA_VERIFICATION_MALFORMED_RESPONSE = AR_MALFORMED_JSON"
| "hyperhdr_audit_reason HA_MISSING_COMPONENT_STATE = AR_MISSING_COMPONENT_STATE"
| "hyperhdr_audit_reason HA_AMBIGUOUS_COMPONENT_STATE = AR_AMBIGUOUS_COMPONENT_STATE"
| "hyperhdr_audit_reason HA_STATE_VERIFICATION_MISMATCH = AR_STATE_VERIFICATION_MISMATCH"

text \<open>The constructor; \<open>None\<close> is any of the \<open>ValueError\<close>s it meets.\<close>

definition new_hyperhdr_service ::
  "(nat \<Rightarrow> network) \<Rightarrow> (nat \<Rightarrow> network) \<Rightarrow> (string \<Rightarrow> string) \<Rightarrow> json_loads \<Rightarrow> HyperHDRSettings \<Rightarrow> bool \<Rightarrow>
     hyperhdr_executor option \<Rightarrow> bytes \<Rightarrow> nat \<Rightarrow> hyperhdr_service option" where
  "new_hyperhdr_service net_post net_get upper loads settings auth adapter key gate =
     (case hyperhdr_operation_registry (hc_control_timeout (hs_controls settings)) of
        Inl _ \<Rightarrow> None
      | Inr contracts \<Rightarrow>
          (case new_limiter (hc_operation_limit (hs_controls settings))
                 (of_int (hc_operation_window_seconds (hs_controls settings))) key
                 MAX_TRACKED_CLIENTS of
             None \<Rightarrow> None
           | Some l \<Rightarrow>
               map_option (\<lambda>a.
                 \<lparr>hv_settings = settings, hv_authentication_enabled = auth,
                  hv_contracts = contracts, hv_limiter = l, hv_lock = False, hv_gate = gate,
                  hv_adapter = a\<rparr>)
               (case adapter of
                  Some a \<Rightarrow> Some (Some a)
                | None \<Rightarrow>
                    (case (hs_host settings, hs_port settings) of
                       (Some host, Some port) \<Rightarrow>
                         map_option
                           (\<lambda>a. Some (\<lambda>n. hyperhdr_execute (net_post n) (net_get n) upper loads a))
                           (new_hyperhdr_adapter host port
                              (hc_control_timeout (hs_controls settings)))
                     | _ \<Rightarrow> Some None))))"

definition hyperhdr_available_operations :: "hyperhdr_service \<Rightarrow> HyperHDROperation list" where
  "hyperhdr_available_operations s =
     (if \<not> hv_authentication_enabled s \<or> \<not> hs_enabled (hv_settings s) \<or>
         hs_host (hv_settings s) = None \<or> hs_port (hv_settings s) = None \<or>
         \<not> hc_enabled (hs_controls (hv_settings s))
      then []
      else
        (let configured = set (hc_allowed_operations (hs_controls (hv_settings s)))
         in filter (\<lambda>x. x \<in> configured) (map hc_operation_id (hv_contracts s))))"

definition hyperhdr_availability :: "hyperhdr_service \<Rightarrow> HyperHDRControlAvailability" where
  "hyperhdr_availability s =
     (if \<not> hv_authentication_enabled s then HV_AUTHENTICATION_UNAVAILABLE
      else if \<not> hs_enabled (hv_settings s) \<or> hs_host (hv_settings s) = None \<or>
        hs_port (hv_settings s) = None
      then HV_HYPERHDR_UNAVAILABLE
      else if \<not> hc_enabled (hs_controls (hv_settings s)) then HV_CONTROLS_DISABLED
      else if hyperhdr_available_operations s = [] then HV_NO_OPERATIONS
      else HV_AVAILABLE)"

definition hyperhdr_tracked_client_count :: "seconds \<Rightarrow> hyperhdr_service \<Rightarrow> int \<times> hyperhdr_service" where
  "hyperhdr_tracked_client_count now s =
     (let (n, l) = tracked_client_count now (hv_limiter s) in (n, s\<lparr>hv_limiter := l\<rparr>))"

definition hyperhdr_capabilities :: "hyperhdr_service \<Rightarrow> ControlCapabilities" where
  "hyperhdr_capabilities s =
     (let operations = map hyperhdr_operation_value (hyperhdr_available_operations s)
      in control_capabilities (operations \<noteq> []) operations)"

section \<open>Denials\<close>

definition hyperhdr_audit_denied ::
  "HyperHDROperation \<Rightarrow> AuditReason \<Rightarrow> control_world \<Rightarrow> control_world" where
  "hyperhdr_audit_denied operation reason w =
     audit_operation HYPERHDR_OPERATION_DENIED reason (Op_HyperHDR operation) w"

definition hyperhdr_deny ::
  "HyperHDROperation \<Rightarrow> AuditReason \<Rightarrow> control_world \<Rightarrow> HyperHDRControlResult \<times> control_world" where
  "hyperhdr_deny operation reason w =
     (\<lparr>hs_status = HS_DENIED, hs_reason = reason\<rparr>, hyperhdr_audit_denied operation reason w)"

definition hyperhdr_confirmation_denied ::
  "HyperHDROperation \<Rightarrow> AuditReason \<Rightarrow> control_world \<Rightarrow> HyperHDRControlResult \<times> control_world" where
  "hyperhdr_confirmation_denied operation reason w =
     (\<lparr>hs_status = HS_DENIED, hs_reason = reason\<rparr>,
      audit_operation HYPERHDR_CONFIRMATION_REJECTED reason (Op_HyperHDR operation) w)"

definition hyperhdr_authentication_failure ::
  "hyperhdr_service \<Rightarrow> HyperHDROperation \<Rightarrow> SessionContext option \<Rightarrow> string option \<Rightarrow> control_world \<Rightarrow>
     (HyperHDRControlResult \<times> control_world) option" where
  "hyperhdr_authentication_failure s operation session submitted_csrf w =
     (case (if hv_authentication_enabled s then session else None) of
        None \<Rightarrow> Some (hyperhdr_deny operation AR_AUTHENTICATION_REQUIRED w)
      | Some opened \<Rightarrow>
          (case submitted_csrf of
             None \<Rightarrow>
               Some (hyperhdr_deny operation AR_MISSING_CSRF (audit CSRF_REJECTED AR_MISSING_CSRF w))
           | Some csrf \<Rightarrow>
               if \<not> csrf_is_valid opened csrf
               then Some (hyperhdr_deny operation AR_INVALID_CSRF
                            (audit CSRF_REJECTED AR_INVALID_CSRF w))
               else None))"

section \<open>Execution\<close>

fun expected_confirmation :: "HyperHDROperation \<Rightarrow> string option" where
  "expected_confirmation VIDEO_GRABBER_DISABLE = Some VIDEO_GRABBER_DISABLE_CONFIRMATION_VALUE"
| "expected_confirmation LED_OUTPUT_DISABLE = Some LED_OUTPUT_DISABLE_CONFIRMATION_VALUE"
| "expected_confirmation _ = None"

definition hyperhdr_guards ::
  "hyperhdr_service \<Rightarrow> HyperHDROperation \<Rightarrow> SessionContext option \<Rightarrow> string option \<Rightarrow>
     string option \<Rightarrow> control_world \<Rightarrow> (HyperHDRControlResult \<times> control_world) option" where
  "hyperhdr_guards s operation session submitted_csrf confirmation w =
     (case hyperhdr_authentication_failure s operation session submitted_csrf w of
        Some failure \<Rightarrow> Some failure
      | None \<Rightarrow>
          if hyperhdr_availability s \<in>
               {HV_AUTHENTICATION_UNAVAILABLE, HV_HYPERHDR_UNAVAILABLE, HV_CONTROLS_DISABLED}
          then Some (hyperhdr_deny operation AR_CONTROLS_DISABLED w)
          else if operation \<notin> set (hyperhdr_available_operations s)
          then Some (hyperhdr_deny operation AR_OPERATION_NOT_ALLOWLISTED w)
          else
            (case expected_confirmation operation of
               None \<Rightarrow> None
             | Some expected \<Rightarrow>
                 if confirmation = None
                 then Some (hyperhdr_confirmation_denied operation AR_MISSING_CONFIRMATION w)
                 else if confirmation \<noteq> Some expected
                 then Some (hyperhdr_confirmation_denied operation AR_INVALID_CONFIRMATION w)
                 else None))"

definition hyperhdr_exclusive ::
  "HyperHDROperation \<Rightarrow> hyperhdr_service \<times> control_world \<Rightarrow>
     (HyperHDRControlResult + HyperHDRAdapterResult) \<times> (hyperhdr_service \<times> control_world)" where
  "hyperhdr_exclusive operation = (\<lambda>(s, w).
     if hv_lock s then
       (Inl \<lparr>hs_status = HS_BUSY, hs_reason = AR_OPERATION_IN_PROGRESS\<rparr>,
        (s, audit_operation HYPERHDR_OPERATION_BUSY AR_OPERATION_IN_PROGRESS
              (Op_HyperHDR operation) w))
     else
       (let locked = s\<lparr>hv_lock := True\<rparr>
        in case hv_adapter locked of
             None \<Rightarrow>
               (let (r, w1) = hyperhdr_deny operation AR_CONTROLS_DISABLED w
                in (Inl r, (locked\<lparr>hv_lock := False\<rparr>, w1)))
           | Some execute \<Rightarrow>
               (let result =
                  (case execute (length (device_calls w)) operation of
                     None \<Rightarrow> hr_failed False HA_CONNECTION_FAILURE
                   | Some r \<Rightarrow> r)
                in (Inr result,
                    (locked\<lparr>hv_lock := False\<rparr>,
                     record_call (HyperHDR_Call operation) (hr_verified result) w)))))"

definition hyperhdr_conclude ::
  "control_env \<Rightarrow> HyperHDROperation \<Rightarrow> HyperHDRAdapterResult \<Rightarrow> control_world \<Rightarrow>
     HyperHDRControlResult option \<times> control_world" where
  "hyperhdr_conclude env operation result w =
     (if hr_verified result then
        (let w1 = audit_operation HYPERHDR_OPERATION_SUCCEEDED AR_VERIFIED (Op_HyperHDR operation) w;
             (returned, w2) = invalidate_cache env w1
         in (if returned then Some \<lparr>hs_status = HS_VERIFIED, hs_reason = AR_VERIFIED\<rparr> else None, w2))
      else
        (let reason = hyperhdr_audit_reason (hr_reason result)
         in if hr_acknowledged result
            then (Some \<lparr>hs_status = HS_UNVERIFIED, hs_reason = reason\<rparr>,
                  audit_operation HYPERHDR_STATE_VERIFICATION_FAILED reason (Op_HyperHDR operation) w)
            else (Some \<lparr>hs_status = HS_FAILED, hs_reason = reason\<rparr>,
                  audit_operation HYPERHDR_OPERATION_FAILED reason (Op_HyperHDR operation) w)))"

definition hyperhdr_run ::
  "control_env \<Rightarrow> nat \<Rightarrow> HyperHDROperation \<Rightarrow> SessionContext option \<Rightarrow> string option \<Rightarrow> string \<Rightarrow>
     string option \<Rightarrow> hyperhdr_service \<times> control_world \<Rightarrow>
     HyperHDRControlResult option \<times> (hyperhdr_service \<times> control_world)" where
  "hyperhdr_run env thread operation session submitted_csrf client confirmation = (\<lambda>(s, w).
     case hyperhdr_guards s operation session submitted_csrf confirmation w of
       Some (denied, w1) \<Rightarrow> (Some denied, (s, w1))
     | None \<Rightarrow>
         let (now, w1) = read_clock env w;
             (accepted, l) = begin_attempt (env_blake env) now client (hv_limiter s);
             s1 = s\<lparr>hv_limiter := l\<rparr>
         in if \<not> accepted then
              (Some \<lparr>hs_status = HS_RATE_LIMITED, hs_reason = AR_OPERATION_LIMIT\<rparr>,
               (s1, audit_operation HYPERHDR_OPERATION_RATE_LIMITED AR_OPERATION_LIMIT
                      (Op_HyperHDR operation) w1))
            else
              let (acquired, w2) = acquire_gate thread (hv_gate s1) w1
              in if \<not> acquired then
                   (Some \<lparr>hs_status = HS_BUSY, hs_reason = AR_OPERATION_IN_PROGRESS\<rparr>,
                    (s1, audit_operation HYPERHDR_OPERATION_BUSY AR_OPERATION_IN_PROGRESS
                           (Op_HyperHDR operation) w2))
                 else
                   let (outcome, (s2, w3)) = hyperhdr_exclusive operation (s1, w2)
                   in case release_gate thread (hv_gate s2) w3 of
                        None \<Rightarrow> (None, (s2, w3))
                      | Some w4 \<Rightarrow>
                          (case outcome of
                             Inl early \<Rightarrow> (Some early, (s2, w4))
                           | Inr result \<Rightarrow>
                               let (r, w5) = hyperhdr_conclude env operation result w4
                               in (r, (s2, w5))))"

section \<open>Entry points\<close>

definition video_grabber_enable ::
  "control_env \<Rightarrow> nat \<Rightarrow> SessionContext option \<Rightarrow> string option \<Rightarrow> string \<Rightarrow>
     hyperhdr_service \<times> control_world \<Rightarrow> HyperHDRControlResult option \<times> (hyperhdr_service \<times> control_world)"
  where
  "video_grabber_enable env thread session submitted_csrf client =
     hyperhdr_run env thread VIDEO_GRABBER_ENABLE session submitted_csrf client None"

definition video_grabber_disable ::
  "control_env \<Rightarrow> nat \<Rightarrow> SessionContext option \<Rightarrow> string option \<Rightarrow> string option \<Rightarrow> string \<Rightarrow>
     hyperhdr_service \<times> control_world \<Rightarrow> HyperHDRControlResult option \<times> (hyperhdr_service \<times> control_world)"
  where
  "video_grabber_disable env thread session submitted_csrf confirmation client =
     hyperhdr_run env thread VIDEO_GRABBER_DISABLE session submitted_csrf client confirmation"

definition led_output_enable ::
  "control_env \<Rightarrow> nat \<Rightarrow> SessionContext option \<Rightarrow> string option \<Rightarrow> string \<Rightarrow>
     hyperhdr_service \<times> control_world \<Rightarrow> HyperHDRControlResult option \<times> (hyperhdr_service \<times> control_world)"
  where
  "led_output_enable env thread session submitted_csrf client =
     hyperhdr_run env thread LED_OUTPUT_ENABLE session submitted_csrf client None"

definition led_output_disable ::
  "control_env \<Rightarrow> nat \<Rightarrow> SessionContext option \<Rightarrow> string option \<Rightarrow> string option \<Rightarrow> string \<Rightarrow>
     hyperhdr_service \<times> control_world \<Rightarrow> HyperHDRControlResult option \<times> (hyperhdr_service \<times> control_world)"
  where
  "led_output_disable env thread session submitted_csrf confirmation client =
     hyperhdr_run env thread LED_OUTPUT_DISABLE session submitted_csrf client confirmation"

section \<open>The critical section resolved\<close>

definition hyperhdr_ready :: "hyperhdr_service \<times> control_world \<Rightarrow> bool" where
  "hyperhdr_ready st \<longleftrightarrow>
     \<not> hv_lock (fst st) \<and> gate_wf (gates (snd st) (hv_gate (fst st))) \<and> limiter_inv (hv_limiter (fst st))"

definition hyperhdr_outcome ::
  "hyperhdr_executor \<Rightarrow> HyperHDROperation \<Rightarrow> control_world \<Rightarrow> HyperHDRAdapterResult" where
  "hyperhdr_outcome execute operation w =
     (case execute (length (device_calls w)) operation of
        None \<Rightarrow> hr_failed False HA_CONNECTION_FAILURE | Some r \<Rightarrow> r)"

definition hyperhdr_admitted_run ::
  "control_env \<Rightarrow> nat \<Rightarrow> HyperHDROperation \<Rightarrow> hyperhdr_service \<Rightarrow> control_world \<Rightarrow>
     HyperHDRControlResult option \<times> control_world" where
  "hyperhdr_admitted_run env thread operation s w =
     (if \<not> fst (gate_acquire thread (gates w (hv_gate s))) then
        (Some \<lparr>hs_status = HS_BUSY, hs_reason = AR_OPERATION_IN_PROGRESS\<rparr>,
         audit_operation HYPERHDR_OPERATION_BUSY AR_OPERATION_IN_PROGRESS (Op_HyperHDR operation) w)
      else
        (case hv_adapter s of
           None \<Rightarrow> (Some \<lparr>hs_status = HS_DENIED, hs_reason = AR_CONTROLS_DISABLED\<rparr>,
                    hyperhdr_audit_denied operation AR_CONTROLS_DISABLED w)
         | Some execute \<Rightarrow>
             (let result = hyperhdr_outcome execute operation w
              in hyperhdr_conclude env operation result
                   (record_call (HyperHDR_Call operation) (hr_verified result) w))))"

lemma hyperhdr_run_eq:
  assumes "hyperhdr_ready (s, w)"
  shows "hyperhdr_run env thread operation session csrf client confirmation (s, w) =
    (case hyperhdr_guards s operation session csrf confirmation w of
       Some (denied, w1) \<Rightarrow> (Some denied, (s, w1))
     | None \<Rightarrow>
         let w1 = snd (read_clock env w);
             attempt = begin_attempt (env_blake env) (env_clock env (clock_reads w)) client (hv_limiter s);
             s1 = s\<lparr>hv_limiter := snd attempt\<rparr>
         in if \<not> fst attempt then
              (Some \<lparr>hs_status = HS_RATE_LIMITED, hs_reason = AR_OPERATION_LIMIT\<rparr>,
               (s1, audit_operation HYPERHDR_OPERATION_RATE_LIMITED AR_OPERATION_LIMIT
                      (Op_HyperHDR operation) w1))
            else (fst (hyperhdr_admitted_run env thread operation s w1),
                  (s1, snd (hyperhdr_admitted_run env thread operation s w1))))"
proof (cases "hyperhdr_guards s operation session csrf confirmation w")
  case (Some d)
  then show ?thesis by (simp add: hyperhdr_run_def split: prod.split)
next
  case None
  let ?w1 = "snd (read_clock env w)"
  let ?attempt = "begin_attempt (env_blake env) (env_clock env (clock_reads w)) client (hv_limiter s)"
  have wf: "gate_wf (gates ?w1 (hv_gate s))" and lock: "\<not> hv_lock s"
    using assms by (simp_all add: hyperhdr_ready_def frame_simps)
  have run: "hyperhdr_run env thread operation session csrf client confirmation (s, w) =
      (let s1 = s\<lparr>hv_limiter := snd ?attempt\<rparr> in
       if \<not> fst ?attempt then
         (Some \<lparr>hs_status = HS_RATE_LIMITED, hs_reason = AR_OPERATION_LIMIT\<rparr>,
          (s1, audit_operation HYPERHDR_OPERATION_RATE_LIMITED AR_OPERATION_LIMIT
             (Op_HyperHDR operation) ?w1))
       else if \<not> fst (gate_acquire thread (gates ?w1 (hv_gate s))) then
         (Some \<lparr>hs_status = HS_BUSY, hs_reason = AR_OPERATION_IN_PROGRESS\<rparr>,
          (s1, audit_operation HYPERHDR_OPERATION_BUSY AR_OPERATION_IN_PROGRESS (Op_HyperHDR operation)
             (snd (acquire_gate thread (hv_gate s) ?w1))))
       else
         let (outcome, (s2, w3)) = hyperhdr_exclusive operation (s1, snd (acquire_gate thread (hv_gate s) ?w1))
         in case release_gate thread (hv_gate s2) w3 of
              None \<Rightarrow> (None, (s2, w3))
            | Some w4 \<Rightarrow>
                (case outcome of
                   Inl early \<Rightarrow> (Some early, (s2, w4))
                 | Inr result \<Rightarrow>
                     let (r, w5) = hyperhdr_conclude env operation result w4 in (r, (s2, w5))))"
    by (simp add: hyperhdr_run_def None case_prod_beta Let_def frame_simps)
  show ?thesis
  proof (cases "fst ?attempt \<and> fst (gate_acquire thread (gates ?w1 (hv_gate s)))")
    case False
    then show ?thesis
      by (auto simp: run None Let_def hyperhdr_admitted_run_def failed_acquire_world)
  next
    case True
    note release = release_restores [OF wf conjunct2 [OF True]]
    show ?thesis
    proof (cases "hv_adapter s")
      case None': None
      show ?thesis using True lock
        by (simp add: run None None' Let_def hyperhdr_admitted_run_def hyperhdr_exclusive_def
            hyperhdr_deny_def hyperhdr_audit_denied_def release frame_simps audit_operation_acquired)
    next
      case (Some execute)
      show ?thesis using True lock
        by (simp add: run None Some Let_def hyperhdr_admitted_run_def hyperhdr_exclusive_def release
            frame_simps record_call_acquired hyperhdr_outcome_def case_prod_beta)
    qed
  qed
qed

section \<open>Requests\<close>

text \<open>A mutation that the server asks for, with what comes from the browser.\<close>

datatype hyperhdr_request = HyperHDR_Request
  (hq_operation: HyperHDROperation)
  (hq_session: "SessionContext option")
  (hq_csrf: "string option")
  (hq_confirmation: "string option")
  (hq_client: string)

definition hyperhdr_serve ::
  "control_env \<Rightarrow> nat \<Rightarrow> hyperhdr_request \<Rightarrow> hyperhdr_service \<times> control_world \<Rightarrow>
     HyperHDRControlResult option \<times> (hyperhdr_service \<times> control_world)" where
  "hyperhdr_serve env thread q =
     (case hq_operation q of
        VIDEO_GRABBER_ENABLE \<Rightarrow>
          video_grabber_enable env thread (hq_session q) (hq_csrf q) (hq_client q)
      | VIDEO_GRABBER_DISABLE \<Rightarrow>
          video_grabber_disable env thread (hq_session q) (hq_csrf q) (hq_confirmation q) (hq_client q)
      | LED_OUTPUT_ENABLE \<Rightarrow>
          led_output_enable env thread (hq_session q) (hq_csrf q) (hq_client q)
      | LED_OUTPUT_DISABLE \<Rightarrow>
          led_output_disable env thread (hq_session q) (hq_csrf q) (hq_confirmation q) (hq_client q))"

definition hyperhdr_request_call :: "hyperhdr_request \<Rightarrow> device_call" where
  "hyperhdr_request_call q = HyperHDR_Call (hq_operation q)"

section \<open>The authorisation policy\<close>

definition hyperhdr_permitted :: "hyperhdr_service \<Rightarrow> HyperHDROperation \<Rightarrow> bool" where
  "hyperhdr_permitted s operation \<longleftrightarrow>
     hv_authentication_enabled s \<and> hs_enabled (hv_settings s) \<and> hs_host (hv_settings s) \<noteq> None \<and>
     hs_port (hv_settings s) \<noteq> None \<and> hc_enabled (hs_controls (hv_settings s)) \<and>
     operation \<in> set (hc_allowed_operations (hs_controls (hv_settings s))) \<and>
     operation \<in> set (map hc_operation_id (hv_contracts s))"

definition hyperhdr_authorised :: "hyperhdr_service \<Rightarrow> hyperhdr_request \<Rightarrow> bool" where
  "hyperhdr_authorised s q \<longleftrightarrow>
     hyperhdr_permitted s (hq_operation q) \<and> csrf_matches (hq_session q) (hq_csrf q) \<and>
     (hq_operation q = VIDEO_GRABBER_DISABLE \<longrightarrow>
        hq_confirmation q = Some ''confirm_video_grabber_disable'') \<and>
     (hq_operation q = LED_OUTPUT_DISABLE \<longrightarrow>
        hq_confirmation q = Some ''confirm_led_output_disable'')"

lemma hyperhdr_authorised_iff:
  "hyperhdr_authorised s q \<longleftrightarrow>
     hyperhdr_permitted s (hq_operation q) \<and> csrf_matches (hq_session q) (hq_csrf q) \<and>
     (expected_confirmation (hq_operation q) \<noteq> None \<longrightarrow>
        hq_confirmation q = expected_confirmation (hq_operation q))"
  by (cases "hq_operation q")
    (simp_all add: hyperhdr_authorised_def VIDEO_GRABBER_DISABLE_CONFIRMATION_VALUE_def
      LED_OUTPUT_DISABLE_CONFIRMATION_VALUE_def)

lemma hyperhdr_authentication_failure_None:
  "hyperhdr_authentication_failure s operation session csrf w = None \<longleftrightarrow>
     hv_authentication_enabled s \<and> csrf_matches session csrf"
  by (auto simp: hyperhdr_authentication_failure_def csrf_matches_def split: option.split if_splits)

lemma hyperhdr_available_iff:
  "operation \<in> set (hyperhdr_available_operations s) \<longleftrightarrow> hyperhdr_permitted s operation"
  by (auto simp: hyperhdr_available_operations_def hyperhdr_permitted_def Let_def)

lemma hyperhdr_permitted_available:
  "hyperhdr_permitted s operation \<Longrightarrow> hyperhdr_availability s = HV_AVAILABLE"
  using hyperhdr_available_iff [of operation s]
  by (auto simp: hyperhdr_availability_def hyperhdr_permitted_def)

lemma hyperhdr_guards_None:
  "hyperhdr_guards s operation session csrf confirmation w = None \<longleftrightarrow>
     hyperhdr_permitted s operation \<and> csrf_matches session csrf \<and>
     (expected_confirmation operation \<noteq> None \<longrightarrow> confirmation = expected_confirmation operation)"
proof (cases "hyperhdr_authentication_failure s operation session csrf w")
  case (Some d)
  then show ?thesis using hyperhdr_authentication_failure_None [of s operation session csrf w]
    by (auto simp: hyperhdr_guards_def hyperhdr_permitted_def)
next
  case None
  then have auth: "csrf_matches session csrf"
    by (simp add: hyperhdr_authentication_failure_None)
  show ?thesis
  proof (cases "hyperhdr_permitted s operation")
    case True
    then show ?thesis using auth hyperhdr_permitted_available [OF True]
      by (auto simp: hyperhdr_guards_def None hyperhdr_available_iff split: option.split)
  next
    case False
    then show ?thesis by (simp add: hyperhdr_guards_def None hyperhdr_available_iff)
  qed
qed

text \<open>A denial leaves everything but the audit trail as it was.\<close>

definition hyperhdr_denied_to ::
  "HyperHDROperation \<Rightarrow> control_world \<Rightarrow> HyperHDRControlResult \<Rightarrow> control_world \<Rightarrow> bool" where
  "hyperhdr_denied_to operation w r w' \<longleftrightarrow>
     hs_status r = HS_DENIED \<and> gates w' = gates w \<and> device_calls w' = device_calls w \<and>
     invalidations w' = invalidations w \<and> clock_reads w' = clock_reads w \<and>
     (\<exists>new event. audit_trail w' = audit_trail w @ new @
        [audit_operation_entry event (hs_reason r) (Op_HyperHDR operation)] \<and>
        event \<in> {HYPERHDR_OPERATION_DENIED, HYPERHDR_CONFIRMATION_REJECTED})"

lemma hyperhdr_deny_denied [simp]:
  "hyperhdr_denied_to operation w (fst (hyperhdr_deny operation reason w))
     (snd (hyperhdr_deny operation reason w))"
  "hyperhdr_denied_to operation w (fst (hyperhdr_deny operation reason (audit e r w)))
     (snd (hyperhdr_deny operation reason (audit e r w)))"
  "hyperhdr_denied_to operation w (fst (hyperhdr_confirmation_denied operation reason w))
     (snd (hyperhdr_confirmation_denied operation reason w))"
  by (auto simp: hyperhdr_denied_to_def hyperhdr_deny_def hyperhdr_audit_denied_def
      hyperhdr_confirmation_denied_def frame_simps)

lemma hyperhdr_authentication_failure_Some:
  "hyperhdr_authentication_failure s operation session csrf w = Some d \<Longrightarrow>
     hyperhdr_denied_to operation w (fst d) (snd d)"
  by (auto simp: hyperhdr_authentication_failure_def split: option.splits if_splits)

lemma hyperhdr_guards_Some:
  "hyperhdr_guards s operation session csrf confirmation w = Some d \<Longrightarrow>
     hyperhdr_denied_to operation w (fst d) (snd d)"
  by (auto simp: hyperhdr_guards_def dest: hyperhdr_authentication_failure_Some
      split: option.splits if_splits)

section \<open>Serving a request\<close>

abbreviation hyperhdr_attempt ::
  "control_env \<Rightarrow> hyperhdr_request \<Rightarrow> hyperhdr_service \<Rightarrow> control_world \<Rightarrow> bool \<times> limiter" where
  "hyperhdr_attempt env q s w \<equiv>
     begin_attempt (env_blake env) (env_clock env (clock_reads w)) (hq_client q) (hv_limiter s)"

text \<open>The three ways a request is served: denied, rate limited, or admitted to the gate.\<close>

definition hyperhdr_served ::
  "control_env \<Rightarrow> nat \<Rightarrow> hyperhdr_request \<Rightarrow> hyperhdr_service \<Rightarrow> control_world \<Rightarrow> bool" where
  "hyperhdr_served env thread q s w \<longleftrightarrow>
     (if \<not> hyperhdr_authorised s q then
        \<exists>d. hyperhdr_serve env thread q (s, w) = (Some (fst d), (s, snd d)) \<and>
          hyperhdr_denied_to (hq_operation q) w (fst d) (snd d)
      else if \<not> fst (hyperhdr_attempt env q s w) then
        hyperhdr_serve env thread q (s, w) =
          (Some \<lparr>hs_status = HS_RATE_LIMITED, hs_reason = AR_OPERATION_LIMIT\<rparr>,
           (s\<lparr>hv_limiter := snd (hyperhdr_attempt env q s w)\<rparr>,
            audit_operation HYPERHDR_OPERATION_RATE_LIMITED AR_OPERATION_LIMIT
              (Op_HyperHDR (hq_operation q)) (snd (read_clock env w))))
      else
        hyperhdr_serve env thread q (s, w) =
          (let out = hyperhdr_admitted_run env thread (hq_operation q) s (snd (read_clock env w))
           in (fst out, (s\<lparr>hv_limiter := snd (hyperhdr_attempt env q s w)\<rparr>, snd out))))"

lemma hyperhdr_serve_run:
  "\<exists>confirmation. hyperhdr_serve env thread q =
     hyperhdr_run env thread (hq_operation q) (hq_session q) (hq_csrf q) (hq_client q) confirmation \<and>
   (expected_confirmation (hq_operation q) \<noteq> None \<longrightarrow> confirmation = hq_confirmation q)"
  by (cases "hq_operation q")
    (auto simp: hyperhdr_serve_def video_grabber_enable_def video_grabber_disable_def
      led_output_enable_def led_output_disable_def)

lemma hyperhdr_serve_served:
  assumes ready: "hyperhdr_ready (s, w)"
  shows "hyperhdr_served env thread q s w"
proof -
  obtain confirmation where run: "hyperhdr_serve env thread q = hyperhdr_run env thread (hq_operation q)
        (hq_session q) (hq_csrf q) (hq_client q) confirmation"
    and conf: "expected_confirmation (hq_operation q) \<noteq> None \<longrightarrow> confirmation = hq_confirmation q"
    using hyperhdr_serve_run by blast
  let ?guards = "hyperhdr_guards s (hq_operation q) (hq_session q) (hq_csrf q) confirmation w"
  have auth: "hyperhdr_authorised s q \<longleftrightarrow> ?guards = None"
    using conf by (auto simp: hyperhdr_authorised_iff hyperhdr_guards_None)
  show ?thesis
  proof (cases ?guards)
    case (Some d)
    then have "hyperhdr_serve env thread q (s, w) = (Some (fst d), (s, snd d))"
      by (simp add: run hyperhdr_run_eq [OF ready] split: prod.split)
    then show ?thesis using auth Some hyperhdr_guards_Some [OF Some]
      by (auto simp: hyperhdr_served_def)
  next
    case None
    then show ?thesis using auth
      by (auto simp: hyperhdr_served_def run hyperhdr_run_eq [OF ready] Let_def)
  qed
qed

section \<open>The outcome of an admitted request\<close>

text \<open>The audit events that go with a status.\<close>

fun hyperhdr_status_events :: "HyperHDRControlStatus \<Rightarrow> AuditEvent set" where
  "hyperhdr_status_events HS_VERIFIED = {HYPERHDR_OPERATION_SUCCEEDED}"
| "hyperhdr_status_events HS_DENIED = {HYPERHDR_OPERATION_DENIED, HYPERHDR_CONFIRMATION_REJECTED}"
| "hyperhdr_status_events HS_RATE_LIMITED = {HYPERHDR_OPERATION_RATE_LIMITED}"
| "hyperhdr_status_events HS_BUSY = {HYPERHDR_OPERATION_BUSY}"
| "hyperhdr_status_events HS_FAILED = {HYPERHDR_OPERATION_FAILED}"
| "hyperhdr_status_events HS_UNVERIFIED = {HYPERHDR_STATE_VERIFICATION_FAILED}"

lemma hyperhdr_conclude_frame [frame_simps]:
  "gates (snd (hyperhdr_conclude env operation result w)) = gates w"
  "device_calls (snd (hyperhdr_conclude env operation result w)) = device_calls w"
  "clock_reads (snd (hyperhdr_conclude env operation result w)) = clock_reads w"
  by (simp_all add: hyperhdr_conclude_def Let_def case_prod_beta frame_simps)

lemma hyperhdr_conclude_verified:
  "(\<exists>r. fst (hyperhdr_conclude env operation result w) = Some r \<and> hs_status r = HS_VERIFIED) \<longleftrightarrow>
     hr_verified result \<and> env_invalidator env (invalidations w)"
  by (auto simp: hyperhdr_conclude_def Let_def case_prod_beta frame_simps)

lemma hyperhdr_conclude_invalidations:
  "invalidations (snd (hyperhdr_conclude env operation result w)) =
     (if hr_verified result then Suc (invalidations w) else invalidations w)"
  by (simp add: hyperhdr_conclude_def Let_def case_prod_beta frame_simps)

lemma hyperhdr_conclude_audit:
  "\<exists>event reason. audit_trail (snd (hyperhdr_conclude env operation result w)) =
      audit_trail w @ [audit_operation_entry event reason (Op_HyperHDR operation)] \<and>
    (case fst (hyperhdr_conclude env operation result w) of
       None \<Rightarrow> event = HYPERHDR_OPERATION_SUCCEEDED \<and> reason = AR_VERIFIED
     | Some r \<Rightarrow> event \<in> hyperhdr_status_events (hs_status r) \<and> reason = hs_reason r)"
  by (auto simp: hyperhdr_conclude_def Let_def case_prod_beta frame_simps)

lemma hyperhdr_admitted_frame [frame_simps]:
  "gates (snd (hyperhdr_admitted_run env thread operation s w)) = gates w"
  "clock_reads (snd (hyperhdr_admitted_run env thread operation s w)) = clock_reads w"
  by (simp_all add: hyperhdr_admitted_run_def hyperhdr_audit_denied_def Let_def frame_simps split: option.split)

text \<open>The device is called when the gate is free for the thread and there is an adapter.\<close>

definition hyperhdr_may_call :: "nat \<Rightarrow> hyperhdr_service \<Rightarrow> control_world \<Rightarrow> bool" where
  "hyperhdr_may_call thread s w \<longleftrightarrow>
     (owner (gates w (hv_gate s)) = None \<or> owner (gates w (hv_gate s)) = Some thread) \<and>
     hv_adapter s \<noteq> None"

lemma hyperhdr_admitted_calls:
  "device_calls (snd (hyperhdr_admitted_run env thread operation s w)) =
     device_calls w @
       (if hyperhdr_may_call thread s w
        then [(HyperHDR_Call operation, hr_verified (hyperhdr_outcome (the (hv_adapter s)) operation w))]
        else [])"
  by (auto simp: hyperhdr_admitted_run_def hyperhdr_may_call_def gate_acquire_iff hyperhdr_audit_denied_def Let_def frame_simps
      split: option.split)

lemma hyperhdr_admitted_verified:
  "(\<exists>r. fst (hyperhdr_admitted_run env thread operation s w) = Some r \<and> hs_status r = HS_VERIFIED) \<longleftrightarrow>
     hyperhdr_may_call thread s w \<and> hr_verified (hyperhdr_outcome (the (hv_adapter s)) operation w) \<and>
     env_invalidator env (invalidations w)"
  by (auto simp: hyperhdr_admitted_run_def hyperhdr_may_call_def gate_acquire_iff Let_def hyperhdr_conclude_verified frame_simps
      split: option.split)

lemma hyperhdr_admitted_heard:
  "heard (env_invalidator env) w (snd (hyperhdr_admitted_run env thread operation s w))
    (if \<exists>r. fst (hyperhdr_admitted_run env thread operation s w) = Some r \<and> hs_status r = HS_VERIFIED
     then [HyperHDR_Call operation] else [])"
proof -
  have "invalidations (snd (hyperhdr_admitted_run env thread operation s w)) =
      (if hyperhdr_may_call thread s w \<and> hr_verified (hyperhdr_outcome (the (hv_adapter s)) operation w)
       then Suc (invalidations w) else invalidations w)"
    by (auto simp: hyperhdr_admitted_run_def hyperhdr_may_call_def gate_acquire_iff hyperhdr_audit_denied_def
        Let_def frame_simps hyperhdr_conclude_invalidations split: option.split)
  then show ?thesis
    by (simp add: heard_def hyperhdr_admitted_calls hyperhdr_admitted_verified)
qed

lemma hyperhdr_admitted_audit:
  "\<exists>event reason. audit_trail (snd (hyperhdr_admitted_run env thread operation s w)) =
      audit_trail w @ [audit_operation_entry event reason (Op_HyperHDR operation)] \<and>
    (case fst (hyperhdr_admitted_run env thread operation s w) of
       None \<Rightarrow> event = HYPERHDR_OPERATION_SUCCEEDED \<and> reason = AR_VERIFIED
     | Some r \<Rightarrow> event \<in> hyperhdr_status_events (hs_status r) \<and> reason = hs_reason r)"
proof (cases "fst (gate_acquire thread (gates w (hv_gate s))) \<and> hv_adapter s \<noteq> None")
  case True
  then obtain execute where "hv_adapter s = Some execute" by blast
  then show ?thesis using True hyperhdr_conclude_audit [of env operation "hyperhdr_outcome execute operation w"
        "record_call (HyperHDR_Call operation) (hr_verified (hyperhdr_outcome execute operation w)) w"]
    by (simp add: hyperhdr_admitted_run_def Let_def frame_simps)
qed (auto simp: hyperhdr_admitted_run_def hyperhdr_audit_denied_def frame_simps split: option.splits)

section \<open>The contract holds\<close>

lemma hyperhdr_ready_limiter:
  "hyperhdr_ready (s, w) \<Longrightarrow> gates w' = gates w \<Longrightarrow>
    hyperhdr_ready (s\<lparr>hv_limiter := snd (begin_attempt blake now c (hv_limiter s))\<rparr>, w')"
  by (simp add: hyperhdr_ready_def limiter_inv_begin_attempt)

lemma hyperhdr_ready_frame: "hyperhdr_ready (s, w) \<Longrightarrow> gates w' = gates w \<Longrightarrow> hyperhdr_ready (s, w')"
  by (simp add: hyperhdr_ready_def)

lemma hyperhdr_serve_ready:
  assumes "hyperhdr_ready st"
  shows "hyperhdr_ready (snd (hyperhdr_serve env thread q st)) \<and>
    gates (snd (snd (hyperhdr_serve env thread q st))) = gates (snd st)"
proof -
  obtain s w where st: "st = (s, w)" by (cases st)
  then have ready: "hyperhdr_ready (s, w)" using assms by simp
  from hyperhdr_serve_served [OF this, of env thread q] show ?thesis
    using hyperhdr_ready_limiter [OF ready] hyperhdr_ready_frame [OF ready] unfolding st hyperhdr_served_def
    by (auto simp: Let_def frame_simps hyperhdr_denied_to_def split: if_splits)
qed

text \<open>Serving changes nothing in the service but its limiter.\<close>

lemma hyperhdr_serve_fields:
  assumes "hyperhdr_ready (s, w)"
  shows "\<exists>l. fst (snd (hyperhdr_serve env thread q (s, w))) = s\<lparr>hv_limiter := l\<rparr>"
proof -
  have "\<exists>l. s = s\<lparr>hv_limiter := l\<rparr>" by (rule exI [of _ "hv_limiter s"]) simp
  then show ?thesis using hyperhdr_serve_served [OF assms, of env thread q]
    by (auto simp: hyperhdr_served_def Let_def split: if_splits)
qed

lemma hyperhdr_serve_calls:
  assumes "hyperhdr_ready (s, w)"
  shows "\<exists>new. device_calls (snd (snd (hyperhdr_serve env thread q (s, w)))) = device_calls w @ new \<and>
    (new \<noteq> [] \<longleftrightarrow> hyperhdr_authorised s q \<and> fst (hyperhdr_attempt env q s w) \<and> hyperhdr_may_call thread s w) \<and>
    one_call (hyperhdr_request_call q)
      (\<exists>r. fst (hyperhdr_serve env thread q (s, w)) = Some r \<and> hs_status r = HS_VERIFIED) new"
proof -
  let ?w1 = "snd (read_clock env w)"
  have may: "hyperhdr_may_call thread s ?w1 \<longleftrightarrow> hyperhdr_may_call thread s w" by (simp add: hyperhdr_may_call_def frame_simps)
  from hyperhdr_serve_served [OF assms, of env thread q] consider
      (quiet) "\<not> (hyperhdr_authorised s q \<and> fst (hyperhdr_attempt env q s w))"
        "device_calls (snd (snd (hyperhdr_serve env thread q (s, w)))) = device_calls w"
        "\<nexists>r. fst (hyperhdr_serve env thread q (s, w)) = Some r \<and> hs_status r = HS_VERIFIED"
    | (admitted) "hyperhdr_authorised s q" "fst (hyperhdr_attempt env q s w)"
        "hyperhdr_request_call q = HyperHDR_Call (hq_operation q)"
        "hyperhdr_serve env thread q (s, w) =
          (let out = hyperhdr_admitted_run env thread (hq_operation q) s ?w1
           in (fst out, (s\<lparr>hv_limiter := snd (hyperhdr_attempt env q s w)\<rparr>, snd out)))"
    unfolding hyperhdr_served_def
    by (auto simp: hyperhdr_denied_to_def hyperhdr_request_call_def frame_simps split: if_splits)
  then show ?thesis
  proof cases
    case quiet
    then show ?thesis by (auto simp: one_call_def)
  next
    case admitted
    let ?op = "hq_operation q"
    let ?new = "if hyperhdr_may_call thread s ?w1
        then [(HyperHDR_Call ?op, hr_verified (hyperhdr_outcome (the (hv_adapter s)) ?op ?w1))] else []"
    show ?thesis
    proof (intro exI [of _ ?new] conjI)
      show "device_calls (snd (snd (hyperhdr_serve env thread q (s, w)))) = device_calls w @ ?new"
        by (simp add: admitted(4) Let_def hyperhdr_admitted_calls frame_simps)
      show "?new \<noteq> [] \<longleftrightarrow> hyperhdr_authorised s q \<and> fst (hyperhdr_attempt env q s w) \<and> hyperhdr_may_call thread s w"
        using admitted(1,2) may by simp
      show "one_call (hyperhdr_request_call q)
          (\<exists>r. fst (hyperhdr_serve env thread q (s, w)) = Some r \<and> hs_status r = HS_VERIFIED) ?new"
        using admitted(3) by (simp add: admitted(4) Let_def hyperhdr_admitted_verified one_call_def)
    qed
  qed
qed

lemma hyperhdr_serve_heard:
  assumes "hyperhdr_ready (s, w)"
  shows "heard (env_invalidator env) w (snd (snd (hyperhdr_serve env thread q (s, w))))
    (if \<exists>r. fst (hyperhdr_serve env thread q (s, w)) = Some r \<and> hs_status r = HS_VERIFIED
     then [hyperhdr_request_call q] else [])"
proof -
  let ?w1 = "snd (read_clock env w)"
  note served = hyperhdr_serve_served [OF assms, of env thread q]
  show ?thesis
  proof (cases "hyperhdr_authorised s q \<and> fst (hyperhdr_attempt env q s w)")
    case True
    then have "hyperhdr_serve env thread q (s, w) =
        (let out = hyperhdr_admitted_run env thread (hq_operation q) s ?w1
         in (fst out, (s\<lparr>hv_limiter := snd (hyperhdr_attempt env q s w)\<rparr>, snd out)))"
      using served by (auto simp: hyperhdr_served_def)
    then show ?thesis
      using hyperhdr_admitted_heard [of env ?w1 thread "hq_operation q" s]
      by (simp only: Let_def fst_conv snd_conv heard_clock hyperhdr_request_call_def)
  next
    case False
    then show ?thesis using served
      by (auto simp: hyperhdr_served_def hyperhdr_denied_to_def frame_simps intro!: heard_nothing
          split: if_splits)
  qed
qed

lemma hyperhdr_serve_audit:
  assumes "hyperhdr_ready (s, w)"
  shows "\<exists>new event reason. audit_trail (snd (snd (hyperhdr_serve env thread q (s, w)))) =
      audit_trail w @ new @ [audit_operation_entry event reason (Op_HyperHDR (hq_operation q))] \<and>
    (case fst (hyperhdr_serve env thread q (s, w)) of
       None \<Rightarrow> event = HYPERHDR_OPERATION_SUCCEEDED \<and> reason = AR_VERIFIED
     | Some r \<Rightarrow> event \<in> hyperhdr_status_events (hs_status r) \<and> reason = hs_reason r)"
proof -
  let ?w1 = "snd (read_clock env w)"
  note served = hyperhdr_serve_served [OF assms, of env thread q]
  show ?thesis
  proof (cases "hyperhdr_authorised s q \<and> fst (hyperhdr_attempt env q s w)")
    case True
    then have "hyperhdr_serve env thread q (s, w) =
        (let out = hyperhdr_admitted_run env thread (hq_operation q) s ?w1
         in (fst out, (s\<lparr>hv_limiter := snd (hyperhdr_attempt env q s w)\<rparr>, snd out)))"
      using served by (auto simp: hyperhdr_served_def)
    then show ?thesis
      using hyperhdr_admitted_audit [of env thread "hq_operation q" s ?w1]
      by (intro exI [of _ "[]"]) (simp add: Let_def frame_simps)
  next
    case False
    then show ?thesis using served
      by (auto simp: hyperhdr_served_def hyperhdr_denied_to_def frame_simps split: if_splits)
  qed
qed

text \<open>A request is busy only when another thread holds the gate.\<close>

lemma hyperhdr_conclude_not_busy:
  "fst (hyperhdr_conclude env operation result w) = Some r \<Longrightarrow> hs_status r \<noteq> HS_BUSY"
  by (auto simp: hyperhdr_conclude_def Let_def case_prod_beta split: if_splits)

lemma hyperhdr_serve_busy:
  assumes "hyperhdr_ready (s, w)" and "fst (hyperhdr_serve env thread q (s, w)) = Some r"
    and "hs_status r = HS_BUSY"
  shows "owner (gates w (hv_gate s)) \<notin> {None, Some thread}"
proof -
  have "\<not> fst (gate_acquire thread (gates w (hv_gate s)))"
    using hyperhdr_serve_served [OF assms(1), of env thread q] assms(2,3) hyperhdr_conclude_not_busy
    by (auto simp: hyperhdr_served_def hyperhdr_denied_to_def hyperhdr_admitted_run_def Let_def frame_simps
        split: if_splits option.splits)
  then show ?thesis by (auto simp: gate_acquire_iff)
qed

interpretation hyperhdr_requests: device_service "hyperhdr_serve env thread" snd hyperhdr_ready hyperhdr_request_call
    "\<lambda>r. hs_status r = HS_VERIFIED" "env_invalidator env" for env thread
proof unfold_locales
  fix st q
  assume ready: "hyperhdr_ready st"
  obtain s w where st: "st = (s, w)" by (cases st)
  note ready' = ready [unfolded st]
  show "hyperhdr_ready (snd (hyperhdr_serve env thread q st))"
    and "gates (snd (snd (hyperhdr_serve env thread q st))) = gates (snd st)"
    using hyperhdr_serve_ready [OF ready] by simp_all
  show "\<exists>new. device_calls (snd (snd (hyperhdr_serve env thread q st))) = device_calls (snd st) @ new \<and>
      one_call (hyperhdr_request_call q)
        (\<exists>r. fst (hyperhdr_serve env thread q st) = Some r \<and> hs_status r = HS_VERIFIED) new"
    using hyperhdr_serve_calls [OF ready', of env thread q] unfolding st by auto
  show "\<exists>new. audit_trail (snd (snd (hyperhdr_serve env thread q st))) = audit_trail (snd st) @ new \<and>
      (fst (hyperhdr_serve env thread q st) \<noteq> None \<longrightarrow> new \<noteq> [])"
    using hyperhdr_serve_audit [OF ready', of env thread q] unfolding st by fastforce
  show "heard (env_invalidator env) (snd st) (snd (snd (hyperhdr_serve env thread q st)))
      (if \<exists>r. fst (hyperhdr_serve env thread q st) = Some r \<and> hs_status r = HS_VERIFIED
       then [hyperhdr_request_call q] else [])"
    using hyperhdr_serve_heard [OF ready', of env thread q] unfolding st by simp
qed

section \<open>Requests over time\<close>

text \<open>
  A request as a timed event, with the thread that serves it and the environment at that time.
  The first result of \<open>hyperhdr_call_step\<close> is whether a
  device call was made, that of \<open>hyperhdr_admit_step\<close> whether the limiter was asked and accepted.
\<close>

definition hyperhdr_call_step ::
  "seconds \<Rightarrow> control_env \<times> nat \<times> hyperhdr_request \<Rightarrow> hyperhdr_service \<times> control_world \<Rightarrow>
     bool \<times> (hyperhdr_service \<times> control_world)" where
  "hyperhdr_call_step t = (\<lambda>(env, thread, q) st.
     let st' = snd (hyperhdr_serve (at_time t env) thread q st)
     in (length (device_calls (snd st)) < length (device_calls (snd st')), st'))"

definition hyperhdr_admit_step ::
  "seconds \<Rightarrow> control_env \<times> nat \<times> hyperhdr_request \<Rightarrow> hyperhdr_service \<times> control_world \<Rightarrow>
     bool \<times> (hyperhdr_service \<times> control_world)" where
  "hyperhdr_admit_step t = (\<lambda>(env, thread, q) st.
     (hyperhdr_authorised (fst st) q \<and> fst (hyperhdr_attempt (at_time t env) q (fst st) (snd st)),
      snd (hyperhdr_serve (at_time t env) thread q st)))"

lemma hyperhdr_serve_limiter:
  assumes "hyperhdr_ready (s, w)"
  shows "hv_limiter (fst (snd (hyperhdr_serve env thread q (s, w)))) =
    (if hyperhdr_authorised s q then snd (hyperhdr_attempt env q s w) else hv_limiter s)"
  using hyperhdr_serve_served [OF assms, of env thread q]
  by (auto simp: hyperhdr_served_def Let_def split: if_splits)

interpretation hyperhdr_window: window_counter hyperhdr_admit_step "\<lambda>_. True" hyperhdr_ready
    "\<lambda>st. global_attempts (hv_limiter (fst st))" "\<lambda>st. window_seconds (hv_limiter (fst st))"
    "\<lambda>st. global_attempt_limit (hv_limiter (fst st))"
proof unfold_locales
  fix st :: "hyperhdr_service \<times> control_world" and e :: "control_env \<times> nat \<times> hyperhdr_request" and t :: seconds
  assume ready: "hyperhdr_ready st"
  obtain s w where st: "st = (s, w)" by (cases st)
  obtain env thread q where e: "e = (env, thread, q)" by (cases e)
  have inv: "limiter_inv (hv_limiter s)" using ready by (simp add: hyperhdr_ready_def st)
  note limiter = hyperhdr_serve_limiter [OF ready [unfolded st], of "at_time t env" thread q]
  let ?l = "hv_limiter s" and ?st = "snd (hyperhdr_admit_step t e st)"
  let ?attempt = "limiter_step (env_blake env) t (Begin (hq_client q)) ?l"
  have step: "hv_limiter (fst ?st) = (if hyperhdr_authorised s q then snd ?attempt else ?l)"
    "fst (hyperhdr_admit_step t e st) \<longleftrightarrow> hyperhdr_authorised s q \<and> fst ?attempt"
    using limiter by (simp_all add: hyperhdr_admit_step_def e st at_time_def)
  note bounds = limiter_step_same_bounds [OF inv, of "env_blake env" t "Begin (hq_client q)"]
  show "hyperhdr_ready ?st"
    using hyperhdr_serve_ready [OF ready] by (simp add: hyperhdr_admit_step_def e)
  show "0 < window_seconds (hv_limiter (fst st)) \<and> 0 \<le> global_attempt_limit (hv_limiter (fst st))"
    using limiter_inv_global_pos [OF inv] limiter_invD(2) [OF inv] by (simp add: st)
  show "window_seconds (hv_limiter (fst ?st)) = window_seconds (hv_limiter (fst st)) \<and>
      global_attempt_limit (hv_limiter (fst ?st)) = global_attempt_limit (hv_limiter (fst st))"
    using bounds unfolding step by (simp add: st same_bounds_def)
  show "recent (t - window_seconds (hv_limiter (fst st))) (global_attempts (hv_limiter (fst ?st))) =
      recent (t - window_seconds (hv_limiter (fst st))) (global_attempts (hv_limiter (fst st))) @
      (if fst (hyperhdr_admit_step t e st) then [t] else [])"
    using global_live_step [OF inv, of t "env_blake env" "Begin (hq_client q)"]
    unfolding step by (simp add: st)
  show "int (length (recent (t - window_seconds (hv_limiter (fst st))) (global_attempts (hv_limiter (fst st)))))
      < global_attempt_limit (hv_limiter (fst st))" if "fst (hyperhdr_admit_step t e st)"
    using global_cap_step [OF inv, of "env_blake env" t "Begin (hq_client q)"] that
    unfolding step by (simp add: st)
qed

lemma hyperhdr_call_step_admitted:
  assumes "hyperhdr_ready st"
  shows "snd (hyperhdr_call_step t e st) = snd (hyperhdr_admit_step t e st)"
    and "fst (hyperhdr_call_step t e st) \<Longrightarrow> fst (hyperhdr_admit_step t e st)"
proof -
  obtain s w where st: "st = (s, w)" by (cases st)
  obtain env thread q where e: "e = (env, thread, q)" by (cases e)
  show "snd (hyperhdr_call_step t e st) = snd (hyperhdr_admit_step t e st)"
    by (simp add: hyperhdr_call_step_def hyperhdr_admit_step_def e Let_def)
  show "fst (hyperhdr_admit_step t e st)" if "fst (hyperhdr_call_step t e st)"
    using that hyperhdr_serve_calls [OF assms [unfolded st], of "at_time t env" thread q]
    by (auto simp: hyperhdr_call_step_def hyperhdr_admit_step_def e st Let_def)
qed

section \<open>Properties\<close>

lemma new_hyperhdr_service_fields:
  assumes "new_hyperhdr_service net_post net_get upper loads settings auth adapter key i = Some s"
  shows "new_limiter (hc_operation_limit (hs_controls settings))
      (of_int (hc_operation_window_seconds (hs_controls settings))) key MAX_TRACKED_CLIENTS =
      Some (hv_limiter s)" "\<not> hv_lock s" "hv_gate s = i" "hv_settings s = settings"
    "hv_authentication_enabled s = auth"
    "map hc_operation_id (hv_contracts s) =
      [VIDEO_GRABBER_ENABLE, VIDEO_GRABBER_DISABLE, LED_OUTPUT_ENABLE, LED_OUTPUT_DISABLE]"
  using assms hyperhdr_registry_ids
  by (fastforce simp: new_hyperhdr_service_def split: sum.splits option.splits)+

text \<open>
  C3. A HyperHDR request makes at most one adapter call, the one it asks for, and makes it
  exactly when the configuration permits the operation, the session is present and its CSRF
  token matches, a disabling operation carries its own confirmation value, the limiter accepts
  the client and no other thread holds the shared gate.
\<close>

theorem hyperhdr_device_called_iff:
  assumes "hyperhdr_ready (s, w)"
  shows "\<exists>new. device_calls (snd (snd (hyperhdr_serve env thread q (s, w)))) = device_calls w @ new \<and>
    set (map fst new) \<subseteq> {hyperhdr_request_call q} \<and> length new \<le> 1 \<and>
    (new \<noteq> [] \<longleftrightarrow> hyperhdr_authorised s q \<and>
      fst (begin_attempt (env_blake env) (env_clock env (clock_reads w)) (hq_client q) (hv_limiter s)) \<and>
      owner (gates w (hv_gate s)) \<in> {None, Some thread} \<and> hv_adapter s \<noteq> None)"
proof -
  obtain new v where new: "device_calls (snd (snd (hyperhdr_serve env thread q (s, w)))) = device_calls w @ new"
      "new \<noteq> [] \<longleftrightarrow> hyperhdr_authorised s q \<and> fst (hyperhdr_attempt env q s w) \<and> hyperhdr_may_call thread s w"
      "one_call (hyperhdr_request_call q) v new"
    using hyperhdr_serve_calls [OF assms, of env thread q] by blast
  have "set (map fst new) \<subseteq> {hyperhdr_request_call q}" "length new \<le> 1"
    using new(3) by (auto simp: one_call_def split: if_splits)
  then show ?thesis using new(1,2) by (auto simp: hyperhdr_may_call_def)
qed

definition sample_hyperhdr_settings :: HyperHDRSettings where
  "sample_hyperhdr_settings =
     \<lparr>hs_enabled = True, hs_host = Some ''hdr'', hs_port = Some 8090, hs_validation_timeout_seconds = 2,
      hs_controls = \<lparr>hc_enabled = True,
        hc_allowed_operations = [VIDEO_GRABBER_ENABLE, VIDEO_GRABBER_DISABLE, LED_OUTPUT_ENABLE,
          LED_OUTPUT_DISABLE],
        hc_control_timeout = 2, hc_operation_limit = 1, hc_operation_window_seconds = 60\<rparr>\<rparr>"

definition sample_hyperhdr_executor :: hyperhdr_executor where
  "sample_hyperhdr_executor n operation =
     Some \<lparr>hr_verified = True, hr_acknowledged = True, hr_reason = HA_VERIFIED\<rparr>"

definition sample_hyperhdr_service :: hyperhdr_service where
  "sample_hyperhdr_service =
     \<lparr>hv_settings = sample_hyperhdr_settings, hv_authentication_enabled = True,
      hv_contracts = projr (hyperhdr_operation_registry 2), hv_limiter = sample_limiter,
      hv_lock = False, hv_gate = 0, hv_adapter = Some sample_hyperhdr_executor\<rparr>"

lemma sample_hyperhdr_ready: "hyperhdr_ready (sample_hyperhdr_service, sample_world)"
  by (simp add: hyperhdr_ready_def sample_hyperhdr_service_def sample_world_def sample_limiter_inv)

definition sample_hyperhdr_request :: hyperhdr_request where
  "sample_hyperhdr_request =
     HyperHDR_Request LED_OUTPUT_DISABLE sample_session (Some sample_token)
       (Some LED_OUTPUT_DISABLE_CONFIRMATION_VALUE) ''client''"

lemma sample_hyperhdr_authorised:
  "hyperhdr_authorised sample_hyperhdr_service sample_hyperhdr_request"
  using sample_tokens_valid [unfolded sample_tokens_def, simplified]
  by (simp add: hyperhdr_authorised_iff hyperhdr_permitted_def csrf_matches_def csrf_is_valid_def
      sample_session_def sample_hyperhdr_request_def sample_hyperhdr_service_def
      sample_hyperhdr_settings_def hyperhdr_operation_registry_def contract_simps sample_token_def)

theorem hyperhdr_device_called_iff_witness:
  "map fst (device_calls (snd (snd (hyperhdr_serve sample_env 3 sample_hyperhdr_request
     (sample_hyperhdr_service, sample_world))))) = [HyperHDR_Call LED_OUTPUT_DISABLE]"
proof -
  let ?q = sample_hyperhdr_request
  obtain new where new: "device_calls (snd (snd (hyperhdr_serve sample_env 3 ?q
        (sample_hyperhdr_service, sample_world)))) = device_calls sample_world @ new"
      "set (map fst new) \<subseteq> {hyperhdr_request_call ?q}" "length new \<le> 1" "new \<noteq> []"
    using hyperhdr_device_called_iff [OF sample_hyperhdr_ready, of sample_env 3 ?q]
      sample_hyperhdr_authorised sample_attempt
    by (auto simp: sample_hyperhdr_service_def sample_world_def new_gate_def)
  then show ?thesis
    by (cases new) (auto simp: sample_world_def hyperhdr_request_call_def sample_hyperhdr_request_def)
qed

text \<open>
  Every HyperHDR request restores the gates and the operation lock, and closes with one
  audit record of its operation that carries the reason of the result and an event of its
  status. When an adapter was called, the status is \<open>VERIFIED\<close> only for a verified result,
  \<open>UNVERIFIED\<close> for an acknowledged one and \<open>FAILED\<close> otherwise, so an operator is never told
  that an acknowledged operation failed.
\<close>

theorem hyperhdr_result_honest:
  assumes "hyperhdr_ready (s, w)" and "hyperhdr_serve env thread q (s, w) = (r, (s', w'))"
  shows "gates w' = gates w \<and> \<not> hv_lock s' \<and>
    (\<exists>new event reason. audit_trail w' =
        audit_trail w @ new @ [audit_operation_entry event reason (Op_HyperHDR (hq_operation q))] \<and>
      (case r of None \<Rightarrow> event = HYPERHDR_OPERATION_SUCCEEDED \<and> reason = AR_VERIFIED
       | Some x \<Rightarrow> event \<in> hyperhdr_status_events (hs_status x) \<and> reason = hs_reason x)) \<and>
    (device_calls w' = device_calls w \<or>
      (let result = hyperhdr_outcome (the (hv_adapter s)) (hq_operation q) w
       in device_calls w' = device_calls w @ [(HyperHDR_Call (hq_operation q), hr_verified result)] \<and>
         map_option hs_status r =
           (if hr_verified result
            then if env_invalidator env (invalidations w) then Some HS_VERIFIED else None
            else if hr_acknowledged result then Some HS_UNVERIFIED else Some HS_FAILED)))"
proof -
  let ?w1 = "snd (read_clock env w)"
  have out: "hyperhdr_outcome e op ?w1 = hyperhdr_outcome e op w" for e op
    by (simp add: hyperhdr_outcome_def frame_simps)
  note served = hyperhdr_serve_served [OF assms(1), of env thread q]
  have "device_calls w' = device_calls w \<or>
      (let result = hyperhdr_outcome (the (hv_adapter s)) (hq_operation q) w
       in device_calls w' = device_calls w @ [(HyperHDR_Call (hq_operation q), hr_verified result)] \<and>
         map_option hs_status r =
           (if hr_verified result
            then if env_invalidator env (invalidations w) then Some HS_VERIFIED else None
            else if hr_acknowledged result then Some HS_UNVERIFIED else Some HS_FAILED))"
  proof (cases "hyperhdr_authorised s q \<and> fst (hyperhdr_attempt env q s w) \<and> hyperhdr_may_call thread s w")
    case True
    then obtain execute where "hv_adapter s = Some execute" "fst (gate_acquire thread (gates ?w1 (hv_gate s)))"
      by (auto simp: hyperhdr_may_call_def gate_acquire_iff frame_simps)
    then show ?thesis using True served
      by (simp add: hyperhdr_served_def assms(2) Let_def hyperhdr_admitted_run_def out hyperhdr_conclude_def
          case_prod_beta frame_simps)
  next
    case False
    then show ?thesis using hyperhdr_serve_calls [OF assms(1), of env thread q]
      by (auto simp: assms(2))
  qed
  then show ?thesis
    using hyperhdr_serve_ready [OF assms(1), of env thread q] hyperhdr_serve_audit [OF assms(1), of env thread q]
    by (simp add: assms(2) hyperhdr_ready_def)
qed

theorem hyperhdr_result_honest_witness:
  "\<exists>r s' w'. hyperhdr_serve sample_env 3 sample_hyperhdr_request
      (sample_hyperhdr_service, sample_world) = (r, (s', w')) \<and> gates w' = gates sample_world"
proof -
  obtain r s' w' where run: "hyperhdr_serve sample_env 3 sample_hyperhdr_request
      (sample_hyperhdr_service, sample_world) = (r, (s', w'))"
    by (metis prod_cases3)
  from hyperhdr_result_honest [OF sample_hyperhdr_ready this] run show ?thesis by blast
qed

text \<open>
  The rate limit bounds the HyperHDR calls too: at most sixteen times the configured
  limit in any interval of the configured window, on whichever threads requests arrive.
\<close>

theorem hyperhdr_calls_bounded:
  assumes "new_hyperhdr_service net_post net_get upper loads settings auth adapter key i = Some s"
    and "gate_wf (gates w i)" and "sorted (map fst es)"
  shows "int (length (in_window a (of_int (hc_operation_window_seconds (hs_controls settings)))
      (map fst (counted hyperhdr_call_step es (s, w))))) \<le> hc_operation_limit (hs_controls settings) * 16"
proof -
  note fields = new_hyperhdr_service_fields [OF assms(1)]
  have ready: "hyperhdr_ready (s, w)"
    using fields(2,3) assms(2) limiter_inv_new [OF fields(1)] by (simp add: hyperhdr_ready_def)
  have "int (length (in_window a (window_seconds (hv_limiter s))
      (map fst (counted hyperhdr_admit_step es (s, w))))) \<le> global_attempt_limit (hv_limiter s)"
    using hyperhdr_window.window_bound [OF ready _ assms(3), of a] new_limiter_fields(6) [OF fields(1)]
    by (simp add: list_all_iff)
  moreover have "length (in_window a v (map fst (counted hyperhdr_call_step es (s, w))))
      \<le> length (in_window a v (map fst (counted hyperhdr_admit_step es (s, w))))" for v
    by (rule counted_mono [where I = hyperhdr_ready])
      (use ready hyperhdr_window.step_inv hyperhdr_call_step_admitted in auto)
  ultimately show ?thesis
    using new_limiter_fields(2,7) [OF fields(1)] by (smt (verit) of_nat_mono)
qed

theorem hyperhdr_calls_bounded_witness:
  "\<exists>s. new_hyperhdr_service (\<lambda>_ _ _. Open_Raised OS_Error) (\<lambda>_ _ _. Open_Raised OS_Error) id
      sample_hdr_loads sample_hyperhdr_settings True (Some sample_hyperhdr_executor) [1] 0 = Some s \<and>
    int (length (in_window 0 60 (map fst (counted hyperhdr_call_step
      [(1, (sample_env, 3, sample_hyperhdr_request))] (s, sample_world))))) \<le> 16"
proof -
  let ?new = "new_hyperhdr_service (\<lambda>_ _ _. Open_Raised OS_Error) (\<lambda>_ _ _. Open_Raised OS_Error) id
      sample_hdr_loads sample_hyperhdr_settings True (Some sample_hyperhdr_executor) [1] 0"
  obtain s where s: "?new = Some s"
    by (simp add: new_hyperhdr_service_def sample_hyperhdr_settings_def hyperhdr_operation_registry_def
        contract_simps new_limiter_def MAX_TRACKED_CLIENTS_def)
  from hyperhdr_calls_bounded [OF s, of sample_world "[(1, (sample_env, 3, sample_hyperhdr_request))]" 0]
  show ?thesis using s by (simp add: sample_world_def sample_hyperhdr_settings_def)
qed

end
