(* ===== verification/Ambient_Service.thy ===== *)
theory Ambient_Service
  imports Wled_Service Hyperhdr_Service "HOL-Library.Sublist"
begin

text \<open>
  \<open>control_plane/ambient_service.py\<close>: the composite operations that switch the ambient light on
  and off by at most three operations of the two device services, under one gate that all three
  services share. The child services are fields of the ambient service; a child call is a
  function on the pair of the ambient service and the shared world, and its result \<open>None\<close> is
  what \<open>_safe_child_call\<close> makes of an exception. Statuses carry the prefix \<open>AS_\<close>,
  availabilities \<open>AA_\<close>, steps \<open>Step_\<close>.
\<close>

section \<open>The service\<close>

record AmbientControlSettings =
  as_enabled :: bool
  as_allowed_operations :: "AuroraOperation list"
  as_operation_limit :: int
  as_operation_window_seconds :: int

datatype AmbientControlAvailability =
  AA_AUTHENTICATION_UNAVAILABLE | AA_CONTROLS_DISABLED | AA_NO_OPERATIONS
  | AA_REQUIRED_CHILDREN_UNAVAILABLE | AA_AVAILABLE

datatype AmbientControlStatus =
  AS_COMPLETED | AS_PARTIALLY_COMPLETED | AS_UNVERIFIED | AS_FAILED | AS_DENIED | AS_BUSY
  | AS_RATE_LIMITED

datatype AmbientControlStep =
  Step_VIDEO_GRABBER_ENABLE | Step_WLED_POWER_ON | Step_LED_OUTPUT_ENABLE
  | Step_LED_OUTPUT_DISABLE | Step_VIDEO_GRABBER_DISABLE | Step_WLED_POWER_OFF

record AmbientControlResult =
  am_status :: AmbientControlStatus
  am_attempted :: "AmbientControlStep list"
  am_verified :: "AmbientControlStep list"

datatype child_operation = Child_WLED_Op WLEDOperation | Child_HyperHDR_Op HyperHDROperation

datatype child_result = Child_WLED WLEDControlResult | Child_HyperHDR HyperHDRControlResult

text \<open>\<open>_AMBIENT_CHILDREN\<close> and \<open>_PARENT_AUDIT_EVENTS\<close>.\<close>

primrec ambient_children_of :: "AuroraOperation \<Rightarrow> child_operation list" where
  "ambient_children_of AMBIENT_ON =
     [Child_HyperHDR_Op VIDEO_GRABBER_ENABLE, Child_WLED_Op POWER_ON,
      Child_HyperHDR_Op LED_OUTPUT_ENABLE]"
| "ambient_children_of AMBIENT_OFF =
     [Child_HyperHDR_Op LED_OUTPUT_DISABLE, Child_HyperHDR_Op VIDEO_GRABBER_DISABLE,
      Child_WLED_Op POWER_OFF]"

primrec parent_audit_event :: "AmbientControlStatus \<Rightarrow> AuditEvent" where
  "parent_audit_event AS_COMPLETED = AURORA_OPERATION_SUCCEEDED"
| "parent_audit_event AS_PARTIALLY_COMPLETED = AURORA_OPERATION_PARTIALLY_COMPLETED"
| "parent_audit_event AS_UNVERIFIED = AURORA_OPERATION_UNVERIFIED"
| "parent_audit_event AS_FAILED = AURORA_OPERATION_FAILED"
| "parent_audit_event AS_DENIED = AURORA_OPERATION_DENIED"
| "parent_audit_event AS_BUSY = AURORA_OPERATION_BUSY"
| "parent_audit_event AS_RATE_LIMITED = AURORA_OPERATION_RATE_LIMITED"

record ambient_service =
  ab_settings :: AmbientControlSettings
  ab_authentication_enabled :: bool
  ab_wled :: wled_service
  ab_hyperhdr :: hyperhdr_service
  ab_gate :: nat
  ab_contracts :: "AmbientOperationContract list"
  ab_limiter :: limiter

type_synonym ambient_state = "ambient_service \<times> control_world"

text \<open>The constructor; it refuses children that do not hold the very same gate.\<close>

definition new_ambient_service ::
  "AmbientControlSettings \<Rightarrow> bool \<Rightarrow> wled_service \<Rightarrow> hyperhdr_service \<Rightarrow> nat \<Rightarrow> bytes \<Rightarrow>
     ambient_service option" where
  "new_ambient_service settings auth wled hyperhdr gate key =
     (if sv_gate wled \<noteq> gate \<or> hv_gate hyperhdr \<noteq> gate then None
      else
        (case ambient_operation_registry of
           Inl _ \<Rightarrow> None
         | Inr contracts \<Rightarrow>
             map_option (\<lambda>l.
               \<lparr>ab_settings = settings, ab_authentication_enabled = auth, ab_wled = wled,
                ab_hyperhdr = hyperhdr, ab_gate = gate, ab_contracts = contracts, ab_limiter = l\<rparr>)
             (new_limiter (as_operation_limit settings)
                (of_int (as_operation_window_seconds settings)) key MAX_TRACKED_CLIENTS)))"

definition child_available :: "ambient_service \<Rightarrow> child_operation \<Rightarrow> bool" where
  "child_available a child =
     (case child of
        Child_WLED_Op x \<Rightarrow> x \<in> set (wled_available_operations (ab_wled a))
      | Child_HyperHDR_Op x \<Rightarrow> x \<in> set (hyperhdr_available_operations (ab_hyperhdr a)))"

definition ambient_available_operations :: "ambient_service \<Rightarrow> AuroraOperation list" where
  "ambient_available_operations a =
     (if \<not> ab_authentication_enabled a \<or> \<not> as_enabled (ab_settings a) then []
      else
        (let configured = set (as_allowed_operations (ab_settings a))
         in filter (\<lambda>x. x \<in> configured \<and> list_all (child_available a) (ambient_children_of x))
              (map ac_operation_id (ab_contracts a))))"

definition ambient_availability :: "ambient_service \<Rightarrow> AmbientControlAvailability" where
  "ambient_availability a =
     (if \<not> ab_authentication_enabled a then AA_AUTHENTICATION_UNAVAILABLE
      else if \<not> as_enabled (ab_settings a) then AA_CONTROLS_DISABLED
      else if as_allowed_operations (ab_settings a) = [] then AA_NO_OPERATIONS
      else if ambient_available_operations a = [] then AA_REQUIRED_CHILDREN_UNAVAILABLE
      else AA_AVAILABLE)"

definition ambient_capabilities :: "ambient_service \<Rightarrow> ControlCapabilities" where
  "ambient_capabilities a =
     (let operations = map aurora_operation_value (ambient_available_operations a)
      in control_capabilities (operations \<noteq> []) operations)"

definition ambient_tracked_client_count :: "seconds \<Rightarrow> ambient_service \<Rightarrow> int \<times> ambient_service" where
  "ambient_tracked_client_count now a =
     (let (n, l) = tracked_client_count now (ab_limiter a) in (n, a\<lparr>ab_limiter := l\<rparr>))"

definition ambient_audit_denied :: "AuroraOperation \<Rightarrow> AuditReason \<Rightarrow> control_world \<Rightarrow> control_world" where
  "ambient_audit_denied operation reason w =
     audit_operation AURORA_OPERATION_DENIED reason (Op_Aurora operation) w"

section \<open>Results\<close>

definition ambient_finish ::
  "AuroraOperation \<Rightarrow> AmbientControlStatus \<Rightarrow> AuditReason \<Rightarrow> AmbientControlStep list \<Rightarrow>
     AmbientControlStep list \<Rightarrow> control_world \<Rightarrow> AmbientControlResult \<times> control_world" where
  "ambient_finish operation status reason attempted verified w =
     (\<lparr>am_status = status, am_attempted = attempted, am_verified = verified\<rparr>,
      audit_operation (parent_audit_event status) reason (Op_Aurora operation) w)"

definition child_verified :: "child_result option \<Rightarrow> bool" where
  "child_verified result =
     (case result of
        None \<Rightarrow> False
      | Some (Child_WLED r) \<Rightarrow> wr_status r = WS_VERIFIED
      | Some (Child_HyperHDR r) \<Rightarrow> hs_status r = HS_VERIFIED)"

text \<open>
  The table of \<open>_aggregate_child_status\<close>. It has no entry for \<open>VERIFIED\<close>: that lookup would be
  a \<open>KeyError\<close>, and the callers ask only for results that are not verified. \<open>None\<close> stands for it.
\<close>

fun child_status_table :: "child_result \<Rightarrow> AmbientControlStatus option" where
  "child_status_table (Child_WLED r) =
     (case wr_status r of
        WS_VERIFIED \<Rightarrow> None | WS_DENIED \<Rightarrow> Some AS_DENIED | WS_RATE_LIMITED \<Rightarrow> Some AS_RATE_LIMITED
      | WS_BUSY \<Rightarrow> Some AS_BUSY | WS_FAILED \<Rightarrow> Some AS_FAILED | WS_UNVERIFIED \<Rightarrow> Some AS_UNVERIFIED)"
| "child_status_table (Child_HyperHDR r) =
     (case hs_status r of
        HS_VERIFIED \<Rightarrow> None | HS_DENIED \<Rightarrow> Some AS_DENIED | HS_RATE_LIMITED \<Rightarrow> Some AS_RATE_LIMITED
      | HS_BUSY \<Rightarrow> Some AS_BUSY | HS_FAILED \<Rightarrow> Some AS_FAILED | HS_UNVERIFIED \<Rightarrow> Some AS_UNVERIFIED)"

definition aggregate_child_status :: "child_result option \<Rightarrow> bool \<Rightarrow> AmbientControlStatus option" where
  "aggregate_child_status result any_verified =
     (if any_verified then Some AS_PARTIALLY_COMPLETED
      else (case result of None \<Rightarrow> Some AS_FAILED | Some r \<Rightarrow> child_status_table r))"

fun child_reason :: "child_result \<Rightarrow> AuditReason" where
  "child_reason (Child_WLED r) = wr_reason r"
| "child_reason (Child_HyperHDR r) = hs_reason r"

definition aggregate_reason :: "child_result option \<Rightarrow> AmbientControlStatus \<Rightarrow> AuditReason" where
  "aggregate_reason result status =
     (if status = AS_PARTIALLY_COMPLETED then AR_PARTIAL_COMPLETION
      else (case result of None \<Rightarrow> AR_CONNECTION_FAILURE | Some r \<Rightarrow> child_reason r))"

section \<open>Child calls\<close>

definition on_wled ::
  "(wled_service \<times> control_world \<Rightarrow> WLEDControlResult option \<times> (wled_service \<times> control_world)) \<Rightarrow>
     ambient_state \<Rightarrow> child_result option \<times> ambient_state" where
  "on_wled call = (\<lambda>(a, w).
     let (r, (s, w1)) = call (ab_wled a, w)
     in (map_option Child_WLED r, (a\<lparr>ab_wled := s\<rparr>, w1)))"

definition on_hyperhdr ::
  "(hyperhdr_service \<times> control_world \<Rightarrow>
      HyperHDRControlResult option \<times> (hyperhdr_service \<times> control_world)) \<Rightarrow>
     ambient_state \<Rightarrow> child_result option \<times> ambient_state" where
  "on_hyperhdr call = (\<lambda>(a, w).
     let (r, (s, w1)) = call (ab_hyperhdr a, w)
     in (map_option Child_HyperHDR r, (a\<lparr>ab_hyperhdr := s\<rparr>, w1)))"

text \<open>The call of each step, with the session, the token and the client of the request.\<close>

primrec child_call ::
  "control_env \<Rightarrow> nat \<Rightarrow> SessionContext option \<Rightarrow> string option \<Rightarrow> string \<Rightarrow> AmbientControlStep \<Rightarrow>
     ambient_state \<Rightarrow> child_result option \<times> ambient_state" where
  "child_call env thread session csrf client Step_VIDEO_GRABBER_ENABLE =
     on_hyperhdr (video_grabber_enable env thread session csrf client)"
| "child_call env thread session csrf client Step_WLED_POWER_ON =
     on_wled (power_on env thread session csrf client)"
| "child_call env thread session csrf client Step_LED_OUTPUT_ENABLE =
     on_hyperhdr (led_output_enable env thread session csrf client)"
| "child_call env thread session csrf client Step_LED_OUTPUT_DISABLE =
     on_hyperhdr (led_output_disable env thread session csrf
       (Some LED_OUTPUT_DISABLE_CONFIRMATION_VALUE) client)"
| "child_call env thread session csrf client Step_VIDEO_GRABBER_DISABLE =
     on_hyperhdr (video_grabber_disable env thread session csrf
       (Some VIDEO_GRABBER_DISABLE_CONFIRMATION_VALUE) client)"
| "child_call env thread session csrf client Step_WLED_POWER_OFF =
     on_wled (power_off env thread session csrf (Some POWER_OFF_CONFIRMATION_VALUE) client)"

section \<open>The two composites\<close>

text \<open>
  The loop of \<open>_run_ambient_on\<close> over its pairs of a step and a call. The outer \<open>None\<close> would be
  the \<open>KeyError\<close> of the status table.
\<close>

fun ambient_on_loop ::
  "AuroraOperation \<Rightarrow> (AmbientControlStep \<times> (ambient_state \<Rightarrow> child_result option \<times> ambient_state)) list \<Rightarrow>
     AmbientControlStep list \<Rightarrow> AmbientControlStep list \<Rightarrow> ambient_state \<Rightarrow>
     AmbientControlResult option \<times> ambient_state" where
  "ambient_on_loop operation [] attempted verified (a, w) =
     (let (r, w1) = ambient_finish operation AS_COMPLETED AR_VERIFIED attempted verified w
      in (Some r, (a, w1)))"
| "ambient_on_loop operation ((step, call) # calls) attempted verified (a, w) =
     (let attempted1 = attempted @ [step];
          (result, (a1, w1)) = call (a, w)
      in if child_verified result
         then ambient_on_loop operation calls attempted1 (verified @ [step]) (a1, w1)
         else
           (case aggregate_child_status result (verified \<noteq> []) of
              None \<Rightarrow> (None, (a1, w1))
            | Some status \<Rightarrow>
                let (r, w2) = ambient_finish operation status (aggregate_reason result status)
                                attempted1 verified w1
                in (Some r, (a1, w2))))"

definition run_ambient_on ::
  "control_env \<Rightarrow> nat \<Rightarrow> AuroraOperation \<Rightarrow> SessionContext option \<Rightarrow> string option \<Rightarrow> string \<Rightarrow>
     ambient_state \<Rightarrow> AmbientControlResult option \<times> ambient_state" where
  "run_ambient_on env thread operation session csrf client st =
     ambient_on_loop operation
       (map (\<lambda>step. (step, child_call env thread session csrf client step))
          [Step_VIDEO_GRABBER_ENABLE, Step_WLED_POWER_ON, Step_LED_OUTPUT_ENABLE])
       [] [] st"

definition run_ambient_off ::
  "control_env \<Rightarrow> nat \<Rightarrow> AuroraOperation \<Rightarrow> SessionContext option \<Rightarrow> string option \<Rightarrow> string \<Rightarrow>
     ambient_state \<Rightarrow> AmbientControlResult option \<times> ambient_state" where
  "run_ambient_off env thread operation session csrf client st =
     (let call = child_call env thread session csrf client;
          attempted1 = [Step_LED_OUTPUT_DISABLE];
          (led_result, (a1, w1)) = call Step_LED_OUTPUT_DISABLE st
      in if \<not> child_verified led_result then
           (case aggregate_child_status led_result False of
              None \<Rightarrow> (None, (a1, w1))
            | Some status \<Rightarrow>
                let (r, w2) = ambient_finish operation status (aggregate_reason led_result status)
                                attempted1 [] w1
                in (Some r, (a1, w2)))
         else
           let verified1 = [Step_LED_OUTPUT_DISABLE];
               attempted2 = attempted1 @ [Step_VIDEO_GRABBER_DISABLE];
               (grabber_result, (a2, w2)) = call Step_VIDEO_GRABBER_DISABLE (a1, w1);
               (verified2, incomplete2) =
                 (if child_verified grabber_result
                  then (verified1 @ [Step_VIDEO_GRABBER_DISABLE], False) else (verified1, True));
               attempted3 = attempted2 @ [Step_WLED_POWER_OFF];
               (wled_result, (a3, w3)) = call Step_WLED_POWER_OFF (a2, w2);
               (verified3, incomplete3) =
                 (if child_verified wled_result
                  then (verified2 @ [Step_WLED_POWER_OFF], incomplete2) else (verified2, True));
               status = (if incomplete3 then AS_PARTIALLY_COMPLETED else AS_COMPLETED);
               reason = (if incomplete3 then AR_PARTIAL_COMPLETION else AR_VERIFIED);
               (r, w4) = ambient_finish operation status reason attempted3 verified3 w3
           in (Some r, (a3, w4)))"

section \<open>Execution\<close>

definition ambient_authentication_failure ::
  "ambient_service \<Rightarrow> AuroraOperation \<Rightarrow> SessionContext option \<Rightarrow> string option \<Rightarrow> control_world \<Rightarrow>
     (AmbientControlResult \<times> control_world) option" where
  "ambient_authentication_failure a operation session submitted_csrf w =
     (case (if ab_authentication_enabled a then session else None) of
        None \<Rightarrow> Some (ambient_finish operation AS_DENIED AR_AUTHENTICATION_REQUIRED [] [] w)
      | Some opened \<Rightarrow>
          (case submitted_csrf of
             None \<Rightarrow> Some (ambient_finish operation AS_DENIED AR_MISSING_CSRF [] []
                            (audit CSRF_REJECTED AR_MISSING_CSRF w))
           | Some csrf \<Rightarrow>
               if \<not> csrf_is_valid opened csrf
               then Some (ambient_finish operation AS_DENIED AR_INVALID_CSRF [] []
                            (audit CSRF_REJECTED AR_INVALID_CSRF w))
               else None))"

definition ambient_guards ::
  "ambient_service \<Rightarrow> AuroraOperation \<Rightarrow> SessionContext option \<Rightarrow> string option \<Rightarrow> string option \<Rightarrow>
     control_world \<Rightarrow> (AmbientControlResult \<times> control_world) option" where
  "ambient_guards a operation session submitted_csrf confirmation w =
     (case ambient_authentication_failure a operation session submitted_csrf w of
        Some failure \<Rightarrow> Some failure
      | None \<Rightarrow>
          if \<not> as_enabled (ab_settings a)
          then Some (ambient_finish operation AS_DENIED AR_CONTROLS_DISABLED [] [] w)
          else if operation \<notin> set (as_allowed_operations (ab_settings a))
          then Some (ambient_finish operation AS_DENIED AR_OPERATION_NOT_ALLOWLISTED [] [] w)
          else if operation \<notin> set (ambient_available_operations a)
          then Some (ambient_finish operation AS_DENIED AR_CONTROLS_DISABLED [] [] w)
          else if operation = AMBIENT_OFF \<and> confirmation = None
          then Some (ambient_finish operation AS_DENIED AR_MISSING_CONFIRMATION [] [] w)
          else if operation = AMBIENT_OFF \<and> confirmation \<noteq> Some AURORA_AMBIENT_OFF_CONFIRMATION_VALUE
          then Some (ambient_finish operation AS_DENIED AR_INVALID_CONFIRMATION [] [] w)
          else None)"

definition ambient_run ::
  "control_env \<Rightarrow> nat \<Rightarrow> AuroraOperation \<Rightarrow> SessionContext option \<Rightarrow> string option \<Rightarrow> string \<Rightarrow>
     string option \<Rightarrow> ambient_state \<Rightarrow> AmbientControlResult option \<times> ambient_state" where
  "ambient_run env thread operation session submitted_csrf client confirmation = (\<lambda>(a, w).
     case ambient_guards a operation session submitted_csrf confirmation w of
       Some (denied, w1) \<Rightarrow> (Some denied, (a, w1))
     | None \<Rightarrow>
         let (now, w1) = read_clock env w;
             (accepted, l) = begin_attempt (env_blake env) now client (ab_limiter a);
             a1 = a\<lparr>ab_limiter := l\<rparr>
         in if \<not> accepted then
              let (r, w2) = ambient_finish operation AS_RATE_LIMITED AR_OPERATION_LIMIT [] [] w1
              in (Some r, (a1, w2))
            else
              let (acquired, w2) = acquire_gate thread (ab_gate a1) w1
              in if \<not> acquired then
                   let (r, w3) = ambient_finish operation AS_BUSY AR_OPERATION_IN_PROGRESS [] [] w2
                   in (Some r, (a1, w3))
                 else
                   let (r, (a2, w3)) =
                     (if operation = AMBIENT_ON
                      then run_ambient_on env thread operation session submitted_csrf client (a1, w2)
                      else run_ambient_off env thread operation session submitted_csrf client (a1, w2))
                   in case release_gate thread (ab_gate a2) w3 of
                        None \<Rightarrow> (None, (a2, w3))
                      | Some w4 \<Rightarrow> (r, (a2, w4)))"

definition ambient_on ::
  "control_env \<Rightarrow> nat \<Rightarrow> SessionContext option \<Rightarrow> string option \<Rightarrow> string \<Rightarrow> ambient_state \<Rightarrow>
     AmbientControlResult option \<times> ambient_state" where
  "ambient_on env thread session submitted_csrf client =
     ambient_run env thread AMBIENT_ON session submitted_csrf client None"

definition ambient_off ::
  "control_env \<Rightarrow> nat \<Rightarrow> SessionContext option \<Rightarrow> string option \<Rightarrow> string option \<Rightarrow> string \<Rightarrow>
     ambient_state \<Rightarrow> AmbientControlResult option \<times> ambient_state" where
  "ambient_off env thread session submitted_csrf confirmation client =
     ambient_run env thread AMBIENT_OFF session submitted_csrf client confirmation"

section \<open>The child calls keep the contract\<close>

definition ambient_ready :: "ambient_state \<Rightarrow> bool" where
  "ambient_ready st \<longleftrightarrow>
     wled_ready (ab_wled (fst st), snd st) \<and> hyperhdr_ready (ab_hyperhdr (fst st), snd st) \<and>
     sv_gate (ab_wled (fst st)) = ab_gate (fst st) \<and> hv_gate (ab_hyperhdr (fst st)) = ab_gate (fst st) \<and>
     limiter_inv (ab_limiter (fst st))"

primrec step_call :: "AmbientControlStep \<Rightarrow> device_call" where
  "step_call Step_VIDEO_GRABBER_ENABLE = HyperHDR_Call VIDEO_GRABBER_ENABLE"
| "step_call Step_WLED_POWER_ON = WLED_Call POWER_ON NoOperationInput"
| "step_call Step_LED_OUTPUT_ENABLE = HyperHDR_Call LED_OUTPUT_ENABLE"
| "step_call Step_LED_OUTPUT_DISABLE = HyperHDR_Call LED_OUTPUT_DISABLE"
| "step_call Step_VIDEO_GRABBER_DISABLE = HyperHDR_Call VIDEO_GRABBER_DISABLE"
| "step_call Step_WLED_POWER_OFF = WLED_Call POWER_OFF NoOperationInput"

text \<open>What a child call promises, as one predicate on its outcome.\<close>

definition child_kept ::
  "AmbientControlStep \<Rightarrow> ambient_state \<Rightarrow> child_result option \<times> ambient_state \<Rightarrow> bool" where
  "child_kept step st out \<longleftrightarrow>
     ambient_ready (snd out) \<and> gates (snd (snd out)) = gates (snd st) \<and>
     (\<exists>wl hd. fst (snd out) = (fst st)\<lparr>ab_wled := wl, ab_hyperhdr := hd\<rparr>) \<and>
     (\<exists>new. device_calls (snd (snd out)) = device_calls (snd st) @ new \<and>
        one_call (step_call step) (child_verified (fst out)) new) \<and>
     (\<exists>new. audit_trail (snd (snd out)) = audit_trail (snd st) @ new \<and> (fst out \<noteq> None \<longrightarrow> new \<noteq> []))"

text \<open>A child reports contention.\<close>

fun child_busy :: "child_result option \<Rightarrow> bool" where
  "child_busy None = False"
| "child_busy (Some (Child_WLED r)) = (wr_status r = WS_BUSY)"
| "child_busy (Some (Child_HyperHDR r)) = (hs_status r = HS_BUSY)"

lemma on_wled_busy:
  assumes "ambient_ready st" and "child_busy (fst (on_wled (wled_serve env thread q) st))"
  shows "owner (gates (snd st) (ab_gate (fst st))) \<notin> {None, Some thread}"
proof -
  obtain a w where st: "st = (a, w)" by (cases st)
  obtain r where "fst (wled_serve env thread q (ab_wled a, w)) = Some r" "wr_status r = WS_BUSY"
    using assms(2) by (cases "fst (wled_serve env thread q (ab_wled a, w))")
      (simp_all add: st on_wled_def case_prod_beta)
  then show ?thesis using assms(1) wled_serve_busy [of "ab_wled a" w env thread q r]
    by (simp add: st ambient_ready_def)
qed

lemma on_hyperhdr_busy:
  assumes "ambient_ready st" and "child_busy (fst (on_hyperhdr (hyperhdr_serve env thread q) st))"
  shows "owner (gates (snd st) (ab_gate (fst st))) \<notin> {None, Some thread}"
proof -
  obtain a w where st: "st = (a, w)" by (cases st)
  obtain r where "fst (hyperhdr_serve env thread q (ab_hyperhdr a, w)) = Some r" "hs_status r = HS_BUSY"
    using assms(2) by (cases "fst (hyperhdr_serve env thread q (ab_hyperhdr a, w))")
      (simp_all add: st on_hyperhdr_def case_prod_beta)
  then show ?thesis using assms(1) hyperhdr_serve_busy [of "ab_hyperhdr a" w env thread q r]
    by (simp add: st ambient_ready_def)
qed

lemma on_wled_kept:
  assumes "ambient_ready st" and "wled_request_call q = step_call step"
  shows "child_kept step st (on_wled (wled_serve env thread q) st)"
proof -
  obtain a w where st: "st = (a, w)" by (cases st)
  have ready: "wled_ready (ab_wled a, w)" using assms(1) by (simp add: st ambient_ready_def)
  let ?out = "wled_serve env thread q (ab_wled a, w)"
  obtain l where l: "fst (snd ?out) = (ab_wled a)\<lparr>sv_limiter := l\<rparr>"
    using wled_serve_fields [OF ready] by blast
  have child: "child_verified (map_option Child_WLED r) \<longleftrightarrow> (\<exists>x. r = Some x \<and> wr_status x = WS_VERIFIED)" for r
    by (cases r) (simp_all add: child_verified_def)
  have hdr: "hyperhdr_ready (ab_hyperhdr a, w')" if "gates w' = gates w" for w'
    using assms(1) hyperhdr_ready_frame [of "ab_hyperhdr a" w w'] that by (simp add: st ambient_ready_def)
  obtain r s w1 where out: "wled_serve env thread q (ab_wled a, w) = (r, (s, w1))" by (metis prod_cases3)
  note run = wled_requests.run_ready [OF ready, of env thread q, unfolded out snd_conv]
    wled_requests.run_gates [OF ready, of env thread q, unfolded out snd_conv]
    wled_requests.run_calls [OF ready, of env thread q, unfolded out snd_conv fst_conv]
    wled_requests.run_audit [OF ready, of env thread q, unfolded out snd_conv fst_conv]
  have on: "on_wled (wled_serve env thread q) st = (map_option Child_WLED r, (a\<lparr>ab_wled := s\<rparr>, w1))"
    by (simp add: on_wled_def st out)
  have "ambient_ready (a\<lparr>ab_wled := s\<rparr>, w1)"
    using assms(1) run(1) hdr [OF run(2)] l by (simp add: ambient_ready_def st out)
  moreover have "\<exists>wl hd. a\<lparr>ab_wled := s\<rparr> = a\<lparr>ab_wled := wl, ab_hyperhdr := hd\<rparr>"
    by (rule exI [of _ "s"], rule exI [of _ "ab_hyperhdr a"]) simp
  ultimately show ?thesis
    unfolding child_kept_def on using run(2-4) assms(2) by (simp add: st child)
qed

lemma on_hyperhdr_kept:
  assumes "ambient_ready st" and "hyperhdr_request_call q = step_call step"
  shows "child_kept step st (on_hyperhdr (hyperhdr_serve env thread q) st)"
proof -
  obtain a w where st: "st = (a, w)" by (cases st)
  have ready: "hyperhdr_ready (ab_hyperhdr a, w)" using assms(1) by (simp add: st ambient_ready_def)
  let ?out = "hyperhdr_serve env thread q (ab_hyperhdr a, w)"
  obtain l where l: "fst (snd ?out) = (ab_hyperhdr a)\<lparr>hv_limiter := l\<rparr>"
    using hyperhdr_serve_fields [OF ready] by blast
  have child: "child_verified (map_option Child_HyperHDR r) \<longleftrightarrow> (\<exists>x. r = Some x \<and> hs_status x = HS_VERIFIED)" for r
    by (cases r) (simp_all add: child_verified_def)
  have wled: "wled_ready (ab_wled a, w')" if "gates w' = gates w" for w'
    using assms(1) wled_ready_frame [of "ab_wled a" w w'] that by (simp add: st ambient_ready_def)
  obtain r s w1 where out: "hyperhdr_serve env thread q (ab_hyperhdr a, w) = (r, (s, w1))" by (metis prod_cases3)
  note run = hyperhdr_requests.run_ready [OF ready, of env thread q, unfolded out snd_conv]
    hyperhdr_requests.run_gates [OF ready, of env thread q, unfolded out snd_conv]
    hyperhdr_requests.run_calls [OF ready, of env thread q, unfolded out snd_conv fst_conv]
    hyperhdr_requests.run_audit [OF ready, of env thread q, unfolded out snd_conv fst_conv]
  have on: "on_hyperhdr (hyperhdr_serve env thread q) st = (map_option Child_HyperHDR r, (a\<lparr>ab_hyperhdr := s\<rparr>, w1))"
    by (simp add: on_hyperhdr_def st out)
  have "ambient_ready (a\<lparr>ab_hyperhdr := s\<rparr>, w1)"
    using assms(1) run(1) wled [OF run(2)] l by (simp add: ambient_ready_def st out)
  moreover have "\<exists>wl hd. a\<lparr>ab_hyperhdr := s\<rparr> = a\<lparr>ab_wled := wl, ab_hyperhdr := hd\<rparr>"
    by (rule exI [of _ "ab_wled a"], rule exI [of _ "s"]) simp
  ultimately show ?thesis
    unfolding child_kept_def on using run(2-4) assms(2) by (simp add: st child)
qed

text \<open>Each step is a request to one of the services.\<close>

primrec step_request ::
  "SessionContext option \<Rightarrow> string option \<Rightarrow> string \<Rightarrow> AmbientControlStep \<Rightarrow>
     wled_request + hyperhdr_request" where
  "step_request session csrf client Step_VIDEO_GRABBER_ENABLE =
     Inr (HyperHDR_Request VIDEO_GRABBER_ENABLE session csrf None client)"
| "step_request session csrf client Step_WLED_POWER_ON = Inl (Request_Power_On session csrf client)"
| "step_request session csrf client Step_LED_OUTPUT_ENABLE =
     Inr (HyperHDR_Request LED_OUTPUT_ENABLE session csrf None client)"
| "step_request session csrf client Step_LED_OUTPUT_DISABLE =
     Inr (HyperHDR_Request LED_OUTPUT_DISABLE session csrf (Some LED_OUTPUT_DISABLE_CONFIRMATION_VALUE) client)"
| "step_request session csrf client Step_VIDEO_GRABBER_DISABLE =
     Inr (HyperHDR_Request VIDEO_GRABBER_DISABLE session csrf
       (Some VIDEO_GRABBER_DISABLE_CONFIRMATION_VALUE) client)"
| "step_request session csrf client Step_WLED_POWER_OFF =
     Inl (Request_Power_Off session csrf (Some POWER_OFF_CONFIRMATION_VALUE) client)"

lemma child_call_request:
  "child_call env thread session csrf client step =
    (case step_request session csrf client step of
       Inl q \<Rightarrow> on_wled (wled_serve env thread q)
     | Inr q \<Rightarrow> on_hyperhdr (hyperhdr_serve env thread q))"
proof -
  have "wled_serve env thread (Request_Power_On session csrf client) = power_on env thread session csrf client"
    "wled_serve env thread (Request_Power_Off session csrf c client) = power_off env thread session csrf c client"
    for c by (simp_all add: fun_eq_iff)
  then show ?thesis by (cases step) (simp_all add: hyperhdr_serve_def)
qed

lemma step_request_call:
  "(case step_request session csrf client step of
      Inl q \<Rightarrow> wled_request_call q | Inr q \<Rightarrow> hyperhdr_request_call q) = step_call step"
  by (cases step) (simp_all add: hyperhdr_request_call_def)

lemma child_call_kept:
  assumes "ambient_ready st"
  shows "child_kept step st (child_call env thread session csrf client step st)"
  using on_wled_kept [OF assms] on_hyperhdr_kept [OF assms] step_request_call [of session csrf client step]
  by (auto simp: child_call_request split: sum.split sum.splits)

lemma child_call_heard:
  assumes "ambient_ready st"
  shows "heard (env_invalidator env) (snd st) (snd (snd (child_call env thread session csrf client step st)))
    (if child_verified (fst (child_call env thread session csrf client step st)) then [step_call step] else [])"
proof -
  obtain a w where st: "st = (a, w)" by (cases st)
  have ready: "wled_ready (ab_wled a, w)" "hyperhdr_ready (ab_hyperhdr a, w)"
    using assms by (simp_all add: st ambient_ready_def)
  show ?thesis
  proof (cases "step_request session csrf client step")
    case (Inl q)
    then have call: "wled_request_call q = step_call step"
      using step_request_call [of session csrf client step] by simp
    show ?thesis
      using wled_requests.run_heard [OF ready(1), of env thread q]
      by (cases "fst (wled_serve env thread q (ab_wled a, w))")
        (simp_all add: child_call_request Inl st on_wled_def case_prod_beta call child_verified_def split: if_splits)
  next
    case (Inr q)
    then have call: "hyperhdr_request_call q = step_call step"
      using step_request_call [of session csrf client step] by simp
    show ?thesis
      using hyperhdr_requests.run_heard [OF ready(2), of env thread q]
      by (cases "fst (hyperhdr_serve env thread q (ab_hyperhdr a, w))")
        (simp_all add: child_call_request Inr st on_hyperhdr_def case_prod_beta call child_verified_def split: if_splits)
  qed
qed

lemma child_call_busy:
  assumes "ambient_ready st" and "child_busy (fst (child_call env thread session csrf client step st))"
  shows "owner (gates (snd st) (ab_gate (fst st))) \<notin> {None, Some thread}"
  using assms on_wled_busy [OF assms(1)] on_hyperhdr_busy [OF assms(1)]
  by (simp add: child_call_request split: sum.splits)

interpretation ambient_children: device_service "child_call env thread session csrf client" snd
    ambient_ready step_call "\<lambda>r. child_verified (Some r)" "env_invalidator env"
    for env thread session csrf client
proof unfold_locales
  fix st :: ambient_state and step
  assume ready: "ambient_ready st"
  let ?out = "child_call env thread session csrf client step st"
  have verified: "(\<exists>x. r = Some x \<and> child_verified (Some x)) \<longleftrightarrow> child_verified r" for r
    by (cases r) (simp_all add: child_verified_def)
  note kept = child_call_kept [OF ready, of step env thread session csrf client, unfolded child_kept_def]
  show "ambient_ready (snd ?out)" "gates (snd (snd ?out)) = gates (snd st)"
    using kept by blast+
  show "\<exists>new. device_calls (snd (snd ?out)) = device_calls (snd st) @ new \<and>
      one_call (step_call step) (\<exists>r. fst ?out = Some r \<and> child_verified (Some r)) new"
    unfolding verified using kept by blast
  show "\<exists>new. audit_trail (snd (snd ?out)) = audit_trail (snd st) @ new \<and> (fst ?out \<noteq> None \<longrightarrow> new \<noteq> [])"
    using kept by blast
  show "heard (env_invalidator env) (snd st) (snd (snd ?out))
      (if \<exists>r. fst ?out = Some r \<and> child_verified (Some r) then [step_call step] else [])"
    unfolding verified by (rule child_call_heard [OF ready])
qed

section \<open>The composites\<close>

declare child_call.simps [simp del] step_call.simps [simp del]

primrec ambient_steps :: "AuroraOperation \<Rightarrow> AmbientControlStep list" where
  "ambient_steps AMBIENT_ON =
     [Step_VIDEO_GRABBER_ENABLE, Step_WLED_POWER_ON, Step_LED_OUTPUT_ENABLE]"
| "ambient_steps AMBIENT_OFF =
     [Step_LED_OUTPUT_DISABLE, Step_VIDEO_GRABBER_DISABLE, Step_WLED_POWER_OFF]"

lemma aggregate_child_status_cases:
  assumes "\<not> child_verified result"
  obtains status where "aggregate_child_status result any = Some status"
    "status \<noteq> AS_COMPLETED" "status = AS_PARTIALLY_COMPLETED \<longleftrightarrow> any"
    "status = AS_BUSY \<longrightarrow> child_busy result"
proof (cases result)
  case None
  then show ?thesis by (intro that [of "if any then AS_PARTIALLY_COMPLETED else AS_FAILED"])
      (auto simp: aggregate_child_status_def)
next
  case (Some c)
  show ?thesis
  proof (cases c)
    case (Child_WLED r)
    then show ?thesis using assms Some that
      by (cases "wr_status r"; cases any) (auto simp: aggregate_child_status_def child_verified_def)
  next
    case (Child_HyperHDR r)
    then show ?thesis using assms Some that
      by (cases "hs_status r"; cases any) (auto simp: aggregate_child_status_def child_verified_def)
  qed
qed

text \<open>
  The state after a number of child calls, seen from the state before: what the services may
  have changed, and the calls and audit records that were added.
\<close>

definition ambient_moved ::
  "ambient_state \<Rightarrow> ambient_state \<Rightarrow> (device_call \<times> bool) list \<Rightarrow> bool" where
  "ambient_moved st st' new \<longleftrightarrow>
     ambient_ready st' \<and> gates (snd st') = gates (snd st) \<and>
     (\<exists>wl hd. fst st' = (fst st)\<lparr>ab_wled := wl, ab_hyperhdr := hd\<rparr>) \<and>
     device_calls (snd st') = device_calls (snd st) @ new \<and>
     (\<exists>records. audit_trail (snd st') = audit_trail (snd st) @ records)"

lemma ambient_moved_refl: "ambient_ready st \<Longrightarrow> ambient_moved st st []"
proof -
  have "\<exists>wl hd. a = a\<lparr>ab_wled := wl, ab_hyperhdr := hd\<rparr>" for a :: ambient_service
    by (rule exI [of _ "ab_wled a"], rule exI [of _ "ab_hyperhdr a"]) simp
  then show "ambient_ready st \<Longrightarrow> ambient_moved st st []" by (simp add: ambient_moved_def)
qed

lemma ambient_moved_trans:
  assumes "ambient_moved st st1 n1" and "ambient_moved st1 st2 n2"
  shows "ambient_moved st st2 (n1 @ n2)"
proof -
  obtain wl hd wl' hd' where "fst st1 = (fst st)\<lparr>ab_wled := wl, ab_hyperhdr := hd\<rparr>"
      "fst st2 = (fst st1)\<lparr>ab_wled := wl', ab_hyperhdr := hd'\<rparr>"
    using assms by (auto simp: ambient_moved_def)
  then have "fst st2 = (fst st)\<lparr>ab_wled := wl', ab_hyperhdr := hd'\<rparr>" by simp
  then show ?thesis using assms unfolding ambient_moved_def by auto
qed

lemma child_call_moved:
  assumes "ambient_ready st"
  obtains new where "ambient_moved st (snd (child_call env thread session csrf client step st)) new"
    "one_call (step_call step)
       (child_verified (fst (child_call env thread session csrf client step st))) new"
  using child_call_kept [OF assms, of step env thread session csrf client]
  by (auto simp: child_kept_def ambient_moved_def)

lemma ambient_ready_frame: "ambient_ready (a, w) \<Longrightarrow> gates w' = gates w \<Longrightarrow> ambient_ready (a, w')"
  using wled_ready_frame hyperhdr_ready_frame by (auto simp: ambient_ready_def)

text \<open>An outcome that \<open>_finish\<close> closed: the result, and its audit record at the end of the trail.\<close>

definition ambient_ended ::
  "AuroraOperation \<Rightarrow> ambient_state \<Rightarrow> AmbientControlResult option \<times> ambient_state \<Rightarrow>
     AmbientControlResult \<Rightarrow> (device_call \<times> bool) list \<Rightarrow> bool" where
  "ambient_ended operation st out r new \<longleftrightarrow>
     fst out = Some r \<and> ambient_moved st (snd out) new \<and>
     (\<exists>records reason. audit_trail (snd (snd out)) = audit_trail (snd st) @ records @
        [audit_operation_entry (parent_audit_event (am_status r)) reason (Op_Aurora operation)])"

lemma ambient_finish_ended:
  assumes "ambient_moved st (a, w) new"
  shows "ambient_ended operation st
    (case ambient_finish operation status reason attempted verified w of (r, w1) \<Rightarrow> (Some r, (a, w1)))
    \<lparr>am_status = status, am_attempted = attempted, am_verified = verified\<rparr> new"
  using assms
  by (auto simp: ambient_finish_def ambient_ended_def ambient_moved_def frame_simps
      intro: ambient_ready_frame)

lemma ambient_ended_trans:
  assumes "ambient_moved st st1 n1" and "ambient_ended operation st1 out r n2"
  shows "ambient_ended operation st out r (n1 @ n2)"
proof -
  obtain records where 1: "audit_trail (snd st1) = audit_trail (snd st) @ records"
    using assms(1) by (auto simp: ambient_moved_def)
  obtain records' reason where 2: "audit_trail (snd (snd out)) = audit_trail (snd st1) @ records' @
      [audit_operation_entry (parent_audit_event (am_status r)) reason (Op_Aurora operation)]"
    using assms(2) by (auto simp: ambient_ended_def)
  have "audit_trail (snd (snd out)) = audit_trail (snd st) @ (records @ records') @
      [audit_operation_entry (parent_audit_event (am_status r)) reason (Op_Aurora operation)]"
    by (simp add: 1 2)
  moreover have "ambient_moved st (snd out) (n1 @ n2)" "fst out = Some r"
    using assms(2) ambient_moved_trans [OF assms(1)] by (auto simp: ambient_ended_def)
  ultimately show ?thesis unfolding ambient_ended_def by blast
qed

text \<open>What the loop of \<open>ambient_on\<close> reports after \<open>j\<close> verified steps.\<close>

definition on_report ::
  "AmbientControlStep list \<Rightarrow> AmbientControlStep list \<Rightarrow> AmbientControlStep list \<Rightarrow> nat \<Rightarrow>
     AmbientControlResult \<Rightarrow> (device_call \<times> bool) list \<Rightarrow> bool" where
  "on_report steps attempted verified j r new \<longleftrightarrow>
     j \<le> length steps \<and> am_attempted r = attempted @ take (Suc j) steps \<and>
     am_verified r = verified @ take j steps \<and>
     (am_status r = AS_COMPLETED \<longleftrightarrow> j = length steps) \<and>
     (am_status r = AS_PARTIALLY_COMPLETED \<longleftrightarrow> j < length steps \<and> am_verified r \<noteq> []) \<and>
     (\<exists>last. new = map (\<lambda>s. (step_call s, True)) (take j steps) @ last \<and>
        (last = [] \<or> j < length steps \<and> (\<exists>v. last = [(step_call (steps ! j), v)])))"

lemma on_report_Cons:
  assumes "on_report steps (attempted @ [step]) (verified @ [step]) j r new"
  shows "on_report (step # steps) attempted verified (Suc j) r ((step_call step, True) # new)"
  using assms by (auto simp: on_report_def)

lemma ambient_on_loop_report:
  assumes "ambient_ready st"
    and "owner (gates (snd st) (ab_gate (fst st))) \<in> {None, Some thread}"
  shows "\<exists>r j new.
    ambient_ended operation st
      (ambient_on_loop operation (map (\<lambda>s. (s, child_call env thread session csrf client s)) steps)
         attempted verified st) r new \<and>
    on_report steps attempted verified j r new \<and> am_status r \<noteq> AS_BUSY"
  using assms
proof (induction steps arbitrary: attempted verified st)
  case Nil
  obtain a w where st: "st = (a, w)" by (cases st)
  show ?case
    using ambient_finish_ended [OF ambient_moved_refl [OF Nil(1), unfolded st], of operation AS_COMPLETED AR_VERIFIED
        attempted verified]
    by (intro exI [of _ "\<lparr>am_status = AS_COMPLETED, am_attempted = attempted, am_verified = verified\<rparr>"]
        exI [of _ 0] exI [of _ "[]"]) (simp add: st on_report_def case_prod_beta Let_def)
next
  case (Cons step steps)
  obtain a w where st: "st = (a, w)" by (cases st)
  let ?call = "child_call env thread session csrf client step"
  obtain result a1 w1 where call: "?call st = (result, (a1, w1))" by (metis prod_cases3)
  obtain n1 where n1: "ambient_moved st (a1, w1) n1" "one_call (step_call step) (child_verified result) n1"
    by (rule child_call_moved [OF Cons.prems(1), of env thread session csrf client step])
      (simp add: call)
  have gate: "ambient_ready (a1, w1)" "owner (gates w1 (ab_gate a1)) \<in> {None, Some thread}"
    using n1(1) Cons.prems(2) by (auto simp: ambient_moved_def)
  show ?case
  proof (cases "child_verified result")
    case True
    let ?rest = "ambient_on_loop operation
      (map (\<lambda>s. (s, child_call env thread session csrf client s)) steps)
      (attempted @ [step]) (verified @ [step]) (a1, w1)"
    obtain r j new where IH: "ambient_ended operation (a1, w1) ?rest r new"
        "on_report steps (attempted @ [step]) (verified @ [step]) j r new" "am_status r \<noteq> AS_BUSY"
      using Cons.IH [of "(a1, w1)" "attempted @ [step]" "verified @ [step]"] gate by auto
    have "n1 = [(step_call step, True)]" using n1(2) True by (simp add: one_call_def)
    moreover have "ambient_ended operation st ?rest r (n1 @ new)"
      by (rule ambient_ended_trans [OF n1(1) IH(1)])
    moreover have "ambient_on_loop operation
        (map (\<lambda>s. (s, child_call env thread session csrf client s)) (step # steps)) attempted verified st = ?rest"
      using True call by (simp add: st)
    ultimately show ?thesis using on_report_Cons [OF IH(2)] IH(3) by auto
  next
    case False
    from False obtain status where status: "aggregate_child_status result (verified \<noteq> []) = Some status"
        "status \<noteq> AS_COMPLETED" "status = AS_PARTIALLY_COMPLETED \<longleftrightarrow> verified \<noteq> []"
        "status = AS_BUSY \<longrightarrow> child_busy result"
      by (rule aggregate_child_status_cases)
    have idle: "status \<noteq> AS_BUSY"
      using status(4) child_call_busy [OF Cons.prems(1), of env thread session csrf client step]
        Cons.prems(2) by (auto simp: call)
    have "n1 = [] \<or> (\<exists>v. n1 = [(step_call step, v)])" using n1(2) False by (simp add: one_call_def)
    then have "on_report (step # steps) attempted verified 0
        \<lparr>am_status = status, am_attempted = attempted @ [step], am_verified = verified\<rparr> n1"
      using status by (auto simp: on_report_def)
    moreover have "ambient_on_loop operation
        (map (\<lambda>s. (s, child_call env thread session csrf client s)) (step # steps)) attempted verified st =
        (case ambient_finish operation status (aggregate_reason result status) (attempted @ [step]) verified w1
          of (r, w2) \<Rightarrow> (Some r, (a1, w2)))"
      using False call status(1) by (simp add: st Let_def)
    ultimately show ?thesis using ambient_finish_ended [OF n1(1)] idle by fastforce
  qed
qed

text \<open>The steps reported as verified are those that were confirmed, in their order.\<close>

lemma ambient_finish_heard:
  "heard returned w (snd (ambient_finish operation status reason attempted verified w')) xs \<longleftrightarrow> heard returned w w' xs"
  by (simp add: ambient_finish_def heard_def frame_simps)

lemma ambient_finish_verified:
  "am_verified (fst (ambient_finish operation status reason attempted verified w')) = verified"
  by (simp add: ambient_finish_def)

lemma ambient_on_loop_heard:
  assumes "ambient_ready st"
  shows "\<exists>r vs.
    fst (ambient_on_loop operation (map (\<lambda>s. (s, child_call env thread session csrf client s)) steps)
      attempted verified st) = Some r \<and> am_verified r = verified @ vs \<and>
    heard (env_invalidator env) (snd st)
      (snd (snd (ambient_on_loop operation (map (\<lambda>s. (s, child_call env thread session csrf client s)) steps)
        attempted verified st))) (map step_call vs)"
  using assms
proof (induction steps arbitrary: attempted verified st)
  case Nil
  then show ?case
    by (cases st) (simp add: case_prod_beta Let_def ambient_finish_verified ambient_finish_heard heard_nothing)
next
  case (Cons step steps)
  obtain a w where st: "st = (a, w)" by (cases st)
  obtain result a1 w1 where call: "child_call env thread session csrf client step st = (result, (a1, w1))"
    by (metis prod_cases3)
  have heard: "heard (env_invalidator env) w w1 (if child_verified result then [step_call step] else [])"
    using child_call_heard [OF Cons.prems, of env thread session csrf client step] by (simp add: call [unfolded st] st split: if_splits)
  have ready: "ambient_ready (a1, w1)"
    using child_call_kept [OF Cons.prems, of step env thread session csrf client] by (simp add: child_kept_def call)
  show ?case
  proof (cases "child_verified result")
    case True
    let ?rest = "ambient_on_loop operation (map (\<lambda>s. (s, child_call env thread session csrf client s)) steps)
      (attempted @ [step]) (verified @ [step]) (a1, w1)"
    obtain r vs where IH: "fst ?rest = Some r" "am_verified r = (verified @ [step]) @ vs"
        "heard (env_invalidator env) w1 (snd (snd ?rest)) (map step_call vs)"
      using Cons.IH [OF ready, of "attempted @ [step]" "verified @ [step]"] by auto
    have "heard (env_invalidator env) w (snd (snd ?rest)) (map step_call (step # vs))"
      using heard_trans [OF heard IH(3)] True by simp
    then show ?thesis using IH(1,2) True call
      by (intro exI [of _ r] exI [of _ "step # vs"]) (simp add: st)
  next
    case False
    from False obtain status where "aggregate_child_status result (verified \<noteq> []) = Some status"
      by (rule aggregate_child_status_cases)
    then show ?thesis using False call heard
      by (simp add: st Let_def case_prod_beta ambient_finish_verified ambient_finish_heard)
  qed
qed

text \<open>What \<open>ambient_off\<close> reports: output isolation first, then the two best-effort steps.\<close>

definition off_report :: "AmbientControlResult \<Rightarrow> (device_call \<times> bool) list \<Rightarrow> bool" where
  "off_report r new \<longleftrightarrow>
     (am_attempted r = [Step_LED_OUTPUT_DISABLE] \<and> am_verified r = [] \<and>
        am_status r \<notin> {AS_COMPLETED, AS_PARTIALLY_COMPLETED} \<and>
        (new = [] \<or> (\<exists>v. new = [(step_call Step_LED_OUTPUT_DISABLE, v)]))) \<or>
     (\<exists>grabber wled n2 n3.
        am_attempted r = ambient_steps AMBIENT_OFF \<and>
        am_verified r = Step_LED_OUTPUT_DISABLE #
          (if grabber then [Step_VIDEO_GRABBER_DISABLE] else []) @
          (if wled then [Step_WLED_POWER_OFF] else []) \<and>
        am_status r = (if grabber \<and> wled then AS_COMPLETED else AS_PARTIALLY_COMPLETED) \<and>
        new = (step_call Step_LED_OUTPUT_DISABLE, True) # n2 @ n3 \<and>
        one_call (step_call Step_VIDEO_GRABBER_DISABLE) grabber n2 \<and>
        one_call (step_call Step_WLED_POWER_OFF) wled n3)"

lemma run_ambient_off_report:
  assumes "ambient_ready st"
    and "owner (gates (snd st) (ab_gate (fst st))) \<in> {None, Some thread}"
  shows "\<exists>r new. ambient_ended operation st
      (run_ambient_off env thread operation session csrf client st) r new \<and>
    off_report r new \<and> am_status r \<noteq> AS_BUSY"
proof -
  let ?call = "child_call env thread session csrf client"
  obtain led a1 w1 where c1: "?call Step_LED_OUTPUT_DISABLE st = (led, (a1, w1))" by (metis prod_cases3)
  obtain grabber a2 w2 where c2: "?call Step_VIDEO_GRABBER_DISABLE (a1, w1) = (grabber, (a2, w2))"
    by (metis prod_cases3)
  obtain wled a3 w3 where c3: "?call Step_WLED_POWER_OFF (a2, w2) = (wled, (a3, w3))" by (metis prod_cases3)
  obtain n1 where n1: "ambient_moved st (a1, w1) n1"
      "one_call (step_call Step_LED_OUTPUT_DISABLE) (child_verified led) n1"
    by (rule child_call_moved [OF assms(1), of env thread session csrf client Step_LED_OUTPUT_DISABLE])
      (simp add: c1)
  then have r1: "ambient_ready (a1, w1)" by (simp add: ambient_moved_def)
  obtain n2 where n2: "ambient_moved (a1, w1) (a2, w2) n2"
      "one_call (step_call Step_VIDEO_GRABBER_DISABLE) (child_verified grabber) n2"
    by (rule child_call_moved [OF r1, of env thread session csrf client Step_VIDEO_GRABBER_DISABLE])
      (simp add: c2)
  then have r2: "ambient_ready (a2, w2)" by (simp add: ambient_moved_def)
  obtain n3 where n3: "ambient_moved (a2, w2) (a3, w3) n3"
      "one_call (step_call Step_WLED_POWER_OFF) (child_verified wled) n3"
    by (rule child_call_moved [OF r2, of env thread session csrf client Step_WLED_POWER_OFF])
      (simp add: c3)
  have moved: "ambient_moved st (a3, w3) (n1 @ n2 @ n3)"
    using ambient_moved_trans [OF n1(1) ambient_moved_trans [OF n2(1) n3(1)]] .
  show ?thesis
  proof (cases "child_verified led")
    case False
    from False obtain status where status: "aggregate_child_status led False = Some status"
        "status \<noteq> AS_COMPLETED" "status = AS_PARTIALLY_COMPLETED \<longleftrightarrow> False" "status = AS_BUSY \<longrightarrow> child_busy led"
      by (rule aggregate_child_status_cases)
    have idle: "status \<noteq> AS_BUSY"
      using status(4) assms(2) c1
        child_call_busy [OF assms(1), of env thread session csrf client Step_LED_OUTPUT_DISABLE] by auto
    have "run_ambient_off env thread operation session csrf client st =
        (case ambient_finish operation status (aggregate_reason led status) [Step_LED_OUTPUT_DISABLE] [] w1
          of (r, w2) \<Rightarrow> (Some r, (a1, w2)))"
      using False status(1) c1 by (simp add: run_ambient_off_def Let_def)
    moreover have "off_report \<lparr>am_status = status, am_attempted = [Step_LED_OUTPUT_DISABLE], am_verified = []\<rparr> n1"
      using status n1(2) False by (simp add: off_report_def one_call_def)
    ultimately show ?thesis using ambient_finish_ended [OF n1(1)] idle by fastforce
  next
    case True
    let ?g = "child_verified grabber" and ?l = "child_verified wled"
    let ?verified = "Step_LED_OUTPUT_DISABLE # (if ?g then [Step_VIDEO_GRABBER_DISABLE] else []) @
      (if ?l then [Step_WLED_POWER_OFF] else [])"
    let ?status = "if ?g \<and> ?l then AS_COMPLETED else AS_PARTIALLY_COMPLETED"
    let ?reason = "if ?g \<and> ?l then AR_VERIFIED else AR_PARTIAL_COMPLETION"
    have "run_ambient_off env thread operation session csrf client st =
        (case ambient_finish operation ?status ?reason (ambient_steps AMBIENT_OFF) ?verified w3
          of (r, w4) \<Rightarrow> (Some r, (a3, w4)))"
      using True c1 c2 c3 by (simp add: run_ambient_off_def Let_def case_prod_beta)
    moreover have "off_report
        \<lparr>am_status = ?status, am_attempted = ambient_steps AMBIENT_OFF, am_verified = ?verified\<rparr> (n1 @ n2 @ n3)"
    proof -
      have "n1 = [(step_call Step_LED_OUTPUT_DISABLE, True)]" using n1(2) True by (simp add: one_call_def)
      then show ?thesis unfolding off_report_def using n2(2) n3(2)
        by (intro disjI2 exI [of _ ?g] exI [of _ ?l] exI [of _ n2] exI [of _ n3]) simp
    qed
    ultimately show ?thesis
      using ambient_finish_ended [OF moved, of operation ?status ?reason "ambient_steps AMBIENT_OFF" ?verified]
      by (intro exI [of _ "\<lparr>am_status = ?status, am_attempted = ambient_steps AMBIENT_OFF, am_verified = ?verified\<rparr>"]
          exI [of _ "n1 @ n2 @ n3"]) simp
  qed
qed

lemma run_ambient_off_heard:
  assumes "ambient_ready st"
  shows "\<exists>r. fst (run_ambient_off env thread operation session csrf client st) = Some r \<and>
    heard (env_invalidator env) (snd st)
      (snd (snd (run_ambient_off env thread operation session csrf client st))) (map step_call (am_verified r))"
proof -
  let ?call = "child_call env thread session csrf client"
  obtain led a1 w1 where c1: "?call Step_LED_OUTPUT_DISABLE st = (led, (a1, w1))" by (metis prod_cases3)
  obtain grabber a2 w2 where c2: "?call Step_VIDEO_GRABBER_DISABLE (a1, w1) = (grabber, (a2, w2))"
    by (metis prod_cases3)
  obtain wled a3 w3 where c3: "?call Step_WLED_POWER_OFF (a2, w2) = (wled, (a3, w3))" by (metis prod_cases3)
  have ready: "ambient_ready (snd (?call step s))" if "ambient_ready s" for step s
    using child_call_kept [OF that] by (simp add: child_kept_def)
  have r1: "ambient_ready (a1, w1)" using ready [OF assms] c1 by (metis snd_conv)
  have r2: "ambient_ready (a2, w2)" using ready [OF r1] c2 by (metis snd_conv)
  have h1: "heard (env_invalidator env) (snd st) w1 (if child_verified led then [step_call Step_LED_OUTPUT_DISABLE] else [])"
    using child_call_heard [OF assms, of env thread session csrf client Step_LED_OUTPUT_DISABLE] by (simp add: c1 split: if_splits)
  have h2: "heard (env_invalidator env) w1 w2
      (if child_verified grabber then [step_call Step_VIDEO_GRABBER_DISABLE] else [])"
    using child_call_heard [OF r1, of env thread session csrf client Step_VIDEO_GRABBER_DISABLE] by (simp add: c2 split: if_splits)
  have h3: "heard (env_invalidator env) w2 w3 (if child_verified wled then [step_call Step_WLED_POWER_OFF] else [])"
    using child_call_heard [OF r2, of env thread session csrf client Step_WLED_POWER_OFF] by (simp add: c3 split: if_splits)
  show ?thesis
  proof (cases "child_verified led")
    case False
    from False obtain status where "aggregate_child_status led False = Some status"
      by (rule aggregate_child_status_cases)
    then show ?thesis using False h1 c1
      by (simp add: run_ambient_off_def Let_def case_prod_beta ambient_finish_verified ambient_finish_heard)
  next
    case True
    note h = heard_trans [OF h1 heard_trans [OF h2 h3]]
    show ?thesis using True h c1 c2 c3
      by (cases "child_verified grabber"; cases "child_verified wled")
        (simp_all add: run_ambient_off_def Let_def case_prod_beta ambient_finish_verified ambient_finish_heard)
  qed
qed

section \<open>The whole operation\<close>

definition ambient_permitted :: "ambient_service \<Rightarrow> AuroraOperation \<Rightarrow> bool" where
  "ambient_permitted a operation \<longleftrightarrow>
     ab_authentication_enabled a \<and> as_enabled (ab_settings a) \<and>
     operation \<in> set (as_allowed_operations (ab_settings a)) \<and>
     operation \<in> set (map ac_operation_id (ab_contracts a)) \<and>
     (\<forall>step \<in> set (ambient_steps operation).
        case step_call step of
          WLED_Call x _ \<Rightarrow> wled_permitted (ab_wled a) x
        | HyperHDR_Call x \<Rightarrow> hyperhdr_permitted (ab_hyperhdr a) x)"

definition ambient_authorised ::
  "ambient_service \<Rightarrow> AuroraOperation \<Rightarrow> SessionContext option \<Rightarrow> string option \<Rightarrow> string option \<Rightarrow> bool" where
  "ambient_authorised a operation session csrf confirmation \<longleftrightarrow>
     ambient_permitted a operation \<and> csrf_matches session csrf \<and>
     (operation = AMBIENT_OFF \<longrightarrow> confirmation = Some AURORA_AMBIENT_OFF_CONFIRMATION_VALUE)"

lemma children_available:
  "list_all (child_available a) (ambient_children_of operation) \<longleftrightarrow>
    (\<forall>step \<in> set (ambient_steps operation).
        case step_call step of
          WLED_Call x _ \<Rightarrow> wled_permitted (ab_wled a) x
        | HyperHDR_Call x \<Rightarrow> hyperhdr_permitted (ab_hyperhdr a) x)"
  by (cases operation) (simp_all add: child_available_def wled_available_iff hyperhdr_available_iff step_call.simps)

lemma ambient_available_iff:
  "operation \<in> set (ambient_available_operations a) \<and> operation \<in> set (as_allowed_operations (ab_settings a))
    \<longleftrightarrow> ambient_permitted a operation"
  by (auto simp: ambient_available_operations_def ambient_permitted_def children_available Let_def)

lemma ambient_authentication_failure_None:
  "ambient_authentication_failure a operation session csrf w = None \<longleftrightarrow>
     ab_authentication_enabled a \<and> csrf_matches session csrf"
  by (auto simp: ambient_authentication_failure_def csrf_matches_def split: option.split if_splits)

lemma ambient_guards_None:
  "ambient_guards a operation session csrf confirmation w = None \<longleftrightarrow>
     ambient_authorised a operation session csrf confirmation"
proof (cases "ambient_authentication_failure a operation session csrf w")
  case (Some d)
  then show ?thesis using ambient_authentication_failure_None [of a operation session csrf w]
    by (auto simp: ambient_guards_def ambient_authorised_def ambient_permitted_def)
next
  case None
  then show ?thesis
    using ambient_authentication_failure_None [of a operation session csrf w] ambient_available_iff [of operation a]
    by (auto simp: ambient_guards_def ambient_authorised_def ambient_permitted_def)
qed

text \<open>The outcomes in which no child is asked.\<close>

definition quiet_result :: "AmbientControlStatus \<Rightarrow> AmbientControlResult" where
  "quiet_result status = \<lparr>am_status = status, am_attempted = [], am_verified = []\<rparr>"

lemma quiet_ended:
  assumes "ambient_ready (a, w)" and "limiter_inv l" and "gates w1 = gates w"
    and "device_calls w1 = device_calls w" and "audit_trail w1 = audit_trail w @ recs"
  shows "ambient_ended operation (a\<lparr>ab_limiter := l\<rparr>, w)
    (case ambient_finish operation status reason [] [] w1 of (r, w2) \<Rightarrow> (Some r, (a\<lparr>ab_limiter := l\<rparr>, w2)))
    (quiet_result status) []"
proof -
  have "ambient_ready (a\<lparr>ab_limiter := l\<rparr>, w)" using assms(1,2) by (simp add: ambient_ready_def)
  from ambient_moved_refl [OF this] have "ambient_moved (a\<lparr>ab_limiter := l\<rparr>, w) (a\<lparr>ab_limiter := l\<rparr>, w1) []"
    using assms(3-5) ambient_ready_frame by (auto simp: ambient_moved_def)
  from ambient_finish_ended [OF this] show ?thesis by (simp add: quiet_result_def)
qed

lemma ambient_denied_finish:
  assumes "ambient_guards a operation session csrf confirmation w = Some d"
  shows "\<exists>w1 reason records. d = ambient_finish operation AS_DENIED reason [] [] w1 \<and>
    gates w1 = gates w \<and> device_calls w1 = device_calls w \<and>
    invalidations w1 = invalidations w \<and> audit_trail w1 = audit_trail w @ records"
proof -
  have plain: "\<exists>w1 reason records. ambient_finish operation AS_DENIED r [] [] w =
      ambient_finish operation AS_DENIED reason [] [] w1 \<and>
      gates w1 = gates w \<and> device_calls w1 = device_calls w \<and>
    invalidations w1 = invalidations w \<and> audit_trail w1 = audit_trail w @ records" for r
    by (intro exI [of _ w] exI [of _ r] exI [of _ "[]"]) simp
  have csrf: "\<exists>w1 reason records. ambient_finish operation AS_DENIED r [] [] (audit e r' w) =
      ambient_finish operation AS_DENIED reason [] [] w1 \<and>
      gates w1 = gates w \<and> device_calls w1 = device_calls w \<and>
    invalidations w1 = invalidations w \<and> audit_trail w1 = audit_trail w @ records"
    for r e r'
    by (intro exI [of _ "audit e r' w"] exI [of _ r] exI [of _ "[audit_entry e r']"]) (simp add: frame_simps)
  have auth: "\<exists>w1 reason records. x = ambient_finish operation AS_DENIED reason [] [] w1 \<and>
      gates w1 = gates w \<and> device_calls w1 = device_calls w \<and>
    invalidations w1 = invalidations w \<and> audit_trail w1 = audit_trail w @ records"
    if "ambient_authentication_failure a operation session csrf w = Some x" for x
    using that plain csrf
    by (simp add: ambient_authentication_failure_def split: option.splits if_splits) (metis plain csrf)+
  show ?thesis
  proof (cases "ambient_authentication_failure a operation session csrf w")
    case (Some x)
    then show ?thesis using assms auth by (simp add: ambient_guards_def)
  next
    case None
    then show ?thesis using assms
      by (simp add: ambient_guards_def split: if_splits) (metis plain)+
  qed
qed

text \<open>A composite request, as the server makes it.\<close>

definition ambient_serve ::
  "control_env \<Rightarrow> nat \<Rightarrow> AuroraOperation \<Rightarrow> SessionContext option \<Rightarrow> string option \<Rightarrow>
     string option \<Rightarrow> string \<Rightarrow> ambient_state \<Rightarrow> AmbientControlResult option \<times> ambient_state" where
  "ambient_serve env thread operation session csrf confirmation client =
     (case operation of
        AMBIENT_ON \<Rightarrow> ambient_on env thread session csrf client
      | AMBIENT_OFF \<Rightarrow> ambient_off env thread session csrf confirmation client)"

text \<open>What a request ends with, by the first condition that stops it.\<close>

definition ambient_report ::
  "bool \<Rightarrow> bool \<Rightarrow> bool \<Rightarrow> AuroraOperation \<Rightarrow> AmbientControlResult \<Rightarrow> (device_call \<times> bool) list \<Rightarrow> bool" where
  "ambient_report authorised accepted free operation r new \<longleftrightarrow>
     (if \<not> authorised then r = quiet_result AS_DENIED \<and> new = []
      else if \<not> accepted then r = quiet_result AS_RATE_LIMITED \<and> new = []
      else if \<not> free then r = quiet_result AS_BUSY \<and> new = []
      else am_status r \<noteq> AS_BUSY \<and>
        (case operation of
           AMBIENT_ON \<Rightarrow> \<exists>j. on_report (ambient_steps AMBIENT_ON) [] [] j r new
         | AMBIENT_OFF \<Rightarrow> off_report r new))"

lemma ambient_ended_restore:
  assumes ended: "ambient_ended operation (a, w2) out r new"
    and world: "gates w2 = (gates w)(ab_gate a := snd (gate_acquire thread (gates w (ab_gate a))))"
      "device_calls w2 = device_calls w" "audit_trail w2 = audit_trail w"
    and ready: "ambient_ready (a, w)" and free: "fst (gate_acquire thread (gates w (ab_gate a)))"
  shows "\<exists>w4. release_gate thread (ab_gate (fst (snd out))) (snd (snd out)) = Some w4 \<and>
    ambient_ended operation (a, w) (fst out, (fst (snd out), w4)) r new"
proof -
  obtain x a2 w3 where out: "out = (x, (a2, w3))" by (metis prod_cases3)
  have moved: "ambient_moved (a, w2) (a2, w3) new" using ended by (simp add: ambient_ended_def out)
  obtain wl hd where a2: "a2 = a\<lparr>ab_wled := wl, ab_hyperhdr := hd\<rparr>" using moved by (auto simp: ambient_moved_def)
  then have gate: "ab_gate a2 = ab_gate a" by simp
  have wf: "gate_wf (gates w (ab_gate a))" using ready by (auto simp: ambient_ready_def wled_ready_def)
  have "gates w3 = gates w2" using moved by (simp add: ambient_moved_def)
  then have release: "release_gate thread (ab_gate a2) w3 = Some (w3\<lparr>gates := gates w\<rparr>)"
    using release_after_acquire [OF wf free] world(1) by (simp add: gate)
  have "ambient_ready (a2, w3\<lparr>gates := gates w\<rparr>)"
    using moved wf gate by (auto simp: ambient_moved_def ambient_ready_def wled_ready_def hyperhdr_ready_def)
  then have "ambient_moved (a, w) (a2, w3\<lparr>gates := gates w\<rparr>) new"
    using moved world(2,3) by (auto simp: ambient_moved_def)
  moreover obtain recs reason where "audit_trail w3 = audit_trail w2 @ recs @
      [audit_operation_entry (parent_audit_event (am_status r)) reason (Op_Aurora operation)]" "x = Some r"
    using ended by (auto simp: ambient_ended_def out)
  ultimately show ?thesis using release world(3) by (auto simp: out ambient_ended_def)
qed

lemma ambient_run_report:
  assumes ready: "ambient_ready (a, w)"
  shows "\<exists>r new l. limiter_inv l \<and>
    ambient_ended operation (a\<lparr>ab_limiter := l\<rparr>, w)
      (ambient_run env thread operation session csrf client confirmation (a, w)) r new \<and>
    ambient_report (ambient_authorised a operation session csrf confirmation)
      (fst (begin_attempt (env_blake env) (env_clock env (clock_reads w)) client (ab_limiter a)))
      (owner (gates w (ab_gate a)) \<in> {None, Some thread}) operation r new"
proof (cases "ambient_guards a operation session csrf confirmation w")
  case (Some d)
  obtain w1 reason recs where d: "d = ambient_finish operation AS_DENIED reason [] [] w1"
      "gates w1 = gates w" "device_calls w1 = device_calls w" "audit_trail w1 = audit_trail w @ recs"
    using ambient_denied_finish [OF Some] by blast
  have inv: "limiter_inv (ab_limiter a)" using ready by (simp add: ambient_ready_def)
  have "ambient_run env thread operation session csrf client confirmation (a, w) = (Some (fst d), (a, snd d))"
    using Some by (simp add: ambient_run_def split: prod.split)
  moreover have "\<not> ambient_authorised a operation session csrf confirmation"
    using Some ambient_guards_None [of a operation session csrf confirmation w] by simp
  ultimately show ?thesis
    using quiet_ended [OF ready inv d(2-4), of operation AS_DENIED reason] inv d(1)
    by (intro exI [of _ "quiet_result AS_DENIED"] exI [of _ "[]"] exI [of _ "ab_limiter a"])
      (simp add: ambient_report_def case_prod_beta)
next
  case None
  then have auth: "ambient_authorised a operation session csrf confirmation"
    by (simp add: ambient_guards_None)
  let ?attempt = "begin_attempt (env_blake env) (env_clock env (clock_reads w)) client (ab_limiter a)"
  let ?w1 = "snd (read_clock env w)" and ?l = "snd ?attempt"
  let ?a1 = "a\<lparr>ab_limiter := ?l\<rparr>"
  have inv: "limiter_inv ?l" using ready by (simp add: ambient_ready_def limiter_inv_begin_attempt)
  show ?thesis
  proof (cases "fst ?attempt")
    case False
    have "ambient_run env thread operation session csrf client confirmation (a, w) =
        (case ambient_finish operation AS_RATE_LIMITED AR_OPERATION_LIMIT [] [] ?w1
          of (r, w2) \<Rightarrow> (Some r, (?a1, w2)))"
      using None False by (simp add: ambient_run_def case_prod_beta Let_def frame_simps)
    then show ?thesis
      using quiet_ended [OF ready inv, of ?w1 "[]" operation AS_RATE_LIMITED AR_OPERATION_LIMIT] auth False inv
      by (intro exI [of _ "quiet_result AS_RATE_LIMITED"] exI [of _ "[]"] exI [of _ ?l])
        (simp add: ambient_report_def frame_simps)
  next
    case True
    show ?thesis
    proof (cases "fst (gate_acquire thread (gates w (ab_gate a)))")
      case False
      then have "snd (acquire_gate thread (ab_gate a) ?w1) = ?w1"
        by (intro failed_acquire_world) (simp add: frame_simps)
      then have "ambient_run env thread operation session csrf client confirmation (a, w) =
          (case ambient_finish operation AS_BUSY AR_OPERATION_IN_PROGRESS [] [] ?w1
            of (r, w2) \<Rightarrow> (Some r, (?a1, w2)))"
        using None True False by (simp add: ambient_run_def case_prod_beta Let_def frame_simps)
      then show ?thesis
        using quiet_ended [OF ready inv, of ?w1 "[]" operation AS_BUSY AR_OPERATION_IN_PROGRESS] auth True False inv
        by (intro exI [of _ "quiet_result AS_BUSY"] exI [of _ "[]"] exI [of _ ?l])
          (auto simp: ambient_report_def frame_simps gate_acquire_iff)
    next
      case free: True
      let ?w2 = "snd (acquire_gate thread (ab_gate a) ?w1)"
      let ?out = "if operation = AMBIENT_ON
        then run_ambient_on env thread operation session csrf client (?a1, ?w2)
        else run_ambient_off env thread operation session csrf client (?a1, ?w2)"
      have ready1: "ambient_ready (?a1, w)" using ready inv by (simp add: ambient_ready_def)
      have ready2: "ambient_ready (?a1, ?w2)"
        using ready1 gate_acquire_wf [of "gates w (ab_gate a)" thread]
        by (auto simp: ambient_ready_def wled_ready_def hyperhdr_ready_def frame_simps)
      have own: "owner (gates ?w2 (ab_gate a)) \<in> {None, Some thread}"
        using gate_acquire_owner [OF free] by (simp add: frame_simps)
      obtain r new where run: "ambient_ended operation (?a1, ?w2) ?out r new" "am_status r \<noteq> AS_BUSY"
        "case operation of AMBIENT_ON \<Rightarrow> \<exists>j. on_report (ambient_steps AMBIENT_ON) [] [] j r new
         | AMBIENT_OFF \<Rightarrow> off_report r new"
        using ambient_on_loop_report [OF ready2, of thread operation env session csrf client
            "ambient_steps AMBIENT_ON" "[]" "[]"]
          run_ambient_off_report [OF ready2, of thread operation env session csrf client] own
        by (cases operation) (auto simp: run_ambient_on_def)
      obtain w4 where w4: "release_gate thread (ab_gate (fst (snd ?out))) (snd (snd ?out)) = Some w4"
          "ambient_ended operation (?a1, w) (fst ?out, (fst (snd ?out), w4)) r new"
        using ambient_ended_restore [OF run(1) _ _ _ ready1] free by (auto simp: frame_simps)
      have "ambient_run env thread operation session csrf client confirmation (a, w) =
          (fst ?out, (fst (snd ?out), w4))"
        using None True free w4(1)
        by (cases operation) (simp_all add: ambient_run_def case_prod_beta Let_def frame_simps)
      then show ?thesis using w4(2) run(2,3) auth True free inv
        by (intro exI [of _ r] exI [of _ new] exI [of _ ?l])
          (auto simp: ambient_report_def gate_acquire_iff)
    qed
  qed
qed

lemma ambient_run_heard:
  assumes ready: "ambient_ready (a, w)"
    and some: "fst (ambient_run env thread operation session csrf client confirmation (a, w)) = Some r"
  shows "heard (env_invalidator env) w
    (snd (snd (ambient_run env thread operation session csrf client confirmation (a, w)))) (map step_call (am_verified r))"
proof (cases "ambient_guards a operation session csrf confirmation w")
  case (Some d)
  then obtain w1 reason where "d = ambient_finish operation AS_DENIED reason [] [] w1"
      "device_calls w1 = device_calls w" "invalidations w1 = invalidations w"
    using ambient_denied_finish by blast
  then show ?thesis using some Some
    by (auto simp: ambient_run_def ambient_finish_def frame_simps intro!: heard_nothing)
next
  case None
  let ?attempt = "begin_attempt (env_blake env) (env_clock env (clock_reads w)) client (ab_limiter a)"
  let ?a1 = "a\<lparr>ab_limiter := snd ?attempt\<rparr>" and ?w1 = "snd (read_clock env w)"
  let ?w2 = "snd (acquire_gate thread (ab_gate a) ?w1)"
  let ?out = "if operation = AMBIENT_ON
    then run_ambient_on env thread operation session csrf client (?a1, ?w2)
    else run_ambient_off env thread operation session csrf client (?a1, ?w2)"
  show ?thesis
  proof (cases "fst ?attempt \<and> fst (gate_acquire thread (gates w (ab_gate a)))")
    case False
    then show ?thesis using some None
      by (auto simp: ambient_run_def case_prod_beta Let_def ambient_finish_def frame_simps intro!: heard_nothing)
  next
    case True
    have "limiter_inv (snd ?attempt)" using ready by (simp add: ambient_ready_def limiter_inv_begin_attempt)
    then have ready2: "ambient_ready (?a1, ?w2)"
      using ready gate_acquire_wf [of "gates w (ab_gate a)" thread]
      by (auto simp: ambient_ready_def wled_ready_def hyperhdr_ready_def frame_simps)
    have out: "ambient_run env thread operation session csrf client confirmation (a, w) =
        (case release_gate thread (ab_gate (fst (snd ?out))) (snd (snd ?out)) of
           None \<Rightarrow> (None, snd ?out) | Some w4 \<Rightarrow> (fst ?out, (fst (snd ?out), w4)))"
      using None True
      by (cases operation)
        (simp_all add: ambient_run_def case_prod_beta Let_def frame_simps split: option.split)
    then obtain w4 where w4: "release_gate thread (ab_gate (fst (snd ?out))) (snd (snd ?out)) = Some w4"
        "fst ?out = Some r" "snd (snd (ambient_run env thread operation session csrf client confirmation (a, w))) = w4"
      using some by (auto split: option.splits)
    have "heard (env_invalidator env) ?w2 (snd (snd ?out)) (map step_call (am_verified r))"
      using ambient_on_loop_heard [OF ready2, of operation env thread session csrf client
          "ambient_steps AMBIENT_ON" "[]" "[]"]
        run_ambient_off_heard [OF ready2, of env thread operation session csrf client] w4(2)
      by (cases operation) (auto simp: run_ambient_on_def)
    then show ?thesis using w4(1) unfolding w4(3)
      by (auto simp: heard_def release_gate_def frame_simps)
  qed
qed

section \<open>Properties\<close>

lemma ambient_serve_report:
  assumes ready: "ambient_ready (a, w)"
  shows "\<exists>r new l. limiter_inv l \<and>
    ambient_ended operation (a\<lparr>ab_limiter := l\<rparr>, w)
      (ambient_serve env thread operation session csrf confirmation client (a, w)) r new \<and>
    ambient_report (ambient_authorised a operation session csrf confirmation)
      (fst (begin_attempt (env_blake env) (env_clock env (clock_reads w)) client (ab_limiter a)))
      (owner (gates w (ab_gate a)) \<in> {None, Some thread}) operation r new"
proof (cases operation)
  case AMBIENT_ON
  have "ambient_authorised a AMBIENT_ON session csrf None = ambient_authorised a AMBIENT_ON session csrf confirmation"
    by (simp add: ambient_authorised_def)
  then show ?thesis
    using ambient_run_report [OF ready, of operation env thread session csrf client None] AMBIENT_ON
    by (simp add: ambient_serve_def ambient_on_def)
next
  case AMBIENT_OFF
  then show ?thesis
    using ambient_run_report [OF ready, of operation env thread session csrf client confirmation]
    by (simp add: ambient_serve_def ambient_off_def)
qed

lemma ambient_serve_heard:
  assumes "ambient_ready (a, w)"
    and "fst (ambient_serve env thread operation session csrf confirmation client (a, w)) = Some r"
  shows "heard (env_invalidator env) w
    (snd (snd (ambient_serve env thread operation session csrf confirmation client (a, w))))
    (map step_call (am_verified r))"
  using assms ambient_run_heard
  by (cases operation) (simp_all add: ambient_serve_def ambient_on_def ambient_off_def)

lemma on_report_calls:
  assumes "on_report steps [] [] j r new"
  shows "subseq (map fst new) (map step_call (am_attempted r))" "prefix (am_attempted r) steps"
    "prefix (am_verified r) (am_attempted r)"
    "subseq (map (\<lambda>s. (step_call s, True)) (am_verified r)) new"
proof -
  obtain lst where lst: "new = map (\<lambda>s. (step_call s, True)) (take j steps) @ lst"
      "lst = [] \<or> j < length steps \<and> (\<exists>v. lst = [(step_call (steps ! j), v)])"
    using assms by (auto simp: on_report_def)
  have att: "am_attempted r = take (Suc j) steps" and ver: "am_verified r = take j steps"
    using assms by (simp_all add: on_report_def)
  show "subseq (map fst new) (map step_call (am_attempted r))"
  proof (cases "lst = []")
    case True
    have "prefix (take j steps) (take (Suc j) steps)" by (rule take_is_prefix [of j "take (Suc j) steps", simplified min_def, simplified])
    then show ?thesis using True lst(1) att by (auto simp: comp_def intro!: prefix_imp_subseq subseq_map)
  next
    case False
    then show ?thesis using lst att by (auto simp: take_Suc_conv_app_nth comp_def)
  qed
  show "prefix (am_attempted r) steps" using att by (simp add: take_is_prefix)
  show "prefix (am_verified r) (am_attempted r)"
    using att ver by (auto simp: prefix_def intro: exI [of _ "take 1 (drop j steps)"]) (metis add_Suc_right add.right_neutral take_add)
  show "subseq (map (\<lambda>s. (step_call s, True)) (am_verified r)) new"
    using lst(1) ver by (simp add: prefix_imp_subseq)
qed

lemma one_call_subseq:
  "one_call c b new \<Longrightarrow> subseq (map fst new) [c] \<and> subseq (if b then [(c, True)] else []) new"
  by (auto simp: one_call_def split: if_splits)

lemma off_report_calls:
  assumes "off_report r new"
  shows "subseq (map fst new) (map step_call (am_attempted r))"
    "prefix (am_attempted r) (ambient_steps AMBIENT_OFF)" "subseq (am_verified r) (am_attempted r)"
    "subseq (map (\<lambda>s. (step_call s, True)) (am_verified r)) new"
    "am_status r = AS_COMPLETED \<longleftrightarrow> am_verified r = ambient_steps AMBIENT_OFF"
    "am_status r = AS_PARTIALLY_COMPLETED \<longleftrightarrow> am_verified r \<notin> {[], ambient_steps AMBIENT_OFF}"
proof -
  consider (isolated) "am_attempted r = [Step_LED_OUTPUT_DISABLE]" "am_verified r = []"
      "am_status r \<notin> {AS_COMPLETED, AS_PARTIALLY_COMPLETED}"
      "new = [] \<or> (\<exists>v. new = [(step_call Step_LED_OUTPUT_DISABLE, v)])"
    | (full) g l n2 n3 where "am_attempted r = ambient_steps AMBIENT_OFF"
      "am_verified r = Step_LED_OUTPUT_DISABLE # (if g then [Step_VIDEO_GRABBER_DISABLE] else []) @
          (if l then [Step_WLED_POWER_OFF] else [])"
      "am_status r = (if g \<and> l then AS_COMPLETED else AS_PARTIALLY_COMPLETED)"
      "new = (step_call Step_LED_OUTPUT_DISABLE, True) # n2 @ n3"
      "one_call (step_call Step_VIDEO_GRABBER_DISABLE) g n2" "one_call (step_call Step_WLED_POWER_OFF) l n3"
    using assms unfolding off_report_def by blast
  note cases = this
  show "subseq (map fst new) (map step_call (am_attempted r))"
  proof (cases rule: cases)
    case (full g l n2 n3)
    then show ?thesis
      using list_emb_append_mono [OF conjunct1 [OF one_call_subseq [OF full(5)]] conjunct1 [OF one_call_subseq [OF full(6)]]]
      by simp
  qed auto
  show "subseq (map (\<lambda>s. (step_call s, True)) (am_verified r)) new"
  proof (cases rule: cases)
    case (full g l n2 n3)
    then show ?thesis
      using list_emb_append_mono [OF conjunct2 [OF one_call_subseq [OF full(5)]] conjunct2 [OF one_call_subseq [OF full(6)]]]
      by (cases g; cases l) simp_all
  qed auto
  show "prefix (am_attempted r) (ambient_steps AMBIENT_OFF)" "subseq (am_verified r) (am_attempted r)"
    "am_status r = AS_COMPLETED \<longleftrightarrow> am_verified r = ambient_steps AMBIENT_OFF"
    "am_status r = AS_PARTIALLY_COMPLETED \<longleftrightarrow> am_verified r \<notin> {[], ambient_steps AMBIENT_OFF}"
    by (cases rule: cases; auto)+
qed

text \<open>The steps that an admitted composite attempts, given the ones that were verified.\<close>

definition attempted_for :: "AuroraOperation \<Rightarrow> AmbientControlStep list \<Rightarrow> AmbientControlStep list" where
  "attempted_for operation verified =
     (case operation of
        AMBIENT_ON \<Rightarrow>
          take (Suc (length verified)) [Step_VIDEO_GRABBER_ENABLE, Step_WLED_POWER_ON, Step_LED_OUTPUT_ENABLE]
      | AMBIENT_OFF \<Rightarrow>
          if Step_LED_OUTPUT_DISABLE \<in> set verified
          then [Step_LED_OUTPUT_DISABLE, Step_VIDEO_GRABBER_DISABLE, Step_WLED_POWER_OFF]
          else [Step_LED_OUTPUT_DISABLE])"

lemma off_report_attempted:
  "off_report r new \<Longrightarrow> am_attempted r = attempted_for AMBIENT_OFF (am_verified r)"
  by (auto simp: off_report_def attempted_for_def)

lemma on_report_facts:
  assumes "on_report (ambient_steps AMBIENT_ON) [] [] j r new"
  shows "am_attempted r = attempted_for AMBIENT_ON (am_verified r) \<and>
    (am_status r = AS_COMPLETED \<longleftrightarrow> am_verified r = ambient_steps AMBIENT_ON) \<and>
    (am_status r = AS_PARTIALLY_COMPLETED \<longleftrightarrow> am_verified r \<notin> {[], ambient_steps AMBIENT_ON})"
proof -
  have status: "am_verified r = take j (ambient_steps AMBIENT_ON)" "j \<le> length (ambient_steps AMBIENT_ON)"
    "am_attempted r = take (Suc j) (ambient_steps AMBIENT_ON)"
    "am_status r = AS_COMPLETED \<longleftrightarrow> j = length (ambient_steps AMBIENT_ON)"
    "am_status r = AS_PARTIALLY_COMPLETED \<longleftrightarrow> j < length (ambient_steps AMBIENT_ON) \<and> am_verified r \<noteq> []"
    using assms unfolding on_report_def by simp_all
  have "take j (ambient_steps AMBIENT_ON) = ambient_steps AMBIENT_ON \<longleftrightarrow> j = length (ambient_steps AMBIENT_ON)"
    using status(2) by (metis length_take min.absorb2 order_refl take_all)
  then show ?thesis using status by (auto simp: attempted_for_def)
qed

text \<open>What a report says of its steps and calls.\<close>

lemma ambient_report_facts:
  assumes report: "ambient_report authorised accepted free operation r new"
  shows "am_attempted r = (if authorised \<and> accepted \<and> free then attempted_for operation (am_verified r) else []) \<and>
    (operation = AMBIENT_ON \<longrightarrow> prefix (am_verified r) (am_attempted r)) \<and>
    subseq (am_verified r) (am_attempted r) \<and>
    subseq (map fst new) (map step_call (am_attempted r)) \<and>
    (am_status r = AS_COMPLETED \<longleftrightarrow> am_verified r = ambient_steps operation) \<and>
    (am_status r = AS_PARTIALLY_COMPLETED \<longleftrightarrow> am_verified r \<notin> {[], ambient_steps operation})"
proof -
  have nonempty: "ambient_steps operation \<noteq> []" by (cases operation) simp_all
  consider (quiet) status where "r = quiet_result status" "new = []" "\<not> (authorised \<and> accepted \<and> free)"
      "status \<notin> {AS_COMPLETED, AS_PARTIALLY_COMPLETED}"
    | (on) j where "operation = AMBIENT_ON" "on_report (ambient_steps AMBIENT_ON) [] [] j r new"
        "authorised \<and> accepted \<and> free"
    | (off) "operation = AMBIENT_OFF" "off_report r new" "authorised \<and> accepted \<and> free"
    using report by (cases operation) (auto simp: ambient_report_def split: if_splits)
  then show ?thesis
  proof cases
    case quiet
    then show ?thesis using nonempty by (auto simp: quiet_result_def)
  next
    case on
    then show ?thesis using on_report_calls [OF on(2)] on_report_facts [OF on(2)]
      by (simp add: prefix_imp_subseq)
  next
    case off
    then show ?thesis using off_report_calls [OF off(2)] off_report_attempted [OF off(2)] by simp
  qed
qed

text \<open>
  C4. A composite request fails closed. It leads to device calls only when the composite is
  permitted with all its children, the session and its CSRF token are in order, switching off
  is confirmed, the limiter accepts the client and the shared gate is free for the thread; the
  calls are then some of the three calls of the composite, each at most once and in their fixed
  order. The gates are left as they were.
\<close>

theorem ambient_fails_closed:
  assumes "ambient_ready (a, w)"
  shows "\<exists>new. device_calls (snd (snd (ambient_serve env thread operation session csrf confirmation client (a, w))))
        = device_calls w @ new \<and>
    subseq (map fst new) (map step_call (ambient_steps operation)) \<and>
    gates (snd (snd (ambient_serve env thread operation session csrf confirmation client (a, w)))) = gates w \<and>
    (new \<noteq> [] \<longrightarrow>
       ambient_authorised a operation session csrf confirmation \<and>
       fst (begin_attempt (env_blake env) (env_clock env (clock_reads w)) client (ab_limiter a)) \<and>
       owner (gates w (ab_gate a)) \<in> {None, Some thread})"
proof -
  let ?out = "ambient_serve env thread operation session csrf confirmation client (a, w)"
  obtain r new l where ended: "ambient_ended operation (a\<lparr>ab_limiter := l\<rparr>, w) ?out r new"
    and report: "ambient_report (ambient_authorised a operation session csrf confirmation)
      (fst (begin_attempt (env_blake env) (env_clock env (clock_reads w)) client (ab_limiter a)))
      (owner (gates w (ab_gate a)) \<in> {None, Some thread}) operation r new"
    using ambient_serve_report [OF assms, of operation env thread session csrf confirmation client] by blast
  have calls: "subseq (map fst new) (map step_call (am_attempted r)) \<and> prefix (am_attempted r) (ambient_steps operation)"
    if "new \<noteq> []"
    using report that on_report_calls(1,2) [of "ambient_steps AMBIENT_ON"] off_report_calls(1,2)
    by (cases operation) (auto simp: ambient_report_def split: if_splits)
  have "subseq (map fst new) (map step_call (ambient_steps operation))"
  proof (cases "new = []")
    case False
    then show ?thesis using calls prefix_imp_subseq [OF map_mono_prefix] by (blast intro: subseq_order.trans)
  qed simp
  then show ?thesis using ended report
    by (intro exI [of _ new]) (auto simp: ambient_ended_def ambient_moved_def ambient_report_def split: if_splits)
qed

definition sample_ambient_service :: ambient_service where
  "sample_ambient_service =
     \<lparr>ab_settings = \<lparr>as_enabled = True, as_allowed_operations = [AMBIENT_ON, AMBIENT_OFF],
        as_operation_limit = 1, as_operation_window_seconds = 60\<rparr>,
      ab_authentication_enabled = True, ab_wled = sample_wled_service,
      ab_hyperhdr = sample_hyperhdr_service\<lparr>hv_limiter := sample_limiter\<lparr>attempt_limit := 2,
        global_attempt_limit := 32\<rparr>\<rparr>, ab_gate = 0, ab_contracts = projr ambient_operation_registry,
      ab_limiter = sample_limiter\<rparr>"

lemma sample_ambient_ready: "ambient_ready (sample_ambient_service, sample_world)"
proof -
  have "limiter_inv (sample_limiter\<lparr>attempt_limit := 2, global_attempt_limit := 32\<rparr>)"
    by (rule limiter_inv_new [of 2 60 "[1]" 256])
      (simp add: new_limiter_def sample_limiter_def GLOBAL_ATTEMPT_MULTIPLIER_def)
  then show ?thesis using sample_wled_ready sample_hyperhdr_ready sample_limiter_inv
    by (simp add: ambient_ready_def sample_ambient_service_def sample_wled_service_def sample_hyperhdr_service_def
        hyperhdr_ready_def)
qed

lemma sample_ambient_authorised:
  "ambient_authorised sample_ambient_service AMBIENT_ON sample_session (Some sample_token) None"
  using sample_tokens_valid [unfolded sample_tokens_def, simplified]
  by (auto simp: ambient_authorised_def ambient_permitted_def csrf_matches_def csrf_is_valid_def
      sample_session_def sample_ambient_service_def sample_wled_service_def sample_wled_settings_def
      sample_hyperhdr_service_def sample_hyperhdr_settings_def operation_registry_cases
      hyperhdr_operation_registry_def ambient_operation_registry_def contract_simps wled_permitted_def
      hyperhdr_permitted_def step_call.simps sample_token_def)

theorem ambient_fails_closed_witness:
  "device_calls (snd (snd (ambient_serve sample_env 3 AMBIENT_OFF sample_session (Some sample_token) None ''client''
     (sample_ambient_service, sample_world)))) = []"
proof -
  have "\<not> ambient_authorised sample_ambient_service AMBIENT_OFF sample_session (Some sample_token) None"
    by (simp add: ambient_authorised_def)
  then show ?thesis
    using ambient_fails_closed [OF sample_ambient_ready, of sample_env 3 AMBIENT_OFF sample_session
        "Some sample_token" None "''client''"]
    by (auto simp: sample_world_def)
qed

text \<open>
  C5. The report of a composite is exact. It always returns one, and the audit trail ends with the record
  of the composite with the event of its status. The verified steps are exactly the steps whose
  device call was verified and after which the cache was invalidated, in the order of the calls. The
  attempted steps follow from them: none unless the composite was admitted; switching on goes as far
  as the first step that is not verified, over a gapless sequence of verified ones; switching off attempts
  the isolation of the output and, if it is verified, all three. Each device call is that of an
  attempted step, in their order. \<open>COMPLETED\<close> is reported exactly when all steps were verified,
  and \<open>PARTIALLY_COMPLETED\<close> exactly when some but not all were.
\<close>

theorem ambient_report_exact:
  assumes "ambient_ready (a, w)"
  shows "\<exists>r new recs reason.
    fst (ambient_serve env thread operation session csrf confirmation client (a, w)) = Some r \<and>
    device_calls (snd (snd (ambient_serve env thread operation session csrf confirmation client (a, w))))
      = device_calls w @ new \<and>
    audit_trail (snd (snd (ambient_serve env thread operation session csrf confirmation client (a, w))))
      = audit_trail w @ recs @
        [audit_operation_entry (parent_audit_event (am_status r)) reason (Op_Aurora operation)] \<and>
    map step_call (am_verified r) = confirmed (env_invalidator env) (invalidations w) new \<and>
    am_attempted r =
      (if ambient_authorised a operation session csrf confirmation \<and>
          fst (begin_attempt (env_blake env) (env_clock env (clock_reads w)) client (ab_limiter a)) \<and>
          owner (gates w (ab_gate a)) \<in> {None, Some thread}
       then attempted_for operation (am_verified r) else []) \<and>
    (operation = AMBIENT_ON \<longrightarrow> prefix (am_verified r) (am_attempted r)) \<and>
    subseq (am_verified r) (am_attempted r) \<and>
    subseq (map fst new) (map step_call (am_attempted r)) \<and>
    (am_status r = AS_COMPLETED \<longleftrightarrow> am_verified r = ambient_steps operation) \<and>
    (am_status r = AS_PARTIALLY_COMPLETED \<longleftrightarrow> am_verified r \<notin> {[], ambient_steps operation})"
proof -
  let ?out = "ambient_serve env thread operation session csrf confirmation client (a, w)"
  obtain r new l where ended: "ambient_ended operation (a\<lparr>ab_limiter := l\<rparr>, w) ?out r new"
    and report: "ambient_report (ambient_authorised a operation session csrf confirmation)
      (fst (begin_attempt (env_blake env) (env_clock env (clock_reads w)) client (ab_limiter a)))
      (owner (gates w (ab_gate a)) \<in> {None, Some thread}) operation r new"
    using ambient_serve_report [OF assms, of operation env thread session csrf confirmation client] by blast
  have "fst ?out = Some r" using ended by (simp add: ambient_ended_def)
  then have "heard (env_invalidator env) w (snd (snd ?out)) (map step_call (am_verified r))"
    using ambient_serve_heard [OF assms] by blast
  then have "map step_call (am_verified r) = confirmed (env_invalidator env) (invalidations w) new"
    using ended by (auto simp: heard_def ambient_ended_def ambient_moved_def)
  then show ?thesis using ended ambient_report_facts [OF report]
    by (fastforce simp: ambient_ended_def ambient_moved_def)
qed

theorem ambient_report_exact_witness:
  "\<exists>r. fst (ambient_serve sample_env 3 AMBIENT_ON sample_session (Some sample_token) None ''client''
     (sample_ambient_service, sample_world)) = Some r \<and>
     am_attempted r = attempted_for AMBIENT_ON (am_verified r)"
  using ambient_report_exact [OF sample_ambient_ready, of sample_env 3 AMBIENT_ON sample_session
      "Some sample_token" None "''client''"] sample_ambient_authorised
  by (auto simp: sample_ambient_service_def sample_world_def new_gate_def sample_attempt)

text \<open>
  C31. Switching off isolates the light output first: the first device call is the one that
  disables the LED output, and the two later calls are made only after it was verified. Once
  it was, both later steps are attempted, whatever happens to the first of them.
\<close>

theorem ambient_off_isolates_output:
  assumes "ambient_ready (a, w)"
  shows "\<exists>r new. fst (ambient_serve env thread AMBIENT_OFF session csrf confirmation client (a, w)) = Some r \<and>
    device_calls (snd (snd (ambient_serve env thread AMBIENT_OFF session csrf confirmation client (a, w))))
      = device_calls w @ new \<and>
    (new = [] \<or> (\<exists>v rest. new = (HyperHDR_Call LED_OUTPUT_DISABLE, v) # rest \<and> (rest = [] \<or> v))) \<and>
    am_attempted r \<in> {[], [Step_LED_OUTPUT_DISABLE], ambient_steps AMBIENT_OFF} \<and>
    (am_attempted r = ambient_steps AMBIENT_OFF \<longleftrightarrow> Step_LED_OUTPUT_DISABLE \<in> set (am_verified r))"
proof -
  let ?out = "ambient_serve env thread AMBIENT_OFF session csrf confirmation client (a, w)"
  obtain r new l where ended: "ambient_ended AMBIENT_OFF (a\<lparr>ab_limiter := l\<rparr>, w) ?out r new"
    and report: "ambient_report (ambient_authorised a AMBIENT_OFF session csrf confirmation)
      (fst (begin_attempt (env_blake env) (env_clock env (clock_reads w)) client (ab_limiter a)))
      (owner (gates w (ab_gate a)) \<in> {None, Some thread}) AMBIENT_OFF r new"
    using ambient_serve_report [OF assms, of AMBIENT_OFF env thread session csrf confirmation client] by blast
  consider (quiet) status where "r = quiet_result status" "new = []" | (off) "off_report r new"
    using report by (auto simp: ambient_report_def split: if_splits)
  then have "(new = [] \<or> (\<exists>v rest. new = (HyperHDR_Call LED_OUTPUT_DISABLE, v) # rest \<and> (rest = [] \<or> v))) \<and>
    am_attempted r \<in> {[], [Step_LED_OUTPUT_DISABLE], ambient_steps AMBIENT_OFF} \<and>
    (am_attempted r = ambient_steps AMBIENT_OFF \<longleftrightarrow> Step_LED_OUTPUT_DISABLE \<in> set (am_verified r))"
    by cases (auto simp: quiet_result_def off_report_def step_call.simps)
  then show ?thesis using ended by (fastforce simp: ambient_ended_def ambient_moved_def)
qed

theorem ambient_off_isolates_output_witness:
  "\<exists>r. fst (ambient_serve sample_env 3 AMBIENT_OFF sample_session (Some sample_token)
      (Some AURORA_AMBIENT_OFF_CONFIRMATION_VALUE) ''client'' (sample_ambient_service, sample_world)) = Some r \<and>
    (am_attempted r = ambient_steps AMBIENT_OFF \<longleftrightarrow> Step_LED_OUTPUT_DISABLE \<in> set (am_verified r))"
  using ambient_off_isolates_output [OF sample_ambient_ready, of sample_env 3 sample_session
      "Some sample_token" "Some AURORA_AMBIENT_OFF_CONFIRMATION_VALUE" "''client''"] by blast

text \<open>
  A composite reports \<open>BUSY\<close> only for contention from outside: exactly when it was admitted
  and another thread held the shared gate. Its own acquisition never makes a child busy.
\<close>

theorem ambient_busy_iff:
  assumes "ambient_ready (a, w)"
  shows "(\<exists>r. fst (ambient_serve env thread operation session csrf confirmation client (a, w)) = Some r \<and>
      am_status r = AS_BUSY) \<longleftrightarrow>
    ambient_authorised a operation session csrf confirmation \<and>
    fst (begin_attempt (env_blake env) (env_clock env (clock_reads w)) client (ab_limiter a)) \<and>
    (\<exists>other. owner (gates w (ab_gate a)) = Some other \<and> other \<noteq> thread)"
proof -
  let ?out = "ambient_serve env thread operation session csrf confirmation client (a, w)"
  obtain r new l where ended: "ambient_ended operation (a\<lparr>ab_limiter := l\<rparr>, w) ?out r new"
    and report: "ambient_report (ambient_authorised a operation session csrf confirmation)
      (fst (begin_attempt (env_blake env) (env_clock env (clock_reads w)) client (ab_limiter a)))
      (owner (gates w (ab_gate a)) \<in> {None, Some thread}) operation r new"
    using ambient_serve_report [OF assms, of operation env thread session csrf confirmation client] by blast
  have "owner (gates w (ab_gate a)) \<notin> {None, Some thread} \<longleftrightarrow>
      (\<exists>other. owner (gates w (ab_gate a)) = Some other \<and> other \<noteq> thread)" by auto
  moreover have "fst ?out = Some r" using ended by (simp add: ambient_ended_def)
  ultimately show ?thesis using report
    by (auto simp: ambient_report_def quiet_result_def split: if_splits)
qed

theorem ambient_busy_iff_witness:
  "\<not> (\<exists>r. fst (ambient_serve sample_env 3 AMBIENT_ON sample_session (Some sample_token) None ''client''
      (sample_ambient_service, sample_world)) = Some r \<and> am_status r = AS_BUSY)"
  by (subst ambient_busy_iff [OF sample_ambient_ready]) (simp add: sample_world_def new_gate_def)

end
