(* ===== verification/Passwords.thy ===== *)
theory Passwords
  imports Json_Value
begin

text \<open>
  \<open>security/passwords.py\<close>: versioned PBKDF2 password hashes. The key derivation
  \<open>hashlib.pbkdf2_hmac("sha256", ..., dklen=32)\<close> is the argument \<open>kdf\<close>, of the encoded
  password, the salt and the work factor. Base64 is written out. A string is a list of code
  points below 256; \<open>utf8\<close> is its UTF-8 encoding.
\<close>

section \<open>Strings and bytes\<close>

definition utf8_char :: "char \<Rightarrow> bytes" where
  "utf8_char c =
     (let n = ord_of c
      in if n < 128 then [of_nat n] else [of_nat (192 + n div 64), of_nat (128 + n mod 64)])"

definition utf8 :: "string \<Rightarrow> bytes" where
  "utf8 s = concat (map utf8_char s)"

text \<open>Python's \<open>s.split(sep)\<close> and \<open>sep.join(parts)\<close> for a separator of one character.\<close>

fun split_on :: "char \<Rightarrow> string \<Rightarrow> string list" where
  "split_on sep [] = [[]]"
| "split_on sep (c # s) =
     (if c = sep then [] # split_on sep s
      else (case split_on sep s of [] \<Rightarrow> [[c]] | p # ps \<Rightarrow> (c # p) # ps))"

fun join_with :: "char \<Rightarrow> string list \<Rightarrow> string" where
  "join_with sep [] = []"
| "join_with sep [p] = p"
| "join_with sep (p # q # ps) = p @ sep # join_with sep (q # ps)"

definition rstrip_char :: "char \<Rightarrow> string \<Rightarrow> string" where
  "rstrip_char c s = rev (dropWhile (\<lambda>x. x = c) (rev s))"

text \<open>
  \<open>str.isdigit\<close> also accepts the superscript digits (of code 178, 179 and 185 here), which
  \<open>int\<close> refuses with a \<open>ValueError\<close>.
\<close>

definition is_decimal_char :: "char \<Rightarrow> bool" where
  "is_decimal_char c \<longleftrightarrow> in_range CHR ''0'' CHR ''9'' c"

definition is_superscript_digit :: "char \<Rightarrow> bool" where
  "is_superscript_digit c \<longleftrightarrow> ord_of c \<in> {178, 179, 185}"

definition isdigit :: "string \<Rightarrow> bool" where
  "isdigit s \<longleftrightarrow> s \<noteq> [] \<and> list_all (\<lambda>c. is_decimal_char c \<or> is_superscript_digit c) s"

definition int_of_digits :: "string \<Rightarrow> int option" where
  "int_of_digits s =
     (if s \<noteq> [] \<and> list_all is_decimal_char s then Some (int (decimal_value s)) else None)"

section \<open>Base64\<close>

text \<open>
  The URL-safe alphabet. The decoder maps \<open>-\<close> and \<open>_\<close> to \<open>+\<close> and \<open>/\<close> before it decodes, so
  it knows both spellings.
\<close>

definition b64_alphabet :: string where
  "b64_alphabet = ''ABCDEFGHIJKLMNOPQRSTUVWXYZabcdefghijklmnopqrstuvwxyz0123456789-_''"

definition b64_char :: "nat \<Rightarrow> char" where
  "b64_char n = b64_alphabet ! n"

definition b64_index :: "char \<Rightarrow> nat option" where
  "b64_index c =
     (if in_range CHR ''A'' CHR ''Z'' c then Some (ord_of c - 65)
      else if in_range CHR ''a'' CHR ''z'' c then Some (ord_of c - 71)
      else if in_range CHR ''0'' CHR ''9'' c then Some (ord_of c + 4)
      else if c = CHR ''-'' \<or> c = CHR ''+'' then Some 62
      else if c = CHR ''_'' \<or> c = CHR ''/'' then Some 63
      else None)"

fun b64encode :: "bytes \<Rightarrow> string" where
  "b64encode [] = []"
| "b64encode [a] = [b64_char (unat a div 4), b64_char (unat a mod 4 * 16), CHR ''='', CHR ''='']"
| "b64encode [a, b] =
     [b64_char (unat a div 4), b64_char (unat a mod 4 * 16 + unat b div 16),
      b64_char (unat b mod 16 * 4), CHR ''='']"
| "b64encode (a # b # c # rest) =
     b64_char (unat a div 4) # b64_char (unat a mod 4 * 16 + unat b div 16) #
     b64_char (unat b mod 16 * 4 + unat c div 64) # b64_char (unat c mod 64) # b64encode rest"

text \<open>
  The strict decoder: whole quads, padding at the end of the last one only; \<open>None\<close> is
  \<open>binascii.Error\<close>. The unused low bits of the last quad are ignored.
\<close>

fun b64decode :: "string \<Rightarrow> bytes option" where
  "b64decode [] = Some []"
| "b64decode (a # b # c # d # rest) =
     (case (b64_index a, b64_index b) of
        (Some w, Some x) \<Rightarrow>
          if c = CHR ''='' \<and> d = CHR ''='' \<and> rest = [] then Some [of_nat (w * 4 + x div 16)]
          else (case b64_index c of
                  None \<Rightarrow> None
                | Some y \<Rightarrow>
                    if d = CHR ''='' \<and> rest = []
                    then Some [of_nat (w * 4 + x div 16), of_nat (x mod 16 * 16 + y div 4)]
                    else (case (b64_index d, b64decode rest) of
                            (Some z, Some bs) \<Rightarrow>
                              Some (of_nat (w * 4 + x div 16) # of_nat (x mod 16 * 16 + y div 4) #
                                    of_nat (y mod 4 * 64 + z) # bs)
                          | _ \<Rightarrow> None))
      | _ \<Rightarrow> None)"
| "b64decode _ = None"

section \<open>Hashes\<close>

definition HASH_SCHEME :: string where "HASH_SCHEME = ''aurora-pbkdf2-sha256''"
definition HASH_VERSION :: string where "HASH_VERSION = ''v1''"
definition DEFAULT_ITERATIONS :: int where "DEFAULT_ITERATIONS = 600000"
definition MIN_ITERATIONS :: int where "MIN_ITERATIONS = 200000"
definition MAX_ITERATIONS :: int where "MAX_ITERATIONS = 1000000"
definition SALT_BYTES :: nat where "SALT_BYTES = 16"
definition DERIVED_KEY_BYTES :: nat where "DERIVED_KEY_BYTES = 32"
definition MAX_PASSWORD_CHARACTERS :: nat where "MAX_PASSWORD_CHARACTERS = 1024"
definition MAX_ENCODED_HASH_CHARACTERS :: nat where "MAX_ENCODED_HASH_CHARACTERS = 256"

lemmas password_bounds = HASH_SCHEME_def HASH_VERSION_def MIN_ITERATIONS_def MAX_ITERATIONS_def
  SALT_BYTES_def DERIVED_KEY_BYTES_def MAX_PASSWORD_CHARACTERS_def MAX_ENCODED_HASH_CHARACTERS_def

text \<open>\<open>Int_Value_Error\<close> is the \<open>ValueError\<close> of \<open>int\<close>, which is not a \<open>PasswordHashError\<close>.\<close>

datatype password_error = PasswordHashError string | Int_Value_Error

definition password_is_acceptable :: "string \<Rightarrow> bool" where
  "password_is_acceptable password \<longleftrightarrow>
     0 < length password \<and> length password \<le> MAX_PASSWORD_CHARACTERS"

definition encode_part :: "bytes \<Rightarrow> string" where
  "encode_part value = rstrip_char CHR ''='' (b64encode value)"

definition encoded_char :: "char \<Rightarrow> bool" where
  "encoded_char c \<longleftrightarrow>
     in_range CHR ''A'' CHR ''Z'' c \<or> in_range CHR ''a'' CHR ''z'' c \<or>
     in_range CHR ''0'' CHR ''9'' c \<or> c = CHR ''_'' \<or> c = CHR ''-''"

definition decode_part :: "string \<Rightarrow> password_error + bytes" where
  "decode_part value =
     (if value = [] \<or> \<not> list_all encoded_char value
      then Inl (PasswordHashError ''password hash encoding is malformed'')
      else
        (let padding = replicate (nat ((- int (length value)) mod 4)) CHR ''=''
         in case b64decode (value @ padding) of
              None \<Rightarrow> Inl (PasswordHashError ''password hash encoding is malformed'')
            | Some bs \<Rightarrow> Inr bs))"

text \<open>\<open>fresh\<close> is what \<open>secrets.token_bytes(SALT_BYTES)\<close> returns when no salt is given.\<close>

definition hash_password ::
  "(bytes \<Rightarrow> bytes \<Rightarrow> int \<Rightarrow> bytes) \<Rightarrow> bytes \<Rightarrow> string \<Rightarrow> bytes option \<Rightarrow> int \<Rightarrow>
     password_error + string" where
  "hash_password kdf fresh password salt iterations =
     (if \<not> password_is_acceptable password
      then Inl (PasswordHashError ''password length is outside the supported range'')
      else if \<not> (MIN_ITERATIONS \<le> iterations \<and> iterations \<le> MAX_ITERATIONS)
      then Inl (PasswordHashError ''password hash work factor is outside safe bounds'')
      else
        (let active_salt = (case salt of None \<Rightarrow> fresh | Some s \<Rightarrow> s)
         in if length active_salt \<noteq> SALT_BYTES
            then Inl (PasswordHashError ''password hash salt length is unsupported'')
            else
              (let derived = kdf (utf8 password) active_salt iterations
               in Inr (join_with CHR ''$''
                    [HASH_SCHEME, HASH_VERSION, ''i='' @ decimal_int iterations,
                     encode_part active_salt, encode_part derived]))))"

definition parse_password_hash :: "string \<Rightarrow> password_error + (int \<times> bytes \<times> bytes)" where
  "parse_password_hash encoded_hash =
     (if \<not> (1 \<le> length encoded_hash \<and> length encoded_hash \<le> MAX_ENCODED_HASH_CHARACTERS)
      then Inl (PasswordHashError ''password hash length is unsupported'')
      else
        (let parts = split_on CHR ''$'' encoded_hash
         in if length parts \<noteq> 5 \<or> parts ! 0 \<noteq> HASH_SCHEME \<or> parts ! 1 \<noteq> HASH_VERSION
            then Inl (PasswordHashError ''password hash scheme or version is unsupported'')
            else if take 2 (parts ! 2) \<noteq> ''i='' \<or> \<not> isdigit (drop 2 (parts ! 2))
            then Inl (PasswordHashError ''password hash parameters are malformed'')
            else
              (case int_of_digits (drop 2 (parts ! 2)) of
                 None \<Rightarrow> Inl Int_Value_Error
               | Some iterations \<Rightarrow>
                   if \<not> (MIN_ITERATIONS \<le> iterations \<and> iterations \<le> MAX_ITERATIONS)
                   then Inl (PasswordHashError ''password hash work factor is outside safe bounds'')
                   else
                     (case decode_part (parts ! 3) of
                        Inl e \<Rightarrow> Inl e
                      | Inr salt \<Rightarrow>
                          (case decode_part (parts ! 4) of
                             Inl e \<Rightarrow> Inl e
                           | Inr expected \<Rightarrow>
                               if length salt \<noteq> SALT_BYTES \<or> length expected \<noteq> DERIVED_KEY_BYTES
                               then Inl (PasswordHashError
                                      ''password hash material has an unsupported length'')
                               else Inr (iterations, salt, expected))))))"

definition validate_password_hash :: "string \<Rightarrow> password_error option" where
  "validate_password_hash encoded_hash =
     (case parse_password_hash encoded_hash of Inl e \<Rightarrow> Some e | Inr _ \<Rightarrow> None)"

text \<open>The \<open>try\<close> of \<open>verify_password\<close> catches \<open>PasswordHashError\<close>, and nothing else.\<close>

definition verify_password ::
  "(bytes \<Rightarrow> bytes \<Rightarrow> int \<Rightarrow> bytes) \<Rightarrow> string \<Rightarrow> string \<Rightarrow> password_error + bool" where
  "verify_password kdf password encoded_hash =
     (if \<not> password_is_acceptable password then Inr False
      else
        (case parse_password_hash encoded_hash of
           Inl (PasswordHashError m) \<Rightarrow> Inr False
         | Inl Int_Value_Error \<Rightarrow> Inl Int_Value_Error
         | Inr (iterations, salt, expected) \<Rightarrow>
             Inr (kdf (utf8 password) salt iterations = expected)))"

section \<open>UTF-8 is injective\<close>

lemma utf8_char_cases:
  "ord_of c < 128 \<Longrightarrow> utf8_char c = [word_of_nat (ord_of c)]"
  "128 \<le> ord_of c \<Longrightarrow>
     utf8_char c = [word_of_nat (192 + ord_of c div 64), word_of_nat (128 + ord_of c mod 64)]"
  by (simp_all add: utf8_char_def Let_def)

text \<open>Reading a first byte tells the length of the encoding, and the bytes tell the code point.\<close>

lemma ord_of_less: "ord_of c < 256"
  by (simp add: ord_of_def nat_of_char_less_256)

lemma ord_of_inj: "ord_of c = ord_of d \<longleftrightarrow> c = d"
  by (auto simp: ord_of_def)

lemma byte_inj:
  assumes "m < 256" and "n < 256"
  shows "(word_of_nat m :: 8 word) = word_of_nat n \<longleftrightarrow> m = n"
proof
  assume "(word_of_nat m :: 8 word) = word_of_nat n"
  then have "unat (word_of_nat m :: 8 word) = unat (word_of_nat n :: 8 word)" by simp
  with assms show "m = n" by (simp add: unat_of_nat)
qed simp

lemma utf8_char_prefix:
  assumes "utf8_char c @ x = utf8_char d @ y"
  shows "c = d \<and> x = y"
proof -
  have m: "ord_of a mod 64 < 128" for a
    using mod_less_divisor [of 64 "ord_of a"] by linarith
  have e: "ord_of a = ord_of a div 64 * 64 + ord_of a mod 64" for a by simp
  have small: "192 + ord_of a div 64 < 256" for a using ord_of_less [of a] by linarith
  have small': "128 + ord_of a mod 64 < 256" for a using m [of a] by linarith
  show ?thesis
  proof (cases "ord_of c < 128"; cases "ord_of d < 128")
    assume "ord_of c < 128" "ord_of d < 128"
    then show ?thesis using assms byte_inj [of "ord_of c" "ord_of d"]
      by (simp add: utf8_char_cases ord_of_inj)
  next
    assume "ord_of c < 128" "\<not> ord_of d < 128"
    then show ?thesis using assms byte_inj [OF _ small, of "ord_of c" d]
      by (simp add: utf8_char_cases del: of_nat_add)
  next
    assume "\<not> ord_of c < 128" "ord_of d < 128"
    then show ?thesis using assms byte_inj [OF small, of "ord_of d" c]
      by (simp add: utf8_char_cases del: of_nat_add)
  next
    assume "\<not> ord_of c < 128" "\<not> ord_of d < 128"
    then have "ord_of c div 64 = ord_of d div 64" "ord_of c mod 64 = ord_of d mod 64" "x = y"
      using assms byte_inj [OF small small, of c d] byte_inj [OF small' small', of c d]
      by (simp_all add: utf8_char_cases del: of_nat_add)
    then show ?thesis using e [of c] e [of d] by (metis ord_of_inj)
  qed
qed

lemma utf8_simps [simp]:
  "utf8 [] = []" "utf8 (c # s) = utf8_char c @ utf8 s" "utf8_char c \<noteq> []"
  by (simp_all add: utf8_def utf8_char_def Let_def)

lemma utf8_inj: "utf8 s = utf8 t \<longleftrightarrow> s = t"
proof
  show "s = t" if "utf8 s = utf8 t"
    using that
  proof (induction s arbitrary: t)
    case Nil
    then show ?case by (cases t) simp_all
  next
    case (Cons c s)
    then obtain d u where t: "t = d # u" by (cases t) simp_all
    with Cons.prems have "c = d" and "utf8 s = utf8 u" using utf8_char_prefix by auto
    then show ?case using Cons.IH by (simp add: t)
  qed
qed simp

section \<open>Splitting and stripping undo joining and padding\<close>

lemma split_on_last: "sep \<notin> set p \<Longrightarrow> split_on sep p = [p]"
  by (induction p) auto

lemma split_on_first: "sep \<notin> set p \<Longrightarrow> split_on sep (p @ sep # s) = p # split_on sep s"
  by (induction p) auto

lemma split_on_join:
  "ps \<noteq> [] \<Longrightarrow> \<forall>p \<in> set ps. sep \<notin> set p \<Longrightarrow> split_on sep (join_with sep ps) = ps"
  by (induction sep ps rule: join_with.induct) (simp_all add: split_on_last split_on_first)

lemma rstrip_replicate:
  assumes "c \<notin> set s"
  shows "rstrip_char c (s @ replicate k c) = s"
proof -
  have "dropWhile (\<lambda>x. x = c) (replicate k c @ rev s) = rev s"
    using assms by (induction k) (cases "rev s", auto simp: in_set_conv_decomp)
  then show ?thesis by (simp add: rstrip_char_def)
qed

lemma b64_char_facts:
  assumes "n < 64"
  shows "b64_index (b64_char n) = Some n" and "encoded_char (b64_char n)"
    and "b64_char n \<noteq> CHR ''=''" and "b64_char n \<noteq> CHR ''$''"
proof -
  have "list_all (\<lambda>n. b64_index (b64_char n) = Some n \<and> encoded_char (b64_char n) \<and>
      b64_char n \<noteq> CHR ''='' \<and> b64_char n \<noteq> CHR ''$'') [0..<64]"
    by code_simp
  then have "\<forall>n \<in> {0..<64}. b64_index (b64_char n) = Some n \<and> encoded_char (b64_char n) \<and>
      b64_char n \<noteq> CHR ''='' \<and> b64_char n \<noteq> CHR ''$''"
    by (simp add: list_all_iff del: upt_rec_numeral)
  with assms show "b64_index (b64_char n) = Some n" and "encoded_char (b64_char n)"
    and "b64_char n \<noteq> CHR ''=''" and "b64_char n \<noteq> CHR ''$''"
    by auto
qed

lemma unat_byte: "unat (a :: 8 word) < 256"
  using unsigned_less [of a] by simp

text \<open>The six-bit groups of a quad, and the bytes they give back.\<close>

lemma sextets:
  fixes a b c :: "8 word"
  shows "unat a div 4 < 64" "unat a mod 4 * 16 < 64" "unat a mod 4 * 16 + unat b div 16 < 64"
    "unat b mod 16 * 4 < 64" "unat b mod 16 * 4 + unat c div 64 < 64" "unat c mod 64 < 64"
  using unat_byte [of a] unat_byte [of b] unat_byte [of c] by linarith+

lemma first_byte:
  fixes a :: "8 word"
  assumes "y < 16"
  shows "word_of_nat (unat a div 4 * 4 + (unat a mod 4 * 16 + y) div 16) = a"
proof -
  have "unat a div 4 * 4 + (unat a mod 4 * 16 + y) div 16 = unat a" using assms by simp
  then show ?thesis by simp
qed

lemma second_byte:
  fixes b :: "8 word"
  assumes "y < 4"
  shows "word_of_nat ((x * 16 + unat b div 16) mod 16 * 16 + (unat b mod 16 * 4 + y) div 4) = b"
proof -
  have "unat b div 16 < 16" using unat_byte [of b] by linarith
  then have "(x * 16 + unat b div 16) mod 16 * 16 + (unat b mod 16 * 4 + y) div 4 = unat b"
    using assms by simp
  then show ?thesis by simp
qed

lemma third_byte:
  fixes c :: "8 word"
  shows "word_of_nat ((x * 4 + unat c div 64) mod 4 * 64 + unat c mod 64) = c"
proof -
  have "unat c div 64 < 4" using unat_byte [of c] by linarith
  then have "(x * 4 + unat c div 64) mod 4 * 64 + unat c mod 64 = unat c" by simp
  then show ?thesis by simp
qed

lemma b64decode_quad:
  assumes "w < 64" "x < 64" "y < 64" "z < 64"
  shows "b64decode (b64_char w # b64_char x # b64_char y # b64_char z # rest) =
    map_option (\<lambda>bs. word_of_nat (w * 4 + x div 16) # word_of_nat (x mod 16 * 16 + y div 4) #
      word_of_nat (y mod 4 * 64 + z) # bs) (b64decode rest)"
  using assms by (simp add: b64_char_facts split: option.split)

lemma b64decode_last:
  assumes "w < 64" "x < 64" "y < 64"
  shows "b64decode [b64_char w, b64_char x, b64_char y, CHR ''=''] =
    Some [word_of_nat (w * 4 + x div 16), word_of_nat (x mod 16 * 16 + y div 4)]"
  using assms by (simp add: b64_char_facts)

lemma b64decode_encode: "b64decode (b64encode v) = Some v"
proof (induction v rule: b64encode.induct)
  case (4 a b c rest)
  have small: "unat b div 16 < 16" "unat c div 64 < 4"
    using unat_byte [of b] unat_byte [of c] by linarith+
  show ?case
    unfolding b64encode.simps b64decode_quad [OF sextets(1) sextets(3) sextets(5) sextets(6)] 4
    by (simp only: first_byte [OF small(1)] second_byte [OF small(2)] third_byte option.map)
next
  case (3 a b)
  have small: "unat b div 16 < 16" using unat_byte [of b] by linarith
  show ?case
    unfolding b64encode.simps b64decode_last [OF sextets(1) sextets(3) sextets(4)]
    using second_byte [of 0 "unat a mod 4" b] by (simp only: first_byte [OF small]) simp
next
  case (2 a)
  show ?case using first_byte [of 0 a] by (simp add: b64_char_facts sextets)
qed simp

text \<open>An encoding is unpadded characters of the alphabet, then the padding of its length.\<close>

lemma b64encode_shape:
  "\<exists>u k. b64encode v = u @ replicate k CHR ''='' \<and> list_all encoded_char u \<and>
     CHR ''='' \<notin> set u \<and> CHR ''$'' \<notin> set u \<and> k = nat ((- int (length u)) mod 4) \<and>
     (v \<noteq> [] \<longrightarrow> u \<noteq> []) \<and> length u \<le> 2 * length v"
proof (induction v rule: b64encode.induct)
  case (4 a b c rest)
  then obtain u k where "b64encode rest = u @ replicate k CHR ''=''" "list_all encoded_char u"
    "CHR ''='' \<notin> set u" "CHR ''$'' \<notin> set u" "k = nat ((- int (length u)) mod 4)"
    "length u \<le> 2 * length rest"
    by blast
  moreover have "(- int (Suc (Suc (Suc (Suc (length u)))))) mod 4 = (- int (length u)) mod 4"
    by presburger
  ultimately show ?case
    by (intro exI [of _ "take 4 (b64encode (a # b # c # rest)) @ u"] exI [of _ k])
      (auto simp: b64_char_facts sextets
        b64_char_facts(3,4) [THEN not_sym] dest: b64_char_facts(3,4))
next
  case (3 a b)
  show ?case
    by (intro exI [of _ "take 3 (b64encode [a, b])"] exI [of _ 1])
      (auto simp: b64_char_facts sextets b64_char_facts(3,4) [THEN not_sym])
next
  case (2 a)
  show ?case
    by (intro exI [of _ "take 2 (b64encode [a])"] exI [of _ 2])
      (auto simp: b64_char_facts sextets b64_char_facts(3,4) [THEN not_sym] numeral_2_eq_2)
next
  case 1
  show ?case by (intro exI [of _ "[]"] exI [of _ 0]) simp
qed

lemma encode_part_facts:
  assumes "v \<noteq> []"
  shows "decode_part (encode_part v) = Inr v" and "CHR ''$'' \<notin> set (encode_part v)"
    and "length (encode_part v) \<le> 2 * length v"
proof -
  obtain u k where u: "b64encode v = u @ replicate k CHR ''=''" "list_all encoded_char u"
    "CHR ''='' \<notin> set u" "CHR ''$'' \<notin> set u" "k = nat ((- int (length u)) mod 4)"
    "u \<noteq> []" "length u \<le> 2 * length v"
    using b64encode_shape [of v] assms by blast
  have part: "encode_part v = u" by (simp add: encode_part_def u(1) rstrip_replicate u(3))
  show "decode_part (encode_part v) = Inr v"
    using b64decode_encode [of v] u(2,6) by (simp add: part decode_part_def u(1) u(5))
  show "CHR ''$'' \<notin> set (encode_part v)" "length (encode_part v) \<le> 2 * length v"
    using u by (simp_all add: part)
qed

section \<open>Properties\<close>

lemma digit_decimal_char: "n < 10 \<Longrightarrow> is_decimal_char (digit n)"
  by (simp add: is_decimal_char_def in_range_def ord_of_def digit_def)

lemma decimal_chars: "list_all is_decimal_char (decimal n) \<and> decimal n \<noteq> []"
proof (induction n rule: decimal.induct)
  case (1 n)
  then show ?case by (simp add: decimal.simps [of n] digit_decimal_char)
qed

lemma length_decimal: "n < 10 ^ k \<Longrightarrow> 0 < k \<Longrightarrow> length (decimal n) \<le> k"
proof (induction n arbitrary: k rule: decimal.induct)
  case (1 n)
  show ?case
  proof (cases "n < 10")
    case True
    then show ?thesis using 1 by (simp add: decimal.simps [of n])
  next
    case False
    then obtain j where k: "k = Suc j" "0 < j" using 1(2,3)
      by (cases k; cases "k - 1") auto
    have "length (decimal (n div 10)) \<le> j" using 1(2) k by (intro 1(1) False) auto
    then show ?thesis using False by (simp add: decimal.simps [of n] k)
  qed
qed

lemma int_of_decimal:
  assumes "0 \<le> i"
  shows "int_of_digits (decimal_int i) = Some i" and "isdigit (decimal_int i)"
    and "CHR ''$'' \<notin> set (decimal_int i)"
proof -
  have dec: "decimal_int i = decimal (nat i)" using assms by (simp add: decimal_int_def)
  show "int_of_digits (decimal_int i) = Some i" "isdigit (decimal_int i)"
    using assms decimal_chars [of "nat i"] unfolding dec int_of_digits_def isdigit_def
    by (auto simp: decimal_value_decimal list_all_iff)
  have "\<not> is_decimal_char CHR ''$''" by (simp add: is_decimal_char_def in_range_def ord_of_def)
  then show "CHR ''$'' \<notin> set (decimal_int i)"
    using decimal_chars [of "nat i"] unfolding dec list_all_iff by blast
qed

lemma length_join_five:
  "length (join_with c [a, b, d, e, f]) = length a + length b + length d + length e + length f + 4"
  by simp

text \<open>A string of the format that \<open>hash_password\<close> prints parses to what was printed.\<close>

lemma parse_printed:
  assumes it: "MIN_ITERATIONS \<le> it" "it \<le> MAX_ITERATIONS"
    and salt: "length salt = SALT_BYTES" and derived: "length derived = DERIVED_KEY_BYTES"
  shows "parse_password_hash (join_with CHR ''$''
      [HASH_SCHEME, HASH_VERSION, ''i='' @ decimal_int it, encode_part salt, encode_part derived])
    = Inr (it, salt, derived)"
proof -
  let ?parts = "[HASH_SCHEME, HASH_VERSION, ''i='' @ decimal_int it, encode_part salt, encode_part derived]"
  have pos: "0 \<le> it" and small: "nat it < 10 ^ 7" using it by (simp_all add: password_bounds)
  have nonempty: "salt \<noteq> []" "derived \<noteq> []" using salt derived by (auto simp: password_bounds)
  note part_s = encode_part_facts [OF nonempty(1)] and part_d = encode_part_facts [OF nonempty(2)]
  have split: "split_on CHR ''$'' (join_with CHR ''$'' ?parts) = ?parts"
    using part_s(2) part_d(2) int_of_decimal(3) [OF pos]
    by (intro split_on_join) (simp_all add: HASH_SCHEME_def HASH_VERSION_def)
  have "length (decimal_int it) \<le> 7"
    using length_decimal [OF small] pos by (simp add: decimal_int_def)
  then have len: "1 \<le> length (join_with CHR ''$'' ?parts)"
      "length (join_with CHR ''$'' ?parts) \<le> MAX_ENCODED_HASH_CHARACTERS"
    using part_s(3) part_d(3) salt derived
    unfolding length_join_five by (simp_all add: password_bounds)
  show ?thesis
    unfolding parse_password_hash_def split Let_def
    using len it salt derived int_of_decimal [OF pos] part_s(1) part_d(1) by simp
qed

text \<open>
  C14. A hash that \<open>hash_password\<close> prints passes the validation of the configuration, and it
  verifies exactly the acceptable passwords whose derived key is the one of the hashed
  password: the password itself always, another one only when the key derivation collides.
\<close>

theorem hash_verify_roundtrip:
  assumes "hash_password kdf fresh password salt it = Inr h"
    and "\<And>p s i. length (kdf p s i) = DERIVED_KEY_BYTES"
  shows "validate_password_hash h = None \<and> verify_password kdf password h = Inr True \<and>
    (\<exists>s. verify_password kdf other h =
       Inr (password_is_acceptable other \<and> kdf (utf8 other) s it = kdf (utf8 password) s it))"
proof -
  define s where "s = (case salt of None \<Rightarrow> fresh | Some x \<Rightarrow> x)"
  have ok: "password_is_acceptable password" "MIN_ITERATIONS \<le> it" "it \<le> MAX_ITERATIONS"
      "length s = SALT_BYTES"
    and h: "h = join_with CHR ''$'' [HASH_SCHEME, HASH_VERSION, ''i='' @ decimal_int it,
       encode_part s, encode_part (kdf (utf8 password) s it)]"
    using assms(1) by (auto simp: hash_password_def s_def Let_def split: if_splits)
  have "parse_password_hash h = Inr (it, s, kdf (utf8 password) s it)"
    unfolding h by (rule parse_printed [OF ok(2,3,4) assms(2)])
  then show ?thesis using ok(1) by (auto simp: validate_password_hash_def verify_password_def)
qed

theorem hash_verify_roundtrip_witness:
  "\<exists>h. hash_password (\<lambda>p s i. replicate 32 (hd p)) [] ''pw'' (Some (replicate 16 7)) 600000 = Inr h \<and>
     verify_password (\<lambda>p s i. replicate 32 (hd p)) ''pw'' h = Inr True"
proof -
  let ?kdf = "\<lambda>p s i. replicate 32 (hd p) :: bytes"
  obtain h where h: "hash_password ?kdf [] ''pw'' (Some (replicate 16 7)) 600000 = Inr h"
    by (simp add: hash_password_def password_is_acceptable_def password_bounds Let_def)
  have "verify_password ?kdf ''pw'' h = Inr True"
    using hash_verify_roundtrip [OF h, where other = "''no''"] by (simp add: DERIVED_KEY_BYTES_def)
  with h show ?thesis by blast
qed

lemma join_split: "join_with sep (split_on sep s) = s"
proof (induction s)
  case (Cons c s)
  then show ?case by (cases "split_on sep s"; cases "tl (split_on sep s)") auto
qed simp

lemma split_five:
  assumes "length (split_on sep s) = 5"
  obtains a b c d e where "split_on sep s = [a, b, c, d, e]" and "s = join_with sep [a, b, c, d, e]"
  using assms join_split [of sep s] by (auto simp: length_Suc_conv numeral_eq_Suc)

lemma split_on_free: "part \<in> set (split_on sep s) \<Longrightarrow> sep \<notin> set part"
proof (induction s arbitrary: part)
  case (Cons c s)
  then show ?case by (cases "split_on sep s") (auto split: if_splits)
qed simp

lemma decode_part_error: "decode_part v \<noteq> Inl Int_Value_Error"
  by (simp add: decode_part_def Let_def split: option.split)

lemma isdigit_int:
  "isdigit s \<Longrightarrow> int_of_digits s = None \<Longrightarrow> \<exists>c \<in> set s. is_superscript_digit c"
  "int_of_digits s = Some i \<Longrightarrow> list_all is_decimal_char s \<and> i = int (decimal_value s)"
  by (auto simp: isdigit_def int_of_digits_def list_all_iff split: if_splits)

text \<open>
  The hashes that verification accepts, with what they hold, and the hashes on which it raises: those
  whose work factor has a superscript digit, whatever the other two parts are.
\<close>

definition accepted_hash :: "string \<Rightarrow> nat \<Rightarrow> bytes \<Rightarrow> bytes \<Rightarrow> bool" where
  "accepted_hash h n salt key \<longleftrightarrow>
     length h \<le> 256 \<and>
     (\<exists>digits salt_part key_part.
        h = join_with CHR ''$'' [''aurora-pbkdf2-sha256'', ''v1'', ''i='' @ digits, salt_part, key_part] \<and>
        digits \<noteq> [] \<and> list_all is_decimal_char digits \<and>
        n = decimal_value digits \<and> 200000 \<le> n \<and> n \<le> 1000000 \<and>
        set salt_part \<subseteq> set b64_alphabet \<and> decode_part salt_part = Inr salt \<and> length salt = 16 \<and>
        set key_part \<subseteq> set b64_alphabet \<and> decode_part key_part = Inr key \<and> length key = 32)"

definition superscript_factor :: "string \<Rightarrow> bool" where
  "superscript_factor h \<longleftrightarrow>
     length h \<le> 256 \<and>
     (\<exists>digits salt_part key_part.
        h = join_with CHR ''$'' [''aurora-pbkdf2-sha256'', ''v1'', ''i='' @ digits, salt_part, key_part] \<and>
        CHR ''$'' \<notin> set salt_part \<and> CHR ''$'' \<notin> set key_part \<and>
        list_all (\<lambda>c. is_decimal_char c \<or> is_superscript_digit c) digits \<and>
        list_ex is_superscript_digit digits)"

lemma char_range: "in_range lo hi c \<Longrightarrow> c \<in> char_of ` {ord_of lo..ord_of hi}"
  by (auto simp: in_range_def ord_of_def image_iff intro!: bexI [of _ "of_char c :: nat"])
lemma encoded_char_alphabet: "encoded_char c \<Longrightarrow> c \<in> set b64_alphabet"
proof -
  have letters: "map (char_of :: nat \<Rightarrow> char) ([65..<91] @ [97..<123] @ [48..<58]) @ ''-_'' = b64_alphabet"
    by (simp add: upt_rec_numeral b64_alphabet_def char_of_eq_iff)
  assume "encoded_char c"
  then show ?thesis unfolding letters [symmetric] encoded_char_def
    by (auto simp: ord_of_def simp del: upt_rec_numeral dest!: char_range)
qed

lemma decode_part_alphabet: "decode_part v = Inr b \<Longrightarrow> set v \<subseteq> set b64_alphabet"
  by (auto simp: decode_part_def list_all_iff encoded_char_alphabet split: if_splits)

lemma dollar_free:
  "set v \<subseteq> set b64_alphabet \<Longrightarrow> CHR ''$'' \<notin> set v"
  "list_all (\<lambda>c. is_decimal_char c \<or> is_superscript_digit c) v \<Longrightarrow> CHR ''$'' \<notin> set v"
proof -
  have "CHR ''$'' \<notin> set b64_alphabet" by (simp add: b64_alphabet_def)
  then show "set v \<subseteq> set b64_alphabet \<Longrightarrow> CHR ''$'' \<notin> set v" by blast
  have "\<not> is_decimal_char CHR ''$''" "\<not> is_superscript_digit CHR ''$''"
    by (simp_all add: is_decimal_char_def is_superscript_digit_def in_range_def ord_of_def)
  then show "list_all (\<lambda>c. is_decimal_char c \<or> is_superscript_digit c) v \<Longrightarrow> CHR ''$'' \<notin> set v"
    unfolding list_all_iff by blast
qed

lemma digits_exclusive: "is_decimal_char c \<Longrightarrow> \<not> is_superscript_digit c"
  by (auto simp: is_decimal_char_def is_superscript_digit_def in_range_def ord_of_def)

text \<open>Parsing a string of five parts.\<close>

lemma parse_five:
  assumes "CHR ''$'' \<notin> set digits" "CHR ''$'' \<notin> set salt_part" "CHR ''$'' \<notin> set key_part"
  shows "split_on CHR ''$''
      (join_with CHR ''$'' [''aurora-pbkdf2-sha256'', ''v1'', ''i='' @ digits, salt_part, key_part]) =
    [''aurora-pbkdf2-sha256'', ''v1'', ''i='' @ digits, salt_part, key_part]"
  using assms by (intro split_on_join) simp_all

lemma parse_accepts_iff:
  "parse_password_hash h = Inr (it, salt, key) \<longleftrightarrow> (\<exists>n. it = int n \<and> accepted_hash h n salt key)"
proof
  assume parse: "parse_password_hash h = Inr (it, salt, key)"
  then have five: "length (split_on CHR ''$'' h) = 5" and len: "length h \<le> 256"
    by (simp_all add: parse_password_hash_def password_bounds Let_def split: if_splits)
  obtain a b c d e where *: "split_on CHR ''$'' h = [a, b, c, d, e]"
    "h = join_with CHR ''$'' [a, b, c, d, e]"
    by (rule split_five [OF five])
  have facts: "a = ''aurora-pbkdf2-sha256''" "b = ''v1''" "take 2 c = ''i=''" "drop 2 c \<noteq> []"
      "int_of_digits (drop 2 c) = Some it" "200000 \<le> it" "it \<le> 1000000"
      "decode_part d = Inr salt" "decode_part e = Inr key" "length salt = 16" "length key = 32"
    using parse by (auto simp: parse_password_hash_def Let_def *(1) password_bounds isdigit_def
        HASH_SCHEME_def HASH_VERSION_def split: if_splits option.splits sum.splits)
  have c: "c = ''i='' @ drop 2 c" using append_take_drop_id [of 2 c] facts(3) by simp
  have "list_all is_decimal_char (drop 2 c)" "it = int (decimal_value (drop 2 c))"
    using isdigit_int(2) [OF facts(5)] by simp_all
  then show "\<exists>n. it = int n \<and> accepted_hash h n salt key"
    unfolding accepted_hash_def using facts *(2) c len decode_part_alphabet
    by (intro exI [of _ "decimal_value (drop 2 c)"] conjI exI [of _ "drop 2 c"] exI [of _ d] exI [of _ e]) auto
next
  assume "\<exists>n. it = int n \<and> accepted_hash h n salt key"
  then obtain digits salt_part key_part where
      h: "h = join_with CHR ''$'' [''aurora-pbkdf2-sha256'', ''v1'', ''i='' @ digits, salt_part, key_part]"
    and facts: "length h \<le> 256" "digits \<noteq> []" "list_all is_decimal_char digits" "it = int (decimal_value digits)"
      "200000 \<le> it" "it \<le> 1000000" "set salt_part \<subseteq> set b64_alphabet" "decode_part salt_part = Inr salt"
      "length salt = 16" "set key_part \<subseteq> set b64_alphabet" "decode_part key_part = Inr key" "length key = 32"
    by (auto simp: accepted_hash_def)
  have "list_all (\<lambda>c. is_decimal_char c \<or> is_superscript_digit c) digits" using facts(3) by (simp add: list_all_iff)
  moreover have nonempty: "1 \<le> length h" by (simp add: h)
  ultimately have "isdigit digits" "CHR ''$'' \<notin> set digits" using facts(2) dollar_free(2) by (simp_all add: isdigit_def)
  then show "parse_password_hash h = Inr (it, salt, key)"
    using facts parse_five [of digits salt_part key_part, folded h] dollar_free(1) nonempty
    by (simp add: parse_password_hash_def Let_def password_bounds HASH_SCHEME_def HASH_VERSION_def int_of_digits_def)
qed

lemma parse_raises_iff: "parse_password_hash h = Inl Int_Value_Error \<longleftrightarrow> superscript_factor h"
proof
  assume parse: "parse_password_hash h = Inl Int_Value_Error"
  then have five: "length (split_on CHR ''$'' h) = 5" and len: "length h \<le> 256"
    by (simp_all add: parse_password_hash_def password_bounds Let_def split: if_splits)
  obtain a b c d e where *: "split_on CHR ''$'' h = [a, b, c, d, e]"
    "h = join_with CHR ''$'' [a, b, c, d, e]"
    by (rule split_five [OF five])
  have facts: "a = ''aurora-pbkdf2-sha256''" "b = ''v1''" "take 2 c = ''i=''" "isdigit (drop 2 c)"
      "int_of_digits (drop 2 c) = None"
    using parse decode_part_error by (auto simp: parse_password_hash_def Let_def *(1) HASH_SCHEME_def
        HASH_VERSION_def split: if_splits option.splits sum.splits)
  have c: "c = ''i='' @ drop 2 c" using append_take_drop_id [of 2 c] facts(3) by simp
  have "CHR ''$'' \<notin> set d" "CHR ''$'' \<notin> set e" using split_on_free [of d "CHR ''$''" h] split_on_free [of e "CHR ''$''" h] *(1)
    by auto
  moreover have "list_ex is_superscript_digit (drop 2 c)"
    using isdigit_int(1) [OF facts(4,5)] by (simp add: list_ex_iff)
  ultimately show "superscript_factor h"
    unfolding superscript_factor_def using facts *(2) c len
    by (intro conjI exI [of _ "drop 2 c"] exI [of _ d] exI [of _ e]) (auto simp: isdigit_def)
next
  assume "superscript_factor h"
  then obtain digits salt_part key_part where
      h: "h = join_with CHR ''$'' [''aurora-pbkdf2-sha256'', ''v1'', ''i='' @ digits, salt_part, key_part]"
    and facts: "length h \<le> 256" "CHR ''$'' \<notin> set salt_part" "CHR ''$'' \<notin> set key_part"
      "list_all (\<lambda>c. is_decimal_char c \<or> is_superscript_digit c) digits" "list_ex is_superscript_digit digits"
    by (auto simp: superscript_factor_def)
  have nonempty: "1 \<le> length h" by (simp add: h)
  have "isdigit digits" "int_of_digits digits = None" "CHR ''$'' \<notin> set digits"
    using facts(4,5) dollar_free(2) [OF facts(4)] digits_exclusive
    by (auto simp: isdigit_def int_of_digits_def list_all_iff list_ex_iff)
  then show "parse_password_hash h = Inl Int_Value_Error"
    using facts parse_five [of digits salt_part key_part, folded h] nonempty
    by (simp add: parse_password_hash_def Let_def password_bounds HASH_SCHEME_def HASH_VERSION_def)
qed



text \<open>
  A superscript digit in the work factor passes the \<open>isdigit\<close> guard, and the \<open>ValueError\<close> of
  \<open>int\<close> leaves \<open>verify_password\<close>, which promises a Boolean.
\<close>

lemma superscript_work_factor_raises:
  "verify_password kdf ''pw'' (''aurora-pbkdf2-sha256$v1$i='' @ [CHR 0xB2] @ ''$AA$AA'')
    = Inl Int_Value_Error"
  by (simp add: verify_password_def parse_password_hash_def password_is_acceptable_def
      password_bounds isdigit_def int_of_digits_def is_decimal_char_def is_superscript_digit_def
      in_range_def ord_of_def Let_def)

end
