(* ===== verification/Auth_Service.thy ===== *)
theory Auth_Service
  imports Control_World Passwords
begin

text \<open>
  \<open>control_plane/service.py\<close> and the authentication settings of \<open>config/models.py\<close>: login,
  session lookup and logout, in front of the attempt limiter, the session store and the
  password hash. A method of \<open>ControlPlaneService\<close> is a function on the pair of the service
  and the shared world. The primitives it rests on (SHA-256 of a token, the token source and
  the key derivation) are a record. Statuses carry the prefix \<open>LG_\<close>.
\<close>

section \<open>Settings\<close>

record DashboardAuthenticationSettings =
  da_enabled :: bool
  da_username :: "string option"
  da_password_hash :: "string option"
  da_session_ttl_minutes :: int
  da_maximum_sessions :: int
  da_secure_cookie :: bool
  da_login_attempt_limit :: int
  da_login_attempt_window_seconds :: int

text \<open>The pattern \<open>[A-Za-z0-9][A-Za-z0-9_.-]{0,63}\<close>.\<close>

definition alphanumeric :: "char \<Rightarrow> bool" where
  "alphanumeric c \<longleftrightarrow>
     in_range CHR ''A'' CHR ''Z'' c \<or> in_range CHR ''a'' CHR ''z'' c \<or> in_range CHR ''0'' CHR ''9'' c"

definition operator_name :: "string \<Rightarrow> bool" where
  "operator_name value \<longleftrightarrow>
     value \<noteq> [] \<and> alphanumeric (hd value) \<and> length (tl value) \<le> 63 \<and>
     list_all (\<lambda>c. alphanumeric c \<or> c = CHR ''_'' \<or> c = CHR ''.'' \<or> c = CHR ''-'') (tl value)"

text \<open>
  Validation: the bounds of the field types, the two field validators and the model validator.
  \<open>None\<close> is a \<open>ValidationError\<close>; a \<open>ValueError\<close> of any kind in a validator becomes one.
\<close>

definition check_authentication_settings ::
  "DashboardAuthenticationSettings \<Rightarrow> DashboardAuthenticationSettings option" where
  "check_authentication_settings a =
     (if (case da_username a of None \<Rightarrow> True
          | Some u \<Rightarrow> 1 \<le> length u \<and> length u \<le> 64 \<and> operator_name u) \<and>
         (case da_password_hash a of None \<Rightarrow> True
          | Some h \<Rightarrow> validate_password_hash h = None) \<and>
         5 \<le> da_session_ttl_minutes a \<and> da_session_ttl_minutes a \<le> 1440 \<and>
         1 \<le> da_maximum_sessions a \<and> da_maximum_sessions a \<le> 64 \<and>
         1 \<le> da_login_attempt_limit a \<and> da_login_attempt_limit a \<le> 20 \<and>
         30 \<le> da_login_attempt_window_seconds a \<and> da_login_attempt_window_seconds a \<le> 3600 \<and>
         (da_enabled a \<longrightarrow> da_username a \<noteq> None \<and> da_password_hash a \<noteq> None)
      then Some a else None)"

section \<open>The service\<close>

datatype LoginStatus = LG_SUCCESS | LG_FAILURE | LG_RATE_LIMITED | LG_UNAVAILABLE

record LoginResult =
  lr_status :: LoginStatus
  lr_created_session :: "CreatedSession option"

record auth_service =
  au_settings :: DashboardAuthenticationSettings
  au_sessions :: session_store
  au_limiter :: limiter
  au_username :: string
  au_password_hash :: string

record auth_primitives =
  pr_sha :: "string \<Rightarrow> bytes"
  pr_tokens :: "nat \<Rightarrow> nat \<Rightarrow> string"
  pr_kdf :: "bytes \<Rightarrow> bytes \<Rightarrow> int \<Rightarrow> bytes"

text \<open>What a login may raise: the \<open>ValueError\<close> of \<open>int\<close>, or the token source's \<open>RuntimeError\<close>.\<close>

datatype login_error = Login_Value_Error | Login_Token_Error token_error

text \<open>
  The constructor, with the limiter's digest key given or drawn. \<open>None\<close> is a \<open>ValueError\<close> of
  the session store or the limiter.
\<close>

definition new_auth_service ::
  "DashboardAuthenticationSettings \<Rightarrow> bytes \<Rightarrow> auth_service option" where
  "new_auth_service settings key =
     (case new_session_store (of_int (da_session_ttl_minutes settings * 60))
             (da_maximum_sessions settings) of
        None \<Rightarrow> None
      | Some store \<Rightarrow>
          (case new_limiter (da_login_attempt_limit settings)
                 (of_int (da_login_attempt_window_seconds settings)) key MAX_TRACKED_CLIENTS of
             None \<Rightarrow> None
           | Some l \<Rightarrow>
               Some \<lparr>au_settings = settings, au_sessions = store, au_limiter = l,
                     au_username = (case da_username settings of None \<Rightarrow> [] | Some u \<Rightarrow> u),
                     au_password_hash =
                       (case da_password_hash settings of None \<Rightarrow> [] | Some h \<Rightarrow> h)\<rparr>))"

definition authentication_enabled :: "auth_service \<Rightarrow> bool" where
  "authentication_enabled s = da_enabled (au_settings s)"

definition secure_cookie :: "auth_service \<Rightarrow> bool" where
  "secure_cookie s = da_secure_cookie (au_settings s)"

definition session_ttl_seconds :: "auth_service \<Rightarrow> int" where
  "session_ttl_seconds s = da_session_ttl_minutes (au_settings s) * 60"

definition active_session_count ::
  "control_env \<Rightarrow> auth_service \<times> control_world \<Rightarrow> int \<times> (auth_service \<times> control_world)" where
  "active_session_count env = (\<lambda>(s, w).
     let (now, w1) = read_clock env w;
         (n, store) = active_count now (au_sessions s)
     in (n, (s\<lparr>au_sessions := store\<rparr>, w1)))"

definition auth_tracked_client_count ::
  "control_env \<Rightarrow> auth_service \<times> control_world \<Rightarrow> int \<times> (auth_service \<times> control_world)" where
  "auth_tracked_client_count env = (\<lambda>(s, w).
     let (now, w1) = read_clock env w;
         (n, l) = tracked_client_count now (au_limiter s)
     in (n, (s\<lparr>au_limiter := l\<rparr>, w1)))"

section \<open>Login\<close>

text \<open>The part of \<open>authenticate\<close> behind the credentials: clear, invalidate, create, audit.\<close>

definition open_session ::
  "auth_primitives \<Rightarrow> control_env \<Rightarrow> string \<Rightarrow> string option \<Rightarrow> auth_service \<times> control_world \<Rightarrow>
     (login_error + LoginResult) \<times> (auth_service \<times> control_world)" where
  "open_session prim env client_identifier prior_session_token = (\<lambda>(s, w).
     let l = clear (env_blake env) client_identifier (au_limiter s);
         store = (case prior_session_token of
                    None \<Rightarrow> au_sessions s
                  | Some prior \<Rightarrow> snd (invalidate (pr_sha prim) prior (au_sessions s)));
         (now, w1) = read_clock env w
     in case create (pr_sha prim) (pr_tokens prim) now (au_username s) store of
          (Inl e, store') \<Rightarrow>
            (Inl (Login_Token_Error e), (s\<lparr>au_limiter := l, au_sessions := store'\<rparr>, w1))
        | (Inr created, store') \<Rightarrow>
            (Inr \<lparr>lr_status = LG_SUCCESS, lr_created_session = Some created\<rparr>,
             (s\<lparr>au_limiter := l, au_sessions := store'\<rparr>,
              audit LOGIN_SUCCEEDED AR_AUTHENTICATED w1)))"

definition authenticate ::
  "auth_primitives \<Rightarrow> control_env \<Rightarrow> string \<Rightarrow> string \<Rightarrow> string \<Rightarrow> string option \<Rightarrow>
     auth_service \<times> control_world \<Rightarrow>
     (login_error + LoginResult) \<times> (auth_service \<times> control_world)" where
  "authenticate prim env user password client_identifier prior_session_token = (\<lambda>(s, w).
     if \<not> authentication_enabled s
     then (Inr \<lparr>lr_status = LG_UNAVAILABLE, lr_created_session = None\<rparr>, (s, w))
     else
       (let (now, w1) = read_clock env w;
            (accepted, l) = begin_attempt (env_blake env) now client_identifier (au_limiter s);
            s1 = s\<lparr>au_limiter := l\<rparr>
        in if \<not> accepted
           then (Inr \<lparr>lr_status = LG_RATE_LIMITED, lr_created_session = None\<rparr>,
                 (s1, audit LOGIN_RATE_LIMITED AR_ATTEMPT_LIMIT w1))
           else
             (let username_matches = (utf8 user = utf8 (au_username s1))
              in case verify_password (pr_kdf prim) password (au_password_hash s1) of
                   Inl e \<Rightarrow> (Inl Login_Value_Error, (s1, w1))
                 | Inr password_matches \<Rightarrow>
                     if \<not> (username_matches \<and> password_matches)
                     then (Inr \<lparr>lr_status = LG_FAILURE, lr_created_session = None\<rparr>,
                           (s1, audit LOGIN_FAILED AR_INVALID_CREDENTIALS w1))
                     else open_session prim env client_identifier prior_session_token (s1, w1))))"

section \<open>Sessions and logout\<close>

text \<open>\<open>resolve\<close> reads the clock only for a token of the wire grammar.\<close>

definition resolve_session ::
  "auth_primitives \<Rightarrow> control_env \<Rightarrow> string option \<Rightarrow> auth_service \<times> control_world \<Rightarrow>
     SessionContext option \<times> (auth_service \<times> control_world)" where
  "resolve_session prim env token = (\<lambda>(s, w).
     case (if authentication_enabled s then token else None) of
       None \<Rightarrow> (None, (s, w))
     | Some submitted \<Rightarrow>
         (let (now, w1) = (if opaque_token_is_valid submitted then read_clock env w else (0, w));
              (lookup, store) = resolve (pr_sha prim) now submitted (au_sessions s);
              s1 = s\<lparr>au_sessions := store\<rparr>
          in if lookup_status lookup = VALID then (lookup_session lookup, (s1, w1))
             else
               (let reason = (if lookup_status lookup = EXPIRED then AR_EXPIRED_SESSION
                              else AR_INVALID_SESSION)
                in (None, (s1, audit SESSION_REJECTED reason w1)))))"

definition logout ::
  "auth_primitives \<Rightarrow> string \<Rightarrow> SessionContext \<Rightarrow> string option \<Rightarrow> auth_service \<times> control_world \<Rightarrow>
     bool \<times> (auth_service \<times> control_world)" where
  "logout prim session_token session submitted_csrf = (\<lambda>(s, w).
     case submitted_csrf of
       None \<Rightarrow> (False, (s, audit CSRF_REJECTED AR_MISSING_CSRF w))
     | Some csrf \<Rightarrow>
         if \<not> csrf_is_valid session csrf
         then (False, (s, audit CSRF_REJECTED AR_INVALID_CSRF w))
         else (True, (s\<lparr>au_sessions := snd (invalidate (pr_sha prim) session_token (au_sessions s))\<rparr>,
                      audit LOGOUT_SUCCEEDED AR_LOGGED_OUT w)))"

definition audit_page_denied :: "AuditReason \<Rightarrow> control_world \<Rightarrow> control_world" where
  "audit_page_denied reason w = audit PROTECTED_PAGE_DENIED reason w"

definition audit_api_denied :: "AuditReason \<Rightarrow> control_world \<Rightarrow> control_world" where
  "audit_api_denied reason w = audit PROTECTED_API_DENIED reason w"

definition audit_malformed_cookie :: "control_world \<Rightarrow> control_world" where
  "audit_malformed_cookie w = audit SESSION_REJECTED AR_MALFORMED_COOKIE w"

definition audit_malformed_request :: "AuditReason \<Rightarrow> control_world \<Rightarrow> control_world" where
  "audit_malformed_request reason w = audit AUTHENTICATION_REQUEST_REJECTED reason w"

section \<open>What a login does\<close>

text \<open>The state that a run of the service keeps: its limiter, its store and its credentials.\<close>

definition auth_ready :: "DashboardAuthenticationSettings \<Rightarrow> auth_service \<times> control_world \<Rightarrow> bool" where
  "auth_ready settings = (\<lambda>(s, w).
     limiter_inv (au_limiter s) \<and> store_inv (au_sessions s) \<and> au_settings s = settings \<and>
     au_username s = (case da_username settings of None \<Rightarrow> [] | Some u \<Rightarrow> u) \<and>
     au_password_hash s = (case da_password_hash settings of None \<Rightarrow> [] | Some h \<Rightarrow> h))"

lemma new_auth_ready:
  assumes "new_auth_service settings key = Some s"
  shows "auth_ready settings (s, w)" and "sessions (au_sessions s) = []"
    and "ttl_seconds (au_sessions s) = of_int (da_session_ttl_minutes settings * 60)"
    and "global_attempts (au_limiter s) = []"
    and "window_seconds (au_limiter s) = of_int (da_login_attempt_window_seconds settings)"
    and "global_attempt_limit (au_limiter s) = da_login_attempt_limit settings * 16"
proof -
  obtain store l where store: "new_session_store (of_int (da_session_ttl_minutes settings * 60))
        (da_maximum_sessions settings) = Some store"
    and l: "new_limiter (da_login_attempt_limit settings)
        (of_int (da_login_attempt_window_seconds settings)) key MAX_TRACKED_CLIENTS = Some l"
    and s: "s = \<lparr>au_settings = settings, au_sessions = store, au_limiter = l,
        au_username = (case da_username settings of None \<Rightarrow> [] | Some u \<Rightarrow> u),
        au_password_hash = (case da_password_hash settings of None \<Rightarrow> [] | Some h \<Rightarrow> h)\<rparr>"
    using assms by (auto simp: new_auth_service_def split: option.splits)
  show "auth_ready settings (s, w)"
    using limiter_inv_new [OF l] store_inv_new [OF store] by (simp add: auth_ready_def s)
  show "sessions (au_sessions s) = []"
    "ttl_seconds (au_sessions s) = of_int (da_session_ttl_minutes settings * 60)"
    using store by (auto simp: s new_session_store_def split: if_splits)
  show "global_attempts (au_limiter s) = []"
    "window_seconds (au_limiter s) = of_int (da_login_attempt_window_seconds settings)"
    "global_attempt_limit (au_limiter s) = da_login_attempt_limit settings * 16"
    using new_limiter_fields [OF l] by (simp_all add: s)
qed

text \<open>
  The credentials that a login needs, whether the limiter admits it, and the session store
  after the prior session was given up.
\<close>

definition login_credentials ::
  "auth_primitives \<Rightarrow> DashboardAuthenticationSettings \<Rightarrow> string \<Rightarrow> string \<Rightarrow> bool" where
  "login_credentials prim settings user password \<longleftrightarrow>
     user = (case da_username settings of None \<Rightarrow> [] | Some u \<Rightarrow> u) \<and>
     verify_password (pr_kdf prim) password
       (case da_password_hash settings of None \<Rightarrow> [] | Some h \<Rightarrow> h) = Inr True"

definition login_attempt ::
  "control_env \<Rightarrow> string \<Rightarrow> auth_service \<times> control_world \<Rightarrow> bool \<times> limiter" where
  "login_attempt env client_identifier = (\<lambda>(s, w).
     begin_attempt (env_blake env) (env_clock env (clock_reads w)) client_identifier (au_limiter s))"

definition without_prior ::
  "auth_primitives \<Rightarrow> string option \<Rightarrow> session_store \<Rightarrow> session_store" where
  "without_prior prim prior store =
     (case prior of None \<Rightarrow> store | Some token \<Rightarrow> snd (invalidate (pr_sha prim) token store))"

text \<open>Every way a login can end.\<close>

lemma authenticate_cases:
  assumes ready: "auth_ready settings (s, w)"
    and run: "authenticate prim env user password client prior (s, w) = (r, (s', w'))"
  obtains
    (disabled) "\<not> da_enabled settings" "r = Inr \<lparr>lr_status = LG_UNAVAILABLE, lr_created_session = None\<rparr>"
      "s' = s" "w' = w"
  | (limited) l where "da_enabled settings" "login_attempt env client (s, w) = (False, l)"
      "r = Inr \<lparr>lr_status = LG_RATE_LIMITED, lr_created_session = None\<rparr>" "s' = s\<lparr>au_limiter := l\<rparr>"
      "w' = audit LOGIN_RATE_LIMITED AR_ATTEMPT_LIMIT (snd (read_clock env w))"
  | (raised) l e where "da_enabled settings" "login_attempt env client (s, w) = (True, l)"
      "verify_password (pr_kdf prim) password (au_password_hash s) = Inl e"
      "r = Inl Login_Value_Error" "s' = s\<lparr>au_limiter := l\<rparr>" "w' = snd (read_clock env w)"
  | (refused) l where "da_enabled settings" "login_attempt env client (s, w) = (True, l)"
      "\<not> login_credentials prim settings user password"
      "r = Inr \<lparr>lr_status = LG_FAILURE, lr_created_session = None\<rparr>" "s' = s\<lparr>au_limiter := l\<rparr>"
      "w' = audit LOGIN_FAILED AR_INVALID_CREDENTIALS (snd (read_clock env w))"
  | (no_token) l e store where "da_enabled settings" "login_attempt env client (s, w) = (True, l)"
      "login_credentials prim settings user password" "r = Inl (Login_Token_Error e)"
      "create (pr_sha prim) (pr_tokens prim) (env_clock env (Suc (clock_reads w))) user
         (without_prior prim prior (au_sessions s)) = (Inl e, store)"
      "s' = s\<lparr>au_limiter := clear (env_blake env) client l, au_sessions := store\<rparr>"
      "w' = snd (read_clock env (snd (read_clock env w)))"
  | (opened) l c store where "da_enabled settings" "login_attempt env client (s, w) = (True, l)"
      "login_credentials prim settings user password"
      "r = Inr \<lparr>lr_status = LG_SUCCESS, lr_created_session = Some c\<rparr>"
      "create (pr_sha prim) (pr_tokens prim) (env_clock env (Suc (clock_reads w))) user
         (without_prior prim prior (au_sessions s)) = (Inr c, store)"
      "s' = s\<lparr>au_limiter := clear (env_blake env) client l, au_sessions := store\<rparr>"
      "w' = audit LOGIN_SUCCEEDED AR_AUTHENTICATED (snd (read_clock env (snd (read_clock env w))))"
proof -
  note state = ready [unfolded auth_ready_def, simplified]
  obtain ok l where at: "login_attempt env client (s, w) = (ok, l)" by fastforce
  then have begin_attempt: "begin_attempt (env_blake env) (env_clock env (clock_reads w)) client (au_limiter s) = (ok, l)"
    by (simp add: login_attempt_def)
  have enabled: "authentication_enabled s = da_enabled settings"
    using state by (simp add: authentication_enabled_def)
  let ?verify = "verify_password (pr_kdf prim) password (au_password_hash s)"
  have creds: "login_credentials prim settings user password \<longleftrightarrow> utf8 user = utf8 (au_username s) \<and> ?verify = Inr True"
    using state by (simp add: login_credentials_def utf8_inj)
  obtain cr store where cr: "create (pr_sha prim) (pr_tokens prim) (env_clock env (Suc (clock_reads w))) (au_username s)
      (without_prior prim prior (au_sessions s)) = (cr, store)" by fastforce
  let ?w1 = "snd (read_clock env w)" and ?s1 = "s\<lparr>au_limiter := l\<rparr>"
  let ?plain = "\<lambda>st. Inr \<lparr>lr_status = st, lr_created_session = None\<rparr>"
  have run': "(r, (s', w')) =
    (if \<not> da_enabled settings then (?plain LG_UNAVAILABLE, (s, w))
     else if \<not> ok then (?plain LG_RATE_LIMITED, (?s1, audit LOGIN_RATE_LIMITED AR_ATTEMPT_LIMIT ?w1))
     else (case ?verify of
             Inl e \<Rightarrow> (Inl Login_Value_Error, (?s1, ?w1))
           | Inr b \<Rightarrow>
               if \<not> (utf8 user = utf8 (au_username s) \<and> b)
               then (?plain LG_FAILURE, (?s1, audit LOGIN_FAILED AR_INVALID_CREDENTIALS ?w1))
               else open_session prim env client prior (?s1, ?w1)))"
    using run by (simp add: authenticate_def enabled begin_attempt read_clock_def Let_def
        cong: if_cong sum.case_cong)
  have start: "open_session prim env client prior (?s1, ?w1) =
    (let s2 = s\<lparr>au_limiter := clear (env_blake env) client l, au_sessions := store\<rparr>;
         w2 = snd (read_clock env ?w1)
     in case cr of
          Inl e \<Rightarrow> (Inl (Login_Token_Error e), (s2, w2))
        | Inr c \<Rightarrow> (Inr \<lparr>lr_status = LG_SUCCESS, lr_created_session = Some c\<rparr>,
                    (s2, audit LOGIN_SUCCEEDED AR_AUTHENTICATED w2)))"
    using cr by (cases prior; cases cr)
      (simp_all add: open_session_def read_clock_def without_prior_def Let_def)
  consider "\<not> da_enabled settings" | "da_enabled settings" "\<not> ok"
    | e where "da_enabled settings" "ok" "?verify = Inl e"
    | b where "da_enabled settings" "ok" "?verify = Inr b" "\<not> login_credentials prim settings user password"
    | "da_enabled settings" "ok" "?verify = Inr True" "login_credentials prim settings user password"
    using creds by (cases ?verify; cases ok) auto
  then show thesis
  proof cases
    case 1
    then show thesis using run' by (auto intro: disabled)
  next
    case 2
    then show thesis using run' at by (auto intro: limited)
  next
    case 3
    then show thesis using run' at by (auto intro: raised)
  next
    case 4
    then show thesis using run' at creds by (cases b) (auto intro: refused split: if_splits)
  next
    case 5
    then have user: "user = au_username s" using creds by (simp add: utf8_inj)
    then show thesis using 5 run' [unfolded start] at cr
      by (cases cr) (auto simp: Let_def intro: no_token opened)
  qed
qed


section \<open>The service as a session backend\<close>

text \<open>The calls of the service, each served with the clock at one reading.\<close>

datatype auth_request =
    Login string string string "string option"
  | Lookup "string option"
  | Leave string SessionContext "string option"
  | Count_Sessions
  | Count_Clients

definition auth_exec ::
  "auth_primitives \<Rightarrow> control_env \<Rightarrow> seconds \<Rightarrow> auth_request \<Rightarrow> auth_service \<times> control_world \<Rightarrow>
     auth_service \<times> control_world" where
  "auth_exec prim env now q st =
     (case q of
        Login user password client prior \<Rightarrow>
          snd (authenticate prim (at_time now env) user password client prior st)
      | Lookup token \<Rightarrow> snd (resolve_session prim (at_time now env) token st)
      | Leave token session csrf \<Rightarrow> snd (logout prim token session csrf st)
      | Count_Sessions \<Rightarrow> snd (active_session_count (at_time now env) st)
      | Count_Clients \<Rightarrow> snd (auth_tracked_client_count (at_time now env) st))"

definition auth_view ::
  "auth_primitives \<Rightarrow> auth_service \<times> control_world \<Rightarrow> seconds \<Rightarrow> string \<Rightarrow> string option" where
  "auth_view prim = (\<lambda>(s, w) t token. user_view (pr_sha prim) (au_sessions s) t token)"

definition auth_opens ::
  "auth_primitives \<Rightarrow> DashboardAuthenticationSettings \<Rightarrow> auth_request \<Rightarrow> string \<Rightarrow> bool" where
  "auth_opens prim settings q user \<longleftrightarrow>
     (\<exists>password client prior. q = Login user password client prior \<and> da_enabled settings \<and>
        login_credentials prim settings user password)"

definition auth_closes :: "auth_primitives \<Rightarrow> auth_request \<Rightarrow> string \<Rightarrow> bool" where
  "auth_closes prim q token \<longleftrightarrow>
     (\<exists>gone session csrf. q = Leave gone session (Some csrf) \<and> csrf_is_valid session csrf \<and>
        same_session (pr_sha prim) gone token)"

lemma at_time_simps [simp]: "env_clock (at_time t env) n = t" "env_blake (at_time t env) = env_blake env"
  by (simp_all add: at_time_def)

text \<open>What each call does to the session store.\<close>

lemma lookup_sessions:
  "fst (snd (resolve_session prim (at_time t env) token (s, w))) =
     (case (if da_enabled (au_settings s) then token else None) of
        None \<Rightarrow> s
      | Some x \<Rightarrow> s\<lparr>au_sessions := session_exec (pr_sha prim) (pr_tokens prim) t (Look x) (au_sessions s)\<rparr>)"
  by (cases token)
    (auto simp: resolve_session_def authentication_enabled_def session_exec_def resolve_def
      read_clock_def Let_def split: option.split)

lemma login_sessions:
  assumes ready: "auth_ready settings (s, w)"
    and run: "authenticate prim (at_time t env) user password client prior (s, w) = (r, (s', w'))"
  shows "(au_sessions s' = au_sessions s \<or>
      (da_enabled settings \<and> login_credentials prim settings user password \<and>
       au_sessions s' = session_exec (pr_sha prim) (pr_tokens prim) t (CreateFor user)
         (without_prior prim prior (au_sessions s)))) \<and>
    au_settings s' = au_settings s \<and> au_username s' = au_username s \<and>
    au_password_hash s' = au_password_hash s"
  using ready run by (cases rule: authenticate_cases) (simp_all add: session_exec_def)

lemma without_prior_exec:
  "without_prior prim prior store = store \<or>
   (\<exists>token. without_prior prim prior store =
      session_exec (pr_sha prim) (pr_tokens prim) t (Invalidate token) store)"
  by (cases prior) (auto simp: without_prior_def session_exec_def)

lemma login_limiter:
  assumes ready: "auth_ready settings (s, w)"
    and run: "authenticate prim (at_time t env) user password client prior (s, w) = (r, (s', w'))"
  shows "\<exists>l. (if da_enabled settings
      then l = snd (limiter_step (env_blake env) t (Begin client) (au_limiter s)) else l = au_limiter s) \<and>
    (au_limiter s' = l \<or> au_limiter s' = clear (env_blake env) client l)"
  using ready run
  by (cases rule: authenticate_cases) (auto simp: login_attempt_def)

lemma auth_exec_ready:
  assumes "auth_ready settings st"
  shows "auth_ready settings (auth_exec prim env now q st)"
proof -
  obtain s w where st: "st = (s, w)" by (cases st)
  note state = assms [unfolded st auth_ready_def, simplified]
  show ?thesis
  proof (cases q)
    case (Login user password client prior)
    obtain r s' w' where run: "authenticate prim (at_time now env) user password client prior (s, w) = (r, (s', w'))"
      by (metis prod.collapse)
    have "store_inv (au_sessions s')"
      using login_sessions [OF assms [unfolded st] run] without_prior_exec [of prim prior "au_sessions s" now] state
      by (metis session_exec_inv)
    moreover have "limiter_inv (au_limiter s')"
      using login_limiter [OF assms [unfolded st] run] state
      by (metis limiter_inv_step limiter_inv_clear)
    ultimately show ?thesis
      using login_sessions [OF assms [unfolded st] run] state
      by (simp add: auth_exec_def Login st run auth_ready_def)
  next
    case (Lookup token)
    then show ?thesis using state lookup_sessions [of prim now env token s w]
      by (auto simp: auth_exec_def st auth_ready_def session_exec_inv case_prod_beta
          split: option.splits if_splits)
  next
    case (Leave token session csrf)
    then show ?thesis using state
      by (simp add: auth_exec_def st logout_def auth_ready_def invalidate_inv split: option.split)
  next
    case Count_Sessions
    then show ?thesis using state
      by (simp add: auth_exec_def st active_session_count_def auth_ready_def Let_def case_prod_beta
          active_count_inv)
  next
    case Count_Clients
    then show ?thesis using state
      by (simp add: auth_exec_def st auth_tracked_client_count_def auth_ready_def Let_def
          case_prod_beta tracked_client_count_def limiter_inv_cleanup)
  qed
qed


abbreviation auth_ttl :: "auth_service \<times> control_world \<Rightarrow> seconds" where
  "auth_ttl st \<equiv> ttl_seconds (au_sessions (fst st))"

text \<open>One call changes the store by at most two calls of the store, neither of them unearned.\<close>

lemma auth_exec_sessions:
  assumes ready: "auth_ready settings st"
  obtains (same) "au_sessions (fst (auth_exec prim env now q st)) = au_sessions (fst st)"
      "\<And>token. \<not> auth_closes prim q token"
  | (quiet) c where "au_sessions (fst (auth_exec prim env now q st)) =
        session_exec (pr_sha prim) (pr_tokens prim) now c (au_sessions (fst st))"
      "\<And>user. \<not> call_opens c user" "\<And>token. auth_closes prim q token \<Longrightarrow> call_closes (pr_sha prim) c token"
  | (created) user store where "au_sessions (fst (auth_exec prim env now q st)) =
        session_exec (pr_sha prim) (pr_tokens prim) now (CreateFor user) store"
      "auth_opens prim settings q user" "\<And>token. \<not> auth_closes prim q token"
      "store = au_sessions (fst st) \<or>
       (\<exists>token. store = session_exec (pr_sha prim) (pr_tokens prim) now (Invalidate token) (au_sessions (fst st)))"
proof -
  obtain s w where st: "st = (s, w)" by (cases st)
  note state = ready [unfolded st auth_ready_def, simplified]
  show thesis
  proof (cases q)
    case (Login user password client prior)
    obtain r s' w' where run: "authenticate prim (at_time now env) user password client prior (s, w) = (r, (s', w'))"
      by (metis prod.collapse)
    have closes: "\<not> auth_closes prim q token" for token by (simp add: auth_closes_def Login)
    have after: "fst (auth_exec prim env now q st) = s'" by (simp add: auth_exec_def Login st run)
    consider "au_sessions s' = au_sessions s"
      | "da_enabled settings" "login_credentials prim settings user password"
        "au_sessions s' = session_exec (pr_sha prim) (pr_tokens prim) now (CreateFor user)
           (without_prior prim prior (au_sessions s))"
      using login_sessions [OF ready [unfolded st] run] by blast
    then show thesis
    proof cases
      case 1
      then show thesis using closes after same by (simp add: st)
    next
      case 2
      then show thesis
        by (intro created [of user "without_prior prim prior (au_sessions s)"])
          (use closes after without_prior_exec [of prim prior "au_sessions s" now] in
            \<open>simp_all add: st Login auth_opens_def\<close>)
    qed
  next
    case (Lookup token)
    have closes: "\<not> auth_closes prim q x" for x by (simp add: auth_closes_def Lookup)
    show thesis
    proof (cases "if da_enabled settings then token else None")
      case None
      then show thesis using lookup_sessions [of prim now env token s w] state closes same
        by (simp add: auth_exec_def st Lookup)
    next
      case (Some x)
      then show thesis using lookup_sessions [of prim now env token s w] state
        by (intro quiet [of "Look x"])
          (use closes in \<open>simp_all add: auth_exec_def st Lookup call_opens_def\<close>)
    qed
  next
    case (Leave token session csrf)
    show thesis
    proof (cases "\<exists>x. csrf = Some x \<and> csrf_is_valid session x")
      case True
      then show thesis
        by (intro quiet [of "Invalidate token"])
          (auto simp: auth_exec_def st Leave logout_def session_exec_def call_opens_def
            auth_closes_def call_closes_def)
    next
      case False
      then show thesis
        by (intro same)
          (auto simp: auth_exec_def st Leave logout_def auth_closes_def split: option.split)
    qed
  next
    case Count_Sessions
    then show thesis
      by (intro quiet [of CountActive])
        (simp_all add: auth_exec_def st active_session_count_def session_exec_def Let_def
          case_prod_beta call_opens_def auth_closes_def read_clock_def)
  next
    case Count_Clients
    then show thesis
      by (intro same) (simp_all add: auth_exec_def st auth_tracked_client_count_def Let_def
          case_prod_beta auth_closes_def)
  qed
qed

lemma auth_exec_ttl:
  assumes "auth_ready settings st"
  shows "auth_ttl (auth_exec prim env now q st) = auth_ttl st"
proof -
  have inv: "store_inv (au_sessions (fst st))" using assms by (auto simp: auth_ready_def)
  from assms show ?thesis
    by (cases rule: auth_exec_sessions [of settings st prim env now q])
      (use inv in \<open>auto simp: session_exec_ttl session_exec_inv\<close>)
qed

lemma auth_exec_view:
  assumes ready: "auth_ready settings st" and t: "now \<le> t"
    and view: "auth_view prim (auth_exec prim env now q st) t token = Some user"
  shows "(auth_view prim st t token = Some user \<and> \<not> auth_closes prim q token) \<or>
    (auth_opens prim settings q user \<and> t < now + auth_ttl st)"
proof -
  have inv: "store_inv (au_sessions (fst st))" using ready by (auto simp: auth_ready_def)
  have view': "auth_view prim x t token = user_view (pr_sha prim) (au_sessions (fst x)) t token" for x
    by (simp add: auth_view_def case_prod_beta)
  note step = session_sessions.exec_view [where sha = "pr_sha prim" and tokens = "pr_tokens prim"]
  from ready show ?thesis
  proof (cases rule: auth_exec_sessions [of settings st prim env now q])
    case same
    then show ?thesis using view by (simp add: view')
  next
    case (quiet c)
    then show ?thesis using step [OF inv t, of c token user] view by (auto simp: view')
  next
    case (created u store)
    have "store_inv store" and "ttl_seconds store = auth_ttl st"
      using created(4) inv by (auto simp: session_exec_inv session_exec_ttl)
    moreover have "user_view (pr_sha prim) store t token = Some user \<Longrightarrow>
        user_view (pr_sha prim) (au_sessions (fst st)) t token = Some user"
      using created(4) step [OF inv t] by (auto simp: call_opens_def)
    ultimately show ?thesis
      using step [of store now t "CreateFor u" token user] created view t
      by (auto simp: view' call_opens_def)
  qed
qed

interpretation auth_sessions: session_backend "auth_exec prim env" "auth_ready settings"
    "auth_view prim" auth_ttl "auth_opens prim settings" "auth_closes prim" for prim env settings
  by unfold_locales (erule auth_exec_ready, erule auth_exec_ttl, rule auth_exec_view)


text \<open>What \<open>resolve_session\<close> answers, in terms of the store.\<close>

lemma resolve_session_view:
  assumes "auth_ready settings st"
  shows "fst (resolve_session prim (at_time t env) (Some token) st) =
    (if da_enabled settings then session_view (pr_sha prim) (au_sessions (fst st)) t token else None)"
proof -
  obtain s w where st: "st = (s, w)" by (cases st)
  have inv: "store_inv (au_sessions s)" and settings: "au_settings s = settings"
    using assms by (simp_all add: st auth_ready_def)
  let ?now = "fst (if opaque_token_is_valid token then read_clock (at_time t env) w else (0, w))"
  have same: "fst (resolve sha ?now token x) = fst (resolve sha t token x)" for sha x
    by (simp add: resolve_def read_clock_def split: option.split)
  note view = resolve_view [OF inv, of "pr_sha prim" t token]
  have "session_view (pr_sha prim) (au_sessions s) t token = None"
    if "lookup_status (fst (resolve (pr_sha prim) t token (au_sessions s))) \<noteq> VALID"
    using view that by simp
  then show ?thesis
    using view by (simp add: st resolve_session_def authentication_enabled_def settings
        case_prod_beta Let_def same [unfolded if_distrib [of fst]] if_distrib [of fst])
qed

section \<open>The login limiter bounds the checks of passwords\<close>

text \<open>A step counts when it is a login that the limiter admits: its password is checked.\<close>

definition auth_admit_step ::
  "auth_primitives \<Rightarrow> control_env \<Rightarrow> seconds \<Rightarrow> auth_request \<Rightarrow> auth_service \<times> control_world \<Rightarrow>
     bool \<times> (auth_service \<times> control_world)" where
  "auth_admit_step prim env now q st =
     ((case q of
         Login user password client prior \<Rightarrow>
           (case fst (authenticate prim (at_time now env) user password client prior st) of
              Inl _ \<Rightarrow> True
            | Inr r \<Rightarrow> lr_status r \<in> {LG_SUCCESS, LG_FAILURE})
       | _ \<Rightarrow> False),
      auth_exec prim env now q st)"

text \<open>Every call is at most one attempt at the limiter, then possibly a clearing.\<close>

lemma auth_exec_limiter:
  assumes ready: "auth_ready settings st"
  shows "(\<not> fst (auth_admit_step prim env now q st) \<and>
      au_limiter (fst (auth_exec prim env now q st)) = au_limiter (fst st)) \<or>
    (\<exists>e l. fst (limiter_step (env_blake env) now e (au_limiter (fst st))) = fst (auth_admit_step prim env now q st) \<and>
       l = snd (limiter_step (env_blake env) now e (au_limiter (fst st))) \<and>
       (au_limiter (fst (auth_exec prim env now q st)) = l \<or>
        (\<exists>client. au_limiter (fst (auth_exec prim env now q st)) = clear (env_blake env) client l)))"
proof -
  obtain s w where st: "st = (s, w)" by (cases st)
  note defs = auth_admit_step_def auth_exec_def st
  show ?thesis
  proof (cases q)
    case (Login user password client prior)
    obtain r s' w' where run: "authenticate prim (at_time now env) user password client prior (s, w) = (r, (s', w'))"
      by (metis prod.collapse)
    from ready [unfolded st] run show ?thesis
    proof (cases rule: authenticate_cases)
      case disabled
      then show ?thesis using run by (simp add: defs Login)
    qed (use run in \<open>auto simp: defs Login login_attempt_def intro!: exI [of _ "Begin client"]\<close>)
  next
    case (Lookup token)
    have "au_limiter (fst (snd (resolve_session prim (at_time now env) token (s, w)))) = au_limiter s"
      by (simp add: lookup_sessions split: option.split)
    then show ?thesis by (simp add: defs Lookup)
  next
    case (Leave token session csrf)
    then show ?thesis by (simp add: defs logout_def split: option.split)
  next
    case Count_Sessions
    then show ?thesis by (simp add: defs active_session_count_def Let_def case_prod_beta)
  next
    case Count_Clients
    then show ?thesis
      by (intro disjI2 exI [of _ Count])
        (simp add: defs auth_tracked_client_count_def Let_def case_prod_beta read_clock_def)
  qed
qed

lemma clear_limiter_frame [simp]:
  "global_attempts (clear blake c l) = global_attempts l"
  "window_seconds (clear blake c l) = window_seconds l"
  "global_attempt_limit (clear blake c l) = global_attempt_limit l"
  by (simp_all add: clear_def)

interpretation auth_window: window_counter "auth_admit_step prim env" "\<lambda>_. True" "auth_ready settings"
    "\<lambda>st. global_attempts (au_limiter (fst st))" "\<lambda>st. window_seconds (au_limiter (fst st))"
    "\<lambda>st. global_attempt_limit (au_limiter (fst st))" for prim env settings
proof unfold_locales
  fix st :: "auth_service \<times> control_world" and q :: auth_request and t :: seconds
  assume ready: "auth_ready settings st"
  then have inv: "limiter_inv (au_limiter (fst st))" by (auto simp: auth_ready_def)
  let ?l = "au_limiter (fst st)" and ?st = "snd (auth_admit_step prim env t q st)"
  let ?counts = "fst (auth_admit_step prim env t q st)"
  have st': "?st = auth_exec prim env t q st" by (simp add: auth_admit_step_def)
  show "auth_ready settings ?st" unfolding st' by (rule auth_exec_ready [OF ready])
  show "0 < window_seconds ?l \<and> 0 \<le> global_attempt_limit ?l"
    using limiter_inv_global_pos [OF inv] limiter_invD(2) [OF inv] by simp
  note step = auth_exec_limiter [OF ready, of prim env t q]
  show "window_seconds (au_limiter (fst ?st)) = window_seconds ?l \<and>
      global_attempt_limit (au_limiter (fst ?st)) = global_attempt_limit ?l"
    using step limiter_step_same_bounds [OF inv, of "env_blake env" t]
    unfolding st' by (auto simp: same_bounds_def)
  show "recent (t - window_seconds ?l) (global_attempts (au_limiter (fst ?st))) =
      recent (t - window_seconds ?l) (global_attempts ?l) @ (if ?counts then [t] else [])"
    using step global_live_step [OF inv, of t "env_blake env"] unfolding st' by auto
  show "int (length (recent (t - window_seconds ?l) (global_attempts ?l))) < global_attempt_limit ?l"
    if ?counts
    using step global_cap_step [OF inv, of "env_blake env" t] that by auto
qed

section \<open>Properties\<close>

text \<open>
  C9. At any time a token resolves to a session only if an earlier login, of that user, with
  the configured credentials and within the session lifetime, can have opened it, and no
  logout of the token with a valid CSRF value came after.
\<close>

theorem session_requires_login:
  assumes "new_auth_service settings key = Some s" and "\<forall>e \<in> set es. fst e \<le> t"
    and "fst (resolve_session prim (at_time t env) (Some token)
           (fold (\<lambda>(now, q). auth_exec prim env now q) es (s, w))) = Some opened"
  shows "\<exists>pre now password client prior post.
    es = pre @ (now, Login (username opened) password client prior) # post \<and>
    da_enabled settings \<and> login_credentials prim settings (username opened) password \<and>
    now \<le> t \<and> t < now + of_int (da_session_ttl_minutes settings * 60) \<and>
    (\<forall>e \<in> set post. \<forall>gone session csrf. snd e = Leave gone session (Some csrf) \<longrightarrow>
       csrf_is_valid session csrf \<longrightarrow> \<not> same_session (pr_sha prim) gone token)"
proof -
  let ?st = "fold (\<lambda>(now, q). auth_exec prim env now q) es (s, w)"
  note new = new_auth_ready [OF assms(1)]
  have ready: "auth_ready settings ?st" by (rule auth_sessions.run_inv [OF new(1)])
  have "session_view (pr_sha prim) (au_sessions (fst ?st)) t token = Some opened"
    using assms(3) unfolding resolve_session_view [OF ready] by (simp split: if_splits)
  then have view: "auth_view prim ?st t token = Some (username opened)"
    by (simp add: auth_view_def user_view_def case_prod_beta)
  have "auth_view prim (s, w) t token = None"
    using new(2) by (simp add: auth_view_def user_view_def session_view_def)
  with auth_sessions.provenance [OF new(1) assms(2) view] obtain pre now q post where
    "es = pre @ (now, q) # post" "auth_opens prim settings q (username opened)" "now \<le> t"
    "t < now + auth_ttl (s, w)" "\<forall>e \<in> set post. \<not> auth_closes prim (snd e) token"
    by auto
  then show ?thesis using new(3) by (fastforce simp: auth_opens_def auth_closes_def)
qed


text \<open>Example values: one operator, whose password is \<open>pw\<close>, on a fresh service.\<close>

definition sample_password_hash :: string where
  "sample_password_hash = join_with CHR ''$''
     [HASH_SCHEME, HASH_VERSION, ''i='' @ decimal_int 600000,
      encode_part (replicate 16 7), encode_part (replicate 32 7)]"

definition sample_primitives :: auth_primitives where
  "sample_primitives =
     \<lparr>pr_sha = sample_sha, pr_tokens = sample_tokens,
      pr_kdf = (\<lambda>p s i. replicate 32 (if p = utf8 ''pw'' then 7 else 8))\<rparr>"

definition sample_authentication :: DashboardAuthenticationSettings where
  "sample_authentication =
     \<lparr>da_enabled = True, da_username = Some ''op'', da_password_hash = Some sample_password_hash,
      da_session_ttl_minutes = 5, da_maximum_sessions = 2, da_secure_cookie = False,
      da_login_attempt_limit = 5, da_login_attempt_window_seconds = 60\<rparr>"

definition sample_auth :: auth_service where
  "sample_auth =
     \<lparr>au_settings = sample_authentication,
      au_sessions = \<lparr>ttl_seconds = 300, maximum_sessions = 2, sessions = [], last_sequence = 0, draws = 0\<rparr>,
      au_limiter = \<lparr>attempt_limit = 5, window_seconds = 60, digest_key = [1], maximum_clients = 256,
         records = [], global_attempts = [], global_attempt_limit = 80\<rparr>,
      au_username = ''op'', au_password_hash = sample_password_hash\<rparr>"

lemma sample_hash_parsed:
  "parse_password_hash sample_password_hash = Inr (600000, replicate 16 7, replicate 32 7)"
  unfolding sample_password_hash_def
  by (rule parse_printed) (simp_all add: password_bounds)

lemma sample_auth_new: "new_auth_service sample_authentication [1] = Some sample_auth"
  by (simp add: new_auth_service_def sample_authentication_def sample_auth_def new_session_store_def
      new_limiter_def MAX_TRACKED_CLIENTS_def GLOBAL_ATTEMPT_MULTIPLIER_def)

lemma sample_auth_ready: "auth_ready sample_authentication (sample_auth, w)"
  by (rule new_auth_ready(1) [OF sample_auth_new])

lemma sample_authentication_valid:
  "check_authentication_settings sample_authentication = Some sample_authentication"
  by (simp add: check_authentication_settings_def sample_authentication_def operator_name_def
      alphanumeric_def in_range_def ord_of_def validate_password_hash_def sample_hash_parsed)

lemma sample_credentials: "login_credentials sample_primitives sample_authentication ''op'' ''pw''"
  by (simp add: login_credentials_def sample_authentication_def verify_password_def
      sample_hash_parsed sample_primitives_def password_is_acceptable_def password_bounds)

lemma sample_wrong_password:
  "\<not> login_credentials sample_primitives sample_authentication ''op'' ''no''"
proof -
  have "utf8 ''no'' \<noteq> utf8 ''pw''" by (simp only: utf8_inj) simp
  moreover have "replicate 32 (8 :: 8 word) \<noteq> replicate 32 7" by simp
  ultimately show ?thesis
    by (simp add: login_credentials_def sample_authentication_def verify_password_def
        sample_hash_parsed sample_primitives_def password_is_acceptable_def password_bounds del: utf8_simps)
qed

lemma sample_login_attempt: "fst (login_attempt env client (sample_auth, w))"
proof -
  have inv: "limiter_inv (au_limiter sample_auth)" using sample_auth_ready by (simp add: auth_ready_def)
  show ?thesis
    by (simp add: login_attempt_def begin_attempt_eq [OF inv])
      (simp add: sample_auth_def make_room_def stamps_of_def cleanup_def Let_def)
qed

lemma sample_create:
  "\<exists>c store. create sample_sha sample_tokens t ''op'' (au_sessions sample_auth) = (Inr c, store)"
proof -
  have "purge_expired t (au_sessions sample_auth) = au_sessions sample_auth"
    by (simp add: purge_expired_def sample_auth_def)
  moreover have "make_space (au_sessions sample_auth) = au_sessions sample_auth"
    by (simp add: make_space.simps sample_auth_def)
  ultimately show ?thesis
    using sample_tokens_valid
    by (simp add: sample_auth_def create_def new_token_def Let_def SESSION_TOKEN_BYTES_def
        CSRF_TOKEN_BYTES_def numeral_eq_Suc)
qed

lemma sample_login:
  obtains c store st where
    "authenticate sample_primitives (at_time t sample_env) ''op'' ''pw'' ''c'' None (sample_auth, sample_world)
       = (Inr \<lparr>lr_status = LG_SUCCESS, lr_created_session = Some c\<rparr>, st)"
    "create sample_sha sample_tokens t ''op'' (au_sessions sample_auth) = (Inr c, store)"
    "au_sessions (fst st) = store"
proof -
  let ?env = "at_time t sample_env"
  obtain r s' w' where run: "authenticate sample_primitives ?env ''op'' ''pw'' ''c'' None
      (sample_auth, sample_world) = (r, (s', w'))" by (metis prod.collapse)
  note at = sample_login_attempt [of ?env "''c''" sample_world]
  have prim: "pr_sha sample_primitives = sample_sha" "pr_tokens sample_primitives = sample_tokens"
    by (simp_all add: sample_primitives_def)
  from sample_auth_ready run show thesis
  proof (cases rule: authenticate_cases)
    case disabled
    then show thesis by (simp add: sample_authentication_def)
  next
    case limited
    then show thesis using at by simp
  next
    case raised
    then show thesis
      using sample_credentials by (simp add: login_credentials_def sample_authentication_def sample_auth_def)
  next
    case refused
    then show thesis using sample_credentials by simp
  next
    case no_token
    then show thesis using sample_create [of t] by (auto simp: prim without_prior_def)
  next
    case (opened l c store)
    then show thesis using that run by (auto simp: prim without_prior_def)
  qed
qed

theorem session_requires_login_witness:
  "\<exists>token opened pre now password client prior post.
     fst (resolve_session sample_primitives (at_time 2 sample_env) (Some token)
       (fold (\<lambda>(now, q). auth_exec sample_primitives sample_env now q)
          [(1, Login ''op'' ''pw'' ''c'' None)] (sample_auth, sample_world))) = Some opened \<and>
     [(1 :: seconds, Login ''op'' ''pw'' ''c'' None)] = pre @ (now, Login (username opened) password client prior) # post"
proof -
  let ?es = "[(1, Login ''op'' ''pw'' ''c'' None)] :: (seconds \<times> auth_request) list"
  let ?run = "\<lambda>es. fold (\<lambda>(now, q). auth_exec sample_primitives sample_env now q) es (sample_auth, sample_world)"
  obtain c store st where login:
    "authenticate sample_primitives (at_time 1 sample_env) ''op'' ''pw'' ''c'' None (sample_auth, sample_world)
       = (Inr \<lparr>lr_status = LG_SUCCESS, lr_created_session = Some c\<rparr>, st)"
    "create sample_sha sample_tokens 1 ''op'' (au_sessions sample_auth) = (Inr c, store)"
    "au_sessions (fst st) = store"
    by (rule sample_login)
  have st: "?run ?es = st" by (simp add: auth_exec_def login)
  have ready: "auth_ready sample_authentication st"
    using auth_exec_ready [OF sample_auth_ready, of sample_primitives sample_env 1
        "Login ''op'' ''pw'' ''c'' None" sample_world] st by simp
  have inv: "store_inv (au_sessions sample_auth)" using sample_auth_ready by (simp add: auth_ready_def)
  have view: "session_view sample_sha store 2 (created_token c) \<noteq> None"
    using create_view_new [OF inv login(2), of 2] by (simp add: sample_auth_def)
  have "fst (resolve_session sample_primitives (at_time 2 sample_env) (Some (created_token c)) st) \<noteq> None"
    using view login(3) unfolding resolve_session_view [OF ready]
    by (simp add: sample_authentication_def sample_primitives_def)
  then obtain opened where opened: "fst (resolve_session sample_primitives (at_time 2 sample_env)
      (Some (created_token c)) (?run ?es)) = Some opened" using st by auto
  have "\<forall>e \<in> set ?es. fst e \<le> (2 :: rat)" by simp
  from session_requires_login [OF sample_auth_new this opened] obtain pre now password client prior post
    where "?es = pre @ (now, Login (username opened) password client prior) # post" by blast
  with opened show ?thesis by blast
qed


text \<open>
  C12. Rotation: a successful login returns a fresh token that resolves at once and until the
  session lifetime ends, to the configured user, and the session token the client sent with
  the login does not resolve any more (unless it has the digest of the new one).
\<close>

theorem login_rotates_session:
  assumes "auth_ready settings st" and "da_enabled settings"
    and "authenticate prim (at_time now env) user password client prior st =
      (Inr \<lparr>lr_status = LG_SUCCESS, lr_created_session = Some c\<rparr>, st')"
    and "now \<le> t" and "t < now + auth_ttl st"
  shows "fst (resolve_session prim (at_time t env) (Some (created_token c)) st') =
      Some \<lparr>username = user, csrf_token = csrf_token (created_session c),
            expires_in_seconds = now + auth_ttl st - t\<rparr> \<and>
    (\<forall>token. prior = Some token \<longrightarrow> pr_sha prim token \<noteq> pr_sha prim (created_token c) \<longrightarrow>
       fst (resolve_session prim (at_time t env) (Some token) st') = None)"
proof -
  obtain s w s' w' where st: "st = (s, w)" "st' = (s', w')" by (metis prod.collapse)
  let ?store = "without_prior prim prior (au_sessions s)"
  have inv: "store_inv (au_sessions s)" using assms(1) by (simp add: st auth_ready_def)
  have cr: "create (pr_sha prim) (pr_tokens prim) now user ?store = (Inr c, au_sessions s')"
    using assms(1,3) unfolding st by (cases rule: authenticate_cases) simp_all
  have kept: "store_inv ?store" "ttl_seconds ?store = auth_ttl st"
    using without_prior_exec [of prim prior "au_sessions s" now] inv
    by (auto simp: st session_exec_inv session_exec_ttl)
  have st': "st' = auth_exec prim env now (Login user password client prior) st"
    using assms(3) by (simp add: auth_exec_def)
  have ready: "auth_ready settings (s', w')"
    unfolding st(2) [symmetric] st' by (rule auth_exec_ready [OF assms(1)])
  have "session_view (pr_sha prim) (au_sessions s') t token = None"
    if "prior = Some token" "pr_sha prim token \<noteq> pr_sha prim (created_token c)" for token
  proof -
    have "session_view (pr_sha prim) ?store t token = None"
      using invalidate_view [of "pr_sha prim" token "au_sessions s" t token] that(1)
      by (simp add: without_prior_def session_view_def)
    then show ?thesis
      using create_view_old [OF kept(1) cr assms(4) that(2)]
      by (cases "session_view (pr_sha prim) (au_sessions s') t token") simp_all
  qed
  then show ?thesis
    using create_view_new [OF kept(1) cr assms(4)] assms(2,5) kept(2)
    unfolding st(2) resolve_session_view [OF ready] by simp
qed

theorem login_rotates_session_witness:
  "\<exists>c st. authenticate sample_primitives (at_time 1 sample_env) ''op'' ''pw'' ''c'' None
        (sample_auth, sample_world) = (Inr \<lparr>lr_status = LG_SUCCESS, lr_created_session = Some c\<rparr>, st) \<and>
     map_option username (fst (resolve_session sample_primitives (at_time 2 sample_env)
        (Some (created_token c)) st)) = Some ''op''"
proof -
  obtain c store st where login:
    "authenticate sample_primitives (at_time 1 sample_env) ''op'' ''pw'' ''c'' None (sample_auth, sample_world)
       = (Inr \<lparr>lr_status = LG_SUCCESS, lr_created_session = Some c\<rparr>, st)"
    by (rule sample_login)
  have "da_enabled sample_authentication" by (simp add: sample_authentication_def)
  from login_rotates_session [OF sample_auth_ready this login, of 2] login show ?thesis
    by (auto simp: sample_auth_def)
qed

lemma parsed_never_raises:
  "validate_password_hash h = None \<Longrightarrow> verify_password kdf password h \<noteq> Inl e"
  by (auto simp: validate_password_hash_def verify_password_def split: sum.splits)

lemma valid_authentication:
  assumes "check_authentication_settings settings = Some settings" and "da_enabled settings"
  obtains user h where "da_username settings = Some user" and "da_password_hash settings = Some h"
    and "validate_password_hash h = None"
  using assms by (auto simp: check_authentication_settings_def split: if_splits option.splits)

text \<open>
  C11. With validated settings a login raises only when the token source fails. Otherwise its
  status is decided by the settings, the limiter and the credentials alone; only a success
  touches the session store; and it leaves exactly one audit record, of its status, or none
  when authentication is disabled.
\<close>

theorem login_outcome:
  assumes "check_authentication_settings settings = Some settings" and "auth_ready settings (s, w)"
    and "authenticate prim env user password client prior (s, w) = (r, (s', w'))"
  shows "case r of
      Inl e \<Rightarrow> (\<exists>x. e = Login_Token_Error x) \<and> audit_trail w' = audit_trail w
    | Inr res \<Rightarrow>
        (lr_status res = LG_UNAVAILABLE \<longleftrightarrow> \<not> da_enabled settings) \<and>
        (lr_status res = LG_RATE_LIMITED \<longleftrightarrow>
           da_enabled settings \<and> \<not> fst (login_attempt env client (s, w))) \<and>
        (lr_status res = LG_SUCCESS \<longleftrightarrow>
           da_enabled settings \<and> fst (login_attempt env client (s, w)) \<and>
           login_credentials prim settings user password) \<and>
        (lr_created_session res \<noteq> None \<longleftrightarrow> lr_status res = LG_SUCCESS) \<and>
        (lr_status res \<noteq> LG_SUCCESS \<longrightarrow> au_sessions s' = au_sessions s) \<and>
        audit_trail w' = audit_trail w @
          (case lr_status res of
             LG_UNAVAILABLE \<Rightarrow> []
           | LG_RATE_LIMITED \<Rightarrow> [audit_entry LOGIN_RATE_LIMITED AR_ATTEMPT_LIMIT]
           | LG_FAILURE \<Rightarrow> [audit_entry LOGIN_FAILED AR_INVALID_CREDENTIALS]
           | LG_SUCCESS \<Rightarrow> [audit_entry LOGIN_SUCCEEDED AR_AUTHENTICATED])"
  using assms(2,3)
proof (cases rule: authenticate_cases)
  case (raised l e)
  have "au_password_hash s = (case da_password_hash settings of None \<Rightarrow> [] | Some h \<Rightarrow> h)"
    using assms(2) by (simp add: auth_ready_def)
  with raised(3) valid_authentication [OF assms(1) raised(1)] parsed_never_raises show ?thesis
    by (metis option.simps(5))
qed (simp_all add: frame_simps)

theorem login_outcome_witness:
  "\<exists>r s' w'. authenticate sample_primitives (at_time 1 sample_env) ''op'' ''no'' ''c'' None
        (sample_auth, sample_world) = (Inr r, (s', w')) \<and>
     lr_status r = LG_FAILURE \<and> au_sessions s' = au_sessions sample_auth"
proof -
  obtain r s' w' where run: "authenticate sample_primitives (at_time 1 sample_env) ''op'' ''no'' ''c'' None
      (sample_auth, sample_world) = (r, (s', w'))" by (metis prod.collapse)
  have "r \<noteq> Inl (Login_Token_Error e)" for e
    using sample_auth_ready run sample_credentials
    by (cases rule: authenticate_cases) (simp_all add: sample_wrong_password)
  then obtain x where x: "r = Inr x"
    using login_outcome [OF sample_authentication_valid sample_auth_ready run] by (cases r) auto
  from login_outcome [OF sample_authentication_valid sample_auth_ready run]
  have "lr_status x \<notin> {LG_UNAVAILABLE, LG_RATE_LIMITED, LG_SUCCESS} \<and>
      (lr_status x \<noteq> LG_SUCCESS \<longrightarrow> au_sessions s' = au_sessions sample_auth)"
    using sample_login_attempt [of "at_time 1 sample_env" "''c''" sample_world] sample_wrong_password
    by (auto simp: x sample_authentication_def)
  then show ?thesis using run x by (cases "lr_status x") auto
qed

text \<open>
  C35. However many clients there are and whatever else the service does, at most sixteen times
  the attempt limit passwords are checked in any interval of the window's length.
\<close>

theorem password_checks_bounded:
  assumes "new_auth_service settings key = Some s" and "sorted (map fst es)"
  shows "int (length (in_window a (of_int (da_login_attempt_window_seconds settings))
      (map fst (counted (auth_admit_step prim env) es (s, w))))) \<le> da_login_attempt_limit settings * 16"
proof -
  note new = new_auth_ready [OF assms(1)]
  show ?thesis
    using auth_window.window_bound [OF new(1) _ assms(2), where a = a and prim = prim and env = env] new(4-6)
    by (simp add: list_all_iff)
qed

theorem password_checks_bounded_witness:
  "int (length (in_window 0 60 (map fst (counted (auth_admit_step sample_primitives sample_env)
      [(1, Login ''op'' ''no'' ''c'' None), (2, Login ''op'' ''pw'' ''c'' None)]
      (sample_auth, sample_world))))) \<le> 80"
  using password_checks_bounded [OF sample_auth_new, where prim = sample_primitives and
      env = sample_env and a = 0 and w = sample_world and
      es = "[(1, Login ''op'' ''no'' ''c'' None), (2, Login ''op'' ''pw'' ''c'' None)]"]
  by (simp add: sample_authentication_def)

text \<open>
  A logout succeeds exactly with a valid CSRF value of the session; then the session token
  never resolves again until a new login, whatever the time, and otherwise nothing but the
  audit trail changes. Each logout leaves exactly one audit record.
\<close>

theorem logout_outcome:
  assumes "auth_ready settings (s, w)"
    and "logout prim token session csrf (s, w) = (ok, (s', w'))"
  shows "(ok \<longleftrightarrow> csrf_matches (Some session) csrf) \<and>
    (ok \<longrightarrow> fst (resolve_session prim (at_time t env) (Some token) (s', w')) = None) \<and>
    (\<not> ok \<longrightarrow> s' = s) \<and>
    audit_trail w' = audit_trail w @
      [if ok then audit_entry LOGOUT_SUCCEEDED AR_LOGGED_OUT
       else audit_entry CSRF_REJECTED (if csrf = None then AR_MISSING_CSRF else AR_INVALID_CSRF)]"
proof -
  have "auth_ready settings (auth_exec prim env t (Leave token session csrf) (s, w))"
    by (rule auth_exec_ready [OF assms(1)])
  then have ready: "auth_ready settings (s', w')" using assms(2) by (simp add: auth_exec_def)
  have gone: "session_view (pr_sha prim) (snd (invalidate (pr_sha prim) token (au_sessions s))) t token = None"
    using invalidate_view [of "pr_sha prim" token "au_sessions s" t token]
    by (simp add: session_view_def)
  show ?thesis
    using assms(2) gone unfolding resolve_session_view [OF ready]
    by (cases csrf) (auto simp: logout_def csrf_matches_def frame_simps split: if_splits)
qed

theorem logout_outcome_witness:
  "\<exists>s' w'. logout sample_primitives sample_token
      \<lparr>username = ''op'', csrf_token = sample_token, expires_in_seconds = 1\<rparr> None
      (sample_auth, sample_world) = (False, (s', w')) \<and> s' = sample_auth"
  using logout_outcome [OF sample_auth_ready, of sample_primitives sample_token _ None sample_world]
  by (simp add: logout_def)

end
