(* ===== verification/Forms_Cookies.thy ===== *)
theory Forms_Cookies
  imports Session_Store Passwords Control_Types
begin

text \<open>
  \<open>control_plane/forms.py\<close> and \<open>control_plane/cookies.py\<close>: what a request may hand to the
  control plane, before any session is looked up. \<open>urllib.parse.parse_qsl\<close> with the bound
  on the number of fields is the argument \<open>qsl\<close> (\<open>None\<close> is a \<open>ValueError\<close>), and \<open>SimpleCookie.load\<close> is
  the argument \<open>load\<close>: the names and values of the morsels, or \<open>None\<close> for a \<open>CookieError\<close>.
\<close>

section \<open>Strings\<close>

text \<open>\<open>str.strip\<close> and \<open>str.lower\<close> on code points below 256.\<close>

definition is_space :: "char \<Rightarrow> bool" where
  "is_space c \<longleftrightarrow> ord_of c \<in> {9, 10, 11, 12, 13, 28, 29, 30, 31, 32, 133, 160}"

definition strip :: "string \<Rightarrow> string" where
  "strip s = rev (dropWhile is_space (rev (dropWhile is_space s)))"

definition lower_char :: "char \<Rightarrow> char" where
  "lower_char c =
     (if (65 \<le> ord_of c \<and> ord_of c \<le> 90) \<or> (192 \<le> ord_of c \<and> ord_of c \<le> 222 \<and> ord_of c \<noteq> 215)
      then char_of (ord_of c + 32) else c)"

definition lower :: "string \<Rightarrow> string" where
  "lower s = map lower_char s"

text \<open>Python's \<open>sub in s\<close>.\<close>

fun contains :: "string \<Rightarrow> string \<Rightarrow> bool" where
  "contains sub [] \<longleftrightarrow> sub = []"
| "contains sub (c # s) \<longleftrightarrow> starts_with sub (c # s) \<or> contains sub s"

text \<open>\<open>s.find(c, start)\<close>, with \<open>None\<close> for \<open>-1\<close>.\<close>

definition find_from :: "char \<Rightarrow> string \<Rightarrow> nat \<Rightarrow> nat option" where
  "find_from c s start = List.find (\<lambda>i. start \<le> i \<and> s ! i = c) [0..<length s]"

lemma find_from_None: "find_from c s start = None \<longleftrightarrow> (\<forall>i. start \<le> i \<longrightarrow> i < length s \<longrightarrow> s ! i \<noteq> c)"
  by (auto simp: find_from_def find_None_iff)

lemma find_from_Some:
  assumes "find_from c s start = Some i"
  shows "start \<le> i" "i < length s" "s ! i = c" "\<And>j. start \<le> j \<Longrightarrow> j < i \<Longrightarrow> s ! j \<noteq> c"
  using assms by (auto simp: find_from_def find_Some_iff)

section \<open>Forms\<close>

definition LOGIN_BODY_LIMIT :: int where "LOGIN_BODY_LIMIT = 4096"
definition LOGOUT_BODY_LIMIT :: int where "LOGOUT_BODY_LIMIT = 1024"
definition WLED_CONTROL_BODY_LIMIT :: int where "WLED_CONTROL_BODY_LIMIT = 1024"
definition HYPERHDR_CONTROL_BODY_LIMIT :: int where "HYPERHDR_CONTROL_BODY_LIMIT = 1024"
definition AMBIENT_CONTROL_BODY_LIMIT :: int where "AMBIENT_CONTROL_BODY_LIMIT = 1024"

definition MAX_FORM_FIELDS :: nat where "MAX_FORM_FIELDS = 4"

definition ALLOWED_NEXT_PATHS :: "string list" where
  "ALLOWED_NEXT_PATHS = [''/controls'', ''/controls/wled'', ''/controls/hyperhdr'']"

datatype form_status =
  BAD_REQUEST | UNSUPPORTED_MEDIA_TYPE | LENGTH_REQUIRED | REQUEST_ENTITY_TOO_LARGE

record FormError =
  fe_status :: form_status
  fe_reason :: AuditReason

definition supported_content_type :: "string \<Rightarrow> bool" where
  "supported_content_type content_type =
     (let parts = map strip (split_on CHR '';'' content_type)
      in if lower (hd parts) \<noteq> ''application/x-www-form-urlencoded'' then False
         else list_all (\<lambda>parameter.
                lower parameter \<in> {''charset=utf-8'',
                  ''charset='' @ [CHR 0x22] @ ''utf-8'' @ [CHR 0x22]}) (tl parts))"

text \<open>The outer \<open>None\<close> is the \<open>ValueError\<close> of \<open>int\<close> on a superscript digit.\<close>

definition validate_form_headers ::
  "string list option \<Rightarrow> string list option \<Rightarrow> string option \<Rightarrow> int \<Rightarrow>
     (int option \<times> FormError option) option" where
  "validate_form_headers content_types content_lengths transfer_encoding maximum_body_bytes =
     (let refuse = \<lambda>status reason. Some (None, Some \<lparr>fe_status = status, fe_reason = reason\<rparr>)
      in if transfer_encoding \<noteq> None then refuse BAD_REQUEST AR_TRANSFER_ENCODING
         else if (case content_types of
                    None \<Rightarrow> True
                  | Some types \<Rightarrow> length types \<noteq> 1 \<or> \<not> supported_content_type (types ! 0))
         then refuse UNSUPPORTED_MEDIA_TYPE AR_CONTENT_TYPE
         else
           (case content_lengths of
              None \<Rightarrow> refuse LENGTH_REQUIRED AR_CONTENT_LENGTH
            | Some lengths \<Rightarrow>
                if length lengths \<noteq> 1 then refuse BAD_REQUEST AR_CONTENT_LENGTH
                else
                  (let raw_length = lengths ! 0
                   in if 10 < length raw_length \<or> \<not> isdigit raw_length
                      then refuse BAD_REQUEST AR_CONTENT_LENGTH
                      else
                        (case int_of_digits raw_length of
                           None \<Rightarrow> None
                         | Some n \<Rightarrow>
                             if maximum_body_bytes < n
                             then refuse REQUEST_ENTITY_TOO_LARGE AR_BODY_TOO_LARGE
                             else Some (Some n, None)))))"

definition hex_char :: "char \<Rightarrow> bool" where
  "hex_char c \<longleftrightarrow>
     in_range CHR ''0'' CHR ''9'' c \<or> in_range CHR ''A'' CHR ''F'' c \<or> in_range CHR ''a'' CHR ''f'' c"

definition percent_escape :: "string \<Rightarrow> bool" where
  "percent_escape s \<longleftrightarrow> length s = 2 \<and> list_all hex_char s"

text \<open>The loop of \<open>_percent_escapes_are_valid\<close>, at the index that \<open>find\<close> returned.\<close>

function percent_loop :: "string \<Rightarrow> nat option \<Rightarrow> bool" where
  "percent_loop s None = True"
| "percent_loop s (Some i) =
     (if \<not> percent_escape (take 2 (drop (i + 1) s)) then False
      else percent_loop s (find_from CHR ''%'' s (i + 3)))"
  by pat_completeness auto
termination
proof (relation "measure (\<lambda>(s, i). case i of None \<Rightarrow> 0 | Some k \<Rightarrow> Suc (length s - k))", goal_cases)
  case (2 s i)
  then show ?case
    using find_from_Some(1,2) [of "CHR ''%''" s "i + 3"]
    by (cases "find_from CHR ''%'' s (i + 3)") (auto intro: diff_less_mono2)
qed simp

definition percent_escapes_are_valid :: "string \<Rightarrow> bool" where
  "percent_escapes_are_valid s = percent_loop s (find_from CHR ''%'' s 0)"

fun collect_fields ::
  "string set \<Rightarrow> (string \<times> string) list \<Rightarrow> (string, string) dict \<Rightarrow> (string, string) dict option" where
  "collect_fields allowed [] found = Some found"
| "collect_fields allowed ((key, val) # pairs) found =
     (if key \<notin> allowed \<or> key \<in> set (dict_keys found) then None
      else collect_fields allowed pairs (dict_set key val found))"

definition parse_form ::
  "(nat \<Rightarrow> string \<Rightarrow> (string \<times> string) list option) \<Rightarrow> bytes \<Rightarrow> string set \<Rightarrow> string set \<Rightarrow>
     (string, string) dict option" where
  "parse_form qsl body allowed_fields required_fields =
     (if \<not> list_all (\<lambda>b. unat b < 128) body then None
      else
        (let encoded = map (\<lambda>b. char_of (unat b)) body
         in if \<not> percent_escapes_are_valid encoded then None
            else
              (case qsl MAX_FORM_FIELDS encoded of
                 None \<Rightarrow> None
               | Some pairs \<Rightarrow>
                   (case collect_fields allowed_fields pairs [] of
                      None \<Rightarrow> None
                    | Some found \<Rightarrow>
                        if \<not> required_fields \<subseteq> set (dict_keys found) then None
                        else Some found))))"

definition safe_next_path :: "string option \<Rightarrow> string" where
  "safe_next_path candidate =
     (case candidate of
        None \<Rightarrow> ''/controls''
      | Some path \<Rightarrow> if path \<in> set ALLOWED_NEXT_PATHS then path else ''/controls'')"

section \<open>Cookies\<close>

definition SESSION_COOKIE_NAME :: string where
  "SESSION_COOKIE_NAME = ''aurora_control_session''"

definition MAX_COOKIE_HEADER_BYTES :: nat where
  "MAX_COOKIE_HEADER_BYTES = 4096"

record CookieLookup =
  ck_token :: "string option"
  ck_malformed :: bool

definition read_session_cookie ::
  "(string \<Rightarrow> (string \<times> string) list option) \<Rightarrow> string option \<Rightarrow> CookieLookup" where
  "read_session_cookie load header_value =
     (let absent = \<lparr>ck_token = None, ck_malformed = False\<rparr>;
          malformed = \<lparr>ck_token = None, ck_malformed = True\<rparr>
      in case header_value of
           None \<Rightarrow> absent
         | Some header \<Rightarrow>
             if MAX_COOKIE_HEADER_BYTES < length (utf8 header) then malformed
             else if list_ex (\<lambda>c. ord_of c < 32 \<or> ord_of c = 127) header then malformed
             else if 1 < length (filter (\<lambda>part. starts_with (SESSION_COOKIE_NAME @ ''='') (strip part))
                                  (split_on CHR '';'' header))
             then malformed
             else
               (case load header of
                  None \<Rightarrow> malformed
                | Some morsels \<Rightarrow>
                    (case map_of morsels SESSION_COOKIE_NAME of
                       None \<Rightarrow> \<lparr>ck_token = None, ck_malformed = contains SESSION_COOKIE_NAME header\<rparr>
                     | Some morsel \<Rightarrow>
                         if morsel = [] then absent
                         else if \<not> opaque_token_is_valid morsel then malformed
                         else \<lparr>ck_token = Some morsel, ck_malformed = False\<rparr>)))"

fun join_strings :: "string \<Rightarrow> string list \<Rightarrow> string" where
  "join_strings sep [] = []"
| "join_strings sep [p] = p"
| "join_strings sep (p # q # ps) = p @ sep @ join_strings sep (q # ps)"

definition session_cookie :: "string \<Rightarrow> int \<Rightarrow> bool \<Rightarrow> string option" where
  "session_cookie token max_age_seconds secure =
     (if \<not> opaque_token_is_valid token \<or> max_age_seconds \<le> 0 then None
      else Some (join_strings ''; ''
        ([SESSION_COOKIE_NAME @ ''='' @ token, ''HttpOnly'', ''SameSite=Strict'', ''Path=/'',
          ''Max-Age='' @ decimal_int max_age_seconds] @ (if secure then [''Secure''] else []))))"

definition cleared_session_cookie :: "bool \<Rightarrow> string" where
  "cleared_session_cookie secure =
     join_strings ''; ''
       ([SESSION_COOKIE_NAME @ ''='', ''HttpOnly'', ''SameSite=Strict'', ''Path=/'', ''Max-Age=0''] @
        (if secure then [''Secure''] else []))"

section \<open>Percent escapes\<close>

text \<open>The reference: every percent sign is followed by two hexadecimal digits.\<close>

definition escapes_well_formed :: "string \<Rightarrow> bool" where
  "escapes_well_formed s \<longleftrightarrow>
     (\<forall>i < length s. s ! i = CHR ''%'' \<longrightarrow>
        i + 2 < length s \<and> hex_char (s ! (i + 1)) \<and> hex_char (s ! (i + 2)))"

lemma percent_escape_at:
  assumes "i < length s"
  shows "percent_escape (take 2 (drop (i + 1) s)) \<longleftrightarrow>
    i + 2 < length s \<and> hex_char (s ! (i + 1)) \<and> hex_char (s ! (i + 2))"
proof (cases "i + 2 < length s")
  case True
  then have "take 2 (drop (i + 1) s) = [s ! (i + 1), s ! (i + 2)]"
    by (intro nth_equalityI) (auto simp: less_2_cases_iff)
  with True show ?thesis by (simp add: percent_escape_def)
qed (auto simp: percent_escape_def)

lemma hex_not_percent: "\<not> hex_char CHR ''%''"
  by (simp add: hex_char_def in_range_def ord_of_def)

text \<open>The loop may skip three characters: the two behind a good escape are no percent signs.\<close>

lemma percent_loop_find:
  assumes "start \<le> length s"
  shows "percent_loop s (find_from CHR ''%'' s start) \<longleftrightarrow>
    (\<forall>i < length s. start \<le> i \<longrightarrow> s ! i = CHR ''%'' \<longrightarrow> percent_escape (take 2 (drop (i + 1) s)))"
  using assms
proof (induction "length s - start" arbitrary: start rule: less_induct)
  case less
  show ?case
  proof (cases "find_from CHR ''%'' s start")
    case None
    then show ?thesis using find_from_None [of "CHR ''%''" s start] by simp
  next
    case (Some i)
    note i = find_from_Some [OF Some]
    show ?thesis
    proof (cases "percent_escape (take 2 (drop (i + 1) s))")
      case False
      then show ?thesis using Some i by auto
    next
      case True
      then have good: "i + 2 < length s" "hex_char (s ! (i + 1))" "hex_char (s ! (i + 2))"
        using percent_escape_at [OF i(2)] by simp_all
      have skip: "k = i \<or> i + 3 \<le> k" if "start \<le> k" "s ! k = CHR ''%''" for k
      proof -
        have "\<not> k < i" using i(4) that by blast
        moreover have "k \<noteq> i + 1" "k \<noteq> i + 2" using that(2) good(2,3) hex_not_percent by auto
        ultimately show ?thesis by linarith
      qed
      have "percent_loop s (find_from CHR ''%'' s (i + 3)) \<longleftrightarrow>
          (\<forall>k < length s. i + 3 \<le> k \<longrightarrow> s ! k = CHR ''%'' \<longrightarrow> percent_escape (take 2 (drop (k + 1) s)))"
        by (rule less.hyps) (use i(1) good(1) in auto)
      moreover have "start \<le> k" if "i + 3 \<le> k" for k using that i(1) by simp
      ultimately show ?thesis using Some True skip by auto
    qed
  qed
qed

text \<open>
  The scanning loop, which jumps from one percent sign to the next behind its escape, ends
  and accepts exactly the strings in which every percent sign starts a two-digit hexadecimal
  escape.
\<close>

theorem percent_escapes_reference: "percent_escapes_are_valid s \<longleftrightarrow> escapes_well_formed s"
  using percent_loop_find [of 0 s] percent_escape_at [of _ s]
  by (auto simp: percent_escapes_are_valid_def escapes_well_formed_def)

section \<open>Properties of forms and cookies\<close>

lemma collect_fields_spec:
  assumes "collect_fields allowed pairs found = Some out" and "dict_wf found"
  shows "out = found @ pairs \<and> dict_wf out \<and> fst ` set pairs \<subseteq> allowed"
  using assms
proof (induction allowed pairs found rule: collect_fields.induct)
  case (1 allowed found)
  then show ?case by simp
next
  case (2 allowed key val pairs found)
  then have fresh: "key \<notin> set (dict_keys found)" "key \<in> allowed"
    and rec: "collect_fields allowed pairs (dict_set key val found) = Some out"
    by (auto split: if_splits)
  have "out = dict_set key val found @ pairs \<and> dict_wf out \<and> fst ` set pairs \<subseteq> allowed"
    using 2(1) [OF _ rec dict_wf_set [OF 2(3)]] fresh by blast
  moreover have "dict_set key val found @ pairs = found @ (key, val) # pairs"
    using dict_set_new [OF fresh(1)] by simp
  ultimately show ?case using fresh(2) by auto
qed

lemma collect_fields_complete:
  "distinct (map fst (found @ pairs)) \<Longrightarrow> fst ` set pairs \<subseteq> allowed \<Longrightarrow>
    collect_fields allowed pairs found = Some (found @ pairs)"
proof (induction allowed pairs found rule: collect_fields.induct)
  case (2 allowed key val pairs found)
  then show ?case by (auto simp: dict_set_new)
qed simp

text \<open>
  A form is accepted exactly when its body is ASCII with well-formed escapes and parses to
  fields that are all allowed, named once and cover the required ones; what is returned is
  then exactly the parsed fields, in order.
\<close>

theorem parse_form_accepts:
  "parse_form qsl body allowed required = Some found \<longleftrightarrow>
    list_all (\<lambda>b. unat b < 128) body \<and>
    escapes_well_formed (map (\<lambda>b. char_of (unat b)) body) \<and>
    qsl 4 (map (\<lambda>b. char_of (unat b)) body) = Some found \<and>
    distinct (map fst found) \<and> required \<subseteq> fst ` set found \<and> fst ` set found \<subseteq> allowed"
proof -
  have escapes: "percent_escapes_are_valid x \<longleftrightarrow> escapes_well_formed x" for x
    using percent_loop_find [of 0 x] percent_escape_at [of _ x]
    by (auto simp: percent_escapes_are_valid_def escapes_well_formed_def)
  have "collect_fields allowed pairs [] =
      (if distinct (map fst pairs) \<and> fst ` set pairs \<subseteq> allowed then Some pairs else None)" for pairs
    using collect_fields_spec [of allowed pairs "[]"] collect_fields_complete [of "[]" pairs allowed]
    by (cases "collect_fields allowed pairs []") (auto simp: dict_wf_def)
  then show ?thesis
    by (auto simp: parse_form_def escapes MAX_FORM_FIELDS_def Let_def split: option.splits if_splits)
qed

text \<open>
  The headers of a form are accepted, with a body length, exactly when there is no transfer
  encoding, one supported content type and one content length of at most ten decimal digits
  whose value is within the limit. Header validation raises only on a superscript digit.
\<close>

theorem form_headers_accept:
  "validate_form_headers types lengths encoding maximum = Some (Some n, err) \<longleftrightarrow>
    (encoding = None \<and> err = None \<and>
     (\<exists>content. types = Some [content] \<and> supported_content_type content) \<and>
     (\<exists>digits. lengths = Some [digits] \<and> digits \<noteq> [] \<and> length digits \<le> 10 \<and>
        list_all is_decimal_char digits \<and> n = int (decimal_value digits) \<and> 0 \<le> n \<and> n \<le> maximum))"
proof -
  have isdigit: "isdigit d" if "d \<noteq> []" "list_all is_decimal_char d" for d
    using that by (auto simp: isdigit_def list_all_iff)
  show ?thesis
    unfolding validate_form_headers_def Let_def
    by (cases types; cases lengths; cases encoding)
      (auto simp: length_Suc_conv int_of_digits_def isdigit not_less split: if_splits)
qed

text \<open>The example of the \<open>ValueError\<close>: a length header that is one superscript digit.\<close>

lemma superscript_length_raises:
  "validate_form_headers (Some [''application/x-www-form-urlencoded'']) (Some [[CHR 0xB2]]) None 1024 = None"
  by (simp add: validate_form_headers_def supported_content_type_def isdigit_def int_of_digits_def
      is_decimal_char_def is_superscript_digit_def in_range_def ord_of_def strip_def is_space_def
      lower_def lower_char_def)

definition cookie_char :: "char \<Rightarrow> bool" where
  "cookie_char c \<longleftrightarrow> 33 \<le> ord_of c \<and> ord_of c < 127 \<and> c \<noteq> CHR '';''"

lemma cookie_chars:
  assumes "list_all cookie_char s"
  shows "CHR '';'' \<notin> set s" and "list_all (\<lambda>c. ord_of c < 128) s"
    and "\<not> list_ex (\<lambda>c. ord_of c < 32 \<or> ord_of c = 127) s"
  using assms by (induction s) (auto simp: cookie_char_def)

lemma token_chars:
  assumes "opaque_token_is_valid token"
  shows "list_all cookie_char token"
  using assms
  by (auto simp: opaque_token_is_valid_def list_all_iff token_char_def in_range_def ord_of_def cookie_char_def)

lemma length_utf8_ascii: "list_all (\<lambda>c. ord_of c < 128) s \<Longrightarrow> length (utf8 s) = length s"
  by (induction s) (simp_all add: utf8_def utf8_char_def)

text \<open>
  What \<open>SimpleCookie.load\<close> documents of one plain pair: a name of letters, digits, hyphens and
  underscores that is no attribute name, with a value of such characters, is loaded as it is. Every
  such character is legal unquoted, and the attribute names are the reserved ones of \<open>Morsel\<close>.
\<close>

definition cookie_attributes :: "string set" where
  "cookie_attributes =
     {''expires'', ''path'', ''comment'', ''domain'', ''max-age'', ''secure'', ''httponly'',
      ''version'', ''samesite'', ''partitioned''}"

definition plain_cookie :: "string \<Rightarrow> string \<Rightarrow> bool" where
  "plain_cookie name val \<longleftrightarrow>
     name \<noteq> [] \<and> list_all token_char name \<and> lower name \<notin> cookie_attributes \<and>
     val \<noteq> [] \<and> list_all token_char val"

lemma session_cookie_plain:
  assumes "opaque_token_is_valid token"
  shows "plain_cookie SESSION_COOKIE_NAME token"
proof -
  have "list_all token_char SESSION_COOKIE_NAME \<and> lower SESSION_COOKIE_NAME \<notin> cookie_attributes"
    by code_simp
  moreover have "token \<noteq> []" "list_all token_char token"
    using assms by (auto simp: opaque_token_is_valid_def)
  ultimately show ?thesis by (simp add: plain_cookie_def SESSION_COOKIE_NAME_def)
qed

text \<open>
  C37. Round trip of the session cookie: the name-value pair that a \<open>Set-Cookie\<close> header starts
  with, sent back alone by the client, reads as the token and is not malformed, as long as
  \<open>SimpleCookie\<close> loads a plain pair as it is: a name of letters, digits, hyphens and underscores
  other than an attribute name, with a value of such characters. Whatever header is read, the token
  it gives is a valid one.
\<close>

theorem session_cookie_roundtrip:
  assumes "session_cookie token age secure = Some header"
    and "\<And>name val. plain_cookie name val \<Longrightarrow> load (name @ ''='' @ val) = Some [(name, val)]"
  shows "(\<exists>pair rest. split_on CHR '';'' header = pair # rest \<and>
      read_session_cookie load (Some pair) = \<lparr>ck_token = Some token, ck_malformed = False\<rparr>) \<and>
    (\<forall>cookies other. ck_token (read_session_cookie load cookies) = Some other \<longrightarrow>
       opaque_token_is_valid other)"
proof -
  let ?pair = "SESSION_COOKIE_NAME @ ''='' @ token"
  have token: "opaque_token_is_valid token"
    and header: "\<exists>rest. header = ?pair @ CHR '';'' # rest"
    using assms(1) by (auto simp: session_cookie_def split: if_splits)
  note chars = token_chars [OF token]
  have len: "length token \<le> 256" "token \<noteq> []"
    using token by (auto simp: opaque_token_is_valid_def)
  have name: "list_all cookie_char SESSION_COOKIE_NAME"
      "CHR ''='' \<notin> set SESSION_COOKIE_NAME"
    by (simp_all add: SESSION_COOKIE_NAME_def ord_of_def cookie_char_def)
  have pair: "list_all cookie_char ?pair"
    using name(1) chars by (simp add: ord_of_def cookie_char_def)
  note no_semicolon = cookie_chars(1) [OF pair] and plain = cookie_chars(3) [OF pair]
  have bytes: "length (utf8 ?pair) \<le> 4096"
    unfolding length_utf8_ascii [OF cookie_chars(2) [OF pair]] using len(1)
    by (simp add: SESSION_COOKIE_NAME_def)
  have load: "load ?pair = Some [(SESSION_COOKIE_NAME, token)]"
    by (rule assms(2), rule session_cookie_plain, rule token)
  have "read_session_cookie load (Some h) = \<lparr>ck_token = Some token, ck_malformed = False\<rparr>"
    if "length (utf8 h) \<le> 4096" "\<not> list_ex (\<lambda>c. ord_of c < 32 \<or> ord_of c = 127) h"
      "split_on CHR '';'' h = [h]" "load h = Some [(SESSION_COOKIE_NAME, token)]" for h
    using that token len(2) by (simp add: read_session_cookie_def MAX_COOKIE_HEADER_BYTES_def Let_def not_less)
  from this [OF bytes plain split_on_last [OF no_semicolon] load]
  have "read_session_cookie load (Some ?pair) = \<lparr>ck_token = Some token, ck_malformed = False\<rparr>" .
  moreover obtain rest where "split_on CHR '';'' header = ?pair # rest"
    using header split_on_first [OF no_semicolon] by metis
  moreover have "opaque_token_is_valid other"
    if "ck_token (read_session_cookie load cookies) = Some other" for cookies other
    using that by (auto simp: read_session_cookie_def Let_def split: option.splits if_splits)
  ultimately show ?thesis by blast
qed

text \<open>A parser of one pair, for the example.\<close>

definition sample_load :: "string \<Rightarrow> (string \<times> string) list option" where
  "sample_load header =
     (let name = takeWhile (\<lambda>c. c \<noteq> CHR ''='') header
      in if name = header then None else Some [(name, drop (length name + 1) header)])"

lemma sample_load_pair: "CHR ''='' \<notin> set name \<Longrightarrow> sample_load (name @ ''='' @ val) = Some [(name, val)]"
proof -
  assume "CHR ''='' \<notin> set name"
  then have "takeWhile (\<lambda>c. c \<noteq> CHR ''='') (name @ ''='' @ val) = name"
    by (induction name) auto
  then show ?thesis by (simp add: sample_load_def)
qed

lemma sample_load_plain: "plain_cookie name val \<Longrightarrow> sample_load (name @ ''='' @ val) = Some [(name, val)]"
  by (rule sample_load_pair) (auto simp: plain_cookie_def list_all_iff token_char_def in_range_def ord_of_def)

theorem session_cookie_roundtrip_witness:
  "\<exists>header pair rest. session_cookie sample_token 300 True = Some header \<and>
     split_on CHR '';'' header = pair # rest \<and>
     ck_token (read_session_cookie sample_load (Some pair)) = Some sample_token"
proof -
  have "opaque_token_is_valid sample_token"
    using sample_tokens_valid(1) by (simp add: sample_tokens_def sample_token_def)
  then obtain header where header: "session_cookie sample_token 300 True = Some header"
    by (auto simp: session_cookie_def)
  have "\<exists>pair rest. split_on CHR '';'' header = pair # rest \<and>
      read_session_cookie sample_load (Some pair) = \<lparr>ck_token = Some sample_token, ck_malformed = False\<rparr>"
    using session_cookie_roundtrip [OF header, of sample_load] sample_load_plain by blast
  with header show ?thesis by force
qed

text \<open>A destination after a login is one of the fixed pages, whatever was asked for.\<close>

lemma safe_next_path_fixed: "safe_next_path candidate \<in> set ALLOWED_NEXT_PATHS"
  by (simp add: safe_next_path_def ALLOWED_NEXT_PATHS_def split: option.split)

end
