(* ===== verification/Settings.thy ===== *)
theory Settings
  imports Ambient_Service Auth_Service Forms_Cookies
begin

text \<open>
  \<open>config/models.py\<close>: the validated settings. A model is a record of its fields and its
  validation is a predicate: the bounds of the field types, the field validators and the model
  validators. The settings of the three control services and of the authentication stand with
  their services (\<open>Wled_Service\<close>, \<open>Hyperhdr_Service\<close>, \<open>Ambient_Service\<close>, \<open>Auth_Service\<close>). The
  strict type checks of pydantic and its refusal of unknown fields are the types here.
\<close>

section \<open>Field grammars\<close>

definition url_tokens :: "string list" where
  "url_tokens = [''://'', ''/'', ''?'', ''#'', ''@'']"

definition host_is_hostname_or_ip_literal :: "string \<Rightarrow> bool" where
  "host_is_hostname_or_ip_literal value \<longleftrightarrow>
     value \<noteq> [] \<and> \<not> list_ex (\<lambda>token. contains token value) url_tokens"

definition port_valid :: "int \<Rightarrow> bool" where
  "port_valid p \<longleftrightarrow> 1 \<le> p \<and> p \<le> 65535"

definition within_bounds :: "'a::linorder \<Rightarrow> 'a \<Rightarrow> 'a \<Rightarrow> bool" where
  "within_bounds lo hi x \<longleftrightarrow> lo \<le> x \<and> x \<le> hi"

definition optional :: "('a \<Rightarrow> bool) \<Rightarrow> 'a option \<Rightarrow> bool" where
  "optional P x = (case x of None \<Rightarrow> True | Some v \<Rightarrow> P v)"

definition endpoint_valid :: "bool \<Rightarrow> string option \<Rightarrow> int option \<Rightarrow> bool" where
  "endpoint_valid enabled host port \<longleftrightarrow>
     optional host_is_hostname_or_ip_literal host \<and> optional port_valid port \<and>
     (enabled \<longrightarrow> host \<noteq> None)"

text \<open>The two patterns of the capture identifier.\<close>

definition video_device :: "string \<Rightarrow> bool" where
  "video_device value \<longleftrightarrow>
     starts_with ''/dev/video'' value \<and> drop 10 value \<noteq> [] \<and> list_all is_decimal_char (drop 10 value)"

definition v4l_link :: "string \<Rightarrow> bool" where
  "v4l_link value \<longleftrightarrow>
     (starts_with ''/dev/v4l/by-id/'' value \<and> drop 15 value \<noteq> [] \<and> CHR ''/'' \<notin> set (drop 15 value)) \<or>
     (starts_with ''/dev/v4l/by-path/'' value \<and> drop 17 value \<noteq> [] \<and> CHR ''/'' \<notin> set (drop 17 value))"

definition identifier_is_supported_linux_path :: "string \<Rightarrow> bool" where
  "identifier_is_supported_linux_path value \<longleftrightarrow>
     \<not> list_ex (\<lambda>c. c \<in> set value) [CHR 0x00, CHR 0x0A, CHR 0x0D] \<and>
     \<not> list_ex (\<lambda>c. c \<in> set value) ''?#@*[]'' \<and>
     \<not> (contains ''://'' value \<or> starts_with ''~'' value \<or> ''..'' \<in> set (split_on CHR ''/'' value)) \<and>
     (video_device value \<or> v4l_link value)"

definition database_path_is_safe_absolute_lexical_path :: "string \<Rightarrow> bool" where
  "database_path_is_safe_absolute_lexical_path value \<longleftrightarrow>
     (let invalid_control = list_ex (\<lambda>c. ord_of c < 32 \<or> ord_of c = 127) value;
          components = split_on CHR ''/'' value
      in \<not> (\<not> starts_with ''/'' value \<or> starts_with ''~'' value \<or> value = ''/'' \<or>
            (value \<noteq> [] \<and> last value = CHR ''/'') \<or> invalid_control \<or>
            list_ex (\<lambda>component. component \<in> {[], ''.'', ''..''}) (tl components)))"

definition bind_host_has_no_url_syntax :: "string \<Rightarrow> bool" where
  "bind_host_has_no_url_syntax value \<longleftrightarrow>
     value \<noteq> [] \<and>
     \<not> (list_ex (\<lambda>token. contains token value) url_tokens \<or>
        list_ex (\<lambda>c. ord_of c \<le> 32 \<or> ord_of c = 127) value)"

section \<open>Models\<close>

datatype LoggingLevel = DEBUG | INFO | WARNING | ERROR | CRITICAL

datatype HealthHistoryDatabaseMode = OPEN_EXISTING | CREATE_IF_MISSING

record ApplicationSettings =
  ap_name :: string
  ap_configuration_profile :: string

definition application_valid :: "ApplicationSettings \<Rightarrow> bool" where
  "application_valid a \<longleftrightarrow> ap_name a \<noteq> [] \<and> ap_configuration_profile a \<noteq> []"

record LoggingSettings =
  lo_level :: LoggingLevel
  lo_structured_output :: bool

definition hyperhdr_controls_valid :: "HyperHDRControlSettings \<Rightarrow> bool" where
  "hyperhdr_controls_valid c \<longleftrightarrow>
     distinct (hc_allowed_operations c) \<and> within_bounds (1 / 10) 5 (hc_control_timeout c) \<and>
     within_bounds 1 120 (hc_operation_limit c) \<and> within_bounds 1 3600 (hc_operation_window_seconds c)"

definition hyperhdr_settings_valid :: "HyperHDRSettings \<Rightarrow> bool" where
  "hyperhdr_settings_valid s \<longleftrightarrow>
     endpoint_valid (hs_enabled s) (hs_host s) (hs_port s) \<and>
     within_bounds (1 / 10) 10 (hs_validation_timeout_seconds s) \<and>
     hyperhdr_controls_valid (hs_controls s) \<and>
     \<not> (hc_enabled (hs_controls s) \<and> (\<not> hs_enabled s \<or> hs_host s = None \<or> hs_port s = None))"

definition wled_controls_valid :: "WLEDControlSettings \<Rightarrow> bool" where
  "wled_controls_valid c \<longleftrightarrow>
     distinct (wc_allowed_operations c) \<and> within_bounds (1 / 10) 5 (wc_timeout_seconds c) \<and>
     within_bounds 1 255 (wc_maximum_brightness c) \<and>
     within_bounds 1 120 (wc_operation_limit c) \<and> within_bounds 1 3600 (wc_operation_window_seconds c)"

definition expected_led_counts_are_consistent :: "WLEDSettings \<Rightarrow> bool" where
  "expected_led_counts_are_consistent s =
     (if wc_enabled (ws_controls s) \<and> (\<not> ws_enabled s \<or> ws_host s = None) then False
      else
        (case (ws_expected_led_count s, ws_expected_active_led_count s, ws_expected_skipped_leds s) of
           (Some leds, Some active, Some skipped) \<Rightarrow> active + skipped = leds
         | _ \<Rightarrow> True))"

definition wled_settings_valid :: "WLEDSettings \<Rightarrow> bool" where
  "wled_settings_valid s \<longleftrightarrow>
     endpoint_valid (ws_enabled s) (ws_host s) (ws_port s) \<and>
     within_bounds (1 / 10) 10 (ws_validation_timeout_seconds s) \<and>
     optional (\<lambda>n. 0 < n) (ws_expected_led_count s) \<and>
     optional (\<lambda>n. 0 < n) (ws_expected_active_led_count s) \<and>
     optional (\<lambda>n. 0 \<le> n) (ws_expected_skipped_leds s) \<and>
     wled_controls_valid (ws_controls s) \<and> expected_led_counts_are_consistent s"

definition ambient_settings_valid :: "AmbientControlSettings \<Rightarrow> bool" where
  "ambient_settings_valid c \<longleftrightarrow>
     distinct (as_allowed_operations c) \<and>
     within_bounds 1 120 (as_operation_limit c) \<and> within_bounds 1 3600 (as_operation_window_seconds c)"

record DDPSettings =
  dd_enabled :: bool
  dd_host :: "string option"
  dd_port :: "int option"

definition ddp_settings_valid :: "DDPSettings \<Rightarrow> bool" where
  "ddp_settings_valid d \<longleftrightarrow> endpoint_valid (dd_enabled d) (dd_host d) (dd_port d)"

record CaptureDeviceSettings =
  cd_enabled :: bool
  cd_identifier :: "string option"

definition capture_device_valid :: "CaptureDeviceSettings \<Rightarrow> bool" where
  "capture_device_valid c \<longleftrightarrow>
     optional (\<lambda>value. value \<noteq> [] \<and> identifier_is_supported_linux_path value) (cd_identifier c) \<and>
     (cd_enabled c \<longrightarrow> cd_identifier c \<noteq> None)"

record LightingZoneSettings =
  lz_name :: string
  lz_enabled :: bool
  lz_led_count :: "int option"

definition lighting_zone_valid :: "LightingZoneSettings \<Rightarrow> bool" where
  "lighting_zone_valid z \<longleftrightarrow> lz_name z \<noteq> [] \<and> optional (\<lambda>n. 0 < n) (lz_led_count z)"

record LEDLayoutSettings =
  ll_orientation :: "string option"
  ll_starting_corner :: "string option"

definition led_layout_valid :: "LEDLayoutSettings \<Rightarrow> bool" where
  "led_layout_valid l \<longleftrightarrow>
     optional (\<lambda>v. v \<noteq> []) (ll_orientation l) \<and> optional (\<lambda>v. v \<noteq> []) (ll_starting_corner l)"

record DashboardServerSettings =
  ds_bind_host :: string
  ds_port :: int
  ds_refresh_seconds :: int
  ds_cpu_temperature_warning_c :: rat
  ds_memory_warning_percent :: rat
  ds_storage_warning_percent :: rat
  ds_authentication :: DashboardAuthenticationSettings

definition dashboard_valid :: "DashboardServerSettings \<Rightarrow> bool" where
  "dashboard_valid d \<longleftrightarrow>
     bind_host_has_no_url_syntax (ds_bind_host d) \<and> port_valid (ds_port d) \<and>
     within_bounds 1 3600 (ds_refresh_seconds d) \<and>
     within_bounds 0 120 (ds_cpu_temperature_warning_c d) \<and>
     within_bounds 0 100 (ds_memory_warning_percent d) \<and>
     within_bounds 0 100 (ds_storage_warning_percent d) \<and>
     check_authentication_settings (ds_authentication d) \<noteq> None"

record HealthHistorySettings =
  hh_enabled :: bool
  hh_database_path :: "string option"
  hh_database_mode :: HealthHistoryDatabaseMode
  hh_sample_interval_seconds :: int
  hh_retention_days :: int

definition health_history_valid :: "HealthHistorySettings \<Rightarrow> bool" where
  "health_history_valid h \<longleftrightarrow>
     optional (\<lambda>value. 1 \<le> length value \<and> length value \<le> 4096 \<and>
       database_path_is_safe_absolute_lexical_path value) (hh_database_path h) \<and>
     within_bounds 5 300 (hh_sample_interval_seconds h) \<and> within_bounds 1 365 (hh_retention_days h) \<and>
     (hh_enabled h \<longrightarrow> hh_database_path h \<noteq> None)"

record MQTTSettings =
  mq_enabled :: bool
  mq_host :: "string option"
  mq_port :: "int option"
  mq_username :: "string option"
  mq_password :: "string option"

definition mqtt_settings_valid :: "MQTTSettings \<Rightarrow> bool" where
  "mqtt_settings_valid m \<longleftrightarrow>
     endpoint_valid (mq_enabled m) (mq_host m) (mq_port m) \<and> optional (\<lambda>v. v \<noteq> []) (mq_username m)"

record AuroraSettings =
  ar_application :: ApplicationSettings
  ar_logging :: LoggingSettings
  ar_hyperhdr :: HyperHDRSettings
  ar_wled :: WLEDSettings
  ar_ambient_controls :: AmbientControlSettings
  ar_ddp :: DDPSettings
  ar_capture_device :: CaptureDeviceSettings
  ar_lighting_zones :: "LightingZoneSettings list"
  ar_led_layout :: LEDLayoutSettings
  ar_dashboard :: DashboardServerSettings
  ar_health_history :: HealthHistorySettings
  ar_mqtt :: MQTTSettings

definition enabled_history_respects_dashboard_refresh :: "AuroraSettings \<Rightarrow> bool" where
  "enabled_history_respects_dashboard_refresh a \<longleftrightarrow>
     \<not> (hh_enabled (ar_health_history a) \<and>
        hh_sample_interval_seconds (ar_health_history a) < ds_refresh_seconds (ar_dashboard a))"

text \<open>\<open>AuroraSettings.model_validate\<close>; \<open>None\<close> is a \<open>ValidationError\<close>.\<close>

definition check_aurora_settings :: "AuroraSettings \<Rightarrow> AuroraSettings option" where
  "check_aurora_settings a =
     (if application_valid (ar_application a) \<and> hyperhdr_settings_valid (ar_hyperhdr a) \<and>
         wled_settings_valid (ar_wled a) \<and> ambient_settings_valid (ar_ambient_controls a) \<and>
         ddp_settings_valid (ar_ddp a) \<and> capture_device_valid (ar_capture_device a) \<and>
         list_all lighting_zone_valid (ar_lighting_zones a) \<and> led_layout_valid (ar_led_layout a) \<and>
         dashboard_valid (ar_dashboard a) \<and> health_history_valid (ar_health_history a) \<and>
         mqtt_settings_valid (ar_mqtt a) \<and> enabled_history_respects_dashboard_refresh a
      then Some a else None)"

section \<open>Defaults\<close>

definition default_hyperhdr :: HyperHDRSettings where
  "default_hyperhdr =
     \<lparr>hs_enabled = False, hs_host = None, hs_port = None, hs_validation_timeout_seconds = 2,
      hs_controls = \<lparr>hc_enabled = False, hc_allowed_operations = [], hc_control_timeout = 2,
        hc_operation_limit = 20, hc_operation_window_seconds = 60\<rparr>\<rparr>"

definition default_wled :: WLEDSettings where
  "default_wled =
     \<lparr>ws_enabled = False, ws_host = None, ws_port = None, ws_validation_timeout_seconds = 2,
      ws_expected_led_count = None, ws_expected_active_led_count = None,
      ws_expected_skipped_leds = None,
      ws_controls = \<lparr>wc_enabled = False, wc_allowed_operations = [], wc_timeout_seconds = 2,
        wc_maximum_brightness = 255, wc_operation_limit = 20, wc_operation_window_seconds = 60\<rparr>\<rparr>"

definition default_ambient :: AmbientControlSettings where
  "default_ambient =
     \<lparr>as_enabled = False, as_allowed_operations = [], as_operation_limit = 20,
      as_operation_window_seconds = 60\<rparr>"

definition default_authentication :: DashboardAuthenticationSettings where
  "default_authentication =
     \<lparr>da_enabled = False, da_username = None, da_password_hash = None, da_session_ttl_minutes = 480,
      da_maximum_sessions = 16, da_secure_cookie = False, da_login_attempt_limit = 5,
      da_login_attempt_window_seconds = 300\<rparr>"

definition default_dashboard :: DashboardServerSettings where
  "default_dashboard =
     \<lparr>ds_bind_host = ''localhost'', ds_port = 8080, ds_refresh_seconds = 5,
      ds_cpu_temperature_warning_c = 80, ds_memory_warning_percent = 90,
      ds_storage_warning_percent = 90, ds_authentication = default_authentication\<rparr>"

definition default_health_history :: HealthHistorySettings where
  "default_health_history =
     \<lparr>hh_enabled = False, hh_database_path = None, hh_database_mode = OPEN_EXISTING,
      hh_sample_interval_seconds = 30, hh_retention_days = 30\<rparr>"

definition default_aurora_settings :: AuroraSettings where
  "default_aurora_settings =
     \<lparr>ar_application = \<lparr>ap_name = ''Project Aurora'', ap_configuration_profile = ''default''\<rparr>,
      ar_logging = \<lparr>lo_level = INFO, lo_structured_output = False\<rparr>,
      ar_hyperhdr = default_hyperhdr, ar_wled = default_wled,
      ar_ambient_controls = default_ambient,
      ar_ddp = \<lparr>dd_enabled = False, dd_host = None, dd_port = Some 4048\<rparr>,
      ar_capture_device = \<lparr>cd_enabled = False, cd_identifier = None\<rparr>,
      ar_lighting_zones = [],
      ar_led_layout = \<lparr>ll_orientation = None, ll_starting_corner = None\<rparr>,
      ar_dashboard = default_dashboard, ar_health_history = default_health_history,
      ar_mqtt = \<lparr>mq_enabled = False, mq_host = None, mq_port = None, mq_username = None,
        mq_password = None\<rparr>\<rparr>"

section \<open>Paths\<close>

lemma starts_with_iff: "starts_with p s \<longleftrightarrow> (\<exists>t. s = p @ t)"
  by (metis append_eq_conv_conj append_take_drop_id starts_with_def)

lemma contains_char:
  assumes "c \<in> set sub" and "c \<notin> set s"
  shows "\<not> contains sub s"
  using assms
proof (induction s)
  case (Cons d s)
  then have "\<not> set sub \<subseteq> set (d # s)" by auto
  then have "\<not> starts_with sub (d # s)" unfolding starts_with_def by (metis set_take_subset)
  then show ?case using Cons by auto
qed auto

lemma split_on_nonempty: "split_on sep s \<noteq> []"
  by (induction s) (auto split: list.split)

lemma split_on_parts: "p \<in> set (split_on sep s) \<Longrightarrow> sep \<notin> set p"
  by (induction s arbitrary: p) (auto split: if_splits list.splits)

lemma split_on_subset: "p \<in> set (split_on sep s) \<Longrightarrow> set p \<subseteq> set s"
  by (induction s arbitrary: p) (fastforce split: if_splits list.splits)+

lemma join_slashes:
  "cs \<noteq> [] \<Longrightarrow> CHR ''/'' # join_with CHR ''/'' cs = concat (map ((#) CHR ''/'') cs)"
  by (induction "CHR ''/''" cs rule: join_with.induct) simp_all

definition forbidden_in_identifier :: "char set" where
  "forbidden_in_identifier = {CHR 0x00, CHR 0x0A, CHR 0x0D} \<union> set ''?#@*[]'' \<union> {CHR ''/''}"

lemma video_device_iff:
  "video_device value \<longleftrightarrow> (\<exists>n. value = ''/dev/video'' @ n \<and> n \<noteq> [] \<and> list_all is_decimal_char n)"
  by (auto simp: video_device_def starts_with_iff)

lemma v4l_link_iff:
  "v4l_link value \<longleftrightarrow>
    (\<exists>dir name. dir \<in> {''by-id'', ''by-path''} \<and> value = ''/dev/v4l/'' @ dir @ ''/'' @ name \<and>
       name \<noteq> [] \<and> CHR ''/'' \<notin> set name)"
  by (auto simp: v4l_link_def starts_with_iff)

lemma decimal_chars_plain:
  assumes "list_all is_decimal_char n"
  shows "set n \<inter> forbidden_in_identifier = {}" and "CHR ''.'' \<notin> set n"
proof -
  have "\<not> is_decimal_char c" if "c \<in> forbidden_in_identifier \<union> {CHR ''.''}" for c
    using that by (auto simp: forbidden_in_identifier_def is_decimal_char_def in_range_def ord_of_def)
  then show "set n \<inter> forbidden_in_identifier = {}" "CHR ''.'' \<notin> set n"
    using assms by (auto simp: list_all_iff)
qed

lemma identifier_video:
  assumes "list_all is_decimal_char n" and "n \<noteq> []"
  shows "identifier_is_supported_linux_path (''/dev/video'' @ n)"
proof -
  note plain = decimal_chars_plain [OF assms(1)]
  have slash: "CHR ''/'' \<notin> set n" using plain(1) by (auto simp: forbidden_in_identifier_def)
  have "\<not> contains ''://'' n" by (rule contains_char [OF _ slash]) simp
  then show ?thesis
    using plain assms slash split_on_last [OF slash]
    by (auto simp: identifier_is_supported_linux_path_def video_device_iff forbidden_in_identifier_def
        starts_with_def)
qed

lemma identifier_link:
  assumes "dir \<in> {''by-id'', ''by-path''}" and "CHR ''/'' \<notin> set name" and "name \<noteq> []"
  shows "identifier_is_supported_linux_path (''/dev/v4l/'' @ dir @ ''/'' @ name) \<longleftrightarrow>
    name \<noteq> ''..'' \<and> set name \<inter> forbidden_in_identifier = {}"
proof -
  have no_url: "\<not> contains ''://'' name" by (rule contains_char [OF _ assms(2)]) simp
  have link: "v4l_link (''/dev/v4l/'' @ dir @ ''/'' @ name)"
    unfolding v4l_link_iff using assms by blast
  have "\<not> contains ''://'' (''/dev/v4l/'' @ dir @ ''/'' @ name)"
    "split_on CHR ''/'' (''/dev/v4l/'' @ dir @ ''/'' @ name) = [[], ''dev'', ''v4l'', dir, name]"
    "\<not> starts_with ''~'' (''/dev/v4l/'' @ dir @ ''/'' @ name)"
    using assms(1) no_url split_on_last [OF assms(2)] by (auto simp: starts_with_def)
  then show ?thesis
    using assms link
    by (auto simp: identifier_is_supported_linux_path_def forbidden_in_identifier_def)
qed

lemma identifier_grammar:
  "identifier_is_supported_linux_path value \<longleftrightarrow>
     (\<exists>n. value = ''/dev/video'' @ n \<and> n \<noteq> [] \<and> list_all is_decimal_char n) \<or>
     (\<exists>dir name. value = ''/dev/v4l/'' @ dir @ ''/'' @ name \<and> dir \<in> {''by-id'', ''by-path''} \<and>
        name \<noteq> [] \<and> name \<noteq> ''..'' \<and> set name \<inter> forbidden_in_identifier = {})"
proof -
  let ?video = "\<exists>n. value = ''/dev/video'' @ n \<and> n \<noteq> [] \<and> list_all is_decimal_char n"
  let ?link = "\<exists>dir name. value = ''/dev/v4l/'' @ dir @ ''/'' @ name \<and> dir \<in> {''by-id'', ''by-path''} \<and>
        name \<noteq> [] \<and> name \<noteq> ''..'' \<and> set name \<inter> forbidden_in_identifier = {}"
  show "identifier_is_supported_linux_path value \<longleftrightarrow> ?video \<or> ?link"
  proof (intro iffI disjCI)
    assume id: "identifier_is_supported_linux_path value" and "\<not> ?link"
    show ?video
    proof (rule ccontr)
      assume "\<not> ?video"
      then have "\<not> video_device value" unfolding video_device_iff by blast
      then have "v4l_link value" using id by (simp add: identifier_is_supported_linux_path_def)
      then obtain dir name where *: "dir \<in> {''by-id'', ''by-path''}"
        "value = ''/dev/v4l/'' @ dir @ ''/'' @ name" "name \<noteq> []" "CHR ''/'' \<notin> set name"
        unfolding v4l_link_iff by blast
      then have "name \<noteq> ''..'' \<and> set name \<inter> forbidden_in_identifier = {}"
        using id identifier_link [OF *(1,4,3)] by blast
      with * \<open>\<not> ?link\<close> show False by blast
    qed
  next
    assume "?video \<or> ?link"
    then show "identifier_is_supported_linux_path value"
    proof
      assume ?video
      then show ?thesis using identifier_video by blast
    next
      assume ?link
      then obtain dir name where *: "value = ''/dev/v4l/'' @ dir @ ''/'' @ name"
        "dir \<in> {''by-id'', ''by-path''}" "name \<noteq> []" "name \<noteq> ''..''"
        "set name \<inter> forbidden_in_identifier = {}" by blast
      then have "CHR ''/'' \<notin> set name" by (auto simp: forbidden_in_identifier_def)
      then show ?thesis using identifier_link [OF *(2) _ *(3)] * by blast
    qed
  qed
qed

definition safe_component :: "string \<Rightarrow> bool" where
  "safe_component c \<longleftrightarrow>
     c \<notin> {[], ''.'', ''..''} \<and> CHR ''/'' \<notin> set c \<and> (\<forall>x \<in> set c. 32 \<le> ord_of x \<and> ord_of x \<noteq> 127)"

lemma database_path_grammar:
  "database_path_is_safe_absolute_lexical_path path \<longleftrightarrow>
     (\<exists>cs. cs \<noteq> [] \<and> path = concat (map ((#) CHR ''/'') cs) \<and> list_all safe_component cs)"
proof -
  let ?ok = "\<lambda>cs. \<forall>c \<in> set cs. c \<notin> {[], ''.'', ''..''} \<and> CHR ''/'' \<notin> set c \<and>
    (\<forall>x \<in> set c. 32 \<le> ord_of x \<and> ord_of x \<noteq> 127)"
  have "database_path_is_safe_absolute_lexical_path path \<longleftrightarrow>
     (\<exists>cs. cs \<noteq> [] \<and> path = concat (map ((#) CHR ''/'') cs) \<and> ?ok cs)"
  proof
    assume safe: "database_path_is_safe_absolute_lexical_path path"
    then obtain rest where path: "path = CHR ''/'' # rest"
      by (auto simp: database_path_is_safe_absolute_lexical_path_def starts_with_iff Let_def)
    let ?cs = "split_on CHR ''/'' rest"
    have rest: "rest = join_with CHR ''/'' ?cs" by (simp add: join_split)
    have chars: "set c \<subseteq> set rest" if "c \<in> set ?cs" for c
      using that split_on_subset by blast
    have "?ok ?cs"
      using safe chars split_on_parts [of _ "CHR ''/''" rest]
      by (fastforce simp: database_path_is_safe_absolute_lexical_path_def path Let_def list_ex_iff)
    then show "\<exists>cs. cs \<noteq> [] \<and> path = concat (map ((#) CHR ''/'') cs) \<and> ?ok cs"
      using split_on_nonempty [of "CHR ''/''" rest] join_slashes [of ?cs] rest
      by (intro exI [of _ ?cs]) (simp add: path)
  next
    assume "\<exists>cs. cs \<noteq> [] \<and> path = concat (map ((#) CHR ''/'') cs) \<and> ?ok cs"
    then obtain cs where cs: "cs \<noteq> []" "path = concat (map ((#) CHR ''/'') cs)" "?ok cs" by blast
    have path: "path = CHR ''/'' # join_with CHR ''/'' cs" using join_slashes [OF cs(1)] cs(2) by simp
    have split: "split_on CHR ''/'' path = [] # cs"
      using split_on_join [OF cs(1), of "CHR ''/''"] cs(3) by (simp add: path)
    obtain cs' c where snoc: "cs = cs' @ [c]" using cs(1) by (metis rev_exhaust)
    have c: "c \<noteq> []" "CHR ''/'' \<notin> set c" using cs(3) by (auto simp: snoc)
    have "last path = last c" using c(1) by (simp add: cs(2) snoc)
    then have "last path \<noteq> CHR ''/''" using last_in_set [OF c(1)] c(2) by metis
    moreover from this have "path \<noteq> ''/''" by auto
    moreover have "\<not> list_ex (\<lambda>c. ord_of c < 32 \<or> ord_of c = 127) path"
    proof -
      have "32 \<le> ord_of x \<and> ord_of x \<noteq> 127" if x: "x \<in> set path" for x
      proof (cases "x = CHR ''/''")
        case False
        then obtain k where "k \<in> set cs" "x \<in> set k" using x by (auto simp: cs(2) split: if_splits)
        then show ?thesis using cs(3) by blast
      qed (simp add: ord_of_def)
      then show ?thesis by (auto simp: list_ex_iff not_less)
    qed
    moreover have "\<not> list_ex (\<lambda>c. c \<in> {[], ''.'', ''..''}) cs" using cs(3) by (auto simp: list_ex_iff)
    ultimately show "database_path_is_safe_absolute_lexical_path path"
      unfolding database_path_is_safe_absolute_lexical_path_def split
      by (simp add: starts_with_def path)
  qed
  then show ?thesis by (simp add: safe_component_def list_all_iff)
qed

text \<open>
  The two path validators mean what they name. A capture identifier is accepted exactly when
  it is \<open>/dev/video\<close> and a decimal number or one entry directly below a stable link directory,
  without control, wildcard, URL or traversal syntax; a database path exactly when it is
  absolute and a sequence of non-empty components other than dots without control characters.
\<close>

theorem path_grammars:
  "(identifier_is_supported_linux_path value \<longleftrightarrow>
     (\<exists>n. value = ''/dev/video'' @ n \<and> n \<noteq> [] \<and> list_all is_decimal_char n) \<or>
     (\<exists>dir name. value = ''/dev/v4l/'' @ dir @ ''/'' @ name \<and> dir \<in> {''by-id'', ''by-path''} \<and>
        name \<noteq> [] \<and> name \<noteq> ''..'' \<and> set name \<inter> forbidden_in_identifier = {})) \<and>
   (database_path_is_safe_absolute_lexical_path path \<longleftrightarrow>
     (\<exists>components. components \<noteq> [] \<and> path = concat (map ((#) CHR ''/'') components) \<and>
        list_all safe_component components))"
  using identifier_grammar database_path_grammar by blast

section \<open>Validated settings build the control plane\<close>

lemma validated_settings:
  assumes "check_aurora_settings a = Some a"
  shows "hyperhdr_settings_valid (ar_hyperhdr a)" "wled_settings_valid (ar_wled a)"
    "ambient_settings_valid (ar_ambient_controls a)" "dashboard_valid (ar_dashboard a)"
  using assms by (auto simp: check_aurora_settings_def split: if_splits)

lemma limiter_exists:
  "1 \<le> n \<Longrightarrow> 1 \<le> w \<Longrightarrow> key \<noteq> [] \<Longrightarrow> \<exists>l. new_limiter n (of_int w) key MAX_TRACKED_CLIENTS = Some l"
  by (simp add: new_limiter_def MAX_TRACKED_CLIENTS_def)

lemma valid_auth_builds:
  assumes "check_authentication_settings d \<noteq> None" and "key \<noteq> []"
  shows "\<exists>s. new_auth_service d key = Some s"
  using assms limiter_exists [of "da_login_attempt_limit d" "da_login_attempt_window_seconds d" key]
  by (auto simp: check_authentication_settings_def new_auth_service_def new_session_store_def
      split: if_splits option.splits)

lemma valid_wled_builds:
  assumes valid: "wled_settings_valid s" and key: "key \<noteq> []"
  shows "\<exists>w. new_wled_service net loads s auth None key gate = Some w \<and> sv_gate w = gate \<and>
    sv_settings w = s \<and> (wc_enabled (ws_controls s) \<longrightarrow> sv_adapter w \<noteq> None)"
proof -
  let ?c = "ws_controls s"
  have bounds: "1 / 10 \<le> wc_timeout_seconds ?c" "wc_timeout_seconds ?c \<le> 5"
    "1 \<le> wc_operation_limit ?c" "1 \<le> wc_operation_window_seconds ?c"
    and host: "ws_host s = Some h \<Longrightarrow> h \<noteq> []" for h
    using valid by (auto simp: wled_settings_valid_def wled_controls_valid_def within_bounds_def
        endpoint_valid_def optional_def host_is_hostname_or_ip_literal_def split: option.splits)
  obtain cs where cs: "operation_registry (wc_timeout_seconds ?c) = Inr cs"
    using bounds(1,2) by (simp add: operation_registry_cases)
  obtain l where l: "new_limiter (wc_operation_limit ?c) (of_int (wc_operation_window_seconds ?c)) key
      MAX_TRACKED_CLIENTS = Some l"
    using limiter_exists [OF bounds(3,4) key] by blast
  have on: "wc_enabled ?c \<Longrightarrow> ws_host s \<noteq> None"
    using valid by (auto simp: wled_settings_valid_def expected_led_counts_are_consistent_def split: if_splits)
  show ?thesis
    using bounds(1,2) host on
    by (cases "ws_host s") (auto simp: new_wled_service_def cs l new_wled_adapter_def)
qed

lemma valid_hyperhdr_builds:
  assumes valid: "hyperhdr_settings_valid s" and key: "key \<noteq> []"
  shows "\<exists>h. new_hyperhdr_service np ng upper loads s auth None key gate = Some h \<and> hv_gate h = gate \<and>
    hv_settings h = s \<and> (hc_enabled (hs_controls s) \<longrightarrow> hv_adapter h \<noteq> None)"
proof -
  let ?c = "hs_controls s"
  have bounds: "1 / 10 \<le> hc_control_timeout ?c" "hc_control_timeout ?c \<le> 5"
    "1 \<le> hc_operation_limit ?c" "1 \<le> hc_operation_window_seconds ?c"
    and host: "hs_host s = Some h \<Longrightarrow> h \<noteq> []" and port: "hs_port s = Some p \<Longrightarrow> 1 \<le> p \<and> p \<le> 65535" for h p
    using valid by (auto simp: hyperhdr_settings_valid_def hyperhdr_controls_valid_def within_bounds_def
        endpoint_valid_def optional_def host_is_hostname_or_ip_literal_def port_valid_def split: option.splits)
  obtain cs where cs: "hyperhdr_operation_registry (hc_control_timeout ?c) = Inr cs"
    using bounds(1,2) hyperhdr_operation_registry_cases [of "hc_control_timeout ?c"]
    by (cases "hyperhdr_operation_registry (hc_control_timeout ?c)") auto
  obtain l where l: "new_limiter (hc_operation_limit ?c) (of_int (hc_operation_window_seconds ?c)) key
      MAX_TRACKED_CLIENTS = Some l"
    using limiter_exists [OF bounds(3,4) key] by blast
  have on: "hc_enabled ?c \<Longrightarrow> hs_host s \<noteq> None \<and> hs_port s \<noteq> None"
    using valid by (auto simp: hyperhdr_settings_valid_def)
  show ?thesis
    using bounds(1,2) host port on
    by (cases "hs_host s"; cases "hs_port s")
      (auto simp: new_hyperhdr_service_def cs l new_hyperhdr_adapter_def)
qed

text \<open>
  C40. From validated settings and a non-empty key the whole control plane can be built: no
  constructor of the authentication, WLED, HyperHDR or ambient service raises, the three device
  services share the gate, an enabled device control has its adapter, and a service whose
  controls are not enabled offers no operation.
\<close>

theorem validated_settings_build_services:
  assumes "check_aurora_settings a = Some a" and "key \<noteq> []"
  shows "\<exists>s w h m.
    new_auth_service (ds_authentication (ar_dashboard a)) key = Some s \<and>
    new_wled_service net loads (ar_wled a) (authentication_enabled s) None key gate = Some w \<and>
    new_hyperhdr_service np ng upper loads (ar_hyperhdr a) (authentication_enabled s) None key gate = Some h \<and>
    new_ambient_service (ar_ambient_controls a) (authentication_enabled s) w h gate key = Some m \<and>
    (wc_enabled (ws_controls (ar_wled a)) \<longrightarrow> sv_adapter w \<noteq> None) \<and>
    (hc_enabled (hs_controls (ar_hyperhdr a)) \<longrightarrow> hv_adapter h \<noteq> None) \<and>
    (\<not> wc_enabled (ws_controls (ar_wled a)) \<longrightarrow> wled_available_operations w = []) \<and>
    (\<not> hc_enabled (hs_controls (ar_hyperhdr a)) \<longrightarrow> hyperhdr_available_operations h = []) \<and>
    (\<not> as_enabled (ar_ambient_controls a) \<longrightarrow> ambient_available_operations m = [])"
proof -
  note valid = validated_settings [OF assms(1)]
  have "check_authentication_settings (ds_authentication (ar_dashboard a)) \<noteq> None"
    using valid(4) by (simp add: dashboard_valid_def)
  then obtain s where s: "new_auth_service (ds_authentication (ar_dashboard a)) key = Some s"
    using valid_auth_builds assms(2) by blast
  obtain w where w: "new_wled_service net loads (ar_wled a) (authentication_enabled s) None key gate = Some w"
    "sv_gate w = gate" "sv_settings w = ar_wled a"
    "wc_enabled (ws_controls (ar_wled a)) \<longrightarrow> sv_adapter w \<noteq> None"
    using valid_wled_builds [OF valid(2) assms(2)] by metis
  obtain h where h: "new_hyperhdr_service np ng upper loads (ar_hyperhdr a) (authentication_enabled s) None key gate = Some h"
    "hv_gate h = gate" "hv_settings h = ar_hyperhdr a"
    "hc_enabled (hs_controls (ar_hyperhdr a)) \<longrightarrow> hv_adapter h \<noteq> None"
    using valid_hyperhdr_builds [OF valid(1) assms(2)] by metis
  obtain l where l: "new_limiter (as_operation_limit (ar_ambient_controls a))
      (of_int (as_operation_window_seconds (ar_ambient_controls a))) key MAX_TRACKED_CLIENTS = Some l"
    using limiter_exists [OF _ _ assms(2)] valid(3) unfolding ambient_settings_valid_def within_bounds_def
    by blast
  obtain cs where cs: "ambient_operation_registry = Inr cs" using ambient_registry_ids by blast
  obtain m where m: "new_ambient_service (ar_ambient_controls a) (authentication_enabled s) w h gate key = Some m"
    "ab_settings m = ar_ambient_controls a"
    using w(2) h(2) by (simp add: new_ambient_service_def cs l)
  show ?thesis
    by (intro exI [of _ s] exI [of _ w] exI [of _ h] exI [of _ m])
      (use s w h m in \<open>simp add: wled_available_operations_def hyperhdr_available_operations_def
        ambient_available_operations_def\<close>)
qed

lemma default_settings_valid: "check_aurora_settings default_aurora_settings = Some default_aurora_settings"
  by (simp add: check_aurora_settings_def default_aurora_settings_def application_valid_def
      hyperhdr_settings_valid_def default_hyperhdr_def endpoint_valid_def optional_def within_bounds_def
      hyperhdr_controls_valid_def wled_settings_valid_def default_wled_def wled_controls_valid_def
      expected_led_counts_are_consistent_def ambient_settings_valid_def default_ambient_def
      ddp_settings_valid_def port_valid_def capture_device_valid_def led_layout_valid_def
      dashboard_valid_def default_dashboard_def bind_host_has_no_url_syntax_def url_tokens_def
      starts_with_def ord_of_def default_authentication_def check_authentication_settings_def
      health_history_valid_def default_health_history_def mqtt_settings_valid_def
      enabled_history_respects_dashboard_refresh_def)

theorem validated_settings_build_services_witness:
  "\<exists>s w h m.
    new_auth_service (ds_authentication (ar_dashboard default_aurora_settings)) [1] = Some s \<and>
    new_wled_service (\<lambda>_ _ _. Open_Raised OS_Error) (\<lambda>_. Undecodable) (ar_wled default_aurora_settings)
      (authentication_enabled s) None [1] 0 = Some w \<and> wled_available_operations w = [] \<and>
    new_ambient_service (ar_ambient_controls default_aurora_settings) (authentication_enabled s) w h 0 [1] = Some m \<and>
    ambient_available_operations m = []"
proof -
  have "\<not> wc_enabled (ws_controls (ar_wled default_aurora_settings))"
    "\<not> as_enabled (ar_ambient_controls default_aurora_settings)"
    by (simp_all add: default_aurora_settings_def default_wled_def default_ambient_def)
  then show ?thesis
    using validated_settings_build_services [OF default_settings_valid, of "[1]"
        "\<lambda>_ _ _. Open_Raised OS_Error" "\<lambda>_. Undecodable" 0] by blast
qed

end
