(* ===== verification/Runtime.thy ===== *)
theory Runtime
  imports Settings
begin

text \<open>
  \<open>runtime/\<close>: the plan made from validated settings (\<open>planning.py\<close>), the controller that starts
  and stops injected components (\<open>controller.py\<close>) and the aggregation of their health
  (\<open>health.py\<close>, \<open>models.py\<close>). An injected component is code from outside: what its \<open>start\<close>,
  \<open>stop\<close> and \<open>health\<close> do is the argument \<open>env\<close>, and may depend on all calls made so far. The
  controller's calls are kept in \<open>rt_calls\<close>, with whether they returned, as an observation.
\<close>

section \<open>Models\<close>

datatype ComponentId = CAPTURE_DEVICE | HYPERHDR | WLED | DDP | MQTT

definition COMPONENT_ORDER :: "ComponentId list" where
  "COMPONENT_ORDER = [CAPTURE_DEVICE, HYPERHDR, WLED, DDP, MQTT]"

datatype ComponentLifecycleState = CREATED | STARTING | RUNNING | STOPPING | STOPPED | FAILED

datatype ComponentHealthState = H_DISABLED | H_UNKNOWN | H_HEALTHY | H_DEGRADED | H_UNHEALTHY

datatype OverallHealthState = O_DISABLED | O_UNKNOWN | O_HEALTHY | O_DEGRADED | O_UNHEALTHY

record ComponentPlan =
  cp_component_id :: ComponentId
  cp_enabled :: bool
  cp_configured :: bool
  cp_initial_lifecycle :: ComponentLifecycleState
  cp_initial_health :: ComponentHealthState

record RuntimePlan =
  rp_components :: "ComponentPlan list"
  rp_lighting_zone_count :: nat
  rp_led_layout_configured :: bool

record ComponentHealthReport =
  chr_component_id :: ComponentId
  chr_state :: ComponentHealthState
  chr_reason_code :: "string option"
  chr_message :: "string option"

record RuntimeSnapshot =
  rs_lifecycle :: "(ComponentId \<times> ComponentLifecycleState) list"
  rs_health_reports :: "ComponentHealthReport list"
  rs_overall_health :: OverallHealthState

datatype runtime_error =
    ComponentRegistryError ComponentId
  | MissingComponentError ComponentId
  | ComponentStartupError ComponentId
  | ComponentShutdownError ComponentId

section \<open>Planning\<close>

primrec enabled_by_id :: "AuroraSettings \<Rightarrow> ComponentId \<Rightarrow> bool" where
  "enabled_by_id settings CAPTURE_DEVICE = cd_enabled (ar_capture_device settings)"
| "enabled_by_id settings HYPERHDR = hs_enabled (ar_hyperhdr settings)"
| "enabled_by_id settings WLED = ws_enabled (ar_wled settings)"
| "enabled_by_id settings DDP = dd_enabled (ar_ddp settings)"
| "enabled_by_id settings MQTT = mq_enabled (ar_mqtt settings)"

definition build_runtime_plan :: "AuroraSettings \<Rightarrow> RuntimePlan" where
  "build_runtime_plan settings =
     \<lparr>rp_components = map (\<lambda>c.
        \<lparr>cp_component_id = c, cp_enabled = enabled_by_id settings c,
         cp_configured = enabled_by_id settings c, cp_initial_lifecycle = CREATED,
         cp_initial_health = (if enabled_by_id settings c then H_UNKNOWN else H_DISABLED)\<rparr>)
        COMPONENT_ORDER,
      rp_lighting_zone_count = length (filter lz_enabled (ar_lighting_zones settings)),
      rp_led_layout_configured =
        (ll_orientation (ar_led_layout settings) \<noteq> None \<or>
         ll_starting_corner (ar_led_layout settings) \<noteq> None)\<rparr>"

section \<open>Health\<close>

text \<open>The loop over the enabled plans: \<open>None\<close> is its early return on a failed component.\<close>

fun health_states ::
  "(ComponentId, ComponentHealthReport) dict \<Rightarrow> (ComponentId, ComponentLifecycleState) dict \<Rightarrow>
     ComponentPlan list \<Rightarrow> ComponentHealthState list option" where
  "health_states reports lifecycle [] = Some []"
| "health_states reports lifecycle (p # ps) =
     (if dict_get lifecycle (cp_component_id p) = Some FAILED then None
      else map_option ((#) (case dict_get reports (cp_component_id p) of
                              None \<Rightarrow> H_UNKNOWN | Some r \<Rightarrow> chr_state r))
             (health_states reports lifecycle ps))"

definition derive_overall_health ::
  "ComponentPlan list \<Rightarrow> (ComponentId, ComponentHealthReport) dict \<Rightarrow>
     (ComponentId, ComponentLifecycleState) dict \<Rightarrow> OverallHealthState" where
  "derive_overall_health plans reports lifecycle =
     (let enabled = filter cp_enabled plans
      in if enabled = [] then O_DISABLED
         else
           (case health_states reports lifecycle enabled of
              None \<Rightarrow> O_UNHEALTHY
            | Some states \<Rightarrow>
                if H_UNHEALTHY \<in> set states then O_UNHEALTHY
                else if H_DEGRADED \<in> set states then O_DEGRADED
                else if H_UNKNOWN \<in> set states then O_UNKNOWN
                else O_HEALTHY))"

section \<open>The controller\<close>

datatype component_call = Started ComponentId bool | Stopped ComponentId bool

text \<open>Does the call return, and the report of \<open>health\<close> (\<open>None\<close> when it raises).\<close>

record component_env =
  ce_start :: "component_call list \<Rightarrow> ComponentId \<Rightarrow> bool"
  ce_stop :: "component_call list \<Rightarrow> ComponentId \<Rightarrow> bool"
  ce_health :: "component_call list \<Rightarrow> ComponentId \<Rightarrow> ComponentHealthReport option"

record runtime =
  rt_plan :: RuntimePlan
  rt_components :: "ComponentId list"
  rt_lifecycle :: "(ComponentId, ComponentLifecycleState) dict"
  rt_started :: "ComponentId list"
  rt_calls :: "component_call list"

fun register_components :: "ComponentId list \<Rightarrow> ComponentId list \<Rightarrow> runtime_error + ComponentId list" where
  "register_components known [] = Inr known"
| "register_components known (c # cs) =
     (if c \<in> set known then Inl (ComponentRegistryError c) else register_components (known @ [c]) cs)"

definition new_runtime :: "RuntimePlan \<Rightarrow> ComponentId list \<Rightarrow> runtime_error + runtime" where
  "new_runtime plan components =
     map_sum id (\<lambda>known.
       \<lparr>rt_plan = plan, rt_components = known,
        rt_lifecycle = fold (\<lambda>p. dict_set (cp_component_id p) (cp_initial_lifecycle p)) (rp_components plan) [],
        rt_started = [], rt_calls = []\<rparr>)
     (register_components [] components)"

definition set_lifecycle :: "ComponentId \<Rightarrow> ComponentLifecycleState \<Rightarrow> runtime \<Rightarrow> runtime" where
  "set_lifecycle c state r = r\<lparr>rt_lifecycle := dict_set c state (rt_lifecycle r)\<rparr>"

text \<open>
  The \<open>while\<close> loop of \<open>_stop_started\<close>: pop the last started component, stop it, remember the
  first failure.
\<close>

function stop_loop ::
  "component_env \<Rightarrow> ComponentId option \<Rightarrow> runtime \<Rightarrow> ComponentId option \<times> runtime" where
  "stop_loop env failure r =
     (if rt_started r = [] then (failure, r)
      else
        (let c = last (rt_started r);
             r1 = set_lifecycle c STOPPING (r\<lparr>rt_started := butlast (rt_started r)\<rparr>);
             ok = ce_stop env (rt_calls r1) c;
             r2 = r1\<lparr>rt_calls := rt_calls r1 @ [Stopped c ok]\<rparr>
         in if ok then stop_loop env failure (set_lifecycle c STOPPED r2)
            else stop_loop env (if failure = None then Some c else failure) (set_lifecycle c FAILED r2)))"
  by pat_completeness auto
termination
  by (relation "measure (\<lambda>(env, failure, r). length (rt_started r))") (auto simp: set_lifecycle_def)

declare stop_loop.simps [simp del]

definition rollback :: "component_env \<Rightarrow> runtime \<Rightarrow> runtime" where
  "rollback env r = snd (stop_loop env None r)"

definition stop :: "component_env \<Rightarrow> runtime \<Rightarrow> runtime_error option \<times> runtime" where
  "stop env r =
     (let (failure, r') = stop_loop env None r
      in (map_option ComponentShutdownError failure, r'))"

fun start_loop ::
  "component_env \<Rightarrow> ComponentPlan list \<Rightarrow> runtime \<Rightarrow> runtime_error option \<times> runtime" where
  "start_loop env [] r = (None, r)"
| "start_loop env (p # ps) r =
     (let c = cp_component_id p
      in if \<not> cp_enabled p then start_loop env ps r
         else if c \<notin> set (rt_components r)
         then (Some (MissingComponentError c), rollback env (set_lifecycle c FAILED r))
         else
           (let r1 = set_lifecycle c STARTING r;
                ok = ce_start env (rt_calls r1) c;
                r2 = r1\<lparr>rt_calls := rt_calls r1 @ [Started c ok]\<rparr>
            in if \<not> ok
               then (Some (ComponentStartupError c), rollback env (set_lifecycle c FAILED r2))
               else start_loop env ps
                      ((set_lifecycle c RUNNING r2)\<lparr>rt_started := rt_started r2 @ [c]\<rparr>)))"

definition start :: "component_env \<Rightarrow> runtime \<Rightarrow> runtime_error option \<times> runtime" where
  "start env r =
     (if rt_started r \<noteq> [] then (None, r) else start_loop env (rp_components (rt_plan r)) r)"

definition component_report :: "component_env \<Rightarrow> runtime \<Rightarrow> ComponentPlan \<Rightarrow> ComponentHealthReport" where
  "component_report env r p =
     (let c = cp_component_id p
      in if \<not> cp_enabled p
         then \<lparr>chr_component_id = c, chr_state = H_DISABLED, chr_reason_code = None, chr_message = None\<rparr>
         else if c \<notin> set (rt_components r)
         then \<lparr>chr_component_id = c, chr_state = H_UNHEALTHY, chr_reason_code = Some ''missing_component'',
               chr_message = Some ''Component is not injected.''\<rparr>
         else
           (case ce_health env (rt_calls r) c of
              None \<Rightarrow> \<lparr>chr_component_id = c, chr_state = H_UNHEALTHY,
                       chr_reason_code = Some ''health_check_failed'',
                       chr_message = Some ''Component health check failed.''\<rparr>
            | Some report \<Rightarrow> report))"

definition snapshot :: "component_env \<Rightarrow> runtime \<Rightarrow> RuntimeSnapshot option" where
  "snapshot env r =
     (let plans = rp_components (rt_plan r);
          reports = fold (\<lambda>p. dict_set (cp_component_id p) (component_report env r p)) plans [];
          lifecycle = map (\<lambda>p. map_option (Pair (cp_component_id p))
                             (dict_get (rt_lifecycle r) (cp_component_id p))) plans;
          listed = map (\<lambda>p. dict_get reports (cp_component_id p)) plans
      in if None \<in> set lifecycle \<or> None \<in> set listed then None
         else Some \<lparr>rs_lifecycle = map the lifecycle, rs_health_reports = map the listed,
                    rs_overall_health = derive_overall_health plans reports (rt_lifecycle r)\<rparr>)"

section \<open>What stopping does\<close>

lemma set_lifecycle_simps [simp]:
  "rt_plan (set_lifecycle c x r) = rt_plan r" "rt_components (set_lifecycle c x r) = rt_components r"
  "rt_started (set_lifecycle c x r) = rt_started r" "rt_calls (set_lifecycle c x r) = rt_calls r"
  "dict_get (rt_lifecycle (set_lifecycle c x r)) d = (if d = c then Some x else dict_get (rt_lifecycle r) d)"
  by (simp_all add: set_lifecycle_def dict_get_set)

text \<open>
  The whole loop at once: which components were stopped, in which order and with which outcome.
\<close>

definition stopped_calls :: "(ComponentId \<times> bool) list \<Rightarrow> component_call list" where
  "stopped_calls = map (\<lambda>(c, ok). Stopped c ok)"

definition first_failure :: "(ComponentId \<times> bool) list \<Rightarrow> ComponentId option" where
  "first_failure os = map_option fst (List.find (\<lambda>(c, ok). \<not> ok) os)"

lemma first_failure_simps [simp]:
  "first_failure [] = None"
  "first_failure ((c, ok) # os) = (if ok then first_failure os else Some c)"
  by (simp_all add: first_failure_def)

lemma stop_loop_spec:
  assumes "distinct (rt_started r)"
  shows "\<exists>os. map fst os = rev (rt_started r) \<and>
    fst (stop_loop env failure r) = (if failure = None then first_failure os else failure) \<and>
    rt_started (snd (stop_loop env failure r)) = [] \<and>
    rt_calls (snd (stop_loop env failure r)) = rt_calls r @ stopped_calls os \<and>
    rt_plan (snd (stop_loop env failure r)) = rt_plan r \<and>
    rt_components (snd (stop_loop env failure r)) = rt_components r \<and>
    (\<forall>c. dict_get (rt_lifecycle (snd (stop_loop env failure r))) c =
       (case map_of os c of None \<Rightarrow> dict_get (rt_lifecycle r) c
        | Some ok \<Rightarrow> Some (if ok then STOPPED else FAILED)))"
  using assms
proof (induction "length (rt_started r)" arbitrary: r failure)
  case 0
  then show ?case
    by (intro exI [of _ "[]"]) (simp add: stop_loop.simps [of env failure r] stopped_calls_def)
next
  case (Suc n)
  then obtain cs c where started: "rt_started r = cs @ [c]"
    by (metis length_0_conv nat.distinct(1) rev_exhaust)
  let ?r1 = "set_lifecycle c STOPPING (r\<lparr>rt_started := cs\<rparr>)"
  let ?ok = "ce_stop env (rt_calls r) c"
  let ?r2 = "?r1\<lparr>rt_calls := rt_calls r @ [Stopped c ?ok]\<rparr>"
  let ?r3 = "set_lifecycle c (if ?ok then STOPPED else FAILED) ?r2"
  let ?f = "if ?ok \<or> failure \<noteq> None then failure else Some c"
  have step: "stop_loop env failure r = stop_loop env ?f ?r3"
    by (subst stop_loop.simps) (simp add: started Let_def)
  have "n = length (rt_started ?r3)" "distinct (rt_started ?r3)"
    using Suc.hyps(2) Suc.prems by (simp_all add: started)
  from Suc.hyps(1) [OF this, of ?f] obtain os where os: "map fst os = rev cs"
    "fst (stop_loop env ?f ?r3) = (if ?f = None then first_failure os else ?f)"
    "rt_started (snd (stop_loop env ?f ?r3)) = []"
    "rt_calls (snd (stop_loop env ?f ?r3)) = rt_calls r @ Stopped c ?ok # stopped_calls os"
    "rt_plan (snd (stop_loop env ?f ?r3)) = rt_plan r"
    "rt_components (snd (stop_loop env ?f ?r3)) = rt_components r"
    "\<forall>d. dict_get (rt_lifecycle (snd (stop_loop env ?f ?r3))) d =
       (case map_of os d of None \<Rightarrow> dict_get (rt_lifecycle ?r3) d
        | Some ok \<Rightarrow> Some (if ok then STOPPED else FAILED))"
    by auto
  have "c \<notin> set cs" using Suc.prems by (simp add: started)
  then have "map_of os c = None" using os(1) by (metis map_of_eq_None_iff set_map set_rev)
  then show ?case unfolding step
    by (intro exI [of _ "(c, ?ok) # os"])
      (use os in \<open>auto simp: started stopped_calls_def split: option.split\<close>)
qed

section \<open>What starting does\<close>

abbreviation enabled_ids :: "ComponentPlan list \<Rightarrow> ComponentId list" where
  "enabled_ids ps \<equiv> map cp_component_id (filter cp_enabled ps)"

text \<open>Everything was started, or the start failed at one component and was rolled back.\<close>

definition start_outcome ::
  "ComponentId list \<Rightarrow> ComponentId list \<Rightarrow> runtime \<Rightarrow> runtime_error option \<Rightarrow> runtime \<Rightarrow> bool" where
  "start_outcome before todo r err r' \<longleftrightarrow>
     (case err of
        None \<Rightarrow>
          rt_started r' = before @ todo \<and> rt_calls r' = rt_calls r @ map (\<lambda>c. Started c True) todo \<and>
          (\<forall>c \<in> set todo. dict_get (rt_lifecycle r') c = Some RUNNING)
      | Some e \<Rightarrow>
          rt_started r' = [] \<and>
          (\<exists>past c rest os. todo = past @ c # rest \<and> map fst os = rev (before @ past) \<and>
             e = (if c \<in> set (rt_components r) then ComponentStartupError c else MissingComponentError c) \<and>
             rt_calls r' = rt_calls r @ map (\<lambda>c. Started c True) past @
               (if c \<in> set (rt_components r) then [Started c False] else []) @ stopped_calls os \<and>
             dict_get (rt_lifecycle r') c = Some FAILED \<and>
             (\<forall>d \<in> set (before @ past). dict_get (rt_lifecycle r') d \<in> {Some STOPPED, Some FAILED})))"

lemma start_failed:
  assumes "todo = past @ c # rest" and "map fst os = rev (before @ past)"
    and "e = (if c \<in> set (rt_components r) then ComponentStartupError c else MissingComponentError c)"
    and "rt_calls r' = rt_calls r @ map (\<lambda>c. Started c True) past @
      (if c \<in> set (rt_components r) then [Started c False] else []) @ stopped_calls os"
    and "dict_get (rt_lifecycle r') c = Some FAILED"
    and "\<And>d. d \<in> set (before @ past) \<Longrightarrow> dict_get (rt_lifecycle r') d \<in> {Some STOPPED, Some FAILED}"
    and "rt_started r' = []"
  shows "start_outcome before todo r (Some e) r'"
  unfolding start_outcome_def option.case
  by (rule conjI [OF assms(7)], rule exI [of _ past], rule exI [of _ c], rule exI [of _ rest],
      rule exI [of _ os], intro conjI ballI) (use assms in blast)+

lemma start_loop_outcome:
  assumes "distinct (rt_started r @ enabled_ids ps)"
  shows "start_outcome (rt_started r) (enabled_ids ps) r (fst (start_loop env ps r)) (snd (start_loop env ps r)) \<and>
    (fst (start_loop env ps r) = None \<longrightarrow>
      (\<forall>c. c \<notin> set (enabled_ids ps) \<longrightarrow>
         dict_get (rt_lifecycle (snd (start_loop env ps r))) c = dict_get (rt_lifecycle r) c))"
  using assms
proof (induction ps arbitrary: r)
  case Nil
  then show ?case by (simp add: start_outcome_def)
next
  case (Cons p ps)
  show ?case
  proof (cases "cp_enabled p")
    case False
    then show ?thesis using Cons by (simp add: Let_def)
  next
    case True
    let ?c = "cp_component_id p"
    have fresh: "?c \<notin> set (rt_started r)" and dist: "distinct (rt_started r)"
      using Cons.prems True by auto
    have undone: "start_outcome (rt_started r) (?c # enabled_ids ps) r (Some e) (rollback env x)"
      if x: "rt_started x = rt_started r" "dict_get (rt_lifecycle x) ?c = Some FAILED"
        "rt_calls x = rt_calls r @ (if ?c \<in> set (rt_components r) then [Started ?c False] else [])"
        and e: "e = (if ?c \<in> set (rt_components r) then ComponentStartupError ?c else MissingComponentError ?c)"
      for x e
    proof -
      obtain os where os: "map fst os = rev (rt_started r)" "rt_started (rollback env x) = []"
        "rt_calls (rollback env x) = rt_calls x @ stopped_calls os"
        "\<forall>c. dict_get (rt_lifecycle (rollback env x)) c =
          (case map_of os c of None \<Rightarrow> dict_get (rt_lifecycle x) c
           | Some ok \<Rightarrow> Some (if ok then STOPPED else FAILED))"
        using stop_loop_spec [of x env None] dist x(1) unfolding rollback_def by auto
      have keys: "fst ` set os = set (rt_started r)" using os(1) by (metis set_map set_rev)
      have "map_of os ?c = None" using fresh keys by (simp add: map_of_eq_None_iff)
      moreover have "dict_get (rt_lifecycle (rollback env x)) d \<in> {Some STOPPED, Some FAILED}"
        if d: "d \<in> set (rt_started r)" for d
      proof -
        have "map_of os d \<noteq> None" using d keys by (simp add: map_of_eq_None_iff)
        then obtain ok where "map_of os d = Some ok" by blast
        then show ?thesis using os(4) by simp
      qed
      ultimately show ?thesis
        by (intro start_failed [where past = "[]" and c = ?c and os = os])
          (use os x e in \<open>simp_all\<close>)
    qed
    show ?thesis
    proof (cases "?c \<in> set (rt_components r) \<and> ce_start env (rt_calls r) ?c")
      case False
      then show ?thesis using True undone
        by (cases "?c \<in> set (rt_components r)") (simp_all add: Let_def)
    next
      case ok: True
      let ?r = "(set_lifecycle ?c RUNNING ((set_lifecycle ?c STARTING r)\<lparr>rt_calls := rt_calls r @ [Started ?c True]\<rparr>))
        \<lparr>rt_started := rt_started r @ [?c]\<rparr>"
      have step: "start_loop env (p # ps) r = start_loop env ps ?r" using True ok by (simp add: Let_def)
      have "distinct (rt_started ?r @ enabled_ids ps)" using Cons.prems True by simp
      note IH = Cons.IH [OF this]
      show ?thesis
      proof (cases "fst (start_loop env ps ?r)")
        case None
        then show ?thesis using IH True Cons.prems unfolding step by (auto simp: start_outcome_def)
      next
        case (Some e)
        then obtain past c rest os where *: "enabled_ids ps = past @ c # rest"
          "map fst os = rev (rt_started r @ ?c # past)"
          "e = (if c \<in> set (rt_components r) then ComponentStartupError c else MissingComponentError c)"
          "rt_calls (snd (start_loop env ps ?r)) = rt_calls r @ map (\<lambda>c. Started c True) (?c # past) @
             (if c \<in> set (rt_components r) then [Started c False] else []) @ stopped_calls os"
          "dict_get (rt_lifecycle (snd (start_loop env ps ?r))) c = Some FAILED"
          "\<forall>d \<in> set (rt_started r @ ?c # past).
             dict_get (rt_lifecycle (snd (start_loop env ps ?r))) d \<in> {Some STOPPED, Some FAILED}"
          "rt_started (snd (start_loop env ps ?r)) = []"
          using IH by (auto simp: start_outcome_def)
        have "start_outcome (rt_started r) (?c # enabled_ids ps) r (Some e) (snd (start_loop env ps ?r))"
          by (rule start_failed [where past = "?c # past" and c = c and os = os]) (use * in \<open>auto\<close>)
        then show ?thesis using Some True unfolding step by simp
      qed
    qed
  qed
qed

section \<open>Properties\<close>

lemma new_runtime_fields:
  assumes "new_runtime (build_runtime_plan settings) components = Inr r"
  shows "rt_started r = []" "rt_calls r = []" "rt_plan r = build_runtime_plan settings"
    "enabled_ids (rp_components (rt_plan r)) = filter (enabled_by_id settings) COMPONENT_ORDER"
    "distinct (filter (enabled_by_id settings) COMPONENT_ORDER)"
proof -
  obtain known where "r = \<lparr>rt_plan = build_runtime_plan settings, rt_components = known,
      rt_lifecycle = fold (\<lambda>p. dict_set (cp_component_id p) (cp_initial_lifecycle p))
        (rp_components (build_runtime_plan settings)) [], rt_started = [], rt_calls = []\<rparr>"
    using assms by (cases "register_components [] components") (auto simp: new_runtime_def)
  then show "rt_started r = []" "rt_calls r = []" "rt_plan r = build_runtime_plan settings"
    "enabled_ids (rp_components (rt_plan r)) = filter (enabled_by_id settings) COMPONENT_ORDER"
    "distinct (filter (enabled_by_id settings) COMPONENT_ORDER)"
    by (simp_all add: build_runtime_plan_def filter_map comp_def COMPONENT_ORDER_def)
qed

lemma stop_loop_plan: "rt_plan (snd (stop_loop env failure r)) = rt_plan r"
proof (induction env failure r rule: stop_loop.induct)
  case (1 env failure r)
  then show ?case by (subst stop_loop.simps) (simp add: Let_def)
qed

lemma start_loop_frame: "rt_plan (snd (start_loop env ps r)) = rt_plan r"
  by (induction ps arbitrary: r) (simp_all add: Let_def rollback_def stop_loop_plan)

lemma start_loop_none: "enabled_ids ps = [] \<Longrightarrow> start_loop env ps r = (None, r)"
  by (induction ps) (auto simp: Let_def split: if_splits)

text \<open>
  C15. Starting is all or nothing. From a plan of validated settings either every enabled
  component is started, each once and in plan order, and all are running, or the start stops
  at the first component that is missing or raises: that one is marked failed, the error names
  it, the components started before it are stopped in reverse order, and none is left started.
  A start of the started runtime calls nothing.
\<close>

theorem start_all_or_nothing:
  assumes "new_runtime (build_runtime_plan settings) components = Inr r"
    and "start env r = (err, r')"
  shows "case err of
      None \<Rightarrow>
        rt_started r' = filter (enabled_by_id settings) COMPONENT_ORDER \<and>
        rt_calls r' = map (\<lambda>c. Started c True) (filter (enabled_by_id settings) COMPONENT_ORDER) \<and>
        (\<forall>c. enabled_by_id settings c \<longrightarrow> dict_get (rt_lifecycle r') c = Some RUNNING) \<and>
        start other r' = (None, r')
    | Some e \<Rightarrow>
        rt_started r' = [] \<and>
        (\<exists>past c rest os. filter (enabled_by_id settings) COMPONENT_ORDER = past @ c # rest \<and>
           map fst os = rev past \<and>
           e = (if c \<in> set (rt_components r) then ComponentStartupError c else MissingComponentError c) \<and>
           rt_calls r' = map (\<lambda>c. Started c True) past @
             (if c \<in> set (rt_components r) then [Started c False] else []) @ stopped_calls os \<and>
           dict_get (rt_lifecycle r') c = Some FAILED \<and>
           (\<forall>d \<in> set past. dict_get (rt_lifecycle r') d \<in> {Some STOPPED, Some FAILED}))"
proof -
  note new = new_runtime_fields [OF assms(1)]
  let ?ps = "rp_components (rt_plan r)" and ?ids = "filter (enabled_by_id settings) COMPONENT_ORDER"
  have run: "start_loop env ?ps r = (err, r')" using assms(2) by (simp add: start_def new(1))
  have out: "start_outcome [] ?ids r err r'"
    using start_loop_outcome [of r ?ps env] new(1,4,5) run by simp
  have plan: "rt_plan r' = rt_plan r" using start_loop_frame [of env ?ps r] run by simp
  show ?thesis
  proof (cases err)
    case None
    have "c \<in> set ?ids" if "enabled_by_id settings c" for c
      using that by (cases c) (simp_all add: COMPONENT_ORDER_def)
    moreover have "start other r' = (None, r')"
      using out start_loop_none [of ?ps other r'] new(4) plan
      by (cases "?ids = []") (auto simp: start_def start_outcome_def None)
    ultimately show ?thesis using out new(2) by (auto simp: start_outcome_def None)
  next
    case (Some e)
    then show ?thesis using out new(2) by (simp add: start_outcome_def)
  qed
qed

text \<open>
  C16. Stopping reaches every component. After a successful start, \<open>stop\<close> calls each started
  component once, in reverse order, even when some of them raise; each ends stopped or failed,
  the error names the first one that raised, and stopping again calls nothing.
\<close>

theorem stop_reaches_all:
  assumes "new_runtime (build_runtime_plan settings) components = Inr r"
    and "start env r = (None, r1)" and "stop env' r1 = (err, r2)"
  shows "\<exists>os. map fst os = rev (filter (enabled_by_id settings) COMPONENT_ORDER) \<and>
    rt_calls r2 = rt_calls r1 @ stopped_calls os \<and> rt_started r2 = [] \<and>
    (\<forall>(c, ok) \<in> set os. dict_get (rt_lifecycle r2) c = Some (if ok then STOPPED else FAILED)) \<and>
    err = map_option ComponentShutdownError (first_failure os) \<and> stop other r2 = (None, r2)"
proof -
  note new = new_runtime_fields [OF assms(1)]
  let ?ps = "rp_components (rt_plan r)" and ?ids = "filter (enabled_by_id settings) COMPONENT_ORDER"
  have "start_loop env ?ps r = (None, r1)" using assms(2) by (simp add: start_def new(1))
  then have started: "rt_started r1 = ?ids"
    using start_loop_outcome [of r ?ps env] new(1,4,5) by (simp add: start_outcome_def)
  then have distinct: "distinct (rt_started r1)" using new(5) by simp
  have stop: "err = map_option ComponentShutdownError (fst (stop_loop env' None r1))"
    "r2 = snd (stop_loop env' None r1)"
    using assms(3) by (auto simp: stop_def case_prod_beta)
  obtain os where os: "map fst os = rev ?ids" "fst (stop_loop env' None r1) = first_failure os"
    "rt_started r2 = []" "rt_calls r2 = rt_calls r1 @ stopped_calls os"
    "\<forall>c. dict_get (rt_lifecycle r2) c = (case map_of os c of None \<Rightarrow> dict_get (rt_lifecycle r1) c
        | Some ok \<Rightarrow> Some (if ok then STOPPED else FAILED))"
    using stop_loop_spec [OF distinct, of env' None] unfolding stop(2) [symmetric] started by auto
  have "distinct (map fst os)" using new(5) os(1) by simp
  then have "dict_get (rt_lifecycle r2) c = Some (if ok then STOPPED else FAILED)"
    if "(c, ok) \<in> set os" for c ok
    using that os(5) by simp
  moreover have "stop other r2 = (None, r2)"
    by (simp add: stop_def stop_loop.simps [of other None r2] os(3))
  ultimately show ?thesis using os(1-4) stop(1) by (intro exI [of _ os]) auto
qed

text \<open>The worst of a list of states, by the severity that the aggregation is meant to follow.\<close>

primrec severity :: "ComponentHealthState \<Rightarrow> nat" where
  "severity H_DISABLED = 0"
| "severity H_HEALTHY = 0"
| "severity H_UNKNOWN = 1"
| "severity H_DEGRADED = 2"
| "severity H_UNHEALTHY = 3"

primrec overall_severity :: "OverallHealthState \<Rightarrow> nat" where
  "overall_severity O_DISABLED = 0"
| "overall_severity O_HEALTHY = 0"
| "overall_severity O_UNKNOWN = 1"
| "overall_severity O_DEGRADED = 2"
| "overall_severity O_UNHEALTHY = 3"

definition effective_state ::
  "(ComponentId, ComponentHealthReport) dict \<Rightarrow> (ComponentId, ComponentLifecycleState) dict \<Rightarrow>
     ComponentPlan \<Rightarrow> ComponentHealthState" where
  "effective_state reports lifecycle p =
     (if dict_get lifecycle (cp_component_id p) = Some FAILED then H_UNHEALTHY
      else case dict_get reports (cp_component_id p) of None \<Rightarrow> H_UNKNOWN | Some r \<Rightarrow> chr_state r)"

lemma health_states_eq:
  "health_states reports lifecycle ps =
     (if \<exists>p \<in> set ps. dict_get lifecycle (cp_component_id p) = Some FAILED then None
      else Some (map (effective_state reports lifecycle) ps))"
  by (induction ps) (auto simp: effective_state_def)

definition aggregate :: "ComponentHealthState list \<Rightarrow> OverallHealthState" where
  "aggregate xs =
     (if H_UNHEALTHY \<in> set xs then O_UNHEALTHY else if H_DEGRADED \<in> set xs then O_DEGRADED
      else if H_UNKNOWN \<in> set xs then O_UNKNOWN else O_HEALTHY)"

lemma aggregate_severity: "overall_severity (aggregate xs) = Max (insert 0 (severity ` set xs))"
proof (induction xs)
  case (Cons x xs)
  have "overall_severity (aggregate (x # xs)) = max (severity x) (overall_severity (aggregate xs))"
    by (cases x) (auto simp: aggregate_def)
  also have "\<dots> = Max (insert 0 (severity ` set (x # xs)))"
    unfolding Cons by (simp add: insert_commute [of 0])
  finally show ?case .
qed (simp add: aggregate_def)

lemma derive_aggregate:
  "derive_overall_health plans reports lifecycle =
     (if filter cp_enabled plans = [] then O_DISABLED
      else aggregate (map (effective_state reports lifecycle) (filter cp_enabled plans)))"
proof (cases "\<exists>p \<in> set (filter cp_enabled plans). dict_get lifecycle (cp_component_id p) = Some FAILED")
  case True
  then obtain p where p: "p \<in> set (filter cp_enabled plans)" "effective_state reports lifecycle p = H_UNHEALTHY"
    by (auto simp: effective_state_def)
  then have "H_UNHEALTHY \<in> set (map (effective_state reports lifecycle) (filter cp_enabled plans))"
    by (metis image_eqI set_map)
  then show ?thesis using True unfolding derive_overall_health_def health_states_eq aggregate_def Let_def
    by simp
next
  case False
  then show ?thesis unfolding derive_overall_health_def health_states_eq aggregate_def Let_def by simp
qed

text \<open>
  C39. The overall health is the worst state of an enabled component, where a failed lifecycle
  counts as unhealthy and a missing report as unknown; it is \<open>DISABLED\<close> exactly when nothing is
  enabled. The early return of the code does not change this.
\<close>

theorem overall_health_is_worst:
  "(derive_overall_health plans reports lifecycle = O_DISABLED \<longleftrightarrow> filter cp_enabled plans = []) \<and>
   overall_severity (derive_overall_health plans reports lifecycle) =
     Max (insert 0 (set (map (\<lambda>p. severity (effective_state reports lifecycle p)) (filter cp_enabled plans))))"
proof -
  have "aggregate xs \<noteq> O_DISABLED" for xs by (simp add: aggregate_def)
  then show ?thesis
    unfolding derive_aggregate using aggregate_severity
    by (cases "filter cp_enabled plans = []") (simp_all add: image_image del: set_filter)
qed

text \<open>Example: WLED and DDP are enabled; \<open>sample_components\<close> lets every call return.\<close>

definition sample_runtime_settings :: AuroraSettings where
  "sample_runtime_settings = default_aurora_settings
     \<lparr>ar_wled := default_wled\<lparr>ws_enabled := True, ws_host := Some ''wled''\<rparr>,
      ar_ddp := \<lparr>dd_enabled = True, dd_host = Some ''ddp'', dd_port = Some 4048\<rparr>\<rparr>"

definition sample_components :: component_env where
  "sample_components = \<lparr>ce_start = (\<lambda>_ _. True), ce_stop = (\<lambda>_ _. True), ce_health = (\<lambda>_ _. None)\<rparr>"

lemma sample_runtime_enabled:
  "filter (enabled_by_id sample_runtime_settings) COMPONENT_ORDER = [WLED, DDP]"
  by (simp add: COMPONENT_ORDER_def sample_runtime_settings_def default_aurora_settings_def
      default_wled_def default_hyperhdr_def)

lemma sample_runtime_new:
  "\<exists>r. new_runtime (build_runtime_plan sample_runtime_settings) [DDP, WLED] = Inr r \<and> rt_components r = [DDP, WLED]"
  "\<exists>r. new_runtime (build_runtime_plan sample_runtime_settings) [WLED] = Inr r \<and> rt_components r = [WLED]"
  by (simp_all add: new_runtime_def)

theorem start_all_or_nothing_witness:
  "\<exists>r err r'. new_runtime (build_runtime_plan sample_runtime_settings) [WLED] = Inr r \<and>
     start sample_components r = (err, r') \<and> rt_components r = [WLED] \<and>
     (err = None \<longrightarrow> rt_started r' = [WLED, DDP]) \<and> (err \<noteq> None \<longrightarrow> rt_started r' = [])"
proof -
  obtain r where r: "new_runtime (build_runtime_plan sample_runtime_settings) [WLED] = Inr r"
    "rt_components r = [WLED]" using sample_runtime_new(2) by blast
  obtain err r' where run: "start sample_components r = (err, r')" by fastforce
  from start_all_or_nothing [OF r(1) run] r run show ?thesis
    by (cases err) (auto simp: sample_runtime_enabled)
qed

lemma sample_runtime_starts:
  assumes "new_runtime (build_runtime_plan sample_runtime_settings) [DDP, WLED] = Inr r"
    and "rt_components r = [DDP, WLED]"
  shows "\<exists>r1. start sample_components r = (None, r1)"
proof -
  note new = new_runtime_fields [OF assms(1)]
  have "fst (start_loop sample_components ps x) = None" if "rt_components x = [DDP, WLED]"
    "set (enabled_ids ps) \<subseteq> {DDP, WLED}" for ps x
    using that
  proof (induction ps arbitrary: x)
    case (Cons p ps)
    then show ?case by (auto simp: Let_def sample_components_def split: if_splits)
  qed simp
  from this [of r "rp_components (rt_plan r)"] show ?thesis
    using assms(2) new(1,4) sample_runtime_enabled
    by (cases "start sample_components r") (simp add: start_def)
qed

theorem stop_reaches_all_witness:
  "\<exists>r r1 err r2 os. new_runtime (build_runtime_plan sample_runtime_settings) [DDP, WLED] = Inr r \<and>
     start sample_components r = (None, r1) \<and> stop sample_components r1 = (err, r2) \<and>
     map fst os = [DDP, WLED] \<and> rt_calls r2 = rt_calls r1 @ stopped_calls os \<and> rt_started r2 = []"
proof -
  obtain r where r: "new_runtime (build_runtime_plan sample_runtime_settings) [DDP, WLED] = Inr r"
    "rt_components r = [DDP, WLED]" using sample_runtime_new(1) by blast
  obtain r1 where start: "start sample_components r = (None, r1)" using sample_runtime_starts [OF r] by blast
  obtain err r2 where stop: "stop sample_components r1 = (err, r2)" by fastforce
  from stop_reaches_all [OF r(1) start stop, where other = sample_components] obtain os where
    "map fst os = [DDP, WLED]" "rt_calls r2 = rt_calls r1 @ stopped_calls os" "rt_started r2 = []"
    unfolding sample_runtime_enabled rev.simps append.simps by (elim exE conjE)
  with r(1) start stop show ?thesis
    by (rule_tac x = r in exI, rule_tac x = r1 in exI, rule_tac x = err in exI,
        rule_tac x = r2 in exI, rule_tac x = os in exI) simp
qed

end
