(* ===== verification/Health_Types.thy ===== *)
theory Health_Types
  imports Aurora_Prelude
begin

text \<open>
  \<open>health_history/models.py\<close>: the closed vocabularies of the health history and the bounds of its
  stored numbers. Every vocabulary is a string enumeration; its \<open>value\<close> is what the code stores, and
  calling the enumeration on a text is the partial inverse, which raises on any other text.
\<close>

section \<open>Bounds\<close>

definition APPLICATION_ID :: int where "APPLICATION_ID = 0x41555248"
definition SCHEMA_VERSION :: int where "SCHEMA_VERSION = 1"
definition PROJECTION_DIGEST_BYTES :: nat where "PROJECTION_DIGEST_BYTES = 32"
definition MAX_TIMESTAMP_US :: int where "MAX_TIMESTAMP_US = 2 ^ 63 - 1"
definition MAX_SERVICE_UPTIME_MS :: int where "MAX_SERVICE_UPTIME_MS = 31536000000000"
definition MAX_COMPONENT_LATENCY_MS :: int where "MAX_COMPONENT_LATENCY_MS = 300000"
definition MAX_BOUNDED_COUNTER :: int where "MAX_BOUNDED_COUNTER = 65535"
definition MAX_OBSERVATION_SEQUENCE :: int where "MAX_OBSERVATION_SEQUENCE = 2 ^ 63 - 1"
definition REPLAY_LEDGER_CAPACITY :: nat where "REPLAY_LEDGER_CAPACITY = 64"

named_theorems bounds "the numeric bounds of the health history"

lemmas history_bounds [bounds] =
  MAX_TIMESTAMP_US_def MAX_SERVICE_UPTIME_MS_def MAX_COMPONENT_LATENCY_MS_def
  MAX_BOUNDED_COUNTER_def MAX_OBSERVATION_SEQUENCE_def

lemma bounds_pos [simp]:
  "0 \<le> MAX_TIMESTAMP_US" "0 \<le> MAX_BOUNDED_COUNTER" "1 \<le> MAX_BOUNDED_COUNTER"
  "0 < MAX_BOUNDED_COUNTER" "0 \<le> MAX_OBSERVATION_SEQUENCE"
  by (simp_all add: bounds)

section \<open>Vocabularies\<close>

datatype ComponentName = CN_WLED | CN_HYPERHDR | CN_CAPTURE | CN_RASPBERRY_PI

definition HISTORY_COMPONENT_ORDER :: "ComponentName list" where
  "HISTORY_COMPONENT_ORDER = [CN_WLED, CN_HYPERHDR, CN_CAPTURE, CN_RASPBERRY_PI]"

datatype HealthHistoryStatus = HH_HEALTHY | HH_DEGRADED | HH_UNAVAILABLE

datatype SampleKind = SK_TRANSITION | SK_HEARTBEAT | SK_STARTUP_GAP | SK_CLOCK_DISCONTINUITY

datatype AlertScope =
  AS_OVERALL | AS_WLED | AS_HYPERHDR | AS_CAPTURE | AS_RASPBERRY_PI | AS_SAMPLING

datatype AlertKind = AK_DEGRADED | AK_UNAVAILABLE | AK_SAMPLING_GAP

datatype AlertLifecycle = AL_OPEN | AL_ACKNOWLEDGED | AL_RECOVERED | AL_ARCHIVED

datatype LifecycleEvent =
  LE_OPENED | LE_OCCURRENCE_UPDATED | LE_ACKNOWLEDGED | LE_RECOVERED | LE_ARCHIVED

datatype SamplingGapPhase = GP_CLEAR | GP_CANDIDATE_ONE | GP_ACTIVE | GP_RECOVERY_ONE

section \<open>Stored values\<close>

fun component_value :: "ComponentName \<Rightarrow> string" where
  "component_value CN_WLED = ''wled''"
| "component_value CN_HYPERHDR = ''hyperhdr''"
| "component_value CN_CAPTURE = ''capture''"
| "component_value CN_RASPBERRY_PI = ''raspberry_pi''"

fun status_value :: "HealthHistoryStatus \<Rightarrow> string" where
  "status_value HH_HEALTHY = ''healthy''"
| "status_value HH_DEGRADED = ''degraded''"
| "status_value HH_UNAVAILABLE = ''unavailable''"

fun sample_kind_value :: "SampleKind \<Rightarrow> string" where
  "sample_kind_value SK_TRANSITION = ''transition''"
| "sample_kind_value SK_HEARTBEAT = ''heartbeat''"
| "sample_kind_value SK_STARTUP_GAP = ''startup_gap''"
| "sample_kind_value SK_CLOCK_DISCONTINUITY = ''clock_discontinuity''"

fun scope_value :: "AlertScope \<Rightarrow> string" where
  "scope_value AS_OVERALL = ''overall''"
| "scope_value AS_WLED = ''wled''"
| "scope_value AS_HYPERHDR = ''hyperhdr''"
| "scope_value AS_CAPTURE = ''capture''"
| "scope_value AS_RASPBERRY_PI = ''raspberry_pi''"
| "scope_value AS_SAMPLING = ''sampling''"

fun alert_kind_value :: "AlertKind \<Rightarrow> string" where
  "alert_kind_value AK_DEGRADED = ''degraded''"
| "alert_kind_value AK_UNAVAILABLE = ''unavailable''"
| "alert_kind_value AK_SAMPLING_GAP = ''sampling_gap''"

fun lifecycle_value :: "AlertLifecycle \<Rightarrow> string" where
  "lifecycle_value AL_OPEN = ''open''"
| "lifecycle_value AL_ACKNOWLEDGED = ''acknowledged''"
| "lifecycle_value AL_RECOVERED = ''recovered''"
| "lifecycle_value AL_ARCHIVED = ''archived''"

fun event_value :: "LifecycleEvent \<Rightarrow> string" where
  "event_value LE_OPENED = ''opened''"
| "event_value LE_OCCURRENCE_UPDATED = ''occurrence_updated''"
| "event_value LE_ACKNOWLEDGED = ''acknowledged''"
| "event_value LE_RECOVERED = ''recovered''"
| "event_value LE_ARCHIVED = ''archived''"

fun gap_phase_value :: "SamplingGapPhase \<Rightarrow> string" where
  "gap_phase_value GP_CLEAR = ''clear''"
| "gap_phase_value GP_CANDIDATE_ONE = ''candidate_one''"
| "gap_phase_value GP_ACTIVE = ''active''"
| "gap_phase_value GP_RECOVERY_ONE = ''recovery_one''"

text \<open>Calling a string enumeration on a text: the member with that value, or \<open>ValueError\<close>.\<close>

definition member_of :: "'a list \<Rightarrow> ('a \<Rightarrow> string) \<Rightarrow> string \<Rightarrow> 'a option" where
  "member_of members val s = find (\<lambda>m. val m = s) members"

definition ALL_SCOPES :: "AlertScope list" where
  "ALL_SCOPES =
     [AS_OVERALL, AS_WLED, AS_HYPERHDR, AS_CAPTURE, AS_RASPBERRY_PI, AS_SAMPLING]"

definition component_of :: "string \<Rightarrow> ComponentName option" where
  "component_of = member_of HISTORY_COMPONENT_ORDER component_value"

definition status_of :: "string \<Rightarrow> HealthHistoryStatus option" where
  "status_of = member_of [HH_HEALTHY, HH_DEGRADED, HH_UNAVAILABLE] status_value"

definition sample_kind_of :: "string \<Rightarrow> SampleKind option" where
  "sample_kind_of =
     member_of [SK_TRANSITION, SK_HEARTBEAT, SK_STARTUP_GAP, SK_CLOCK_DISCONTINUITY]
       sample_kind_value"

definition scope_of :: "string \<Rightarrow> AlertScope option" where
  "scope_of = member_of ALL_SCOPES scope_value"

definition alert_kind_of :: "string \<Rightarrow> AlertKind option" where
  "alert_kind_of = member_of [AK_DEGRADED, AK_UNAVAILABLE, AK_SAMPLING_GAP] alert_kind_value"

definition lifecycle_of :: "string \<Rightarrow> AlertLifecycle option" where
  "lifecycle_of =
     member_of [AL_OPEN, AL_ACKNOWLEDGED, AL_RECOVERED, AL_ARCHIVED] lifecycle_value"

definition gap_phase_of :: "string \<Rightarrow> SamplingGapPhase option" where
  "gap_phase_of =
     member_of [GP_CLEAR, GP_CANDIDATE_ONE, GP_ACTIVE, GP_RECOVERY_ONE] gap_phase_value"

lemma member_of_Some: "member_of members val s = Some m \<Longrightarrow> m \<in> set members \<and> val m = s"
  unfolding member_of_def by (induction members) (auto split: if_splits)

named_theorems vocab "reading back a stored value"

lemma vocab_roundtrip [vocab, simp]:
  "component_of (component_value c) = Some c"
  "status_of (status_value h) = Some h"
  "sample_kind_of (sample_kind_value k) = Some k"
  "scope_of (scope_value s) = Some s"
  "alert_kind_of (alert_kind_value a) = Some a"
  "lifecycle_of (lifecycle_value l) = Some l"
  "gap_phase_of (gap_phase_value g) = Some g"
  subgoal by (cases c) (simp_all add: component_of_def member_of_def HISTORY_COMPONENT_ORDER_def)
  subgoal by (cases h) (simp_all add: status_of_def member_of_def)
  subgoal by (cases k) (simp_all add: sample_kind_of_def member_of_def)
  subgoal by (cases s) (simp_all add: scope_of_def member_of_def ALL_SCOPES_def)
  subgoal by (cases a) (simp_all add: alert_kind_of_def member_of_def)
  subgoal by (cases l) (simp_all add: lifecycle_of_def member_of_def)
  subgoal by (cases g) (simp_all add: gap_phase_of_def member_of_def)
  done

lemma vocab_read:
  "scope_of x = Some s \<longleftrightarrow> x = scope_value s"
  "alert_kind_of x = Some a \<longleftrightarrow> x = alert_kind_value a"
  "lifecycle_of x = Some l \<longleftrightarrow> x = lifecycle_value l"
  "status_of x = Some h \<longleftrightarrow> x = status_value h"
  "sample_kind_of x = Some k \<longleftrightarrow> x = sample_kind_value k"
  "gap_phase_of x = Some g \<longleftrightarrow> x = gap_phase_value g"
  "component_of x = Some c \<longleftrightarrow> x = component_value c"
  using vocab_roundtrip
  by (auto simp: scope_of_def alert_kind_of_def lifecycle_of_def status_of_def
      sample_kind_of_def gap_phase_of_def component_of_def dest: member_of_Some)

lemma vocab_inj [simp]:
  "scope_value s = scope_value s' \<longleftrightarrow> s = s'"
  "alert_kind_value a = alert_kind_value a' \<longleftrightarrow> a = a'"
  "lifecycle_value l = lifecycle_value l' \<longleftrightarrow> l = l'"
  "status_value h = status_value h' \<longleftrightarrow> h = h'"
  "sample_kind_value k = sample_kind_value k' \<longleftrightarrow> k = k'"
  "gap_phase_value g = gap_phase_value g' \<longleftrightarrow> g = g'"
  "component_value c = component_value c' \<longleftrightarrow> c = c'"
  by (metis option.inject vocab_roundtrip)+

end
