(* ===== verification/Health_Evaluation.thy ===== *)
theory Health_Evaluation
  imports Health_Types
begin

text \<open>
  \<open>health_history/evaluation.py\<close>: the evaluator of one health scope. Its dataclasses check
  themselves when they are built, so building one returns the \<open>ValueError\<close> code or the value, and
  the evaluator's result carries that error; the flags and statuses are typed here, so only the
  checks on their values are left.
\<close>

section \<open>States and inputs\<close>

definition DEGRADED_OPEN_THRESHOLD :: int where "DEGRADED_OPEN_THRESHOLD = 3"
definition UNAVAILABLE_OPEN_THRESHOLD :: int where "UNAVAILABLE_OPEN_THRESHOLD = 2"
definition HEALTHY_RECOVERY_THRESHOLD :: int where "HEALTHY_RECOVERY_THRESHOLD = 2"

lemmas thresholds [bounds] =
  DEGRADED_OPEN_THRESHOLD_def UNAVAILABLE_OPEN_THRESHOLD_def HEALTHY_RECOVERY_THRESHOLD_def

datatype HealthEvaluationEvent = HE_NONE | HE_CONDITION_CONFIRMED | HE_RECOVERY_CONFIRMED

type_synonym value_error = string

record HealthEvaluationState =
  hs_current_status :: "HealthHistoryStatus option"
  hs_candidate_status :: "HealthHistoryStatus option"
  hs_consecutive_count :: int

definition make_evaluation_state ::
  "HealthHistoryStatus option \<Rightarrow> HealthHistoryStatus option \<Rightarrow> int
    \<Rightarrow> value_error + HealthEvaluationState" where
  "make_evaluation_state current candidate n =
     (if \<not> (0 \<le> n \<and> n \<le> MAX_BOUNDED_COUNTER) then Inl ''invalid_consecutive_count''
      else if (candidate = None) \<noteq> (n = 0) then Inl ''inconsistent_candidate_count''
      else if candidate \<noteq> None \<and> candidate \<noteq> current then Inl ''inconsistent_candidate_status''
      else if current = None \<and> (candidate \<noteq> None \<or> n \<noteq> 0) then Inl ''inconsistent_current_status''
      else Inr \<lparr>hs_current_status = current, hs_candidate_status = candidate,
                 hs_consecutive_count = n\<rparr>)"

definition initial_evaluation :: HealthEvaluationState where
  "initial_evaluation =
     \<lparr>hs_current_status = None, hs_candidate_status = None, hs_consecutive_count = 0\<rparr>"

record HealthEvaluationInput =
  hi_status :: HealthHistoryStatus
  hi_intentional_disabled :: bool
  hi_active_health_alert :: bool
  hi_persistence_succeeded :: bool

definition make_evaluation_input ::
  "HealthHistoryStatus \<Rightarrow> bool \<Rightarrow> bool \<Rightarrow> bool \<Rightarrow> value_error + HealthEvaluationInput" where
  "make_evaluation_input status disabled active persisted =
     (if disabled \<and> status = HH_HEALTHY then Inl ''inconsistent_disabled_status''
      else Inr \<lparr>hi_status = status, hi_intentional_disabled = disabled,
                 hi_active_health_alert = active, hi_persistence_succeeded = persisted\<rparr>)"

record HealthEvaluationTransition =
  ht_previous :: HealthEvaluationState
  ht_state :: HealthEvaluationState
  ht_event :: HealthEvaluationEvent

definition health_mutated :: "HealthEvaluationTransition \<Rightarrow> bool" where
  "health_mutated t = (ht_state t \<noteq> ht_previous t)"

text \<open>A transition to a state that is still to be built.\<close>

definition health_transition ::
  "HealthEvaluationState \<Rightarrow> value_error + HealthEvaluationState \<Rightarrow> HealthEvaluationEvent
    \<Rightarrow> value_error + HealthEvaluationTransition" where
  "health_transition previous updated event =
     map_sum id (\<lambda>s. \<lparr>ht_previous = previous, ht_state = s, ht_event = event\<rparr>) updated"

section \<open>The evaluator\<close>

definition bumped_count ::
  "HealthEvaluationState \<Rightarrow> HealthHistoryStatus \<Rightarrow> int" where
  "bumped_count state status =
     (if hs_candidate_status state = Some status
      then min (hs_consecutive_count state + 1) MAX_BOUNDED_COUNTER else 1)"

definition evaluate_healthy ::
  "HealthEvaluationState \<Rightarrow> bool \<Rightarrow> value_error + HealthEvaluationTransition" where
  "evaluate_healthy state active =
     (if \<not> active
      then health_transition state (make_evaluation_state (Some HH_HEALTHY) None 0) HE_NONE
      else if bumped_count state HH_HEALTHY \<ge> HEALTHY_RECOVERY_THRESHOLD
      then health_transition state (make_evaluation_state (Some HH_HEALTHY) None 0)
             HE_RECOVERY_CONFIRMED
      else health_transition state
             (make_evaluation_state (Some HH_HEALTHY) (Some HH_HEALTHY)
               (bumped_count state HH_HEALTHY)) HE_NONE)"

definition open_threshold :: "HealthHistoryStatus \<Rightarrow> int" where
  "open_threshold status =
     (if status = HH_DEGRADED then DEGRADED_OPEN_THRESHOLD else UNAVAILABLE_OPEN_THRESHOLD)"

definition evaluate_health_state ::
  "HealthEvaluationState \<Rightarrow> HealthEvaluationInput
    \<Rightarrow> value_error + HealthEvaluationTransition" where
  "evaluate_health_state state observation =
     (if \<not> hi_persistence_succeeded observation
      then Inr \<lparr>ht_previous = state, ht_state = state, ht_event = HE_NONE\<rparr>
      else if hi_intentional_disabled observation
      then health_transition state
             (make_evaluation_state (Some (hi_status observation)) None 0) HE_NONE
      else if hi_status observation = HH_HEALTHY
      then evaluate_healthy state (hi_active_health_alert observation)
      else
        let count = bumped_count state (hi_status observation)
        in health_transition state
             (make_evaluation_state (Some (hi_status observation)) (Some (hi_status observation))
               count)
             (if count \<ge> open_threshold (hi_status observation)
              then HE_CONDITION_CONFIRMED else HE_NONE))"

section \<open>Valid states\<close>

definition evaluation_valid :: "HealthEvaluationState \<Rightarrow> bool" where
  "evaluation_valid s \<longleftrightarrow>
     make_evaluation_state (hs_current_status s) (hs_candidate_status s) (hs_consecutive_count s)
       = Inr s"

lemma make_evaluation_state_Inr:
  "make_evaluation_state c d n = Inr s \<longleftrightarrow>
     0 \<le> n \<and> n \<le> MAX_BOUNDED_COUNTER \<and> (d = None \<longleftrightarrow> n = 0) \<and> (d \<noteq> None \<longrightarrow> d = c) \<and>
     s = \<lparr>hs_current_status = c, hs_candidate_status = d, hs_consecutive_count = n\<rparr>"
  by (auto simp: make_evaluation_state_def)

lemma evaluation_valid_iff:
  "evaluation_valid s \<longleftrightarrow>
     0 \<le> hs_consecutive_count s \<and> hs_consecutive_count s \<le> MAX_BOUNDED_COUNTER \<and>
     (hs_candidate_status s = None \<longleftrightarrow> hs_consecutive_count s = 0) \<and>
     (hs_candidate_status s \<noteq> None \<longrightarrow> hs_candidate_status s = hs_current_status s)"
  by (simp add: evaluation_valid_def make_evaluation_state_Inr)

lemma evaluation_valid_initial [simp]: "evaluation_valid initial_evaluation"
  by (simp add: evaluation_valid_iff initial_evaluation_def)

lemma make_evaluation_state_valid: "make_evaluation_state c d n = Inr s \<Longrightarrow> evaluation_valid s"
  by (auto simp: make_evaluation_state_Inr evaluation_valid_iff)

lemma bumped_count_bounds:
  "evaluation_valid s \<Longrightarrow> 1 \<le> bumped_count s h \<and> bumped_count s h \<le> MAX_BOUNDED_COUNTER"
  by (auto simp: bumped_count_def evaluation_valid_iff)

lemma make_evaluation_state_quiet [simp]:
  "make_evaluation_state (Some h) None 0 =
     Inr \<lparr>hs_current_status = Some h, hs_candidate_status = None, hs_consecutive_count = 0\<rparr>"
  by (simp add: make_evaluation_state_Inr)

lemma make_evaluation_state_counting [simp]:
  "evaluation_valid s \<Longrightarrow>
   make_evaluation_state (Some h) (Some h) (bumped_count s h) =
     Inr \<lparr>hs_current_status = Some h, hs_candidate_status = Some h,
          hs_consecutive_count = bumped_count s h\<rparr>"
  by (drule bumped_count_bounds[of _ h]) (simp add: make_evaluation_state_Inr)

lemma evaluation_valid_built [simp]:
  "evaluation_valid
     \<lparr>hs_current_status = Some h, hs_candidate_status = None, hs_consecutive_count = 0\<rparr>"
  "evaluation_valid s \<Longrightarrow>
   evaluation_valid
     \<lparr>hs_current_status = Some h, hs_candidate_status = Some h,
      hs_consecutive_count = bumped_count s h\<rparr>"
  by (simp add: evaluation_valid_iff)
     (rule make_evaluation_state_valid, erule make_evaluation_state_counting)

abbreviation counting :: "HealthHistoryStatus \<Rightarrow> int \<Rightarrow> HealthEvaluationState" where
  "counting h n \<equiv>
     \<lparr>hs_current_status = Some h, hs_candidate_status = Some h, hs_consecutive_count = n\<rparr>"

abbreviation quiet :: "HealthHistoryStatus \<Rightarrow> HealthEvaluationState" where
  "quiet h \<equiv>
     \<lparr>hs_current_status = Some h, hs_candidate_status = None, hs_consecutive_count = 0\<rparr>"

lemma evaluate_health_eq:
  assumes "evaluation_valid s"
  shows "evaluate_health_state s i =
    (if \<not> hi_persistence_succeeded i
     then Inr \<lparr>ht_previous = s, ht_state = s, ht_event = HE_NONE\<rparr>
     else if hi_intentional_disabled i \<or>
             hi_status i = HH_HEALTHY \<and> \<not> hi_active_health_alert i
     then Inr \<lparr>ht_previous = s, ht_state = quiet (hi_status i), ht_event = HE_NONE\<rparr>
     else if hi_status i = HH_HEALTHY
     then if 2 \<le> bumped_count s HH_HEALTHY
          then Inr \<lparr>ht_previous = s, ht_state = quiet HH_HEALTHY, ht_event = HE_RECOVERY_CONFIRMED\<rparr>
          else Inr \<lparr>ht_previous = s, ht_state = counting HH_HEALTHY (bumped_count s HH_HEALTHY),
                    ht_event = HE_NONE\<rparr>
     else Inr \<lparr>ht_previous = s,
                ht_state = counting (hi_status i) (bumped_count s (hi_status i)),
                ht_event = (if open_threshold (hi_status i) \<le> bumped_count s (hi_status i)
                            then HE_CONDITION_CONFIRMED else HE_NONE)\<rparr>)"
  using make_evaluation_state_counting[OF assms, of HH_HEALTHY]
    make_evaluation_state_counting[OF assms, of "hi_status i"]
  by (simp add: evaluate_health_state_def evaluate_healthy_def health_transition_def Let_def
      HEALTHY_RECOVERY_THRESHOLD_def)

lemma evaluate_health_total:
  assumes "evaluation_valid s"
  obtains t where "evaluate_health_state s i = Inr t" "ht_previous t = s"
    "evaluation_valid (ht_state t)"
proof -
  have "\<exists>t. evaluate_health_state s i = Inr t \<and> ht_previous t = s \<and> evaluation_valid (ht_state t)"
    using assms
    by (simp add: evaluate_health_state_def evaluate_healthy_def health_transition_def Let_def)
  then show thesis using that by blast
qed

section \<open>Streams of observations\<close>

text \<open>Evaluating a scope over a stream: the state after it and the event of every observation.\<close>

fun run_evaluation ::
  "HealthEvaluationState \<Rightarrow> HealthEvaluationInput list
    \<Rightarrow> value_error + HealthEvaluationState \<times> HealthEvaluationEvent list" where
  "run_evaluation s [] = Inr (s, [])"
| "run_evaluation s (i # is) =
     (case evaluate_health_state s i of
        Inl e \<Rightarrow> Inl e
      | Inr t \<Rightarrow> map_sum id (map_prod id ((#) (ht_event t))) (run_evaluation (ht_state t) is))"

text \<open>
  The reference reads the history of persisted observations backwards: how many of the latest ones
  all show the same thing.
\<close>

definition trailing :: "('a \<Rightarrow> bool) \<Rightarrow> 'a list \<Rightarrow> nat" where
  "trailing P xs = length (takeWhile P (rev xs))"

definition shows_condition :: "HealthHistoryStatus \<Rightarrow> HealthEvaluationInput \<Rightarrow> bool" where
  "shows_condition h i \<longleftrightarrow> hi_status i = h \<and> \<not> hi_intentional_disabled i"

definition shows_recovery :: "HealthEvaluationInput \<Rightarrow> bool" where
  "shows_recovery i \<longleftrightarrow>
     hi_status i = HH_HEALTHY \<and> \<not> hi_intentional_disabled i \<and> hi_active_health_alert i"

lemma trailing_simps [simp]:
  "trailing P [] = 0"
  "trailing P (xs @ [x]) = (if P x then Suc (trailing P xs) else 0)"
  by (simp_all add: trailing_def)

definition tracks :: "HealthEvaluationState \<Rightarrow> HealthEvaluationInput list \<Rightarrow> bool" where
  "tracks s history \<longleftrightarrow>
     evaluation_valid s \<and>
     (\<forall>h. h \<noteq> HH_HEALTHY \<longrightarrow>
        (if hs_candidate_status s = Some h then hs_consecutive_count s else 0) =
          min (int (trailing (shows_condition h) history)) MAX_BOUNDED_COUNTER) \<and>
     (hs_candidate_status s = Some HH_HEALTHY \<longleftrightarrow> odd (trailing shows_recovery history)) \<and>
     (hs_candidate_status s = Some HH_HEALTHY \<longrightarrow> hs_consecutive_count s = 1)"

lemma tracks_initial: "tracks initial_evaluation []"
  by (simp add: tracks_def) (simp add: initial_evaluation_def)

definition reference_event ::
  "HealthEvaluationInput list \<Rightarrow> HealthEvaluationInput \<Rightarrow> HealthEvaluationEvent" where
  "reference_event history i =
     (let now = history @ [i]
      in if \<not> hi_persistence_succeeded i then HE_NONE
         else if hi_status i = HH_DEGRADED \<and> 3 \<le> trailing (shows_condition HH_DEGRADED) now
         then HE_CONDITION_CONFIRMED
         else if hi_status i = HH_UNAVAILABLE \<and> 2 \<le> trailing (shows_condition HH_UNAVAILABLE) now
         then HE_CONDITION_CONFIRMED
         else if shows_recovery i \<and> even (trailing shows_recovery now)
         then HE_RECOVERY_CONFIRMED
         else HE_NONE)"

lemma tracks_valid: "tracks s history \<Longrightarrow> evaluation_valid s"
  by (simp add: tracks_def)

lemma bumped_condition:
  assumes "tracks s history" "h \<noteq> HH_HEALTHY"
  shows "bumped_count s h =
    min (int (Suc (trailing (shows_condition h) history))) MAX_BOUNDED_COUNTER"
proof -
  have count: "(if hs_candidate_status s = Some h then hs_consecutive_count s else 0) =
      min (int (trailing (shows_condition h) history)) MAX_BOUNDED_COUNTER"
    using assms by (simp add: tracks_def)
  show ?thesis
  proof (cases "hs_candidate_status s = Some h")
    case True
    then show ?thesis using count by (simp add: bumped_count_def)
  next
    case False
    then have "trailing (shows_condition h) history = 0"
      using count by (simp add: bounds)
    then show ?thesis using False by (simp add: bumped_count_def bounds)
  qed
qed

lemma bumped_recovery:
  assumes "tracks s history"
  shows "bumped_count s HH_HEALTHY = (if odd (trailing shows_recovery history) then 2 else 1)"
  using assms by (auto simp: tracks_def bumped_count_def bounds)

lemma evaluation_event:
  assumes "tracks s history" "evaluate_health_state s i = Inr t"
  shows "ht_event t = reference_event history i"
proof (cases "hi_persistence_succeeded i \<and> \<not> hi_intentional_disabled i")
  case False
  then show ?thesis using assms tracks_valid[OF assms(1)]
    by (auto simp: evaluate_health_eq reference_event_def Let_def
        shows_condition_def shows_recovery_def open_threshold_def bounds)
next
  case True
  note v = tracks_valid[OF assms(1)]
  show ?thesis
  proof (cases "hi_status i = HH_HEALTHY")
    case True
    then show ?thesis using assms \<open>hi_persistence_succeeded i \<and> _\<close> bumped_recovery[OF assms(1)] v
      by (auto simp: evaluate_health_eq
          reference_event_def Let_def shows_recovery_def split: if_splits)
  next
    case False
    then show ?thesis using assms \<open>hi_persistence_succeeded i \<and> _\<close> v
        bumped_condition[OF assms(1) False]
      by (cases "hi_status i") (auto simp: evaluate_health_eq reference_event_def Let_def
          shows_recovery_def shows_condition_def open_threshold_def bounds split: if_splits)
  qed
qed

lemma tracks_step:
  assumes "tracks s history" "evaluate_health_state s i = Inr t"
  shows "tracks (ht_state t) (if hi_persistence_succeeded i then history @ [i] else history)"
proof -
  consider "\<not> hi_persistence_succeeded i" | "hi_persistence_succeeded i" "hi_intentional_disabled i"
    | "hi_persistence_succeeded i" "\<not> hi_intentional_disabled i" "hi_status i = HH_HEALTHY"
    | "hi_persistence_succeeded i" "\<not> hi_intentional_disabled i" "hi_status i \<noteq> HH_HEALTHY"
    by blast
  then show ?thesis
  proof cases
    case 1
    then have "ht_state t = s"
      using assms(2) tracks_valid[OF assms(1)] by (auto simp: evaluate_health_eq)
    then show ?thesis using assms(1) 1 by simp
  next
    case 2
    then show ?thesis using assms(2) tracks_valid[OF assms(1)]
      by (auto simp: evaluate_health_eq tracks_def shows_recovery_def shows_condition_def)
  next
    case 3
    then show ?thesis using assms(2) tracks_valid[OF assms(1)] bumped_recovery[OF assms(1)]
      by (auto simp: evaluate_health_eq tracks_def shows_recovery_def shows_condition_def
          evaluation_valid_iff[of "counting HH_HEALTHY 1"] bounds split: if_splits)
  next
    case 4
    have "evaluation_valid (ht_state t)"
      using evaluate_health_total[OF tracks_valid[OF assms(1)], of i] assms(2) by simp
    then show ?thesis
      using 4 assms(2) tracks_valid[OF assms(1)] bumped_condition[OF assms(1) 4(3)]
      by (auto simp: evaluate_health_eq tracks_def shows_recovery_def shows_condition_def)
  qed
qed

text \<open>The events a stream must have, each read off the observations up to it.\<close>

fun reference_events ::
  "HealthEvaluationInput list \<Rightarrow> HealthEvaluationInput list \<Rightarrow> HealthEvaluationEvent list" where
  "reference_events history [] = []"
| "reference_events history (i # is) =
     reference_event history i #
       reference_events (if hi_persistence_succeeded i then history @ [i] else history) is"

lemma run_evaluation_tracks:
  assumes "tracks s history"
  shows "\<exists>s'. run_evaluation s is = Inr (s', reference_events history is) \<and>
    tracks s' (history @ filter hi_persistence_succeeded is)"
  using assms
proof (induction "is" arbitrary: s history)
  case (Cons i "is")
  obtain t where t: "evaluate_health_state s i = Inr t"
    using evaluate_health_total tracks_valid[OF Cons.prems] by metis
  show ?case
    using Cons.IH[OF tracks_step[OF Cons.prems t]] t evaluation_event[OF Cons.prems t]
    by auto
qed simp

text \<open>
  C28. The evaluator keeps only a status and a counter, yet its decisions are those of the whole
  history. Whatever stream of observations a scope is given, starting from its initial state, no
  state it builds is refused by its own checks, and the event of each observation is the one read
  off the persisted observations so far: a condition is confirmed exactly when the last three
  (degraded) or two (unavailable) of them, this one included, all show it and none was
  intentionally disabled; a recovery exactly when this is the second, fourth, ... consecutive
  healthy one during an active alert; observations that were not persisted change nothing.
\<close>

theorem health_evaluation_reference:
  "\<exists>s. run_evaluation initial_evaluation observations =
         Inr (s, reference_events [] observations) \<and>
       evaluation_valid s"
  using run_evaluation_tracks[OF tracks_initial, of observations] tracks_valid by fastforce

end
