(* ===== verification/Alert_Lifecycle.thy ===== *)
theory Alert_Lifecycle
  imports Health_Evaluation
begin

text \<open>
  \<open>health_history/lifecycle.py\<close>: the automatic life of one alert, from \<open>open\<close> over \<open>recovered\<close> to
  \<open>archived\<close>. As in \<open>Health_Evaluation\<close> a state is built through its own checks, and the evaluator
  carries the \<open>ValueError\<close> a refused state would raise.
\<close>

section \<open>States and requests\<close>

definition ALERT_COOLDOWN_US :: int where "ALERT_COOLDOWN_US = 15 * 60 * 1000000"

lemmas cooldown_bound [bounds] = ALERT_COOLDOWN_US_def

datatype AutomaticAlertOperation = AO_OPEN | AO_RECOVER | AO_ARCHIVE | AO_ESCALATE

datatype AutomaticAlertOutcome = AT_APPLIED | AT_IDEMPOTENT | AT_REJECTED | AT_NOT_PERSISTED

record AutomaticAlertState =
  aa_scope :: AlertScope
  aa_kind :: AlertKind
  aa_lifecycle :: AlertLifecycle
  aa_generation :: int
  aa_occurrence_count :: int
  aa_cooldown_until :: int
  aa_recovered_at :: "int option"

definition alert_state_error :: "AutomaticAlertState \<Rightarrow> value_error option" where
  "alert_state_error a =
     (if \<not> (1 \<le> aa_generation a \<and> aa_generation a \<le> MAX_BOUNDED_COUNTER)
      then Some ''invalid_alert_generation''
      else if \<not> (1 \<le> aa_occurrence_count a \<and> aa_occurrence_count a \<le> MAX_BOUNDED_COUNTER)
      then Some ''invalid_alert_occurrences''
      else if \<not> (0 \<le> aa_cooldown_until a \<and> aa_cooldown_until a \<le> MAX_TIMESTAMP_US)
      then Some ''invalid_alert_cooldown''
      else if (case aa_recovered_at a of None \<Rightarrow> False
               | Some r \<Rightarrow> \<not> (0 \<le> r \<and> r \<le> MAX_TIMESTAMP_US))
      then Some ''invalid_alert_recovery_time''
      else if (aa_lifecycle a \<in> {AL_RECOVERED, AL_ARCHIVED}) \<noteq> (aa_recovered_at a \<noteq> None)
      then Some ''inconsistent_alert_recovery''
      else if (aa_scope a = AS_SAMPLING) \<noteq> (aa_kind a = AK_SAMPLING_GAP)
      then Some ''inconsistent_alert_scope_kind''
      else None)"

text \<open>Building a state, by the constructor or by \<open>replace\<close>.\<close>

definition build_alert :: "AutomaticAlertState \<Rightarrow> value_error + AutomaticAlertState" where
  "build_alert a = (case alert_state_error a of None \<Rightarrow> Inr a | Some e \<Rightarrow> Inl e)"

record AutomaticAlertInput =
  ai_operation :: AutomaticAlertOperation
  ai_scope :: AlertScope
  ai_kind :: AlertKind
  ai_now :: int
  ai_persistence_succeeded :: bool
  ai_escalation_kind :: "AlertKind option"

definition alert_input_error :: "AutomaticAlertInput \<Rightarrow> value_error option" where
  "alert_input_error r =
     (if (ai_scope r = AS_SAMPLING) \<noteq> (ai_kind r = AK_SAMPLING_GAP)
      then Some ''inconsistent_alert_scope_kind''
      else if \<not> (0 \<le> ai_now r \<and> ai_now r \<le> MAX_TIMESTAMP_US) then Some ''invalid_alert_time''
      else if ai_operation r = AO_ESCALATE
      then if ai_escalation_kind r \<noteq> Some AK_UNAVAILABLE then Some ''invalid_escalation_kind''
           else None
      else if ai_escalation_kind r \<noteq> None then Some ''unexpected_escalation_kind''
      else None)"

definition build_alert_input :: "AutomaticAlertInput \<Rightarrow> value_error + AutomaticAlertInput" where
  "build_alert_input r = (case alert_input_error r of None \<Rightarrow> Inr r | Some e \<Rightarrow> Inl e)"

record AutomaticAlertTransition =
  at_previous :: "AutomaticAlertState option"
  at_state :: "AutomaticAlertState option"
  at_created_alert :: "AutomaticAlertState option"
  at_event :: "LifecycleEvent option"
  at_outcome :: AutomaticAlertOutcome

definition alert_mutated :: "AutomaticAlertTransition \<Rightarrow> bool" where
  "alert_mutated t = (at_state t \<noteq> at_previous t \<or> at_created_alert t \<noteq> None)"

section \<open>Transitions\<close>

definition deadline :: "int \<Rightarrow> int" where
  "deadline now = min (now + ALERT_COOLDOWN_US) MAX_TIMESTAMP_US"

definition unchanged ::
  "AutomaticAlertState option \<Rightarrow> AutomaticAlertOutcome \<Rightarrow> AutomaticAlertTransition" where
  "unchanged state outcome =
     \<lparr>at_previous = state, at_state = state, at_created_alert = None, at_event = None,
      at_outcome = outcome\<rparr>"

definition alert_idempotent :: "AutomaticAlertState \<Rightarrow> AutomaticAlertTransition" where
  "alert_idempotent state = unchanged (Some state) AT_IDEMPOTENT"

definition alert_rejected :: "AutomaticAlertState option \<Rightarrow> AutomaticAlertTransition" where
  "alert_rejected state = unchanged state AT_REJECTED"

definition new_alert ::
  "AlertScope \<Rightarrow> AlertKind \<Rightarrow> int \<Rightarrow> int \<Rightarrow> value_error + AutomaticAlertState" where
  "new_alert scope kind now generation =
     build_alert
       \<lparr>aa_scope = scope, aa_kind = kind, aa_lifecycle = AL_OPEN, aa_generation = generation,
        aa_occurrence_count = 1, aa_cooldown_until = deadline now, aa_recovered_at = None\<rparr>"

definition moved_to ::
  "AutomaticAlertState \<Rightarrow> LifecycleEvent \<Rightarrow> AutomaticAlertState \<Rightarrow> AutomaticAlertTransition" where
  "moved_to state event updated =
     \<lparr>at_previous = Some state, at_state = Some updated, at_created_alert = None,
      at_event = Some event, at_outcome = AT_APPLIED\<rparr>"

definition reopened ::
  "AutomaticAlertState \<Rightarrow> AutomaticAlertState \<Rightarrow> AutomaticAlertTransition" where
  "reopened state created =
     \<lparr>at_previous = Some state, at_state = Some state, at_created_alert = Some created,
      at_event = Some LE_OPENED, at_outcome = AT_APPLIED\<rparr>"

definition occurrence_transition ::
  "AutomaticAlertState \<Rightarrow> int \<Rightarrow> value_error + AutomaticAlertTransition" where
  "occurrence_transition state now =
     (case build_alert
             (state\<lparr>aa_occurrence_count := min (aa_occurrence_count state + 1) MAX_BOUNDED_COUNTER,
                    aa_cooldown_until := max (aa_cooldown_until state) (deadline now)\<rparr>) of
        Inl e \<Rightarrow> Inl e
      | Inr updated \<Rightarrow>
          Inr (if updated = state then alert_idempotent state
               else moved_to state LE_OCCURRENCE_UPDATED updated))"

definition open_or_update ::
  "AutomaticAlertState option \<Rightarrow> AutomaticAlertInput \<Rightarrow> value_error + AutomaticAlertTransition"
  where
  "open_or_update alert request =
     (case alert of
        None \<Rightarrow>
          map_sum id
            (\<lambda>opened. \<lparr>at_previous = None, at_state = Some opened, at_created_alert = None,
                      at_event = Some LE_OPENED, at_outcome = AT_APPLIED\<rparr>)
            (new_alert (ai_scope request) (ai_kind request) (ai_now request) 1)
      | Some state \<Rightarrow>
          if aa_lifecycle state \<in> {AL_OPEN, AL_ACKNOWLEDGED}
          then occurrence_transition state (ai_now request)
          else if aa_lifecycle state = AL_RECOVERED \<and> ai_now request < aa_cooldown_until state
          then occurrence_transition state (ai_now request)
          else if aa_generation state = MAX_BOUNDED_COUNTER then Inr (alert_rejected (Some state))
          else map_sum id (reopened state)
                 (new_alert (ai_scope request) (ai_kind request) (ai_now request)
                   (aa_generation state + 1)))"

definition recover :: "AutomaticAlertState \<Rightarrow> int \<Rightarrow> value_error + AutomaticAlertTransition" where
  "recover state now =
     (if aa_lifecycle state \<in> {AL_OPEN, AL_ACKNOWLEDGED}
      then map_sum id (moved_to state LE_RECOVERED)
             (build_alert
               (state\<lparr>aa_lifecycle := AL_RECOVERED, aa_recovered_at := Some now,
                      aa_cooldown_until := max (aa_cooldown_until state) (deadline now)\<rparr>))
      else if aa_lifecycle state \<in> {AL_RECOVERED, AL_ARCHIVED} then Inr (alert_idempotent state)
      else Inr (alert_rejected (Some state)))"

definition archive :: "AutomaticAlertState \<Rightarrow> int \<Rightarrow> value_error + AutomaticAlertTransition" where
  "archive state now =
     (if aa_lifecycle state = AL_ARCHIVED then Inr (alert_idempotent state)
      else if aa_lifecycle state \<noteq> AL_RECOVERED \<or> now < aa_cooldown_until state
      then Inr (alert_rejected (Some state))
      else map_sum id (moved_to state LE_ARCHIVED)
             (build_alert (state\<lparr>aa_lifecycle := AL_ARCHIVED\<rparr>)))"

definition escalate ::
  "AutomaticAlertState \<Rightarrow> AutomaticAlertInput \<Rightarrow> value_error + AutomaticAlertTransition" where
  "escalate state request =
     (if aa_lifecycle state \<notin> {AL_OPEN, AL_ACKNOWLEDGED} \<or> aa_kind state \<noteq> AK_DEGRADED \<or>
         ai_escalation_kind request \<noteq> Some AK_UNAVAILABLE \<or>
         aa_generation state = MAX_BOUNDED_COUNTER
      then Inr (alert_rejected (Some state))
      else map_sum id (reopened state)
             (new_alert (aa_scope state) AK_UNAVAILABLE (ai_now request)
               (aa_generation state + 1)))"

definition evaluate_automatic_alert ::
  "AutomaticAlertState option \<Rightarrow> AutomaticAlertInput \<Rightarrow> value_error + AutomaticAlertTransition"
  where
  "evaluate_automatic_alert alert request =
     (if \<not> ai_persistence_succeeded request then Inr (unchanged alert AT_NOT_PERSISTED)
      else if (case alert of None \<Rightarrow> False
               | Some s \<Rightarrow> (aa_scope s, aa_kind s) \<noteq> (ai_scope request, ai_kind request))
      then Inr (alert_rejected alert)
      else if ai_operation request = AO_OPEN then open_or_update alert request
      else case alert of
             None \<Rightarrow> Inr (alert_rejected None)
           | Some state \<Rightarrow>
               if ai_operation request = AO_RECOVER then recover state (ai_now request)
               else if ai_operation request = AO_ARCHIVE then archive state (ai_now request)
               else escalate state request)"

section \<open>Valid alerts\<close>

abbreviation alert_valid :: "AutomaticAlertState \<Rightarrow> bool" where
  "alert_valid a \<equiv> alert_state_error a = None"

abbreviation request_valid :: "AutomaticAlertInput \<Rightarrow> bool" where
  "request_valid r \<equiv> alert_input_error r = None"

abbreviation live :: "AlertLifecycle \<Rightarrow> bool" where
  "live l \<equiv> l \<in> {AL_OPEN, AL_ACKNOWLEDGED}"

lemma alert_valid_iff:
  "alert_valid a \<longleftrightarrow>
     1 \<le> aa_generation a \<and> aa_generation a \<le> MAX_BOUNDED_COUNTER \<and>
     1 \<le> aa_occurrence_count a \<and> aa_occurrence_count a \<le> MAX_BOUNDED_COUNTER \<and>
     0 \<le> aa_cooldown_until a \<and> aa_cooldown_until a \<le> MAX_TIMESTAMP_US \<and>
     (\<forall>r. aa_recovered_at a = Some r \<longrightarrow> 0 \<le> r \<and> r \<le> MAX_TIMESTAMP_US) \<and>
     (aa_recovered_at a = None \<longleftrightarrow> live (aa_lifecycle a)) \<and>
     (aa_scope a = AS_SAMPLING \<longleftrightarrow> aa_kind a = AK_SAMPLING_GAP)"
  by (cases "aa_lifecycle a"; cases "aa_recovered_at a") (auto simp: alert_state_error_def)

lemma request_valid_iff:
  "request_valid r \<longleftrightarrow>
     (ai_scope r = AS_SAMPLING \<longleftrightarrow> ai_kind r = AK_SAMPLING_GAP) \<and>
     0 \<le> ai_now r \<and> ai_now r \<le> MAX_TIMESTAMP_US \<and>
     ai_escalation_kind r = (if ai_operation r = AO_ESCALATE then Some AK_UNAVAILABLE else None)"
  by (auto simp: alert_input_error_def)

lemma build_alert_Inr [simp]: "build_alert a = Inr b \<longleftrightarrow> alert_valid a \<and> b = a"
  by (auto simp: build_alert_def split: option.splits)

lemma build_alert_valid [simp]: "alert_valid a \<Longrightarrow> build_alert a = Inr a"
  by simp

lemma deadline_bounds: "0 \<le> now \<Longrightarrow> 0 \<le> deadline now \<and> deadline now \<le> MAX_TIMESTAMP_US"
  by (simp add: deadline_def bounds)

lemma deadline_mono: "t \<le> u \<Longrightarrow> deadline t \<le> deadline u"
  by (simp add: deadline_def)

text \<open>The states the operations build, none of them refused.\<close>

abbreviation opened_alert :: "AlertScope \<Rightarrow> AlertKind \<Rightarrow> int \<Rightarrow> int \<Rightarrow> AutomaticAlertState" where
  "opened_alert scope kind now generation \<equiv>
     \<lparr>aa_scope = scope, aa_kind = kind, aa_lifecycle = AL_OPEN, aa_generation = generation,
      aa_occurrence_count = 1, aa_cooldown_until = deadline now, aa_recovered_at = None\<rparr>"

abbreviation touched :: "AutomaticAlertState \<Rightarrow> int \<Rightarrow> AutomaticAlertState" where
  "touched a now \<equiv>
     a\<lparr>aa_occurrence_count := min (aa_occurrence_count a + 1) MAX_BOUNDED_COUNTER,
       aa_cooldown_until := max (aa_cooldown_until a) (deadline now)\<rparr>"

abbreviation recovered_alert :: "AutomaticAlertState \<Rightarrow> int \<Rightarrow> AutomaticAlertState" where
  "recovered_alert a now \<equiv>
     a\<lparr>aa_lifecycle := AL_RECOVERED, aa_recovered_at := Some now,
       aa_cooldown_until := max (aa_cooldown_until a) (deadline now)\<rparr>"

lemma opened_alert_valid:
  assumes "0 \<le> now" "scope = AS_SAMPLING \<longleftrightarrow> kind = AK_SAMPLING_GAP"
    "1 \<le> generation" "generation \<le> MAX_BOUNDED_COUNTER"
  shows "alert_valid (opened_alert scope kind now generation)"
  using assms deadline_bounds[OF assms(1)] by (simp add: alert_valid_iff)

lemma touched_valid: "alert_valid a \<Longrightarrow> 0 \<le> now \<Longrightarrow> alert_valid (touched a now)"
  using deadline_bounds[of now] by (auto simp: alert_valid_iff)

lemma recovered_alert_valid:
  "alert_valid a \<Longrightarrow> 0 \<le> now \<Longrightarrow> now \<le> MAX_TIMESTAMP_US \<Longrightarrow> alert_valid (recovered_alert a now)"
  using deadline_bounds[of now] by (auto simp: alert_valid_iff)

lemma archived_alert_valid:
  "alert_valid a \<Longrightarrow> aa_lifecycle a = AL_RECOVERED \<Longrightarrow>
   alert_valid (a\<lparr>aa_lifecycle := AL_ARCHIVED\<rparr>)"
  by (auto simp: alert_valid_iff)

lemmas built_valid = opened_alert_valid touched_valid recovered_alert_valid archived_alert_valid

text \<open>The four operations on valid arguments, without the checks that cannot fail.\<close>

lemma occurrence_eq:
  assumes "alert_valid a" "0 \<le> now"
  shows "occurrence_transition a now =
    Inr (if touched a now = a then alert_idempotent a
         else moved_to a LE_OCCURRENCE_UPDATED (touched a now))"
  using touched_valid[OF assms] by (simp add: occurrence_transition_def)

lemma open_None_eq:
  assumes "request_valid r"
  shows "open_or_update None r =
    Inr \<lparr>at_previous = None, at_state = Some (opened_alert (ai_scope r) (ai_kind r) (ai_now r) 1),
         at_created_alert = None, at_event = Some LE_OPENED, at_outcome = AT_APPLIED\<rparr>"
  using opened_alert_valid[of "ai_now r" "ai_scope r" "ai_kind r" 1] assms
  by (simp add: open_or_update_def new_alert_def request_valid_iff)

lemma open_Some_eq:
  assumes "alert_valid a" "request_valid r"
  shows "open_or_update (Some a) r =
    (if live (aa_lifecycle a) \<or> aa_lifecycle a = AL_RECOVERED \<and> ai_now r < aa_cooldown_until a
     then occurrence_transition a (ai_now r)
     else if aa_generation a = MAX_BOUNDED_COUNTER then Inr (alert_rejected (Some a))
     else Inr (reopened a
            (opened_alert (ai_scope r) (ai_kind r) (ai_now r) (aa_generation a + 1))))"
proof (cases "aa_generation a = MAX_BOUNDED_COUNTER")
  case False
  then have "alert_valid (opened_alert (ai_scope r) (ai_kind r) (ai_now r) (aa_generation a + 1))"
    using assms by (intro opened_alert_valid) (auto simp: alert_valid_iff request_valid_iff)
  then show ?thesis using False by (simp add: open_or_update_def new_alert_def)
qed (simp add: open_or_update_def)

lemma recover_eq:
  assumes "alert_valid a" "0 \<le> now" "now \<le> MAX_TIMESTAMP_US"
  shows "recover a now =
    Inr (if live (aa_lifecycle a) then moved_to a LE_RECOVERED (recovered_alert a now)
         else alert_idempotent a)"
  using recovered_alert_valid[OF assms] by (cases "aa_lifecycle a") (simp_all add: recover_def)

lemma archive_eq:
  assumes "alert_valid a"
  shows "archive a now =
    Inr (if aa_lifecycle a = AL_ARCHIVED then alert_idempotent a
         else if aa_lifecycle a \<noteq> AL_RECOVERED \<or> now < aa_cooldown_until a
         then alert_rejected (Some a)
         else moved_to a LE_ARCHIVED (a\<lparr>aa_lifecycle := AL_ARCHIVED\<rparr>))"
  using archived_alert_valid[OF assms] by (simp add: archive_def)

lemma escalate_eq:
  assumes "alert_valid a" "request_valid r" "ai_operation r = AO_ESCALATE"
  shows "escalate a r =
    Inr (if live (aa_lifecycle a) \<and> aa_kind a = AK_DEGRADED \<and>
            aa_generation a \<noteq> MAX_BOUNDED_COUNTER
         then reopened a
                (opened_alert (aa_scope a) AK_UNAVAILABLE (ai_now r) (aa_generation a + 1))
         else alert_rejected (Some a))"
proof (cases "live (aa_lifecycle a) \<and> aa_kind a = AK_DEGRADED \<and>
    aa_generation a \<noteq> MAX_BOUNDED_COUNTER")
  case True
  then have "alert_valid (opened_alert (aa_scope a) AK_UNAVAILABLE (ai_now r) (aa_generation a + 1))"
    using assms by (intro opened_alert_valid) (auto simp: alert_valid_iff request_valid_iff)
  then show ?thesis using True assms by (simp add: escalate_def new_alert_def request_valid_iff)
qed (use assms in \<open>auto simp: escalate_def request_valid_iff\<close>)

text \<open>The cases of an evaluation on valid arguments.\<close>

lemmas evaluate_alert_cases =
  evaluate_automatic_alert_def open_None_eq open_Some_eq occurrence_eq recover_eq archive_eq
  escalate_eq

lemmas transition_defs =
  unchanged_def alert_idempotent_def alert_rejected_def moved_to_def reopened_def

lemma valid_request_now: "request_valid r \<Longrightarrow> 0 \<le> ai_now r \<and> ai_now r \<le> MAX_TIMESTAMP_US"
  by (simp add: request_valid_iff)

lemma evaluate_alert_total:
  assumes "\<And>a. alert = Some a \<Longrightarrow> alert_valid a" "request_valid r"
  obtains t where "evaluate_automatic_alert alert r = Inr t" "at_previous t = alert"
    "\<And>a. at_state t = Some a \<Longrightarrow> alert_valid a"
    "\<And>a. at_created_alert t = Some a \<Longrightarrow> alert_valid a"
proof -
  note now = valid_request_now[OF assms(2)]
  have "\<exists>t. evaluate_automatic_alert alert r = Inr t \<and> at_previous t = alert \<and>
      (\<forall>a. at_state t = Some a \<longrightarrow> alert_valid a) \<and>
      (\<forall>a. at_created_alert t = Some a \<longrightarrow> alert_valid a)"
  proof (cases alert)
    case None
    then show ?thesis
      using assms(2) opened_alert_valid[of "ai_now r" "ai_scope r" "ai_kind r" 1]
      by (auto simp: evaluate_alert_cases transition_defs request_valid_iff)
  next
    case (Some a)
    have v: "alert_valid a" using assms(1) Some by simp
    have created: "alert_valid (opened_alert s k (ai_now r) (aa_generation a + 1))"
      if "aa_generation a \<noteq> MAX_BOUNDED_COUNTER" "s = AS_SAMPLING \<longleftrightarrow> k = AK_SAMPLING_GAP" for s k
      using that v now by (intro opened_alert_valid) (auto simp: alert_valid_iff)
    have own: "aa_scope a = AS_SAMPLING \<longleftrightarrow> aa_kind a = AK_SAMPLING_GAP"
      using v by (simp add: alert_valid_iff)
    show ?thesis
      using Some v now assms(2) created own touched_valid[OF v, of "ai_now r"]
        recovered_alert_valid[OF v, of "ai_now r"] archived_alert_valid[OF v]
      by (cases "ai_operation r")
        (auto simp: evaluate_alert_cases transition_defs request_valid_iff)
  qed
  then show thesis using that by blast
qed

section \<open>The alerts of every scope and kind over time\<close>

text \<open>
  The latest alert of every scope and kind, and the requests made about them in order, as ingestion
  makes them: a request acts on the latest alert of its scope and kind, and an alert a transition
  creates becomes the latest one of its own scope and kind, which for an escalation is the
  unavailable alert of that scope. The trail keeps every request with its transition.
\<close>

type_synonym alert_store = "AlertScope \<times> AlertKind \<Rightarrow> AutomaticAlertState option"

type_synonym lifecycle_entry = "AutomaticAlertInput \<times> AutomaticAlertTransition"

definition alert_step ::
  "alert_store \<Rightarrow> AutomaticAlertInput \<Rightarrow> value_error + alert_store \<times> AutomaticAlertTransition" where
  "alert_step alerts r =
     (case evaluate_automatic_alert (alerts (ai_scope r, ai_kind r)) r of
        Inl e \<Rightarrow> Inl e
      | Inr t \<Rightarrow>
          let alerts1 = alerts((ai_scope r, ai_kind r) := at_state t)
          in Inr (case at_created_alert t of
                    None \<Rightarrow> (alerts1, t)
                  | Some c \<Rightarrow> (alerts1((aa_scope c, aa_kind c) \<mapsto> c), t)))"

fun run_alerts ::
  "alert_store \<Rightarrow> AutomaticAlertInput list \<Rightarrow> value_error + alert_store \<times> lifecycle_entry list" where
  "run_alerts alerts [] = Inr (alerts, [])"
| "run_alerts alerts (r # rs) =
     (case alert_step alerts r of
        Inl e \<Rightarrow> Inl e
      | Inr (alerts1, t) \<Rightarrow> map_sum id (map_prod id ((#) (r, t))) (run_alerts alerts1 rs))"

text \<open>
  The requests ingestion can make: well formed, and an escalation only while the scope has no
  unavailable alert (\<open>_plan_health_condition\<close>).
\<close>

definition may_ask :: "alert_store \<Rightarrow> AutomaticAlertInput \<Rightarrow> bool" where
  "may_ask alerts r \<longleftrightarrow>
     request_valid r \<and>
     (ai_operation r = AO_ESCALATE \<longrightarrow> alerts (ai_scope r, AK_UNAVAILABLE) = None)"

fun may_ask_all :: "alert_store \<Rightarrow> AutomaticAlertInput list \<Rightarrow> bool" where
  "may_ask_all alerts [] \<longleftrightarrow> True"
| "may_ask_all alerts (r # rs) \<longleftrightarrow>
     may_ask alerts r \<and>
     (case alert_step alerts r of Inl e \<Rightarrow> True | Inr (alerts1, t) \<Rightarrow> may_ask_all alerts1 rs)"

text \<open>
  The entries about one scope and kind: those whose request is about it and that created no alert of
  another kind, and those that created an alert of it.
\<close>

definition entry_pair :: "lifecycle_entry \<Rightarrow> AlertScope \<times> AlertKind" where
  "entry_pair h =
     (case at_created_alert (snd h) of
        None \<Rightarrow> (ai_scope (fst h), ai_kind (fst h))
      | Some c \<Rightarrow> (aa_scope c, aa_kind c))"

definition entries_for :: "AlertScope \<times> AlertKind \<Rightarrow> lifecycle_entry list \<Rightarrow> lifecycle_entry list" where
  "entries_for p trail = filter (\<lambda>h. entry_pair h = p) trail"

definition opens :: "lifecycle_entry \<Rightarrow> bool" where
  "opens h \<longleftrightarrow> at_event (snd h) = Some LE_OPENED"

definition openings :: "lifecycle_entry list \<Rightarrow> lifecycle_entry list" where
  "openings trail = filter opens trail"

lemma openings_simps [simp]:
  "openings [] = []"
  "openings (h # hs) = (if opens h then h # openings hs else openings hs)"
  "openings (hs @ hs') = openings hs @ openings hs'"
  by (simp_all add: openings_def)

lemma entries_for_snoc [simp]:
  "entries_for p (trail @ [h]) = entries_for p trail @ (if entry_pair h = p then [h] else [])"
  by (simp add: entries_for_def)

lemma entries_for_Nil [simp]: "entries_for p [] = []"
  by (simp add: entries_for_def)

text \<open>
  The generation of the first alert of a scope and kind: 1 when it was opened, one more than the
  degraded alert it takes over from when it was escalated to.
\<close>

definition first_generation :: "lifecycle_entry \<Rightarrow> int" where
  "first_generation h =
     (case (ai_operation (fst h), at_previous (snd h)) of
        (AO_ESCALATE, Some a) \<Rightarrow> aa_generation a + 1
      | _ \<Rightarrow> 1)"

definition generation_after :: "lifecycle_entry list \<Rightarrow> int" where
  "generation_after history =
     (case openings history of
        [] \<Rightarrow> 0
      | h # later \<Rightarrow> first_generation h + int (length later))"

text \<open>What holds of the latest alert, given the entries since the one that opened it.\<close>

definition episode :: "AutomaticAlertState \<Rightarrow> lifecycle_entry list \<Rightarrow> bool" where
  "episode a since \<longleftrightarrow>
     openings since = [] \<and>
     (\<forall>(r, t) \<in> set since.
        ai_operation r = AO_OPEN \<longrightarrow> ai_persistence_succeeded r \<longrightarrow>
        deadline (ai_now r) \<le> aa_cooldown_until a \<or> aa_generation a = MAX_BOUNDED_COUNTER) \<and>
     (\<not> live (aa_lifecycle a) \<longrightarrow>
        (\<exists>(r, t) \<in> set since.
           at_event t = Some LE_RECOVERED \<and> deadline (ai_now r) \<le> aa_cooldown_until a)) \<and>
     (aa_lifecycle a = AL_ARCHIVED \<longrightarrow>
        (\<exists>(r, t) \<in> set since. aa_cooldown_until a \<le> ai_now r))"

definition pair_inv ::
  "AlertScope \<times> AlertKind \<Rightarrow> AutomaticAlertState option \<Rightarrow> lifecycle_entry list \<Rightarrow> bool" where
  "pair_inv p alert history \<longleftrightarrow>
     (case alert of
        None \<Rightarrow> openings history = []
      | Some a \<Rightarrow>
          alert_valid a \<and> (aa_scope a, aa_kind a) = p \<and>
          aa_generation a = generation_after history \<and>
          (\<exists>before h since. history = before @ h # since \<and> opens h \<and> episode a since))"

definition alerts_inv :: "alert_store \<Rightarrow> lifecycle_entry list \<Rightarrow> bool" where
  "alerts_inv alerts trail \<longleftrightarrow> (\<forall>p. pair_inv p (alerts p) (entries_for p trail))"

text \<open>
  The six things a request can do: nothing, open the latest alert of its scope and kind, touch it,
  recover it, archive it, or open the unavailable alert of its scope.
\<close>

definition on_pair :: "AlertScope \<Rightarrow> AlertKind \<Rightarrow> AutomaticAlertState option \<Rightarrow> bool" where
  "on_pair scope kind alert \<longleftrightarrow>
     (\<forall>a. alert = Some a \<longrightarrow> alert_valid a \<and> aa_scope a = scope \<and> aa_kind a = kind)"

lemma evaluate_cases:
  assumes "on_pair (ai_scope r) (ai_kind r) alert"
    and "request_valid r"
  obtains (same) t where "evaluate_automatic_alert alert r = Inr t"
      "at_state t = alert" "at_created_alert t = None" "at_event t = None"
      "ai_operation r = AO_OPEN \<Longrightarrow> ai_persistence_succeeded r \<Longrightarrow>
         \<exists>a. alert = Some a \<and> (deadline (ai_now r) \<le> aa_cooldown_until a \<or>
                                aa_generation a = MAX_BOUNDED_COUNTER)"
  | (first) t where "alert = None" "ai_operation r = AO_OPEN"
      "evaluate_automatic_alert alert r = Inr t"
      "at_state t = Some (opened_alert (ai_scope r) (ai_kind r) (ai_now r) 1)"
      "at_created_alert t = None" "at_event t = Some LE_OPENED"
  | (again) a t where "alert = Some a" "aa_generation a < MAX_BOUNDED_COUNTER" "ai_operation r = AO_OPEN"
      "evaluate_automatic_alert alert r = Inr t" "at_state t = alert"
      "at_created_alert t =
         Some (opened_alert (ai_scope r) (ai_kind r) (ai_now r) (aa_generation a + 1))"
      "at_event t = Some LE_OPENED"
      "aa_lifecycle a = AL_RECOVERED \<and> aa_cooldown_until a \<le> ai_now r \<or>
       aa_lifecycle a = AL_ARCHIVED"
  | (touch) a t where "alert = Some a" "aa_lifecycle a \<noteq> AL_ARCHIVED"
      "evaluate_automatic_alert alert r = Inr t" "at_state t = Some (touched a (ai_now r))"
      "at_created_alert t = None" "at_event t = Some LE_OCCURRENCE_UPDATED"
  | (recovery) a t where "alert = Some a" "live (aa_lifecycle a)" "ai_operation r \<noteq> AO_OPEN"
      "evaluate_automatic_alert alert r = Inr t" "at_state t = Some (recovered_alert a (ai_now r))"
      "at_created_alert t = None" "at_event t = Some LE_RECOVERED"
  | (archival) a t where "alert = Some a" "aa_lifecycle a = AL_RECOVERED" "ai_operation r \<noteq> AO_OPEN"
      "aa_cooldown_until a \<le> ai_now r"
      "evaluate_automatic_alert alert r = Inr t" "at_state t = Some (a\<lparr>aa_lifecycle := AL_ARCHIVED\<rparr>)"
      "at_created_alert t = None" "at_event t = Some LE_ARCHIVED"
  | (escalation) a t where "alert = Some a" "ai_operation r = AO_ESCALATE"
      "aa_generation a < MAX_BOUNDED_COUNTER" "ai_kind r = AK_DEGRADED"
      "evaluate_automatic_alert alert r = Inr t" "at_previous t = alert" "at_state t = alert"
      "at_created_alert t =
         Some (opened_alert (ai_scope r) AK_UNAVAILABLE (ai_now r) (aa_generation a + 1))"
      "at_event t = Some LE_OPENED"
proof (cases alert)
  case None
  then show thesis using assms(2) same first
    by (cases "ai_operation r"; cases "ai_persistence_succeeded r")
      (auto simp: evaluate_alert_cases transition_defs)
next
  case (Some a)
  have v: "alert_valid a" "aa_scope a = ai_scope r" "aa_kind a = ai_kind r" "request_valid r"
    using assms Some by (auto simp: on_pair_def)
  note now = valid_request_now[OF v(4)]
  have gen: "aa_generation a \<le> MAX_BOUNDED_COUNTER" using v(1) by (simp add: alert_valid_iff)
  note step = evaluate_alert_cases transition_defs
  show thesis
  proof (cases "ai_persistence_succeeded r \<and> ai_operation r = AO_OPEN")
    case True
    consider "live (aa_lifecycle a) \<or> aa_lifecycle a = AL_RECOVERED \<and>
        ai_now r < aa_cooldown_until a" "touched a (ai_now r) = a"
      | "live (aa_lifecycle a) \<or> aa_lifecycle a = AL_RECOVERED \<and>
        ai_now r < aa_cooldown_until a" "touched a (ai_now r) \<noteq> a"
      | "\<not> live (aa_lifecycle a)"
        "\<not> (aa_lifecycle a = AL_RECOVERED \<and> ai_now r < aa_cooldown_until a)"
      by blast
    then show thesis
    proof cases
      case 1
      have "aa_cooldown_until (touched a (ai_now r)) = aa_cooldown_until a" using 1(2) by simp
      then have "deadline (ai_now r) \<le> aa_cooldown_until a" by simp
      then show thesis using 1 same Some True v now by (simp add: step)
    next
      case 2
      then show thesis using touch Some True v now by (auto simp: step)
    next
      case 3
      then have gone: "aa_lifecycle a = AL_RECOVERED \<and> aa_cooldown_until a \<le> ai_now r \<or>
          aa_lifecycle a = AL_ARCHIVED"
        by (cases "aa_lifecycle a") auto
      show thesis
        using 3 same again[OF Some] gone Some True v gen
        by (cases "aa_generation a = MAX_BOUNDED_COUNTER"; cases "aa_lifecycle a")
          (simp_all add: step)
    qed
  next
    case False
    then consider "\<not> ai_persistence_succeeded r"
      | "ai_persistence_succeeded r" "ai_operation r = AO_RECOVER"
      | "ai_persistence_succeeded r" "ai_operation r = AO_ARCHIVE"
      | "ai_persistence_succeeded r" "ai_operation r = AO_ESCALATE"
      by (cases "ai_operation r") auto
    then show thesis
    proof cases
      case 1
      then show thesis using same by (simp add: evaluate_automatic_alert_def unchanged_def)
    next
      case 2
      then show thesis using Some v now same recovery
        by (cases "live (aa_lifecycle a)") (auto simp: step)
    next
      case 3
      then show thesis using Some v now same archival[OF Some]
        by (cases "aa_lifecycle a = AL_RECOVERED \<and> aa_cooldown_until a \<le> ai_now r")
          (auto simp: step)
    next
      case 4
      then show thesis using Some v gen same escalation[OF Some]
        by (cases "live (aa_lifecycle a) \<and> aa_kind a = AK_DEGRADED \<and>
            aa_generation a \<noteq> MAX_BOUNDED_COUNTER") (auto simp: step)
    qed
  qed
qed

lemma generation_after_snoc:
  "generation_after (history @ [h]) =
     (if opens h
      then if openings history = [] then first_generation h else generation_after history + 1
      else generation_after history)"
  by (cases "openings history") (simp_all add: generation_after_def)

lemma pair_inv_alert: "pair_inv p (Some a) history \<Longrightarrow> alert_valid a \<and> (aa_scope a, aa_kind a) = p"
  by (simp add: pair_inv_def)

lemma pair_inv_openings: "pair_inv p alert history \<Longrightarrow> openings history = [] \<longleftrightarrow> alert = None"
  by (auto simp: pair_inv_def split: option.splits)

lemma pair_inv_opened:
  assumes "alert_valid a" "(aa_scope a, aa_kind a) = p" "aa_lifecycle a = AL_OPEN"
    and "aa_generation a = generation_after (history @ [h])" "opens h"
  shows "pair_inv p (Some a) (history @ [h])"
proof -
  have "history @ [h] = history @ h # []" "episode a []"
    using assms(3) by (simp_all add: episode_def)
  then show ?thesis using assms unfolding pair_inv_def option.case by blast
qed

lemma episode_snoc:
  assumes "episode a since" "\<not> opens (r, t)"
    and cool: "aa_cooldown_until a \<le> aa_cooldown_until a'"
    and gen: "aa_generation a' = aa_generation a"
    and "ai_operation r = AO_OPEN \<Longrightarrow> ai_persistence_succeeded r \<Longrightarrow>
      deadline (ai_now r) \<le> aa_cooldown_until a' \<or> aa_generation a' = MAX_BOUNDED_COUNTER"
    and rec: "\<not> live (aa_lifecycle a') \<Longrightarrow> \<not> live (aa_lifecycle a) \<or>
      at_event t = Some LE_RECOVERED \<and> deadline (ai_now r) \<le> aa_cooldown_until a'"
    and arc: "aa_lifecycle a' = AL_ARCHIVED \<Longrightarrow> aa_cooldown_until a' \<le> ai_now r \<or>
      aa_lifecycle a = AL_ARCHIVED \<and> aa_cooldown_until a' = aa_cooldown_until a"
  shows "episode a' (since @ [(r, t)])"
proof -
  have up: "d \<le> aa_cooldown_until a'" if "d \<le> aa_cooldown_until a" for d
    using that cool by simp
  have "\<exists>(q, u) \<in> set (since @ [(r, t)]).
      at_event u = Some LE_RECOVERED \<and> deadline (ai_now q) \<le> aa_cooldown_until a'"
    if "\<not> live (aa_lifecycle a')"
    using rec[OF that] assms(1) up by (fastforce simp: episode_def)
  moreover have "\<exists>(q, u) \<in> set (since @ [(r, t)]). aa_cooldown_until a' \<le> ai_now q"
    if "aa_lifecycle a' = AL_ARCHIVED"
    using arc[OF that] assms(1) by (fastforce simp: episode_def)
  moreover have "\<forall>(q, u) \<in> set (since @ [(r, t)]).
      ai_operation q = AO_OPEN \<longrightarrow> ai_persistence_succeeded q \<longrightarrow>
      deadline (ai_now q) \<le> aa_cooldown_until a' \<or> aa_generation a' = MAX_BOUNDED_COUNTER"
    using assms(1,5) gen up by (auto simp: episode_def)
  moreover have "openings (since @ [(r, t)]) = []"
    using assms(1,2) by (simp add: episode_def)
  ultimately show ?thesis unfolding episode_def by blast
qed

lemma pair_inv_moved:
  assumes "pair_inv p (Some a) history" "\<not> opens h"
    and "alert_valid a'" "(aa_scope a', aa_kind a') = p"
    and "aa_generation a' = aa_generation a"
    and "\<And>since. episode a since \<Longrightarrow> episode a' (since @ [h])"
  shows "pair_inv p (Some a') (history @ [h])"
proof -
  obtain before q since where h: "history = before @ q # since" "opens q" "episode a since"
    using assms(1) by (auto simp: pair_inv_def)
  then have "history @ [h] = before @ q # (since @ [h])" "episode a' (since @ [h])"
    using assms(6) by simp_all
  moreover have "aa_generation a' = generation_after (history @ [h])"
    using assms(1,2,5) by (simp add: pair_inv_def generation_after_snoc)
  ultimately show ?thesis using assms(3,4) h(2) unfolding pair_inv_def option.case by blast
qed

lemma alerts_inv_step:
  assumes "alerts_inv alerts trail" "entry_pair h = p"
    and "pair_inv p x (entries_for p trail @ [h])"
  shows "alerts_inv (alerts(p := x)) (trail @ [h])"
  using assms by (simp add: alerts_inv_def)

lemma alerts_inv_on_pair:
  "alerts_inv alerts trail \<Longrightarrow> on_pair scope kind (alerts (scope, kind))"
  by (auto simp: alerts_inv_def on_pair_def dest!: spec[of _ scope] spec[of _ kind] pair_inv_alert)

lemma alerts_inv_alert_step:
  assumes inv: "alerts_inv alerts trail" and r: "may_ask alerts r"
  shows "\<exists>alerts1 t. alert_step alerts r = Inr (alerts1, t) \<and> alerts_inv alerts1 (trail @ [(r, t)])"
proof -
  let ?p = "(ai_scope r, ai_kind r)"
  have req: "request_valid r" using r by (simp add: may_ask_def)
  note now = valid_request_now[OF req]
  have own: "ai_scope r = AS_SAMPLING \<longleftrightarrow> ai_kind r = AK_SAMPLING_GAP"
    using req by (simp add: request_valid_iff)
  have here: "pair_inv p (alerts p) (entries_for p trail)" for p
    using inv unfolding alerts_inv_def by blast
  have pair: "on_pair (ai_scope r) (ai_kind r) (alerts ?p)"
    using inv by (rule alerts_inv_on_pair)
  have v: "alert_valid a" "(aa_scope a, aa_kind a) = ?p" if "alerts ?p = Some a" for a
    using pair that by (simp_all add: on_pair_def)
  have moved: "pair_inv ?p (Some a') (entries_for ?p trail @ [(r, t)])"
    if "alerts ?p = Some a" "at_event t \<noteq> Some LE_OPENED" "alert_valid a'"
      "(aa_scope a', aa_kind a') = ?p" "aa_generation a' = aa_generation a"
      "\<And>since. episode a since \<Longrightarrow> episode a' (since @ [(r, t)])" for a a' t
    using that here[of ?p] by (intro pair_inv_moved) (auto simp: opens_def)
  have step: "alert_step alerts r = Inr (alerts(?p := at_state t), t) \<and>
      alerts_inv (alerts(?p := at_state t)) (trail @ [(r, t)])"
    if "evaluate_automatic_alert (alerts ?p) r = Inr t" "at_created_alert t = None"
      "pair_inv ?p (at_state t) (entries_for ?p trail @ [(r, t)])" for t
    using that alerts_inv_step[OF inv, of "(r, t)" ?p] by (simp add: alert_step_def entry_pair_def)
  have created: "alert_step alerts r = Inr (alerts(q \<mapsto> c), t) \<and>
      alerts_inv (alerts(q \<mapsto> c)) (trail @ [(r, t)])"
    if "evaluate_automatic_alert (alerts ?p) r = Inr t" "at_state t = alerts ?p"
      "at_created_alert t = Some c" "(aa_scope c, aa_kind c) = q"
      "pair_inv q (Some c) (entries_for q trail @ [(r, t)])" for t c q
    using that alerts_inv_step[OF inv, of "(r, t)" q] by (simp add: alert_step_def entry_pair_def)
  from pair req show ?thesis
  proof (cases rule: evaluate_cases[consumes 2, case_names same first again touch recovery archival
        escalation])
    case (same t)
    have "pair_inv ?p (alerts ?p) (entries_for ?p trail @ [(r, t)])"
    proof (cases "alerts ?p")
      case None
      then show ?thesis using here[of ?p] same(4) by (simp add: pair_inv_def opens_def)
    next
      case (Some a)
      show ?thesis unfolding Some
        by (rule moved[OF Some]) (use same(4,5) v[OF Some] Some in \<open>auto intro!: episode_snoc simp: opens_def\<close>)
    qed
    then show ?thesis using step[OF same(1,3)] same(2) by metis
  next
    case (first t)
    let ?a = "opened_alert (ai_scope r) (ai_kind r) (ai_now r) 1"
    have "pair_inv ?p (Some ?a) (entries_for ?p trail @ [(r, t)])"
      using first here[of ?p] opened_alert_valid[of "ai_now r" "ai_scope r" "ai_kind r" 1] now own
      by (intro pair_inv_opened)
        (auto simp: generation_after_snoc first_generation_def opens_def pair_inv_def bounds)
    then show ?thesis using step[OF first(3,5)] first(4) by metis
  next
    case (again a t)
    let ?a = "opened_alert (ai_scope r) (ai_kind r) (ai_now r) (aa_generation a + 1)"
    have "alert_valid ?a"
      using v(1)[OF again(1)] again(2) now own by (intro opened_alert_valid) (auto simp: alert_valid_iff)
    then have "pair_inv ?p (Some ?a) (entries_for ?p trail @ [(r, t)])"
      using again(1,7) here[of ?p] pair_inv_openings[OF here, of ?p]
      by (intro pair_inv_opened) (auto simp: generation_after_snoc opens_def pair_inv_def)
    then show ?thesis using created[OF again(4,5,6), of ?p] by auto
  next
    case (touch a t)
    have "pair_inv ?p (Some (touched a (ai_now r))) (entries_for ?p trail @ [(r, t)])"
      by (rule moved[OF touch(1)])
        (use touch v[OF touch(1)] touched_valid[of a "ai_now r"] now in
          \<open>auto intro!: episode_snoc simp: opens_def\<close>)
    then show ?thesis using step[OF touch(3,5)] touch(4) by metis
  next
    case (recovery a t)
    have "pair_inv ?p (Some (recovered_alert a (ai_now r))) (entries_for ?p trail @ [(r, t)])"
      by (rule moved[OF recovery(1)])
        (use recovery v[OF recovery(1)] recovered_alert_valid[of a "ai_now r"] now in
          \<open>auto intro!: episode_snoc simp: opens_def\<close>)
    then show ?thesis using step[OF recovery(4,6)] recovery(5) by metis
  next
    case (archival a t)
    have "pair_inv ?p (Some (a\<lparr>aa_lifecycle := AL_ARCHIVED\<rparr>)) (entries_for ?p trail @ [(r, t)])"
      by (rule moved[OF archival(1)])
        (use archival v[OF archival(1)] archived_alert_valid[of a] in
          \<open>auto intro!: episode_snoc simp: opens_def\<close>)
    then show ?thesis using step[OF archival(5,7)] archival(6) by metis
  next
    case (escalation a t)
    let ?q = "(ai_scope r, AK_UNAVAILABLE)"
    let ?a = "opened_alert (ai_scope r) AK_UNAVAILABLE (ai_now r) (aa_generation a + 1)"
    have none: "alerts ?q = None" using r escalation(2) by (simp add: may_ask_def)
    have "alert_valid ?a"
      using v(1)[OF escalation(1)] escalation(3,4) now own
      by (intro opened_alert_valid) (auto simp: alert_valid_iff)
    moreover have "openings (entries_for ?q trail) = []"
      using pair_inv_openings[OF here, of ?q] none by simp
    ultimately have "pair_inv ?q (Some ?a) (entries_for ?q trail @ [(r, t)])"
      using escalation(1,2,6,9)
      by (intro pair_inv_opened) (auto simp: generation_after_snoc first_generation_def opens_def)
    then show ?thesis using created[OF escalation(5,7,8), of ?q] by auto
  qed
qed

lemma run_alerts_inv:
  assumes "alerts_inv alerts trail" "may_ask_all alerts rs"
  shows "\<exists>alerts1 h. run_alerts alerts rs = Inr (alerts1, h) \<and> map fst h = rs \<and>
    alerts_inv alerts1 (trail @ h)"
  using assms
proof (induction rs arbitrary: alerts trail)
  case (Cons r rs)
  obtain alerts1 t where step: "alert_step alerts r = Inr (alerts1, t)"
    "alerts_inv alerts1 (trail @ [(r, t)])"
    using alerts_inv_alert_step[OF Cons.prems(1), of r] Cons.prems(2) by fastforce
  show ?case using Cons.IH[OF step(2)] Cons.prems(2) step(1) by auto
qed simp

lemma alerts_inv_start: "alerts_inv Map.empty []"
  by (simp add: alerts_inv_def pair_inv_def)

lemma last_opening:
  assumes "before @ h # since = before' @ h' # since'" "opens h" "opens h'"
    and "openings since = []" "openings since' = []"
  shows "since = since'"
  using assms
  by (auto simp: append_eq_append_conv2 Cons_eq_append_conv append_eq_Cons_conv
      split: if_splits)

lemma run_alerts_Cons:
  "run_alerts alerts (r # rs) = Inr (alerts1, trail) \<longleftrightarrow>
     (\<exists>alerts2 t trail1. alert_step alerts r = Inr (alerts2, t) \<and>
        run_alerts alerts2 rs = Inr (alerts1, trail1) \<and> trail = (r, t) # trail1)"
proof (cases "alert_step alerts r")
  case (Inr p)
  then show ?thesis
    by (cases p; cases "run_alerts (fst p) rs") auto
qed simp

lemma run_alerts_split:
  assumes "run_alerts alerts rs = Inr (alerts1, before @ (r, t) # after)" "may_ask_all alerts rs"
  shows "\<exists>alerts2 alerts3. run_alerts alerts (map fst before) = Inr (alerts2, before) \<and>
    may_ask_all alerts (map fst before) \<and> may_ask alerts2 r \<and>
    alert_step alerts2 r = Inr (alerts3, t)"
  using assms
proof (induction before arbitrary: alerts rs)
  case Nil
  then show ?case by (cases rs) (auto simp: run_alerts_Cons simp del: run_alerts.simps(2))
next
  case (Cons b before)
  then obtain r0 rs0 where rs: "rs = r0 # rs0" by (cases rs) auto
  obtain alerts2 t0 where s: "alert_step alerts r0 = Inr (alerts2, t0)" "b = (r0, t0)"
    "run_alerts alerts2 rs0 = Inr (alerts1, before @ (r, t) # after)"
    using Cons.prems by (auto simp: rs run_alerts_Cons simp del: run_alerts.simps(2))
  then show ?case using Cons.IH[OF s(3)] Cons.prems(2)
    by (auto simp: rs run_alerts_Cons simp del: run_alerts.simps(2))
qed

text \<open>
  C29. One scope and kind never has two alerts at a time, and their generations count them. For any
  well-formed requests about any scopes and kinds, in any order and with any times, whether or not
  they were persisted, with escalations only while the scope has no unavailable alert (as ingestion
  asks for them), no state the lifecycle builds is refused by its own checks. A scope and kind has a
  latest alert exactly when one was opened for it; that alert is valid and its own, and its
  generation is that of the first alert opened plus the number of alerts opened since: the first one
  has generation 1, or, when a degraded alert was escalated to it, one more than the degraded one.
\<close>

theorem alert_generation_counts:
  assumes "may_ask_all Map.empty requests"
  shows "\<exists>alerts trail. run_alerts Map.empty requests = Inr (alerts, trail) \<and>
    map fst trail = requests \<and>
    (\<forall>scope kind.
       case filter opens (entries_for (scope, kind) trail) of
         [] \<Rightarrow> alerts (scope, kind) = None
       | (r, t) # later \<Rightarrow>
           (\<exists>a. alerts (scope, kind) = Some a \<and> alert_state_error a = None \<and>
              aa_scope a = scope \<and> aa_kind a = kind \<and>
              aa_generation a = int (length later) +
                (case (ai_operation r, at_previous t) of
                   (AO_ESCALATE, Some degraded) \<Rightarrow> aa_generation degraded + 1
                 | _ \<Rightarrow> 1)))"
proof -
  obtain alerts trail where run: "run_alerts Map.empty requests = Inr (alerts, trail)"
    "map fst trail = requests" "alerts_inv alerts trail"
    using run_alerts_inv[OF alerts_inv_start assms] by auto
  have inv: "pair_inv p (alerts p) (entries_for p trail)" for p
    using run(3) unfolding alerts_inv_def by blast
  show ?thesis
  proof (intro exI conjI allI)
    fix scope kind
    note inv = inv[of "(scope, kind)"]
    show "case filter opens (entries_for (scope, kind) trail) of
         [] \<Rightarrow> alerts (scope, kind) = None
       | (r, t) # later \<Rightarrow>
           (\<exists>a. alerts (scope, kind) = Some a \<and> alert_state_error a = None \<and>
              aa_scope a = scope \<and> aa_kind a = kind \<and>
              aa_generation a = int (length later) +
                (case (ai_operation r, at_previous t) of
                   (AO_ESCALATE, Some degraded) \<Rightarrow> aa_generation degraded + 1
                 | _ \<Rightarrow> 1))"
      using pair_inv_openings[OF inv] inv
      by (auto simp: pair_inv_def generation_after_def openings_def first_generation_def
          split: list.splits option.splits)
  qed (rule run)+
qed

definition degradation_request ::
  "AutomaticAlertOperation \<Rightarrow> AlertKind \<Rightarrow> int \<Rightarrow> AutomaticAlertInput" where
  "degradation_request operation kind now =
     \<lparr>ai_operation = operation, ai_scope = AS_WLED, ai_kind = kind, ai_now = now,
      ai_persistence_succeeded = True,
      ai_escalation_kind = (if operation = AO_ESCALATE then Some AK_UNAVAILABLE else None)\<rparr>"

text \<open>
  A degraded WLED that becomes unavailable, recovers, fails again within the cooldown, and once more
  when the alert is archived.
\<close>

definition degradation_requests :: "AutomaticAlertInput list" where
  "degradation_requests =
     [degradation_request AO_OPEN AK_DEGRADED 10, degradation_request AO_ESCALATE AK_DEGRADED 20,
      degradation_request AO_RECOVER AK_DEGRADED 30, degradation_request AO_RECOVER AK_UNAVAILABLE 30,
      degradation_request AO_OPEN AK_UNAVAILABLE 40, degradation_request AO_ARCHIVE AK_UNAVAILABLE 900000040,
      degradation_request AO_OPEN AK_UNAVAILABLE 900000041]"

lemma degradation_asked: "may_ask_all Map.empty degradation_requests"
  by code_simp

theorem alert_generation_counts_witness:
  "\<exists>alerts trail. run_alerts Map.empty degradation_requests = Inr (alerts, trail) \<and>
    map fst trail = degradation_requests \<and>
    (\<forall>scope kind.
       case filter opens (entries_for (scope, kind) trail) of
         [] \<Rightarrow> alerts (scope, kind) = None
       | (r, t) # later \<Rightarrow>
           (\<exists>a. alerts (scope, kind) = Some a \<and> alert_state_error a = None \<and>
              aa_scope a = scope \<and> aa_kind a = kind \<and>
              aa_generation a = int (length later) +
                (case (ai_operation r, at_previous t) of
                   (AO_ESCALATE, Some degraded) \<Rightarrow> aa_generation degraded + 1
                 | _ \<Rightarrow> 1)))"
  using alert_generation_counts[OF degradation_asked] .

lemma episode_over:
  assumes "episode a between" "on_pair (ai_scope r1) (ai_kind r1) (Some a)" "request_valid r1"
    and "evaluate_automatic_alert (Some a) r1 = Inr t1" "at_event t1 = Some LE_OPENED"
    and "ai_operation r1 \<noteq> AO_ESCALATE"
    and "\<And>r t. (r, t) \<in> set between \<Longrightarrow> ai_now r \<le> ai_now r1"
  shows "(\<exists>(r, t) \<in> set between. at_event t = Some LE_RECOVERED \<and> deadline (ai_now r) \<le> ai_now r1) \<and>
    (\<forall>(r, t) \<in> set between.
       ai_operation r = AO_OPEN \<longrightarrow> ai_persistence_succeeded r \<longrightarrow> deadline (ai_now r) \<le> ai_now r1)"
proof -
  have re: "aa_generation a < MAX_BOUNDED_COUNTER"
    "aa_lifecycle a = AL_RECOVERED \<and> aa_cooldown_until a \<le> ai_now r1 \<or> aa_lifecycle a = AL_ARCHIVED"
    using assms(2,3)
    by (cases rule: evaluate_cases[consumes 2, case_names same first again touch recovery archival
          escalation]; use assms(4-6) in simp)+
  have "aa_cooldown_until a \<le> ai_now r1"
    using re(2) assms(1,7) by (fastforce simp: episode_def)
  then have below: "d \<le> ai_now r1" if "d \<le> aa_cooldown_until a" for d
    using that by simp
  have "\<not> live (aa_lifecycle a)" using re(2) by auto
  then have "\<exists>(r, t) \<in> set between. at_event t = Some LE_RECOVERED \<and> deadline (ai_now r) \<le> ai_now r1"
    using assms(1) below by (fastforce simp: episode_def)
  moreover have "deadline (ai_now r) \<le> ai_now r1"
    if "(r, t) \<in> set between" "ai_operation r = AO_OPEN" "ai_persistence_succeeded r" for r t
    using assms(1) re(1) that by (intro below) (auto simp: episode_def)
  ultimately show ?thesis by auto
qed

lemma filter_split:
  assumes "filter P xs = before @ h # after"
  shows "\<exists>xs1 xs2. xs = xs1 @ h # xs2 \<and> filter P xs1 = before \<and> filter P xs2 = after \<and> P h"
  using assms
proof (induction xs arbitrary: before)
  case (Cons x xs)
  show ?case
  proof (cases "P x \<and> before = []")
    case True
    then show ?thesis using Cons.prems by (intro exI[of _ "[]"] exI[of _ xs]) auto
  next
    case False
    then obtain before1 where b: "filter P xs = before1 @ h # after"
      "before = (if P x then x # before1 else before1)"
      using Cons.prems by (cases before) (auto split: if_splits)
    obtain xs1 xs2 where "xs = xs1 @ h # xs2" "filter P xs1 = before1" "filter P xs2 = after" "P h"
      using Cons.IH[OF b(1)] by blast
    then show ?thesis using b(2) by (intro exI[of _ "x # xs1"] exI[of _ xs2]) simp
  qed
qed simp

lemma reopening:
  assumes "alerts_inv alerts before" "may_ask alerts r1" "alert_step alerts r1 = Inr (alerts1, t1)"
    and "opens (r1, t1)" "entry_pair (r1, t1) = p"
    and "entries_for p before = first @ h # between" "opens h" "openings between = []"
  obtains a where "alerts p = Some a" "episode a between" "on_pair (ai_scope r1) (ai_kind r1) (Some a)"
    "evaluate_automatic_alert (Some a) r1 = Inr t1" "ai_operation r1 \<noteq> AO_ESCALATE"
proof -
  have req: "request_valid r1" using assms(2) by (simp add: may_ask_def)
  have inv: "pair_inv p (alerts p) (entries_for p before)"
    using assms(1) unfolding alerts_inv_def by blast
  have "openings (entries_for p before) \<noteq> []" using assms(6,7) by simp
  then obtain a where a: "alerts p = Some a" using pair_inv_openings[OF inv] by auto
  then obtain before' h' since where "entries_for p before = before' @ h' # since" "opens h'"
    "episode a since"
    using inv by (auto simp: pair_inv_def)
  then have ep: "episode a between"
    using last_opening[of first h between before' h' since] assms(6-8) by (simp add: episode_def)
  obtain t where t: "evaluate_automatic_alert (alerts (ai_scope r1, ai_kind r1)) r1 = Inr t"
    "t = t1"
    using assms(3) by (auto simp: alert_step_def Let_def split: sum.splits option.splits)
  note pair = alerts_inv_on_pair[OF assms(1), of "ai_scope r1" "ai_kind r1"]
  have "p = (ai_scope r1, ai_kind r1) \<and> ai_operation r1 \<noteq> AO_ESCALATE"
    using pair req
    by (cases rule: evaluate_cases[consumes 2, case_names same first again touch recovery archival
          escalation]) (use assms(2,4,5) t a in \<open>auto simp: opens_def entry_pair_def may_ask_def\<close>)
  then show thesis using that[OF a ep] pair t a by simp
qed

text \<open>
  C26. Alerts do not flap. Take any well-formed requests whose times do not go back (with
  escalations only while the scope has no unavailable alert), and two consecutive openings among
  what they caused for one scope and kind. Between the two the alert was recovered, and the second
  opening comes no sooner than fifteen minutes (or the largest timestamp) after that recovery and
  after every reoccurrence in between: each of those joined the first episode instead of opening a
  new alert.
\<close>

theorem alerts_do_not_flap:
  assumes "may_ask_all Map.empty requests" "sorted (map ai_now requests)"
    and "run_alerts Map.empty requests = Inr (alerts, trail)"
    and "entries_for (scope, kind) trail = before @ (r0, t0) # between @ (r1, t1) # after"
    and "at_event t0 = Some LE_OPENED" "at_event t1 = Some LE_OPENED"
    and "\<forall>(r, t) \<in> set between. at_event t \<noteq> Some LE_OPENED"
  shows "(\<exists>(r, t) \<in> set between. at_event t = Some LE_RECOVERED \<and>
            min (ai_now r + 15 * 60 * 1000000) (2 ^ 63 - 1) \<le> ai_now r1) \<and>
    (\<forall>(r, t) \<in> set between. ai_operation r = AO_OPEN \<longrightarrow> ai_persistence_succeeded r \<longrightarrow>
       min (ai_now r + 15 * 60 * 1000000) (2 ^ 63 - 1) \<le> ai_now r1)"
proof -
  have "filter (\<lambda>h. entry_pair h = (scope, kind)) trail =
      (before @ (r0, t0) # between) @ (r1, t1) # after"
    using assms(4) by (simp add: entries_for_def)
  then obtain trail1 trail2 where split: "trail = trail1 @ (r1, t1) # trail2"
    "entries_for (scope, kind) trail1 = before @ (r0, t0) # between"
    "entry_pair (r1, t1) = (scope, kind)"
    using filter_split[of "\<lambda>h. entry_pair h = (scope, kind)" trail] unfolding entries_for_def by blast
  obtain alerts1 alerts2 where run1: "run_alerts Map.empty (map fst trail1) = Inr (alerts1, trail1)"
    "may_ask_all Map.empty (map fst trail1)" "may_ask alerts1 r1"
    "alert_step alerts1 r1 = Inr (alerts2, t1)"
    using run_alerts_split[OF assms(3)[unfolded split(1)] assms(1)] by blast
  have inv: "alerts_inv alerts1 trail1"
    using run_alerts_inv[OF alerts_inv_start run1(2)] run1(1) by auto
  have quiet: "openings between = []"
    using assms(7) by (auto simp: openings_def opens_def filter_empty_conv)
  obtain a where a: "episode a between" "on_pair (ai_scope r1) (ai_kind r1) (Some a)"
    "evaluate_automatic_alert (Some a) r1 = Inr t1" "ai_operation r1 \<noteq> AO_ESCALATE"
    using reopening[OF inv run1(3,4) _ split(3,2) _ quiet] assms(5,6) by (auto simp: opens_def)
  have "map fst trail = requests"
    using run_alerts_inv[OF alerts_inv_start assms(1)] assms(3) by auto
  then have "ai_now r \<le> ai_now r1" if "(r, t) \<in> set trail1" for r t
    using assms(2) that by (fastforce simp: split(1) sorted_append)
  moreover have "set between \<subseteq> set trail1"
    using arg_cong[OF split(2), of set] by (auto simp: entries_for_def)
  moreover have "request_valid r1" using run1(3) by (simp add: may_ask_def)
  ultimately show ?thesis
    using episode_over[OF a(1,2) _ a(3) assms(6) a(4)]
    by (auto simp: deadline_def ALERT_COOLDOWN_US_def MAX_TIMESTAMP_US_def)
qed

definition unavailable_entries :: "lifecycle_entry list" where
  "unavailable_entries =
     (case run_alerts Map.empty degradation_requests of
        Inl e \<Rightarrow> []
      | Inr (alerts, trail) \<Rightarrow> entries_for (AS_WLED, AK_UNAVAILABLE) trail)"

lemma degradation_run:
  "map (\<lambda>(r, t). (ai_operation r, ai_now r, at_event t)) unavailable_entries =
     [(AO_ESCALATE, 20, Some LE_OPENED), (AO_RECOVER, 30, Some LE_RECOVERED),
      (AO_OPEN, 40, Some LE_OCCURRENCE_UPDATED), (AO_ARCHIVE, 900000040, Some LE_ARCHIVED),
      (AO_OPEN, 900000041, Some LE_OPENED)]"
  by code_simp

lemma degradation_sorted: "sorted (map ai_now degradation_requests)"
  by code_simp

theorem alerts_do_not_flap_witness:
  "\<exists>r0 t0 between r1 t1. unavailable_entries = (r0, t0) # between @ [(r1, t1)] \<and>
     ai_operation r0 = AO_ESCALATE \<and> length between = 3 \<and>
     (\<exists>(r, t) \<in> set between. at_event t = Some LE_RECOVERED \<and>
        min (ai_now r + 15 * 60 * 1000000) (2 ^ 63 - 1) \<le> ai_now r1)"
proof -
  obtain r0 t0 between r1 t1 where split: "unavailable_entries = (r0, t0) # between @ [(r1, t1)]"
    "ai_operation r0 = AO_ESCALATE" "length between = 3"
    "at_event t0 = Some LE_OPENED" "at_event t1 = Some LE_OPENED"
    "\<forall>(r, t) \<in> set between. at_event t \<noteq> Some LE_OPENED"
  proof -
    obtain e0 e1 e2 e3 e4 where e: "unavailable_entries = [e0, e1, e2, e3, e4]"
      using degradation_run by (auto simp: map_eq_Cons_conv)
    show thesis
      using that[of "fst e0" "snd e0" "[e1, e2, e3]" "fst e4" "snd e4", unfolded e]
        degradation_run[unfolded e]
      by (simp add: case_prod_beta)
  qed
  obtain alerts trail where run: "run_alerts Map.empty degradation_requests = Inr (alerts, trail)"
    using run_alerts_inv[OF alerts_inv_start degradation_asked] by auto
  then have "entries_for (AS_WLED, AK_UNAVAILABLE) trail = [] @ (r0, t0) # between @ (r1, t1) # []"
    using split(1) by (simp add: unavailable_entries_def)
  from alerts_do_not_flap[OF degradation_asked degradation_sorted run this split(4-6)]
  show ?thesis using split(1-3) by blast
qed

end
