(* ===== verification/Sampling_Gap.thy ===== *)
theory Sampling_Gap
  imports Health_Evaluation "HOL-Library.Sublist"
begin

text \<open>
  \<open>health_history/sampling_gap.py\<close>: the evaluator that notices when the scheduler misses its
  observations. Its phases are the only memory; the theorem at the end says which histories of
  committed observations leave it in which phase.
\<close>

section \<open>Observations and states\<close>

datatype SamplingGapEvent =
    GE_NONE | GE_CANDIDATE_STARTED | GE_CANDIDATE_CLEARED | GE_OPENED | GE_MISS_RECORDED
  | GE_RECOVERY_STARTED | GE_RECOVERY_RESET | GE_RECOVERED | GE_MARKER_RECORDED
  | GE_DUPLICATE_IGNORED | GE_PERSISTENCE_FAILED | GE_SAMPLE_UNUSABLE

record SamplingGapObservation =
  go_sequence :: int
  go_missed_intervals :: int
  go_persistence_succeeded :: bool
  go_health_collection_succeeded :: bool
  go_startup_gap_marker :: bool
  go_clock_discontinuity_marker :: bool

definition gap_observation_error :: "SamplingGapObservation \<Rightarrow> value_error option" where
  "gap_observation_error ob =
     (if \<not> (0 \<le> go_sequence ob \<and> go_sequence ob \<le> MAX_TIMESTAMP_US)
      then Some ''invalid_gap_sequence''
      else if go_missed_intervals ob < 0 then Some ''invalid_missed_intervals''
      else if go_startup_gap_marker ob \<and> go_clock_discontinuity_marker ob
      then Some ''conflicting_gap_markers''
      else None)"

definition build_gap_observation ::
  "SamplingGapObservation \<Rightarrow> value_error + SamplingGapObservation" where
  "build_gap_observation ob = (case gap_observation_error ob of None \<Rightarrow> Inr ob | Some e \<Rightarrow> Inl e)"

record SamplingGapState =
  gs_phase :: SamplingGapPhase
  gs_committed_observations :: int
  gs_largest_missed :: int
  gs_last_sequence :: "int option"

definition initial_gap :: SamplingGapState where
  "initial_gap = \<lparr>gs_phase = GP_CLEAR, gs_committed_observations = 0, gs_largest_missed = 0,
                  gs_last_sequence = None\<rparr>"

definition gap_state_error :: "SamplingGapState \<Rightarrow> value_error option" where
  "gap_state_error s =
     (if \<not> (0 \<le> gs_committed_observations s \<and> gs_committed_observations s \<le> MAX_BOUNDED_COUNTER)
      then Some ''invalid_committed_observations''
      else if \<not> (0 \<le> gs_largest_missed s \<and> gs_largest_missed s \<le> MAX_BOUNDED_COUNTER)
      then Some ''invalid_largest_missed_interval_report''
      else if (case gs_last_sequence s of None \<Rightarrow> False
               | Some q \<Rightarrow> \<not> (0 \<le> q \<and> q \<le> MAX_TIMESTAMP_US))
      then Some ''invalid_last_committed_sequence''
      else None)"

definition build_gap_state :: "SamplingGapState \<Rightarrow> value_error + SamplingGapState" where
  "build_gap_state s = (case gap_state_error s of None \<Rightarrow> Inr s | Some e \<Rightarrow> Inl e)"

record SamplingGapTransition =
  gt_previous :: SamplingGapState
  gt_state :: SamplingGapState
  gt_event :: SamplingGapEvent

definition gap_mutated :: "SamplingGapTransition \<Rightarrow> bool" where
  "gap_mutated t = (gt_state t \<noteq> gt_previous t)"

section \<open>The evaluator\<close>

definition gap_to ::
  "SamplingGapState \<Rightarrow> SamplingGapEvent \<Rightarrow> SamplingGapState
    \<Rightarrow> value_error + SamplingGapTransition" where
  "gap_to previous event s =
     map_sum id (\<lambda>s1. \<lparr>gt_previous = previous, gt_state = s1, gt_event = event\<rparr>)
       (build_gap_state s)"

definition apply_misses ::
  "SamplingGapState \<Rightarrow> SamplingGapState \<Rightarrow> int \<Rightarrow> value_error + SamplingGapTransition" where
  "apply_misses previous committed missed =
     (case build_gap_state
             (committed\<lparr>gs_largest_missed :=
                          max (gs_largest_missed previous) (min missed MAX_BOUNDED_COUNTER)\<rparr>) of
        Inl e \<Rightarrow> Inl e
      | Inr updated \<Rightarrow>
          if gs_phase previous \<in> {GP_ACTIVE, GP_RECOVERY_ONE}
          then gap_to previous
                 (if gs_phase previous = GP_RECOVERY_ONE then GE_RECOVERY_RESET
                  else GE_MISS_RECORDED)
                 (updated\<lparr>gs_phase := GP_ACTIVE\<rparr>)
          else if missed \<ge> 2 then gap_to previous GE_OPENED (updated\<lparr>gs_phase := GP_ACTIVE\<rparr>)
          else if gs_phase previous = GP_CANDIDATE_ONE
          then Inr \<lparr>gt_previous = previous, gt_state = updated, gt_event = GE_MISS_RECORDED\<rparr>
          else gap_to previous GE_CANDIDATE_STARTED (updated\<lparr>gs_phase := GP_CANDIDATE_ONE\<rparr>))"

definition evaluate_sampling_gap ::
  "SamplingGapState \<Rightarrow> SamplingGapObservation \<Rightarrow> value_error + SamplingGapTransition" where
  "evaluate_sampling_gap state ob =
     (if \<not> go_persistence_succeeded ob
      then Inr \<lparr>gt_previous = state, gt_state = state, gt_event = GE_PERSISTENCE_FAILED\<rparr>
      else if (case gs_last_sequence state of None \<Rightarrow> False | Some q \<Rightarrow> go_sequence ob \<le> q)
      then Inr \<lparr>gt_previous = state, gt_state = state, gt_event = GE_DUPLICATE_IGNORED\<rparr>
      else
        case build_gap_state
               (state\<lparr>gs_committed_observations :=
                        min (gs_committed_observations state + 1) MAX_BOUNDED_COUNTER,
                      gs_last_sequence := Some (go_sequence ob)\<rparr>) of
          Inl e \<Rightarrow> Inl e
        | Inr committed \<Rightarrow>
            let stay = (\<lambda>event. Inr \<lparr>gt_previous = state, gt_state = committed, gt_event = event\<rparr>);
                move = (\<lambda>event phase. gap_to state event (committed\<lparr>gs_phase := phase\<rparr>))
            in
            if go_clock_discontinuity_marker ob
            then if gs_phase state = GP_RECOVERY_ONE then move GE_RECOVERY_RESET GP_ACTIVE
                 else stay GE_MARKER_RECORDED
            else if go_startup_gap_marker ob \<and> go_missed_intervals ob = 0
            then stay GE_MARKER_RECORDED
            else if go_missed_intervals ob > 0
            then apply_misses state committed (go_missed_intervals ob)
            else if \<not> go_health_collection_succeeded ob then stay GE_SAMPLE_UNUSABLE
            else if gs_phase state = GP_CANDIDATE_ONE then move GE_CANDIDATE_CLEARED GP_CLEAR
            else if gs_phase state = GP_ACTIVE then move GE_RECOVERY_STARTED GP_RECOVERY_ONE
            else if gs_phase state = GP_RECOVERY_ONE then move GE_RECOVERED GP_CLEAR
            else stay GE_NONE)"

section \<open>Valid states\<close>

abbreviation gap_valid :: "SamplingGapState \<Rightarrow> bool" where
  "gap_valid s \<equiv> gap_state_error s = None"

abbreviation observation_valid :: "SamplingGapObservation \<Rightarrow> bool" where
  "observation_valid ob \<equiv> gap_observation_error ob = None"

lemma gap_valid_iff:
  "gap_valid s \<longleftrightarrow>
     0 \<le> gs_committed_observations s \<and> gs_committed_observations s \<le> MAX_BOUNDED_COUNTER \<and>
     0 \<le> gs_largest_missed s \<and> gs_largest_missed s \<le> MAX_BOUNDED_COUNTER \<and>
     (\<forall>q. gs_last_sequence s = Some q \<longrightarrow> 0 \<le> q \<and> q \<le> MAX_TIMESTAMP_US)"
  by (auto simp: gap_state_error_def split: option.splits)

lemma observation_valid_iff:
  "observation_valid ob \<longleftrightarrow>
     0 \<le> go_sequence ob \<and> go_sequence ob \<le> MAX_TIMESTAMP_US \<and> 0 \<le> go_missed_intervals ob \<and>
     \<not> (go_startup_gap_marker ob \<and> go_clock_discontinuity_marker ob)"
  by (auto simp: gap_observation_error_def)

lemma build_gap_state_valid [simp]: "gap_valid s \<Longrightarrow> build_gap_state s = Inr s"
  by (simp add: build_gap_state_def)

lemma gap_valid_initial [simp]: "gap_valid initial_gap"
  by (simp add: gap_valid_iff initial_gap_def)

text \<open>A committed observation is a signal for the phases, or none.\<close>

datatype signal = Clock_Jump | Missed int | Clean

definition committed_signal :: "SamplingGapObservation \<Rightarrow> signal option" where
  "committed_signal ob =
     (if go_clock_discontinuity_marker ob then Some Clock_Jump
      else if go_missed_intervals ob > 0 then Some (Missed (go_missed_intervals ob))
      else if go_startup_gap_marker ob \<or> \<not> go_health_collection_succeeded ob then None
      else Some Clean)"

fun next_phase :: "SamplingGapPhase \<Rightarrow> signal \<Rightarrow> SamplingGapPhase \<times> SamplingGapEvent" where
  "next_phase GP_RECOVERY_ONE Clock_Jump = (GP_ACTIVE, GE_RECOVERY_RESET)"
| "next_phase p Clock_Jump = (p, GE_MARKER_RECORDED)"
| "next_phase GP_RECOVERY_ONE (Missed n) = (GP_ACTIVE, GE_RECOVERY_RESET)"
| "next_phase GP_ACTIVE (Missed n) = (GP_ACTIVE, GE_MISS_RECORDED)"
| "next_phase p (Missed n) =
     (if n \<ge> 2 then (GP_ACTIVE, GE_OPENED)
      else (GP_CANDIDATE_ONE,
            if p = GP_CANDIDATE_ONE then GE_MISS_RECORDED else GE_CANDIDATE_STARTED))"
| "next_phase GP_CLEAR Clean = (GP_CLEAR, GE_NONE)"
| "next_phase GP_CANDIDATE_ONE Clean = (GP_CLEAR, GE_CANDIDATE_CLEARED)"
| "next_phase GP_ACTIVE Clean = (GP_RECOVERY_ONE, GE_RECOVERY_STARTED)"
| "next_phase GP_RECOVERY_ONE Clean = (GP_CLEAR, GE_RECOVERED)"

definition fresh :: "SamplingGapState \<Rightarrow> SamplingGapObservation \<Rightarrow> bool" where
  "fresh s ob \<longleftrightarrow>
     go_persistence_succeeded ob \<and> (\<forall>q. gs_last_sequence s = Some q \<longrightarrow> q < go_sequence ob)"

definition marker_event :: "SamplingGapObservation \<Rightarrow> SamplingGapEvent" where
  "marker_event ob =
     (if go_startup_gap_marker ob then GE_MARKER_RECORDED else GE_SAMPLE_UNUSABLE)"

definition after_commit :: "SamplingGapState \<Rightarrow> SamplingGapObservation \<Rightarrow> SamplingGapState" where
  "after_commit s ob =
     \<lparr>gs_phase = (case committed_signal ob of None \<Rightarrow> gs_phase s
                  | Some g \<Rightarrow> fst (next_phase (gs_phase s) g)),
      gs_committed_observations = min (gs_committed_observations s + 1) MAX_BOUNDED_COUNTER,
      gs_largest_missed =
        (if go_clock_discontinuity_marker ob then gs_largest_missed s
         else max (gs_largest_missed s) (min (go_missed_intervals ob) MAX_BOUNDED_COUNTER)),
      gs_last_sequence = Some (go_sequence ob)\<rparr>"

lemma after_commit_valid:
  "gap_valid s \<Longrightarrow> observation_valid ob \<Longrightarrow> gap_valid (after_commit s ob)"
  by (auto simp: gap_valid_iff observation_valid_iff after_commit_def)

lemma evaluate_gap_stale:
  "\<not> fresh s ob \<Longrightarrow>
   \<exists>e. evaluate_sampling_gap s ob = Inr \<lparr>gt_previous = s, gt_state = s, gt_event = e\<rparr> \<and>
       e \<in> {GE_PERSISTENCE_FAILED, GE_DUPLICATE_IGNORED}"
  by (auto simp: evaluate_sampling_gap_def fresh_def split: option.splits)

lemma evaluate_gap_fresh:
  assumes "gap_valid s" "observation_valid ob" "fresh s ob"
  shows "evaluate_sampling_gap s ob =
    Inr \<lparr>gt_previous = s, gt_state = after_commit s ob,
         gt_event = (case committed_signal ob of None \<Rightarrow> marker_event ob
                     | Some g \<Rightarrow> snd (next_phase (gs_phase s) g))\<rparr>"
proof -
  have new: "\<not> (case gs_last_sequence s of None \<Rightarrow> False | Some q \<Rightarrow> go_sequence ob \<le> q)"
    using assms(3) by (auto simp: fresh_def split: option.splits)
  let ?c = "s\<lparr>gs_committed_observations := min (gs_committed_observations s + 1) MAX_BOUNDED_COUNTER,
              gs_last_sequence := Some (go_sequence ob)\<rparr>"
  have c: "gap_valid ?c" "\<And>p. gap_valid (?c\<lparr>gs_phase := p\<rparr>)"
    using assms(1,2) by (auto simp: gap_valid_iff observation_valid_iff)
  let ?m = "?c\<lparr>gs_largest_missed :=
              max (gs_largest_missed s) (min (go_missed_intervals ob) MAX_BOUNDED_COUNTER)\<rparr>"
  have m: "gap_valid ?m" "\<And>p. gap_valid (?m\<lparr>gs_phase := p\<rparr>)"
    using assms(1,2) by (auto simp: gap_valid_iff observation_valid_iff)
  have nonneg: "0 \<le> go_missed_intervals ob" "0 \<le> gs_largest_missed s"
    using assms(1,2) by (auto simp: gap_valid_iff observation_valid_iff)
  show ?thesis
    using assms(3) new c m nonneg
    by (cases "gs_phase s"; cases "go_clock_discontinuity_marker ob";
        cases "go_missed_intervals ob > 0")
      (auto simp: evaluate_sampling_gap_def fresh_def apply_misses_def gap_to_def after_commit_def
        committed_signal_def marker_event_def Let_def max_absorb1)
qed

section \<open>Histories\<close>

fun run_gap ::
  "SamplingGapState \<Rightarrow> SamplingGapObservation list \<Rightarrow> value_error + SamplingGapState" where
  "run_gap s [] = Inr s"
| "run_gap s (ob # obs) =
     (case evaluate_sampling_gap s ob of Inl e \<Rightarrow> Inl e | Inr t \<Rightarrow> run_gap (gt_state t) obs)"

text \<open>The observations that count: persisted, with a sequence beyond all that counted before.\<close>

fun committed :: "int option \<Rightarrow> SamplingGapObservation list \<Rightarrow> SamplingGapObservation list" where
  "committed q [] = []"
| "committed q (ob # obs) =
     (if go_persistence_succeeded ob \<and> (case q of None \<Rightarrow> True | Some n \<Rightarrow> n < go_sequence ob)
      then ob # committed (Some (go_sequence ob)) obs
      else committed q obs)"

definition signals :: "SamplingGapObservation list \<Rightarrow> signal list" where
  "signals obs = List.map_filter committed_signal obs"

lemma run_gap_committed:
  assumes "gap_valid s" "\<forall>ob \<in> set obs. observation_valid ob"
  shows "run_gap s obs = Inr (fold (\<lambda>ob s. after_commit s ob) (committed (gs_last_sequence s) obs) s)
    \<and> gap_valid (fold (\<lambda>ob s. after_commit s ob) (committed (gs_last_sequence s) obs) s)"
  using assms
proof (induction obs arbitrary: s)
  case (Cons ob obs)
  show ?case
  proof (cases "fresh s ob")
    case True
    then have "go_persistence_succeeded ob \<and>
        (case gs_last_sequence s of None \<Rightarrow> True | Some n \<Rightarrow> n < go_sequence ob)"
      by (auto simp: fresh_def split: option.splits)
    moreover have "gs_last_sequence (after_commit s ob) = Some (go_sequence ob)"
      by (simp add: after_commit_def)
    ultimately show ?thesis
      using Cons.IH[of "after_commit s ob"] Cons.prems evaluate_gap_fresh[OF _ _ True]
        after_commit_valid[of s ob]
      by simp
  next
    case False
    then have "\<not> (go_persistence_succeeded ob \<and>
        (case gs_last_sequence s of None \<Rightarrow> True | Some n \<Rightarrow> n < go_sequence ob))"
      by (auto simp: fresh_def split: option.splits)
    then show ?thesis using Cons.IH[of s] Cons.prems evaluate_gap_stale[OF False] by auto
  qed
qed simp

text \<open>
  The phase after a history is that of its signals. A history has an open gap when an observation
  reported two or more missed intervals and no two consecutive clean ones followed.
\<close>

abbreviation phase_after :: "SamplingGapPhase \<Rightarrow> signal list \<Rightarrow> SamplingGapPhase" where
  "phase_after p gs \<equiv> fold (\<lambda>g p. fst (next_phase p g)) gs p"

definition gap_open :: "signal list \<Rightarrow> bool" where
  "gap_open gs \<longleftrightarrow>
     (\<exists>before n after. gs = before @ Missed n # after \<and> 2 \<le> n \<and> \<not> sublist [Clean, Clean] after)"

lemma phase_fold:
  "gs_phase (fold (\<lambda>ob s. after_commit s ob) obs s) = phase_after (gs_phase s) (signals obs)"
  by (induction obs arbitrary: s)
    (auto simp: signals_def map_filter_simps after_commit_def split: option.splits)

lemma two_clean_snoc:
  "sublist [Clean, Clean] (gs @ [g]) \<longleftrightarrow>
     sublist [Clean, Clean] gs \<or> g = Clean \<and> (\<exists>hs. gs = hs @ [Clean])"
proof -
  have "suffix [Clean, Clean] (gs @ [g]) \<longleftrightarrow> g = Clean \<and> (\<exists>hs. gs = hs @ [Clean])"
    by (auto simp: suffix_def)
  then show ?thesis by (auto simp: sublist_snoc)
qed

lemma gap_open_snoc:
  "gap_open (gs @ [g]) \<longleftrightarrow>
     (\<exists>n. g = Missed n \<and> 2 \<le> n) \<or> gap_open gs \<and> \<not> (g = Clean \<and> (\<exists>hs. gs = hs @ [Clean]))"
  (is "?l \<longleftrightarrow> ?r")
proof
  assume ?l
  then obtain before n after where h: "gs @ [g] = before @ Missed n # after" "2 \<le> n"
    "\<not> sublist [Clean, Clean] after"
    by (auto simp: gap_open_def)
  show ?r
  proof (cases after rule: rev_cases)
    case Nil
    then show ?thesis using h by simp
  next
    case (snoc after1 g1)
    then have "g1 = g" "gs = before @ Missed n # after1" using h(1) by auto
    moreover have "\<not> sublist [Clean, Clean] after1 \<and> \<not> (g = Clean \<and> (\<exists>hs. after1 = hs @ [Clean]))"
      using h(3) snoc calculation(1) by (simp add: two_clean_snoc)
    moreover from this have "\<not> (g = Clean \<and> (\<exists>hs. gs = hs @ [Clean]))"
      using calculation(2) by (cases after1 rule: rev_cases) auto
    ultimately show ?thesis using h(2) by (auto simp: gap_open_def)
  qed
next
  assume ?r
  then show ?l
  proof
    assume "\<exists>n. g = Missed n \<and> 2 \<le> n"
    then show ?l by (force simp: gap_open_def)
  next
    assume a: "gap_open gs \<and> \<not> (g = Clean \<and> (\<exists>hs. gs = hs @ [Clean]))"
    then obtain before n after where h: "gs = before @ Missed n # after" "2 \<le> n"
      "\<not> sublist [Clean, Clean] after"
      by (auto simp: gap_open_def)
    have "\<not> (g = Clean \<and> (\<exists>hs. after = hs @ [Clean]))" using a h(1) by auto
    then have "\<not> sublist [Clean, Clean] (after @ [g])" using h(3) by (simp add: two_clean_snoc)
    then have "gs @ [g] = before @ Missed n # (after @ [g]) \<and> 2 \<le> n \<and>
        \<not> sublist [Clean, Clean] (after @ [g])"
      using h by simp
    then show ?l unfolding gap_open_def by blast
  qed
qed

lemma phase_after_gap:
  "(phase_after GP_CLEAR gs \<in> {GP_ACTIVE, GP_RECOVERY_ONE} \<longleftrightarrow> gap_open gs) \<and>
   (phase_after GP_CLEAR gs = GP_RECOVERY_ONE \<longleftrightarrow> gap_open gs \<and> (\<exists>hs. gs = hs @ [Clean]))"
proof (induction gs rule: rev_induct)
  case Nil
  show ?case by (simp add: gap_open_def)
next
  case (snoc g gs)
  then show ?case
    by (cases "phase_after GP_CLEAR gs"; cases g) (auto simp: gap_open_snoc)
qed

lemma fold_counts:
  "gs_committed_observations s \<le> MAX_BOUNDED_COUNTER \<Longrightarrow>
   gs_committed_observations (fold (\<lambda>ob s. after_commit s ob) obs s) =
     min (gs_committed_observations s + int (length obs)) MAX_BOUNDED_COUNTER"
  by (induction obs arbitrary: s) (auto simp: after_commit_def)

lemma fold_last_sequence:
  "gs_last_sequence (fold (\<lambda>ob s. after_commit s ob) obs s) =
     (if obs = [] then gs_last_sequence s else Some (go_sequence (last obs)))"
  by (induction obs arbitrary: s) (auto simp: after_commit_def)

text \<open>
  C27. The phase of the gap evaluator tells exactly whether a gap is open. Given any valid
  observations from the initial state, none of the states it builds is refused by its own checks,
  and afterwards it is in an open phase exactly when, among the signals of the observations that
  counted (persisted, with a new sequence), one reported two or more missed intervals and no two
  consecutive clean ones followed it: a single missed interval never opens a gap, and clock jumps,
  startup markers and unusable samples never close one. It waits for its second clean observation
  exactly when the last signal was clean, its counter counts the observations that counted up to
  65535, and its sequence is that of the last of them.
\<close>

theorem sampling_gap_reference:
  assumes "\<forall>ob \<in> set observations. gap_observation_error ob = None"
  shows "\<exists>s. run_gap initial_gap observations = Inr s \<and> gap_state_error s = None \<and>
    (gs_phase s \<in> {GP_ACTIVE, GP_RECOVERY_ONE} \<longleftrightarrow>
       gap_open (signals (committed None observations))) \<and>
    (gs_phase s = GP_RECOVERY_ONE \<longleftrightarrow>
       gap_open (signals (committed None observations)) \<and>
       (\<exists>earlier. signals (committed None observations) = earlier @ [Clean])) \<and>
    gs_committed_observations s =
      min (int (length (committed None observations))) MAX_BOUNDED_COUNTER \<and>
    gs_last_sequence s =
      (if committed None observations = [] then None
       else Some (go_sequence (last (committed None observations))))"
proof -
  let ?s = "fold (\<lambda>ob s. after_commit s ob) (committed None observations) initial_gap"
  have "run_gap initial_gap observations = Inr ?s \<and> gap_valid ?s"
    using run_gap_committed[of initial_gap observations] assms
    by (simp add: initial_gap_def[THEN arg_cong[of _ _ gs_last_sequence]])
  moreover have "gs_phase ?s = phase_after GP_CLEAR (signals (committed None observations))"
    unfolding phase_fold by (simp add: initial_gap_def)
  ultimately show ?thesis
    using phase_after_gap[of "signals (committed None observations)"]
      fold_counts[of initial_gap "committed None observations"]
      fold_last_sequence[of "committed None observations" initial_gap]
    by (auto simp: initial_gap_def)
qed

definition sample_gap_observation :: "int \<Rightarrow> int \<Rightarrow> SamplingGapObservation" where
  "sample_gap_observation sequence missed =
     \<lparr>go_sequence = sequence, go_missed_intervals = missed, go_persistence_succeeded = True,
      go_health_collection_succeeded = True, go_startup_gap_marker = False,
      go_clock_discontinuity_marker = False\<rparr>"

definition sample_observations :: "SamplingGapObservation list" where
  "sample_observations =
     [sample_gap_observation 1 0, sample_gap_observation 2 1, sample_gap_observation 2 5,
      sample_gap_observation 3 4, sample_gap_observation 4 0]"

theorem sampling_gap_reference_witness:
  "list_all (\<lambda>ob. gap_observation_error ob = None) sample_observations \<and>
   (\<exists>s. run_gap initial_gap sample_observations = Inr s \<and> gs_phase s = GP_RECOVERY_ONE \<and>
     gs_committed_observations s = 4 \<and> gs_last_sequence s = Some 4)"
proof -
  have valid: "\<forall>ob \<in> set sample_observations. gap_observation_error ob = None"
    by (simp add: sample_observations_def sample_gap_observation_def gap_observation_error_def bounds)
  have signals: "committed None sample_observations =
      [sample_gap_observation 1 0, sample_gap_observation 2 1, sample_gap_observation 3 4,
       sample_gap_observation 4 0]"
    "signals (committed None sample_observations) = [Clean, Missed 1, Missed 4, Clean]"
    by code_simp+
  have "[Clean, Missed 1, Missed 4, Clean] = [Clean, Missed 1] @ Missed 4 # [Clean] \<and>
      2 \<le> (4::int) \<and> \<not> sublist [Clean, Clean] [Clean]"
    by code_simp
  then have "gap_open (signals (committed None sample_observations))"
    unfolding signals(2) gap_open_def by blast
  moreover have "signals (committed None sample_observations) = [Clean, Missed 1, Missed 4] @ [Clean]"
    using signals by simp
  ultimately show ?thesis
    using sampling_gap_reference[OF valid] valid
    by (auto simp: list_all_iff signals(1) sample_gap_observation_def bounds)
qed

end
