(* ===== verification/Health_Reasons.thy ===== *)
theory Health_Reasons
  imports Health_Evaluation Json_Value
begin

text \<open>
  \<open>health_history/reasons.py\<close>: the closed registry of reasons, and the normaliser that turns the
  details of one collector into one to three of them. The details are a dictionary of the Python
  values of \<open>Json_Value\<close>; the checks that its keys are strings and that it is a mapping are kept
  by its type.
\<close>

section \<open>The registry\<close>

datatype NormalizedReason =
    NR_WLED_DISABLED
  | NR_WLED_COLLECTOR_FAILED
  | NR_WLED_HEALTHY
  | NR_WLED_INFO_LED_COUNT_MISMATCH
  | NR_WLED_INFO_CONNECTION_FAILED
  | NR_WLED_INFO_TIMEOUT
  | NR_WLED_INFO_REDIRECT_REJECTED
  | NR_WLED_INFO_HTTP_ERROR
  | NR_WLED_INFO_RESPONSE_TOO_LARGE
  | NR_WLED_INFO_INVALID_JSON
  | NR_WLED_INFO_INVALID_RESPONSE
  | NR_WLED_STATE_CONNECTION_FAILED
  | NR_WLED_STATE_TIMEOUT
  | NR_WLED_STATE_REDIRECT_REJECTED
  | NR_WLED_STATE_HTTP_ERROR
  | NR_WLED_STATE_RESPONSE_TOO_LARGE
  | NR_WLED_STATE_INVALID_JSON
  | NR_WLED_STATE_INVALID_RESPONSE
  | NR_HYPERHDR_DISABLED
  | NR_HYPERHDR_COLLECTOR_FAILED
  | NR_HYPERHDR_HEALTHY
  | NR_HYPERHDR_CONNECTION_FAILED
  | NR_HYPERHDR_TIMEOUT
  | NR_HYPERHDR_REDIRECT_REJECTED
  | NR_HYPERHDR_AUTHORIZATION_REQUIRED
  | NR_HYPERHDR_HTTP_ERROR
  | NR_HYPERHDR_RESPONSE_TOO_LARGE
  | NR_HYPERHDR_INVALID_JSON
  | NR_HYPERHDR_INVALID_RESPONSE
  | NR_HYPERHDR_SERVER_REPORTED_FAILURE
  | NR_HYPERHDR_INSTANCE_INACTIVE
  | NR_HYPERHDR_VIDEO_GRABBER_INACTIVE
  | NR_HYPERHDR_LED_OUTPUT_INACTIVE
  | NR_CAPTURE_DISABLED
  | NR_CAPTURE_COLLECTOR_FAILED
  | NR_CAPTURE_HEALTHY
  | NR_CAPTURE_UNSUPPORTED_PLATFORM
  | NR_CAPTURE_DEVICE_NOT_FOUND
  | NR_CAPTURE_PROBE_FAILED
  | NR_CAPTURE_SYMLINK_RESOLUTION_FAILED
  | NR_CAPTURE_INVALID_DEVICE_TARGET
  | NR_CAPTURE_NOT_CHARACTER_DEVICE
  | NR_CAPTURE_V4L2_REGISTRATION_MISSING
  | NR_CAPTURE_METADATA_UNAVAILABLE
  | NR_CAPTURE_INVALID_DEVICE_NAME
  | NR_CAPTURE_PERMISSION_DENIED
  | NR_CAPTURE_GRABBER_INACTIVE
  | NR_CAPTURE_ACTIVITY_UNREPORTED
  | NR_RASPBERRY_PI_COLLECTOR_FAILED
  | NR_RASPBERRY_PI_HEALTHY
  | NR_RASPBERRY_PI_DEGRADED
  | NR_RASPBERRY_PI_UNAVAILABLE

definition ALL_REASONS :: "NormalizedReason list" where
  "ALL_REASONS =
     [NR_WLED_DISABLED, NR_WLED_COLLECTOR_FAILED,
      NR_WLED_HEALTHY, NR_WLED_INFO_LED_COUNT_MISMATCH,
      NR_WLED_INFO_CONNECTION_FAILED, NR_WLED_INFO_TIMEOUT,
      NR_WLED_INFO_REDIRECT_REJECTED, NR_WLED_INFO_HTTP_ERROR,
      NR_WLED_INFO_RESPONSE_TOO_LARGE, NR_WLED_INFO_INVALID_JSON,
      NR_WLED_INFO_INVALID_RESPONSE, NR_WLED_STATE_CONNECTION_FAILED,
      NR_WLED_STATE_TIMEOUT, NR_WLED_STATE_REDIRECT_REJECTED,
      NR_WLED_STATE_HTTP_ERROR, NR_WLED_STATE_RESPONSE_TOO_LARGE,
      NR_WLED_STATE_INVALID_JSON, NR_WLED_STATE_INVALID_RESPONSE,
      NR_HYPERHDR_DISABLED, NR_HYPERHDR_COLLECTOR_FAILED,
      NR_HYPERHDR_HEALTHY, NR_HYPERHDR_CONNECTION_FAILED,
      NR_HYPERHDR_TIMEOUT, NR_HYPERHDR_REDIRECT_REJECTED,
      NR_HYPERHDR_AUTHORIZATION_REQUIRED, NR_HYPERHDR_HTTP_ERROR,
      NR_HYPERHDR_RESPONSE_TOO_LARGE, NR_HYPERHDR_INVALID_JSON,
      NR_HYPERHDR_INVALID_RESPONSE, NR_HYPERHDR_SERVER_REPORTED_FAILURE,
      NR_HYPERHDR_INSTANCE_INACTIVE, NR_HYPERHDR_VIDEO_GRABBER_INACTIVE,
      NR_HYPERHDR_LED_OUTPUT_INACTIVE, NR_CAPTURE_DISABLED,
      NR_CAPTURE_COLLECTOR_FAILED, NR_CAPTURE_HEALTHY,
      NR_CAPTURE_UNSUPPORTED_PLATFORM, NR_CAPTURE_DEVICE_NOT_FOUND,
      NR_CAPTURE_PROBE_FAILED, NR_CAPTURE_SYMLINK_RESOLUTION_FAILED,
      NR_CAPTURE_INVALID_DEVICE_TARGET, NR_CAPTURE_NOT_CHARACTER_DEVICE,
      NR_CAPTURE_V4L2_REGISTRATION_MISSING, NR_CAPTURE_METADATA_UNAVAILABLE,
      NR_CAPTURE_INVALID_DEVICE_NAME, NR_CAPTURE_PERMISSION_DENIED,
      NR_CAPTURE_GRABBER_INACTIVE, NR_CAPTURE_ACTIVITY_UNREPORTED,
      NR_RASPBERRY_PI_COLLECTOR_FAILED, NR_RASPBERRY_PI_HEALTHY,
      NR_RASPBERRY_PI_DEGRADED, NR_RASPBERRY_PI_UNAVAILABLE]"

fun reason_value :: "NormalizedReason \<Rightarrow> string" where
  "reason_value NR_WLED_DISABLED = ''wled.disabled''"
| "reason_value NR_WLED_COLLECTOR_FAILED = ''wled.collector_failed''"
| "reason_value NR_WLED_HEALTHY = ''wled.healthy''"
| "reason_value NR_WLED_INFO_LED_COUNT_MISMATCH = ''wled.info.led_count_mismatch''"
| "reason_value NR_WLED_INFO_CONNECTION_FAILED = ''wled.info.connection_failed''"
| "reason_value NR_WLED_INFO_TIMEOUT = ''wled.info.timeout''"
| "reason_value NR_WLED_INFO_REDIRECT_REJECTED = ''wled.info.redirect_rejected''"
| "reason_value NR_WLED_INFO_HTTP_ERROR = ''wled.info.http_error''"
| "reason_value NR_WLED_INFO_RESPONSE_TOO_LARGE = ''wled.info.response_too_large''"
| "reason_value NR_WLED_INFO_INVALID_JSON = ''wled.info.invalid_json''"
| "reason_value NR_WLED_INFO_INVALID_RESPONSE = ''wled.info.invalid_response''"
| "reason_value NR_WLED_STATE_CONNECTION_FAILED = ''wled.state.connection_failed''"
| "reason_value NR_WLED_STATE_TIMEOUT = ''wled.state.timeout''"
| "reason_value NR_WLED_STATE_REDIRECT_REJECTED = ''wled.state.redirect_rejected''"
| "reason_value NR_WLED_STATE_HTTP_ERROR = ''wled.state.http_error''"
| "reason_value NR_WLED_STATE_RESPONSE_TOO_LARGE = ''wled.state.response_too_large''"
| "reason_value NR_WLED_STATE_INVALID_JSON = ''wled.state.invalid_json''"
| "reason_value NR_WLED_STATE_INVALID_RESPONSE = ''wled.state.invalid_response''"
| "reason_value NR_HYPERHDR_DISABLED = ''hyperhdr.disabled''"
| "reason_value NR_HYPERHDR_COLLECTOR_FAILED = ''hyperhdr.collector_failed''"
| "reason_value NR_HYPERHDR_HEALTHY = ''hyperhdr.healthy''"
| "reason_value NR_HYPERHDR_CONNECTION_FAILED = ''hyperhdr.connection_failed''"
| "reason_value NR_HYPERHDR_TIMEOUT = ''hyperhdr.timeout''"
| "reason_value NR_HYPERHDR_REDIRECT_REJECTED = ''hyperhdr.redirect_rejected''"
| "reason_value NR_HYPERHDR_AUTHORIZATION_REQUIRED = ''hyperhdr.authorization_required''"
| "reason_value NR_HYPERHDR_HTTP_ERROR = ''hyperhdr.http_error''"
| "reason_value NR_HYPERHDR_RESPONSE_TOO_LARGE = ''hyperhdr.response_too_large''"
| "reason_value NR_HYPERHDR_INVALID_JSON = ''hyperhdr.invalid_json''"
| "reason_value NR_HYPERHDR_INVALID_RESPONSE = ''hyperhdr.invalid_response''"
| "reason_value NR_HYPERHDR_SERVER_REPORTED_FAILURE = ''hyperhdr.server_reported_failure''"
| "reason_value NR_HYPERHDR_INSTANCE_INACTIVE = ''hyperhdr.instance_inactive''"
| "reason_value NR_HYPERHDR_VIDEO_GRABBER_INACTIVE = ''hyperhdr.video_grabber_inactive''"
| "reason_value NR_HYPERHDR_LED_OUTPUT_INACTIVE = ''hyperhdr.led_output_inactive''"
| "reason_value NR_CAPTURE_DISABLED = ''capture.disabled''"
| "reason_value NR_CAPTURE_COLLECTOR_FAILED = ''capture.collector_failed''"
| "reason_value NR_CAPTURE_HEALTHY = ''capture.healthy''"
| "reason_value NR_CAPTURE_UNSUPPORTED_PLATFORM = ''capture.unsupported_platform''"
| "reason_value NR_CAPTURE_DEVICE_NOT_FOUND = ''capture.device_not_found''"
| "reason_value NR_CAPTURE_PROBE_FAILED = ''capture.probe_failed''"
| "reason_value NR_CAPTURE_SYMLINK_RESOLUTION_FAILED = ''capture.symlink_resolution_failed''"
| "reason_value NR_CAPTURE_INVALID_DEVICE_TARGET = ''capture.invalid_device_target''"
| "reason_value NR_CAPTURE_NOT_CHARACTER_DEVICE = ''capture.not_character_device''"
| "reason_value NR_CAPTURE_V4L2_REGISTRATION_MISSING = ''capture.v4l2_registration_missing''"
| "reason_value NR_CAPTURE_METADATA_UNAVAILABLE = ''capture.metadata_unavailable''"
| "reason_value NR_CAPTURE_INVALID_DEVICE_NAME = ''capture.invalid_device_name''"
| "reason_value NR_CAPTURE_PERMISSION_DENIED = ''capture.permission_denied''"
| "reason_value NR_CAPTURE_GRABBER_INACTIVE = ''capture.grabber_inactive''"
| "reason_value NR_CAPTURE_ACTIVITY_UNREPORTED = ''capture.activity_unreported''"
| "reason_value NR_RASPBERRY_PI_COLLECTOR_FAILED = ''raspberry_pi.collector_failed''"
| "reason_value NR_RASPBERRY_PI_HEALTHY = ''raspberry_pi.healthy''"
| "reason_value NR_RASPBERRY_PI_DEGRADED = ''raspberry_pi.degraded''"
| "reason_value NR_RASPBERRY_PI_UNAVAILABLE = ''raspberry_pi.unavailable''"

definition reason_of :: "string \<Rightarrow> NormalizedReason option" where
  "reason_of = member_of ALL_REASONS reason_value"

datatype RejectionCode =
    RC_UNKNOWN_SCHEMA | RC_UNKNOWN_COMPONENT | RC_UNKNOWN_STATUS | RC_UNKNOWN_DETAILS
  | RC_UNKNOWN_VALUE | RC_INCONSISTENT_SNAPSHOT

text \<open>An accepted result holds one to three reasons; its constructor raises on any other number.\<close>

datatype ReasonResult = Reasons_Accepted "NormalizedReason list" | Reasons_Rejected RejectionCode

definition accept_reasons :: "NormalizedReason list \<Rightarrow> value_error + ReasonResult" where
  "accept_reasons rs =
     (if 1 \<le> length rs \<and> length rs \<le> 3 then Inr (Reasons_Accepted rs)
      else Inl ''invalid_accepted_reason_result'')"

definition reject_reasons :: "RejectionCode \<Rightarrow> value_error + ReasonResult" where
  "reject_reasons code = Inr (Reasons_Rejected code)"

section \<open>Vocabularies of the collectors\<close>

type_synonym details = "(string, json) dict"

definition NETWORK_UNAVAILABLE :: "string list" where
  "NETWORK_UNAVAILABLE = [''connection_failed'', ''timeout'']"

definition WLED_FAILURES :: "string list" where
  "WLED_FAILURES =
     [''connection_failed'', ''timeout'', ''redirect_rejected'', ''http_error'',
      ''response_too_large'', ''invalid_json'', ''invalid_response'']"

definition WLED_INFO_REASONS :: "string list" where
  "WLED_INFO_REASONS = WLED_FAILURES @ [''validated'', ''led_count_mismatch'']"

definition WLED_STATE_REASONS :: "string list" where
  "WLED_STATE_REASONS = WLED_FAILURES @ [''validated'']"

definition HYPERHDR_FAILURES :: "string list" where
  "HYPERHDR_FAILURES =
     [''connection_failed'', ''timeout'', ''redirect_rejected'', ''authorization_required'',
      ''http_error'', ''response_too_large'', ''invalid_json'', ''invalid_response'',
      ''server_reported_failure'']"

definition CAPTURE_REASONS :: "string list" where
  "CAPTURE_REASONS =
     [''validated'', ''capture_device_disabled'', ''unsupported_platform'', ''device_not_found'',
      ''probe_failed'', ''symlink_resolution_failed'', ''invalid_device_target'',
      ''not_character_device'', ''v4l2_registration_missing'', ''metadata_unavailable'',
      ''invalid_device_name'', ''permission_denied'']"

definition CAPTURE_UNAVAILABLE :: "string list" where
  "CAPTURE_UNAVAILABLE =
     [''capture_device_disabled'', ''device_not_found'', ''probe_failed'',
      ''symlink_resolution_failed'', ''unsupported_platform'']"

definition WLED_DETAIL_KEYS :: "string list" where
  "WLED_DETAIL_KEYS =
     [''info_reason_code'', ''state_reason_code'', ''firmware_version'', ''uptime_seconds'',
      ''reported_led_count'', ''expected_led_count'', ''expected_active_led_count'',
      ''expected_skipped_leds'', ''led_count_matches'', ''estimated_current_milliamps'',
      ''current_limit_milliamps'', ''brightness'', ''output_on'']"

definition HYPERHDR_STATE_KEYS :: "string list" where
  "HYPERHDR_STATE_KEYS =
     [''hdr_mode_enabled'', ''instance_running'', ''grabber_active'', ''led_output_active'']"

definition HYPERHDR_DETAIL_KEYS :: "string list" where
  "HYPERHDR_DETAIL_KEYS = [''reason_code'', ''server_info_received''] @ HYPERHDR_STATE_KEYS"

definition CAPTURE_DETAIL_KEYS :: "string list" where
  "CAPTURE_DETAIL_KEYS =
     [''reason_code'', ''device_node_present'', ''character_device'', ''v4l2_registered'',
      ''process_read_access'', ''device_name'']"

definition CAPTURE_ACTIVITY_KEYS :: "string list" where
  "CAPTURE_ACTIVITY_KEYS = [''activity_source'', ''grabber_active'']"

definition PI_DETAIL_KEYS :: "string list" where
  "PI_DETAIL_KEYS =
     [''cpu_temperature_c'', ''cpu_temperature_warning_c'', ''load_average_1m'',
      ''load_average_5m'', ''load_average_15m'', ''logical_cpu_count'', ''memory_used_percent'',
      ''memory_warning_percent'', ''root_storage_used_percent'', ''storage_warning_percent'',
      ''host_uptime_seconds'']"

definition wled_info_map :: "string \<Rightarrow> NormalizedReason option" where
  "wled_info_map v =
     (if v \<in> set (WLED_FAILURES @ [''led_count_mismatch'']) then reason_of (''wled.info.'' @ v)
      else None)"

definition wled_state_map :: "string \<Rightarrow> NormalizedReason option" where
  "wled_state_map v =
     (if v \<in> set WLED_FAILURES then reason_of (''wled.state.'' @ v) else None)"

definition hyperhdr_map :: "string \<Rightarrow> NormalizedReason option" where
  "hyperhdr_map v =
     (if v \<in> set HYPERHDR_FAILURES then reason_of (''hyperhdr.'' @ v) else None)"

definition capture_map :: "string \<Rightarrow> NormalizedReason option" where
  "capture_map = map_of
     [(''unsupported_platform'', NR_CAPTURE_UNSUPPORTED_PLATFORM),
      (''device_not_found'', NR_CAPTURE_DEVICE_NOT_FOUND),
      (''probe_failed'', NR_CAPTURE_PROBE_FAILED),
      (''symlink_resolution_failed'', NR_CAPTURE_SYMLINK_RESOLUTION_FAILED),
      (''invalid_device_target'', NR_CAPTURE_INVALID_DEVICE_TARGET),
      (''not_character_device'', NR_CAPTURE_NOT_CHARACTER_DEVICE),
      (''v4l2_registration_missing'', NR_CAPTURE_V4L2_REGISTRATION_MISSING),
      (''metadata_unavailable'', NR_CAPTURE_METADATA_UNAVAILABLE),
      (''invalid_device_name'', NR_CAPTURE_INVALID_DEVICE_NAME),
      (''permission_denied'', NR_CAPTURE_PERMISSION_DENIED)]"

section \<open>The normaliser\<close>

text \<open>\<open>set(details) == keys\<close>, and \<open>details[key]\<close> once the key is known to be there.\<close>

definition has_keys :: "details \<Rightarrow> string list \<Rightarrow> bool" where
  "has_keys details keys \<longleftrightarrow> set (dict_keys details) = set keys"

definition detail :: "details \<Rightarrow> string \<Rightarrow> json" where
  "detail details key = (case dict_get details key of None \<Rightarrow> JNull | Some v \<Rightarrow> v)"

fun is_bool :: "json \<Rightarrow> bool" where
  "is_bool (JBool b) = True"
| "is_bool _ = False"

fun is_number :: "json \<Rightarrow> bool" where
  "is_number (JInt i) = True"
| "is_number (JFloat f) = True"
| "is_number _ = False"

definition only_reason :: "details \<Rightarrow> string \<Rightarrow> bool" where
  "only_reason details code \<longleftrightarrow> details = [(''reason_code'', JString code)]"

definition collector_failed :: "string \<Rightarrow> NormalizedReason \<Rightarrow> value_error + ReasonResult" where
  "collector_failed status reason =
     (if status = ''unavailable'' then accept_reasons [reason]
      else reject_reasons RC_INCONSISTENT_SNAPSHOT)"

definition fixed_wled_reason ::
  "string \<Rightarrow> details \<Rightarrow> (value_error + ReasonResult) option" where
  "fixed_wled_reason status details =
     (if \<not> has_keys details [''reason_code''] then None
      else case detail details ''reason_code'' of
             JString reason \<Rightarrow>
               if reason = ''collector_failed''
               then Some (collector_failed status NR_WLED_COLLECTOR_FAILED)
               else if reason = ''wled_disabled''
               then Some (collector_failed status NR_WLED_DISABLED)
               else None
           | _ \<Rightarrow> None)"

definition wled_health_status :: "string \<Rightarrow> string \<Rightarrow> string" where
  "wled_health_status info state =
     (let info_status =
            (if info = ''validated'' then ''healthy''
             else if info = ''led_count_mismatch'' \<or> info \<notin> set NETWORK_UNAVAILABLE
             then ''degraded'' else ''unavailable'');
          state_status =
            (if state = ''validated'' then ''healthy''
             else if state \<in> set NETWORK_UNAVAILABLE then ''unavailable'' else ''degraded'')
      in if info_status = state_status \<and> state_status = ''healthy'' then ''healthy''
         else if info_status = state_status \<and> state_status = ''unavailable'' then ''unavailable''
         else ''degraded'')"

definition normalize_wled :: "string \<Rightarrow> details \<Rightarrow> value_error + ReasonResult" where
  "normalize_wled status details =
     (case fixed_wled_reason status details of
        Some result \<Rightarrow> result
      | None \<Rightarrow>
          if \<not> has_keys details WLED_DETAIL_KEYS then reject_reasons RC_UNKNOWN_DETAILS
          else case (detail details ''info_reason_code'', detail details ''state_reason_code'') of
                 (JString info, JString state) \<Rightarrow>
                   if info \<notin> set WLED_INFO_REASONS \<or> state \<notin> set WLED_STATE_REASONS
                   then reject_reasons RC_UNKNOWN_VALUE
                   else if status \<noteq> wled_health_status info state
                   then reject_reasons RC_INCONSISTENT_SNAPSHOT
                   else if info = state \<and> state = ''validated''
                   then accept_reasons [NR_WLED_HEALTHY]
                   else accept_reasons
                          (List.map_filter id [wled_info_map info, wled_state_map state])
               | _ \<Rightarrow> reject_reasons RC_UNKNOWN_VALUE)"

definition hyperhdr_states :: "(string \<times> NormalizedReason) list" where
  "hyperhdr_states =
     [(''instance_running'', NR_HYPERHDR_INSTANCE_INACTIVE),
      (''grabber_active'', NR_HYPERHDR_VIDEO_GRABBER_INACTIVE),
      (''led_output_active'', NR_HYPERHDR_LED_OUTPUT_INACTIVE)]"

definition inactive_reasons :: "details \<Rightarrow> NormalizedReason list" where
  "inactive_reasons details =
     map snd (filter (\<lambda>(key, reason). detail details key = JBool False) hyperhdr_states)"

definition hyperhdr_empty :: "details \<Rightarrow> bool" where
  "hyperhdr_empty details \<longleftrightarrow>
     detail details ''server_info_received'' = JBool False \<and>
     list_all (\<lambda>key. detail details key = JNull) HYPERHDR_STATE_KEYS"

definition normalize_hyperhdr :: "string \<Rightarrow> details \<Rightarrow> value_error + ReasonResult" where
  "normalize_hyperhdr status details =
     (if only_reason details ''collector_failed''
      then collector_failed status NR_HYPERHDR_COLLECTOR_FAILED
      else if \<not> has_keys details HYPERHDR_DETAIL_KEYS then reject_reasons RC_UNKNOWN_DETAILS
      else case detail details ''reason_code'' of
             JString reason \<Rightarrow>
               if \<not> is_bool (detail details ''server_info_received'') \<or>
                  list_ex (\<lambda>key. detail details key \<noteq> JNull \<and> \<not> is_bool (detail details key))
                    HYPERHDR_STATE_KEYS
               then reject_reasons RC_UNKNOWN_VALUE
               else if \<not> (reason = ''hyperhdr_disabled'' \<or> reason = ''validated'' \<or>
                          reason \<in> set HYPERHDR_FAILURES)
               then reject_reasons RC_UNKNOWN_VALUE
               else if reason = ''hyperhdr_disabled''
               then if status \<noteq> ''unavailable'' \<or> \<not> hyperhdr_empty details
                    then reject_reasons RC_INCONSISTENT_SNAPSHOT
                    else accept_reasons [NR_HYPERHDR_DISABLED]
               else if reason \<in> set HYPERHDR_FAILURES
               then if status \<noteq> (if reason \<in> set NETWORK_UNAVAILABLE then ''unavailable''
                                  else ''degraded'') \<or> \<not> hyperhdr_empty details
                    then reject_reasons RC_INCONSISTENT_SNAPSHOT
                    else accept_reasons (List.map_filter id [hyperhdr_map reason])
               else if detail details ''server_info_received'' \<noteq> JBool True \<or>
                       list_ex (\<lambda>(key, _). \<not> is_bool (detail details key)) hyperhdr_states
               then reject_reasons RC_INCONSISTENT_SNAPSHOT
               else if status \<noteq> (if inactive_reasons details \<noteq> [] then ''degraded''
                                 else ''healthy'')
               then reject_reasons RC_INCONSISTENT_SNAPSHOT
               else accept_reasons (if inactive_reasons details \<noteq> [] then inactive_reasons details
                                    else [NR_HYPERHDR_HEALTHY])
           | _ \<Rightarrow> reject_reasons RC_UNKNOWN_VALUE)"

definition capture_activity :: "details \<Rightarrow> RejectionCode + json" where
  "capture_activity details =
     (if has_keys details CAPTURE_DETAIL_KEYS then Inr (JBool True)
      else if has_keys details (CAPTURE_DETAIL_KEYS @ CAPTURE_ACTIVITY_KEYS)
      then if detail details ''activity_source'' \<noteq> JString ''HyperHDR serverinfo''
           then Inl RC_UNKNOWN_VALUE
           else let activity = detail details ''grabber_active''
                in if activity \<noteq> JNull \<and> \<not> is_bool activity then Inl RC_UNKNOWN_VALUE
                   else Inr activity
      else Inl RC_UNKNOWN_DETAILS)"

definition capture_base_status :: "string \<Rightarrow> string" where
  "capture_base_status reason =
     (if reason = ''validated'' then ''healthy''
      else if reason \<in> set CAPTURE_UNAVAILABLE then ''unavailable'' else ''degraded'')"

definition capture_reason_list :: "string \<Rightarrow> NormalizedReason list" where
  "capture_reason_list reason =
     (if reason = ''capture_device_disabled'' then [NR_CAPTURE_DISABLED]
      else if reason = ''validated'' then [NR_CAPTURE_HEALTHY]
      else List.map_filter id [capture_map reason])"

definition normalize_capture :: "string \<Rightarrow> details \<Rightarrow> value_error + ReasonResult" where
  "normalize_capture status details =
     (if only_reason details ''collector_failed''
      then collector_failed status NR_CAPTURE_COLLECTOR_FAILED
      else case capture_activity details of
             Inl code \<Rightarrow> reject_reasons code
           | Inr activity \<Rightarrow>
               (case detail details ''reason_code'' of
                  JString reason \<Rightarrow>
                    if reason \<notin> set CAPTURE_REASONS then reject_reasons RC_UNKNOWN_VALUE
                    else
                      let base = capture_base_status reason
                      in if status \<noteq> (if base \<noteq> ''unavailable'' \<and> activity \<noteq> JBool True
                                      then ''degraded'' else base)
                         then reject_reasons RC_INCONSISTENT_SNAPSHOT
                         else accept_reasons
                                (capture_reason_list reason @
                                 (if base \<noteq> ''unavailable'' \<and> activity = JBool False
                                  then [NR_CAPTURE_GRABBER_INACTIVE]
                                  else if base \<noteq> ''unavailable'' \<and> activity = JNull
                                  then [NR_CAPTURE_ACTIVITY_UNREPORTED] else []))
                | _ \<Rightarrow> reject_reasons RC_UNKNOWN_VALUE))"

definition pi_reasons :: "(string, NormalizedReason) dict" where
  "pi_reasons =
     [(''healthy'', NR_RASPBERRY_PI_HEALTHY), (''degraded'', NR_RASPBERRY_PI_DEGRADED),
      (''unavailable'', NR_RASPBERRY_PI_UNAVAILABLE)]"

definition normalize_pi :: "string \<Rightarrow> details \<Rightarrow> value_error + ReasonResult" where
  "normalize_pi status details =
     (if only_reason details ''collector_failed''
      then collector_failed status NR_RASPBERRY_PI_COLLECTOR_FAILED
      else if \<not> has_keys details PI_DETAIL_KEYS then reject_reasons RC_UNKNOWN_DETAILS
      else if list_ex (\<lambda>(_, v). v \<noteq> JNull \<and> \<not> is_number v) details
      then reject_reasons RC_UNKNOWN_VALUE
      else accept_reasons (List.map_filter id [dict_get pi_reasons status]))"

definition normalize_component_reason ::
  "int \<Rightarrow> string \<Rightarrow> string \<Rightarrow> details \<Rightarrow> value_error + ReasonResult" where
  "normalize_component_reason schema_version component status details =
     (if schema_version \<noteq> 1 then reject_reasons RC_UNKNOWN_SCHEMA
      else if component \<notin> {''wled'', ''hyperhdr'', ''capture'', ''raspberry_pi''}
      then reject_reasons RC_UNKNOWN_COMPONENT
      else if status \<notin> {''healthy'', ''degraded'', ''unavailable''}
      then reject_reasons RC_UNKNOWN_STATUS
      else if component = ''wled'' then normalize_wled status details
      else if component = ''hyperhdr'' then normalize_hyperhdr status details
      else if component = ''capture'' then normalize_capture status details
      else normalize_pi status details)"

section \<open>Accepted reasons belong to their component\<close>

lemma reason_of_value [simp]: "reason_of (reason_value r) = Some r"
  by (cases r) (simp_all add: reason_of_def member_of_def ALL_REASONS_def)

lemma reason_of_Some: "reason_of s = Some r \<longleftrightarrow> s = reason_value r"
  using reason_of_value[of r] by (auto simp: reason_of_def dest: member_of_Some)

lemma reason_value_inj [simp]: "reason_value r = reason_value r' \<longleftrightarrow> r = r'"
  by (metis option.inject reason_of_value)

definition reason_in :: "string \<Rightarrow> NormalizedReason \<Rightarrow> bool" where
  "reason_in component r \<longleftrightarrow> starts_with (component @ ''.'') (reason_value r)"

definition maximum_reasons :: "ComponentName \<Rightarrow> nat" where
  "maximum_reasons c =
     (case c of CN_WLED \<Rightarrow> 2 | CN_HYPERHDR \<Rightarrow> 3 | CN_CAPTURE \<Rightarrow> 2 | CN_RASPBERRY_PI \<Rightarrow> 1)"

definition reasons_fit :: "ComponentName \<Rightarrow> NormalizedReason list \<Rightarrow> bool" where
  "reasons_fit c rs \<longleftrightarrow>
     1 \<le> length rs \<and> length rs \<le> maximum_reasons c \<and> distinct rs \<and>
     list_all (reason_in (component_value c)) rs"

lemma maximum_reasons_le: "maximum_reasons c \<le> 3"
  by (cases c) (simp_all add: maximum_reasons_def)

definition fits_or_rejected :: "ComponentName \<Rightarrow> value_error + ReasonResult \<Rightarrow> bool" where
  "fits_or_rejected c result \<longleftrightarrow>
     (\<exists>code. result = Inr (Reasons_Rejected code)) \<or>
     (\<exists>rs. result = Inr (Reasons_Accepted rs) \<and> reasons_fit c rs)"

lemma fits_reject [simp]: "fits_or_rejected c (reject_reasons code)"
  by (simp add: fits_or_rejected_def reject_reasons_def)

lemma fits_accept [simp]: "fits_or_rejected c (accept_reasons rs) \<longleftrightarrow> reasons_fit c rs"
  using maximum_reasons_le[of c]
  by (auto simp: fits_or_rejected_def accept_reasons_def reasons_fit_def)

lemma fits_collector_failed:
  "reasons_fit c [r] \<Longrightarrow> fits_or_rejected c (collector_failed status r)"
  by (simp add: collector_failed_def)

lemma reasons_fit_1:
  "reasons_fit c [r] \<longleftrightarrow> reason_in (component_value c) r"
  by (cases c) (simp_all add: reasons_fit_def maximum_reasons_def)

lemma mapped_prefix:
  "wled_info_map v = Some r \<Longrightarrow> reason_value r = ''wled.info.'' @ v"
  "wled_state_map v = Some r \<Longrightarrow> reason_value r = ''wled.state.'' @ v"
  "hyperhdr_map v = Some r \<Longrightarrow> reason_value r = ''hyperhdr.'' @ v"
  by (auto simp: wled_info_map_def wled_state_map_def hyperhdr_map_def reason_of_Some
      split: if_splits)

lemma wled_maps:
  assumes "info \<in> set WLED_INFO_REASONS" "state \<in> set WLED_STATE_REASONS"
    and "\<not> (info = state \<and> state = ''validated'')"
  shows "reasons_fit CN_WLED (List.map_filter id [wled_info_map info, wled_state_map state])"
proof -
  have some: "wled_info_map i \<noteq> None" if "i \<in> set WLED_INFO_REASONS" "i \<noteq> ''validated''" for i
    using that
    by (auto simp: WLED_INFO_REASONS_def WLED_FAILURES_def wled_info_map_def reason_of_def
        member_of_def ALL_REASONS_def)
  have some': "wled_state_map i \<noteq> None" if "i \<in> set WLED_STATE_REASONS" "i \<noteq> ''validated''" for i
    using that
    by (auto simp: WLED_STATE_REASONS_def WLED_FAILURES_def wled_state_map_def reason_of_def
        member_of_def ALL_REASONS_def)
  have "wled_info_map info \<noteq> None \<or> wled_state_map state \<noteq> None"
    using assms some[of info] some'[of state] by auto
  moreover have "r \<noteq> r'" if "wled_info_map info = Some r" "wled_state_map state = Some r'" for r r'
    using mapped_prefix(1)[OF that(1)] mapped_prefix(2)[OF that(2)] by auto
  ultimately show ?thesis
    using mapped_prefix
    by (cases "wled_info_map info"; cases "wled_state_map state")
      (auto simp: reasons_fit_def maximum_reasons_def reason_in_def starts_with_def map_filter_simps)
qed

lemma fits_wled: "fits_or_rejected CN_WLED (normalize_wled status details)"
proof -
  have "reason_in ''wled'' r" if "r \<in> {NR_WLED_HEALTHY, NR_WLED_DISABLED, NR_WLED_COLLECTOR_FAILED}"
    for r using that by (auto simp: reason_in_def starts_with_def)
  then show ?thesis
    using wled_maps
    by (auto simp: normalize_wled_def fixed_wled_reason_def reasons_fit_1 fits_collector_failed
        split: option.splits json.splits if_splits)
qed

lemma distinct_inactive: "distinct (inactive_reasons details) \<and> length (inactive_reasons details) \<le> 3"
  by (simp add: inactive_reasons_def hyperhdr_states_def)

lemma inactive_in: "r \<in> set (inactive_reasons details) \<Longrightarrow> reason_in ''hyperhdr'' r"
  by (auto simp: inactive_reasons_def hyperhdr_states_def reason_in_def starts_with_def split: if_splits)

lemma fits_hyperhdr: "fits_or_rejected CN_HYPERHDR (normalize_hyperhdr status details)"
proof -
  have fixed: "reason_in ''hyperhdr'' r"
    if "r \<in> {NR_HYPERHDR_HEALTHY, NR_HYPERHDR_DISABLED, NR_HYPERHDR_COLLECTOR_FAILED}" for r
    using that by (auto simp: reason_in_def starts_with_def)
  have mapped: "reasons_fit CN_HYPERHDR (List.map_filter id [hyperhdr_map reason])"
    if "reason \<in> set HYPERHDR_FAILURES" for reason
  proof -
    have "hyperhdr_map reason \<noteq> None"
      using that
      by (auto simp: HYPERHDR_FAILURES_def hyperhdr_map_def reason_of_def member_of_def
          ALL_REASONS_def)
    then obtain r where "hyperhdr_map reason = Some r" by blast
    then show ?thesis using mapped_prefix(3)[of reason r]
      by (simp add: map_filter_simps reasons_fit_1 reason_in_def starts_with_def)
  qed
  have inactive: "reasons_fit CN_HYPERHDR (inactive_reasons details)"
    if "inactive_reasons details \<noteq> []"
    using that distinct_inactive[of details] inactive_in[of _ details]
    by (auto simp: reasons_fit_def maximum_reasons_def list_all_iff Suc_le_eq)
  show ?thesis
    using fixed mapped inactive
    by (auto simp: normalize_hyperhdr_def reasons_fit_1 fits_collector_failed
        split: json.splits if_splits)
qed

lemma capture_reason_list_fits:
  assumes "reason \<in> set CAPTURE_REASONS"
  obtains r where "capture_reason_list reason = [r]" "reason_in ''capture'' r"
    "r \<notin> {NR_CAPTURE_GRABBER_INACTIVE, NR_CAPTURE_ACTIVITY_UNREPORTED}"
  using assms
  by (auto simp: CAPTURE_REASONS_def capture_reason_list_def capture_map_def map_filter_simps
      reason_in_def starts_with_def)

lemma fits_capture: "fits_or_rejected CN_CAPTURE (normalize_capture status details)"
proof -
  have failed: "reason_in ''capture'' NR_CAPTURE_COLLECTOR_FAILED" by (simp add: reason_in_def starts_with_def)
  have listed: "reasons_fit CN_CAPTURE (capture_reason_list reason @ more)"
    if "reason \<in> set CAPTURE_REASONS"
      "more \<in> {[], [NR_CAPTURE_GRABBER_INACTIVE], [NR_CAPTURE_ACTIVITY_UNREPORTED]}"
    for reason more
  proof -
    obtain r where "capture_reason_list reason = [r]" "reason_in ''capture'' r"
      "r \<notin> {NR_CAPTURE_GRABBER_INACTIVE, NR_CAPTURE_ACTIVITY_UNREPORTED}"
      using capture_reason_list_fits[of reason] \<open>reason \<in> set CAPTURE_REASONS\<close> by blast
    then show ?thesis using that(2)
      by (auto simp: reasons_fit_def maximum_reasons_def reason_in_def starts_with_def)
  qed
  show ?thesis
    using failed listed listed[of _ "[]"]
    by (auto simp: normalize_capture_def reasons_fit_1 fits_collector_failed Let_def
        split: json.splits sum.splits if_splits)
qed

lemma fits_pi:
  "status \<in> {''healthy'', ''degraded'', ''unavailable''} \<Longrightarrow>
   fits_or_rejected CN_RASPBERRY_PI (normalize_pi status details)"
  by (auto simp: normalize_pi_def fits_collector_failed reasons_fit_1 reason_in_def starts_with_def pi_reasons_def
      map_filter_simps)

text \<open>
  Whatever details a collector hands over, the normaliser does not raise, and the reasons it
  accepts are distinct, belong to the component and are not more than it may have.
\<close>

lemma accepted_reasons_fit:
  "fits_or_rejected c (normalize_component_reason 1 (component_value c) (status_value h) details)"
proof -
  have "status_value h \<in> {''healthy'', ''degraded'', ''unavailable''}" by (cases h) simp_all
  then show ?thesis
    using fits_wled fits_hyperhdr fits_capture fits_pi
    by (cases c) (simp_all add: normalize_component_reason_def)
qed

end
