(* ===== verification/Health_Report.thy ===== *)
theory Health_Report
  imports Health_Types Json_Value
begin

text \<open>
  \<open>dashboard/models.py\<close>: the public health report. The numbers of a report are Python numbers of
  either type, so they are values of \<open>Json_Value\<close>; a component's details are a dictionary of such
  values.
\<close>

datatype HealthStatus = HS_HEALTHY | HS_DEGRADED | HS_UNAVAILABLE

fun health_status_value :: "HealthStatus \<Rightarrow> string" where
  "health_status_value HS_HEALTHY = ''healthy''"
| "health_status_value HS_DEGRADED = ''degraded''"
| "health_status_value HS_UNAVAILABLE = ''unavailable''"

record ComponentHealth =
  ch_name :: string
  ch_status :: HealthStatus
  ch_message :: string
  ch_checked_at :: string
  ch_latency_ms :: json
  ch_details :: "(string, json) dict"
  ch_last_successful_at :: "string option"

record HealthReport =
  hr_status :: HealthStatus
  hr_checked_at :: string
  hr_service_uptime_seconds :: json
  hr_components :: "ComponentHealth list"
  hr_schema_version :: int

definition overall_status :: "ComponentHealth list \<Rightarrow> HealthStatus" where
  "overall_status components =
     (if components = [] then HS_UNAVAILABLE
      else
        let statuses = map ch_status components
        in if HS_UNAVAILABLE \<in> set statuses then HS_UNAVAILABLE
           else if HS_DEGRADED \<in> set statuses then HS_DEGRADED
           else HS_HEALTHY)"

end
