(* ===== verification/Health_Projection.thy ===== *)
theory Health_Projection
  imports Health_Report Health_Reasons "HOL-Library.Log_Nat"
begin

text \<open>
  \<open>health_history/projection.py\<close>: the strict projection of a health report to what is stored, and
  its revalidation before it is stored.

  Two library calls are arguments: \<open>sha\<close> is \<open>hashlib.sha256(..).digest()\<close>, and \<open>from_iso\<close> is
  \<open>datetime.fromisoformat\<close>, which returns a local time in microseconds since 1970 with an offset,
  or nothing when it raises. A float is its exact value; the one product of floats the code
  computes is rounded to a double as the hardware does.
\<close>

section \<open>Numbers\<close>

definition bounded_integer :: "int \<Rightarrow> int \<Rightarrow> bool" where
  "bounded_integer value maximum \<longleftrightarrow> 0 \<le> value \<and> value \<le> maximum"

text \<open>Python's \<open>round\<close>: to the nearest integer, halves to the even one.\<close>

definition round_half_even :: "rat \<Rightarrow> int" where
  "round_half_even x =
     (let f = \<lfloor>x\<rfloor>; d = x - of_int f
      in if d < 1 / 2 then f else if d > 1 / 2 then f + 1 else if even f then f else f + 1)"

definition power_of_two :: "int \<Rightarrow> rat" where
  "power_of_two e = (if 0 \<le> e then 2 ^ nat e else 1 / 2 ^ nat (- e))"

definition binary_exponent :: "rat \<Rightarrow> int" where
  "binary_exponent x =
     (let (p, q) = quotient_of x; e = bitlen p - bitlen q
      in if power_of_two e \<le> x then e else e - 1)"

text \<open>The nearest double of a non-negative number, ties to the even significand.\<close>

definition to_double :: "rat \<Rightarrow> rat" where
  "to_double x =
     (if x = 0 then 0
      else
        let u = power_of_two (binary_exponent x - 52)
        in of_int (round_half_even (x / u)) * u)"

section \<open>Projections\<close>

datatype ProjectionRejection =
    PR_INVALID_REPORT | PR_UNKNOWN_SCHEMA | PR_INVALID_STATUS | PR_INCONSISTENT_STATUS
  | PR_INVALID_TIMESTAMP | PR_INVALID_DURATION | PR_INVALID_COMPONENTS | PR_INVALID_COMPONENT
  | PR_REASON_REJECTED

text \<open>A failed projection: the sanitised error, or a \<open>ValueError\<close> that escapes.\<close>

datatype projection_failure = Projection_Error ProjectionRejection | Value_Error_Raised value_error

record ComponentProjection =
  cp_component :: ComponentName
  cp_status :: HealthHistoryStatus
  cp_reasons :: "NormalizedReason list"
  cp_checked_at :: int
  cp_latency_ms :: int
  cp_last_successful_at :: "int option"

definition component_projection_error :: "ComponentProjection \<Rightarrow> value_error option" where
  "component_projection_error c =
     (if \<not> (1 \<le> length (cp_reasons c) \<and> length (cp_reasons c) \<le> 3) then Some ''invalid_reasons''
      else if \<not> distinct (cp_reasons c) then Some ''duplicate_reasons''
      else if length (cp_reasons c) > maximum_reasons (cp_component c)
      then Some ''invalid_reason_count''
      else if \<not> list_all (reason_in (component_value (cp_component c))) (cp_reasons c)
      then Some ''invalid_reason_component''
      else if \<not> bounded_integer (cp_checked_at c) MAX_TIMESTAMP_US then Some ''invalid_checked_at''
      else if \<not> bounded_integer (cp_latency_ms c) MAX_COMPONENT_LATENCY_MS
      then Some ''invalid_latency''
      else if (case cp_last_successful_at c of None \<Rightarrow> False
               | Some t \<Rightarrow> \<not> bounded_integer t MAX_TIMESTAMP_US)
      then Some ''invalid_last_successful_at''
      else None)"

record HealthProjection =
  hp_schema_version :: int
  hp_observation_sequence :: int
  hp_observed_at :: int
  hp_recorded_at :: int
  hp_overall_status :: HealthHistoryStatus
  hp_service_uptime_ms :: int
  hp_sample_kind :: SampleKind
  hp_missed_intervals :: int
  hp_components :: "ComponentProjection list"
  hp_digest :: bytes

fun severity :: "HealthHistoryStatus \<Rightarrow> nat" where
  "severity HH_HEALTHY = 0"
| "severity HH_DEGRADED = 1"
| "severity HH_UNAVAILABLE = 2"

definition worst_component_status :: "ComponentProjection list \<Rightarrow> HealthHistoryStatus option" where
  "worst_component_status components =
     fold (\<lambda>c worst. case worst of
             None \<Rightarrow> Some (cp_status c)
           | Some h \<Rightarrow> Some (if severity (cp_status c) > severity h then cp_status c else h))
       components None"

definition health_projection_error :: "HealthProjection \<Rightarrow> value_error option" where
  "health_projection_error p =
     (if hp_schema_version p \<noteq> 1 then Some ''invalid_schema_version''
      else if \<not> bounded_integer (hp_observation_sequence p) MAX_OBSERVATION_SEQUENCE
      then Some ''invalid_observation_sequence''
      else if \<not> bounded_integer (hp_observed_at p) MAX_TIMESTAMP_US then Some ''invalid_observed_at''
      else if \<not> bounded_integer (hp_recorded_at p) MAX_TIMESTAMP_US then Some ''invalid_recorded_at''
      else if \<not> bounded_integer (hp_service_uptime_ms p) MAX_SERVICE_UPTIME_MS
      then Some ''invalid_service_uptime''
      else if \<not> bounded_integer (hp_missed_intervals p) MAX_BOUNDED_COUNTER
      then Some ''invalid_missed_intervals''
      else if map cp_component (hp_components p) \<noteq> HISTORY_COMPONENT_ORDER
      then Some ''invalid_component_order''
      else if worst_component_status (hp_components p) \<noteq> Some (hp_overall_status p)
      then Some ''inconsistent_overall_status''
      else if length (hp_digest p) \<noteq> PROJECTION_DIGEST_BYTES then Some ''invalid_digest''
      else None)"

section \<open>The canonical bytes\<close>

definition canonical_component :: "ComponentProjection \<Rightarrow> json" where
  "canonical_component c =
     JList [JString (component_value (cp_component c)), JString (status_value (cp_status c)),
            JList (map (JString \<circ> reason_value) (cp_reasons c)), JInt (cp_checked_at c),
            JInt (cp_latency_ms c),
            (case cp_last_successful_at c of None \<Rightarrow> JNull | Some t \<Rightarrow> JInt t)]"

definition canonical_value ::
  "int \<Rightarrow> int \<Rightarrow> HealthHistoryStatus \<Rightarrow> int \<Rightarrow> SampleKind \<Rightarrow> int \<Rightarrow> ComponentProjection list \<Rightarrow> json"
  where
  "canonical_value sequence observed status uptime kind missed components =
     JList ([JInt 1, JInt sequence, JInt observed, JString (status_value status), JInt uptime,
             JString (sample_kind_value kind), JInt missed] @ map canonical_component components)"

text \<open>Every string of the value is a vocabulary word, so printing it always succeeds.\<close>

definition canonical_bytes ::
  "int \<Rightarrow> int \<Rightarrow> HealthHistoryStatus \<Rightarrow> int \<Rightarrow> SampleKind \<Rightarrow> int \<Rightarrow> ComponentProjection list \<Rightarrow> bytes"
  where
  "canonical_bytes sequence observed status uptime kind missed components =
     (case dumps_value
             (canonical_value sequence observed status uptime kind missed components) of
        None \<Rightarrow> []
      | Some s \<Rightarrow> ascii_bytes s)"

definition projection_bytes :: "HealthProjection \<Rightarrow> bytes" where
  "projection_bytes p =
     canonical_bytes (hp_observation_sequence p) (hp_observed_at p) (hp_overall_status p)
       (hp_service_uptime_ms p) (hp_sample_kind p) (hp_missed_intervals p) (hp_components p)"

definition validate_health_projection ::
  "(bytes \<Rightarrow> bytes) \<Rightarrow> HealthProjection \<Rightarrow> ProjectionRejection option" where
  "validate_health_projection sha p =
     (if health_projection_error p \<noteq> None \<or>
         list_ex (\<lambda>c. component_projection_error c \<noteq> None) (hp_components p)
      then Some PR_INVALID_REPORT
      else if sha (projection_bytes p) \<noteq> hp_digest p then Some PR_INVALID_REPORT
      else None)"

section \<open>Projecting a report\<close>

record datetime =
  dt_wall_us :: int
  dt_utcoffset_us :: "int option"

text \<open>The instants from year 1 to year 9999, outside of which \<open>astimezone\<close> overflows.\<close>

definition MIN_UTC_US :: int where "MIN_UTC_US = - 62135596800000000"
definition MAX_UTC_US :: int where "MAX_UTC_US = 253402300799999999"

definition timestamp_from_datetime :: "datetime \<Rightarrow> ProjectionRejection + int" where
  "timestamp_from_datetime dt =
     (case dt_utcoffset_us dt of
        None \<Rightarrow> Inl PR_INVALID_TIMESTAMP
      | Some offset \<Rightarrow>
          let t = dt_wall_us dt - offset
          in if \<not> (MIN_UTC_US \<le> t \<and> t \<le> MAX_UTC_US) then Inl PR_INVALID_TIMESTAMP
             else if \<not> bounded_integer t MAX_TIMESTAMP_US then Inl PR_INVALID_TIMESTAMP
             else Inr t)"

definition timestamp_from_text ::
  "(string \<Rightarrow> datetime option) \<Rightarrow> string \<Rightarrow> ProjectionRejection + int" where
  "timestamp_from_text from_iso s =
     (if length s > 64 then Inl PR_INVALID_TIMESTAMP
      else case from_iso s of
             None \<Rightarrow> Inl PR_INVALID_TIMESTAMP
           | Some dt \<Rightarrow> timestamp_from_datetime dt)"

text \<open>
  \<open>float(value)\<close> of a number that is not a boolean. An integer beyond the exact range of doubles
  is far above both maxima, so it is rejected whatever it is rounded to.
\<close>

fun as_float :: "json \<Rightarrow> rat option" where
  "as_float (JInt i) = Some (of_int i)"
| "as_float (JFloat f) = f"
| "as_float _ = None"

definition duration_ms :: "json \<Rightarrow> int \<Rightarrow> ProjectionRejection + int" where
  "duration_ms value maximum =
     (case as_float value of
        None \<Rightarrow> Inl PR_INVALID_DURATION
      | Some x \<Rightarrow>
          if x < 0 \<or> x > of_int maximum / 1000 then Inl PR_INVALID_DURATION
          else
            let rounded = round_half_even (to_double (x * 1000))
            in if rounded > maximum then Inl PR_INVALID_DURATION else Inr rounded)"

definition rounded_milliseconds :: "json \<Rightarrow> int \<Rightarrow> ProjectionRejection + int" where
  "rounded_milliseconds value maximum =
     (case as_float value of
        None \<Rightarrow> Inl PR_INVALID_DURATION
      | Some x \<Rightarrow>
          if \<not> (0 \<le> x \<and> x \<le> of_int maximum) then Inl PR_INVALID_DURATION
          else Inr (round_half_even x))"

primrec history_status :: "HealthStatus \<Rightarrow> HealthHistoryStatus" where
  "history_status HS_HEALTHY = HH_HEALTHY"
| "history_status HS_DEGRADED = HH_DEGRADED"
| "history_status HS_UNAVAILABLE = HH_UNAVAILABLE"

text \<open>Running a step that raises the sanitised error, then the rest.\<close>

definition try_projection ::
  "ProjectionRejection + 'a \<Rightarrow> ('a \<Rightarrow> projection_failure + 'b) \<Rightarrow> projection_failure + 'b" where
  "try_projection step rest = (case step of Inl r \<Rightarrow> Inl (Projection_Error r) | Inr x \<Rightarrow> rest x)"

definition project_component ::
  "(string \<Rightarrow> datetime option) \<Rightarrow> ComponentName \<Rightarrow> ComponentHealth
    \<Rightarrow> projection_failure + ComponentProjection" where
  "project_component from_iso expected component =
     (let status = history_status (ch_status component)
      in case normalize_component_reason 1 (component_value expected) (status_value status)
                (ch_details component) of
           Inl e \<Rightarrow> Inl (Value_Error_Raised e)
         | Inr (Reasons_Rejected _) \<Rightarrow> Inl (Projection_Error PR_REASON_REJECTED)
         | Inr (Reasons_Accepted reasons) \<Rightarrow>
             try_projection (timestamp_from_text from_iso (ch_checked_at component)) (\<lambda>checked.
             try_projection
               (case ch_last_successful_at component of
                  None \<Rightarrow> Inr None
                | Some s \<Rightarrow> map_sum id Some (timestamp_from_text from_iso s)) (\<lambda>successful.
             try_projection
               (rounded_milliseconds (ch_latency_ms component) MAX_COMPONENT_LATENCY_MS) (\<lambda>latency.
               let c = \<lparr>cp_component = expected, cp_status = status, cp_reasons = reasons,
                        cp_checked_at = checked, cp_latency_ms = latency,
                        cp_last_successful_at = successful\<rparr>
               in case component_projection_error c of
                    Some e \<Rightarrow> Inl (Value_Error_Raised e)
                  | None \<Rightarrow> Inr c))))"

fun components_by_name ::
  "(string, ComponentHealth) dict \<Rightarrow> ComponentHealth list
    \<Rightarrow> ProjectionRejection + (string, ComponentHealth) dict" where
  "components_by_name by_name [] = Inr by_name"
| "components_by_name by_name (c # cs) =
     (if ch_name c \<notin> set (map component_value HISTORY_COMPONENT_ORDER)
      then Inl PR_INVALID_COMPONENT
      else if ch_name c \<in> set (dict_keys by_name) then Inl PR_INVALID_COMPONENTS
      else components_by_name (dict_set (ch_name c) c by_name) cs)"

fun project_components ::
  "(string \<Rightarrow> datetime option) \<Rightarrow> (string, ComponentHealth) dict \<Rightarrow> ComponentName list
    \<Rightarrow> projection_failure + ComponentProjection list" where
  "project_components from_iso by_name [] = Inr []"
| "project_components from_iso by_name (name # names) =
     (case dict_get by_name (component_value name) of
        None \<Rightarrow> Inl (Projection_Error PR_INVALID_COMPONENTS)
      | Some c \<Rightarrow>
          (case project_component from_iso name c of
             Inl e \<Rightarrow> Inl e
           | Inr p \<Rightarrow> map_sum id ((#) p) (project_components from_iso by_name names)))"

definition project_health_report ::
  "(bytes \<Rightarrow> bytes) \<Rightarrow> (string \<Rightarrow> datetime option) \<Rightarrow> HealthReport \<Rightarrow> int \<Rightarrow> datetime \<Rightarrow> SampleKind
    \<Rightarrow> int \<Rightarrow> projection_failure + HealthProjection" where
  "project_health_report sha from_iso report sequence recorded_at kind missed =
     (if hr_schema_version report \<noteq> 1 then Inl (Projection_Error PR_UNKNOWN_SCHEMA)
      else if \<not> bounded_integer sequence MAX_OBSERVATION_SEQUENCE
      then Inl (Projection_Error PR_INVALID_REPORT)
      else
        let status = history_status (hr_status report)
        in try_projection (timestamp_from_text from_iso (hr_checked_at report)) (\<lambda>observed.
           try_projection (timestamp_from_datetime recorded_at) (\<lambda>recorded.
           try_projection (duration_ms (hr_service_uptime_seconds report) MAX_SERVICE_UPTIME_MS)
             (\<lambda>uptime.
           if \<not> bounded_integer missed MAX_BOUNDED_COUNTER
           then Inl (Projection_Error PR_INVALID_DURATION)
           else
             try_projection (components_by_name [] (hr_components report)) (\<lambda>by_name.
             if set (dict_keys by_name) \<noteq> set (map component_value HISTORY_COMPONENT_ORDER)
             then Inl (Projection_Error PR_INVALID_COMPONENTS)
             else
               case project_components from_iso by_name HISTORY_COMPONENT_ORDER of
                 Inl e \<Rightarrow> Inl e
               | Inr components \<Rightarrow>
                   if worst_component_status components \<noteq> Some status
                   then Inl (Projection_Error PR_INCONSISTENT_STATUS)
                   else
                     let p = \<lparr>hp_schema_version = 1, hp_observation_sequence = sequence,
                              hp_observed_at = observed, hp_recorded_at = recorded,
                              hp_overall_status = status, hp_service_uptime_ms = uptime,
                              hp_sample_kind = kind, hp_missed_intervals = missed,
                              hp_components = components,
                              hp_digest = sha (canonical_bytes sequence observed status uptime
                                                 kind missed components)\<rparr>
                     in case health_projection_error p of
                          Some e \<Rightarrow> Inl (Value_Error_Raised e)
                        | None \<Rightarrow> Inr p)))))"

section \<open>Projections validate\<close>

lemma map_sum_id_simps [simp]:
  "map_sum id f x = Inl e \<longleftrightarrow> x = Inl e"
  "map_sum id f x = Inr z \<longleftrightarrow> (\<exists>y. x = Inr y \<and> z = f y)"
  by (cases x; auto)+

lemma component_projection_ok:
  "component_projection_error c = None \<longleftrightarrow>
     reasons_fit (cp_component c) (cp_reasons c) \<and>
     bounded_integer (cp_checked_at c) MAX_TIMESTAMP_US \<and>
     bounded_integer (cp_latency_ms c) MAX_COMPONENT_LATENCY_MS \<and>
     (\<forall>t. cp_last_successful_at c = Some t \<longrightarrow> bounded_integer t MAX_TIMESTAMP_US)"
  using maximum_reasons_le[of "cp_component c"]
  by (auto simp: component_projection_error_def reasons_fit_def split: option.splits)

lemma round_half_even_bounds:
  assumes "0 \<le> x" "x \<le> of_int m"
  shows "0 \<le> round_half_even x \<and> round_half_even x \<le> m"
proof -
  have f: "0 \<le> \<lfloor>x\<rfloor>" "\<lfloor>x\<rfloor> \<le> m" using assms by (simp_all add: floor_le_iff)
  have "\<lfloor>x\<rfloor> + 1 \<le> m" if "x - of_int \<lfloor>x\<rfloor> > 0"
  proof -
    have "of_int \<lfloor>x\<rfloor> < x" using that by simp
    then have "of_int \<lfloor>x\<rfloor> < (of_int m :: rat)" using assms(2) by linarith
    then show ?thesis by simp
  qed
  then show ?thesis using f by (auto simp: round_half_even_def Let_def)
qed

lemma round_half_even_nonneg: "0 \<le> x \<Longrightarrow> 0 \<le> round_half_even x"
  by (auto simp: round_half_even_def Let_def)

lemma to_double_nonneg: "0 \<le> x \<Longrightarrow> 0 \<le> to_double x"
  by (auto simp: to_double_def Let_def power_of_two_def intro!: mult_nonneg_nonneg
      round_half_even_nonneg divide_nonneg_nonneg)

lemma timestamp_from_datetime_Inr:
  "timestamp_from_datetime dt = Inr t \<Longrightarrow> bounded_integer t MAX_TIMESTAMP_US"
  by (auto simp: timestamp_from_datetime_def Let_def split: option.splits if_splits)

lemma timestamp_from_text_Inr:
  "timestamp_from_text from_iso s = Inr t \<Longrightarrow> bounded_integer t MAX_TIMESTAMP_US"
  by (auto simp: timestamp_from_text_def timestamp_from_datetime_Inr split: option.splits if_splits)

lemma duration_ms_Inr: "duration_ms v m = Inr t \<Longrightarrow> bounded_integer t m"
  by (auto simp: duration_ms_def Let_def bounded_integer_def not_less intro!: round_half_even_nonneg
      to_double_nonneg split: option.splits if_splits)

lemma rounded_milliseconds_Inr: "rounded_milliseconds v m = Inr t \<Longrightarrow> bounded_integer t m"
  using round_half_even_bounds
  by (fastforce simp: rounded_milliseconds_def bounded_integer_def split: option.splits if_splits)

lemma try_projection_Inr [simp]:
  "try_projection step rest = Inr y \<longleftrightarrow> (\<exists>x. step = Inr x \<and> rest x = Inr y)"
  by (auto simp: try_projection_def split: sum.splits)

lemma try_projection_raised [simp]:
  "try_projection step rest = Inl (Value_Error_Raised e) \<longleftrightarrow>
     (\<exists>x. step = Inr x \<and> rest x = Inl (Value_Error_Raised e))"
  by (auto simp: try_projection_def split: sum.splits)

lemma project_component_Inr:
  assumes "project_component from_iso name c = Inr p"
  shows "component_projection_error p = None" "cp_component p = name"
    "cp_status p = history_status (ch_status c)"
  using assms
  by (auto simp: project_component_def Let_def split: sum.splits ReasonResult.splits option.splits)

lemma project_component_sane:
  "project_component from_iso name c \<noteq> Inl (Value_Error_Raised e)"
proof
  assume raised: "project_component from_iso name c = Inl (Value_Error_Raised e)"
  let ?n = "normalize_component_reason 1 (component_value name)
      (status_value (history_status (ch_status c))) (ch_details c)"
  consider (rejected) code where "?n = Inr (Reasons_Rejected code)"
    | (accepted) rs where "?n = Inr (Reasons_Accepted rs)" "reasons_fit name rs"
    using accepted_reasons_fit[of name "history_status (ch_status c)" "ch_details c"]
    by (auto simp: fits_or_rejected_def)
  then show False
  proof cases
    case rejected
    then show ?thesis using raised by (simp add: project_component_def)
  next
    case accepted
    then obtain t u l where read:
      "timestamp_from_text from_iso (ch_checked_at c) = Inr t"
      "(case ch_last_successful_at c of None \<Rightarrow> Inr None
        | Some s \<Rightarrow> map_sum id Some (timestamp_from_text from_iso s)) = Inr u"
      "rounded_milliseconds (ch_latency_ms c) MAX_COMPONENT_LATENCY_MS = Inr l"
      "component_projection_error
         \<lparr>cp_component = name, cp_status = history_status (ch_status c), cp_reasons = rs,
          cp_checked_at = t, cp_latency_ms = l, cp_last_successful_at = u\<rparr> = Some e"
      using raised by (auto simp: project_component_def Let_def split: option.splits)
    have "bounded_integer v MAX_TIMESTAMP_US" if "u = Some v" for v
      using read(2) that timestamp_from_text_Inr
      by (cases "ch_last_successful_at c";
          cases "timestamp_from_text from_iso (the (ch_last_successful_at c))") auto
    then have "component_projection_error
         \<lparr>cp_component = name, cp_status = history_status (ch_status c), cp_reasons = rs,
          cp_checked_at = t, cp_latency_ms = l, cp_last_successful_at = u\<rparr> = None"
      using accepted(2) timestamp_from_text_Inr[OF read(1)] rounded_milliseconds_Inr[OF read(3)]
      by (simp add: component_projection_ok)
    then show ?thesis using read(4) by simp
  qed
qed

lemma project_components_sane:
  "project_components from_iso by_name names \<noteq> Inl (Value_Error_Raised e)"
  by (induction names) (auto simp: project_component_sane split: option.splits sum.splits)

lemma project_components_Inr:
  assumes "project_components from_iso by_name names = Inr ps"
  shows "map cp_component ps = names \<and> list_all (\<lambda>p. component_projection_error p = None) ps \<and>
    list_all2 (\<lambda>name p. \<exists>c. dict_get by_name (component_value name) = Some c \<and>
      project_component from_iso name c = Inr p) names ps"
  using assms
proof (induction names arbitrary: ps)
  case (Cons name names)
  obtain c where c: "dict_get by_name (component_value name) = Some c"
    using Cons.prems by (cases "dict_get by_name (component_value name)") auto
  obtain p where p: "project_component from_iso name c = Inr p"
    using Cons.prems c by (cases "project_component from_iso name c") auto
  obtain ps1 where ps1: "project_components from_iso by_name names = Inr ps1" "ps = p # ps1"
    using Cons.prems c p by (cases "project_components from_iso by_name names") auto
  show ?case using Cons.IH[OF ps1(1)] ps1(2) project_component_Inr[OF p] c p by simp
qed simp

lemma components_by_name_Inr:
  assumes "components_by_name d cs = Inr by_name" "dict_wf d"
  shows "dict_wf by_name \<and> set by_name = set d \<union> (\<lambda>c. (ch_name c, c)) ` set cs"
  using assms
proof (induction cs arbitrary: d)
  case (Cons c cs)
  have new: "ch_name c \<notin> set (dict_keys d)"
    and rest: "components_by_name (dict_set (ch_name c) c d) cs = Inr by_name"
    using Cons.prems(1) by (auto split: if_splits)
  have "dict_wf (dict_set (ch_name c) c d)"
    using Cons.prems(2) by (rule dict_wf_set)
  then show ?case
    using Cons.IH[OF rest] new by (auto simp: dict_set_new)
qed simp

lemma list_all2_left: "list_all2 P xs ys \<Longrightarrow> x \<in> set xs \<Longrightarrow> \<exists>y \<in> set ys. P x y"
  by (induction rule: list_all2_induct) auto

lemma list_all2_right: "list_all2 P xs ys \<Longrightarrow> y \<in> set ys \<Longrightarrow> \<exists>x \<in> set xs. P x y"
  by (induction rule: list_all2_induct) auto

lemma projected_statuses:
  assumes by_name: "dict_wf by_name" "set by_name = (\<lambda>c. (ch_name c, c)) ` set cs"
    and keys: "set (dict_keys by_name) = set (map component_value names)"
    and ps: "project_components from_iso by_name names = Inr ps"
  shows "(\<lambda>c. (component_value (cp_component c), cp_status c)) ` set ps =
      (\<lambda>c. (ch_name c, history_status (ch_status c))) ` set cs" (is "?l = ?r")
proof
  note all2 = project_components_Inr[OF ps, THEN conjunct2, THEN conjunct2]
  show "?l \<subseteq> ?r"
  proof
    fix x assume "x \<in> ?l"
    then obtain q where q: "q \<in> set ps" "x = (component_value (cp_component q), cp_status q)"
      by auto
    then obtain c name where c: "dict_get by_name (component_value name) = Some c"
      "project_component from_iso name c = Inr q"
      using list_all2_right[OF all2 q(1)] by auto
    then have "c \<in> set cs" "ch_name c = component_value name"
      using dict_get_in[OF c(1)] by_name(2) by auto
    then show "x \<in> ?r" using q(2) project_component_Inr[OF c(2)] by force
  qed
  show "?r \<subseteq> ?l"
  proof
    fix x assume "x \<in> ?r"
    then obtain c where c: "c \<in> set cs" "x = (ch_name c, history_status (ch_status c))" by auto
    then have mem: "(ch_name c, c) \<in> set by_name" using by_name(2) by auto
    then have "ch_name c \<in> set (map component_value names)" using keys by (force simp: set_eq_iff)
    then obtain name where name: "name \<in> set names" "ch_name c = component_value name" by auto
    have "dict_get by_name (component_value name) = Some c"
      using dict_in_get[OF by_name(1) mem] name(2) by simp
    then obtain q where q: "q \<in> set ps" "project_component from_iso name c = Inr q"
      using list_all2_left[OF all2 name(1)] by auto
    then have "x = (component_value (cp_component q), cp_status q)"
      using project_component_Inr[OF q(2)] c(2) name(2) by simp
    then show "x \<in> ?l" using q(1) by blast
  qed
qed

text \<open>
  C17. A projected report is one the storage accepts. Whatever report, time and numbers it is given,
  and whatever the date parser and the digest return (digests have 32 bytes), the projection never
  lets a \<open>ValueError\<close> escape; and when it succeeds the result passes its own revalidation, has the
  report's overall status, which is the worst of its components, and holds exactly one projection of
  each of the report's components, with its status and with reasons that fit the component.
\<close>

theorem projection_validates:
  assumes "\<forall>x. length (sha x) = PROJECTION_DIGEST_BYTES"
  shows "case project_health_report sha from_iso report sequence recorded_at kind missed of
      Inl failure \<Rightarrow> (\<exists>r. failure = Projection_Error r)
    | Inr p \<Rightarrow>
        validate_health_projection sha p = None \<and>
        hp_overall_status p = history_status (hr_status report) \<and>
        worst_component_status (hp_components p) = Some (hp_overall_status p) \<and>
        (\<lambda>c. (component_value (cp_component c), cp_status c)) ` set (hp_components p) =
          (\<lambda>c. (ch_name c, history_status (ch_status c))) ` set (hr_components report)"
proof (cases "project_health_report sha from_iso report sequence recorded_at kind missed")
  case (Inl failure)
  have "failure \<noteq> Value_Error_Raised e" for e
  proof
    assume "failure = Value_Error_Raised e"
    then show False
      using Inl assms project_components_sane[of from_iso _ HISTORY_COMPONENT_ORDER]
        project_components_Inr[of from_iso _ HISTORY_COMPONENT_ORDER]
      by (auto simp: project_health_report_def Let_def health_projection_error_def
          timestamp_from_text_Inr timestamp_from_datetime_Inr duration_ms_Inr
          split: if_splits sum.splits option.splits)
  qed
  then show ?thesis using Inl by (cases failure) auto
next
  case (Inr p)
  then obtain by_name where named: "components_by_name [] (hr_components report) = Inr by_name"
      "set (dict_keys by_name) = set (map component_value HISTORY_COMPONENT_ORDER)"
      "project_components from_iso by_name HISTORY_COMPONENT_ORDER = Inr (hp_components p)"
    and status: "hp_overall_status p = history_status (hr_status report)"
      "worst_component_status (hp_components p) = Some (hp_overall_status p)"
    and ok: "health_projection_error p = None" "hp_digest p = sha (projection_bytes p)"
    by (auto simp: project_health_report_def Let_def projection_bytes_def
        split: if_splits sum.splits option.splits)
  note cs = project_components_Inr[OF named(3)]
  then have valid: "validate_health_projection sha p = None"
    using ok by (auto simp: validate_health_projection_def list_all_iff list_ex_iff)
  have d: "dict_wf by_name" "set by_name = (\<lambda>c. (ch_name c, c)) ` set (hr_components report)"
    using components_by_name_Inr[OF named(1)] by (auto simp: dict_wf_def)
  show ?thesis using Inr valid status projected_statuses[OF d named(2,3)] by simp
qed

definition sample_component :: "string \<Rightarrow> string \<Rightarrow> ComponentHealth" where
  "sample_component name code =
     \<lparr>ch_name = name, ch_status = HS_UNAVAILABLE, ch_message = ''off'', ch_checked_at = ''now'',
      ch_latency_ms = JFloat (Some (3 / 2)), ch_details = [(''reason_code'', JString code)],
      ch_last_successful_at = None\<rparr>"

definition sample_report :: HealthReport where
  "sample_report =
     \<lparr>hr_status = HS_UNAVAILABLE, hr_checked_at = ''now'',
      hr_service_uptime_seconds = JFloat (Some (5 / 2)),
      hr_components =
        [sample_component ''capture'' ''collector_failed'', sample_component ''wled'' ''wled_disabled'',
         sample_component ''hyperhdr'' ''collector_failed'',
         sample_component ''raspberry_pi'' ''collector_failed''],
      hr_schema_version = 1\<rparr>"

definition sample_time :: datetime where
  "sample_time = \<lparr>dt_wall_us = 7200000001, dt_utcoffset_us = Some 7200000000\<rparr>"

definition sample_digest :: "bytes \<Rightarrow> bytes" where
  "sample_digest _ = replicate PROJECTION_DIGEST_BYTES 0"

lemma sample_projected:
  "\<exists>p. project_health_report sample_digest (\<lambda>_. Some sample_time) sample_report 7 sample_time
         SK_HEARTBEAT 0 = Inr p \<and> hp_service_uptime_ms p = 2500 \<and> hp_observed_at p = 1 \<and>
       map cp_latency_ms (hp_components p) = [2, 2, 2, 2]"
proof -
  have "case project_health_report sample_digest (\<lambda>_. Some sample_time) sample_report 7 sample_time
         SK_HEARTBEAT 0 of Inl _ \<Rightarrow> False
      | Inr p \<Rightarrow> hp_service_uptime_ms p = 2500 \<and> hp_observed_at p = 1 \<and>
          map cp_latency_ms (hp_components p) = [2, 2, 2, 2]"
    by code_simp
  then show ?thesis by (auto split: sum.splits)
qed

theorem projection_validates_witness:
  "length (sample_digest []) = PROJECTION_DIGEST_BYTES \<and>
   (\<exists>p. project_health_report sample_digest (\<lambda>_. Some sample_time) sample_report 7 sample_time
          SK_HEARTBEAT 0 = Inr p \<and> validate_health_projection sample_digest p = None \<and>
        hp_overall_status p = HH_UNAVAILABLE)"
proof -
  have "\<forall>x. length (sample_digest x) = PROJECTION_DIGEST_BYTES" by (simp add: sample_digest_def)
  then show ?thesis
    using projection_validates[where sha = sample_digest and from_iso = "\<lambda>_. Some sample_time"
        and report = sample_report and sequence = 7 and recorded_at = sample_time
        and kind = SK_HEARTBEAT and missed = 0] sample_projected
    by (auto simp: sample_report_def)
qed

end
