(* ===== verification/History_Schema.thy ===== *)
theory History_Schema
  imports Health_Reasons
begin

text \<open>
  \<open>health_history/schema.py\<close>: the tables of the health history with the constraints the database
  itself enforces, and the empty history a new database starts with. A column of type \<open>INTEGER\<close>,
  \<open>TEXT\<close> or \<open>BLOB\<close> is an \<open>int\<close>, a \<open>string\<close> or \<open>bytes\<close>, and a column that may be \<open>NULL\<close> an option;
  what the texts and numbers may be is left to the constraints, as in the schema. A table is the
  list of its rows in insertion order.
\<close>

section \<open>Rows\<close>

record checkpoint_row =
  ck_singleton_id :: int
  ck_sequence :: "int option"
  ck_observed :: "int option"
  ck_digest :: "bytes option"
  ck_kind :: "string option"
  ck_count :: int

record replay_row =
  ry_sequence :: int
  ry_observed :: int
  ry_digest :: bytes
  ry_kind :: string

record sample_row =
  sm_id :: int
  sm_sequence :: int
  sm_observed :: int
  sm_recorded :: int
  sm_status :: string
  sm_uptime :: int
  sm_kind :: string
  sm_accepted_kind :: string
  sm_digest :: bytes
  sm_missed :: int

record component_row =
  cs_sample_id :: int
  cs_component :: string
  cs_status :: string
  cs_reason_1 :: string
  cs_reason_2 :: "string option"
  cs_reason_3 :: "string option"
  cs_checked :: int
  cs_latency :: int
  cs_last_successful :: "int option"

record alert_row =
  al_id :: int
  al_scope :: string
  al_kind :: string
  al_lifecycle :: string
  al_severity :: string
  al_opened :: int
  al_acknowledged :: "int option"
  al_recovered :: "int option"
  al_archived :: "int option"
  al_first_sample :: "int option"
  al_latest_sample :: "int option"
  al_episode :: int
  al_occurrence :: int
  al_cooldown :: int

record evaluation_row =
  ev_scope :: string
  ev_current :: "string option"
  ev_candidate :: "string option"
  ev_count :: int
  ev_sample :: "int option"
  ev_heartbeat :: "int option"
  ev_gap_phase :: string
  ev_cooldown :: "int option"

record event_row =
  ae_id :: int
  ae_alert_id :: int
  ae_type :: string
  ae_at :: int
  ae_sample :: "int option"
  ae_lifecycle :: string

record History =
  h_checkpoint :: "checkpoint_row list"
  h_replay :: "replay_row list"
  h_samples :: "sample_row list"
  h_components :: "component_row list"
  h_alerts :: "alert_row list"
  h_evaluation :: "evaluation_row list"
  h_events :: "event_row list"

section \<open>Column constraints\<close>

text \<open>\<open>x BETWEEN a AND b\<close>, and a constraint on a column that may be \<open>NULL\<close>.\<close>

definition between :: "int \<Rightarrow> int \<Rightarrow> int \<Rightarrow> bool" where
  "between a b x \<longleftrightarrow> a \<le> x \<and> x \<le> b"

definition null_or :: "('a \<Rightarrow> bool) \<Rightarrow> 'a option \<Rightarrow> bool" where
  "null_or P x \<longleftrightarrow> (case x of None \<Rightarrow> True | Some y \<Rightarrow> P y)"

definition is_timestamp :: "int \<Rightarrow> bool" where
  "is_timestamp = between 0 MAX_TIMESTAMP_US"

definition is_sequence :: "int \<Rightarrow> bool" where
  "is_sequence = between 0 MAX_OBSERVATION_SEQUENCE"

definition is_digest :: "bytes \<Rightarrow> bool" where
  "is_digest d \<longleftrightarrow> length d = PROJECTION_DIGEST_BYTES"

definition is_status :: "string \<Rightarrow> bool" where "is_status x \<longleftrightarrow> status_of x \<noteq> None"
definition is_sample_kind :: "string \<Rightarrow> bool" where "is_sample_kind x \<longleftrightarrow> sample_kind_of x \<noteq> None"
definition is_component :: "string \<Rightarrow> bool" where "is_component x \<longleftrightarrow> component_of x \<noteq> None"
definition is_reason :: "string \<Rightarrow> bool" where "is_reason x \<longleftrightarrow> reason_of x \<noteq> None"
definition is_scope :: "string \<Rightarrow> bool" where "is_scope x \<longleftrightarrow> scope_of x \<noteq> None"
definition is_alert_kind :: "string \<Rightarrow> bool" where "is_alert_kind x \<longleftrightarrow> alert_kind_of x \<noteq> None"
definition is_lifecycle :: "string \<Rightarrow> bool" where "is_lifecycle x \<longleftrightarrow> lifecycle_of x \<noteq> None"
definition is_gap_phase :: "string \<Rightarrow> bool" where "is_gap_phase x \<longleftrightarrow> gap_phase_of x \<noteq> None"

definition is_event :: "string \<Rightarrow> bool" where
  "is_event x \<longleftrightarrow>
     x \<in> {''opened'', ''occurrence_updated'', ''acknowledged'', ''recovered'', ''archived''}"

lemmas column_defs =
  between_def null_or_def is_timestamp_def is_sequence_def is_digest_def is_status_def
  is_sample_kind_def is_component_def is_reason_def is_scope_def is_alert_kind_def
  is_lifecycle_def is_gap_phase_def is_event_def

text \<open>
  \<open>x LIKE component || '.%'\<close>: an underscore of the pattern matches any character, and ASCII letters
  match without regard to case.
\<close>

definition ascii_lower :: "char \<Rightarrow> char" where
  "ascii_lower c = (if in_range CHR ''A'' CHR ''Z'' c then char_of (ord_of c + 32) else c)"

fun like_prefix :: "string \<Rightarrow> string \<Rightarrow> bool" where
  "like_prefix [] s = True"
| "like_prefix (p # ps) [] = False"
| "like_prefix (p # ps) (c # s) =
     ((p = CHR ''_'' \<or> ascii_lower p = ascii_lower c) \<and> like_prefix ps s)"

section \<open>Row constraints\<close>

definition checkpoint_check :: "checkpoint_row \<Rightarrow> bool" where
  "checkpoint_check r \<longleftrightarrow>
     ck_singleton_id r = 1 \<and> null_or is_sequence (ck_sequence r) \<and>
     null_or is_timestamp (ck_observed r) \<and> null_or is_digest (ck_digest r) \<and>
     null_or is_sample_kind (ck_kind r) \<and> between 0 MAX_BOUNDED_COUNTER (ck_count r) \<and>
     (ck_observed r = None \<and> ck_digest r = None \<and> ck_kind r = None \<and> ck_count r = 0 \<and>
        ck_sequence r = None \<or>
      ck_observed r \<noteq> None \<and> ck_digest r \<noteq> None \<and> ck_kind r \<noteq> None \<and> ck_count r \<ge> 1 \<and>
        ck_sequence r \<noteq> None)"

definition replay_check :: "replay_row \<Rightarrow> bool" where
  "replay_check r \<longleftrightarrow>
     is_sequence (ry_sequence r) \<and> is_timestamp (ry_observed r) \<and> is_digest (ry_digest r) \<and>
     is_sample_kind (ry_kind r)"

definition sample_check :: "sample_row \<Rightarrow> bool" where
  "sample_check r \<longleftrightarrow>
     is_sequence (sm_sequence r) \<and> is_timestamp (sm_observed r) \<and> is_timestamp (sm_recorded r) \<and>
     is_status (sm_status r) \<and> between 0 MAX_SERVICE_UPTIME_MS (sm_uptime r) \<and>
     is_sample_kind (sm_kind r) \<and> is_sample_kind (sm_accepted_kind r) \<and>
     is_digest (sm_digest r) \<and> between 0 MAX_BOUNDED_COUNTER (sm_missed r)"

definition component_check :: "component_row \<Rightarrow> bool" where
  "component_check r \<longleftrightarrow>
     is_component (cs_component r) \<and> is_status (cs_status r) \<and> is_reason (cs_reason_1 r) \<and>
     null_or is_reason (cs_reason_2 r) \<and> null_or is_reason (cs_reason_3 r) \<and>
     is_timestamp (cs_checked r) \<and> between 0 MAX_COMPONENT_LATENCY_MS (cs_latency r) \<and>
     null_or is_timestamp (cs_last_successful r) \<and>
     (cs_reason_3 r = None \<or> cs_reason_2 r \<noteq> None) \<and>
     cs_reason_2 r \<noteq> Some (cs_reason_1 r) \<and> cs_reason_3 r \<noteq> Some (cs_reason_1 r) \<and>
     (cs_reason_2 r = None \<or> cs_reason_2 r \<noteq> cs_reason_3 r) \<and>
     like_prefix (cs_component r @ ''.'') (cs_reason_1 r) \<and>
     null_or (like_prefix (cs_component r @ ''.'')) (cs_reason_2 r) \<and>
     null_or (like_prefix (cs_component r @ ''.'')) (cs_reason_3 r) \<and>
     (cs_component r = ''wled'' \<and> cs_reason_3 r = None \<or>
      cs_component r = ''hyperhdr'' \<or>
      cs_component r = ''capture'' \<and> cs_reason_3 r = None \<or>
      cs_component r = ''raspberry_pi'' \<and> cs_reason_2 r = None \<and> cs_reason_3 r = None)"

definition alert_check :: "alert_row \<Rightarrow> bool" where
  "alert_check r \<longleftrightarrow>
     is_scope (al_scope r) \<and> is_alert_kind (al_kind r) \<and> is_lifecycle (al_lifecycle r) \<and>
     al_severity r \<in> {''degraded'', ''unavailable''} \<and> is_timestamp (al_opened r) \<and>
     null_or is_timestamp (al_acknowledged r) \<and> null_or is_timestamp (al_recovered r) \<and>
     null_or is_timestamp (al_archived r) \<and>
     between 1 MAX_BOUNDED_COUNTER (al_episode r) \<and>
     between 1 MAX_BOUNDED_COUNTER (al_occurrence r) \<and> is_timestamp (al_cooldown r) \<and>
     (al_lifecycle r \<noteq> ''acknowledged'' \<or> al_acknowledged r \<noteq> None) \<and>
     (al_acknowledged r = None \<or>
        al_lifecycle r \<in> {''acknowledged'', ''recovered'', ''archived''}) \<and>
     (al_lifecycle r \<notin> {''recovered'', ''archived''} \<or> al_recovered r \<noteq> None) \<and>
     (al_lifecycle r \<noteq> ''archived'' \<or> al_archived r \<noteq> None) \<and>
     (al_lifecycle r = ''archived'' \<or> al_archived r = None) \<and>
     (al_lifecycle r \<in> {''recovered'', ''archived''} \<or> al_recovered r = None) \<and>
     (al_scope r = ''sampling'' \<and> al_kind r = ''sampling_gap'' \<or>
      al_scope r \<noteq> ''sampling'' \<and> al_kind r \<noteq> ''sampling_gap'') \<and>
     (al_kind r = ''degraded'' \<and> al_severity r = ''degraded'' \<or>
      al_kind r \<in> {''unavailable'', ''sampling_gap''} \<and> al_severity r = ''unavailable'')"

definition evaluation_check :: "evaluation_row \<Rightarrow> bool" where
  "evaluation_check r \<longleftrightarrow>
     is_scope (ev_scope r) \<and> null_or is_status (ev_current r) \<and>
     null_or is_status (ev_candidate r) \<and> between 0 MAX_BOUNDED_COUNTER (ev_count r) \<and>
     null_or (\<lambda>i. i > 0) (ev_sample r) \<and> null_or is_timestamp (ev_heartbeat r) \<and>
     is_gap_phase (ev_gap_phase r) \<and> null_or is_timestamp (ev_cooldown r) \<and>
     (ev_scope r = ''sampling'' \<and> ev_current r = None \<and> ev_candidate r = None \<or>
      ev_scope r \<noteq> ''sampling'' \<and> ev_gap_phase r = ''clear'' \<and>
        (ev_candidate r = None \<and> ev_count r = 0 \<or>
         ev_candidate r \<noteq> None \<and> ev_count r \<ge> 1 \<and> ev_candidate r = ev_current r) \<and>
        (ev_current r \<noteq> None \<or> ev_candidate r = None \<and> ev_count r = 0))"

definition event_check :: "event_row \<Rightarrow> bool" where
  "event_check r \<longleftrightarrow>
     is_event (ae_type r) \<and> is_timestamp (ae_at r) \<and> is_lifecycle (ae_lifecycle r) \<and>
     (ae_type r = ''opened'' \<and> ae_lifecycle r = ''open'' \<or>
      ae_type r = ''acknowledged'' \<and> ae_lifecycle r = ''acknowledged'' \<or>
      ae_type r = ''recovered'' \<and> ae_lifecycle r = ''recovered'' \<or>
      ae_type r = ''archived'' \<and> ae_lifecycle r = ''archived'' \<or>
      ae_type r = ''occurrence_updated'' \<and>
        ae_lifecycle r \<in> {''open'', ''acknowledged'', ''recovered''})"

section \<open>Keys, references and the trigger\<close>

definition sample_reference :: "History \<Rightarrow> int option \<Rightarrow> bool" where
  "sample_reference h = null_or (\<lambda>i. i \<in> set (map sm_id (h_samples h)))"

definition active_row :: "alert_row \<Rightarrow> bool" where
  "active_row r \<longleftrightarrow> al_lifecycle r \<in> {''open'', ''acknowledged''}"

text \<open>The partial unique index on the active alerts of a scope and kind.\<close>

definition active_unique :: "alert_row list \<Rightarrow> bool" where
  "active_unique rows \<longleftrightarrow> distinct (map (\<lambda>r. (al_scope r, al_kind r)) (filter active_row rows))"

text \<open>Whether the trigger aborts an update of the checkpoint.\<close>

definition checkpoint_regression :: "checkpoint_row \<Rightarrow> checkpoint_row \<Rightarrow> bool" where
  "checkpoint_regression old new \<longleftrightarrow>
     ck_count new < ck_count old \<or>
     (case ck_sequence old of
        None \<Rightarrow> False
      | Some q \<Rightarrow> (case ck_sequence new of None \<Rightarrow> True | Some q1 \<Rightarrow> q1 < q)) \<or>
     ck_sequence new = ck_sequence old \<and>
       (ck_observed new \<noteq> ck_observed old \<or> ck_digest new \<noteq> ck_digest old \<or>
        ck_kind new \<noteq> ck_kind old)"

section \<open>A new database\<close>

definition new_evaluation_row :: "AlertScope \<Rightarrow> evaluation_row" where
  "new_evaluation_row scope =
     \<lparr>ev_scope = scope_value scope, ev_current = None, ev_candidate = None, ev_count = 0,
      ev_sample = None, ev_heartbeat = None, ev_gap_phase = ''clear'', ev_cooldown = None\<rparr>"

definition new_history :: History where
  "new_history =
     \<lparr>h_checkpoint = [\<lparr>ck_singleton_id = 1, ck_sequence = None, ck_observed = None,
                       ck_digest = None, ck_kind = None, ck_count = 0\<rparr>],
      h_replay = [], h_samples = [], h_components = [], h_alerts = [],
      h_evaluation = map new_evaluation_row ALL_SCOPES, h_events = []\<rparr>"

end
