(* ===== verification/Ingestion_Store.thy ===== *)
theory Ingestion_Store
  imports Health_Projection History_Schema Alert_Lifecycle
    Sampling_Gap "HOL-Library.List_Lexorder" "HOL-Library.Char_ord"
begin

text \<open>
  \<open>health_history/ingestion.py\<close>, its lower half: transactions, and the readers and writers of the
  tables. \<open>Ingestion\<close> composes them to the evaluation and storage of one observation.

  The database is the value of \<open>History_Schema\<close>. A transaction works on its own copy, which a commit
  makes the committed one and a rollback gives up; every statement checks the constraints of the
  rows it writes, and may instead fail for a reason of its own: the failures SQLite will report,
  statement by statement, are \<open>cn_failures\<close>, and there are none once that list is used up. What
  \<open>sha\<close> stands for is said in \<open>Health_Projection\<close>.
\<close>

section \<open>Transactions\<close>

datatype IngestionOutcome =
    IO_REPLAYED | IO_STATE_ONLY | IO_TRANSITION_STORED | IO_HEARTBEAT_STORED
  | IO_STARTUP_MARKER_STORED | IO_CLOCK_MARKER_STORED

datatype IngestionRejection =
    IR_INVALID_PROJECTION | IR_STALE_SEQUENCE | IR_SEQUENCE_CONFLICT | IR_GENERATION_EXHAUSTED
  | IR_STORAGE_BUSY | IR_PERSISTENCE_FAILED | IR_MALFORMED_STATE | IR_TRUST_FAILED

record sqlite_failure =
  sf_integrity :: bool
  sf_errorcode :: "int option"

text \<open>
  What a step may raise: the sanitised error with its \<open>trust_lost\<close> flag, an error of SQLite, a
  \<open>TypeError\<close> or \<open>ValueError\<close>, or an exception of another kind.
\<close>

datatype ingest_failure =
    Ingestion_Error IngestionRejection bool
  | Sqlite_Error sqlite_failure
  | Type_Or_Value_Error
  | Other_Error

record Connection =
  cn_history :: History
  cn_committed :: History
  cn_failures :: "sqlite_failure option list"

type_synonym 'a tx = "Connection \<Rightarrow> (ingest_failure + 'a) \<times> Connection"

definition tx_return :: "'a \<Rightarrow> 'a tx" where
  "tx_return x c = (Inr x, c)"

definition tx_lift :: "ingest_failure + 'a \<Rightarrow> 'a tx" where
  "tx_lift r c = (r, c)"

definition tx_fail :: "ingest_failure \<Rightarrow> 'a tx" where
  "tx_fail f c = (Inl f, c)"

definition tx_bind :: "'a tx \<Rightarrow> ('a \<Rightarrow> 'b tx) \<Rightarrow> 'b tx" where
  "tx_bind m f c =
     (case m c of
        (Inl e, c1) \<Rightarrow> (Inl e, c1)
      | (Inr x, c1) \<Rightarrow> f x c1)"

definition tx_then :: "unit tx \<Rightarrow> 'b tx \<Rightarrow> 'b tx" where
  "tx_then m k = tx_bind m (\<lambda>_. k)"

primrec tx_map :: "('a \<Rightarrow> 'b tx) \<Rightarrow> 'a list \<Rightarrow> 'b list tx" where
  "tx_map f [] = tx_return []"
| "tx_map f (x # xs) = tx_bind (f x) (\<lambda>y. tx_bind (tx_map f xs) (\<lambda>ys. tx_return (y # ys)))"

primrec tx_each :: "('a \<Rightarrow> unit tx) \<Rightarrow> 'a list \<Rightarrow> unit tx" where
  "tx_each f [] = tx_return ()"
| "tx_each f (x # xs) = tx_then (f x) (tx_each f xs)"

abbreviation malformed_state :: ingest_failure where
  "malformed_state \<equiv> Ingestion_Error IR_MALFORMED_STATE True"

definition or_malformed :: "'a option \<Rightarrow> ingest_failure + 'a" where
  "or_malformed r = (case r of None \<Rightarrow> Inl malformed_state | Some x \<Rightarrow> Inr x)"

definition or_value_error :: "value_error + 'a \<Rightarrow> ingest_failure + 'a" where
  "or_value_error r = (case r of Inl _ \<Rightarrow> Inl Type_Or_Value_Error | Inr x \<Rightarrow> Inr x)"

definition require :: "bool \<Rightarrow> ingest_failure \<Rightarrow> unit tx" where
  "require b f = (if b then tx_return () else tx_fail f)"

text \<open>One statement: it fails as SQLite says, or runs.\<close>

definition run_statement :: "'a tx \<Rightarrow> 'a tx" where
  "run_statement body c =
     (case cn_failures c of
        [] \<Rightarrow> body c
      | None # rest \<Rightarrow> body (c\<lparr>cn_failures := rest\<rparr>)
      | Some f # rest \<Rightarrow> (Inl (Sqlite_Error f), c\<lparr>cn_failures := rest\<rparr>))"

definition select_rows :: "(History \<Rightarrow> 'a) \<Rightarrow> 'a tx" where
  "select_rows q = run_statement (\<lambda>c. (Inr (q (cn_history c)), c))"

definition SQLITE_BUSY :: int where "SQLITE_BUSY = 5"
definition SQLITE_LOCKED :: int where "SQLITE_LOCKED = 6"
definition SQLITE_CORRUPT :: int where "SQLITE_CORRUPT = 11"
definition SQLITE_SCHEMA :: int where "SQLITE_SCHEMA = 17"
definition SQLITE_CONSTRAINT :: int where "SQLITE_CONSTRAINT = 19"
definition SQLITE_NOTADB :: int where "SQLITE_NOTADB = 26"

text \<open>A statement that writes: \<open>None\<close> when a row it writes violates a constraint.\<close>

definition change_rows :: "(History \<Rightarrow> (History \<times> 'a) option) \<Rightarrow> 'a tx" where
  "change_rows w = run_statement (\<lambda>c.
     case w (cn_history c) of
       None \<Rightarrow>
         (Inl (Sqlite_Error \<lparr>sf_integrity = True, sf_errorcode = Some SQLITE_CONSTRAINT\<rparr>), c)
     | Some (h, x) \<Rightarrow> (Inr x, c\<lparr>cn_history := h\<rparr>))"

definition begin_immediate :: "unit tx" where
  "begin_immediate = run_statement (\<lambda>c. (Inr (), c\<lparr>cn_history := cn_committed c\<rparr>))"

definition commit_transaction :: "unit tx" where
  "commit_transaction = run_statement (\<lambda>c. (Inr (), c\<lparr>cn_committed := cn_history c\<rparr>))"

definition rollback_transaction :: "unit tx" where
  "rollback_transaction = run_statement (\<lambda>c. (Inr (), c\<lparr>cn_history := cn_committed c\<rparr>))"

definition classified_sqlite_error :: "sqlite_failure \<Rightarrow> ingest_failure" where
  "classified_sqlite_error e =
     (let primary = map_option (\<lambda>code. code mod 256) (sf_errorcode e)
      in if primary \<in> {Some SQLITE_BUSY, Some SQLITE_LOCKED} then Ingestion_Error IR_STORAGE_BUSY False
         else if sf_integrity e \<or>
                 primary \<in> {Some SQLITE_CORRUPT, Some SQLITE_NOTADB, Some SQLITE_SCHEMA,
                            Some SQLITE_CONSTRAINT}
         then Ingestion_Error IR_TRUST_FAILED True
         else Ingestion_Error IR_PERSISTENCE_FAILED False)"

definition rollback_after_failure :: "unit tx" where
  "rollback_after_failure c =
     (case rollback_transaction c of
        (Inl (Sqlite_Error _), c1) \<Rightarrow> (Inl (Ingestion_Error IR_TRUST_FAILED True), c1)
      | r \<Rightarrow> r)"

text \<open>The \<open>rowid\<close> of a new row, and updates with their row count.\<close>

definition next_rowid :: "int list \<Rightarrow> int" where
  "next_rowid ids = (if ids = [] then 1 else Max (set ids) + 1)"

definition update_rows :: "('r \<Rightarrow> bool) \<Rightarrow> ('r \<Rightarrow> 'r) \<Rightarrow> 'r list \<Rightarrow> 'r list" where
  "update_rows P f rows = map (\<lambda>r. if P r then f r else r) rows"

definition updated_count :: "('r \<Rightarrow> bool) \<Rightarrow> 'r list \<Rightarrow> nat" where
  "updated_count P rows = length (filter P rows)"

section \<open>The checkpoint and the replay ledger\<close>

record Checkpoint =
  kp_sequence :: "int option"
  kp_observed :: "int option"
  kp_digest :: "bytes option"
  kp_kind :: "SampleKind option"
  kp_count :: int

definition parse_checkpoint :: "checkpoint_row list \<Rightarrow> Checkpoint option" where
  "parse_checkpoint rows =
     (case rows of
        [r] \<Rightarrow>
          if ck_singleton_id r \<noteq> 1 \<or> \<not> between 0 MAX_BOUNDED_COUNTER (ck_count r) then None
          else if ck_sequence r = None \<and> ck_observed r = None \<and> ck_digest r = None \<and>
                  ck_kind r = None \<and> ck_count r = 0
          then Some \<lparr>kp_sequence = None, kp_observed = None, kp_digest = None, kp_kind = None,
                     kp_count = 0\<rparr>
          else
            (case (ck_sequence r, ck_observed r, ck_digest r, ck_kind r) of
               (Some q, Some t, Some d, Some raw_kind) \<Rightarrow>
                 if \<not> is_sequence q \<or> \<not> is_timestamp t \<or> \<not> is_digest d \<or> ck_count r < 1 then None
                 else map_option
                        (\<lambda>k. \<lparr>kp_sequence = Some q, kp_observed = Some t, kp_digest = Some d,
                              kp_kind = Some k, kp_count = ck_count r\<rparr>)
                        (sample_kind_of raw_kind)
             | _ \<Rightarrow> None)
      | _ \<Rightarrow> None)"

definition read_checkpoint :: "Checkpoint tx" where
  "read_checkpoint =
     tx_bind (select_rows (\<lambda>h. take 2 (h_checkpoint h))) (\<lambda>rows.
     tx_lift (or_malformed (parse_checkpoint rows)))"

record ReplayEntry =
  re_sequence :: int
  re_observed :: int
  re_digest :: bytes
  re_kind :: SampleKind

definition replay_entry :: "replay_row \<Rightarrow> ReplayEntry option" where
  "replay_entry r =
     (if \<not> is_sequence (ry_sequence r) \<or> \<not> is_timestamp (ry_observed r) \<or> \<not> is_digest (ry_digest r)
      then None
      else map_option
             (\<lambda>k. \<lparr>re_sequence = ry_sequence r, re_observed = ry_observed r,
                   re_digest = ry_digest r, re_kind = k\<rparr>)
             (sample_kind_of (ry_kind r)))"

definition latest_replays :: "nat \<Rightarrow> replay_row list \<Rightarrow> replay_row list" where
  "latest_replays n rows = take n (rev (sort_key ry_sequence rows))"

definition validate_replay_anchor :: "Checkpoint \<Rightarrow> unit tx" where
  "validate_replay_anchor checkpoint =
     tx_bind (select_rows (\<lambda>h. latest_replays (REPLAY_LEDGER_CAPACITY + 1) (h_replay h))) (\<lambda>rows.
     tx_then (require
       (int (length rows) = min (kp_count checkpoint) (int REPLAY_LEDGER_CAPACITY)) malformed_state) (
     if kp_sequence checkpoint = None then tx_return ()
     else
       tx_bind (tx_map (\<lambda>r. tx_lift (or_malformed (replay_entry r))) rows) (\<lambda>retained.
       case retained of
         [] \<Rightarrow> tx_fail Other_Error
       | latest # _ \<Rightarrow>
           require
             (Some (re_sequence latest) = kp_sequence checkpoint \<and>
              Some (re_observed latest) = kp_observed checkpoint \<and>
              Some (re_digest latest) = kp_digest checkpoint \<and>
              Some (re_kind latest) = kp_kind checkpoint) malformed_state)))"

definition is_replay_or_reject_stale :: "Checkpoint \<Rightarrow> HealthProjection \<Rightarrow> bool tx" where
  "is_replay_or_reject_stale checkpoint p =
     (if (case kp_sequence checkpoint of None \<Rightarrow> True | Some q \<Rightarrow> hp_observation_sequence p > q)
      then tx_return False
      else
        tx_bind
          (select_rows (\<lambda>h. find (\<lambda>r. ry_sequence r = hp_observation_sequence p) (h_replay h)))
          (\<lambda>row.
        case row of
          None \<Rightarrow> tx_fail (Ingestion_Error IR_STALE_SEQUENCE False)
        | Some r \<Rightarrow>
            tx_bind (tx_lift (or_malformed (replay_entry r))) (\<lambda>accepted.
            if hp_observed_at p = re_observed accepted \<and> hp_digest p = re_digest accepted \<and>
               hp_sample_kind p = re_kind accepted
            then tx_return True
            else tx_fail (Ingestion_Error IR_SEQUENCE_CONFLICT False))))"

section \<open>The evaluation rows\<close>

record EvaluationRow =
  er_current :: "HealthHistoryStatus option"
  er_candidate :: "HealthHistoryStatus option"
  er_count :: int
  er_sample :: "int option"
  er_heartbeat :: "int option"
  er_gap_phase :: SamplingGapPhase
  er_cooldown :: "int option"

text \<open>\<open>None if x is None else Enum(x)\<close>: nothing when the enumeration raises.\<close>

definition optional_member :: "(string \<Rightarrow> 'a option) \<Rightarrow> string option \<Rightarrow> 'a option option" where
  "optional_member member x =
     (case x of None \<Rightarrow> Some None | Some s \<Rightarrow> map_option Some (member s))"

definition parse_evaluation_row ::
  "AlertScope list \<Rightarrow> evaluation_row \<Rightarrow> ingest_failure + AlertScope \<times> EvaluationRow" where
  "parse_evaluation_row seen r =
     (case (scope_of (ev_scope r), optional_member status_of (ev_current r),
            optional_member status_of (ev_candidate r), gap_phase_of (ev_gap_phase r)) of
        (Some scope, Some current, Some candidate, Some phase) \<Rightarrow>
          if \<not> between 0 MAX_BOUNDED_COUNTER (ev_count r) \<or> \<not> null_or (\<lambda>i. i \<ge> 1) (ev_sample r) \<or>
             \<not> null_or is_timestamp (ev_heartbeat r) \<or> \<not> null_or is_timestamp (ev_cooldown r) \<or>
             scope \<in> set seen
          then Inl malformed_state
          else
            let row = \<lparr>er_current = current, er_candidate = candidate, er_count = ev_count r,
                       er_sample = ev_sample r, er_heartbeat = ev_heartbeat r,
                       er_gap_phase = phase, er_cooldown = ev_cooldown r\<rparr>
            in if scope \<noteq> AS_SAMPLING
               then case make_evaluation_state current candidate (ev_count r) of
                      Inl _ \<Rightarrow> Inl Type_Or_Value_Error
                    | Inr _ \<Rightarrow> if phase \<noteq> GP_CLEAR then Inl malformed_state else Inr (scope, row)
               else if current \<noteq> None \<or> candidate \<noteq> None then Inl malformed_state
               else Inr (scope, row)
      | _ \<Rightarrow> Inl malformed_state)"

type_synonym evaluation_rows = "(AlertScope, EvaluationRow) dict"

fun parse_evaluation_rows ::
  "evaluation_rows \<Rightarrow> evaluation_row list \<Rightarrow> ingest_failure + evaluation_rows" where
  "parse_evaluation_rows known [] = Inr known"
| "parse_evaluation_rows known (r # rs) =
     (case parse_evaluation_row (dict_keys known) r of
        Inl f \<Rightarrow> Inl f
      | Inr entry \<Rightarrow> parse_evaluation_rows (known @ [entry]) rs)"

definition read_evaluation_rows :: "evaluation_rows tx" where
  "read_evaluation_rows =
     tx_bind (select_rows (\<lambda>h. take 7 (sort_key ev_scope (h_evaluation h)))) (\<lambda>rows.
     tx_then (require (length rows = length ALL_SCOPES) malformed_state) (
     tx_bind (tx_lift (parse_evaluation_rows [] rows)) (\<lambda>result.
     tx_then (require (set (dict_keys result) = set ALL_SCOPES) malformed_state) (
     tx_return result))))"

text \<open>\<open>rows[scope]\<close>: all six scopes are there.\<close>

definition row_of :: "evaluation_rows \<Rightarrow> AlertScope \<Rightarrow> EvaluationRow tx" where
  "row_of rows scope =
     (case dict_get rows scope of None \<Rightarrow> tx_fail Other_Error | Some r \<Rightarrow> tx_return r)"

section \<open>The alerts\<close>

record StoredAlert =
  sa_id :: int
  sa_state :: AutomaticAlertState

definition stored_alert :: "alert_row \<Rightarrow> StoredAlert option" where
  "stored_alert r =
     (if al_id r < 1 then None
      else case (scope_of (al_scope r), alert_kind_of (al_kind r), lifecycle_of (al_lifecycle r)) of
             (Some scope, Some kind, Some lifecycle) \<Rightarrow>
               let a = \<lparr>aa_scope = scope, aa_kind = kind, aa_lifecycle = lifecycle,
                        aa_generation = al_episode r, aa_occurrence_count = al_occurrence r,
                        aa_cooldown_until = al_cooldown r, aa_recovered_at = al_recovered r\<rparr>
               in (case build_alert a of
                     Inl _ \<Rightarrow> None
                   | Inr state \<Rightarrow> Some \<lparr>sa_id = al_id r, sa_state = state\<rparr>)
           | _ \<Rightarrow> None)"

definition read_alert :: "alert_row \<Rightarrow> StoredAlert tx" where
  "read_alert r = tx_lift (or_malformed (stored_alert r))"

definition pair_row :: "AlertScope \<Rightarrow> AlertKind \<Rightarrow> alert_row \<Rightarrow> bool" where
  "pair_row scope kind r \<longleftrightarrow> al_scope r = scope_value scope \<and> al_kind r = alert_kind_value kind"

text \<open>The five queries on the alerts, each with its order and limit.\<close>

definition active_health_rows :: "AlertScope \<Rightarrow> alert_row list \<Rightarrow> alert_row list" where
  "active_health_rows scope rows =
     take 3 (sort_key al_kind (sort_key al_id
       (filter (\<lambda>r. al_scope r = scope_value scope \<and> al_kind r \<in> {''degraded'', ''unavailable''} \<and>
                    active_row r) rows)))"

definition active_pair_rows :: "AlertScope \<Rightarrow> AlertKind \<Rightarrow> alert_row list \<Rightarrow> alert_row list" where
  "active_pair_rows scope kind rows =
     take 2 (sort_key al_id (filter (\<lambda>r. pair_row scope kind r \<and> active_row r) rows))"

definition current_active_rows :: "AlertScope \<Rightarrow> AlertKind \<Rightarrow> alert_row list \<Rightarrow> alert_row list" where
  "current_active_rows scope kind rows =
     take 2 (rev (sort_key al_id (filter (\<lambda>r. pair_row scope kind r \<and> active_row r) rows)))"

definition latest_terminal_rows :: "AlertScope \<Rightarrow> AlertKind \<Rightarrow> alert_row list \<Rightarrow> alert_row list" where
  "latest_terminal_rows scope kind rows =
     take 1 (rev (sort_key al_id
       (filter (\<lambda>r. pair_row scope kind r \<and> al_lifecycle r \<in> {''recovered'', ''archived''}) rows)))"

definition eligible_recovered_rows :: "int \<Rightarrow> nat \<Rightarrow> alert_row list \<Rightarrow> alert_row list" where
  "eligible_recovered_rows now n rows =
     take n (sort_key al_cooldown (sort_key al_id
       (filter (\<lambda>r. al_lifecycle r = ''recovered'' \<and> al_cooldown r \<le> now) rows)))"

definition active_health_alerts :: "AlertScope \<Rightarrow> StoredAlert list tx" where
  "active_health_alerts scope =
     tx_bind (select_rows (\<lambda>h. active_health_rows scope (h_alerts h))) (\<lambda>rows.
     tx_then (require (length rows \<le> 2) malformed_state) (
     tx_map read_alert rows))"

definition current_or_latest_alert :: "AlertScope \<Rightarrow> AlertKind \<Rightarrow> StoredAlert option tx" where
  "current_or_latest_alert scope kind =
     tx_bind (select_rows (\<lambda>h. current_active_rows scope kind (h_alerts h))) (\<lambda>active.
     tx_then (require (length active \<le> 1) malformed_state) (
     case active of
       r # _ \<Rightarrow> tx_bind (read_alert r) (\<lambda>a. tx_return (Some a))
     | [] \<Rightarrow>
         tx_bind (select_rows (\<lambda>h. latest_terminal_rows scope kind (h_alerts h))) (\<lambda>terminal.
         case terminal of
           [] \<Rightarrow> tx_return None
         | r # _ \<Rightarrow> tx_bind (read_alert r) (\<lambda>a. tx_return (Some a)))))"

record AlertPlan =
  pl_existing :: "int option"
  pl_transition :: AutomaticAlertTransition

text \<open>An evaluation of the lifecycle, its request built first.\<close>

definition evaluate_alert ::
  "AutomaticAlertState option \<Rightarrow> AutomaticAlertInput \<Rightarrow> AutomaticAlertTransition tx" where
  "evaluate_alert alert request =
     tx_bind (tx_lift (or_value_error (build_alert_input request))) (\<lambda>r.
     tx_lift (or_value_error (evaluate_automatic_alert alert r)))"

definition alert_request ::
  "AutomaticAlertOperation \<Rightarrow> AlertScope \<Rightarrow> AlertKind \<Rightarrow> int \<Rightarrow> AutomaticAlertInput" where
  "alert_request operation scope kind now =
     \<lparr>ai_operation = operation, ai_scope = scope, ai_kind = kind, ai_now = now,
      ai_persistence_succeeded = True,
      ai_escalation_kind = (if operation = AO_ESCALATE then Some AK_UNAVAILABLE else None)\<rparr>"

section \<open>Writing alerts\<close>

definition insert_row :: "(History \<Rightarrow> 'r) \<Rightarrow> (History \<Rightarrow> 'r \<Rightarrow> bool) \<Rightarrow> (History \<Rightarrow> 'r \<Rightarrow> History)
    \<Rightarrow> (History \<Rightarrow> int) \<Rightarrow> int tx" where
  "insert_row mk ok add rowid =
     change_rows (\<lambda>h. if ok h (mk h) then Some (add h (mk h), rowid h) else None)"

definition alert_row_ok :: "History \<Rightarrow> alert_row \<Rightarrow> bool" where
  "alert_row_ok h r \<longleftrightarrow>
     alert_check r \<and> sample_reference h (al_first_sample r) \<and> sample_reference h (al_latest_sample r)"

definition new_alert_row :: "AutomaticAlertState \<Rightarrow> int \<Rightarrow> int \<Rightarrow> int \<Rightarrow> alert_row" where
  "new_alert_row state now sample rowid =
     \<lparr>al_id = rowid, al_scope = scope_value (aa_scope state),
      al_kind = alert_kind_value (aa_kind state), al_lifecycle = ''open'',
      al_severity = (if aa_kind state = AK_DEGRADED then status_value HH_DEGRADED
                     else status_value HH_UNAVAILABLE),
      al_opened = now, al_acknowledged = None, al_recovered = None, al_archived = None,
      al_first_sample = Some sample, al_latest_sample = Some sample,
      al_episode = aa_generation state, al_occurrence = aa_occurrence_count state,
      al_cooldown = aa_cooldown_until state\<rparr>"

definition insert_alert :: "AutomaticAlertState \<Rightarrow> int \<Rightarrow> int \<Rightarrow> int tx" where
  "insert_alert state now sample =
     tx_bind
       (insert_row
          (\<lambda>h. new_alert_row state now sample (next_rowid (map al_id (h_alerts h))))
          (\<lambda>h r. alert_row_ok h r \<and> active_unique (h_alerts h @ [r]))
          (\<lambda>h r. h\<lparr>h_alerts := h_alerts h @ [r]\<rparr>)
          (\<lambda>h. next_rowid (map al_id (h_alerts h)))) (\<lambda>rowid.
     tx_then (require (rowid \<ge> 1) (Ingestion_Error IR_PERSISTENCE_FAILED False)) (
     tx_return rowid))"

definition new_event_row ::
  "int \<Rightarrow> LifecycleEvent \<Rightarrow> int \<Rightarrow> int option \<Rightarrow> AlertLifecycle \<Rightarrow> int \<Rightarrow> event_row" where
  "new_event_row alert event now sample lifecycle rowid =
     \<lparr>ae_id = rowid, ae_alert_id = alert, ae_type = event_value event, ae_at = now,
      ae_sample = sample, ae_lifecycle = lifecycle_value lifecycle\<rparr>"

definition event_row_ok :: "History \<Rightarrow> event_row \<Rightarrow> bool" where
  "event_row_ok h r \<longleftrightarrow>
     event_check r \<and> ae_alert_id r \<in> set (map al_id (h_alerts h)) \<and>
     sample_reference h (ae_sample r)"

text \<open>An insertion of one row reports one changed row, so its check of the count cannot fail.\<close>

definition insert_alert_event ::
  "int \<Rightarrow> LifecycleEvent \<Rightarrow> int \<Rightarrow> int option \<Rightarrow> AlertLifecycle \<Rightarrow> unit tx" where
  "insert_alert_event alert event now sample lifecycle =
     tx_bind
       (insert_row
          (\<lambda>h. new_event_row alert event now sample lifecycle (next_rowid (map ae_id (h_events h))))
          event_row_ok
          (\<lambda>h r. h\<lparr>h_events := h_events h @ [r]\<rparr>)
          (\<lambda>h. 1)) (\<lambda>rowcount.
     require (rowcount = 1) (Ingestion_Error IR_PERSISTENCE_FAILED False))"

definition update_alert :: "int \<Rightarrow> (alert_row \<Rightarrow> alert_row) \<Rightarrow> unit tx" where
  "update_alert alert f =
     tx_bind
       (change_rows (\<lambda>h.
          let rows = update_rows (\<lambda>r. al_id r = alert) f (h_alerts h)
          in if list_all (alert_row_ok h) (filter (\<lambda>r. al_id r = alert) rows) \<and> active_unique rows
             then Some (h\<lparr>h_alerts := rows\<rparr>, updated_count (\<lambda>r. al_id r = alert) (h_alerts h))
             else None)) (\<lambda>rowcount.
     require (rowcount = 1) malformed_state)"

definition persist_alert_plan :: "AlertPlan \<Rightarrow> int \<Rightarrow> int option \<Rightarrow> unit tx" where
  "persist_alert_plan plan now sample =
     (let t = pl_transition plan
      in if at_outcome t = AT_IDEMPOTENT then tx_return ()
         else if at_outcome t \<noteq> AT_APPLIED then tx_fail malformed_state
         else
           case (if at_previous t = None \<and> at_state t \<noteq> None then at_state t
                 else at_created_alert t) of
             Some created \<Rightarrow>
               (case sample of
                  None \<Rightarrow> tx_fail malformed_state
                | Some s \<Rightarrow>
                    tx_bind (insert_alert created now s) (\<lambda>alert.
                    insert_alert_event alert LE_OPENED now (Some s) AL_OPEN))
           | None \<Rightarrow>
               (case (pl_existing plan, at_state t, at_event t) of
                  (Some alert, Some state, Some event) \<Rightarrow>
                    tx_then
                      (if event = LE_OCCURRENCE_UPDATED
                       then update_alert alert (\<lambda>r.
                              r\<lparr>al_occurrence := aa_occurrence_count state,
                                al_cooldown := aa_cooldown_until state,
                                al_latest_sample := (case sample of None \<Rightarrow> al_latest_sample r
                                                     | Some s \<Rightarrow> Some s)\<rparr>)
                       else if event = LE_RECOVERED
                       then update_alert alert (\<lambda>r.
                              r\<lparr>al_lifecycle := ''recovered'', al_recovered := aa_recovered_at state,
                                al_cooldown := aa_cooldown_until state, al_latest_sample := sample\<rparr>)
                       else if event = LE_ARCHIVED
                       then update_alert alert (\<lambda>r.
                              r\<lparr>al_lifecycle := ''archived'', al_archived := Some now\<rparr>)
                       else tx_fail malformed_state)
                      (insert_alert_event alert event now sample (aa_lifecycle state))
                | _ \<Rightarrow> tx_fail malformed_state))"

section \<open>Writing samples, evaluation rows and the checkpoint\<close>

definition new_sample_row :: "HealthProjection \<Rightarrow> SampleKind \<Rightarrow> int \<Rightarrow> sample_row" where
  "new_sample_row p kind rowid =
     \<lparr>sm_id = rowid, sm_sequence = hp_observation_sequence p, sm_observed = hp_observed_at p,
      sm_recorded = hp_recorded_at p, sm_status = status_value (hp_overall_status p),
      sm_uptime = hp_service_uptime_ms p, sm_kind = sample_kind_value kind,
      sm_accepted_kind = sample_kind_value (hp_sample_kind p), sm_digest = hp_digest p,
      sm_missed = hp_missed_intervals p\<rparr>"

definition insert_health_sample :: "HealthProjection \<Rightarrow> SampleKind \<Rightarrow> int tx" where
  "insert_health_sample p kind =
     tx_bind
       (insert_row
          (\<lambda>h. new_sample_row p kind (next_rowid (map sm_id (h_samples h))))
          (\<lambda>h r. sample_check r \<and> sm_sequence r \<notin> set (map sm_sequence (h_samples h)))
          (\<lambda>h r. h\<lparr>h_samples := h_samples h @ [r]\<rparr>)
          (\<lambda>h. next_rowid (map sm_id (h_samples h)))) (\<lambda>rowid.
     tx_then (require (rowid \<ge> 1) (Ingestion_Error IR_PERSISTENCE_FAILED False)) (
     tx_return rowid))"

definition new_component_row :: "int \<Rightarrow> ComponentProjection \<Rightarrow> component_row" where
  "new_component_row sample c =
     \<lparr>cs_sample_id = sample, cs_component = component_value (cp_component c),
      cs_status = status_value (cp_status c), cs_reason_1 = reason_value (cp_reasons c ! 0),
      cs_reason_2 = (if length (cp_reasons c) > 1 then Some (reason_value (cp_reasons c ! 1)) else None),
      cs_reason_3 = (if length (cp_reasons c) > 2 then Some (reason_value (cp_reasons c ! 2)) else None),
      cs_checked = cp_checked_at c, cs_latency = cp_latency_ms c,
      cs_last_successful = cp_last_successful_at c\<rparr>"

definition component_row_ok :: "History \<Rightarrow> component_row \<Rightarrow> bool" where
  "component_row_ok h r \<longleftrightarrow>
     component_check r \<and> cs_sample_id r \<in> set (map sm_id (h_samples h)) \<and>
     (cs_sample_id r, cs_component r)
       \<notin> set (map (\<lambda>c. (cs_sample_id c, cs_component c)) (h_components h))"

definition insert_component_samples :: "int \<Rightarrow> ComponentProjection list \<Rightarrow> unit tx" where
  "insert_component_samples sample =
     tx_each (\<lambda>c.
       if cp_reasons c = [] then tx_fail Other_Error
       else tx_bind
              (insert_row (\<lambda>h. new_component_row sample c) component_row_ok
                 (\<lambda>h r. h\<lparr>h_components := h_components h @ [r]\<rparr>) (\<lambda>h. 1)) (\<lambda>_.
            tx_return ()))"

definition update_evaluation :: "AlertScope \<Rightarrow> (evaluation_row \<Rightarrow> evaluation_row) \<Rightarrow> unit tx" where
  "update_evaluation scope f =
     tx_bind
       (change_rows (\<lambda>h.
          let P = (\<lambda>r. ev_scope r = scope_value scope);
              rows = update_rows P f (h_evaluation h)
          in if list_all (\<lambda>r. evaluation_check r \<and> sample_reference h (ev_sample r)) (filter P rows)
             then Some (h\<lparr>h_evaluation := rows\<rparr>, updated_count P (h_evaluation h))
             else None)) (\<lambda>rowcount.
     require (rowcount = 1) malformed_state)"

type_synonym health_transitions = "(AlertScope \<times> HealthEvaluationTransition) list"

definition coalesce :: "'a option \<Rightarrow> 'a option \<Rightarrow> 'a option" where
  "coalesce x y = (case x of None \<Rightarrow> y | Some z \<Rightarrow> Some z)"

definition write_evaluation_rows ::
  "evaluation_rows \<Rightarrow> health_transitions \<Rightarrow> SamplingGapTransition \<Rightarrow> int option \<Rightarrow> int option
    \<Rightarrow> unit tx" where
  "write_evaluation_rows previous health gap sample heartbeat =
     tx_then
       (tx_each (\<lambda>(scope, t).
          tx_bind (row_of previous scope) (\<lambda>row.
          update_evaluation scope (\<lambda>r.
            r\<lparr>ev_current := map_option status_value (hs_current_status (ht_state t)),
              ev_candidate := map_option status_value (hs_candidate_status (ht_state t)),
              ev_count := hs_consecutive_count (ht_state t),
              ev_sample := coalesce sample (er_sample row),
              ev_heartbeat := coalesce heartbeat (er_heartbeat row)\<rparr>))) health)
       (tx_bind (row_of previous AS_SAMPLING) (\<lambda>row.
        update_evaluation AS_SAMPLING (\<lambda>r.
          r\<lparr>ev_count := gs_largest_missed (gt_state gap),
            ev_sample := coalesce sample (er_sample row),
            ev_heartbeat := coalesce heartbeat (er_heartbeat row),
            ev_gap_phase := gap_phase_value (gs_phase (gt_state gap))\<rparr>)))"

definition new_replay_row :: "HealthProjection \<Rightarrow> replay_row" where
  "new_replay_row p =
     \<lparr>ry_sequence = hp_observation_sequence p, ry_observed = hp_observed_at p,
      ry_digest = hp_digest p, ry_kind = sample_kind_value (hp_sample_kind p)\<rparr>"

text \<open>
  The deletion keeps the rows from the 64th largest sequence on; with fewer rows its subquery is
  \<open>NULL\<close> and nothing is deleted.
\<close>

definition prune_replays :: "replay_row list \<Rightarrow> replay_row list" where
  "prune_replays rows =
     (case drop (REPLAY_LEDGER_CAPACITY - 1) (rev (sort_key ry_sequence rows)) of
        [] \<Rightarrow> rows
      | oldest # _ \<Rightarrow> filter (\<lambda>r. \<not> ry_sequence r < ry_sequence oldest) rows)"

definition advanced_checkpoint :: "Checkpoint \<Rightarrow> HealthProjection \<Rightarrow> checkpoint_row \<Rightarrow> checkpoint_row"
  where
  "advanced_checkpoint previous p r =
     r\<lparr>ck_sequence := Some (hp_observation_sequence p), ck_observed := Some (hp_observed_at p),
       ck_digest := Some (hp_digest p), ck_kind := Some (sample_kind_value (hp_sample_kind p)),
       ck_count := min (kp_count previous + 1) MAX_BOUNDED_COUNTER\<rparr>"

definition write_checkpoint_and_replay_ledger :: "Checkpoint \<Rightarrow> HealthProjection \<Rightarrow> unit tx" where
  "write_checkpoint_and_replay_ledger previous p =
     tx_then (require (case kp_sequence previous of None \<Rightarrow> True
                       | Some q \<Rightarrow> hp_observation_sequence p > q) malformed_state) (
     tx_then (tx_bind
       (insert_row (\<lambda>h. new_replay_row p)
          (\<lambda>h r. replay_check r \<and> ry_sequence r \<notin> set (map ry_sequence (h_replay h)))
          (\<lambda>h r. h\<lparr>h_replay := h_replay h @ [r]\<rparr>) (\<lambda>h. 1)) (\<lambda>_. tx_return ())) (
     tx_then (change_rows (\<lambda>h. Some (h\<lparr>h_replay := prune_replays (h_replay h)\<rparr>, ()))) (
     tx_bind
       (change_rows (\<lambda>h.
          let P = (\<lambda>r. ck_singleton_id r = 1 \<and> ck_sequence r = kp_sequence previous \<and>
                       ck_count r = kp_count previous);
              f = advanced_checkpoint previous p;
              hit = filter P (h_checkpoint h)
          in if list_all (\<lambda>r. checkpoint_check (f r) \<and> \<not> checkpoint_regression r (f r)) hit
             then Some (h\<lparr>h_checkpoint := update_rows P f (h_checkpoint h)\<rparr>, length hit)
             else None)) (\<lambda>rowcount.
     require (rowcount = 1) malformed_state))))"

end
