(* ===== verification/Ingestion.thy ===== *)
theory Ingestion
  imports Ingestion_Store
begin

text \<open>
  \<open>health_history/ingestion.py\<close>, its upper half: the evaluation of the health scopes and of the
  sampling gap, the decision what to store, the plan of the alerts, and \<open>ingest_projection\<close>, which
  runs all of it in one write transaction and rolls back whatever fails.
\<close>

definition HEARTBEAT_INTERVAL_US :: int where "HEARTBEAT_INTERVAL_US = 15 * 60 * 1000000"
definition MAX_RELEVANT_ALERTS :: nat where "MAX_RELEVANT_ALERTS = 11"

section \<open>Evaluation\<close>

definition HEALTH_SCOPES :: "AlertScope list" where
  "HEALTH_SCOPES = [AS_OVERALL, AS_WLED, AS_HYPERHDR, AS_CAPTURE, AS_RASPBERRY_PI]"

definition disabled_reasons :: "NormalizedReason list" where
  "disabled_reasons = [NR_WLED_DISABLED, NR_HYPERHDR_DISABLED, NR_CAPTURE_DISABLED]"

definition disabled_component :: "ComponentProjection \<Rightarrow> bool" where
  "disabled_component c \<longleftrightarrow>
     (case cp_reasons c of [r] \<Rightarrow> r \<in> set disabled_reasons | _ \<Rightarrow> False)"

definition intentional_disabled :: "HealthProjection \<Rightarrow> ComponentProjection option \<Rightarrow> bool" where
  "intentional_disabled p component =
     (case component of
        Some c \<Rightarrow> disabled_component c
      | None \<Rightarrow>
          if hp_overall_status p = HH_HEALTHY then False
          else
            let worst = filter (\<lambda>c. cp_status c = hp_overall_status p) (hp_components p)
            in worst \<noteq> [] \<and> list_all disabled_component worst)"

text \<open>\<open>component_by_name[ComponentName(scope.value)]\<close>, or no component for the overall scope.\<close>

definition scope_component ::
  "HealthProjection \<Rightarrow> AlertScope \<Rightarrow> ingest_failure + ComponentProjection option" where
  "scope_component p scope =
     (if scope = AS_OVERALL then Inr None
      else case component_of (scope_value scope) of
             None \<Rightarrow> Inl Type_Or_Value_Error
           | Some name \<Rightarrow>
               (case find (\<lambda>c. cp_component c = name) (rev (hp_components p)) of
                  None \<Rightarrow> Inl Other_Error
                | Some c \<Rightarrow> Inr (Some c)))"

definition evaluate_scope ::
  "evaluation_rows \<Rightarrow> HealthProjection \<Rightarrow> AlertScope \<Rightarrow> (AlertScope \<times> HealthEvaluationTransition) tx"
  where
  "evaluate_scope rows p scope =
     tx_bind (row_of rows scope) (\<lambda>row.
     tx_bind (tx_lift (scope_component p scope)) (\<lambda>component.
     tx_bind (tx_lift (or_value_error
       (make_evaluation_state (er_current row) (er_candidate row) (er_count row)))) (\<lambda>state.
     tx_bind (active_health_alerts scope) (\<lambda>active.
     tx_bind (tx_lift (or_value_error
       (make_evaluation_input
          (case component of None \<Rightarrow> hp_overall_status p | Some c \<Rightarrow> cp_status c)
          (intentional_disabled p component) (active \<noteq> []) True))) (\<lambda>observation.
     tx_bind (tx_lift (or_value_error (evaluate_health_state state observation))) (\<lambda>t.
     tx_return (scope, t)))))))"

definition evaluate_health_scopes ::
  "evaluation_rows \<Rightarrow> HealthProjection \<Rightarrow> health_transitions tx" where
  "evaluate_health_scopes rows p = tx_map (evaluate_scope rows p) HEALTH_SCOPES"

definition evaluate_gap ::
  "evaluation_rows \<Rightarrow> Checkpoint \<Rightarrow> HealthProjection \<Rightarrow> SamplingGapTransition tx" where
  "evaluate_gap rows checkpoint p =
     tx_bind (row_of rows AS_SAMPLING) (\<lambda>row.
     tx_bind (tx_lift (or_value_error (build_gap_state
       \<lparr>gs_phase = er_gap_phase row, gs_committed_observations = kp_count checkpoint,
        gs_largest_missed = er_count row, gs_last_sequence = kp_sequence checkpoint\<rparr>))) (\<lambda>state.
     tx_bind (tx_lift (or_value_error (build_gap_observation
       \<lparr>go_sequence = hp_observation_sequence p, go_missed_intervals = hp_missed_intervals p,
        go_persistence_succeeded = True, go_health_collection_succeeded = True,
        go_startup_gap_marker = (hp_sample_kind p = SK_STARTUP_GAP),
        go_clock_discontinuity_marker = (hp_sample_kind p = SK_CLOCK_DISCONTINUITY)\<rparr>)))
       (\<lambda>observation.
     tx_lift (or_value_error (evaluate_sampling_gap state observation)))))"

section \<open>The stored baseline\<close>

definition read_component_row :: "component_row \<Rightarrow> ComponentProjection option" where
  "read_component_row r =
     (case (component_of (cs_component r), status_of (cs_status r),
            those (map reason_of (cs_reason_1 r # List.map_filter id [cs_reason_2 r, cs_reason_3 r]))) of
        (Some component, Some status, Some reasons) \<Rightarrow>
          let c = \<lparr>cp_component = component, cp_status = status, cp_reasons = reasons,
                   cp_checked_at = cs_checked r, cp_latency_ms = cs_latency r,
                   cp_last_successful_at = cs_last_successful r\<rparr>
          in if component_projection_error c = None then Some c else None
      | _ \<Rightarrow> None)"

fun read_components ::
  "ComponentProjection list \<Rightarrow> component_row list \<Rightarrow> ComponentProjection list option" where
  "read_components known [] = Some known"
| "read_components known (r # rs) =
     (case read_component_row r of
        None \<Rightarrow> None
      | Some c \<Rightarrow>
          if cp_component c \<in> set (map cp_component known) then None
          else read_components (known @ [c]) rs)"

definition component_named :: "ComponentProjection list \<Rightarrow> ComponentName \<Rightarrow> ComponentProjection option"
  where
  "component_named cs name = find (\<lambda>c. cp_component c = name) cs"

type_synonym baseline = "HealthHistoryStatus \<times> ComponentProjection list"

definition sample_row_valid :: "int option \<Rightarrow> sample_row \<Rightarrow> bool" where
  "sample_row_valid last_seq r \<longleftrightarrow>
     is_sequence (sm_sequence r) \<and> is_timestamp (sm_observed r) \<and> is_timestamp (sm_recorded r) \<and>
     between 0 MAX_SERVICE_UPTIME_MS (sm_uptime r) \<and> is_digest (sm_digest r) \<and>
     between 0 MAX_BOUNDED_COUNTER (sm_missed r) \<and>
     (case last_seq of None \<Rightarrow> False | Some q \<Rightarrow> sm_sequence r \<le> q) \<and>
     sample_kind_of (sm_kind r) \<noteq> None"

definition parse_baseline ::
  "(bytes \<Rightarrow> bytes) \<Rightarrow> sample_row \<Rightarrow> component_row list \<Rightarrow> baseline option" where
  "parse_baseline sha sample rows =
     (case (sample_kind_of (sm_accepted_kind sample), status_of (sm_status sample),
            if length rows = length HISTORY_COMPONENT_ORDER then read_components [] rows else None) of
        (Some kind, Some status, Some cs) \<Rightarrow>
          (case those (map (component_named cs) HISTORY_COMPONENT_ORDER) of
             None \<Rightarrow> None
           | Some components \<Rightarrow>
               let p = \<lparr>hp_schema_version = 1, hp_observation_sequence = sm_sequence sample,
                        hp_observed_at = sm_observed sample, hp_recorded_at = sm_recorded sample,
                        hp_overall_status = status, hp_service_uptime_ms = sm_uptime sample,
                        hp_sample_kind = kind, hp_missed_intervals = sm_missed sample,
                        hp_components = components, hp_digest = sm_digest sample\<rparr>
               in if health_projection_error p = None \<and> validate_health_projection sha p = None
                  then Some (status, components) else None)
      | _ \<Rightarrow> None)"

definition read_baseline_sample :: "(bytes \<Rightarrow> bytes) \<Rightarrow> int \<Rightarrow> int option \<Rightarrow> baseline tx" where
  "read_baseline_sample sha sample last_seq =
     tx_bind (select_rows (\<lambda>h. find (\<lambda>r. sm_id r = sample) (h_samples h))) (\<lambda>row.
     case row of
       None \<Rightarrow> tx_fail malformed_state
     | Some r \<Rightarrow>
         tx_then (require (sample_row_valid last_seq r \<and> sample_kind_of (sm_accepted_kind r) \<noteq> None \<and>
                           status_of (sm_status r) \<noteq> None) malformed_state) (
         tx_bind (select_rows (\<lambda>h. take 5 (filter (\<lambda>c. cs_sample_id c = sample) (h_components h))))
           (\<lambda>rows.
         tx_lift (or_malformed (parse_baseline sha r rows)))))"

definition baseline_sample_reference ::
  "(bytes \<Rightarrow> bytes) \<Rightarrow> evaluation_rows \<Rightarrow> int option \<Rightarrow> int option tx" where
  "baseline_sample_reference sha rows last_seq =
     (let references = remdups (map (er_sample \<circ> snd) rows)
      in case references of
           [None] \<Rightarrow> tx_return None
         | [Some sample] \<Rightarrow>
             tx_bind (read_baseline_sample sha sample last_seq) (\<lambda>_. tx_return (Some sample))
         | _ \<Rightarrow> tx_fail malformed_state)"

definition projection_changed ::
  "(bytes \<Rightarrow> bytes) \<Rightarrow> int \<Rightarrow> HealthProjection \<Rightarrow> int option \<Rightarrow> bool tx" where
  "projection_changed sha sample p last_seq =
     tx_bind (read_baseline_sample sha sample last_seq) (\<lambda>(status, previous).
     tx_return
       (status \<noteq> hp_overall_status p \<or>
        list_ex (\<lambda>c. case component_named previous (cp_component c) of
                       None \<Rightarrow> True
                     | Some b \<Rightarrow> (cp_status b, cp_reasons b) \<noteq> (cp_status c, cp_reasons c))
          (hp_components p)))"

section \<open>What to store\<close>

record StorageDecision =
  sd_outcome :: IngestionOutcome
  sd_stored_kind :: "SampleKind option"
  sd_updates_baseline :: bool

definition decision :: "IngestionOutcome \<Rightarrow> SampleKind option \<Rightarrow> StorageDecision" where
  "decision outcome kind =
     \<lparr>sd_outcome = outcome, sd_stored_kind = kind, sd_updates_baseline = True\<rparr>"

definition storage_decision ::
  "(bytes \<Rightarrow> bytes) \<Rightarrow> evaluation_rows \<Rightarrow> Checkpoint \<Rightarrow> HealthProjection \<Rightarrow> StorageDecision tx" where
  "storage_decision sha rows checkpoint p =
     tx_bind (baseline_sample_reference sha rows (kp_sequence checkpoint)) (\<lambda>baseline.
     tx_then (require (\<not> (kp_sequence checkpoint = None \<and> baseline \<noteq> None)) malformed_state) (
     let updates = \<not> (kp_sequence checkpoint \<noteq> None \<and> baseline = None)
     in if hp_sample_kind p = SK_STARTUP_GAP
        then tx_return \<lparr>sd_outcome = IO_STARTUP_MARKER_STORED, sd_stored_kind = Some SK_STARTUP_GAP,
                        sd_updates_baseline = updates\<rparr>
        else if hp_sample_kind p = SK_CLOCK_DISCONTINUITY
        then tx_return \<lparr>sd_outcome = IO_CLOCK_MARKER_STORED,
                        sd_stored_kind = Some SK_CLOCK_DISCONTINUITY,
                        sd_updates_baseline = updates\<rparr>
        else
          case (kp_sequence checkpoint, baseline) of
            (Some _, Some sample) \<Rightarrow>
              tx_bind (projection_changed sha sample p (kp_sequence checkpoint)) (\<lambda>changed.
              if changed then tx_return (decision IO_TRANSITION_STORED (Some SK_TRANSITION))
              else
                tx_bind (row_of rows AS_OVERALL) (\<lambda>overall.
                case er_heartbeat overall of
                  None \<Rightarrow> tx_fail malformed_state
                | Some beat \<Rightarrow>
                    if hp_recorded_at p \<ge> beat \<and> hp_recorded_at p - beat \<ge> HEARTBEAT_INTERVAL_US
                    then tx_return (decision IO_HEARTBEAT_STORED (Some SK_HEARTBEAT))
                    else tx_return (decision IO_STATE_ONLY None)))
          | _ \<Rightarrow> tx_return (decision IO_TRANSITION_STORED (Some SK_TRANSITION))))"

section \<open>Planning the alerts\<close>

definition plan_open_alert :: "AlertScope \<Rightarrow> AlertKind \<Rightarrow> int \<Rightarrow> AlertPlan tx" where
  "plan_open_alert scope kind now =
     tx_bind (current_or_latest_alert scope kind) (\<lambda>stored.
     tx_bind (evaluate_alert (map_option sa_state stored) (alert_request AO_OPEN scope kind now))
       (\<lambda>t.
     tx_then (require (at_outcome t \<noteq> AT_REJECTED) (Ingestion_Error IR_GENERATION_EXHAUSTED False)) (
     tx_then (require (at_outcome t \<in> {AT_APPLIED, AT_IDEMPOTENT}) malformed_state) (
     tx_return \<lparr>pl_existing = map_option sa_id stored, pl_transition = t\<rparr>))))"

definition plan_health_condition :: "AlertScope \<Rightarrow> AlertKind \<Rightarrow> int \<Rightarrow> AlertPlan tx" where
  "plan_health_condition scope kind now =
     (if kind \<noteq> AK_UNAVAILABLE then plan_open_alert scope kind now
      else
        tx_bind (current_or_latest_alert scope AK_UNAVAILABLE) (\<lambda>unavailable.
        if unavailable \<noteq> None then plan_open_alert scope kind now
        else
          tx_bind (active_health_alerts scope) (\<lambda>active.
          case find (\<lambda>a. aa_kind (sa_state a) = AK_DEGRADED) active of
            None \<Rightarrow> plan_open_alert scope kind now
          | Some degraded \<Rightarrow>
              tx_bind (evaluate_alert (Some (sa_state degraded))
                         (alert_request AO_ESCALATE scope AK_DEGRADED now)) (\<lambda>t.
              tx_then (require (at_outcome t \<noteq> AT_REJECTED)
                         (Ingestion_Error IR_GENERATION_EXHAUSTED False)) (
              tx_then (require (at_event t = Some LE_OPENED) malformed_state) (
              tx_return \<lparr>pl_existing = Some (sa_id degraded), pl_transition = t\<rparr>))))))"

definition recovery_plan :: "int \<Rightarrow> StoredAlert \<Rightarrow> AlertPlan tx" where
  "recovery_plan now stored =
     tx_bind (evaluate_alert (Some (sa_state stored))
       (alert_request AO_RECOVER (aa_scope (sa_state stored)) (aa_kind (sa_state stored)) now)) (\<lambda>t.
     tx_then (require (at_event t = Some LE_RECOVERED) malformed_state) (
     tx_return \<lparr>pl_existing = Some (sa_id stored), pl_transition = t\<rparr>))"

definition plan_health_recovery :: "AlertScope \<Rightarrow> int \<Rightarrow> AlertPlan list tx" where
  "plan_health_recovery scope now =
     tx_bind (active_health_alerts scope) (tx_map (recovery_plan now))"

definition plan_pair_recovery :: "AlertScope \<Rightarrow> AlertKind \<Rightarrow> int \<Rightarrow> AlertPlan list tx" where
  "plan_pair_recovery scope kind now =
     tx_bind (select_rows (\<lambda>h. active_pair_rows scope kind (h_alerts h))) (\<lambda>rows.
     tx_then (require (length rows \<le> 1) malformed_state) (
     case rows of
       [] \<Rightarrow> tx_return []
     | r # _ \<Rightarrow>
         tx_bind (read_alert r) (\<lambda>stored.
         tx_bind (recovery_plan now stored) (\<lambda>plan. tx_return [plan]))))"

fun condition_kind :: "HealthHistoryStatus option \<Rightarrow> AlertKind option" where
  "condition_kind (Some HH_DEGRADED) = Some AK_DEGRADED"
| "condition_kind (Some HH_UNAVAILABLE) = Some AK_UNAVAILABLE"
| "condition_kind _ = None"

definition plan_scope :: "int \<Rightarrow> AlertScope \<times> HealthEvaluationTransition \<Rightarrow> AlertPlan list tx" where
  "plan_scope now = (\<lambda>(scope, t).
     (case ht_event t of
        HE_CONDITION_CONFIRMED \<Rightarrow>
          (case condition_kind (hs_current_status (ht_state t)) of
             None \<Rightarrow> tx_fail malformed_state
           | Some kind \<Rightarrow>
               tx_bind (plan_health_condition scope kind now) (\<lambda>plan. tx_return [plan]))
      | HE_RECOVERY_CONFIRMED \<Rightarrow> plan_health_recovery scope now
      | HE_NONE \<Rightarrow> tx_return []))"

definition gap_condition :: "SamplingGapTransition \<Rightarrow> bool \<Rightarrow> bool" where
  "gap_condition gap has_miss \<longleftrightarrow>
     gt_event gap = GE_OPENED \<or>
     gs_phase (gt_state gap) = GP_ACTIVE \<and> has_miss \<and>
     gt_event gap \<in> {GE_MISS_RECORDED, GE_RECOVERY_RESET}"

definition plan_automatic_alerts ::
  "health_transitions \<Rightarrow> SamplingGapTransition \<Rightarrow> int \<Rightarrow> bool \<Rightarrow> AlertPlan list tx" where
  "plan_automatic_alerts health gap now has_miss =
     tx_bind (tx_map (plan_scope now) health) (\<lambda>plans.
     tx_bind
       (if gap_condition gap has_miss
        then tx_bind (plan_open_alert AS_SAMPLING AK_SAMPLING_GAP now) (\<lambda>plan. tx_return [plan])
        else if gt_event gap = GE_RECOVERED
        then plan_pair_recovery AS_SAMPLING AK_SAMPLING_GAP now
        else tx_return []) (\<lambda>more.
     tx_return (concat plans @ more)))"

primrec archive_rows ::
  "int \<Rightarrow> (AlertScope \<times> AlertKind) list \<Rightarrow> alert_row list \<Rightarrow> unit tx" where
  "archive_rows now seen [] = tx_return ()"
| "archive_rows now seen (r # rs) =
     tx_bind (read_alert r) (\<lambda>stored.
     let a = sa_state stored; key = (aa_scope a, aa_kind a)
     in tx_then (require (key \<notin> set seen) malformed_state) (
        tx_bind (evaluate_alert (Some a) (alert_request AO_ARCHIVE (aa_scope a) (aa_kind a) now)) (\<lambda>t.
        tx_then (persist_alert_plan \<lparr>pl_existing = Some (sa_id stored), pl_transition = t\<rparr> now None) (
        archive_rows now (key # seen) rs))))"

definition archive_eligible_alerts :: "int \<Rightarrow> unit tx" where
  "archive_eligible_alerts now =
     tx_bind (select_rows (\<lambda>h. eligible_recovered_rows now (MAX_RELEVANT_ALERTS + 1) (h_alerts h)))
       (\<lambda>rows.
     tx_then (require (length rows \<le> MAX_RELEVANT_ALERTS) malformed_state) (
     archive_rows now [] rows))"

definition requires_supporting_sample :: "AlertPlan list \<Rightarrow> bool" where
  "requires_supporting_sample plans \<longleftrightarrow>
     list_ex (\<lambda>plan. at_event (pl_transition plan) \<in> {Some LE_OPENED, Some LE_RECOVERED}) plans"

definition force_transition_storage :: "StorageDecision \<Rightarrow> StorageDecision" where
  "force_transition_storage d =
     (if sd_stored_kind d \<in> {Some SK_TRANSITION, Some SK_STARTUP_GAP, Some SK_CLOCK_DISCONTINUITY}
      then d else decision IO_TRANSITION_STORED (Some SK_TRANSITION))"

section \<open>One observation\<close>

text \<open>
  The statements between the start of the transaction and its commit: \<open>None\<close> for a replay, which
  stops at once, or the outcome. The injection seam \<open>_fault\<close> does nothing and is left out.
\<close>

definition store_observation ::
  "(bytes \<Rightarrow> bytes) \<Rightarrow> Checkpoint \<Rightarrow> HealthProjection \<Rightarrow> IngestionOutcome tx" where
  "store_observation sha checkpoint p =
     tx_bind read_evaluation_rows (\<lambda>rows.
     tx_then (archive_eligible_alerts (hp_recorded_at p)) (
     tx_bind (evaluate_health_scopes rows p) (\<lambda>health.
     tx_bind (evaluate_gap rows checkpoint p) (\<lambda>gap.
     tx_bind (storage_decision sha rows checkpoint p) (\<lambda>decision1.
     tx_bind (plan_automatic_alerts health gap (hp_recorded_at p)
       (hp_missed_intervals p > 0 \<and> hp_sample_kind p \<noteq> SK_CLOCK_DISCONTINUITY)) (\<lambda>plans.
     let d = (if requires_supporting_sample plans then force_transition_storage decision1
              else decision1)
     in tx_bind (case sd_stored_kind d of
                   None \<Rightarrow> tx_return None
                 | Some kind \<Rightarrow>
                     tx_bind (insert_health_sample p kind) (\<lambda>sample.
                     tx_then (insert_component_samples sample (hp_components p)) (
                     tx_return (Some sample)))) (\<lambda>sample.
        tx_then (write_evaluation_rows rows health gap
          (if sd_updates_baseline d then sample else None)
          (if sample = None then None else Some (hp_recorded_at p))) (
        tx_then (tx_each (\<lambda>plan. persist_alert_plan plan (hp_recorded_at p) sample) plans) (
        tx_then (write_checkpoint_and_replay_ledger checkpoint p) (
        tx_return (sd_outcome d)))))))))))"

definition ingest_transaction ::
  "(bytes \<Rightarrow> bytes) \<Rightarrow> HealthProjection \<Rightarrow> IngestionOutcome option tx" where
  "ingest_transaction sha p =
     tx_bind read_checkpoint (\<lambda>checkpoint.
     tx_then (validate_replay_anchor checkpoint) (
     tx_bind (is_replay_or_reject_stale checkpoint p) (\<lambda>replay.
     if replay then tx_return None
     else tx_bind (store_observation sha checkpoint p) (\<lambda>outcome. tx_return (Some outcome)))))"

text \<open>The three handlers: they roll back what was started and raise the sanitised error.\<close>

definition handle_failure :: "ingest_failure \<Rightarrow> 'a tx" where
  "handle_failure f =
     (case f of
        Other_Error \<Rightarrow> tx_fail f
      | Ingestion_Error _ _ \<Rightarrow> tx_then rollback_after_failure (tx_fail f)
      | Sqlite_Error e \<Rightarrow> tx_then rollback_after_failure (tx_fail (classified_sqlite_error e))
      | Type_Or_Value_Error \<Rightarrow> tx_then rollback_after_failure (tx_fail malformed_state))"

definition tx_handle :: "'a tx \<Rightarrow> 'a tx" where
  "tx_handle m c =
     (case m c of
        (Inl f, c1) \<Rightarrow> handle_failure f c1
      | r \<Rightarrow> r)"

definition ingest_projection ::
  "(bytes \<Rightarrow> bytes) \<Rightarrow> HealthProjection \<Rightarrow> IngestionOutcome tx" where
  "ingest_projection sha p c =
     (if validate_health_projection sha p \<noteq> None
      then (Inl (Ingestion_Error IR_INVALID_PROJECTION False), c)
      else
        case begin_immediate c of
          (Inl (Sqlite_Error e), c1) \<Rightarrow> (Inl (classified_sqlite_error e), c1)
        | (Inl f, c1) \<Rightarrow> (Inl f, c1)
        | (Inr (), c1) \<Rightarrow>
            tx_handle
              (tx_bind (ingest_transaction sha p) (\<lambda>outcome.
               case outcome of
                 None \<Rightarrow> tx_then rollback_after_failure (tx_return IO_REPLAYED)
               | Some result \<Rightarrow> tx_then commit_transaction (tx_return result))) c1)"

end
