(* ===== verification/Ingestion_Logic.thy ===== *)
theory Ingestion_Logic
  imports Ingestion
begin

text \<open>
  Reasoning about transactions. \<open>tx_upto F m h Q\<close> says: run on the history \<open>h\<close>, the step \<open>m\<close> ends in
  a result and a history with \<open>Q\<close>, or raises one of the failures \<open>F\<close>, or reports a failure that SQLite
  was due to report; it never commits. Most steps hold for any \<open>F\<close>, that is, they raise nothing of
  their own. The rules follow the composition of the code.
\<close>

section \<open>Steps that succeed, refuse or report\<close>

definition reported :: "Connection \<Rightarrow> ingest_failure \<Rightarrow> bool" where
  "reported c f \<longleftrightarrow> (\<exists>e. f = Sqlite_Error e \<and> Some e \<in> set (cn_failures c))"

definition quiet_step :: "Connection \<Rightarrow> Connection \<Rightarrow> bool" where
  "quiet_step c c1 \<longleftrightarrow>
     cn_committed c1 = cn_committed c \<and> set (cn_failures c1) \<subseteq> set (cn_failures c)"

definition tx_upto ::
  "(ingest_failure \<Rightarrow> bool) \<Rightarrow> 'a tx \<Rightarrow> History \<Rightarrow> ('a \<Rightarrow> History \<Rightarrow> bool) \<Rightarrow> bool" where
  "tx_upto F m h Q \<longleftrightarrow>
     (\<forall>c. cn_history c = h \<longrightarrow>
        (case m c of
           (Inr x, c1) \<Rightarrow> Q x (cn_history c1) \<and> quiet_step c c1
         | (Inl f, c1) \<Rightarrow> (F f \<or> reported c f) \<and> quiet_step c c1))"

lemma quiet_refl [simp]: "quiet_step c c"
  by (simp add: quiet_step_def)

lemma quiet_trans: "quiet_step c c1 \<Longrightarrow> quiet_step c1 c2 \<Longrightarrow> quiet_step c c2"
  by (auto simp: quiet_step_def)

lemma reported_later: "reported c1 f \<Longrightarrow> quiet_step c c1 \<Longrightarrow> reported c f"
  by (auto simp: reported_def quiet_step_def)

lemma tx_okI:
  assumes "\<And>c x c1. cn_history c = h \<Longrightarrow> m c = (Inr x, c1) \<Longrightarrow> Q x (cn_history c1) \<and> quiet_step c c1"
    and "\<And>c f c1. cn_history c = h \<Longrightarrow> m c = (Inl f, c1) \<Longrightarrow>
      (F f \<or> reported c f) \<and> quiet_step c c1"
  shows "tx_upto F m h Q"
  unfolding tx_upto_def
proof (intro allI impI)
  fix c :: Connection assume c: "cn_history c = h"
  obtain r c1 where "m c = (r, c1)" by (cases "m c")
  then show "case m c of
      (Inr x, c1) \<Rightarrow> Q x (cn_history c1) \<and> quiet_step c c1
    | (Inl f, c1) \<Rightarrow> (F f \<or> reported c f) \<and> quiet_step c c1"
    using assms[OF c] by (cases r) simp_all
qed

lemma tx_okD:
  assumes "tx_upto F m h Q" "cn_history c = h"
  shows "m c = (Inr x, c1) \<Longrightarrow> Q x (cn_history c1) \<and> quiet_step c c1"
    and "m c = (Inl f, c1) \<Longrightarrow> (F f \<or> reported c f) \<and> quiet_step c c1"
  using assms unfolding tx_upto_def by (auto dest!: spec[of _ c])

named_theorems tx_rules "rules for the composition of transaction steps"

lemma tx_ok_return [tx_rules]: "Q x h \<Longrightarrow> tx_upto F (tx_return x) h Q"
  by (simp add: tx_upto_def tx_return_def)

lemma tx_ok_bind [tx_rules]:
  assumes "tx_upto F m h (\<lambda>x h1. tx_upto F (f x) h1 Q)"
  shows "tx_upto F (tx_bind m f) h Q"
proof (rule tx_okI)
  fix c y c2 assume c: "cn_history c = h" and run: "tx_bind m f c = (Inr y, c2)"
  obtain x c1 where m: "m c = (Inr x, c1)" and f: "f x c1 = (Inr y, c2)"
    using run by (auto simp: tx_bind_def split: prod.splits sum.splits)
  have f_ok: "tx_upto F (f x) (cn_history c1) Q" and q: "quiet_step c c1"
    using tx_okD(1)[OF assms c m] by simp_all
  show "Q y (cn_history c2) \<and> quiet_step c c2"
    using tx_okD(1)[OF f_ok refl f] quiet_trans[OF q] by blast
next
  fix c e c2 assume c: "cn_history c = h" and run: "tx_bind m f c = (Inl e, c2)"
  show "(F e \<or> reported c e) \<and> quiet_step c c2"
  proof (cases "m c = (Inl e, c2)")
    case True
    then show ?thesis by (rule tx_okD(2)[OF assms c])
  next
    case False
    then obtain x c1 where m: "m c = (Inr x, c1)" and f: "f x c1 = (Inl e, c2)"
      using run by (auto simp: tx_bind_def split: prod.splits sum.splits)
    have f_ok: "tx_upto F (f x) (cn_history c1) Q" and q: "quiet_step c c1"
      using tx_okD(1)[OF assms c m] by simp_all
    show ?thesis using tx_okD(2)[OF f_ok refl f] quiet_trans[OF q] reported_later[OF _ q] by blast
  qed
qed

lemma tx_ok_then [tx_rules]:
  "tx_upto F m h (\<lambda>_ h1. tx_upto F k h1 Q) \<Longrightarrow> tx_upto F (tx_then m k) h Q"
  unfolding tx_then_def by (rule tx_ok_bind)

lemma tx_ok_lift [tx_rules]: "r = Inr x \<Longrightarrow> Q x h \<Longrightarrow> tx_upto F (tx_lift r) h Q"
  by (simp add: tx_upto_def tx_lift_def)

lemma tx_ok_require [tx_rules]:
  "b \<or> F f \<Longrightarrow> (b \<Longrightarrow> Q () h) \<Longrightarrow> tx_upto F (require b f) h Q"
  by (auto simp: tx_upto_def require_def tx_return_def tx_fail_def)

lemma tx_ok_refuse: "F f \<Longrightarrow> tx_upto F (tx_fail f) h Q"
  by (simp add: tx_upto_def tx_fail_def)

lemma tx_ok_mono: "tx_upto F m h Q \<Longrightarrow> (\<And>x h1. Q x h1 \<Longrightarrow> R x h1) \<Longrightarrow> tx_upto F m h R"
  unfolding tx_upto_def by (fastforce split: prod.splits sum.splits)

lemma tx_ok_statement:
  assumes "\<And>c. cn_history c = h \<Longrightarrow>
      \<exists>x c1. body c = (Inr x, c1) \<and> Q x (cn_history c1) \<and> quiet_step c c1"
  shows "tx_upto F (run_statement body) h Q"
  unfolding tx_upto_def
proof (intro allI impI)
  fix c :: Connection assume c: "cn_history c = h"
  show "case run_statement body c of
      (Inr x, c1) \<Rightarrow> Q x (cn_history c1) \<and> quiet_step c c1
    | (Inl f, c1) \<Rightarrow> (F f \<or> reported c f) \<and> quiet_step c c1"
  proof (cases "cn_failures c")
    case Nil
    then show ?thesis using assms[OF c] by (auto simp: run_statement_def)
  next
    case (Cons f rest)
    let ?c = "c\<lparr>cn_failures := rest\<rparr>"
    have q: "quiet_step c ?c" using Cons by (auto simp: quiet_step_def)
    show ?thesis
    proof (cases f)
      case None
      obtain x c1 where "body ?c = (Inr x, c1)" "Q x (cn_history c1)" "quiet_step ?c c1"
        using assms[of ?c] c by auto
      then show ?thesis using Cons None quiet_trans[OF q] by (simp add: run_statement_def)
    next
      case (Some e)
      then show ?thesis using Cons q by (auto simp: run_statement_def reported_def)
    qed
  qed
qed

lemma tx_ok_select [tx_rules]: "Q (q h) h \<Longrightarrow> tx_upto F (select_rows q) h Q"
  unfolding select_rows_def by (rule tx_ok_statement) simp

lemma tx_ok_change [tx_rules]: "w h = Some (h1, x) \<Longrightarrow> Q x h1 \<Longrightarrow> tx_upto F (change_rows w) h Q"
  unfolding change_rows_def by (rule tx_ok_statement) (simp add: quiet_step_def)

lemma tx_ok_insert:
  "ok h (mk h) \<Longrightarrow> Q (rowid h) (add h (mk h)) \<Longrightarrow> tx_upto F (insert_row mk ok add rowid) h Q"
  unfolding insert_row_def by (rule tx_ok_change) simp_all

lemma tx_ok_each:
  assumes "I [] h"
    and step: "\<And>before x after h. items = before @ x # after \<Longrightarrow> I before h \<Longrightarrow>
      tx_upto F (f x) h (\<lambda>_ h1. I (before @ [x]) h1)"
    and "\<And>h. I items h \<Longrightarrow> Q () h"
  shows "tx_upto F (tx_each f items) h Q"
proof -
  have "tx_upto F (tx_each f after) h (\<lambda>_ h1. I items h1)" if "items = before @ after" "I before h"
    for before after h
    using that
  proof (induction after arbitrary: before h)
    case Nil
    then show ?case by (simp add: tx_ok_return)
  next
    case (Cons x after)
    show ?case unfolding tx_each.simps
    proof (rule tx_ok_then, rule tx_ok_mono)
      show "tx_upto F (f x) h (\<lambda>_ h1. I (before @ [x]) h1)" using step Cons.prems by blast
      show "tx_upto F (tx_each f after) h1 (\<lambda>_ h1. I items h1)" if "I (before @ [x]) h1" for h1
        using Cons.IH[of "before @ [x]" h1] Cons.prems(1) that by simp
    qed
  qed
  from this[of "[]" items h] show ?thesis using assms(1,3) by (auto intro: tx_ok_mono)
qed

text \<open>A step that only reads, applied to each element of a list.\<close>

lemma tx_ok_map:
  assumes "\<And>x. x \<in> set xs \<Longrightarrow> tx_upto F (f x) h (\<lambda>y h1. h1 = h \<and> P x y)"
    and "\<And>ys. list_all2 P xs ys \<Longrightarrow> Q ys h"
  shows "tx_upto F (tx_map f xs) h Q"
proof -
  have "tx_upto F (tx_map f xs) h (\<lambda>ys h1. h1 = h \<and> list_all2 P xs ys)"
    using assms(1)
  proof (induction xs)
    case Nil
    show ?case by (simp add: tx_ok_return)
  next
    case (Cons x xs)
    have "tx_upto F (f x) h (\<lambda>y h1. h1 = h \<and> P x y)" using Cons.prems by simp
    then show ?case unfolding tx_map.simps
      by (rule tx_ok_bind[OF tx_ok_mono])
        (auto intro!: tx_ok_bind[OF tx_ok_mono[OF Cons.IH]] tx_ok_return Cons.prems)
  qed
  then show ?thesis by (rule tx_ok_mono) (use assms(2) in auto)
qed

section \<open>New row identifiers\<close>

lemma next_rowid_greater: "i \<in> set ids \<Longrightarrow> i < next_rowid ids"
  by (cases ids) (auto simp: next_rowid_def less_eq_Suc_le intro: le_imp_less_Suc dest: Max_ge[of "set ids"])

lemma next_rowid_pos:
  assumes "\<And>i. i \<in> set ids \<Longrightarrow> 1 \<le> i"
  shows "1 \<le> next_rowid ids"
proof (cases ids)
  case (Cons i rest)
  then show ?thesis using next_rowid_greater[of i ids] assms[of i] by simp
qed (simp add: next_rowid_def)

end
