(* ===== verification/Ingestion_Ledger.thy ===== *)
theory Ingestion_Ledger
  imports Ingestion_Logic
begin

text \<open>
  The checkpoint and the replay ledger: the ledger holds the last 64 accepted observations in order
  of their sequences, and the checkpoint is its last entry. An accepted observation keeps it so.
\<close>

section \<open>The ledger in order\<close>

definition last_entry :: "checkpoint_row \<Rightarrow> replay_row \<Rightarrow> bool" where
  "last_entry ck r \<longleftrightarrow>
     ck_sequence ck = Some (ry_sequence r) \<and> ck_observed ck = Some (ry_observed r) \<and>
     ck_digest ck = Some (ry_digest r) \<and> ck_kind ck = Some (ry_kind r)"

definition ledger_with :: "checkpoint_row \<Rightarrow> History \<Rightarrow> bool" where
  "ledger_with ck h \<longleftrightarrow>
     h_checkpoint h = [ck] \<and> checkpoint_check ck \<and>
     sorted_wrt (<) (map ry_sequence (h_replay h)) \<and> (\<forall>r \<in> set (h_replay h). replay_check r) \<and>
     int (length (h_replay h)) = min (ck_count ck) (int REPLAY_LEDGER_CAPACITY) \<and>
     (h_replay h \<noteq> [] \<longrightarrow> last_entry ck (last (h_replay h)))"

definition decoded :: "checkpoint_row \<Rightarrow> Checkpoint" where
  "decoded ck =
     \<lparr>kp_sequence = ck_sequence ck, kp_observed = ck_observed ck, kp_digest = ck_digest ck,
      kp_kind = Option.bind (ck_kind ck) sample_kind_of, kp_count = ck_count ck\<rparr>"

lemma decoded_simps [simp]:
  "kp_sequence (decoded ck) = ck_sequence ck" "kp_count (decoded ck) = ck_count ck"
  by (simp_all add: decoded_def)

lemma parse_checkpoint_decoded:
  assumes "checkpoint_check ck"
  shows "parse_checkpoint [ck] = Some (decoded ck)"
proof (cases "ck_sequence ck")
  case None
  then show ?thesis using assms
    by (auto simp: parse_checkpoint_def checkpoint_check_def decoded_def)
next
  case (Some q)
  then obtain t d k where "ck_observed ck = Some t" "ck_digest ck = Some d" "ck_kind ck = Some k"
    using assms by (auto simp: checkpoint_check_def)
  then show ?thesis using assms Some
    by (auto simp: parse_checkpoint_def checkpoint_check_def decoded_def null_or_def is_sample_kind_def)
qed

lemma read_checkpoint_ok:
  assumes "ledger_with ck h" "Q (decoded ck) h"
  shows "tx_upto F read_checkpoint h Q"
proof -
  have "h_checkpoint h = [ck]" "parse_checkpoint [ck] = Some (decoded ck)"
    using assms(1) parse_checkpoint_decoded by (auto simp: ledger_with_def)
  then show ?thesis
    unfolding read_checkpoint_def using assms(2)
    by (intro tx_ok_bind tx_ok_select tx_ok_lift[where x = "decoded ck"])
      (simp_all add: or_malformed_def)
qed

lemma replay_entry_ok:
  "replay_check r \<Longrightarrow> \<exists>k. sample_kind_of (ry_kind r) = Some k \<and>
     replay_entry r = Some \<lparr>re_sequence = ry_sequence r, re_observed = ry_observed r,
                            re_digest = ry_digest r, re_kind = k\<rparr>"
  by (auto simp: replay_check_def replay_entry_def is_sample_kind_def)

lemma sorted_replays:
  assumes "sorted_wrt (<) (map ry_sequence rows)"
  shows "sort_key ry_sequence rows = rows"
  using strict_sorted_imp_sorted[OF assms] by (rule sort_key_id_if_sorted)

lemma latest_replays_ok:
  assumes "ledger_with ck h"
  shows "latest_replays (REPLAY_LEDGER_CAPACITY + 1) (h_replay h) = rev (h_replay h)"
proof -
  have "int (length (h_replay h)) \<le> int REPLAY_LEDGER_CAPACITY"
    using assms by (simp add: ledger_with_def)
  then show ?thesis
    using assms by (simp add: latest_replays_def ledger_with_def sorted_replays)
qed

lemma read_entries_ok:
  assumes "\<forall>r \<in> set rows. replay_check r"
    and "\<And>es. list_all2 (\<lambda>r e. replay_entry r = Some e) rows es \<Longrightarrow> Q es h"
  shows "tx_upto F (tx_map (\<lambda>r. tx_lift (or_malformed (replay_entry r))) rows) h Q"
proof (rule tx_ok_map[where P = "\<lambda>r e. replay_entry r = Some e"])
  fix r assume "r \<in> set rows"
  then obtain e where "replay_entry r = Some e" using assms(1) replay_entry_ok by blast
  then show "tx_upto F (tx_lift (or_malformed (replay_entry r))) h
      (\<lambda>y h1. h1 = h \<and> replay_entry r = Some y)"
    by (intro tx_ok_lift[where x = e]) (simp_all add: or_malformed_def)
qed (rule assms(2))

lemma validate_replay_anchor_ok:
  assumes l: "ledger_with ck h" and Q: "Q () h"
  shows "tx_upto F (validate_replay_anchor (decoded ck)) h Q"
proof -
  have count: "int (length (rev (h_replay h))) = min (kp_count (decoded ck)) (int REPLAY_LEDGER_CAPACITY)"
    using l by (simp add: ledger_with_def)
  have rows: "\<forall>r \<in> set (rev (h_replay h)). replay_check r" using l by (simp add: ledger_with_def)
  show ?thesis
  proof (cases "ck_sequence ck")
    case None
    then show ?thesis
      unfolding validate_replay_anchor_def
      by (intro tx_ok_bind tx_ok_select tx_ok_then tx_ok_require)
        (use count Q in \<open>simp_all add: latest_replays_ok[OF l, simplified] tx_ok_return\<close>)
  next
    case (Some q)
    then have "ck_count ck \<ge> 1" using l by (auto simp: ledger_with_def checkpoint_check_def)
    then have ne: "h_replay h \<noteq> []" using count by (auto simp: REPLAY_LEDGER_CAPACITY_def)
    define r where "r = last (h_replay h)"
    have r: "last_entry ck r" using l ne by (simp add: ledger_with_def r_def)
    have rev: "rev (h_replay h) = r # rev (butlast (h_replay h))"
      using ne append_butlast_last_id[OF ne] unfolding r_def
      by (metis rev_append rev_singleton_conv append_Cons append_Nil)
    have "tx_upto F (tx_map (\<lambda>r. tx_lift (or_malformed (replay_entry r))) (rev (h_replay h))) h
        (\<lambda>retained h1. tx_upto F (case retained of [] \<Rightarrow> tx_fail Other_Error | latest # _ \<Rightarrow>
           require
             (Some (re_sequence latest) = kp_sequence (decoded ck) \<and>
              Some (re_observed latest) = kp_observed (decoded ck) \<and>
              Some (re_digest latest) = kp_digest (decoded ck) \<and>
              Some (re_kind latest) = kp_kind (decoded ck)) malformed_state) h1 Q)"
    proof (rule read_entries_ok[OF rows])
      fix es assume "list_all2 (\<lambda>r e. replay_entry r = Some e) (rev (h_replay h)) es"
      then obtain e es' where es: "es = e # es'" "replay_entry r = Some e"
        by (auto simp: rev list_all2_Cons1)
      have "replay_check r" using rows ne by (simp add: r_def)
      then obtain k where "sample_kind_of (ry_kind r) = Some k" "replay_entry r =
          Some \<lparr>re_sequence = ry_sequence r, re_observed = ry_observed r,
                re_digest = ry_digest r, re_kind = k\<rparr>" using replay_entry_ok by blast
      then show "tx_upto F (case es of [] \<Rightarrow> tx_fail Other_Error | latest # _ \<Rightarrow>
           require
             (Some (re_sequence latest) = kp_sequence (decoded ck) \<and>
              Some (re_observed latest) = kp_observed (decoded ck) \<and>
              Some (re_digest latest) = kp_digest (decoded ck) \<and>
              Some (re_kind latest) = kp_kind (decoded ck)) malformed_state) h Q"
        using es r Q by (simp add: last_entry_def decoded_def tx_ok_require)
    qed
    moreover have "kp_sequence (decoded ck) \<noteq> None" using Some by simp
    ultimately show ?thesis
      unfolding validate_replay_anchor_def
      by (intro tx_ok_bind tx_ok_select tx_ok_then tx_ok_require)
        (use count in \<open>auto simp: latest_replays_ok[OF l, simplified] tx_ok_bind simp del: decoded_simps\<close>)
  qed
qed

section \<open>Replayed, stale and conflicting observations\<close>

definition newer :: "checkpoint_row \<Rightarrow> HealthProjection \<Rightarrow> bool" where
  "newer ck p \<longleftrightarrow> (\<forall>q. ck_sequence ck = Some q \<longrightarrow> q < hp_observation_sequence p)"

lemma find_replay:
  assumes "find (\<lambda>r. ry_sequence r = q) rows = Some r"
  shows "r \<in> set rows \<and> ry_sequence r = q"
  using assms by (auto simp: find_Some_iff)

text \<open>An accepted observation, one that was accepted before, and one that comes too late.\<close>

lemma is_replay_newer:
  assumes "newer ck p" "Q False h"
  shows "tx_upto F (is_replay_or_reject_stale (decoded ck) p) h Q"
proof -
  have "case ck_sequence ck of None \<Rightarrow> True | Some q \<Rightarrow> hp_observation_sequence p > q"
    using assms(1) by (auto simp: newer_def split: option.splits)
  then show ?thesis unfolding is_replay_or_reject_stale_def using assms(2) by (simp add: tx_ok_return)
qed

lemma ledger_below:
  assumes l: "ledger_with ck h" and r: "r \<in> set (h_replay h)"
  shows "\<exists>q. ck_sequence ck = Some q \<and> ry_sequence r \<le> q"
proof -
  have ne: "h_replay h \<noteq> []" using r by auto
  then have "last_entry ck (last (h_replay h))" using l by (simp add: ledger_with_def)
  moreover have "ry_sequence r \<le> ry_sequence (last (h_replay h))"
  proof -
    have "sorted_wrt (<) (map ry_sequence (butlast (h_replay h) @ [last (h_replay h)]))"
      using l ne by (simp add: ledger_with_def)
    moreover have "r \<in> set (butlast (h_replay h) @ [last (h_replay h)])" using r ne by simp
    ultimately show ?thesis by (auto simp: sorted_wrt_append)
  qed
  ultimately show ?thesis by (auto simp: last_entry_def)
qed

lemma recorded_not_newer:
  "ledger_with ck h \<Longrightarrow> new_replay_row p \<in> set (h_replay h) \<Longrightarrow> \<not> newer ck p"
  using ledger_below[of ck h "new_replay_row p"] by (auto simp: newer_def new_replay_row_def)

lemma is_replay_late:
  assumes l: "ledger_with ck h" and late: "\<not> newer ck p"
    and replay: "new_replay_row p \<in> set (h_replay h) \<Longrightarrow> Q True h"
    and stale: "hp_observation_sequence p \<notin> ry_sequence ` set (h_replay h) \<Longrightarrow>
      F (Ingestion_Error IR_STALE_SEQUENCE False)"
    and conflict: "hp_observation_sequence p \<in> ry_sequence ` set (h_replay h) \<Longrightarrow>
      new_replay_row p \<notin> set (h_replay h) \<Longrightarrow> F (Ingestion_Error IR_SEQUENCE_CONFLICT False)"
  shows "tx_upto F (is_replay_or_reject_stale (decoded ck) p) h Q"
proof -
  let ?found = "find (\<lambda>r. ry_sequence r = hp_observation_sequence p) (h_replay h)"
  have d: "distinct (map ry_sequence (h_replay h))"
    using l by (simp add: ledger_with_def strict_sorted_iff)
  have "tx_upto F (case ?found of
        None \<Rightarrow> tx_fail (Ingestion_Error IR_STALE_SEQUENCE False)
      | Some r \<Rightarrow>
          tx_bind (tx_lift (or_malformed (replay_entry r))) (\<lambda>accepted.
          if hp_observed_at p = re_observed accepted \<and> hp_digest p = re_digest accepted \<and>
             hp_sample_kind p = re_kind accepted
          then tx_return True
          else tx_fail (Ingestion_Error IR_SEQUENCE_CONFLICT False))) h Q"
  proof (cases ?found)
    case None
    then have "hp_observation_sequence p \<notin> ry_sequence ` set (h_replay h)"
      unfolding find_None_iff by force
    then show ?thesis using None stale by (simp add: tx_ok_refuse)
  next
    case (Some r)
    have r: "r \<in> set (h_replay h)" "ry_sequence r = hp_observation_sequence p"
      using find_replay[OF Some] by simp_all
    then have "replay_check r" using l by (simp add: ledger_with_def)
    then obtain k where k: "sample_kind_of (ry_kind r) = Some k" "replay_entry r =
        Some \<lparr>re_sequence = ry_sequence r, re_observed = ry_observed r,
              re_digest = ry_digest r, re_kind = k\<rparr>" using replay_entry_ok by blast
    have same: "(hp_observed_at p = ry_observed r \<and> hp_digest p = ry_digest r \<and> hp_sample_kind p = k) =
        (new_replay_row p = r)"
      using r(2) k(1) by (cases r) (auto simp: new_replay_row_def vocab_read)
    have "new_replay_row p \<in> set (h_replay h) \<longleftrightarrow> new_replay_row p = r"
      using r d by (auto simp: distinct_map inj_on_def new_replay_row_def)
    then have "tx_upto F (if hp_observed_at p = ry_observed r \<and> hp_digest p = ry_digest r \<and>
          hp_sample_kind p = k then tx_return True
        else tx_fail (Ingestion_Error IR_SEQUENCE_CONFLICT False)) h Q"
      unfolding same using replay conflict r by (force simp: tx_ok_return tx_ok_refuse)
    then show ?thesis unfolding Some
      by (simp add: k(2) or_malformed_def) (intro tx_ok_bind tx_ok_lift[OF refl], simp)
  qed
  moreover have "\<not> (case ck_sequence ck of None \<Rightarrow> True | Some q \<Rightarrow> hp_observation_sequence p > q)"
    using late by (auto simp: newer_def split: option.splits)
  ultimately show ?thesis unfolding is_replay_or_reject_stale_def
    by (simp add: tx_ok_bind tx_ok_select)
qed

section \<open>Accepting an observation\<close>

lemma filter_sorted_suffix:
  fixes f :: "'a \<Rightarrow> int"
  assumes "sorted_wrt (<) (map f xs)" "n < length xs"
  shows "filter (\<lambda>x. \<not> f x < f (xs ! n)) xs = drop n xs"
proof -
  have split: "xs = take n xs @ drop n xs" by simp
  have s: "sorted_wrt (<) (map f (take n xs @ drop n xs))" using assms(1) by simp
  have hd: "drop n xs = xs ! n # drop (Suc n) xs" using assms(2) by (rule Cons_nth_drop_Suc[symmetric])
  have "f x < f (xs ! n)" if "x \<in> set (take n xs)" for x
    using s that hd by (auto simp: sorted_wrt_append)
  then have 1: "filter (\<lambda>x. \<not> f x < f (xs ! n)) (take n xs) = []" by (simp add: filter_empty_conv)
  have "\<not> f x < f (xs ! n)" if "x \<in> set (drop n xs)" for x
    using s that hd by (auto simp: sorted_wrt_append)
  then have 2: "filter (\<lambda>x. \<not> f x < f (xs ! n)) (drop n xs) = drop n xs" by (simp add: filter_id_conv)
  show ?thesis using 1 2 by (subst split) (simp only: filter_append append_Nil)
qed

lemma prune_replays_eq:
  assumes s: "sorted_wrt (<) (map ry_sequence rows)"
  shows "prune_replays rows = drop (length rows - REPLAY_LEDGER_CAPACITY) rows"
proof (cases "REPLAY_LEDGER_CAPACITY \<le> length rows")
  case False
  then show ?thesis
    by (simp add: prune_replays_def sorted_replays[OF s] REPLAY_LEDGER_CAPACITY_def split: list.splits)
next
  case True
  let ?n = "length rows - REPLAY_LEDGER_CAPACITY"
  have n: "?n < length rows" "REPLAY_LEDGER_CAPACITY - 1 < length (rev rows)"
    using True by (simp_all add: REPLAY_LEDGER_CAPACITY_def)
  have "rev rows ! (REPLAY_LEDGER_CAPACITY - 1) = rows ! ?n"
    using True by (simp add: rev_nth REPLAY_LEDGER_CAPACITY_def)
  then have "drop (REPLAY_LEDGER_CAPACITY - 1) (rev rows) =
      rows ! ?n # drop (Suc (REPLAY_LEDGER_CAPACITY - 1)) (rev rows)"
    using Cons_nth_drop_Suc[OF n(2)] by simp
  then show ?thesis
    using filter_sorted_suffix[OF s n(1)] by (simp add: prune_replays_def sorted_replays[OF s])
qed

definition advanced_history :: "checkpoint_row \<Rightarrow> HealthProjection \<Rightarrow> History \<Rightarrow> History" where
  "advanced_history ck p h =
     h\<lparr>h_replay := prune_replays (h_replay h @ [new_replay_row p]),
       h_checkpoint := [advanced_checkpoint (decoded ck) p ck]\<rparr>"

definition storable :: "HealthProjection \<Rightarrow> bool" where
  "storable p \<longleftrightarrow>
     is_sequence (hp_observation_sequence p) \<and> is_timestamp (hp_observed_at p) \<and>
     is_digest (hp_digest p)"

lemma new_replay_row_check: "storable p \<Longrightarrow> replay_check (new_replay_row p)"
  by (simp add: storable_def replay_check_def new_replay_row_def is_sample_kind_def)

lemma advanced_checkpoint_ok:
  assumes "checkpoint_check ck" "storable p" "newer ck p"
  defines "ck1 \<equiv> advanced_checkpoint (decoded ck) p ck"
  shows "checkpoint_check ck1" "\<not> checkpoint_regression ck ck1" "last_entry ck1 (new_replay_row p)"
    "ck_count ck1 = min (ck_count ck + 1) MAX_BOUNDED_COUNTER"
    "ck_sequence ck1 = Some (hp_observation_sequence p)"
proof -
  have "0 \<le> ck_count ck" "ck_count ck \<le> MAX_BOUNDED_COUNTER" "ck_singleton_id ck = 1"
    using assms(1) by (simp_all add: checkpoint_check_def between_def)
  then show "checkpoint_check ck1"
    using assms(2)
    by (auto simp: ck1_def checkpoint_check_def advanced_checkpoint_def storable_def between_def
        null_or_def is_sample_kind_def bounds)
  show "\<not> checkpoint_regression ck ck1"
    using assms(3) \<open>ck_count ck \<le> MAX_BOUNDED_COUNTER\<close>
    by (auto simp: checkpoint_regression_def ck1_def advanced_checkpoint_def newer_def split: option.splits)
  show "last_entry ck1 (new_replay_row p)" "ck_count ck1 = min (ck_count ck + 1) MAX_BOUNDED_COUNTER"
    "ck_sequence ck1 = Some (hp_observation_sequence p)"
    by (simp_all add: last_entry_def ck1_def advanced_checkpoint_def new_replay_row_def)
qed

lemma ledger_advanced:
  assumes l: "ledger_with ck h" and p: "storable p" "newer ck p"
  shows "ledger_with (advanced_checkpoint (decoded ck) p ck) (advanced_history ck p h)"
proof -
  let ?ck = "advanced_checkpoint (decoded ck) p ck"
  let ?rows = "h_replay h @ [new_replay_row p]"
  have check: "checkpoint_check ck" using l by (simp add: ledger_with_def)
  note new = advanced_checkpoint_ok[OF check p]
  have less: "ry_sequence r < hp_observation_sequence p" if "r \<in> set (h_replay h)" for r
    using ledger_below[OF l that] p(2) by (auto simp: newer_def)
  have s: "sorted_wrt (<) (map ry_sequence ?rows)"
    using l less by (simp add: ledger_with_def sorted_wrt_append new_replay_row_def)
  have rows: "h_replay (advanced_history ck p h) = drop (length ?rows - REPLAY_LEDGER_CAPACITY) ?rows"
    by (simp add: advanced_history_def prune_replays_eq[OF s])
  let ?n = "length ?rows - REPLAY_LEDGER_CAPACITY"
  have len: "int (length (h_replay h)) = min (ck_count ck) (int REPLAY_LEDGER_CAPACITY)"
    "0 \<le> ck_count ck" "ck_count ck \<le> MAX_BOUNDED_COUNTER"
    using l by (simp_all add: ledger_with_def checkpoint_check_def between_def)
  have n: "?n < length ?rows" by (simp add: REPLAY_LEDGER_CAPACITY_def)
  have "sorted_wrt (<) (map ry_sequence (drop ?n ?rows))"
    using s sorted_wrt_drop[of "(<)" "map ry_sequence ?rows" ?n] by (simp only: drop_map)
  moreover have "\<forall>r \<in> set (drop ?n ?rows). replay_check r"
    using l new_replay_row_check[OF p(1)] by (auto simp: ledger_with_def dest!: in_set_dropD)
  moreover have "int (length (drop ?n ?rows)) = min (ck_count ?ck) (int REPLAY_LEDGER_CAPACITY)"
  proof -
    have "length (drop ?n ?rows) = min (Suc (length (h_replay h))) REPLAY_LEDGER_CAPACITY"
      by (simp add: min_def REPLAY_LEDGER_CAPACITY_def)
    then have "int (length (drop ?n ?rows)) =
        min (int (length (h_replay h)) + 1) (int REPLAY_LEDGER_CAPACITY)" by simp
    then show ?thesis using len unfolding new(4) by (simp add: REPLAY_LEDGER_CAPACITY_def bounds)
  qed
  moreover have "last (drop ?n ?rows) = new_replay_row p" using n by (simp add: last_drop)
  ultimately show ?thesis
    unfolding ledger_with_def rows using new(1,3) by (simp add: advanced_history_def)
qed

lemma write_checkpoint_ok:
  assumes l: "ledger_with ck h" and p: "storable p" "newer ck p"
    and Q: "Q () (advanced_history ck p h)"
  shows "tx_upto F (write_checkpoint_and_replay_ledger (decoded ck) p) h Q"
proof -
  have check: "checkpoint_check ck" "ck_singleton_id ck = 1" "h_checkpoint h = [ck]"
    using l by (simp_all add: ledger_with_def checkpoint_check_def)
  note new = advanced_checkpoint_ok[OF check(1) p]
  have newer: "case kp_sequence (decoded ck) of None \<Rightarrow> True | Some q \<Rightarrow> hp_observation_sequence p > q"
    using p(2) by (simp add: newer_def split: option.splits)
  have notin: "ry_sequence (new_replay_row p) \<notin> set (map ry_sequence (h_replay h))"
    using ledger_below[OF l] p(2) by (force simp: newer_def new_replay_row_def)
  show ?thesis
    unfolding write_checkpoint_and_replay_ledger_def
    by (intro tx_ok_then tx_ok_bind tx_ok_require tx_ok_insert tx_ok_return tx_ok_change[OF refl]
        tx_ok_change[where ?h1.0 = "advanced_history ck p h" and x = 1])
      (use newer notin check new new_replay_row_check[OF p(1)] Q in
        \<open>simp_all add: Let_def update_rows_def advanced_history_def\<close>)
qed

lemma advanced_fields [simp]:
  "h_samples (advanced_history ck p h) = h_samples h"
  "h_components (advanced_history ck p h) = h_components h"
  "h_alerts (advanced_history ck p h) = h_alerts h"
  "h_evaluation (advanced_history ck p h) = h_evaluation h"
  "h_checkpoint (advanced_history ck p h) = [advanced_checkpoint (decoded ck) p ck]"
  by (simp_all add: advanced_history_def)

end
