(* ===== verification/Ingestion_Alerts.thy ===== *)
theory Ingestion_Alerts
  imports Ingestion_Logic
begin

text \<open>
  The table of alerts as the ingestion keeps it: identifiers grow, every row satisfies the schema,
  and of the alerts of one scope and kind only the latest may not be archived yet. On such a table
  the queries find what they are meant to find, and the writers keep it so.
\<close>

section \<open>Rows and the alerts they store\<close>

definition older_archived :: "alert_row list \<Rightarrow> bool" where
  "older_archived rows \<longleftrightarrow>
     (\<forall>r \<in> set rows. \<forall>r' \<in> set rows.
        al_scope r = al_scope r' \<longrightarrow> al_kind r = al_kind r' \<longrightarrow> al_id r < al_id r' \<longrightarrow>
        al_lifecycle r = ''archived'')"

definition alerts_ok :: "History \<Rightarrow> bool" where
  "alerts_ok h \<longleftrightarrow>
     sorted_wrt (<) (map al_id (h_alerts h)) \<and>
     (\<forall>r \<in> set (h_alerts h). 1 \<le> al_id r \<and> alert_row_ok h r) \<and>
     older_archived (h_alerts h)"

definition row_state :: "alert_row \<Rightarrow> AutomaticAlertState" where
  "row_state r =
     \<lparr>aa_scope = the (scope_of (al_scope r)), aa_kind = the (alert_kind_of (al_kind r)),
      aa_lifecycle = the (lifecycle_of (al_lifecycle r)), aa_generation = al_episode r,
      aa_occurrence_count = al_occurrence r, aa_cooldown_until = al_cooldown r,
      aa_recovered_at = al_recovered r\<rparr>"

definition row_alert :: "alert_row \<Rightarrow> StoredAlert" where
  "row_alert r = \<lparr>sa_id = al_id r, sa_state = row_state r\<rparr>"

lemma lifecycle_value_cases:
  assumes "is_lifecycle x"
  shows "x = ''open'' \<or> x = ''acknowledged'' \<or> x = ''recovered'' \<or> x = ''archived''"
proof -
  obtain l where "x = lifecycle_value l" using assms by (auto simp: is_lifecycle_def vocab_read)
  then show ?thesis by (cases l) simp_all
qed

lemma lifecycle_names:
  "lifecycle_of ''open'' = Some AL_OPEN" "lifecycle_of ''acknowledged'' = Some AL_ACKNOWLEDGED"
  "lifecycle_of ''recovered'' = Some AL_RECOVERED" "lifecycle_of ''archived'' = Some AL_ARCHIVED"
  by code_simp+

text \<open>The constraints of a row in two parts: its life, and the rest.\<close>

definition life_ok :: "string \<Rightarrow> int option \<Rightarrow> int option \<Rightarrow> int option \<Rightarrow> bool" where
  "life_ok l ack recovery arch \<longleftrightarrow>
     is_lifecycle l \<and> null_or is_timestamp ack \<and> null_or is_timestamp recovery \<and>
     null_or is_timestamp arch \<and> (l \<noteq> ''acknowledged'' \<or> ack \<noteq> None) \<and>
     (ack = None \<or> l \<in> {''acknowledged'', ''recovered'', ''archived''}) \<and>
     (l \<notin> {''recovered'', ''archived''} \<or> recovery \<noteq> None) \<and>
     (l \<noteq> ''archived'' \<or> arch \<noteq> None) \<and> (l = ''archived'' \<or> arch = None) \<and>
     (l \<in> {''recovered'', ''archived''} \<or> recovery = None)"

definition alert_body :: "alert_row \<Rightarrow> bool" where
  "alert_body r \<longleftrightarrow>
     is_scope (al_scope r) \<and> is_alert_kind (al_kind r) \<and>
     al_severity r \<in> {''degraded'', ''unavailable''} \<and> is_timestamp (al_opened r) \<and>
     between 1 MAX_BOUNDED_COUNTER (al_episode r) \<and>
     between 1 MAX_BOUNDED_COUNTER (al_occurrence r) \<and> is_timestamp (al_cooldown r) \<and>
     (al_scope r = ''sampling'' \<and> al_kind r = ''sampling_gap'' \<or>
      al_scope r \<noteq> ''sampling'' \<and> al_kind r \<noteq> ''sampling_gap'') \<and>
     (al_kind r = ''degraded'' \<and> al_severity r = ''degraded'' \<or>
      al_kind r \<in> {''unavailable'', ''sampling_gap''} \<and> al_severity r = ''unavailable'')"

lemma alert_check_parts:
  "alert_check r \<longleftrightarrow> alert_body r \<and>
     life_ok (al_lifecycle r) (al_acknowledged r) (al_recovered r) (al_archived r)"
  unfolding alert_check_def alert_body_def life_ok_def
  by (rule iffI; elim conjE; intro conjI; assumption)

lemma alert_body_cong:
  "alert_body (r\<lparr>al_lifecycle := l, al_recovered := t, al_cooldown := c, al_latest_sample := i\<rparr>) \<longleftrightarrow>
     alert_body (r\<lparr>al_cooldown := c\<rparr>)"
  "alert_body (r\<lparr>al_lifecycle := l, al_archived := t\<rparr>) \<longleftrightarrow> alert_body r"
  by (cases r; simp only: alert_body_def alert_row.select_convs alert_row.update_convs)+

lemma alert_body_columns:
  "alert_body r \<Longrightarrow> is_timestamp c \<Longrightarrow> alert_body (r\<lparr>al_cooldown := c\<rparr>)"
  "alert_body r \<Longrightarrow> is_timestamp c \<Longrightarrow> between 1 MAX_BOUNDED_COUNTER n \<Longrightarrow>
   alert_body (r\<lparr>al_occurrence := n, al_cooldown := c, al_latest_sample := i\<rparr>)"
  by (cases r; simp only: alert_body_def alert_row.select_convs alert_row.update_convs)+

lemma life_ok_cases:
  "life_ok l ack recovery arch \<longleftrightarrow>
     null_or is_timestamp ack \<and>
     (l = ''open'' \<and> ack = None \<and> recovery = None \<and> arch = None \<or>
      l = ''acknowledged'' \<and> ack \<noteq> None \<and> recovery = None \<and> arch = None \<or>
      l = ''recovered'' \<and> recovery \<noteq> None \<and> null_or is_timestamp recovery \<and> arch = None \<or>
      l = ''archived'' \<and> recovery \<noteq> None \<and> null_or is_timestamp recovery \<and>
        arch \<noteq> None \<and> null_or is_timestamp arch)"
proof (cases "is_lifecycle l")
  case True
  then show ?thesis using lifecycle_value_cases[OF True]
    by (elim disjE; simp add: life_ok_def null_or_def) auto
next
  case False
  then have "l \<noteq> ''open'' \<and> l \<noteq> ''acknowledged'' \<and> l \<noteq> ''recovered'' \<and> l \<noteq> ''archived''"
    by (auto simp: is_lifecycle_def lifecycle_names)
  then show ?thesis using False by (simp add: life_ok_def)
qed

text \<open>The vocabulary of a row that satisfies the schema.\<close>

lemma alert_check_values:
  assumes "alert_check r"
  obtains s k l where "al_scope r = scope_value s" "al_kind r = alert_kind_value k"
    "al_lifecycle r = lifecycle_value l" "row_state r =
      \<lparr>aa_scope = s, aa_kind = k, aa_lifecycle = l, aa_generation = al_episode r,
       aa_occurrence_count = al_occurrence r, aa_cooldown_until = al_cooldown r,
       aa_recovered_at = al_recovered r\<rparr>"
    "s = AS_SAMPLING \<longleftrightarrow> k = AK_SAMPLING_GAP"
proof -
  obtain s k l where v: "al_scope r = scope_value s" "al_kind r = alert_kind_value k"
    "al_lifecycle r = lifecycle_value l"
  proof -
    have "is_scope (al_scope r)" "is_alert_kind (al_kind r)" "is_lifecycle (al_lifecycle r)"
      using assms by (simp_all only: alert_check_def)
    then show thesis using that by (auto simp: is_scope_def is_alert_kind_def is_lifecycle_def vocab_read)
  qed
  have "al_scope r = ''sampling'' \<longleftrightarrow> al_kind r = ''sampling_gap''"
    using assms unfolding alert_check_def by blast
  then have "s = AS_SAMPLING \<longleftrightarrow> k = AK_SAMPLING_GAP"
    unfolding v by (cases s; cases k) simp_all
  then show thesis using that v by (simp add: row_state_def)
qed

lemma row_state_valid:
  assumes "alert_check r"
  shows "alert_valid (row_state r)"
proof -
  obtain s k l where v: "al_scope r = scope_value s" "al_kind r = alert_kind_value k"
    "al_lifecycle r = lifecycle_value l" "row_state r =
      \<lparr>aa_scope = s, aa_kind = k, aa_lifecycle = l, aa_generation = al_episode r,
       aa_occurrence_count = al_occurrence r, aa_cooldown_until = al_cooldown r,
       aa_recovered_at = al_recovered r\<rparr>" "s = AS_SAMPLING \<longleftrightarrow> k = AK_SAMPLING_GAP"
    using alert_check_values[OF assms] .
  show ?thesis
    using assms v
    by (cases l) (auto simp: alert_valid_iff alert_check_def column_defs split: option.splits)
qed

lemma stored_alert_row:
  assumes "alert_check r" "1 \<le> al_id r"
  shows "stored_alert r = Some (row_alert r)"
proof -
  obtain s k l where v: "al_scope r = scope_value s" "al_kind r = alert_kind_value k"
    "al_lifecycle r = lifecycle_value l" "row_state r =
      \<lparr>aa_scope = s, aa_kind = k, aa_lifecycle = l, aa_generation = al_episode r,
       aa_occurrence_count = al_occurrence r, aa_cooldown_until = al_cooldown r,
       aa_recovered_at = al_recovered r\<rparr>" "s = AS_SAMPLING \<longleftrightarrow> k = AK_SAMPLING_GAP"
    using alert_check_values[OF assms(1)] .
  show ?thesis
    using assms(2) row_state_valid[OF assms(1)] v
    by (simp add: stored_alert_def row_alert_def Let_def)
qed

lemma row_state_fields [simp]:
  "alert_check r \<Longrightarrow> scope_value (aa_scope (row_state r)) = al_scope r"
  "alert_check r \<Longrightarrow> alert_kind_value (aa_kind (row_state r)) = al_kind r"
  "alert_check r \<Longrightarrow> lifecycle_value (aa_lifecycle (row_state r)) = al_lifecycle r"
  by (auto elim!: alert_check_values)

lemma row_state_pair:
  "pair_row s k r \<Longrightarrow> aa_scope (row_state r) = s \<and> aa_kind (row_state r) = k"
  by (simp add: pair_row_def row_state_def)

lemma alerts_okD:
  assumes "alerts_ok h" "r \<in> set (h_alerts h)"
  shows "alert_check r" "1 \<le> al_id r" "alert_row_ok h r" "alert_valid (row_state r)"
    "stored_alert r = Some (row_alert r)"
  using assms row_state_valid stored_alert_row by (auto simp: alerts_ok_def alert_row_ok_def)

lemma read_alert_ok:
  assumes "alerts_ok h" "r \<in> set (h_alerts h)" "Q (row_alert r) h"
  shows "tx_upto F (read_alert r) h Q"
  unfolding read_alert_def
  by (rule tx_ok_lift[where x = "row_alert r"])
    (simp_all add: or_malformed_def alerts_okD[OF assms(1,2)] assms(3))

section \<open>What the queries find\<close>

definition latest_row :: "AlertScope \<Rightarrow> AlertKind \<Rightarrow> alert_row list \<Rightarrow> alert_row option" where
  "latest_row s k rows =
     (case rev (filter (pair_row s k) rows) of [] \<Rightarrow> None | r # _ \<Rightarrow> Some r)"

definition active_latest :: "AlertScope \<Rightarrow> AlertKind \<Rightarrow> alert_row list \<Rightarrow> alert_row list" where
  "active_latest s k rows =
     (case latest_row s k rows of None \<Rightarrow> [] | Some r \<Rightarrow> if active_row r then [r] else [])"

lemma latest_row_None: "latest_row s k rows = None \<longleftrightarrow> filter (pair_row s k) rows = []"
  by (auto simp: latest_row_def split: list.splits)

lemma latest_row_Some:
  "latest_row s k rows = Some r \<longleftrightarrow> (\<exists>older. filter (pair_row s k) rows = older @ [r])"
  by (auto simp: latest_row_def rev_eq_Cons_iff split: list.splits)

lemma latest_row_in:
  assumes "latest_row s k rows = Some r"
  shows "r \<in> set rows \<and> pair_row s k r"
proof -
  obtain older where o: "filter (pair_row s k) rows = older @ [r]"
    using assms by (auto simp: latest_row_Some)
  have "r \<in> set (filter (pair_row s k) rows)" unfolding o by simp
  then show ?thesis by simp
qed

lemma ids_sorted: "sorted_wrt (<) (map al_id rows) \<Longrightarrow> sort_key al_id (filter P rows) = filter P rows"
proof -
  assume "sorted_wrt (<) (map al_id rows)"
  then have "sorted (map al_id rows)" by (rule strict_sorted_imp_sorted)
  then show ?thesis by (intro sort_key_id_if_sorted sorted_filter)
qed

lemma pair_rows_split:
  assumes "alerts_ok h" "latest_row s k (h_alerts h) = Some r"
  obtains older where "filter (pair_row s k) (h_alerts h) = older @ [r]"
    "\<And>q. q \<in> set older \<Longrightarrow> al_lifecycle q = ''archived'' \<and> al_id q < al_id r"
proof -
  obtain older where o: "filter (pair_row s k) (h_alerts h) = older @ [r]"
    using assms(2) by (auto simp: latest_row_Some)
  have "sorted_wrt (<) (map al_id (filter (pair_row s k) (h_alerts h)))"
    using assms(1) by (auto simp: alerts_ok_def sorted_wrt_map intro: sorted_wrt_filter)
  then have less: "al_id q < al_id r" if "q \<in> set older" for q
    using that by (auto simp: o sorted_wrt_append)
  have arch: "al_lifecycle q = ''archived''" if "q \<in> set older" for q
  proof -
    have "q \<in> set (filter (pair_row s k) (h_alerts h))" "r \<in> set (filter (pair_row s k) (h_alerts h))"
      using that by (simp_all add: o)
    then show ?thesis using assms(1) less[OF that]
      by (auto simp: alerts_ok_def older_archived_def pair_row_def)
  qed
  show thesis using that[OF o] less arch by blast
qed

lemma active_pair_filter:
  assumes "alerts_ok h"
  shows "filter (\<lambda>r. pair_row s k r \<and> active_row r) (h_alerts h) = active_latest s k (h_alerts h)"
proof -
  have split: "filter (\<lambda>r. pair_row s k r \<and> active_row r) (h_alerts h) =
      filter active_row (filter (pair_row s k) (h_alerts h))"
    by (simp add: conj_commute)
  show ?thesis
  proof (cases "latest_row s k (h_alerts h)")
    case None
    then have "filter (pair_row s k) (h_alerts h) = []" by (simp add: latest_row_None)
    then show ?thesis unfolding split using None by (simp add: active_latest_def)
  next
    case (Some r)
    obtain older where "filter (pair_row s k) (h_alerts h) = older @ [r]"
      "\<And>q. q \<in> set older \<Longrightarrow> al_lifecycle q = ''archived'' \<and> al_id q < al_id r"
      using pair_rows_split[OF assms Some] by blast
    moreover from this have "filter active_row older = []"
      by (auto simp: filter_empty_conv active_row_def)
    ultimately show ?thesis using split Some by (simp add: active_latest_def)
  qed
qed

lemma length_active_latest: "length (active_latest s k rows) \<le> 1"
  by (simp add: active_latest_def split: option.splits)

lemma current_active_eq:
  "alerts_ok h \<Longrightarrow> current_active_rows s k (h_alerts h) = active_latest s k (h_alerts h)"
  using length_active_latest[of s k "h_alerts h"]
  by (cases "active_latest s k (h_alerts h)")
    (auto simp: current_active_rows_def ids_sorted alerts_ok_def[of h] active_pair_filter)

lemma active_pair_eq:
  "alerts_ok h \<Longrightarrow> active_pair_rows s k (h_alerts h) = active_latest s k (h_alerts h)"
  using length_active_latest[of s k "h_alerts h"]
  by (cases "active_latest s k (h_alerts h)")
    (auto simp: active_pair_rows_def ids_sorted alerts_ok_def[of h] active_pair_filter)

text \<open>Rows that are neither open nor acknowledged are recovered or archived.\<close>

lemma terminal_filter:
  assumes "alerts_ok h" "active_latest s k (h_alerts h) = []"
  shows "filter (\<lambda>r. pair_row s k r \<and> al_lifecycle r \<in> {''recovered'', ''archived''}) (h_alerts h) =
    filter (pair_row s k) (h_alerts h)"
proof (rule filter_cong[OF refl])
  fix r assume r: "r \<in> set (h_alerts h)"
  have "\<not> active_row r" if "pair_row s k r"
  proof
    assume "active_row r"
    then have "r \<in> set (filter (\<lambda>r. pair_row s k r \<and> active_row r) (h_alerts h))"
      using r that by simp
    then show False using assms by (simp add: active_pair_filter)
  qed
  moreover have "is_lifecycle (al_lifecycle r)"
    using alerts_okD(1)[OF assms(1) r] by (simp add: alert_check_def)
  ultimately show "(pair_row s k r \<and> al_lifecycle r \<in> {''recovered'', ''archived''}) = pair_row s k r"
    using lifecycle_value_cases[of "al_lifecycle r"] by (auto simp: active_row_def)
qed

lemma current_or_latest_ok:
  assumes ok: "alerts_ok h"
    and Q: "Q (map_option row_alert (latest_row s k (h_alerts h))) h"
  shows "tx_upto F (current_or_latest_alert s k) h Q"
proof (cases "active_latest s k (h_alerts h)")
  case Nil
  have terminal: "latest_terminal_rows s k (h_alerts h) =
      (case latest_row s k (h_alerts h) of None \<Rightarrow> [] | Some r \<Rightarrow> [r])"
    using ok
    by (auto simp: latest_terminal_rows_def ids_sorted alerts_ok_def[of h] latest_row_def
        terminal_filter[OF ok Nil, simplified] split: list.splits)
  show ?thesis
    unfolding current_or_latest_alert_def
    using Q latest_row_in[of s k "h_alerts h"]
    by (auto intro!: tx_rules read_alert_ok[OF ok] simp: current_active_eq[OF ok] Nil terminal
        split: option.splits)
next
  case (Cons r rest)
  then have r: "latest_row s k (h_alerts h) = Some r" "rest = []"
    by (auto simp: active_latest_def split: option.splits if_splits)
  show ?thesis
    unfolding current_or_latest_alert_def
    using Q latest_row_in[OF r(1)]
    by (auto intro!: tx_rules read_alert_ok[OF ok] simp: current_active_eq[OF ok] Cons r)
qed

text \<open>The active alerts of a health scope: the degraded one, then the unavailable one.\<close>

definition active_health :: "AlertScope \<Rightarrow> alert_row list \<Rightarrow> alert_row list" where
  "active_health s rows = active_latest s AK_DEGRADED rows @ active_latest s AK_UNAVAILABLE rows"

lemma active_latest_in:
  "r \<in> set (active_latest s k rows) \<Longrightarrow> latest_row s k rows = Some r \<and> active_row r \<and>
   r \<in> set rows \<and> pair_row s k r"
  using latest_row_in by (auto simp: active_latest_def split: option.splits if_splits)

lemma active_health_rows_eq:
  assumes ok: "alerts_ok h"
  shows "active_health_rows s (h_alerts h) = active_health s (h_alerts h)"
proof -
  let ?P = "\<lambda>r. al_scope r = scope_value s \<and> al_kind r \<in> {''degraded'', ''unavailable''} \<and> active_row r"
  let ?A = "\<lambda>k. active_latest s k (h_alerts h)"
  have deg: "filter (\<lambda>r. al_kind r = ''degraded'') (filter ?P (h_alerts h)) = ?A AK_DEGRADED"
    unfolding active_pair_filter[OF ok, symmetric] filter_filter
    by (rule filter_cong[OF refl]) (auto simp: pair_row_def)
  have una: "filter (\<lambda>r. al_kind r = ''unavailable'') (filter ?P (h_alerts h)) = ?A AK_UNAVAILABLE"
    unfolding active_pair_filter[OF ok, symmetric] filter_filter
    by (rule filter_cong[OF refl]) (auto simp: pair_row_def)
  have kinds: "al_kind r = ''degraded''" if "r \<in> set (?A AK_DEGRADED)" for r
    using active_latest_in[OF that] by (simp add: pair_row_def)
  have kinds': "al_kind r = ''unavailable''" if "r \<in> set (?A AK_UNAVAILABLE)" for r
    using active_latest_in[OF that] by (simp add: pair_row_def)
  have "sort_key al_kind (filter ?P (h_alerts h)) = ?A AK_DEGRADED @ ?A AK_UNAVAILABLE"
  proof (rule properties_for_sort_key)
    have "mset (filter ?P (h_alerts h)) =
        mset (filter (\<lambda>r. al_kind r = ''degraded'') (filter ?P (h_alerts h))) +
        mset (filter (\<lambda>r. \<not> al_kind r = ''degraded'') (filter ?P (h_alerts h)))"
      unfolding mset_filter by (rule multiset_partition)
    also have "filter (\<lambda>r. \<not> al_kind r = ''degraded'') (filter ?P (h_alerts h)) =
        filter (\<lambda>r. al_kind r = ''unavailable'') (filter ?P (h_alerts h))"
      unfolding filter_filter by (rule filter_cong[OF refl]) auto
    finally show "mset (?A AK_DEGRADED @ ?A AK_UNAVAILABLE) = mset (filter ?P (h_alerts h))"
      unfolding deg una by simp
  next
    fix r assume "r \<in> set (?A AK_DEGRADED @ ?A AK_UNAVAILABLE)"
    then have "al_kind r = ''degraded'' \<or> al_kind r = ''unavailable''" using kinds kinds' by auto
    then show "filter (\<lambda>x. al_kind r = al_kind x) (?A AK_DEGRADED @ ?A AK_UNAVAILABLE) =
        filter (\<lambda>x. al_kind r = al_kind x) (filter ?P (h_alerts h))"
    proof
      assume r: "al_kind r = ''degraded''"
      then have "filter (\<lambda>x. al_kind r = al_kind x) (filter ?P (h_alerts h)) = ?A AK_DEGRADED"
        using deg by (simp add: eq_commute)
      then show ?thesis using r kinds kinds' by (auto simp: filter_id_conv filter_empty_conv)
    next
      assume r: "al_kind r = ''unavailable''"
      then have "filter (\<lambda>x. al_kind r = al_kind x) (filter ?P (h_alerts h)) = ?A AK_UNAVAILABLE"
        using una by (simp add: eq_commute)
      then show ?thesis using r kinds kinds' by (auto simp: filter_id_conv filter_empty_conv)
    qed
  next
    have "''degraded'' \<le> ''unavailable''" by code_simp
    then show "sorted (map al_kind (?A AK_DEGRADED @ ?A AK_UNAVAILABLE))"
      using kinds kinds' length_active_latest[of s AK_DEGRADED "h_alerts h"]
        length_active_latest[of s AK_UNAVAILABLE "h_alerts h"]
      by (cases "?A AK_DEGRADED"; cases "?A AK_UNAVAILABLE") auto
  qed
  moreover have "length (?A AK_DEGRADED @ ?A AK_UNAVAILABLE) \<le> 3"
    using length_active_latest[of s AK_DEGRADED "h_alerts h"]
      length_active_latest[of s AK_UNAVAILABLE "h_alerts h"] by simp
  ultimately show ?thesis using ok
    by (simp add: active_health_rows_def active_health_def ids_sorted alerts_ok_def[of h])
qed

lemma active_health_alerts_ok:
  assumes ok: "alerts_ok h" and Q: "Q (map row_alert (active_health s (h_alerts h))) h"
  shows "tx_upto F (active_health_alerts s) h Q"
proof -
  have "length (active_health s (h_alerts h)) \<le> 2"
    using length_active_latest[of s AK_DEGRADED "h_alerts h"]
      length_active_latest[of s AK_UNAVAILABLE "h_alerts h"] by (simp add: active_health_def)
  moreover have "tx_upto F (tx_map read_alert (active_health s (h_alerts h))) h Q"
  proof (rule tx_ok_map[where P = "\<lambda>r a. a = row_alert r"])
    fix r assume "r \<in> set (active_health s (h_alerts h))"
    then show "tx_upto F (read_alert r) h (\<lambda>y h1. h1 = h \<and> y = row_alert r)"
      using active_latest_in by (auto simp: active_health_def intro!: read_alert_ok[OF ok])
  next
    fix ys assume "list_all2 (\<lambda>r a. a = row_alert r) (active_health s (h_alerts h)) ys"
    then have "ys = map row_alert (active_health s (h_alerts h))"
      by (induction rule: list_all2_induct) auto
    then show "Q ys h" using Q by simp
  qed
  ultimately show ?thesis
    unfolding active_health_alerts_def
    by (auto intro!: tx_rules simp: active_health_rows_eq[OF ok])
qed

section \<open>Writing alerts keeps the table\<close>

text \<open>What the writers of alerts leave alone.\<close>

definition same_samples :: "History \<Rightarrow> History \<Rightarrow> bool" where
  "same_samples h h1 \<longleftrightarrow>
     h_checkpoint h1 = h_checkpoint h \<and> h_replay h1 = h_replay h \<and> h_samples h1 = h_samples h \<and>
     h_components h1 = h_components h \<and> h_evaluation h1 = h_evaluation h"

lemma same_samples_refl [simp]: "same_samples h h"
  by (simp add: same_samples_def)

lemma same_samples_trans: "same_samples h h1 \<Longrightarrow> same_samples h1 h2 \<Longrightarrow> same_samples h h2"
  by (simp add: same_samples_def)

lemma same_samples_alerts [simp]:
  "same_samples h (h\<lparr>h_alerts := rows\<rparr>)" "same_samples h (h\<lparr>h_events := es\<rparr>)"
  by (simp_all add: same_samples_def)

lemma sample_reference_cong: "h_samples h1 = h_samples h \<Longrightarrow> sample_reference h1 = sample_reference h"
  unfolding sample_reference_def by simp

lemma alert_row_ok_cong: "h_samples h1 = h_samples h \<Longrightarrow> alert_row_ok h1 = alert_row_ok h"
  unfolding alert_row_ok_def sample_reference_def by simp

lemma alerts_ok_cong:
  "h_alerts h1 = h_alerts h \<Longrightarrow> h_samples h1 = h_samples h \<Longrightarrow> alerts_ok h1 = alerts_ok h"
  unfolding alerts_ok_def using alert_row_ok_cong[of h1 h] by simp

lemma active_unique_ok:
  assumes "sorted_wrt (<) (map al_id rows)" "older_archived rows"
  shows "active_unique rows"
proof -
  have d: "distinct (map al_id rows)" using assms(1) by (simp add: strict_sorted_iff)
  have "inj_on (\<lambda>r. (al_scope r, al_kind r)) (set (filter active_row rows))"
  proof (rule inj_onI)
    fix r r' assume r: "r \<in> set (filter active_row rows)" "r' \<in> set (filter active_row rows)"
      "(al_scope r, al_kind r) = (al_scope r', al_kind r')"
    have "\<not> al_id r < al_id r'" "\<not> al_id r' < al_id r"
      using assms(2) r by (auto simp: older_archived_def active_row_def)
    then have "al_id r = al_id r'" by simp
    then show "r = r'" using d r by (auto simp: distinct_map inj_on_def)
  qed
  then show ?thesis using d by (simp add: active_unique_def distinct_map)
qed

definition pair_state :: "History \<Rightarrow> AlertScope \<Rightarrow> AlertKind \<Rightarrow> AutomaticAlertState option" where
  "pair_state h s k = map_option row_state (latest_row s k (h_alerts h))"

text \<open>A step on the alerts of one scope and kind: the others stay as they are.\<close>

definition pair_change :: "AlertScope \<Rightarrow> AlertKind \<Rightarrow> History \<Rightarrow> History \<Rightarrow> bool" where
  "pair_change s k h h1 \<longleftrightarrow>
     alerts_ok h1 \<and> same_samples h h1 \<and>
     (\<forall>s' k'. (s', k') \<noteq> (s, k) \<longrightarrow>
        filter (pair_row s' k') (h_alerts h1) = filter (pair_row s' k') (h_alerts h))"

lemma latest_row_cong:
  "filter (pair_row s k) rows = filter (pair_row s k) rows' \<Longrightarrow> latest_row s k rows = latest_row s k rows'"
  by (simp add: latest_row_def)

lemma pair_row_unique: "pair_row s k r \<Longrightarrow> pair_row s' k' r \<longleftrightarrow> (s', k') = (s, k)"
  by (auto simp: pair_row_def)

lemma insert_alert_ok:
  assumes ok: "alerts_ok h" and a: "alert_valid a" "aa_lifecycle a = AL_OPEN"
    and archived: "\<And>r. r \<in> set (h_alerts h) \<Longrightarrow> pair_row (aa_scope a) (aa_kind a) r \<Longrightarrow>
      al_lifecycle r = ''archived''"
    and now: "is_timestamp now" and sample: "sample \<in> set (map sm_id (h_samples h))"
    and Q: "\<And>rowid h1. pair_change (aa_scope a) (aa_kind a) h h1 \<Longrightarrow>
      rowid \<in> set (map al_id (h_alerts h1)) \<Longrightarrow>
      pair_state h1 (aa_scope a) (aa_kind a) = Some a \<Longrightarrow> Q rowid h1"
  shows "tx_upto F (insert_alert a now sample) h Q"
proof -
  let ?i = "next_rowid (map al_id (h_alerts h))"
  let ?r = "new_alert_row a now sample ?i"
  let ?h = "h\<lparr>h_alerts := h_alerts h @ [?r]\<rparr>"
  have i: "1 \<le> ?i" using ok by (intro next_rowid_pos) (auto simp: alerts_ok_def)
  have pair: "pair_row (aa_scope a) (aa_kind a) ?r"
    by (simp add: pair_row_def new_alert_row_def)
  have rec: "aa_recovered_at a = None" using a by (simp add: alert_valid_iff)
  have check: "alert_row_ok h ?r"
    using a now sample rec
    by (cases "aa_scope a"; cases "aa_kind a")
      (auto simp: alert_row_ok_def alert_check_def new_alert_row_def column_defs alert_valid_iff
        sample_reference_def scope_of_def alert_kind_of_def lifecycle_of_def member_of_def
        ALL_SCOPES_def)
  have sorted: "sorted_wrt (<) (map al_id (h_alerts h @ [?r]))"
    using ok next_rowid_greater[of _ "map al_id (h_alerts h)"]
    by (auto simp: alerts_ok_def sorted_wrt_append new_alert_row_def)
  have older: "older_archived (h_alerts h @ [?r])"
    unfolding older_archived_def
  proof (intro ballI impI)
    fix r r' assume r: "r \<in> set (h_alerts h @ [?r])" "r' \<in> set (h_alerts h @ [?r])"
      "al_scope r = al_scope r'" "al_kind r = al_kind r'" "al_id r < al_id r'"
    have "r \<noteq> ?r"
    proof
      assume "r = ?r"
      then have "?i < al_id r'" using r(5) by (simp add: new_alert_row_def)
      moreover have "r' = ?r \<or> al_id r' < ?i"
        using r(2) next_rowid_greater[of "al_id r'" "map al_id (h_alerts h)"] by auto
      ultimately show False by (auto simp: new_alert_row_def)
    qed
    then have r_in: "r \<in> set (h_alerts h)" using r(1) by simp
    show "al_lifecycle r = ''archived''"
    proof (cases "r' = ?r")
      case True
      then have "pair_row (aa_scope a) (aa_kind a) r" using r(3,4) pair by (simp add: pair_row_def)
      then show ?thesis by (rule archived[OF r_in])
    next
      case False
      then have "r' \<in> set (h_alerts h)" using r(2) by simp
      then show ?thesis using ok r r_in by (auto simp: alerts_ok_def older_archived_def)
    qed
  qed
  have okh: "alerts_ok ?h"
    using ok sorted older check i alert_row_ok_cong[of ?h h]
    by (auto simp: alerts_ok_def new_alert_row_def)
  have change: "pair_change (aa_scope a) (aa_kind a) h ?h"
    using okh pair_row_unique[OF pair] by (simp add: pair_change_def)
  have latest: "pair_state ?h (aa_scope a) (aa_kind a) = Some a"
  proof -
    have "lifecycle_of ''open'' = Some AL_OPEN" by code_simp
    then have "row_state ?r = a"
      using rec a(2) by (cases a) (simp add: row_state_def new_alert_row_def)
    then show ?thesis using pair by (simp add: pair_state_def latest_row_def)
  qed
  have "Q ?i ?h" using Q[OF change _ latest, of ?i] by (simp add: new_alert_row_def)
  then show ?thesis
    unfolding insert_alert_def
    using check active_unique_ok[OF sorted older] i
    by (intro tx_rules tx_ok_insert) auto
qed

text \<open>An update of the latest alert of a scope and kind.\<close>

lemma update_latest:
  assumes ok: "alerts_ok h" and r: "latest_row s k (h_alerts h) = Some r"
    and f: "al_id (f r) = al_id r" "al_scope (f r) = al_scope r" "al_kind (f r) = al_kind r"
      "alert_row_ok h (f r)"
    and h1: "h1 = h\<lparr>h_alerts := update_rows (\<lambda>q. al_id q = al_id r) f (h_alerts h)\<rparr>"
  shows "pair_change s k h h1" "latest_row s k (h_alerts h1) = Some (f r)"
proof -
  let ?g = "\<lambda>q. if q = r then f r else q"
  have d: "distinct (map al_id (h_alerts h))" using ok by (simp add: alerts_ok_def strict_sorted_iff)
  have r_in: "r \<in> set (h_alerts h)" "pair_row s k r" using latest_row_in[OF r] by simp_all
  have same: "q = r" if "q \<in> set (h_alerts h)" "al_id q = al_id r" for q
    using d that r_in(1) by (auto simp: distinct_map inj_on_def)
  have rows: "h_alerts h1 = map ?g (h_alerts h)"
    using same by (auto simp: h1 update_rows_def)
  have g: "al_id (?g q) = al_id q" "al_scope (?g q) = al_scope q" "al_kind (?g q) = al_kind q" for q
    using f by simp_all
  have pair_g: "pair_row s' k' (?g q) = pair_row s' k' q" for s' k' q by (simp add: pair_row_def g)
  have filt: "filter (pair_row s' k') (h_alerts h1) = map ?g (filter (pair_row s' k') (h_alerts h))"
    for s' k'
    unfolding rows filter_map comp_def pair_g ..
  obtain older where o: "filter (pair_row s k) (h_alerts h) = older @ [r]"
    "\<And>q. q \<in> set older \<Longrightarrow> al_lifecycle q = ''archived'' \<and> al_id q < al_id r"
    using pair_rows_split[OF ok r] by blast
  have less: "q = r \<or> al_id q < al_id r" if "q \<in> set (h_alerts h)" "pair_row s k q" for q
  proof -
    have "q \<in> set (older @ [r])" using that unfolding o(1)[symmetric] by simp
    then show ?thesis using o(2) by auto
  qed
  show "latest_row s k (h_alerts h1) = Some (f r)"
    unfolding latest_row_Some filt o(1) by simp
  have ids: "map al_id (h_alerts h1) = map al_id (h_alerts h)"
    unfolding rows by (simp add: g comp_def)
  have older: "older_archived (h_alerts h1)"
    unfolding older_archived_def
  proof (intro ballI impI)
    fix q q' assume q: "q \<in> set (h_alerts h1)" "q' \<in> set (h_alerts h1)" "al_scope q = al_scope q'"
      "al_kind q = al_kind q'" "al_id q < al_id q'"
    obtain p where p: "p \<in> set (h_alerts h)" "q = ?g p" using q(1) by (auto simp: rows)
    obtain p' where p': "p' \<in> set (h_alerts h)" "q' = ?g p'" using q(2) by (auto simp: rows)
    have eq: "al_scope p = al_scope p'" "al_kind p = al_kind p'" "al_id p < al_id p'"
      using q(3-5) unfolding p(2) p'(2) g by simp_all
    have "p \<noteq> r"
    proof
      assume "p = r"
      then have "pair_row s k p'" using eq r_in(2) by (simp add: pair_row_def)
      then show False using less[OF p'(1)] eq(3) \<open>p = r\<close> by auto
    qed
    moreover have "al_lifecycle p = ''archived''"
      using ok p(1) p'(1) eq by (auto simp: alerts_ok_def older_archived_def)
    ultimately show "al_lifecycle q = ''archived''" using p(2) by simp
  qed
  have samples: "h_samples h1 = h_samples h" by (simp add: h1)
  have "1 \<le> al_id q \<and> alert_row_ok h1 q" if "q \<in> set (h_alerts h1)" for q
    unfolding alert_row_ok_cong[OF samples]
    using that f(1,4) ok r_in(1) by (auto simp: rows alerts_ok_def)
  then have okh: "alerts_ok h1"
    using ok older by (simp add: alerts_ok_def ids)
  show "pair_change s k h h1"
    unfolding pair_change_def
  proof (intro conjI allI impI)
    show "alerts_ok h1" by (rule okh)
    show "same_samples h h1" by (simp add: h1)
    fix s' k' assume "(s', k') \<noteq> (s, k)"
    then have "\<not> pair_row s' k' r" using pair_row_unique[OF r_in(2)] by simp
    then have "?g q = q" if "pair_row s' k' q" for q using that by auto
    then show "filter (pair_row s' k') (h_alerts h1) = filter (pair_row s' k') (h_alerts h)"
      unfolding filt by (intro map_idI) auto
  qed
qed

lemma only_element: "distinct xs \<Longrightarrow> set xs = {x} \<Longrightarrow> xs = [x]"
proof (cases xs)
  case (Cons y ys)
  assume "distinct xs" "set xs = {x}"
  then have "y = x" "set ys \<subseteq> {x}" "x \<notin> set ys" using Cons by auto
  then show ?thesis using Cons by (cases ys) auto
qed simp

lemma update_alert_ok:
  assumes ok: "alerts_ok h" and r: "latest_row s k (h_alerts h) = Some r"
    and f: "al_id (f r) = al_id r" "al_scope (f r) = al_scope r" "al_kind (f r) = al_kind r"
      "alert_row_ok h (f r)"
    and Q: "\<And>h1. pair_change s k h h1 \<Longrightarrow> latest_row s k (h_alerts h1) = Some (f r) \<Longrightarrow> Q () h1"
  shows "tx_upto F (update_alert (al_id r) f) h Q"
proof -
  let ?P = "\<lambda>q. al_id q = al_id r"
  let ?rows = "update_rows ?P f (h_alerts h)"
  let ?h = "h\<lparr>h_alerts := ?rows\<rparr>"
  note u = update_latest[where f = f and ?h1.0 = ?h, OF ok r f refl]
  have d: "distinct (map al_id (h_alerts h))" using ok by (simp add: alerts_ok_def strict_sorted_iff)
  have r_in: "r \<in> set (h_alerts h)" using latest_row_in[OF r] by simp
  have same: "q = r" if "q \<in> set (h_alerts h)" "al_id q = al_id r" for q
    using d that r_in by (auto simp: distinct_map inj_on_def)
  have "filter ?P (h_alerts h) = [r]"
  proof -
    have "distinct (filter ?P (h_alerts h))" using d by (simp add: distinct_map)
    moreover have "set (filter ?P (h_alerts h)) = {r}" using same r_in by auto
    ultimately show ?thesis by (rule only_element)
  qed
  then have count: "updated_count ?P (h_alerts h) = 1" by (simp add: updated_count_def)
  have checked: "list_all (alert_row_ok h) (filter ?P ?rows)"
    using same f(4) by (auto simp: list_all_iff update_rows_def)
  have unique: "active_unique ?rows"
    using u(1) active_unique_ok[of ?rows] by (simp add: pair_change_def alerts_ok_def)
  show ?thesis
    unfolding update_alert_def
    by (intro tx_rules tx_ok_change[where ?h1.0 = ?h and x = 1])
      (use checked unique count Q[OF u] in \<open>simp_all add: Let_def\<close>)
qed

lemma insert_alert_event_ok:
  assumes "event_check (new_event_row alert event now sample lifecycle 1)"
    and "alert \<in> set (map al_id (h_alerts h))" "sample_reference h sample"
    and Q: "\<And>es. Q () (h\<lparr>h_events := es\<rparr>)"
  shows "tx_upto F (insert_alert_event alert event now sample lifecycle) h Q"
proof -
  have "event_row_ok h (new_event_row alert event now sample lifecycle i)" for i
    using assms(1-3) by (simp add: event_row_ok_def event_check_def new_event_row_def)
  then show ?thesis unfolding insert_alert_event_def
    by (intro tx_rules tx_ok_insert) (auto intro: Q)
qed

lemma pair_change_events: "pair_change s k h h1 \<Longrightarrow> pair_change s k h (h1\<lparr>h_events := es\<rparr>)"
  using alerts_ok_cong[of "h1\<lparr>h_events := es\<rparr>" h1]
  by (simp add: pair_change_def same_samples_def)

section \<open>Plans that can be carried out\<close>

text \<open>
  A plan fits the alerts of a scope and kind: it leaves them alone, opens an alert where all others
  are archived, or updates the latest row as the lifecycle says. The last argument is the state of
  the latest alert afterwards.
\<close>

definition opens_alert :: "AutomaticAlertTransition \<Rightarrow> AutomaticAlertState option" where
  "opens_alert t = (if at_previous t = None \<and> at_state t \<noteq> None then at_state t else at_created_alert t)"

definition opening_ready ::
  "History \<Rightarrow> AlertScope \<Rightarrow> AlertKind \<Rightarrow> AutomaticAlertTransition \<Rightarrow> AutomaticAlertState \<Rightarrow> bool" where
  "opening_ready h s k t a \<longleftrightarrow>
     at_outcome t = AT_APPLIED \<and> opens_alert t = Some a \<and> at_event t = Some LE_OPENED \<and>
     alert_valid a \<and> aa_lifecycle a = AL_OPEN \<and> aa_scope a = s \<and> aa_kind a = k \<and>
     (\<forall>r \<in> set (filter (pair_row s k) (h_alerts h)). al_lifecycle r = ''archived'')"

definition row_update :: "int \<Rightarrow> alert_row \<Rightarrow> LifecycleEvent \<Rightarrow> AutomaticAlertState \<Rightarrow> bool" where
  "row_update now r e b \<longleftrightarrow>
     e = LE_OCCURRENCE_UPDATED \<and> al_lifecycle r \<noteq> ''archived'' \<and> b = touched (row_state r) now \<or>
     e = LE_RECOVERED \<and> active_row r \<and> b = recovered_alert (row_state r) now \<or>
     e = LE_ARCHIVED \<and> al_lifecycle r = ''recovered'' \<and> b = (row_state r)\<lparr>aa_lifecycle := AL_ARCHIVED\<rparr>"

definition plan_ready ::
  "History \<Rightarrow> int \<Rightarrow> AlertScope \<Rightarrow> AlertKind \<Rightarrow> AlertPlan \<Rightarrow> AutomaticAlertState option \<Rightarrow> bool" where
  "plan_ready h now s k plan result \<longleftrightarrow>
     at_outcome (pl_transition plan) = AT_IDEMPOTENT \<and> at_event (pl_transition plan) = None \<and>
       result = pair_state h s k \<or>
     (\<exists>a. result = Some a \<and> opening_ready h s k (pl_transition plan) a) \<or>
     (\<exists>r e b. latest_row s k (h_alerts h) = Some r \<and> pl_existing plan = Some (al_id r) \<and>
        pl_transition plan = moved_to (row_state r) e b \<and> result = Some b \<and> row_update now r e b)"

lemma latest_row_pair: "filter (pair_row s k) (h_alerts h1) = filter (pair_row s k) (h_alerts h) \<Longrightarrow>
    latest_row s k (h_alerts h1) = latest_row s k (h_alerts h)"
  by (simp add: latest_row_def)

lemma plan_ready_cong:
  assumes "filter (pair_row s k) (h_alerts h1) = filter (pair_row s k) (h_alerts h)"
  shows "plan_ready h1 now s k plan result = plan_ready h now s k plan result"
  by (simp only: plan_ready_def opening_ready_def pair_state_def latest_row_pair[OF assms] assms)

text \<open>The row an update writes satisfies the schema and stores the state.\<close>

definition updated_row :: "alert_row \<Rightarrow> LifecycleEvent \<Rightarrow> AutomaticAlertState \<Rightarrow> int \<Rightarrow> int option \<Rightarrow> alert_row"
  where
  "updated_row r e b now sample =
     (if e = LE_OCCURRENCE_UPDATED
      then r\<lparr>al_occurrence := aa_occurrence_count b, al_cooldown := aa_cooldown_until b,
             al_latest_sample := (case sample of None \<Rightarrow> al_latest_sample r | Some s \<Rightarrow> Some s)\<rparr>
      else if e = LE_RECOVERED
      then r\<lparr>al_lifecycle := ''recovered'', al_recovered := aa_recovered_at b,
             al_cooldown := aa_cooldown_until b, al_latest_sample := sample\<rparr>
      else r\<lparr>al_lifecycle := ''archived'', al_archived := Some now\<rparr>)"

lemma updated_row_key [simp]:
  "al_id (updated_row r e b now sample) = al_id r"
  "al_scope (updated_row r e b now sample) = al_scope r"
  "al_kind (updated_row r e b now sample) = al_kind r"
  by (simp_all add: updated_row_def)

lemma row_update_valid:
  assumes "alert_check r" "is_timestamp now" "row_update now r e b"
  shows "alert_valid b"
proof -
  have v: "alert_valid (row_state r)" by (rule row_state_valid[OF assms(1)])
  have now: "0 \<le> now" "now \<le> MAX_TIMESTAMP_US" using assms(2) by (simp_all add: column_defs)
  have rec: "aa_lifecycle (row_state r) = AL_RECOVERED" if "al_lifecycle r = ''recovered''"
    using that vocab_roundtrip(6)[of AL_RECOVERED] by (simp add: row_state_def)
  from assms(3) show ?thesis
    using touched_valid[OF v now(1)] recovered_alert_valid[OF v now] archived_alert_valid[OF v] rec
    unfolding row_update_def by (elim disjE conjE) simp_all
qed

lemma row_update_cases:
  assumes "row_update now r e b"
  obtains (touch) "e = LE_OCCURRENCE_UPDATED" "al_lifecycle r \<noteq> ''archived''"
      "b = touched (row_state r) now"
    | (recovery) "e = LE_RECOVERED" "active_row r" "b = recovered_alert (row_state r) now"
    | (archival) "e = LE_ARCHIVED" "al_lifecycle r = ''recovered''"
      "b = (row_state r)\<lparr>aa_lifecycle := AL_ARCHIVED\<rparr>"
  using assms unfolding row_update_def by blast

lemma updated_row_ok:
  assumes "alert_row_ok h r" "is_timestamp now" "row_update now r e b" "sample_reference h sample"
  shows "alert_row_ok h (updated_row r e b now sample)"
    and "row_state (updated_row r e b now sample) = b"
proof -
  have check: "alert_check r" using assms(1) by (simp add: alert_row_ok_def)
  have b: "1 \<le> aa_occurrence_count b" "aa_occurrence_count b \<le> MAX_BOUNDED_COUNTER"
    "0 \<le> aa_cooldown_until b" "aa_cooldown_until b \<le> MAX_TIMESTAMP_US"
    using row_update_valid[OF check assms(2,3)] by (simp_all add: alert_valid_iff)
  have b_columns: "between 1 MAX_BOUNDED_COUNTER (aa_occurrence_count b)"
    "is_timestamp (aa_cooldown_until b)" using b by (simp_all add: column_defs)
  have samples: "sample_reference h (al_first_sample r)" "sample_reference h (al_latest_sample r)"
    "sample_reference h (case sample of None \<Rightarrow> al_latest_sample r | Some s \<Rightarrow> Some s)"
    using assms(1,4) by (auto simp: alert_row_ok_def split: option.splits)
  have now: "is_timestamp now" by fact
  from assms(3) have "alert_check (updated_row r e b now sample)"
  proof (cases rule: row_update_cases)
    case touch
    then have "updated_row r e b now sample = r\<lparr>al_occurrence := aa_occurrence_count b,
        al_cooldown := aa_cooldown_until b,
        al_latest_sample := (case sample of None \<Rightarrow> al_latest_sample r | Some s \<Rightarrow> Some s)\<rparr>"
      by (simp add: updated_row_def)
    then show ?thesis using check alert_body_columns(2) b_columns by (simp add: alert_check_parts)
  next
    case recovery
    then have row: "updated_row r e b now sample = r\<lparr>al_lifecycle := ''recovered'',
        al_recovered := Some now, al_cooldown := aa_cooldown_until b, al_latest_sample := sample\<rparr>"
      by (simp add: updated_row_def)
    have "life_ok ''recovered'' (al_acknowledged r) (Some now) (al_archived r)"
      using check recovery(2) now
      unfolding alert_check_parts life_ok_cases active_row_def null_or_def by auto
    then show ?thesis using check alert_body_columns(1)[OF _ b_columns(2)]
      by (simp add: alert_check_parts row alert_body_cong)
  next
    case archival
    then have row: "updated_row r e b now sample = r\<lparr>al_lifecycle := ''archived'', al_archived := Some now\<rparr>"
      by (simp add: updated_row_def)
    have "life_ok ''archived'' (al_acknowledged r) (al_recovered r) (Some now)"
      using check archival(2) now
      unfolding alert_check_parts life_ok_cases null_or_def by auto
    then show ?thesis using check by (simp add: alert_check_parts row alert_body_cong)
  qed
  then show "alert_row_ok h (updated_row r e b now sample)"
    using samples assms(4) by (simp add: alert_row_ok_def updated_row_def)
  from assms(3) show "row_state (updated_row r e b now sample) = b"
    by (cases rule: row_update_cases)
      (simp_all add: updated_row_def row_state_def lifecycle_names)
qed

lemma event_check_update:
  assumes "alert_check r" "is_timestamp now" "row_update now r e b"
  shows "event_check (new_event_row alert e now sample (aa_lifecycle b) 1)"
proof -
  have life: "al_lifecycle r = ''open'' \<or> al_lifecycle r = ''acknowledged'' \<or>
      al_lifecycle r = ''recovered'' \<or> al_lifecycle r = ''archived''"
    using assms(1) lifecycle_value_cases by (simp add: alert_check_def)
  from assms(3) show ?thesis
    using assms(2) life
    by (cases rule: row_update_cases)
      (auto simp: event_check_def new_event_row_def is_event_def is_lifecycle_def row_state_def
        lifecycle_names)
qed

definition supported :: "AutomaticAlertTransition \<Rightarrow> int option \<Rightarrow> bool" where
  "supported t sample \<longleftrightarrow> (at_event t \<in> {Some LE_OPENED, Some LE_RECOVERED} \<longrightarrow> sample \<noteq> None)"

lemma persist_opening_ok:
  assumes ok: "alerts_ok h" and t: "opening_ready h s k t a" and now: "is_timestamp now"
    and sample: "sample \<in> set (map sm_id (h_samples h))"
    and Q: "\<And>h1. pair_change s k h h1 \<Longrightarrow> pair_state h1 s k = Some a \<Longrightarrow> Q () h1"
  shows "tx_upto F (tx_bind (insert_alert a now sample) (\<lambda>alert.
      insert_alert_event alert LE_OPENED now (Some sample) AL_OPEN)) h Q"
proof (rule tx_ok_bind, rule insert_alert_ok[OF ok _ _ _ now sample])
  show "alert_valid a" "aa_lifecycle a = AL_OPEN" using t by (simp_all add: opening_ready_def)
  show "al_lifecycle r = ''archived''"
    if "r \<in> set (h_alerts h)" "pair_row (aa_scope a) (aa_kind a) r" for r
    using t that by (auto simp: opening_ready_def)
  fix rowid h1 assume h1: "pair_change (aa_scope a) (aa_kind a) h h1"
    "rowid \<in> set (map al_id (h_alerts h1))" "pair_state h1 (aa_scope a) (aa_kind a) = Some a"
  have pair: "aa_scope a = s" "aa_kind a = k" using t by (simp_all add: opening_ready_def)
  show "tx_upto F (insert_alert_event rowid LE_OPENED now (Some sample) AL_OPEN) h1 Q"
  proof (rule insert_alert_event_ok)
    show "event_check (new_event_row rowid LE_OPENED now (Some sample) AL_OPEN 1)"
      using now by (simp add: event_check_def new_event_row_def is_event_def is_lifecycle_def
          lifecycle_names)
    show "rowid \<in> set (map al_id (h_alerts h1))" by (rule h1(2))
    show "sample_reference h1 (Some sample)"
      using sample h1(1) by (simp add: sample_reference_def null_or_def pair_change_def same_samples_def)
    show "Q () (h1\<lparr>h_events := es\<rparr>)" for es
      using Q[OF pair_change_events[OF h1(1), unfolded pair], of es] h1(3) pair
      by (simp add: pair_state_def)
  qed
qed

lemma persist_update_ok:
  assumes ok: "alerts_ok h" and r: "latest_row s k (h_alerts h) = Some r"
    and u: "row_update now r e b" and now: "is_timestamp now" and sample: "sample_reference h sample"
    and f: "f r = updated_row r e b now sample"
    and Q: "\<And>h1. pair_change s k h h1 \<Longrightarrow> pair_state h1 s k = Some b \<Longrightarrow> Q () h1"
  shows "tx_upto F (tx_then (update_alert (al_id r) f)
      (insert_alert_event (al_id r) e now sample (aa_lifecycle b))) h Q"
proof (rule tx_ok_then, rule update_alert_ok[OF ok r])
  have r_in: "r \<in> set (h_alerts h)" using latest_row_in[OF r] by simp
  note row = alerts_okD[OF ok r_in]
  note new = updated_row_ok[OF row(3) now u sample]
  show "al_id (f r) = al_id r" "al_scope (f r) = al_scope r" "al_kind (f r) = al_kind r"
    "alert_row_ok h (f r)" using new(1) by (simp_all add: f)
  fix h1 assume h1: "pair_change s k h h1" "latest_row s k (h_alerts h1) = Some (f r)"
  show "tx_upto F (insert_alert_event (al_id r) e now sample (aa_lifecycle b)) h1 Q"
  proof (rule insert_alert_event_ok)
    show "event_check (new_event_row (al_id r) e now sample (aa_lifecycle b) 1)"
      by (rule event_check_update[OF row(1) now u])
    have "f r \<in> set (h_alerts h1)" using latest_row_in[OF h1(2)] by simp
    then have "al_id (f r) \<in> set (map al_id (h_alerts h1))" by (simp add: image_iff) blast
    then show "al_id r \<in> set (map al_id (h_alerts h1))" by (simp add: f)
    show "sample_reference h1 sample"
      using sample h1(1) sample_reference_cong[of h1 h] by (simp add: pair_change_def same_samples_def)
    show "Q () (h1\<lparr>h_events := es\<rparr>)" for es
      using Q[OF pair_change_events[OF h1(1)], of es] h1(2) new(2)
      by (simp add: pair_state_def f)
  qed
qed

lemma pair_change_refl: "alerts_ok h \<Longrightarrow> pair_change s k h h"
  by (simp add: pair_change_def)

lemma persist_plan_ok:
  assumes ok: "alerts_ok h" and p: "plan_ready h now s k plan result" and now: "is_timestamp now"
    and sample: "sample_reference h sample" "supported (pl_transition plan) sample"
    and Q: "\<And>h1. pair_change s k h h1 \<Longrightarrow> pair_state h1 s k = result \<Longrightarrow> Q () h1"
  shows "tx_upto F (persist_alert_plan plan now sample) h Q"
proof -
  let ?t = "pl_transition plan"
  consider (idle) "at_outcome ?t = AT_IDEMPOTENT" "result = pair_state h s k"
    | (fresh) a where "result = Some a" "opening_ready h s k ?t a"
    | (change) r e b where "latest_row s k (h_alerts h) = Some r" "pl_existing plan = Some (al_id r)"
      "?t = moved_to (row_state r) e b" "result = Some b" "row_update now r e b"
    using p unfolding plan_ready_def by blast
  then show ?thesis
  proof cases
    case idle
    then show ?thesis using Q[OF pair_change_refl[OF ok]]
      by (simp add: persist_alert_plan_def tx_ok_return)
  next
    case fresh
    then obtain i where i: "sample = Some i"
      using sample(2) by (auto simp: supported_def opening_ready_def)
    have "i \<in> set (map sm_id (h_samples h))"
      using sample(1) by (simp add: i sample_reference_def null_or_def)
    then show ?thesis
      using persist_opening_ok[OF ok fresh(2) now, of i Q] Q fresh
      by (simp add: persist_alert_plan_def Let_def i opening_ready_def opens_alert_def)
  next
    case change
    have upd: "tx_upto F (tx_then (update_alert (al_id r) f)
        (insert_alert_event (al_id r) e now sample (aa_lifecycle b))) h Q"
      if "f r = updated_row r e b now sample" for f
      by (rule persist_update_ok[where f = f, OF ok change(1,5) now sample(1) that])
        (use Q change(4) in simp)
    have persist: "persist_alert_plan plan now sample =
        tx_then
          (if e = LE_OCCURRENCE_UPDATED
           then update_alert (al_id r) (\<lambda>r.
                  r\<lparr>al_occurrence := aa_occurrence_count b, al_cooldown := aa_cooldown_until b,
                    al_latest_sample := (case sample of None \<Rightarrow> al_latest_sample r
                                         | Some s \<Rightarrow> Some s)\<rparr>)
           else if e = LE_RECOVERED
           then update_alert (al_id r) (\<lambda>r.
                  r\<lparr>al_lifecycle := ''recovered'', al_recovered := aa_recovered_at b,
                    al_cooldown := aa_cooldown_until b, al_latest_sample := sample\<rparr>)
           else if e = LE_ARCHIVED
           then update_alert (al_id r) (\<lambda>r. r\<lparr>al_lifecycle := ''archived'', al_archived := Some now\<rparr>)
           else tx_fail malformed_state)
          (insert_alert_event (al_id r) e now sample (aa_lifecycle b))"
      unfolding persist_alert_plan_def change(2,3) by (simp add: Let_def moved_to_def)
    have e: "e = LE_OCCURRENCE_UPDATED \<or> e = LE_RECOVERED \<or> e = LE_ARCHIVED"
      using change(5) by (auto simp: row_update_def)
    then show ?thesis
    proof (elim disjE)
      assume e: "e = LE_OCCURRENCE_UPDATED"
      show ?thesis unfolding persist if_P[OF e] by (rule upd) (simp add: updated_row_def e)
    next
      assume e: "e = LE_RECOVERED"
      then have "\<not> e = LE_OCCURRENCE_UPDATED" by simp
      then show ?thesis unfolding persist if_P[OF e] if_not_P[OF \<open>\<not> e = LE_OCCURRENCE_UPDATED\<close>]
        by (intro upd) (simp add: updated_row_def e)
    next
      assume e: "e = LE_ARCHIVED"
      then have "\<not> e = LE_OCCURRENCE_UPDATED" "\<not> e = LE_RECOVERED" by simp_all
      then show ?thesis unfolding persist if_P[OF e] if_not_P[OF \<open>\<not> e = LE_OCCURRENCE_UPDATED\<close>]
          if_not_P[OF \<open>\<not> e = LE_RECOVERED\<close>]
        by (intro upd) (simp add: updated_row_def e)
    qed
  qed
qed

end
