(* ===== verification/Ingestion_Plans.thy ===== *)
theory Ingestion_Plans
  imports Ingestion_Alerts
begin

text \<open>
  The alert plans of one observation. Archival leaves no recovered alert past its cooldown; after
  it every plan the observation makes fits the alerts, and no two of them concern the same scope and
  kind, so they can be carried out one after the other.
\<close>

section \<open>Evaluating a valid request\<close>

lemma alert_request_valid:
  assumes "is_timestamp now" "s = AS_SAMPLING \<longleftrightarrow> k = AK_SAMPLING_GAP"
  shows "request_valid (alert_request operation s k now)"
  using assms by (simp add: request_valid_iff alert_request_def column_defs)

lemma evaluate_alert_ok:
  assumes "request_valid r" "evaluate_automatic_alert alert r = Inr t" "Q t h"
  shows "tx_upto F (evaluate_alert alert r) h Q"
  unfolding evaluate_alert_def
  by (intro tx_ok_bind tx_ok_lift[where x = r] tx_ok_lift[where x = t])
    (use assms in \<open>simp_all add: or_value_error_def build_alert_input_def\<close>)

lemma alert_request_simps [simp]:
  "ai_operation (alert_request operation s k now) = operation"
  "ai_scope (alert_request operation s k now) = s"
  "ai_kind (alert_request operation s k now) = k"
  "ai_now (alert_request operation s k now) = now"
  "ai_persistence_succeeded (alert_request operation s k now)"
  by (simp_all add: alert_request_def)

lemma own_scope: "alert_valid a \<Longrightarrow> aa_scope a = AS_SAMPLING \<longleftrightarrow> aa_kind a = AK_SAMPLING_GAP"
  by (simp add: alert_valid_iff)

section \<open>Rows and their scope and kind\<close>

definition row_pair :: "alert_row \<Rightarrow> AlertScope \<times> AlertKind" where
  "row_pair r = (aa_scope (row_state r), aa_kind (row_state r))"

lemma pair_row_iff: "alert_check r \<Longrightarrow> pair_row s k r \<longleftrightarrow> row_pair r = (s, k)"
  using row_state_fields[of r] row_state_pair[of s k r] by (auto simp: row_pair_def pair_row_def)

lemma lifecycle_row:
  assumes "alert_check r"
  shows "aa_lifecycle (row_state r) = AL_ARCHIVED \<longleftrightarrow> al_lifecycle r = ''archived''"
    and "aa_lifecycle (row_state r) = AL_RECOVERED \<longleftrightarrow> al_lifecycle r = ''recovered''"
    and "live (aa_lifecycle (row_state r)) \<longleftrightarrow> active_row r"
proof -
  have "al_lifecycle r = ''open'' \<or> al_lifecycle r = ''acknowledged'' \<or>
      al_lifecycle r = ''recovered'' \<or> al_lifecycle r = ''archived''"
    using assms lifecycle_value_cases by (simp add: alert_check_def)
  then show "aa_lifecycle (row_state r) = AL_ARCHIVED \<longleftrightarrow> al_lifecycle r = ''archived''"
    and "aa_lifecycle (row_state r) = AL_RECOVERED \<longleftrightarrow> al_lifecycle r = ''recovered''"
    and "live (aa_lifecycle (row_state r)) \<longleftrightarrow> active_row r"
    by (auto simp: row_state_def active_row_def lifecycle_names)
qed

lemma latest_unarchived:
  assumes ok: "alerts_ok h" and r: "r \<in> set (h_alerts h)" "pair_row s k r"
    "al_lifecycle r \<noteq> ''archived''"
  shows "latest_row s k (h_alerts h) = Some r"
proof -
  have r_in: "r \<in> set (filter (pair_row s k) (h_alerts h))" using r(1,2) by simp
  obtain q where q: "latest_row s k (h_alerts h) = Some q"
    using r_in latest_row_None[of s k "h_alerts h"]
    by (cases "latest_row s k (h_alerts h)") (auto simp: filter_empty_conv)
  obtain older where "filter (pair_row s k) (h_alerts h) = older @ [q]"
    "\<And>q'. q' \<in> set older \<Longrightarrow> al_lifecycle q' = ''archived'' \<and> al_id q' < al_id q"
    using pair_rows_split[OF ok q] by blast
  then show ?thesis using r_in r(3) q by auto
qed

lemma latest_row_pair_of:
  assumes "alerts_ok h" "r \<in> set (h_alerts h)" "al_lifecycle r \<noteq> ''archived''"
  shows "latest_row (fst (row_pair r)) (snd (row_pair r)) (h_alerts h) = Some r"
  using assms latest_unarchived alerts_okD(1)[OF assms(1,2)] by (auto simp: pair_row_iff)

lemma latest_pair: "alerts_ok h \<Longrightarrow> latest_row s k (h_alerts h) = Some r \<Longrightarrow> row_pair r = (s, k)"
  using latest_row_in[of s k "h_alerts h" r] alerts_okD(1)[of h r] by (auto simp: pair_row_iff)

section \<open>Archival\<close>

definition settled :: "History \<Rightarrow> int \<Rightarrow> bool" where
  "settled h now \<longleftrightarrow>
     (\<forall>s k a. pair_state h s k = Some a \<longrightarrow> aa_lifecycle a = AL_RECOVERED \<longrightarrow> now < aa_cooldown_until a)"

text \<open>The alerts of some scopes and kinds were archived, the others are as they were.\<close>

definition archived_pairs :: "(AlertScope \<times> AlertKind) set \<Rightarrow> History \<Rightarrow> History \<Rightarrow> bool" where
  "archived_pairs ps h h1 \<longleftrightarrow>
     alerts_ok h1 \<and> same_samples h h1 \<and>
     (\<forall>s k. if (s, k) \<in> ps
            then \<exists>a b. pair_state h1 s k = Some a \<and> aa_lifecycle a = AL_ARCHIVED \<and>
                       pair_state h s k = Some b \<and> aa_generation b = aa_generation a
            else filter (pair_row s k) (h_alerts h1) = filter (pair_row s k) (h_alerts h))"

lemma archived_pairs_refl: "alerts_ok h \<Longrightarrow> archived_pairs {} h h"
  by (simp add: archived_pairs_def)

lemma archived_pairs_step:
  assumes "pair_change s k h h1" "pair_state h1 s k = Some a" "aa_lifecycle a = AL_ARCHIVED"
    and "archived_pairs ps h1 h2" "(s, k) \<notin> ps"
    and "pair_state h s k = Some b" "aa_generation b = aa_generation a"
  shows "archived_pairs (insert (s, k) ps) h h2"
proof -
  have "filter (pair_row s k) (h_alerts h2) = filter (pair_row s k) (h_alerts h1)"
    using assms(4,5) by (auto simp: archived_pairs_def)
  then have "pair_state h2 s k = Some a"
    using assms(2) latest_row_pair[of s k h2 h1] by (simp add: pair_state_def)
  moreover have "pair_state h1 s' k' = pair_state h s' k'" if "(s', k') \<noteq> (s, k)" for s' k'
    using assms(1) that latest_row_pair[of s' k' h1 h] by (simp add: pair_change_def pair_state_def)
  moreover from this have "\<exists>a b. pair_state h2 s' k' = Some a \<and> aa_lifecycle a = AL_ARCHIVED \<and>
      pair_state h s' k' = Some b \<and> aa_generation b = aa_generation a"
    if "(s', k') \<in> ps" for s' k'
    using assms(4,5) that unfolding archived_pairs_def by metis
  ultimately show ?thesis using assms same_samples_trans[of h h1 h2]
    by (auto simp: archived_pairs_def pair_change_def)
qed

text \<open>
  A generation counter is exhausted: the latest alert of some scope and kind has the largest
  generation there is. Archiving exhausts none.
\<close>

definition exhausted :: "History \<Rightarrow> bool" where
  "exhausted h \<longleftrightarrow> (\<exists>s k r. latest_row s k (h_alerts h) = Some r \<and> al_episode r = MAX_BOUNDED_COUNTER)"

lemma exhausted_state:
  "exhausted h \<longleftrightarrow> (\<exists>s k a. pair_state h s k = Some a \<and> aa_generation a = MAX_BOUNDED_COUNTER)"
  by (force simp: exhausted_def pair_state_def row_state_def)

lemma archived_exhausted:
  assumes "archived_pairs ps h h1" "exhausted h1"
  shows "exhausted h"
proof -
  obtain s k a where a: "pair_state h1 s k = Some a" "aa_generation a = MAX_BOUNDED_COUNTER"
    using assms(2) by (auto simp: exhausted_state)
  show ?thesis
  proof (cases "(s, k) \<in> ps")
    case True
    then obtain b c where "pair_state h1 s k = Some b" "pair_state h s k = Some c"
      "aa_generation c = aa_generation b"
      using assms(1) unfolding archived_pairs_def by metis
    then show ?thesis using a by (auto simp: exhausted_state)
  next
    case False
    then have "pair_state h s k = pair_state h1 s k"
      using assms(1) latest_row_pair[of s k h1 h] by (simp add: archived_pairs_def pair_state_def)
    then show ?thesis using a by (auto simp: exhausted_state)
  qed
qed

definition recovered_row :: "int \<Rightarrow> History \<Rightarrow> alert_row \<Rightarrow> bool" where
  "recovered_row now h r \<longleftrightarrow>
     latest_row (fst (row_pair r)) (snd (row_pair r)) (h_alerts h) = Some r \<and>
     al_lifecycle r = ''recovered'' \<and> al_cooldown r \<le> now"

lemma archive_rows_ok:
  assumes "alerts_ok h" and now: "is_timestamp now"
    and "\<forall>r \<in> set rs. recovered_row now h r" "distinct (map row_pair rs)"
    and "set seen \<inter> row_pair ` set rs = {}"
    and "\<And>h1. archived_pairs (row_pair ` set rs) h h1 \<Longrightarrow> Q () h1"
  shows "tx_upto F (archive_rows now seen rs) h Q"
  using assms(1,3-)
proof (induction rs arbitrary: seen h Q)
  case Nil
  then show ?case using archived_pairs_refl by (simp add: tx_ok_return)
next
  case (Cons r rs)
  obtain s k where p: "row_pair r = (s, k)" by (cases "row_pair r")
  have r: "latest_row s k (h_alerts h) = Some r" "al_lifecycle r = ''recovered''" "al_cooldown r \<le> now"
    using Cons.prems(2) by (simp_all add: recovered_row_def p)
  have r_in: "r \<in> set (h_alerts h)" using latest_row_in[OF r(1)] by simp
  note row = alerts_okD[OF Cons.prems(1) r_in]
  let ?a = "row_state r"
  let ?b = "?a\<lparr>aa_lifecycle := AL_ARCHIVED\<rparr>"
  let ?t = "moved_to ?a LE_ARCHIVED ?b"
  have a: "aa_scope ?a = s" "aa_kind ?a = k" using p by (simp_all add: row_pair_def)
  have valid: "request_valid (alert_request AO_ARCHIVE s k now)"
    using alert_request_valid[OF now] own_scope[OF row(4)] a by simp
  have "aa_lifecycle ?a = AL_RECOVERED" "aa_cooldown_until ?a = al_cooldown r"
    using lifecycle_row[OF row(1)] r(2) by (simp_all add: row_state_def)
  then have t: "evaluate_automatic_alert (Some ?a) (alert_request AO_ARCHIVE s k now) = Inr ?t"
    using archive_eq[OF row(4)] r(3) a by (simp add: evaluate_automatic_alert_def)
  have ready: "plan_ready h now s k \<lparr>pl_existing = Some (al_id r), pl_transition = ?t\<rparr> (Some ?b)"
    using r by (auto simp: plan_ready_def row_update_def)
  have "tx_upto F (persist_alert_plan \<lparr>pl_existing = Some (al_id r), pl_transition = ?t\<rparr> now None) h
      (\<lambda>_ h1. tx_upto F (archive_rows now ((s, k) # seen) rs) h1 Q)"
  proof (rule persist_plan_ok[OF Cons.prems(1) ready now])
    show "sample_reference h None" by (simp add: sample_reference_def null_or_def)
    show "supported (pl_transition \<lparr>pl_existing = Some (al_id r), pl_transition = ?t\<rparr>) None"
      by (simp add: supported_def moved_to_def)
    fix h1 assume h1: "pair_change s k h h1" "pair_state h1 s k = Some ?b"
    show "tx_upto F (archive_rows now ((s, k) # seen) rs) h1 Q"
    proof (rule Cons.IH)
      show "alerts_ok h1" using h1(1) by (simp add: pair_change_def)
      show "distinct (map row_pair rs)" using Cons.prems(3) by simp
      show "set ((s, k) # seen) \<inter> row_pair ` set rs = {}"
        using Cons.prems(3,4) p by auto
      show "\<forall>r \<in> set rs. recovered_row now h1 r"
      proof
        fix q assume q: "q \<in> set rs"
        have "row_pair q \<noteq> (s, k)" using Cons.prems(3) q p by force
        then have "latest_row (fst (row_pair q)) (snd (row_pair q)) (h_alerts h1) =
            latest_row (fst (row_pair q)) (snd (row_pair q)) (h_alerts h)"
          using h1(1) by (intro latest_row_pair) (auto simp: pair_change_def prod_eq_iff)
        then show "recovered_row now h1 q" using Cons.prems(2) q by (auto simp: recovered_row_def)
      qed
      fix h2 assume "archived_pairs (row_pair ` set rs) h1 h2"
      moreover have "(s, k) \<notin> row_pair ` set rs" using Cons.prems(3) p by auto
      ultimately show "Q () h2"
        using archived_pairs_step[OF h1, where b = ?a] Cons.prems(5)[of h2] p r(1)
        by (simp add: pair_state_def)
    qed
  qed
  then show ?case
    unfolding archive_rows.simps
    by (intro tx_ok_bind read_alert_ok[OF Cons.prems(1) r_in])
      (use Cons.prems(4) p a in \<open>auto simp: Let_def row_alert_def intro!: tx_ok_then tx_ok_require
         tx_ok_bind evaluate_alert_ok[OF valid[folded a] t[folded a]]\<close>)
qed


text \<open>There are eleven scopes and kinds, so there are never more than eleven rows to archive.\<close>

definition alert_pairs :: "(AlertScope \<times> AlertKind) list" where
  "alert_pairs =
     (AS_SAMPLING, AK_SAMPLING_GAP) #
     concat (map (\<lambda>s. [(s, AK_DEGRADED), (s, AK_UNAVAILABLE)]) HEALTH_SCOPES)"

lemma row_pair_in: "alert_check r \<Longrightarrow> row_pair r \<in> set alert_pairs"
proof (erule alert_check_values)
  fix s k l
  assume "row_state r = \<lparr>aa_scope = s, aa_kind = k, aa_lifecycle = l, aa_generation = al_episode r,
      aa_occurrence_count = al_occurrence r, aa_cooldown_until = al_cooldown r,
      aa_recovered_at = al_recovered r\<rparr>" "s = AS_SAMPLING \<longleftrightarrow> k = AK_SAMPLING_GAP"
  then show ?thesis
    by (cases s; cases k) (simp_all add: row_pair_def alert_pairs_def HEALTH_SCOPES_def)
qed

lemma eligible_rows_eq:
  fixes now :: int
  assumes ok: "alerts_ok h"
  defines "rows \<equiv> eligible_recovered_rows now (MAX_RELEVANT_ALERTS + 1) (h_alerts h)"
  shows "set rows = {r \<in> set (h_alerts h). al_lifecycle r = ''recovered'' \<and> al_cooldown r \<le> now}"
    and "distinct (map row_pair rows)" and "length rows \<le> MAX_RELEVANT_ALERTS"
proof -
  define all where "all = sort_key al_cooldown (sort_key al_id
      (filter (\<lambda>r. al_lifecycle r = ''recovered'' \<and> al_cooldown r \<le> now) (h_alerts h)))"
  have set_all: "set all =
      {r \<in> set (h_alerts h). al_lifecycle r = ''recovered'' \<and> al_cooldown r \<le> now}"
    by (auto simp: all_def)
  have "distinct (h_alerts h)"
    using ok unfolding alerts_ok_def strict_sorted_iff distinct_map by blast
  then have "distinct all" by (simp add: all_def)
  moreover have "inj_on row_pair (set all)"
  proof (rule inj_onI)
    fix r q assume rq: "r \<in> set all" "q \<in> set all" "row_pair r = row_pair q"
    have "al_lifecycle r \<noteq> ''archived''" "al_lifecycle q \<noteq> ''archived''"
      "r \<in> set (h_alerts h)" "q \<in> set (h_alerts h)" using rq by (auto simp: set_all)
    then have "latest_row (fst (row_pair q)) (snd (row_pair q)) (h_alerts h) = Some r"
      "latest_row (fst (row_pair q)) (snd (row_pair q)) (h_alerts h) = Some q"
      using latest_row_pair_of[OF ok, of r, unfolded rq(3)] latest_row_pair_of[OF ok, of q] by blast+
    then show "r = q" by simp
  qed
  ultimately have d: "distinct (map row_pair all)" by (simp add: distinct_map)
  have "set (map row_pair all) \<subseteq> set alert_pairs"
    using row_pair_in alerts_okD(1)[OF ok] by (auto simp: set_all)
  then have "card (set (map row_pair all)) \<le> card (set alert_pairs)" by (intro card_mono) auto
  also have "\<dots> \<le> length alert_pairs" by (rule card_length)
  also have "\<dots> = MAX_RELEVANT_ALERTS"
    by (simp add: alert_pairs_def HEALTH_SCOPES_def MAX_RELEVANT_ALERTS_def)
  finally have "length all \<le> MAX_RELEVANT_ALERTS" using distinct_card[OF d] by simp
  moreover from this have "rows = all"
    by (simp add: rows_def eligible_recovered_rows_def all_def[symmetric])
  ultimately show "set rows = {r \<in> set (h_alerts h). al_lifecycle r = ''recovered'' \<and> al_cooldown r \<le> now}"
    and "distinct (map row_pair rows)" and "length rows \<le> MAX_RELEVANT_ALERTS"
    using set_all d by simp_all
qed

lemma archive_eligible_alerts_ok:
  assumes ok: "alerts_ok h" and now: "is_timestamp now"
    and Q: "\<And>h1. alerts_ok h1 \<Longrightarrow> same_samples h h1 \<Longrightarrow> settled h1 now \<Longrightarrow>
      (exhausted h1 \<Longrightarrow> exhausted h) \<Longrightarrow> Q () h1"
  shows "tx_upto F (archive_eligible_alerts now) h Q"
proof -
  define rows where "rows = eligible_recovered_rows now (MAX_RELEVANT_ALERTS + 1) (h_alerts h)"
  note rows = eligible_rows_eq[OF ok, of now, folded rows_def]
  have "tx_upto F (archive_rows now [] rows) h Q"
  proof (rule archive_rows_ok[OF ok now])
    show "\<forall>r \<in> set rows. recovered_row now h r"
      using latest_row_pair_of[OF ok] by (auto simp: rows(1) recovered_row_def)
    fix h1 assume h1: "archived_pairs (row_pair ` set rows) h h1"
    have "settled h1 now"
      unfolding settled_def
    proof (intro allI impI)
      fix s k a assume a: "pair_state h1 s k = Some a" "aa_lifecycle a = AL_RECOVERED"
      have "\<exists>b. pair_state h1 s k = Some b \<and> aa_lifecycle b = AL_ARCHIVED"
        if "(s, k) \<in> row_pair ` set rows"
        using h1 that unfolding archived_pairs_def by meson
      then have "(s, k) \<notin> row_pair ` set rows" using a by auto
      then have "pair_state h s k = Some a"
        using h1 a(1) latest_row_pair[of s k h1 h] by (simp add: archived_pairs_def pair_state_def)
      then obtain r where r: "latest_row s k (h_alerts h) = Some r" "a = row_state r"
        by (auto simp: pair_state_def)
      have r_in: "r \<in> set (h_alerts h)" using latest_row_in[OF r(1)] by simp
      have "al_lifecycle r = ''recovered''"
        using lifecycle_row[OF alerts_okD(1)[OF ok r_in]] a(2) r(2) by simp
      moreover have "r \<notin> set rows"
        using \<open>(s, k) \<notin> row_pair ` set rows\<close> latest_pair[OF ok r(1)] by force
      ultimately show "now < aa_cooldown_until a" using r_in r(2) by (auto simp: rows(1) row_state_def)
    qed
    then show "Q () h1" using h1 Q archived_exhausted[OF h1] by (simp add: archived_pairs_def)
  qed (use rows in simp_all)
  then show ?thesis
    unfolding archive_eligible_alerts_def
    by (intro tx_rules) (use rows(3) in \<open>simp_all add: rows_def[simplified, symmetric]\<close>)
qed

section \<open>The plans of an observation\<close>

lemma pair_row_state:
  assumes "alerts_ok h" "latest_row s k (h_alerts h) = Some r"
  shows "aa_scope (row_state r) = s" "aa_kind (row_state r) = k" "alert_valid (row_state r)"
    "r \<in> set (h_alerts h)" "alert_check r" "1 \<le> al_id r"
  using latest_pair[OF assms] latest_row_in[OF assms(2)] alerts_okD[OF assms(1)]
  by (auto simp: row_pair_def)

lemma all_archived:
  assumes "alerts_ok h" "latest_row s k (h_alerts h) = Some r" "al_lifecycle r = ''archived''"
  shows "\<forall>q \<in> set (filter (pair_row s k) (h_alerts h)). al_lifecycle q = ''archived''"
proof -
  obtain older where o: "filter (pair_row s k) (h_alerts h) = older @ [r]"
    "\<And>q. q \<in> set older \<Longrightarrow> al_lifecycle q = ''archived'' \<and> al_id q < al_id r"
    using pair_rows_split[OF assms(1,2)] by blast
  show ?thesis unfolding o(1) using o(2) assms(3) by auto
qed

lemma opening_plan:
  assumes "alerts_ok h" "is_timestamp now" "s = AS_SAMPLING \<longleftrightarrow> k = AK_SAMPLING_GAP"
    and "1 \<le> generation" "generation \<le> MAX_BOUNDED_COUNTER"
    and "latest_row s k (h_alerts h) = None \<or>
      (\<exists>r. latest_row s k (h_alerts h) = Some r \<and> al_lifecycle r = ''archived'')"
    and "at_outcome t = AT_APPLIED" "opens_alert t = Some (opened_alert s k now generation)"
      "at_event t = Some LE_OPENED"
  shows "plan_ready h now s k \<lparr>pl_existing = e, pl_transition = t\<rparr>
      (Some (opened_alert s k now generation))"
proof -
  have "\<forall>q \<in> set (filter (pair_row s k) (h_alerts h)). al_lifecycle q = ''archived''"
    using assms(6) all_archived[OF assms(1), of s k] latest_row_None[of s k "h_alerts h"]
    by (auto simp: filter_empty_conv)
  moreover have "alert_valid (opened_alert s k now generation)"
    using assms(2-5) by (intro opened_alert_valid) (simp_all add: column_defs)
  ultimately show ?thesis using assms(7-9) by (auto simp: plan_ready_def opening_ready_def)
qed

lemma idle_plan:
  "plan_ready h now s k \<lparr>pl_existing = e, pl_transition = alert_idempotent a\<rparr> (pair_state h s k)"
  by (simp add: plan_ready_def alert_idempotent_def unchanged_def)

lemma change_plan:
  "latest_row s k (h_alerts h) = Some r \<Longrightarrow> row_update now r e b \<Longrightarrow>
   plan_ready h now s k \<lparr>pl_existing = Some (al_id r), pl_transition = moved_to (row_state r) e b\<rparr>
     (Some b)"
  by (auto simp: plan_ready_def)

lemma plan_open_ok:
  assumes ok: "alerts_ok h" and st: "settled h now" and now: "is_timestamp now"
    and own: "s = AS_SAMPLING \<longleftrightarrow> k = AK_SAMPLING_GAP"
    and full: "exhausted h \<longrightarrow> F (Ingestion_Error IR_GENERATION_EXHAUSTED False)"
    and Q: "\<And>plan result. plan_ready h now s k plan result \<Longrightarrow> Q plan h"
  shows "tx_upto F (plan_open_alert s k now) h Q"
proof -
  let ?req = "alert_request AO_OPEN s k now"
  have req: "request_valid ?req" by (rule alert_request_valid[OF now own])
  have now0: "0 \<le> now" using now by (simp add: column_defs)
  define k1 where "k1 stored t =
      tx_then (require (at_outcome t \<noteq> AT_REJECTED) (Ingestion_Error IR_GENERATION_EXHAUSTED False)) (
      tx_then (require (at_outcome t \<in> {AT_APPLIED, AT_IDEMPOTENT}) malformed_state) (
      tx_return \<lparr>pl_existing = map_option sa_id stored, pl_transition = t\<rparr>))"
    for stored :: "StoredAlert option" and t
  have fits: "tx_upto F (k1 stored t) h Q"
    if "plan_ready h now s k \<lparr>pl_existing = map_option sa_id stored, pl_transition = t\<rparr> result"
      "at_outcome t \<in> {AT_APPLIED, AT_IDEMPOTENT}" for stored t result
    unfolding k1_def by (intro tx_rules) (use that Q in auto)
  have rejected: "tx_upto F (k1 stored t) h Q" if "at_outcome t = AT_REJECTED" "exhausted h" for stored t
    unfolding k1_def by (intro tx_rules) (use that full in simp_all)
  have "\<exists>t. evaluate_automatic_alert (pair_state h s k) ?req = Inr t \<and>
      tx_upto F (k1 (map_option row_alert (latest_row s k (h_alerts h))) t) h Q"
  proof (cases "latest_row s k (h_alerts h)")
    case None
    then have e: "evaluate_automatic_alert (pair_state h s k) ?req = Inr \<lparr>at_previous = None,
        at_state = Some (opened_alert s k now 1), at_created_alert = None,
        at_event = Some LE_OPENED, at_outcome = AT_APPLIED\<rparr>"
      using open_None_eq[OF req] by (simp add: evaluate_automatic_alert_def pair_state_def)
    show ?thesis unfolding e
      by (rule exI, rule conjI[OF refl], rule fits[OF opening_plan[OF ok now own, where generation = 1]])
        (use None in \<open>simp_all add: opens_alert_def bounds\<close>)
  next
    case (Some r)
    note row = pair_row_state[OF ok Some]
    let ?a = "row_state r"
    have e: "evaluate_automatic_alert (pair_state h s k) ?req = open_or_update (Some ?a) ?req"
      using row(1,2) Some by (simp add: evaluate_automatic_alert_def pair_state_def)
    show ?thesis
    proof (cases "al_lifecycle r = ''archived''")
      case False
      have "live (aa_lifecycle ?a) \<or> aa_lifecycle ?a = AL_RECOVERED"
        using lifecycle_row(1)[OF row(5)] False by (cases "aa_lifecycle ?a") auto
      then have "live (aa_lifecycle ?a) \<or> aa_lifecycle ?a = AL_RECOVERED \<and> now < aa_cooldown_until ?a"
        using st Some by (auto simp: settled_def pair_state_def)
      then have "open_or_update (Some ?a) ?req = occurrence_transition ?a now"
        using open_Some_eq[OF row(3) req] by auto
      then have e1: "evaluate_automatic_alert (pair_state h s k) ?req =
          Inr (if touched ?a now = ?a then alert_idempotent ?a
               else moved_to ?a LE_OCCURRENCE_UPDATED (touched ?a now))"
        unfolding e using occurrence_eq[OF row(3) now0] by simp
      have "row_update now r LE_OCCURRENCE_UPDATED (touched ?a now)"
        using False by (simp add: row_update_def)
      then have change: "tx_upto F (k1 (Some (row_alert r)) (moved_to ?a LE_OCCURRENCE_UPDATED (touched ?a now))) h Q"
        by (intro fits[of "Some (row_alert r)", simplified])
          (use change_plan[OF Some] in \<open>auto simp: row_alert_def moved_to_def\<close>)
      have idle: "tx_upto F (k1 (Some (row_alert r)) (alert_idempotent ?a)) h Q"
        by (rule fits[OF idle_plan]) (simp add: alert_idempotent_def unchanged_def)
      show ?thesis unfolding e1 using change idle Some by simp
    next
      case True
      have "aa_lifecycle ?a = AL_ARCHIVED" using lifecycle_row(1)[OF row(5)] True by simp
      then have e1: "evaluate_automatic_alert (pair_state h s k) ?req =
          (if aa_generation ?a = MAX_BOUNDED_COUNTER then Inr (alert_rejected (Some ?a))
           else Inr (reopened ?a (opened_alert s k now (aa_generation ?a + 1))))"
        unfolding e using open_Some_eq[OF row(3) req] by simp
      show ?thesis
      proof (cases "aa_generation ?a = MAX_BOUNDED_COUNTER")
        case True
        moreover from this have "exhausted h"
          using Some by (auto simp: exhausted_state pair_state_def)
        ultimately show ?thesis unfolding e1
          using rejected by (simp add: alert_rejected_def unchanged_def)
      next
        case False
        have g: "1 \<le> aa_generation ?a + 1" "aa_generation ?a + 1 \<le> MAX_BOUNDED_COUNTER"
          using False row(3) by (simp_all add: alert_valid_iff)
        show ?thesis unfolding e1 if_not_P[OF False]
          by (rule exI, rule conjI[OF refl], rule fits[OF opening_plan[OF ok now own g]])
            (use Some True in \<open>simp_all add: opens_alert_def reopened_def\<close>)
      qed
    qed
  qed
  then obtain t where t: "evaluate_automatic_alert (pair_state h s k) ?req = Inr t"
    "tx_upto F (k1 (map_option row_alert (latest_row s k (h_alerts h))) t) h Q" by blast
  have "map_option sa_state (map_option row_alert (latest_row s k (h_alerts h))) = pair_state h s k"
    by (simp add: pair_state_def option.map_comp comp_def row_alert_def)
  then show ?thesis
    unfolding plan_open_alert_def k1_def[symmetric]
    by (intro tx_ok_bind current_or_latest_ok[OF ok] evaluate_alert_ok[OF req]) (use t in simp_all)
qed

lemma find_degraded:
  assumes ok: "alerts_ok h"
  shows "find (\<lambda>a. aa_kind (sa_state a) = AK_DEGRADED) (map row_alert (active_health s (h_alerts h))) =
    (case active_latest s AK_DEGRADED (h_alerts h) of [] \<Rightarrow> None | r # _ \<Rightarrow> Some (row_alert r))"
proof -
  have kinds: "aa_kind (row_state r) = k" if "r \<in> set (active_latest s k (h_alerts h))" for r k
    using active_latest_in[OF that] pair_row_state(2)[OF ok] by blast
  show ?thesis
  proof (cases "active_latest s AK_DEGRADED (h_alerts h)")
    case Nil
    then have "aa_kind (sa_state a) \<noteq> AK_DEGRADED"
      if "a \<in> set (map row_alert (active_health s (h_alerts h)))" for a
      using that kinds[of _ AK_UNAVAILABLE] by (auto simp: active_health_def row_alert_def)
    then show ?thesis using Nil by (auto simp: find_None_iff)
  next
    case (Cons r rest)
    then show ?thesis using kinds[of r AK_DEGRADED]
      by (simp add: active_health_def row_alert_def)
  qed
qed

lemma plan_health_condition_ok:
  assumes ok: "alerts_ok h" and st: "settled h now" and now: "is_timestamp now"
    and own: "s \<noteq> AS_SAMPLING" "k \<noteq> AK_SAMPLING_GAP"
    and full: "exhausted h \<longrightarrow> F (Ingestion_Error IR_GENERATION_EXHAUSTED False)"
    and Q: "\<And>plan result. plan_ready h now s k plan result \<Longrightarrow> Q plan h"
  shows "tx_upto F (plan_health_condition s k now) h Q"
proof -
  have own': "s = AS_SAMPLING \<longleftrightarrow> k = AK_SAMPLING_GAP" using own by simp
  have open_ok: "tx_upto F (plan_open_alert s k now) h Q"
    by (rule plan_open_ok[OF ok st now own']) (rule full, rule Q)
  show ?thesis
  proof (cases "k = AK_UNAVAILABLE \<and> latest_row s k (h_alerts h) = None \<and>
      active_latest s AK_DEGRADED (h_alerts h) \<noteq> []")
    case False
    have "tx_upto F (active_health_alerts s) h (\<lambda>active h1. tx_upto F
       (case find (\<lambda>a. aa_kind (sa_state a) = AK_DEGRADED) active of
          None \<Rightarrow> plan_open_alert s k now
        | Some degraded \<Rightarrow> f degraded) h1 Q)"
      if "active_latest s AK_DEGRADED (h_alerts h) = []" for f
      by (rule active_health_alerts_ok[OF ok]) (use that open_ok in \<open>simp add: find_degraded[OF ok]\<close>)
    then show ?thesis
      unfolding plan_health_condition_def using False open_ok
      by (auto intro!: tx_ok_bind current_or_latest_ok[OF ok])
  next
    case True
    then obtain r rest where r: "active_latest s AK_DEGRADED (h_alerts h) = r # rest"
      by (cases "active_latest s AK_DEGRADED (h_alerts h)") auto
    then have lr: "latest_row s AK_DEGRADED (h_alerts h) = Some r" "active_row r"
      using active_latest_in[of r s AK_DEGRADED "h_alerts h"] by simp_all
    note row = pair_row_state[OF ok lr(1)]
    let ?a = "row_state r"
    let ?req = "alert_request AO_ESCALATE s AK_DEGRADED now"
    have req: "request_valid ?req" by (rule alert_request_valid[OF now]) (simp add: own)
    have live: "live (aa_lifecycle ?a)" using lifecycle_row(3)[OF row(5)] lr(2) by simp
    have e: "evaluate_automatic_alert (Some ?a) ?req =
        Inr (if aa_generation ?a \<noteq> MAX_BOUNDED_COUNTER
             then reopened ?a (opened_alert s AK_UNAVAILABLE now (aa_generation ?a + 1))
             else alert_rejected (Some ?a))"
      using escalate_eq[OF row(3) req] row(1,2) live by (simp add: evaluate_automatic_alert_def)
    have g: "1 \<le> aa_generation ?a + 1" "aa_generation ?a \<noteq> MAX_BOUNDED_COUNTER \<Longrightarrow>
        aa_generation ?a + 1 \<le> MAX_BOUNDED_COUNTER"
      using row(3) by (simp_all add: alert_valid_iff)
    have plan: "plan_ready h now s k \<lparr>pl_existing = Some (al_id r), pl_transition =
        reopened ?a (opened_alert s AK_UNAVAILABLE now (aa_generation ?a + 1))\<rparr>
        (Some (opened_alert s k now (aa_generation ?a + 1)))"
      if "aa_generation ?a \<noteq> MAX_BOUNDED_COUNTER"
      by (rule opening_plan[OF ok now own' g(1) g(2)[OF that]])
        (use True in \<open>auto simp: opens_alert_def reopened_def\<close>)
    have refused: "F (Ingestion_Error IR_GENERATION_EXHAUSTED False)"
      if "aa_generation ?a = MAX_BOUNDED_COUNTER"
      using full lr(1) that by (auto simp: exhausted_state pair_state_def)
    show ?thesis
      unfolding plan_health_condition_def
      using True r req plan refused
      by (auto intro!: tx_rules current_or_latest_ok[OF ok] active_health_alerts_ok[OF ok]
          evaluate_alert_ok[OF req e] Q simp: find_degraded[OF ok] row_alert_def reopened_def
          alert_rejected_def unchanged_def split: if_splits)
  qed
qed

lemma recovery_plan_ok:
  assumes ok: "alerts_ok h" and now: "is_timestamp now"
    and r: "r \<in> set (active_latest s k (h_alerts h))"
    and Q: "\<And>plan result. plan_ready h now s k plan result \<Longrightarrow> Q plan h"
  shows "tx_upto F (recovery_plan now (row_alert r)) h Q"
proof -
  have lr: "latest_row s k (h_alerts h) = Some r" "active_row r"
    using active_latest_in[OF r] by simp_all
  note row = pair_row_state[OF ok lr(1)]
  let ?a = "row_state r"
  let ?req = "alert_request AO_RECOVER s k now"
  have req: "request_valid ?req"
    using alert_request_valid[OF now] own_scope[OF row(3)] row(1,2) by simp
  have live: "live (aa_lifecycle ?a)" using lifecycle_row(3)[OF row(5)] lr(2) by simp
  have n: "0 \<le> now" "now \<le> MAX_TIMESTAMP_US" using now by (simp_all add: column_defs)
  have e: "evaluate_automatic_alert (Some ?a) ?req =
      Inr (moved_to ?a LE_RECOVERED (recovered_alert ?a now))"
    using recover_eq[OF row(3) n] row(1,2) live by (auto simp: evaluate_automatic_alert_def)
  have "row_update now r LE_RECOVERED (recovered_alert ?a now)"
    using lr(2) by (simp add: row_update_def)
  note plan = change_plan[OF lr(1) this]
  show ?thesis
    unfolding recovery_plan_def
    by (intro tx_rules) (use row(1,2) plan Q in
      \<open>auto intro!: tx_rules evaluate_alert_ok[OF req[folded row(1,2)] e[folded row(1,2)]]
         simp: row_alert_def moved_to_def\<close>)
qed

text \<open>Plans with the scopes and kinds they are for, no two the same.\<close>

definition fits :: "History \<Rightarrow> int \<Rightarrow> AlertScope \<times> AlertKind \<Rightarrow> AlertPlan \<Rightarrow> bool" where
  "fits h now p plan \<longleftrightarrow> (\<exists>result. plan_ready h now (fst p) (snd p) plan result)"

definition plans_fit :: "History \<Rightarrow> int \<Rightarrow> AlertScope set \<Rightarrow> AlertPlan list \<Rightarrow> bool" where
  "plans_fit h now scopes plans \<longleftrightarrow>
     (\<exists>ps. distinct ps \<and> fst ` set ps \<subseteq> scopes \<and> list_all2 (fits h now) ps plans)"

lemma plans_fit_Nil [simp]: "plans_fit h now scopes []"
  by (auto simp: plans_fit_def)

lemma plans_fit_one: "plan_ready h now s k plan result \<Longrightarrow> plans_fit h now {s} [plan]"
  unfolding plans_fit_def fits_def by (intro exI[of _ "[(s, k)]"]) auto

lemma plans_fit_append:
  assumes "plans_fit h now scopes plans" "plans_fit h now scopes' plans'" "scopes \<inter> scopes' = {}"
  shows "plans_fit h now (scopes \<union> scopes') (plans @ plans')"
proof -
  obtain ps where ps: "distinct ps" "fst ` set ps \<subseteq> scopes" "list_all2 (fits h now) ps plans"
    using assms(1) by (auto simp: plans_fit_def)
  obtain ps' where ps': "distinct ps'" "fst ` set ps' \<subseteq> scopes'" "list_all2 (fits h now) ps' plans'"
    using assms(2) by (auto simp: plans_fit_def)
  have "set ps \<inter> set ps' = {}" using ps(2) ps'(2) assms(3) by force
  then show ?thesis
    unfolding plans_fit_def using ps ps'
    by (intro exI[of _ "ps @ ps'"]) (auto intro: list_all2_appendI)
qed

lemma plans_fit_concat:
  assumes "list_all2 (\<lambda>s plans. plans_fit h now {s} plans) ss planss" "distinct ss"
  shows "plans_fit h now (set ss) (concat planss)"
  using assms
proof (induction rule: list_all2_induct)
  case (Cons s ss plans planss)
  then show ?case using plans_fit_append[of h now "{s}" plans "set ss" "concat planss"] by simp
qed simp

lemma plan_health_recovery_ok:
  assumes ok: "alerts_ok h" and now: "is_timestamp now"
    and Q: "\<And>plans. plans_fit h now {s} plans \<Longrightarrow> Q plans h"
  shows "tx_upto F (plan_health_recovery s now) h Q"
proof -
  let ?rows = "\<lambda>k. active_latest s k (h_alerts h)"
  define ks where "ks = concat (map (\<lambda>k. map (\<lambda>_. k) (?rows k)) [AK_DEGRADED, AK_UNAVAILABLE])"
  have short: "length (?rows AK_DEGRADED) \<le> 1" "length (?rows AK_UNAVAILABLE) \<le> 1"
    by (rule length_active_latest)+
  then have active: "list_all2 (\<lambda>k r. r \<in> set (?rows k)) ks (active_health s (h_alerts h))"
    by (cases "?rows AK_DEGRADED"; cases "?rows AK_UNAVAILABLE") (simp_all add: ks_def active_health_def)
  from short have "distinct ks"
    by (cases "?rows AK_DEGRADED"; cases "?rows AK_UNAVAILABLE") (simp_all add: ks_def)
  define P where "P a plan \<longleftrightarrow> (\<forall>k r. a = row_alert r \<longrightarrow> r \<in> set (?rows k) \<longrightarrow> fits h now (s, k) plan)"
    for a plan
  have "tx_upto F (tx_map (recovery_plan now) (map row_alert (active_health s (h_alerts h)))) h Q"
  proof (rule tx_ok_map[where P = P])
    fix a assume "a \<in> set (map row_alert (active_health s (h_alerts h)))"
    then obtain r where r: "a = row_alert r" "r \<in> set (active_health s (h_alerts h))" by auto
    then obtain k where k: "r \<in> set (?rows k)" by (auto simp: active_health_def)
    show "tx_upto F (recovery_plan now a) h (\<lambda>plan h1. h1 = h \<and> P a plan)"
      unfolding r(1)
    proof (rule recovery_plan_ok[OF ok now k], rule conjI[OF refl])
      fix plan result assume plan: "plan_ready h now s k plan result"
      show "P (row_alert r) plan"
        unfolding P_def
      proof (intro allI impI)
        fix k' r' assume r': "row_alert r = row_alert r'" "r' \<in> set (?rows k')"
        have "aa_kind (row_state r) = k" "aa_kind (row_state r') = k'"
          using pair_row_state(2)[OF ok] active_latest_in[OF k] active_latest_in[OF r'(2)] by auto
        then have "k' = k" using r'(1) by (simp add: row_alert_def)
        then show "fits h now (s, k') plan" using plan by (auto simp: fits_def)
      qed
    qed
  next
    fix plans assume "list_all2 P (map row_alert (active_health s (h_alerts h))) plans"
    then have P: "list_all2 (\<lambda>r plan. P (row_alert r) plan) (active_health s (h_alerts h)) plans"
      by (simp add: list_all2_map1)
    have "list_all2 (\<lambda>k plan. fits h now (s, k) plan) ks plans"
      by (rule list_all2_trans[OF _ active P]) (auto simp: P_def)
    then have "plans_fit h now {s} plans"
      unfolding plans_fit_def using \<open>distinct ks\<close>
      by (intro exI[of _ "map (Pair s) ks"]) (auto simp: list_all2_map1 distinct_map inj_on_def)
    then show "Q plans h" by (rule Q)
  qed
  then show ?thesis
    unfolding plan_health_recovery_def by (intro tx_ok_bind active_health_alerts_ok[OF ok])
qed

lemma plan_pair_recovery_ok:
  assumes ok: "alerts_ok h" and now: "is_timestamp now"
    and Q: "\<And>plans. plans_fit h now {s} plans \<Longrightarrow> Q plans h"
  shows "tx_upto F (plan_pair_recovery s k now) h Q"
proof -
  have "length (active_latest s k (h_alerts h)) \<le> 1" by (rule length_active_latest)
  moreover have "tx_upto F (read_alert r) h (\<lambda>stored h1. tx_upto F (tx_bind (recovery_plan now stored)
      (\<lambda>plan. tx_return [plan])) h1 Q)" if "r \<in> set (active_latest s k (h_alerts h))" for r
  proof (rule read_alert_ok[OF ok], goal_cases)
    case 1
    then show ?case using active_latest_in[OF that] by simp
  next
    case 2
    show ?case
      by (intro tx_ok_bind recovery_plan_ok[OF ok now that] tx_ok_return Q) (rule plans_fit_one)
  qed
  ultimately show ?thesis
    unfolding plan_pair_recovery_def
    by (cases "active_latest s k (h_alerts h)")
      (auto intro!: tx_rules Q simp: active_pair_eq[OF ok])
qed

text \<open>The transition of a scope as the evaluation makes it.\<close>

definition scope_transition_ok :: "AlertScope \<times> HealthEvaluationTransition \<Rightarrow> bool" where
  "scope_transition_ok e \<longleftrightarrow>
     fst e \<noteq> AS_SAMPLING \<and>
     (ht_event (snd e) = HE_CONDITION_CONFIRMED \<longrightarrow>
        condition_kind (hs_current_status (ht_state (snd e))) \<noteq> None)"

lemma condition_kind_health: "condition_kind c = Some k \<Longrightarrow> k \<noteq> AK_SAMPLING_GAP"
  by (cases c rule: condition_kind.cases) auto

lemma plan_scope_ok:
  assumes ok: "alerts_ok h" and st: "settled h now" and now: "is_timestamp now"
    and e: "scope_transition_ok e"
    and full: "exhausted h \<longrightarrow> F (Ingestion_Error IR_GENERATION_EXHAUSTED False)"
    and Q: "\<And>plans. plans_fit h now {fst e} plans \<Longrightarrow> Q plans h"
  shows "tx_upto F (plan_scope now e) h Q"
proof -
  obtain s t where et: "e = (s, t)" by (cases e)
  show ?thesis
  proof (cases "ht_event t")
    case HE_CONDITION_CONFIRMED
    then obtain k where k: "condition_kind (hs_current_status (ht_state t)) = Some k"
      using e by (auto simp: scope_transition_ok_def et)
    have own: "s \<noteq> AS_SAMPLING" "k \<noteq> AK_SAMPLING_GAP"
      using e condition_kind_health[OF k] by (auto simp: scope_transition_ok_def et)
    have "tx_upto F (plan_health_condition s k now) h (\<lambda>plan h1. tx_upto F (tx_return [plan]) h1 Q)"
      by (rule plan_health_condition_ok[where F = F, OF ok st now own full])
        (intro tx_ok_return Q, simp add: et plans_fit_one)
    then show ?thesis
      unfolding plan_scope_def et by (simp add: HE_CONDITION_CONFIRMED k tx_ok_bind)
  next
    case HE_RECOVERY_CONFIRMED
    then show ?thesis unfolding plan_scope_def et
      using plan_health_recovery_ok[OF ok now, of s Q] Q by (simp add: et)
  next
    case HE_NONE
    then show ?thesis unfolding plan_scope_def et using Q by (simp add: tx_ok_return)
  qed
qed

lemma plan_automatic_alerts_ok:
  assumes ok: "alerts_ok h" and st: "settled h now" and now: "is_timestamp now"
    and health: "\<forall>e \<in> set health. scope_transition_ok e" "distinct (map fst health)"
    and full: "exhausted h \<longrightarrow> F (Ingestion_Error IR_GENERATION_EXHAUSTED False)"
    and Q: "\<And>plans. plans_fit h now UNIV plans \<Longrightarrow> Q plans h"
  shows "tx_upto F (plan_automatic_alerts health gap now has_miss) h Q"
proof -
  define more where "more =
      (if gap_condition gap has_miss
       then tx_bind (plan_open_alert AS_SAMPLING AK_SAMPLING_GAP now) (\<lambda>plan. tx_return [plan])
       else if gt_event gap = GE_RECOVERED
       then plan_pair_recovery AS_SAMPLING AK_SAMPLING_GAP now
       else tx_return [])"
  have more: "tx_upto F more h R" if "\<And>plans. plans_fit h now {AS_SAMPLING} plans \<Longrightarrow> R plans h" for R
  proof -
    have "tx_upto F (plan_open_alert AS_SAMPLING AK_SAMPLING_GAP now) h
        (\<lambda>plan h1. tx_upto F (tx_return [plan]) h1 R)"
      by (rule plan_open_ok[where F = F, OF ok st now _ full]) (auto intro!: tx_ok_return that plans_fit_one)
    then show ?thesis
      unfolding more_def
      using plan_pair_recovery_ok[OF ok now, where s = AS_SAMPLING and k = AK_SAMPLING_GAP and Q = R and F = F] that
      by (simp add: tx_ok_bind tx_ok_return)
  qed
  show ?thesis
    unfolding plan_automatic_alerts_def more_def[symmetric]
  proof (rule tx_ok_bind, rule tx_ok_map[where P = "\<lambda>e plans. plans_fit h now {fst e} plans"])
    fix e assume "e \<in> set health"
    then show "tx_upto F (plan_scope now e) h (\<lambda>plans h1. h1 = h \<and> plans_fit h now {fst e} plans)"
      using health by (intro plan_scope_ok[where F = F, OF ok st now _ full]) auto
  next
    fix planss assume "list_all2 (\<lambda>e plans. plans_fit h now {fst e} plans) health planss"
    then have fit: "plans_fit h now (set (map fst health)) (concat planss)"
      by (intro plans_fit_concat health) (simp add: list_all2_map1)
    have "set (map fst health) \<inter> {AS_SAMPLING} = {}"
      using health(1) by (auto simp: scope_transition_ok_def)
    then have "plans_fit h now UNIV (concat planss @ plans)" if "plans_fit h now {AS_SAMPLING} plans" for plans
      using plans_fit_append[OF fit that] by (auto simp: plans_fit_def)
    then show "tx_upto F (tx_bind more (\<lambda>more. tx_return (concat planss @ more))) h Q"
      by (intro tx_ok_bind more tx_ok_return Q)
  qed
qed

section \<open>Carrying the plans out\<close>

lemma persist_plans_ok:
  assumes "alerts_ok h" "distinct ps" "list_all2 (fits h now) ps plans" "is_timestamp now"
    and "sample_reference h sample" "\<forall>plan \<in> set plans. supported (pl_transition plan) sample"
    and "\<And>h1. alerts_ok h1 \<Longrightarrow> same_samples h h1 \<Longrightarrow> Q () h1"
  shows "tx_upto F (tx_each (\<lambda>plan. persist_alert_plan plan now sample) plans) h Q"
  using assms
proof (induction plans arbitrary: ps h Q)
  case Nil
  then show ?case by (simp add: tx_ok_return)
next
  case (Cons plan plans)
  obtain s k ps' where ps: "ps = (s, k) # ps'" "fits h now (s, k) plan" "list_all2 (fits h now) ps' plans"
    using Cons.prems(3) by (auto simp: list_all2_Cons2)
  then obtain result where plan: "plan_ready h now s k plan result" by (auto simp: fits_def)
  show ?case
    unfolding tx_each.simps
  proof (rule tx_ok_then, rule persist_plan_ok[OF Cons.prems(1) plan Cons.prems(4,5)])
    show "supported (pl_transition plan) sample" using Cons.prems(6) by simp
    fix h1 assume h1: "pair_change s k h h1"
    then have same: "same_samples h h1" by (simp add: pair_change_def)
    show "tx_upto F (tx_each (\<lambda>plan. persist_alert_plan plan now sample) plans) h1 Q"
    proof (rule Cons.IH)
      show "alerts_ok h1" using h1 by (simp add: pair_change_def)
      show "distinct ps'" using Cons.prems(2) ps(1) by simp
      have "fits h1 now p q = fits h now p q" if "p \<in> set ps'" for p q
      proof -
        have "p \<noteq> (s, k)" using Cons.prems(2) ps(1) that by auto
        then have "filter (pair_row (fst p) (snd p)) (h_alerts h1) =
            filter (pair_row (fst p) (snd p)) (h_alerts h)"
          using h1 by (auto simp: pair_change_def prod_eq_iff)
        note plan_ready_cong[OF this]
        then show ?thesis unfolding fits_def by blast
      qed
      then show "list_all2 (fits h1 now) ps' plans"
        using ps(3) by (auto simp: list_all2_conv_all_nth)
      show "sample_reference h1 sample"
        using Cons.prems(5) same sample_reference_cong[of h1 h] by (simp add: same_samples_def)
      show "Q () h2" if "alerts_ok h2" "same_samples h1 h2" for h2
        using Cons.prems(7) that same_samples_trans[OF same] by blast
    qed (use Cons.prems in simp_all)
  qed
qed

text \<open>The alerts stay in order when samples are added.\<close>

lemma alerts_ok_more:
  assumes "alerts_ok h" "h_alerts h1 = h_alerts h"
    and "set (map sm_id (h_samples h)) \<subseteq> set (map sm_id (h_samples h1))"
  shows "alerts_ok h1"
proof -
  have "alert_row_ok h1 r" if "alert_row_ok h r" for r
    using that assms(3) by (auto simp: alert_row_ok_def sample_reference_def null_or_def split: option.splits)
  then show ?thesis using assms(1,2) by (simp add: alerts_ok_def)
qed

lemma plans_fit_same:
  assumes "h_alerts h1 = h_alerts h" "plans_fit h now scopes plans"
  shows "plans_fit h1 now scopes plans"
proof -
  have "plan_ready h1 now s k plan result = plan_ready h now s k plan result" for s k plan result
    by (rule plan_ready_cong) (simp add: assms(1))
  then have "fits h1 now = fits h now" by (simp add: fits_def fun_eq_iff)
  then show ?thesis using assms(2) by (simp add: plans_fit_def)
qed

end
