(* ===== verification/Ingestion_Samples.thy ===== *)
theory Ingestion_Samples
  imports Ingestion_Logic
begin

text \<open>
  The stored samples: each can be read back as the valid projection it was written from, with its
  components, which is what the decision on the next observation compares with.
\<close>

section \<open>Components read back\<close>

lemma like_prefix_refl: "like_prefix p (p @ s)"
  by (induction p) simp_all

lemma starts_like: "starts_with p s \<Longrightarrow> like_prefix p s"
  using like_prefix_refl[of p "drop (length p) s"] append_take_drop_id[of "length p" s]
  by (simp add: starts_with_def)

lemma reason_list_cases:
  assumes "1 \<le> length rs" "length rs \<le> 3"
  obtains a where "rs = [a]" | a b where "rs = [a, b]" | a b c where "rs = [a, b, c]"
proof -
  have "length rs = 1 \<or> length rs = 2 \<or> length rs = 3" using assms by auto
  then show thesis using that by (auto simp: length_Suc_conv numeral_eq_Suc)
qed

lemma component_row_reasons:
  assumes "component_projection_error c = None"
  shows "those (map reason_of (cs_reason_1 (new_component_row i c) #
      List.map_filter id [cs_reason_2 (new_component_row i c), cs_reason_3 (new_component_row i c)])) =
    Some (cp_reasons c)"
proof -
  have "1 \<le> length (cp_reasons c)" "length (cp_reasons c) \<le> 3"
    using assms by (simp_all add: component_projection_error_def split: if_splits)
  then show ?thesis
    by (cases rule: reason_list_cases)
      (simp_all add: new_component_row_def map_filter_simps)
qed

lemma read_component_row_new:
  assumes "component_projection_error c = None"
  shows "read_component_row (new_component_row i c) = Some c"
proof -
  have "read_component_row (new_component_row i c) =
      (let c' = \<lparr>cp_component = cp_component c, cp_status = cp_status c, cp_reasons = cp_reasons c,
                 cp_checked_at = cp_checked_at c, cp_latency_ms = cp_latency_ms c,
                 cp_last_successful_at = cp_last_successful_at c\<rparr>
       in if component_projection_error c' = None then Some c' else None)"
    unfolding read_component_row_def component_row_reasons[OF assms]
    by (simp add: new_component_row_def)
  then show ?thesis using assms by (cases c) (simp add: Let_def)
qed

lemma read_components_new:
  assumes "\<forall>c \<in> set cs. component_projection_error c = None"
    and "distinct (map cp_component (known @ cs))"
  shows "read_components known (map (new_component_row i) cs) = Some (known @ cs)"
  using assms
proof (induction cs arbitrary: known)
  case (Cons c cs)
  have "cp_component c \<notin> set (map cp_component known)" using Cons.prems(2) by auto
  then show ?case using Cons by (simp add: read_component_row_new)
qed simp

lemma component_named_eq:
  assumes "distinct (map cp_component cs)" "c \<in> set cs"
  shows "component_named cs (cp_component c) = Some c"
  using assms
proof (induction cs)
  case (Cons d cs)
  then show ?case by (auto simp: component_named_def)
qed simp

lemma those_map_Some: "those (map Some xs) = Some xs"
  by (induction xs) simp_all

lemma components_named:
  assumes "map cp_component cs = HISTORY_COMPONENT_ORDER"
  shows "those (map (component_named cs) HISTORY_COMPONENT_ORDER) = Some cs"
proof -
  have "distinct (map cp_component cs)" unfolding assms by (simp add: HISTORY_COMPONENT_ORDER_def)
  then have "map (component_named cs) (map cp_component cs) = map Some cs"
    by (simp add: component_named_eq)
  then show ?thesis unfolding assms by (simp add: those_map_Some)
qed

section \<open>Samples read back\<close>

lemma validated:
  assumes "validate_health_projection sha p = None"
  shows "health_projection_error p = None" "\<forall>c \<in> set (hp_components p). component_projection_error c = None"
    "map cp_component (hp_components p) = HISTORY_COMPONENT_ORDER" "hp_schema_version p = 1"
  using assms
  by (auto simp: validate_health_projection_def list_ex_iff health_projection_error_def split: if_splits)

lemma validated_columns:
  assumes "validate_health_projection sha p = None"
  shows "is_sequence (hp_observation_sequence p)" "is_timestamp (hp_observed_at p)"
    "is_timestamp (hp_recorded_at p)" "between 0 MAX_SERVICE_UPTIME_MS (hp_service_uptime_ms p)"
    "between 0 MAX_BOUNDED_COUNTER (hp_missed_intervals p)" "is_digest (hp_digest p)"
  using validated(1)[OF assms]
  by (auto simp: health_projection_error_def bounded_integer_def column_defs split: if_splits)

lemma parse_baseline_new:
  assumes v: "validate_health_projection sha p = None"
  shows "parse_baseline sha (new_sample_row p kind i) (map (new_component_row i) (hp_components p)) =
    Some (hp_overall_status p, hp_components p)"
proof -
  note p = validated[OF v]
  have len: "length (hp_components p) = length HISTORY_COMPONENT_ORDER"
    using arg_cong[OF p(3), of length] by simp
  have "read_components [] (map (new_component_row i) (hp_components p)) = Some (hp_components p)"
    using read_components_new[of "hp_components p" "[]" i] p(2,3)
    by (simp add: HISTORY_COMPONENT_ORDER_def)
  moreover have "\<lparr>hp_schema_version = 1, hp_observation_sequence = hp_observation_sequence p,
      hp_observed_at = hp_observed_at p, hp_recorded_at = hp_recorded_at p,
      hp_overall_status = hp_overall_status p, hp_service_uptime_ms = hp_service_uptime_ms p,
      hp_sample_kind = hp_sample_kind p, hp_missed_intervals = hp_missed_intervals p,
      hp_components = hp_components p, hp_digest = hp_digest p\<rparr> = p"
    using p(4) by (cases p) simp
  ultimately show ?thesis
    using p(1) v components_named[OF p(3)] len
    by (simp add: parse_baseline_def new_sample_row_def)
qed

definition sample_components :: "History \<Rightarrow> int \<Rightarrow> component_row list" where
  "sample_components h i = filter (\<lambda>c. cs_sample_id c = i) (h_components h)"

definition stored_ok :: "(bytes \<Rightarrow> bytes) \<Rightarrow> History \<Rightarrow> sample_row \<Rightarrow> bool" where
  "stored_ok sha h r \<longleftrightarrow>
     sample_check r \<and> parse_baseline sha r (sample_components h (sm_id r)) \<noteq> None"

definition samples_ok :: "(bytes \<Rightarrow> bytes) \<Rightarrow> int option \<Rightarrow> History \<Rightarrow> bool" where
  "samples_ok sha newest h \<longleftrightarrow>
     sorted_wrt (<) (map sm_id (h_samples h)) \<and> distinct (map sm_sequence (h_samples h)) \<and>
     (\<forall>r \<in> set (h_samples h). 1 \<le> sm_id r \<and> stored_ok sha h r \<and>
        (\<exists>q. newest = Some q \<and> sm_sequence r \<le> q)) \<and>
     (\<forall>c \<in> set (h_components h). cs_sample_id c \<in> set (map sm_id (h_samples h)))"

lemma parse_baseline_length:
  "parse_baseline sha r rows \<noteq> None \<Longrightarrow> length rows = length HISTORY_COMPONENT_ORDER"
  by (auto simp: parse_baseline_def split: option.splits if_splits)

lemma read_baseline_ok:
  assumes ok: "samples_ok sha newest h" and i: "i \<in> set (map sm_id (h_samples h))"
    and Q: "\<And>b. Q b h"
  shows "tx_upto F (read_baseline_sample sha i newest) h Q"
proof -
  obtain r where r: "find (\<lambda>r. sm_id r = i) (h_samples h) = Some r"
    using i by (cases "find (\<lambda>r. sm_id r = i) (h_samples h)") (auto simp: find_None_iff)
  then have r_in: "r \<in> set (h_samples h)" "sm_id r = i" by (auto simp: find_Some_iff)
  obtain q where q: "newest = Some q" "sm_sequence r \<le> q" and stored: "stored_ok sha h r"
    using ok r_in by (auto simp: samples_ok_def)
  then obtain b where b: "parse_baseline sha r (sample_components h i) = Some b"
    using r_in by (auto simp: stored_ok_def)
  have five: "take 5 (sample_components h i) = sample_components h i"
    using parse_baseline_length[of sha r "sample_components h i"] b
    by (simp add: HISTORY_COMPONENT_ORDER_def)
  have "sample_row_valid newest r \<and> sample_kind_of (sm_accepted_kind r) \<noteq> None \<and>
      status_of (sm_status r) \<noteq> None"
    using stored q by (simp add: stored_ok_def sample_check_def sample_row_valid_def is_sample_kind_def is_status_def)
  then show ?thesis
    unfolding read_baseline_sample_def
    by (intro tx_ok_bind tx_ok_select)
      (simp add: r, intro tx_ok_then tx_ok_require tx_ok_bind tx_ok_select tx_ok_lift[where x = b],
       simp_all add: Q or_malformed_def five b sample_components_def[symmetric])
qed

section \<open>Storing a sample\<close>

lemma new_sample_check:
  "validate_health_projection sha p = None \<Longrightarrow> sample_check (new_sample_row p kind i)"
  using validated_columns[of sha p]
  by (simp add: sample_check_def new_sample_row_def is_status_def is_sample_kind_def)

lemma component_reasons_ok:
  assumes "component_projection_error c = None"
  shows "1 \<le> length (cp_reasons c)" "length (cp_reasons c) \<le> maximum_reasons (cp_component c)"
    "distinct (cp_reasons c)"
    "\<forall>r \<in> set (cp_reasons c). like_prefix (component_value (cp_component c) @ ''.'') (reason_value r)"
  using assms
  by (auto simp: component_projection_error_def reason_in_def list_all_iff starts_like split: if_splits)

lemma reason_value_eq: "reason_value r = reason_value r' \<longleftrightarrow> r = r'"
  by (metis option.inject reason_of_value)

lemma new_component_check:
  assumes e: "component_projection_error c = None"
  shows "component_check (new_component_row i c)"
proof -
  note rs = component_reasons_ok[OF e]
  have cols: "is_timestamp (cp_checked_at c)" "between 0 MAX_COMPONENT_LATENCY_MS (cp_latency_ms c)"
    "null_or is_timestamp (cp_last_successful_at c)"
    using e by (auto simp: component_projection_error_def bounded_integer_def column_defs
        split: if_splits option.splits)
  have comp: "is_component (component_value (cp_component c))" by (simp add: is_component_def)
  have max: "length (cp_reasons c) > 1 \<Longrightarrow> cp_component c \<noteq> CN_RASPBERRY_PI"
    "length (cp_reasons c) > 2 \<Longrightarrow> cp_component c = CN_HYPERHDR"
    using rs(2) by (cases "cp_component c"; simp add: maximum_reasons_def)+
  have three: "length (cp_reasons c) \<le> 3" using rs(2) maximum_reasons_le[of "cp_component c"] by simp
  show ?thesis
    using rs(1) three
  proof (cases rule: reason_list_cases)
    case (1 a)
    then show ?thesis using rs(4) cols comp
      by (cases "cp_component c")
        (simp_all add: component_check_def new_component_row_def is_status_def
          is_reason_def null_or_def)
  next
    case (2 a b)
    then show ?thesis using rs(3,4) cols comp max(1)
      by (cases "cp_component c")
        (simp_all add: component_check_def new_component_row_def is_status_def
          is_reason_def null_or_def reason_value_eq)
  next
    case (3 a b d)
    then show ?thesis using rs(3,4) cols comp max(2)
      by (auto simp: component_check_def new_component_row_def is_status_def
          is_reason_def null_or_def reason_value_eq)
  qed
qed

text \<open>Between the insertion of a sample and the last of its components.\<close>

definition storing :: "(bytes \<Rightarrow> bytes) \<Rightarrow> int option \<Rightarrow> HealthProjection \<Rightarrow> SampleKind \<Rightarrow> History \<Rightarrow> int
    \<Rightarrow> ComponentProjection list \<Rightarrow> History \<Rightarrow> bool" where
  "storing sha newest p kind h i before h1 \<longleftrightarrow>
     i = next_rowid (map sm_id (h_samples h)) \<and>
     h1 = h\<lparr>h_samples := h_samples h @ [new_sample_row p kind i],
            h_components := h_components h @ map (new_component_row i) before\<rparr>"

lemma insert_sample_ok:
  assumes ok: "samples_ok sha newest h" and v: "validate_health_projection sha p = None"
    and new: "\<forall>q. newest = Some q \<longrightarrow> q < hp_observation_sequence p"
    and Q: "\<And>i h1. storing sha newest p kind h i [] h1 \<Longrightarrow> Q i h1"
  shows "tx_upto F (insert_health_sample p kind) h Q"
proof -
  let ?i = "next_rowid (map sm_id (h_samples h))"
  have i: "1 \<le> ?i" using ok by (intro next_rowid_pos) (auto simp: samples_ok_def)
  have "hp_observation_sequence p \<notin> sm_sequence ` set (h_samples h)"
    using ok new by (force simp: samples_ok_def)
  then have fresh: "sm_sequence (new_sample_row p kind ?i) \<notin> set (map sm_sequence (h_samples h))"
    by (simp add: new_sample_row_def)
  show ?thesis
    unfolding insert_health_sample_def
    by (intro tx_ok_bind tx_ok_insert tx_ok_then tx_ok_require tx_ok_return)
      (use fresh i new_sample_check[OF v] Q in \<open>simp_all add: storing_def\<close>)
qed

lemma insert_components_ok:
  assumes ok: "samples_ok sha newest h" and v: "validate_health_projection sha p = None"
    and s: "storing sha newest p kind h i [] h1"
    and Q: "\<And>h2. storing sha newest p kind h i (hp_components p) h2 \<Longrightarrow> Q () h2"
  shows "tx_upto F (insert_component_samples i (hp_components p)) h1 Q"
  unfolding insert_component_samples_def
proof (rule tx_ok_each[where I = "\<lambda>before. storing sha newest p kind h i before"])
  show "storing sha newest p kind h i [] h1" by (rule s)
  fix before c after h2
  assume cs: "hp_components p = before @ c # after" and h2: "storing sha newest p kind h i before h2"
  have e: "component_projection_error c = None" using validated(2)[OF v] by (simp add: cs)
  have "cp_component c \<notin> set (map cp_component before)"
  proof -
    have "distinct (map cp_component (hp_components p))"
      unfolding validated(3)[OF v] by (simp add: HISTORY_COMPONENT_ORDER_def)
    then show ?thesis by (simp add: cs)
  qed
  moreover have "i \<notin> cs_sample_id ` set (h_components h)"
    using ok h2 next_rowid_greater[of _ "map sm_id (h_samples h)"]
    by (force simp: samples_ok_def storing_def)
  ultimately have "component_row_ok h2 (new_component_row i c)"
    using new_component_check[OF e] h2
    by (auto simp: component_row_ok_def storing_def new_sample_row_def) 
      (auto simp: new_component_row_def vocab_read image_iff)
  moreover have "cp_reasons c \<noteq> []" using component_reasons_ok(1)[OF e] by auto
  ultimately show "tx_upto F (if cp_reasons c = [] then tx_fail Other_Error
       else tx_bind
              (insert_row (\<lambda>h. new_component_row i c) component_row_ok
                 (\<lambda>h r. h\<lparr>h_components := h_components h @ [r]\<rparr>) (\<lambda>h. 1)) (\<lambda>_.
            tx_return ())) h2 (\<lambda>_ h3. storing sha newest p kind h i (before @ [c]) h3)"
    using h2 by (auto intro!: tx_ok_bind tx_ok_insert tx_ok_return simp: storing_def)
qed (rule Q)

text \<open>Once the components are there, the sample reads back.\<close>

lemma stored_sample_ok:
  assumes ok: "samples_ok sha newest h" and v: "validate_health_projection sha p = None"
    and new: "\<forall>q. newest = Some q \<longrightarrow> q < hp_observation_sequence p"
    and s: "storing sha newest p kind h i (hp_components p) h1"
  shows "samples_ok sha (Some (hp_observation_sequence p)) h1"
    and "i \<in> set (map sm_id (h_samples h1))"
    and "set (map sm_id (h_samples h)) \<subseteq> set (map sm_id (h_samples h1))"
proof -
  have i: "i = next_rowid (map sm_id (h_samples h))"
    and h1: "h1 = h\<lparr>h_samples := h_samples h @ [new_sample_row p kind i],
        h_components := h_components h @ map (new_component_row i) (hp_components p)\<rparr>"
    using s by (simp_all add: storing_def)
  show "i \<in> set (map sm_id (h_samples h1))" "set (map sm_id (h_samples h)) \<subseteq> set (map sm_id (h_samples h1))"
    by (auto simp: h1 new_sample_row_def)
  have less: "j < i" if "j \<in> set (map sm_id (h_samples h))" for j
    unfolding i using that by (rule next_rowid_greater)
  have comps: "sample_components h1 j = sample_components h j" if "j \<in> set (map sm_id (h_samples h))" for j
    using less[OF that] by (simp add: h1 sample_components_def new_component_row_def comp_def)
  have own: "sample_components h1 i = map (new_component_row i) (hp_components p)"
  proof -
    have "sample_components h i = []"
      using ok less by (force simp: samples_ok_def sample_components_def filter_empty_conv)
    then show ?thesis by (simp add: h1 sample_components_def new_component_row_def comp_def)
  qed
  have "stored_ok sha h1 (new_sample_row p kind i)"
    using new_sample_check[OF v] parse_baseline_new[OF v, of kind i]
  proof -
    have "sm_id (new_sample_row p kind i) = i" by (simp add: new_sample_row_def)
    then show ?thesis
      using new_sample_check[OF v] parse_baseline_new[OF v, of kind i] by (simp add: stored_ok_def own)
  qed
  moreover have "stored_ok sha h1 r" if "r \<in> set (h_samples h)" for r
    using ok that comps[of "sm_id r"] by (simp add: samples_ok_def stored_ok_def)
  moreover have "1 \<le> i" unfolding i using ok by (intro next_rowid_pos) (auto simp: samples_ok_def)
  moreover have "sm_sequence r < hp_observation_sequence p" if "r \<in> set (h_samples h)" for r
    using ok new that by (force simp: samples_ok_def)
  moreover from this have "hp_observation_sequence p \<notin> sm_sequence ` set (h_samples h)" by force
  ultimately show "samples_ok sha (Some (hp_observation_sequence p)) h1"
    using ok less
    by (auto simp: samples_ok_def h1 sorted_wrt_append new_sample_row_def new_component_row_def
        less_imp_le)
qed

end
