(* ===== verification/Ingestion_Evaluation.thy ===== *)
theory Ingestion_Evaluation
  imports Ingestion_Plans Ingestion_Samples Ingestion_Ledger
begin

text \<open>
  The evaluation rows: one for every scope, all pointing at the same baseline sample. Read back they
  are states the evaluators accept, and what the evaluators answer can be written again.
\<close>

section \<open>Rows read back\<close>

definition scope_rows_ok :: "History \<Rightarrow> int option \<Rightarrow> bool" where
  "scope_rows_ok h b \<longleftrightarrow>
     map ev_scope (h_evaluation h) = map scope_value ALL_SCOPES \<and> sample_reference h b \<and>
     (\<forall>r \<in> set (h_evaluation h). evaluation_check r \<and> ev_sample r = b \<and>
        (b \<noteq> None \<longrightarrow> ev_heartbeat r \<noteq> None))"

definition row_scope :: "evaluation_row \<Rightarrow> AlertScope" where
  "row_scope r = the (scope_of (ev_scope r))"

definition decoded_row :: "evaluation_row \<Rightarrow> EvaluationRow" where
  "decoded_row r =
     \<lparr>er_current = Option.bind (ev_current r) status_of,
      er_candidate = Option.bind (ev_candidate r) status_of, er_count = ev_count r,
      er_sample = ev_sample r, er_heartbeat = ev_heartbeat r,
      er_gap_phase = the (gap_phase_of (ev_gap_phase r)), er_cooldown = ev_cooldown r\<rparr>"

lemma optional_member_ok:
  "null_or (\<lambda>x. member x \<noteq> None) y \<Longrightarrow> optional_member member y = Some (Option.bind y member)"
  by (auto simp: optional_member_def null_or_def split: option.splits)

lemma bind_status:
  "null_or is_status y \<Longrightarrow> Option.bind y status_of = None \<longleftrightarrow> y = None"
  by (cases y) (auto simp: null_or_def is_status_def)

text \<open>The state a row of a health scope stores.\<close>

lemma decoded_state_valid:
  assumes "evaluation_check r" "ev_scope r \<noteq> ''sampling''"
  shows "make_evaluation_state (er_current (decoded_row r)) (er_candidate (decoded_row r))
      (er_count (decoded_row r)) =
    Inr \<lparr>hs_current_status = er_current (decoded_row r),
         hs_candidate_status = er_candidate (decoded_row r),
         hs_consecutive_count = er_count (decoded_row r)\<rparr>"
proof -
  have c: "null_or is_status (ev_candidate r)" "between 0 MAX_BOUNDED_COUNTER (ev_count r)"
    "ev_candidate r = None \<and> ev_count r = 0 \<or>
     ev_candidate r \<noteq> None \<and> ev_count r \<ge> 1 \<and> ev_candidate r = ev_current r"
    using assms unfolding evaluation_check_def by blast+
  then show ?thesis
    using bind_status[OF c(1)]
    by (auto simp: make_evaluation_state_Inr decoded_row_def between_def)
qed

lemma parse_row_ok:
  assumes c: "evaluation_check r" and new: "row_scope r \<notin> set known"
  shows "parse_evaluation_row known r = Inr (row_scope r, decoded_row r)"
proof -
  have null: "null_or is_status (ev_current r)" "null_or is_status (ev_candidate r)"
    "is_scope (ev_scope r)" "is_gap_phase (ev_gap_phase r)" "between 0 MAX_BOUNDED_COUNTER (ev_count r)"
    "null_or (\<lambda>i. i > 0) (ev_sample r)" "null_or is_timestamp (ev_heartbeat r)"
    "null_or is_timestamp (ev_cooldown r)"
    using c unfolding evaluation_check_def by blast+
  have sample: "null_or (\<lambda>i. i \<ge> 1) (ev_sample r)"
    using null(6) by (auto simp: null_or_def split: option.splits)
  obtain s where s: "scope_of (ev_scope r) = Some s" "row_scope r = s" "ev_scope r = scope_value s"
    using null(3) by (auto simp: is_scope_def row_scope_def vocab_read)
  obtain g where g: "gap_phase_of (ev_gap_phase r) = Some g" using null(4) by (auto simp: is_gap_phase_def)
  have opt: "optional_member status_of (ev_current r) = Some (er_current (decoded_row r))"
    "optional_member status_of (ev_candidate r) = Some (er_candidate (decoded_row r))"
    using null(1,2) optional_member_ok[of status_of]
    by (simp_all add: decoded_row_def is_status_def[abs_def])
  have row: "\<lparr>er_current = er_current (decoded_row r), er_candidate = er_candidate (decoded_row r),
      er_count = ev_count r, er_sample = ev_sample r, er_heartbeat = ev_heartbeat r,
      er_gap_phase = g, er_cooldown = ev_cooldown r\<rparr> = decoded_row r"
    by (simp add: decoded_row_def g)
  have count: "ev_count r = er_count (decoded_row r)" by (simp add: decoded_row_def)
  show ?thesis
  proof (cases "s = AS_SAMPLING")
    case True
    then have "er_current (decoded_row r) = None" "er_candidate (decoded_row r) = None"
      using c s(3) by (auto simp: evaluation_check_def decoded_row_def)
    then show ?thesis
      unfolding parse_evaluation_row_def s(1) g opt
      using null sample new s True row by (simp add: Let_def)
  next
    case False
    then have ns: "ev_scope r \<noteq> ''sampling''" using s(3) by (cases s) simp_all
    have "gap_phase_of ''clear'' = Some GP_CLEAR" by code_simp
    moreover have "ev_gap_phase r = ''clear''" using c ns unfolding evaluation_check_def by blast
    ultimately have "g = GP_CLEAR" using g by simp
    then show ?thesis
      unfolding parse_evaluation_row_def s(1) g opt
      using null sample new s False row decoded_state_valid[OF c ns]
      by (simp add: Let_def count[symmetric])
  qed
qed

lemma parse_rows_ok:
  assumes "\<forall>r \<in> set rows. evaluation_check r" "distinct (dict_keys known @ map row_scope rows)"
  shows "parse_evaluation_rows known rows = Inr (known @ map (\<lambda>r. (row_scope r, decoded_row r)) rows)"
  using assms
proof (induction rows arbitrary: known)
  case (Cons r rows)
  have "parse_evaluation_row (dict_keys known) r = Inr (row_scope r, decoded_row r)"
    using Cons.prems by (intro parse_row_ok) auto
  then show ?case
    using Cons.prems Cons.IH[of "known @ [(row_scope r, decoded_row r)]"] by auto
qed simp

text \<open>The dictionary of the rows that a transaction works with.\<close>

definition rows_of :: "History \<Rightarrow> evaluation_rows \<Rightarrow> bool" where
  "rows_of h rows \<longleftrightarrow>
     distinct (dict_keys rows) \<and> set (dict_keys rows) = set ALL_SCOPES \<and>
     (\<forall>(s, d) \<in> set rows. \<exists>r \<in> set (h_evaluation h). ev_scope r = scope_value s \<and> d = decoded_row r)"

lemma row_scope_value: "ev_scope r = scope_value s \<Longrightarrow> row_scope r = s"
  by (simp add: row_scope_def)

lemma scopes_of_rows:
  assumes "map ev_scope rows = map scope_value ss"
  shows "map row_scope rows = ss"
proof -
  have "map row_scope rows = map (\<lambda>x. the (scope_of x)) (map ev_scope rows)"
    by (simp add: row_scope_def comp_def)
  then show ?thesis unfolding assms by (simp add: comp_def)
qed

lemma distinct_scopes: "distinct ALL_SCOPES"
  by (simp add: ALL_SCOPES_def)

lemma read_evaluation_ok:
  assumes ok: "scope_rows_ok h b" and Q: "\<And>rows. rows_of h rows \<Longrightarrow> Q rows h"
  shows "tx_upto F read_evaluation_rows h Q"
proof -
  let ?rows = "sort_key ev_scope (h_evaluation h)"
  let ?dict = "map (\<lambda>r. (row_scope r, decoded_row r)) ?rows"
  have scopes: "map row_scope (h_evaluation h) = ALL_SCOPES"
    using ok by (intro scopes_of_rows) (simp add: scope_rows_ok_def)
  have len: "length (h_evaluation h) = length ALL_SCOPES" using arg_cong[OF scopes, of length] by simp
  have take: "take 7 ?rows = ?rows" using len by (simp add: ALL_SCOPES_def)
  have keys: "dict_keys ?dict = map row_scope ?rows" by simp
  have "mset (map row_scope ?rows) = mset ALL_SCOPES" unfolding scopes[symmetric] by simp
  then have d: "distinct (map row_scope ?rows)" and s: "set (map row_scope ?rows) = set ALL_SCOPES"
    using distinct_scopes mset_eq_imp_distinct_iff mset_eq_setD by blast+
  have parse: "parse_evaluation_rows [] ?rows = Inr ?dict"
    using parse_rows_ok[of ?rows "[]"] ok d by (simp add: scope_rows_ok_def)
  have "rows_of h ?dict"
    unfolding rows_of_def keys
  proof (intro conjI d s ballI)
    fix p assume "p \<in> set ?dict"
    then obtain r where r: "r \<in> set (h_evaluation h)" "p = (row_scope r, decoded_row r)" by auto
    then have "is_scope (ev_scope r)" using ok by (simp add: scope_rows_ok_def evaluation_check_def)
    then have "ev_scope r = scope_value (row_scope r)"
      by (auto simp: is_scope_def row_scope_def vocab_read)
    then show "case p of (s, d) \<Rightarrow> \<exists>r \<in> set (h_evaluation h). ev_scope r = scope_value s \<and> d = decoded_row r"
      using r by auto
  qed
  then have tail: "tx_upto F (tx_then (require (set (dict_keys ?dict) = set ALL_SCOPES) malformed_state)
      (tx_return ?dict)) h Q"
    using s keys by (intro tx_ok_then tx_ok_require tx_ok_return Q) simp_all
  have "tx_upto F (tx_lift (parse_evaluation_rows [] ?rows)) h
      (\<lambda>result h1. tx_upto F (tx_then (require (set (dict_keys result) = set ALL_SCOPES) malformed_state)
        (tx_return result)) h1 Q)"
    by (rule tx_ok_lift[OF parse]) (rule tail)
  then show ?thesis
    unfolding read_evaluation_rows_def
    by (intro tx_ok_bind tx_ok_select tx_ok_then tx_ok_require) (use len in \<open>simp_all add: take tx_ok_bind\<close>)
qed

section \<open>Evaluating the scopes and the gap\<close>

text \<open>No component reports health and a reason that says it is disabled.\<close>

definition disabled_unhealthy :: "HealthProjection \<Rightarrow> bool" where
  "disabled_unhealthy p \<longleftrightarrow>
     list_all (\<lambda>c. disabled_component c \<longrightarrow> cp_status c \<noteq> HH_HEALTHY) (hp_components p)"

lemma row_of_ok:
  assumes rows: "rows_of h rows" and s: "s \<in> set ALL_SCOPES"
    and Q: "\<And>r. r \<in> set (h_evaluation h) \<Longrightarrow> ev_scope r = scope_value s \<Longrightarrow> Q (decoded_row r) h"
  shows "tx_upto F (row_of rows s) h Q"
proof -
  have "s \<in> set (dict_keys rows)" using rows s by (simp add: rows_of_def)
  then obtain d where d: "dict_get rows s = Some d"
    by (cases "dict_get rows s") (auto simp: map_of_eq_None_iff)
  then have "(s, d) \<in> set rows" by (rule map_of_SomeD)
  then obtain r where r: "r \<in> set (h_evaluation h)" "ev_scope r = scope_value s" "d = decoded_row r"
    using rows by (auto simp: rows_of_def)
  then show ?thesis unfolding row_of_def d using Q by (simp add: tx_ok_return)
qed

lemma find_element: "find P xs = Some x \<Longrightarrow> x \<in> set xs \<and> P x"
  by (induction xs) (auto split: if_splits)

lemma scope_component_ok:
  assumes v: "validate_health_projection sha p = None" and s: "s \<in> set HEALTH_SCOPES"
  obtains c where "scope_component p s = Inr c"
    "\<And>d. c = Some d \<Longrightarrow> d \<in> set (hp_components p)" "c = None \<longleftrightarrow> s = AS_OVERALL"
proof (cases "s = AS_OVERALL")
  case True
  then show ?thesis using that[of None] by (simp add: scope_component_def)
next
  case False
  then obtain name where name: "component_of (scope_value s) = Some name"
    using s by (cases s) (auto simp: component_of_def member_of_def HISTORY_COMPONENT_ORDER_def
        HEALTH_SCOPES_def)
  have "name \<in> set HISTORY_COMPONENT_ORDER" by (cases name) (simp_all add: HISTORY_COMPONENT_ORDER_def)
  then have "name \<in> cp_component ` set (hp_components p)"
    unfolding validated(3)[OF v, symmetric] by simp
  then obtain c where c: "find (\<lambda>c. cp_component c = name) (rev (hp_components p)) = Some c"
    by (cases "find (\<lambda>c. cp_component c = name) (rev (hp_components p))")
      (auto simp: find_None_iff)
  then have "c \<in> set (hp_components p)" using find_element[OF c] by simp
  then show ?thesis using that[of "Some c"] False name c by (simp add: scope_component_def)
qed

lemma evaluation_input_ok:
  assumes d: "disabled_unhealthy p" and c: "\<And>d. c = Some d \<Longrightarrow> d \<in> set (hp_components p)"
  shows "make_evaluation_input (case c of None \<Rightarrow> hp_overall_status p | Some c \<Rightarrow> cp_status c)
      (intentional_disabled p c) active True =
    Inr \<lparr>hi_status = (case c of None \<Rightarrow> hp_overall_status p | Some c \<Rightarrow> cp_status c),
         hi_intentional_disabled = intentional_disabled p c, hi_active_health_alert = active,
         hi_persistence_succeeded = True\<rparr>"
  using d c by (cases c)
    (auto simp: make_evaluation_input_def intentional_disabled_def disabled_unhealthy_def list_all_iff)

definition transition_ok :: "AlertScope \<Rightarrow> AlertScope \<times> HealthEvaluationTransition \<Rightarrow> bool" where
  "transition_ok s e \<longleftrightarrow> fst e = s \<and> evaluation_valid (ht_state (snd e)) \<and> scope_transition_ok e"

lemma evaluated_ok:
  assumes "evaluation_valid st" "evaluate_health_state st i = Inr t" "s \<noteq> AS_SAMPLING"
  shows "transition_ok s (s, t)"
proof -
  have "evaluation_valid (ht_state t)"
    using assms(1,2) by (elim evaluate_health_total[of st i]) simp
  moreover have "condition_kind (hs_current_status (ht_state t)) \<noteq> None"
    if "ht_event t = HE_CONDITION_CONFIRMED"
    using that assms(1,2)
    by (cases "hi_status i") (auto simp: evaluate_health_eq Let_def split: if_splits)
  ultimately show ?thesis using assms(3) by (simp add: transition_ok_def scope_transition_ok_def)
qed

lemma evaluate_scope_ok:
  assumes ok: "scope_rows_ok h b" and al: "alerts_ok h" and rows: "rows_of h rows"
    and v: "validate_health_projection sha p = None" and d: "disabled_unhealthy p"
    and s: "s \<in> set HEALTH_SCOPES"
    and Q: "\<And>e. transition_ok s e \<Longrightarrow> Q e h"
  shows "tx_upto F (evaluate_scope rows p s) h Q"
proof -
  obtain c where c: "scope_component p s = Inr c"
    "\<And>d. c = Some d \<Longrightarrow> d \<in> set (hp_components p)"
    using scope_component_ok[OF v s] by blast
  have ns: "s \<noteq> AS_SAMPLING" "s \<in> set ALL_SCOPES" using s by (auto simp: HEALTH_SCOPES_def ALL_SCOPES_def)
  show ?thesis
    unfolding evaluate_scope_def
  proof (rule tx_ok_bind, rule row_of_ok[OF rows ns(2)])
    fix r assume r: "r \<in> set (h_evaluation h)" "ev_scope r = scope_value s"
    have "ev_scope r \<noteq> ''sampling''" using r(2) ns(1) by (cases s) simp_all
    moreover have "evaluation_check r" using ok r(1) by (simp add: scope_rows_ok_def)
    ultimately have st: "make_evaluation_state (er_current (decoded_row r)) (er_candidate (decoded_row r))
          (er_count (decoded_row r)) =
        Inr \<lparr>hs_current_status = er_current (decoded_row r),
             hs_candidate_status = er_candidate (decoded_row r),
             hs_consecutive_count = er_count (decoded_row r)\<rparr>" (is "_ = Inr ?st")
      by (intro decoded_state_valid)
    have valid: "evaluation_valid ?st" using make_evaluation_state_valid[OF st] .
    have step: "tx_upto F (tx_bind (tx_lift (or_value_error
         (make_evaluation_input
            (case c of None \<Rightarrow> hp_overall_status p | Some c \<Rightarrow> cp_status c)
            (intentional_disabled p c) (active \<noteq> []) True))) (\<lambda>observation.
       tx_bind (tx_lift (or_value_error (evaluate_health_state ?st observation))) (\<lambda>t.
       tx_return (s, t)))) h Q" for active :: "StoredAlert list"
    proof -
      obtain i where i: "make_evaluation_input
          (case c of None \<Rightarrow> hp_overall_status p | Some c \<Rightarrow> cp_status c)
          (intentional_disabled p c) (active \<noteq> []) True = Inr i"
        using evaluation_input_ok[OF d c(2)] by blast
      obtain t where t: "evaluate_health_state ?st i = Inr t"
        using evaluate_health_total[OF valid] by blast
      show ?thesis
        unfolding i
        by (intro tx_ok_bind tx_ok_lift[where x = i] tx_ok_lift[where x = t] tx_ok_return Q
            evaluated_ok[OF valid t ns(1)]) (simp_all add: or_value_error_def t)
    qed
    show "tx_upto F (tx_bind (tx_lift (scope_component p s)) (\<lambda>component.
       tx_bind (tx_lift (or_value_error
         (make_evaluation_state (er_current (decoded_row r)) (er_candidate (decoded_row r))
            (er_count (decoded_row r))))) (\<lambda>state.
       tx_bind (active_health_alerts s) (\<lambda>active.
       tx_bind (tx_lift (or_value_error
         (make_evaluation_input
            (case component of None \<Rightarrow> hp_overall_status p | Some c \<Rightarrow> cp_status c)
            (intentional_disabled p component) (active \<noteq> []) True))) (\<lambda>observation.
       tx_bind (tx_lift (or_value_error (evaluate_health_state state observation))) (\<lambda>t.
       tx_return (s, t))))))) h Q"
      unfolding st
      by (rule tx_ok_bind, rule tx_ok_lift[OF c(1)], rule tx_ok_bind, rule tx_ok_lift[where x = ?st],
          simp add: or_value_error_def, rule tx_ok_bind, rule active_health_alerts_ok[OF al], rule step)
  qed
qed

lemma evaluate_health_scopes_ok:
  assumes ok: "scope_rows_ok h b" and al: "alerts_ok h" and rows: "rows_of h rows"
    and v: "validate_health_projection sha p = None" and d: "disabled_unhealthy p"
    and Q: "\<And>es. list_all2 transition_ok HEALTH_SCOPES es \<Longrightarrow> Q es h"
  shows "tx_upto F (evaluate_health_scopes rows p) h Q"
  unfolding evaluate_health_scopes_def
  by (rule tx_ok_map[where P = transition_ok])
    (auto intro: evaluate_scope_ok[OF ok al rows v d] Q)

lemma gap_row_valid:
  assumes "evaluation_check r" "checkpoint_check ck"
  shows "gap_valid \<lparr>gs_phase = er_gap_phase (decoded_row r), gs_committed_observations = ck_count ck,
      gs_largest_missed = er_count (decoded_row r), gs_last_sequence = ck_sequence ck\<rparr>"
proof -
  have "between 0 MAX_BOUNDED_COUNTER (ev_count r)" "between 0 MAX_BOUNDED_COUNTER (ck_count ck)"
    "null_or is_sequence (ck_sequence ck)"
    using assms unfolding evaluation_check_def checkpoint_check_def by blast+
  then show ?thesis
    by (auto simp: gap_valid_iff decoded_row_def between_def null_or_def is_sequence_def bounds)
qed

lemma gap_observation_valid:
  assumes "validate_health_projection sha p = None"
  shows "observation_valid
    \<lparr>go_sequence = hp_observation_sequence p, go_missed_intervals = hp_missed_intervals p,
     go_persistence_succeeded = True, go_health_collection_succeeded = True,
     go_startup_gap_marker = (hp_sample_kind p = SK_STARTUP_GAP),
     go_clock_discontinuity_marker = (hp_sample_kind p = SK_CLOCK_DISCONTINUITY)\<rparr>"
  using validated_columns(1,5)[OF assms]
  by (auto simp: observation_valid_iff is_sequence_def between_def bounds)

lemma evaluate_gap_total:
  assumes "gap_valid s" "observation_valid ob"
  obtains t where "evaluate_sampling_gap s ob = Inr t" "gap_valid (gt_state t)"
proof (cases "fresh s ob")
  case True
  then show ?thesis
    using evaluate_gap_fresh[OF assms True] after_commit_valid[OF assms] that by simp
next
  case False
  then obtain e where "evaluate_sampling_gap s ob = Inr \<lparr>gt_previous = s, gt_state = s, gt_event = e\<rparr>"
    using evaluate_gap_stale by blast
  then show ?thesis using that assms(1) by simp
qed

lemma evaluate_gap_ok:
  assumes ok: "scope_rows_ok h b" and rows: "rows_of h rows" and ck: "checkpoint_check ck"
    and v: "validate_health_projection sha p = None"
    and Q: "\<And>t. gap_valid (gt_state t) \<Longrightarrow> Q t h"
  shows "tx_upto F (evaluate_gap rows (decoded ck) p) h Q"
  unfolding evaluate_gap_def
proof (rule tx_ok_bind, rule row_of_ok[OF rows])
  show "AS_SAMPLING \<in> set ALL_SCOPES" by (simp add: ALL_SCOPES_def)
  fix r assume "r \<in> set (h_evaluation h)"
  then have "evaluation_check r" using ok by (simp add: scope_rows_ok_def)
  note s = gap_row_valid[OF this ck] and ob = gap_observation_valid[OF v]
  obtain t where t: "evaluate_sampling_gap
      \<lparr>gs_phase = er_gap_phase (decoded_row r), gs_committed_observations = ck_count ck,
       gs_largest_missed = er_count (decoded_row r), gs_last_sequence = ck_sequence ck\<rparr>
      \<lparr>go_sequence = hp_observation_sequence p, go_missed_intervals = hp_missed_intervals p,
       go_persistence_succeeded = True, go_health_collection_succeeded = True,
       go_startup_gap_marker = (hp_sample_kind p = SK_STARTUP_GAP),
       go_clock_discontinuity_marker = (hp_sample_kind p = SK_CLOCK_DISCONTINUITY)\<rparr> = Inr t"
    "gap_valid (gt_state t)"
    using evaluate_gap_total[OF s ob] by blast
  show "tx_upto F (tx_bind (tx_lift (or_value_error (build_gap_state
       \<lparr>gs_phase = er_gap_phase (decoded_row r), gs_committed_observations = kp_count (decoded ck),
        gs_largest_missed = er_count (decoded_row r), gs_last_sequence = kp_sequence (decoded ck)\<rparr>))) (\<lambda>state.
     tx_bind (tx_lift (or_value_error (build_gap_observation
       \<lparr>go_sequence = hp_observation_sequence p, go_missed_intervals = hp_missed_intervals p,
        go_persistence_succeeded = True, go_health_collection_succeeded = True,
        go_startup_gap_marker = (hp_sample_kind p = SK_STARTUP_GAP),
        go_clock_discontinuity_marker = (hp_sample_kind p = SK_CLOCK_DISCONTINUITY)\<rparr>)))
       (\<lambda>observation.
     tx_lift (or_value_error (evaluate_sampling_gap state observation))))) h Q"
    by (rule tx_ok_bind, rule tx_ok_lift, simp add: or_value_error_def s,
        rule tx_ok_bind, rule tx_ok_lift, simp add: or_value_error_def build_gap_observation_def ob,
        rule tx_ok_lift[where x = t])
      (use Q[OF t(2)] in \<open>simp_all add: or_value_error_def t(1)\<close>)
qed

section \<open>What to store\<close>

lemma rows_samples:
  assumes ok: "scope_rows_ok h b" and rows: "rows_of h rows"
  shows "remdups (map (er_sample \<circ> snd) rows) = [b]"
proof -
  have "er_sample (snd e) = b" if "e \<in> set rows" for e
  proof -
    have "case e of (s, d) \<Rightarrow> \<exists>r \<in> set (h_evaluation h). ev_scope r = scope_value s \<and> d = decoded_row r"
      using rows that unfolding rows_of_def by blast
    then obtain r where "r \<in> set (h_evaluation h)" "snd e = decoded_row r" by (cases e) auto
    then show ?thesis using ok by (simp add: scope_rows_ok_def decoded_row_def)
  qed
  moreover have "rows \<noteq> []" using rows by (auto simp: rows_of_def ALL_SCOPES_def)
  ultimately have "(er_sample \<circ> snd) ` set rows = {b}" by (cases rows) auto
  then show ?thesis by (intro only_element) simp_all
qed

lemma storage_decision_ok:
  assumes ok: "scope_rows_ok h b" and rows: "rows_of h rows" and ck: "ck_sequence ck = None \<longrightarrow> b = None"
    and s: "samples_ok sha (ck_sequence ck) h"
    and Q: "\<And>d. sd_outcome d \<noteq> IO_REPLAYED \<Longrightarrow> Q d h"
  shows "tx_upto F (storage_decision sha rows (decoded ck) p) h Q"
proof -
  have baseline: "tx_upto F (baseline_sample_reference sha rows (kp_sequence (decoded ck))) h R"
    if "R b h" for R
  proof (cases b)
    case None
    then show ?thesis unfolding baseline_sample_reference_def Let_def rows_samples[OF ok rows]
      using that by (simp add: tx_ok_return)
  next
    case (Some i)
    have "i \<in> set (map sm_id (h_samples h))"
      using ok by (simp add: scope_rows_ok_def sample_reference_def null_or_def Some)
    then show ?thesis unfolding baseline_sample_reference_def Let_def rows_samples[OF ok rows] Some
      using that Some s by (auto intro!: tx_ok_bind read_baseline_ok tx_ok_return)
  qed
  have changed: "tx_upto F (projection_changed sha i p (Some q)) h R"
    if "b = Some i" "\<And>c. R c h" "ck_sequence ck = Some q" for i q R
  proof -
    have "i \<in> set (map sm_id (h_samples h))"
      using ok by (simp add: scope_rows_ok_def sample_reference_def null_or_def that(1))
    then show ?thesis unfolding projection_changed_def
      by (intro tx_ok_bind read_baseline_ok[OF s[unfolded that(3)]])
        (auto split: prod.split intro!: tx_ok_return that(2))
  qed
  have beat: "tx_upto F (row_of rows AS_OVERALL) h (\<lambda>overall h1. tx_upto F (f overall) h1 Q)"
    if "b \<noteq> None" "\<And>row t. er_heartbeat row = Some t \<Longrightarrow> tx_upto F (f row) h Q" for f
    by (rule row_of_ok[OF rows]) (use ok that in \<open>auto simp: ALL_SCOPES_def scope_rows_ok_def decoded_row_def\<close>)
  show ?thesis
    unfolding storage_decision_def
  proof (rule tx_ok_bind, rule baseline, rule tx_ok_then, rule tx_ok_require, goal_cases)
    case 1
    then show ?case using ck by auto
  next
    case 2
    show ?case
      using ck
      by (cases "ck_sequence ck"; cases b)
        (auto simp: Let_def decision_def intro!: tx_ok_return Q tx_ok_bind changed beat
          split: option.split)
  qed
qed

section \<open>Writing the evaluation\<close>

text \<open>Some scopes have been written, the rows of the others are as they were.\<close>

definition partly_written ::
  "AlertScope set \<Rightarrow> int option \<Rightarrow> History \<Rightarrow> History \<Rightarrow> bool" where
  "partly_written written b h h1 \<longleftrightarrow>
     (\<exists>rows. h1 = h\<lparr>h_evaluation := rows\<rparr> \<and> map ev_scope rows = map scope_value ALL_SCOPES \<and>
        (\<forall>r \<in> set rows.
           if row_scope r \<in> written
           then evaluation_check r \<and> ev_sample r = b \<and> (b \<noteq> None \<longrightarrow> ev_heartbeat r \<noteq> None)
           else r \<in> set (h_evaluation h)))"

lemma partly_written_all:
  assumes "partly_written (set ALL_SCOPES) b h h1" "sample_reference h b"
  shows "scope_rows_ok h1 b"
proof -
  have "row_scope r \<in> set ALL_SCOPES" for r
    by (cases "row_scope r") (simp_all add: ALL_SCOPES_def)
  then show ?thesis
    using assms by (auto simp: partly_written_def scope_rows_ok_def sample_reference_def)
qed

definition scope_row_ok :: "AlertScope \<Rightarrow> int option \<Rightarrow> evaluation_row \<Rightarrow> bool" where
  "scope_row_ok s b r \<longleftrightarrow>
     ev_scope r = scope_value s \<and> evaluation_check r \<and> ev_sample r = b \<and>
     (b \<noteq> None \<longrightarrow> ev_heartbeat r \<noteq> None)"

lemma update_evaluation_ok:
  assumes w: "partly_written written b h h1" and s: "s \<notin> written"
    and sample: "sample_reference h b"
    and f: "\<And>r. r \<in> set (h_evaluation h) \<Longrightarrow> ev_scope r = scope_value s \<Longrightarrow>
      scope_row_ok s b (f r)"
    and Q: "\<And>h2. partly_written (insert s written) b h h2 \<Longrightarrow> Q () h2"
  shows "tx_upto F (update_evaluation s f) h1 Q"
proof -
  let ?P = "\<lambda>r. ev_scope r = scope_value s"
  obtain rows where rows: "h1 = h\<lparr>h_evaluation := rows\<rparr>" "map ev_scope rows = map scope_value ALL_SCOPES"
    "\<And>r. r \<in> set rows \<Longrightarrow>
       if row_scope r \<in> written
       then evaluation_check r \<and> ev_sample r = b \<and> (b \<noteq> None \<longrightarrow> ev_heartbeat r \<noteq> None)
       else r \<in> set (h_evaluation h)"
    using w unfolding partly_written_def by blast
  have old: "r \<in> set (h_evaluation h)" if "r \<in> set rows" "?P r" for r
    using rows(3)[OF that(1)] s row_scope_value[OF that(2)] by simp
  let ?rows = "update_rows ?P f rows"
  have scopes: "map ev_scope ?rows = map ev_scope rows"
    using f old by (auto simp: update_rows_def scope_row_ok_def)
  have "length (filter ?P rows) = length (filter (\<lambda>x. x = scope_value s) (map ev_scope rows))"
    by (simp add: filter_map comp_def)
  also have "\<dots> = 1" unfolding rows(2) by (cases s) (simp_all add: ALL_SCOPES_def)
  finally have count: "updated_count ?P rows = 1" by (simp add: updated_count_def)
  have new: "if row_scope r \<in> insert s written
       then evaluation_check r \<and> ev_sample r = b \<and> (b \<noteq> None \<longrightarrow> ev_heartbeat r \<noteq> None)
       else r \<in> set (h_evaluation h)" if r: "r \<in> set ?rows" for r
  proof -
    obtain q where q: "q \<in> set rows" "r = (if ?P q then f q else q)"
      using r by (auto simp: update_rows_def)
    show ?thesis
    proof (cases "?P q")
      case True
      then have "ev_scope r = scope_value s" using f[OF old[OF q(1) True] True] q(2) by (simp add: scope_row_ok_def)
      then have "row_scope r = s" by (rule row_scope_value)
      then show ?thesis using f[OF old[OF q(1) True] True] q(2) True by (simp add: scope_row_ok_def)
    next
      case False
      have "ev_scope q \<in> set (map scope_value ALL_SCOPES)" unfolding rows(2)[symmetric] using q(1) by simp
      then have "ev_scope q = scope_value (row_scope q)" using row_scope_value by auto
      then have "row_scope q \<noteq> s" using False by auto
      then show ?thesis using rows(3)[OF q(1)] q(2) False by simp
    qed
  qed
  have "partly_written (insert s written) b h (h1\<lparr>h_evaluation := ?rows\<rparr>)"
    unfolding partly_written_def using new scopes rows(1,2) by (intro exI[of _ ?rows]) simp
  note written = Q[OF this]
  have "evaluation_check r \<and> sample_reference h1 (ev_sample r)" if "r \<in> set (filter ?P ?rows)" for r
  proof -
    have r: "r \<in> set ?rows" "row_scope r = s" using that row_scope_value by auto
    then show ?thesis using new[OF r(1)] sample rows(1) by (simp add: sample_reference_def)
  qed
  then have checked: "list_all (\<lambda>r. evaluation_check r \<and> sample_reference h1 (ev_sample r))
      (filter ?P ?rows)"
    by (simp add: list_all_iff)
  show ?thesis
    unfolding update_evaluation_def
    by (rule tx_ok_bind, rule tx_ok_change[where ?h1.0 = "h1\<lparr>h_evaluation := ?rows\<rparr>" and x = 1],
        use checked count rows(1) in \<open>simp add: Let_def\<close>, rule tx_ok_require)
      (use written in simp_all)
qed

definition health_written ::
  "HealthEvaluationTransition \<Rightarrow> int option \<Rightarrow> int option \<Rightarrow> evaluation_row \<Rightarrow> evaluation_row" where
  "health_written t sample beat r =
     r\<lparr>ev_current := map_option status_value (hs_current_status (ht_state t)),
       ev_candidate := map_option status_value (hs_candidate_status (ht_state t)),
       ev_count := hs_consecutive_count (ht_state t), ev_sample := sample, ev_heartbeat := beat\<rparr>"

definition gap_written ::
  "SamplingGapTransition \<Rightarrow> int option \<Rightarrow> int option \<Rightarrow> evaluation_row \<Rightarrow> evaluation_row" where
  "gap_written gap sample beat r =
     r\<lparr>ev_count := gs_largest_missed (gt_state gap), ev_sample := sample, ev_heartbeat := beat,
       ev_gap_phase := gap_phase_value (gs_phase (gt_state gap))\<rparr>"

text \<open>The sample and the heartbeat that go into every row.\<close>

definition stamp_ok :: "int option \<Rightarrow> int option \<Rightarrow> bool" where
  "stamp_ok b beat \<longleftrightarrow>
     null_or (\<lambda>i. i > 0) b \<and> null_or is_timestamp beat \<and> (b \<noteq> None \<longrightarrow> beat \<noteq> None)"

lemma health_written_ok:
  assumes "evaluation_check r" "ev_scope r = scope_value s" "s \<noteq> AS_SAMPLING"
    and "evaluation_valid (ht_state t)" "stamp_ok b beat"
  shows "scope_row_ok s b (health_written t b beat r)"
proof -
  have ns: "ev_scope r \<noteq> ''sampling''" using assms(2,3) by (cases s) simp_all
  have kept: "is_scope (ev_scope r)" "is_gap_phase (ev_gap_phase r)" "null_or is_timestamp (ev_cooldown r)"
    "ev_gap_phase r = ''clear''"
    using assms(1) ns unfolding evaluation_check_def by blast+
  have status: "null_or is_status (map_option status_value c)" for c
    by (simp add: null_or_def is_status_def split: option.split)
  have state: "between 0 MAX_BOUNDED_COUNTER (hs_consecutive_count (ht_state t))"
    "hs_candidate_status (ht_state t) = None \<and> hs_consecutive_count (ht_state t) = 0 \<or>
     hs_candidate_status (ht_state t) \<noteq> None \<and> hs_consecutive_count (ht_state t) \<ge> 1 \<and>
       hs_candidate_status (ht_state t) = hs_current_status (ht_state t)"
    using assms(4) by (auto simp: evaluation_valid_iff between_def)
  have "evaluation_check (health_written t b beat r)"
    unfolding evaluation_check_def health_written_def
    using kept status state ns assms(5) by (auto simp: stamp_ok_def)
  then show ?thesis using assms(2,5) by (simp add: scope_row_ok_def stamp_ok_def health_written_def)
qed

lemma gap_written_ok:
  assumes "evaluation_check r" "ev_scope r = scope_value AS_SAMPLING"
    and "gap_valid (gt_state gap)" "stamp_ok b beat"
  shows "scope_row_ok AS_SAMPLING b (gap_written gap b beat r)"
proof -
  have kept: "is_scope (ev_scope r)" "null_or is_timestamp (ev_cooldown r)" "ev_current r = None"
    "ev_candidate r = None"
    using assms(1,2) unfolding evaluation_check_def by auto
  have state: "between 0 MAX_BOUNDED_COUNTER (gs_largest_missed (gt_state gap))"
    "is_gap_phase (gap_phase_value (gs_phase (gt_state gap)))"
    using assms(3) by (auto simp: gap_valid_iff between_def is_gap_phase_def)
  have "evaluation_check (gap_written gap b beat r)"
    unfolding evaluation_check_def gap_written_def using kept state assms(2,4)
    by (simp add: null_or_def stamp_ok_def)
  then show ?thesis using assms(2,4) by (simp add: scope_row_ok_def stamp_ok_def gap_written_def)
qed

lemma stamp_coalesced:
  assumes ok: "scope_rows_ok h b" and q: "q \<in> set (h_evaluation h)" and s: "stamp_ok sample beat"
  shows "stamp_ok (coalesce sample b) (coalesce beat (er_heartbeat (decoded_row q)))"
    and "er_sample (decoded_row q) = b"
proof -
  have c: "evaluation_check q" "ev_sample q = b" "b \<noteq> None \<longrightarrow> ev_heartbeat q \<noteq> None"
    using ok q by (simp_all add: scope_rows_ok_def)
  then have "null_or (\<lambda>i. i > 0) b" "null_or is_timestamp (ev_heartbeat q)"
    by (auto simp: evaluation_check_def)
  then show "stamp_ok (coalesce sample b) (coalesce beat (er_heartbeat (decoded_row q)))"
    using s c by (auto simp: stamp_ok_def coalesce_def decoded_row_def split: option.splits)
  show "er_sample (decoded_row q) = b" using c(2) by (simp add: decoded_row_def)
qed

lemma transition_scopes:
  assumes "list_all2 transition_ok HEALTH_SCOPES health"
  shows "map fst health = HEALTH_SCOPES"
proof -
  have "list_all2 (\<lambda>s e. s = fst e) HEALTH_SCOPES health"
    using assms by (rule list_all2_mono) (simp add: transition_ok_def)
  then have "list_all2 (=) HEALTH_SCOPES (map fst health)" by (simp add: list_all2_map2)
  then show ?thesis by (simp add: list_all2_eq[symmetric])
qed

text \<open>Reading an entry needs no history.\<close>

lemma row_of_rows:
  assumes rows: "rows_of h rows" and s: "s \<in> set ALL_SCOPES"
    and Q: "\<And>q. q \<in> set (h_evaluation h) \<Longrightarrow> ev_scope q = scope_value s \<Longrightarrow> Q (decoded_row q) h1"
  shows "tx_upto F (row_of rows s) h1 Q"
proof -
  have "dict_get rows s \<noteq> None" using rows s by (auto simp: rows_of_def map_of_eq_None_iff)
  then obtain d where d: "dict_get rows s = Some d" by auto
  have "case (s, d) of (s, d) \<Rightarrow> \<exists>r \<in> set (h_evaluation h). ev_scope r = scope_value s \<and> d = decoded_row r"
    using rows map_of_SomeD[OF d] unfolding rows_of_def by blast
  then show ?thesis unfolding row_of_def d using Q by (auto simp: tx_ok_return)
qed

lemma write_scope_ok:
  assumes ok: "scope_rows_ok h b" and rows: "rows_of h rows" and e: "transition_ok s (s, t)"
    and w: "partly_written written (coalesce sample b) h h1" "s \<notin> written"
    and ref: "sample_reference h (coalesce sample b)" and stamp: "stamp_ok sample beat"
    and Q: "\<And>h2. partly_written (insert s written) (coalesce sample b) h h2 \<Longrightarrow> Q () h2"
  shows "tx_upto F (tx_bind (row_of rows s) (\<lambda>row. update_evaluation s
      (health_written t (coalesce sample (er_sample row)) (coalesce beat (er_heartbeat row))))) h1 Q"
proof (rule tx_ok_bind, rule row_of_rows[OF rows])
  show "s \<in> set ALL_SCOPES" by (cases s) (simp_all add: ALL_SCOPES_def)
  fix q assume "q \<in> set (h_evaluation h)"
  note stamped = stamp_coalesced[OF ok this stamp]
  have "scope_row_ok s (coalesce sample b) (health_written t (coalesce sample b)
      (coalesce beat (er_heartbeat (decoded_row q))) r)"
    if "r \<in> set (h_evaluation h)" "ev_scope r = scope_value s" for r
    using e ok that stamped(1)
    by (intro health_written_ok) (auto simp: transition_ok_def scope_transition_ok_def scope_rows_ok_def)
  then show "tx_upto F (update_evaluation s (health_written t (coalesce sample (er_sample (decoded_row q)))
      (coalesce beat (er_heartbeat (decoded_row q))))) h1 Q"
    unfolding stamped(2) by (rule update_evaluation_ok[OF w ref]) (auto intro: Q)
qed

lemma write_scopes_ok:
  assumes ok: "scope_rows_ok h b" and rows: "rows_of h rows"
    and health: "list_all2 transition_ok HEALTH_SCOPES health"
    and ref: "sample_reference h (coalesce sample b)" and stamp: "stamp_ok sample beat"
    and Q: "\<And>h1. partly_written (set HEALTH_SCOPES) (coalesce sample b) h h1 \<Longrightarrow> Q () h1"
  shows "tx_upto F (tx_each (\<lambda>(s, t). tx_bind (row_of rows s) (\<lambda>row. update_evaluation s
      (health_written t (coalesce sample (er_sample row)) (coalesce beat (er_heartbeat row))))) health) h Q"
proof (rule tx_ok_each[where I = "\<lambda>before. partly_written (set (map fst before)) (coalesce sample b) h"])
  show "partly_written (set (map fst [])) (coalesce sample b) h h"
    using ok unfolding partly_written_def scope_rows_ok_def by (intro exI[of _ "h_evaluation h"]) simp
next
  fix before e after h1
  assume e: "health = before @ e # after"
    and w: "partly_written (set (map fst before)) (coalesce sample b) h h1"
  obtain s t where st: "e = (s, t)" by (cases e)
  have "e \<in> set health" by (simp add: e)
  then obtain s' where "transition_ok s' e" using health by (metis in_set_conv_nth list_all2_conv_all_nth)
  then have tr: "transition_ok s (s, t)" by (auto simp: transition_ok_def st)
  have "distinct (map fst health)"
    unfolding transition_scopes[OF health] by (simp add: HEALTH_SCOPES_def)
  then have new: "s \<notin> set (map fst before)" by (simp add: e st)
  show "tx_upto F (case e of (s, t) \<Rightarrow> tx_bind (row_of rows s) (\<lambda>row. update_evaluation s
      (health_written t (coalesce sample (er_sample row)) (coalesce beat (er_heartbeat row))))) h1
      (\<lambda>_ h2. partly_written (set (map fst (before @ [e]))) (coalesce sample b) h h2)"
    unfolding st prod.case by (rule write_scope_ok[OF ok rows tr w new ref stamp]) simp
next
  fix h1 assume "partly_written (set (map fst health)) (coalesce sample b) h h1"
  then show "Q () h1" unfolding transition_scopes[OF health] by (rule Q)
qed

lemma write_evaluation_rows_ok:
  assumes ok: "scope_rows_ok h b" and rows: "rows_of h rows"
    and health: "list_all2 transition_ok HEALTH_SCOPES health" and gap: "gap_valid (gt_state gap)"
    and stamp: "stamp_ok sample beat" and sample: "sample_reference h sample"
    and Q: "\<And>h1 es. h1 = h\<lparr>h_evaluation := es\<rparr> \<Longrightarrow> scope_rows_ok h1 (coalesce sample b) \<Longrightarrow> Q () h1"
  shows "tx_upto F (write_evaluation_rows rows health gap sample beat) h Q"
  unfolding write_evaluation_rows_def health_written_def[symmetric] gap_written_def[symmetric]
proof (rule tx_ok_then, rule write_scopes_ok[OF ok rows health _ stamp])
  show ref: "sample_reference h (coalesce sample b)"
    using ok sample by (cases sample) (simp_all add: coalesce_def scope_rows_ok_def)
  fix h1 assume w: "partly_written (set HEALTH_SCOPES) (coalesce sample b) h h1"
  show "tx_upto F (tx_bind (row_of rows AS_SAMPLING) (\<lambda>row. update_evaluation AS_SAMPLING
      (gap_written gap (coalesce sample (er_sample row)) (coalesce beat (er_heartbeat row))))) h1 Q"
  proof (rule tx_ok_bind, rule row_of_rows[OF rows])
    show "AS_SAMPLING \<in> set ALL_SCOPES" by (simp add: ALL_SCOPES_def)
    fix q assume "q \<in> set (h_evaluation h)"
    note stamped = stamp_coalesced[OF ok this stamp]
    have "scope_row_ok AS_SAMPLING (coalesce sample b) (gap_written gap (coalesce sample b)
        (coalesce beat (er_heartbeat (decoded_row q))) r)"
      if "r \<in> set (h_evaluation h)" "ev_scope r = scope_value AS_SAMPLING" for r
      using ok that gap stamped(1) by (intro gap_written_ok) (auto simp: scope_rows_ok_def)
    moreover have "Q () h2" if h2: "partly_written (insert AS_SAMPLING (set HEALTH_SCOPES)) (coalesce sample b) h h2" for h2
    proof -
      have "insert AS_SAMPLING (set HEALTH_SCOPES) = set ALL_SCOPES"
        by (auto simp: HEALTH_SCOPES_def ALL_SCOPES_def)
      then have "scope_rows_ok h2 (coalesce sample b)" using partly_written_all[OF _ ref, of h2] h2 by simp
      moreover obtain es where "h2 = h\<lparr>h_evaluation := es\<rparr>" using h2 unfolding partly_written_def by blast
      ultimately show "Q () h2" using Q by blast
    qed
    ultimately show "tx_upto F (update_evaluation AS_SAMPLING (gap_written gap
        (coalesce sample (er_sample (decoded_row q))) (coalesce beat (er_heartbeat (decoded_row q))))) h1 Q"
      unfolding stamped(2) by (intro update_evaluation_ok[OF w _ ref]) (auto simp: HEALTH_SCOPES_def)
  qed
qed

end
