(* ===== verification/Ingestion_Atomic.thy ===== *)
theory Ingestion_Atomic
  imports Ingestion_Logic
begin

text \<open>
  Nothing between the start of the transaction and its commit touches the committed history, on
  any database and whatever fails. The rules follow the composition of the code, as in
  \<open>Ingestion_Logic\<close>, but ask nothing of the history.
\<close>

section \<open>Steps that commit nothing\<close>

definition uncommitted :: "'a tx \<Rightarrow> bool" where
  "uncommitted m \<longleftrightarrow> (\<forall>c. quiet_step c (snd (m c)))"

named_theorems quiet_rules "steps that commit nothing"

lemma uncommittedD: "uncommitted m \<Longrightarrow> m c = (r, c1) \<Longrightarrow> quiet_step c c1"
  by (metis snd_conv uncommitted_def)

lemma quiet_return [quiet_rules]: "uncommitted (tx_return x)"
  by (simp add: uncommitted_def tx_return_def)

lemma quiet_lift [quiet_rules]: "uncommitted (tx_lift r)"
  by (simp add: uncommitted_def tx_lift_def)

lemma quiet_fail [quiet_rules]: "uncommitted (tx_fail f)"
  by (simp add: uncommitted_def tx_fail_def)

lemma quiet_require [quiet_rules]: "uncommitted (require b f)"
  by (simp add: require_def quiet_return quiet_fail)

lemma quiet_bind [quiet_rules]:
  assumes "uncommitted m" "\<And>x. uncommitted (f x)"
  shows "uncommitted (tx_bind m f)"
  unfolding uncommitted_def
proof
  fix c
  obtain r c1 where m: "m c = (r, c1)" by (cases "m c")
  have q: "quiet_step c c1" by (rule uncommittedD[OF assms(1) m])
  show "quiet_step c (snd (tx_bind m f c))"
    using m q quiet_trans[OF q] assms(2) by (cases r) (auto simp: tx_bind_def uncommitted_def)
qed

lemma quiet_then [quiet_rules]: "uncommitted m \<Longrightarrow> uncommitted k \<Longrightarrow> uncommitted (tx_then m k)"
  unfolding tx_then_def by (rule quiet_bind)

lemma quiet_map [quiet_rules]: "(\<And>x. uncommitted (f x)) \<Longrightarrow> uncommitted (tx_map f xs)"
  by (induction xs) (auto intro!: quiet_rules)

lemma quiet_each [quiet_rules]: "(\<And>x. uncommitted (f x)) \<Longrightarrow> uncommitted (tx_each f xs)"
  by (induction xs) (auto intro!: quiet_rules)

lemma quiet_statement:
  assumes "uncommitted body"
  shows "uncommitted (run_statement body)"
  unfolding uncommitted_def
proof
  fix c
  show "quiet_step c (snd (run_statement body c))"
  proof (cases "cn_failures c")
    case Nil
    then show ?thesis using assms by (simp add: run_statement_def uncommitted_def)
  next
    case (Cons f rest)
    have q: "quiet_step c (c\<lparr>cn_failures := rest\<rparr>)" using Cons by (auto simp: quiet_step_def)
    then show ?thesis
      using Cons assms quiet_trans[OF q] by (cases f) (simp_all add: run_statement_def uncommitted_def)
  qed
qed

lemma quiet_select [quiet_rules]: "uncommitted (select_rows q)"
  unfolding select_rows_def by (rule quiet_statement) (simp add: uncommitted_def)

lemma quiet_change [quiet_rules]: "uncommitted (change_rows w)"
  unfolding change_rows_def
  by (rule quiet_statement) (auto simp: uncommitted_def quiet_step_def split: option.split prod.split)

lemma quiet_insert [quiet_rules]: "uncommitted (insert_row mk ok add rowid)"
  unfolding insert_row_def by (rule quiet_change)

lemma quiet_begin: "uncommitted begin_immediate"
  unfolding begin_immediate_def by (rule quiet_statement) (simp add: uncommitted_def quiet_step_def)

lemma quiet_rollback [quiet_rules]: "uncommitted rollback_transaction"
  unfolding rollback_transaction_def
  by (rule quiet_statement) (simp add: uncommitted_def quiet_step_def)

lemma quiet_if [quiet_rules]: "uncommitted x \<Longrightarrow> uncommitted y \<Longrightarrow> uncommitted (if b then x else y)"
  by simp

lemma quiet_option [quiet_rules]:
  "uncommitted x \<Longrightarrow> (\<And>y. uncommitted (f y)) \<Longrightarrow> uncommitted (case o1 of None \<Rightarrow> x | Some y \<Rightarrow> f y)"
  by (cases o1) simp_all

lemma quiet_list [quiet_rules]:
  "uncommitted x \<Longrightarrow> (\<And>y ys. uncommitted (f y ys)) \<Longrightarrow>
   uncommitted (case xs of [] \<Rightarrow> x | y # ys \<Rightarrow> f y ys)"
  by (cases xs) simp_all

lemma quiet_prod [quiet_rules]: "(\<And>x y. uncommitted (f x y)) \<Longrightarrow> uncommitted (case e of (x, y) \<Rightarrow> f x y)"
  by (cases e) simp

lemma quiet_event [quiet_rules]:
  "uncommitted x \<Longrightarrow> uncommitted y \<Longrightarrow> uncommitted z \<Longrightarrow>
   uncommitted (case ev of HE_NONE \<Rightarrow> x | HE_CONDITION_CONFIRMED \<Rightarrow> y | HE_RECOVERY_CONFIRMED \<Rightarrow> z)"
  by (cases ev) simp_all

section \<open>The steps of an ingestion\<close>

lemma quiet_read_alert [quiet_rules]: "uncommitted (read_alert r)"
  unfolding read_alert_def by (intro quiet_rules)

lemma quiet_row_of [quiet_rules]: "uncommitted (row_of rows s)"
  unfolding row_of_def by (intro quiet_rules)

lemma quiet_evaluate_alert [quiet_rules]: "uncommitted (evaluate_alert a r)"
  unfolding evaluate_alert_def by (intro quiet_rules)

lemma quiet_alert_queries [quiet_rules]:
  "uncommitted (active_health_alerts s)" "uncommitted (current_or_latest_alert s k)"
  unfolding active_health_alerts_def current_or_latest_alert_def by (intro quiet_rules)+

lemma quiet_alert_writers [quiet_rules]:
  "uncommitted (insert_alert a now sample)" "uncommitted (insert_alert_event i e now s l)"
  "uncommitted (update_alert i f)"
  unfolding insert_alert_def insert_alert_event_def update_alert_def by (intro quiet_rules)+

lemma quiet_persist [quiet_rules]: "uncommitted (persist_alert_plan plan now sample)"
  unfolding persist_alert_plan_def Let_def by (intro quiet_rules)

lemma quiet_archive_rows [quiet_rules]: "uncommitted (archive_rows now seen rs)"
  by (induction rs arbitrary: seen) (auto simp: Let_def intro!: quiet_rules)

lemma quiet_archive [quiet_rules]: "uncommitted (archive_eligible_alerts now)"
  unfolding archive_eligible_alerts_def by (intro quiet_rules)

lemma quiet_checkpoint [quiet_rules]:
  "uncommitted read_checkpoint" "uncommitted (validate_replay_anchor ck)"
  "uncommitted (is_replay_or_reject_stale ck p)" "uncommitted (write_checkpoint_and_replay_ledger ck p)"
  unfolding read_checkpoint_def validate_replay_anchor_def is_replay_or_reject_stale_def
    write_checkpoint_and_replay_ledger_def
  by (intro quiet_rules)+

lemma quiet_evaluation [quiet_rules]:
  "uncommitted read_evaluation_rows" "uncommitted (evaluate_health_scopes rows p)"
  "uncommitted (evaluate_gap rows ck p)" "uncommitted (write_evaluation_rows rows health gap s t)"
  unfolding read_evaluation_rows_def evaluate_health_scopes_def evaluate_scope_def evaluate_gap_def
    write_evaluation_rows_def update_evaluation_def
  by (intro quiet_rules)+

lemma quiet_samples [quiet_rules]:
  "uncommitted (insert_health_sample p k)" "uncommitted (insert_component_samples i cs)"
  "uncommitted (read_baseline_sample sha i q)"
  unfolding insert_health_sample_def insert_component_samples_def read_baseline_sample_def
  by (intro quiet_rules)+

lemma quiet_decision [quiet_rules]: "uncommitted (storage_decision sha rows ck p)"
  unfolding storage_decision_def baseline_sample_reference_def projection_changed_def Let_def
  by (intro quiet_rules)

lemma quiet_plans [quiet_rules]:
  "uncommitted (plan_open_alert s k now)" "uncommitted (plan_health_condition s k now)"
  "uncommitted (recovery_plan now a)" "uncommitted (plan_health_recovery s now)"
  "uncommitted (plan_pair_recovery s k now)"
proof -
  show plan_open: "uncommitted (plan_open_alert s k now)" for s k
    unfolding plan_open_alert_def by (intro quiet_rules)
  show "uncommitted (plan_health_condition s k now)"
    unfolding plan_health_condition_def by (intro quiet_rules plan_open)
  show recover: "uncommitted (recovery_plan now a)" for a
    unfolding recovery_plan_def by (intro quiet_rules)
  show "uncommitted (plan_health_recovery s now)" "uncommitted (plan_pair_recovery s k now)"
    unfolding plan_health_recovery_def plan_pair_recovery_def by (intro quiet_rules recover)+
qed

lemma quiet_plan_scope [quiet_rules]: "uncommitted (plan_scope now e)"
  unfolding plan_scope_def by (intro quiet_rules)

lemma quiet_plan_all [quiet_rules]: "uncommitted (plan_automatic_alerts health gap now b)"
  unfolding plan_automatic_alerts_def by (intro quiet_rules)

lemma quiet_store: "uncommitted (store_observation sha ck p)"
  unfolding store_observation_def Let_def by (intro quiet_rules)

lemma quiet_transaction: "uncommitted (ingest_transaction sha p)"
  unfolding ingest_transaction_def by (intro quiet_rules quiet_store)

section \<open>What a stored observation answers\<close>

definition answers :: "'a tx \<Rightarrow> ('a \<Rightarrow> bool) \<Rightarrow> bool" where
  "answers m P \<longleftrightarrow> (\<forall>c x c1. m c = (Inr x, c1) \<longrightarrow> P x)"

lemma answers_return: "P x \<Longrightarrow> answers (tx_return x) P"
  by (simp add: answers_def tx_return_def)

lemma answers_fail: "answers (tx_fail f) P"
  by (simp add: answers_def tx_fail_def)

lemma answers_bind: "(\<And>x. answers (f x) P) \<Longrightarrow> answers (tx_bind m f) P"
  by (fastforce simp: answers_def tx_bind_def split: prod.splits sum.splits)

lemma answers_bind_from:
  "answers m R \<Longrightarrow> (\<And>x. R x \<Longrightarrow> answers (f x) P) \<Longrightarrow> answers (tx_bind m f) P"
  by (fastforce simp: answers_def tx_bind_def split: prod.splits sum.splits)

lemma answers_then: "answers k P \<Longrightarrow> answers (tx_then m k) P"
  unfolding tx_then_def by (rule answers_bind)

lemma decision_outcome: "answers (storage_decision sha rows ck p) (\<lambda>d. sd_outcome d \<noteq> IO_REPLAYED)"
  unfolding storage_decision_def Let_def
  by (intro answers_bind answers_then)
    (auto simp: decision_def split: option.split
      intro!: answers_bind answers_return answers_fail)

lemma store_outcome: "answers (store_observation sha ck p) (\<lambda>o1. o1 \<noteq> IO_REPLAYED)"
  unfolding store_observation_def Let_def
  by (rule answers_bind, rule answers_then, rule answers_bind, rule answers_bind,
      rule answers_bind_from[OF decision_outcome], rule answers_bind, rule answers_bind,
      intro answers_then answers_return)
    (auto simp: force_transition_storage_def decision_def)

section \<open>Atomicity\<close>

lemma rollback_outcome:
  assumes "rollback_after_failure c = (r, c1)"
  shows "quiet_step c c1"
    and "r = Inr () \<and> cn_history c1 = cn_committed c1 \<or>
      (\<exists>e. Some e \<in> set (cn_failures c) \<and> r = Inl (Ingestion_Error IR_TRUST_FAILED True))"
proof -
  obtain r0 c0 where roll: "rollback_transaction c = (r0, c0)" by (cases "rollback_transaction c")
  have q: "quiet_step c c0" by (rule uncommittedD[OF quiet_rollback roll])
  have "r0 = Inr () \<and> cn_history c0 = cn_committed c0 \<or>
      (\<exists>e. Some e \<in> set (cn_failures c) \<and> r0 = Inl (Sqlite_Error e))"
    using roll by (auto simp: rollback_transaction_def run_statement_def split: list.splits option.splits)
  then show "quiet_step c c1"
    and "r = Inr () \<and> cn_history c1 = cn_committed c1 \<or>
      (\<exists>e. Some e \<in> set (cn_failures c) \<and> r = Inl (Ingestion_Error IR_TRUST_FAILED True))"
    using assms roll q by (auto simp: rollback_after_failure_def)
qed

lemma quiet_rollback_after: "uncommitted rollback_after_failure"
  unfolding uncommitted_def using rollback_outcome(1) by (metis prod.collapse)

lemma quiet_handle: "uncommitted (handle_failure f)"
  unfolding handle_failure_def
  by (cases f) (auto intro!: quiet_then quiet_rollback_after quiet_fail)

lemma commit_outcome:
  assumes "commit_transaction c = (r, c1)"
  shows "r = Inr () \<and> cn_history c1 = cn_history c \<and> cn_committed c1 = cn_history c \<and>
      set (cn_failures c1) \<subseteq> set (cn_failures c) \<or>
    (\<exists>e. Some e \<in> set (cn_failures c) \<and> r = Inl (Sqlite_Error e)) \<and> quiet_step c c1"
  using assms
  by (auto simp: commit_transaction_def run_statement_def quiet_step_def split: list.splits option.splits)

lemma begin_outcome:
  assumes "begin_immediate c = (r, c1)"
  shows "quiet_step c c1"
    and "r = Inr () \<and> cn_history c1 = cn_committed c \<or>
      (\<exists>e. Some e \<in> set (cn_failures c) \<and> r = Inl (Sqlite_Error e))"
  using assms uncommittedD[OF quiet_begin assms]
  by (auto simp: begin_immediate_def run_statement_def split: list.splits option.splits)

lemma handle_never_answers: "handle_failure f c \<noteq> (Inr x, c1)"
  by (cases f) (auto simp: handle_failure_def tx_then_def tx_bind_def tx_fail_def
      split: prod.splits sum.splits)

text \<open>The cases of a run after the start of the transaction.\<close>

definition conclude :: "IngestionOutcome option \<Rightarrow> IngestionOutcome tx" where
  "conclude outcome =
     (case outcome of
        None \<Rightarrow> tx_then rollback_after_failure (tx_return IO_REPLAYED)
      | Some result \<Rightarrow> tx_then commit_transaction (tx_return result))"

lemma conclude_outcome:
  assumes "conclude outcome c = (r, c1)"
  shows "r = Inr IO_REPLAYED \<and> outcome = None \<and> quiet_step c c1 \<or>
    (\<exists>x. r = Inr x \<and> outcome = Some x \<and> cn_history c1 = cn_history c \<and>
       cn_committed c1 = cn_history c \<and> set (cn_failures c1) \<subseteq> set (cn_failures c)) \<or>
    (\<exists>f e. r = Inl f \<and> Some e \<in> set (cn_failures c) \<and>
       (f = Sqlite_Error e \<or> f = Ingestion_Error IR_TRUST_FAILED True)) \<and> quiet_step c c1"
proof (cases outcome)
  case None
  obtain r0 c0 where roll: "rollback_after_failure c = (r0, c0)" by (cases "rollback_after_failure c")
  show ?thesis
    using assms None roll rollback_outcome[OF roll]
    by (auto simp: conclude_def tx_then_def tx_bind_def tx_return_def)
next
  case (Some x)
  obtain r0 c0 where com: "commit_transaction c = (r0, c0)" by (cases "commit_transaction c")
  show ?thesis
    using assms Some com commit_outcome[OF com]
    by (auto simp: conclude_def tx_then_def tx_bind_def tx_return_def)
qed

lemma ingest_unfold:
  "ingest_projection sha p c =
     (if validate_health_projection sha p \<noteq> None
      then (Inl (Ingestion_Error IR_INVALID_PROJECTION False), c)
      else
        case begin_immediate c of
          (Inl (Sqlite_Error e), c1) \<Rightarrow> (Inl (classified_sqlite_error e), c1)
        | (Inl f, c1) \<Rightarrow> (Inl f, c1)
        | (Inr (), c1) \<Rightarrow> tx_handle (tx_bind (ingest_transaction sha p) conclude) c1)"
proof -
  have "conclude = (\<lambda>outcome. case outcome of
        None \<Rightarrow> tx_then rollback_after_failure (tx_return IO_REPLAYED)
      | Some result \<Rightarrow> tx_then commit_transaction (tx_return result))"
    by (simp add: conclude_def fun_eq_iff)
  then show ?thesis by (simp only: ingest_projection_def)
qed

lemma transaction_outcome:
  "answers (ingest_transaction sha p) (\<lambda>o1. o1 \<noteq> Some IO_REPLAYED)"
  unfolding ingest_transaction_def
  by (intro answers_bind answers_then)
    (auto intro!: answers_return answers_bind_from[OF store_outcome])

text \<open>What was committed is what was committed before, or the history of a stored observation.\<close>

definition stored_answer :: "ingest_failure + IngestionOutcome \<Rightarrow> bool" where
  "stored_answer r \<longleftrightarrow> (\<exists>x. r = Inr x \<and> x \<noteq> IO_REPLAYED)"

lemma handled_outcome:
  assumes run: "tx_handle (tx_bind (ingest_transaction sha p) conclude) c = (r, c1)"
  shows "set (cn_failures c1) \<subseteq> set (cn_failures c)"
    and "stored_answer r \<Longrightarrow> \<exists>x c0. ingest_transaction sha p c = (Inr (Some x), c0) \<and> r = Inr x \<and>
      cn_committed c1 = cn_history c0"
    and "\<not> stored_answer r \<Longrightarrow> cn_committed c1 = cn_committed c"
proof -
  obtain r0 c0 where body: "tx_bind (ingest_transaction sha p) conclude c = (r0, c0)"
    by (cases "tx_bind (ingest_transaction sha p) conclude c")
  obtain t ct where tr: "ingest_transaction sha p c = (t, ct)" by (cases "ingest_transaction sha p c")
  have qt: "quiet_step c ct" by (rule uncommittedD[OF quiet_transaction tr])
  have *: "set (cn_failures c0) \<subseteq> set (cn_failures c) \<and>
      (if stored_answer r0
       then \<exists>x. t = Inr (Some x) \<and> r0 = Inr x \<and> cn_committed c0 = cn_history ct
       else cn_committed c0 = cn_committed c)"
  proof (cases t)
    case (Inl f)
    then show ?thesis using body tr qt by (auto simp: tx_bind_def stored_answer_def quiet_step_def)
  next
    case (Inr outcome)
    then have "conclude outcome ct = (r0, c0)" using body tr by (simp add: tx_bind_def)
    moreover have "outcome \<noteq> Some IO_REPLAYED"
      using transaction_outcome[of sha p] tr Inr unfolding answers_def by blast
    ultimately show ?thesis
      using conclude_outcome[of outcome ct r0 c0] qt Inr by (auto simp: stored_answer_def quiet_step_def)
  qed
  have h: "r = r0 \<and> c1 = c0 \<or> (\<exists>f. r0 = Inl f \<and> handle_failure f c0 = (r, c1))"
    using run body by (cases r0) (auto simp: tx_handle_def)
  have "quiet_step c0 c1 \<and> \<not> stored_answer r" if "r0 = Inl f" "handle_failure f c0 = (r, c1)" for f
  proof -
    have "r \<noteq> Inr x" for x using handle_never_answers[of f c0 x c1] that(2) by simp
    then show ?thesis using uncommittedD[OF quiet_handle that(2)] by (auto simp: stored_answer_def)
  qed
  then have **: "r = r0 \<and> c1 = c0 \<or> \<not> stored_answer r0 \<and> \<not> stored_answer r \<and> quiet_step c0 c1"
    using h by (auto simp: stored_answer_def)
  show "set (cn_failures c1) \<subseteq> set (cn_failures c)" using * ** by (auto simp: quiet_step_def)
  show "\<exists>x c0. ingest_transaction sha p c = (Inr (Some x), c0) \<and> r = Inr x \<and> cn_committed c1 = cn_history c0"
    if "stored_answer r" using * ** that tr by auto
  show "cn_committed c1 = cn_committed c" if "\<not> stored_answer r"
    using * ** that by (auto simp: quiet_step_def)
qed

text \<open>
  C19. An ingestion is atomic. On any database, for any projection and whatever SQLite reports and
  when, an ingestion that raises, or finds a replay, leaves the committed history as it was; and one
  that answers that it stored the observation has committed all that the transaction wrote, which
  nobody had seen before.
\<close>

theorem ingestion_atomic:
  "case ingest_projection sha p c of
     (r, c1) \<Rightarrow>
       if (\<exists>outcome. r = Inr outcome \<and> outcome \<noteq> IO_REPLAYED)
       then \<exists>outcome c2. ingest_transaction sha p (snd (begin_immediate c)) = (Inr (Some outcome), c2) \<and>
              r = Inr outcome \<and> cn_committed c1 = cn_history c2 \<and> cn_committed c2 = cn_committed c
       else cn_committed c1 = cn_committed c"
proof -
  obtain r c1 where run: "ingest_projection sha p c = (r, c1)" by (cases "ingest_projection sha p c")
  obtain b cb where start: "begin_immediate c = (b, cb)" by (cases "begin_immediate c")
  have qb: "quiet_step c cb" by (rule begin_outcome(1)[OF start])
  have "if stored_answer r
       then \<exists>outcome c2. ingest_transaction sha p cb = (Inr (Some outcome), c2) \<and>
              r = Inr outcome \<and> cn_committed c1 = cn_history c2 \<and> cn_committed c2 = cn_committed c
       else cn_committed c1 = cn_committed c"
  proof (cases "validate_health_projection sha p = None \<and> b = Inr ()")
    case False
    then show ?thesis using run start begin_outcome(2)[OF start] qb
      by (auto simp: ingest_unfold stored_answer_def quiet_step_def split: if_splits)
  next
    case True
    then have h: "tx_handle (tx_bind (ingest_transaction sha p) conclude) cb = (r, c1)"
      using run start by (cases "fst (begin_immediate c)") (auto simp: ingest_unfold split: unit.splits)
    have "cn_committed c2 = cn_committed c" if "ingest_transaction sha p cb = (x, c2)" for x c2
      using uncommittedD[OF quiet_transaction that] qb by (simp add: quiet_step_def)
    then show ?thesis using handled_outcome[OF h] qb by (auto simp: quiet_step_def)
  qed
  then show ?thesis by (simp add: run start stored_answer_def)
qed

end
