(* ===== verification/Ingestion_Correct.thy ===== *)
theory Ingestion_Correct
  imports Ingestion_Evaluation Ingestion_Atomic
begin

text \<open>
  One observation as a whole. A history in order stays so; on it an observation is stored, found to
  be a replay, or refused for its own sake, unless SQLite reports a failure; and whatever happens,
  the committed history changes only when the observation was stored.
\<close>

section \<open>Histories in order\<close>

definition history_with :: "(bytes \<Rightarrow> bytes) \<Rightarrow> checkpoint_row \<Rightarrow> int option \<Rightarrow> History \<Rightarrow> bool" where
  "history_with sha ck b h \<longleftrightarrow>
     ledger_with ck h \<and> samples_ok sha (ck_sequence ck) h \<and> scope_rows_ok h b \<and>
     (ck_sequence ck = None \<longrightarrow> b = None) \<and> alerts_ok h"

definition history_ok :: "(bytes \<Rightarrow> bytes) \<Rightarrow> History \<Rightarrow> bool" where
  "history_ok sha h \<longleftrightarrow> (\<exists>ck b. history_with sha ck b h)"

lemma same_samples_transfer:
  assumes "same_samples h h1"
  shows "scope_rows_ok h1 b = scope_rows_ok h b" "rows_of h1 = rows_of h"
    "samples_ok sha q h1 = samples_ok sha q h" "ledger_with ck h1 = ledger_with ck h"
  using assms
  by (simp_all add: same_samples_def scope_rows_ok_def rows_of_def samples_ok_def stored_ok_def
      sample_components_def ledger_with_def sample_reference_def fun_eq_iff)

lemma samples_ok_newer:
  assumes "samples_ok sha q h" "\<forall>n. q = Some n \<longrightarrow> n \<le> m"
  shows "samples_ok sha (Some m) h"
  using assms by (force simp: samples_ok_def)

lemma samples_ok_evaluation: "samples_ok sha q (h\<lparr>h_evaluation := es\<rparr>) = samples_ok sha q h"
  by (simp add: samples_ok_def stored_ok_def sample_components_def)

lemma samples_ok_advanced: "samples_ok sha q (advanced_history ck p h) = samples_ok sha q h"
  by (simp add: samples_ok_def stored_ok_def sample_components_def)

lemma scope_rows_ok_more:
  assumes "scope_rows_ok h b" "h_evaluation h1 = h_evaluation h"
    and "set (map sm_id (h_samples h)) \<subseteq> set (map sm_id (h_samples h1))"
  shows "scope_rows_ok h1 b"
  using assms by (auto simp: scope_rows_ok_def sample_reference_def null_or_def split: option.splits)

lemma scope_rows_ok_advanced: "scope_rows_ok (advanced_history ck p h) b = scope_rows_ok h b"
  by (simp add: scope_rows_ok_def sample_reference_def)

lemma alerts_ok_advanced: "alerts_ok (advanced_history ck p h) = alerts_ok h"
  by (rule alerts_ok_cong) simp_all

section \<open>Storing an observation\<close>

definition transactional :: "(bytes \<Rightarrow> bytes) \<Rightarrow> HealthProjection \<Rightarrow> bool" where
  "transactional sha p \<longleftrightarrow> validate_health_projection sha p = None \<and> disabled_unhealthy p"

lemma storable_valid: "transactional sha p \<Longrightarrow> storable p"
  using validated_columns[of sha p] by (simp add: transactional_def storable_def)

lemma recorded_timestamp: "transactional sha p \<Longrightarrow> is_timestamp (hp_recorded_at p)"
  using validated_columns[of sha p] by (simp add: transactional_def)

text \<open>The sample of an observation, when one is stored.\<close>

lemma insert_observation_ok:
  assumes p: "transactional sha p" and new: "newer ck p"
    and s: "samples_ok sha (ck_sequence ck) h"
    and none: "kind = None \<Longrightarrow> Q None h"
    and some: "\<And>i h1. kind \<noteq> None \<Longrightarrow> samples_ok sha (Some (hp_observation_sequence p)) h1 \<Longrightarrow>
      i \<in> set (map sm_id (h_samples h1)) \<Longrightarrow>
      set (map sm_id (h_samples h)) \<subseteq> set (map sm_id (h_samples h1)) \<Longrightarrow>
      h_alerts h1 = h_alerts h \<Longrightarrow> h_evaluation h1 = h_evaluation h \<Longrightarrow>
      ledger_with ck h1 = ledger_with ck h \<Longrightarrow> h_replay h1 = h_replay h \<Longrightarrow> Q (Some i) h1"
  shows "tx_upto F (case kind of
       None \<Rightarrow> tx_return None
     | Some kind \<Rightarrow>
         tx_bind (insert_health_sample p kind) (\<lambda>sample.
         tx_then (insert_component_samples sample (hp_components p)) (
         tx_return (Some sample)))) h Q"
proof (cases kind)
  case None
  then show ?thesis using none by (simp add: tx_ok_return)
next
  case (Some k)
  have v: "validate_health_projection sha p = None" using p by (simp add: transactional_def)
  have n: "\<forall>q. ck_sequence ck = Some q \<longrightarrow> q < hp_observation_sequence p" using new by (simp add: newer_def)
  show ?thesis
    unfolding Some option.case
  proof (rule tx_ok_bind, rule insert_sample_ok[OF s v n], rule tx_ok_then, rule insert_components_ok[OF s v],
      assumption, rule tx_ok_return)
    fix i h1 h2 assume st: "storing sha (ck_sequence ck) p k h i (hp_components p) h2"
    note stored = stored_sample_ok[OF s v n st]
    have h2: "h_alerts h2 = h_alerts h" "h_evaluation h2 = h_evaluation h" "ledger_with ck h2 = ledger_with ck h"
      "h_replay h2 = h_replay h"
      using st by (simp_all add: storing_def ledger_with_def)
    show "Q (Some i) h2" by (rule some) (use Some stored h2 in simp_all)
  qed
qed

text \<open>The writes after it: evaluation, alerts, checkpoint.\<close>

lemma write_observation_ok:
  assumes p: "transactional sha p" and new: "newer ck p"
    and h: "samples_ok sha (Some (hp_observation_sequence p)) h" "scope_rows_ok h b" "alerts_ok h"
      "ledger_with ck h" "rows_of h rows"
    and health: "list_all2 transition_ok HEALTH_SCOPES health" and gap: "gap_valid (gt_state gap)"
    and plans: "plans_fit h (hp_recorded_at p) UNIV plans"
      "requires_supporting_sample plans \<longrightarrow> sample \<noteq> None"
    and sample: "sample_reference h sample"
    and Q: "\<And>h1 b1. history_with sha (advanced_checkpoint (decoded ck) p ck) b1 h1 \<Longrightarrow>
      h_replay h1 = prune_replays (h_replay h @ [new_replay_row p]) \<Longrightarrow> Q outcome h1"
  shows "tx_upto F (tx_then (write_evaluation_rows rows health gap (if baseline then sample else None)
            (if sample = None then None else Some (hp_recorded_at p))) (
          tx_then (tx_each (\<lambda>plan. persist_alert_plan plan (hp_recorded_at p) sample) plans) (
          tx_then (write_checkpoint_and_replay_ledger (decoded ck) p) (
          tx_return outcome)))) h Q"
proof -
  let ?now = "hp_recorded_at p"
  let ?sample = "if baseline then sample else None"
  let ?beat = "if sample = None then None else Some ?now"
  note now = recorded_timestamp[OF p] and st = storable_valid[OF p]
  have ck: "checkpoint_check ck" using h(4) by (simp add: ledger_with_def)
  note new_ck = advanced_checkpoint_ok[OF ck st new]
  have pos: "i > 0" if "sample = Some i" for i
    using sample h(1) that by (force simp: sample_reference_def null_or_def samples_ok_def)
  have stamp: "stamp_ok ?sample ?beat"
    using now pos by (auto simp: stamp_ok_def null_or_def split: option.split)
  have ref: "sample_reference h ?sample" using sample by (simp add: sample_reference_def null_or_def)
  obtain ps where ps: "distinct ps" "list_all2 (fits h ?now) ps plans"
    using plans(1) by (auto simp: plans_fit_def)
  show ?thesis
  proof (rule tx_ok_then, rule write_evaluation_rows_ok[OF h(2,5) health gap stamp ref], rule tx_ok_then)
    fix h3 es assume h3: "h3 = h\<lparr>h_evaluation := es\<rparr>" "scope_rows_ok h3 (coalesce ?sample b)"
    have al: "alerts_ok h3" using h(3) alerts_ok_cong[of h3 h] by (simp add: h3(1))
    have fit: "plans_fit h3 ?now UNIV plans" using plans(1) plans_fit_same[of h3 h] by (simp add: h3(1))
    then obtain ps where ps: "distinct ps" "list_all2 (fits h3 ?now) ps plans"
      by (auto simp: plans_fit_def)
    have supp: "\<forall>plan \<in> set plans. supported (pl_transition plan) sample"
      using plans(2) by (auto simp: requires_supporting_sample_def list_ex_iff supported_def)
    have ref3: "sample_reference h3 sample" using sample by (simp add: sample_reference_def h3(1))
    show "tx_upto F (tx_each (\<lambda>plan. persist_alert_plan plan ?now sample) plans) h3
        (\<lambda>_ h4. tx_upto F (tx_then (write_checkpoint_and_replay_ledger (decoded ck) p) (tx_return outcome)) h4 Q)"
    proof (rule persist_plans_ok[OF al ps now ref3 supp])
      fix h4 assume h4: "alerts_ok h4" "same_samples h3 h4"
      note tr = same_samples_transfer[OF h4(2)]
      have "ledger_with ck h3" using h(4) by (simp add: h3(1) ledger_with_def)
      then have led: "ledger_with ck h4" by (simp add: tr(4))
      have rows: "scope_rows_ok h4 (coalesce ?sample b)" using h3(2) tr(1) by simp
      have sam: "samples_ok sha (Some (hp_observation_sequence p)) h4"
        using h(1) tr(3) by (simp add: h3(1) samples_ok_evaluation)
      have "history_with sha (advanced_checkpoint (decoded ck) p ck) (coalesce ?sample b)
          (advanced_history ck p h4)"
        using ledger_advanced[OF led st new] rows sam h4(1) new_ck(5)
        by (simp add: history_with_def samples_ok_advanced scope_rows_ok_advanced alerts_ok_advanced)
      moreover have "h_replay (advanced_history ck p h4) = prune_replays (h_replay h @ [new_replay_row p])"
        using h4(2) by (simp add: advanced_history_def same_samples_def h3(1))
      ultimately show "tx_upto F (tx_then (write_checkpoint_and_replay_ledger (decoded ck) p) (tx_return outcome)) h4 Q"
        by (intro tx_ok_then write_checkpoint_ok[OF led st new] tx_ok_return Q)
    qed
  qed
qed

lemma forced_storage:
  "sd_stored_kind (force_transition_storage d) \<noteq> None"
  "sd_outcome d \<noteq> IO_REPLAYED \<Longrightarrow> sd_outcome (force_transition_storage d) \<noteq> IO_REPLAYED"
  by (auto simp: force_transition_storage_def decision_def)

lemma transitions_ok:
  assumes "list_all2 transition_ok HEALTH_SCOPES health"
  shows "\<forall>e \<in> set health. scope_transition_ok e" "distinct (map fst health)"
proof -
  show "\<forall>e \<in> set health. scope_transition_ok e"
  proof
    fix e assume "e \<in> set health"
    then obtain i where "i < length health" "health ! i = e" by (auto simp: in_set_conv_nth)
    then show "scope_transition_ok e"
      using assms by (auto simp: list_all2_conv_all_nth transition_ok_def)
  qed
  show "distinct (map fst health)"
    unfolding transition_scopes[OF assms] by (simp add: HEALTH_SCOPES_def)
qed

text \<open>From the evaluated scopes on.\<close>

lemma store_evaluated_ok:
  assumes p: "transactional sha p" and new: "newer ck p"
    and h: "samples_ok sha (ck_sequence ck) h" "scope_rows_ok h b" "alerts_ok h" "ledger_with ck h"
      "rows_of h rows" "settled h (hp_recorded_at p)" and base: "ck_sequence ck = None \<longrightarrow> b = None"
    and health: "list_all2 transition_ok HEALTH_SCOPES health"
    and full: "exhausted h \<longrightarrow> F (Ingestion_Error IR_GENERATION_EXHAUSTED False)"
    and Q: "\<And>outcome h1 b1. outcome \<noteq> IO_REPLAYED \<Longrightarrow>
      history_with sha (advanced_checkpoint (decoded ck) p ck) b1 h1 \<Longrightarrow>
      h_replay h1 = prune_replays (h_replay h @ [new_replay_row p]) \<Longrightarrow> Q outcome h1"
  shows "tx_upto F (tx_bind (evaluate_gap rows (decoded ck) p) (\<lambda>gap.
     tx_bind (storage_decision sha rows (decoded ck) p) (\<lambda>decision1.
     tx_bind (plan_automatic_alerts health gap (hp_recorded_at p)
       (hp_missed_intervals p > 0 \<and> hp_sample_kind p \<noteq> SK_CLOCK_DISCONTINUITY)) (\<lambda>plans.
     let d = (if requires_supporting_sample plans then force_transition_storage decision1
              else decision1)
     in tx_bind (case sd_stored_kind d of
                   None \<Rightarrow> tx_return None
                 | Some kind \<Rightarrow>
                     tx_bind (insert_health_sample p kind) (\<lambda>sample.
                     tx_then (insert_component_samples sample (hp_components p)) (
                     tx_return (Some sample)))) (\<lambda>sample.
        tx_then (write_evaluation_rows rows health gap
          (if sd_updates_baseline d then sample else None)
          (if sample = None then None else Some (hp_recorded_at p))) (
        tx_then (tx_each (\<lambda>plan. persist_alert_plan plan (hp_recorded_at p) sample) plans) (
        tx_then (write_checkpoint_and_replay_ledger (decoded ck) p) (
        tx_return (sd_outcome d))))))))) h Q"
proof -
  have v: "validate_health_projection sha p = None" using p by (simp add: transactional_def)
  have ck: "checkpoint_check ck" using h(4) by (simp add: ledger_with_def)
  note now = recorded_timestamp[OF p]
  note tr = transitions_ok[OF health]
  show ?thesis
  proof (rule tx_ok_bind, rule evaluate_gap_ok[OF h(2,5) ck v], rule tx_ok_bind,
      rule storage_decision_ok[OF h(2,5) base h(1)], rule tx_ok_bind,
      rule plan_automatic_alerts_ok[where F = F, OF h(3,6) now tr full])
    fix gap :: SamplingGapTransition and decision1 :: StorageDecision and plans
    assume gap: "gap_valid (gt_state gap)" and d1: "sd_outcome decision1 \<noteq> IO_REPLAYED"
      and plans: "plans_fit h (hp_recorded_at p) UNIV plans"
    define d where "d = (if requires_supporting_sample plans then force_transition_storage decision1
        else decision1)"
    have d: "sd_outcome d \<noteq> IO_REPLAYED" using d1 forced_storage(2) by (simp add: d_def)
    have supp: "requires_supporting_sample plans \<longrightarrow> sd_stored_kind d \<noteq> None"
      using forced_storage(1) by (simp add: d_def)
    have le: "\<forall>n. ck_sequence ck = Some n \<longrightarrow> n \<le> hp_observation_sequence p"
      using new by (auto simp: newer_def)
    show "tx_upto F (let d = (if requires_supporting_sample plans then force_transition_storage decision1
              else decision1)
     in tx_bind (case sd_stored_kind d of
                   None \<Rightarrow> tx_return None
                 | Some kind \<Rightarrow>
                     tx_bind (insert_health_sample p kind) (\<lambda>sample.
                     tx_then (insert_component_samples sample (hp_components p)) (
                     tx_return (Some sample)))) (\<lambda>sample.
        tx_then (write_evaluation_rows rows health gap
          (if sd_updates_baseline d then sample else None)
          (if sample = None then None else Some (hp_recorded_at p))) (
        tx_then (tx_each (\<lambda>plan. persist_alert_plan plan (hp_recorded_at p) sample) plans) (
        tx_then (write_checkpoint_and_replay_ledger (decoded ck) p) (
        tx_return (sd_outcome d)))))) h Q"
      unfolding d_def[symmetric] Let_def
    proof (rule tx_ok_bind, rule insert_observation_ok[OF p new h(1)], goal_cases)
      case 1
      show ?case
        by (rule write_observation_ok[OF p new samples_ok_newer[OF h(1) le] h(2-5) health gap plans])
          (use 1 supp Q[OF d] in \<open>simp_all add: sample_reference_def null_or_def\<close>)
    next
      case (2 i h1)
      have "rows_of h1 rows" using h(5) 2(6) by (simp add: rows_of_def)
      moreover have "ledger_with ck h1" using h(4) 2(7) by simp
      moreover note scope_rows_ok_more[OF h(2) 2(6,4)] alerts_ok_more[OF h(3) 2(5,4)]
        plans_fit_same[OF 2(5) plans]
      ultimately show ?case
        by (intro write_observation_ok[OF p new 2(2)] health gap)
          (use 2(3,8) Q[OF d] in \<open>simp_all add: sample_reference_def null_or_def\<close>)
    qed
  qed
qed

lemma store_observation_ok:
  assumes h: "history_with sha ck b h" and p: "transactional sha p" and new: "newer ck p"
    and full: "exhausted h \<longrightarrow> F (Ingestion_Error IR_GENERATION_EXHAUSTED False)"
    and Q: "\<And>outcome h1 b1. outcome \<noteq> IO_REPLAYED \<Longrightarrow>
      history_with sha (advanced_checkpoint (decoded ck) p ck) b1 h1 \<Longrightarrow>
      h_replay h1 = prune_replays (h_replay h @ [new_replay_row p]) \<Longrightarrow> Q outcome h1"
  shows "tx_upto F (store_observation sha (decoded ck) p) h Q"
proof -
  have v: "validate_health_projection sha p = None" and d: "disabled_unhealthy p"
    using p by (simp_all add: transactional_def)
  have led: "ledger_with ck h" and sam: "samples_ok sha (ck_sequence ck) h" and rows_ok: "scope_rows_ok h b"
    and base: "ck_sequence ck = None \<longrightarrow> b = None" and al: "alerts_ok h"
    using h by (simp_all add: history_with_def)
  show ?thesis
    unfolding store_observation_def
  proof (rule tx_ok_bind, rule read_evaluation_ok[OF rows_ok], rule tx_ok_then,
      rule archive_eligible_alerts_ok[OF al recorded_timestamp[OF p]], rule tx_ok_bind)
    fix rows h1
    assume rows0: "rows_of h rows" and al1: "alerts_ok h1" and same: "same_samples h h1"
      and settled: "settled h1 (hp_recorded_at p)" and keeps: "exhausted h1 \<Longrightarrow> exhausted h"
    note tr = same_samples_transfer[OF same]
    have h1: "samples_ok sha (ck_sequence ck) h1" "scope_rows_ok h1 b" "alerts_ok h1"
      "ledger_with ck h1" "rows_of h1 rows" "settled h1 (hp_recorded_at p)"
      using rows0 sam rows_ok led al1 settled by (simp_all add: tr)
    have "h_replay h1 = h_replay h" using same by (simp add: same_samples_def)
    then have Q1: "Q outcome h2" if "outcome \<noteq> IO_REPLAYED"
      "history_with sha (advanced_checkpoint (decoded ck) p ck) b1 h2"
      "h_replay h2 = prune_replays (h_replay h1 @ [new_replay_row p])" for outcome h2 b1
      using Q that by simp
    have full1: "exhausted h1 \<longrightarrow> F (Ingestion_Error IR_GENERATION_EXHAUSTED False)"
      using full keeps by blast
    show "tx_upto F (evaluate_health_scopes rows p) h1 (\<lambda>health h2. tx_upto F
      (tx_bind (evaluate_gap rows (decoded ck) p) (\<lambda>gap.
     tx_bind (storage_decision sha rows (decoded ck) p) (\<lambda>decision1.
     tx_bind (plan_automatic_alerts health gap (hp_recorded_at p)
       (hp_missed_intervals p > 0 \<and> hp_sample_kind p \<noteq> SK_CLOCK_DISCONTINUITY)) (\<lambda>plans.
     let d = (if requires_supporting_sample plans then force_transition_storage decision1
              else decision1)
     in tx_bind (case sd_stored_kind d of
                   None \<Rightarrow> tx_return None
                 | Some kind \<Rightarrow>
                     tx_bind (insert_health_sample p kind) (\<lambda>sample.
                     tx_then (insert_component_samples sample (hp_components p)) (
                     tx_return (Some sample)))) (\<lambda>sample.
        tx_then (write_evaluation_rows rows health gap
          (if sd_updates_baseline d then sample else None)
          (if sample = None then None else Some (hp_recorded_at p))) (
        tx_then (tx_each (\<lambda>plan. persist_alert_plan plan (hp_recorded_at p) sample) plans) (
        tx_then (write_checkpoint_and_replay_ledger (decoded ck) p) (
        tx_return (sd_outcome d))))))))) h2 Q)"
      by (rule evaluate_health_scopes_ok[OF h1(2,3,5) v d])
        (rule store_evaluated_ok[where F = F, OF p new h1 base _ full1 Q1])
  qed
qed

section \<open>The transaction\<close>

lemma transaction_stores:
  assumes h: "history_with sha ck b h" and p: "transactional sha p" and new: "newer ck p"
    and full: "exhausted h \<longrightarrow> F (Ingestion_Error IR_GENERATION_EXHAUSTED False)"
  shows "tx_upto F (ingest_transaction sha p) h
    (\<lambda>o1 h1. \<exists>x b1. o1 = Some x \<and> history_with sha (advanced_checkpoint (decoded ck) p ck) b1 h1 \<and>
       h_replay h1 = prune_replays (h_replay h @ [new_replay_row p]))"
proof -
  have led: "ledger_with ck h" using h by (simp add: history_with_def)
  show ?thesis
    unfolding ingest_transaction_def
    by (rule tx_ok_bind, rule read_checkpoint_ok[OF led], rule tx_ok_then,
        rule validate_replay_anchor_ok[OF led], rule tx_ok_bind, rule is_replay_newer[OF new])
      (simp, rule tx_ok_bind, rule store_observation_ok[where F = F, OF h p new full], auto intro!: tx_ok_return)
qed

lemma transaction_late:
  assumes led: "ledger_with ck h" and late: "\<not> newer ck p"
    and stale: "hp_observation_sequence p \<notin> ry_sequence ` set (h_replay h) \<Longrightarrow>
      F (Ingestion_Error IR_STALE_SEQUENCE False)"
    and conflict: "hp_observation_sequence p \<in> ry_sequence ` set (h_replay h) \<Longrightarrow>
      new_replay_row p \<notin> set (h_replay h) \<Longrightarrow> F (Ingestion_Error IR_SEQUENCE_CONFLICT False)"
  shows "tx_upto F (ingest_transaction sha p) h (\<lambda>o1 h1. o1 = None \<and> new_replay_row p \<in> set (h_replay h))"
  unfolding ingest_transaction_def
  by (rule tx_ok_bind, rule read_checkpoint_ok[OF led], rule tx_ok_then,
      rule validate_replay_anchor_ok[OF led], rule tx_ok_bind, rule is_replay_late[OF led late])
    (use stale conflict in \<open>simp_all add: tx_ok_return\<close>)

text \<open>The handlers pass a refusal on, and turn a failure of SQLite into one of their own.\<close>

definition sqlite_failed :: "Connection \<Rightarrow> ingest_failure + IngestionOutcome \<Rightarrow> bool" where
  "sqlite_failed c r \<longleftrightarrow>
     (\<exists>e. Some e \<in> set (cn_failures c) \<and>
        r \<in> {Inl (classified_sqlite_error e), Inl (Ingestion_Error IR_TRUST_FAILED True)})"

lemma sqlite_failed_later: "sqlite_failed c1 r \<Longrightarrow> quiet_step c c1 \<Longrightarrow> sqlite_failed c r"
  by (auto simp: sqlite_failed_def quiet_step_def)

lemma handled_failure:
  assumes "handle_failure f c = (r, c1)" "(\<exists>g b. f = Ingestion_Error g b) \<or> (\<exists>e. f = Sqlite_Error e \<and> Some e \<in> set (cn_failures c0))"
    and "quiet_step c0 c"
  shows "r = Inl f \<and> (\<exists>g b. f = Ingestion_Error g b) \<or> sqlite_failed c0 r"
proof -
  obtain rb cb where roll: "rollback_after_failure c = (rb, cb)" by (cases "rollback_after_failure c")
  have "rb = Inr () \<or> (\<exists>e. Some e \<in> set (cn_failures c0) \<and> rb = Inl (Ingestion_Error IR_TRUST_FAILED True))"
    using rollback_outcome(2)[OF roll] assms(3) by (auto simp: quiet_step_def)
  then show ?thesis
    using assms(1,2) roll
    by (auto simp: handle_failure_def tx_then_def tx_bind_def tx_fail_def sqlite_failed_def)
qed

lemma ingestion_outcome:
  assumes run: "tx_handle (tx_bind (ingest_transaction sha p) conclude) c = (r, c1)"
    and spec: "tx_upto F (ingest_transaction sha p) (cn_history c) Q"
    and F: "\<forall>f. F f \<longrightarrow> (\<exists>g b. f = Ingestion_Error g b)"
  shows "(\<exists>h. r = Inr IO_REPLAYED \<and> Q None h \<and> cn_committed c1 = cn_committed c) \<or>
    (\<exists>x h. r = Inr x \<and> x \<noteq> IO_REPLAYED \<and> Q (Some x) h \<and> cn_committed c1 = h) \<or>
    (\<exists>f. r = Inl f \<and> F f \<and> cn_committed c1 = cn_committed c) \<or>
    sqlite_failed c r \<and> cn_committed c1 = cn_committed c"
proof -
  obtain t ct where tr: "ingest_transaction sha p c = (t, ct)" by (cases "ingest_transaction sha p c")
  have qt: "quiet_step c ct" by (rule uncommittedD[OF quiet_transaction tr])
  have never: "stored_answer r \<or> cn_committed c1 = cn_committed c"
    using handled_outcome(3)[OF run] by blast
  have failed: "stored_answer r = False" if "sqlite_failed c r \<or> (\<exists>f. r = Inl f)"
    using that by (auto simp: sqlite_failed_def stored_answer_def)
  show ?thesis
  proof (cases t)
    case (Inl f)
    then have f: "F f \<or> reported c f" using tx_okD(2)[OF spec refl] tr by simp
    have "handle_failure f ct = (r, c1)"
      using run tr Inl by (simp add: tx_handle_def tx_bind_def)
    then have "r = Inl f \<and> F f \<or> sqlite_failed c r"
      using handled_failure[of f ct r c1 c] f F qt by (auto simp: reported_def)
    then show ?thesis using never failed by blast
  next
    case (Inr outcome)
    then have Q: "Q outcome (cn_history ct)" using tx_okD(1)[OF spec refl] tr by simp
    obtain r0 c0 where con: "conclude outcome ct = (r0, c0)" by (cases "conclude outcome ct")
    then have h: "tx_handle (\<lambda>_. (r0, c0)) c = (r, c1)"
      using run tr Inr by (simp add: tx_handle_def tx_bind_def)
    have not_replayed: "outcome \<noteq> Some IO_REPLAYED"
      using transaction_outcome[of sha p] tr Inr unfolding answers_def by blast
    from conclude_outcome[OF con] show ?thesis
    proof (elim disjE exE conjE)
      assume "r0 = Inr IO_REPLAYED" "outcome = None"
      then show ?thesis using h Q never by (auto simp: tx_handle_def stored_answer_def)
    next
      fix x assume "r0 = Inr x" "outcome = Some x" "cn_committed c0 = cn_history ct"
      then show ?thesis using h Q not_replayed by (auto simp: tx_handle_def)
    next
      fix f e assume f: "r0 = Inl f" "quiet_step ct c0" and e: "Some e \<in> set (cn_failures ct)"
        "f = Sqlite_Error e"
      have "handle_failure f c0 = (r, c1)" using h f(1) by (simp add: tx_handle_def)
      then have "sqlite_failed c r"
        using handled_failure[of f c0 r c1 ct] f e qt sqlite_failed_later[OF _ qt]
        by (auto simp: quiet_step_def)
      then show ?thesis using never failed by blast
    next
      fix f e assume f: "r0 = Inl f" "quiet_step ct c0" and e: "Some e \<in> set (cn_failures ct)"
        "f = Ingestion_Error IR_TRUST_FAILED True"
      have "handle_failure f c0 = (r, c1)" using h f(1) by (simp add: tx_handle_def)
      then have "r = Inl f \<or> sqlite_failed ct r"
        using handled_failure[of f c0 r c1 ct] f e by blast
      moreover have "sqlite_failed ct (Inl f)" using e by (auto simp: sqlite_failed_def)
      ultimately have "sqlite_failed c r" using sqlite_failed_later[OF _ qt] by blast
      then show ?thesis using never failed by blast
    qed
  qed
qed

section \<open>One ingestion\<close>

definition newest_sequence :: "History \<Rightarrow> int option" where
  "newest_sequence h = (case h_checkpoint h of [ck] \<Rightarrow> ck_sequence ck | _ \<Rightarrow> None)"

lemma newest_with: "ledger_with ck h \<Longrightarrow> newest_sequence h = ck_sequence ck"
  by (simp add: ledger_with_def newest_sequence_def)

lemma pruned_replays:
  assumes led: "ledger_with ck h" and new: "newer ck p"
  shows "prune_replays (h_replay h @ [new_replay_row p]) =
    drop (length (h_replay h) - 63) (h_replay h @ [new_replay_row p])"
proof -
  have "ry_sequence r < hp_observation_sequence p" if "r \<in> set (h_replay h)" for r
    using ledger_below[OF led that] new by (auto simp: newer_def)
  then have "sorted_wrt (<) (map ry_sequence (h_replay h @ [new_replay_row p]))"
    using led by (simp add: ledger_with_def sorted_wrt_append new_replay_row_def)
  from prune_replays_eq[OF this] show ?thesis
    by (simp add: REPLAY_LEDGER_CAPACITY_def)
qed

definition ingested ::
  "History \<Rightarrow> HealthProjection \<Rightarrow> ingest_failure + IngestionOutcome \<Rightarrow> History \<Rightarrow> bool" where
  "ingested h p r h1 \<longleftrightarrow>
     (if \<forall>q. newest_sequence h = Some q \<longrightarrow> q < hp_observation_sequence p
      then (\<exists>x. r = Inr x \<and> x \<noteq> IO_REPLAYED) \<and>
           h_replay h1 = drop (length (h_replay h) - 63) (h_replay h @ [new_replay_row p]) \<or>
           r = Inl (Ingestion_Error IR_GENERATION_EXHAUSTED False) \<and> h1 = h \<and>
           (\<exists>scope kind a. latest_row scope kind (h_alerts h) = Some a \<and> al_episode a = 65535)
      else if new_replay_row p \<in> set (h_replay h) then r = Inr IO_REPLAYED \<and> h1 = h
      else if hp_observation_sequence p \<in> ry_sequence ` set (h_replay h)
      then r = Inl (Ingestion_Error IR_SEQUENCE_CONFLICT False) \<and> h1 = h
      else r = Inl (Ingestion_Error IR_STALE_SEQUENCE False) \<and> h1 = h)"

lemma ingest_cases:
  assumes h: "history_ok sha (cn_committed c)" and p: "transactional sha p"
    and run: "ingest_projection sha p c = (r, c1)"
  shows "history_ok sha (cn_committed c1)"
    and "sqlite_failed c r \<and> cn_committed c1 = cn_committed c \<or>
      ingested (cn_committed c) p r (cn_committed c1)"
proof -
  let ?h = "cn_committed c"
  obtain ck b where hist: "history_with sha ck b ?h" using h by (auto simp: history_ok_def)
  then have led: "ledger_with ck ?h" by (simp add: history_with_def)
  have new_iff: "(\<forall>q. newest_sequence ?h = Some q \<longrightarrow> q < hp_observation_sequence p) = newer ck p"
    by (simp add: newest_with[OF led] newer_def)
  obtain s cb where start: "begin_immediate c = (s, cb)" by (cases "begin_immediate c")
  note st = begin_outcome[OF start]
  have *: "history_ok sha (cn_committed c1) \<and>
      (sqlite_failed c r \<and> cn_committed c1 = ?h \<or> ingested ?h p r (cn_committed c1))"
  proof (cases "s = Inr ()")
    case False
    then obtain e where "Some e \<in> set (cn_failures c)" "s = Inl (Sqlite_Error e)" using st(2) by auto
    then show ?thesis using run start st(1) h p
      by (auto simp: ingest_unfold transactional_def sqlite_failed_def quiet_step_def)
  next
    case True
    then have cb: "cn_history cb = ?h" "cn_committed cb = ?h" using st by (auto simp: quiet_step_def)
    have body: "tx_handle (tx_bind (ingest_transaction sha p) conclude) cb = (r, c1)"
      using run start True p
      by (auto simp: ingest_unfold transactional_def split: unit.splits)
    have sqlite: "sqlite_failed c r" if "sqlite_failed cb r"
      using sqlite_failed_later[OF that st(1)] .
    show ?thesis
    proof (cases "newer ck p")
      case True
      let ?F = "\<lambda>f. f = Ingestion_Error IR_GENERATION_EXHAUSTED False \<and> exhausted ?h"
      have spec: "tx_upto ?F (ingest_transaction sha p) (cn_history cb) (\<lambda>o1 h1. \<exists>x b1. o1 = Some x \<and>
          history_with sha (advanced_checkpoint (decoded ck) p ck) b1 h1 \<and>
          h_replay h1 = prune_replays (h_replay ?h @ [new_replay_row p]))"
        unfolding cb(1) by (rule transaction_stores[OF hist p True]) simp
      have "\<forall>f. ?F f \<longrightarrow> (\<exists>g b. f = Ingestion_Error g b)" by blast
      from ingestion_outcome[OF body spec this] show ?thesis
      proof (elim disjE exE conjE)
        fix x h1 x' b1
        assume "r = Inr x" "x \<noteq> IO_REPLAYED" "Some x = Some x'" "cn_committed c1 = h1"
          "history_with sha (advanced_checkpoint (decoded ck) p ck) b1 h1"
          "h_replay h1 = prune_replays (h_replay ?h @ [new_replay_row p])"
        then show ?thesis using pruned_replays[OF led True] True
          by (auto simp: ingested_def new_iff history_ok_def)
      qed (use True sqlite h cb in \<open>auto simp: ingested_def new_iff exhausted_def MAX_BOUNDED_COUNTER_def\<close>)
    next
      case False
      let ?seen = "hp_observation_sequence p \<in> ry_sequence ` set (h_replay ?h)"
      let ?F = "\<lambda>f. new_replay_row p \<notin> set (h_replay ?h) \<and> f = Ingestion_Error
          (if ?seen then IR_SEQUENCE_CONFLICT else IR_STALE_SEQUENCE) False"
      have row: "new_replay_row p \<in> set (h_replay ?h) \<Longrightarrow> ?seen"
        by (force simp: new_replay_row_def image_iff)
      have spec: "tx_upto ?F (ingest_transaction sha p) (cn_history cb)
          (\<lambda>o1 h1. o1 = None \<and> new_replay_row p \<in> set (h_replay ?h))"
        unfolding cb(1) by (rule transaction_late[OF led False]) (use row in auto)
      have "\<forall>f. ?F f \<longrightarrow> (\<exists>g b. f = Ingestion_Error g b)" by blast
      from ingestion_outcome[OF body spec this] show ?thesis
      proof (elim disjE exE conjE)
        fix h1 assume "r = Inr IO_REPLAYED" "new_replay_row p \<in> set (h_replay ?h)"
          "cn_committed c1 = cn_committed cb"
        then show ?thesis using False h cb unfolding ingested_def new_iff by simp
      next
        fix f assume "r = Inl f" "new_replay_row p \<notin> set (h_replay ?h)" "cn_committed c1 = cn_committed cb"
          "f = Ingestion_Error (if ?seen then IR_SEQUENCE_CONFLICT else IR_STALE_SEQUENCE) False"
        then show ?thesis using False h cb unfolding ingested_def new_iff by auto
      next
        assume "sqlite_failed cb r" "cn_committed c1 = cn_committed cb"
        then show ?thesis using sqlite h cb by simp
      qed simp
    qed
  qed
  then show "history_ok sha (cn_committed c1)"
    and "sqlite_failed c r \<and> cn_committed c1 = ?h \<or> ingested ?h p r (cn_committed c1)" by simp_all
qed

text \<open>
  C18. Ingestion keeps the history in order. Take a history in order, a projection that validates
  and has no healthy component with a reason that says it is disabled, and any failures SQLite may
  report. Afterwards the committed history is in order again: the ledger holds the last 64 accepted
  observations and ends with the checkpoint, every stored sample reads back as the projection it
  came from, the six evaluation rows are states the evaluators accept, and of every scope and kind
  only the latest alert may not be archived yet. The answer is the one the ledger gives. An
  observation newer than every accepted one is accepted and joins the end of the ledger, of which
  the last 64 entries stay; it is refused for an exhausted generation counter only when the latest
  alert of some scope and kind has the largest generation. An older one is a replay when the ledger
  has this very entry, a conflict when it has another one with the same sequence, and stale
  otherwise. Only a failure SQLite reported can make an ingestion answer otherwise, and then nothing
  is committed.
\<close>

theorem ingestion_correct:
  assumes "history_ok sha (cn_committed c)" "validate_health_projection sha p = None"
    "disabled_unhealthy p" "ingest_projection sha p c = (r, c1)"
  shows "history_ok sha (cn_committed c1) \<and>
    (sqlite_failed c r \<and> cn_committed c1 = cn_committed c \<or>
     ingested (cn_committed c) p r (cn_committed c1))"
  using ingest_cases[of sha c p r c1] assms by (simp add: transactional_def)

section \<open>Replays\<close>

text \<open>Observations ingested one after the other, with the answer to each.\<close>

fun ingest_all ::
  "(bytes \<Rightarrow> bytes) \<Rightarrow> HealthProjection list \<Rightarrow> Connection
    \<Rightarrow> (ingest_failure + IngestionOutcome) list \<times> Connection" where
  "ingest_all sha [] c = ([], c)"
| "ingest_all sha (p # ps) c =
     (let (r, c1) = ingest_projection sha p c; (rs, c2) = ingest_all sha ps c1 in (r # rs, c2))"

definition newly_accepted :: "ingest_failure + IngestionOutcome \<Rightarrow> bool" where
  "newly_accepted r \<longleftrightarrow> (\<exists>x. r = Inr x \<and> x \<noteq> IO_REPLAYED)"

text \<open>
  Where the ledger keeps an observation after \<open>k\<close> later ones were accepted: before the last \<open>k\<close> rows
  while they are fewer than 64, and nowhere afterwards.
\<close>

definition retained :: "HealthProjection \<Rightarrow> nat \<Rightarrow> History \<Rightarrow> bool" where
  "retained p k h \<longleftrightarrow>
     (if k \<le> 63
      then \<exists>before later. h_replay h = before @ new_replay_row p # later \<and> length later = k
      else length (h_replay h) = 64 \<and>
           (\<forall>r \<in> set (h_replay h). hp_observation_sequence p < ry_sequence r))"

lemma ingest_step:
  assumes "history_ok sha (cn_committed c)" "transactional sha q" "ingest_projection sha q c = (r, c1)"
  shows "if newly_accepted r
    then (\<forall>n. newest_sequence (cn_committed c) = Some n \<longrightarrow> n < hp_observation_sequence q) \<and>
      h_replay (cn_committed c1) = drop (length (h_replay (cn_committed c)) - 63)
        (h_replay (cn_committed c) @ [new_replay_row q])
    else cn_committed c1 = cn_committed c"
  using ingest_cases(2)[OF assms]
  by (auto simp: newly_accepted_def ingested_def sqlite_failed_def split: if_splits)

lemma retained_step:
  assumes h: "ledger_with ck h" and k: "retained p k h" and q: "newer ck q"
    and h1: "h_replay h1 = drop (length (h_replay h) - 63) (h_replay h @ [new_replay_row q])"
  shows "retained p (Suc k) h1"
proof -
  have below: "ry_sequence r < hp_observation_sequence q" if "r \<in> set (h_replay h)" for r
    using ledger_below[OF h that] q by (auto simp: newer_def)
  have seq: "ry_sequence (new_replay_row x) = hp_observation_sequence x" for x
    by (simp add: new_replay_row_def)
  show ?thesis
  proof (cases "k \<le> 63")
    case True
    then obtain before later where l: "h_replay h = before @ new_replay_row p # later" "length later = k"
      using k by (auto simp: retained_def)
    show ?thesis
    proof (cases "k = 63")
      case False
      then have "h_replay h1 = drop (length (h_replay h) - 63) before @ new_replay_row p #
          later @ [new_replay_row q]"
        using True l by (simp add: h1)
      then have "\<exists>b l. h_replay h1 = b @ new_replay_row p # l \<and> length l = Suc k"
        using l(2) by (intro exI[of _ "drop (length (h_replay h) - 63) before"]
            exI[of _ "later @ [new_replay_row q]"]) simp
      then show ?thesis using False True by (simp add: retained_def)
    next
      case full: True
      then have "h_replay h1 = later @ [new_replay_row q]" using l by (simp add: h1)
      moreover have "hp_observation_sequence p < ry_sequence r" if "r \<in> set later" for r
        using h that by (auto simp: ledger_with_def l(1) sorted_wrt_append seq)
      moreover have "hp_observation_sequence p < hp_observation_sequence q"
        using below[of "new_replay_row p"] by (simp add: l(1) seq)
      ultimately show ?thesis using full l(2) by (auto simp: retained_def seq)
    qed
  next
    case False
    then have l: "length (h_replay h) = 64" "\<forall>r \<in> set (h_replay h). hp_observation_sequence p < ry_sequence r"
      using k by (simp_all add: retained_def)
    obtain r where "r \<in> set (h_replay h)" using l(1) by (cases "h_replay h") auto
    then have "hp_observation_sequence p < hp_observation_sequence q"
      using l(2) below[of r] by force
    then have "\<forall>r \<in> set (h_replay h @ [new_replay_row q]). hp_observation_sequence p < ry_sequence r"
      using l(2) by (auto simp: seq)
    then have "\<forall>r \<in> set (h_replay h1). hp_observation_sequence p < ry_sequence r"
      unfolding h1 using in_set_dropD by metis
    moreover have "length (h_replay h1) = 64" using l(1) by (simp add: h1)
    ultimately show ?thesis using False by (simp add: retained_def)
  qed
qed

lemma ingest_all_retained:
  assumes "history_ok sha (cn_committed c)" "retained p k (cn_committed c)"
    and "\<forall>q \<in> set later. transactional sha q" "ingest_all sha later c = (rs, c1)"
  shows "history_ok sha (cn_committed c1) \<and>
    retained p (k + length (filter newly_accepted rs)) (cn_committed c1)"
  using assms
proof (induction later arbitrary: c k rs)
  case (Cons q later)
  obtain r c' where first: "ingest_projection sha q c = (r, c')" by (cases "ingest_projection sha q c")
  obtain rs' where rest: "ingest_all sha later c' = (rs', c1)" "rs = r # rs'"
    using Cons.prems(4) first by (auto simp: Let_def split: prod.splits)
  have q: "transactional sha q" "\<forall>q \<in> set later. transactional sha q" using Cons.prems(3) by simp_all
  note step = ingest_step[OF Cons.prems(1) q(1) first]
  note ok = ingest_cases(1)[OF Cons.prems(1) q(1) first]
  obtain ck where led: "ledger_with ck (cn_committed c)"
    using Cons.prems(1) by (auto simp: history_ok_def history_with_def)
  have "retained p (if newly_accepted r then Suc k else k) (cn_committed c')"
    using step retained_step[OF led Cons.prems(2), of q] newest_with[OF led] Cons.prems(2)
    by (auto simp: newer_def split: if_splits)
  from Cons.IH[OF ok this q(2) rest(1)] show ?case by (auto simp: rest(2) split: if_splits)
qed simp

lemma retained_answer:
  assumes ok: "history_ok sha (cn_committed d)" and p: "transactional sha p"
    and k: "retained p k (cn_committed d)" and quiet: "list_all (\<lambda>f. f = None) (cn_failures d)"
  shows "\<exists>d1. ingest_projection sha p d =
      (if k \<le> 63 then Inr IO_REPLAYED else Inl (Ingestion_Error IR_STALE_SEQUENCE False), d1) \<and>
    cn_committed d1 = cn_committed d"
proof -
  let ?h = "cn_committed d"
  obtain ck where led: "ledger_with ck ?h" using ok by (auto simp: history_ok_def history_with_def)
  obtain r d1 where run: "ingest_projection sha p d = (r, d1)" by (cases "ingest_projection sha p d")
  have "\<not> sqlite_failed d r" using quiet by (auto simp: sqlite_failed_def list_all_iff)
  then have i: "ingested ?h p r (cn_committed d1)" using ingest_cases(2)[OF ok p run] by blast
  have old: "\<exists>n. newest_sequence ?h = Some n \<and> hp_observation_sequence p \<le> n"
    if "r \<in> set (h_replay ?h)" "hp_observation_sequence p \<le> ry_sequence r" for r
    using ledger_below[OF led that(1)] that(2) newest_with[OF led] by auto
  show ?thesis
  proof (cases "k \<le> 63")
    case True
    then have "new_replay_row p \<in> set (h_replay ?h)" using k by (auto simp: retained_def)
    then show ?thesis using old[of "new_replay_row p"] i run True
      by (auto simp: ingested_def new_replay_row_def)
  next
    case False
    then have l: "length (h_replay ?h) = 64" "\<forall>r \<in> set (h_replay ?h). hp_observation_sequence p < ry_sequence r"
      using k by (simp_all add: retained_def)
    then have "hp_observation_sequence p \<notin> ry_sequence ` set (h_replay ?h)" by force
    moreover from this have "new_replay_row p \<notin> set (h_replay ?h)"
      by (force simp: new_replay_row_def image_iff)
    moreover obtain r0 where r0: "r0 \<in> set (h_replay ?h)" using l(1) by (cases "h_replay ?h") auto
    moreover have "\<exists>n. newest_sequence ?h = Some n \<and> hp_observation_sequence p \<le> n"
      using old[OF r0] l(2) r0 by force
    ultimately show ?thesis using i run False
      by (auto simp: ingested_def split: if_splits)
  qed
qed

text \<open>
  C20. Ingestion is idempotent as long as the ledger remembers. Once an observation was accepted,
  let any further valid observations be ingested, whatever SQLite reports. Ingesting the first one
  again, on any connection to that history on which SQLite has nothing to report, changes nothing:
  it is a replay as long as at most 63 of the others were accepted, and refused as stale from the
  64th on, when the ledger has lost it.
\<close>

theorem ingestion_idempotent:
  assumes "history_ok sha (cn_committed c)" "validate_health_projection sha p = None"
    "disabled_unhealthy p" "ingest_projection sha p c = (Inr outcome, c1)" "outcome \<noteq> IO_REPLAYED"
    and "\<forall>q \<in> set later. validate_health_projection sha q = None \<and> disabled_unhealthy q"
    and "ingest_all sha later c1 = (replies, c2)"
    and "cn_committed d = cn_committed c2" "list_all (\<lambda>f. f = None) (cn_failures d)"
  shows "\<exists>d1. ingest_projection sha p d =
      (if length (filter (\<lambda>r. \<exists>x. r = Inr x \<and> x \<noteq> IO_REPLAYED) replies) \<le> 63
       then Inr IO_REPLAYED else Inl (Ingestion_Error IR_STALE_SEQUENCE False), d1) \<and>
    cn_committed d1 = cn_committed d"
proof -
  have p: "transactional sha p" and later: "\<forall>q \<in> set later. transactional sha q"
    using assms(2,3,6) by (simp_all add: transactional_def)
  have "newly_accepted (Inr outcome)" using assms(5) by (simp add: newly_accepted_def)
  then have "h_replay (cn_committed c1) = drop (length (h_replay (cn_committed c)) - 63)
      (h_replay (cn_committed c) @ [new_replay_row p])"
    using ingest_step[OF assms(1) p assms(4)] by simp
  then have "\<exists>before. h_replay (cn_committed c1) = before @ [new_replay_row p]" by simp
  then have first: "retained p 0 (cn_committed c1)" by (auto simp: retained_def)
  note run = ingest_all_retained[OF ingest_cases(1)[OF assms(1) p assms(4)] first later assms(7)]
  show ?thesis
    using retained_answer[of sha d p "length (filter newly_accepted replies)"] run p assms(8,9)
    by (simp add: newly_accepted_def[abs_def])
qed

section \<open>From a new database\<close>

lemma new_history_ok: "history_ok sha new_history"
proof -
  let ?ck = "\<lparr>ck_singleton_id = 1, ck_sequence = None, ck_observed = None, ck_digest = None,
      ck_kind = None, ck_count = 0\<rparr>"
  have "ledger_with ?ck new_history"
    by (simp add: ledger_with_def new_history_def checkpoint_check_def null_or_def between_def bounds)
  moreover have "samples_ok sha None new_history" by (simp add: samples_ok_def new_history_def)
  moreover have "alerts_ok new_history" by (simp add: alerts_ok_def new_history_def older_archived_def)
  moreover have "scope_rows_ok new_history None"
  proof -
    have "evaluation_check (new_evaluation_row s)" for s
    proof -
      have "is_gap_phase ''clear''" "is_scope (scope_value s)"
        by (simp_all add: is_gap_phase_def is_scope_def gap_phase_of_def member_of_def)
      then show ?thesis
        by (cases s) (simp_all add: evaluation_check_def new_evaluation_row_def null_or_def between_def bounds)
    qed
    then show ?thesis
      by (auto simp: scope_rows_ok_def new_history_def sample_reference_def null_or_def
          new_evaluation_row_def)
  qed
  ultimately have "history_with sha ?ck None new_history" by (simp add: history_with_def)
  then show ?thesis by (auto simp: history_ok_def)
qed

definition new_connection :: "History \<Rightarrow> Connection" where
  "new_connection h = \<lparr>cn_history = h, cn_committed = h, cn_failures = []\<rparr>"

lemma sample_transactional:
  obtains p where "validate_health_projection sample_digest p = None" "disabled_unhealthy p"
proof -
  have "\<forall>x. length (sample_digest x) = PROJECTION_DIGEST_BYTES" by (simp add: sample_digest_def)
  then obtain p where p: "validate_health_projection sample_digest p = None"
    "(\<lambda>c. (component_value (cp_component c), cp_status c)) ` set (hp_components p) =
      (\<lambda>c. (ch_name c, history_status (ch_status c))) ` set (hr_components sample_report)"
    using projection_validates[where sha = sample_digest and from_iso = "\<lambda>_. Some sample_time"
        and report = sample_report and sequence = 7 and recorded_at = sample_time
        and kind = SK_HEARTBEAT and missed = 0] sample_projected by auto
  have "cp_status c = HH_UNAVAILABLE" if "c \<in> set (hp_components p)" for c
  proof -
    have "(component_value (cp_component c), cp_status c) \<in>
        (\<lambda>c. (ch_name c, history_status (ch_status c))) ` set (hr_components sample_report)"
      unfolding p(2)[symmetric] using that by blast
    then show ?thesis by (auto simp: sample_report_def sample_component_def)
  qed
  then have "disabled_unhealthy p" by (simp add: disabled_unhealthy_def list_all_iff)
  then show thesis using that p(1) by blast
qed

theorem ingestion_correct_witness:
  "\<exists>p outcome c1. ingest_projection sample_digest p (new_connection new_history) = (outcome, c1) \<and>
     history_ok sample_digest (cn_committed c1) \<and> ingested new_history p outcome (cn_committed c1)"
proof -
  obtain p where p: "validate_health_projection sample_digest p = None" "disabled_unhealthy p"
    by (rule sample_transactional)
  obtain r c1 where run: "ingest_projection sample_digest p (new_connection new_history) = (r, c1)"
    by (cases "ingest_projection sample_digest p (new_connection new_history)")
  have "history_ok sample_digest (cn_committed (new_connection new_history))"
    by (simp add: new_connection_def new_history_ok)
  from ingestion_correct[OF this p run] show ?thesis
    using run by (auto simp: sqlite_failed_def new_connection_def)
qed

theorem ingestion_idempotent_witness:
  "\<exists>p x c1 d1. ingest_projection sample_digest p (new_connection new_history) = (Inr x, c1) \<and>
     x \<noteq> IO_REPLAYED \<and>
     ingest_projection sample_digest p (new_connection (cn_committed c1)) = (Inr IO_REPLAYED, d1) \<and>
     cn_committed d1 = cn_committed c1"
proof -
  obtain p where p: "validate_health_projection sample_digest p = None" "disabled_unhealthy p"
    by (rule sample_transactional)
  then have t: "transactional sample_digest p" by (simp add: transactional_def)
  let ?c = "new_connection new_history"
  have ok: "history_ok sample_digest (cn_committed ?c)"
    by (simp add: new_connection_def new_history_ok)
  obtain r c1 where run: "ingest_projection sample_digest p ?c = (r, c1)"
    by (cases "ingest_projection sample_digest p ?c")
  have "ingested new_history p r (cn_committed c1)"
    using ingest_cases(2)[OF ok t run] by (auto simp: sqlite_failed_def new_connection_def)
  then obtain x where x: "r = Inr x" "x \<noteq> IO_REPLAYED"
    by (auto simp: ingested_def new_history_def newest_sequence_def latest_row_def)
  have "\<exists>d1. ingest_projection sample_digest p (new_connection (cn_committed c1)) =
      (if length (filter (\<lambda>r. \<exists>x. r = Inr x \<and> x \<noteq> IO_REPLAYED) ([] :: (ingest_failure + IngestionOutcome) list)) \<le> 63
       then Inr IO_REPLAYED else Inl (Ingestion_Error IR_STALE_SEQUENCE False), d1) \<and>
    cn_committed d1 = cn_committed (new_connection (cn_committed c1))"
    by (rule ingestion_idempotent[OF ok p run[unfolded x(1)] x(2), where later = "[]"])
      (simp_all add: new_connection_def)
  then show ?thesis using run x by (auto simp: new_connection_def)
qed

end
