(* ===== verification/Store_World.thy ===== *)
theory Store_World
  imports Ingestion
begin

text \<open>
  What the operations of an open history store run on, for \<open>queries.py\<close>, \<open>maintenance.py\<close>,
  \<open>storage_envelope.py\<close> and \<open>store.py\<close> under \<open>health_history/\<close>: the connection, the monotonic
  clock, the progress handler SQLite calls while it works, and what SQLite's pragmas, the file system
  and the disk will answer. An operation is a step on that world that raises an exception or returns.
\<close>

section \<open>Exceptions\<close>

datatype QueryRejection =
    QR_INVALID_QUERY | QR_INVALID_CURSOR | QR_NOT_FOUND | QR_STORAGE_BUSY | QR_MALFORMED_STATE
  | QR_TRUST_FAILED | QR_PERSISTENCE_FAILED

datatype MaintenanceRejection =
    MR_INVALID_MAINTENANCE | MR_STORAGE_BUSY | MR_TIMED_OUT | MR_PERSISTENCE_FAILED
  | MR_MALFORMED_STATE | MR_TRUST_FAILED

datatype StorageEnvelopeRejection =
    SR_UNSUPPORTED_RUNTIME | SR_STORAGE_BUSY | SR_TIMED_OUT | SR_PERSISTENCE_FAILED
  | SR_MALFORMED_STATE | SR_TRUST_FAILED

text \<open>
  The sanitised errors with their \<open>trust_lost\<close> flags, the store's own error, a failed check of a
  file (\<open>FilesystemBoundaryError\<close> or \<open>OSError\<close>), and what a statement or ingestion raised.
\<close>

datatype store_exception =
    Query_Error QueryRejection bool
  | Maintenance_Error MaintenanceRejection bool
  | Storage_Error StorageEnvelopeRejection bool
  | Store_Error string
  | Boundary_Error
  | Database_Error ingest_failure

section \<open>The world of a store\<close>

text \<open>
  A row a pragma answers holds integers, or something else (\<open>None\<close>). \<open>w_pragmas\<close> are the answers to
  come; none are left once the list is used up, and then a pragma has no row.
\<close>

type_synonym pragma_row = "int option list"

text \<open>
  \<open>lstat\<close> of the write-ahead log followed by \<open>validate_database_file\<close>: no such file, another
  error of \<open>lstat\<close>, a file that is not the expected one, or the size of the expected one. A check of
  the store's own files passes or fails.
\<close>

datatype wal_file = Wal_Missing | Wal_Unreadable | Wal_Rejected | Wal_Size int

record World =
  w_connection :: Connection
  w_closed :: bool
  w_clock :: "nat \<Rightarrow> seconds"
  w_reads :: nat
  w_deadline :: seconds
  w_expired :: bool
  w_handler :: bool
  w_progress :: "nat list"
  w_pragmas :: "pragma_row list list"
  w_wal_files :: "wal_file list"
  w_disk :: "(int \<times> int \<times> int) option list"
  w_runtime_safe :: bool
  w_files_stable :: "bool list"

text \<open>
  A step on a state that raises an exception or returns; what an operation of the store runs as is one
  on its world.
\<close>

type_synonym ('s, 'e, 'a) action = "'s \<Rightarrow> ('e + 'a) \<times> 's"
type_synonym 'a prog = "(World, store_exception, 'a) action"

definition prog_return :: "'a \<Rightarrow> ('s, 'e, 'a) action" where
  "prog_return x w = (Inr x, w)"

definition prog_raise :: "'e \<Rightarrow> ('s, 'e, 'a) action" where
  "prog_raise e w = (Inl e, w)"

definition prog_bind ::
  "('s, 'e, 'a) action \<Rightarrow> ('a \<Rightarrow> ('s, 'e, 'b) action) \<Rightarrow> ('s, 'e, 'b) action" where
  "prog_bind m f w =
     (case m w of
        (Inl e, w1) \<Rightarrow> (Inl e, w1)
      | (Inr x, w1) \<Rightarrow> f x w1)"

definition prog_then ::
  "('s, 'e, unit) action \<Rightarrow> ('s, 'e, 'b) action \<Rightarrow> ('s, 'e, 'b) action" where
  "prog_then m k = prog_bind m (\<lambda>_. k)"

primrec prog_map ::
  "('a \<Rightarrow> ('s, 'e, 'b) action) \<Rightarrow> 'a list \<Rightarrow> ('s, 'e, 'b list) action" where
  "prog_map f [] = prog_return []"
| "prog_map f (x # xs) =
     prog_bind (f x) (\<lambda>y. prog_bind (prog_map f xs) (\<lambda>ys. prog_return (y # ys)))"

primrec prog_each ::
  "('a \<Rightarrow> ('s, 'e, unit) action) \<Rightarrow> 'a list \<Rightarrow> ('s, 'e, unit) action" where
  "prog_each f [] = prog_return ()"
| "prog_each f (x # xs) = prog_then (f x) (prog_each f xs)"

definition prog_lift :: "'e + 'a \<Rightarrow> ('s, 'e, 'a) action" where
  "prog_lift r w = (r, w)"

definition prog_require :: "bool \<Rightarrow> 'e \<Rightarrow> ('s, 'e, unit) action" where
  "prog_require b e = (if b then prog_return () else prog_raise e)"

text \<open>\<open>try: m except e: h(e)\<close>, and \<open>try: m finally: f\<close>.\<close>

definition prog_handle ::
  "('s, 'e, 'a) action \<Rightarrow> ('e \<Rightarrow> ('s, 'f, 'a) action) \<Rightarrow> ('s, 'f, 'a) action" where
  "prog_handle m h w =
     (case m w of
        (Inl e, w1) \<Rightarrow> h e w1
      | (Inr x, w1) \<Rightarrow> (Inr x, w1))"

definition prog_finally ::
  "('s, 'e, 'a) action \<Rightarrow> ('s, 'e, unit) action \<Rightarrow> ('s, 'e, 'a) action" where
  "prog_finally m f w =
     (case m w of
        (r, w1) \<Rightarrow>
          (case f w1 of
             (Inl e, w2) \<Rightarrow> (Inl e, w2)
           | (Inr _, w2) \<Rightarrow> (r, w2)))"

section \<open>Statements\<close>

definition on_connection :: "'a tx \<Rightarrow> 'a prog" where
  "on_connection m w =
     (case m (w_connection w) of
        (Inl f, c1) \<Rightarrow> (Inl (Database_Error f), w\<lparr>w_connection := c1\<rparr>)
      | (Inr x, c1) \<Rightarrow> (Inr x, w\<lparr>w_connection := c1\<rparr>))"

definition SQLITE_INTERRUPT :: int where "SQLITE_INTERRUPT = 9"

text \<open>
  While a statement runs, SQLite calls the installed handler as often as \<open>w_progress\<close> says; a call
  after the deadline interrupts the statement before it has an effect.
\<close>

fun call_progress :: "nat \<Rightarrow> World \<Rightarrow> bool \<times> World" where
  "call_progress 0 w = (False, w)"
| "call_progress (Suc n) w =
     (if w_deadline w \<le> w_clock w (w_reads w)
      then (True, w\<lparr>w_reads := Suc (w_reads w), w_expired := True\<rparr>)
      else call_progress n (w\<lparr>w_reads := Suc (w_reads w)\<rparr>))"

definition interrupted :: store_exception where
  "interrupted =
     Database_Error (Sqlite_Error \<lparr>sf_integrity = False, sf_errorcode = Some SQLITE_INTERRUPT\<rparr>)"

definition execute :: "'a tx \<Rightarrow> 'a prog" where
  "execute body w =
     (if w_handler w
      then case call_progress (case w_progress w of [] \<Rightarrow> 0 | n # _ \<Rightarrow> n)
                  (w\<lparr>w_progress := tl (w_progress w)\<rparr>) of
             (True, w1) \<Rightarrow> (Inl interrupted, w1)
           | (False, w1) \<Rightarrow> on_connection body w1
      else on_connection body w)"

text \<open>A pragma: a statement of which only the rows matter.\<close>

definition pragma :: "pragma_row list prog" where
  "pragma =
     prog_then (execute (run_statement (tx_return ()))) (\<lambda>w.
       (Inr (case w_pragmas w of [] \<Rightarrow> [] | rows # _ \<Rightarrow> rows), w\<lparr>w_pragmas := tl (w_pragmas w)\<rparr>))"

section \<open>The deadline of an operation\<close>

definition read_clock :: "seconds prog" where
  "read_clock w = (Inr (w_clock w (w_reads w)), w\<lparr>w_reads := Suc (w_reads w)\<rparr>)"

definition start_deadline :: "seconds \<Rightarrow> unit prog" where
  "start_deadline seconds =
     prog_bind read_clock (\<lambda>now w.
       (Inr (), w\<lparr>w_deadline := now + seconds, w_expired := False\<rparr>))"

definition check_deadline :: "store_exception \<Rightarrow> unit prog" where
  "check_deadline timed_out =
     prog_bind read_clock (\<lambda>now w.
       if w_deadline w \<le> now then (Inl timed_out, w\<lparr>w_expired := True\<rparr>) else (Inr (), w))"

definition set_handler :: "bool \<Rightarrow> unit prog" where
  "set_handler on =
     prog_then (on_connection (run_statement (tx_return ())))
       (\<lambda>w. (Inr (), w\<lparr>w_handler := on\<rparr>))"

end
