(* ===== verification/History_Queries.thy ===== *)
theory History_Queries
  imports Store_World "HOL-Library.Product_Lexorder"
begin

text \<open>
  \<open>health_history/queries.py\<close>: the bounded read-only queries. Rows are read back into validated
  records, newest first for samples and alerts, in order of time for the events of an alert, a page at
  a time; a page that does not end the table carries the cursor the next one starts after. Every
  query is a read transaction that is rolled back.
\<close>

section \<open>Records\<close>

abbreviation malformed_query :: store_exception where
  "malformed_query \<equiv> Query_Error QR_MALFORMED_STATE True"

definition positive_id :: "int \<Rightarrow> bool" where
  "positive_id = between 1 MAX_OBSERVATION_SEQUENCE"

record SchedulerResumeState =
  rs_sequence :: "int option"
  rs_observed_at :: "int option"
  rs_sample_kind :: "SampleKind option"
  rs_count :: int

definition resume_state_valid :: "SchedulerResumeState \<Rightarrow> bool" where
  "resume_state_valid s \<longleftrightarrow>
     between 0 MAX_BOUNDED_COUNTER (rs_count s) \<and>
     (rs_sequence s = None \<and> rs_observed_at s = None \<and> rs_sample_kind s = None \<and> rs_count s = 0 \<or>
      (case (rs_sequence s, rs_observed_at s, rs_sample_kind s) of
         (Some q, Some t, Some _) \<Rightarrow> is_sequence q \<and> is_timestamp t \<and> 1 \<le> rs_count s
       | _ \<Rightarrow> False))"

text \<open>A position in a table: a time and the id of a row, compared in that order.\<close>

record Cursor =
  cu_time :: int
  cu_id :: int

definition make_cursor :: "int \<Rightarrow> int \<Rightarrow> Cursor prog" where
  "make_cursor t i =
     (if is_timestamp t \<and> positive_id i then prog_return \<lparr>cu_time = t, cu_id = i\<rparr>
      else prog_raise (Query_Error QR_INVALID_CURSOR False))"

text \<open>A component record has the fields and the constructor of a component projection.\<close>

type_synonym HealthComponentRecord = ComponentProjection

record HealthSampleRecord =
  hs_id :: int
  hs_sequence :: int
  hs_observed_at :: int
  hs_recorded_at :: int
  hs_overall_status :: HealthHistoryStatus
  hs_uptime_ms :: int
  hs_sample_kind :: SampleKind
  hs_accepted_kind :: SampleKind
  hs_missed :: int
  hs_components :: "HealthComponentRecord list"

definition sample_record_valid :: "HealthSampleRecord \<Rightarrow> bool" where
  "sample_record_valid s \<longleftrightarrow>
     positive_id (hs_id s) \<and> between 0 MAX_OBSERVATION_SEQUENCE (hs_sequence s) \<and>
     between 0 MAX_TIMESTAMP_US (hs_observed_at s) \<and> between 0 MAX_TIMESTAMP_US (hs_recorded_at s) \<and>
     between 0 MAX_SERVICE_UPTIME_MS (hs_uptime_ms s) \<and>
     between 0 MAX_BOUNDED_COUNTER (hs_missed s) \<and>
     map cp_component (hs_components s) = HISTORY_COMPONENT_ORDER \<and>
     worst_component_status (hs_components s) = Some (hs_overall_status s)"

record AlertRecord =
  ar_id :: int
  ar_scope :: AlertScope
  ar_kind :: AlertKind
  ar_lifecycle :: AlertLifecycle
  ar_severity :: HealthHistoryStatus
  ar_opened_at :: int
  ar_acknowledged_at :: "int option"
  ar_recovered_at :: "int option"
  ar_archived_at :: "int option"
  ar_first_sample :: "int option"
  ar_latest_sample :: "int option"
  ar_episode_count :: int
  ar_occurrence_count :: int
  ar_cooldown_until :: int

definition record_state :: "AlertRecord \<Rightarrow> AutomaticAlertState" where
  "record_state a =
     \<lparr>aa_scope = ar_scope a, aa_kind = ar_kind a, aa_lifecycle = ar_lifecycle a,
      aa_generation = ar_episode_count a, aa_occurrence_count = ar_occurrence_count a,
      aa_cooldown_until = ar_cooldown_until a, aa_recovered_at = ar_recovered_at a\<rparr>"

text \<open>What a lifecycle says of the times of an alert, and the order the times must have.\<close>

definition lifecycle_times :: "AlertRecord \<Rightarrow> bool" where
  "lifecycle_times a \<longleftrightarrow>
     (case ar_lifecycle a of
        AL_OPEN \<Rightarrow>
          ar_acknowledged_at a = None \<and> ar_recovered_at a = None \<and> ar_archived_at a = None
      | AL_ACKNOWLEDGED \<Rightarrow>
          ar_acknowledged_at a \<noteq> None \<and> ar_recovered_at a = None \<and> ar_archived_at a = None
      | AL_RECOVERED \<Rightarrow> ar_recovered_at a \<noteq> None \<and> ar_archived_at a = None
      | AL_ARCHIVED \<Rightarrow> ar_recovered_at a \<noteq> None \<and> ar_archived_at a \<noteq> None)"

definition or_zero :: "int option \<Rightarrow> int" where
  "or_zero x = (case x of None \<Rightarrow> 0 | Some t \<Rightarrow> t)"

definition times_ordered :: "AlertRecord \<Rightarrow> bool" where
  "times_ordered a \<longleftrightarrow>
     ar_opened_at a \<le> ar_cooldown_until a \<and>
     null_or (\<lambda>t. ar_opened_at a \<le> t) (ar_acknowledged_at a) \<and>
     null_or (\<lambda>t. max (ar_opened_at a) (or_zero (ar_acknowledged_at a)) \<le> t) (ar_recovered_at a) \<and>
     null_or (\<lambda>t. t \<le> ar_cooldown_until a) (ar_recovered_at a) \<and>
     null_or (\<lambda>t. max (or_zero (ar_recovered_at a)) (ar_cooldown_until a) \<le> t) (ar_archived_at a)"

definition validate_alert_record :: "AlertRecord \<Rightarrow> bool" where
  "validate_alert_record a \<longleftrightarrow>
     positive_id (ar_id a) \<and> is_timestamp (ar_opened_at a) \<and> is_timestamp (ar_cooldown_until a) \<and>
     null_or is_timestamp (ar_acknowledged_at a) \<and> null_or is_timestamp (ar_recovered_at a) \<and>
     null_or is_timestamp (ar_archived_at a) \<and> null_or positive_id (ar_first_sample a) \<and>
     null_or positive_id (ar_latest_sample a) \<and>
     between 1 MAX_BOUNDED_COUNTER (ar_episode_count a) \<and>
     between 1 MAX_BOUNDED_COUNTER (ar_occurrence_count a) \<and>
     ar_severity a = (if ar_kind a = AK_DEGRADED then HH_DEGRADED else HH_UNAVAILABLE) \<and>
     alert_state_error (record_state a) = None \<and> lifecycle_times a \<and> times_ordered a \<and>
     (case (ar_first_sample a, ar_latest_sample a) of
        (Some first, Some latest) \<Rightarrow> first \<le> latest
      | _ \<Rightarrow> True)"

record AlertEventRecord =
  ee_id :: int
  ee_alert_id :: int
  ee_event_type :: LifecycleEvent
  ee_event_at :: int
  ee_supporting_sample :: "int option"
  ee_resulting_lifecycle :: AlertLifecycle

fun allowed_lifecycles :: "LifecycleEvent \<Rightarrow> AlertLifecycle list" where
  "allowed_lifecycles LE_OPENED = [AL_OPEN]"
| "allowed_lifecycles LE_ACKNOWLEDGED = [AL_ACKNOWLEDGED]"
| "allowed_lifecycles LE_RECOVERED = [AL_RECOVERED]"
| "allowed_lifecycles LE_ARCHIVED = [AL_ARCHIVED]"
| "allowed_lifecycles LE_OCCURRENCE_UPDATED = [AL_OPEN, AL_ACKNOWLEDGED, AL_RECOVERED]"

definition event_record_valid :: "AlertEventRecord \<Rightarrow> bool" where
  "event_record_valid e \<longleftrightarrow>
     positive_id (ee_id e) \<and> positive_id (ee_alert_id e) \<and> is_timestamp (ee_event_at e) \<and>
     null_or positive_id (ee_supporting_sample e) \<and>
     ee_resulting_lifecycle e \<in> set (allowed_lifecycles (ee_event_type e))"

section \<open>Reading rows back\<close>

definition sample_record ::
  "(bytes \<Rightarrow> bytes) \<Rightarrow> sample_row \<Rightarrow> component_row list \<Rightarrow> HealthSampleRecord option" where
  "sample_record sha r rows =
     (case (status_of (sm_status r), sample_kind_of (sm_accepted_kind r), sample_kind_of (sm_kind r),
            if length rows = length HISTORY_COMPONENT_ORDER then read_components [] rows else None) of
        (Some status, Some accepted_kind, Some kind, Some cs) \<Rightarrow>
          (case those (map (component_named cs) HISTORY_COMPONENT_ORDER) of
             None \<Rightarrow> None
           | Some components \<Rightarrow>
               let p = \<lparr>hp_schema_version = 1, hp_observation_sequence = sm_sequence r,
                        hp_observed_at = sm_observed r, hp_recorded_at = sm_recorded r,
                        hp_overall_status = status, hp_service_uptime_ms = sm_uptime r,
                        hp_sample_kind = accepted_kind, hp_missed_intervals = sm_missed r,
                        hp_components = components, hp_digest = sm_digest r\<rparr>;
                   s = \<lparr>hs_id = sm_id r, hs_sequence = hp_observation_sequence p,
                        hs_observed_at = hp_observed_at p, hs_recorded_at = hp_recorded_at p,
                        hs_overall_status = hp_overall_status p,
                        hs_uptime_ms = hp_service_uptime_ms p, hs_sample_kind = kind,
                        hs_accepted_kind = hp_sample_kind p, hs_missed = hp_missed_intervals p,
                        hs_components = components\<rparr>
               in if health_projection_error p = None \<and> validate_health_projection sha p = None \<and>
                     sample_record_valid s
                  then Some s else None)
      | _ \<Rightarrow> None)"

definition or_malformed_query :: "'a option \<Rightarrow> 'a prog" where
  "or_malformed_query x =
     (case x of None \<Rightarrow> prog_raise malformed_query | Some y \<Rightarrow> prog_return y)"

definition health_sample_record :: "(bytes \<Rightarrow> bytes) \<Rightarrow> sample_row \<Rightarrow> HealthSampleRecord prog" where
  "health_sample_record sha r =
     prog_then (prog_require (positive_id (sm_id r) \<and> is_digest (sm_digest r)) malformed_query) (
     prog_bind
       (execute (select_rows (\<lambda>h. take 5 (filter (\<lambda>c. cs_sample_id c = sm_id r) (h_components h)))))
       (\<lambda>rows.
     or_malformed_query (sample_record sha r rows)))"

definition decode_alert :: "alert_row \<Rightarrow> AlertRecord option" where
  "decode_alert r =
     (case (scope_of (al_scope r), alert_kind_of (al_kind r), lifecycle_of (al_lifecycle r),
            status_of (al_severity r)) of
        (Some scope, Some kind, Some lifecycle, Some sev) \<Rightarrow>
          let a = \<lparr>ar_id = al_id r, ar_scope = scope, ar_kind = kind, ar_lifecycle = lifecycle,
                   ar_severity = sev, ar_opened_at = al_opened r,
                   ar_acknowledged_at = al_acknowledged r, ar_recovered_at = al_recovered r,
                   ar_archived_at = al_archived r, ar_first_sample = al_first_sample r,
                   ar_latest_sample = al_latest_sample r, ar_episode_count = al_episode r,
                   ar_occurrence_count = al_occurrence r, ar_cooldown_until = al_cooldown r\<rparr>
          in if validate_alert_record a then Some a else None
      | _ \<Rightarrow> None)"

definition alert_record :: "alert_row \<Rightarrow> AlertRecord prog" where
  "alert_record r =
     prog_bind (or_malformed_query (decode_alert r)) (\<lambda>a.
     let expected = List.map_filter id [ar_first_sample a, ar_latest_sample a]
     in prog_bind
          (execute (select_rows (\<lambda>h.
             take 3 (filter (\<lambda>i. i \<in> set expected) (map sm_id (h_samples h))))))
          (\<lambda>rows.
        prog_then (prog_require
          (list_all positive_id rows \<and> length rows \<le> 2 \<and> set rows = set expected) malformed_query) (
        prog_return a)))"

definition event_of :: "string \<Rightarrow> LifecycleEvent option" where
  "event_of =
     member_of [LE_OPENED, LE_OCCURRENCE_UPDATED, LE_ACKNOWLEDGED, LE_RECOVERED, LE_ARCHIVED]
       event_value"

definition decode_event :: "event_row \<Rightarrow> int \<Rightarrow> AlertEventRecord option" where
  "decode_event r alert_id =
     (if ae_alert_id r \<noteq> alert_id then None
      else case (event_of (ae_type r), lifecycle_of (ae_lifecycle r)) of
             (Some event, Some lifecycle) \<Rightarrow>
               let e = \<lparr>ee_id = ae_id r, ee_alert_id = alert_id, ee_event_type = event,
                        ee_event_at = ae_at r, ee_supporting_sample = ae_sample r,
                        ee_resulting_lifecycle = lifecycle\<rparr>
               in if event_record_valid e then Some e else None
           | _ \<Rightarrow> None)"

definition alert_event_record :: "event_row \<Rightarrow> int \<Rightarrow> AlertEventRecord prog" where
  "alert_event_record r alert_id =
     prog_bind (or_malformed_query (decode_event r alert_id)) (\<lambda>e.
     case ee_supporting_sample e of
       None \<Rightarrow> prog_return e
     | Some i \<Rightarrow>
         prog_bind
           (execute (select_rows (\<lambda>h. take 2 (filter (\<lambda>j. j = i) (map sm_id (h_samples h))))))
           (\<lambda>rows.
         prog_then (prog_require (rows = [i]) malformed_query) (prog_return e)))"

section \<open>Read transactions\<close>

definition classified_query_error :: "sqlite_failure \<Rightarrow> store_exception" where
  "classified_query_error e =
     (let primary = map_option (\<lambda>code. code mod 256) (sf_errorcode e)
      in if primary \<in> {Some SQLITE_BUSY, Some SQLITE_LOCKED} then Query_Error QR_STORAGE_BUSY False
         else if sf_integrity e \<or>
                 primary \<in> {Some SQLITE_CORRUPT, Some SQLITE_NOTADB, Some SQLITE_SCHEMA,
                            Some SQLITE_CONSTRAINT}
         then Query_Error QR_TRUST_FAILED True
         else Query_Error QR_PERSISTENCE_FAILED False)"

text \<open>An error of SQLite becomes \<open>f\<close> of it, any other exception is passed on.\<close>

definition on_sqlite_error :: "(sqlite_failure \<Rightarrow> store_exception) \<Rightarrow> 'a prog \<Rightarrow> 'a prog" where
  "on_sqlite_error f m =
     prog_handle m (\<lambda>e. prog_raise (case e of Database_Error (Sqlite_Error s) \<Rightarrow> f s | _ \<Rightarrow> e))"

definition rollback_read :: "unit prog" where
  "rollback_read = on_sqlite_error (\<lambda>_. Query_Error QR_TRUST_FAILED True) (execute rollback_transaction)"

definition query_failure :: "store_exception \<Rightarrow> 'a prog" where
  "query_failure e =
     (case e of
        Query_Error _ _ \<Rightarrow> prog_then rollback_read (prog_raise e)
      | Database_Error (Sqlite_Error s) \<Rightarrow>
          prog_then rollback_read (prog_raise (classified_query_error s))
      | Database_Error Type_Or_Value_Error \<Rightarrow>
          prog_then rollback_read (prog_raise malformed_query)
      | _ \<Rightarrow> prog_raise e)"

definition read_transaction :: "'a prog \<Rightarrow> 'a prog" where
  "read_transaction reader =
     prog_then (on_sqlite_error classified_query_error (execute begin_immediate)) (
     prog_bind (prog_handle reader query_failure) (\<lambda>x.
     prog_then rollback_read (prog_return x)))"

section \<open>Pages\<close>

definition MAX_PAGE_SIZE :: int where "MAX_PAGE_SIZE = 100"

text \<open>\<open>ORDER BY time DESC, id DESC\<close> after a cursor, and \<open>ORDER BY time, id\<close> after one.\<close>

definition newest_first :: "('r \<Rightarrow> int \<times> int) \<Rightarrow> Cursor option \<Rightarrow> 'r list \<Rightarrow> 'r list" where
  "newest_first key cursor rows =
     rev (sort_key key (filter (\<lambda>r. case cursor of
            None \<Rightarrow> True
          | Some c \<Rightarrow> key r < (cu_time c, cu_id c)) rows))"

definition oldest_first :: "('r \<Rightarrow> int \<times> int) \<Rightarrow> Cursor option \<Rightarrow> 'r list \<Rightarrow> 'r list" where
  "oldest_first key cursor rows =
     sort_key key (filter (\<lambda>r. case cursor of
            None \<Rightarrow> True
          | Some c \<Rightarrow> (cu_time c, cu_id c) < key r) rows)"

text \<open>The page of what was fetched, one record more than a page holds.\<close>

definition page :: "('a \<Rightarrow> int \<times> int) \<Rightarrow> nat \<Rightarrow> 'a list \<Rightarrow> ('a list \<times> Cursor option) prog" where
  "page key page_size records =
     (let items = take page_size records
      in if length records > page_size \<and> items \<noteq> []
         then prog_bind (make_cursor (fst (key (last items))) (snd (key (last items)))) (\<lambda>c.
              prog_return (items, Some c))
         else prog_return (items, None))"

definition check_page_size :: "int \<Rightarrow> unit prog" where
  "check_page_size page_size =
     prog_require (1 \<le> page_size \<and> page_size \<le> MAX_PAGE_SIZE) (Query_Error QR_INVALID_QUERY False)"

definition check_query_id :: "int \<Rightarrow> unit prog" where
  "check_query_id i = prog_require (positive_id i) (Query_Error QR_INVALID_QUERY False)"

definition list_health_samples ::
  "(bytes \<Rightarrow> bytes) \<Rightarrow> int \<Rightarrow> Cursor option \<Rightarrow> HealthHistoryStatus option \<Rightarrow>
   (HealthSampleRecord list \<times> Cursor option) prog" where
  "list_health_samples sha page_size cursor wanted =
     prog_then (check_page_size page_size) (read_transaction (
     prog_bind
       (execute (select_rows (\<lambda>h.
          take (nat (page_size + 1))
            (newest_first (\<lambda>r. (sm_observed r, sm_id r)) cursor
              (filter (\<lambda>r. null_or (\<lambda>s. sm_status r = status_value s) wanted)
                (h_samples h))))))
       (\<lambda>rows.
     prog_bind (prog_map (health_sample_record sha) rows) (\<lambda>records.
     page (\<lambda>s. (hs_observed_at s, hs_id s)) (nat page_size) records))))"

definition list_alerts ::
  "int \<Rightarrow> Cursor option \<Rightarrow> AlertLifecycle option \<Rightarrow> (AlertRecord list \<times> Cursor option) prog" where
  "list_alerts page_size cursor lifecycle =
     prog_then (check_page_size page_size) (read_transaction (
     prog_bind
       (execute (select_rows (\<lambda>h.
          take (nat (page_size + 1))
            (newest_first (\<lambda>r. (al_opened r, al_id r)) cursor
              (filter (\<lambda>r. null_or (\<lambda>l. al_lifecycle r = lifecycle_value l) lifecycle)
                (h_alerts h))))))
       (\<lambda>rows.
     prog_bind (prog_map alert_record rows) (\<lambda>records.
     page (\<lambda>a. (ar_opened_at a, ar_id a)) (nat page_size) records))))"

definition select_alert :: "int \<Rightarrow> AlertRecord prog" where
  "select_alert alert_id =
     prog_bind (execute (select_rows (\<lambda>h. find (\<lambda>r. al_id r = alert_id) (h_alerts h)))) (\<lambda>row.
     case row of
       None \<Rightarrow> prog_raise (Query_Error QR_NOT_FOUND False)
     | Some r \<Rightarrow> alert_record r)"

definition get_alert :: "int \<Rightarrow> AlertRecord prog" where
  "get_alert alert_id =
     prog_then (check_query_id alert_id) (read_transaction (select_alert alert_id))"

definition list_alert_events ::
  "int \<Rightarrow> int \<Rightarrow> Cursor option \<Rightarrow> (AlertEventRecord list \<times> Cursor option) prog" where
  "list_alert_events alert_id page_size cursor =
     prog_then (check_query_id alert_id) (prog_then (check_page_size page_size) (read_transaction (
     prog_bind (select_alert alert_id) (\<lambda>_.
     prog_bind
       (execute (select_rows (\<lambda>h.
          take (nat (page_size + 1))
            (oldest_first (\<lambda>r. (ae_at r, ae_id r)) cursor
              (filter (\<lambda>r. ae_alert_id r = alert_id) (h_events h))))))
       (\<lambda>rows.
     prog_bind (prog_map (\<lambda>r. alert_event_record r alert_id) rows) (\<lambda>records.
     page (\<lambda>e. (ee_event_at e, ee_id e)) (nat page_size) records))))))"

definition get_scheduler_resume_state :: "SchedulerResumeState prog" where
  "get_scheduler_resume_state =
     read_transaction (
     prog_bind
       (prog_handle
         (prog_bind (on_connection read_checkpoint) (\<lambda>checkpoint.
          prog_then (on_connection (validate_replay_anchor checkpoint)) (prog_return checkpoint)))
         (\<lambda>e. prog_raise (case e of Database_Error (Ingestion_Error _ _) \<Rightarrow> malformed_query | _ \<Rightarrow> e)))
       (\<lambda>checkpoint.
     let s = \<lparr>rs_sequence = kp_sequence checkpoint, rs_observed_at = kp_observed checkpoint,
              rs_sample_kind = kp_kind checkpoint, rs_count = kp_count checkpoint\<rparr>
     in if resume_state_valid s then prog_return s
        else prog_raise (Database_Error Type_Or_Value_Error)))"

end
