(* ===== verification/History_Pages.thy ===== *)
theory History_Pages
  imports History_Queries
begin

text \<open>
  Paging through a table. \<open>keyset_query\<close> is what a listing with cursors promises, and what follows
  for a client that asks page after page: it sees every record once, in order, and the pages end.
  The three listings of the history are interpreted in it.
\<close>

section \<open>Reading on a quiet connection\<close>

text \<open>The history can be read, and SQLite has nothing to report.\<close>

definition idle :: "History \<Rightarrow> World \<Rightarrow> bool" where
  "idle h w \<longleftrightarrow>
     w_connection w = \<lparr>cn_history = h, cn_committed = h, cn_failures = []\<rparr> \<and> \<not> w_handler w"

lemma idle_connection [simp]:
  "idle h w \<Longrightarrow> w\<lparr>w_connection := \<lparr>cn_history = h, cn_committed = h, cn_failures = []\<rparr>\<rparr> = w"
  by (cases w) (simp add: idle_def)

named_theorems idle_simps "steps that only read, on a quiet connection"

lemma idle_select [idle_simps]: "idle h w \<Longrightarrow> execute (select_rows q) w = (Inr (q h), w)"
  using idle_connection[of h w]
  by (simp add: idle_def execute_def on_connection_def select_rows_def run_statement_def)

lemma idle_begin [idle_simps]: "idle h w \<Longrightarrow> execute begin_immediate w = (Inr (), w)"
  using idle_connection[of h w]
  by (simp add: idle_def execute_def on_connection_def begin_immediate_def run_statement_def)

lemma idle_rollback [idle_simps]: "idle h w \<Longrightarrow> execute rollback_transaction w = (Inr (), w)"
  using idle_connection[of h w]
  by (simp add: idle_def execute_def on_connection_def rollback_transaction_def run_statement_def)

lemmas prog_defs [idle_simps] =
  prog_return_def prog_raise_def prog_bind_def prog_then_def prog_handle_def on_sqlite_error_def

lemma prog_require_true [idle_simps]: "b \<Longrightarrow> prog_require b e w = (Inr (), w)"
  by (simp add: prog_require_def prog_return_def)

lemma idle_transaction:
  assumes "idle h w" "reader w = (Inr x, w)"
  shows "read_transaction reader w = (Inr x, w)"
  using assms by (simp add: read_transaction_def rollback_read_def idle_simps)

lemma idle_map:
  assumes "\<forall>r \<in> set rows. f r w = (Inr (g r), w)"
  shows "prog_map f rows w = (Inr (map g rows), w)"
  using assms by (induction rows) (simp_all add: idle_simps)

section \<open>Pages of a listing\<close>

definition after :: "(int \<times> int \<Rightarrow> int \<times> int \<Rightarrow> bool) \<Rightarrow> ('a \<Rightarrow> int \<times> int) \<Rightarrow> Cursor option \<Rightarrow> 'a list \<Rightarrow> 'a list"
  where
  "after before key cursor xs =
     filter (\<lambda>x. case cursor of None \<Rightarrow> True | Some c \<Rightarrow> before (cu_time c, cu_id c) (key x)) xs"

definition key_cursor :: "int \<times> int \<Rightarrow> Cursor" where
  "key_cursor k = \<lparr>cu_time = fst k, cu_id = snd k\<rparr>"

definition page_result :: "('a \<Rightarrow> int \<times> int) \<Rightarrow> nat \<Rightarrow> 'a list \<Rightarrow> 'a list \<times> Cursor option" where
  "page_result key n xs =
     (take n xs,
      if length xs > n \<and> take n xs \<noteq> [] then Some (key_cursor (key (last (take n xs)))) else None)"

text \<open>A client that asks for pages until one carries no cursor, for at most \<open>fuel\<close> pages.\<close>

fun all_pages ::
  "nat \<Rightarrow> (Cursor option \<Rightarrow> ('a list \<times> Cursor option) prog) \<Rightarrow> Cursor option \<Rightarrow> 'a list prog" where
  "all_pages 0 fetch cursor = prog_return []"
| "all_pages (Suc fuel) fetch cursor =
     prog_bind (fetch cursor) (\<lambda>(items, next_cursor).
     case next_cursor of
       None \<Rightarrow> prog_return items
     | Some c \<Rightarrow>
         prog_bind (all_pages fuel fetch (Some c)) (\<lambda>rest. prog_return (items @ rest)))"

locale keyset_query =
  fixes fetch :: "Cursor option \<Rightarrow> ('a list \<times> Cursor option) prog"
    and ready :: "World \<Rightarrow> bool"
    and before :: "int \<times> int \<Rightarrow> int \<times> int \<Rightarrow> bool"
    and key :: "'a \<Rightarrow> int \<times> int"
    and items_per_page :: nat
    and listing :: "'a list"
  assumes transitive: "before k l \<Longrightarrow> before l m \<Longrightarrow> before k m"
    and irreflexive: "\<not> before k k"
    and some_items: "ready w \<Longrightarrow> 0 < items_per_page"
    and in_order: "ready w \<Longrightarrow> sorted_wrt (\<lambda>x y. before (key x) (key y)) listing"
    and fetched: "ready w \<Longrightarrow>
      fetch c w = (Inr (page_result key items_per_page (after before key c listing)), w)"
begin

lemma asymmetric: "before k l \<Longrightarrow> \<not> before l k"
  using transitive irreflexive by blast

lemma in_after:
  "x \<in> set (after before key c xs) \<Longrightarrow>
   case c of None \<Rightarrow> True | Some d \<Rightarrow> before (cu_time d, cu_id d) (key x)"
  by (simp add: after_def)

lemma further_after:
  assumes "case c of None \<Rightarrow> True | Some d \<Rightarrow> before (cu_time d, cu_id d) (key x)"
  shows "filter (\<lambda>y. before (key x) (key y)) (after before key c xs) =
    filter (\<lambda>y. before (key x) (key y)) xs"
proof (cases c)
  case (Some d)
  then have "before (key x) (key y) \<Longrightarrow> before (cu_time d, cu_id d) (key y)" for y
    using assms transitive[of "(cu_time d, cu_id d)" "key x" "key y"] by simp
  then show ?thesis using Some by (auto simp: after_def intro!: filter_cong)
qed (simp add: after_def)

lemma rest_after:
  assumes "sorted_wrt (\<lambda>x y. before (key x) (key y)) (ys @ x # zs)"
  shows "filter (\<lambda>y. before (key x) (key y)) (ys @ x # zs) = zs"
proof -
  have "\<forall>z \<in> set zs. before (key x) (key z)" "\<forall>y \<in> set ys. \<not> before (key x) (key y)"
    using assms asymmetric by (auto simp: sorted_wrt_append)
  then show ?thesis using irreflexive[of "key x"] by (simp add: filter_empty_conv)
qed

lemma rest_of_page:
  assumes "sorted_wrt (\<lambda>x y. before (key x) (key y)) xs" "0 < n" "n < length xs"
  shows "filter (\<lambda>x. before (key (last (take n xs))) (key x)) xs = drop n xs"
proof -
  let ?i = "n - 1"
  have i: "?i < length xs" "Suc ?i = n" using assms by simp_all
  note split = id_take_nth_drop[OF i(1), unfolded i(2)]
  have "last (take n xs) = xs ! ?i"
    using take_Suc_conv_app_nth[OF i(1)] i(2) by simp
  then show ?thesis
    using rest_after[of "take ?i xs" "xs ! ?i" "drop n xs"] assms(1) split by metis
qed

lemma after_page:
  assumes "ready w" "length (after before key c listing) > items_per_page"
  shows "after before key
      (Some (key_cursor (key (last (take items_per_page (after before key c listing)))))) listing =
    drop items_per_page (after before key c listing)"
proof -
  let ?xs = "after before key c listing"
  let ?x = "last (take items_per_page ?xs)"
  have "take items_per_page ?xs \<noteq> []" using assms some_items[OF assms(1)] by auto
  then have "?x \<in> set ?xs" using last_in_set in_set_takeD by metis
  note * = in_after[OF this]
  have "after before key (Some (key_cursor (key ?x))) listing =
      filter (\<lambda>x. before (key ?x) (key x)) ?xs"
    using further_after[OF *] by (simp add: after_def key_cursor_def)
  moreover have "sorted_wrt (\<lambda>x y. before (key x) (key y)) ?xs"
    using in_order[OF assms(1)] by (simp add: after_def sorted_wrt_filter)
  ultimately show ?thesis using rest_of_page some_items[OF assms(1)] assms(2) by simp
qed

lemma pages_complete:
  assumes "ready w" "length (after before key c listing) < fuel"
  shows "all_pages fuel fetch c w = (Inr (after before key c listing), w)"
  using assms(2)
proof (induction fuel arbitrary: c)
  case (Suc fuel)
  let ?xs = "after before key c listing"
  note n = some_items[OF assms(1)]
  show ?case
  proof (cases "length ?xs > items_per_page")
    case True
    then have next_page: "snd (page_result key items_per_page ?xs) =
        Some (key_cursor (key (last (take items_per_page ?xs))))"
      using n by (auto simp: page_result_def)
    have "all_pages fuel fetch (Some (key_cursor (key (last (take items_per_page ?xs))))) w =
        (Inr (drop items_per_page ?xs), w)"
      using Suc.IH[of "Some (key_cursor (key (last (take items_per_page ?xs))))"] True Suc.prems n
      by (simp add: after_page[OF assms(1)])
    then show ?thesis using next_page fetched[OF assms(1), of c]
      by (simp add: idle_simps page_result_def)
  next
    case False
    then show ?thesis using fetched[OF assms(1), of c] by (simp add: idle_simps page_result_def)
  qed
qed simp

theorem pages_cover:
  assumes "ready w"
  shows "all_pages (Suc (length listing)) fetch None w = (Inr listing, w)"
  using pages_complete[OF assms, of None "Suc (length listing)"] by (simp add: after_def)

end

section \<open>The listings of the history\<close>

lemma newest_after:
  "newest_first key c rows = filter (\<lambda>r. case c of None \<Rightarrow> True | Some d \<Rightarrow> key r < (cu_time d, cu_id d))
     (newest_first key None rows)"
  by (simp add: newest_first_def rev_filter[symmetric] filter_sort)

lemma oldest_after:
  "oldest_first key c rows = filter (\<lambda>r. case c of None \<Rightarrow> True | Some d \<Rightarrow> (cu_time d, cu_id d) < key r)
     (oldest_first key None rows)"
  by (simp add: oldest_first_def filter_sort)

lemma oldest_sorted:
  assumes "distinct (map key rows)"
  shows "sorted_wrt (\<lambda>x y. key x < key y) (oldest_first key None rows)"
proof -
  have "sorted (map key (sort_key key rows))" "distinct (map key (sort_key key rows))"
    using assms by (simp_all add: distinct_map)
  then have "sorted_wrt (<) (map key (sort_key key rows))" by (simp add: strict_sorted_iff)
  then show ?thesis by (simp add: oldest_first_def sorted_wrt_map)
qed

lemma newest_sorted:
  assumes "distinct (map key rows)"
  shows "sorted_wrt (\<lambda>x y. key y < key x) (newest_first key None rows)"
  using oldest_sorted[OF assms] by (simp add: newest_first_def oldest_first_def sorted_wrt_rev)

lemma set_newest [simp]: "set (newest_first key None rows) = set rows"
  by (simp add: newest_first_def)

lemma set_oldest [simp]: "set (oldest_first key None rows) = set rows"
  by (simp add: oldest_first_def)

lemma after_map:
  "after before key c (map f rows) =
     map f (filter (\<lambda>r. case c of None \<Rightarrow> True | Some d \<Rightarrow> before (cu_time d, cu_id d) (key (f r))) rows)"
  by (simp add: after_def filter_map comp_def)

definition cursor_key :: "int \<times> int \<Rightarrow> bool" where
  "cursor_key k \<longleftrightarrow> is_timestamp (fst k) \<and> positive_id (snd k)"

lemma page_page_result:
  assumes "\<forall>x \<in> set xs. cursor_key (key x)"
  shows "page key n (take (Suc n) xs) w = (Inr (page_result key n xs), w)"
proof -
  have "take n xs \<noteq> [] \<Longrightarrow> cursor_key (key (last (take n xs)))"
    using assms by (meson in_set_takeD last_in_set)
  then show ?thesis
    by (auto simp: page_def page_result_def Let_def idle_simps make_cursor_def cursor_key_def
        key_cursor_def min_def)
qed

text \<open>
  The rows a listing can read, whatever else the history holds: every row decodes, and the samples it
  refers to are there.
\<close>

definition readable_alert :: "History \<Rightarrow> alert_row \<Rightarrow> bool" where
  "readable_alert h r \<longleftrightarrow>
     decode_alert r \<noteq> None \<and> sample_reference h (al_first_sample r) \<and>
     sample_reference h (al_latest_sample r)"

definition readable_event :: "History \<Rightarrow> event_row \<Rightarrow> bool" where
  "readable_event h r \<longleftrightarrow> decode_event r (ae_alert_id r) \<noteq> None \<and> sample_reference h (ae_sample r)"

definition readable_sample :: "(bytes \<Rightarrow> bytes) \<Rightarrow> History \<Rightarrow> sample_row \<Rightarrow> bool" where
  "readable_sample sha h r \<longleftrightarrow>
     is_digest (sm_digest r) \<and>
     sample_record sha r (filter (\<lambda>c. cs_sample_id c = sm_id r) (h_components h)) \<noteq> None"

definition readable :: "(bytes \<Rightarrow> bytes) \<Rightarrow> History \<Rightarrow> bool" where
  "readable sha h \<longleftrightarrow>
     distinct (map sm_id (h_samples h)) \<and> distinct (map al_id (h_alerts h)) \<and>
     distinct (map ae_id (h_events h)) \<and> (\<forall>r \<in> set (h_samples h). readable_sample sha h r) \<and>
     (\<forall>r \<in> set (h_alerts h). readable_alert h r) \<and> (\<forall>r \<in> set (h_events h). readable_event h r)"

lemma references_found:
  assumes "distinct ids" "\<forall>x \<in> set expected. x \<in> set ids" "length expected \<le> 2"
  shows "set (take 3 (filter (\<lambda>i. i \<in> set expected) ids)) = set expected"
    "length (take 3 (filter (\<lambda>i. i \<in> set expected) ids)) \<le> 2"
proof -
  let ?found = "filter (\<lambda>i. i \<in> set expected) ids"
  have found: "set ?found = set expected" using assms(2) by auto
  have "length ?found = card (set expected)"
    using assms(1) found by (metis distinct_card distinct_filter)
  also have "\<dots> \<le> length expected" by (rule card_length)
  finally have "length ?found \<le> 2" using assms(3) by simp
  then show "set (take 3 ?found) = set expected" "length (take 3 ?found) \<le> 2" using found by simp_all
qed

lemma decode_alert_fields:
  assumes "decode_alert r = Some a"
  shows "ar_id a = al_id r" "ar_opened_at a = al_opened r" "ar_first_sample a = al_first_sample r"
    "ar_latest_sample a = al_latest_sample r" "validate_alert_record a"
    "ar_lifecycle a = the (lifecycle_of (al_lifecycle r))" "ar_recovered_at a = al_recovered r"
  using assms by (auto simp: decode_alert_def Let_def split: option.splits if_splits)

lemma alert_record_reads:
  assumes "idle h w" "distinct (map sm_id (h_samples h))" "readable_alert h r"
  shows "alert_record r w = (Inr (the (decode_alert r)), w)"
proof -
  obtain a where a: "decode_alert r = Some a" using assms(3) by (auto simp: readable_alert_def)
  note f = decode_alert_fields[OF a]
  let ?expected = "List.map_filter id [ar_first_sample a, ar_latest_sample a]"
  have e: "\<forall>x \<in> set ?expected. x \<in> set (map sm_id (h_samples h)) \<and> positive_id x"
    using assms(3) f unfolding readable_alert_def sample_reference_def validate_alert_record_def
    by (auto simp: map_filter_simps null_or_def split: option.splits)
  moreover have "length ?expected \<le> 2" by (simp add: map_filter_simps split: option.splits)
  ultimately have found: "set (take 3 (filter (\<lambda>i. i \<in> set ?expected) (map sm_id (h_samples h)))) = set ?expected"
    "length (take 3 (filter (\<lambda>i. i \<in> set ?expected) (map sm_id (h_samples h)))) \<le> 2"
    using references_found[OF assms(2), of ?expected] by simp_all
  then have "list_all positive_id (take 3 (filter (\<lambda>i. i \<in> set ?expected) (map sm_id (h_samples h))))"
    using e by (simp add: list_all_iff)
  then show ?thesis using found
    by (simp add: alert_record_def a or_malformed_query_def idle_simps idle_select[OF assms(1)] Let_def)
qed

lemma filter_one: "n \<in> set xs \<Longrightarrow> distinct xs \<Longrightarrow> filter (\<lambda>j. j = n) xs = [n]"
  by (induction xs) (auto simp: filter_empty_conv)

lemma alert_event_record_reads:
  assumes "idle h w" "distinct (map sm_id (h_samples h))" "readable_event h r" "ae_alert_id r = i"
  shows "alert_event_record r i w = (Inr (the (decode_event r i)), w)"
proof -
  obtain e where e: "decode_event r i = Some e" using assms(3,4) by (auto simp: readable_event_def)
  have s: "ee_supporting_sample e = ae_sample r"
    using e by (auto simp: decode_event_def Let_def split: option.splits if_splits)
  have "take 2 (filter (\<lambda>j. j = n) (map sm_id (h_samples h))) = [n]" if "ae_sample r = Some n" for n
  proof -
    have "n \<in> set (map sm_id (h_samples h))"
      using assms(3) that by (simp add: readable_event_def sample_reference_def null_or_def)
    then have "filter (\<lambda>j. j = n) (map sm_id (h_samples h)) = [n]"
      using assms(2) by (rule filter_one)
    then show ?thesis by simp
  qed
  then show ?thesis using s
    by (cases "ae_sample r")
      (simp_all add: alert_event_record_def e or_malformed_query_def idle_simps idle_select[OF assms(1)])
qed

lemma sample_record_fields:
  assumes "sample_record sha r rows = Some s"
  shows "hs_id s = sm_id r" "hs_observed_at s = sm_observed r" "sample_record_valid s"
    "hs_sequence s = sm_sequence r" "length rows = length HISTORY_COMPONENT_ORDER"
  using assms by (auto simp: sample_record_def Let_def split: option.splits if_splits)

definition decode_sample :: "(bytes \<Rightarrow> bytes) \<Rightarrow> History \<Rightarrow> sample_row \<Rightarrow> HealthSampleRecord" where
  "decode_sample sha h r =
     the (sample_record sha r (filter (\<lambda>c. cs_sample_id c = sm_id r) (h_components h)))"

lemma health_sample_record_reads:
  assumes "idle h w" "readable_sample sha h r"
  shows "health_sample_record sha r w = (Inr (decode_sample sha h r), w)"
proof -
  let ?rows = "filter (\<lambda>c. cs_sample_id c = sm_id r) (h_components h)"
  obtain s where s: "sample_record sha r ?rows = Some s"
    using assms(2) by (auto simp: readable_sample_def)
  note f = sample_record_fields[OF s]
  have "take 5 ?rows = ?rows" using f(5) by (simp add: HISTORY_COMPONENT_ORDER_def)
  then show ?thesis using assms(2) f s
    by (simp add: health_sample_record_def idle_simps idle_select[OF assms(1)] readable_sample_def
        sample_record_valid_def or_malformed_query_def decode_sample_def)
qed

text \<open>Fetching a page of rows and decoding them, for every listing alike.\<close>

lemma listing_rows:
  assumes "idle h w" "1 \<le> n"
    and rows: "\<And>r. r \<in> set (q h) \<Longrightarrow>
      record r w = (Inr (decode r), w) \<and> key (decode r) = row_key r \<and> cursor_key (row_key r)"
  shows "prog_bind (execute (select_rows (\<lambda>h. take (nat (n + 1)) (q h)))) (\<lambda>rows.
      prog_bind (prog_map record rows) (page key (nat n))) w =
    (Inr (page_result key (nat n) (map decode (q h))), w)"
proof -
  let ?rows = "q h"
  have n: "nat (n + 1) = Suc (nat n)" using assms(2) by simp
  have "prog_map record (take (Suc (nat n)) ?rows) w = (Inr (map decode (take (Suc (nat n)) ?rows)), w)"
    using rows by (intro idle_map) (auto dest: in_set_takeD)
  moreover have "\<forall>x \<in> set (map decode ?rows). cursor_key (key x)" using rows by auto
  from page_page_result[OF this, of "nat n" w]
  have "page key (nat n) (map decode (take (Suc (nat n)) ?rows)) w =
      (Inr (page_result key (nat n) (map decode ?rows)), w)"
    by (simp only: take_map)
  ultimately show ?thesis by (simp add: idle_simps idle_select[OF assms(1)] n)
qed

lemma after_decoded:
  assumes "\<And>r. r \<in> set rows \<Longrightarrow> key (decode r) = row_key r"
  shows "after before key c (map decode rows) =
    map decode (filter (\<lambda>r. case c of None \<Rightarrow> True | Some d \<Rightarrow> before (cu_time d, cu_id d) (row_key r)) rows)"
  unfolding after_map
  by (intro arg_cong[where f = "map decode"] filter_cong) (simp_all add: assms split: option.splits)

lemma newest_listing:
  assumes "\<And>r. r \<in> set rows \<Longrightarrow> key (decode r) = row_key r"
  shows "after (\<lambda>a b. b < a) key c (map decode (newest_first row_key None rows)) =
      map decode (newest_first row_key c rows)"
    and "distinct (map row_key rows) \<Longrightarrow>
      sorted_wrt (\<lambda>x y. key y < key x) (map decode (newest_first row_key None rows))"
proof -
  show "after (\<lambda>a b. b < a) key c (map decode (newest_first row_key None rows)) =
      map decode (newest_first row_key c rows)"
    using after_decoded[of "newest_first row_key None rows" key decode row_key] assms
    by (simp add: newest_after[where c = c])
  assume "distinct (map row_key rows)"
  from newest_sorted[OF this]
  show "sorted_wrt (\<lambda>x y. key y < key x) (map decode (newest_first row_key None rows))"
    unfolding sorted_wrt_map by (rule sorted_wrt_mono_rel[rotated]) (simp add: assms)
qed

lemma oldest_listing:
  assumes "\<And>r. r \<in> set rows \<Longrightarrow> key (decode r) = row_key r"
  shows "after (<) key c (map decode (oldest_first row_key None rows)) =
      map decode (oldest_first row_key c rows)"
    and "distinct (map row_key rows) \<Longrightarrow>
      sorted_wrt (\<lambda>x y. key x < key y) (map decode (oldest_first row_key None rows))"
proof -
  show "after (<) key c (map decode (oldest_first row_key None rows)) =
      map decode (oldest_first row_key c rows)"
    using after_decoded[of "oldest_first row_key None rows" key decode row_key] assms
    by (simp add: oldest_after[where c = c])
  assume "distinct (map row_key rows)"
  from oldest_sorted[OF this]
  show "sorted_wrt (\<lambda>x y. key x < key y) (map decode (oldest_first row_key None rows))"
    unfolding sorted_wrt_map by (rule sorted_wrt_mono_rel[rotated]) (simp add: assms)
qed

section \<open>The three listings as keyset queries\<close>

definition ready_for :: "(bytes \<Rightarrow> bytes) \<Rightarrow> History \<Rightarrow> int \<Rightarrow> World \<Rightarrow> bool" where
  "ready_for sha h n w \<longleftrightarrow> idle h w \<and> readable sha h \<and> 1 \<le> n \<and> n \<le> MAX_PAGE_SIZE"

definition sample_listing ::
  "(bytes \<Rightarrow> bytes) \<Rightarrow> History \<Rightarrow> HealthHistoryStatus option \<Rightarrow> HealthSampleRecord list" where
  "sample_listing sha h wanted =
     map (decode_sample sha h)
       (newest_first (\<lambda>r. (sm_observed r, sm_id r)) None
         (filter (\<lambda>r. null_or (\<lambda>s. sm_status r = status_value s) wanted) (h_samples h)))"

definition alert_listing :: "History \<Rightarrow> AlertLifecycle option \<Rightarrow> AlertRecord list" where
  "alert_listing h lifecycle =
     map (the \<circ> decode_alert)
       (newest_first (\<lambda>r. (al_opened r, al_id r)) None
         (filter (\<lambda>r. null_or (\<lambda>l. al_lifecycle r = lifecycle_value l) lifecycle) (h_alerts h)))"

definition event_listing :: "History \<Rightarrow> int \<Rightarrow> AlertEventRecord list" where
  "event_listing h i =
     map (\<lambda>r. the (decode_event r i))
       (oldest_first (\<lambda>r. (ae_at r, ae_id r)) None (filter (\<lambda>r. ae_alert_id r = i) (h_events h)))"

lemma distinct_keys:
  assumes "distinct (map f rows)"
  shows "distinct (map (\<lambda>r. (g r, f r)) (filter P rows))"
  using assms by (auto simp: distinct_map inj_on_def)

lemma checked_page:
  assumes "1 \<le> n" "n \<le> MAX_PAGE_SIZE" "m w = x"
  shows "prog_then (check_page_size n) m w = x"
  using assms by (simp add: check_page_size_def idle_simps)

lemma readable_sample_row:
  assumes "readable sha h" "r \<in> set (h_samples h)"
  shows "idle h w \<Longrightarrow> health_sample_record sha r w = (Inr (decode_sample sha h r), w)"
    and "(hs_observed_at (decode_sample sha h r), hs_id (decode_sample sha h r)) = (sm_observed r, sm_id r)"
    and "cursor_key (sm_observed r, sm_id r)"
proof -
  have r: "readable_sample sha h r" using assms by (simp add: readable_def)
  then obtain s where s: "sample_record sha r (filter (\<lambda>c. cs_sample_id c = sm_id r) (h_components h)) = Some s"
    by (auto simp: readable_sample_def)
  note f = sample_record_fields[OF s]
  show "(hs_observed_at (decode_sample sha h r), hs_id (decode_sample sha h r)) = (sm_observed r, sm_id r)"
    and "cursor_key (sm_observed r, sm_id r)"
    using f s by (simp_all add: decode_sample_def cursor_key_def sample_record_valid_def is_timestamp_def)
  show "health_sample_record sha r w = (Inr (decode_sample sha h r), w)" if "idle h w"
    using health_sample_record_reads[OF that r] .
qed

interpretation samples: keyset_query
  "\<lambda>c. list_health_samples sha n c wanted" "ready_for sha h n" "\<lambda>a b. b < a"
  "\<lambda>s. (hs_observed_at s, hs_id s)" "nat n" "sample_listing sha h wanted"
  for sha n wanted h
proof (unfold_locales, goal_cases)
  case (4 w)
  then have h: "readable sha h" "distinct (map sm_id (h_samples h))"
    by (simp_all add: ready_for_def readable_def)
  show ?case
    unfolding sample_listing_def using readable_sample_row(2)[OF h(1)] distinct_keys[OF h(2)]
    by (intro newest_listing(2)) auto
next
  case (5 w c)
  then have w: "idle h w" "readable sha h" "1 \<le> n" "n \<le> MAX_PAGE_SIZE" by (simp_all add: ready_for_def)
  let ?rows = "\<lambda>h. filter (\<lambda>r. null_or (\<lambda>s. sm_status r = status_value s) wanted) (h_samples h)"
  let ?q = "\<lambda>h. newest_first (\<lambda>r. (sm_observed r, sm_id r)) c (?rows h)"
  have row: "health_sample_record sha r w = (Inr (decode_sample sha h r), w) \<and>
      (hs_observed_at (decode_sample sha h r), hs_id (decode_sample sha h r)) = (sm_observed r, sm_id r) \<and>
      cursor_key (sm_observed r, sm_id r)" if "r \<in> set (?rows h)" for r
    using that readable_sample_row[OF w(2), of r] w(1) by simp
  then have "list_health_samples sha n c wanted w =
      (Inr (page_result (\<lambda>s. (hs_observed_at s, hs_id s)) (nat n) (map (decode_sample sha h) (?q h))), w)"
    unfolding list_health_samples_def
    by (intro checked_page[OF w(3,4)] idle_transaction[OF w(1)] listing_rows[OF w(1,3)]) (auto simp: newest_first_def)
  moreover have "map (decode_sample sha h) (?q h) =
      after (\<lambda>a b. b < a) (\<lambda>s. (hs_observed_at s, hs_id s)) c (sample_listing sha h wanted)"
    unfolding sample_listing_def by (rule newest_listing(1)[symmetric]) (use row in blast)
  ultimately show ?case by simp
qed (auto simp: ready_for_def)

lemma readable_alert_row:
  assumes "readable sha h" "r \<in> set (h_alerts h)"
  shows "idle h w \<Longrightarrow> alert_record r w = (Inr ((the \<circ> decode_alert) r), w)"
    and "(ar_opened_at ((the \<circ> decode_alert) r), ar_id ((the \<circ> decode_alert) r)) = (al_opened r, al_id r)"
    and "cursor_key (al_opened r, al_id r)"
proof -
  have r: "readable_alert h r" "distinct (map sm_id (h_samples h))"
    using assms by (simp_all add: readable_def)
  then obtain a where a: "decode_alert r = Some a" by (auto simp: readable_alert_def)
  note f = decode_alert_fields[OF a]
  show "(ar_opened_at ((the \<circ> decode_alert) r), ar_id ((the \<circ> decode_alert) r)) = (al_opened r, al_id r)"
    and "cursor_key (al_opened r, al_id r)"
    using f by (simp_all add: a cursor_key_def validate_alert_record_def)
  show "alert_record r w = (Inr ((the \<circ> decode_alert) r), w)" if "idle h w"
    using alert_record_reads[OF that r(2,1)] by simp
qed

lemma readable_event_row:
  assumes "readable sha h" "r \<in> set (h_events h)" "ae_alert_id r = i"
  shows "idle h w \<Longrightarrow> alert_event_record r i w = (Inr (the (decode_event r i)), w)"
    and "(ee_event_at (the (decode_event r i)), ee_id (the (decode_event r i))) = (ae_at r, ae_id r)"
    and "cursor_key (ae_at r, ae_id r)"
proof -
  have r: "readable_event h r" "distinct (map sm_id (h_samples h))"
    using assms by (simp_all add: readable_def)
  then obtain e where e: "decode_event r i = Some e" using assms(3) by (auto simp: readable_event_def)
  then show "(ee_event_at (the (decode_event r i)), ee_id (the (decode_event r i))) = (ae_at r, ae_id r)"
    and "cursor_key (ae_at r, ae_id r)"
    by (auto simp: decode_event_def Let_def cursor_key_def event_record_valid_def
        split: option.splits if_splits)
  show "alert_event_record r i w = (Inr (the (decode_event r i)), w)" if "idle h w"
    using alert_event_record_reads[OF that r(2,1) assms(3)] .
qed

interpretation alerts: keyset_query
  "\<lambda>c. list_alerts n c lifecycle" "ready_for sha h n" "\<lambda>a b. b < a"
  "\<lambda>a. (ar_opened_at a, ar_id a)" "nat n" "alert_listing h lifecycle"
  for sha n lifecycle h
proof (unfold_locales, goal_cases)
  case (4 w)
  then have h: "readable sha h" "distinct (map al_id (h_alerts h))"
    by (simp_all add: ready_for_def readable_def)
  show ?case
    unfolding alert_listing_def using readable_alert_row(2)[OF h(1)] distinct_keys[OF h(2)]
    by (intro newest_listing(2)) auto
next
  case (5 w c)
  then have w: "idle h w" "readable sha h" "1 \<le> n" "n \<le> MAX_PAGE_SIZE" by (simp_all add: ready_for_def)
  let ?rows = "\<lambda>h. filter (\<lambda>r. null_or (\<lambda>l. al_lifecycle r = lifecycle_value l) lifecycle) (h_alerts h)"
  let ?q = "\<lambda>h. newest_first (\<lambda>r. (al_opened r, al_id r)) c (?rows h)"
  have row: "alert_record r w = (Inr ((the \<circ> decode_alert) r), w) \<and>
      (ar_opened_at ((the \<circ> decode_alert) r), ar_id ((the \<circ> decode_alert) r)) = (al_opened r, al_id r) \<and>
      cursor_key (al_opened r, al_id r)" if "r \<in> set (?rows h)" for r
    using that readable_alert_row[OF w(2), of r] w(1) by simp
  then have "list_alerts n c lifecycle w =
      (Inr (page_result (\<lambda>a. (ar_opened_at a, ar_id a)) (nat n) (map (the \<circ> decode_alert) (?q h))), w)"
    unfolding list_alerts_def
    by (intro checked_page[OF w(3,4)] idle_transaction[OF w(1)] listing_rows[OF w(1,3)]) (auto simp: newest_first_def)
  moreover have "map (the \<circ> decode_alert) (?q h) =
      after (\<lambda>a b. b < a) (\<lambda>a. (ar_opened_at a, ar_id a)) c (alert_listing h lifecycle)"
    unfolding alert_listing_def by (rule newest_listing(1)[symmetric]) (use row in blast)
  ultimately show ?case by simp
qed (auto simp: ready_for_def)

text \<open>The events of one alert, which must be there.\<close>

definition has_alert :: "History \<Rightarrow> int \<Rightarrow> bool" where
  "has_alert h i \<longleftrightarrow> positive_id i \<and> i \<in> set (map al_id (h_alerts h))"

lemma checked_id:
  assumes "has_alert h i" "m w = x"
  shows "prog_then (check_query_id i) m w = x"
  using assms by (simp add: check_query_id_def has_alert_def idle_simps)

lemma select_alert_reads:
  assumes "idle h w" "readable sha h" "has_alert h i"
  shows "\<exists>a. select_alert i w = (Inr a, w) \<and> ar_id a = i"
proof -
  obtain r where r: "find (\<lambda>r. al_id r = i) (h_alerts h) = Some r"
    using assms(3) by (cases "find (\<lambda>r. al_id r = i) (h_alerts h)") (auto simp: has_alert_def find_None_iff)
  then have "r \<in> set (h_alerts h)" "al_id r = i" by (auto simp: find_Some_iff)
  then show ?thesis using readable_alert_row[OF assms(2), of r] assms(1) r
    by (simp add: select_alert_def idle_simps idle_select)
qed

interpretation events: keyset_query
  "\<lambda>c. list_alert_events i n c" "\<lambda>w. ready_for sha h n w \<and> has_alert h i" "(<)"
  "\<lambda>e. (ee_event_at e, ee_id e)" "nat n" "event_listing h i"
  for sha n i h
proof (unfold_locales, goal_cases)
  case (4 w)
  then have h: "readable sha h" "distinct (map ae_id (h_events h))"
    by (simp_all add: ready_for_def readable_def)
  show ?case
    unfolding event_listing_def using readable_event_row(2)[OF h(1)] distinct_keys[OF h(2)]
    by (intro oldest_listing(2)) auto
next
  case (5 w c)
  then have w: "idle h w" "readable sha h" "1 \<le> n" "n \<le> MAX_PAGE_SIZE" "has_alert h i"
    by (simp_all add: ready_for_def)
  let ?rows = "\<lambda>h. filter (\<lambda>r. ae_alert_id r = i) (h_events h)"
  let ?q = "\<lambda>h. oldest_first (\<lambda>r. (ae_at r, ae_id r)) c (?rows h)"
  let ?page = "page_result (\<lambda>e. (ee_event_at e, ee_id e)) (nat n) (map (\<lambda>r. the (decode_event r i)) (?q h))"
  have row: "alert_event_record r i w = (Inr (the (decode_event r i)), w) \<and>
      (ee_event_at (the (decode_event r i)), ee_id (the (decode_event r i))) = (ae_at r, ae_id r) \<and>
      cursor_key (ae_at r, ae_id r)" if "r \<in> set (?rows h)" for r
    using that readable_event_row[OF w(2), of r] w(1) by simp
  have rows: "prog_bind (execute (select_rows (\<lambda>h. take (nat (n + 1)) (?q h)))) (\<lambda>rows.
      prog_bind (prog_map (\<lambda>r. alert_event_record r i) rows)
        (page (\<lambda>e. (ee_event_at e, ee_id e)) (nat n))) w = (Inr ?page, w)"
    by (intro listing_rows[OF w(1,3)]) (use row in \<open>auto simp: oldest_first_def\<close>)
  obtain a where "select_alert i w = (Inr a, w)" using select_alert_reads[OF w(1,2,5)] by blast
  then have "list_alert_events i n c w = (Inr ?page, w)"
    unfolding list_alert_events_def
    by (intro checked_id[OF w(5)] checked_page[OF w(3,4)] idle_transaction[OF w(1)])
      (simp add: prog_bind_def[of "select_alert i"] rows)
  moreover have "map (\<lambda>r. the (decode_event r i)) (?q h) =
      after (<) (\<lambda>e. (ee_event_at e, ee_id e)) c (event_listing h i)"
    unfolding event_listing_def by (rule oldest_listing(1)[symmetric]) (use row in blast)
  ultimately show ?case by simp
qed (auto simp: ready_for_def)

section \<open>Every record once\<close>

lemma listing_bounds:
  "length (sample_listing sha h wanted) \<le> length (h_samples h)"
  "length (alert_listing h lifecycle) \<le> length (h_alerts h)"
  "length (event_listing h i) \<le> length (h_events h)"
  by (simp_all add: sample_listing_def alert_listing_def event_listing_def newest_first_def
      oldest_first_def)

text \<open>The rows of a listing: those that match, in strict order of time and identifier.\<close>

lemma listed_samples:
  assumes "readable sha h"
  obtains rows where "sample_listing sha h wanted = map (decode_sample sha h) rows"
    "set rows = {r \<in> set (h_samples h). \<forall>s. wanted = Some s \<longrightarrow> sm_status r = status_value s}"
    "sorted_wrt (\<lambda>x y. sm_observed y < sm_observed x \<or>
       sm_observed y = sm_observed x \<and> sm_id y < sm_id x) rows"
proof
  let ?rows = "filter (\<lambda>r. null_or (\<lambda>s. sm_status r = status_value s) wanted) (h_samples h)"
  let ?listed = "newest_first (\<lambda>r. (sm_observed r, sm_id r)) None ?rows"
  show "sample_listing sha h wanted = map (decode_sample sha h) ?listed"
    by (simp add: sample_listing_def)
  show "set ?listed = {r \<in> set (h_samples h). \<forall>s. wanted = Some s \<longrightarrow> sm_status r = status_value s}"
    by (cases wanted) (auto simp: null_or_def)
  show "sorted_wrt (\<lambda>x y. sm_observed y < sm_observed x \<or>
      sm_observed y = sm_observed x \<and> sm_id y < sm_id x) ?listed"
    by (rule sorted_wrt_mono_rel[OF _ newest_sorted])
      (use distinct_keys[of sm_id "h_samples h"] assms in \<open>auto simp: readable_def less_prod_def\<close>)
qed

lemma listed_alerts:
  assumes "readable sha h"
  obtains rows where "alert_listing h lifecycle = map (the \<circ> decode_alert) rows"
    "set rows = {r \<in> set (h_alerts h). \<forall>l. lifecycle = Some l \<longrightarrow> al_lifecycle r = lifecycle_value l}"
    "sorted_wrt (\<lambda>x y. al_opened y < al_opened x \<or>
       al_opened y = al_opened x \<and> al_id y < al_id x) rows"
proof
  let ?rows = "filter (\<lambda>r. null_or (\<lambda>l. al_lifecycle r = lifecycle_value l) lifecycle) (h_alerts h)"
  let ?listed = "newest_first (\<lambda>r. (al_opened r, al_id r)) None ?rows"
  show "alert_listing h lifecycle = map (the \<circ> decode_alert) ?listed"
    by (simp add: alert_listing_def)
  show "set ?listed = {r \<in> set (h_alerts h). \<forall>l. lifecycle = Some l \<longrightarrow> al_lifecycle r = lifecycle_value l}"
    by (cases lifecycle) (auto simp: null_or_def)
  show "sorted_wrt (\<lambda>x y. al_opened y < al_opened x \<or>
      al_opened y = al_opened x \<and> al_id y < al_id x) ?listed"
    by (rule sorted_wrt_mono_rel[OF _ newest_sorted])
      (use distinct_keys[of al_id "h_alerts h"] assms in \<open>auto simp: readable_def less_prod_def\<close>)
qed

lemma listed_events:
  assumes "readable sha h"
  obtains rows where "event_listing h i = map (\<lambda>r. the (decode_event r i)) rows"
    "set rows = {r \<in> set (h_events h). ae_alert_id r = i}"
    "sorted_wrt (\<lambda>x y. ae_at x < ae_at y \<or> ae_at x = ae_at y \<and> ae_id x < ae_id y) rows"
proof
  let ?rows = "filter (\<lambda>r. ae_alert_id r = i) (h_events h)"
  let ?listed = "oldest_first (\<lambda>r. (ae_at r, ae_id r)) None ?rows"
  show "event_listing h i = map (\<lambda>r. the (decode_event r i)) ?listed"
    by (simp add: event_listing_def)
  show "set ?listed = {r \<in> set (h_events h). ae_alert_id r = i}"
    by auto
  show "sorted_wrt (\<lambda>x y. ae_at x < ae_at y \<or> ae_at x = ae_at y \<and> ae_id x < ae_id y) ?listed"
    by (rule sorted_wrt_mono_rel[OF _ oldest_sorted])
      (use distinct_keys[of ae_id "h_events h"] assms in \<open>auto simp: readable_def less_prod_def\<close>)
qed

text \<open>
  C25. Paging shows everything once. Take a history whose rows can be read back, and a connection with
  nothing to report. A client that asks for pages of any allowed size, each after the cursor of the
  page before, sees exactly the samples of the status it wants, exactly the alerts of the lifecycle
  it wants and exactly the events of the alert it names, each record once, and the pages end.
  Samples and alerts come newest first, the events of an alert oldest first, equal times in the
  order of the identifiers.
\<close>

theorem pages_show_everything:
  assumes "readable sha h" "idle h w" "1 \<le> n" "n \<le> MAX_PAGE_SIZE" "has_alert h i"
  shows
    "(\<exists>rows.
        all_pages (Suc (length (h_samples h))) (\<lambda>c. list_health_samples sha n c wanted) None w =
          (Inr (map (decode_sample sha h) rows), w) \<and>
        set rows = {r \<in> set (h_samples h). \<forall>s. wanted = Some s \<longrightarrow> sm_status r = status_value s} \<and>
        sorted_wrt (\<lambda>x y. sm_observed y < sm_observed x \<or>
          sm_observed y = sm_observed x \<and> sm_id y < sm_id x) rows) \<and>
     (\<exists>rows.
        all_pages (Suc (length (h_alerts h))) (\<lambda>c. list_alerts n c lifecycle) None w =
          (Inr (map (the \<circ> decode_alert) rows), w) \<and>
        set rows = {r \<in> set (h_alerts h). \<forall>l. lifecycle = Some l \<longrightarrow> al_lifecycle r = lifecycle_value l} \<and>
        sorted_wrt (\<lambda>x y. al_opened y < al_opened x \<or>
          al_opened y = al_opened x \<and> al_id y < al_id x) rows) \<and>
     (\<exists>rows.
        all_pages (Suc (length (h_events h))) (\<lambda>c. list_alert_events i n c) None w =
          (Inr (map (\<lambda>r. the (decode_event r i)) rows), w) \<and>
        set rows = {r \<in> set (h_events h). ae_alert_id r = i} \<and>
        sorted_wrt (\<lambda>x y. ae_at x < ae_at y \<or> ae_at x = ae_at y \<and> ae_id x < ae_id y) rows)"
proof -
  have ready: "ready_for sha h n w" "ready_for sha h n w \<and> has_alert h i"
    using assms by (simp_all add: ready_for_def)
  note bounds = listing_bounds[THEN le_imp_less_Suc]
  obtain rows where listed_sample: "sample_listing sha h wanted = map (decode_sample sha h) rows"
    "set rows = {r \<in> set (h_samples h). \<forall>s. wanted = Some s \<longrightarrow> sm_status r = status_value s}"
    "sorted_wrt (\<lambda>x y. sm_observed y < sm_observed x \<or>
       sm_observed y = sm_observed x \<and> sm_id y < sm_id x) rows"
    by (rule listed_samples[OF assms(1)])
  obtain rows' where listed_alert: "alert_listing h lifecycle = map (the \<circ> decode_alert) rows'"
    "set rows' = {r \<in> set (h_alerts h). \<forall>l. lifecycle = Some l \<longrightarrow> al_lifecycle r = lifecycle_value l}"
    "sorted_wrt (\<lambda>x y. al_opened y < al_opened x \<or>
       al_opened y = al_opened x \<and> al_id y < al_id x) rows'"
    by (rule listed_alerts[OF assms(1)])
  obtain rows'' where listed_event: "event_listing h i = map (\<lambda>r. the (decode_event r i)) rows''"
    "set rows'' = {r \<in> set (h_events h). ae_alert_id r = i}"
    "sorted_wrt (\<lambda>x y. ae_at x < ae_at y \<or> ae_at x = ae_at y \<and> ae_id x < ae_id y) rows''"
    by (rule listed_events[OF assms(1)])
  show ?thesis
  proof (intro conjI)
    show "\<exists>rows.
        all_pages (Suc (length (h_samples h))) (\<lambda>c. list_health_samples sha n c wanted) None w =
          (Inr (map (decode_sample sha h) rows), w) \<and>
        set rows = {r \<in> set (h_samples h). \<forall>s. wanted = Some s \<longrightarrow> sm_status r = status_value s} \<and>
        sorted_wrt (\<lambda>x y. sm_observed y < sm_observed x \<or>
          sm_observed y = sm_observed x \<and> sm_id y < sm_id x) rows"
      using samples.pages_complete[OF ready(1), of None wanted] bounds(1)[of sha h wanted] listed_sample
      by (intro exI[of _ rows]) (simp add: after_def del: all_pages.simps)
    show "\<exists>rows.
        all_pages (Suc (length (h_alerts h))) (\<lambda>c. list_alerts n c lifecycle) None w =
          (Inr (map (the \<circ> decode_alert) rows), w) \<and>
        set rows = {r \<in> set (h_alerts h). \<forall>l. lifecycle = Some l \<longrightarrow> al_lifecycle r = lifecycle_value l} \<and>
        sorted_wrt (\<lambda>x y. al_opened y < al_opened x \<or>
          al_opened y = al_opened x \<and> al_id y < al_id x) rows"
      using alerts.pages_complete[OF ready(1), of None lifecycle] bounds(2)[of h lifecycle] listed_alert
      by (intro exI[of _ rows']) (simp add: after_def del: all_pages.simps)
    show "\<exists>rows.
        all_pages (Suc (length (h_events h))) (\<lambda>c. list_alert_events i n c) None w =
          (Inr (map (\<lambda>r. the (decode_event r i)) rows), w) \<and>
        set rows = {r \<in> set (h_events h). ae_alert_id r = i} \<and>
        sorted_wrt (\<lambda>x y. ae_at x < ae_at y \<or> ae_at x = ae_at y \<and> ae_id x < ae_id y) rows"
      using events.pages_complete[OF ready(2), of None] bounds(3)[of h i] listed_event
      by (intro exI[of _ rows'']) (simp add: after_def del: all_pages.simps)
  qed
qed

text \<open>Two alerts, one of them recovered, with three events.\<close>

definition shown_history :: History where
  "shown_history = new_history\<lparr>
     h_alerts :=
       [\<lparr>al_id = 1, al_scope = ''wled'', al_kind = ''degraded'', al_lifecycle = ''recovered'',
         al_severity = ''degraded'', al_opened = 10, al_acknowledged = None, al_recovered = Some 20,
         al_archived = None, al_first_sample = None, al_latest_sample = None, al_episode = 1,
         al_occurrence = 1, al_cooldown = 40\<rparr>,
        \<lparr>al_id = 2, al_scope = ''capture'', al_kind = ''unavailable'', al_lifecycle = ''open'',
         al_severity = ''unavailable'', al_opened = 15, al_acknowledged = None, al_recovered = None,
         al_archived = None, al_first_sample = None, al_latest_sample = None, al_episode = 1,
         al_occurrence = 1, al_cooldown = 50\<rparr>],
     h_events :=
       [\<lparr>ae_id = 1, ae_alert_id = 1, ae_type = ''opened'', ae_at = 10, ae_sample = None,
         ae_lifecycle = ''open''\<rparr>,
        \<lparr>ae_id = 2, ae_alert_id = 2, ae_type = ''opened'', ae_at = 15, ae_sample = None,
         ae_lifecycle = ''open''\<rparr>,
        \<lparr>ae_id = 3, ae_alert_id = 1, ae_type = ''recovered'', ae_at = 20, ae_sample = None,
         ae_lifecycle = ''recovered''\<rparr>]\<rparr>"

definition quiet_world :: "History \<Rightarrow> World" where
  "quiet_world h =
     \<lparr>w_connection = \<lparr>cn_history = h, cn_committed = h, cn_failures = []\<rparr>, w_closed = False,
      w_clock = (\<lambda>_. 0), w_reads = 0, w_deadline = 0, w_expired = False, w_handler = False,
      w_progress = [], w_pragmas = [], w_wal_files = [], w_disk = [], w_runtime_safe = True,
      w_files_stable = []\<rparr>"

lemma quiet_world_idle [simp]: "idle h (quiet_world h)"
  by (simp add: idle_def quiet_world_def)

lemma shown_readable: "readable sha shown_history" "has_alert shown_history 1"
proof -
  have "list_all (readable_alert shown_history) (h_alerts shown_history) \<and>
      list_all (readable_event shown_history) (h_events shown_history)"
    by code_simp
  then show "readable sha shown_history"
    by (simp add: readable_def list_all_iff) (simp add: shown_history_def new_history_def)
  show "has_alert shown_history 1" by code_simp
qed

lemma sorted_pair:
  assumes "set rows = {c, d}" "sorted_wrt before rows" "c \<noteq> d"
    and "\<not> before c c" "\<not> before d d" "\<not> before c d"
  shows "rows = [d, c]"
proof -
  have two: "x = d \<and> y = c" if "x \<in> {c, d}" "y \<in> {c, d}" "before x y" for x y
    using that assms(4-6) by auto
  obtain x xs where rows: "rows = x # xs" using assms(1) by (cases rows) auto
  obtain y ys where xs: "xs = y # ys" using assms(1,3) rows by (cases xs) auto
  have "set (x # y # ys) = {c, d}" using assms(1) rows xs by simp
  then have "x \<in> {c, d}" "y \<in> {c, d}" "set ys \<subseteq> {c, d}" by auto
  moreover have "before x y" "\<forall>z \<in> set ys. before x z \<and> before y z"
    using assms(2) rows xs by auto
  ultimately have xy: "x = d" "y = c" and rest: "\<forall>z \<in> set ys. z \<in> {c, d} \<and> before y z"
    using two by blast+
  have "ys = []"
  proof (rule ccontr)
    assume "ys \<noteq> []"
    then have "hd ys \<in> {c, d}" "before c (hd ys)" using rest xy by auto
    then show False using assms(4,6) by auto
  qed
  then show ?thesis using xy rows xs by simp
qed

theorem pages_show_everything_witness:
  "\<exists>a b. all_pages 3 (\<lambda>c. list_alerts 1 c None) None (quiet_world shown_history) =
       (Inr (map (the \<circ> decode_alert) [a, b]), quiet_world shown_history) \<and>
     al_id a = 2 \<and> al_id b = 1"
proof -
  have three: "Suc (length (h_alerts shown_history)) = 3" by (simp add: shown_history_def)
  have size: "1 \<le> MAX_PAGE_SIZE" by (simp add: MAX_PAGE_SIZE_def)
  note pages = pages_show_everything[OF shown_readable(1)[of id] quiet_world_idle order_refl size
      shown_readable(2), where wanted = None and lifecycle = None, THEN conjunct2, THEN conjunct1]
  obtain rows where r:
    "all_pages (Suc (length (h_alerts shown_history))) (\<lambda>c. list_alerts 1 c None) None
         (quiet_world shown_history) =
       (Inr (map (the \<circ> decode_alert) rows), quiet_world shown_history)"
    "set rows = {r \<in> set (h_alerts shown_history). \<forall>l. None = Some l \<longrightarrow> al_lifecycle r = lifecycle_value l}"
    "sorted_wrt (\<lambda>x y. al_opened y < al_opened x \<or> al_opened y = al_opened x \<and> al_id y < al_id x) rows"
    using pages by (elim exE conjE)
  have rows: "set rows = set (h_alerts shown_history)" using r(2) by simp
  obtain c d where listed: "h_alerts shown_history = [c, d]" "al_id c = 1" "al_id d = 2"
    "al_opened c = 10" "al_opened d = 15"
    by (simp add: shown_history_def)
  have "rows = [d, c]"
    using rows listed by (intro sorted_pair[OF _ r(3)]) auto
  then show ?thesis using r(1)[unfolded three] listed(2,3) by blast
qed

section \<open>Clocks that step back\<close>

text \<open>
  Recovering an alert does not compare the time with the one the alert was opened at, and neither do
  the constraints of the table; reading the alert back does. After the wall clock stepped back, an
  open alert that recovers is stored as a row that every later listing of it refuses as malformed.
\<close>

lemma recovery_before_opening_unreadable:
  assumes "decode_alert r = Some a" "alert_check r" "al_lifecycle r = ''open''"
    and "0 \<le> now" "now < al_opened r"
    and "r' = r\<lparr>al_lifecycle := ''recovered'', al_recovered := Some now,
      al_cooldown := max (al_cooldown r) (deadline now), al_latest_sample := None\<rparr>"
  shows "\<exists>t. recover (record_state a) now = Inr t \<and> at_outcome t = AT_APPLIED \<and>
    map_option aa_recovered_at (at_state t) = Some (al_recovered r') \<and>
    map_option aa_cooldown_until (at_state t) = Some (al_cooldown r')"
    and "alert_check r'" and "decode_alert r' = None"
proof -
  note f = decode_alert_fields[OF assms(1)]
  have opened: "is_timestamp (al_opened r)" using f by (simp add: validate_alert_record_def)
  have now: "now \<le> MAX_TIMESTAMP_US" using opened assms(5) by (simp add: column_defs)
  have life: "lifecycle_of ''open'' = Some AL_OPEN" "lifecycle_of ''recovered'' = Some AL_RECOVERED"
    by code_simp+
  have state: "aa_lifecycle (record_state a) = AL_OPEN" "aa_cooldown_until (record_state a) = al_cooldown r"
    using f(6) assms(1,3) life by (auto simp: record_state_def decode_alert_def Let_def
        split: option.splits if_splits)
  have "alert_state_error (record_state a) = None" using f by (simp add: validate_alert_record_def)
  then have "alert_valid (recovered_alert (record_state a) now)"
    using deadline_bounds[OF assms(4)] state now assms(4) by (simp add: alert_valid_iff le_max_iff_disj)
  then show "\<exists>t. recover (record_state a) now = Inr t \<and> at_outcome t = AT_APPLIED \<and>
    map_option aa_recovered_at (at_state t) = Some (al_recovered r') \<and>
    map_option aa_cooldown_until (at_state t) = Some (al_cooldown r')"
    using state by (simp add: recover_def moved_to_def assms(6))
  have "is_lifecycle ''recovered''" by (simp add: is_lifecycle_def life)
  moreover have "is_timestamp (max (al_cooldown r) (deadline now))"
    using assms(2) deadline_bounds[OF assms(4)] by (simp add: alert_check_def column_defs le_max_iff_disj)
  moreover have "is_timestamp now" using assms(4) now by (simp add: column_defs)
  ultimately show "alert_check r'"
    using assms(2,3) unfolding alert_check_def assms(6) by (simp add: null_or_def)
  show "decode_alert r' = None"
    using assms(3,5,6) by (auto simp: decode_alert_def Let_def validate_alert_record_def times_ordered_def
        null_or_def or_zero_def split: option.splits)
qed

end
