(* ===== verification/Retention.thy ===== *)
theory Retention
  imports History_Queries
begin

text \<open>
  \<open>health_history/maintenance.py\<close>: bounded retention and incremental vacuum. A cleanup deletes, in one
  transaction and within a second, at most 500 rows that are older than the cutoff: health samples,
  and archived alerts after all their events, oldest first.
\<close>

definition RETENTION_ROW_BUDGET :: nat where "RETENTION_ROW_BUDGET = 500"
definition MIN_RETENTION_DAYS :: int where "MIN_RETENTION_DAYS = 1"
definition MAX_RETENTION_DAYS :: int where "MAX_RETENTION_DAYS = 365"
definition INCREMENTAL_VACUUM_PAGES :: int where "INCREMENTAL_VACUUM_PAGES = 128"
definition MAINTENANCE_SECONDS :: seconds where "MAINTENANCE_SECONDS = 1"
definition MICROSECONDS_PER_DAY :: int where "MICROSECONDS_PER_DAY = 86400000000"
definition MAX_SQLITE_PAGE_COUNT :: int where "MAX_SQLITE_PAGE_COUNT = 4294967294"
definition AUTO_VACUUM_INCREMENTAL :: int where "AUTO_VACUUM_INCREMENTAL = 2"

abbreviation malformed_maintenance :: store_exception where
  "malformed_maintenance \<equiv> Maintenance_Error MR_MALFORMED_STATE True"

abbreviation maintenance_timed_out :: store_exception where
  "maintenance_timed_out \<equiv> Maintenance_Error MR_TIMED_OUT False"

abbreviation check_maintenance_deadline :: "unit prog" where
  "check_maintenance_deadline \<equiv> check_deadline maintenance_timed_out"

section \<open>Results\<close>

datatype MaintenanceOutcome = MO_NO_WORK | MO_COMPLETED

record RetentionCleanupResult =
  rr_outcome :: MaintenanceOutcome
  rr_samples :: nat
  rr_events :: nat
  rr_alerts :: nat

definition logical_rows_deleted :: "RetentionCleanupResult \<Rightarrow> nat" where
  "logical_rows_deleted r = rr_samples r + rr_events r + rr_alerts r"

definition cleanup_result_valid :: "RetentionCleanupResult \<Rightarrow> bool" where
  "cleanup_result_valid r \<longleftrightarrow>
     logical_rows_deleted r \<le> RETENTION_ROW_BUDGET \<and>
     (rr_outcome r = MO_NO_WORK \<longrightarrow> logical_rows_deleted r = 0) \<and>
     (rr_outcome r = MO_COMPLETED \<longrightarrow> logical_rows_deleted r \<noteq> 0)"

record IncrementalVacuumResult =
  vr_outcome :: MaintenanceOutcome
  vr_requested :: int
  vr_before :: int
  vr_after :: int

definition vacuum_result_valid :: "IncrementalVacuumResult \<Rightarrow> bool" where
  "vacuum_result_valid r \<longleftrightarrow>
     between 0 MAX_SQLITE_PAGE_COUNT (vr_before r) \<and> between 0 MAX_SQLITE_PAGE_COUNT (vr_after r) \<and>
     vr_after r \<le> vr_before r \<and> vr_before r - vr_after r \<le> vr_requested r \<and>
     (vr_outcome r = MO_NO_WORK \<longrightarrow> vr_requested r = 0 \<and> vr_before r = 0 \<and> vr_after r = 0) \<and>
     (vr_outcome r = MO_COMPLETED \<longrightarrow>
        vr_requested r = INCREMENTAL_VACUUM_PAGES \<and> 1 \<le> vr_before r)"

definition build_or_malformed :: "bool \<Rightarrow> 'a \<Rightarrow> 'a prog" where
  "build_or_malformed valid x =
     (if valid then prog_return x else prog_raise (Database_Error Type_Or_Value_Error))"

section \<open>Failures\<close>

definition classified_maintenance_error :: "sqlite_failure \<Rightarrow> bool \<Rightarrow> store_exception" where
  "classified_maintenance_error e expired =
     (let primary = map_option (\<lambda>code. code mod 256) (sf_errorcode e)
      in if sf_integrity e \<or>
            primary \<in> {Some SQLITE_CORRUPT, Some SQLITE_NOTADB, Some SQLITE_SCHEMA,
                       Some SQLITE_CONSTRAINT}
         then Maintenance_Error MR_TRUST_FAILED True
         else if primary \<in> {Some SQLITE_BUSY, Some SQLITE_LOCKED}
         then Maintenance_Error MR_STORAGE_BUSY False
         else if expired \<and> primary \<in> {None, Some SQLITE_INTERRUPT} then maintenance_timed_out
         else Maintenance_Error MR_PERSISTENCE_FAILED False)"

definition raise_classified :: "sqlite_failure \<Rightarrow> 'a prog" where
  "raise_classified e w = (Inl (classified_maintenance_error e (w_expired w)), w)"

definition rollback_maintenance :: "unit prog" where
  "rollback_maintenance =
     on_sqlite_error (\<lambda>_. Maintenance_Error MR_TRUST_FAILED True) (execute rollback_transaction)"

text \<open>The four handlers of a cleanup; they roll back a transaction that is still open.\<close>

definition cleanup_failure :: "bool \<Rightarrow> store_exception \<Rightarrow> 'a prog" where
  "cleanup_failure transaction_started e =
     (let undo = (if transaction_started then rollback_maintenance else prog_return ())
      in case e of
           Maintenance_Error _ _ \<Rightarrow> prog_then undo (prog_raise e)
         | Query_Error reason _ \<Rightarrow>
             prog_then undo (prog_raise (Maintenance_Error
               (if reason = QR_MALFORMED_STATE then MR_MALFORMED_STATE else MR_TRUST_FAILED) True))
         | Database_Error (Sqlite_Error s) \<Rightarrow> prog_then undo (raise_classified s)
         | Database_Error Type_Or_Value_Error \<Rightarrow> prog_then undo (prog_raise malformed_maintenance)
         | _ \<Rightarrow> prog_raise e)"

definition install_progress_handler :: "unit prog" where
  "install_progress_handler =
     prog_handle (set_handler True) (\<lambda>e.
       case e of Database_Error (Sqlite_Error s) \<Rightarrow> raise_classified s | _ \<Rightarrow> prog_raise e)"

definition clear_progress_handler :: "unit prog" where
  "clear_progress_handler =
     on_sqlite_error (\<lambda>_. Maintenance_Error MR_TRUST_FAILED True) (set_handler False)"

section \<open>The plan\<close>

definition retention_cutoff :: "int \<Rightarrow> int \<Rightarrow> int prog" where
  "retention_cutoff now_utc_us retention_days =
     (if \<not> between 0 MAX_TIMESTAMP_US now_utc_us \<or>
         \<not> between MIN_RETENTION_DAYS MAX_RETENTION_DAYS retention_days
      then prog_raise (Maintenance_Error MR_INVALID_MAINTENANCE False)
      else prog_return (now_utc_us - retention_days * MICROSECONDS_PER_DAY))"

datatype candidate_kind = Kind_Health | Kind_Alert

record RetentionCandidate =
  rc_retained_at :: int
  rc_type_order :: nat
  rc_row_id :: int
  rc_kind :: candidate_kind

datatype DeletionAction = Delete_Health int | Delete_Event int int | Delete_Alert int

definition health_candidate_rows :: "int \<Rightarrow> sample_row list \<Rightarrow> sample_row list" where
  "health_candidate_rows cutoff rows =
     take RETENTION_ROW_BUDGET
       (sort_key (\<lambda>r. (sm_observed r, sm_id r)) (filter (\<lambda>r. sm_observed r < cutoff) rows))"

definition recovered_before :: "int \<Rightarrow> alert_row \<Rightarrow> bool" where
  "recovered_before cutoff r \<longleftrightarrow>
     al_lifecycle r = ''archived'' \<and>
     (case al_recovered r of None \<Rightarrow> False | Some t \<Rightarrow> t < cutoff)"

definition archived_candidate_rows :: "int \<Rightarrow> alert_row list \<Rightarrow> alert_row list" where
  "archived_candidate_rows cutoff rows =
     take RETENTION_ROW_BUDGET
       (sort_key (\<lambda>r. (or_zero (al_recovered r), al_id r)) (filter (recovered_before cutoff) rows))"

definition health_candidate ::
  "(bytes \<Rightarrow> bytes) \<Rightarrow> int \<Rightarrow> sample_row \<Rightarrow> RetentionCandidate prog" where
  "health_candidate sha cutoff r =
     prog_then check_maintenance_deadline (
     prog_bind (health_sample_record sha r) (\<lambda>s.
     prog_then check_maintenance_deadline (
     prog_then (prog_require (hs_observed_at s < cutoff) malformed_maintenance) (
     prog_return \<lparr>rc_retained_at = hs_observed_at s, rc_type_order = 0, rc_row_id = hs_id s,
                  rc_kind = Kind_Health\<rparr>))))"

definition alert_candidate :: "int \<Rightarrow> alert_row \<Rightarrow> RetentionCandidate prog" where
  "alert_candidate cutoff r =
     prog_then check_maintenance_deadline (
     prog_bind (alert_record r) (\<lambda>a.
     prog_then check_maintenance_deadline (
     case ar_recovered_at a of
       None \<Rightarrow> prog_raise malformed_maintenance
     | Some t \<Rightarrow>
         prog_then (prog_require (ar_lifecycle a = AL_ARCHIVED \<and> t < cutoff) malformed_maintenance) (
         prog_return \<lparr>rc_retained_at = t, rc_type_order = 1, rc_row_id = ar_id a,
                      rc_kind = Kind_Alert\<rparr>))))"

definition alert_event_rows :: "int \<Rightarrow> nat \<Rightarrow> event_row list \<Rightarrow> event_row list" where
  "alert_event_rows alert n rows =
     take n (sort_key (\<lambda>r. (ae_at r, ae_id r)) (filter (\<lambda>r. ae_alert_id r = alert) rows))"

text \<open>
  One candidate after the other, with the actions planned so far; at most the whole budget is planned,
  and an alert only once all its events are.
\<close>

fun plan_candidates :: "RetentionCandidate list \<Rightarrow> DeletionAction list \<Rightarrow> DeletionAction list prog" where
  "plan_candidates [] actions = prog_return actions"
| "plan_candidates (c # cs) actions =
     prog_then check_maintenance_deadline (
     let remaining = RETENTION_ROW_BUDGET - length actions
     in if remaining = 0 then prog_return actions
        else if rc_kind c = Kind_Health
        then plan_candidates cs (actions @ [Delete_Health (rc_row_id c)])
        else
          prog_then check_maintenance_deadline (
          prog_bind (execute (select_rows (\<lambda>h. alert_event_rows (rc_row_id c) (remaining + 1) (h_events h))))
            (\<lambda>rows.
          prog_then check_maintenance_deadline (
          prog_bind (prog_map (\<lambda>r.
              prog_then check_maintenance_deadline (
              prog_bind (alert_event_record r (rc_row_id c)) (\<lambda>e.
              prog_then check_maintenance_deadline (prog_return e)))) rows) (\<lambda>events.
          let selected = take remaining events
          in prog_then (prog_each (\<lambda>_. check_maintenance_deadline) selected) (
             let planned = actions @ map (\<lambda>e. Delete_Event (ee_id e) (rc_row_id c)) selected
             in plan_candidates cs
                  (if length events \<le> remaining \<and> length planned < RETENTION_ROW_BUDGET
                   then planned @ [Delete_Alert (rc_row_id c)] else planned)))))))"

definition retention_plan :: "(bytes \<Rightarrow> bytes) \<Rightarrow> int \<Rightarrow> DeletionAction list prog" where
  "retention_plan sha cutoff =
     prog_bind (execute (select_rows (\<lambda>h. health_candidate_rows cutoff (h_samples h)))) (\<lambda>health_rows.
     prog_then check_maintenance_deadline (
     prog_bind (execute (select_rows (\<lambda>h. archived_candidate_rows cutoff (h_alerts h)))) (\<lambda>alert_rows.
     prog_then check_maintenance_deadline (
     prog_bind (prog_map (health_candidate sha cutoff) health_rows) (\<lambda>health.
     prog_bind (prog_map (alert_candidate cutoff) alert_rows) (\<lambda>alerts.
     prog_then check_maintenance_deadline (
     let candidates =
       sort_key (\<lambda>c. (rc_retained_at c, rc_type_order c, rc_row_id c)) (health @ alerts)
     in prog_then check_maintenance_deadline (
        prog_bind (plan_candidates candidates []) (\<lambda>actions.
        prog_then (prog_require (length actions \<le> RETENTION_ROW_BUDGET) malformed_maintenance) (
        prog_return actions))))))))))"

section \<open>Carrying it out\<close>

text \<open>
  What the deletion of a sample does to the rows that refer to it: its components go with it, and
  the other references become \<open>NULL\<close>.
\<close>

definition unless_sample :: "int \<Rightarrow> int option \<Rightarrow> int option" where
  "unless_sample i x = (if x = Some i then None else x)"

definition without_sample :: "int \<Rightarrow> History \<Rightarrow> History" where
  "without_sample i h =
     h\<lparr>h_samples := filter (\<lambda>r. sm_id r \<noteq> i) (h_samples h),
       h_components := filter (\<lambda>r. cs_sample_id r \<noteq> i) (h_components h),
       h_alerts := map (\<lambda>r. r\<lparr>al_first_sample := unless_sample i (al_first_sample r),
                             al_latest_sample := unless_sample i (al_latest_sample r)\<rparr>) (h_alerts h),
       h_evaluation := map (\<lambda>r. r\<lparr>ev_sample := unless_sample i (ev_sample r)\<rparr>) (h_evaluation h),
       h_events := map (\<lambda>r. r\<lparr>ae_sample := unless_sample i (ae_sample r)\<rparr>) (h_events h)\<rparr>"

definition without_event :: "int \<Rightarrow> History \<Rightarrow> History" where
  "without_event i h = h\<lparr>h_events := filter (\<lambda>r. ae_id r \<noteq> i) (h_events h)\<rparr>"

definition without_alert :: "int \<Rightarrow> History \<Rightarrow> History" where
  "without_alert i h =
     h\<lparr>h_alerts := filter (\<lambda>r. al_id r \<noteq> i) (h_alerts h),
       h_events := filter (\<lambda>r. ae_alert_id r \<noteq> i) (h_events h)\<rparr>"

text \<open>\<open>DELETE \<dots> WHERE\<close> by key and condition, with the row count.\<close>

definition delete_row :: "(History \<Rightarrow> bool) \<Rightarrow> (History \<Rightarrow> History) \<Rightarrow> nat tx" where
  "delete_row found remove = change_rows (\<lambda>h. Some (if found h then (remove h, 1) else (h, 0)))"

definition delete_health_sample :: "int \<Rightarrow> int \<Rightarrow> nat tx" where
  "delete_health_sample i cutoff =
     delete_row (\<lambda>h. list_ex (\<lambda>r. sm_id r = i \<and> sm_observed r < cutoff) (h_samples h)) (without_sample i)"

definition delete_alert_event :: "int \<Rightarrow> int \<Rightarrow> nat tx" where
  "delete_alert_event i alert =
     delete_row (\<lambda>h. list_ex (\<lambda>r. ae_id r = i \<and> ae_alert_id r = alert) (h_events h)) (without_event i)"

definition delete_archived_alert :: "int \<Rightarrow> int \<Rightarrow> nat tx" where
  "delete_archived_alert i cutoff =
     delete_row (\<lambda>h. list_ex (\<lambda>r. al_id r = i \<and> recovered_before cutoff r) (h_alerts h)) (without_alert i)"

definition carry_out :: "int \<Rightarrow> DeletionAction \<Rightarrow> nat prog" where
  "carry_out cutoff action =
     (case action of
        Delete_Health i \<Rightarrow> execute (delete_health_sample i cutoff)
      | Delete_Event i alert \<Rightarrow> execute (delete_alert_event i alert)
      | Delete_Alert i \<Rightarrow>
          prog_bind (execute (select_rows (\<lambda>h. find (\<lambda>r. ae_alert_id r = i) (h_events h)))) (\<lambda>row.
          prog_then (prog_require (row = None) malformed_maintenance) (
          execute (delete_archived_alert i cutoff))))"

definition execute_retention_plan :: "int \<Rightarrow> DeletionAction list \<Rightarrow> unit prog" where
  "execute_retention_plan cutoff actions =
     prog_each (\<lambda>action.
       prog_then check_maintenance_deadline (
       prog_bind (carry_out cutoff action) (\<lambda>rowcount.
       prog_require (rowcount = 1) malformed_maintenance))) actions"

definition deletion_counts :: "DeletionAction list \<Rightarrow> nat \<times> nat \<times> nat" where
  "deletion_counts actions =
     (length (filter (\<lambda>a. case a of Delete_Health _ \<Rightarrow> True | _ \<Rightarrow> False) actions),
      length (filter (\<lambda>a. case a of Delete_Event _ _ \<Rightarrow> True | _ \<Rightarrow> False) actions),
      length (filter (\<lambda>a. case a of Delete_Alert _ \<Rightarrow> True | _ \<Rightarrow> False) actions))"

section \<open>Cleanup\<close>

definition cleanup_transaction :: "(bytes \<Rightarrow> bytes) \<Rightarrow> int \<Rightarrow> (nat \<times> nat \<times> nat) prog" where
  "cleanup_transaction sha cutoff =
     prog_bind (retention_plan sha cutoff) (\<lambda>plan.
     prog_then (execute_retention_plan cutoff plan) (
     prog_then check_maintenance_deadline (
     prog_then (execute commit_transaction) (
     prog_return (deletion_counts plan)))))"

definition cleanup_result :: "nat \<times> nat \<times> nat \<Rightarrow> RetentionCleanupResult" where
  "cleanup_result counts =
     (case counts of
        (samples, events, alerts) \<Rightarrow>
          \<lparr>rr_outcome = (if samples + events + alerts = 0 then MO_NO_WORK else MO_COMPLETED),
           rr_samples = samples, rr_events = events, rr_alerts = alerts\<rparr>)"

definition cleanup_retention ::
  "(bytes \<Rightarrow> bytes) \<Rightarrow> int \<Rightarrow> int \<Rightarrow> RetentionCleanupResult prog" where
  "cleanup_retention sha now_utc_us retention_days =
     prog_bind (retention_cutoff now_utc_us retention_days) (\<lambda>cutoff.
     prog_then (start_deadline MAINTENANCE_SECONDS) (
     prog_finally
       (prog_then install_progress_handler (
        prog_then (prog_handle (execute begin_immediate) (cleanup_failure False)) (
        prog_bind (prog_handle (cleanup_transaction sha cutoff) (cleanup_failure True)) (\<lambda>counts.
        prog_handle
          (prog_then check_maintenance_deadline (
           let r = cleanup_result counts in build_or_malformed (cleanup_result_valid r) r))
          (cleanup_failure False)))))
       clear_progress_handler))"

section \<open>Incremental vacuum\<close>

definition validated_pragma_integer :: "pragma_row list \<Rightarrow> int prog" where
  "validated_pragma_integer rows =
     (case rows of
        [Some x] # _ \<Rightarrow> prog_return x
      | _ \<Rightarrow> prog_raise malformed_maintenance)"

definition bounded_page_count :: "int \<Rightarrow> int prog" where
  "bounded_page_count n =
     (if between 0 MAX_SQLITE_PAGE_COUNT n then prog_return n else prog_raise malformed_maintenance)"

definition freelist_count :: "int prog" where
  "freelist_count = prog_bind (prog_bind pragma validated_pragma_integer) bounded_page_count"

definition vacuum_steps :: "IncrementalVacuumResult prog" where
  "vacuum_steps =
     prog_bind (prog_bind pragma validated_pragma_integer) (\<lambda>mode.
     if mode \<noteq> AUTO_VACUUM_INCREMENTAL then prog_raise (Maintenance_Error MR_TRUST_FAILED True)
     else
       prog_bind freelist_count (\<lambda>pages_before.
       if pages_before = 0
       then prog_then check_maintenance_deadline (
            let r = \<lparr>vr_outcome = MO_NO_WORK, vr_requested = 0, vr_before = 0, vr_after = 0\<rparr>
            in build_or_malformed (vacuum_result_valid r) r)
       else
         prog_then check_maintenance_deadline (
         prog_bind pragma (\<lambda>rows.
         prog_then (prog_require (int (length rows) \<le> INCREMENTAL_VACUUM_PAGES) malformed_maintenance) (
         prog_then check_maintenance_deadline (
         prog_bind freelist_count (\<lambda>freed.
         prog_then (prog_require (freed \<le> pages_before \<and> pages_before - freed \<le> INCREMENTAL_VACUUM_PAGES)
           malformed_maintenance) (
         prog_then check_maintenance_deadline (
         let r = \<lparr>vr_outcome = MO_COMPLETED, vr_requested = INCREMENTAL_VACUUM_PAGES,
                  vr_before = pages_before, vr_after = freed\<rparr>
         in build_or_malformed (vacuum_result_valid r) r)))))))))"

definition incremental_vacuum :: "IncrementalVacuumResult prog" where
  "incremental_vacuum =
     prog_then (start_deadline MAINTENANCE_SECONDS) (
     prog_finally
       (prog_then install_progress_handler (prog_handle vacuum_steps (cleanup_failure False)))
       clear_progress_handler)"

end
