(* ===== verification/Store_Steps.thy ===== *)
theory Store_Steps
  imports History_Queries
begin

text \<open>
  Rules for the steps of a store's operation within a transaction: what it returns and leaves, related
  to the history of the open transaction, whatever SQLite, the clock and the progress handler do.
\<close>

section \<open>Steps that read and steps that write\<close>

definition open_history :: "World \<Rightarrow> History" where
  "open_history w = cn_history (w_connection w)"

definition committed_history :: "World \<Rightarrow> History" where
  "committed_history w = cn_committed (w_connection w)"

text \<open>
  Neither kind of step commits. A step that reads leaves the open transaction's history alone; what it
  returns is related to that history by \<open>R\<close>. A step that writes relates the history before, the result
  and the history after.
\<close>

definition writing :: "'a prog \<Rightarrow> (History \<Rightarrow> 'a \<Rightarrow> History \<Rightarrow> bool) \<Rightarrow> bool" where
  "writing m R \<longleftrightarrow>
     (\<forall>w r w1. m w = (r, w1) \<longrightarrow>
        committed_history w1 = committed_history w \<and>
        (\<forall>x. r = Inr x \<longrightarrow> R (open_history w) x (open_history w1)))"

definition reading :: "'a prog \<Rightarrow> (History \<Rightarrow> 'a \<Rightarrow> bool) \<Rightarrow> bool" where
  "reading m R \<longleftrightarrow> writing m (\<lambda>h x h1. h1 = h \<and> R h x)"

lemma writing_conseq: "writing m R \<Longrightarrow> (\<And>h x h1. R h x h1 \<Longrightarrow> S h x h1) \<Longrightarrow> writing m S"
  unfolding writing_def by blast

lemma reading_conseq: "reading m R \<Longrightarrow> (\<And>h x. R h x \<Longrightarrow> S h x) \<Longrightarrow> reading m S"
  unfolding reading_def by (erule writing_conseq) blast

lemma writing_bind:
  assumes "writing m R" "\<And>x. writing (k x) (S x)"
  shows "writing (prog_bind m k) (\<lambda>h y h2. \<exists>x h1. R h x h1 \<and> S x h1 y h2)"
  unfolding writing_def
proof (intro allI impI conjI)
  fix w r w2 assume run: "prog_bind m k w = (r, w2)"
  obtain s w1 where m: "m w = (s, w1)" by (cases "m w")
  show "committed_history w2 = committed_history w"
    using run m assms unfolding writing_def by (cases s) (auto simp: prog_bind_def)
  fix y assume "r = Inr y"
  then obtain x where "s = Inr x" "k x w1 = (Inr y, w2)"
    using run m by (cases s) (auto simp: prog_bind_def)
  then show "\<exists>x h1. R (open_history w) x h1 \<and> S x h1 y (open_history w2)"
    using m assms unfolding writing_def by blast
qed

lemma reading_bind:
  assumes "reading m R" "\<And>x. reading (k x) (S x)"
  shows "reading (prog_bind m k) (\<lambda>h y. \<exists>x. R h x \<and> S x h y)"
  unfolding reading_def
  by (rule writing_conseq[OF writing_bind[OF assms[unfolded reading_def]]]) auto

lemma reading_then:
  assumes "reading m R" "reading k S"
  shows "reading (prog_then m k) (\<lambda>h y. R h () \<and> S h y)"
  unfolding prog_then_def by (rule reading_conseq[OF reading_bind[OF assms(1)], of _ "\<lambda>_. S"]) (auto intro: assms(2))

lemma reading_return: "reading (prog_return x) (\<lambda>h y. y = x)"
  by (simp add: reading_def writing_def prog_return_def)

lemma reading_raise: "reading (prog_raise e) (\<lambda>h y. False)"
  by (simp add: reading_def writing_def prog_raise_def)

lemma reading_require: "reading (prog_require b e) (\<lambda>h y. b)"
  by (simp add: prog_require_def reading_def writing_def prog_return_def prog_raise_def)

lemma reading_or_malformed: "reading (or_malformed_query x) (\<lambda>h y. x = Some y)"
  by (cases x) (simp_all add: or_malformed_query_def reading_def writing_def prog_return_def prog_raise_def)

lemma reading_check: "reading (check_deadline e) (\<lambda>h y. True)"
  by (auto simp: reading_def writing_def check_deadline_def prog_bind_def read_clock_def
      open_history_def committed_history_def split: if_splits)

lemma reading_map:
  assumes "\<And>r. reading (f r) (\<lambda>h y. R h r y)"
  shows "reading (prog_map f rows) (\<lambda>h ys. list_all2 (R h) rows ys)"
proof (induction rows)
  case Nil
  then show ?case by (auto intro: reading_conseq[OF reading_return])
next
  case (Cons r rows)
  show ?case
    by (simp, rule reading_conseq[OF reading_bind[OF assms reading_bind[OF Cons.IH reading_return]]]) auto
qed

lemma reading_each:
  assumes "\<And>r. reading (f r) (\<lambda>h y. True)"
  shows "reading (prog_each f rows) (\<lambda>h y. True)"
  by (induction rows) (auto intro: reading_conseq[OF reading_return] reading_conseq[OF reading_then[OF assms]])

text \<open>Statements, also when the progress handler interrupts them.\<close>

lemma call_progress_connection: "w_connection (snd (call_progress n w)) = w_connection w"
  by (induction n w rule: call_progress.induct) simp_all

lemma execute_cases:
  assumes "execute m w = (r, w1)"
  shows "w_connection w1 = w_connection w \<and> (\<exists>e. r = Inl e) \<or>
    (\<exists>s c1. m (w_connection w) = (s, c1) \<and> w_connection w1 = c1 \<and>
      (\<forall>x. r = Inr x \<longleftrightarrow> s = Inr x))"
proof -
  have conn: "(\<exists>s c1. m (w_connection v) = (s, c1) \<and> w_connection w1 = c1 \<and> (\<forall>x. r = Inr x \<longleftrightarrow> s = Inr x))"
    if "on_connection m v = (r, w1)" for v
    using that by (auto simp: on_connection_def split: prod.splits sum.splits)
  show ?thesis
  proof (cases "w_handler w")
    case True
    let ?n = "case w_progress w of [] \<Rightarrow> 0 | n # _ \<Rightarrow> n"
    obtain b v where v: "call_progress ?n (w\<lparr>w_progress := tl (w_progress w)\<rparr>) = (b, v)"
      by (cases "call_progress ?n (w\<lparr>w_progress := tl (w_progress w)\<rparr>)")
    then have "w_connection v = w_connection w"
      using call_progress_connection[of ?n "w\<lparr>w_progress := tl (w_progress w)\<rparr>"] by simp
    then show ?thesis using assms True v conn[of v]
      by (cases b) (auto simp: execute_def)
  next
    case False
    then show ?thesis using assms conn[of w] by (simp add: execute_def)
  qed
qed

lemma run_statement_cases:
  assumes "run_statement body c = (s, c1)"
  shows "cn_history c1 = cn_history c \<and> cn_committed c1 = cn_committed c \<and> (\<exists>e. s = Inl e) \<or>
    (\<exists>c2. cn_history c2 = cn_history c \<and> cn_committed c2 = cn_committed c \<and> body c2 = (s, c1))"
proof (cases "cn_failures c")
  case Nil
  then show ?thesis using assms by (auto simp: run_statement_def)
next
  case (Cons f rest)
  have "cn_history (c\<lparr>cn_failures := rest\<rparr>) = cn_history c"
    "cn_committed (c\<lparr>cn_failures := rest\<rparr>) = cn_committed c" by simp_all
  then show ?thesis using assms Cons
    by (cases f) (force simp: run_statement_def)+
qed

lemma execute_statement:
  assumes "execute (run_statement body) w = (r, w1)"
  obtains (failed) e where "r = Inl e" "cn_committed (w_connection w1) = cn_committed (w_connection w)"
      "cn_history (w_connection w1) = cn_history (w_connection w)"
  | (run) c2 s where "cn_history c2 = open_history w" "cn_committed c2 = committed_history w"
      "body c2 = (s, w_connection w1)" "\<And>x. r = Inr x \<longleftrightarrow> s = Inr x"
proof -
  from execute_cases[OF assms] show thesis
  proof (elim disjE conjE exE)
    fix e assume "w_connection w1 = w_connection w" "r = Inl e"
    then show thesis using failed by simp
  next
    fix s c1 assume m: "run_statement body (w_connection w) = (s, c1)" "w_connection w1 = c1"
      "\<forall>x. (r = Inr x) = (s = Inr x)"
    from run_statement_cases[OF m(1)] show thesis
    proof (elim disjE conjE exE)
      fix e assume "s = Inl e" "cn_history c1 = cn_history (w_connection w)"
        "cn_committed c1 = cn_committed (w_connection w)"
      then show thesis using failed m by (cases r) auto
    next
      fix c2 assume "cn_history c2 = cn_history (w_connection w)"
        "cn_committed c2 = cn_committed (w_connection w)" "body c2 = (s, c1)"
      then show thesis using run m by (simp add: open_history_def committed_history_def)
    qed
  qed
qed

lemma reading_select: "reading (execute (select_rows q)) (\<lambda>h x. x = q h)"
  unfolding reading_def writing_def
proof (intro allI impI)
  fix w r w1 assume "execute (select_rows q) w = (r, w1)"
  then have "execute (run_statement (\<lambda>c. (Inr (q (cn_history c)), c))) w = (r, w1)"
    by (simp add: select_rows_def)
  then show "committed_history w1 = committed_history w \<and>
      (\<forall>x. r = Inr x \<longrightarrow> open_history w1 = open_history w \<and> x = q (open_history w))"
    by (cases rule: execute_statement) (auto simp: open_history_def committed_history_def)
qed

end
