(* ===== verification/Retention_Correct.thy ===== *)
theory Retention_Correct
  imports Retention Ingestion_Correct History_Pages Store_Steps
begin

text \<open>
  What a cleanup does, whatever SQLite and the clock answer. The plan is a function of the history
  read, \<open>planned\<close>; carrying it out gives a history in order again, deletes only what is older than the
  cutoff and at most the budget, and leaves nothing older when the budget was not used up.
\<close>

section \<open>Deletions\<close>

lemma writing_delete:
  "writing (execute (delete_row found remove))
     (\<lambda>h n h1. found h \<and> n = 1 \<and> h1 = remove h \<or> \<not> found h \<and> n = 0)"
  unfolding writing_def
proof (intro allI impI)
  fix w r w1 assume "execute (delete_row found remove) w = (r, w1)"
  then show "committed_history w1 = committed_history w \<and>
      (\<forall>x. r = Inr x \<longrightarrow> found (open_history w) \<and> x = 1 \<and> open_history w1 = remove (open_history w) \<or>
        \<not> found (open_history w) \<and> x = 0)"
    unfolding delete_row_def change_rows_def
  proof (cases rule: execute_statement)
    case failed
    then show ?thesis by (simp add: committed_history_def)
  next
    case (run c2 s)
    show ?thesis
    proof (cases "found (open_history w)")
      case True
      then have "s = Inr 1" "w_connection w1 = c2\<lparr>cn_history := remove (open_history w)\<rparr>"
        using run(1,3) by simp_all
      then show ?thesis using True run(2,4) by (simp add: open_history_def committed_history_def)
    next
      case False
      then have "s = Inr 0" "w_connection w1 = c2\<lparr>cn_history := open_history w\<rparr>"
        using run(1,3) by simp_all
      then show ?thesis using False run(2,4) by (simp add: committed_history_def)
    qed
  qed
qed

section \<open>The plan is a function of the history\<close>

definition health_entry :: "sample_row \<Rightarrow> RetentionCandidate" where
  "health_entry r =
     \<lparr>rc_retained_at = sm_observed r, rc_type_order = 0, rc_row_id = sm_id r, rc_kind = Kind_Health\<rparr>"

definition alert_entry :: "alert_row \<Rightarrow> RetentionCandidate" where
  "alert_entry r =
     \<lparr>rc_retained_at = the (al_recovered r), rc_type_order = 1, rc_row_id = al_id r,
      rc_kind = Kind_Alert\<rparr>"

fun plan_actions :: "History \<Rightarrow> RetentionCandidate list \<Rightarrow> DeletionAction list \<Rightarrow> DeletionAction list" where
  "plan_actions h [] actions = actions"
| "plan_actions h (c # cs) actions =
     (let remaining = RETENTION_ROW_BUDGET - length actions
      in if remaining = 0 then actions
         else if rc_kind c = Kind_Health
         then plan_actions h cs (actions @ [Delete_Health (rc_row_id c)])
         else
           let events = alert_event_rows (rc_row_id c) (remaining + 1) (h_events h);
               planned = actions @ map (\<lambda>e. Delete_Event (ae_id e) (rc_row_id c)) (take remaining events)
           in plan_actions h cs
                (if length events \<le> remaining \<and> length planned < RETENTION_ROW_BUDGET
                 then planned @ [Delete_Alert (rc_row_id c)] else planned))"

definition candidates_of :: "int \<Rightarrow> History \<Rightarrow> RetentionCandidate list" where
  "candidates_of cutoff h =
     sort_key (\<lambda>c. (rc_retained_at c, rc_type_order c, rc_row_id c))
       (map health_entry (health_candidate_rows cutoff (h_samples h)) @
        map alert_entry (archived_candidate_rows cutoff (h_alerts h)))"

definition planned :: "int \<Rightarrow> History \<Rightarrow> DeletionAction list" where
  "planned cutoff h = plan_actions h (candidates_of cutoff h) []"

lemma list_all2_map_eq: "list_all2 (\<lambda>r y. y = f r) rows ys \<Longrightarrow> ys = map f rows"
  by (induction rule: list_all2_induct) auto

lemma list_all2_map_conv: "list_all2 (\<lambda>r y. g y = f r) rows ys \<Longrightarrow> map g ys = map f rows"
  by (induction rule: list_all2_induct) auto

lemma reading_health: "reading (health_candidate sha cutoff r) (\<lambda>h c. c = health_entry r)"
  unfolding health_candidate_def health_sample_record_def
  by (rule reading_conseq[OF reading_then[OF reading_check reading_bind[OF
        reading_then[OF reading_require reading_bind[OF reading_select reading_or_malformed]]
        reading_then[OF reading_check reading_then[OF reading_require reading_return]]]]])
    (auto simp: health_entry_def sample_record_fields)

lemma reading_alert_record: "reading (alert_record r) (\<lambda>h a. decode_alert r = Some a)"
  unfolding alert_record_def Let_def
  by (rule reading_conseq[OF reading_bind[OF reading_or_malformed
        reading_bind[OF reading_select reading_then[OF reading_require reading_return]]]]) auto

lemma reading_alert: "reading (alert_candidate cutoff r) (\<lambda>h c. c = alert_entry r)"
proof -
  let ?last = "\<lambda>a. case ar_recovered_at a of
       None \<Rightarrow> prog_raise malformed_maintenance
     | Some t \<Rightarrow>
         prog_then (prog_require (ar_lifecycle a = AL_ARCHIVED \<and> t < cutoff) malformed_maintenance) (
         prog_return \<lparr>rc_retained_at = t, rc_type_order = 1, rc_row_id = ar_id a, rc_kind = Kind_Alert\<rparr>)"
  have last: "reading (?last a)
     (\<lambda>h c. c = \<lparr>rc_retained_at = the (ar_recovered_at a), rc_type_order = 1, rc_row_id = ar_id a,
        rc_kind = Kind_Alert\<rparr>)" for a
    by (cases "ar_recovered_at a")
      (auto intro!: reading_conseq[OF reading_raise]
        reading_conseq[OF reading_then[OF reading_require reading_return]])
  have "reading (alert_candidate cutoff r)
     (\<lambda>h c. True \<and> (\<exists>a. decode_alert r = Some a \<and> True \<and>
        c = \<lparr>rc_retained_at = the (ar_recovered_at a), rc_type_order = 1, rc_row_id = ar_id a,
          rc_kind = Kind_Alert\<rparr>))"
    unfolding alert_candidate_def
    by (intro reading_then reading_check reading_bind reading_alert_record last)
  then show ?thesis
    by (rule reading_conseq) (auto simp: alert_entry_def decode_alert_fields)
qed

lemma reading_event: "reading (alert_event_record r i) (\<lambda>h e. ee_id e = ae_id r)"
proof -
  let ?last = "\<lambda>e. case ee_supporting_sample e of
       None \<Rightarrow> prog_return e
     | Some j \<Rightarrow>
         prog_bind (execute (select_rows (\<lambda>h. take 2 (filter (\<lambda>k. k = j) (map sm_id (h_samples h))))))
           (\<lambda>rows. prog_then (prog_require (rows = [j]) malformed_query) (prog_return e))"
  have last: "reading (?last e) (\<lambda>h x. x = e)" for e
    by (cases "ee_supporting_sample e")
      (auto intro!: reading_return reading_conseq[OF reading_bind[OF reading_select
            reading_then[OF reading_require reading_return]]])
  have "reading (alert_event_record r i) (\<lambda>h x. \<exists>e. decode_event r i = Some e \<and> x = e)"
    unfolding alert_event_record_def
    by (intro reading_bind reading_or_malformed last)
  then show ?thesis
    by (rule reading_conseq) (auto simp: decode_event_def Let_def split: option.splits if_splits)
qed

lemma reading_plan_candidates:
  "reading (plan_candidates cs actions) (\<lambda>h x. x = plan_actions h cs actions)"
proof (induction cs arbitrary: actions)
  case Nil
  then show ?case by (simp add: reading_return)
next
  case (Cons c cs)
  let ?remaining = "RETENTION_ROW_BUDGET - length actions"
  let ?checked = "\<lambda>r. prog_then check_maintenance_deadline (
              prog_bind (alert_event_record r (rc_row_id c)) (\<lambda>e.
              prog_then check_maintenance_deadline (prog_return e)))"
  let ?next = "\<lambda>es planned. if length es \<le> ?remaining \<and> length planned < RETENTION_ROW_BUDGET
       then planned @ [Delete_Alert (rc_row_id c)] else planned"
  show ?case
  proof (cases "?remaining = 0")
    case True
    then show ?thesis by (auto intro!: reading_conseq[OF reading_then[OF reading_check reading_return]])
  next
    case more: False
    show ?thesis
    proof (cases "rc_kind c = Kind_Health")
      case True
      then show ?thesis using more
        by (auto simp: Let_def intro!: reading_conseq[OF reading_then[OF reading_check Cons.IH]])
    next
      case alert: False
      have "reading (?checked r) (\<lambda>h e. ee_id e = ae_id r)" for r
        by (rule reading_conseq[OF reading_then[OF reading_check reading_bind[OF reading_event
              reading_then[OF reading_check reading_return]]]]) auto
      from reading_map[OF this]
      have events: "reading (prog_map ?checked rows) (\<lambda>h es. map ee_id es = map ae_id rows)" for rows
        by (rule reading_conseq) (rule list_all2_map_conv)
      have each: "reading (prog_each (\<lambda>_. check_maintenance_deadline) xs) (\<lambda>h y. True)" for xs
        by (rule reading_each) (rule reading_check)
      have "reading (plan_candidates (c # cs) actions)
        (\<lambda>h x. True \<and> (True \<and> (\<exists>rows. rows = alert_event_rows (rc_row_id c) (?remaining + 1) (h_events h) \<and>
           (True \<and> (\<exists>es :: AlertEventRecord list. map ee_id es = map ae_id rows \<and>
             (True \<and> x = plan_actions h cs (?next es
               (actions @ map (\<lambda>e. Delete_Event (ee_id e) (rc_row_id c)) (take ?remaining es)))))))))"
        using more alert unfolding plan_candidates.simps Let_def
        by (simp only: if_False) (intro reading_then reading_check reading_bind reading_select events each Cons.IH)
      then show ?thesis
      proof (rule reading_conseq, elim exE conjE)
        fix h x rows and es :: "AlertEventRecord list"
        assume rows: "rows = alert_event_rows (rc_row_id c) (?remaining + 1) (h_events h)"
          and ids: "map ee_id es = map ae_id rows"
          and x: "x = plan_actions h cs (?next es
               (actions @ map (\<lambda>e. Delete_Event (ee_id e) (rc_row_id c)) (take ?remaining es)))"
        have "map (\<lambda>e. Delete_Event (ee_id e) (rc_row_id c)) (take ?remaining es) =
            map (\<lambda>i. Delete_Event i (rc_row_id c)) (take ?remaining (map ee_id es))"
          by (simp add: take_map)
        also have "\<dots> = map (\<lambda>e. Delete_Event (ae_id e) (rc_row_id c)) (take ?remaining rows)"
          unfolding ids by (simp add: take_map)
        finally have "map (\<lambda>e. Delete_Event (ee_id e) (rc_row_id c)) (take ?remaining es) =
            map (\<lambda>e. Delete_Event (ae_id e) (rc_row_id c)) (take ?remaining rows)" .
        moreover have "length es = length rows" using ids by (metis length_map)
        ultimately show "x = plan_actions h (c # cs) actions"
          using more alert unfolding x rows plan_actions.simps Let_def by (simp only: if_False)
      qed
    qed
  qed
qed

lemma reading_plan:
  "reading (retention_plan sha cutoff) (\<lambda>h x. x = planned cutoff h \<and> length x \<le> RETENTION_ROW_BUDGET)"
proof -
  have "reading (prog_map (health_candidate sha cutoff) rows) (\<lambda>h xs. xs = map health_entry rows)" for rows
    by (rule reading_conseq[OF reading_map[OF reading_health]]) (rule list_all2_map_eq)
  moreover have "reading (prog_map (alert_candidate cutoff) rows) (\<lambda>h xs. xs = map alert_entry rows)" for rows
    by (rule reading_conseq[OF reading_map[OF reading_alert]]) (rule list_all2_map_eq)
  ultimately have "reading (retention_plan sha cutoff)
    (\<lambda>h x. \<exists>hs. hs = health_candidate_rows cutoff (h_samples h) \<and> (True \<and>
       (\<exists>as. as = archived_candidate_rows cutoff (h_alerts h) \<and> (True \<and>
        (\<exists>hc. hc = map health_entry hs \<and> (\<exists>ac. ac = map alert_entry as \<and> (True \<and> (True \<and>
          (\<exists>p. p = plan_actions h (sort_key (\<lambda>c. (rc_retained_at c, rc_type_order c, rc_row_id c)) (hc @ ac)) [] \<and>
             (length p \<le> RETENTION_ROW_BUDGET \<and> x = p))))))))))"
    unfolding retention_plan_def Let_def
    by (intro reading_then reading_check reading_bind reading_select reading_plan_candidates
        reading_require reading_return)
  then show ?thesis
    by (rule reading_conseq) (auto simp: planned_def candidates_of_def)
qed

section \<open>What is deleted\<close>

text \<open>A history without some samples, events and alerts.\<close>

definition unless_in :: "int set \<Rightarrow> int option \<Rightarrow> int option" where
  "unless_in S x = (case x of None \<Rightarrow> None | Some i \<Rightarrow> if i \<in> S then None else Some i)"

definition forgotten :: "int set \<Rightarrow> int set \<Rightarrow> int set \<Rightarrow> History \<Rightarrow> History" where
  "forgotten S E A h =
     h\<lparr>h_samples := filter (\<lambda>r. sm_id r \<notin> S) (h_samples h),
       h_components := filter (\<lambda>r. cs_sample_id r \<notin> S) (h_components h),
       h_alerts := map (\<lambda>r. r\<lparr>al_first_sample := unless_in S (al_first_sample r),
                             al_latest_sample := unless_in S (al_latest_sample r)\<rparr>)
                     (filter (\<lambda>r. al_id r \<notin> A) (h_alerts h)),
       h_evaluation := map (\<lambda>r. r\<lparr>ev_sample := unless_in S (ev_sample r)\<rparr>) (h_evaluation h),
       h_events := map (\<lambda>r. r\<lparr>ae_sample := unless_in S (ae_sample r)\<rparr>)
                     (filter (\<lambda>r. ae_id r \<notin> E) (h_events h))\<rparr>"

lemma unless_in_simps [simp]:
  "unless_in {} x = x" "unless_in S (unless_in T x) = unless_in (S \<union> T) x"
  by (auto simp: unless_in_def split: option.split)

lemma unless_in_one: "unless_sample i x = unless_in {i} x"
  by (auto simp: unless_in_def unless_sample_def split: option.split)

lemma forgotten_nothing: "forgotten {} {} {} h = h"
  by (simp add: forgotten_def)

lemma forgotten_twice:
  "forgotten S E A (forgotten S' E' A' h) = forgotten (S \<union> S') (E \<union> E') (A \<union> A') h"
  by (simp add: forgotten_def filter_map o_def conj_commute)

lemma forgotten_rows:
  "h_samples (forgotten S E A h) = filter (\<lambda>r. sm_id r \<notin> S) (h_samples h)"
  "map al_id (h_alerts (forgotten S E A h)) = filter (\<lambda>i. i \<notin> A) (map al_id (h_alerts h))"
  "map ae_id (h_events (forgotten S E A h)) = filter (\<lambda>i. i \<notin> E) (map ae_id (h_events h))"
  by (simp_all add: forgotten_def filter_map o_def)

text \<open>The effect of an action on a history it applies to.\<close>

fun action_applies :: "int \<Rightarrow> DeletionAction \<Rightarrow> History \<Rightarrow> bool" where
  "action_applies cutoff (Delete_Health i) h =
     list_ex (\<lambda>r. sm_id r = i \<and> sm_observed r < cutoff) (h_samples h)"
| "action_applies cutoff (Delete_Event i alert) h =
     list_ex (\<lambda>r. ae_id r = i \<and> ae_alert_id r = alert) (h_events h)"
| "action_applies cutoff (Delete_Alert i) h =
     (find (\<lambda>r. ae_alert_id r = i) (h_events h) = None \<and>
      list_ex (\<lambda>r. al_id r = i \<and> recovered_before cutoff r) (h_alerts h))"

definition health_ids :: "DeletionAction list \<Rightarrow> int list" where
  "health_ids acts = concat (map (\<lambda>a. case a of Delete_Health i \<Rightarrow> [i] | _ \<Rightarrow> []) acts)"

definition event_ids :: "DeletionAction list \<Rightarrow> int list" where
  "event_ids acts = concat (map (\<lambda>a. case a of Delete_Event i _ \<Rightarrow> [i] | _ \<Rightarrow> []) acts)"

definition alert_ids :: "DeletionAction list \<Rightarrow> int list" where
  "alert_ids acts = concat (map (\<lambda>a. case a of Delete_Alert i \<Rightarrow> [i] | _ \<Rightarrow> []) acts)"

lemmas action_ids = health_ids_def event_ids_def alert_ids_def

lemma action_ids_Cons [simp]:
  "health_ids [] = []" "event_ids [] = []" "alert_ids [] = []"
  "health_ids (Delete_Health i # acts) = i # health_ids acts"
  "event_ids (Delete_Health i # acts) = event_ids acts"
  "alert_ids (Delete_Health i # acts) = alert_ids acts"
  "health_ids (Delete_Event i a # acts) = health_ids acts"
  "event_ids (Delete_Event i a # acts) = i # event_ids acts"
  "alert_ids (Delete_Event i a # acts) = alert_ids acts"
  "health_ids (Delete_Alert i # acts) = health_ids acts"
  "event_ids (Delete_Alert i # acts) = event_ids acts"
  "alert_ids (Delete_Alert i # acts) = i # alert_ids acts"
  by (simp_all add: action_ids)

definition after_actions :: "DeletionAction list \<Rightarrow> History \<Rightarrow> History" where
  "after_actions acts = forgotten (set (health_ids acts)) (set (event_ids acts)) (set (alert_ids acts))"

primrec all_apply :: "int \<Rightarrow> DeletionAction list \<Rightarrow> History \<Rightarrow> bool" where
  "all_apply cutoff [] h = True"
| "all_apply cutoff (a # acts) h = (action_applies cutoff a h \<and> all_apply cutoff acts (after_actions [a] h))"

lemma after_actions_Cons: "after_actions (a # acts) h = after_actions acts (after_actions [a] h)"
  by (simp add: after_actions_def forgotten_twice action_ids Un_commute)

lemma after_actions_Nil: "after_actions [] h = h"
  by (simp add: after_actions_def action_ids forgotten_nothing)

lemma writing_carry_out:
  "writing (carry_out cutoff a) (\<lambda>h n h1. n = 1 \<longrightarrow> action_applies cutoff a h \<and> h1 = after_actions [a] h)"
proof (cases a)
  case (Delete_Health i)
  then show ?thesis
    by (auto simp: carry_out_def delete_health_sample_def after_actions_def action_ids forgotten_def
        without_sample_def unless_in_one intro!: writing_conseq[OF writing_delete])
next
  case (Delete_Event i alert)
  then show ?thesis
    by (auto simp: carry_out_def delete_alert_event_def after_actions_def action_ids forgotten_def
        without_event_def intro!: writing_conseq[OF writing_delete])
next
  case (Delete_Alert i)
  let ?q = "\<lambda>h. find (\<lambda>r. ae_alert_id r = i) (h_events h)"
  have "writing (carry_out cutoff a)
    (\<lambda>h n h1. \<exists>row h'. (h' = h \<and> row = ?q h) \<and> (\<exists>(x::unit) h''. (h'' = h' \<and> row = None) \<and>
      (list_ex (\<lambda>r. al_id r = i \<and> recovered_before cutoff r) (h_alerts h'') \<and> n = 1 \<and> h1 = without_alert i h'' \<or>
       \<not> list_ex (\<lambda>r. al_id r = i \<and> recovered_before cutoff r) (h_alerts h'') \<and> n = 0)))"
    unfolding carry_out_def Delete_Alert DeletionAction.case prog_then_def delete_archived_alert_def
    by (intro writing_bind writing_delete reading_select[unfolded reading_def]
        reading_require[unfolded reading_def])
  then show ?thesis
    by (rule writing_conseq)
      (auto simp: Delete_Alert after_actions_def action_ids forgotten_def without_alert_def find_None_iff
        intro!: filter_True[symmetric])
qed

lemma writing_plan:
  "writing (execute_retention_plan cutoff acts) (\<lambda>h x h1. all_apply cutoff acts h \<and> h1 = after_actions acts h)"
proof (induction acts)
  case Nil
  then show ?case
    by (simp add: execute_retention_plan_def after_actions_Nil)
      (rule writing_conseq[OF reading_return[unfolded reading_def]], simp)
next
  case (Cons a acts)
  have "writing (execute_retention_plan cutoff (a # acts))
    (\<lambda>h (x::unit) h3. \<exists>(x::unit) h2. (\<exists>(x::unit) h1. (h1 = h \<and> True) \<and> (\<exists>(n::nat) h1'. (n = 1 \<longrightarrow> action_applies cutoff a h1 \<and> h1' = after_actions [a] h1) \<and>
        (h2 = h1' \<and> n = 1))) \<and> (all_apply cutoff acts h2 \<and> h3 = after_actions acts h2))"
    using Cons.IH unfolding execute_retention_plan_def prog_each.simps prog_then_def
    by (intro writing_bind writing_carry_out reading_check[unfolded reading_def]
        reading_require[unfolded reading_def])
  then show ?case
    by (rule writing_conseq) (auto simp: after_actions_Cons[of a acts])
qed

section \<open>What is planned\<close>

fun serves :: "History \<Rightarrow> RetentionCandidate \<Rightarrow> DeletionAction \<Rightarrow> bool" where
  "serves h c (Delete_Health i) = (rc_kind c = Kind_Health \<and> i = rc_row_id c)"
| "serves h c (Delete_Event i alert) =
     (rc_kind c = Kind_Alert \<and> alert = rc_row_id c \<and>
      (\<exists>r \<in> set (h_events h). ae_id r = i \<and> ae_alert_id r = alert))"
| "serves h c (Delete_Alert i) = (rc_kind c = Kind_Alert \<and> i = rc_row_id c)"

lemma alert_event_rows_subset:
  "r \<in> set (alert_event_rows a n rows) \<Longrightarrow> r \<in> set rows \<and> ae_alert_id r = a"
  by (auto simp: alert_event_rows_def dest: in_set_takeD)

lemma alert_event_rows_all:
  assumes "length (alert_event_rows a (Suc n) rows) \<le> n" "r \<in> set rows" "ae_alert_id r = a"
  shows "r \<in> set (alert_event_rows a (Suc n) rows)"
proof -
  have "length (filter (\<lambda>r. ae_alert_id r = a) rows) \<le> n"
    using assms(1) by (simp add: alert_event_rows_def)
  then show ?thesis using assms(2,3) by (simp add: alert_event_rows_def)
qed

lemma not_health: "rc_kind c \<noteq> Kind_Health \<longleftrightarrow> rc_kind c = Kind_Alert"
  by (cases "rc_kind c") simp_all

text \<open>What the plan has after an alert's turn.\<close>

definition with_alert :: "History \<Rightarrow> RetentionCandidate \<Rightarrow> DeletionAction list \<Rightarrow> DeletionAction list" where
  "with_alert h c actions =
     (let remaining = RETENTION_ROW_BUDGET - length actions;
          rows = alert_event_rows (rc_row_id c) (Suc remaining) (h_events h);
          planned = actions @ map (\<lambda>e. Delete_Event (ae_id e) (rc_row_id c)) (take remaining rows)
      in if length rows \<le> remaining \<and> length planned < RETENTION_ROW_BUDGET
         then planned @ [Delete_Alert (rc_row_id c)] else planned)"

lemma plan_step:
  "plan_actions h (c # cs) actions =
     (if RETENTION_ROW_BUDGET \<le> length actions then actions
      else plan_actions h cs
        (if rc_kind c = Kind_Health then actions @ [Delete_Health (rc_row_id c)]
         else with_alert h c actions))"
  by (simp add: Let_def with_alert_def)

declare plan_actions.simps(2) [simp del]

lemma with_alert_serves:
  "a \<in> set (with_alert h c actions) \<Longrightarrow> rc_kind c = Kind_Alert \<Longrightarrow> a \<in> set actions \<or> serves h c a"
  by (auto simp: with_alert_def Let_def split: if_splits dest!: in_set_takeD alert_event_rows_subset)

lemma with_alert_extends: "\<exists>more. with_alert h c actions = actions @ more"
  by (simp add: with_alert_def Let_def)

lemma with_alert_events:
  assumes "Delete_Alert i \<in> set (with_alert h c actions)" "Delete_Alert i \<notin> set actions"
    and "e \<in> set (h_events h)" "ae_alert_id e = i"
  shows "Delete_Event (ae_id e) i \<in> set (with_alert h c actions)"
proof -
  let ?remaining = "RETENTION_ROW_BUDGET - length actions"
  let ?rows = "alert_event_rows (rc_row_id c) (Suc ?remaining) (h_events h)"
  have fits: "length ?rows \<le> ?remaining" and i: "i = rc_row_id c"
    using assms(1,2) by (auto simp: with_alert_def Let_def split: if_splits)
  have "e \<in> set ?rows" using alert_event_rows_all[OF fits assms(3)] assms(4) i by simp
  then show ?thesis using fits i by (auto simp: with_alert_def Let_def)
qed

lemma with_alert_complete:
  assumes "length (with_alert h c actions) < RETENTION_ROW_BUDGET"
  shows "length actions < length (with_alert h c actions) \<and>
    Delete_Alert (rc_row_id c) \<in> set (with_alert h c actions)"
  using assms by (auto simp: with_alert_def Let_def split: if_splits)

lemma plan_sound:
  "a \<in> set (plan_actions h cs actions) \<Longrightarrow> a \<in> set actions \<or> (\<exists>c \<in> set cs. serves h c a)"
proof (induction cs arbitrary: actions)
  case (Cons c cs)
  show ?case
  proof (cases "rc_kind c")
    case Kind_Health
    then show ?thesis using Cons.prems Cons.IH[of "actions @ [Delete_Health (rc_row_id c)]"]
      by (auto simp: plan_step split: if_splits)
  next
    case Kind_Alert
    then show ?thesis using Cons.prems Cons.IH[of "with_alert h c actions"] with_alert_serves[of a h c actions]
      by (auto simp: plan_step split: if_splits)
  qed
qed simp

lemma plan_extends: "\<exists>more. plan_actions h cs actions = actions @ more"
proof (induction cs arbitrary: actions)
  case (Cons c cs)
  obtain more where more: "with_alert h c actions = actions @ more" using with_alert_extends by blast
  obtain rest1 where "plan_actions h cs (actions @ [Delete_Health (rc_row_id c)]) =
      (actions @ [Delete_Health (rc_row_id c)]) @ rest1" using Cons.IH by blast
  moreover obtain rest2 where "plan_actions h cs (actions @ more) = (actions @ more) @ rest2"
    using Cons.IH by blast
  ultimately show ?case using more by (simp add: plan_step)
qed simp

lemma plan_keeps: "set actions \<subseteq> set (plan_actions h cs actions)"
  "length actions \<le> length (plan_actions h cs actions)"
  using plan_extends[of h cs actions] by auto

text \<open>An alert is planned only with all its events.\<close>

lemma plan_alert_events:
  "Delete_Alert i \<in> set (plan_actions h cs actions) \<Longrightarrow> Delete_Alert i \<notin> set actions \<Longrightarrow>
   e \<in> set (h_events h) \<Longrightarrow> ae_alert_id e = i \<Longrightarrow>
   Delete_Event (ae_id e) i \<in> set (plan_actions h cs actions)"
proof (induction cs arbitrary: actions)
  case (Cons c cs)
  let ?next = "if rc_kind c = Kind_Health then actions @ [Delete_Health (rc_row_id c)] else with_alert h c actions"
  have plan: "plan_actions h (c # cs) actions = plan_actions h cs ?next"
    using Cons.prems(1,2) by (auto simp: plan_step split: if_splits)
  show ?case
  proof (cases "Delete_Alert i \<in> set ?next")
    case True
    then have "Delete_Event (ae_id e) i \<in> set ?next"
      using Cons.prems(2-4) with_alert_events[of i h c actions e] by (auto split: if_splits)
    then show ?thesis unfolding plan using plan_keeps(1) by blast
  next
    case False
    then show ?thesis using Cons.prems(1,3,4) Cons.IH unfolding plan by blast
  qed
qed simp

lemma plan_complete:
  "length (plan_actions h cs actions) < RETENTION_ROW_BUDGET \<Longrightarrow>
   length cs + length actions \<le> length (plan_actions h cs actions) \<and>
   (\<forall>c \<in> set cs. (if rc_kind c = Kind_Health then Delete_Health (rc_row_id c) else Delete_Alert (rc_row_id c))
      \<in> set (plan_actions h cs actions))"
proof (induction cs arbitrary: actions)
  case (Cons c cs)
  let ?next = "if rc_kind c = Kind_Health then actions @ [Delete_Health (rc_row_id c)] else with_alert h c actions"
  have plan: "plan_actions h (c # cs) actions = plan_actions h cs ?next"
    using Cons.prems by (simp add: plan_step split: if_splits)
  have short: "length (plan_actions h cs ?next) < RETENTION_ROW_BUDGET" using Cons.prems plan by simp
  then have "length ?next < RETENTION_ROW_BUDGET" using plan_keeps(2)[of ?next h cs] by linarith
  then have turn: "length actions < length ?next" "(if rc_kind c = Kind_Health then Delete_Health (rc_row_id c)
      else Delete_Alert (rc_row_id c)) \<in> set ?next"
    using with_alert_complete[of h c actions] by (auto split: if_splits)
  show ?case using turn Cons.IH[OF short] plan_keeps(1)[of ?next h cs] unfolding plan by auto
qed simp

section \<open>The ids that go\<close>

definition old_samples :: "int \<Rightarrow> History \<Rightarrow> int set" where
  "old_samples cutoff h = sm_id ` {r \<in> set (h_samples h). sm_observed r < cutoff}"

definition old_alerts :: "int \<Rightarrow> History \<Rightarrow> int set" where
  "old_alerts cutoff h = al_id ` {r \<in> set (h_alerts h). recovered_before cutoff r}"

definition events_of :: "int set \<Rightarrow> History \<Rightarrow> int set" where
  "events_of A h = ae_id ` {e \<in> set (h_events h). ae_alert_id e \<in> A}"

lemma in_action_ids:
  "i \<in> set (health_ids acts) \<longleftrightarrow> Delete_Health i \<in> set acts"
  "i \<in> set (event_ids acts) \<longleftrightarrow> (\<exists>a. Delete_Event i a \<in> set acts)"
  "i \<in> set (alert_ids acts) \<longleftrightarrow> Delete_Alert i \<in> set acts"
  by (induction acts) (auto simp: action_ids split: DeletionAction.split)

lemma deletion_counts_ids:
  "deletion_counts acts = (length (health_ids acts), length (event_ids acts), length (alert_ids acts))"
  by (induction acts) (auto simp: deletion_counts_def action_ids split: DeletionAction.split)

lemma action_ids_length:
  "length (health_ids acts) + length (event_ids acts) + length (alert_ids acts) = length acts"
  by (induction acts) (auto simp: action_ids split: DeletionAction.split)

text \<open>Actions that all apply are distinct: what one of them deletes is no longer there.\<close>

lemma applied_ids:
  "all_apply cutoff acts h \<Longrightarrow>
     distinct (health_ids acts) \<and> set (health_ids acts) \<subseteq> sm_id ` set (h_samples h) \<and>
     distinct (event_ids acts) \<and> set (event_ids acts) \<subseteq> ae_id ` set (h_events h) \<and>
     distinct (alert_ids acts) \<and> set (alert_ids acts) \<subseteq> al_id ` set (h_alerts h)"
proof (induction acts arbitrary: h)
  case (Cons a acts)
  let ?h = "after_actions [a] h"
  have IH: "distinct (health_ids acts) \<and> set (health_ids acts) \<subseteq> set (map sm_id (h_samples ?h)) \<and>
     distinct (event_ids acts) \<and> set (event_ids acts) \<subseteq> set (map ae_id (h_events ?h)) \<and>
     distinct (alert_ids acts) \<and> set (alert_ids acts) \<subseteq> set (map al_id (h_alerts ?h))"
    using Cons.IH[of ?h] Cons.prems by simp
  show ?case
  proof (cases a)
    case (Delete_Health i)
    then show ?thesis using IH Cons.prems
      by (auto simp: after_actions_def forgotten_rows list_ex_iff)
  next
    case (Delete_Event i alert)
    then show ?thesis using IH Cons.prems
      by (auto simp: after_actions_def forgotten_rows list_ex_iff)
  next
    case (Delete_Alert i)
    then show ?thesis using IH Cons.prems
      by (auto simp: after_actions_def forgotten_rows list_ex_iff)
  qed
qed simp

lemma applied_counts:
  assumes "all_apply cutoff acts h"
  shows "deletion_counts acts =
    (card (set (health_ids acts)), card (set (event_ids acts)), card (set (alert_ids acts)))"
  using applied_ids[OF assms] by (simp add: deletion_counts_ids distinct_card)

lemma candidate_cases:
  assumes "c \<in> set (candidates_of cutoff h)"
  obtains (health) r where "c = health_entry r" "r \<in> set (h_samples h)" "sm_observed r < cutoff"
  | (alert) r where "c = alert_entry r" "r \<in> set (h_alerts h)" "recovered_before cutoff r"
  using assms
  by (auto simp: candidates_of_def health_candidate_rows_def archived_candidate_rows_def dest!: in_set_takeD)

lemma candidates_all:
  assumes "length (candidates_of cutoff h) < RETENTION_ROW_BUDGET"
  shows "r \<in> set (h_samples h) \<Longrightarrow> sm_observed r < cutoff \<Longrightarrow> health_entry r \<in> set (candidates_of cutoff h)"
    "s \<in> set (h_alerts h) \<Longrightarrow> recovered_before cutoff s \<Longrightarrow> alert_entry s \<in> set (candidates_of cutoff h)"
  using assms by (auto simp: candidates_of_def health_candidate_rows_def archived_candidate_rows_def)

lemma planned_ids:
  "set (health_ids (planned cutoff h)) \<subseteq> old_samples cutoff h"
  "set (alert_ids (planned cutoff h)) \<subseteq> old_alerts cutoff h"
  "events_of (set (alert_ids (planned cutoff h))) h \<subseteq> set (event_ids (planned cutoff h))"
  "set (event_ids (planned cutoff h)) \<subseteq> events_of (old_alerts cutoff h) h"
proof -
  have "\<exists>c \<in> set (candidates_of cutoff h). serves h c a" if "a \<in> set (planned cutoff h)" for a
    using plan_sound[of a h "candidates_of cutoff h" "[]"] that by (simp add: planned_def)
  then have *: "(\<exists>r \<in> set (h_samples h). sm_observed r < cutoff \<and> serves h (health_entry r) a) \<or>
      (\<exists>r \<in> set (h_alerts h). recovered_before cutoff r \<and> serves h (alert_entry r) a)"
    if "a \<in> set (planned cutoff h)" for a
    using that by (metis candidate_cases)
  show "set (health_ids (planned cutoff h)) \<subseteq> old_samples cutoff h"
    using *[of "Delete_Health _"] by (fastforce simp: in_action_ids old_samples_def health_entry_def alert_entry_def)
  show "set (alert_ids (planned cutoff h)) \<subseteq> old_alerts cutoff h"
    using *[of "Delete_Alert _"] by (fastforce simp: in_action_ids old_alerts_def health_entry_def alert_entry_def)
  show "set (event_ids (planned cutoff h)) \<subseteq> events_of (old_alerts cutoff h) h"
    using *[of "Delete_Event _ _"]
    by (fastforce simp: in_action_ids events_of_def old_alerts_def health_entry_def alert_entry_def)
  show "events_of (set (alert_ids (planned cutoff h))) h \<subseteq> set (event_ids (planned cutoff h))"
    using plan_alert_events[of _ h "candidates_of cutoff h" "[]"]
    by (fastforce simp: in_action_ids events_of_def planned_def)
qed

lemma planned_all:
  assumes "length (planned cutoff h) < RETENTION_ROW_BUDGET"
  shows "old_samples cutoff h \<subseteq> set (health_ids (planned cutoff h))"
    "old_alerts cutoff h \<subseteq> set (alert_ids (planned cutoff h))"
proof -
  note all = plan_complete[of h "candidates_of cutoff h" "[]", folded planned_def, OF assms]
  have few: "length (candidates_of cutoff h) < RETENTION_ROW_BUDGET" using all assms by simp
  show "old_samples cutoff h \<subseteq> set (health_ids (planned cutoff h))"
    using all candidates_all(1)[OF few]
    by (force simp: old_samples_def in_action_ids health_entry_def)
  show "old_alerts cutoff h \<subseteq> set (alert_ids (planned cutoff h))"
    using all candidates_all(2)[OF few]
    by (force simp: old_alerts_def in_action_ids alert_entry_def)
qed

section \<open>The history afterwards\<close>

lemma null_or_unless: "null_or P x \<Longrightarrow> null_or P (unless_in S x)"
  by (auto simp: null_or_def unless_in_def split: option.splits)

lemma sample_reference_forgotten:
  "sample_reference h x \<Longrightarrow> sample_reference (forgotten S E A h) (unless_in S x)"
  by (auto simp: sample_reference_def null_or_def unless_in_def forgotten_rows split: option.splits)

lemma sorted_wrt_filter_map:
  "sorted_wrt P (map f xs) \<Longrightarrow> sorted_wrt P (map f (filter Q xs))"
  by (induction xs) auto

lemma distinct_filter_map: "distinct (map f xs) \<Longrightarrow> distinct (map f (filter Q xs))"
  by (induction xs) auto

lemma forgotten_samples_ok:
  assumes "samples_ok sha q h"
  shows "samples_ok sha q (forgotten S E A h)"
proof -
  let ?h = "forgotten S E A h"
  have comps: "sample_components ?h i = sample_components h i" if "i \<notin> S" for i
    using that by (auto simp: sample_components_def forgotten_def intro!: filter_cong)
  have "stored_ok sha ?h r" if "stored_ok sha h r" "sm_id r \<notin> S" for r
    using that comps by (simp add: stored_ok_def)
  moreover have "cs_sample_id c \<in> set (map sm_id (h_samples ?h))"
    if "c \<in> set (h_components ?h)" for c
    using that assms by (force simp: forgotten_def samples_ok_def)
  ultimately show ?thesis using assms
    by (auto simp: samples_ok_def forgotten_rows intro: sorted_wrt_filter_map distinct_filter_map)
qed

lemma forgotten_alerts_ok:
  assumes "alerts_ok h"
  shows "alerts_ok (forgotten S E A h)"
proof -
  let ?h = "forgotten S E A h"
  have rows: "\<exists>r' \<in> set (h_alerts h). al_id r = al_id r' \<and> al_scope r = al_scope r' \<and>
      al_kind r = al_kind r' \<and> al_lifecycle r = al_lifecycle r' \<and> alert_row_ok ?h r"
    if in_h: "r \<in> set (h_alerts ?h)" for r
  proof -
    obtain r' where r': "r' \<in> set (h_alerts h)" "r = r'\<lparr>al_first_sample := unless_in S (al_first_sample r'),
        al_latest_sample := unless_in S (al_latest_sample r')\<rparr>"
      using in_h by (auto simp: forgotten_def)
    then have "alert_row_ok h r'" using assms by (simp add: alerts_ok_def)
    then have "alert_row_ok ?h r" using r'(2)
      by (simp add: alert_row_ok_def alert_check_def sample_reference_forgotten)
    then show ?thesis using r' by force
  qed
  have ids: "1 \<le> al_id r" if "r \<in> set (h_alerts ?h)" for r
    using rows[OF that] assms by (force simp: alerts_ok_def)
  have "sorted_wrt (<) (map al_id (h_alerts ?h))"
    using assms by (simp add: alerts_ok_def forgotten_rows sorted_wrt_filter)
  moreover have "older_archived (h_alerts ?h)"
    unfolding older_archived_def
  proof (intro ballI impI)
    fix r s assume "r \<in> set (h_alerts ?h)" "s \<in> set (h_alerts ?h)"
      and same: "al_scope r = al_scope s" "al_kind r = al_kind s" "al_id r < al_id s"
    then obtain r' s' where "r' \<in> set (h_alerts h)" "s' \<in> set (h_alerts h)"
      "al_id r = al_id r'" "al_scope r = al_scope r'" "al_kind r = al_kind r'"
      "al_lifecycle r = al_lifecycle r'"
      "al_id s = al_id s'" "al_scope s = al_scope s'" "al_kind s = al_kind s'"
      using rows by metis
    then show "al_lifecycle r = ''archived''"
      using assms same by (auto simp: alerts_ok_def older_archived_def)
  qed
  ultimately show ?thesis using rows ids unfolding alerts_ok_def by blast
qed

lemma forgotten_ok:
  assumes "history_ok sha h"
  shows "history_ok sha (forgotten S E A h)"
proof -
  let ?h = "forgotten S E A h"
  obtain ck b where h: "history_with sha ck b h" using assms by (auto simp: history_ok_def)
  have "ledger_with ck ?h" using h by (simp add: history_with_def ledger_with_def forgotten_def)
  moreover have "samples_ok sha (ck_sequence ck) ?h" "alerts_ok ?h"
    using h forgotten_samples_ok forgotten_alerts_ok by (auto simp: history_with_def)
  moreover have "scope_rows_ok ?h (unless_in S b)"
  proof -
    have rows: "scope_rows_ok h b" using h by (simp add: history_with_def)
    have evaluation: "h_evaluation ?h = map (\<lambda>r. r\<lparr>ev_sample := unless_in S (ev_sample r)\<rparr>) (h_evaluation h)"
      by (simp add: forgotten_def)
    have "evaluation_check (r\<lparr>ev_sample := unless_in S (ev_sample r)\<rparr>)" if "evaluation_check r" for r
      using that by (simp add: evaluation_check_def null_or_unless)
    moreover have "b \<noteq> None" if "unless_in S b \<noteq> None" using that by (auto simp: unless_in_def split: option.splits)
    moreover have "sample_reference ?h (unless_in S b)"
      using rows by (simp add: scope_rows_ok_def sample_reference_forgotten)
    ultimately show ?thesis using rows unfolding scope_rows_ok_def evaluation
      by (force simp: o_def)
  qed
  moreover have "ck_sequence ck = None \<longrightarrow> unless_in S b = None"
    using h by (simp add: history_with_def unless_in_def)
  ultimately have "history_with sha ck (unless_in S b) ?h" by (simp add: history_with_def)
  then show ?thesis unfolding history_ok_def by blast
qed

text \<open>
  What a cleanup that says \<open>x\<close> may do to a history: of the samples and archived alerts older than the
  cutoff and of the events of such alerts, it deletes as many as it says and at most the budget; an
  alert goes only with all its events; and if the budget was not used up, nothing of this is left.
\<close>

definition tidied :: "int \<Rightarrow> RetentionCleanupResult \<Rightarrow> History \<Rightarrow> History \<Rightarrow> bool" where
  "tidied cutoff x h h1 \<longleftrightarrow>
     (\<exists>S E A. h1 = forgotten S E A h \<and>
        S \<subseteq> old_samples cutoff h \<and> A \<subseteq> old_alerts cutoff h \<and>
        events_of A h \<subseteq> E \<and> E \<subseteq> events_of (old_alerts cutoff h) h \<and>
        card S = rr_samples x \<and> card E = rr_events x \<and> card A = rr_alerts x \<and>
        logical_rows_deleted x \<le> RETENTION_ROW_BUDGET \<and>
        (logical_rows_deleted x = RETENTION_ROW_BUDGET \<or>
           S = old_samples cutoff h \<and> A = old_alerts cutoff h))"

lemma planned_tidied:
  assumes "all_apply cutoff (planned cutoff h) h" "length (planned cutoff h) \<le> RETENTION_ROW_BUDGET"
  shows "tidied cutoff (cleanup_result (deletion_counts (planned cutoff h))) h
    (after_actions (planned cutoff h) h)"
proof -
  let ?p = "planned cutoff h"
  have rows: "logical_rows_deleted (cleanup_result (deletion_counts ?p)) = length ?p"
    using action_ids_length[of ?p] by (simp add: logical_rows_deleted_def cleanup_result_def deletion_counts_ids)
  show ?thesis
    unfolding tidied_def
  proof (intro exI conjI)
    show "after_actions ?p h =
        forgotten (set (health_ids ?p)) (set (event_ids ?p)) (set (alert_ids ?p)) h"
      by (simp add: after_actions_def)
    show "logical_rows_deleted (cleanup_result (deletion_counts ?p)) = RETENTION_ROW_BUDGET \<or>
        set (health_ids ?p) = old_samples cutoff h \<and> set (alert_ids ?p) = old_alerts cutoff h"
      using assms(2) planned_all[of cutoff h] planned_ids[where cutoff = cutoff and h = h] unfolding rows by fastforce
  qed (use assms rows planned_ids[where cutoff = cutoff and h = h] applied_counts[OF assms(1)] in
      \<open>simp_all add: cleanup_result_def\<close>)
qed

section \<open>The cleanup\<close>

lemma writing_True: "writing m R \<Longrightarrow> writing m (\<lambda>h x h1. True)"
  by (erule writing_conseq) simp

lemma cleanup_failed:
  assumes "cleanup_failure b e w = (r, w1)"
  shows "committed_history w1 = committed_history w \<and> (\<exists>e. r = Inl e)"
proof -
  have undo: "committed_history w1 = committed_history w" if run: "rollback_maintenance w = (s, w1)" for s w1
  proof -
    obtain t where "execute rollback_transaction w = (t, w1)"
      using run by (auto simp: rollback_maintenance_def on_sqlite_error_def prog_handle_def
          prog_raise_def split: prod.splits sum.splits store_exception.splits ingest_failure.splits)
    then show ?thesis
      unfolding rollback_transaction_def
      by (cases rule: execute_statement) (auto simp: committed_history_def dest: arg_cong[where f = cn_committed])
  qed
  show ?thesis using assms undo
    by (auto simp: cleanup_failure_def prog_then_def prog_bind_def prog_raise_def prog_return_def
        raise_classified_def Let_def split: store_exception.splits ingest_failure.splits if_splits prod.splits sum.splits)
qed

lemma execute_begin:
  assumes "execute begin_immediate w = (r, w1)"
  shows "committed_history w1 = committed_history w \<and>
    (r = Inr () \<longrightarrow> open_history w1 = committed_history w)"
  using assms unfolding begin_immediate_def
  by (cases rule: execute_statement)
    (auto simp: committed_history_def open_history_def dest: arg_cong[where f = cn_committed]
      arg_cong[where f = cn_history])

lemma execute_commit:
  assumes "execute commit_transaction w = (r, w1)"
  shows "committed_history w1 = committed_history w \<and> (\<exists>e. r = Inl e) \<or>
    committed_history w1 = open_history w \<and> r = Inr ()"
  using assms unfolding commit_transaction_def
  by (cases rule: execute_statement)
    (auto simp: committed_history_def open_history_def dest: arg_cong[where f = cn_committed])

lemma cleanup_transaction_cases:
  assumes "cleanup_transaction sha cutoff w = (r, w1)"
  shows "committed_history w1 = committed_history w \<and> (\<exists>e. r = Inl e) \<or>
    (\<exists>counts. r = Inr counts \<and>
      tidied cutoff (cleanup_result counts) (open_history w) (committed_history w1) \<and>
      (history_ok sha (open_history w) \<longrightarrow> history_ok sha (committed_history w1)))"
proof -
  let ?h = "open_history w" and ?p = "planned cutoff (open_history w)"
  let ?body = "\<lambda>plan. prog_then (execute_retention_plan cutoff plan) check_maintenance_deadline"
  have "writing (prog_bind (retention_plan sha cutoff) (\<lambda>plan. prog_then (?body plan) (prog_return plan)))
    (\<lambda>h x h3. \<exists>x' h1. (h1 = h \<and> (x' = planned cutoff h \<and> length x' \<le> RETENTION_ROW_BUDGET)) \<and>
       (\<exists>(y::unit) h2. (\<exists>(z::unit) h2'. (all_apply cutoff x' h1 \<and> h2' = after_actions x' h1) \<and> (h2 = h2' \<and> True)) \<and>
          (h3 = h2 \<and> x = x')))"
    unfolding prog_then_def
    by (intro writing_bind writing_plan reading_plan[unfolded reading_def] reading_check[unfolded reading_def]
        reading_return[unfolded reading_def])
  then have steps: "writing (prog_bind (retention_plan sha cutoff) (\<lambda>plan. prog_then (?body plan) (prog_return plan)))
    (\<lambda>h x h1. x = planned cutoff h \<and> length x \<le> RETENTION_ROW_BUDGET \<and> all_apply cutoff x h \<and>
       h1 = after_actions x h)" (is "writing ?steps _")
    by (rule writing_conseq) auto
  have run: "cleanup_transaction sha cutoff w =
      prog_bind ?steps (\<lambda>plan. prog_then (execute commit_transaction) (prog_return (deletion_counts plan))) w"
    by (auto simp: cleanup_transaction_def prog_bind_def prog_then_def prog_return_def
        split: prod.splits sum.splits)
  obtain s w2 where s: "?steps w = (s, w2)" by (cases "?steps w")
  show ?thesis
  proof (cases s)
    case (Inl e)
    then show ?thesis using assms run s steps by (auto simp: prog_bind_def writing_def)
  next
    case (Inr plan)
    then have plan: "plan = ?p" "length plan \<le> RETENTION_ROW_BUDGET" "all_apply cutoff plan ?h"
      "open_history w2 = after_actions plan ?h" "committed_history w2 = committed_history w"
      using s steps unfolding writing_def by auto
    obtain t w3 where t: "execute commit_transaction w2 = (t, w3)" by (cases "execute commit_transaction w2")
    have final: "(r, w1) = (case t of Inl e \<Rightarrow> Inl e | Inr _ \<Rightarrow> Inr (deletion_counts plan), w3)"
      using assms run s Inr t by (cases t) (simp_all add: prog_bind_def prog_then_def prog_return_def)
    have "tidied cutoff (cleanup_result (deletion_counts plan)) ?h (after_actions plan ?h)"
      using planned_tidied plan(1-3) by simp
    moreover have "history_ok sha ?h \<longrightarrow> history_ok sha (after_actions plan ?h)"
      by (simp add: after_actions_def forgotten_ok)
    ultimately show ?thesis using execute_commit[OF t] final plan(4,5)
      by (elim disjE conjE exE) (auto simp del: split_paired_Ex)
  qed
qed

lemma same_connection:
  "check_deadline e w = (r, w1) \<Longrightarrow> committed_history w1 = committed_history w"
  "start_deadline n w = (r, w1) \<Longrightarrow> committed_history w1 = committed_history w"
  "build_or_malformed b x w = (s, w1) \<Longrightarrow> committed_history w1 = committed_history w"
  by (auto simp: check_deadline_def start_deadline_def build_or_malformed_def prog_bind_def read_clock_def
      prog_return_def prog_raise_def committed_history_def split: if_splits)

lemma handler_committed:
  assumes "set_handler b w = (r, w1)"
  shows "committed_history w1 = committed_history w"
proof -
  have "cn_committed c1 = cn_committed c" if "run_statement (tx_return ()) c = (s, c1)" for s c c1
    using run_statement_cases[OF that] by (auto simp: tx_return_def)
  then show ?thesis using assms
    by (auto simp: set_handler_def prog_then_def prog_bind_def on_connection_def committed_history_def
        split: prod.splits sum.splits)
qed

lemma progress_handler_committed:
  "install_progress_handler w = (r, w1) \<Longrightarrow> committed_history w1 = committed_history w"
  "clear_progress_handler w = (r, w1) \<Longrightarrow> committed_history w1 = committed_history w"
  by (auto simp: install_progress_handler_def clear_progress_handler_def on_sqlite_error_def prog_handle_def
      prog_raise_def raise_classified_def dest!: handler_committed
      split: prod.splits sum.splits store_exception.splits ingest_failure.splits)

lemma handled:
  assumes "prog_handle m (cleanup_failure b) w = (r, w1)"
  obtains (returned) x where "m w = (Inr x, w1)" "r = Inr x"
  | (raised) e f w2 where "m w = (Inl e, w2)" "r = Inl f" "committed_history w1 = committed_history w2"
proof -
  obtain s w2 where s: "m w = (s, w2)" by (cases "m w")
  show thesis
  proof (cases s)
    case (Inl e)
    then have "cleanup_failure b e w2 = (r, w1)" using assms s by (simp add: prog_handle_def)
    from cleanup_failed[OF this] show thesis using raised s Inl by auto
  next
    case (Inr x)
    then have "r = Inr x" "w2 = w1" using assms s by (auto simp: prog_handle_def)
    then show thesis using s Inr by (intro returned) simp_all
  qed
qed

text \<open>What follows the transaction leaves the committed history alone.\<close>

lemma cleanup_result_committed:
  assumes "prog_handle (prog_then check_maintenance_deadline
      (build_or_malformed (cleanup_result_valid x) x)) (cleanup_failure False) w = (r, w1)"
  shows "committed_history w1 = committed_history w \<and> (\<forall>y. r = Inr y \<longrightarrow> y = x)"
proof -
  have body: "committed_history w2 = committed_history w \<and> (\<forall>y. s = Inr y \<longrightarrow> y = x)"
    if "prog_then check_maintenance_deadline (build_or_malformed (cleanup_result_valid x) x) w = (s, w2)"
    for s w2
    using that
    by (auto simp: prog_then_def prog_bind_def dest!: same_connection(1)
        simp: build_or_malformed_def prog_return_def prog_raise_def split: prod.splits sum.splits if_splits)
  from assms show ?thesis by (cases rule: handled) (auto dest: body)
qed

text \<open>
  The outcomes of a cleanup: the committed history is as it was and an error is raised, or it is tidied,
  and then the result says so unless an error is raised after the commit.
\<close>

definition cleaned :: "(bytes \<Rightarrow> bytes) \<Rightarrow> int \<Rightarrow> World \<Rightarrow> store_exception + RetentionCleanupResult \<Rightarrow> World \<Rightarrow> bool" where
  "cleaned sha cutoff w r w1 \<longleftrightarrow>
     committed_history w1 = committed_history w \<and> (\<exists>e. r = Inl e) \<or>
     (\<exists>counts. tidied cutoff (cleanup_result counts) (committed_history w) (committed_history w1) \<and>
        (history_ok sha (committed_history w) \<longrightarrow> history_ok sha (committed_history w1)) \<and>
        (\<forall>x. r = Inr x \<longrightarrow> x = cleanup_result counts))"

lemma cleaned_cong:
  "cleaned sha cutoff w r w1 \<Longrightarrow> committed_history v = committed_history w \<Longrightarrow>
   committed_history v1 = committed_history w1 \<Longrightarrow> cleaned sha cutoff v r v1"
  by (simp add: cleaned_def)

lemma cleaned_error: "committed_history w1 = committed_history w \<Longrightarrow> cleaned sha cutoff w (Inl e) w1"
  by (simp add: cleaned_def)

lemma cleaned_raises: "cleaned sha cutoff w r w1 \<Longrightarrow> cleaned sha cutoff w (Inl e) w1"
  by (auto simp: cleaned_def)

text \<open>The cleanup without its deadline and progress handler, from the start of its transaction.\<close>

definition cleanup_body :: "(bytes \<Rightarrow> bytes) \<Rightarrow> int \<Rightarrow> RetentionCleanupResult prog" where
  "cleanup_body sha cutoff =
     prog_then (prog_handle (execute begin_immediate) (cleanup_failure False)) (
     prog_bind (prog_handle (cleanup_transaction sha cutoff) (cleanup_failure True)) (\<lambda>counts.
     prog_handle
       (prog_then check_maintenance_deadline (
        let r = cleanup_result counts in build_or_malformed (cleanup_result_valid r) r))
       (cleanup_failure False)))"

lemma cleanup_body_cases:
  assumes "cleanup_body sha cutoff w = (r, w1)"
  shows "cleaned sha cutoff w r w1"
proof -
  obtain s w2 where s: "prog_handle (execute begin_immediate) (cleanup_failure False) w = (s, w2)"
    by (cases "prog_handle (execute begin_immediate) (cleanup_failure False) w")
  from s show ?thesis
  proof (cases rule: handled)
    case (raised e f w3)
    then show ?thesis using assms s execute_begin[OF raised(1)]
      by (auto simp: cleanup_body_def prog_then_def prog_bind_def intro: cleaned_error)
  next
    case (returned u)
    note begun = execute_begin[OF returned(1)]
    obtain t w3 where t: "prog_handle (cleanup_transaction sha cutoff) (cleanup_failure True) w2 = (t, w3)"
      by (cases "prog_handle (cleanup_transaction sha cutoff) (cleanup_failure True) w2")
    from t show ?thesis
    proof (cases rule: handled)
      case (raised e f w4)
      then show ?thesis using assms s returned t begun cleanup_transaction_cases[OF raised(1)]
        by (auto simp: cleanup_body_def prog_then_def prog_bind_def intro: cleaned_error)
    next
      case transaction: (returned counts)
      then have "prog_handle (prog_then check_maintenance_deadline
          (build_or_malformed (cleanup_result_valid (cleanup_result counts)) (cleanup_result counts)))
          (cleanup_failure False) w3 = (r, w1)"
        using assms s t \<open>s = Inr u\<close> by (simp add: cleanup_body_def prog_then_def prog_bind_def Let_def)
      from cleanup_result_committed[OF this] show ?thesis
        using cleanup_transaction_cases[OF transaction(1)] begun
        by (auto simp: cleaned_def simp del: split_paired_Ex)
    qed
  qed
qed

lemma cleanup_cases:
  assumes "cleanup_retention sha now days w = (r, w1)"
  shows "cleaned sha (now - days * MICROSECONDS_PER_DAY) w r w1"
proof (cases "between 0 MAX_TIMESTAMP_US now \<and> between MIN_RETENTION_DAYS MAX_RETENTION_DAYS days")
  case False
  then show ?thesis using assms
    by (auto simp: cleanup_retention_def retention_cutoff_def prog_bind_def prog_raise_def intro: cleaned_error)
next
  case True
  let ?cutoff = "now - days * MICROSECONDS_PER_DAY"
  obtain a v where a: "start_deadline MAINTENANCE_SECONDS w = (a, v)"
    by (cases "start_deadline MAINTENANCE_SECONDS w")
  have a_ok: "a = Inr ()" using a by (auto simp: start_deadline_def prog_bind_def read_clock_def)
  obtain b u where b: "install_progress_handler v = (b, u)" by (cases "install_progress_handler v")
  have same: "committed_history u = committed_history w"
    using progress_handler_committed(1)[OF b] same_connection(2)[OF a] by simp
  obtain s v1 where s: "prog_then install_progress_handler (cleanup_body sha ?cutoff) v = (s, v1)"
    by (cases "prog_then install_progress_handler (cleanup_body sha ?cutoff) v")
  have "cleaned sha ?cutoff w s v1"
  proof (cases b)
    case (Inl e)
    then show ?thesis using s b same by (auto simp: prog_then_def prog_bind_def intro: cleaned_error)
  next
    case (Inr x)
    then have "cleanup_body sha ?cutoff u = (s, v1)" using s b by (simp add: prog_then_def prog_bind_def)
    from cleanup_body_cases[OF this] show ?thesis by (rule cleaned_cong) (simp_all add: same)
  qed
  moreover obtain c w2 where c: "clear_progress_handler v1 = (c, w2)" by (cases "clear_progress_handler v1")
  moreover have "(r, w1) = (case c of Inl e \<Rightarrow> Inl e | Inr _ \<Rightarrow> s, w2)"
    using assms True a a_ok s c unfolding cleanup_body_def
    by (auto simp: cleanup_retention_def retention_cutoff_def prog_bind_def prog_then_def prog_return_def
        prog_finally_def split: sum.splits)
  ultimately show ?thesis using progress_handler_committed(2)[OF c]
    by (cases c) (auto intro: cleaned_cong cleaned_raises)
qed

text \<open>
  C21. A retention cleanup of a history in order, whatever SQLite and the clock answer, either raises an
  error and changes nothing, or commits a tidied history that is in order again: deleted were only
  samples observed before the cutoff, archived alerts that recovered before it and events of such
  alerts, no alert without all its events, as many rows as the result counts and at most 500, and all
  such samples and alerts unless the 500 are used up. A result is returned only in the second case.
\<close>

theorem retention_correct:
  assumes "history_ok sha (committed_history w)" "cleanup_retention sha now days w = (r, w1)"
  shows "history_ok sha (committed_history w1) \<and>
    (committed_history w1 = committed_history w \<and> (\<exists>e. r = Inl e) \<or>
     (\<exists>x. tidied (now - days * MICROSECONDS_PER_DAY) x (committed_history w) (committed_history w1) \<and>
        r \<in> insert (Inr x) (range Inl)))"
  using cleanup_cases[OF assms(2)] assms(1) unfolding cleaned_def
  by (cases r) auto

definition tidy_alert :: "int \<Rightarrow> int \<Rightarrow> alert_row" where
  "tidy_alert i t =
     \<lparr>al_id = i, al_scope = ''sampling'', al_kind = ''sampling_gap'', al_lifecycle = ''archived'',
      al_severity = ''unavailable'', al_opened = t, al_acknowledged = None, al_recovered = Some t,
      al_archived = Some t, al_first_sample = None, al_latest_sample = None, al_episode = 1,
      al_occurrence = 1, al_cooldown = t\<rparr>"

definition untidy_history :: History where
  "untidy_history = new_history\<lparr>h_alerts := [tidy_alert 1 5, tidy_alert 2 86400000000],
     h_events := [\<lparr>ae_id = 1, ae_alert_id = 1, ae_type = ''opened'', ae_at = 5, ae_sample = None, ae_lifecycle = ''open''\<rparr>,
                  \<lparr>ae_id = 2, ae_alert_id = 2, ae_type = ''opened'', ae_at = 6, ae_sample = None, ae_lifecycle = ''open''\<rparr>]\<rparr>"

definition untidy_world :: World where
  "untidy_world =
     \<lparr>w_connection = new_connection untidy_history, w_closed = False, w_clock = (\<lambda>_. 0), w_reads = 0,
      w_deadline = 0, w_expired = False, w_handler = False, w_progress = [], w_pragmas = [],
      w_wal_files = [], w_disk = [], w_runtime_safe = True, w_files_stable = []\<rparr>"

lemma tidy_alert_check: "alert_check (tidy_alert 1 5)" "alert_check (tidy_alert 2 86400000000)"
  by code_simp+

lemma untidy_history_ok: "history_ok sha untidy_history"
proof -
  obtain ck b where new: "history_with sha ck b new_history"
    using new_history_ok[of sha] by (auto simp: history_ok_def)
  have "alerts_ok untidy_history"
    using tidy_alert_check
    by (simp add: alerts_ok_def untidy_history_def older_archived_def alert_row_ok_def sample_reference_def
        null_or_def) (simp_all add: tidy_alert_def)
  moreover have "ledger_with ck untidy_history" "samples_ok sha (ck_sequence ck) untidy_history"
    "scope_rows_ok untidy_history b"
    using new by (simp_all add: history_with_def ledger_with_def samples_ok_def stored_ok_def
        sample_components_def scope_rows_ok_def sample_reference_def untidy_history_def)
  ultimately have "history_with sha ck b untidy_history" using new by (simp add: history_with_def)
  then show ?thesis unfolding history_ok_def by blast
qed

theorem retention_correct_witness:
  "\<exists>w1. cleanup_retention sample_digest 86400000007 1 untidy_world =
       (Inr \<lparr>rr_outcome = MO_COMPLETED, rr_samples = 0, rr_events = 1, rr_alerts = 1\<rparr>, w1) \<and>
     history_ok sample_digest (committed_history w1) \<and>
     (\<exists>x. tidied 7 x untidy_history (committed_history w1) \<and> rr_alerts x = 1)"
proof -
  have "fst (cleanup_retention sample_digest 86400000007 1 untidy_world) =
      Inr \<lparr>rr_outcome = MO_COMPLETED, rr_samples = 0, rr_events = 1, rr_alerts = 1\<rparr>"
    by code_simp
  then obtain w1 where run: "cleanup_retention sample_digest 86400000007 1 untidy_world =
      (Inr \<lparr>rr_outcome = MO_COMPLETED, rr_samples = 0, rr_events = 1, rr_alerts = 1\<rparr>, w1)"
    by (metis prod.collapse)
  have start: "committed_history untidy_world = untidy_history"
    by (simp add: committed_history_def untidy_world_def new_connection_def)
  have "history_ok sample_digest (committed_history untidy_world)"
    unfolding start by (rule untidy_history_ok)
  from retention_correct[OF this run] show ?thesis
    using run unfolding start by (auto simp: MICROSECONDS_PER_DAY_def)
qed

end
