(* ===== verification/Storage_Envelope.thy ===== *)
theory Storage_Envelope
  imports Store_World
begin

text \<open>
  \<open>health_history/storage_envelope.py\<close>: the fixed storage envelope of the database file, its file
  system and the write-ahead log, the decision what a writer may do next, and the passive checkpoint.
  What the pragmas, the file system and the disk answer is given by the world; every answer is
  checked, and a result is built only if its constructor accepts it.
\<close>

definition PAGE_SIZE_BYTES :: int where "PAGE_SIZE_BYTES = 4096"
definition MAX_DATABASE_BYTES :: int where "MAX_DATABASE_BYTES = 64 * 1024 * 1024"
definition MAX_DATABASE_PAGES :: int where "MAX_DATABASE_PAGES = MAX_DATABASE_BYTES div PAGE_SIZE_BYTES"
definition FREE_SPACE_RESERVE_BYTES :: int where "FREE_SPACE_RESERVE_BYTES = 128 * 1024 * 1024"
definition WAL_HEADER_BYTES :: int where "WAL_HEADER_BYTES = 32"
definition WAL_FRAME_BYTES :: int where "WAL_FRAME_BYTES = 24 + PAGE_SIZE_BYTES"
definition WAL_CHECKPOINT_THRESHOLD_FRAMES :: int where "WAL_CHECKPOINT_THRESHOLD_FRAMES = 256"
definition WAL_HARD_LIMIT_FRAMES :: int where "WAL_HARD_LIMIT_FRAMES = 960"
definition WAL_HARD_LIMIT_BYTES :: int where "WAL_HARD_LIMIT_BYTES = 4 * 1024 * 1024"
definition WAL_INSPECTION_LIMIT_BYTES :: int where "WAL_INSPECTION_LIMIT_BYTES = MAX_DATABASE_BYTES"

definition MAX_WAL_INSPECTION_FRAMES :: int where
  "MAX_WAL_INSPECTION_FRAMES = (WAL_INSPECTION_LIMIT_BYTES - WAL_HEADER_BYTES) div WAL_FRAME_BYTES"

definition CHECKPOINT_SECONDS :: seconds where "CHECKPOINT_SECONDS = 1"
definition MAX_FILESYSTEM_BYTES :: int where "MAX_FILESYSTEM_BYTES = 2 ^ 63 - 1"

named_theorems envelope_bounds "the numbers of the storage envelope"

lemmas envelope_numbers [envelope_bounds] =
  PAGE_SIZE_BYTES_def MAX_DATABASE_BYTES_def MAX_DATABASE_PAGES_def FREE_SPACE_RESERVE_BYTES_def
  WAL_HEADER_BYTES_def WAL_FRAME_BYTES_def WAL_CHECKPOINT_THRESHOLD_FRAMES_def
  WAL_HARD_LIMIT_FRAMES_def WAL_HARD_LIMIT_BYTES_def WAL_INSPECTION_LIMIT_BYTES_def
  MAX_WAL_INSPECTION_FRAMES_def MAX_FILESYSTEM_BYTES_def

abbreviation malformed_storage :: store_exception where
  "malformed_storage \<equiv> Storage_Error SR_MALFORMED_STATE True"

abbreviation check_storage_deadline :: "unit prog" where
  "check_storage_deadline \<equiv> check_deadline (Storage_Error SR_TIMED_OUT False)"

section \<open>Results\<close>

datatype StorageDecisionOutcome =
    SD_PROCEED | SD_CAPACITY_MAINTENANCE_REQUIRED | SD_CAPACITY_BLOCKED | SD_WAL_CHECKPOINT_DUE
  | SD_WAL_OVERSIZE_BLOCKED

datatype PassiveCheckpointOutcome = PC_NO_WORK | PC_COMPLETED | PC_BUSY | PC_OVERSIZE_BLOCKED

record StorageCapacityResult =
  sc_page_count :: int
  sc_freelist_count :: int
  sc_maximum_pages :: int
  sc_used_bytes :: int
  sc_maximum_bytes :: int
  sc_pages_remaining :: int

definition capacity_valid :: "StorageCapacityResult \<Rightarrow> bool" where
  "capacity_valid c \<longleftrightarrow>
     0 \<le> sc_page_count c \<and> sc_page_count c \<le> MAX_DATABASE_PAGES \<and>
     0 \<le> sc_freelist_count c \<and> sc_freelist_count c \<le> sc_page_count c \<and>
     sc_maximum_pages c = MAX_DATABASE_PAGES \<and>
     sc_used_bytes c = sc_page_count c * PAGE_SIZE_BYTES \<and>
     sc_maximum_bytes c = MAX_DATABASE_BYTES \<and>
     sc_pages_remaining c = MAX_DATABASE_PAGES - sc_page_count c"

record FreeSpaceResult =
  fs_sufficient :: bool
  fs_free_bytes :: int
  fs_reserve_bytes :: int

definition free_space_valid :: "FreeSpaceResult \<Rightarrow> bool" where
  "free_space_valid f \<longleftrightarrow>
     0 \<le> fs_free_bytes f \<and> fs_free_bytes f \<le> MAX_FILESYSTEM_BYTES \<and>
     fs_reserve_bytes f = FREE_SPACE_RESERVE_BYTES \<and>
     fs_sufficient f = (fs_free_bytes f \<ge> FREE_SPACE_RESERVE_BYTES)"

record WalInspectionResult =
  wi_exists :: bool
  wi_logical_frames :: int
  wi_physical_slots :: int
  wi_total_bytes :: int
  wi_checkpointed_frames :: int
  wi_checkpoint_due :: bool
  wi_oversize :: bool

definition wal_size_matches :: "int \<Rightarrow> int \<Rightarrow> bool" where
  "wal_size_matches total_bytes frame_count \<longleftrightarrow>
     (if total_bytes = 0 then frame_count = 0
      else if total_bytes < WAL_HEADER_BYTES then False
      else (total_bytes - WAL_HEADER_BYTES) mod WAL_FRAME_BYTES = 0 \<and>
           (total_bytes - WAL_HEADER_BYTES) div WAL_FRAME_BYTES = frame_count)"

definition is_oversize :: "int \<Rightarrow> int \<Rightarrow> bool" where
  "is_oversize frames total_bytes \<longleftrightarrow> frames > WAL_HARD_LIMIT_FRAMES \<or> total_bytes > WAL_HARD_LIMIT_BYTES"

definition is_checkpoint_due :: "int \<Rightarrow> bool \<Rightarrow> bool" where
  "is_checkpoint_due frames oversize \<longleftrightarrow>
     WAL_CHECKPOINT_THRESHOLD_FRAMES \<le> frames \<and> frames \<le> WAL_HARD_LIMIT_FRAMES \<and> \<not> oversize"

definition wal_inspection_valid :: "WalInspectionResult \<Rightarrow> bool" where
  "wal_inspection_valid w \<longleftrightarrow>
     0 \<le> wi_logical_frames w \<and> wi_logical_frames w \<le> MAX_WAL_INSPECTION_FRAMES \<and>
     0 \<le> wi_physical_slots w \<and> wi_physical_slots w \<le> MAX_WAL_INSPECTION_FRAMES \<and>
     0 \<le> wi_total_bytes w \<and> wi_total_bytes w \<le> WAL_INSPECTION_LIMIT_BYTES \<and>
     0 \<le> wi_checkpointed_frames w \<and> wi_checkpointed_frames w \<le> wi_logical_frames w \<and>
     wi_logical_frames w \<le> wi_physical_slots w \<and>
     (wi_exists w \<or>
        wi_logical_frames w = 0 \<and> wi_physical_slots w = 0 \<and> wi_total_bytes w = 0 \<and>
        wi_checkpointed_frames w = 0) \<and>
     (\<not> wi_exists w \<or> wal_size_matches (wi_total_bytes w) (wi_physical_slots w)) \<and>
     wi_oversize w = is_oversize (wi_logical_frames w) (wi_total_bytes w) \<and>
     wi_checkpoint_due w = is_checkpoint_due (wi_logical_frames w) (wi_oversize w)"

record StorageDecisionResult =
  dr_outcome :: StorageDecisionOutcome
  dr_write_permitted :: bool

record PassiveCheckpointResult =
  pc_outcome :: PassiveCheckpointOutcome
  pc_frames_before :: int
  pc_bytes_before :: int
  pc_busy :: bool
  pc_log_frames :: int
  pc_checkpointed_frames :: int

definition checkpoint_result_valid :: "PassiveCheckpointResult \<Rightarrow> bool" where
  "checkpoint_result_valid p \<longleftrightarrow>
     0 \<le> pc_frames_before p \<and> pc_frames_before p \<le> MAX_WAL_INSPECTION_FRAMES \<and>
     0 \<le> pc_bytes_before p \<and> pc_bytes_before p \<le> WAL_INSPECTION_LIMIT_BYTES \<and>
     0 \<le> pc_log_frames p \<and> pc_log_frames p \<le> MAX_WAL_INSPECTION_FRAMES \<and>
     0 \<le> pc_checkpointed_frames p \<and> pc_checkpointed_frames p \<le> pc_log_frames p \<and>
     (pc_outcome p \<in> {PC_NO_WORK, PC_OVERSIZE_BLOCKED} \<longrightarrow>
        \<not> pc_busy p \<and> pc_log_frames p = 0 \<and> pc_checkpointed_frames p = 0) \<and>
     (pc_outcome p = PC_NO_WORK \<longrightarrow>
        pc_frames_before p < WAL_CHECKPOINT_THRESHOLD_FRAMES \<and>
        pc_bytes_before p \<le> WAL_HARD_LIMIT_BYTES) \<and>
     (pc_outcome p = PC_OVERSIZE_BLOCKED \<longrightarrow>
        pc_frames_before p > WAL_HARD_LIMIT_FRAMES \<or> pc_bytes_before p > WAL_HARD_LIMIT_BYTES) \<and>
     (pc_outcome p \<in> {PC_COMPLETED, PC_BUSY} \<longrightarrow>
        WAL_CHECKPOINT_THRESHOLD_FRAMES \<le> pc_frames_before p \<and>
        pc_frames_before p \<le> WAL_HARD_LIMIT_FRAMES \<and> pc_bytes_before p \<le> WAL_HARD_LIMIT_BYTES) \<and>
     (pc_outcome p = PC_COMPLETED \<longrightarrow> \<not> pc_busy p) \<and> (pc_outcome p = PC_BUSY \<longrightarrow> pc_busy p)"

text \<open>A constructor that raises \<open>ValueError\<close> for fields it does not accept.\<close>

definition build_valid :: "('a \<Rightarrow> bool) \<Rightarrow> 'a \<Rightarrow> 'a prog" where
  "build_valid valid x = (if valid x then prog_return x else prog_raise (Database_Error Type_Or_Value_Error))"

section \<open>The decision\<close>

definition decide_storage_action ::
  "StorageCapacityResult \<Rightarrow> FreeSpaceResult \<Rightarrow> WalInspectionResult \<Rightarrow> bool \<Rightarrow> StorageDecisionResult" where
  "decide_storage_action capacity free_space wal capacity_maintenance_attempted =
     (let outcome =
        (if wi_oversize wal then SD_WAL_OVERSIZE_BLOCKED
         else if sc_pages_remaining capacity = 0 \<or> \<not> fs_sufficient free_space
         then if capacity_maintenance_attempted then SD_CAPACITY_BLOCKED
              else SD_CAPACITY_MAINTENANCE_REQUIRED
         else if wi_checkpoint_due wal then SD_WAL_CHECKPOINT_DUE
         else SD_PROCEED)
      in \<lparr>dr_outcome = outcome, dr_write_permitted = (outcome = SD_PROCEED)\<rparr>)"

section \<open>Failures\<close>

definition classified_storage_error :: "sqlite_failure \<Rightarrow> bool \<Rightarrow> store_exception" where
  "classified_storage_error e expired =
     (let primary = map_option (\<lambda>code. code mod 256) (sf_errorcode e)
      in if sf_integrity e \<or>
            primary \<in> {Some SQLITE_CORRUPT, Some SQLITE_NOTADB, Some SQLITE_SCHEMA,
                       Some SQLITE_CONSTRAINT}
         then Storage_Error SR_TRUST_FAILED True
         else if primary \<in> {Some SQLITE_BUSY, Some SQLITE_LOCKED}
         then Storage_Error SR_STORAGE_BUSY False
         else if expired \<and> primary \<in> {None, Some SQLITE_INTERRUPT}
         then Storage_Error SR_TIMED_OUT False
         else Storage_Error SR_PERSISTENCE_FAILED False)"

text \<open>The handlers of every operation; \<open>timed\<close> says whether it runs under a deadline.\<close>

definition storage_failure :: "bool \<Rightarrow> store_exception \<Rightarrow> 'a prog" where
  "storage_failure timed e w =
     (Inl (case e of
             Database_Error (Sqlite_Error s) \<Rightarrow> classified_storage_error s (timed \<and> w_expired w)
           | Database_Error Type_Or_Value_Error \<Rightarrow> malformed_storage
           | _ \<Rightarrow> e), w)"

section \<open>Capacity and free space\<close>

definition pragma_integer :: "int prog" where
  "pragma_integer =
     prog_bind pragma (\<lambda>rows.
     case rows of
       [Some x] # _ \<Rightarrow> prog_return x
     | _ \<Rightarrow> prog_raise malformed_storage)"

definition inspect_storage_capacity :: "StorageCapacityResult prog" where
  "inspect_storage_capacity =
     prog_handle
       (prog_bind pragma_integer (\<lambda>page_size.
        prog_bind pragma_integer (\<lambda>page_count.
        prog_bind pragma_integer (\<lambda>freelist.
        prog_bind pragma_integer (\<lambda>maximum.
        prog_then (prog_require (page_size = PAGE_SIZE_BYTES \<and> maximum = MAX_DATABASE_PAGES)
          malformed_storage) (
        prog_then (prog_require
          (0 \<le> page_count \<and> page_count \<le> MAX_DATABASE_PAGES \<and> 0 \<le> freelist \<and> freelist \<le> page_count)
          malformed_storage) (
        build_valid capacity_valid
          \<lparr>sc_page_count = page_count, sc_freelist_count = freelist, sc_maximum_pages = maximum,
           sc_used_bytes = page_count * PAGE_SIZE_BYTES, sc_maximum_bytes = MAX_DATABASE_BYTES,
           sc_pages_remaining = MAX_DATABASE_PAGES - page_count\<rparr>)))))))
       (storage_failure False)"

definition disk_usage :: "(int \<times> int \<times> int) prog" where
  "disk_usage w =
     (case w_disk w of
        Some usage # rest \<Rightarrow> (Inr usage, w\<lparr>w_disk := rest\<rparr>)
      | _ \<Rightarrow> (Inl (Storage_Error SR_PERSISTENCE_FAILED False), w\<lparr>w_disk := tl (w_disk w)\<rparr>))"

definition inspect_free_space :: "FreeSpaceResult prog" where
  "inspect_free_space =
     prog_bind disk_usage (\<lambda>(total, used, free).
     prog_handle
       (prog_then (prog_require
          (0 \<le> total \<and> total \<le> MAX_FILESYSTEM_BYTES \<and> 0 \<le> used \<and> used \<le> total \<and>
           0 \<le> free \<and> free \<le> total) malformed_storage) (
        build_valid free_space_valid
          \<lparr>fs_sufficient = (free \<ge> FREE_SPACE_RESERVE_BYTES), fs_free_bytes = free,
           fs_reserve_bytes = FREE_SPACE_RESERVE_BYTES\<rparr>))
       (storage_failure False))"

section \<open>The write-ahead log\<close>

record PhysicalWalState =
  pw_exists :: bool
  pw_frame_slots :: int
  pw_total_bytes :: int

definition wal_frame_count :: "int \<Rightarrow> int prog" where
  "wal_frame_count total_bytes =
     (if \<not> (0 \<le> total_bytes \<and> total_bytes \<le> WAL_INSPECTION_LIMIT_BYTES)
      then prog_raise malformed_storage
      else if total_bytes = 0 then prog_return 0
      else if total_bytes < WAL_HEADER_BYTES then prog_raise malformed_storage
      else
        let payload = total_bytes - WAL_HEADER_BYTES
        in if payload mod WAL_FRAME_BYTES \<noteq> 0 then prog_raise malformed_storage
           else if payload div WAL_FRAME_BYTES > MAX_WAL_INSPECTION_FRAMES
           then prog_raise malformed_storage
           else prog_return (payload div WAL_FRAME_BYTES))"

definition next_wal_file :: "wal_file prog" where
  "next_wal_file w =
     (Inr (case w_wal_files w of [] \<Rightarrow> Wal_Missing | f # _ \<Rightarrow> f), w\<lparr>w_wal_files := tl (w_wal_files w)\<rparr>)"

definition inspect_physical_wal :: "bool \<Rightarrow> PhysicalWalState prog" where
  "inspect_physical_wal require_existing =
     prog_bind next_wal_file (\<lambda>file.
     case file of
       Wal_Missing \<Rightarrow>
         if require_existing then prog_raise (Storage_Error SR_TRUST_FAILED True)
         else prog_return \<lparr>pw_exists = False, pw_frame_slots = 0, pw_total_bytes = 0\<rparr>
     | Wal_Unreadable \<Rightarrow>
         if require_existing then prog_raise (Storage_Error SR_TRUST_FAILED True)
         else prog_raise (Storage_Error SR_PERSISTENCE_FAILED False)
     | Wal_Rejected \<Rightarrow> prog_raise (Storage_Error SR_TRUST_FAILED True)
     | Wal_Size n \<Rightarrow>
         prog_bind (wal_frame_count n) (\<lambda>slots.
         prog_return \<lparr>pw_exists = True, pw_frame_slots = slots, pw_total_bytes = n\<rparr>))"

definition check_if :: "bool \<Rightarrow> unit prog" where
  "check_if timed = (if timed then check_storage_deadline else prog_return ())"

definition require_safe_sqlite_runtime :: "unit prog" where
  "require_safe_sqlite_runtime w =
     (if w_runtime_safe w then Inr () else Inl (Storage_Error SR_UNSUPPORTED_RUNTIME False), w)"

definition noop_status :: "pragma_row list \<Rightarrow> (int \<times> int \<times> bool) prog" where
  "noop_status rows =
     (case rows of
        [[Some busy, Some logical, Some checkpointed]] \<Rightarrow>
          if busy = 1 then prog_raise (Storage_Error SR_STORAGE_BUSY False)
          else if busy \<noteq> 0 then prog_raise malformed_storage
          else if logical = - 1 \<or> checkpointed = - 1
          then if (logical, checkpointed) \<noteq> (- 1, - 1) then prog_raise malformed_storage
               else prog_return (0, 0, True)
          else if \<not> (0 \<le> logical \<and> logical \<le> MAX_WAL_INSPECTION_FRAMES) \<or>
                  \<not> (0 \<le> checkpointed \<and> checkpointed \<le> logical)
          then prog_raise malformed_storage
          else prog_return (logical, checkpointed, False)
      | _ \<Rightarrow> prog_raise malformed_storage)"

definition read_noop_status :: "bool \<Rightarrow> (int \<times> int \<times> bool) prog" where
  "read_noop_status timed =
     prog_then require_safe_sqlite_runtime (
     prog_bind pragma (\<lambda>rows.
     prog_then (check_if timed) (
     prog_then (check_if timed) (
     noop_status (take 2 rows)))))"

definition inspect_wal :: "bool \<Rightarrow> WalInspectionResult prog" where
  "inspect_wal timed =
     prog_handle
       (prog_bind (inspect_physical_wal False) (\<lambda>earlier.
        prog_then (check_if timed) (
        prog_bind (read_noop_status timed) (\<lambda>(logical, checkpointed, no_wal).
        prog_then (check_if timed) (
        prog_bind (inspect_physical_wal (pw_exists earlier)) (\<lambda>current.
        prog_then (check_if timed) (
        prog_then (prog_require (\<not> (no_wal \<and> pw_total_bytes current \<noteq> 0)) malformed_storage) (
        prog_then (prog_require (logical \<le> pw_frame_slots current) malformed_storage) (
        let oversize = is_oversize logical (pw_total_bytes current)
        in build_valid wal_inspection_valid
             \<lparr>wi_exists = pw_exists current, wi_logical_frames = logical,
              wi_physical_slots = pw_frame_slots current, wi_total_bytes = pw_total_bytes current,
              wi_checkpointed_frames = checkpointed,
              wi_checkpoint_due = is_checkpoint_due logical oversize,
              wi_oversize = oversize\<rparr>)))))))))
       (storage_failure timed)"

section \<open>The passive checkpoint\<close>

definition checkpoint_values :: "pragma_row list \<Rightarrow> (int \<times> int \<times> int) prog" where
  "checkpoint_values rows =
     (case rows of
        [[x, y, z]] \<Rightarrow>
          prog_bind (prog_map (\<lambda>v.
            prog_then check_storage_deadline (
            case v of None \<Rightarrow> prog_raise malformed_storage | Some i \<Rightarrow> prog_return i)) [x, y, z])
            (\<lambda>values.
          case values of
            [busy, log_frames, checkpointed] \<Rightarrow>
              if busy \<noteq> 0 \<and> busy \<noteq> 1 then prog_raise malformed_storage
              else if busy = 1 \<and> (log_frames, checkpointed) = (- 1, - 1)
              then prog_return (busy, 0, 0)
              else if \<not> (0 \<le> log_frames \<and> log_frames \<le> MAX_WAL_INSPECTION_FRAMES) \<or>
                      \<not> (0 \<le> checkpointed \<and> checkpointed \<le> log_frames)
              then prog_raise malformed_storage
              else prog_return (busy, log_frames, checkpointed)
          | _ \<Rightarrow> prog_raise malformed_storage)
      | _ \<Rightarrow> prog_raise malformed_storage)"

definition checkpoint_steps :: "WalInspectionResult \<Rightarrow> PassiveCheckpointResult prog" where
  "checkpoint_steps wal =
     prog_then check_storage_deadline (
     prog_bind pragma (\<lambda>rows.
     prog_then check_storage_deadline (
     prog_then check_storage_deadline (
     prog_bind (checkpoint_values (take 2 rows)) (\<lambda>(busy, log_frames, checkpointed).
     prog_then check_storage_deadline (
     build_valid checkpoint_result_valid
       \<lparr>pc_outcome = (if busy = 1 then PC_BUSY else PC_COMPLETED),
        pc_frames_before = wi_logical_frames wal, pc_bytes_before = wi_total_bytes wal,
        pc_busy = (busy = 1), pc_log_frames = log_frames,
        pc_checkpointed_frames = checkpointed\<rparr>))))))"

definition install_storage_handler :: "unit prog" where
  "install_storage_handler =
     prog_handle (set_handler True) (\<lambda>e.
       case e of Database_Error (Sqlite_Error _) \<Rightarrow> storage_failure True e | _ \<Rightarrow> prog_raise e)"

definition clear_storage_handler :: "unit prog" where
  "clear_storage_handler =
     prog_handle (set_handler False) (\<lambda>e. prog_raise
       (case e of Database_Error (Sqlite_Error _) \<Rightarrow> Storage_Error SR_TRUST_FAILED True | _ \<Rightarrow> e))"

definition passive_wal_checkpoint :: "PassiveCheckpointResult prog" where
  "passive_wal_checkpoint =
     prog_then (start_deadline CHECKPOINT_SECONDS) (
     prog_bind (inspect_wal True) (\<lambda>wal.
     prog_then check_storage_deadline (
     if \<not> wi_checkpoint_due wal
     then build_valid checkpoint_result_valid
            \<lparr>pc_outcome = (if wi_oversize wal then PC_OVERSIZE_BLOCKED else PC_NO_WORK),
             pc_frames_before = wi_logical_frames wal, pc_bytes_before = wi_total_bytes wal,
             pc_busy = False, pc_log_frames = 0, pc_checkpointed_frames = 0\<rparr>
     else prog_finally
            (prog_then install_storage_handler
              (prog_handle (checkpoint_steps wal) (storage_failure True)))
            clear_storage_handler)))"

end
