(* ===== verification/History_Store.thy ===== *)
theory History_Store
  imports Storage_Envelope Retention
begin

text \<open>
  \<open>health_history/store.py\<close>: the operations of an open store. Each one runs between checks that the
  database file and its sidecars are still the ones opened, and an error that says trust was lost
  closes the store; a closed store answers nothing.
\<close>

definition close_store :: "unit prog" where
  "close_store w = (Inr (), w\<lparr>w_closed := True\<rparr>)"

definition require_open :: "unit prog" where
  "require_open w = (if w_closed w then Inl (Store_Error ''store_closed'') else Inr (), w)"

text \<open>One check of the main file or of a snapshot of the sidecars.\<close>

definition check_files :: "unit prog" where
  "check_files w =
     (case w_files_stable w of
        False # rest \<Rightarrow> (Inl Boundary_Error, w\<lparr>w_files_stable := rest\<rparr>)
      | _ \<Rightarrow> (Inr (), w\<lparr>w_files_stable := tl (w_files_stable w)\<rparr>))"

text \<open>The main file and one snapshot before an operation, the main file and two snapshots after.\<close>

definition check_before :: "unit prog" where
  "check_before = prog_then check_files check_files"

definition check_after :: "unit prog" where
  "check_after = prog_then check_files (prog_then check_files check_files)"

definition closing_on_boundary :: "store_exception \<Rightarrow> unit prog \<Rightarrow> unit prog" where
  "closing_on_boundary lost m =
     prog_handle m (\<lambda>e. if e = Boundary_Error then prog_then close_store (prog_raise lost) else prog_raise e)"

text \<open>
  The three private helpers differ in the error they raise for a replaced file and in the class of
  errors they hold back until the files have been checked: \<open>own e\<close> is the \<open>trust_lost\<close> flag of such an
  error.
\<close>

definition store_operation ::
  "store_exception \<Rightarrow> (store_exception \<Rightarrow> bool option) \<Rightarrow> 'a prog \<Rightarrow> 'a prog" where
  "store_operation lost own operation =
     prog_then require_open (
     prog_then (closing_on_boundary lost check_before) (
     prog_bind
       (prog_handle (prog_bind operation (\<lambda>x. prog_return (Inr x))) (\<lambda>e.
          case own e of
            None \<Rightarrow> prog_raise e
          | Some True \<Rightarrow> prog_then close_store (prog_raise e)
          | Some False \<Rightarrow> prog_return (Inl e)))
       (\<lambda>result.
     prog_then (closing_on_boundary lost check_after) (
     case result of Inl e \<Rightarrow> prog_raise e | Inr x \<Rightarrow> prog_return x))))"

definition own_query :: "store_exception \<Rightarrow> bool option" where
  "own_query e = (case e of Query_Error _ trust_lost \<Rightarrow> Some trust_lost | _ \<Rightarrow> None)"

definition own_maintenance :: "store_exception \<Rightarrow> bool option" where
  "own_maintenance e = (case e of Maintenance_Error _ trust_lost \<Rightarrow> Some trust_lost | _ \<Rightarrow> None)"

definition own_storage :: "store_exception \<Rightarrow> bool option" where
  "own_storage e = (case e of Storage_Error _ trust_lost \<Rightarrow> Some trust_lost | _ \<Rightarrow> None)"

definition read_query :: "'a prog \<Rightarrow> 'a prog" where
  "read_query = store_operation (Query_Error QR_TRUST_FAILED True) own_query"

definition maintenance_operation :: "'a prog \<Rightarrow> 'a prog" where
  "maintenance_operation = store_operation (Maintenance_Error MR_TRUST_FAILED True) own_maintenance"

definition storage_envelope_operation :: "'a prog \<Rightarrow> 'a prog" where
  "storage_envelope_operation = store_operation (Storage_Error SR_TRUST_FAILED True) own_storage"

definition store_ingest :: "(bytes \<Rightarrow> bytes) \<Rightarrow> HealthProjection \<Rightarrow> IngestionOutcome prog" where
  "store_ingest sha p =
     prog_then require_open (
     prog_handle
       (prog_then check_before (
        prog_bind (on_connection (ingest_projection sha p)) (\<lambda>outcome.
        prog_then check_after (prog_return outcome))))
       (\<lambda>e.
        case e of
          Database_Error (Ingestion_Error _ trust_lost) \<Rightarrow>
            if trust_lost then prog_then close_store (prog_raise e) else prog_raise e
        | Boundary_Error \<Rightarrow>
            prog_then close_store (prog_raise (Database_Error (Ingestion_Error IR_TRUST_FAILED True)))
        | _ \<Rightarrow> prog_raise e))"

definition store_list_health_samples ::
  "(bytes \<Rightarrow> bytes) \<Rightarrow> int \<Rightarrow> Cursor option \<Rightarrow> HealthHistoryStatus option \<Rightarrow>
   (HealthSampleRecord list \<times> Cursor option) prog" where
  "store_list_health_samples sha n cursor wanted = read_query (list_health_samples sha n cursor wanted)"

definition store_list_alerts ::
  "int \<Rightarrow> Cursor option \<Rightarrow> AlertLifecycle option \<Rightarrow> (AlertRecord list \<times> Cursor option) prog" where
  "store_list_alerts n cursor lifecycle = read_query (list_alerts n cursor lifecycle)"

definition store_get_alert :: "int \<Rightarrow> AlertRecord prog" where
  "store_get_alert i = read_query (get_alert i)"

definition store_list_alert_events ::
  "int \<Rightarrow> int \<Rightarrow> Cursor option \<Rightarrow> (AlertEventRecord list \<times> Cursor option) prog" where
  "store_list_alert_events i n cursor = read_query (list_alert_events i n cursor)"

definition store_resume_state :: "SchedulerResumeState prog" where
  "store_resume_state = read_query get_scheduler_resume_state"

definition store_cleanup_retention :: "(bytes \<Rightarrow> bytes) \<Rightarrow> int \<Rightarrow> int \<Rightarrow> RetentionCleanupResult prog" where
  "store_cleanup_retention sha now days = maintenance_operation (cleanup_retention sha now days)"

definition store_incremental_vacuum :: "IncrementalVacuumResult prog" where
  "store_incremental_vacuum = maintenance_operation incremental_vacuum"

definition store_inspect_capacity :: "StorageCapacityResult prog" where
  "store_inspect_capacity = storage_envelope_operation inspect_storage_capacity"

definition store_inspect_free_space :: "FreeSpaceResult prog" where
  "store_inspect_free_space = storage_envelope_operation inspect_free_space"

definition store_inspect_wal :: "WalInspectionResult prog" where
  "store_inspect_wal = storage_envelope_operation (inspect_wal False)"

definition store_passive_checkpoint :: "PassiveCheckpointResult prog" where
  "store_passive_checkpoint = storage_envelope_operation passive_wal_checkpoint"

section \<open>Fail-stop\<close>

text \<open>
  What the callers of a store rely on: an operation that raises an error with lost trust leaves the
  store closed, and a closed store refuses an operation without touching anything.
\<close>

locale fail_stop =
  fixes run :: "'op \<Rightarrow> World \<Rightarrow> (store_exception + 'a) \<times> World"
    and trust_lost :: "'op \<Rightarrow> store_exception \<Rightarrow> bool"
  assumes refuses: "w_closed w \<Longrightarrow> run op w = (Inl (Store_Error ''store_closed''), w)"
    and closes: "run op w = (Inl e, w1) \<Longrightarrow> trust_lost op e \<Longrightarrow> w_closed w1"
begin

text \<open>Once trust is lost, no sequence of operations gets an answer or changes the world.\<close>

fun run_all :: "'op list \<Rightarrow> World \<Rightarrow> (store_exception + 'a) list \<times> World" where
  "run_all [] w = ([], w)"
| "run_all (op # ops) w =
     (case run op w of (r, w1) \<Rightarrow> (case run_all ops w1 of (rs, w2) \<Rightarrow> (r # rs, w2)))"

lemma closed_for_good:
  "w_closed w \<Longrightarrow> run_all ops w = (replicate (length ops) (Inl (Store_Error ''store_closed'')), w)"
  by (induction ops) (simp_all add: refuses)

lemma lost_for_good:
  "run op w = (Inl e, w1) \<Longrightarrow> trust_lost op e \<Longrightarrow>
   run_all ops w1 = (replicate (length ops) (Inl (Store_Error ''store_closed'')), w1)"
  by (rule closed_for_good) (rule closes)

end

lemmas store_steps = prog_then_def prog_bind_def prog_handle_def prog_return_def prog_raise_def
  require_open_def close_store_def closing_on_boundary_def

lemma check_files_raises: "check_files w = (Inl e, w1) \<Longrightarrow> e = Boundary_Error"
  by (auto simp: check_files_def split: list.splits bool.splits)

lemma check_before_raises: "check_before w = (Inl e, w1) \<Longrightarrow> e = Boundary_Error"
  by (auto simp: check_before_def prog_then_def prog_bind_def split: prod.splits sum.splits
      dest!: check_files_raises)

lemma check_after_raises: "check_after w = (Inl e, w1) \<Longrightarrow> e = Boundary_Error"
  by (auto simp: check_after_def prog_then_def prog_bind_def split: prod.splits sum.splits
      dest!: check_files_raises)

lemma closing_raises:
  assumes "closing_on_boundary lost m w = (Inl e, w1)" "\<And>v f v1. m v = (Inl f, v1) \<Longrightarrow> f = Boundary_Error"
  shows "e = lost \<and> w_closed w1"
  using assms(1) by (auto simp: closing_on_boundary_def store_steps split: prod.splits sum.splits if_splits
      dest: assms(2))

lemma store_operation_refuses:
  "w_closed w \<Longrightarrow> store_operation lost own operation w = (Inl (Store_Error ''store_closed''), w)"
  by (simp add: store_operation_def store_steps)

lemma store_operation_closes:
  assumes run: "store_operation lost own operation w = (Inl e, w1)" and e: "own e = Some True"
    and closed: "own (Store_Error ''store_closed'') = None"
  shows "w_closed w1"
proof -
  obtain r0 w2 where before: "closing_on_boundary lost check_before w = (r0, w2)"
    by (cases "closing_on_boundary lost check_before w")
  have opened: "\<not> w_closed w" using run e closed by (auto simp: store_operation_def store_steps)
  show ?thesis
  proof (cases r0)
    case (Inl f)
    then show ?thesis using run opened before closing_raises[OF before[unfolded Inl]] check_before_raises
      by (auto simp: store_operation_def prog_then_def prog_bind_def require_open_def)
  next
    case (Inr u)
    let ?held = "prog_handle (prog_bind operation (\<lambda>x. prog_return (Inr x))) (\<lambda>e.
          case own e of
            None \<Rightarrow> prog_raise e
          | Some True \<Rightarrow> prog_then close_store (prog_raise e)
          | Some False \<Rightarrow> prog_return (Inl e))"
    obtain r1 w3 where held: "?held w2 = (r1, w3)" by (cases "?held w2")
    have cut: "(Inl e, w1) = (case r1 of Inl f \<Rightarrow> (Inl f, w3) | Inr x \<Rightarrow>
        prog_then (closing_on_boundary lost check_after)
          (case x of Inl f \<Rightarrow> prog_raise f | Inr y \<Rightarrow> prog_return y) w3)"
      using run opened before Inr held
      by (simp add: store_operation_def prog_then_def prog_bind_def require_open_def split: sum.splits)
    show ?thesis
    proof (cases r1)
      case (Inl f)
      then show ?thesis using cut held e
        by (auto simp: store_steps split: prod.splits sum.splits option.splits bool.splits)
    next
      case (Inr x)
      have mild: "own f = Some False" if "x = Inl f" for f
        using held Inr that by (auto simp: store_steps split: prod.splits sum.splits option.splits bool.splits)
      obtain r2 w4 where after: "closing_on_boundary lost check_after w3 = (r2, w4)"
        by (cases "closing_on_boundary lost check_after w3")
      show ?thesis
      proof (cases r2)
        case (Inl f)
        then show ?thesis using cut \<open>r1 = Inr x\<close> after closing_raises[OF after[unfolded Inl]] check_after_raises
          by (auto simp: prog_then_def prog_bind_def)
      next
        case (Inr u)
        then show ?thesis using cut \<open>r1 = Inr x\<close> after mild e
          by (cases x) (auto simp: prog_then_def prog_bind_def prog_raise_def prog_return_def)
      qed
    qed
  qed
qed

definition ingestion_lost :: "store_exception \<Rightarrow> bool" where
  "ingestion_lost e = (case e of Database_Error (Ingestion_Error _ trust_lost) \<Rightarrow> trust_lost | _ \<Rightarrow> False)"

lemma store_ingest_closes:
  assumes "store_ingest sha p w = (Inl e, w1)" "ingestion_lost e"
  shows "w_closed w1"
  using assms
  by (auto simp: store_ingest_def store_steps ingestion_lost_def split: prod.splits sum.splits if_splits
      store_exception.splits ingest_failure.splits)

interpretation queries: fail_stop read_query "\<lambda>_ e. own_query e = Some True"
  by unfold_locales
    (auto simp: read_query_def store_operation_refuses own_query_def intro: store_operation_closes)

interpretation upkeep: fail_stop maintenance_operation "\<lambda>_ e. own_maintenance e = Some True"
  by unfold_locales
    (auto simp: maintenance_operation_def store_operation_refuses own_maintenance_def intro: store_operation_closes)

interpretation envelope: fail_stop storage_envelope_operation "\<lambda>_ e. own_storage e = Some True"
  by unfold_locales
    (auto simp: storage_envelope_operation_def store_operation_refuses own_storage_def
      intro: store_operation_closes)

interpretation ingesting: fail_stop "store_ingest sha" "\<lambda>_. ingestion_lost" for sha
  by unfold_locales
    (auto simp: store_ingest_def require_open_def prog_then_def prog_bind_def intro: store_ingest_closes)

text \<open>The public operations of a store, without what they return.\<close>

datatype store_request =
    Ask_Samples int "Cursor option" "HealthHistoryStatus option"
  | Ask_Alerts int "Cursor option" "AlertLifecycle option"
  | Ask_Alert int
  | Ask_Events int int "Cursor option"
  | Ask_Resume_State
  | Do_Ingest HealthProjection
  | Do_Cleanup int int
  | Do_Vacuum
  | Ask_Capacity
  | Ask_Free_Space
  | Ask_Wal
  | Do_Checkpoint

definition no_answer :: "'a prog \<Rightarrow> unit prog" where
  "no_answer m = prog_bind m (\<lambda>_. prog_return ())"

fun run_request :: "(bytes \<Rightarrow> bytes) \<Rightarrow> store_request \<Rightarrow> unit prog" where
  "run_request sha (Ask_Samples n cursor status) = no_answer (store_list_health_samples sha n cursor status)"
| "run_request sha (Ask_Alerts n cursor lifecycle) = no_answer (store_list_alerts n cursor lifecycle)"
| "run_request sha (Ask_Alert i) = no_answer (store_get_alert i)"
| "run_request sha (Ask_Events i n cursor) = no_answer (store_list_alert_events i n cursor)"
| "run_request sha Ask_Resume_State = no_answer store_resume_state"
| "run_request sha (Do_Ingest p) = no_answer (store_ingest sha p)"
| "run_request sha (Do_Cleanup now days) = no_answer (store_cleanup_retention sha now days)"
| "run_request sha Do_Vacuum = no_answer store_incremental_vacuum"
| "run_request sha Ask_Capacity = no_answer store_inspect_capacity"
| "run_request sha Ask_Free_Space = no_answer store_inspect_free_space"
| "run_request sha Ask_Wal = no_answer store_inspect_wal"
| "run_request sha Do_Checkpoint = no_answer store_passive_checkpoint"

text \<open>The \<open>trust_lost\<close> flag of an error of the class that a request raises.\<close>

definition lost_trust :: "store_request \<Rightarrow> store_exception \<Rightarrow> bool" where
  "lost_trust request e =
     (case request of
        Do_Ingest _ \<Rightarrow> ingestion_lost e
      | Do_Cleanup _ _ \<Rightarrow> own_maintenance e = Some True
      | Do_Vacuum \<Rightarrow> own_maintenance e = Some True
      | Ask_Capacity \<Rightarrow> own_storage e = Some True
      | Ask_Free_Space \<Rightarrow> own_storage e = Some True
      | Ask_Wal \<Rightarrow> own_storage e = Some True
      | Do_Checkpoint \<Rightarrow> own_storage e = Some True
      | _ \<Rightarrow> own_query e = Some True)"

fun run_requests :: "(bytes \<Rightarrow> bytes) \<Rightarrow> store_request list \<Rightarrow> World \<Rightarrow> (store_exception + unit) list \<times> World" where
  "run_requests sha [] w = ([], w)"
| "run_requests sha (op # ops) w =
     (case run_request sha op w of
        (r, w1) \<Rightarrow> (case run_requests sha ops w1 of (rs, w2) \<Rightarrow> (r # rs, w2)))"

lemma no_answer_raises: "no_answer m w = (Inl e, w1) \<longleftrightarrow> m w = (Inl e, w1)"
  by (auto simp: no_answer_def prog_bind_def prog_return_def split: prod.splits sum.splits)

lemmas store_requests = store_list_health_samples_def store_list_alerts_def store_get_alert_def
  store_list_alert_events_def store_resume_state_def store_cleanup_retention_def
  store_incremental_vacuum_def store_inspect_capacity_def store_inspect_free_space_def
  store_inspect_wal_def store_passive_checkpoint_def

interpretation requests: fail_stop "run_request sha" lost_trust for sha
proof
  fix w :: World and op assume "w_closed w"
  then show "run_request sha op w = (Inl (Store_Error ''store_closed''), w)"
    by (cases op) (simp_all add: no_answer_raises store_requests queries.refuses upkeep.refuses
        envelope.refuses ingesting.refuses)
next
  fix op w e w1 assume "run_request sha op w = (Inl e, w1)" "lost_trust op e"
  then show "w_closed w1"
    by (cases op) (auto simp: no_answer_raises store_requests lost_trust_def
        intro: queries.closes upkeep.closes envelope.closes ingesting.closes)
qed

lemma run_requests_all: "run_requests sha ops w = requests.run_all sha ops w"
  by (induction ops arbitrary: w) (simp_all split: prod.splits)

text \<open>
  C24. A store is fail-stop: once any of its operations has raised an error that says trust in the
  database or its files is lost, every later operation, whatever it is, is refused with
  \<open>store_closed\<close>, without touching the database.
\<close>

theorem lost_trust_is_final:
  "run_request sha op w = (Inl e, w1) \<Longrightarrow> lost_trust op e \<Longrightarrow>
   run_requests sha ops w1 = (replicate (length ops) (Inl (Store_Error ''store_closed'')), w1)"
  unfolding run_requests_all by (rule requests.lost_for_good)

text \<open>A store whose files have been replaced.\<close>

definition replaced_world :: World where
  "replaced_world =
     \<lparr>w_connection = \<lparr>cn_history = new_history, cn_committed = new_history, cn_failures = []\<rparr>,
      w_closed = False, w_clock = (\<lambda>_. 0), w_reads = 0, w_deadline = 0, w_expired = False,
      w_handler = False, w_progress = [], w_pragmas = [], w_wal_files = [], w_disk = [],
      w_runtime_safe = True, w_files_stable = [True, False]\<rparr>"

theorem lost_trust_is_final_witness:
  "\<exists>w1. run_request id Do_Vacuum replaced_world = (Inl (Maintenance_Error MR_TRUST_FAILED True), w1) \<and>
     run_requests id [Ask_Capacity, Ask_Resume_State] w1 =
       ([Inl (Store_Error ''store_closed''), Inl (Store_Error ''store_closed'')], w1)"
proof -
  obtain w1 where "run_request id Do_Vacuum replaced_world = (Inl (Maintenance_Error MR_TRUST_FAILED True), w1)"
    by (simp add: no_answer_raises store_requests maintenance_operation_def store_operation_def
        store_steps check_before_def check_files_def replaced_world_def)
  moreover from this have "run_requests id [Ask_Capacity, Ask_Resume_State] w1 =
      (replicate (length [Ask_Capacity, Ask_Resume_State]) (Inl (Store_Error ''store_closed'')), w1)"
    by (rule lost_trust_is_final) (simp add: lost_trust_def own_maintenance_def)
  ultimately show ?thesis by auto
qed

end
