(* ===== verification/Orchestration.thy ===== *)
theory Orchestration
  imports History_Store
begin

text \<open>
  \<open>health_history/orchestration.py\<close>: one observation cycle and one maintenance opportunity over an open
  store, each a fixed sequence of operations without a retry, and the policy that says when
  maintenance is due. \<open>oc_calls\<close> is a ghost: what the store answered, in order.
\<close>

definition MAINTENANCE_INTERVAL_SECONDS :: seconds where "MAINTENANCE_INTERVAL_SECONDS = 60 * 60"
definition STORED_ROWS_MAINTENANCE_TRIGGER :: int where "STORED_ROWS_MAINTENANCE_TRIGGER = 120"

section \<open>Results and the trigger policy\<close>

datatype OrchestrationOutcome =
    OO_STORED | OO_STATE_ONLY | OO_REPLAYED | OO_CAPACITY_BLOCKED | OO_WAL_OVERSIZE_BLOCKED
  | OO_CHECKPOINT_BUSY | OO_CHECKPOINT_INCOMPLETE | OO_STORAGE_BUSY | OO_TIMED_OUT
  | OO_PERSISTENCE_FAILED | OO_TRUST_FAILED | OO_UNSUPPORTED_RUNTIME | OO_INVALID_OBSERVATION
  | OO_STALE_SEQUENCE | OO_SEQUENCE_CONFLICT | OO_GENERATION_EXHAUSTED | OO_INVALID_CLOCK
  | OO_REENTRANT | OO_MAINTENANCE_COMPLETED

datatype OrchestrationRejection =
    OR_INVALID_TRIGGER_STATE | OR_INVALID_MONOTONIC | OR_REENTRANT

datatype MaintenanceTriggerReason = MT_NONE | MT_STARTUP | MT_HOURLY | MT_STORED_ROWS

text \<open>What may be raised: the sanitised error, a \<open>ValueError\<close>, or what the store raised.\<close>

datatype orchestration_exception =
    Orchestration_Error OrchestrationRejection
  | Orchestration_Value_Error
  | Store_Raised store_exception

record ObservationCycleResult =
  oy_outcome :: OrchestrationOutcome
  oy_maintenance_attempted :: bool

definition observation_outcome :: "OrchestrationOutcome \<Rightarrow> bool" where
  "observation_outcome x \<longleftrightarrow> x \<noteq> OO_MAINTENANCE_COMPLETED"

definition maintenance_outcome :: "OrchestrationOutcome \<Rightarrow> bool" where
  "maintenance_outcome x \<longleftrightarrow>
     x \<in> {OO_MAINTENANCE_COMPLETED, OO_WAL_OVERSIZE_BLOCKED, OO_CHECKPOINT_BUSY, OO_STORAGE_BUSY,
          OO_TIMED_OUT, OO_PERSISTENCE_FAILED, OO_TRUST_FAILED, OO_UNSUPPORTED_RUNTIME,
          OO_INVALID_CLOCK, OO_REENTRANT}"

record MaintenanceTriggerDecision =
  td_due :: bool
  td_reason :: MaintenanceTriggerReason

record MaintenanceTriggerState =
  mt_startup_completed :: bool
  mt_last_completed :: "seconds option"
  mt_stored_rows :: int

definition is_valid_monotonic :: "seconds \<Rightarrow> bool" where
  "is_valid_monotonic t \<longleftrightarrow> 0 \<le> t \<and> t \<le> of_int MAX_TIMESTAMP_US"

definition trigger_state_valid :: "MaintenanceTriggerState \<Rightarrow> bool" where
  "trigger_state_valid s \<longleftrightarrow>
     0 \<le> mt_stored_rows s \<and> mt_stored_rows s \<le> MAX_BOUNDED_COUNTER \<and>
     mt_startup_completed s = (mt_last_completed s \<noteq> None) \<and>
     (case mt_last_completed s of None \<Rightarrow> True | Some t \<Rightarrow> is_valid_monotonic t)"

definition new_trigger_state :: MaintenanceTriggerState where
  "new_trigger_state =
     \<lparr>mt_startup_completed = False, mt_last_completed = None, mt_stored_rows = 0\<rparr>"

text \<open>A reading that is no float, or raised, is \<open>None\<close>.\<close>

definition validated_monotonic :: "seconds option \<Rightarrow> orchestration_exception + seconds" where
  "validated_monotonic reading =
     (case reading of
        Some t \<Rightarrow> if is_valid_monotonic t then Inr t else Inl (Orchestration_Error OR_INVALID_MONOTONIC)
      | None \<Rightarrow> Inl (Orchestration_Error OR_INVALID_MONOTONIC))"

definition trigger_decision ::
  "MaintenanceTriggerState \<Rightarrow> seconds \<Rightarrow> orchestration_exception + MaintenanceTriggerDecision" where
  "trigger_decision s now =
     (if (case mt_last_completed s of None \<Rightarrow> False | Some marker \<Rightarrow> now < marker)
      then Inl (Orchestration_Error OR_INVALID_MONOTONIC)
      else
        let reason =
          (if \<not> mt_startup_completed s then MT_STARTUP
           else if mt_stored_rows s \<ge> STORED_ROWS_MAINTENANCE_TRIGGER then MT_STORED_ROWS
           else case mt_last_completed s of
                  None \<Rightarrow> MT_NONE
                | Some marker \<Rightarrow>
                    if now - marker \<ge> MAINTENANCE_INTERVAL_SECONDS then MT_HOURLY else MT_NONE)
        in Inr \<lparr>td_due = (reason \<noteq> MT_NONE), td_reason = reason\<rparr>)"

definition after_observation ::
  "MaintenanceTriggerState \<Rightarrow> ObservationCycleResult \<Rightarrow> MaintenanceTriggerState" where
  "after_observation s result =
     (if oy_outcome result \<noteq> OO_STORED then s
      else s\<lparr>mt_stored_rows := min (mt_stored_rows s + 1) MAX_BOUNDED_COUNTER\<rparr>)"

definition after_maintenance ::
  "MaintenanceTriggerState \<Rightarrow> OrchestrationOutcome \<Rightarrow> seconds \<Rightarrow> seconds
    \<Rightarrow> orchestration_exception + MaintenanceTriggerState" where
  "after_maintenance s outcome started completed =
     (if outcome \<noteq> OO_MAINTENANCE_COMPLETED then Inr s
      else if completed < started \<or>
              (case mt_last_completed s of None \<Rightarrow> False
               | Some marker \<Rightarrow> started < marker \<or> completed < marker)
      then Inl (Orchestration_Error OR_INVALID_MONOTONIC)
      else Inr \<lparr>mt_startup_completed = True, mt_last_completed = Some completed, mt_stored_rows = 0\<rparr>)"

section \<open>The orchestrator\<close>

datatype store_call =
    Capacity_Read "store_exception + StorageCapacityResult"
  | Free_Space_Read "store_exception + FreeSpaceResult"
  | Wal_Read "store_exception + WalInspectionResult"
  | Checkpoint_Run "store_exception + PassiveCheckpointResult"
  | Cleanup_Run "store_exception + RetentionCleanupResult"
  | Vacuum_Run "store_exception + IncrementalVacuumResult"
  | Ingest_Run HealthProjection "store_exception + IngestionOutcome"

record Orchestrator =
  oc_store :: World
  oc_retention_days :: int
  oc_trigger :: MaintenanceTriggerState
  oc_busy :: bool
  oc_monotonic :: "seconds option list"
  oc_utc :: "int option list"
  oc_calls :: "store_call list"

type_synonym 'a orch = "(Orchestrator, orchestration_exception, 'a) action"

definition new_orchestrator ::
  "World \<Rightarrow> int \<Rightarrow> seconds option list \<Rightarrow> int option list \<Rightarrow> Orchestrator option" where
  "new_orchestrator store retention_days monotonic utc =
     (if MIN_RETENTION_DAYS \<le> retention_days \<and> retention_days \<le> MAX_RETENTION_DAYS
      then Some \<lparr>oc_store = store, oc_retention_days = retention_days,
                 oc_trigger = new_trigger_state, oc_busy = False, oc_monotonic = monotonic,
                 oc_utc = utc, oc_calls = []\<rparr>
      else None)"

definition on_store :: "(store_exception + 'a \<Rightarrow> store_call) \<Rightarrow> 'a prog \<Rightarrow> 'a orch" where
  "on_store call operation o1 =
     (case operation (oc_store o1) of
        (r, w1) \<Rightarrow>
          (map_sum Store_Raised id r, o1\<lparr>oc_store := w1, oc_calls := oc_calls o1 @ [call r]\<rparr>))"

definition read_monotonic :: "seconds orch" where
  "read_monotonic o1 =
     (validated_monotonic (case oc_monotonic o1 of [] \<Rightarrow> None | r # _ \<Rightarrow> r),
      o1\<lparr>oc_monotonic := tl (oc_monotonic o1)\<rparr>)"

definition read_utc_now_us :: "int orch" where
  "read_utc_now_us o1 =
     (case oc_utc o1 of
        Some t # _ \<Rightarrow> if between 0 MAX_TIMESTAMP_US t then Inr t
                      else Inl (Orchestration_Error OR_INVALID_TRIGGER_STATE)
      | _ \<Rightarrow> Inl (Orchestration_Error OR_INVALID_TRIGGER_STATE),
      o1\<lparr>oc_utc := tl (oc_utc o1)\<rparr>)"

definition cycle_result :: "OrchestrationOutcome \<Rightarrow> bool \<Rightarrow> ObservationCycleResult orch" where
  "cycle_result outcome attempted =
     (if observation_outcome outcome
      then prog_return \<lparr>oy_outcome = outcome, oy_maintenance_attempted = attempted\<rparr>
      else prog_raise Orchestration_Value_Error)"

definition maintenance_result :: "OrchestrationOutcome \<Rightarrow> OrchestrationOutcome orch" where
  "maintenance_result outcome =
     (if maintenance_outcome outcome then prog_return outcome
      else prog_raise Orchestration_Value_Error)"

section \<open>Errors of the store as outcomes\<close>

definition storage_error_outcome :: "StorageEnvelopeRejection \<Rightarrow> bool \<Rightarrow> bool \<Rightarrow> OrchestrationOutcome" where
  "storage_error_outcome reason trust_lost checkpoint =
     (if trust_lost \<or> reason \<in> {SR_MALFORMED_STATE, SR_TRUST_FAILED} then OO_TRUST_FAILED
      else if reason = SR_UNSUPPORTED_RUNTIME then OO_UNSUPPORTED_RUNTIME
      else if reason = SR_STORAGE_BUSY
      then if checkpoint then OO_CHECKPOINT_BUSY else OO_STORAGE_BUSY
      else if reason = SR_TIMED_OUT then OO_TIMED_OUT
      else OO_PERSISTENCE_FAILED)"

definition maintenance_error_outcome :: "MaintenanceRejection \<Rightarrow> bool \<Rightarrow> OrchestrationOutcome" where
  "maintenance_error_outcome reason trust_lost =
     (if trust_lost \<or> reason \<in> {MR_MALFORMED_STATE, MR_TRUST_FAILED} then OO_TRUST_FAILED
      else if reason = MR_STORAGE_BUSY then OO_STORAGE_BUSY
      else if reason = MR_TIMED_OUT then OO_TIMED_OUT
      else OO_PERSISTENCE_FAILED)"

fun ingestion_rejection_outcome :: "IngestionRejection \<Rightarrow> OrchestrationOutcome" where
  "ingestion_rejection_outcome IR_INVALID_PROJECTION = OO_INVALID_OBSERVATION"
| "ingestion_rejection_outcome IR_STALE_SEQUENCE = OO_STALE_SEQUENCE"
| "ingestion_rejection_outcome IR_SEQUENCE_CONFLICT = OO_SEQUENCE_CONFLICT"
| "ingestion_rejection_outcome IR_GENERATION_EXHAUSTED = OO_GENERATION_EXHAUSTED"
| "ingestion_rejection_outcome IR_STORAGE_BUSY = OO_STORAGE_BUSY"
| "ingestion_rejection_outcome IR_PERSISTENCE_FAILED = OO_PERSISTENCE_FAILED"
| "ingestion_rejection_outcome _ = OO_TRUST_FAILED"

definition ingestion_error_outcome :: "IngestionRejection \<Rightarrow> bool \<Rightarrow> OrchestrationOutcome" where
  "ingestion_error_outcome reason trust_lost =
     (if trust_lost then OO_TRUST_FAILED else ingestion_rejection_outcome reason)"

fun ingestion_outcome_value :: "IngestionOutcome \<Rightarrow> OrchestrationOutcome" where
  "ingestion_outcome_value IO_REPLAYED = OO_REPLAYED"
| "ingestion_outcome_value IO_STATE_ONLY = OO_STATE_ONLY"
| "ingestion_outcome_value _ = OO_STORED"

text \<open>
  \<open>try: m except StorageEnvelopeError \<dots> except StoreError \<dots>\<close> (and for the other two classes of
  errors): the outcome the error stands for, or the exception.
\<close>

definition envelope_outcome :: "bool \<Rightarrow> store_exception \<Rightarrow> OrchestrationOutcome option" where
  "envelope_outcome checkpoint e =
     (case e of
        Storage_Error reason trust_lost \<Rightarrow> Some (storage_error_outcome reason trust_lost checkpoint)
      | Store_Error _ \<Rightarrow> Some OO_TRUST_FAILED
      | _ \<Rightarrow> None)"

definition retention_outcome :: "store_exception \<Rightarrow> OrchestrationOutcome option" where
  "retention_outcome e =
     (case e of
        Maintenance_Error reason trust_lost \<Rightarrow> Some (maintenance_error_outcome reason trust_lost)
      | Store_Error _ \<Rightarrow> Some OO_TRUST_FAILED
      | _ \<Rightarrow> None)"

definition ingest_outcome :: "store_exception \<Rightarrow> OrchestrationOutcome option" where
  "ingest_outcome e =
     (case e of
        Database_Error (Ingestion_Error reason trust_lost) \<Rightarrow>
          Some (ingestion_error_outcome reason trust_lost)
      | Store_Error _ \<Rightarrow> Some OO_TRUST_FAILED
      | _ \<Rightarrow> None)"

definition inspection_outcome :: "store_exception \<Rightarrow> OrchestrationOutcome option" where
  "inspection_outcome e =
     (case e of
        Database_Error Type_Or_Value_Error \<Rightarrow> Some OO_TRUST_FAILED
      | _ \<Rightarrow> envelope_outcome False e)"

definition catching ::
  "(store_exception \<Rightarrow> OrchestrationOutcome option) \<Rightarrow> 'a orch \<Rightarrow> (OrchestrationOutcome + 'a) orch" where
  "catching outcome m =
     prog_handle (prog_bind m (\<lambda>x. prog_return (Inr x))) (\<lambda>e.
       case e of
         Store_Raised s \<Rightarrow>
           (case outcome s of None \<Rightarrow> prog_raise e | Some v \<Rightarrow> prog_return (Inl v))
       | _ \<Rightarrow> prog_raise e)"

section \<open>One observation cycle\<close>

definition inspect_storage :: "bool \<Rightarrow> (OrchestrationOutcome + StorageDecisionOutcome) orch" where
  "inspect_storage attempted =
     catching inspection_outcome (
     prog_bind (on_store Capacity_Read store_inspect_capacity) (\<lambda>capacity.
     prog_bind (on_store Free_Space_Read store_inspect_free_space) (\<lambda>free_space.
     prog_bind (on_store Wal_Read store_inspect_wal) (\<lambda>wal.
     prog_return (dr_outcome (decide_storage_action capacity free_space wal attempted))))))"

text \<open>The result of the checkpoint before ingestion that blocks it, if any.\<close>

definition checkpoint_before_ingestion :: "OrchestrationOutcome option orch" where
  "checkpoint_before_ingestion =
     prog_bind (catching (envelope_outcome True) (on_store Checkpoint_Run store_passive_checkpoint))
       (\<lambda>r. prog_return
          (case r of
             Inl v \<Rightarrow> Some v
           | Inr checkpoint \<Rightarrow>
               if pc_outcome checkpoint = PC_BUSY then Some OO_CHECKPOINT_BUSY
               else if pc_outcome checkpoint = PC_OVERSIZE_BLOCKED then Some OO_WAL_OVERSIZE_BLOCKED
               else None))"

definition ingest_once ::
  "(bytes \<Rightarrow> bytes) \<Rightarrow> HealthProjection \<Rightarrow> bool \<Rightarrow> ObservationCycleResult orch" where
  "ingest_once sha p attempted =
     prog_bind (catching ingest_outcome (on_store (Ingest_Run p) (store_ingest sha p))) (\<lambda>r.
     case r of
       Inl v \<Rightarrow> cycle_result v attempted
     | Inr outcome \<Rightarrow> cycle_result (ingestion_outcome_value outcome) attempted)"

definition finish_observation_decision ::
  "(bytes \<Rightarrow> bytes) \<Rightarrow> HealthProjection \<Rightarrow> StorageDecisionOutcome \<Rightarrow> bool \<Rightarrow> ObservationCycleResult orch"
  where
  "finish_observation_decision sha p dec attempted =
     (if dec \<in> {SD_CAPACITY_BLOCKED, SD_CAPACITY_MAINTENANCE_REQUIRED}
      then cycle_result OO_CAPACITY_BLOCKED attempted
      else if dec = SD_WAL_OVERSIZE_BLOCKED then cycle_result OO_WAL_OVERSIZE_BLOCKED attempted
      else if dec = SD_WAL_CHECKPOINT_DUE
      then prog_bind checkpoint_before_ingestion (\<lambda>blocked.
           case blocked of
             Some v \<Rightarrow> cycle_result v True
           | None \<Rightarrow>
               prog_bind (inspect_storage attempted) (\<lambda>again.
               case again of
                 Inl v \<Rightarrow> cycle_result v True
               | Inr d \<Rightarrow>
                   if d = SD_WAL_CHECKPOINT_DUE then cycle_result OO_CHECKPOINT_INCOMPLETE True
                   else if d \<in> {SD_CAPACITY_BLOCKED, SD_CAPACITY_MAINTENANCE_REQUIRED}
                   then cycle_result OO_CAPACITY_BLOCKED True
                   else if d = SD_WAL_OVERSIZE_BLOCKED
                   then cycle_result OO_WAL_OVERSIZE_BLOCKED True
                   else ingest_once sha p True))
      else ingest_once sha p attempted)"

definition cleanup_and_vacuum :: "(bytes \<Rightarrow> bytes) \<Rightarrow> int \<Rightarrow> (OrchestrationOutcome + unit) orch" where
  "cleanup_and_vacuum sha now =
     catching retention_outcome (\<lambda>o1.
       prog_bind (on_store Cleanup_Run (store_cleanup_retention sha now (oc_retention_days o1))) (\<lambda>_.
       prog_bind (on_store Vacuum_Run store_incremental_vacuum) (\<lambda>_. prog_return ())) o1)"

text \<open>A reading of the wall clock, or \<open>None\<close> for an \<open>OrchestrationError\<close>.\<close>

definition try_orchestration :: "'a orch \<Rightarrow> 'a option orch" where
  "try_orchestration m =
     prog_handle (prog_bind m (\<lambda>x. prog_return (Some x))) (\<lambda>e.
       case e of Orchestration_Error _ \<Rightarrow> prog_return None | _ \<Rightarrow> prog_raise e)"

definition run_cycle :: "(bytes \<Rightarrow> bytes) \<Rightarrow> HealthProjection \<Rightarrow> ObservationCycleResult orch" where
  "run_cycle sha p =
     prog_bind (inspect_storage False) (\<lambda>first.
     case first of
       Inl v \<Rightarrow> cycle_result v False
     | Inr dec \<Rightarrow>
         if dec = SD_WAL_OVERSIZE_BLOCKED then cycle_result OO_WAL_OVERSIZE_BLOCKED False
         else if dec = SD_CAPACITY_MAINTENANCE_REQUIRED
         then prog_bind (try_orchestration read_utc_now_us) (\<lambda>now.
              case now of
                None \<Rightarrow> cycle_result OO_INVALID_CLOCK False
              | Some t \<Rightarrow>
                  prog_bind (cleanup_and_vacuum sha t) (\<lambda>r.
                  case r of
                    Inl v \<Rightarrow> cycle_result v True
                  | Inr _ \<Rightarrow>
                      prog_bind (inspect_storage True) (\<lambda>second.
                      case second of
                        Inl v \<Rightarrow> cycle_result v True
                      | Inr d \<Rightarrow> finish_observation_decision sha p d True)))
         else finish_observation_decision sha p dec False)"

text \<open>The cycle guard: taken without waiting, given back on every way out.\<close>

definition guarded :: "'a \<Rightarrow> 'a orch \<Rightarrow> 'a orch" where
  "guarded reentrant m o1 =
     (if oc_busy o1 then (Inr reentrant, o1)
      else prog_finally m (\<lambda>o2. (Inr (), o2\<lparr>oc_busy := False\<rparr>)) (o1\<lparr>oc_busy := True\<rparr>))"

definition process_observation :: "(bytes \<Rightarrow> bytes) \<Rightarrow> HealthProjection \<Rightarrow> ObservationCycleResult orch" where
  "process_observation sha p =
     guarded \<lparr>oy_outcome = OO_REENTRANT, oy_maintenance_attempted = False\<rparr>
       (prog_bind (run_cycle sha p) (\<lambda>result o1.
          (Inr result, o1\<lparr>oc_trigger := after_observation (oc_trigger o1) result\<rparr>)))"

definition maintenance_trigger :: "MaintenanceTriggerDecision orch" where
  "maintenance_trigger o1 =
     (if oc_busy o1 then (Inl (Orchestration_Error OR_REENTRANT), o1)
      else prog_finally
             (prog_bind read_monotonic (\<lambda>now o2. (trigger_decision (oc_trigger o2) now, o2)))
             (\<lambda>o2. (Inr (), o2\<lparr>oc_busy := False\<rparr>)) (o1\<lparr>oc_busy := True\<rparr>))"

section \<open>One maintenance opportunity\<close>

definition run_maintenance :: "(bytes \<Rightarrow> bytes) \<Rightarrow> OrchestrationOutcome orch" where
  "run_maintenance sha =
     prog_bind (try_orchestration read_utc_now_us) (\<lambda>now.
     case now of
       None \<Rightarrow> maintenance_result OO_INVALID_CLOCK
     | Some t \<Rightarrow>
         prog_bind (cleanup_and_vacuum sha t) (\<lambda>r.
         case r of
           Inl v \<Rightarrow> maintenance_result v
         | Inr _ \<Rightarrow>
             prog_bind (catching (envelope_outcome False) (on_store Wal_Read store_inspect_wal)) (\<lambda>r.
             case r of
               Inl v \<Rightarrow> maintenance_result v
             | Inr wal \<Rightarrow>
                 if wi_oversize wal then maintenance_result OO_WAL_OVERSIZE_BLOCKED
                 else if wi_checkpoint_due wal
                 then prog_bind checkpoint_before_ingestion (\<lambda>blocked.
                      maintenance_result
                        (case blocked of Some v \<Rightarrow> v | None \<Rightarrow> OO_MAINTENANCE_COMPLETED))
                 else maintenance_result OO_MAINTENANCE_COMPLETED)))"

definition complete_maintenance :: "seconds \<Rightarrow> OrchestrationOutcome \<Rightarrow> OrchestrationOutcome orch" where
  "complete_maintenance started outcome =
     (if outcome \<noteq> OO_MAINTENANCE_COMPLETED then prog_return outcome
      else prog_bind
        (try_orchestration (prog_bind read_monotonic (\<lambda>completed o1.
           case after_maintenance (oc_trigger o1) outcome started completed of
             Inl e \<Rightarrow> (Inl e, o1)
           | Inr s \<Rightarrow> (Inr (), o1\<lparr>oc_trigger := s\<rparr>))))
        (\<lambda>done1. case done1 of
           None \<Rightarrow> maintenance_result OO_INVALID_CLOCK
         | Some _ \<Rightarrow> prog_return outcome))"

definition run_maintenance_opportunity :: "(bytes \<Rightarrow> bytes) \<Rightarrow> OrchestrationOutcome orch" where
  "run_maintenance_opportunity sha =
     guarded OO_REENTRANT
       (prog_bind (try_orchestration read_monotonic) (\<lambda>started.
        case started of
          None \<Rightarrow> maintenance_result OO_INVALID_CLOCK
        | Some s \<Rightarrow> (\<lambda>o1.
            if (case mt_last_completed (oc_trigger o1) of None \<Rightarrow> False | Some marker \<Rightarrow> s < marker)
            then maintenance_result OO_INVALID_CLOCK o1
            else prog_bind (run_maintenance sha) (complete_maintenance s) o1)))"

end
