(* ===== verification/Orchestration_Correct.thy ===== *)
theory Orchestration_Correct
  imports Orchestration
begin

text \<open>
  What one observation cycle asks of the store. The rules relate what a step returns to the calls it
  made; a cycle ingests at most once, as its last call, right after an inspection that allowed it, and
  what it reports of the ingestion is what the store answered.
\<close>

section \<open>Steps and their calls\<close>

definition calling :: "'a orch \<Rightarrow> (orchestration_exception + 'a \<Rightarrow> store_call list \<Rightarrow> bool) \<Rightarrow> bool" where
  "calling m R \<longleftrightarrow>
     (\<forall>o1 r o2. m o1 = (r, o2) \<longrightarrow> (\<exists>calls. oc_calls o2 = oc_calls o1 @ calls \<and> R r calls))"

lemma callingD:
  assumes "calling m R" "m o1 = (r, o2)"
  obtains calls where "oc_calls o2 = oc_calls o1 @ calls" "R r calls"
  using assms unfolding calling_def by blast

lemma calling_conseq: "calling m R \<Longrightarrow> (\<And>r calls. R r calls \<Longrightarrow> S r calls) \<Longrightarrow> calling m S"
  unfolding calling_def by blast

lemma calling_bind:
  assumes "calling m R" "\<And>x. calling (k x) (S x)"
    and "\<And>e calls. R (Inl e) calls \<Longrightarrow> T (Inl e) calls"
    and "\<And>x r calls rest. R (Inr x) calls \<Longrightarrow> S x r rest \<Longrightarrow> T r (calls @ rest)"
  shows "calling (prog_bind m k) T"
  unfolding calling_def
proof (intro allI impI)
  fix o1 r o3 assume run: "prog_bind m k o1 = (r, o3)"
  obtain s o2 where m: "m o1 = (s, o2)" by (cases "m o1")
  from assms(1) m obtain calls where calls: "oc_calls o2 = oc_calls o1 @ calls" "R s calls" by (rule callingD)
  show "\<exists>calls. oc_calls o3 = oc_calls o1 @ calls \<and> T r calls"
  proof (cases s)
    case (Inl e)
    then show ?thesis using run m calls assms(3) by (auto simp: prog_bind_def)
  next
    case (Inr x)
    then have "k x o2 = (r, o3)" using run m by (simp add: prog_bind_def)
    with assms(2) obtain rest where "oc_calls o3 = oc_calls o2 @ rest" "S x r rest" by (rule callingD)
    then show ?thesis using calls assms(4) Inr by auto
  qed
qed

text \<open>A step that calls nothing.\<close>

definition silent :: "'a orch \<Rightarrow> bool" where
  "silent m \<longleftrightarrow> calling m (\<lambda>r calls. calls = [])"

lemma silent_return: "silent (prog_return x)"
  by (simp add: silent_def calling_def prog_return_def)

lemma silent_raise: "silent (prog_raise e)"
  by (simp add: silent_def calling_def prog_raise_def)

lemma calling_cycle_result:
  "calling (cycle_result v b) (\<lambda>r calls. calls = [] \<and> (\<forall>x. r = Inr x \<longrightarrow> oy_outcome x = v))"
  by (simp add: cycle_result_def calling_def prog_return_def prog_raise_def)

lemma calling_on_store:
  "calling (on_store call operation) (\<lambda>r calls. \<exists>s. calls = [call s] \<and> (\<forall>x. r = Inr x \<longrightarrow> s = Inr x))"
  by (auto simp: calling_def on_store_def map_sum_def split: prod.splits sum.splits)

lemma calling_handle:
  assumes "calling m R" "\<And>e. silent (h e)"
    and "\<And>e calls r. R (Inl e) calls \<Longrightarrow> T r calls" "\<And>x calls. R (Inr x) calls \<Longrightarrow> T (Inr x) calls"
  shows "calling (prog_handle m h) T"
  unfolding calling_def
proof (intro allI impI)
  fix o1 r o3 assume run: "prog_handle m h o1 = (r, o3)"
  obtain s o2 where m: "m o1 = (s, o2)" by (cases "m o1")
  from assms(1) m obtain calls where calls: "oc_calls o2 = oc_calls o1 @ calls" "R s calls" by (rule callingD)
  show "\<exists>calls. oc_calls o3 = oc_calls o1 @ calls \<and> T r calls"
  proof (cases s)
    case (Inl e)
    then have "h e o2 = (r, o3)" using run m by (simp add: prog_handle_def)
    then have "oc_calls o3 = oc_calls o2" using assms(2)[of e] by (auto simp: silent_def calling_def)
    then show ?thesis using calls assms(3) Inl by auto
  next
    case (Inr x)
    then show ?thesis using run m calls assms(4) by (auto simp: prog_handle_def)
  qed
qed

text \<open>\<open>catching\<close> keeps the calls, and what it returns as a value is what the step returned.\<close>

lemma calling_catching:
  assumes "calling m R" "\<And>e calls r. R (Inl e) calls \<Longrightarrow> \<forall>x. r \<noteq> Inr (Inr x) \<Longrightarrow>
      (\<forall>v. r = Inr (Inl v) \<longrightarrow> (\<exists>s. outcome s = Some v)) \<Longrightarrow> T r calls"
    and "\<And>x calls. R (Inr x) calls \<Longrightarrow> T (Inr (Inr x)) calls"
  shows "calling (catching outcome m) T"
  unfolding calling_def
proof (intro allI impI)
  fix o1 r o2 assume run: "catching outcome m o1 = (r, o2)"
  obtain s o3 where m: "m o1 = (s, o3)" by (cases "m o1")
  from assms(1) m obtain calls where calls: "oc_calls o3 = oc_calls o1 @ calls" "R s calls" by (rule callingD)
  show "\<exists>calls. oc_calls o2 = oc_calls o1 @ calls \<and> T r calls"
  proof (cases s)
    case (Inl e)
    then have "o2 = o3 \<and> (\<forall>x. r \<noteq> Inr (Inr x)) \<and> (\<forall>v. r = Inr (Inl v) \<longrightarrow> (\<exists>s. outcome s = Some v))" using run m
      by (auto simp: catching_def prog_handle_def prog_bind_def prog_return_def prog_raise_def
          split: orchestration_exception.splits option.splits)
    then show ?thesis using calls assms(2) Inl by auto
  next
    case (Inr x)
    then show ?thesis using run m calls assms(3)
      by (auto simp: catching_def prog_handle_def prog_bind_def prog_return_def)
  qed
qed

section \<open>The calls of one cycle\<close>

fun is_ingest :: "store_call \<Rightarrow> bool" where
  "is_ingest (Ingest_Run _ _) = True"
| "is_ingest _ = False"

fun changes_store :: "store_call \<Rightarrow> bool" where
  "changes_store (Checkpoint_Run _) = True"
| "changes_store (Cleanup_Run _) = True"
| "changes_store (Vacuum_Run _) = True"
| "changes_store (Ingest_Run _ _) = True"
| "changes_store _ = False"

definition accepting :: "OrchestrationOutcome \<Rightarrow> bool" where
  "accepting v \<longleftrightarrow> v \<in> {OO_STORED, OO_STATE_ONLY, OO_REPLAYED}"

lemma error_outcomes_refuse:
  "\<not> accepting (storage_error_outcome a b c)" "\<not> accepting (maintenance_error_outcome m b)"
  "\<not> accepting (ingestion_error_outcome i b)"
  by (cases i; simp add: accepting_def storage_error_outcome_def maintenance_error_outcome_def
      ingestion_error_outcome_def)+

lemma not_accepting [simp]:
  "\<not> accepting OO_TRUST_FAILED" "\<not> accepting OO_CHECKPOINT_BUSY" "\<not> accepting OO_WAL_OVERSIZE_BLOCKED"
  "\<not> accepting OO_CAPACITY_BLOCKED" "\<not> accepting OO_CHECKPOINT_INCOMPLETE" "\<not> accepting OO_INVALID_CLOCK"
  "\<not> accepting OO_REENTRANT"
  by (simp_all add: accepting_def)

lemma refusals:
  "envelope_outcome b s = Some v \<Longrightarrow> \<not> accepting v"
  "inspection_outcome s = Some v \<Longrightarrow> \<not> accepting v"
  "retention_outcome s = Some v \<Longrightarrow> \<not> accepting v"
  "ingest_outcome s = Some v \<Longrightarrow> \<not> accepting v"
  using error_outcomes_refuse
  by (auto simp: envelope_outcome_def inspection_outcome_def retention_outcome_def ingest_outcome_def
      split: store_exception.splits ingest_failure.splits)

text \<open>An inspection that read everything, and its decision.\<close>

definition inspected :: "bool \<Rightarrow> StorageDecisionOutcome \<Rightarrow> store_call list \<Rightarrow> bool" where
  "inspected attempted d calls \<longleftrightarrow>
     (\<exists>c f w. calls = [Capacity_Read (Inr c), Free_Space_Read (Inr f), Wal_Read (Inr w)] \<and>
        d = dr_outcome (decide_storage_action c f w attempted))"

lemma calling_inspect:
  "calling (inspect_storage a)
     (\<lambda>r calls. list_all (\<lambda>c. \<not> changes_store c) calls \<and> (\<forall>d. r = Inr (Inr d) \<longrightarrow> inspected a d calls) \<and>
        (\<forall>v. r = Inr (Inl v) \<longrightarrow> \<not> accepting v))"
proof -
  let ?third = "\<lambda>c f. prog_bind (on_store Wal_Read store_inspect_wal) (\<lambda>wal.
     prog_return (dr_outcome (decide_storage_action c f wal a)))"
  let ?second = "\<lambda>c. prog_bind (on_store Free_Space_Read store_inspect_free_space) (?third c)"
  have return: "calling (prog_return x) (\<lambda>r calls. calls = [] \<and> r = Inr x)" for x
    by (simp add: calling_def prog_return_def)
  have third: "calling (?third c f) (\<lambda>r calls. (\<exists>w. calls = [Wal_Read w]) \<and>
      (\<forall>d. r = Inr d \<longrightarrow> (\<exists>w. calls = [Wal_Read (Inr w)] \<and> d = dr_outcome (decide_storage_action c f w a))))" for c f
    by (rule calling_bind[OF calling_on_store return]) auto
  have second: "calling (?second c) (\<lambda>r calls. list_all (\<lambda>c. \<not> changes_store c) calls \<and>
      (\<forall>d. r = Inr d \<longrightarrow> (\<exists>f w. calls = [Free_Space_Read (Inr f), Wal_Read (Inr w)] \<and>
         d = dr_outcome (decide_storage_action c f w a))))" for c
    by (rule calling_bind[OF calling_on_store third]) auto
  have first: "calling (prog_bind (on_store Capacity_Read store_inspect_capacity) ?second)
    (\<lambda>r calls. list_all (\<lambda>c. \<not> changes_store c) calls \<and> (\<forall>d. r = Inr d \<longrightarrow> inspected a d calls))"
    by (rule calling_bind[OF calling_on_store second]) (auto simp: inspected_def)
  show ?thesis
    unfolding inspect_storage_def by (rule calling_catching[OF first]) (auto dest: refusals)
qed

text \<open>
  The calls of a cycle: none ingests, or the last one does, right after an inspection that lets a write
  proceed; and then what the cycle reports as accepted is what the store answered.
\<close>

definition permitted :: "HealthProjection \<Rightarrow> orchestration_exception + ObservationCycleResult \<Rightarrow> store_call list \<Rightarrow> bool" where
  "permitted p r calls \<longleftrightarrow>
     list_all (\<lambda>c. \<not> is_ingest c) calls \<and> (\<forall>x. r = Inr x \<longrightarrow> \<not> accepting (oy_outcome x)) \<or>
     (\<exists>before inspection a answer. calls = before @ inspection @ [Ingest_Run p answer] \<and>
        list_all (\<lambda>c. \<not> is_ingest c) before \<and> inspected a SD_PROCEED inspection \<and>
        (\<forall>x. r = Inr x \<longrightarrow> (accepting (oy_outcome x) \<longrightarrow>
           (\<exists>v. answer = Inr v \<and> ingestion_outcome_value v = oy_outcome x))))"

lemma not_ingest: "\<not> changes_store c \<Longrightarrow> \<not> is_ingest c"
  by (cases c) simp_all

lemma inspection_silent: "list_all (\<lambda>c. \<not> changes_store c) calls \<Longrightarrow> list_all (\<lambda>c. \<not> is_ingest c) calls"
  by (auto simp: list_all_iff not_ingest)

lemma permitted_blocked:
  "list_all (\<lambda>c. \<not> is_ingest c) calls \<Longrightarrow> (\<forall>x. r = Inr x \<longrightarrow> \<not> accepting (oy_outcome x)) \<Longrightarrow> permitted p r calls"
  by (simp add: permitted_def)

lemma permitted_prepend:
  assumes "list_all (\<lambda>c. \<not> is_ingest c) calls" "permitted p r later"
  shows "permitted p r (calls @ later)"
  using assms(2)[unfolded permitted_def]
proof
  assume "list_all (\<lambda>c. \<not> is_ingest c) later \<and> (\<forall>x. r = Inr x \<longrightarrow> \<not> accepting (oy_outcome x))"
  then show ?thesis using assms(1) by (intro permitted_blocked) auto
next
  assume "\<exists>before inspection a answer. later = before @ inspection @ [Ingest_Run p answer] \<and>
        list_all (\<lambda>c. \<not> is_ingest c) before \<and> inspected a SD_PROCEED inspection \<and>
        (\<forall>x. r = Inr x \<longrightarrow> (accepting (oy_outcome x) \<longrightarrow>
           (\<exists>v. answer = Inr v \<and> ingestion_outcome_value v = oy_outcome x)))"
  then obtain before inspection a answer where later: "later = before @ inspection @ [Ingest_Run p answer]"
    "list_all (\<lambda>c. \<not> is_ingest c) before" "inspected a SD_PROCEED inspection"
    "\<forall>x. r = Inr x \<longrightarrow> accepting (oy_outcome x) \<longrightarrow>
           (\<exists>v. answer = Inr v \<and> ingestion_outcome_value v = oy_outcome x)" by blast
  have "calls @ later = (calls @ before) @ inspection @ [Ingest_Run p answer]" using later(1) by simp
  moreover have "list_all (\<lambda>c. \<not> is_ingest c) (calls @ before)" using assms(1) later(2) by simp
  ultimately show ?thesis using later(3,4) unfolding permitted_def by blast
qed

lemma calling_checkpoint:
  "calling checkpoint_before_ingestion
     (\<lambda>r calls. list_all (\<lambda>c. \<not> is_ingest c) calls \<and> (\<forall>v. r = Inr (Some v) \<longrightarrow> \<not> accepting v))"
proof -
  have "calling (catching (envelope_outcome True) (on_store Checkpoint_Run store_passive_checkpoint))
    (\<lambda>r calls. list_all (\<lambda>c. \<not> is_ingest c) calls \<and> (\<forall>v. r = Inr (Inl v) \<longrightarrow> \<not> accepting v))"
    by (rule calling_catching[OF calling_on_store]) (auto dest: refusals)
  then show ?thesis
    unfolding checkpoint_before_ingestion_def
    by (rule calling_bind[where S = "\<lambda>y r calls. calls = [] \<and> r = Inr
        (case y of Inl v \<Rightarrow> Some v
           | Inr checkpoint \<Rightarrow>
               if pc_outcome checkpoint = PC_BUSY then Some OO_CHECKPOINT_BUSY
               else if pc_outcome checkpoint = PC_OVERSIZE_BLOCKED then Some OO_WAL_OVERSIZE_BLOCKED
               else None)"])
      (auto simp: calling_def prog_return_def split: sum.splits if_splits)
qed

lemma calling_ingest_once:
  "calling (ingest_once sha p b)
     (\<lambda>r calls. \<exists>answer. calls = [Ingest_Run p answer] \<and> (\<forall>x. r = Inr x \<longrightarrow> accepting (oy_outcome x) \<longrightarrow>
        (\<exists>v. answer = Inr v \<and> ingestion_outcome_value v = oy_outcome x)))"
proof -
  have first: "calling (catching ingest_outcome (on_store (Ingest_Run p) (store_ingest sha p)))
    (\<lambda>r calls. \<exists>answer. calls = [Ingest_Run p answer] \<and> (\<forall>v. r = Inr (Inl v) \<longrightarrow> \<not> accepting v) \<and>
       (\<forall>v. r = Inr (Inr v) \<longrightarrow> answer = Inr v))"
    by (rule calling_catching[OF calling_on_store]) (auto dest: refusals)
  have second: "calling (case y of Inl v \<Rightarrow> cycle_result v b
      | Inr outcome \<Rightarrow> cycle_result (ingestion_outcome_value outcome) b)
    (\<lambda>r calls. calls = [] \<and> (\<forall>x. r = Inr x \<longrightarrow>
       oy_outcome x = (case y of Inl v \<Rightarrow> v | Inr v \<Rightarrow> ingestion_outcome_value v)))" for y
    by (cases y) (simp_all add: calling_cycle_result)
  show ?thesis
    unfolding ingest_once_def
    by (rule calling_bind[OF first second]) (auto split: sum.splits)
qed

lemma calling_refused: "calling (cycle_result v b) (\<lambda>r calls. \<not> accepting v \<longrightarrow> permitted p r calls)"
  by (rule calling_conseq[OF calling_cycle_result]) (auto intro: permitted_blocked)

lemma calling_blocked: "\<not> accepting v \<Longrightarrow> calling (cycle_result v b) (permitted p)"
  by (rule calling_conseq[OF calling_refused]) simp

text \<open>After an inspection whose decision was to proceed.\<close>

definition completes :: "bool \<Rightarrow> StorageDecisionOutcome \<Rightarrow> HealthProjection \<Rightarrow>
    orchestration_exception + ObservationCycleResult \<Rightarrow> store_call list \<Rightarrow> bool" where
  "completes a d p r calls \<longleftrightarrow>
     (\<forall>before. list_all (\<lambda>c. \<not> is_ingest c) before \<longrightarrow> inspected a d before \<longrightarrow> permitted p r (before @ calls))"

lemma completes_if_permitted: "permitted p r calls \<Longrightarrow> completes a d p r calls"
  by (simp add: completes_def permitted_prepend)

lemma calling_ingest_completes: "calling (ingest_once sha p b) (completes a SD_PROCEED p)"
proof (rule calling_conseq[OF calling_ingest_once])
  fix r :: "orchestration_exception + ObservationCycleResult" and calls
  assume "\<exists>answer. calls = [Ingest_Run p answer] \<and> (\<forall>x. r = Inr x \<longrightarrow> accepting (oy_outcome x) \<longrightarrow>
        (\<exists>v. answer = Inr v \<and> ingestion_outcome_value v = oy_outcome x))"
  then obtain answer where answer: "calls = [Ingest_Run p answer]"
    "\<forall>x. r = Inr x \<longrightarrow> accepting (oy_outcome x) \<longrightarrow> (\<exists>v. answer = Inr v \<and> ingestion_outcome_value v = oy_outcome x)"
    by blast
  show "completes a SD_PROCEED p r calls"
    unfolding completes_def
  proof (intro allI impI)
    fix before assume "inspected a SD_PROCEED before"
    then show "permitted p r (before @ calls)"
      unfolding permitted_def using answer by (intro disjI2 exI[of _ "[]"] exI[of _ before]) auto
  qed
qed

lemma calling_again:
  assumes "\<And>d. calling (k d) (completes a d p)" "\<And>v. calling (h v) (\<lambda>r calls. \<not> accepting v \<longrightarrow> permitted p r calls)"
  shows "calling (prog_bind (inspect_storage a) (\<lambda>y. case y of Inl v \<Rightarrow> h v | Inr d \<Rightarrow> k d)) (permitted p)"
proof (rule calling_bind[OF calling_inspect, where S = "\<lambda>y r calls. case y of
    Inl v \<Rightarrow> \<not> accepting v \<longrightarrow> permitted p r calls | Inr d \<Rightarrow> completes a d p r calls"])
  show "calling (case y of Inl v \<Rightarrow> h v | Inr d \<Rightarrow> k d) (\<lambda>r calls. case y of
    Inl v \<Rightarrow> \<not> accepting v \<longrightarrow> permitted p r calls | Inr d \<Rightarrow> completes a d p r calls)" for y
    using assms by (cases y) (auto intro: calling_conseq)
qed (auto simp: completes_def permitted_blocked inspection_silent intro: permitted_prepend split: sum.splits)

lemma calling_completes: "calling m (permitted p) \<Longrightarrow> calling m (completes a d p)"
  by (erule calling_conseq) (rule completes_if_permitted)

lemma calling_optional:
  assumes "calling m (\<lambda>r calls. list_all (\<lambda>c. \<not> is_ingest c) calls)" "\<And>x. calling (k x) (permitted p)"
  shows "calling (prog_bind m k) (permitted p)"
  by (rule calling_bind[OF assms]) (auto intro: permitted_prepend permitted_blocked)

lemma calling_finish:
  "calling (finish_observation_decision sha p d a) (completes a d p)"
proof (cases d)
  case SD_PROCEED
  then show ?thesis by (simp add: finish_observation_decision_def calling_ingest_completes)
next
  case SD_WAL_CHECKPOINT_DUE
  let ?decided = "\<lambda>d. if d = SD_WAL_CHECKPOINT_DUE then cycle_result OO_CHECKPOINT_INCOMPLETE True
                   else if d \<in> {SD_CAPACITY_BLOCKED, SD_CAPACITY_MAINTENANCE_REQUIRED}
                   then cycle_result OO_CAPACITY_BLOCKED True
                   else if d = SD_WAL_OVERSIZE_BLOCKED
                   then cycle_result OO_WAL_OVERSIZE_BLOCKED True
                   else ingest_once sha p True"
  have decided: "calling (?decided d') (completes a d' p)" for d'
    by (cases d') (simp_all add: calling_completes calling_blocked calling_ingest_completes)
  let ?inspected = "prog_bind (inspect_storage a) (\<lambda>again. case again of
      Inl v \<Rightarrow> cycle_result v True | Inr d \<Rightarrow> ?decided d)"
  have again: "calling ?inspected (permitted p)" by (rule calling_again[OF decided calling_refused])
  have next_step: "calling (case blocked of Some v \<Rightarrow> cycle_result v True | None \<Rightarrow> ?inspected)
      (\<lambda>r calls. (\<forall>v. blocked = Some v \<longrightarrow> \<not> accepting v) \<longrightarrow> permitted p r calls)" for blocked
    by (cases blocked) (simp_all only: option.case option.simps, use again calling_refused in auto)
  have eq: "finish_observation_decision sha p d a =
      prog_bind checkpoint_before_ingestion (\<lambda>blocked. case blocked of
        Some v \<Rightarrow> cycle_result v True | None \<Rightarrow> ?inspected)"
    unfolding SD_WAL_CHECKPOINT_DUE finish_observation_decision_def by simp
  have "calling (finish_observation_decision sha p d a) (permitted p)"
    unfolding eq
    by (rule calling_bind[OF calling_checkpoint next_step]) (auto intro: permitted_prepend permitted_blocked)
  then show ?thesis by (rule calling_completes)
qed (simp_all add: finish_observation_decision_def calling_completes calling_blocked)

lemma calling_utc: "calling (try_orchestration read_utc_now_us) (\<lambda>r calls. calls = [])"
  by (auto simp: calling_def try_orchestration_def prog_handle_def prog_bind_def read_utc_now_us_def
      prog_return_def prog_raise_def split: list.splits option.splits orchestration_exception.splits sum.splits if_splits)

lemma calling_cleanup:
  "calling (cleanup_and_vacuum sha t)
     (\<lambda>r calls. list_all (\<lambda>c. \<not> is_ingest c) calls \<and> (\<forall>v. r = Inr (Inl v) \<longrightarrow> \<not> accepting v))"
proof -
  have steps: "calling (\<lambda>o1.
       prog_bind (on_store Cleanup_Run (store_cleanup_retention sha t (oc_retention_days o1))) (\<lambda>_.
       prog_bind (on_store Vacuum_Run store_incremental_vacuum) (\<lambda>_. prog_return ())) o1)
    (\<lambda>r calls. list_all (\<lambda>c. \<not> is_ingest c) calls)"
  proof -
    have "calling (prog_bind (on_store Cleanup_Run (store_cleanup_retention sha t days)) (\<lambda>_.
       prog_bind (on_store Vacuum_Run store_incremental_vacuum) (\<lambda>_. prog_return ())))
      (\<lambda>r calls. list_all (\<lambda>c. \<not> is_ingest c) calls)" for days
      by (rule calling_bind[OF calling_on_store calling_bind[OF calling_on_store silent_return[unfolded silent_def],
            where T = "\<lambda>r calls. list_all (\<lambda>c. \<not> is_ingest c) calls"]]) auto
    then show ?thesis unfolding calling_def by blast
  qed
  show ?thesis unfolding cleanup_and_vacuum_def
    by (rule calling_catching[OF steps]) (auto dest: refusals)
qed

lemma calling_cycle: "calling (run_cycle sha p) (permitted p)"
proof -
  have cleaned: "calling (case x of Inl v \<Rightarrow> cycle_result v True | Inr (u :: unit) \<Rightarrow>
      prog_bind (inspect_storage True) (\<lambda>second. case second of
        Inl v \<Rightarrow> cycle_result v True | Inr d \<Rightarrow> finish_observation_decision sha p d True))
    (\<lambda>r calls. (\<forall>v. x = Inl v \<longrightarrow> \<not> accepting v) \<longrightarrow> permitted p r calls)" for x
    by (cases x) (auto intro: calling_conseq[OF calling_refused] calling_conseq[OF calling_again]
        calling_finish calling_refused)
  have maintained: "calling (case now of None \<Rightarrow> cycle_result OO_INVALID_CLOCK False | Some t \<Rightarrow>
      prog_bind (cleanup_and_vacuum sha t) (\<lambda>r. case r of Inl v \<Rightarrow> cycle_result v True | Inr _ \<Rightarrow>
        prog_bind (inspect_storage True) (\<lambda>second. case second of
          Inl v \<Rightarrow> cycle_result v True | Inr d \<Rightarrow> finish_observation_decision sha p d True)))
    (permitted p)" for now
  proof (cases now)
    case None
    then show ?thesis by (simp add: calling_blocked)
  next
    case (Some t)
    show ?thesis unfolding Some option.case
      by (rule calling_bind[OF calling_cleanup cleaned]) (auto intro: permitted_blocked permitted_prepend)
  qed
  have decided: "calling (if dec = SD_WAL_OVERSIZE_BLOCKED then cycle_result OO_WAL_OVERSIZE_BLOCKED False
         else if dec = SD_CAPACITY_MAINTENANCE_REQUIRED
         then prog_bind (try_orchestration read_utc_now_us) (\<lambda>now.
              case now of
                None \<Rightarrow> cycle_result OO_INVALID_CLOCK False
              | Some t \<Rightarrow>
                  prog_bind (cleanup_and_vacuum sha t) (\<lambda>r.
                  case r of
                    Inl v \<Rightarrow> cycle_result v True
                  | Inr _ \<Rightarrow>
                      prog_bind (inspect_storage True) (\<lambda>second.
                      case second of
                        Inl v \<Rightarrow> cycle_result v True
                      | Inr d \<Rightarrow> finish_observation_decision sha p d True)))
         else finish_observation_decision sha p dec False) (completes False dec p)" for dec
    by (auto simp: calling_finish calling_blocked intro!: calling_completes
        calling_optional[OF calling_conseq[OF calling_utc] maintained])
  show ?thesis unfolding run_cycle_def by (rule calling_again[OF decided calling_refused])
qed

lemma calling_guarded:
  assumes "calling m R" "T (Inr x) []" "\<And>r calls. R r calls \<Longrightarrow> T r calls"
  shows "calling (guarded x m) T"
  unfolding calling_def
proof (intro allI impI)
  fix o1 r o2 assume run: "guarded x m o1 = (r, o2)"
  show "\<exists>calls. oc_calls o2 = oc_calls o1 @ calls \<and> T r calls"
  proof (cases "oc_busy o1")
    case True
    then show ?thesis using run assms(2) by (auto simp: guarded_def)
  next
    case False
    obtain s o3 where m: "m (o1\<lparr>oc_busy := True\<rparr>) = (s, o3)" by (cases "m (o1\<lparr>oc_busy := True\<rparr>)")
    with assms(1) obtain calls where "oc_calls o3 = oc_calls (o1\<lparr>oc_busy := True\<rparr>) @ calls" "R s calls"
      by (rule callingD)
    moreover have "r = s \<and> o2 = o3\<lparr>oc_busy := False\<rparr>"
      using run False m by (auto simp: guarded_def prog_finally_def)
    ultimately show ?thesis using assms(3) by auto
  qed
qed

text \<open>
  C22. One call of \<open>process_observation\<close> hands its observation to the store at most once and never
  retries: either nothing is ingested and the cycle does not report success, or the one ingestion is
  the last call, made right after an inspection of capacity, free space and write-ahead log whose
  decision was to proceed, and a reported success is exactly the store's answer.
\<close>

theorem ingestion_needs_permission:
  assumes "process_observation sha p o1 = (r, o2)"
  shows "\<exists>calls. oc_calls o2 = oc_calls o1 @ calls \<and> permitted p r calls"
proof -
  let ?note = "\<lambda>result o3. (Inr result, o3\<lparr>oc_trigger := after_observation (oc_trigger o3) result\<rparr>)"
  have "calling (?note x) (\<lambda>r calls. calls = [] \<and> r = Inr x)" for x
    by (simp add: calling_def)
  then have "calling (prog_bind (run_cycle sha p) ?note) (permitted p)"
    by (rule calling_bind[OF calling_cycle]) (auto simp: permitted_def)
  from callingD[OF calling_guarded[OF this] assms[unfolded process_observation_def]]
  show ?thesis by (metis not_accepting(7) ObservationCycleResult.select_convs(1) list.pred_inject(1)
    permitted_blocked sum.inject(2))
qed

definition ready_world :: World where
  "ready_world =
     \<lparr>w_connection = \<lparr>cn_history = new_history, cn_committed = new_history, cn_failures = []\<rparr>,
      w_closed = False, w_clock = (\<lambda>_. 0), w_reads = 0, w_deadline = 0, w_expired = False,
      w_handler = False, w_progress = [],
      w_pragmas = [[[Some 4096]], [[Some 10]], [[Some 0]], [[Some 16384]], [[Some 0, Some 0, Some 0]]],
      w_wal_files = [Wal_Missing, Wal_Missing], w_disk = [Some (2 ^ 40, 0, 2 ^ 40)],
      w_runtime_safe = True, w_files_stable = []\<rparr>"

definition ready_orchestrator :: Orchestrator where
  "ready_orchestrator =
     \<lparr>oc_store = ready_world, oc_retention_days = 30, oc_trigger = new_trigger_state, oc_busy = False,
      oc_monotonic = [], oc_utc = [], oc_calls = []\<rparr>"

definition empty_projection :: HealthProjection where
  "empty_projection =
     \<lparr>hp_schema_version = 1, hp_observation_sequence = 0, hp_observed_at = 0, hp_recorded_at = 0,
      hp_overall_status = HH_HEALTHY, hp_service_uptime_ms = 0, hp_sample_kind = SK_HEARTBEAT,
      hp_missed_intervals = 0, hp_components = [], hp_digest = []\<rparr>"

theorem ingestion_needs_permission_witness:
  "\<exists>r o2 before inspection a answer.
     process_observation id empty_projection ready_orchestrator = (r, o2) \<and>
     r = Inr \<lparr>oy_outcome = OO_INVALID_OBSERVATION, oy_maintenance_attempted = False\<rparr> \<and>
     oc_calls o2 = before @ inspection @ [Ingest_Run empty_projection answer] \<and>
     inspected a SD_PROCEED inspection"
proof -
  let ?o = "ready_orchestrator"
  have run: "fst (process_observation id empty_projection ?o) =
      Inr \<lparr>oy_outcome = OO_INVALID_OBSERVATION, oy_maintenance_attempted = False\<rparr>"
    "list_ex is_ingest (oc_calls (snd (process_observation id empty_projection ?o)))"
    by code_simp+
  obtain r o2 where two: "process_observation id empty_projection ?o = (r, o2)"
    by (cases "process_observation id empty_projection ?o")
  from ingestion_needs_permission[OF this] obtain calls
    where calls: "oc_calls o2 = oc_calls ?o @ calls" "permitted empty_projection r calls" by blast
  moreover have "oc_calls ?o = []" by (simp add: ready_orchestrator_def)
  ultimately obtain before inspection a answer where
    "oc_calls o2 = before @ inspection @ [Ingest_Run empty_projection answer]" "inspected a SD_PROCEED inspection"
    using run(2) two unfolding permitted_def by (fastforce simp: list_all_iff list_ex_iff)
  moreover have "r = Inr \<lparr>oy_outcome = OO_INVALID_OBSERVATION, oy_maintenance_attempted = False\<rparr>"
    using run(1) two by simp
  ultimately show ?thesis using two by blast
qed

end
