(* ===== verification/Scheduler.thy ===== *)
theory Scheduler
  imports Orchestration
begin

text \<open>
  \<open>health_history/scheduler.py\<close>: when an observation is due, with what sequence number and sample kind it
  is taken, how many intervals were missed, and what a failure leaves behind. One due opportunity
  collects a report, projects it, hands it to the orchestrator and gives maintenance a chance.
\<close>

section \<open>Outcomes\<close>

datatype SchedulerOutcome =
    SO_NOT_DUE | SO_STORED | SO_STATE_ONLY | SO_REPLAYED | SO_COLLECTION_FAILED
  | SO_PROJECTION_FAILED | SO_SEQUENCE_EXHAUSTED | SO_CAPACITY_BLOCKED | SO_WAL_OVERSIZE_BLOCKED
  | SO_CHECKPOINT_BUSY | SO_CHECKPOINT_INCOMPLETE | SO_STORAGE_BUSY | SO_TIMED_OUT
  | SO_PERSISTENCE_FAILED | SO_TRUST_FAILED | SO_UNSUPPORTED_RUNTIME | SO_INVALID_OBSERVATION
  | SO_STALE_SEQUENCE | SO_SEQUENCE_CONFLICT | SO_GENERATION_EXHAUSTED | SO_INVALID_CLOCK
  | SO_REENTRANT

datatype SchedulerRejection =
    SJ_INVALID_CONFIGURATION | SJ_INVALID_CLOCK | SJ_INVALID_STATE | SJ_STORAGE_BUSY
  | SJ_PERSISTENCE_FAILED | SJ_TRUST_FAILED | SJ_REENTRANT

datatype scheduler_exception =
    Scheduler_Error SchedulerRejection bool
  | Scheduler_Value_Error
  | Orchestration_Raised orchestration_exception

fun scheduler_outcome :: "OrchestrationOutcome \<Rightarrow> scheduler_exception + SchedulerOutcome" where
  "scheduler_outcome OO_STORED = Inr SO_STORED"
| "scheduler_outcome OO_STATE_ONLY = Inr SO_STATE_ONLY"
| "scheduler_outcome OO_REPLAYED = Inr SO_REPLAYED"
| "scheduler_outcome OO_CAPACITY_BLOCKED = Inr SO_CAPACITY_BLOCKED"
| "scheduler_outcome OO_WAL_OVERSIZE_BLOCKED = Inr SO_WAL_OVERSIZE_BLOCKED"
| "scheduler_outcome OO_CHECKPOINT_BUSY = Inr SO_CHECKPOINT_BUSY"
| "scheduler_outcome OO_CHECKPOINT_INCOMPLETE = Inr SO_CHECKPOINT_INCOMPLETE"
| "scheduler_outcome OO_STORAGE_BUSY = Inr SO_STORAGE_BUSY"
| "scheduler_outcome OO_TIMED_OUT = Inr SO_TIMED_OUT"
| "scheduler_outcome OO_PERSISTENCE_FAILED = Inr SO_PERSISTENCE_FAILED"
| "scheduler_outcome OO_TRUST_FAILED = Inr SO_TRUST_FAILED"
| "scheduler_outcome OO_UNSUPPORTED_RUNTIME = Inr SO_UNSUPPORTED_RUNTIME"
| "scheduler_outcome OO_INVALID_OBSERVATION = Inr SO_INVALID_OBSERVATION"
| "scheduler_outcome OO_STALE_SEQUENCE = Inr SO_STALE_SEQUENCE"
| "scheduler_outcome OO_SEQUENCE_CONFLICT = Inr SO_SEQUENCE_CONFLICT"
| "scheduler_outcome OO_GENERATION_EXHAUSTED = Inr SO_GENERATION_EXHAUSTED"
| "scheduler_outcome OO_INVALID_CLOCK = Inr SO_INVALID_CLOCK"
| "scheduler_outcome OO_REENTRANT = Inr SO_REENTRANT"
| "scheduler_outcome OO_MAINTENANCE_COMPLETED = Inl (Scheduler_Error SJ_INVALID_STATE False)"

fun scheduler_outcome_from_rejection :: "SchedulerRejection \<Rightarrow> SchedulerOutcome" where
  "scheduler_outcome_from_rejection SJ_INVALID_CLOCK = SO_INVALID_CLOCK"
| "scheduler_outcome_from_rejection SJ_REENTRANT = SO_REENTRANT"
| "scheduler_outcome_from_rejection SJ_STORAGE_BUSY = SO_STORAGE_BUSY"
| "scheduler_outcome_from_rejection SJ_PERSISTENCE_FAILED = SO_PERSISTENCE_FAILED"
| "scheduler_outcome_from_rejection _ = SO_TRUST_FAILED"

definition MIN_SAMPLE_INTERVAL_SECONDS :: int where "MIN_SAMPLE_INTERVAL_SECONDS = 5"
definition MAX_SAMPLE_INTERVAL_SECONDS :: int where "MAX_SAMPLE_INTERVAL_SECONDS = 300"

definition validated_sample_interval :: "int \<Rightarrow> scheduler_exception + int" where
  "validated_sample_interval interval =
     (if MIN_SAMPLE_INTERVAL_SECONDS \<le> interval \<and> interval \<le> MAX_SAMPLE_INTERVAL_SECONDS
      then Inr interval else Inl (Scheduler_Error SJ_INVALID_CONFIGURATION False))"

definition scheduler_intervals_valid :: "int \<Rightarrow> int \<Rightarrow> bool" where
  "scheduler_intervals_valid interval refresh \<longleftrightarrow>
     MIN_SAMPLE_INTERVAL_SECONDS \<le> interval \<and> interval \<le> MAX_SAMPLE_INTERVAL_SECONDS \<and>
     1 \<le> refresh \<and> refresh \<le> MAX_SAMPLE_INTERVAL_SECONDS \<and> refresh \<le> interval"

definition scheduler_monotonic :: "seconds option \<Rightarrow> scheduler_exception + seconds" where
  "scheduler_monotonic reading =
     (case reading of
        Some t \<Rightarrow> if is_valid_monotonic t then Inr t else Inl (Scheduler_Error SJ_INVALID_CLOCK False)
      | None \<Rightarrow> Inl (Scheduler_Error SJ_INVALID_CLOCK False))"

section \<open>The cadence\<close>

record SchedulerDueDecision =
  dd_due :: bool
  dd_missed :: int
  dd_checked :: seconds
  dd_next_due :: seconds

definition due_decision_valid :: "SchedulerDueDecision \<Rightarrow> bool" where
  "due_decision_valid d \<longleftrightarrow>
     0 \<le> dd_missed d \<and> dd_missed d \<le> MAX_BOUNDED_COUNTER \<and> is_valid_monotonic (dd_checked d) \<and>
     is_valid_monotonic (dd_next_due d) \<and> (dd_due d \<or> dd_missed d = 0)"

record SchedulerCadenceState =
  cd_planned :: seconds
  cd_last_seen :: seconds
  cd_pending :: int

definition cadence_valid :: "SchedulerCadenceState \<Rightarrow> bool" where
  "cadence_valid c \<longleftrightarrow>
     is_valid_monotonic (cd_planned c) \<and> is_valid_monotonic (cd_last_seen c) \<and>
     0 \<le> cd_pending c \<and> cd_pending c \<le> MAX_BOUNDED_COUNTER"

text \<open>A constructor with its check.\<close>

definition checked_value :: "('a \<Rightarrow> bool) \<Rightarrow> 'a \<Rightarrow> scheduler_exception + 'a" where
  "checked_value valid x = (if valid x then Inr x else Inl Scheduler_Value_Error)"

definition cadence_decision ::
  "SchedulerCadenceState \<Rightarrow> int \<Rightarrow> seconds option \<Rightarrow> scheduler_exception + SchedulerDueDecision" where
  "cadence_decision c sample_interval reading =
     (case validated_sample_interval sample_interval of
        Inl e \<Rightarrow> Inl e
      | Inr interval \<Rightarrow>
          (case scheduler_monotonic reading of
             Inl e \<Rightarrow> Inl e
           | Inr now \<Rightarrow>
               if now < cd_last_seen c then Inl (Scheduler_Error SJ_INVALID_CLOCK False)
               else if now < cd_planned c
               then checked_value due_decision_valid
                      \<lparr>dd_due = False, dd_missed = 0, dd_checked = now, dd_next_due = cd_planned c\<rparr>
               else
                 let elapsed_intervals = \<lfloor>(now - cd_planned c) / of_int interval\<rfloor>;
                     next_due = cd_planned c + of_int ((elapsed_intervals + 1) * interval)
                 in if \<not> is_valid_monotonic next_due \<or> next_due \<le> now
                    then Inl (Scheduler_Error SJ_INVALID_CLOCK False)
                    else checked_value due_decision_valid
                           \<lparr>dd_due = True, dd_missed = min elapsed_intervals MAX_BOUNDED_COUNTER,
                            dd_checked = now, dd_next_due = next_due\<rparr>))"

definition after_check ::
  "SchedulerCadenceState \<Rightarrow> SchedulerDueDecision \<Rightarrow> bool \<Rightarrow> int option
    \<Rightarrow> scheduler_exception + SchedulerCadenceState" where
  "after_check c d consume_due pending_missed =
     (if dd_checked d < cd_last_seen c \<or> consume_due \<and> \<not> dd_due d \<or>
         dd_due d \<and> (dd_checked d < cd_planned c \<or> dd_next_due d \<le> dd_checked d) \<or>
         \<not> dd_due d \<and> (dd_checked d \<ge> cd_planned c \<or> dd_next_due d \<noteq> cd_planned c)
      then Inl (Scheduler_Error SJ_INVALID_STATE False)
      else
        let pending = (case pending_missed of None \<Rightarrow> cd_pending c | Some p \<Rightarrow> p)
        in if \<not> (0 \<le> pending \<and> pending \<le> MAX_BOUNDED_COUNTER)
           then Inl (Scheduler_Error SJ_INVALID_STATE False)
           else checked_value cadence_valid
                  \<lparr>cd_planned = (if consume_due then dd_next_due d else cd_planned c),
                   cd_last_seen = dd_checked d, cd_pending = pending\<rparr>)"

section \<open>The scheduler\<close>

record SchedulerResult =
  sr_outcome :: SchedulerOutcome
  sr_sequence :: "int option"
  sr_missed :: int
  sr_sampling :: "SchedulerOutcome option"
  sr_maintenance :: "OrchestrationOutcome option"

definition scheduler_result_valid :: "SchedulerResult \<Rightarrow> bool" where
  "scheduler_result_valid r \<longleftrightarrow>
     (case sr_sequence r of None \<Rightarrow> True | Some q \<Rightarrow> 1 \<le> q \<and> q \<le> MAX_OBSERVATION_SEQUENCE) \<and>
     0 \<le> sr_missed r \<and> sr_missed r \<le> MAX_BOUNDED_COUNTER"

text \<open>
  The state of a scheduler, with the readings its two clocks and its supplier of reports will give: a
  reading that raises, or is no finite clock value, and a supplier that raises, are \<open>None\<close>.
\<close>

record Scheduler =
  sk_orchestrator :: Orchestrator
  sk_interval :: int
  sk_resume :: SchedulerResumeState
  sk_cadence :: SchedulerCadenceState
  sk_next :: "int option"
  sk_startup_pending :: bool
  sk_busy :: bool
  sk_monotonic :: "seconds option list"
  sk_utc :: "datetime option list"
  sk_reports :: "HealthReport option list"

type_synonym 'a sched = "(Scheduler, scheduler_exception, 'a) action"

definition next_sequence :: "SchedulerResumeState \<Rightarrow> int option" where
  "next_sequence r =
     (case rs_sequence r of
        None \<Rightarrow> Some 1
      | Some q \<Rightarrow> if q = MAX_OBSERVATION_SEQUENCE then None else Some (q + 1))"

definition on_orchestrator :: "'a orch \<Rightarrow> 'a sched" where
  "on_orchestrator m s =
     (case m (sk_orchestrator s) of
        (r, o1) \<Rightarrow> (map_sum Orchestration_Raised id r, s\<lparr>sk_orchestrator := o1\<rparr>))"

definition on_open_store :: "'a prog \<Rightarrow> (store_exception + 'a) sched" where
  "on_open_store m s =
     (case m (oc_store (sk_orchestrator s)) of
        (r, w1) \<Rightarrow> (Inr r, s\<lparr>sk_orchestrator := (sk_orchestrator s)\<lparr>oc_store := w1\<rparr>\<rparr>))"

definition close_scheduler_store :: "unit sched" where
  "close_scheduler_store = prog_bind (on_open_store close_store) (\<lambda>_. prog_return ())"

definition resume_rejection :: "QueryRejection \<Rightarrow> SchedulerRejection" where
  "resume_rejection reason =
     (if reason = QR_STORAGE_BUSY then SJ_STORAGE_BUSY
      else if reason = QR_PERSISTENCE_FAILED then SJ_PERSISTENCE_FAILED
      else SJ_TRUST_FAILED)"

definition read_resume_state :: "SchedulerResumeState sched" where
  "read_resume_state =
     prog_bind (on_open_store store_resume_state) (\<lambda>r.
     case r of
       Inr state \<Rightarrow> prog_return state
     | Inl (Query_Error reason trust_lost) \<Rightarrow>
         prog_then
           (if resume_rejection reason = SJ_TRUST_FAILED then close_scheduler_store else prog_return ())
           (prog_raise (Scheduler_Error (resume_rejection reason) trust_lost))
     | Inl (Store_Error _) \<Rightarrow>
         prog_then close_scheduler_store (prog_raise (Scheduler_Error SJ_TRUST_FAILED True))
     | Inl e \<Rightarrow> prog_raise (Orchestration_Raised (Store_Raised e)))"

definition next_monotonic :: "(seconds option) sched" where
  "next_monotonic s =
     (Inr (case sk_monotonic s of [] \<Rightarrow> None | r # _ \<Rightarrow> r), s\<lparr>sk_monotonic := tl (sk_monotonic s)\<rparr>)"

definition read_utc_now :: "(datetime \<times> int) sched" where
  "read_utc_now s =
     (case sk_utc s of
        Some dt # _ \<Rightarrow>
          (case timestamp_from_datetime dt of
             Inl _ \<Rightarrow> Inl (Scheduler_Error SJ_INVALID_CLOCK False)
           | Inr t \<Rightarrow> Inr (\<lparr>dt_wall_us = t, dt_utcoffset_us = Some 0\<rparr>, t))
      | _ \<Rightarrow> Inl (Scheduler_Error SJ_INVALID_CLOCK False),
      s\<lparr>sk_utc := tl (sk_utc s)\<rparr>)"

definition next_report :: "(HealthReport option) sched" where
  "next_report s =
     (Inr (case sk_reports s of [] \<Rightarrow> None | r # _ \<Rightarrow> r), s\<lparr>sk_reports := tl (sk_reports s)\<rparr>)"

definition try_scheduler :: "'a sched \<Rightarrow> (SchedulerRejection + 'a) sched" where
  "try_scheduler m =
     prog_handle (prog_bind m (\<lambda>x. prog_return (Inr x))) (\<lambda>e.
       case e of Scheduler_Error reason _ \<Rightarrow> prog_return (Inl reason) | _ \<Rightarrow> prog_raise e)"

text \<open>\<open>__init__\<close>: the resume state is read before the first reading of the clock.\<close>

definition new_scheduler ::
  "Orchestrator \<Rightarrow> int \<Rightarrow> int \<Rightarrow> seconds option list \<Rightarrow> datetime option list \<Rightarrow> HealthReport option list
    \<Rightarrow> scheduler_exception + Scheduler" where
  "new_scheduler orchestrator interval refresh monotonic utc reports =
     (if \<not> scheduler_intervals_valid interval refresh
      then Inl (Scheduler_Error SJ_INVALID_CONFIGURATION False)
      else
        let blank = \<lparr>rs_sequence = None, rs_observed_at = None, rs_sample_kind = None, rs_count = 0\<rparr>;
            s = \<lparr>sk_orchestrator = orchestrator, sk_interval = interval, sk_resume = blank,
                 sk_cadence = \<lparr>cd_planned = 0, cd_last_seen = 0, cd_pending = 0\<rparr>, sk_next = None,
                 sk_startup_pending = True, sk_busy = False, sk_monotonic = monotonic, sk_utc = utc,
                 sk_reports = reports\<rparr>
        in fst (prog_bind read_resume_state (\<lambda>resume.
           prog_bind (prog_bind next_monotonic (\<lambda>r. prog_lift (scheduler_monotonic r))) (\<lambda>started s1.
           case checked_value cadence_valid \<lparr>cd_planned = started, cd_last_seen = started, cd_pending = 0\<rparr> of
             Inl e \<Rightarrow> (Inl e, s1)
           | Inr cadence \<Rightarrow>
               (Inr (s1\<lparr>sk_resume := resume, sk_cadence := cadence, sk_next := next_sequence resume\<rparr>), s1)))
           s))"

definition set_cadence :: "scheduler_exception + SchedulerCadenceState \<Rightarrow> unit sched" where
  "set_cadence c s = (case c of Inl e \<Rightarrow> (Inl e, s) | Inr c1 \<Rightarrow> (Inr (), s\<lparr>sk_cadence := c1\<rparr>))"

definition read_decision :: "SchedulerDueDecision sched" where
  "read_decision s =
     prog_bind next_monotonic
       (\<lambda>r. prog_lift (cadence_decision (sk_cadence s) (sk_interval s) r)) s"

definition is_due :: "SchedulerDueDecision sched" where
  "is_due s =
     (if sk_busy s then (Inl (Scheduler_Error SJ_REENTRANT False), s)
      else prog_finally
        (prog_bind read_decision (\<lambda>d s1.
           prog_then (set_cadence (after_check (sk_cadence s1) d False None)) (prog_return d) s1))
        (\<lambda>s1. (Inr (), s1\<lparr>sk_busy := False\<rparr>)) (s\<lparr>sk_busy := True\<rparr>))"

section \<open>What an opportunity leaves behind\<close>

definition record_failed_sampling :: "unit sched" where
  "record_failed_sampling s =
     set_cadence
       (checked_value cadence_valid
         ((sk_cadence s)\<lparr>cd_pending := min (cd_pending (sk_cadence s) + 1) MAX_BOUNDED_COUNTER\<rparr>)) s"

definition record_accepted_observation :: "HealthProjection \<Rightarrow> unit sched" where
  "record_accepted_observation p s =
     (case checked_value resume_state_valid
             \<lparr>rs_sequence = Some (hp_observation_sequence p), rs_observed_at = Some (hp_observed_at p),
              rs_sample_kind = Some (hp_sample_kind p),
              rs_count = min (rs_count (sk_resume s) + 1) MAX_BOUNDED_COUNTER\<rparr> of
        Inl e \<Rightarrow> (Inl e, s)
      | Inr resume \<Rightarrow>
          set_cadence
            (checked_value cadence_valid
              ((sk_cadence s)\<lparr>cd_pending :=
                 (if hp_sample_kind p = SK_CLOCK_DISCONTINUITY then cd_pending (sk_cadence s) else 0)\<rparr>))
            (s\<lparr>sk_resume := resume,
               sk_next := (if hp_observation_sequence p = MAX_OBSERVATION_SEQUENCE then None
                           else Some (hp_observation_sequence p + 1)),
               sk_startup_pending := False\<rparr>))"

definition refresh_resume_state :: "(SchedulerOutcome option) sched" where
  "refresh_resume_state =
     prog_bind (try_scheduler read_resume_state) (\<lambda>r.
     case r of
       Inl reason \<Rightarrow> prog_return (Some (scheduler_outcome_from_rejection reason))
     | Inr refreshed \<Rightarrow> (\<lambda>s.
         if (case rs_sequence (sk_resume s) of
               None \<Rightarrow> False
             | Some previous \<Rightarrow>
                 (case rs_sequence refreshed of None \<Rightarrow> True | Some current \<Rightarrow> current < previous))
         then prog_then close_scheduler_store (prog_return (Some SO_TRUST_FAILED)) s
         else (Inr None, s\<lparr>sk_resume := refreshed, sk_next := next_sequence refreshed\<rparr>)))"

definition sample_kind :: "Scheduler \<Rightarrow> int \<Rightarrow> SampleKind" where
  "sample_kind s recorded_at_utc_us =
     (if (case rs_observed_at (sk_resume s) of
            None \<Rightarrow> False | Some previous \<Rightarrow> recorded_at_utc_us < previous)
      then SK_CLOCK_DISCONTINUITY
      else if sk_startup_pending s then SK_STARTUP_GAP
      else SK_HEARTBEAT)"

definition scheduler_result :: "SchedulerResult \<Rightarrow> SchedulerResult sched" where
  "scheduler_result r = prog_lift (checked_value scheduler_result_valid r)"

definition sampling_result ::
  "SchedulerOutcome \<Rightarrow> int option \<Rightarrow> int \<Rightarrow> SchedulerResult sched" where
  "sampling_result outcome sequence missed =
     scheduler_result
       \<lparr>sr_outcome = outcome, sr_sequence = sequence, sr_missed = missed,
        sr_sampling = Some outcome, sr_maintenance = None\<rparr>"

definition plain_result :: "SchedulerOutcome \<Rightarrow> SchedulerResult sched" where
  "plain_result outcome =
     scheduler_result
       \<lparr>sr_outcome = outcome, sr_sequence = None, sr_missed = 0, sr_sampling = None,
        sr_maintenance = None\<rparr>"

definition trigger_error_outcome :: "scheduler_exception \<Rightarrow> SchedulerOutcome" where
  "trigger_error_outcome e =
     (case e of
        Orchestration_Raised (Orchestration_Error OR_REENTRANT) \<Rightarrow> SO_REENTRANT
      | Orchestration_Raised (Orchestration_Error OR_INVALID_MONOTONIC) \<Rightarrow> SO_INVALID_CLOCK
      | _ \<Rightarrow> SO_TRUST_FAILED)"

definition attempt :: "'a sched \<Rightarrow> (scheduler_exception + 'a) sched" where
  "attempt m = prog_handle (prog_bind m (\<lambda>x. prog_return (Inr x))) (\<lambda>e. prog_return (Inl e))"

definition finish_with_maintenance ::
  "(bytes \<Rightarrow> bytes) \<Rightarrow> SchedulerResult \<Rightarrow> SchedulerResult sched" where
  "finish_with_maintenance sha result =
     prog_bind (attempt (on_orchestrator maintenance_trigger)) (\<lambda>t.
     case t of
       Inl e \<Rightarrow> scheduler_result (result\<lparr>sr_outcome := trigger_error_outcome e\<rparr>)
     | Inr d \<Rightarrow>
         if \<not> td_due d then prog_return result
         else
           prog_bind (attempt (on_orchestrator (run_maintenance_opportunity sha))) (\<lambda>m.
           case m of
             Inl _ \<Rightarrow> scheduler_result (result\<lparr>sr_outcome := SO_TRUST_FAILED\<rparr>)
           | Inr v \<Rightarrow>
               if v = OO_MAINTENANCE_COMPLETED
               then scheduler_result (result\<lparr>sr_maintenance := Some v\<rparr>)
               else
                 prog_bind (prog_lift (scheduler_outcome v)) (\<lambda>outcome.
                 scheduler_result (result\<lparr>sr_outcome := outcome, sr_maintenance := Some v\<rparr>))))"

section \<open>One due opportunity\<close>

definition scheduled_observation ::
  "(bytes \<Rightarrow> bytes) \<Rightarrow> HealthProjection \<Rightarrow> ObservationCycleResult sched" where
  "scheduled_observation sha p =
     prog_bind (attempt (on_orchestrator (process_observation sha p))) (\<lambda>r.
     prog_return
       (case r of
          Inl _ \<Rightarrow> \<lparr>oy_outcome = OO_TRUST_FAILED, oy_maintenance_attempted = False\<rparr>
        | Inr result \<Rightarrow> result))"

definition failed_sampling ::
  "(bytes \<Rightarrow> bytes) \<Rightarrow> SchedulerOutcome \<Rightarrow> int \<Rightarrow> int \<Rightarrow> SchedulerResult sched" where
  "failed_sampling sha outcome sequence missed =
     prog_then record_failed_sampling (
     prog_bind (sampling_result outcome (Some sequence) missed) (finish_with_maintenance sha))"

definition accepted_outcome :: "OrchestrationOutcome \<Rightarrow> bool" where
  "accepted_outcome v \<longleftrightarrow> v \<in> {OO_STORED, OO_STATE_ONLY, OO_REPLAYED}"

definition observe_projection ::
  "(bytes \<Rightarrow> bytes) \<Rightarrow> HealthProjection \<Rightarrow> int \<Rightarrow> int \<Rightarrow> SchedulerResult sched" where
  "observe_projection sha p sequence reported_missed =
     prog_bind (scheduled_observation sha p) (\<lambda>observation.
     prog_bind (prog_lift (scheduler_outcome (oy_outcome observation))) (\<lambda>outcome.
     prog_bind (sampling_result outcome (Some sequence) reported_missed) (\<lambda>result.
     if accepted_outcome (oy_outcome observation)
     then prog_then (record_accepted_observation p) (
          if oy_maintenance_attempted observation then prog_return result
          else finish_with_maintenance sha result)
     else prog_then record_failed_sampling (prog_return result))))"

definition collect_observation ::
  "(bytes \<Rightarrow> bytes) \<Rightarrow> (string \<Rightarrow> datetime option) \<Rightarrow> int \<Rightarrow> int \<Rightarrow> datetime \<Rightarrow> int \<Rightarrow> SchedulerResult sched"
  where
  "collect_observation sha from_iso cumulative_missed sequence recorded_at recorded_us s =
     (let kind = sample_kind s recorded_us;
          reported = (if kind = SK_CLOCK_DISCONTINUITY then 0 else cumulative_missed)
      in prog_bind next_report (\<lambda>report.
         case report of
           None \<Rightarrow> failed_sampling sha SO_COLLECTION_FAILED sequence reported
         | Some r \<Rightarrow>
             (case project_health_report sha from_iso r sequence recorded_at kind reported of
                Inl (Projection_Error _) \<Rightarrow> failed_sampling sha SO_PROJECTION_FAILED sequence reported
              | Inl (Value_Error_Raised _) \<Rightarrow> prog_raise Scheduler_Value_Error
              | Inr p \<Rightarrow> observe_projection sha p sequence reported)) s)"

definition due_observation ::
  "(bytes \<Rightarrow> bytes) \<Rightarrow> (string \<Rightarrow> datetime option) \<Rightarrow> int \<Rightarrow> SchedulerResult sched" where
  "due_observation sha from_iso cumulative_missed =
     prog_bind refresh_resume_state (\<lambda>failure.
     case failure of
       Some outcome \<Rightarrow>
         prog_then record_failed_sampling (sampling_result outcome None cumulative_missed)
     | None \<Rightarrow> (\<lambda>s.
         case sk_next s of
           None \<Rightarrow> plain_result SO_SEQUENCE_EXHAUSTED s
         | Some sequence \<Rightarrow>
             prog_bind (try_scheduler read_utc_now) (\<lambda>now.
             case now of
               Inl _ \<Rightarrow>
                 prog_then record_failed_sampling
                   (sampling_result SO_INVALID_CLOCK (Some sequence) cumulative_missed)
             | Inr (recorded_at, recorded_us) \<Rightarrow>
                 collect_observation sha from_iso cumulative_missed sequence recorded_at recorded_us)
             s))"

definition run_opportunity ::
  "(bytes \<Rightarrow> bytes) \<Rightarrow> (string \<Rightarrow> datetime option) \<Rightarrow> SchedulerResult sched" where
  "run_opportunity sha from_iso s =
     (if sk_next s = None then plain_result SO_SEQUENCE_EXHAUSTED s
      else
        prog_bind (try_scheduler read_decision) (\<lambda>r.
        case r of
          Inl _ \<Rightarrow> plain_result SO_INVALID_CLOCK
        | Inr d \<Rightarrow>
            if \<not> dd_due d
            then prog_then (set_cadence (after_check (sk_cadence s) d False None))
                   (plain_result SO_NOT_DUE)
            else
              let cumulative = min (cd_pending (sk_cadence s) + dd_missed d) MAX_BOUNDED_COUNTER
              in prog_then (set_cadence (after_check (sk_cadence s) d True (Some cumulative)))
                   (due_observation sha from_iso cumulative)) s)"

definition run_due_opportunity ::
  "(bytes \<Rightarrow> bytes) \<Rightarrow> (string \<Rightarrow> datetime option) \<Rightarrow> SchedulerResult sched" where
  "run_due_opportunity sha from_iso s =
     (if sk_busy s then plain_result SO_REENTRANT s
      else prog_finally (run_opportunity sha from_iso)
             (\<lambda>s1. (Inr (), s1\<lparr>sk_busy := False\<rparr>)) (s\<lparr>sk_busy := True\<rparr>))"

end
