(* ===== verification/Scheduler_Correct.thy ===== *)
theory Scheduler_Correct
  imports Scheduler
begin

text \<open>
  The accounting of a scheduler: each planned time that has passed is an accepted observation, a missed
  interval reported with one, or one still to be reported.
\<close>

section \<open>The cadence\<close>

text \<open>A due decision consumes all planned times up to now, and the next one is the first after now.\<close>

lemma cadence_decision_cases:
  assumes "cadence_decision c i reading = Inr d"
  obtains (early) "\<not> dd_due d" "dd_missed d = 0" "dd_checked d < cd_planned c" "dd_next_due d = cd_planned c"
  | (due) n where "dd_due d" "1 \<le> n" "dd_missed d = min (n - 1) MAX_BOUNDED_COUNTER"
      "dd_next_due d = cd_planned c + of_int (n * i)" "dd_checked d < dd_next_due d"
      "dd_next_due d - of_int i \<le> dd_checked d"
proof -
  obtain now where now: "scheduler_monotonic reading = Inr now" and i: "validated_sample_interval i = Inr i"
    using assms by (auto simp: cadence_decision_def validated_sample_interval_def split: sum.splits if_splits)
  have pos: "0 < i" using i
    by (auto simp: validated_sample_interval_def MIN_SAMPLE_INTERVAL_SECONDS_def split: if_splits)
  show thesis
  proof (cases "now < cd_planned c")
    case True
    then show thesis using assms now i early
      by (auto simp: cadence_decision_def checked_value_def split: if_splits)
  next
    case False
    define e where "e = \<lfloor>(now - cd_planned c) / of_int i\<rfloor>"
    have "0 \<le> (now - cd_planned c) / of_int i" using False pos by simp
    then have e: "0 \<le> e" unfolding e_def by simp
    have "of_int e \<le> (now - cd_planned c) / of_int i" unfolding e_def by simp
    then have "of_int e * of_int i \<le> now - cd_planned c" using pos by (simp add: pos_le_divide_eq)
    then have before_now: "cd_planned c + of_int ((e + 1) * i) - of_int i \<le> now" by (simp add: algebra_simps)
    from assms now i False have d: "d = \<lparr>dd_due = True, dd_missed = min e MAX_BOUNDED_COUNTER,
        dd_checked = now, dd_next_due = cd_planned c + of_int ((e + 1) * i)\<rparr>"
      "now < cd_planned c + of_int ((e + 1) * i)"
      unfolding e_def
      by (auto simp: cadence_decision_def checked_value_def Let_def split: if_splits)
    show thesis using due[of "e + 1"] d before_now e by simp
  qed
qed

section \<open>Steps and the cadence\<close>

text \<open>What a step that returns does to the cadence; and steps that leave it alone even if they raise.\<close>

definition cadence_step ::
  "'a sched \<Rightarrow> (SchedulerCadenceState \<Rightarrow> 'a \<Rightarrow> SchedulerCadenceState \<Rightarrow> bool) \<Rightarrow> bool" where
  "cadence_step m R \<longleftrightarrow>
     (\<forall>s x s1. m s = (Inr x, s1) \<longrightarrow> R (sk_cadence s) x (sk_cadence s1))"

definition off_cadence :: "'a sched \<Rightarrow> bool" where
  "off_cadence m \<longleftrightarrow> (\<forall>s r s1. m s = (r, s1) \<longrightarrow> sk_cadence s1 = sk_cadence s)"

lemma cadence_stepD: "cadence_step m R \<Longrightarrow> m s = (Inr x, s1) \<Longrightarrow> R (sk_cadence s) x (sk_cadence s1)"
  unfolding cadence_step_def by blast

lemma cadence_conseq:
  "cadence_step m R \<Longrightarrow> (\<And>c x c1. R c x c1 \<Longrightarrow> S c x c1) \<Longrightarrow> cadence_step m S"
  unfolding cadence_step_def by blast

lemma cadence_bind:
  assumes "cadence_step m R" "\<And>x. cadence_step (k x) (S x)"
    and "\<And>c x c1 y c2. R c x c1 \<Longrightarrow> S x c1 y c2 \<Longrightarrow> T c y c2"
  shows "cadence_step (prog_bind m k) T"
  unfolding cadence_step_def
proof (intro allI impI)
  fix s y s2 assume run: "prog_bind m k s = (Inr y, s2)"
  then obtain x s1 where "m s = (Inr x, s1)" "k x s1 = (Inr y, s2)"
    by (auto simp: prog_bind_def split: prod.splits sum.splits)
  then show "T (sk_cadence s) y (sk_cadence s2)" using assms by (blast dest: cadence_stepD)
qed

lemma cadence_then:
  assumes "cadence_step m R" "cadence_step k S"
    and "\<And>c x c1 y c2. R c x c1 \<Longrightarrow> S c1 y c2 \<Longrightarrow> T c y c2"
  shows "cadence_step (prog_then m k) T"
  unfolding prog_then_def by (rule cadence_bind[OF assms(1), of _ "\<lambda>_. S"]) (use assms in auto)

lemma cadence_read_state: "(\<And>v. cadence_step (f v) R) \<Longrightarrow> cadence_step (\<lambda>s. f (g s) s) R"
  unfolding cadence_step_def by blast

lemma cadence_off: "off_cadence m \<Longrightarrow> cadence_step m (\<lambda>c x c1. c1 = c)"
  unfolding cadence_step_def off_cadence_def by blast

lemma off_bind:
  assumes "off_cadence m" "\<And>x. off_cadence (k x)"
  shows "off_cadence (prog_bind m k)"
  using assms unfolding off_cadence_def prog_bind_def by (auto split: prod.splits sum.splits)

lemma off_then: "off_cadence m \<Longrightarrow> off_cadence k \<Longrightarrow> off_cadence (prog_then m k)"
  unfolding prog_then_def by (rule off_bind)

lemma off_handle: "off_cadence m \<Longrightarrow> (\<And>e. off_cadence (h e)) \<Longrightarrow> off_cadence (prog_handle m h)"
  unfolding off_cadence_def prog_handle_def by (auto split: prod.splits sum.splits)

lemma off_simple:
  "off_cadence (prog_return x)" "off_cadence (prog_raise e)" "off_cadence (prog_lift r)"
  "off_cadence (on_orchestrator m)" "off_cadence (on_open_store n)" "off_cadence next_monotonic"
  "off_cadence read_utc_now" "off_cadence next_report"
  by (auto simp: off_cadence_def prog_return_def prog_raise_def prog_lift_def on_orchestrator_def
      on_open_store_def next_monotonic_def read_utc_now_def next_report_def split: prod.splits)

lemma off_try: "off_cadence m \<Longrightarrow> off_cadence (try_scheduler m)"
  unfolding try_scheduler_def
  by (intro off_handle off_bind off_simple) (auto intro: off_simple split: scheduler_exception.split)

lemma off_attempt: "off_cadence m \<Longrightarrow> off_cadence (attempt m)"
  unfolding attempt_def by (intro off_handle off_bind off_simple)

lemma off_close: "off_cadence close_scheduler_store"
  unfolding close_scheduler_store_def by (intro off_bind off_simple)

lemma off_resume: "off_cadence read_resume_state"
  unfolding read_resume_state_def
  by (intro off_bind off_simple)
    (auto intro!: off_then off_simple off_close split: sum.split store_exception.split)

lemma off_refresh: "off_cadence refresh_resume_state"
proof -
  have "off_cadence (\<lambda>s.
         if (case rs_sequence (sk_resume s) of
               None \<Rightarrow> False
             | Some previous \<Rightarrow>
                 (case rs_sequence refreshed of None \<Rightarrow> True | Some current \<Rightarrow> current < previous))
         then prog_then close_scheduler_store (prog_return (Some SO_TRUST_FAILED)) s
         else (Inr None, s\<lparr>sk_resume := refreshed, sk_next := next_sequence refreshed\<rparr>))" for refreshed
    using off_then[OF off_close off_simple(1)[of "Some SO_TRUST_FAILED"]] unfolding off_cadence_def
    by (auto split: if_splits)
  then show ?thesis unfolding refresh_resume_state_def
    by (intro off_bind off_try off_resume) (auto intro: off_simple split: sum.split)
qed

lemma off_observation: "off_cadence (scheduled_observation sha p)"
  unfolding scheduled_observation_def by (intro off_bind off_attempt off_simple)

section \<open>What a result says\<close>

definition accepts :: "SchedulerResult \<Rightarrow> bool" where
  "accepts r \<longleftrightarrow> sr_sampling r \<in> Some ` {SO_STORED, SO_STATE_ONLY, SO_REPLAYED}"

lemma scheduler_outcome_accepts:
  "scheduler_outcome v = Inr w \<Longrightarrow> w \<in> {SO_STORED, SO_STATE_ONLY, SO_REPLAYED} \<longleftrightarrow> accepted_outcome v"
  by (cases v) (auto simp: accepted_outcome_def)

lemma scheduler_result_step:
  "cadence_step (scheduler_result r) (\<lambda>c x c1. c1 = c \<and> x = r)"
  by (simp add: cadence_step_def scheduler_result_def prog_lift_def checked_value_def)

lemma plain_result_step:
  "cadence_step (plain_result v) (\<lambda>c x c1. c1 = c \<and> sr_outcome x = v \<and> \<not> accepts x)"
  unfolding plain_result_def by (rule cadence_conseq[OF scheduler_result_step]) (auto simp: accepts_def)

lemma sampling_result_step:
  "cadence_step (sampling_result v q n) (\<lambda>c x c1. c1 = c \<and> sr_sampling x = Some v \<and> sr_missed x = n)"
  unfolding sampling_result_def by (rule cadence_conseq[OF scheduler_result_step]) auto

lemma maintenance_step:
  "cadence_step (finish_with_maintenance sha r)
     (\<lambda>c x c1. c1 = c \<and> sr_sampling x = sr_sampling r \<and> sr_missed x = sr_missed r)"
proof -
  let ?R = "\<lambda>c x c1. c1 = c \<and> sr_sampling x = sr_sampling r \<and> sr_missed x = sr_missed r"
  have result: "cadence_step (scheduler_result x) ?R" if "sr_sampling x = sr_sampling r" "sr_missed x = sr_missed r" for x
    by (rule cadence_conseq[OF scheduler_result_step]) (use that in auto)
  have return: "cadence_step (prog_return r) ?R" by (simp add: cadence_step_def prog_return_def)
  have ran: "cadence_step (case m of
             Inl _ \<Rightarrow> scheduler_result (r\<lparr>sr_outcome := SO_TRUST_FAILED\<rparr>)
           | Inr v \<Rightarrow>
               if v = OO_MAINTENANCE_COMPLETED
               then scheduler_result (r\<lparr>sr_maintenance := Some v\<rparr>)
               else
                 prog_bind (prog_lift (scheduler_outcome v)) (\<lambda>outcome.
                 scheduler_result (r\<lparr>sr_outcome := outcome, sr_maintenance := Some v\<rparr>))) ?R"
    for m :: "scheduler_exception + OrchestrationOutcome"
    by (auto split: sum.split intro!: result cadence_bind[OF cadence_off[OF off_simple(3)] result])
  show ?thesis unfolding finish_with_maintenance_def
    by (rule cadence_bind[OF cadence_off[OF off_attempt[OF off_simple(4)]], where S = "\<lambda>_. ?R"])
      (auto split: sum.split intro!: result return
        cadence_bind[OF cadence_off[OF off_attempt[OF off_simple(4)]] ran])
qed

section \<open>An opportunity\<close>

text \<open>
  What an opportunity that reports \<open>n\<close> missed intervals does after they became the pending count:
  an accepted observation settles them or, at a clock discontinuity, leaves them; a failed one adds one.
\<close>

definition settles :: "int \<Rightarrow> SchedulerCadenceState \<Rightarrow> SchedulerResult \<Rightarrow> SchedulerCadenceState \<Rightarrow> bool" where
  "settles n c r c1 \<longleftrightarrow>
     cd_planned c1 = cd_planned c \<and> cd_last_seen c1 = cd_last_seen c \<and>
     (if accepts r
      then cd_pending c1 = 0 \<and> sr_missed r = n \<or> cd_pending c1 = cd_pending c \<and> sr_missed r = 0
      else cd_pending c1 = min (cd_pending c + 1) MAX_BOUNDED_COUNTER \<or>
           sr_outcome r = SO_SEQUENCE_EXHAUSTED \<and> cd_pending c1 = cd_pending c)"

definition failed_step :: "SchedulerCadenceState \<Rightarrow> SchedulerCadenceState \<Rightarrow> bool" where
  "failed_step c c1 \<longleftrightarrow> c1 = c\<lparr>cd_pending := min (cd_pending c + 1) MAX_BOUNDED_COUNTER\<rparr>"

lemma record_failed_step: "cadence_step record_failed_sampling (\<lambda>c x c1. failed_step c c1)"
  by (auto simp: cadence_step_def record_failed_sampling_def set_cadence_def checked_value_def failed_step_def)

lemma record_accepted_step:
  "cadence_step (record_accepted_observation p) (\<lambda>c x c1. c1 = c\<lparr>cd_pending :=
     (if hp_sample_kind p = SK_CLOCK_DISCONTINUITY then cd_pending c else 0)\<rparr>)"
  by (auto simp: cadence_step_def record_accepted_observation_def set_cadence_def checked_value_def
      split: sum.splits if_splits)

lemma failed_settles:
  "failed_step c c1 \<Longrightarrow> \<not> accepts r \<Longrightarrow> settles n c r c1"
  by (simp add: failed_step_def settles_def)

lemma not_accepts: "sr_sampling r = Some v \<Longrightarrow> v \<notin> {SO_STORED, SO_STATE_ONLY, SO_REPLAYED} \<Longrightarrow> \<not> accepts r"
  by (auto simp: accepts_def)

lemma failed_sampling_step:
  assumes "v \<notin> {SO_STORED, SO_STATE_ONLY, SO_REPLAYED}"
  shows "cadence_step (failed_sampling sha v q m) (settles n)"
  unfolding failed_sampling_def
  by (rule cadence_then[OF record_failed_step cadence_bind[OF sampling_result_step maintenance_step,
        where T = "\<lambda>c r c1. c1 = c \<and> sr_sampling r = Some v"]])
    (use assms in \<open>auto intro: failed_settles dest: not_accepts\<close>)

lemma observe_step:
  assumes "m = (if hp_sample_kind p = SK_CLOCK_DISCONTINUITY then 0 else n)"
  shows "cadence_step (observe_projection sha p q m) (settles n)"
proof -
  let ?R = "\<lambda>v c r c1. c1 = c \<and> sr_sampling r = Some v \<and> sr_missed r = m"
  have tail: "cadence_step
      (if accepted_outcome (oy_outcome ob)
       then prog_then (record_accepted_observation p) (
            if oy_maintenance_attempted ob then prog_return r else finish_with_maintenance sha r)
       else prog_then record_failed_sampling (prog_return r))
      (\<lambda>c x c1. scheduler_outcome (oy_outcome ob) = Inr v \<longrightarrow> sr_sampling r = Some v \<longrightarrow> sr_missed r = m \<longrightarrow>
         settles n c x c1)" for ob r v
  proof (cases "accepted_outcome (oy_outcome ob)")
    case True
    have kept: "cadence_step (if oy_maintenance_attempted ob then prog_return r else finish_with_maintenance sha r)
        (\<lambda>c x c1. c1 = c \<and> sr_sampling x = sr_sampling r \<and> sr_missed x = sr_missed r)"
      by (auto intro: maintenance_step) (simp add: cadence_step_def prog_return_def)
    show ?thesis unfolding if_P[OF True]
      by (rule cadence_then[OF record_accepted_step kept])
        (use True assms scheduler_outcome_accepts[of "oy_outcome ob" v] in \<open>auto simp: settles_def accepts_def\<close>)
  next
    case False
    have kept: "cadence_step (prog_return r) (\<lambda>c x c1. c1 = c \<and> x = r)"
      by (simp add: cadence_step_def prog_return_def)
    show ?thesis unfolding if_not_P[OF False]
      by (rule cadence_then[OF record_failed_step kept])
        (use False scheduler_outcome_accepts[of "oy_outcome ob" v] in \<open>auto intro!: failed_settles dest: not_accepts\<close>)
  qed
  have lift: "cadence_step (prog_lift (scheduler_outcome v)) (\<lambda>c x c1. c1 = c \<and> scheduler_outcome v = Inr x)" for v
    by (simp add: cadence_step_def prog_lift_def)
  have reported: "cadence_step (prog_bind (sampling_result v (Some q) m) (\<lambda>r.
      if accepted_outcome (oy_outcome ob)
       then prog_then (record_accepted_observation p) (
            if oy_maintenance_attempted ob then prog_return r else finish_with_maintenance sha r)
       else prog_then record_failed_sampling (prog_return r)))
      (\<lambda>c x c1. scheduler_outcome (oy_outcome ob) = Inr v \<longrightarrow> settles n c x c1)" for ob v
    by (rule cadence_bind[OF sampling_result_step tail]) auto
  show ?thesis unfolding observe_projection_def
    by (rule cadence_bind[OF cadence_off[OF off_observation] cadence_bind[OF lift reported, where T = "settles n"]])
      auto
qed

lemma projected_kind:
  "project_health_report sha from_iso report q recorded kind missed = Inr p \<Longrightarrow> hp_sample_kind p = kind"
  by (auto simp: project_health_report_def try_projection_def Let_def split: if_splits sum.splits option.splits)

lemma collect_step: "cadence_step (collect_observation sha from_iso n q recorded us) (settles n)"
proof -
  have "cadence_step (prog_bind next_report (\<lambda>report.
         case report of
           None \<Rightarrow> failed_sampling sha SO_COLLECTION_FAILED q reported
         | Some r \<Rightarrow>
             (case project_health_report sha from_iso r q recorded kind reported of
                Inl (Projection_Error _) \<Rightarrow> failed_sampling sha SO_PROJECTION_FAILED q reported
              | Inl (Value_Error_Raised _) \<Rightarrow> prog_raise Scheduler_Value_Error
              | Inr p \<Rightarrow> observe_projection sha p q reported))) (settles n)"
    if reported: "reported = (if kind = SK_CLOCK_DISCONTINUITY then 0 else n)" for kind reported
  proof (rule cadence_bind[OF cadence_off[OF off_simple(8)]])
    have raised: "cadence_step (prog_raise e) (settles n)" for e
      by (simp add: cadence_step_def prog_raise_def)
    show "cadence_step (case report of
           None \<Rightarrow> failed_sampling sha SO_COLLECTION_FAILED q reported
         | Some r \<Rightarrow>
             (case project_health_report sha from_iso r q recorded kind reported of
                Inl (Projection_Error _) \<Rightarrow> failed_sampling sha SO_PROJECTION_FAILED q reported
              | Inl (Value_Error_Raised _) \<Rightarrow> prog_raise Scheduler_Value_Error
              | Inr p \<Rightarrow> observe_projection sha p q reported)) (settles n)" for report
      using reported
      by (auto intro!: failed_sampling_step observe_step raised dest: projected_kind
          split: option.split sum.split projection_failure.split)
  qed simp
  from this[OF refl] show ?thesis unfolding cadence_step_def collect_observation_def Let_def by blast
qed

lemma rejection_refuses: "scheduler_outcome_from_rejection e \<notin> {SO_STORED, SO_STATE_ONLY, SO_REPLAYED}"
  by (cases e) simp_all

lemma refresh_step:
  "cadence_step refresh_resume_state
     (\<lambda>c x c1. c1 = c \<and> (\<forall>v. x = Some v \<longrightarrow> v \<notin> {SO_STORED, SO_STATE_ONLY, SO_REPLAYED}))"
proof -
  have "v \<notin> {SO_STORED, SO_STATE_ONLY, SO_REPLAYED}"
    if run: "refresh_resume_state s = (Inr (Some v), s1)" for s v s1
    using run rejection_refuses
    by (auto simp: refresh_resume_state_def prog_bind_def prog_then_def prog_return_def
        split: prod.splits sum.splits if_splits)
  then show ?thesis using off_refresh unfolding cadence_step_def off_cadence_def by blast
qed

lemma due_step: "cadence_step (due_observation sha from_iso n) (settles n)"
proof -
  have failure: "cadence_step (prog_then record_failed_sampling (sampling_result v q n))
      (\<lambda>c x c1. v \<notin> {SO_STORED, SO_STATE_ONLY, SO_REPLAYED} \<longrightarrow> settles n c x c1)" for v q
    by (rule cadence_then[OF record_failed_step sampling_result_step]) (auto intro!: failed_settles dest: not_accepts)
  have exhausted: "cadence_step (plain_result SO_SEQUENCE_EXHAUSTED) (settles n)"
    by (rule cadence_conseq[OF plain_result_step]) (simp add: settles_def)
  have now_step: "cadence_step (case now of
               Inl (_ :: SchedulerRejection) \<Rightarrow>
                 prog_then record_failed_sampling (sampling_result SO_INVALID_CLOCK (Some q) n)
             | Inr (recorded_at, recorded_us) \<Rightarrow>
                 collect_observation sha from_iso n q recorded_at recorded_us) (settles n)" for now q
    by (auto split: sum.split prod.split intro: collect_step cadence_conseq[OF failure])
  have clock: "cadence_step (prog_bind (try_scheduler read_utc_now) (\<lambda>now. case now of
               Inl (_ :: SchedulerRejection) \<Rightarrow>
                 prog_then record_failed_sampling (sampling_result SO_INVALID_CLOCK (Some q) n)
             | Inr (recorded_at, recorded_us) \<Rightarrow>
                 collect_observation sha from_iso n q recorded_at recorded_us)) (settles n)" for q
    by (rule cadence_bind[OF cadence_off[OF off_try[OF off_simple(7)]] now_step]) simp
  have observed: "cadence_step (\<lambda>s. case sk_next s of
           None \<Rightarrow> plain_result SO_SEQUENCE_EXHAUSTED s
         | Some q \<Rightarrow> prog_bind (try_scheduler read_utc_now) (\<lambda>now. case now of
               Inl (_ :: SchedulerRejection) \<Rightarrow>
                 prog_then record_failed_sampling (sampling_result SO_INVALID_CLOCK (Some q) n)
             | Inr (recorded_at, recorded_us) \<Rightarrow>
                 collect_observation sha from_iso n q recorded_at recorded_us) s) (settles n)"
    using exhausted clock unfolding cadence_step_def by (auto split: option.splits)
  have "cadence_step (case failure of
       Some outcome \<Rightarrow> prog_then record_failed_sampling (sampling_result outcome None n)
     | None \<Rightarrow> (\<lambda>s. case sk_next s of
           None \<Rightarrow> plain_result SO_SEQUENCE_EXHAUSTED s
         | Some q \<Rightarrow> prog_bind (try_scheduler read_utc_now) (\<lambda>now. case now of
               Inl (_ :: SchedulerRejection) \<Rightarrow>
                 prog_then record_failed_sampling (sampling_result SO_INVALID_CLOCK (Some q) n)
             | Inr (recorded_at, recorded_us) \<Rightarrow>
                 collect_observation sha from_iso n q recorded_at recorded_us) s))
      (\<lambda>c x c1. (\<forall>v. failure = Some v \<longrightarrow> v \<notin> {SO_STORED, SO_STATE_ONLY, SO_REPLAYED}) \<longrightarrow> settles n c x c1)" for failure
    by (cases failure) (auto intro: cadence_conseq[OF observed] cadence_conseq[OF failure])
  then show ?thesis unfolding due_observation_def
    by (rule cadence_bind[OF refresh_step]) auto
qed

text \<open>
  The planned times from one cadence to the next: those consumed, and where they went.
\<close>

definition accounted :: "int \<Rightarrow> SchedulerCadenceState \<Rightarrow> SchedulerResult \<Rightarrow> SchedulerCadenceState \<Rightarrow> bool" where
  "accounted interval c r c1 \<longleftrightarrow>
     (\<exists>n \<ge> 0. cd_planned c1 = cd_planned c + of_int (n * interval) \<and>
        (n = 0 \<or> cd_last_seen c1 < cd_planned c1 \<and> cd_planned c1 - of_int interval \<le> cd_last_seen c1) \<and>
        (MAX_BOUNDED_COUNTER < cd_pending c + n \<or> sr_outcome r = SO_SEQUENCE_EXHAUSTED \<or>
         cd_pending c1 + (if accepts r then 1 + sr_missed r else 0) = cd_pending c + n))"

lemma accounted_nothing:
  "cd_planned c1 = cd_planned c \<Longrightarrow> cd_pending c1 = cd_pending c \<Longrightarrow> \<not> accepts r \<Longrightarrow> accounted i c r c1"
  unfolding accounted_def by (intro exI[of _ 0]) simp

lemma after_check_fields:
  assumes "after_check c d b pending = Inr c1"
  shows "c1 = \<lparr>cd_planned = (if b then dd_next_due d else cd_planned c), cd_last_seen = dd_checked d,
    cd_pending = (case pending of None \<Rightarrow> cd_pending c | Some p \<Rightarrow> p)\<rparr>"
  using assms by (auto simp: after_check_def checked_value_def Let_def split: if_splits)

lemma read_decision_cases:
  assumes "read_decision s = (Inr d, s1)"
  shows "sk_cadence s1 = sk_cadence s \<and> (\<exists>reading. cadence_decision (sk_cadence s) (sk_interval s) reading = Inr d)"
  using assms by (auto simp: read_decision_def prog_bind_def next_monotonic_def prog_lift_def)

lemma settled_accounted:
  assumes d: "dd_due d" "1 \<le> n" "dd_missed d = min (n - 1) MAX_BOUNDED_COUNTER"
      "dd_next_due d = cd_planned c + of_int (n * i)" "dd_checked d < dd_next_due d"
      "dd_next_due d - of_int i \<le> dd_checked d"
    and settled: "settles (min (cd_pending c + dd_missed d) MAX_BOUNDED_COUNTER)
      \<lparr>cd_planned = dd_next_due d, cd_last_seen = dd_checked d,
        cd_pending = min (cd_pending c + dd_missed d) MAX_BOUNDED_COUNTER\<rparr> r c1"
    and pending: "0 \<le> cd_pending c"
  shows "accounted i c r c1"
  unfolding accounted_def
proof (intro exI[of _ n] conjI)
  show "n = 0 \<or> cd_last_seen c1 < cd_planned c1 \<and> cd_planned c1 - of_int i \<le> cd_last_seen c1"
    using settled d by (auto simp: settles_def)
  show "cd_planned c1 = cd_planned c + of_int (n * i)" using settled d by (simp add: settles_def)
  show "MAX_BOUNDED_COUNTER < cd_pending c + n \<or> sr_outcome r = SO_SEQUENCE_EXHAUSTED \<or>
      cd_pending c1 + (if accepts r then 1 + sr_missed r else 0) = cd_pending c + n"
  proof (cases "MAX_BOUNDED_COUNTER < cd_pending c + n")
    case False
    then have "min (cd_pending c + dd_missed d) MAX_BOUNDED_COUNTER = cd_pending c + (n - 1)"
      using d(2,3) pending by (simp add: min_def)
    then show ?thesis using settled False unfolding settles_def by (auto split: if_splits)
  qed simp
qed (use d in simp)

text \<open>The opportunity once its decision is made.\<close>

lemma decided_accounted:
  assumes "(if \<not> dd_due d
      then prog_then (set_cadence (after_check c d False None)) (plain_result SO_NOT_DUE)
      else prog_then (set_cadence (after_check c d True
             (Some (min (cd_pending c + dd_missed d) MAX_BOUNDED_COUNTER))))
             (due_observation sha from_iso (min (cd_pending c + dd_missed d) MAX_BOUNDED_COUNTER))) s = (Inr r, t)"
    and "cadence_decision c i reading = Inr d" "cadence_valid c"
  shows "accounted i c r (sk_cadence t)"
proof (cases "dd_due d")
  case False
  then obtain c1 where c1: "after_check c d False None = Inr c1"
    "plain_result SO_NOT_DUE (s\<lparr>sk_cadence := c1\<rparr>) = (Inr r, t)"
    using assms(1) by (auto simp: prog_then_def prog_bind_def set_cadence_def split: sum.splits)
  from cadence_stepD[OF plain_result_step c1(2)] after_check_fields[OF c1(1)] show ?thesis
    by (auto intro: accounted_nothing)
next
  case True
  let ?n = "min (cd_pending c + dd_missed d) MAX_BOUNDED_COUNTER"
  obtain c1 where c1: "after_check c d True (Some ?n) = Inr c1"
    "due_observation sha from_iso ?n (s\<lparr>sk_cadence := c1\<rparr>) = (Inr r, t)"
    using assms(1) True by (auto simp: prog_then_def prog_bind_def set_cadence_def split: sum.splits)
  from assms(2) show ?thesis
  proof (cases rule: cadence_decision_cases)
    case early
    then show ?thesis using True by simp
  next
    case (due n)
    have "settles ?n c1 r (sk_cadence t)" using cadence_stepD[OF due_step c1(2)] by simp
    then show ?thesis
      using settled_accounted[OF due, of r "sk_cadence t"] after_check_fields[OF c1(1)] assms(3)
      by (simp add: cadence_valid_def)
  qed
qed

lemma opportunity_accounted:
  assumes "cadence_valid (sk_cadence s)" "run_opportunity sha from_iso s = (Inr r, t)"
  shows "accounted (sk_interval s) (sk_cadence s) r (sk_cadence t)"
proof (cases "sk_next s = None")
  case True
  then show ?thesis using assms(2) cadence_stepD[OF plain_result_step, of SO_SEQUENCE_EXHAUSTED s r t]
    by (auto simp: run_opportunity_def intro: accounted_nothing)
next
  case False
  obtain e u where e: "read_decision s = (e, u)" by (cases "read_decision s")
  have u: "sk_cadence u = sk_cadence s"
    using e by (auto simp: read_decision_def prog_bind_def next_monotonic_def prog_lift_def split: prod.splits sum.splits)
  show ?thesis
  proof (cases e)
    case (Inl x)
    then have "plain_result SO_INVALID_CLOCK u = (Inr r, t)"
      using assms(2) e False by (auto simp: run_opportunity_def try_scheduler_def prog_bind_def prog_handle_def
          prog_return_def prog_raise_def split: scheduler_exception.splits)
    from cadence_stepD[OF plain_result_step this] show ?thesis using u by (auto intro: accounted_nothing)
  next
    case (Inr d)
    from read_decision_cases[OF e[unfolded Inr]] obtain reading
      where d: "cadence_decision (sk_cadence s) (sk_interval s) reading = Inr d" by auto
    have tried: "try_scheduler read_decision s = (Inr (Inr d), u)"
      using e Inr by (simp add: try_scheduler_def prog_bind_def prog_handle_def prog_return_def)
    show ?thesis
      by (rule decided_accounted[OF _ d assms(1), where s = u])
        (use assms(2) tried False in \<open>auto simp: run_opportunity_def prog_bind_def Let_def\<close>)
  qed
qed

text \<open>
  C23. The accounting of a due opportunity: the planned times it consumes are the ones up to its reading of
  the clock, the next one is the first after it, and each is either the accepted observation, or a
  missed interval reported with it, or still pending, with those that were pending before, to be
  reported later (while the counter is not full and the sequence not used up).
\<close>

theorem every_slot_accounted:
  assumes "cadence_valid (sk_cadence s)" "run_due_opportunity sha from_iso s = (Inr r, s1)"
  shows "accounted (sk_interval s) (sk_cadence s) r (sk_cadence s1)"
proof (cases "sk_busy s")
  case True
  then show ?thesis using assms(2) cadence_stepD[OF plain_result_step, of SO_REENTRANT s r s1]
    by (auto simp: run_due_opportunity_def intro: accounted_nothing)
next
  case False
  then obtain t where "run_opportunity sha from_iso (s\<lparr>sk_busy := True\<rparr>) = (Inr r, t)"
    "sk_cadence s1 = sk_cadence t"
    using assms(2) by (auto simp: run_due_opportunity_def prog_finally_def split: prod.splits)
  then show ?thesis using opportunity_accounted[of "s\<lparr>sk_busy := True\<rparr>"] assms(1) by fastforce
qed

definition waiting_scheduler :: Scheduler where
  "waiting_scheduler =
     \<lparr>sk_orchestrator = \<lparr>oc_store =
        \<lparr>w_connection = \<lparr>cn_history = new_history, cn_committed = new_history, cn_failures = []\<rparr>,
         w_closed = False, w_clock = (\<lambda>_. 0), w_reads = 0, w_deadline = 0, w_expired = False,
         w_handler = False, w_progress = [], w_pragmas = [], w_wal_files = [], w_disk = [],
         w_runtime_safe = True, w_files_stable = []\<rparr>, oc_retention_days = 30,
        oc_trigger = new_trigger_state, oc_busy = False, oc_monotonic = [], oc_utc = [], oc_calls = []\<rparr>,
      sk_interval = 10,
      sk_resume = \<lparr>rs_sequence = None, rs_observed_at = None, rs_sample_kind = None, rs_count = 0\<rparr>,
      sk_cadence = \<lparr>cd_planned = 5, cd_last_seen = 5, cd_pending = 2\<rparr>, sk_next = Some 1,
      sk_startup_pending = True, sk_busy = False, sk_monotonic = [Some 40],
      sk_utc = [Some \<lparr>dt_wall_us = 7, dt_utcoffset_us = Some 0\<rparr>], sk_reports = [None]\<rparr>"

theorem every_slot_accounted_witness:
  "\<exists>r s1. run_due_opportunity id (\<lambda>_. None) waiting_scheduler = (Inr r, s1) \<and>
     sr_sampling r = Some SO_COLLECTION_FAILED \<and> sr_missed r = 5 \<and> cd_planned (sk_cadence s1) = 45 \<and>
     cd_pending (sk_cadence s1) = 6 \<and> accounted 10 (sk_cadence waiting_scheduler) r (sk_cadence s1)"
proof -
  let ?run = "run_due_opportunity id (\<lambda>_. None) waiting_scheduler"
  have r: "fst ?run = Inr \<lparr>sr_outcome = SO_INVALID_CLOCK, sr_sequence = Some 1, sr_missed = 5,
      sr_sampling = Some SO_COLLECTION_FAILED, sr_maintenance = None\<rparr>"
    and c: "sk_cadence (snd ?run) = \<lparr>cd_planned = 45, cd_last_seen = 40, cd_pending = 6\<rparr>"
    by code_simp+
  have "cadence_valid (sk_cadence waiting_scheduler)" by code_simp
  moreover obtain s1 where run: "?run = (Inr \<lparr>sr_outcome = SO_INVALID_CLOCK, sr_sequence = Some 1,
      sr_missed = 5, sr_sampling = Some SO_COLLECTION_FAILED, sr_maintenance = None\<rparr>, s1)"
    using r by (metis prod.collapse)
  ultimately have "accounted (sk_interval waiting_scheduler) (sk_cadence waiting_scheduler)
      \<lparr>sr_outcome = SO_INVALID_CLOCK, sr_sequence = Some 1, sr_missed = 5,
       sr_sampling = Some SO_COLLECTION_FAILED, sr_maintenance = None\<rparr> (sk_cadence s1)"
    by (rule every_slot_accounted)
  moreover have "sk_interval waiting_scheduler = 10" by (simp add: waiting_scheduler_def)
  ultimately show ?thesis using run c by auto
qed

end
