(* ===== verification/Health_Service.thy ===== *)
theory Health_Service
  imports Health_Projection
begin

text \<open>
  \<open>dashboard/service.py\<close>: the cached, single-flight health report. A sweep of the collectors runs under
  the collection lock; the state lock makes the reading of the cache, the storing of a report and
  \<open>invalidate\<close> atomic, so these are the steps of the protocol, and an invalidation may fall between the
  start of a sweep and its end.
\<close>

section \<open>State and operations\<close>

record HealthService =
  hv_refresh :: int
  hv_started_at :: seconds
  hv_cached_report :: "HealthReport option"
  hv_cached_at :: "seconds option"
  hv_generation :: nat
  hv_last_successes :: "(string, string) dict"

definition new_health_service :: "int \<Rightarrow> seconds \<Rightarrow> HealthService" where
  "new_health_service refresh started =
     \<lparr>hv_refresh = refresh, hv_started_at = started, hv_cached_report = None, hv_cached_at = None,
      hv_generation = 0, hv_last_successes = []\<rparr>"

text \<open>\<open>round(x, 1)\<close> of a float: the double next to the exact value rounded to a tenth.\<close>

definition round_tenth :: "seconds \<Rightarrow> rat" where
  "round_tenth x =
     (let tenths = of_int (round_half_even (\<bar>x\<bar> * 10)) / 10
      in if x < 0 then - to_double tenths else to_double tenths)"

definition collect_health :: "ComponentHealth list \<Rightarrow> string \<Rightarrow> seconds \<Rightarrow> HealthReport" where
  "collect_health components checked_at uptime =
     \<lparr>hr_status = overall_status components, hr_checked_at = checked_at,
      hr_service_uptime_seconds = JFloat (Some (round_tenth uptime)), hr_components = components,
      hr_schema_version = 1\<rparr>"

definition with_last_success ::
  "ComponentHealth \<Rightarrow> (string, string) dict \<Rightarrow> ComponentHealth \<times> (string, string) dict" where
  "with_last_success c successes =
     (case ch_last_successful_at c of
        Some t \<Rightarrow> (c, dict_set (ch_name c) t successes)
      | None \<Rightarrow>
          (case dict_get successes (ch_name c) of
             None \<Rightarrow> (c, successes)
           | Some previous \<Rightarrow> (c\<lparr>ch_last_successful_at := Some previous\<rparr>, successes)))"

fun with_last_successes ::
  "ComponentHealth list \<Rightarrow> (string, string) dict \<Rightarrow> ComponentHealth list \<times> (string, string) dict" where
  "with_last_successes [] successes = ([], successes)"
| "with_last_successes (c # cs) successes =
     (let (c1, successes1) = with_last_success c successes;
          (cs1, successes2) = with_last_successes cs successes1
      in (c1 # cs1, successes2))"

text \<open>The cached report, while it is fresh.\<close>

definition fresh_report :: "seconds \<Rightarrow> HealthService \<Rightarrow> HealthReport option" where
  "fresh_report now s =
     (case (hv_cached_report s, hv_cached_at s) of
        (Some report, Some cached_at) \<Rightarrow>
          if now - cached_at < of_int (hv_refresh s) then Some report else None
      | _ \<Rightarrow> None)"

text \<open>What a sweep remembers from its start: the reading of the clock and the generation.\<close>

record sweep =
  sw_now :: seconds
  sw_generation :: nat

definition start_sweep :: "seconds \<Rightarrow> HealthService \<Rightarrow> sweep" where
  "start_sweep now s = \<lparr>sw_now = now, sw_generation = hv_generation s\<rparr>"

text \<open>
  The end of a sweep that collected \<open>components\<close>; \<open>stored_at\<close> is the second reading of the clock, which
  the code makes only if the generation is still that of the start.
\<close>

definition finish_sweep ::
  "sweep \<Rightarrow> ComponentHealth list \<Rightarrow> string \<Rightarrow> seconds \<Rightarrow> HealthService \<Rightarrow> HealthReport \<times> HealthService" where
  "finish_sweep w collected checked_at stored_at s =
     (let report = collect_health collected checked_at (sw_now w - hv_started_at s);
          (components, successes) = with_last_successes (hr_components report) (hv_last_successes s);
          report1 = report\<lparr>hr_status := overall_status components, hr_components := components\<rparr>;
          s1 = s\<lparr>hv_last_successes := successes\<rparr>
      in (report1,
          if sw_generation w = hv_generation s1
          then s1\<lparr>hv_cached_report := Some report1, hv_cached_at := Some stored_at\<rparr>
          else s1))"

definition invalidate_health :: "HealthService \<Rightarrow> HealthService" where
  "invalidate_health s =
     s\<lparr>hv_generation := hv_generation s + 1, hv_cached_report := None, hv_cached_at := None\<rparr>"

section \<open>The protocol of calls\<close>

text \<open>
  The service with the sweep that holds the collection lock, if any. Ghosts: how many sweeps were
  started, and which one the cached report is from.
\<close>

record health_system =
  hy_service :: HealthService
  hy_sweep :: "sweep option"
  hy_sweeps :: nat
  hy_cached_from :: nat

definition new_health_system :: "HealthService \<Rightarrow> health_system" where
  "new_health_system s = \<lparr>hy_service = s, hy_sweep = None, hy_sweeps = 0, hy_cached_from = 0\<rparr>"

text \<open>The caller of \<open>Sweep_Started n\<close> is given the report of \<open>Sweep_Completed n\<close>; that of \<open>Served n\<close> the cached one.\<close>

datatype health_event =
    Sweep_Started nat | Sweep_Completed nat HealthReport | Sweep_Abandoned nat | Served nat HealthReport | Invalidated

inductive health_step :: "health_system \<Rightarrow> health_event \<Rightarrow> health_system \<Rightarrow> bool" where
  served: "hy_sweep y = None \<Longrightarrow> fresh_report now (hy_service y) = Some report \<Longrightarrow>
    health_step y (Served (hy_cached_from y) report) y"
| started: "hy_sweep y = None \<Longrightarrow> fresh_report now (hy_service y) = None \<Longrightarrow>
    health_step y (Sweep_Started (Suc (hy_sweeps y)))
      (y\<lparr>hy_sweep := Some (start_sweep now (hy_service y)), hy_sweeps := Suc (hy_sweeps y)\<rparr>)"
| completed: "hy_sweep y = Some w \<Longrightarrow>
    finish_sweep w collected checked_at stored_at (hy_service y) = (report, s1) \<Longrightarrow>
    health_step y (Sweep_Completed (hy_sweeps y) report)
      (y\<lparr>hy_service := s1, hy_sweep := None,
         hy_cached_from :=
           (if sw_generation w = hv_generation (hy_service y) then hy_sweeps y else hy_cached_from y)\<rparr>)"
| abandoned: "hy_sweep y = Some w \<Longrightarrow> health_step y (Sweep_Abandoned (hy_sweeps y)) (y\<lparr>hy_sweep := None\<rparr>)"
| invalidated: "health_step y Invalidated (y\<lparr>hy_service := invalidate_health (hy_service y)\<rparr>)"

inductive health_run :: "health_system \<Rightarrow> health_event list \<Rightarrow> health_system \<Rightarrow> bool" where
  health_start: "health_run y [] y"
| health_more: "health_run y es y1 \<Longrightarrow> health_step y1 e y2 \<Longrightarrow> health_run y (es @ [e]) y2"

inductive_cases health_run_snocE: "health_run y (es @ [e]) y2"

section \<open>An invalidated report is never served\<close>

text \<open>The events after the last invalidation.\<close>

definition since_invalidation :: "health_event list \<Rightarrow> health_event list" where
  "since_invalidation es = rev (takeWhile (\<lambda>e. e \<noteq> Invalidated) (rev es))"

lemma since_simps [simp]:
  "since_invalidation [] = []" "since_invalidation (es @ [Invalidated]) = []"
  "e \<noteq> Invalidated \<Longrightarrow> since_invalidation (es @ [e]) = since_invalidation es @ [e]"
  by (simp_all add: since_invalidation_def)

lemma since_later: "set (since_invalidation (before @ [Invalidated] @ later)) \<subseteq> set later"
proof (induction later rule: rev_induct)
  case (snoc e later)
  have "since_invalidation (before @ [Invalidated] @ later @ [e]) =
      (if e = Invalidated then [] else since_invalidation (before @ [Invalidated] @ later) @ [e])"
    using since_simps(2)[of "before @ [Invalidated] @ later"]
      since_simps(3)[of e "before @ [Invalidated] @ later"] by simp
  then show ?case using snoc by auto
qed simp

text \<open>
  A cached report is from a sweep that started and ended since the last invalidation; a sweep whose
  generation is still the current one started since.
\<close>

definition health_inv :: "health_event list \<Rightarrow> health_system \<Rightarrow> bool" where
  "health_inv es y \<longleftrightarrow>
     (\<forall>r. hv_cached_report (hy_service y) = Some r \<longrightarrow>
        Sweep_Started (hy_cached_from y) \<in> set (since_invalidation es) \<and>
        Sweep_Completed (hy_cached_from y) r \<in> set (since_invalidation es)) \<and>
     (\<forall>w. hy_sweep y = Some w \<longrightarrow> sw_generation w \<le> hv_generation (hy_service y) \<and>
        (sw_generation w = hv_generation (hy_service y) \<longrightarrow>
           Sweep_Started (hy_sweeps y) \<in> set (since_invalidation es)))"

lemma fresh_report_cached: "fresh_report now s = Some r \<Longrightarrow> hv_cached_report s = Some r"
  by (auto simp: fresh_report_def split: option.splits if_splits)

lemma finish_sweep_cached:
  assumes "finish_sweep w collected checked_at stored_at s = (r, s1)"
  shows "hv_generation s1 = hv_generation s"
    "hv_cached_report s1 = (if sw_generation w = hv_generation s then Some r else hv_cached_report s)"
  using assms by (auto simp: finish_sweep_def Let_def split: prod.splits if_splits)

lemma health_inv_step:
  assumes "health_step y e y1" "health_inv es y"
  shows "health_inv (es @ [e]) y1"
  using assms
proof cases
  case (completed w collected checked_at stored_at report s1)
  then show ?thesis using assms(2) finish_sweep_cached[OF completed(4)]
    by (auto simp: health_inv_def)
next
  case invalidated
  then show ?thesis using assms(2) by (auto simp: health_inv_def invalidate_health_def)
qed (auto simp: health_inv_def start_sweep_def)

lemma health_run_inv:
  assumes "health_run (new_health_system s) es y" "hv_cached_report s = None"
  shows "health_inv es y"
  using assms
proof (induction "new_health_system s" es y rule: health_run.induct)
  case health_start
  then show ?case by (simp add: health_inv_def new_health_system_def)
next
  case (health_more es y1 e y2)
  then show ?case using health_inv_step by blast
qed

lemma health_run_prefix: "health_run y (es @ later) y2 \<Longrightarrow> \<exists>y1. health_run y es y1"
proof (induction later arbitrary: y2 rule: rev_induct)
  case (snoc e later)
  then have "health_run y ((es @ later) @ [e]) y2" by simp
  then show ?case by (rule health_run_snocE) (use snoc.IH in auto)
qed auto

text \<open>
  C38. Whatever the order of calls and sweeps: a report that is served from the cache after an
  invalidation is the result of a sweep that was also started after it. A sweep under way when the
  cache is invalidated still answers its own caller, and is never served to another.
\<close>

theorem invalidated_never_served:
  assumes "health_run (new_health_system (new_health_service refresh started))
      (before @ [Invalidated] @ between @ [Served n report] @ after) y"
  shows "Sweep_Started n \<in> set between \<and> Sweep_Completed n report \<in> set between"
proof -
  let ?y = "new_health_system (new_health_service refresh started)"
  obtain y2 where "health_run ?y ((before @ [Invalidated] @ between) @ [Served n report]) y2"
    using health_run_prefix[of ?y "(before @ [Invalidated] @ between) @ [Served n report]" after] assms by auto
  then obtain y1 where y1: "health_run ?y (before @ [Invalidated] @ between) y1"
    "health_step y1 (Served n report) y2" by (rule health_run_snocE) auto
  have "health_inv (before @ [Invalidated] @ between) y1"
    using health_run_inv[OF y1(1)] by (simp add: new_health_service_def)
  moreover have "n = hy_cached_from y1" "hv_cached_report (hy_service y1) = Some report"
    using y1(2) by (auto elim: health_step.cases dest: fresh_report_cached)
  ultimately show ?thesis
    using since_later[of before between] by (auto simp: health_inv_def)
qed

definition watched :: "nat \<Rightarrow> ComponentHealth" where
  "watched n =
     \<lparr>ch_name = ''wled'', ch_status = HS_HEALTHY, ch_message = [], ch_checked_at = decimal n,
      ch_latency_ms = JInt 0, ch_details = [], ch_last_successful_at = None\<rparr>"

text \<open>
  An invalidation during the first sweep: its report goes to its caller only, and the next call
  starts a second sweep, whose report is then served.
\<close>

theorem invalidated_never_served_witness:
  "\<exists>r1 r2 y. health_run (new_health_system (new_health_service 5 0))
       [Sweep_Started 1, Invalidated, Sweep_Completed 1 r1, Sweep_Started 2, Sweep_Completed 2 r2, Served 2 r2] y \<and>
     Sweep_Completed 2 r2 \<in> set [Sweep_Completed 1 r1, Sweep_Started 2, Sweep_Completed 2 r2]"
proof -
  let ?s0 = "new_health_service 5 0" and ?w = "\<lparr>sw_now = 1, sw_generation = 0\<rparr>"
  let ?s1 = "invalidate_health ?s0"
  obtain r1 s2 where s2: "finish_sweep ?w [watched 1] [] 2 ?s1 = (r1, s2)"
    by (cases "finish_sweep ?w [watched 1] [] 2 ?s1")
  then have s2_fields: "s2 = ?s1"
    by (auto simp: finish_sweep_def collect_health_def watched_def with_last_success_def invalidate_health_def
        new_health_service_def)
  let ?v = "\<lparr>sw_now = 3, sw_generation = 1\<rparr>"
  obtain r2 s3 where s3: "finish_sweep ?v [watched 2] [] 4 s2 = (r2, s3)"
    by (cases "finish_sweep ?v [watched 2] [] 4 s2")
  then have s3_fields: "s3 = s2\<lparr>hv_cached_report := Some r2, hv_cached_at := Some 4\<rparr>" unfolding s2_fields
    by (auto simp: finish_sweep_def collect_health_def watched_def with_last_success_def invalidate_health_def
        new_health_service_def Let_def)
  let ?y = "\<lambda>s w n k. \<lparr>hy_service = s, hy_sweep = w, hy_sweeps = n, hy_cached_from = k\<rparr>"
  have "health_run (?y ?s0 None 0 0) ([] @ [Sweep_Started 1]) (?y ?s0 (Some ?w) 1 0)"
    by (rule health_more[OF health_start])
      (use started[of "?y ?s0 None 0 0" 1] in \<open>simp add: fresh_report_def start_sweep_def new_health_service_def\<close>)
  from health_more[OF this invalidated]
  have "health_run (?y ?s0 None 0 0) [Sweep_Started 1, Invalidated] (?y ?s1 (Some ?w) 1 0)" by simp
  moreover have "health_step (?y ?s1 (Some ?w) 1 0) (Sweep_Completed 1 r1) (?y ?s1 None 1 0)"
    using completed[of "?y ?s1 (Some ?w) 1 0" ?w "[watched 1]" "[]" 2 r1 s2] s2 s2_fields
    by (simp add: invalidate_health_def new_health_service_def)
  ultimately have "health_run (?y ?s0 None 0 0) [Sweep_Started 1, Invalidated, Sweep_Completed 1 r1] (?y ?s1 None 1 0)"
    by (auto dest: health_more)
  moreover have "health_step (?y ?s1 None 1 0) (Sweep_Started 2) (?y ?s1 (Some ?v) 2 0)"
    using started[of "?y ?s1 None 1 0" 3]
    by (simp add: numeral_2_eq_2 fresh_report_def start_sweep_def invalidate_health_def new_health_service_def)
  ultimately have "health_run (?y ?s0 None 0 0) [Sweep_Started 1, Invalidated, Sweep_Completed 1 r1, Sweep_Started 2]
      (?y ?s1 (Some ?v) 2 0)"
    by (auto dest: health_more)
  moreover have "health_step (?y ?s1 (Some ?v) 2 0) (Sweep_Completed 2 r2) (?y s3 None 2 2)"
    using completed[of "?y ?s1 (Some ?v) 2 0" ?v "[watched 2]" "[]" 4 r2 s3] s3 s2_fields
    by (simp add: invalidate_health_def new_health_service_def)
  ultimately have "health_run (?y ?s0 None 0 0) [Sweep_Started 1, Invalidated, Sweep_Completed 1 r1, Sweep_Started 2,
      Sweep_Completed 2 r2] (?y s3 None 2 2)"
    by (auto dest: health_more)
  from health_more[OF this served[of _ 5 r2]]
  have run: "health_run (?y ?s0 None 0 0) ([Sweep_Started 1] @ [Invalidated] @
      [Sweep_Completed 1 r1, Sweep_Started 2, Sweep_Completed 2 r2] @ [Served 2 r2] @ []) (?y s3 None 2 2)"
    unfolding s3_fields s2_fields
    by (simp add: fresh_report_def invalidate_health_def new_health_service_def)
  from invalidated_never_served[OF run[folded new_health_system_def]] run show ?thesis
    unfolding new_health_system_def by auto
qed

end
