(* ===== verification/Dashboard_Server.thy ===== *)
theory Dashboard_Server
  imports Settings Forms_Cookies Health_Service
begin

text \<open>
  \<open>dashboard/server.py\<close>: the request handlers over the control plane, the three device services and
  the health service. A page is represented by the call of its renderer, with every argument; the
  renderers only make text of them. An exception that leaves a handler is \<open>None\<close>: the library then
  drops the connection without a response.

  Parameters, all of the standard library: \<open>urlsplit\<close> (path and query, or its \<open>ValueError\<close>),
  \<open>parse_qsl\<close>, \<open>parse_qs\<close> with its bound on the fields, and \<open>SimpleCookie.load\<close>.
\<close>

section \<open>Requests and responses\<close>

datatype http_method = GET | POST | PUT | PATCH | DELETE

text \<open>
  A request as the library hands it to a handler: the target, the headers, the bytes that follow
  them, and the first part of the peer address.
\<close>

record portal_request =
  rq_method :: http_method
  rq_target :: string
  rq_headers :: "(string \<times> string) list"
  rq_body :: bytes
  rq_client :: "string option"

datatype http_status =
    HTTP_OK | SEE_OTHER | UNAUTHORIZED | FORBIDDEN | NOT_FOUND | METHOD_NOT_ALLOWED | TOO_MANY_REQUESTS
  | Form_Refused form_status

datatype ControlNavigationLink = NAV_LOGIN | NAV_CONTROLS

record controls_view =
  cv_session :: SessionContext
  cv_report :: HealthReport
  cv_profile :: string
  cv_capabilities :: ControlCapabilities
  cv_ambient_availability :: AmbientControlAvailability
  cv_ambient_operations :: "AuroraOperation list"
  cv_ambient_notice :: "string option"
  cv_wled_availability :: WLEDControlAvailability
  cv_wled_operations :: "WLEDOperation list"
  cv_wled_maximum_brightness :: int
  cv_hyperhdr_availability :: HyperHDRControlAvailability
  cv_hyperhdr_operations :: "HyperHDROperation list"

datatype portal_page =
    Plain string
  | Stylesheet
  | Login_Page bool string "string option"
  | Portal_Page HealthReport string int "ControlNavigationLink option" string
  | Controls_Page controls_view
  | Wled_Page SessionContext "ComponentHealth option" WLEDControlAvailability "WLEDOperation list" int
      "string option"
  | Hyperhdr_Page SessionContext "ComponentHealth option" HyperHDRControlAvailability
      "HyperHDROperation list" "string option"
  | Health_Json HealthReport
  | Json_Page "(string, json) dict"

record http_response =
  rs_status :: http_status
  rs_content_type :: string
  rs_page :: portal_page
  rs_headers :: "(string \<times> string) list"
  rs_close :: bool

definition html_type :: string where "html_type = ''text/html; charset=utf-8''"
definition plain_type :: string where "plain_type = ''text/plain; charset=utf-8''"
definition json_type :: string where "json_type = ''application/json; charset=utf-8''"

text \<open>\<open>_send\<close>: the response, and the headers it puts on the wire for a body of so many bytes.\<close>

definition send_page :: "portal_page \<Rightarrow> string \<Rightarrow> http_status \<Rightarrow> (string \<times> string) list \<Rightarrow> bool \<Rightarrow> http_response" where
  "send_page body content_type status headers close =
     \<lparr>rs_status = status, rs_content_type = content_type, rs_page = body, rs_headers = headers,
      rs_close = close\<rparr>"

definition sent_headers :: "nat \<Rightarrow> http_response \<Rightarrow> (string \<times> string) list" where
  "sent_headers body_length r =
     [(''Content-Type'', rs_content_type r),
      (''Content-Length'', decimal body_length),
      (''Cache-Control'', ''no-store''),
      (''Content-Security-Policy'',
       ''default-src 'none'; style-src 'self'; base-uri 'none'; frame-ancestors 'none'; form-action ''
         @ [CHR 0x27] @ ''self'' @ [CHR 0x27]),
      (''Referrer-Policy'', ''no-referrer''),
      (''X-Content-Type-Options'', ''nosniff''),
      (''X-Frame-Options'', ''DENY'')] @ rs_headers r"

definition redirect :: "string \<Rightarrow> string option \<Rightarrow> http_response" where
  "redirect location cookie =
     send_page (Plain []) plain_type SEE_OTHER
       ((''Location'', location) # (case cookie of None \<Rightarrow> [] | Some c \<Rightarrow> [(''Set-Cookie'', c)])) False"

definition send_json :: "(string, json) dict \<Rightarrow> http_status \<Rightarrow> http_response" where
  "send_json payload status = send_page (Json_Page payload) json_type status [] False"

definition control_unavailable :: "bool \<Rightarrow> bool \<Rightarrow> http_response" where
  "control_unavailable html close =
     (if html
      then send_page (Login_Page False ''/controls'' None) html_type NOT_FOUND [] close
      else (send_json [(''schema_version'', JInt 1), (''error'', JString ''control_plane_unavailable'')]
              NOT_FOUND)\<lparr>rs_close := close\<rparr>)"

text \<open>Header fields are found without regard to case; \<open>get\<close> returns the first.\<close>

definition header_values :: "string \<Rightarrow> portal_request \<Rightarrow> string list option" where
  "header_values name rq =
     (case filter (\<lambda>(n, v). lower n = lower name) (rq_headers rq) of
        [] \<Rightarrow> None
      | found \<Rightarrow> Some (map snd found))"

definition header_of :: "string \<Rightarrow> portal_request \<Rightarrow> string option" where
  "header_of name rq = map_option hd (header_values name rq)"

definition client_identifier_of :: "portal_request \<Rightarrow> string" where
  "client_identifier_of rq =
     (case rq_client rq of None \<Rightarrow> ''unidentified-client'' | Some address \<Rightarrow> address)"

section \<open>Tables\<close>

definition WLED_POST_OPERATIONS :: "(string, WLEDOperation) dict" where
  "WLED_POST_OPERATIONS =
     [(''/controls/wled/power-on'', POWER_ON), (''/controls/wled/power-off'', POWER_OFF),
      (''/controls/wled/brightness'', BRIGHTNESS_SET)]"

definition HYPERHDR_POST_OPERATIONS :: "(string, HyperHDROperation) dict" where
  "HYPERHDR_POST_OPERATIONS =
     [(''/controls/hyperhdr/video-grabber/enable'', VIDEO_GRABBER_ENABLE),
      (''/controls/hyperhdr/video-grabber/disable'', VIDEO_GRABBER_DISABLE),
      (''/controls/hyperhdr/led-output/enable'', LED_OUTPUT_ENABLE),
      (''/controls/hyperhdr/led-output/disable'', LED_OUTPUT_DISABLE)]"

definition AMBIENT_POST_OPERATIONS :: "(string, AuroraOperation) dict" where
  "AMBIENT_POST_OPERATIONS =
     [(''/controls/ambient/on'', AMBIENT_ON), (''/controls/ambient/off'', AMBIENT_OFF)]"

definition WLED_NOTICE_VALUES :: "string list" where
  "WLED_NOTICE_VALUES =
     [''verified'', ''denied'', ''invalid'', ''rate_limited'', ''busy'', ''failed'', ''unverified'']"

definition HYPERHDR_NOTICE_VALUES :: "string list" where
  "HYPERHDR_NOTICE_VALUES =
     [''verified'', ''denied'', ''rate_limited'', ''busy'', ''failed'', ''unverified'']"

definition AMBIENT_NOTICE_VALUES :: "string list" where
  "AMBIENT_NOTICE_VALUES =
     [''ambient_completed'', ''ambient_partial'', ''ambient_unverified'', ''ambient_denied'',
      ''ambient_rate_limited'', ''ambient_busy'', ''ambient_failed'']"

definition PORTAL_PATHS :: "string list" where
  "PORTAL_PATHS =
     [''/'', ''/wled'', ''/hyperhdr'', ''/capture'', ''/system'', ''/room-map'', ''/spatial-intelligence'']"

definition PORTAL_CSS_PATH :: string where
  "PORTAL_CSS_PATH = ''/static/portal.css''"

text \<open>The form field is a decimal numeral of one to three digits without a leading zero.\<close>

definition brightness_form_value :: "string \<Rightarrow> bool" where
  "brightness_form_value s \<longleftrightarrow>
     1 \<le> length s \<and> length s \<le> 3 \<and> in_range CHR ''1'' CHR ''9'' (hd s) \<and>
     list_all (in_range CHR ''0'' CHR ''9'') (tl s)"

definition parse_brightness :: "string option \<Rightarrow> int option" where
  "parse_brightness field =
     (case field of
        None \<Rightarrow> None
      | Some s \<Rightarrow>
          if \<not> brightness_form_value s then None
          else
            (let parsed = int (decimal_value s)
             in if 1 \<le> parsed \<and> parsed \<le> 255 then Some parsed else None))"

definition result_notice :: "WLEDControlResult \<Rightarrow> string" where
  "result_notice r =
     (if wr_reason r = AR_INVALID_BRIGHTNESS then ''invalid''
      else
        (case wr_status r of
           WS_VERIFIED \<Rightarrow> ''verified'' | WS_DENIED \<Rightarrow> ''denied'' | WS_RATE_LIMITED \<Rightarrow> ''rate_limited''
         | WS_BUSY \<Rightarrow> ''busy'' | WS_FAILED \<Rightarrow> ''failed'' | WS_UNVERIFIED \<Rightarrow> ''unverified''))"

definition hyperhdr_result_notice :: "HyperHDRControlResult \<Rightarrow> string" where
  "hyperhdr_result_notice r =
     (case hs_status r of
        HS_VERIFIED \<Rightarrow> ''verified'' | HS_DENIED \<Rightarrow> ''denied'' | HS_RATE_LIMITED \<Rightarrow> ''rate_limited''
      | HS_BUSY \<Rightarrow> ''busy'' | HS_FAILED \<Rightarrow> ''failed'' | HS_UNVERIFIED \<Rightarrow> ''unverified'')"

definition ambient_result_notice :: "AmbientControlResult \<Rightarrow> string" where
  "ambient_result_notice r =
     (case am_status r of
        AS_COMPLETED \<Rightarrow> ''ambient_completed'' | AS_PARTIALLY_COMPLETED \<Rightarrow> ''ambient_partial''
      | AS_UNVERIFIED \<Rightarrow> ''ambient_unverified'' | AS_DENIED \<Rightarrow> ''ambient_denied''
      | AS_RATE_LIMITED \<Rightarrow> ''ambient_rate_limited'' | AS_BUSY \<Rightarrow> ''ambient_busy''
      | AS_FAILED \<Rightarrow> ''ambient_failed'')"

section \<open>The server and its environment\<close>

text \<open>
  The four services the server object carries; the WLED and HyperHDR services are those the ambient
  service controls. Ghost: the number of sweeps of the collectors made so far.
\<close>

record dashboard_server =
  sr_health :: HealthService
  sr_refresh_seconds :: int
  sr_control :: auth_service
  sr_ambient :: ambient_service
  sr_profile :: string
  sr_world :: control_world
  sr_sweeps :: nat

record server_env =
  se_control :: control_env
  se_primitives :: auth_primitives
  se_split :: "string \<Rightarrow> (string \<times> string) option"
  se_form_fields :: "nat \<Rightarrow> string \<Rightarrow> (string \<times> string) list option"
  se_query_fields :: "nat \<Rightarrow> string \<Rightarrow> (string, string list) dict option"
  se_cookies :: "string \<Rightarrow> (string \<times> string) list option"
  se_collect :: "nat \<Rightarrow> ComponentHealth list"
  se_checked_at :: "nat \<Rightarrow> string"

text \<open>The cache invalidator of the device services is \<open>HealthService.invalidate\<close>, which returns.\<close>

definition control_of :: "server_env \<Rightarrow> control_env" where
  "control_of env = (se_control env)\<lparr>env_invalidator := (\<lambda>_. True)\<rparr>"

definition on_auth ::
  "(auth_service \<times> control_world \<Rightarrow> 'r \<times> (auth_service \<times> control_world)) \<Rightarrow> dashboard_server \<Rightarrow>
     'r \<times> dashboard_server" where
  "on_auth call st =
     (let (r, (s, w)) = call (sr_control st, sr_world st)
      in (r, st\<lparr>sr_control := s, sr_world := w\<rparr>))"

definition on_world :: "(control_world \<Rightarrow> control_world) \<Rightarrow> dashboard_server \<Rightarrow> dashboard_server" where
  "on_world change st = st\<lparr>sr_world := change (sr_world st)\<rparr>"

text \<open>A call of a device service; what it invalidated of the health cache is gone.\<close>

definition on_ambient ::
  "(ambient_state \<Rightarrow> 'r \<times> ambient_state) \<Rightarrow> dashboard_server \<Rightarrow> 'r \<times> dashboard_server" where
  "on_ambient call st =
     (let (r, (a, w)) = call (sr_ambient st, sr_world st)
      in (r, st\<lparr>sr_ambient := a, sr_world := w,
              sr_health := (invalidate_health ^^ (invalidations w - invalidations (sr_world st))) (sr_health st)\<rparr>))"

definition on_wled_service ::
  "(wled_service \<times> control_world \<Rightarrow> 'r \<times> (wled_service \<times> control_world)) \<Rightarrow> dashboard_server \<Rightarrow>
     'r \<times> dashboard_server" where
  "on_wled_service call = on_ambient (\<lambda>(a, w).
     let (r, (s, w1)) = call (ab_wled a, w) in (r, (a\<lparr>ab_wled := s\<rparr>, w1)))"

definition on_hyperhdr_service ::
  "(hyperhdr_service \<times> control_world \<Rightarrow> 'r \<times> (hyperhdr_service \<times> control_world)) \<Rightarrow> dashboard_server \<Rightarrow>
     'r \<times> dashboard_server" where
  "on_hyperhdr_service call = on_ambient (\<lambda>(a, w).
     let (r, (s, w1)) = call (ab_hyperhdr a, w) in (r, (a\<lparr>ab_hyperhdr := s\<rparr>, w1)))"

text \<open>One uninterrupted call of \<open>HealthService.get_health\<close>.\<close>

definition get_health :: "server_env \<Rightarrow> dashboard_server \<Rightarrow> HealthReport \<times> dashboard_server" where
  "get_health env st =
     (let (now, w1) = read_clock (se_control env) (sr_world st)
      in case fresh_report now (sr_health st) of
           Some report \<Rightarrow> (report, st\<lparr>sr_world := w1\<rparr>)
         | None \<Rightarrow>
             (let n = sr_sweeps st;
                  (stored_at, w2) = read_clock (se_control env) w1;
                  (report, h) = finish_sweep (start_sweep now (sr_health st)) (se_collect env n)
                                  (se_checked_at env n) stored_at (sr_health st)
              in (report, st\<lparr>sr_health := h, sr_world := w2, sr_sweeps := Suc n\<rparr>)))"

section \<open>What every handler uses\<close>

definition request_session ::
  "server_env \<Rightarrow> portal_request \<Rightarrow> dashboard_server \<Rightarrow>
     (string option \<times> SessionContext option) \<times> dashboard_server" where
  "request_session env rq st =
     (let cookie = read_session_cookie (se_cookies env) (header_of ''Cookie'' rq)
      in if ck_malformed cookie then ((None, None), on_world audit_malformed_cookie st)
         else
           (let (session, st1) =
              on_auth (resolve_session (se_primitives env) (control_of env) (ck_token cookie)) st
            in ((ck_token cookie, session), st1)))"

text \<open>
  The fields or the error, and whether the connection is to be closed. The outer \<open>None\<close> is the
  \<open>ValueError\<close> of the header validation.
\<close>

definition read_form ::
  "server_env \<Rightarrow> portal_request \<Rightarrow> int \<Rightarrow> string set \<Rightarrow> string set \<Rightarrow>
     ((string, string) dict option \<times> FormError option \<times> bool) option" where
  "read_form env rq maximum_body_bytes allowed_fields required_fields =
     (case validate_form_headers (header_values ''Content-Type'' rq) (header_values ''Content-Length'' rq)
             (header_of ''Transfer-Encoding'' rq) maximum_body_bytes of
        None \<Rightarrow> None
      | Some (body_length, error) \<Rightarrow>
          (case (body_length, error) of
             (Some n, None) \<Rightarrow>
               (let body = take (nat n) (rq_body rq);
                    malformed = \<lparr>fe_status = BAD_REQUEST, fe_reason = AR_MALFORMED_FORM\<rparr>
                in if int (length body) \<noteq> n then Some (None, Some malformed, True)
                   else
                     (case parse_form (se_form_fields env) body allowed_fields required_fields of
                        None \<Rightarrow> Some (None, Some malformed, False)
                      | Some found \<Rightarrow> Some (Some found, None, False)))
           | _ \<Rightarrow> Some (None, error, True)))"

text \<open>The error a handler answers, or the fields it goes on with.\<close>

definition form_outcome ::
  "(string, string) dict option \<Rightarrow> FormError option \<Rightarrow> FormError + (string, string) dict" where
  "form_outcome found error =
     (case (error, found) of
        (None, Some fs) \<Rightarrow> Inr fs
      | (Some e, _) \<Rightarrow> Inl e
      | (None, None) \<Rightarrow> Inl \<lparr>fe_status = BAD_REQUEST, fe_reason = AR_MALFORMED_FORM\<rparr>)"

text \<open>The query's \<open>next\<close> and \<open>notice\<close>: a field given exactly once.\<close>

definition single_query_value :: "server_env \<Rightarrow> nat \<Rightarrow> string \<Rightarrow> string \<Rightarrow> string option" where
  "single_query_value env bound name query =
     (case se_query_fields env bound query of
        None \<Rightarrow> None
      | Some found \<Rightarrow>
          (case dict_get found name of
             Some [v] \<Rightarrow> Some v
           | _ \<Rightarrow> None))"

definition query_next_path :: "server_env \<Rightarrow> string \<Rightarrow> string" where
  "query_next_path env query = safe_next_path (single_query_value env 4 ''next'' query)"

definition notice_of :: "server_env \<Rightarrow> string list \<Rightarrow> string \<Rightarrow> string option" where
  "notice_of env known query =
     (case single_query_value env 2 ''notice'' query of
        None \<Rightarrow> None
      | Some v \<Rightarrow> if v \<in> set known then Some v else None)"

definition combined_capabilities :: "dashboard_server \<Rightarrow> ControlCapabilities" where
  "combined_capabilities st =
     (let a = sr_ambient st;
          operations = cap_available_operations (ambient_capabilities a) @
            cap_available_operations (wled_capabilities (ab_wled a)) @
            cap_available_operations (hyperhdr_capabilities (ab_hyperhdr a))
      in control_capabilities (operations \<noteq> []) operations)"

definition method_not_allowed :: "string \<Rightarrow> http_response" where
  "method_not_allowed path =
     send_page (Plain (''method not allowed'' @ [CHR 0x0A])) plain_type METHOD_NOT_ALLOWED
       [(''Allow'',
         if path = ''/login'' then ''GET, POST''
         else if path = ''/logout'' \<or> path \<in> set (dict_keys WLED_POST_OPERATIONS) \<or>
                 path \<in> set (dict_keys HYPERHDR_POST_OPERATIONS) \<or>
                 path \<in> set (dict_keys AMBIENT_POST_OPERATIONS)
         then ''POST'' else ''GET'')] True"

section \<open>Reading\<close>

definition get_login :: "server_env \<Rightarrow> portal_request \<Rightarrow> string \<Rightarrow> dashboard_server \<Rightarrow> http_response \<times> dashboard_server"
  where
  "get_login env rq query st =
     (if \<not> authentication_enabled (sr_control st)
      then (send_page (Login_Page False ''/controls'' None) html_type NOT_FOUND [] False, st)
      else
        (let ((token, session), st1) = request_session env rq st
         in if session \<noteq> None then (redirect ''/controls'' None, st1)
            else (send_page (Login_Page True (query_next_path env query) None) html_type HTTP_OK [] False, st1)))"

text \<open>The guard in front of every page of controls: the open session, or the response and the way it is audited.\<close>

definition with_session ::
  "server_env \<Rightarrow> portal_request \<Rightarrow> string \<Rightarrow>
     (SessionContext \<Rightarrow> dashboard_server \<Rightarrow> http_response \<times> dashboard_server) \<Rightarrow> dashboard_server \<Rightarrow>
     http_response \<times> dashboard_server" where
  "with_session env rq login page st =
     (if \<not> authentication_enabled (sr_control st)
      then (control_unavailable True False, on_world (audit_page_denied AR_AUTHENTICATION_DISABLED) st)
      else
        (let ((token, session), st1) = request_session env rq st
         in case session of
              None \<Rightarrow> (redirect login None, on_world (audit_page_denied AR_AUTHENTICATION_REQUIRED) st1)
            | Some opened \<Rightarrow> page opened st1))"

definition get_controls :: "server_env \<Rightarrow> portal_request \<Rightarrow> string \<Rightarrow> dashboard_server \<Rightarrow> http_response \<times> dashboard_server"
  where
  "get_controls env rq query = with_session env rq ''/login?next=%2Fcontrols'' (\<lambda>opened st1.
     let (report, st2) = get_health env st1;
         a = sr_ambient st2
     in (send_page (Controls_Page
           \<lparr>cv_session = opened, cv_report = report, cv_profile = sr_profile st2,
            cv_capabilities = combined_capabilities st2,
            cv_ambient_availability = ambient_availability a,
            cv_ambient_operations = ambient_available_operations a,
            cv_ambient_notice = notice_of env AMBIENT_NOTICE_VALUES query,
            cv_wled_availability = wled_availability (ab_wled a),
            cv_wled_operations = wled_available_operations (ab_wled a),
            cv_wled_maximum_brightness = wled_maximum_brightness (ab_wled a),
            cv_hyperhdr_availability = hyperhdr_availability (ab_hyperhdr a),
            cv_hyperhdr_operations = hyperhdr_available_operations (ab_hyperhdr a)\<rparr>)
           html_type HTTP_OK [] False, st2))"

definition named_component :: "string \<Rightarrow> HealthReport \<Rightarrow> ComponentHealth option" where
  "named_component name report = find (\<lambda>c. ch_name c = name) (hr_components report)"

definition get_wled_controls ::
  "server_env \<Rightarrow> portal_request \<Rightarrow> string \<Rightarrow> dashboard_server \<Rightarrow> http_response \<times> dashboard_server" where
  "get_wled_controls env rq query = with_session env rq ''/login?next=%2Fcontrols%2Fwled'' (\<lambda>opened st1.
     let (report, st2) = get_health env st1;
         s = ab_wled (sr_ambient st2)
     in (send_page (Wled_Page opened (named_component ''wled'' report) (wled_availability s)
           (wled_available_operations s) (wled_maximum_brightness s) (notice_of env WLED_NOTICE_VALUES query))
           html_type HTTP_OK [] False, st2))"

definition get_hyperhdr_controls ::
  "server_env \<Rightarrow> portal_request \<Rightarrow> string \<Rightarrow> dashboard_server \<Rightarrow> http_response \<times> dashboard_server" where
  "get_hyperhdr_controls env rq query = with_session env rq ''/login?next=%2Fcontrols%2Fhyperhdr'' (\<lambda>opened st1.
     let (report, st2) = get_health env st1;
         s = ab_hyperhdr (sr_ambient st2)
     in (send_page (Hyperhdr_Page opened (named_component ''hyperhdr'' report) (hyperhdr_availability s)
           (hyperhdr_available_operations s) (notice_of env HYPERHDR_NOTICE_VALUES query))
           html_type HTTP_OK [] False, st2))"

definition get_control_status :: "server_env \<Rightarrow> portal_request \<Rightarrow> dashboard_server \<Rightarrow> http_response \<times> dashboard_server"
  where
  "get_control_status env rq st =
     (if \<not> authentication_enabled (sr_control st)
      then (control_unavailable False False, on_world (audit_api_denied AR_AUTHENTICATION_DISABLED) st)
      else
        (let ((token, session), st1) = request_session env rq st
         in case session of
              None \<Rightarrow>
                (send_json [(''schema_version'', JInt 1), (''authenticated'', JBool False),
                            (''error'', JString ''authentication_required'')] UNAUTHORIZED,
                 on_world (audit_api_denied AR_AUTHENTICATION_REQUIRED) st1)
            | Some opened \<Rightarrow>
                (send_json (capabilities_to_dict (combined_capabilities st1)) HTTP_OK, st1)))"

definition portal_control_link ::
  "server_env \<Rightarrow> portal_request \<Rightarrow> dashboard_server \<Rightarrow> ControlNavigationLink option \<times> dashboard_server" where
  "portal_control_link env rq st =
     (if \<not> authentication_enabled (sr_control st) then (None, st)
      else
        (let ((token, session), st1) = request_session env rq st
         in (Some (if session \<noteq> None then NAV_CONTROLS else NAV_LOGIN), st1)))"

definition get_report :: "server_env \<Rightarrow> portal_request \<Rightarrow> string \<Rightarrow> dashboard_server \<Rightarrow> http_response \<times> dashboard_server"
  where
  "get_report env rq path st =
     (let (report, st1) = get_health env st
      in if path = ''/api/health'' then (send_page (Health_Json report) json_type HTTP_OK [] False, st1)
         else
           (let (link, st2) = portal_control_link env rq st1
            in (send_page (Portal_Page report path (sr_refresh_seconds st2) link (sr_profile st2))
                  html_type HTTP_OK [] False, st2)))"

definition do_GET ::
  "server_env \<Rightarrow> portal_request \<Rightarrow> string \<Rightarrow> string \<Rightarrow> dashboard_server \<Rightarrow> http_response \<times> dashboard_server" where
  "do_GET env rq path query st =
     (if path \<in> set (dict_keys WLED_POST_OPERATIONS) \<or> path \<in> set (dict_keys HYPERHDR_POST_OPERATIONS) \<or>
         path \<in> set (dict_keys AMBIENT_POST_OPERATIONS)
      then (method_not_allowed path, st)
      else if path = PORTAL_CSS_PATH
      then (send_page Stylesheet ''text/css; charset=utf-8'' HTTP_OK [] False, st)
      else if path = ''/login'' then get_login env rq query st
      else if path = ''/controls'' then get_controls env rq query st
      else if path = ''/controls/wled'' then get_wled_controls env rq query st
      else if path = ''/controls/hyperhdr'' then get_hyperhdr_controls env rq query st
      else if path = ''/api/control/status'' then get_control_status env rq st
      else if path \<notin> set PORTAL_PATHS \<and> path \<noteq> ''/api/health''
      then (send_page (Plain (''not found'' @ [CHR 0x0A])) plain_type NOT_FOUND [] False, st)
      else get_report env rq path st)"

section \<open>Posting\<close>

text \<open>A refused form: the audited reason is the caller's business, the page is fixed.\<close>

definition refused_form :: "string \<Rightarrow> FormError \<Rightarrow> bool \<Rightarrow> http_response" where
  "refused_form message e close =
     send_page (Plain (message @ [CHR 0x0A])) plain_type (Form_Refused (fe_status e)) [] close"

text \<open>
  The part the three operation handlers share up to the submitted form: who asks, then what was
  submitted. \<open>deny\<close> is the service's \<open>audit_denied\<close> for the operation, \<open>submit\<close> the rest.
\<close>

definition with_operation_form ::
  "server_env \<Rightarrow> portal_request \<Rightarrow> (AuditReason \<Rightarrow> control_world \<Rightarrow> control_world) \<Rightarrow> string \<Rightarrow> string \<Rightarrow> int \<Rightarrow>
     string set \<Rightarrow>
     (SessionContext \<Rightarrow> (string, string) dict \<Rightarrow> dashboard_server \<Rightarrow> http_response option \<times> dashboard_server) \<Rightarrow>
     dashboard_server \<Rightarrow> http_response option \<times> dashboard_server" where
  "with_operation_form env rq deny login message limit allowed submit st =
     (if \<not> authentication_enabled (sr_control st)
      then (Some (control_unavailable True True), on_world (deny AR_AUTHENTICATION_DISABLED) st)
      else
        (let ((token, session), st1) = request_session env rq st
         in case session of
              None \<Rightarrow> (Some (redirect login None), on_world (deny AR_AUTHENTICATION_REQUIRED) st1)
            | Some opened \<Rightarrow>
                (case read_form env rq limit allowed {} of
                   None \<Rightarrow> (None, st1)
                 | Some (found, error, close) \<Rightarrow>
                     (case form_outcome found error of
                        Inl e \<Rightarrow> (Some (refused_form message e close), on_world (deny (fe_reason e)) st1)
                      | Inr fs \<Rightarrow> submit opened fs st1))))"

text \<open>The redirect after an operation; no result is an exception of the service.\<close>

definition redirect_notice :: "string \<Rightarrow> ('r \<Rightarrow> string) \<Rightarrow> 'r option \<Rightarrow> http_response option" where
  "redirect_notice page notice result =
     map_option (\<lambda>r. redirect (page @ ''?notice='' @ notice r) None) result"

definition ambient_fields :: "AuroraOperation \<Rightarrow> string set" where
  "ambient_fields operation =
     (if operation = AMBIENT_OFF then {''csrf_token'', ''confirmation''} else {''csrf_token''})"

definition submit_ambient ::
  "server_env \<Rightarrow> nat \<Rightarrow> portal_request \<Rightarrow> AuroraOperation \<Rightarrow> SessionContext \<Rightarrow> (string, string) dict \<Rightarrow>
     dashboard_server \<Rightarrow> http_response option \<times> dashboard_server" where
  "submit_ambient env thread rq operation opened fs st =
     (let csrf = dict_get fs ''csrf_token'';
          client = client_identifier_of rq;
          (result, st1) = on_ambient
            (if operation = AMBIENT_ON
             then ambient_on (control_of env) thread (Some opened) csrf client
             else ambient_off (control_of env) thread (Some opened) csrf (dict_get fs ''confirmation'') client) st
      in (redirect_notice ''/controls'' ambient_result_notice result, st1))"

definition post_ambient_operation ::
  "server_env \<Rightarrow> nat \<Rightarrow> portal_request \<Rightarrow> AuroraOperation \<Rightarrow> dashboard_server \<Rightarrow>
     http_response option \<times> dashboard_server" where
  "post_ambient_operation env thread rq operation =
     with_operation_form env rq (ambient_audit_denied operation) ''/login?next=%2Fcontrols''
       ''Unable to process the ambient operation request.'' AMBIENT_CONTROL_BODY_LIMIT
       (ambient_fields operation) (submit_ambient env thread rq operation)"

definition wled_fields :: "WLEDOperation \<Rightarrow> string set" where
  "wled_fields operation =
     (if operation = POWER_OFF then {''csrf_token'', ''confirmation''}
      else if operation = BRIGHTNESS_SET then {''csrf_token'', ''brightness''} else {''csrf_token''})"

text \<open>A brightness that does not parse is reported only after the session and the CSRF token were checked.\<close>

definition submit_brightness ::
  "server_env \<Rightarrow> nat \<Rightarrow> portal_request \<Rightarrow> SessionContext \<Rightarrow> (string, string) dict \<Rightarrow> dashboard_server \<Rightarrow>
     http_response option \<times> dashboard_server" where
  "submit_brightness env thread rq opened fs st =
     (let csrf = dict_get fs ''csrf_token''
      in case parse_brightness (dict_get fs ''brightness'') of
           None \<Rightarrow>
             (case wled_request_security_failure (ab_wled (sr_ambient st)) BRIGHTNESS_SET (Some opened) csrf
                     (sr_world st) of
                Some (failure, w) \<Rightarrow>
                  (redirect_notice ''/controls/wled'' result_notice (Some failure), st\<lparr>sr_world := w\<rparr>)
              | None \<Rightarrow>
                  (Some (redirect ''/controls/wled?notice=invalid'' None),
                   on_world (wled_audit_denied BRIGHTNESS_SET AR_INVALID_BRIGHTNESS) st))
         | Some brightness \<Rightarrow>
             (let (result, st1) = on_wled_service
                (set_brightness (control_of env) thread (Some opened) csrf (Py_Int brightness)
                   (client_identifier_of rq)) st
              in (redirect_notice ''/controls/wled'' result_notice result, st1)))"

definition submit_wled ::
  "server_env \<Rightarrow> nat \<Rightarrow> portal_request \<Rightarrow> WLEDOperation \<Rightarrow> SessionContext \<Rightarrow> (string, string) dict \<Rightarrow>
     dashboard_server \<Rightarrow> http_response option \<times> dashboard_server" where
  "submit_wled env thread rq operation opened fs st =
     (if operation = BRIGHTNESS_SET then submit_brightness env thread rq opened fs st
      else
        (let csrf = dict_get fs ''csrf_token'';
             client = client_identifier_of rq;
             (result, st1) = on_wled_service
               (if operation = POWER_ON
                then power_on (control_of env) thread (Some opened) csrf client
                else power_off (control_of env) thread (Some opened) csrf (dict_get fs ''confirmation'') client) st
         in (redirect_notice ''/controls/wled'' result_notice result, st1)))"

definition post_wled_operation ::
  "server_env \<Rightarrow> nat \<Rightarrow> portal_request \<Rightarrow> WLEDOperation \<Rightarrow> dashboard_server \<Rightarrow>
     http_response option \<times> dashboard_server" where
  "post_wled_operation env thread rq operation =
     with_operation_form env rq (wled_audit_denied operation) ''/login?next=%2Fcontrols%2Fwled''
       ''Unable to process the WLED operation request.'' WLED_CONTROL_BODY_LIMIT
       (wled_fields operation) (submit_wled env thread rq operation)"

definition hyperhdr_fields :: "HyperHDROperation \<Rightarrow> string set" where
  "hyperhdr_fields operation =
     (if operation \<in> {VIDEO_GRABBER_DISABLE, LED_OUTPUT_DISABLE} then {''csrf_token'', ''confirmation''}
      else {''csrf_token''})"

definition submit_hyperhdr ::
  "server_env \<Rightarrow> nat \<Rightarrow> portal_request \<Rightarrow> HyperHDROperation \<Rightarrow> SessionContext \<Rightarrow> (string, string) dict \<Rightarrow>
     dashboard_server \<Rightarrow> http_response option \<times> dashboard_server" where
  "submit_hyperhdr env thread rq operation opened fs st =
     (let csrf = dict_get fs ''csrf_token'';
          confirmation = dict_get fs ''confirmation'';
          client = client_identifier_of rq;
          (result, st1) = on_hyperhdr_service
            (if operation = VIDEO_GRABBER_ENABLE
             then video_grabber_enable (control_of env) thread (Some opened) csrf client
             else if operation = VIDEO_GRABBER_DISABLE
             then video_grabber_disable (control_of env) thread (Some opened) csrf confirmation client
             else if operation = LED_OUTPUT_ENABLE
             then led_output_enable (control_of env) thread (Some opened) csrf client
             else led_output_disable (control_of env) thread (Some opened) csrf confirmation client) st
      in (redirect_notice ''/controls/hyperhdr'' hyperhdr_result_notice result, st1))"

definition post_hyperhdr_operation ::
  "server_env \<Rightarrow> nat \<Rightarrow> portal_request \<Rightarrow> HyperHDROperation \<Rightarrow> dashboard_server \<Rightarrow>
     http_response option \<times> dashboard_server" where
  "post_hyperhdr_operation env thread rq operation =
     with_operation_form env rq (hyperhdr_audit_denied operation) ''/login?next=%2Fcontrols%2Fhyperhdr''
       ''Unable to process the HyperHDR operation request.'' HYPERHDR_CONTROL_BODY_LIMIT
       (hyperhdr_fields operation) (submit_hyperhdr env thread rq operation)"

definition failed_login :: "string \<Rightarrow> string \<Rightarrow> http_status \<Rightarrow> bool \<Rightarrow> http_response" where
  "failed_login next_path message status close =
     send_page (Login_Page True next_path (Some message)) html_type status [] close"

text \<open>
  The login behind the form. No created session with a successful status would be the assertion of
  the code, and a cookie that cannot be made the \<open>ValueError\<close> of \<open>session_cookie\<close>.
\<close>

definition submit_login ::
  "server_env \<Rightarrow> portal_request \<Rightarrow> (string, string) dict \<Rightarrow> dashboard_server \<Rightarrow>
     http_response option \<times> dashboard_server" where
  "submit_login env rq fs st =
     (case (dict_get fs ''username'', dict_get fs ''password'') of
        (Some user, Some password) \<Rightarrow>
          if 64 < length user \<or> 1024 < length password
          then (Some (failed_login ''/controls'' ''Unable to process the authentication request.''
                  (Form_Refused BAD_REQUEST) False),
                on_world (audit_malformed_request AR_MALFORMED_FORM) st)
          else
            (let ((prior, session), st1) = request_session env rq st;
                 (outcome, st2) = on_auth
                   (authenticate (se_primitives env) (control_of env) user password (client_identifier_of rq) prior) st1
             in case outcome of
                  Inl e \<Rightarrow> (None, st2)
                | Inr result \<Rightarrow>
                    if lr_status result = LG_SUCCESS
                    then
                      (case lr_created_session result of
                         None \<Rightarrow> (None, st2)
                       | Some created \<Rightarrow>
                           (case session_cookie (created_token created) (session_ttl_seconds (sr_control st2))
                                   (secure_cookie (sr_control st2)) of
                              None \<Rightarrow> (None, st2)
                            | Some cookie \<Rightarrow>
                                (Some (redirect (safe_next_path (dict_get fs ''next'')) (Some cookie)), st2)))
                    else
                      (Some (failed_login (safe_next_path (dict_get fs ''next'')) ''Authentication failed.''
                         (if lr_status result = LG_RATE_LIMITED then TOO_MANY_REQUESTS else UNAUTHORIZED) False),
                       st2))
      | _ \<Rightarrow> (None, st))"

definition post_login ::
  "server_env \<Rightarrow> portal_request \<Rightarrow> dashboard_server \<Rightarrow> http_response option \<times> dashboard_server" where
  "post_login env rq st =
     (if \<not> authentication_enabled (sr_control st) then (Some (control_unavailable True True), st)
      else
        (case read_form env rq LOGIN_BODY_LIMIT {''username'', ''password'', ''next''} {''username'', ''password''} of
           None \<Rightarrow> (None, st)
         | Some (found, error, close) \<Rightarrow>
             (case form_outcome found error of
                Inl e \<Rightarrow>
                  (Some (failed_login ''/controls'' ''Unable to process the authentication request.''
                     (Form_Refused (fe_status e)) close),
                   on_world (audit_malformed_request (fe_reason e)) st)
              | Inr fs \<Rightarrow> submit_login env rq fs st)))"

definition post_logout ::
  "server_env \<Rightarrow> portal_request \<Rightarrow> dashboard_server \<Rightarrow> http_response option \<times> dashboard_server" where
  "post_logout env rq st =
     (if \<not> authentication_enabled (sr_control st)
      then (Some (control_unavailable True True), on_world (audit_page_denied AR_AUTHENTICATION_DISABLED) st)
      else
        (let (identity, st1) = request_session env rq st
         in case identity of
              (Some token, Some opened) \<Rightarrow>
                (case read_form env rq LOGOUT_BODY_LIMIT {''csrf_token''} {} of
                   None \<Rightarrow> (None, st1)
                 | Some (found, error, close) \<Rightarrow>
                     (case form_outcome found error of
                        Inl e \<Rightarrow>
                          (Some (refused_form ''Unable to process the authentication request.'' e close),
                           on_world (audit_malformed_request (fe_reason e)) st1)
                      | Inr fs \<Rightarrow>
                          (let (left, st2) = on_auth
                             (logout (se_primitives env) token opened (dict_get fs ''csrf_token'')) st1
                           in if \<not> left
                              then (Some (send_page
                                      (Plain (''Unable to process the authentication request.'' @ [CHR 0x0A]))
                                      plain_type FORBIDDEN [] False), st2)
                              else (Some (redirect ''/''
                                      (Some (cleared_session_cookie (secure_cookie (sr_control st2))))), st2))))
            | _ \<Rightarrow>
                (Some (send_page (Plain (''Authentication required.'' @ [CHR 0x0A])) plain_type UNAUTHORIZED
                   [(''Set-Cookie'', cleared_session_cookie (secure_cookie (sr_control st1)))] True),
                 on_world (audit_page_denied AR_AUTHENTICATION_REQUIRED) st1)))"

definition do_POST ::
  "server_env \<Rightarrow> nat \<Rightarrow> portal_request \<Rightarrow> string \<Rightarrow> dashboard_server \<Rightarrow> http_response option \<times> dashboard_server"
  where
  "do_POST env thread rq path st =
     (if path = ''/login'' then post_login env rq st
      else if path = ''/logout'' then post_logout env rq st
      else
        (case dict_get WLED_POST_OPERATIONS path of
           Some operation \<Rightarrow> post_wled_operation env thread rq operation st
         | None \<Rightarrow>
             (case dict_get HYPERHDR_POST_OPERATIONS path of
                Some operation \<Rightarrow> post_hyperhdr_operation env thread rq operation st
              | None \<Rightarrow>
                  (case dict_get AMBIENT_POST_OPERATIONS path of
                     Some operation \<Rightarrow> post_ambient_operation env thread rq operation st
                   | None \<Rightarrow> (Some (method_not_allowed path), st)))))"

text \<open>One request: the target is split first, whatever the method.\<close>

definition handle_request ::
  "server_env \<Rightarrow> nat \<Rightarrow> portal_request \<Rightarrow> dashboard_server \<Rightarrow> http_response option \<times> dashboard_server" where
  "handle_request env thread rq st =
     (case se_split env (rq_target rq) of
        None \<Rightarrow> (None, st)
      | Some (path, query) \<Rightarrow>
          (case rq_method rq of
             GET \<Rightarrow> (let (r, st1) = do_GET env rq path query st in (Some r, st1))
           | POST \<Rightarrow> do_POST env thread rq path st
           | _ \<Rightarrow> (Some (method_not_allowed path), st)))"

section \<open>Building the server\<close>

text \<open>
  \<open>build_server\<close> without injected services: one gate, numbered 0, for all three device services, and
  the health service's \<open>invalidate\<close> for their caches. \<open>keys\<close> are the keys the limiters draw, \<open>started\<close>
  is the health service's first reading of the clock. \<open>None\<close> is a \<open>ValueError\<close> of a constructor.
\<close>

definition build_server ::
  "(nat \<Rightarrow> network) \<Rightarrow> (nat \<Rightarrow> network) \<Rightarrow> (nat \<Rightarrow> network) \<Rightarrow> (string \<Rightarrow> string) \<Rightarrow> json_loads \<Rightarrow>
     (nat \<Rightarrow> bytes) \<Rightarrow> seconds \<Rightarrow> AuroraSettings \<Rightarrow> dashboard_server option" where
  "build_server net post_net get_net upper loads keys started a =
     (case new_auth_service (ds_authentication (ar_dashboard a)) (keys 0) of
        None \<Rightarrow> None
      | Some control \<Rightarrow>
          (case new_wled_service net loads (ar_wled a) (authentication_enabled control) None (keys 1) 0 of
             None \<Rightarrow> None
           | Some wled \<Rightarrow>
               (case new_hyperhdr_service post_net get_net upper loads (ar_hyperhdr a)
                       (authentication_enabled control) None (keys 2) 0 of
                  None \<Rightarrow> None
                | Some hyperhdr \<Rightarrow>
                    (case new_ambient_service (ar_ambient_controls a) (authentication_enabled control)
                            wled hyperhdr 0 (keys 3) of
                       None \<Rightarrow> None
                     | Some ambient \<Rightarrow>
                         Some \<lparr>sr_health = new_health_service (ds_refresh_seconds (ar_dashboard a)) started,
                           sr_refresh_seconds = ds_refresh_seconds (ar_dashboard a), sr_control = control,
                           sr_ambient = ambient, sr_profile = ap_configuration_profile (ar_application a),
                           sr_world = \<lparr>gates = (\<lambda>_. new_gate), audit_trail = [], invalidations = 0,
                             clock_reads = 0, device_calls = []\<rparr>,
                           sr_sweeps = 0\<rparr>))))"

end
