(* ===== verification/Dashboard_Correct.thy ===== *)
theory Dashboard_Correct
  imports Dashboard_Server
begin

text \<open>
  What a request may do to the server: the calls it makes on the authentication service, as a list, and
  the device calls it leads to. The session behind a device call is traced back to a login of the
  exchange log.
\<close>

section \<open>Effects of a request\<close>

text \<open>A request served at time \<open>now\<close>: the clock reads \<open>now\<close>.\<close>

definition at_server :: "seconds \<Rightarrow> server_env \<Rightarrow> server_env" where
  "at_server now env = env\<lparr>se_control := at_time now (se_control env)\<rparr>"

lemma at_server_simps [simp]:
  "se_primitives (at_server now env) = se_primitives env" "se_split (at_server now env) = se_split env"
  "se_form_fields (at_server now env) = se_form_fields env" "se_cookies (at_server now env) = se_cookies env"
  "se_query_fields (at_server now env) = se_query_fields env"
  "control_of (at_server now env) = at_time now (control_of env)"
  by (simp_all add: at_server_def control_of_def at_time_def)

definition auth_calls ::
  "server_env \<Rightarrow> seconds \<Rightarrow> auth_request list \<Rightarrow> auth_service \<times> control_world \<Rightarrow> auth_service \<times> control_world" where
  "auth_calls env now qs = fold (\<lambda>(t, q). auth_exec (se_primitives env) (control_of env) t q) (map (Pair now) qs)"

lemma auth_calls_simps [simp]:
  "auth_calls env now [] st = st"
  "auth_calls env now (q # qs) st =
    auth_calls env now qs (auth_exec (se_primitives env) (control_of env) now q st)"
  "auth_calls env now (qs @ qs1) st = auth_calls env now qs1 (auth_calls env now qs st)"
  by (simp_all add: auth_calls_def)

text \<open>The authentication service does not look at the shared world, its clock apart.\<close>

lemma auth_exec_world:
  "fst (auth_exec prim cenv now q (s, w)) = fst (auth_exec prim cenv now q (s, w1))"
proof (cases q)
  case (Login user password client prior)
  then show ?thesis
    by (simp add: auth_exec_def authenticate_def open_session_def read_clock_def Let_def
        split: prod.split sum.split option.split)
next
  case (Lookup token)
  then show ?thesis by (simp add: auth_exec_def lookup_sessions)
next
  case (Leave token session csrf)
  then show ?thesis by (simp add: auth_exec_def logout_def split: option.split)
qed (simp_all add: auth_exec_def active_session_count_def auth_tracked_client_count_def read_clock_def Let_def
    split: prod.split)

lemma auth_calls_world: "fst (auth_calls env now qs (s, w)) = fst (auth_calls env now qs (s, w1))"
proof (induction qs arbitrary: s w w1)
  case (Cons q qs)
  let ?run = "\<lambda>w. auth_exec (se_primitives env) (control_of env) now q (s, w)"
  have same: "fst (?run w) = fst (?run w1)" by (rule auth_exec_world)
  have "fst (auth_calls env now qs (?run w)) = fst (auth_calls env now qs (fst (?run w), snd (?run w1)))"
    using Cons.IH[of "fst (?run w)" "snd (?run w)" "snd (?run w1)"] by simp
  then show ?case using same by simp
qed simp

text \<open>The state after a number of steps, seen from the state before.\<close>

definition server_moved ::
  "server_env \<Rightarrow> seconds \<Rightarrow> auth_request list \<Rightarrow> (device_call \<times> bool) list \<Rightarrow> dashboard_server \<Rightarrow>
     dashboard_server \<Rightarrow> bool" where
  "server_moved env now qs new st st' \<longleftrightarrow>
     sr_control st' = fst (auth_calls env now qs (sr_control st, sr_world st)) \<and>
     (ambient_ready (sr_ambient st, sr_world st) \<longrightarrow> ambient_ready (sr_ambient st', sr_world st')) \<and>
     device_calls (sr_world st') = device_calls (sr_world st) @ new"

lemma server_moved_trans:
  assumes "server_moved env now qs new st st1" "server_moved env now qs1 new1 st1 st2"
  shows "server_moved env now (qs @ qs1) (new @ new1) st st2"
  using assms auth_calls_world[of env now qs1]
  by (simp add: server_moved_def) (metis prod.collapse)

lemma server_moved_refl [simp]: "server_moved env now [] [] st st"
  by (simp add: server_moved_def)

lemma server_moved_world:
  assumes "gates (change (sr_world st)) = gates (sr_world st)"
    and "device_calls (change (sr_world st)) = device_calls (sr_world st)"
  shows "server_moved env now [] [] st (on_world change st)"
  using assms ambient_ready_frame by (auto simp: server_moved_def on_world_def)

lemma audits_moved [simp]:
  "server_moved env now [] [] st (on_world (audit_page_denied r) st)"
  "server_moved env now [] [] st (on_world (audit_api_denied r) st)"
  "server_moved env now [] [] st (on_world audit_malformed_cookie st)"
  "server_moved env now [] [] st (on_world (audit_malformed_request r) st)"
  "server_moved env now [] [] st (on_world (wled_audit_denied x r) st)"
  "server_moved env now [] [] st (on_world (hyperhdr_audit_denied y r) st)"
  "server_moved env now [] [] st (on_world (ambient_audit_denied z r) st)"
  by (rule server_moved_world;
      simp add: audit_page_denied_def audit_api_denied_def audit_malformed_cookie_def
        audit_malformed_request_def wled_audit_denied_def hyperhdr_audit_denied_def ambient_audit_denied_def
        frame_simps)+

lemma auth_exec_frame:
  "gates (snd (auth_exec prim cenv now q st)) = gates (snd st) \<and>
   device_calls (snd (auth_exec prim cenv now q st)) = device_calls (snd st)"
proof (cases q)
  case (Login user password client prior)
  then show ?thesis
    by (auto simp: auth_exec_def authenticate_def open_session_def read_clock_def audit_def Let_def
        split: prod.split sum.split option.split)
next
  case (Lookup token)
  then show ?thesis
    by (auto simp: auth_exec_def resolve_session_def read_clock_def audit_def Let_def split: prod.split option.split)
next
  case (Leave token session csrf)
  then show ?thesis by (auto simp: auth_exec_def logout_def audit_def split: option.split prod.split)
qed (auto simp: auth_exec_def active_session_count_def auth_tracked_client_count_def read_clock_def Let_def
    split: prod.split)

lemma on_auth_moved:
  assumes "on_auth call st = (r, st')"
    and "snd (call (sr_control st, sr_world st)) =
      auth_exec (se_primitives env) (control_of env) now q (sr_control st, sr_world st)"
  shows "server_moved env now [q] [] st st'"
proof -
  let ?out = "auth_exec (se_primitives env) (control_of env) now q (sr_control st, sr_world st)"
  have st': "st' = st\<lparr>sr_control := fst ?out, sr_world := snd ?out\<rparr>"
    using assms by (auto simp: on_auth_def Let_def split: prod.splits)
  show ?thesis using auth_exec_frame[of "se_primitives env" "control_of env" now q "(sr_control st, sr_world st)"]
    by (auto simp: server_moved_def st' intro: ambient_ready_frame)
qed

definition cookie_token :: "server_env \<Rightarrow> portal_request \<Rightarrow> string option" where
  "cookie_token env rq = ck_token (read_session_cookie (se_cookies env) (header_of ''Cookie'' rq))"

lemma malformed_cookie_token:
  "ck_malformed (read_session_cookie load h) \<Longrightarrow> ck_token (read_session_cookie load h) = None"
  by (auto simp: read_session_cookie_def Let_def split: option.splits if_splits)

text \<open>The session of a request is what its cookie resolves to.\<close>

lemma request_session_moved:
  assumes "request_session (at_server now env) rq st = ((token, session), st')"
  obtains qs where "server_moved env now qs [] st st'" "\<forall>q \<in> set qs. \<exists>x. q = Lookup x"
    "sr_health st' = sr_health st" "token = cookie_token env rq"
    "\<forall>opened. session = Some opened \<longrightarrow> token \<noteq> None \<and>
       fst (resolve_session (se_primitives env) (at_time now (control_of env)) token (sr_control st, sr_world st)) =
         Some opened"
proof (cases "ck_malformed (read_session_cookie (se_cookies env) (header_of ''Cookie'' rq))")
  case True
  then show ?thesis
    using assms malformed_cookie_token[OF True]
    by (intro that[of "[]"]) (auto simp: request_session_def cookie_token_def on_world_def server_moved_def
        audit_malformed_cookie_def frame_simps intro: ambient_ready_frame)
next
  case False
  let ?t = "ck_token (read_session_cookie (se_cookies env) (header_of ''Cookie'' rq))"
  let ?call = "resolve_session (se_primitives env) (at_time now (control_of env)) ?t"
  have run: "on_auth ?call st = (session, st')" and token: "token = ?t"
    using assms False by (auto simp: request_session_def Let_def split: prod.splits)
  have "server_moved env now [Lookup ?t] [] st st'"
    by (rule on_auth_moved[OF run]) (simp add: auth_exec_def)
  moreover have "fst (?call (sr_control st, sr_world st)) = session" "sr_health st' = sr_health st"
    using run by (auto simp: on_auth_def Let_def split: prod.splits)
  moreover have "?t \<noteq> None" if "session = Some opened" for opened
  proof
    assume "?t = None"
    then show False using calculation(2) that by (simp add: resolve_session_def)
  qed
  ultimately show ?thesis using token by (intro that[of "[Lookup ?t]"]) (auto simp: cookie_token_def)
qed

lemma get_health_moved:
  assumes "get_health env1 st = (report, st')"
  shows "server_moved env now [] [] st st'"
  using assms ambient_ready_frame
  by (auto simp: get_health_def server_moved_def read_clock_def Let_def split: option.splits prod.splits)

section \<open>Device calls\<close>

lemma on_ambient_moved:
  assumes "on_ambient call st = (r, st')"
    and "ambient_ready (snd (call (sr_ambient st, sr_world st)))"
    and "device_calls (snd (snd (call (sr_ambient st, sr_world st)))) = device_calls (sr_world st) @ new"
  shows "server_moved env now [] new st st'"
  using assms by (auto simp: on_ambient_def server_moved_def Let_def split: prod.splits)

text \<open>What was behind the device calls of a service: a session with its CSRF token, and the calls it may ask for.\<close>

definition commanded ::
  "SessionContext option \<Rightarrow> string option \<Rightarrow> device_call set \<Rightarrow> (device_call \<times> bool) list \<Rightarrow> bool" where
  "commanded session csrf calls new \<longleftrightarrow>
     set (map fst new) \<subseteq> calls \<and> (new \<noteq> [] \<longrightarrow> csrf_matches session csrf)"

lemma on_wled_service_moved:
  assumes "on_wled_service (wled_serve cenv thread q) st = (r, st')"
    and "ambient_ready (sr_ambient st, sr_world st)"
  obtains new where "server_moved env now [] new st st'"
    "commanded (wled_request_session q) (wled_request_csrf q) {wled_request_call q} new"
proof -
  let ?a = "sr_ambient st" and ?w = "sr_world st"
  let ?out = "wled_serve cenv thread q (ab_wled ?a, ?w)"
  have ready: "wled_ready (ab_wled ?a, ?w)" using assms(2) by (simp add: ambient_ready_def)
  obtain l where l: "fst (snd ?out) = (ab_wled ?a)\<lparr>sv_limiter := l\<rparr>"
    using wled_serve_fields[OF ready] by blast
  have gates: "gates (snd (snd ?out)) = gates ?w"
    using wled_requests.run_gates[OF ready, of cenv thread q] by simp
  have "wled_ready ((ab_wled ?a)\<lparr>sv_limiter := l\<rparr>, snd (snd ?out))"
    using wled_requests.run_ready[OF ready, of cenv thread q] l by (metis prod.collapse)
  then have "ambient_ready (?a\<lparr>ab_wled := fst (snd ?out)\<rparr>, snd (snd ?out))"
    using assms(2) hyperhdr_ready_frame[OF _ gates] l by (auto simp: ambient_ready_def)
  moreover obtain new where new: "device_calls (snd (snd ?out)) = device_calls ?w @ new"
      "new \<noteq> [] \<longrightarrow> wled_authorised (ab_wled ?a) q"
      "one_call (wled_request_call q) (\<exists>r. fst ?out = Some r \<and> wr_status r = WS_VERIFIED) new"
    using wled_serve_calls[OF ready, of cenv thread q] by blast
  ultimately have "server_moved env now [] new st st'"
    by (intro on_ambient_moved[OF assms(1)[unfolded on_wled_service_def]]) (simp_all add: case_prod_beta Let_def)
  moreover have "commanded (wled_request_session q) (wled_request_csrf q) {wled_request_call q} new"
    using new(2,3) by (auto simp: commanded_def wled_authorised_def one_call_def split: if_splits)
  ultimately show thesis by (rule that)
qed

lemma on_hyperhdr_service_moved:
  assumes "on_hyperhdr_service (hyperhdr_serve cenv thread q) st = (r, st')"
    and "ambient_ready (sr_ambient st, sr_world st)"
  obtains new where "server_moved env now [] new st st'"
    "commanded (hq_session q) (hq_csrf q) {hyperhdr_request_call q} new"
proof -
  let ?a = "sr_ambient st" and ?w = "sr_world st"
  let ?out = "hyperhdr_serve cenv thread q (ab_hyperhdr ?a, ?w)"
  have ready: "hyperhdr_ready (ab_hyperhdr ?a, ?w)" using assms(2) by (simp add: ambient_ready_def)
  obtain l where l: "fst (snd ?out) = (ab_hyperhdr ?a)\<lparr>hv_limiter := l\<rparr>"
    using hyperhdr_serve_fields[OF ready] by blast
  have gates: "gates (snd (snd ?out)) = gates ?w"
    using hyperhdr_requests.run_gates[OF ready, of cenv thread q] by simp
  have "hyperhdr_ready ((ab_hyperhdr ?a)\<lparr>hv_limiter := l\<rparr>, snd (snd ?out))"
    using hyperhdr_requests.run_ready[OF ready, of cenv thread q] l by (metis prod.collapse)
  then have "ambient_ready (?a\<lparr>ab_hyperhdr := fst (snd ?out)\<rparr>, snd (snd ?out))"
    using assms(2) wled_ready_frame[OF _ gates] l by (auto simp: ambient_ready_def)
  moreover obtain new where new: "device_calls (snd (snd ?out)) = device_calls ?w @ new"
      "new \<noteq> [] \<longrightarrow> hyperhdr_authorised (ab_hyperhdr ?a) q"
      "one_call (hyperhdr_request_call q) (\<exists>r. fst ?out = Some r \<and> hs_status r = HS_VERIFIED) new"
    using hyperhdr_serve_calls[OF ready, of cenv thread q] by blast
  ultimately have "server_moved env now [] new st st'"
    by (intro on_ambient_moved[OF assms(1)[unfolded on_hyperhdr_service_def]]) (simp_all add: case_prod_beta Let_def)
  moreover have "commanded (hq_session q) (hq_csrf q) {hyperhdr_request_call q} new"
    using new(2,3) by (auto simp: commanded_def hyperhdr_authorised_iff one_call_def split: if_splits)
  ultimately show thesis by (rule that)
qed

lemma on_ambient_served:
  assumes "on_ambient (ambient_serve cenv thread operation session csrf confirmation client) st = (r, st')"
    and "ambient_ready (sr_ambient st, sr_world st)"
  obtains new where "server_moved env now [] new st st'"
    "commanded session csrf (set (map step_call (ambient_steps operation))) new"
proof -
  let ?a = "sr_ambient st" and ?w = "sr_world st"
  let ?out = "ambient_serve cenv thread operation session csrf confirmation client (?a, ?w)"
  obtain x new l where ended: "ambient_ended operation (?a\<lparr>ab_limiter := l\<rparr>, ?w) ?out x new"
    and report: "ambient_report (ambient_authorised ?a operation session csrf confirmation)
      (fst (begin_attempt (env_blake cenv) (env_clock cenv (clock_reads ?w)) client (ab_limiter ?a)))
      (owner (gates ?w (ab_gate ?a)) \<in> {None, Some thread}) operation x new"
    using ambient_serve_report[OF assms(2), of operation cenv thread session csrf confirmation client] by blast
  have calls: "subseq (map fst new) (map step_call (am_attempted x)) \<and> prefix (am_attempted x) (ambient_steps operation)"
    if "new \<noteq> []"
    using report that on_report_calls(1,2)[of "ambient_steps AMBIENT_ON"] off_report_calls(1,2)
    by (cases operation) (auto simp: ambient_report_def split: if_splits)
  have "set (map fst new) \<subseteq> set (map step_call (ambient_steps operation))"
  proof (cases "new = []")
    case False
    then have "subseq (map fst new) (map step_call (ambient_steps operation))"
      using calls prefix_imp_subseq[OF map_mono_prefix] by (blast intro: subseq_order.trans)
    then show ?thesis by (metis (no_types, lifting) subsetI subseq_singleton_left subseq_order.trans)
  qed simp
  moreover have "new \<noteq> [] \<longrightarrow> csrf_matches session csrf"
    using report by (auto simp: ambient_report_def ambient_authorised_def split: if_splits)
  ultimately have "commanded session csrf (set (map step_call (ambient_steps operation))) new"
    by (simp add: commanded_def)
  moreover have "server_moved env now [] new st st'"
    using ended by (intro on_ambient_moved[OF assms(1)]) (simp_all add: ambient_ended_def ambient_moved_def)
  ultimately show thesis by (rule that[rotated])
qed

text \<open>The calls that a path may lead to, given the fields of the form.\<close>

definition brightness_calls :: "(string, string) dict \<Rightarrow> device_call set" where
  "brightness_calls fs =
     (case parse_brightness (dict_get fs ''brightness'') of
        None \<Rightarrow> {} | Some n \<Rightarrow> {WLED_Call BRIGHTNESS_SET (BrightnessInput n)})"

definition wled_calls_for :: "WLEDOperation \<Rightarrow> (string, string) dict \<Rightarrow> device_call set" where
  "wled_calls_for operation fs =
     (if operation = BRIGHTNESS_SET then brightness_calls fs else {WLED_Call operation NoOperationInput})"

lemma wled_serve_eqs:
  "power_on cenv thread session csrf client = wled_serve cenv thread (Request_Power_On session csrf client)"
  "power_off cenv thread session csrf confirmation client =
    wled_serve cenv thread (Request_Power_Off session csrf confirmation client)"
  "set_brightness cenv thread session csrf brightness client =
    wled_serve cenv thread (Request_Brightness session csrf brightness client)"
  by (simp_all add: fun_eq_iff)

lemma commanded_mono: "commanded session csrf calls new \<Longrightarrow> calls \<subseteq> calls1 \<Longrightarrow> commanded session csrf calls1 new"
  by (auto simp: commanded_def)

lemma commanded_none [simp]: "commanded session csrf calls []"
  by (simp add: commanded_def)

lemma security_failure_frame:
  "wled_request_security_failure s operation session csrf w = Some (failure, w1) \<Longrightarrow>
    gates w1 = gates w \<and> device_calls w1 = device_calls w"
  using wled_authentication_failure_Some[of s operation session csrf w "(failure, w1)"]
  by (simp add: wled_request_security_failure_def wled_denied_to_def)

lemma submit_brightness_moved:
  assumes "submit_brightness env1 thread rq opened fs st = (r, st')"
    and "ambient_ready (sr_ambient st, sr_world st)"
  shows "\<exists>new. server_moved env now [] new st st' \<and>
    commanded (Some opened) (dict_get fs ''csrf_token'') (brightness_calls fs) new"
proof (cases "parse_brightness (dict_get fs ''brightness'')")
  case None
  then have "server_moved env now [] [] st st'" using assms ambient_ready_frame
    by (auto simp: submit_brightness_def server_moved_def Let_def on_world_def wled_audit_denied_def frame_simps
        dest!: security_failure_frame split: option.splits)
  then show ?thesis by (intro exI[of _ "[]"]) simp
next
  case (Some n)
  let ?q = "Request_Brightness (Some opened) (dict_get fs ''csrf_token'') (Py_Int n) (client_identifier_of rq)"
  obtain x where "on_wled_service (wled_serve (control_of env1) thread ?q) st = (x, st')"
    using assms(1) Some by (auto simp: submit_brightness_def wled_serve_eqs Let_def split: prod.splits)
  from on_wled_service_moved[OF this assms(2), of env now] show ?thesis
    by (auto simp: brightness_calls_def Some)
qed

lemma submit_wled_moved:
  assumes "submit_wled env1 thread rq operation opened fs st = (r, st')"
    and "ambient_ready (sr_ambient st, sr_world st)"
  shows "\<exists>new. server_moved env now [] new st st' \<and>
    commanded (Some opened) (dict_get fs ''csrf_token'') (wled_calls_for operation fs) new"
proof (cases "operation = BRIGHTNESS_SET")
  case True
  then show ?thesis using assms submit_brightness_moved
    by (simp add: submit_wled_def wled_calls_for_def)
next
  case False
  let ?csrf = "dict_get fs ''csrf_token''" and ?client = "client_identifier_of rq"
  let ?q = "if operation = POWER_ON then Request_Power_On (Some opened) ?csrf ?client
    else Request_Power_Off (Some opened) ?csrf (dict_get fs ''confirmation'') ?client"
  obtain x where "on_wled_service (wled_serve (control_of env1) thread ?q) st = (x, st')"
    using assms(1) False by (auto simp: submit_wled_def wled_serve_eqs Let_def split: prod.splits if_splits)
  from on_wled_service_moved[OF this assms(2), of env now]
  obtain new where "server_moved env now [] new st st'"
    "commanded (wled_request_session ?q) (wled_request_csrf ?q) {wled_request_call ?q} new" .
  then show ?thesis using False
    by (intro exI[of _ new]) (cases operation, simp_all add: wled_calls_for_def)
qed

lemma submit_hyperhdr_moved:
  assumes "submit_hyperhdr env1 thread rq operation opened fs st = (r, st')"
    and "ambient_ready (sr_ambient st, sr_world st)"
  shows "\<exists>new. server_moved env now [] new st st' \<and>
    commanded (Some opened) (dict_get fs ''csrf_token'') {HyperHDR_Call operation} new"
proof -
  let ?q = "HyperHDR_Request operation (Some opened) (dict_get fs ''csrf_token'') (dict_get fs ''confirmation'')
    (client_identifier_of rq)"
  obtain x where "on_hyperhdr_service (hyperhdr_serve (control_of env1) thread ?q) st = (x, st')"
    using assms(1) by (cases operation)
      (auto simp: submit_hyperhdr_def hyperhdr_serve_def Let_def split: prod.splits)
  from on_hyperhdr_service_moved[OF this assms(2), of env now] show ?thesis
    by (auto simp: hyperhdr_request_call_def)
qed

lemma submit_ambient_moved:
  assumes "submit_ambient env1 thread rq operation opened fs st = (r, st')"
    and "ambient_ready (sr_ambient st, sr_world st)"
  shows "\<exists>new. server_moved env now [] new st st' \<and>
    commanded (Some opened) (dict_get fs ''csrf_token'') (set (map step_call (ambient_steps operation))) new"
proof -
  obtain x where "on_ambient (ambient_serve (control_of env1) thread operation (Some opened)
      (dict_get fs ''csrf_token'') (dict_get fs ''confirmation'') (client_identifier_of rq)) st = (x, st')"
    using assms(1) by (cases operation)
      (auto simp: submit_ambient_def ambient_serve_def Let_def split: prod.splits)
  from on_ambient_served[OF this assms(2), of env now] show ?thesis by blast
qed

section \<open>Who asks\<close>

text \<open>Which form a path takes: the size of its body, its fields and the required ones.\<close>

definition form_rules :: "string \<Rightarrow> (int \<times> string set \<times> string set) option" where
  "form_rules path =
     (if path = ''/login''
      then Some (LOGIN_BODY_LIMIT, {''username'', ''password'', ''next''}, {''username'', ''password''})
      else if path = ''/logout'' then Some (LOGOUT_BODY_LIMIT, {''csrf_token''}, {})
      else
        (case (dict_get WLED_POST_OPERATIONS path, dict_get HYPERHDR_POST_OPERATIONS path,
               dict_get AMBIENT_POST_OPERATIONS path) of
           (Some x, _) \<Rightarrow> Some (WLED_CONTROL_BODY_LIMIT, wled_fields x, {})
         | (None, Some x, _) \<Rightarrow> Some (HYPERHDR_CONTROL_BODY_LIMIT, hyperhdr_fields x, {})
         | (None, None, Some x) \<Rightarrow> Some (AMBIENT_CONTROL_BODY_LIMIT, ambient_fields x, {})
         | _ \<Rightarrow> None))"

text \<open>The path a request posts to with the accepted fields of its form.\<close>

definition posted :: "server_env \<Rightarrow> portal_request \<Rightarrow> (string \<times> (string, string) dict) option" where
  "posted env rq =
     (case (rq_method rq, se_split env (rq_target rq)) of
        (POST, Some (path, query)) \<Rightarrow>
          (case form_rules path of
             None \<Rightarrow> None
           | Some (limit, allowed, required) \<Rightarrow>
               (case read_form env rq limit allowed required of
                  Some (Some fs, None, close) \<Rightarrow> Some (path, fs)
                | _ \<Rightarrow> None))
      | _ \<Rightarrow> None)"

definition path_calls :: "string \<Rightarrow> (string, string) dict \<Rightarrow> device_call set" where
  "path_calls path fs =
     (case (dict_get WLED_POST_OPERATIONS path, dict_get HYPERHDR_POST_OPERATIONS path,
            dict_get AMBIENT_POST_OPERATIONS path) of
        (Some x, _) \<Rightarrow> wled_calls_for x fs
      | (None, Some x, _) \<Rightarrow> {HyperHDR_Call x}
      | (None, None, Some x) \<Rightarrow> set (map step_call (ambient_steps x))
      | _ \<Rightarrow> {})"

lemma read_form_at_server [simp]:
  "read_form (at_server now env) rq limit allowed required = read_form env rq limit allowed required"
  by (simp only: read_form_def at_server_simps)

lemma form_outcome_accepted: "form_outcome found error = Inr fs \<Longrightarrow> found = Some fs \<and> error = None"
  by (auto simp: form_outcome_def split: option.splits)

text \<open>
  The session behind a request: its cookie's token opens it now, and its form carries the CSRF token.
\<close>

definition behind ::
  "server_env \<Rightarrow> seconds \<Rightarrow> portal_request \<Rightarrow> dashboard_server \<Rightarrow> SessionContext \<Rightarrow> string option \<Rightarrow> bool" where
  "behind env now rq st opened csrf \<longleftrightarrow>
     cookie_token env rq \<noteq> None \<and>
     fst (resolve_session (se_primitives env) (at_time now (control_of env)) (cookie_token env rq)
       (sr_control st, sr_world st)) = Some opened \<and>
     csrf_matches (Some opened) csrf"

lemma with_operation_form_moved:
  assumes run: "with_operation_form (at_server now env) rq deny login message limit allowed submit st = (r, st')"
    and ready: "ambient_ready (sr_ambient st, sr_world st)"
    and deny: "\<And>reason s. server_moved env now [] [] s (on_world (deny reason) s)"
    and submit: "\<And>opened fs s r s'. submit opened fs s = (r, s') \<Longrightarrow> ambient_ready (sr_ambient s, sr_world s) \<Longrightarrow>
      \<exists>new. server_moved env now [] new s s' \<and>
        commanded (Some opened) (dict_get fs ''csrf_token'') (calls fs) new"
  obtains qs new where "server_moved env now qs new st st'" "\<forall>q \<in> set qs. \<exists>x. q = Lookup x"
    "new \<noteq> [] \<longrightarrow> (\<exists>opened fs close. read_form env rq limit allowed {} = Some (Some fs, None, close) \<and>
      set (map fst new) \<subseteq> calls fs \<and> behind env now rq st opened (dict_get fs ''csrf_token''))"
proof (cases "authentication_enabled (sr_control st)")
  case False
  then show ?thesis using run deny[of st] by (intro that[of "[]" "[]"]) (auto simp: with_operation_form_def)
next
  case True
  obtain token session st1 where session: "request_session (at_server now env) rq st = ((token, session), st1)"
    by (metis surj_pair)
  obtain qs where qs: "server_moved env now qs [] st st1" "\<forall>q \<in> set qs. \<exists>x. q = Lookup x"
    and token: "token = cookie_token env rq"
    and opened: "\<forall>opened. session = Some opened \<longrightarrow> token \<noteq> None \<and>
       fst (resolve_session (se_primitives env) (at_time now (control_of env)) token (sr_control st, sr_world st)) =
         Some opened"
    by (rule request_session_moved[OF session]) blast
  have ready1: "ambient_ready (sr_ambient st1, sr_world st1)" using qs(1) ready by (simp add: server_moved_def)
  note finish = that
  have quiet: thesis if "server_moved env now [] [] st1 st'"
    by (rule finish[of qs "[]"]) (use server_moved_trans[OF qs(1) that] qs(2) in auto)
  show ?thesis
  proof (cases session)
    case None
    then show ?thesis using run True session by (intro quiet) (auto simp: with_operation_form_def deny)
  next
    case (Some a)
    show ?thesis
    proof (cases "\<exists>fs close. read_form env rq limit allowed {} = Some (Some fs, None, close)")
      case False
      then show ?thesis using run True session Some form_outcome_accepted
        by (intro quiet) (force simp: with_operation_form_def deny split: option.splits prod.splits sum.splits)
    next
      case True
      then obtain fs close where fs: "read_form env rq limit allowed {} = Some (Some fs, None, close)" by blast
      have "submit a fs st1 = (r, st')"
        using run \<open>authentication_enabled (sr_control st)\<close> session Some fs
        by (simp add: with_operation_form_def form_outcome_def)
      from submit[OF this ready1] obtain new where new: "server_moved env now [] new st1 st'"
        "commanded (Some a) (dict_get fs ''csrf_token'') (calls fs) new" by blast
      show ?thesis
        by (rule that[of qs new])
          (use server_moved_trans[OF qs(1) new(1)] qs(2) new(2) fs opened token Some in
            \<open>auto simp: commanded_def behind_def\<close>)
    qed
  qed
qed

text \<open>The exchanges that matter for sessions: a login with these credentials, a logout that succeeded.\<close>

definition login_posted :: "server_env \<Rightarrow> portal_request \<Rightarrow> string \<Rightarrow> string \<Rightarrow> bool" where
  "login_posted env rq user password \<longleftrightarrow>
     (\<exists>fs. posted env rq = Some (''/login'', fs) \<and> dict_get fs ''username'' = Some user \<and>
        dict_get fs ''password'' = Some password)"

definition logged_out :: "server_env \<Rightarrow> portal_request \<Rightarrow> http_response option \<Rightarrow> string \<Rightarrow> bool" where
  "logged_out env rq r token \<longleftrightarrow>
     map_option fst (posted env rq) = Some ''/logout'' \<and> map_option rs_status r = Some SEE_OTHER \<and>
     (\<exists>gone. cookie_token env rq = Some gone \<and> same_session (pr_sha (se_primitives env)) gone token)"

text \<open>What one request does to the authentication service.\<close>

definition auth_effect ::
  "server_env \<Rightarrow> portal_request \<Rightarrow> http_response option \<Rightarrow> auth_request list \<Rightarrow> bool" where
  "auth_effect env rq r qs \<longleftrightarrow>
     (\<forall>user password client prior. Login user password client prior \<in> set qs \<longrightarrow> login_posted env rq user password) \<and>
     (\<forall>token. logged_out env rq r token \<longrightarrow> (\<exists>q \<in> set qs. auth_closes (se_primitives env) q token))"

lemma lookups_effect:
  "\<forall>q \<in> set qs. \<exists>x. q = Lookup x \<Longrightarrow> map_option fst (posted env rq) \<noteq> Some ''/logout'' \<or>
    map_option rs_status r \<noteq> Some SEE_OTHER \<Longrightarrow> auth_effect env rq r qs"
  by (fastforce simp: auth_effect_def logged_out_def)

lemma post_logout_moved:
  assumes run: "post_logout (at_server now env) rq st = (r, st')"
    and path: "rq_method rq = POST" "se_split env (rq_target rq) = Some (''/logout'', query)"
  obtains qs where "server_moved env now qs [] st st'" "auth_effect env rq r qs"
proof (cases "authentication_enabled (sr_control st)")
  case False
  then show ?thesis using run
    by (intro that[of "[]"]) (auto simp: post_logout_def control_unavailable_def send_page_def intro!: lookups_effect)
next
  case True
  obtain token session st1 where session: "request_session (at_server now env) rq st = ((token, session), st1)"
    by (metis surj_pair)
  obtain qs where qs: "server_moved env now qs [] st st1" "\<forall>q \<in> set qs. \<exists>x. q = Lookup x"
    and token: "token = cookie_token env rq"
    by (rule request_session_moved[OF session]) blast
  note finish = that
  have quiet: thesis if "server_moved env now [] [] st1 st'" "map_option rs_status r \<noteq> Some SEE_OTHER"
    by (rule finish[of qs]) (use server_moved_trans[OF qs(1) that(1)] qs(2) that(2) lookups_effect in auto)
  note answers = control_unavailable_def send_page_def refused_form_def redirect_def
  show ?thesis
  proof (cases "\<exists>a b. token = Some a \<and> session = Some b")
    case False
    then show ?thesis using run True session
      by (intro quiet) (auto simp: post_logout_def answers split: option.splits)
  next
    case True
    then obtain a b where ab: "token = Some a" "session = Some b" by blast
    show ?thesis
    proof (cases "\<exists>fs close. read_form env rq LOGOUT_BODY_LIMIT {''csrf_token''} {} = Some (Some fs, None, close)")
      case False
      then show ?thesis using run \<open>authentication_enabled (sr_control st)\<close> session ab form_outcome_accepted
        by (intro quiet) (force simp: post_logout_def answers split: option.splits prod.splits sum.splits)+
    next
      case True
      then obtain fs close where fs: "read_form env rq LOGOUT_BODY_LIMIT {''csrf_token''} {} = Some (Some fs, None, close)"
        by blast
      let ?csrf = "dict_get fs ''csrf_token''"
      let ?q = "Leave a b ?csrf"
      obtain left st2 where left: "on_auth (logout (se_primitives env) a b ?csrf) st1 = (left, st2)" by (metis surj_pair)
      have st': "st' = st2" "map_option rs_status r = Some SEE_OTHER \<longrightarrow> left"
        using run \<open>authentication_enabled (sr_control st)\<close> session ab fs left
        by (auto simp: post_logout_def form_outcome_def Let_def answers split: if_splits)
      have "server_moved env now [?q] [] st1 st2"
        by (rule on_auth_moved[OF left]) (simp add: auth_exec_def)
      moreover have "left \<longrightarrow> (\<exists>c. ?csrf = Some c \<and> csrf_is_valid b c)"
        using left by (auto simp: on_auth_def logout_def Let_def split: option.splits if_splits)
      ultimately show ?thesis
        using server_moved_trans[OF qs(1)] qs(2) ab token st'
        by (intro finish[of "qs @ [?q]"])
          (fastforce simp: auth_effect_def logged_out_def auth_closes_def)+
    qed
  qed
qed

lemma submit_login_moved:
  assumes run: "submit_login (at_server now env) rq fs st = (r, st')"
    and user: "dict_get fs ''username'' = Some user" "dict_get fs ''password'' = Some password"
  obtains qs where "server_moved env now qs [] st st'"
    "\<forall>q \<in> set qs. (\<exists>x. q = Lookup x) \<or> (\<exists>client prior. q = Login user password client prior)"
proof (cases "64 < length user \<or> 1024 < length password")
  case True
  then show ?thesis using run user by (intro that[of "[]"]) (auto simp: submit_login_def)
next
  case False
  obtain prior session st1 where session: "request_session (at_server now env) rq st = ((prior, session), st1)"
    by (metis surj_pair)
  obtain qs where qs: "server_moved env now qs [] st st1" "\<forall>q \<in> set qs. \<exists>x. q = Lookup x"
    by (rule request_session_moved[OF session]) blast
  obtain outcome st2 where login: "on_auth (authenticate (se_primitives env) (at_time now (control_of env)) user
      password (client_identifier_of rq) prior) st1 = (outcome, st2)"
    by (metis surj_pair)
  have "st' = st2" using run False user session login
    by (auto simp: submit_login_def Let_def split: sum.splits option.splits if_splits)
  moreover have "server_moved env now [Login user password (client_identifier_of rq) prior] [] st1 st2"
    by (rule on_auth_moved[OF login]) (simp add: auth_exec_def)
  ultimately show ?thesis using server_moved_trans[OF qs(1)] qs(2)
    by (intro that[of "qs @ [Login user password (client_identifier_of rq) prior]"]) fastforce+
qed

lemma login_fields:
  assumes "read_form env rq limit allowed required = Some (Some fs, None, close)" and "x \<in> required"
  shows "\<exists>v. dict_get fs x = Some v"
proof -
  have "required \<subseteq> set (dict_keys fs)"
    using assms(1) by (auto simp: read_form_def parse_form_def Let_def split: option.splits prod.splits if_splits)
  then show ?thesis using assms(2) dict_get_NoneD[of fs x] by (cases "dict_get fs x") auto
qed

lemma post_login_moved:
  assumes run: "post_login (at_server now env) rq st = (r, st')"
    and path: "rq_method rq = POST" "se_split env (rq_target rq) = Some (''/login'', query)"
  obtains qs where "server_moved env now qs [] st st'" "auth_effect env rq r qs"
proof -
  let ?allowed = "{''username'', ''password'', ''next''}" and ?required = "{''username'', ''password''}"
  have no_logout: "map_option fst (posted env rq) \<noteq> Some ''/logout''"
    using path by (auto simp: posted_def split: option.splits prod.splits)
  show thesis
  proof (cases "authentication_enabled (sr_control st) \<and>
      (\<exists>fs close. read_form env rq LOGIN_BODY_LIMIT ?allowed ?required = Some (Some fs, None, close))")
    case False
    have "server_moved env now [] [] st st'"
    proof (cases "authentication_enabled (sr_control st)")
      case enabled: True
      show ?thesis
      proof (cases "read_form env rq LOGIN_BODY_LIMIT ?allowed ?required")
        case None
        then show ?thesis using run enabled by (simp add: post_login_def)
      next
        case (Some out)
        obtain found error close where out: "out = (found, error, close)" by (metis surj_pair)
        obtain e where "form_outcome found error = Inl e"
          using False enabled Some out form_outcome_accepted[of found error] by (cases "form_outcome found error") auto
        then show ?thesis using run enabled Some out by (auto simp: post_login_def)
      qed
    qed (use run in \<open>simp add: post_login_def\<close>)
    then show thesis by (rule that) (use no_logout in \<open>simp add: lookups_effect\<close>)
  next
    case True
    then obtain fs close where fs: "read_form env rq LOGIN_BODY_LIMIT ?allowed ?required = Some (Some fs, None, close)"
      by blast
    obtain user password where user: "dict_get fs ''username'' = Some user" "dict_get fs ''password'' = Some password"
      using login_fields[OF fs, of "''username''"] login_fields[OF fs, of "''password''"] by auto
    have "submit_login (at_server now env) rq fs st = (r, st')"
      using run True fs by (simp add: post_login_def form_outcome_def)
    then obtain qs where qs: "server_moved env now qs [] st st'"
      "\<forall>q \<in> set qs. (\<exists>x. q = Lookup x) \<or> (\<exists>client prior. q = Login user password client prior)"
      by (rule submit_login_moved[OF _ user]) blast
    have "posted env rq = Some (''/login'', fs)" using path fs by (simp add: posted_def form_rules_def)
    then have "login_posted env rq user password" using user by (simp add: login_posted_def)
    then show thesis using qs no_logout
      by (intro that[of qs]) (fastforce simp: auth_effect_def logged_out_def)+
  qed
qed

text \<open>Reading changes nothing but sessions looked up.\<close>

definition only_looks :: "server_env \<Rightarrow> seconds \<Rightarrow> dashboard_server \<Rightarrow> dashboard_server \<Rightarrow> bool" where
  "only_looks env now st st' \<longleftrightarrow> (\<exists>qs. server_moved env now qs [] st st' \<and> (\<forall>q \<in> set qs. \<exists>x. q = Lookup x))"

lemma only_looks_intro: "server_moved env now [] [] st st' \<Longrightarrow> only_looks env now st st'"
  by (auto simp: only_looks_def)

lemma only_looks_trans: "only_looks env now st st1 \<Longrightarrow> only_looks env now st1 st2 \<Longrightarrow> only_looks env now st st2"
  unfolding only_looks_def using server_moved_trans by fastforce

lemma request_session_looks:
  assumes "request_session (at_server now env) rq st = (x, st')"
  shows "only_looks env now st st'"
  using request_session_moved[of now env rq st "fst x" "snd x" st'] assms
  unfolding only_looks_def by (metis prod.collapse)

lemma with_session_looks:
  assumes run: "with_session (at_server now env) rq login page st = (r, st')"
    and page: "\<And>opened s r s'. page opened s = (r, s') \<Longrightarrow> only_looks env now s s'"
  shows "only_looks env now st st'"
proof (cases "authentication_enabled (sr_control st)")
  case True
  obtain token session st1 where session: "request_session (at_server now env) rq st = ((token, session), st1)"
    by (metis surj_pair)
  have "only_looks env now st1 st'" using run True session
    by (cases session) (auto simp: with_session_def intro: only_looks_intro page)
  then show ?thesis using request_session_looks[OF session] only_looks_trans by blast
qed (use run in \<open>auto simp: with_session_def intro: only_looks_intro\<close>)

lemma get_controls_looks:
  "get_controls (at_server now env) rq query st = (r, st') \<Longrightarrow> only_looks env now st st'"
  "get_wled_controls (at_server now env) rq query st = (r, st') \<Longrightarrow> only_looks env now st st'"
  "get_hyperhdr_controls (at_server now env) rq query st = (r, st') \<Longrightarrow> only_looks env now st st'"
  unfolding get_controls_def get_wled_controls_def get_hyperhdr_controls_def
  by (erule with_session_looks; auto simp: Let_def intro: only_looks_intro get_health_moved split: prod.splits)+

lemma do_GET_looks:
  assumes "do_GET (at_server now env) rq path query st = (r, st')"
  shows "only_looks env now st st'"
proof -
  have login: "get_login (at_server now env) rq query st = (r, st') \<Longrightarrow> only_looks env now st st'" for r
    by (auto simp: get_login_def Let_def intro: only_looks_intro request_session_looks split: prod.splits if_splits)
  have status: "get_control_status (at_server now env) rq st = (r, st') \<Longrightarrow> only_looks env now st st'" for r
    by (auto simp: get_control_status_def Let_def intro: only_looks_intro request_session_looks
          only_looks_trans[OF request_session_looks only_looks_intro]
        split: prod.splits if_splits option.splits)
  have link: "portal_control_link (at_server now env) rq s = (x, s') \<Longrightarrow> only_looks env now s s'" for x s s'
    by (auto simp: portal_control_link_def Let_def intro: only_looks_intro request_session_looks
        split: prod.splits if_splits)
  have report: "get_report (at_server now env) rq path st = (r, st') \<Longrightarrow> only_looks env now st st'" for r
    using link by (auto simp: get_report_def Let_def
        intro: only_looks_intro[OF get_health_moved] only_looks_trans[OF only_looks_intro[OF get_health_moved]]
        split: prod.splits if_splits)
  show ?thesis
    using assms login status report get_controls_looks only_looks_intro[OF server_moved_refl]
    by (auto simp: do_GET_def split: if_splits)
qed

section \<open>One request\<close>

text \<open>What may be behind device calls: the fields posted to a path of an operation, and the session.\<close>

definition calls_justified ::
  "server_env \<Rightarrow> seconds \<Rightarrow> portal_request \<Rightarrow> dashboard_server \<Rightarrow> (device_call \<times> bool) list \<Rightarrow> bool" where
  "calls_justified env now rq st new \<longleftrightarrow>
     (new \<noteq> [] \<longrightarrow> (\<exists>path fs opened. posted env rq = Some (path, fs) \<and> set (map fst new) \<subseteq> path_calls path fs \<and>
        behind env now rq st opened (dict_get fs ''csrf_token'')))"

lemma operation_moved:
  assumes run: "with_operation_form (at_server now env) rq deny login message limit allowed submit st = (r, st')"
    and path: "rq_method rq = POST" "se_split env (rq_target rq) = Some (path, query)"
    and rules: "form_rules path = Some (limit, allowed, {})" "path_calls path = calls" "path \<noteq> ''/logout''"
    and ready: "ambient_ready (sr_ambient st, sr_world st)"
    and deny: "\<And>reason s. server_moved env now [] [] s (on_world (deny reason) s)"
    and submit: "\<And>opened fs s r s'. submit opened fs s = (r, s') \<Longrightarrow> ambient_ready (sr_ambient s, sr_world s) \<Longrightarrow>
      \<exists>new. server_moved env now [] new s s' \<and>
        commanded (Some opened) (dict_get fs ''csrf_token'') (calls fs) new"
  obtains qs new where "server_moved env now qs new st st'" "auth_effect env rq r qs" "calls_justified env now rq st new"
proof -
  obtain qs new where moved: "server_moved env now qs new st st'" "\<forall>q \<in> set qs. \<exists>x. q = Lookup x"
    "new \<noteq> [] \<longrightarrow> (\<exists>opened fs close. read_form env rq limit allowed {} = Some (Some fs, None, close) \<and>
      set (map fst new) \<subseteq> calls fs \<and> behind env now rq st opened (dict_get fs ''csrf_token''))"
    by (rule with_operation_form_moved[OF run ready deny submit]) blast
  have "calls_justified env now rq st new"
    unfolding calls_justified_def
  proof
    assume "new \<noteq> []"
    with moved(3) obtain opened fs close where "read_form env rq limit allowed {} = Some (Some fs, None, close)"
      "set (map fst new) \<subseteq> calls fs" "behind env now rq st opened (dict_get fs ''csrf_token'')" by blast
    then show "\<exists>path fs opened. posted env rq = Some (path, fs) \<and> set (map fst new) \<subseteq> path_calls path fs \<and>
        behind env now rq st opened (dict_get fs ''csrf_token'')"
      using path rules by (intro exI[of _ path] exI[of _ fs] exI[of _ opened]) (simp add: posted_def)
  qed
  moreover have "map_option fst (posted env rq) \<noteq> Some ''/logout''"
    using path rules by (auto simp: posted_def split: option.splits prod.splits)
  ultimately show thesis using moved lookups_effect by (intro that[of qs new]) auto
qed

lemma operation_paths:
  "dict_get WLED_POST_OPERATIONS path = Some x \<Longrightarrow> form_rules path = Some (WLED_CONTROL_BODY_LIMIT, wled_fields x, {}) \<and>
     path_calls path = wled_calls_for x"
  "dict_get HYPERHDR_POST_OPERATIONS path = Some y \<Longrightarrow>
     form_rules path = Some (HYPERHDR_CONTROL_BODY_LIMIT, hyperhdr_fields y, {}) \<and> path_calls path = (\<lambda>_. {HyperHDR_Call y})"
  "dict_get AMBIENT_POST_OPERATIONS path = Some z \<Longrightarrow>
     form_rules path = Some (AMBIENT_CONTROL_BODY_LIMIT, ambient_fields z, {}) \<and>
     path_calls path = (\<lambda>_. set (map step_call (ambient_steps z)))"
  by (auto simp: WLED_POST_OPERATIONS_def HYPERHDR_POST_OPERATIONS_def AMBIENT_POST_OPERATIONS_def form_rules_def
      path_calls_def split: if_splits)

lemma do_POST_moved:
  assumes run: "do_POST (at_server now env) thread rq path st = (r, st')"
    and path: "rq_method rq = POST" "se_split env (rq_target rq) = Some (path, query)"
    and ready: "ambient_ready (sr_ambient st, sr_world st)"
  obtains qs new where "server_moved env now qs new st st'" "auth_effect env rq r qs" "calls_justified env now rq st new"
proof -
  have no_calls: "calls_justified env now rq st []" by (simp add: calls_justified_def)
  note finish = that
  consider (login) "path = ''/login''" | (logout) "path = ''/logout''"
    | (wled) x where "path \<noteq> ''/login''" "path \<noteq> ''/logout''" "dict_get WLED_POST_OPERATIONS path = Some x"
    | (hyperhdr) y where "path \<noteq> ''/login''" "path \<noteq> ''/logout''" "dict_get WLED_POST_OPERATIONS path = None"
        "dict_get HYPERHDR_POST_OPERATIONS path = Some y"
    | (ambient) z where "path \<noteq> ''/login''" "path \<noteq> ''/logout''" "dict_get WLED_POST_OPERATIONS path = None"
        "dict_get HYPERHDR_POST_OPERATIONS path = None" "dict_get AMBIENT_POST_OPERATIONS path = Some z"
    | (other) "path \<noteq> ''/login''" "path \<noteq> ''/logout''" "dict_get WLED_POST_OPERATIONS path = None"
        "dict_get HYPERHDR_POST_OPERATIONS path = None" "dict_get AMBIENT_POST_OPERATIONS path = None"
    by (cases "dict_get WLED_POST_OPERATIONS path"; cases "dict_get HYPERHDR_POST_OPERATIONS path";
        cases "dict_get AMBIENT_POST_OPERATIONS path") blast+
  then show thesis
  proof cases
    case login
    then have "post_login (at_server now env) rq st = (r, st')" using run by (simp add: do_POST_def)
    then show thesis using post_login_moved path login finish no_calls by blast
  next
    case logout
    then have "post_logout (at_server now env) rq st = (r, st')" using run by (simp add: do_POST_def)
    then show thesis using post_logout_moved path logout finish no_calls by blast
  next
    case wled
    show thesis
      by (rule operation_moved[of now env rq "wled_audit_denied x" _ _ _ _ "submit_wled (at_server now env) thread rq x"])
        (use run path ready wled operation_paths(1)[OF wled(3)] submit_wled_moved finish in
          \<open>auto simp: do_POST_def post_wled_operation_def\<close>)
  next
    case hyperhdr
    show thesis
      by (rule operation_moved[of now env rq "hyperhdr_audit_denied y" _ _ _ _ "submit_hyperhdr (at_server now env) thread rq y"])
        (use run path ready hyperhdr operation_paths(2)[OF hyperhdr(4)] submit_hyperhdr_moved finish in
          \<open>auto simp: do_POST_def post_hyperhdr_operation_def\<close>)
  next
    case ambient
    show thesis
      by (rule operation_moved[of now env rq "ambient_audit_denied z" _ _ _ _ "submit_ambient (at_server now env) thread rq z"])
        (use run path ready ambient operation_paths(3)[OF ambient(5)] submit_ambient_moved finish in
          \<open>auto simp: do_POST_def post_ambient_operation_def\<close>)
  next
    case other
    then have "r = Some (method_not_allowed path)" "st' = st" using run by (auto simp: do_POST_def)
    then show thesis
      by (intro finish[of "[]" "[]"])
        (simp_all add: no_calls lookups_effect method_not_allowed_def send_page_def)
  qed
qed

lemma handle_request_moved:
  assumes run: "handle_request (at_server now env) thread rq st = (r, st')"
    and ready: "ambient_ready (sr_ambient st, sr_world st)"
  obtains qs new where "server_moved env now qs new st st'" "auth_effect env rq r qs" "calls_justified env now rq st new"
proof -
  have no_calls: "calls_justified env now rq st []" by (simp add: calls_justified_def)
  have quiet: "auth_effect env rq x qs" if "rq_method rq \<noteq> POST \<or> se_split env (rq_target rq) = None"
    "\<forall>q \<in> set qs. \<exists>x. q = Lookup x" for x qs
    using that(1) by (intro lookups_effect[OF that(2)])
      (auto simp: posted_def split: http_method.splits option.splits)
  show thesis
  proof (cases "se_split env (rq_target rq)")
    case None
    then show thesis using run quiet[of "[]"] no_calls
      by (intro that[of "[]" "[]"]) (simp_all add: handle_request_def)
  next
    case (Some parts)
    obtain path query where parts: "parts = (path, query)" by (cases parts)
    show thesis
    proof (cases "rq_method rq")
      case GET
      obtain x where "do_GET (at_server now env) rq path query st = (x, st')"
        using run Some parts GET by (auto simp: handle_request_def Let_def split: prod.splits)
      from do_GET_looks[OF this] obtain qs where "server_moved env now qs [] st st'" "\<forall>q \<in> set qs. \<exists>x. q = Lookup x"
        by (auto simp: only_looks_def)
      then show thesis using quiet GET no_calls by (intro that[of qs "[]"]) auto
    next
      case POST
      have "do_POST (at_server now env) thread rq path st = (r, st')"
        using run Some parts POST by (simp add: handle_request_def)
      then show thesis using do_POST_moved[OF _ POST] Some parts ready that by blast
    qed (use run Some parts quiet[of "[]"] no_calls that[of "[]" "[]"] in \<open>simp_all add: handle_request_def\<close>)
  qed
qed

section \<open>The log of exchanges\<close>

text \<open>
  One exchange: a request on some thread with the response it got. A server continues with the
  exchanges it can have had; any other log is none of its logs.
\<close>

type_synonym server_exchange = "nat \<times> portal_request \<times> http_response option"

definition exchange_step ::
  "server_env \<Rightarrow> seconds \<Rightarrow> server_exchange \<Rightarrow> dashboard_server option \<Rightarrow> dashboard_server option" where
  "exchange_step env now x s =
     (case s of
        None \<Rightarrow> None
      | Some st \<Rightarrow>
          (case x of (thread, rq, r) \<Rightarrow>
             (let (answer, st1) = handle_request (at_server now env) thread rq st
              in if answer = r then Some st1 else None)))"

definition serve_log :: "server_env \<Rightarrow> (seconds \<times> server_exchange) list \<Rightarrow> dashboard_server \<Rightarrow> dashboard_server option" where
  "serve_log env es st = fold (\<lambda>(now, x). exchange_step env now x) es (Some st)"

text \<open>The invariant of a server with these authentication settings.\<close>

definition server_ready :: "DashboardAuthenticationSettings \<Rightarrow> dashboard_server \<Rightarrow> bool" where
  "server_ready settings st \<longleftrightarrow>
     auth_ready settings (sr_control st, sr_world st) \<and> ambient_ready (sr_ambient st, sr_world st) \<and>
     ttl_seconds (au_sessions (sr_control st)) = of_int (da_session_ttl_minutes settings * 60)"

definition log_ready :: "DashboardAuthenticationSettings \<Rightarrow> dashboard_server option \<Rightarrow> bool" where
  "log_ready settings s = (case s of None \<Rightarrow> True | Some st \<Rightarrow> server_ready settings st)"

definition log_view :: "server_env \<Rightarrow> dashboard_server option \<Rightarrow> seconds \<Rightarrow> string \<Rightarrow> string option" where
  "log_view env s t token =
     (case s of None \<Rightarrow> None
      | Some st \<Rightarrow> auth_view (se_primitives env) (sr_control st, sr_world st) t token)"

definition log_opens ::
  "server_env \<Rightarrow> DashboardAuthenticationSettings \<Rightarrow> server_exchange \<Rightarrow> string \<Rightarrow> bool" where
  "log_opens env settings x user \<longleftrightarrow>
     da_enabled settings \<and> (\<exists>password. login_posted env (fst (snd x)) user password \<and>
       login_credentials (se_primitives env) settings user password)"

definition log_closes :: "server_env \<Rightarrow> server_exchange \<Rightarrow> string \<Rightarrow> bool" where
  "log_closes env x token \<longleftrightarrow> logged_out env (fst (snd x)) (snd (snd x)) token"

lemma auth_calls_view:
  assumes ready: "auth_ready settings (s, w)" and later: "now \<le> t"
    and view: "auth_view prim (fold (\<lambda>(u, q). auth_exec prim cenv u q) (map (Pair now) qs) (s, w)) t token = Some user"
  shows "(auth_view prim (s, w) t token = Some user \<and> (\<forall>q \<in> set qs. \<not> auth_closes prim q token)) \<or>
    (\<exists>q \<in> set qs. auth_opens prim settings q user) \<and> t < now + ttl_seconds (au_sessions s)"
proof -
  have "\<forall>e \<in> set (map (Pair now) qs). fst e \<le> t" using later by auto
  from auth_sessions.provenance[OF ready this view]
  consider (old) "auth_view prim (s, w) t token = Some user" "\<forall>e \<in> set (map (Pair now) qs). \<not> auth_closes prim (snd e) token"
    | (new) pre u q post where "map (Pair now) qs = pre @ (u, q) # post" "auth_opens prim settings q user"
        "t < u + ttl_seconds (au_sessions s)"
    by auto
  then show ?thesis
  proof cases
    case new
    then have "(u, q) \<in> set (map (Pair now) qs)" by simp
    then show ?thesis using new(2,3) by auto
  qed auto
qed

lemma handle_request_ready:
  assumes "handle_request (at_server now env) thread rq st = (r, st')" "server_ready settings st"
  shows "server_ready settings st'"
proof -
  obtain qs new where moved: "server_moved env now qs new st st'"
    using handle_request_moved assms by (metis server_ready_def)
  let ?s = "auth_calls env now qs (sr_control st, sr_world st)"
  have ready: "auth_ready settings (sr_control st, sr_world st)" using assms(2) by (simp add: server_ready_def)
  have "auth_ready settings ?s" "auth_ttl ?s = auth_ttl (sr_control st, sr_world st)"
    unfolding auth_calls_def
    by (rule auth_sessions.run_inv[OF ready], rule auth_sessions.run_lifetime[OF ready])
  then show ?thesis using moved assms(2)
    by (auto simp: server_ready_def server_moved_def auth_ready_def case_prod_beta)
qed

lemma handle_request_view:
  assumes run: "handle_request (at_server now env) thread rq st = (r, st')" and ready: "server_ready settings st"
    and later: "now \<le> t" and view: "log_view env (Some st') t token = Some user"
  shows "(log_view env (Some st) t token = Some user \<and> \<not> log_closes env (thread, rq, r) token) \<or>
    (log_opens env settings (thread, rq, r) user \<and> t < now + of_int (da_session_ttl_minutes settings * 60))"
proof -
  obtain qs new where moved: "server_moved env now qs new st st'" and effect: "auth_effect env rq r qs"
    using handle_request_moved[OF run] ready by (metis server_ready_def)
  let ?prim = "se_primitives env"
  have auth: "auth_ready settings (sr_control st, sr_world st)"
    "ttl_seconds (au_sessions (sr_control st)) = of_int (da_session_ttl_minutes settings * 60)"
    using ready by (simp_all add: server_ready_def)
  have "auth_view ?prim (fold (\<lambda>(u, q). auth_exec ?prim (control_of env) u q) (map (Pair now) qs)
      (sr_control st, sr_world st)) t token = Some user"
    using moved view by (simp add: log_view_def server_moved_def auth_calls_def auth_view_def case_prod_beta)
  from auth_calls_view[OF auth(1) later this] show ?thesis
  proof
    assume "(\<exists>q \<in> set qs. auth_opens ?prim settings q user) \<and> t < now + ttl_seconds (au_sessions (sr_control st))"
    then have "log_opens env settings (thread, rq, r) user" "t < now + of_int (da_session_ttl_minutes settings * 60)"
      using effect auth(2) by (fastforce simp: auth_effect_def log_opens_def auth_opens_def)+
    then show ?thesis by blast
  qed (use effect in \<open>auto simp: auth_effect_def log_view_def log_closes_def\<close>)
qed

interpretation server_sessions: session_backend "exchange_step env" "log_ready settings" "log_view env"
    "\<lambda>_. of_int (da_session_ttl_minutes settings * 60)" "log_opens env settings" "log_closes env" for env settings
proof unfold_locales
  fix s :: "dashboard_server option" and now t :: seconds and x :: server_exchange and token user
  assume ready: "log_ready settings s"
  obtain thread rq r where x: "x = (thread, rq, r)" by (metis surj_pair)
  show "log_ready settings (exchange_step env now x s)"
    using ready handle_request_ready[of now env thread rq]
    by (auto simp: exchange_step_def log_ready_def x split: option.splits prod.splits)
  assume "now \<le> t" "log_view env (exchange_step env now x s) t token = Some user"
  then show "log_view env s t token = Some user \<and> \<not> log_closes env x token \<or>
      log_opens env settings x user \<and> t < now + of_int (da_session_ttl_minutes settings * 60)"
    using ready handle_request_view[of now env thread rq]
    by (auto simp: exchange_step_def x log_ready_def log_view_def split: option.splits prod.splits if_splits)
qed auto

section \<open>A built server\<close>

lemma build_server_ready:
  assumes "build_server net pn gn upper loads keys started a = Some st"
  shows "server_ready (ds_authentication (ar_dashboard a)) st" and "device_calls (sr_world st) = []"
    and "log_view env (Some st) t token = None"
proof -
  let ?d = "ds_authentication (ar_dashboard a)"
  obtain control wled hyperhdr ambient where
    control: "new_auth_service ?d (keys 0) = Some control"
    and wled: "new_wled_service net loads (ar_wled a) (authentication_enabled control) None (keys 1) 0 = Some wled"
    and hyperhdr: "new_hyperhdr_service pn gn upper loads (ar_hyperhdr a) (authentication_enabled control) None
      (keys 2) 0 = Some hyperhdr"
    and ambient: "new_ambient_service (ar_ambient_controls a) (authentication_enabled control) wled hyperhdr 0
      (keys 3) = Some ambient"
    and st: "sr_control st = control" "sr_ambient st = ambient"
      "sr_world st = \<lparr>gates = (\<lambda>_. new_gate), audit_trail = [], invalidations = 0, clock_reads = 0, device_calls = []\<rparr>"
    using assms by (auto simp: build_server_def split: option.splits)
  note w = new_wled_service_fields[OF wled] and h = new_hyperhdr_service_fields[OF hyperhdr]
  obtain l where l: "new_limiter (as_operation_limit (ar_ambient_controls a))
      (of_int (as_operation_window_seconds (ar_ambient_controls a))) (keys 3) MAX_TRACKED_CLIENTS = Some l"
    and a: "ab_wled ambient = wled" "ab_hyperhdr ambient = hyperhdr" "ab_gate ambient = 0" "ab_limiter ambient = l"
    using ambient by (auto simp: new_ambient_service_def split: if_splits sum.splits)
  have "ambient_ready (sr_ambient st, sr_world st)"
    using w(2,3) h(2,3) limiter_inv_new[OF w(1)] limiter_inv_new[OF h(1)] limiter_inv_new[OF l] a
    by (simp add: ambient_ready_def wled_ready_def hyperhdr_ready_def st)
  then show "server_ready ?d st"
    using new_auth_ready(1,3)[OF control] by (simp add: server_ready_def st)
  show "device_calls (sr_world st) = []" by (simp add: st)
  show "log_view env (Some st) t token = None"
    using new_auth_ready(2)[OF control]
    by (simp add: log_view_def auth_view_def user_view_def session_view_def st)
qed

lemma serve_log_ready:
  assumes "serve_log env es st0 = Some st" "server_ready settings st0"
  shows "server_ready settings st"
  using server_sessions.run_inv[of settings "Some st0" env es] assms by (simp add: log_ready_def serve_log_def)

text \<open>
  C1. From the socket to the device: a request leads to a device call only if it is a POST to the path
  of an operation, with a form in order that carries the CSRF token of the session its cookie opens,
  and earlier in the log of the server there is a POST to the login page with the configured
  credentials of that user, within the session lifetime and with no successful logout of that session
  after it. The calls are those of the path.
\<close>

theorem operator_behind_every_call:
  assumes "build_server net pn gn upper loads keys started a = Some st0"
    and "serve_log env es st0 = Some st" and "\<forall>e \<in> set es. fst e \<le> t"
    and "handle_request (at_server t env) thread rq st = (r, st')"
  shows "\<exists>new. device_calls (sr_world st') = device_calls (sr_world st) @ new \<and>
    (new \<noteq> [] \<longrightarrow>
      (\<exists>path fs token opened csrf pre now x post password.
         posted env rq = Some (path, fs) \<and> set (map fst new) \<subseteq> path_calls path fs \<and>
         cookie_token env rq = Some token \<and>
         fst (resolve_session (se_primitives env) (at_time t (control_of env)) (Some token)
           (sr_control st, sr_world st)) = Some opened \<and>
         dict_get fs ''csrf_token'' = Some csrf \<and> csrf_is_valid opened csrf \<and>
         es = pre @ (now, x) # post \<and> now \<le> t \<and>
         t < now + of_int (da_session_ttl_minutes (ds_authentication (ar_dashboard a)) * 60) \<and>
         login_posted env (fst (snd x)) (username opened) password \<and>
         login_credentials (se_primitives env) (ds_authentication (ar_dashboard a)) (username opened) password \<and>
         (\<forall>e \<in> set post. \<not> logged_out env (fst (snd (snd e))) (snd (snd (snd e))) token)))"
proof -
  let ?d = "ds_authentication (ar_dashboard a)"
  have ready0: "server_ready ?d st0" by (rule build_server_ready(1)[OF assms(1)])
  have ready: "server_ready ?d st" by (rule serve_log_ready[OF assms(2) ready0])
  obtain qs new where moved: "server_moved env t qs new st st'" and just: "calls_justified env t rq st new"
    using handle_request_moved[OF assms(4)] ready by (metis server_ready_def)
  show ?thesis
  proof (intro exI[of _ new] conjI impI)
    show "device_calls (sr_world st') = device_calls (sr_world st) @ new" using moved by (simp add: server_moved_def)
    assume "new \<noteq> []"
    with just obtain path fs opened where posted: "posted env rq = Some (path, fs)"
      "set (map fst new) \<subseteq> path_calls path fs" and behind: "behind env t rq st opened (dict_get fs ''csrf_token'')"
      by (auto simp: calls_justified_def)
    then obtain token csrf where token: "cookie_token env rq = Some token"
        "fst (resolve_session (se_primitives env) (at_time t (control_of env)) (Some token)
           (sr_control st, sr_world st)) = Some opened"
      and csrf: "dict_get fs ''csrf_token'' = Some csrf" "csrf_is_valid opened csrf"
      by (auto simp: behind_def csrf_matches_def)
    have auth: "auth_ready ?d (sr_control st, sr_world st)" using ready by (simp add: server_ready_def)
    have "session_view (pr_sha (se_primitives env)) (au_sessions (sr_control st)) t token = Some opened"
      using token resolve_session_view[OF auth, of "se_primitives env" t "control_of env" token]
      by (simp split: if_splits)
    then have "log_view env (Some st) t token = Some (username opened)"
      by (simp add: log_view_def auth_view_def user_view_def)
    then have "log_view env (fold (\<lambda>(now, c). exchange_step env now c) es (Some st0)) t token = Some (username opened)"
      using assms(2) by (simp add: serve_log_def)
    from server_sessions.provenance[OF _ assms(3) this, of ?d] ready0 build_server_ready(3)[OF assms(1)]
    obtain pre now x post where log: "es = pre @ (now, x) # post" "log_opens env ?d x (username opened)" "now \<le> t"
      "t < now + of_int (da_session_ttl_minutes ?d * 60)" "\<forall>e \<in> set post. \<not> log_closes env (snd e) token"
      by (auto simp: log_ready_def)
    then obtain password where "login_posted env (fst (snd x)) (username opened) password"
      "login_credentials (se_primitives env) ?d (username opened) password" by (auto simp: log_opens_def)
    then show "\<exists>path fs token opened csrf pre now x post password.
         posted env rq = Some (path, fs) \<and> set (map fst new) \<subseteq> path_calls path fs \<and>
         cookie_token env rq = Some token \<and>
         fst (resolve_session (se_primitives env) (at_time t (control_of env)) (Some token)
           (sr_control st, sr_world st)) = Some opened \<and>
         dict_get fs ''csrf_token'' = Some csrf \<and> csrf_is_valid opened csrf \<and>
         es = pre @ (now, x) # post \<and> now \<le> t \<and> t < now + of_int (da_session_ttl_minutes ?d * 60) \<and>
         login_posted env (fst (snd x)) (username opened) password \<and>
         login_credentials (se_primitives env) ?d (username opened) password \<and>
         (\<forall>e \<in> set post. \<not> logged_out env (fst (snd (snd e))) (snd (snd (snd e))) token)"
      using posted token csrf log(1,3,4) log(5)[unfolded log_closes_def] by blast
  qed
qed

section \<open>An example\<close>

text \<open>An operator logs in and then asks for the power of a WLED controller that does not answer.\<close>

definition sample_csrf :: string where "sample_csrf = sample_tokens 1 32"

definition sample_cookie :: string where "sample_cookie = SESSION_COOKIE_NAME @ ''='' @ sample_token"

definition sample_post :: "string \<Rightarrow> string option \<Rightarrow> char \<Rightarrow> portal_request" where
  "sample_post target cookie body =
     \<lparr>rq_method = POST, rq_target = target,
      rq_headers = [(''Content-Type'', ''application/x-www-form-urlencoded''), (''Content-Length'', ''1'')] @
        (case cookie of None \<Rightarrow> [] | Some c \<Rightarrow> [(''Cookie'', c)]),
      rq_body = [of_nat (ord_of body)], rq_client = Some ''c''\<rparr>"

definition sample_server_env :: server_env where
  "sample_server_env =
     \<lparr>se_control = sample_env, se_primitives = sample_primitives, se_split = (\<lambda>s. Some (s, [])),
      se_form_fields = (\<lambda>n s. Some (if s = ''l'' then [(''username'', ''op''), (''password'', ''pw'')]
         else [(''csrf_token'', sample_csrf)])),
      se_query_fields = (\<lambda>n s. None), se_cookies = sample_load, se_collect = (\<lambda>n. []), se_checked_at = (\<lambda>n. [])\<rparr>"

definition sample_server_settings :: AuroraSettings where
  "sample_server_settings =
     default_aurora_settings\<lparr>ar_wled := sample_wled_settings,
       ar_dashboard := default_dashboard\<lparr>ds_authentication := sample_authentication\<rparr>\<rparr>"

definition sample_login_post :: portal_request where
  "sample_login_post = sample_post ''/login'' None CHR ''l''"

definition sample_power_post :: portal_request where
  "sample_power_post = sample_post ''/controls/wled/power-on'' (Some sample_cookie) CHR ''p''"

lemma sample_forms:
  "read_form sample_server_env sample_login_post LOGIN_BODY_LIMIT {''username'', ''password'', ''next''}
     {''username'', ''password''} = Some (Some [(''username'', ''op''), (''password'', ''pw'')], None, False)"
  "read_form sample_server_env sample_power_post WLED_CONTROL_BODY_LIMIT {''csrf_token''} {} =
     Some (Some [(''csrf_token'', sample_csrf)], None, False)"
  by code_simp+

lemma sample_cookies:
  "header_of ''Cookie'' sample_login_post = None"
  "read_session_cookie sample_load (header_of ''Cookie'' sample_power_post) =
     \<lparr>ck_token = Some sample_token, ck_malformed = False\<rparr>"
  by code_simp+

lemma sample_control [simp]: "control_of sample_server_env = sample_env"
  by (simp add: control_of_def sample_server_env_def sample_env_def)

lemma sample_built:
  obtains st where "build_server (\<lambda>_ _ _. Open_Raised OS_Error) (\<lambda>_ _ _. Open_Raised OS_Error)
      (\<lambda>_ _ _. Open_Raised OS_Error) id (\<lambda>_. Undecodable) (\<lambda>_. [1]) 0 sample_server_settings = Some st"
    "sr_control st = sample_auth" "sr_world st = sample_world" "sv_settings (ab_wled (sr_ambient st)) = sample_wled_settings"
    "sv_limiter (ab_wled (sr_ambient st)) = sample_limiter" "sv_adapter (ab_wled (sr_ambient st)) \<noteq> None"
    "sv_authentication_enabled (ab_wled (sr_ambient st))"
    "map oc_operation_id (sv_contracts (ab_wled (sr_ambient st))) = [POWER_ON, POWER_OFF, BRIGHTNESS_SET]"
proof -
  let ?net = "\<lambda>_ _ _. Open_Raised OS_Error"
  have settings: "ar_wled sample_server_settings = sample_wled_settings"
    "ds_authentication (ar_dashboard sample_server_settings) = sample_authentication"
    "ar_hyperhdr sample_server_settings = default_hyperhdr"
    "ar_ambient_controls sample_server_settings = default_ambient"
    by (simp_all add: sample_server_settings_def default_aurora_settings_def)
  have enabled: "authentication_enabled sample_auth"
    by (simp add: authentication_enabled_def sample_auth_def sample_authentication_def)
  have "wled_settings_valid sample_wled_settings"
    by (simp add: wled_settings_valid_def sample_wled_settings_def endpoint_valid_def optional_def within_bounds_def
        wled_controls_valid_def expected_led_counts_are_consistent_def host_is_hostname_or_ip_literal_def
        url_tokens_def starts_with_def)
  then obtain w where w: "new_wled_service ?net (\<lambda>_. Undecodable) sample_wled_settings True None [1] 0 = Some w"
    "sv_gate w = 0" "sv_settings w = sample_wled_settings" "sv_adapter w \<noteq> None"
    using valid_wled_builds[of sample_wled_settings "[1]" ?net "\<lambda>_. Undecodable" True 0]
    by (auto simp: sample_wled_settings_def)
  note fields = new_wled_service_fields[OF w(1)]
  have limiter: "sv_limiter w = sample_limiter"
    using fields(1) by (simp add: sample_wled_settings_def new_limiter_def sample_limiter_def
        MAX_TRACKED_CLIENTS_def GLOBAL_ATTEMPT_MULTIPLIER_def)
  have "hyperhdr_settings_valid default_hyperhdr"
    by (simp add: hyperhdr_settings_valid_def default_hyperhdr_def endpoint_valid_def optional_def within_bounds_def
        hyperhdr_controls_valid_def)
  then obtain h where h: "new_hyperhdr_service ?net ?net id (\<lambda>_. Undecodable) default_hyperhdr True None [1] 0 = Some h"
    "hv_gate h = 0"
    using valid_hyperhdr_builds[of default_hyperhdr "[1]" ?net ?net id "\<lambda>_. Undecodable" True 0] by auto
  obtain l where l: "new_limiter (as_operation_limit default_ambient)
      (of_int (as_operation_window_seconds default_ambient)) [1] MAX_TRACKED_CLIENTS = Some l"
    using limiter_exists[of "as_operation_limit default_ambient" "as_operation_window_seconds default_ambient" "[1]"]
    by (auto simp: default_ambient_def)
  obtain cs where cs: "ambient_operation_registry = Inr cs" using ambient_registry_ids by blast
  show thesis
    by (rule that) (use enabled w h limiter fields(5,6) in \<open>auto simp: build_server_def settings sample_auth_new new_ambient_service_def cs l
      sample_world_def\<close>)
qed

lemma sample_created:
  assumes "create sample_sha sample_tokens 1 ''op'' (au_sessions sample_auth) = (Inr c, store)"
  shows "session_view sample_sha store 2 sample_token =
    Some \<lparr>username = ''op'', csrf_token = sample_csrf, expires_in_seconds = 299\<rparr>"
proof -
  have "purge_expired 1 (au_sessions sample_auth) = au_sessions sample_auth"
    by (simp add: purge_expired_def sample_auth_def)
  moreover have "make_space (au_sessions sample_auth) = au_sessions sample_auth"
    by (simp add: make_space.simps sample_auth_def)
  moreover have "opaque_token_is_valid sample_token" "sample_token = sample_tokens 0 32"
    using sample_tokens_valid(1) by (simp_all add: sample_tokens_def sample_token_def)
  ultimately show ?thesis
    using assms sample_tokens_valid
    by (auto simp: sample_auth_def create_def new_token_def Let_def SESSION_TOKEN_BYTES_def sample_csrf_def
        CSRF_TOKEN_BYTES_def numeral_eq_Suc session_view_def session_context_def)
qed

lemma sample_logged_in:
  assumes "sr_control st0 = sample_auth" "sr_world st0 = sample_world"
  obtains r st where "handle_request (at_server 1 sample_server_env) 0 sample_login_post st0 = (r, st)"
    "session_view sample_sha (au_sessions (sr_control st)) 2 sample_token =
      Some \<lparr>username = ''op'', csrf_token = sample_csrf, expires_in_seconds = 299\<rparr>"
    "sr_ambient st = sr_ambient st0" "gates (sr_world st) = gates (sr_world st0)"
proof -
  let ?env = "at_server 1 sample_server_env"
  obtain c store ast where login:
    "authenticate sample_primitives (at_time 1 sample_env) ''op'' ''pw'' ''c'' None (sample_auth, sample_world)
       = (Inr \<lparr>lr_status = LG_SUCCESS, lr_created_session = Some c\<rparr>, ast)"
    "create sample_sha sample_tokens 1 ''op'' (au_sessions sample_auth) = (Inr c, store)"
    "au_sessions (fst ast) = store"
    by (rule sample_login)
  obtain r st where run: "handle_request ?env 0 sample_login_post st0 = (r, st)" by (metis surj_pair)
  have enabled: "authentication_enabled sample_auth"
    by (simp add: authentication_enabled_def sample_auth_def sample_authentication_def)
  have "request_session ?env sample_login_post st0 = ((None, None), st0)"
    using assms by (simp add: request_session_def sample_cookies(1) read_session_cookie_def on_auth_def
        resolve_session_def Let_def)
  moreover have "submit_login ?env sample_login_post [(''username'', ''op''), (''password'', ''pw'')] st0 = (r, st)"
    using run assms enabled sample_forms(1)
    by (simp add: handle_request_def sample_login_post_def sample_post_def sample_server_env_def do_POST_def
        post_login_def form_outcome_def at_server_def[symmetric])
  moreover have "client_identifier_of sample_login_post = ''c''" "se_primitives sample_server_env = sample_primitives"
    by (simp_all add: client_identifier_of_def sample_login_post_def sample_post_def sample_server_env_def)
  ultimately have "sr_control st = fst ast" "sr_ambient st = sr_ambient st0" "sr_world st = snd ast"
    using assms login(1)
    by (auto simp: submit_login_def on_auth_def Let_def split: option.splits prod.splits)
  moreover have "gates (snd ast) = gates sample_world"
    using auth_exec_frame[of sample_primitives sample_env 1 "Login ''op'' ''pw'' ''c'' None" "(sample_auth, sample_world)"]
      login(1) by (simp add: auth_exec_def)
  ultimately show thesis using run sample_created[OF login(2)] login(3) assms(2) by (intro that[of r st]) simp_all
qed

lemma sample_env_parts [simp]:
  "se_primitives sample_server_env = sample_primitives" "se_cookies sample_server_env = sample_load"
  "se_split sample_server_env target = Some (target, [])"
  by (simp_all add: sample_server_env_def)

lemma sample_commanded:
  assumes built: "server_ready sample_authentication st" "sv_settings (ab_wled (sr_ambient st)) = sample_wled_settings"
    and fresh: "sv_limiter (ab_wled (sr_ambient st)) = sample_limiter" "sv_adapter (ab_wled (sr_ambient st)) \<noteq> None"
      "sv_authentication_enabled (ab_wled (sr_ambient st))"
      "map oc_operation_id (sv_contracts (ab_wled (sr_ambient st))) = [POWER_ON, POWER_OFF, BRIGHTNESS_SET]"
      "gates (sr_world st) = (\<lambda>_. new_gate)"
    and view: "session_view sample_sha (au_sessions (sr_control st)) 2 sample_token =
      Some \<lparr>username = ''op'', csrf_token = sample_csrf, expires_in_seconds = 299\<rparr>"
    and run: "handle_request (at_server 2 sample_server_env) 0 sample_power_post st = (r, st')"
  shows "device_calls (sr_world st') \<noteq> device_calls (sr_world st)"
proof -
  let ?env = "at_server 2 sample_server_env"
  let ?opened = "\<lparr>username = ''op'', csrf_token = sample_csrf, expires_in_seconds = 299\<rparr>"
  let ?q = "Request_Power_On (Some ?opened) (Some sample_csrf) ''c''"
  have auth: "auth_ready sample_authentication (sr_control st, sr_world st)"
    and ambient: "ambient_ready (sr_ambient st, sr_world st)" using built(1) by (simp_all add: server_ready_def)
  have enabled: "authentication_enabled (sr_control st)"
    using auth by (simp add: auth_ready_def authentication_enabled_def sample_authentication_def)
  obtain x st1 where on: "on_auth (resolve_session sample_primitives (at_time 2 sample_env) (Some sample_token)) st = (x, st1)"
    by (metis surj_pair)
  have "fst (resolve_session sample_primitives (at_time 2 sample_env) (Some sample_token)
      (sr_control st, sr_world st)) = Some ?opened"
    using resolve_session_view[OF auth] view by (simp add: sample_authentication_def sample_primitives_def)
  then have x: "x = Some ?opened" and st1: "sr_ambient st1 = sr_ambient st"
    "sr_world st1 = snd (auth_exec sample_primitives sample_env 2 (Lookup (Some sample_token)) (sr_control st, sr_world st))"
    using on by (auto simp: on_auth_def auth_exec_def Let_def split: prod.splits)
  have session: "request_session ?env sample_power_post st = ((Some sample_token, Some ?opened), st1)"
    using on x sample_cookies(2) by (simp add: request_session_def sample_env_parts)
  have world: "gates (sr_world st1) = gates (sr_world st)" "device_calls (sr_world st1) = device_calls (sr_world st)"
    using auth_exec_frame st1(2) by (metis snd_conv)+
  have wled: "wled_ready (ab_wled (sr_ambient st), sr_world st1)"
    using ambient wled_ready_frame[OF _ world(1)] by (simp add: ambient_ready_def)
  have "submit_wled ?env 0 sample_power_post POWER_ON ?opened [(''csrf_token'', sample_csrf)] st1 = (r, st')"
    using run enabled session sample_forms(2)
    by (simp add: handle_request_def sample_power_post_def sample_post_def sample_env_parts do_POST_def
        WLED_POST_OPERATIONS_def post_wled_operation_def with_operation_form_def wled_fields_def form_outcome_def)
  then obtain y where served: "on_wled_service (wled_serve (at_time 2 sample_env) 0 ?q) st1 = (y, st')"
    by (auto simp: submit_wled_def wled_serve_eqs Let_def client_identifier_of_def sample_power_post_def
        sample_post_def split: prod.splits)
  have "wled_authorised (ab_wled (sr_ambient st)) ?q"
    using fresh(3,4) built(2) sample_tokens_valid(2)
    by (simp add: wled_authorised_def wled_permitted_def csrf_matches_def csrf_is_valid_def sample_wled_settings_def
        sample_csrf_def)
  moreover have "may_call 0 (ab_wled (sr_ambient st)) (sr_world st1)"
    using fresh(2,5) world(1) by (simp add: may_call_def new_gate_def)
  ultimately obtain new where "new \<noteq> []" "device_calls (snd (snd (wled_serve (at_time 2 sample_env) 0 ?q
      (ab_wled (sr_ambient st), sr_world st1)))) = device_calls (sr_world st1) @ new"
    using wled_serve_calls[OF wled, of "at_time 2 sample_env" 0 ?q] sample_attempt fresh(1) by auto
  then show ?thesis using served world(2) st1(1)
    by (auto simp: on_wled_service_def on_ambient_def Let_def split: prod.splits)
qed

text \<open>The power request of the example calls the device, and the log shows the login behind it.\<close>

theorem operator_behind_every_call_witness:
  "\<exists>st0 es st r st' path fs pre now x post user password.
     build_server (\<lambda>_ _ _. Open_Raised OS_Error) (\<lambda>_ _ _. Open_Raised OS_Error)
       (\<lambda>_ _ _. Open_Raised OS_Error) id (\<lambda>_. Undecodable) (\<lambda>_. [1]) 0 sample_server_settings = Some st0 \<and>
     serve_log sample_server_env es st0 = Some st \<and>
     handle_request (at_server 2 sample_server_env) 0 sample_power_post st = (r, st') \<and>
     device_calls (sr_world st') \<noteq> device_calls (sr_world st) \<and>
     posted sample_server_env sample_power_post = Some (path, fs) \<and>
     es = pre @ (now, x) # post \<and> login_posted sample_server_env (fst (snd x)) user password"
proof -
  obtain st0 where built: "build_server (\<lambda>_ _ _. Open_Raised OS_Error) (\<lambda>_ _ _. Open_Raised OS_Error)
      (\<lambda>_ _ _. Open_Raised OS_Error) id (\<lambda>_. Undecodable) (\<lambda>_. [1]) 0 sample_server_settings = Some st0"
    "sr_control st0 = sample_auth" "sr_world st0 = sample_world" "sv_settings (ab_wled (sr_ambient st0)) = sample_wled_settings"
    "sv_limiter (ab_wled (sr_ambient st0)) = sample_limiter" "sv_adapter (ab_wled (sr_ambient st0)) \<noteq> None"
    "sv_authentication_enabled (ab_wled (sr_ambient st0))"
    "map oc_operation_id (sv_contracts (ab_wled (sr_ambient st0))) = [POWER_ON, POWER_OFF, BRIGHTNESS_SET]"
    by (rule sample_built)
  obtain r1 st where login: "handle_request (at_server 1 sample_server_env) 0 sample_login_post st0 = (r1, st)"
    "session_view sample_sha (au_sessions (sr_control st)) 2 sample_token =
      Some \<lparr>username = ''op'', csrf_token = sample_csrf, expires_in_seconds = 299\<rparr>"
    "sr_ambient st = sr_ambient st0" "gates (sr_world st) = gates (sr_world st0)"
    by (rule sample_logged_in[OF built(2,3)])
  let ?es = "[(1, (0, sample_login_post, r1))] :: (seconds \<times> server_exchange) list"
  obtain r st' where power: "handle_request (at_server 2 sample_server_env) 0 sample_power_post st = (r, st')"
    by (metis surj_pair)
  have log: "serve_log sample_server_env ?es st0 = Some st" by (simp add: serve_log_def exchange_step_def login(1))
  have settings: "ds_authentication (ar_dashboard sample_server_settings) = sample_authentication"
    by (simp add: sample_server_settings_def)
  have ready: "server_ready sample_authentication st"
    using serve_log_ready[OF log] build_server_ready(1)[OF built(1)] settings by simp
  have called: "device_calls (sr_world st') \<noteq> device_calls (sr_world st)"
    by (rule sample_commanded[OF ready _ _ _ _ _ _ login(2) power])
      (use built login in \<open>simp_all add: sample_world_def\<close>)
  have "\<forall>e \<in> set ?es. fst e \<le> 2" by simp
  from operator_behind_every_call[OF built(1) log this power] called
  obtain path fs pre now x post user password where
    "posted sample_server_env sample_power_post = Some (path, fs)" "?es = pre @ (now, x) # post"
    "login_posted sample_server_env (fst (snd x)) user password" by (metis append_Nil2)
  then show ?thesis using built(1) log power called by blast
qed

section \<open>Pages with a session\<close>

text \<open>The session whose CSRF token a page shows.\<close>

fun page_session :: "portal_page \<Rightarrow> SessionContext option" where
  "page_session (Controls_Page v) = Some (cv_session v)"
| "page_session (Wled_Page opened _ _ _ _ _) = Some opened"
| "page_session (Hyperhdr_Page opened _ _ _ _) = Some opened"
| "page_session _ = None"

lemma with_session_page:
  assumes run: "with_session (at_server now env) rq login page st = (r, st')"
    and page: "\<And>a s r s'. page a s = (r, s') \<Longrightarrow> page_session (rs_page r) = Some a \<and> rs_status r = HTTP_OK"
    and shown: "page_session (rs_page r) = Some opened"
  shows "rs_status r = HTTP_OK \<and> cookie_token env rq \<noteq> None \<and>
    fst (resolve_session (se_primitives env) (at_time now (control_of env)) (cookie_token env rq)
      (sr_control st, sr_world st)) = Some opened"
proof -
  have enabled: "authentication_enabled (sr_control st)"
    using run shown by (auto simp: with_session_def control_unavailable_def send_page_def split: if_splits)
  obtain token session st1 where session: "request_session (at_server now env) rq st = ((token, session), st1)"
    by (metis surj_pair)
  obtain a where a: "session = Some a" "page a st1 = (r, st')"
    using run enabled session shown by (cases session) (auto simp: with_session_def redirect_def send_page_def)
  have "token = cookie_token env rq \<and> token \<noteq> None \<and>
      fst (resolve_session (se_primitives env) (at_time now (control_of env)) token (sr_control st, sr_world st)) = Some a"
    by (rule request_session_moved[OF session]) (use a(1) in blast)
  then show ?thesis using page[OF a(2)] shown by auto
qed

lemma operation_pages:
  assumes "with_operation_form env rq deny login message limit allowed submit st = (Some resp, st')"
    and "\<And>opened fs s s' x. submit opened fs s = (Some x, s') \<Longrightarrow> page_session (rs_page x) = None"
  shows "page_session (rs_page resp) = None"
  using assms by (auto simp: with_operation_form_def control_unavailable_def send_page_def redirect_def refused_form_def
      split: if_splits prod.splits option.splits sum.splits)

lemma submit_pages:
  "submit_ambient env thread rq z opened fs st = (Some resp, st') \<Longrightarrow> page_session (rs_page resp) = None"
  "submit_wled env thread rq x opened fs st = (Some resp, st') \<Longrightarrow> page_session (rs_page resp) = None"
  "submit_hyperhdr env thread rq y opened fs st = (Some resp, st') \<Longrightarrow> page_session (rs_page resp) = None"
  by (auto simp: submit_ambient_def submit_wled_def submit_brightness_def submit_hyperhdr_def redirect_notice_def
      redirect_def send_page_def Let_def split: prod.splits option.splits if_splits)

lemma do_POST_pages:
  assumes "do_POST env thread rq path st = (Some resp, st')"
  shows "page_session (rs_page resp) = None"
proof -
  note answers = control_unavailable_def send_page_def redirect_def refused_form_def failed_login_def method_not_allowed_def
  have "post_login env rq st = (Some resp, st') \<Longrightarrow> page_session (rs_page resp) = None"
    by (auto simp: post_login_def submit_login_def answers Let_def split: if_splits prod.splits option.splits sum.splits)
  moreover have "post_logout env rq st = (Some resp, st') \<Longrightarrow> page_session (rs_page resp) = None"
    by (auto simp: post_logout_def answers Let_def split: if_splits prod.splits option.splits sum.splits)
  moreover have "post_wled_operation env thread rq x st = (Some resp, st') \<Longrightarrow> page_session (rs_page resp) = None"
    "post_hyperhdr_operation env thread rq y st = (Some resp, st') \<Longrightarrow> page_session (rs_page resp) = None"
    "post_ambient_operation env thread rq z st = (Some resp, st') \<Longrightarrow> page_session (rs_page resp) = None" for x y z
    unfolding post_wled_operation_def post_hyperhdr_operation_def post_ambient_operation_def
    by (erule operation_pages, erule submit_pages)+
  ultimately show ?thesis
    using assms by (auto simp: do_POST_def answers split: if_splits option.splits)
qed

text \<open>
  C10. A page that shows a CSRF token is the answer to a GET whose session cookie resolves, at that
  time, to the very session of the token; no other request is shown one.
\<close>

theorem csrf_token_shown_to_owner:
  assumes "handle_request (at_server t env) thread rq st = (Some resp, st')"
    and "page_session (rs_page resp) = Some opened"
  shows "rq_method rq = GET \<and> rs_status resp = HTTP_OK \<and>
    (\<exists>token. cookie_token env rq = Some token \<and>
       fst (resolve_session (se_primitives env) (at_time t (control_of env)) (Some token)
         (sr_control st, sr_world st)) = Some opened)"
proof -
  obtain path query where split: "se_split env (rq_target rq) = Some (path, query)"
    using assms(1) by (auto simp: handle_request_def split: option.splits)
  have get: "rq_method rq = GET"
    using assms split do_POST_pages[of "at_server t env" thread rq path st resp st']
    by (auto simp: handle_request_def method_not_allowed_def send_page_def split: http_method.splits)
  then have run: "do_GET (at_server t env) rq path query st = (resp, st')"
    using assms(1) split by (auto simp: handle_request_def Let_def split: prod.splits)
  have "get_login (at_server t env) rq query st \<noteq> (resp, st')" "get_control_status (at_server t env) rq st \<noteq> (resp, st')"
    "get_report (at_server t env) rq path st \<noteq> (resp, st')"
    using assms(2) by (auto simp: get_login_def get_control_status_def get_report_def control_unavailable_def
        send_json_def send_page_def redirect_def Let_def split: if_splits prod.splits option.splits)
  then consider "get_controls (at_server t env) rq query st = (resp, st')"
    | "get_wled_controls (at_server t env) rq query st = (resp, st')"
    | "get_hyperhdr_controls (at_server t env) rq query st = (resp, st')"
    using run assms(2) by (auto simp: do_GET_def method_not_allowed_def send_page_def split: if_splits)
  then have "rs_status resp = HTTP_OK \<and> cookie_token env rq \<noteq> None \<and>
      fst (resolve_session (se_primitives env) (at_time t (control_of env)) (cookie_token env rq)
        (sr_control st, sr_world st)) = Some opened"
    by cases (auto simp: get_controls_def get_wled_controls_def get_hyperhdr_controls_def Let_def send_page_def
        dest!: with_session_page[OF _ _ assms(2)] split: prod.splits)
  then show ?thesis using get by auto
qed

text \<open>The operator of the example opens the page of the WLED controls.\<close>

definition sample_page_get :: portal_request where
  "sample_page_get =
     \<lparr>rq_method = GET, rq_target = ''/controls/wled'', rq_headers = [(''Cookie'', sample_cookie)], rq_body = [],
      rq_client = Some ''c''\<rparr>"

lemma sample_page_cookie:
  "read_session_cookie sample_load (header_of ''Cookie'' sample_page_get) =
     \<lparr>ck_token = Some sample_token, ck_malformed = False\<rparr>"
  by code_simp

theorem csrf_token_shown_to_owner_witness:
  "\<exists>st resp st' opened. handle_request (at_server 2 sample_server_env) 0 sample_page_get st = (Some resp, st') \<and>
     page_session (rs_page resp) = Some opened \<and> csrf_token opened = sample_csrf \<and> rs_status resp = HTTP_OK"
proof -
  let ?env = "at_server 2 sample_server_env"
  let ?opened = "\<lparr>username = ''op'', csrf_token = sample_csrf, expires_in_seconds = 299\<rparr>"
  obtain st0 where built: "build_server (\<lambda>_ _ _. Open_Raised OS_Error) (\<lambda>_ _ _. Open_Raised OS_Error)
      (\<lambda>_ _ _. Open_Raised OS_Error) id (\<lambda>_. Undecodable) (\<lambda>_. [1]) 0 sample_server_settings = Some st0"
    "sr_control st0 = sample_auth" "sr_world st0 = sample_world"
    by (rule sample_built)
  obtain r1 st where login: "handle_request (at_server 1 sample_server_env) 0 sample_login_post st0 = (r1, st)"
    "session_view sample_sha (au_sessions (sr_control st)) 2 sample_token = Some ?opened"
    by (rule sample_logged_in[OF built(2,3)])
  have auth: "auth_ready sample_authentication (sr_control st, sr_world st)"
    using handle_request_ready[OF login(1) build_server_ready(1)[OF built(1)]]
    by (simp add: server_ready_def sample_server_settings_def)
  have enabled: "authentication_enabled (sr_control st)"
    using auth by (simp add: auth_ready_def authentication_enabled_def sample_authentication_def)
  obtain x st1 where on: "on_auth (resolve_session sample_primitives (at_time 2 sample_env) (Some sample_token)) st = (x, st1)"
    by (metis surj_pair)
  have "fst (resolve_session sample_primitives (at_time 2 sample_env) (Some sample_token)
      (sr_control st, sr_world st)) = Some ?opened"
    using resolve_session_view[OF auth] login(2) by (simp add: sample_authentication_def sample_primitives_def)
  then have "x = Some ?opened" using on by (auto simp: on_auth_def Let_def split: prod.splits)
  then have session: "request_session ?env sample_page_get st = ((Some sample_token, Some ?opened), st1)"
    using on sample_page_cookie by (simp add: request_session_def)
  obtain report st2 where health: "get_health ?env st1 = (report, st2)" by (metis surj_pair)
  obtain resp st' where run: "handle_request ?env 0 sample_page_get st = (Some resp, st')"
    "page_session (rs_page resp) = Some ?opened"
    using enabled session health
    by (simp add: handle_request_def sample_page_get_def do_GET_def WLED_POST_OPERATIONS_def HYPERHDR_POST_OPERATIONS_def
        AMBIENT_POST_OPERATIONS_def PORTAL_CSS_PATH_def get_wled_controls_def with_session_def Let_def send_page_def
        split: prod.split)
  from csrf_token_shown_to_owner[OF run] run show ?thesis by fastforce
qed

end
