(* ===== verification/Spec2Isabelle.thy ===== *)
theory Spec2Isabelle
  imports Ambient_Service Auth_Service Forms_Cookies Settings Runtime Health_Types Health_Evaluation Alert_Lifecycle Sampling_Gap Health_Reasons Health_Report Health_Projection History_Schema Ingestion_Store Ingestion Ingestion_Logic Ingestion_Ledger Ingestion_Alerts Ingestion_Plans Ingestion_Samples Ingestion_Evaluation Ingestion_Atomic Ingestion_Correct Store_World History_Queries History_Pages Retention Store_Steps Retention_Correct Storage_Envelope History_Store Orchestration Orchestration_Correct Scheduler Scheduler_Correct Health_Service Dashboard_Server Dashboard_Correct
begin

text \<open>
  Aurora Core (\<open>src/src/aurora_core\<close>): the control plane.
\<close>

end
